(* ===== verification/Prelude.thy ===== *)
theory Prelude
  imports Main "HOL-Library.Word" "HOL-Library.While_Combinator"
begin

text \<open>
  Shared vocabulary of the development: the C integer types of the 64-bit RISC-V
  configuration, the bit macros of \<^verbatim>\<open>include/util.h\<close>, lemma collections for the
  simplifier, and the generic facts on words, alignment and loops that the component
  theories use.
\<close>

unbundle bit_operations_syntax

section \<open>Machine types and bit macros\<close>

type_synonym word_t = "64 word"
type_synonym uint64 = "64 word"
type_synonym uint32 = "32 word"
type_synonym uint8 = "8 word"
type_synonym ticks_t = "64 word"

abbreviation (input) wordBits :: nat where
  "wordBits \<equiv> 64"

abbreviation (input) wordRadix :: nat where
  "wordRadix \<equiv> 6"

text \<open>
  \<^verbatim>\<open>BIT(n)\<close> and \<^verbatim>\<open>MASK(n)\<close> of \<^verbatim>\<open>include/util.h\<close>. A shift by the word size or more is
  undefined in C; the model shifts the bit out, and the code's own guards keep the
  argument below \<^term>\<open>wordBits\<close>.
\<close>

definition BIT :: "nat \<Rightarrow> word_t" where
  "BIT n = push_bit n 1"

definition MASK :: "nat \<Rightarrow> word_t" where
  "MASK n = BIT n - 1"

named_theorems bits_simps \<open>unfolding of the bit macros\<close>

section \<open>Words\<close>

lemma unat_exp_word:
  assumes "n < LENGTH('a)"
  shows "unat (2 ^ n :: 'a::len word) = 2 ^ n"
proof -
  have "(2 ^ n :: 'a word) = word_of_nat (2 ^ n)" by simp
  then have "unat (2 ^ n :: 'a word) = 2 ^ n mod 2 ^ LENGTH('a)"
    by (simp only: unat_of_nat)
  then show ?thesis using assms by simp
qed

lemma unat_mask_word:
  assumes "n < LENGTH('a)"
  shows "unat (mask n :: 'a::len word) = 2 ^ n - 1"
proof -
  have "unat (mask n :: 'a word) = unat (2 ^ n - 1 :: 'a word)"
    by (simp add: mask_eq_exp_minus_1)
  also have "\<dots> = unat (2 ^ n :: 'a word) - unat (1 :: 'a word)"
    using assms by (intro unat_sub) (simp add: word_le_nat_alt unat_exp_word)
  finally show ?thesis using assms by (simp add: unat_exp_word)
qed

lemma BIT_eq [bits_simps]: "BIT n = 2 ^ n"
  by (simp add: BIT_def push_bit_eq_mult)

lemma MASK_eq_mask [bits_simps]: "MASK n = mask n"
  by (simp add: MASK_def BIT_eq mask_eq_exp_minus_1)

lemma unat_BIT: "n < 64 \<Longrightarrow> unat (BIT n) = 2 ^ n"
  by (simp add: BIT_eq unat_exp_word)

lemma unat_MASK: "n < 64 \<Longrightarrow> unat (MASK n) = 2 ^ n - 1"
  by (simp add: MASK_eq_mask unat_mask_word)

lemma drop_bit_eq_zero_iff_less:
  fixes x :: "'a::len word"
  assumes "n < LENGTH('a)"
  shows "drop_bit n x = 0 \<longleftrightarrow> x < 2 ^ n"
proof -
  have "drop_bit n x = 0 \<longleftrightarrow> unat x div 2 ^ n = 0"
    by (metis drop_bit_eq_div unat_drop_bit_eq unat_eq_zero)
  also have "\<dots> \<longleftrightarrow> unat x < 2 ^ n"
    by (simp add: div_eq_0_iff)
  also have "\<dots> \<longleftrightarrow> x < 2 ^ n"
    using assms by (simp add: word_less_nat_alt unat_exp_word)
  finally show ?thesis .
qed

lemma unat_less_2p: "unat (w :: 'a::len word) < 2 ^ LENGTH('a)"
  by (rule unsigned_less)

lemma unat_word64_less: "unat (w :: word_t) < 2 ^ 64"
  using unat_less_2p [of w] by simp

lemma unat_add_no_overflow:
  fixes a b :: "'a::len word"
  shows "unat a + unat b < 2 ^ LENGTH('a) \<Longrightarrow> unat (a + b) = unat a + unat b"
  by (simp add: unat_word_ariths)

lemma unat_sub_no_underflow:
  fixes a b :: "'a::len word"
  shows "unat b \<le> unat a \<Longrightarrow> unat (a - b) = unat a - unat b"
  by (simp add: unat_sub word_le_nat_alt)

lemma mod_add_cong_nat_left:
  fixes h j k m :: nat
  assumes "(h + j) mod m = (h + k) mod m"
  shows "j mod m = k mod m"
proof -
  have "int (h + j) mod int m = int (h + k) mod int m"
    using assms by (metis zmod_int)
  then have "(int (h + j) - int h) mod int m = (int (h + k) - int h) mod int m"
    by (rule mod_diff_cong) simp
  then have "int (j mod m) = int (k mod m)" by (simp add: zmod_int)
  then show ?thesis by simp
qed

section \<open>Alignment\<close>

text \<open>
  Alignment to \<open>2 ^ n\<close> bytes; the kernel tests it with \<^verbatim>\<open>IS_ALIGNED\<close>, a masked comparison.
\<close>

definition is_aligned :: "word_t \<Rightarrow> nat \<Rightarrow> bool" where
  "is_aligned p n \<longleftrightarrow> 2 ^ n dvd unat p"

lemma is_aligned_take_bit: "is_aligned p n \<longleftrightarrow> take_bit n p = 0"
proof -
  have "take_bit n p = 0 \<longleftrightarrow> unat (take_bit n p) = 0" by (simp only: unat_eq_zero)
  also have "\<dots> \<longleftrightarrow> 2 ^ n dvd unat p"
    by (simp add: unsigned_take_bit_eq) (simp add: take_bit_eq_mod dvd_eq_mod_eq_0)
  finally show ?thesis by (simp add: is_aligned_def)
qed

lemma is_aligned_and_mask: "is_aligned p n \<longleftrightarrow> p AND MASK n = 0"
  by (simp add: is_aligned_take_bit MASK_eq_mask take_bit_eq_mask)

lemma unat_and_MASK: "unat (x AND MASK n) = unat x mod 2 ^ n"
proof -
  have "x AND MASK n = take_bit n x" by (simp add: MASK_eq_mask take_bit_eq_mask)
  then show ?thesis by (simp only: unsigned_take_bit_eq) (simp add: take_bit_eq_mod)
qed

lemma and_mask_less: "unat x < 2 ^ n \<Longrightarrow> x AND MASK n = x"
  by (metis MASK_eq_mask take_bit_eq_mask take_bit_nat_eq_self unsigned_take_bit_eq word_unat_eq_iff)

lemma and_not_mask_bits: "bit (x AND NOT (MASK n)) j \<longleftrightarrow> bit x j \<and> n \<le> j"
  by (auto simp: MASK_eq_mask bit_and_iff bit_not_iff bit_mask_iff dest: bit_imp_le_length)

lemma and_mask_bits: "bit (x AND MASK n) j \<longleftrightarrow> bit x j \<and> j < n"
  by (auto simp: MASK_eq_mask bit_and_iff bit_mask_iff dest: bit_imp_le_length)

lemma aligned_low_bits: "is_aligned p n \<Longrightarrow> j < n \<Longrightarrow> \<not> bit p j"
  by (metis and_mask_bits bit_0_eq bot_apply bot_bool_def is_aligned_and_mask)

lemma less_high_bits: "unat (x :: word_t) < 2 ^ n \<Longrightarrow> n \<le> j \<Longrightarrow> \<not> bit x j"
  using and_mask_bits [of x n j] and_mask_less [of x n] by auto

lemma aligned_and_not_mask: "is_aligned p n \<Longrightarrow> p AND NOT (MASK n) = p"
  by (rule bit_word_eqI) (metis aligned_low_bits and_not_mask_bits not_less)

lemma aligned_or_parts:
  assumes "is_aligned p n" and "unat x < 2 ^ n"
  shows "(p OR x) AND MASK n = x" and "(p OR x) AND NOT (MASK n) = p"
proof -
  show "(p OR x) AND MASK n = x"
    by (rule bit_word_eqI) (metis assms aligned_low_bits and_mask_bits bit_or_iff less_high_bits not_less)
  show "(p OR x) AND NOT (MASK n) = p"
    by (rule bit_word_eqI) (metis assms aligned_low_bits and_not_mask_bits bit_or_iff less_high_bits not_less)
qed

lemma aligned_add_or:
  assumes "is_aligned p n" and "unat x < 2 ^ n"
  shows "p + x = p OR x"
proof -
  have "p AND x = 0"
    by (rule bit_word_eqI) (metis assms aligned_low_bits bit_0_eq bit_and_iff bot_apply bot_bool_def less_high_bits not_less)
  then show ?thesis by (rule disjunctive_add_eq_or)
qed

lemma is_aligned_weaken: "is_aligned p n \<Longrightarrow> m \<le> n \<Longrightarrow> is_aligned p m"
  unfolding is_aligned_def by (meson dvd_trans le_imp_power_dvd)

lemma aligned_no_overflow:
  assumes "is_aligned p n" and "n < 64"
  shows "unat p + 2 ^ n \<le> 2 ^ 64"
proof -
  obtain k where k: "unat p = 2 ^ n * k" using assms(1) by (auto simp: is_aligned_def)
  have "(2::nat) ^ 64 = 2 ^ n * 2 ^ (64 - n)" using assms(2) by (simp flip: power_add)
  moreover have "unat p < 2 ^ 64" by (rule unat_word64_less)
  ultimately have "k < 2 ^ (64 - n)" using k by (metis nat_mult_less_cancel_disj)
  then have "2 ^ n * Suc k \<le> 2 ^ n * 2 ^ (64 - n)" by (intro mult_le_mono2) simp
  with k \<open>(2::nat) ^ 64 = _\<close> show ?thesis by simp
qed

lemma aligned_add_mask:
  assumes "is_aligned p n" and "n < 64"
  shows "unat (p + MASK n) = unat p + 2 ^ n - 1" and "p \<le> p + MASK n"
proof -
  have "unat (p + MASK n) = unat p + unat (MASK n)"
    using aligned_no_overflow [OF assms] assms(2) by (intro unat_add_no_overflow) (simp add: unat_MASK)
  moreover have "unat p \<le> unat p + 2 ^ n - 1" using one_le_power [of "2::nat" n] by linarith
  ultimately show "unat (p + MASK n) = unat p + 2 ^ n - 1" "p \<le> p + MASK n"
    using assms(2) unfolding word_le_nat_alt by (simp_all add: unat_MASK)
qed

section \<open>Loops\<close>

text \<open>
  The contract of a C \<^verbatim>\<open>while\<close> loop with an invariant and a variant: it returns, in a state
  that satisfies the invariant and no longer the guard. The components interpret it for
  each of their loops.
\<close>

locale variant_loop =
  fixes guard :: "'s \<Rightarrow> bool" and body :: "'s \<Rightarrow> 's"
    and inv :: "'s \<Rightarrow> bool" and variant :: "'s \<Rightarrow> nat"
  assumes step_inv: "inv s \<Longrightarrow> guard s \<Longrightarrow> inv (body s)"
    and step_variant: "inv s \<Longrightarrow> guard s \<Longrightarrow> variant (body s) < variant s"
begin

lemma loop_returns:
  assumes "inv s"
  obtains t where "while_option guard body s = Some t" and "inv t" and "\<not> guard t"
proof -
  obtain t where t: "while_option guard body s = Some t"
    using measure_while_option_Some [of inv guard body variant s] step_inv step_variant assms
    by blast
  moreover have "inv t"
    using while_option_rule [where P = inv, OF _ t] step_inv assms by blast
  moreover have "\<not> guard t"
    using while_option_stop [OF t] .
  ultimately show thesis by (rule that)
qed

end

end
