(* ===== verification/Util.thy ===== *)
theory Util
  imports Prelude
begin

text \<open>
  \<^verbatim>\<open>src/util.c\<close>: the branch-free bit counting routines the scheduler uses, the memory
  and string routines, and their specifications.
\<close>

section \<open>Counting leading and trailing zeros\<close>

text \<open>
  The source spells the loop out, one block per iteration \<open>i\<close>, with the same statements
  in each block; the model names the block and composes it as often as the source does.
\<close>

definition clz_iteration ::
  "nat \<Rightarrow> 'a::len word \<times> 'a word \<times> uint32 \<Rightarrow> 'a word \<times> 'a word \<times> uint32" where
  "clz_iteration i = (\<lambda>(x, mask, count).
     let mask = drop_bit (2 ^ i) mask;
         bits = push_bit i (of_bool (mask < x)) :: uint32
     in (drop_bit (unat bits) x, mask, count - bits))"

definition clz32 :: "uint32 \<Rightarrow> uint32" where
  "clz32 x =
     (let (x, _, count) =
        clz_iteration 0 (clz_iteration 1 (clz_iteration 2 (clz_iteration 3
          (clz_iteration 4 (x, - 1, 32)))))
      in count - x)"

definition clz64 :: "uint64 \<Rightarrow> uint32" where
  "clz64 x =
     (let (x, _, count) =
        clz_iteration 0 (clz_iteration 1 (clz_iteration 2 (clz_iteration 3
          (clz_iteration 4 (clz_iteration 5 (x, - 1, 64))))))
      in count - ucast x)"

definition ctz_iteration ::
  "nat \<Rightarrow> 'a::len word \<times> 'a word \<times> uint32 \<Rightarrow> 'a word \<times> 'a word \<times> uint32" where
  "ctz_iteration i = (\<lambda>(x, mask, count).
     let mask = drop_bit (2 ^ i) mask;
         bits = push_bit i (of_bool (x AND mask = 0)) :: uint32
     in (drop_bit (unat bits) x, mask, count + bits))"

definition ctz32 :: "uint32 \<Rightarrow> uint32" where
  "ctz32 x =
     (let (_, _, count) =
        ctz_iteration 0 (ctz_iteration 1 (ctz_iteration 2 (ctz_iteration 3
          (ctz_iteration 4 (x, - 1, of_bool (x = 0))))))
      in count)"

definition ctz64 :: "uint64 \<Rightarrow> uint32" where
  "ctz64 x =
     (let (_, _, count) =
        ctz_iteration 0 (ctz_iteration 1 (ctz_iteration 2 (ctz_iteration 3
          (ctz_iteration 4 (ctz_iteration 5 (x, - 1, of_bool (x = 0)))))))
      in count)"

text \<open>\<^verbatim>\<open>clzl\<close> of \<^verbatim>\<open>include/util.h\<close> in a 64-bit configuration without compiler builtins.\<close>

definition clzl :: "word_t \<Rightarrow> word_t" where
  "clzl x = ucast (clz64 x)"

section \<open>Correctness of the bit counting routines\<close>

text \<open>
  Before iteration \<open>i - 1\<close> the focus is the low \<open>2 ^ i\<close> bits: the current value is the
  input shifted right by the total shift \<open>s\<close>, it fits into the focus and it is not zero
  unless the input was.
\<close>

definition clz_inv :: "'a::len word \<Rightarrow> nat \<Rightarrow> 'a word \<times> 'a word \<times> uint32 \<Rightarrow> bool" where
  "clz_inv x0 i = (\<lambda>(x, m, count). \<exists>s.
     x = drop_bit s x0 \<and> m = mask (2 ^ i) \<and> count = of_nat (LENGTH('a) - s) \<and>
     s + 2 ^ i \<le> LENGTH('a) \<and> drop_bit (2 ^ i) x = 0 \<and> (x0 \<noteq> 0 \<longrightarrow> x \<noteq> 0))"

lemma drop_bit_mask_word:
  "n \<le> LENGTH('a) \<Longrightarrow> drop_bit m (mask n :: 'a::len word) = mask (n - m)"
  by (rule bit_word_eqI) (auto simp: bit_drop_bit_eq bit_mask_iff)

lemma minus_1_eq_mask_word: "(- 1 :: 'a::len word) = mask LENGTH('a)"
  by (rule bit_word_eqI) (simp add: bit_mask_iff)

lemma drop_bit_word_beyond_length: "drop_bit LENGTH('a) (x :: 'a::len word) = 0"
  by (rule bit_word_eqI) (auto simp: bit_drop_bit_eq dest: bit_imp_le_length)

lemma unat_bits_shift:
  "i < 6 \<Longrightarrow> unat (push_bit i (of_bool P) :: uint32) = (if P then 2 ^ i else 0)"
  by (cases P) (simp_all add: push_bit_eq_mult unat_exp_word)

lemma mask_less_iff_drop_bit:
  fixes x :: "'a::len word"
  assumes "n < LENGTH('a)"
  shows "mask n < x \<longleftrightarrow> drop_bit n x \<noteq> 0"
proof -
  have "mask n < x \<longleftrightarrow> 2 ^ n - 1 < unat x"
    using assms by (simp add: word_less_nat_alt unat_mask_word)
  also have "\<dots> \<longleftrightarrow> \<not> x < 2 ^ n"
    using assms by (auto simp: word_less_nat_alt unat_exp_word not_less)
      (metis One_nat_def Suc_pred less_eq_Suc_le zero_less_numeral zero_less_power)
  finally show ?thesis using assms by (simp add: drop_bit_eq_zero_iff_less)
qed

lemma clz_iteration_inv:
  fixes x0 :: "'a::len word"
  assumes inv: "clz_inv x0 j st" and j: "j = Suc i" and i: "i < 6"
  shows "clz_inv x0 i (clz_iteration i st)"
proof -
  obtain x m count where st: "st = (x, m, count)" by (metis surj_pair)
  obtain s where x: "x = drop_bit s x0" and m: "m = mask (2 * 2 ^ i)"
    and c: "count = of_nat (LENGTH('a) - s)" and s: "s + 2 * 2 ^ i \<le> LENGTH('a)"
    and fit: "drop_bit (2 * 2 ^ i) x = 0" and nz: "x0 \<noteq> 0 \<longrightarrow> x \<noteq> 0"
    using inv unfolding j st clz_inv_def prod.case power_Suc by blast
  have lt: "2 ^ i < LENGTH('a)"
    using s by (metis add_leD2 le_neq_implies_less mult_2 add_diff_cancel_left' diff_is_0_eq' le_add2 power_eq_0_iff zero_neq_numeral)
  have m': "drop_bit (2 ^ i) m = mask (2 ^ i)"
    using s by (simp add: m drop_bit_mask_word)
  show ?thesis
  proof (cases "drop_bit (2 ^ i) x = 0")
    case True
    with lt m' have "\<not> drop_bit (2 ^ i) m < x"
      by (simp add: mask_less_iff_drop_bit)
    with True show ?thesis
      using x c s nz m' by (auto simp: clz_inv_def clz_iteration_def st intro!: exI [of _ s])
  next
    case False
    with lt m' have less: "drop_bit (2 ^ i) m < x"
      by (simp add: mask_less_iff_drop_bit)
    have step: "clz_iteration i st =
      (drop_bit (2 ^ i) x, mask (2 ^ i), count - push_bit i 1)"
      using less m' unat_bits_shift [OF i, of True] by (simp add: clz_iteration_def st)
    have "count - push_bit i 1 = of_nat (LENGTH('a) - (s + 2 ^ i))"
      using s by (simp add: c push_bit_eq_mult of_nat_diff)
    moreover have "drop_bit (2 ^ i) (drop_bit (2 ^ i) x) = 0"
      using fit by (simp add: drop_bit_drop_bit mult_2)
    ultimately show ?thesis
      using False x s
      by (auto simp: clz_inv_def step drop_bit_drop_bit add.commute intro!: exI [of _ "s + 2 ^ i"])
  qed
qed

lemma clz_inv_end:
  fixes x0 :: "'a::len word"
  assumes "clz_inv x0 0 (x, m, count)" and "x0 \<noteq> 0" and "LENGTH('a) \<le> 64"
  obtains s where "s < LENGTH('a)" and "bit x0 s" and "\<And>j. s < j \<Longrightarrow> \<not> bit x0 j"
    and "x = 1" and "count = of_nat (LENGTH('a) - s)"
proof -
  obtain s where x1: "x = drop_bit s x0" and c: "count = of_nat (LENGTH('a) - s)"
    and s1: "s + 2 ^ 0 \<le> LENGTH('a)" and x2: "drop_bit (2 ^ 0) x = 0" and x3: "x0 \<noteq> 0 \<longrightarrow> x \<noteq> 0"
    using assms(1) unfolding clz_inv_def prod.case by blast
  have s: "s < LENGTH('a)" and x: "x = drop_bit s x0" "drop_bit 1 x = 0" "x \<noteq> 0"
    using s1 x1 x2 x3 assms(2) by auto
  have high: "\<not> bit x j" if "0 < j" for j
  proof -
    have "bit x j = bit (drop_bit 1 x) (j - 1)" using that by (simp add: bit_drop_bit_eq)
    then show ?thesis by (simp only: x(2)) simp
  qed
  have "bit x 0"
  proof (rule ccontr)
    assume "\<not> bit x 0"
    then have "\<not> bit x j" for j using high [of j] by (cases j) auto
    then have "x = 0" by (intro bit_word_eqI) simp
    with x(3) show False by simp
  qed
  then have "bit x0 s" by (simp add: x(1) bit_drop_bit_eq)
  moreover have "\<not> bit x0 j" if "s < j" for j
    using high [of "j - s"] that by (simp add: x(1) bit_drop_bit_eq)
  moreover have "x = 1"
  proof (rule bit_word_eqI)
    fix j show "bit x j \<longleftrightarrow> bit (1 :: 'a word) j"
      using \<open>bit x 0\<close> high [of j] by (cases j) (simp_all add: bit_1_iff)
  qed
  ultimately show thesis using s c that by blast
qed

text \<open>
  The characterisation the scheduler relies on: \<open>clz64\<close> of a non-zero word gives the index of
  its most significant set bit.
\<close>

lemma clz_inv_start:
  "LENGTH('a::len) = 2 ^ i \<Longrightarrow> clz_inv (x :: 'a word) i (x, - 1, of_nat LENGTH('a))"
  by (simp add: clz_inv_def minus_1_eq_mask_word drop_bit_word_beyond_length exI [of _ 0])

lemma clz64_index:
  assumes "x \<noteq> 0"
  obtains s where "s < 64" and "bit x s" and "\<And>j. s < j \<Longrightarrow> \<not> bit x j"
    and "clz64 x = of_nat (63 - s)"
proof -
  define st where "st = clz_iteration 0 (clz_iteration 1 (clz_iteration 2 (clz_iteration 3
          (clz_iteration 4 (clz_iteration 5 (x, - 1, 64))))))"
  have "clz_inv x 6 (x, - 1, 64)"
    using clz_inv_start [where 'a=64, of 6 x] by simp
  note inv6 = this
  have inv: "clz_inv x 0 st"
    unfolding st_def
    by (rule clz_iteration_inv [OF clz_iteration_inv [OF clz_iteration_inv
          [OF clz_iteration_inv [OF clz_iteration_inv [OF clz_iteration_inv [OF inv6]]]]]]) simp_all
  obtain y m c where st: "st = (y, m, c)" by (metis surj_pair)
  obtain s where "s < 64" "bit x s" "\<And>j. s < j \<Longrightarrow> \<not> bit x j"
    and y: "y = 1" and c: "c = of_nat (64 - s)"
    using clz_inv_end [OF inv [unfolded st] assms] by auto
  moreover have "clz64 x = of_nat (63 - s)"
    unfolding clz64_def st_def [symmetric] st using \<open>s < 64\<close> y c by (simp add: of_nat_diff)
  ultimately show thesis using that by blast
qed

text \<open>
  For trailing zeros the bits shifted out are all zero, and the focus holds a set bit
  unless the input is zero.
\<close>

definition ctz_inv :: "'a::len word \<Rightarrow> nat \<Rightarrow> 'a word \<times> 'a word \<times> uint32 \<Rightarrow> bool" where
  "ctz_inv x0 i = (\<lambda>(x, m, count). \<exists>s.
     x = drop_bit s x0 \<and> m = mask (2 ^ i) \<and> count = of_nat s \<and>
     s + 2 ^ i \<le> LENGTH('a) \<and> take_bit s x0 = 0 \<and> take_bit (2 ^ i) x \<noteq> 0)"

lemma take_bit_add_eq_0:
  fixes x :: "'a::len word"
  assumes "take_bit s x = 0" and "take_bit n (drop_bit s x) = 0"
  shows "take_bit (s + n) x = 0"
proof (rule bit_word_eqI)
  fix j
  show "bit (take_bit (s + n) x) j \<longleftrightarrow> bit (0 :: 'a word) j"
  proof (cases "j < s")
    case True
    with assms(1) show ?thesis by (metis bit_take_bit_iff trans_less_add1)
  next
    case False
    then have "bit (take_bit n (drop_bit s x)) (j - s) \<longleftrightarrow> bit (take_bit (s + n) x) j"
      by (auto simp: bit_take_bit_iff bit_drop_bit_eq)
    with assms(2) show ?thesis by simp
  qed
qed

lemma ctz_iteration_inv:
  fixes x0 :: "'a::len word"
  assumes inv: "ctz_inv x0 j st" and j: "j = Suc i" and i: "i < 6"
  shows "ctz_inv x0 i (ctz_iteration i st)"
proof -
  obtain x m count where st: "st = (x, m, count)" by (metis surj_pair)
  obtain s where x: "x = drop_bit s x0" and m: "m = mask (2 * 2 ^ i)"
    and c: "count = of_nat s" and s: "s + 2 * 2 ^ i \<le> LENGTH('a)"
    and out: "take_bit s x0 = 0" and foc: "take_bit (2 * 2 ^ i) x \<noteq> 0"
    using inv unfolding j st ctz_inv_def prod.case power_Suc by blast
  have m': "drop_bit (2 ^ i) m = mask (2 ^ i)"
    using s by (simp add: m drop_bit_mask_word)
  have test: "x AND drop_bit (2 ^ i) m = 0 \<longleftrightarrow> take_bit (2 ^ i) x = 0"
    by (simp add: m' take_bit_eq_mask)
  show ?thesis
  proof (cases "take_bit (2 ^ i) x = 0")
    case False
    then have "ctz_iteration i st = (x, mask (2 ^ i), count)"
      using test m' by (simp add: ctz_iteration_def st)
    with False show ?thesis
      unfolding ctz_inv_def using x c s out by (auto intro!: exI [of _ s])
  next
    case True
    have step: "ctz_iteration i st = (drop_bit (2 ^ i) x, mask (2 ^ i), count + push_bit i 1)"
      using True test m' unat_bits_shift [OF i, of True] by (simp add: ctz_iteration_def st)
    have cnt: "count + push_bit i 1 = of_nat (s + 2 ^ i)"
      by (simp add: c push_bit_eq_mult)
    have "take_bit (2 ^ i) (drop_bit (2 ^ i) x) \<noteq> 0"
      using take_bit_add_eq_0 [OF True, of "2 ^ i"] foc by (auto simp: mult_2)
    moreover have "take_bit (s + 2 ^ i) x0 = 0"
      using take_bit_add_eq_0 [OF out] True x by simp
    ultimately show ?thesis
      unfolding ctz_inv_def step prod.case using x s cnt
      by (intro exI [of _ "s + 2 ^ i"]) (simp add: drop_bit_drop_bit add.commute)
  qed
qed

lemma ctz_inv_start:
  "LENGTH('a::len) = 2 ^ i \<Longrightarrow> x \<noteq> 0 \<Longrightarrow> ctz_inv (x :: 'a word) i (x, - 1, 0)"
  by (simp add: ctz_inv_def minus_1_eq_mask_word exI [of _ 0]) (metis take_bit_length_eq)

lemma ctz_inv_end:
  fixes x0 :: "'a::len word"
  assumes "ctz_inv x0 0 (x, m, count)"
  obtains s where "s < LENGTH('a)" and "bit x0 s" and "\<And>j. j < s \<Longrightarrow> \<not> bit x0 j"
    and "count = of_nat s"
proof -
  obtain s where x: "x = drop_bit s x0" and c: "count = of_nat s"
    and s: "s + 2 ^ 0 \<le> LENGTH('a)" and out: "take_bit s x0 = 0" and x2: "take_bit (2 ^ 0) x \<noteq> 0"
    using assms unfolding ctz_inv_def prod.case by blast
  from x2 have "bit x0 s" by (simp add: x bit_iff_odd_drop_bit take_bit_Suc odd_iff_mod_2_eq_one)
  moreover have "\<not> bit x0 j" if "j < s" for j
    using out that by (metis bit_take_bit_iff bit_0_eq bot_apply bot_bool_def)
  moreover have "s < LENGTH('a)" using s by simp
  ultimately show thesis using c that by blast
qed

lemma ctz64_index:
  assumes "x \<noteq> 0"
  obtains s where "s < 64" and "bit x s" and "\<And>j. j < s \<Longrightarrow> \<not> bit x j"
    and "ctz64 x = of_nat s"
proof -
  define st where "st = ctz_iteration 0 (ctz_iteration 1 (ctz_iteration 2 (ctz_iteration 3
          (ctz_iteration 4 (ctz_iteration 5 (x, - 1, of_bool (x = 0)))))))"
  have "ctz_inv x 6 (x, - 1, of_bool (x = 0))"
    using ctz_inv_start [where 'a=64, of 6 x] assms by simp
  note inv6 = this
  have inv: "ctz_inv x 0 st"
    unfolding st_def
    by (rule ctz_iteration_inv [OF ctz_iteration_inv [OF ctz_iteration_inv
          [OF ctz_iteration_inv [OF ctz_iteration_inv [OF ctz_iteration_inv [OF inv6]]]]]]) simp_all
  obtain y m c where st: "st = (y, m, c)" by (metis surj_pair)
  obtain s where "s < 64" "bit x s" "\<And>j. j < s \<Longrightarrow> \<not> bit x j" and c: "c = of_nat s"
    using ctz_inv_end [OF inv [unfolded st]] by auto
  moreover have "ctz64 x = c"
    unfolding ctz64_def st_def [symmetric] st by simp
  ultimately show thesis using that by blast
qed

section \<open>Memory routines\<close>

text \<open>
  Byte-addressed memory. \<open>memzero\<close> writes a word at a time and counts \<open>n\<close> down to zero, so it
  stops only if \<open>n\<close> is a multiple of the word size, which the source asserts; the loop is
  kept as a loop and its return is proved. The stored word is zero, so byte order is
  immaterial.
\<close>

type_synonym memory = "word_t \<Rightarrow> uint8"

definition write_zero_word :: "memory \<Rightarrow> word_t \<Rightarrow> memory" where
  "write_zero_word mem p = (\<lambda>a. if a - p < 8 then 0 else mem a)"

definition memzero :: "memory \<Rightarrow> word_t \<Rightarrow> word_t \<Rightarrow> memory option" where
  "memzero mem s n =
     map_option fst (while_option (\<lambda>(mem, p, n). n \<noteq> 0)
       (\<lambda>(mem, p, n). (write_zero_word mem p, p + 8, n - 8)) (mem, s, n))"

fun memset_loop :: "memory \<Rightarrow> word_t \<Rightarrow> uint8 \<Rightarrow> nat \<Rightarrow> memory" where
  "memset_loop mem p c 0 = mem"
| "memset_loop mem p c (Suc n) = memset_loop (mem(p := c)) (p + 1) c n"

definition memset :: "memory \<Rightarrow> word_t \<Rightarrow> word_t \<Rightarrow> word_t \<Rightarrow> memory option" where
  "memset mem s c n =
     (if c = 0 \<and> s mod 8 = 0 \<and> n mod 8 = 0 then memzero mem s n
      else Some (memset_loop mem s (ucast c) (unat n)))"

fun memcpy_loop :: "memory \<Rightarrow> word_t \<Rightarrow> word_t \<Rightarrow> nat \<Rightarrow> memory" where
  "memcpy_loop mem p q 0 = mem"
| "memcpy_loop mem p q (Suc n) = memcpy_loop (mem(p := mem q)) (p + 1) (q + 1) n"

definition memcpy :: "memory \<Rightarrow> word_t \<Rightarrow> word_t \<Rightarrow> word_t \<Rightarrow> memory" where
  "memcpy mem dst src n = memcpy_loop mem dst src (unat n)"

text \<open>The specification: \<open>n\<close> bytes from \<open>s\<close> on, modulo the address size, hold \<open>c\<close>.\<close>

definition fill :: "memory \<Rightarrow> word_t \<Rightarrow> uint8 \<Rightarrow> nat \<Rightarrow> memory" where
  "fill mem s c n = (\<lambda>a. if unat (a - s) < n then c else mem a)"

lemma unat_minus_1_word64: "unat (- 1 :: word_t) = 2 ^ 64 - 1"
  by (simp add: unsigned_minus_1_eq_mask mask_eq_exp_minus_1)

lemma fill_0 [simp]: "fill mem s c 0 = mem"
  by (simp add: fill_def)

lemma unat_minus_1_less:
  fixes d :: word_t
  assumes "d \<noteq> 0"
  shows "unat (d - 1) < n \<longleftrightarrow> unat d < Suc n"
proof -
  have "unat (d - 1) = unat d - 1" and "0 < unat d"
    using assms by (simp_all add: unat_minus_one unat_gt_0)
  then show ?thesis by linarith
qed

lemma fill_Suc: "fill (mem(s := c)) (s + 1) c n = fill mem s c (Suc n)"
  by (auto simp: fill_def fun_eq_iff diff_diff_eq [symmetric] unat_minus_1_less)

lemma memset_loop_fill: "memset_loop mem s c n = fill mem s c n"
  by (induction n arbitrary: mem s) (simp_all add: fill_Suc)

lemma fill_8: "fill (write_zero_word mem s) (s + 8) 0 n = fill mem s 0 (n + 8)"
proof
  fix a
  show "fill (write_zero_word mem s) (s + 8) 0 n a = fill mem s 0 (n + 8) a"
  proof (cases "a - s < 8")
    case True
    then have "unat (a - s) < 8" by (simp add: word_less_nat_alt)
    with True show ?thesis by (simp add: fill_def write_zero_word_def)
  next
    case False
    then have "unat (a - (s + 8)) = unat (a - s) - 8" and "8 \<le> unat (a - s)"
      by (simp_all add: diff_diff_eq [symmetric] unat_sub not_less word_le_nat_alt)
    then have "unat (a - (s + 8)) < n \<longleftrightarrow> unat (a - s) < n + 8" by linarith
    with False show ?thesis by (simp add: fill_def write_zero_word_def)
  qed
qed

lemma memzero_step:
  "memzero mem s n = (if n = 0 then Some mem else memzero (write_zero_word mem s) (s + 8) (n - 8))"
  by (simp add: memzero_def while_option_unfold)

lemma memzero_fill:
  "unat n = 8 * k \<Longrightarrow> memzero mem s n = Some (fill mem s 0 (8 * k))"
proof (induction k arbitrary: mem s n)
  case 0
  then have "n = 0" by (simp add: unat_eq_zero)
  then show ?case by (simp add: memzero_step)
next
  case (Suc k)
  from Suc.prems have "n \<noteq> 0" and "unat (n - 8) = 8 * k"
    by (auto simp: unat_sub word_le_nat_alt)
  with Suc.IH show ?case
    by (simp add: memzero_step [of mem s n] fill_8 add.commute)
qed

text \<open>
  \<open>memcpy\<close> copies forwards, so it is a faithful copy whenever the destination does not start
  inside the source region.
\<close>

lemma memcpy_loop_outside:
  "n \<le> unat (a - p) \<Longrightarrow> memcpy_loop mem p q n a = mem a"
proof (induction n arbitrary: mem p q)
  case (Suc n)
  from Suc.prems have "a \<noteq> p" by auto
  moreover from this Suc.prems have "n \<le> unat (a - (p + 1))"
    using unat_minus_1_less [of "a - p" n] by (auto simp: diff_diff_eq [symmetric] not_less)
  ultimately show ?case using Suc.IH by simp
qed simp

lemma memcpy_loop_copies:
  "n < 2 ^ 64 \<Longrightarrow> k < n \<Longrightarrow> \<forall>i j. i < j \<longrightarrow> j < n \<longrightarrow> q + of_nat j \<noteq> p + of_nat i \<Longrightarrow>
   memcpy_loop mem p q n (p + of_nat k) = mem (q + of_nat k)"
proof (induction n arbitrary: mem p q k)
  case (Suc n)
  show ?case
  proof (cases k)
    case 0
    have "n \<le> unat (p - (p + 1))" using Suc.prems(1) by (simp add: unat_minus_1_word64)
    then show ?thesis using 0 by (simp add: memcpy_loop_outside)
  next
    case (Suc k')
    have apart: "q + of_nat j \<noteq> p + of_nat i" if "i < j" "j < Suc n" for i j
      using Suc.prems(3) that by blast
    have "q + 1 + of_nat j \<noteq> p + 1 + of_nat i" if "i < j" "j < n" for i j
      using apart [of "Suc i" "Suc j"] that by (simp add: add.assoc)
    then have "memcpy_loop (mem(p := mem q)) (p + 1) (q + 1) n (p + 1 + of_nat k') =
      (mem(p := mem q)) (q + 1 + of_nat k')"
      using Suc.prems(1,2) Suc by (intro Suc.IH) auto
    moreover have "q + 1 + of_nat k' \<noteq> p"
      using apart [of 0 k] Suc.prems(2) Suc by (simp add: add.assoc)
    ultimately show ?thesis using Suc by (simp add: add.assoc)
  qed
qed simp

section \<open>Strings\<close>

text \<open>
  \<open>strncmp\<close> compares unsigned bytes. The bound \<open>n\<close> is a signed \<open>int\<close> compared with an
  unsigned word, so C converts it with sign extension; a negative bound is a huge one.
\<close>

function strncmp_loop :: "memory \<Rightarrow> word_t \<Rightarrow> word_t \<Rightarrow> word_t \<Rightarrow> word_t \<Rightarrow> int" where
  "strncmp_loop mem s1 s2 n i =
     (if i < n then
        let diff = uint (mem (s1 + i)) - uint (mem (s2 + i))
        in if diff \<noteq> 0 \<or> mem (s1 + i) = 0 then diff else strncmp_loop mem s1 s2 n (i + 1)
      else 0)"
  by pat_completeness auto
termination
  by (relation "measure (\<lambda>(mem, s1, s2, n, i). unat (n - i))")
    (auto simp: diff_diff_eq [symmetric] unat_minus_one unat_gt_0)

declare strncmp_loop.simps [simp del]

definition strncmp :: "memory \<Rightarrow> word_t \<Rightarrow> word_t \<Rightarrow> 32 word \<Rightarrow> int" where
  "strncmp mem s1 s2 n = strncmp_loop mem s1 s2 (scast n) 0"

lemma strncmp_loop_zero_iff:
  "strncmp_loop mem s1 s2 n i = 0 \<longleftrightarrow>
   (\<forall>k. i \<le> k \<longrightarrow> k < n \<longrightarrow> (\<forall>j. i \<le> j \<longrightarrow> j < k \<longrightarrow> mem (s1 + j) \<noteq> 0) \<longrightarrow>
     mem (s1 + k) = mem (s2 + k))"
proof (induction mem s1 s2 n i rule: strncmp_loop.induct)
  case (1 mem s1 s2 n i)
  show ?case
  proof (cases "i < n \<and> mem (s1 + i) = mem (s2 + i) \<and> mem (s1 + i) \<noteq> 0")
    case True
    have "unat (i + 1) = Suc (unat i)"
      using True unat_word64_less [of n] by (subst unat_add_no_overflow) (auto simp: word_less_nat_alt)
    then have next_le: "i + 1 \<le> k \<longleftrightarrow> i \<le> k \<and> i \<noteq> k" for k
      by (simp add: word_le_nat_alt [of "i + 1"] Suc_le_eq flip: word_less_nat_alt) (auto simp: less_le)
    have "strncmp_loop mem s1 s2 n i = strncmp_loop mem s1 s2 n (i + 1)"
      using True by (subst strncmp_loop.simps) (auto simp: Let_def)
    with 1 [of "0"] True show ?thesis
      by (simp add: next_le) (metis order.not_eq_order_implies_strict)
  next
    case False
    have uint_eq: "uint a = uint b \<longleftrightarrow> a = b" for a b :: uint8
      by (simp add: word_uint_eq_iff)
    from False show ?thesis
      by (subst strncmp_loop.simps) (auto simp: Let_def uint_eq less_le)
  qed
qed

text \<open>
  \<open>str_to_long\<close> on a C string: \<open>None\<close> is the null pointer, the list holds the bytes before
  the terminator. The value is a \<^verbatim>\<open>long\<close> in two's complement; the source accumulates it with
  signed arithmetic, which the model lets wrap.
\<close>

definition char_to_long :: "uint8 \<Rightarrow> word_t" where
  "char_to_long c =
     (if 48 \<le> c \<and> c \<le> 57 then ucast c - 48
      else if 65 \<le> c \<and> c \<le> 70 then ucast c - 65 + 10
      else if 97 \<le> c \<and> c \<le> 102 then ucast c - 97 + 10
      else - 1)"

fun str_to_long_loop :: "word_t \<Rightarrow> word_t \<Rightarrow> uint8 list \<Rightarrow> word_t" where
  "str_to_long_loop base val [] = val"
| "str_to_long_loop base val (c # cs) =
     (let res = char_to_long c
      in if res = - 1 \<or> base \<le> res then - 1
         else str_to_long_loop base (val * base + res) cs)"

definition str_to_long :: "uint8 list option \<Rightarrow> word_t" where
  "str_to_long str =
     (case str of
        None \<Rightarrow> - 1
      | Some [] \<Rightarrow> - 1
      | Some (c # cs) \<Rightarrow>
          (if c = 48 \<and> cs \<noteq> [] \<and> (hd cs = 120 \<or> hd cs = 88) then
             (if tl cs = [] then - 1 else str_to_long_loop 16 0 (tl cs))
           else str_to_long_loop 10 0 (c # cs)))"

definition digit_char :: "nat \<Rightarrow> uint8" where
  "digit_char d = (if d < 10 then 48 + of_nat d else 87 + of_nat d)"

definition digits_value :: "nat \<Rightarrow> nat list \<Rightarrow> nat" where
  "digits_value b ds = foldl (\<lambda>v d. v * b + d) 0 ds"

lemma char_to_long_digit:
  assumes "d < 16"
  shows "char_to_long (digit_char d) = of_nat d"
proof -
  have "list_all (\<lambda>d. char_to_long (digit_char d) = of_nat d) [0..<16]"
    by code_simp
  then show ?thesis using assms by (auto simp: list_all_iff)
qed

lemma str_to_long_loop_digits:
  assumes "b \<le> 16" and "\<And>d. d \<in> set ds \<Longrightarrow> d < b"
  shows "str_to_long_loop (of_nat b) (of_nat v) (map digit_char ds) =
    of_nat (foldl (\<lambda>v d. v * b + d) v ds)"
  using assms(2)
proof (induction ds arbitrary: v)
  case (Cons d ds)
  then have "d < b" by simp
  then have d: "d < b" "d < 16" using assms(1) by auto
  have res: "char_to_long (digit_char d) = of_nat d"
    using d(2) by (rule char_to_long_digit)
  have small: "unat (of_nat d :: word_t) = d" "unat (of_nat b :: word_t) = b"
    using d assms(1) by (simp_all add: unat_of_nat)
  have "(of_nat d :: word_t) \<noteq> - 1"
    using d small(1) unat_minus_1_word64 by auto
  moreover have "\<not> of_nat b \<le> (of_nat d :: word_t)"
    using d small by (simp add: word_le_nat_alt)
  ultimately have "str_to_long_loop (of_nat b) (of_nat v) (map digit_char (d # ds)) =
    str_to_long_loop (of_nat b) (of_nat (v * b + d)) (map digit_char ds)"
    by (simp add: res Let_def)
  then show ?case using Cons.IH [of "v * b + d"] Cons.prems by simp
qed simp

lemma clzl_index:
  assumes "x \<noteq> 0"
  obtains i where "i < 64" and "bit x i" and "\<And>j. bit x j \<Longrightarrow> j \<le> i" and "unat (63 - clzl x) = i"
proof -
  obtain i where i: "i < 64" "bit x i" "\<And>j. i < j \<Longrightarrow> \<not> bit x j" and c: "clz64 x = of_nat (63 - i)"
    using clz64_index [OF assms] by blast
  have "unat (clz64 x) = 63 - i" unfolding c by (simp only: unat_of_nat) simp
  then have clzl: "unat (clzl x) = 63 - i" by (simp add: clzl_def unsigned_ucast_eq take_bit_nat_eq_self)
  then have "unat (63 - clzl x) = unat (63 :: word_t) - unat (clzl x)"
    using i(1) by (intro unat_sub_no_underflow) simp
  then have "unat (63 - clzl x) = i" using clzl i(1) by simp
  with i show thesis using that by (metis not_less)
qed

section \<open>Properties\<close>

lemma clz_ctz_zero: "clz64 0 = 64" "ctz64 0 = 64"
  by code_simp+

text \<open>
  C31: \<open>clz64\<close> counts the leading zeros of every word: \<open>63 - clz64 x\<close> is the index of the most
  significant set bit of a non-zero \<open>x\<close>, and \<open>clz64 0\<close> is 64.
\<close>

theorem clz64_top_bit:
  "clz64 0 = 64 \<and>
   (x \<noteq> 0 \<longrightarrow> unat (clz64 x) \<le> 63 \<and> bit x (63 - unat (clz64 x)) \<and>
     (\<forall>j. bit x j \<longrightarrow> j \<le> 63 - unat (clz64 x)))"
proof (cases "x = 0")
  case False
  then obtain s where s: "s < 64" "bit x s" "\<And>j. s < j \<Longrightarrow> \<not> bit x j" and c: "clz64 x = of_nat (63 - s)"
    by (rule clz64_index) blast
  have "unat (clz64 x) = 63 - s" unfolding c by (simp only: unat_of_nat) simp
  with s show ?thesis by (auto simp: clz_ctz_zero not_less [symmetric])
qed (simp add: clz_ctz_zero)

theorem clz64_top_bit_witness:
  "clz64 0 = 64 \<and> unat (clz64 10) \<le> 63 \<and> bit (10 :: uint64) (63 - unat (clz64 10))"
  using clz64_top_bit [of 10] by simp

text \<open>
  \<open>ctz64\<close> counts the trailing zeros of every word: \<open>ctz64 x\<close> is the index of the least
  significant set bit of a non-zero \<open>x\<close>, and \<open>ctz64 0\<close> is 64.
\<close>

theorem ctz64_low_bit:
  "ctz64 0 = 64 \<and>
   (x \<noteq> 0 \<longrightarrow> unat (ctz64 x) \<le> 63 \<and> bit x (unat (ctz64 x)) \<and>
     (\<forall>j. bit x j \<longrightarrow> unat (ctz64 x) \<le> j))"
proof (cases "x = 0")
  case False
  then obtain s where s: "s < 64" "bit x s" "\<And>j. j < s \<Longrightarrow> \<not> bit x j" and c: "ctz64 x = of_nat s"
    by (rule ctz64_index) blast
  have "unat (ctz64 x) = s" unfolding c using s(1) by (simp only: unat_of_nat) simp
  with s show ?thesis by (auto simp: clz_ctz_zero not_less [symmetric])
qed (simp add: clz_ctz_zero)

theorem ctz64_low_bit_witness:
  "ctz64 0 = 64 \<and> unat (ctz64 12) \<le> 63 \<and> bit (12 :: uint64) (unat (ctz64 12))"
  using ctz64_low_bit [of 12] by simp

text \<open>
  \<open>memset\<close> returns for all arguments and fills exactly the \<open>n\<close> bytes from \<open>s\<close> on with the
  low byte of \<open>c\<close>: the word-wise \<open>memzero\<close> it takes as a shortcut agrees with the byte loop.
\<close>

theorem memset_fills: "memset mem s c n = Some (fill mem s (ucast c) (unat n))"
proof (cases "c = 0 \<and> s mod 8 = 0 \<and> n mod 8 = 0")
  case True
  then have "unat n mod 8 = 0"
    using unat_mod [of n 8] by simp
  then obtain k where "unat n = 8 * k" by (metis mod_0_imp_dvd dvd_def)
  with True show ?thesis by (simp add: memset_def memzero_fill)
qed (simp only: memset_def memset_loop_fill if_False)

text \<open>
  \<open>memcpy\<close> copies the \<open>n\<close> bytes of the source region as they were before the call and
  changes nothing else, provided the destination does not start inside the source region
  after its first byte.
\<close>

lemma word_offset_eq: "q + of_nat j = p + of_nat i \<Longrightarrow> i < j \<Longrightarrow> j < n \<Longrightarrow> n < 2 ^ 64 \<Longrightarrow>
  0 < unat (p - q :: word_t) \<and> unat (p - q) < n"
proof -
  assume eq: "q + of_nat j = p + of_nat i" and less: "i < j" "j < n" "n < 2 ^ 64"
  then have "p - q = of_nat j - of_nat i" by (simp add: algebra_simps)
  then have "p - q = of_nat (j - i)" using less by (simp add: of_nat_diff)
  then have "unat (p - q) = j - i" using less by (simp only: unat_of_nat) simp
  with less show ?thesis by simp
qed

theorem memcpy_copies:
  assumes "unat n \<le> unat (dst - src) \<or> dst = src"
  shows "memcpy mem dst src n =
    (\<lambda>a. if unat (a - dst) < unat n then mem (src + (a - dst)) else mem a)"
proof
  fix a
  have apart: "\<forall>i j. i < j \<longrightarrow> j < unat n \<longrightarrow> src + of_nat j \<noteq> dst + of_nat i"
    using assms word_offset_eq [of src _ dst _ "unat n"] unat_word64_less [of n]
    by (metis diff_self leD less_irrefl unsigned_0)
  show "memcpy mem dst src n a =
    (if unat (a - dst) < unat n then mem (src + (a - dst)) else mem a)"
  proof (cases "unat (a - dst) < unat n")
    case True
    then show ?thesis
      using memcpy_loop_copies [OF unat_word64_less True apart, of mem]
      by (simp add: memcpy_def)
  qed (simp add: memcpy_def memcpy_loop_outside)
qed

theorem memcpy_copies_witness:
  "memcpy (\<lambda>a. ucast a) 16 8 4 12 = 12 \<and> memcpy (\<lambda>a. ucast a) 16 8 4 17 = 9"
  using memcpy_copies [of 4 16 8 "\<lambda>a. ucast a"] by simp

text \<open>
  \<open>str_to_long\<close> reads back every numeral: a non-empty string of decimal digits without a
  leading zero, and the prefix \<open>0x\<close> with a non-empty string of hexadecimal digits, give the
  value of the numeral modulo the word size.
\<close>

theorem str_to_long_reads_numerals:
  assumes "ds \<noteq> []"
  shows "((\<forall>d\<in>set ds. d < 10) \<longrightarrow> hd ds \<noteq> 0 \<longrightarrow>
      str_to_long (Some (map digit_char ds)) = of_nat (digits_value 10 ds)) \<and>
    ((\<forall>d\<in>set ds. d < 16) \<longrightarrow>
      str_to_long (Some (48 # 120 # map digit_char ds)) = of_nat (digits_value 16 ds))"
proof -
  obtain d ds' where ds: "ds = d # ds'" using assms by (cases ds) auto
  have "list_all (\<lambda>d. d \<noteq> 0 \<longrightarrow> digit_char d \<noteq> 48) [0..<10]" by code_simp
  then have "digit_char d \<noteq> 48" if "d < 10" "d \<noteq> 0" using that by (auto simp: list_all_iff)
  then show ?thesis
    using str_to_long_loop_digits [of 10 ds 0] str_to_long_loop_digits [of 16 ds 0]
    by (simp add: str_to_long_def digits_value_def ds) blast
qed

theorem str_to_long_reads_numerals_witness:
  "str_to_long (Some (map digit_char [4, 2])) = of_nat (digits_value 10 [4, 2]) \<and>
   str_to_long (Some (48 # 120 # map digit_char [15, 15])) = of_nat (digits_value 16 [15, 15])"
  using str_to_long_reads_numerals [of "[4, 2]"] str_to_long_reads_numerals [of "[15, 15]"] by simp

end
