(* ===== verification/Structures.thy ===== *)
theory Structures
  imports Prelude
begin

text \<open>
  The kernel's data model: capabilities and the other blocks of
  \<^verbatim>\<open>include/object/structures_64.bf\<close> and
  \<^verbatim>\<open>include/arch/riscv/arch/64/mode/object/structures.bf\<close>, the C structs of
  \<^verbatim>\<open>include/object/structures.h\<close>, the error values of \<^verbatim>\<open>include/api/failures.h\<close> and the
  global variables of \<^verbatim>\<open>include/model/statedata.h\<close>.

  A bit-field block is a constructor (or a record) with one component per field, in the
  argument order of its generated constructor; the packing into words, which the
  bit-field generator emits at build time, is not modelled. Pointers are \<open>word_t\<close> with
  \<open>0\<close> as \<^verbatim>\<open>NULL\<close>. Kernel objects live in one store per C type, a function from addresses;
  two objects of the same type may alias, objects of different types do not.
\<close>

section \<open>Capabilities\<close>

datatype vm_page_size = RISCV_4K_Page | RISCV_Mega_Page | RISCV_Giga_Page

datatype vm_rights = VMKernelOnly | VMReadOnly | VMReadWrite

datatype cap =
    cap_null_cap
  | cap_untyped_cap (capFreeIndex: word_t) (capIsDevice: bool) (capBlockSize: word_t) (capPtr: word_t)
  | cap_endpoint_cap (capEPBadge: word_t) (capCanGrantReply: bool) (capCanGrant: bool)
      (capCanSend: bool) (capCanReceive: bool) (capEPPtr: word_t)
  | cap_notification_cap (capNtfnBadge: word_t) (capNtfnCanReceive: bool)
      (capNtfnCanSend: bool) (capNtfnPtr: word_t)
  | cap_reply_cap (capReplyPtr: word_t) (capReplyCanGrant: bool)
  | cap_cnode_cap (capCNodeRadix: word_t) (capCNodeGuardSize: word_t) (capCNodeGuard: word_t)
      (capCNodePtr: word_t)
  | cap_thread_cap (capTCBPtr: word_t)
  | cap_irq_control_cap
  | cap_irq_handler_cap (capIRQ: word_t)
  | cap_zombie_cap (capZombieID: word_t) (capZombieType: word_t)
  | cap_domain_cap
  | cap_sched_context_cap (capSCPtr: word_t) (capSCSizeBits: word_t)
  | cap_sched_control_cap (core: word_t)
  | cap_frame_cap (capFMappedASID: word_t) (capFBasePtr: word_t) (capFSize: vm_page_size)
      (capFVMRights: vm_rights) (capFIsDevice: bool) (capFMappedAddress: word_t)
  | cap_page_table_cap (capPTMappedASID: word_t) (capPTBasePtr: word_t) (capPTIsMapped: bool)
      (capPTMappedAddress: word_t)
  | cap_asid_control_cap
  | cap_asid_pool_cap (capASIDBase: word_t) (capASIDPool: word_t)

record mdb_node =
  mdbNext :: word_t
  mdbRevocable :: bool
  mdbFirstBadged :: bool
  mdbPrev :: word_t

text \<open>\<^verbatim>\<open>seL4_CapRights_t\<close>, the rights word of an invocation.\<close>

record seL4_CapRights =
  capAllowGrantReply :: bool
  capAllowGrant :: bool
  capAllowRead :: bool
  capAllowWrite :: bool

record cte =
  cte_cap :: cap
  cteMDBNode :: mdb_node

definition nullMDBNode :: mdb_node where
  "nullMDBNode = \<lparr>mdbNext = 0, mdbRevocable = False, mdbFirstBadged = False, mdbPrev = 0\<rparr>"

section \<open>Threads\<close>

datatype tsType =
    ThreadState_Inactive
  | ThreadState_Running
  | ThreadState_Restart
  | ThreadState_BlockedOnReceive
  | ThreadState_BlockedOnSend
  | ThreadState_BlockedOnReply
  | ThreadState_BlockedOnNotification
  | ThreadState_IdleThreadState

record thread_state =
  blockingIPCBadge :: word_t
  replyObject :: word_t
  blockingIPCCanGrant :: bool
  blockingIPCCanGrantReply :: bool
  blockingIPCIsCall :: bool
  tcbQueued :: bool
  tcbInReleaseQueue :: bool
  blockingObject :: word_t
  ts_type :: tsType

datatype seL4_Fault =
    NullFault
  | CapFault word_t bool
  | UnknownSyscall word_t
  | UserException word_t word_t
  | VMFault word_t word_t bool
  | Timeout word_t

datatype lookup_fault =
    invalid_root
  | missing_capability word_t
  | depth_mismatch word_t word_t
  | guard_mismatch word_t word_t word_t

type_synonym register = nat

record tcb =
  tcbContext :: "register \<Rightarrow> word_t"
  tcbState :: thread_state
  tcbFlags :: word_t
  tcbBoundNotification :: word_t
  tcbFault :: seL4_Fault
  tcbLookupFailure :: lookup_fault
  tcbDomain :: word_t
  tcbMCP :: word_t
  tcbPriority :: word_t
  tcbSchedContext :: word_t
  tcbYieldTo :: word_t
  tcbIPCBuffer :: word_t
  tcbSchedNext :: word_t
  tcbSchedPrev :: word_t
  tcbEPNext :: word_t
  tcbEPPrev :: word_t

record tcb_queue =
  tcbq_head :: word_t
  tcbq_end :: word_t

section \<open>Endpoints, notifications, scheduling contexts, replies\<close>

datatype endpoint_state = EPState_Idle | EPState_Send | EPState_Recv

record endpoint =
  epQueue_head :: word_t
  epQueue_tail :: word_t
  ep_state :: endpoint_state

datatype notification_state = NtfnState_Idle | NtfnState_Waiting | NtfnState_Active

record notification =
  ntfnSchedContext :: word_t
  ntfnBoundTCB :: word_t
  ntfnMsgIdentifier :: word_t
  ntfnQueue_head :: word_t
  ntfnQueue_tail :: word_t
  ntfn_state :: notification_state

record refill =
  rTime :: ticks_t
  rAmount :: ticks_t

text \<open>
  The circular buffer of refills follows the \<^verbatim>\<open>sched_context_t\<close> in memory; it is the last
  component of the model's record.
\<close>

record sched_context =
  scPeriod :: ticks_t
  scConsumed :: ticks_t
  scCore :: word_t
  scTcb :: word_t
  scReply :: word_t
  scNotification :: word_t
  scBadge :: word_t
  scYieldFrom :: word_t
  scRefillMax :: word_t
  scRefillHead :: word_t
  scRefillTail :: word_t
  scSporadic :: bool
  scRefills :: "word_t \<Rightarrow> refill"

record call_stack =
  isHead :: bool
  callStackPtr :: word_t

record reply =
  replyTCB :: word_t
  replyPrev :: call_stack
  replyNext :: call_stack

text \<open>
  Pointer arithmetic: a slot is 32 bytes, a TCB object is a table of slots followed, in the
  upper half of its 1024 bytes, by the \<^verbatim>\<open>tcb_t\<close>.
\<close>

definition seL4_SlotBits :: nat where "seL4_SlotBits = 5"
definition seL4_EndpointBits :: nat where "seL4_EndpointBits = 4"
definition seL4_NotificationBits :: nat where "seL4_NotificationBits = 6"
definition seL4_ReplyBits :: nat where "seL4_ReplyBits = 5"
definition seL4_TCBBits :: nat where "seL4_TCBBits = 10"
definition seL4_PageBits :: nat where "seL4_PageBits = 12"
definition seL4_LargePageBits :: nat where "seL4_LargePageBits = 21"
definition seL4_HugePageBits :: nat where "seL4_HugePageBits = 30"
definition seL4_ASIDPoolBits :: nat where "seL4_ASIDPoolBits = 12"
definition seL4_MinUntypedBits :: nat where "seL4_MinUntypedBits = 4"
definition seL4_MaxUntypedBits :: nat where "seL4_MaxUntypedBits = 38"
definition seL4_MinSchedContextBits :: nat where "seL4_MinSchedContextBits = 7"
definition PT_SIZE_BITS :: nat where "PT_SIZE_BITS = 12"
definition TCB_CNODE_RADIX :: nat where "TCB_CNODE_RADIX = 4"

definition TCB_OFFSET :: word_t where
  "TCB_OFFSET = BIT (seL4_TCBBits - 1)"

definition slot_at :: "word_t \<Rightarrow> word_t \<Rightarrow> word_t" where
  "slot_at base i = base + push_bit seL4_SlotBits i"

definition TCB_PTR_CTE_PTR :: "word_t \<Rightarrow> word_t \<Rightarrow> word_t" where
  "TCB_PTR_CTE_PTR p i = slot_at (p AND NOT (MASK seL4_TCBBits)) i"

definition tcbCTable :: word_t where "tcbCTable = 0"
definition tcbVTable :: word_t where "tcbVTable = 1"
definition tcbBuffer :: word_t where "tcbBuffer = 2"
definition tcbFaultHandler :: word_t where "tcbFaultHandler = 3"
definition tcbTimeoutHandler :: word_t where "tcbTimeoutHandler = 4"
definition tcbCNodeEntries :: word_t where "tcbCNodeEntries = 5"

lemmas size_bits_defs = seL4_SlotBits_def seL4_EndpointBits_def seL4_NotificationBits_def
  seL4_ReplyBits_def seL4_TCBBits_def seL4_PageBits_def seL4_LargePageBits_def
  seL4_HugePageBits_def seL4_ASIDPoolBits_def seL4_MinUntypedBits_def seL4_MaxUntypedBits_def
  seL4_MinSchedContextBits_def PT_SIZE_BITS_def TCB_CNODE_RADIX_def

section \<open>Errors\<close>

datatype exception =
    EXCEPTION_NONE
  | EXCEPTION_FAULT
  | EXCEPTION_LOOKUP_FAULT
  | EXCEPTION_SYSCALL_ERROR
  | EXCEPTION_PREEMPTED

datatype syscall_error_type =
    seL4_NoError
  | seL4_InvalidArgument
  | seL4_InvalidCapability
  | seL4_IllegalOperation
  | seL4_RangeError
  | seL4_AlignmentError
  | seL4_FailedLookup
  | seL4_TruncatedMessage
  | seL4_DeleteFirst
  | seL4_RevokeFirst
  | seL4_NotEnoughMemory

record syscall_error =
  invalidArgumentNumber :: word_t
  invalidCapNumber :: word_t
  rangeErrorMin :: word_t
  rangeErrorMax :: word_t
  memoryLeft :: word_t
  failedLookupWasSource :: bool
  err_type :: syscall_error_type

section \<open>Kernel state\<close>

datatype irq_state = IRQInactive | IRQSignal | IRQTimer | IRQReserved

text \<open>Page table entries (block \<^verbatim>\<open>pte\<close>); an ASID pool is an array of address space roots.\<close>

record pte =
  ppn :: word_t
  pte_sw :: word_t
  pte_dirty :: bool
  pte_accessed :: bool
  pte_global :: bool
  pte_user :: bool
  pte_execute :: bool
  pte_write :: bool
  pte_read :: bool
  pte_valid :: bool

type_synonym asid_pool = "word_t \<Rightarrow> word_t"

text \<open>
  One store per object type, then the globals. \<open>user_words\<close> is the word-addressed memory
  of user frames, which holds IPC buffers; \<open>intStateIRQNode\<close> and \<open>kernel_root_pageTable\<close> are the
  addresses of the arrays of those names, whose elements live in \<open>ctes\<close> and \<open>ptes\<close>, and
  \<open>kernel_root_paddr\<close> is the physical address the second is linked at; \<open>timer_deadline\<close> is the last
  deadline programmed into the timer and \<open>satp\<close> the root and ASID last written to the register
  of that name.
\<close>

record kstate =
  ctes :: "word_t \<Rightarrow> cte"
  tcbs :: "word_t \<Rightarrow> tcb"
  eps :: "word_t \<Rightarrow> endpoint"
  ntfns :: "word_t \<Rightarrow> notification"
  scs :: "word_t \<Rightarrow> sched_context"
  replies :: "word_t \<Rightarrow> reply"
  ptes :: "word_t \<Rightarrow> pte"
  asid_pools :: "word_t \<Rightarrow> asid_pool"
  user_words :: "word_t \<Rightarrow> word_t"
  ksReadyQueues :: "word_t \<Rightarrow> tcb_queue"
  ksReadyQueuesL1Bitmap :: "word_t \<Rightarrow> word_t"
  ksReadyQueuesL2Bitmap :: "word_t \<Rightarrow> word_t \<Rightarrow> word_t"
  ksCurThread :: word_t
  ksIdleThread :: word_t
  ksSchedulerAction :: word_t
  ksReleaseQueue :: tcb_queue
  ksConsumed :: ticks_t
  ksCurTime :: ticks_t
  ksReprogram :: bool
  ksCurSC :: word_t
  ksIdleSC :: word_t
  ksWorkUnitsCompleted :: word_t
  intStateIRQTable :: "word_t \<Rightarrow> irq_state"
  intStateIRQNode :: word_t
  ksDomSchedule :: "word_t \<Rightarrow> uint64"
  ksDomScheduleIdx :: word_t
  ksDomScheduleStart :: word_t
  ksCurDomain :: word_t
  ksDomainTime :: ticks_t
  timer_deadline :: ticks_t
  riscvKSASIDTable :: "word_t \<Rightarrow> word_t"
  kernel_root_pageTable :: word_t
  kernel_root_paddr :: word_t
  satp :: "word_t \<times> word_t"
  current_extra_caps :: "nat \<Rightarrow> word_t"
  current_lookup_fault :: lookup_fault
  current_fault :: seL4_Fault
  current_syscall_error :: syscall_error

definition upd_cte :: "word_t \<Rightarrow> (cte \<Rightarrow> cte) \<Rightarrow> kstate \<Rightarrow> kstate" where
  "upd_cte p f s = s\<lparr>ctes := (ctes s)(p := f (ctes s p))\<rparr>"

definition upd_tcb :: "word_t \<Rightarrow> (tcb \<Rightarrow> tcb) \<Rightarrow> kstate \<Rightarrow> kstate" where
  "upd_tcb p f s = s\<lparr>tcbs := (tcbs s)(p := f (tcbs s p))\<rparr>"

definition upd_ep :: "word_t \<Rightarrow> (endpoint \<Rightarrow> endpoint) \<Rightarrow> kstate \<Rightarrow> kstate" where
  "upd_ep p f s = s\<lparr>eps := (eps s)(p := f (eps s p))\<rparr>"

definition upd_ntfn :: "word_t \<Rightarrow> (notification \<Rightarrow> notification) \<Rightarrow> kstate \<Rightarrow> kstate" where
  "upd_ntfn p f s = s\<lparr>ntfns := (ntfns s)(p := f (ntfns s p))\<rparr>"

definition upd_sc :: "word_t \<Rightarrow> (sched_context \<Rightarrow> sched_context) \<Rightarrow> kstate \<Rightarrow> kstate" where
  "upd_sc p f s = s\<lparr>scs := (scs s)(p := f (scs s p))\<rparr>"

definition upd_reply :: "word_t \<Rightarrow> (reply \<Rightarrow> reply) \<Rightarrow> kstate \<Rightarrow> kstate" where
  "upd_reply p f s = s\<lparr>replies := (replies s)(p := f (replies s p))\<rparr>"

definition upd_pte :: "word_t \<Rightarrow> pte \<Rightarrow> kstate \<Rightarrow> kstate" where
  "upd_pte p e s = s\<lparr>ptes := (ptes s)(p := e)\<rparr>"

lemmas upd_defs = upd_cte_def upd_tcb_def upd_ep_def upd_ntfn_def upd_sc_def upd_reply_def

section \<open>Zeroed memory\<close>

text \<open>
  The objects that memory filled with zero bytes holds, and the kernel state before
  initialisation, in which all globals are zero.
\<close>

definition zero_cte :: cte where
  "zero_cte = \<lparr>cte_cap = cap_null_cap, cteMDBNode = nullMDBNode\<rparr>"

definition zero_thread_state :: thread_state where
  "zero_thread_state = \<lparr>blockingIPCBadge = 0, replyObject = 0, blockingIPCCanGrant = False,
     blockingIPCCanGrantReply = False, blockingIPCIsCall = False, tcbQueued = False,
     tcbInReleaseQueue = False, blockingObject = 0, ts_type = ThreadState_Inactive\<rparr>"

definition zero_tcb :: tcb where
  "zero_tcb = \<lparr>tcbContext = (\<lambda>_. 0), tcbState = zero_thread_state, tcbFlags = 0,
     tcbBoundNotification = 0, tcbFault = NullFault, tcbLookupFailure = invalid_root, tcbDomain = 0,
     tcbMCP = 0, tcbPriority = 0, tcbSchedContext = 0, tcbYieldTo = 0, tcbIPCBuffer = 0,
     tcbSchedNext = 0, tcbSchedPrev = 0, tcbEPNext = 0, tcbEPPrev = 0\<rparr>"

definition zero_endpoint :: endpoint where
  "zero_endpoint = \<lparr>epQueue_head = 0, epQueue_tail = 0, ep_state = EPState_Idle\<rparr>"

definition zero_notification :: notification where
  "zero_notification = \<lparr>ntfnSchedContext = 0, ntfnBoundTCB = 0, ntfnMsgIdentifier = 0,
     ntfnQueue_head = 0, ntfnQueue_tail = 0, ntfn_state = NtfnState_Idle\<rparr>"

definition zero_sched_context :: sched_context where
  "zero_sched_context = \<lparr>scPeriod = 0, scConsumed = 0, scCore = 0, scTcb = 0, scReply = 0,
     scNotification = 0, scBadge = 0, scYieldFrom = 0, scRefillMax = 0, scRefillHead = 0,
     scRefillTail = 0, scSporadic = False, scRefills = (\<lambda>_. \<lparr>rTime = 0, rAmount = 0\<rparr>)\<rparr>"

definition zero_reply :: reply where
  "zero_reply = \<lparr>replyTCB = 0, replyPrev = \<lparr>isHead = False, callStackPtr = 0\<rparr>,
     replyNext = \<lparr>isHead = False, callStackPtr = 0\<rparr>\<rparr>"

definition zero_pte :: pte where
  "zero_pte = \<lparr>ppn = 0, pte_sw = 0, pte_dirty = False, pte_accessed = False, pte_global = False,
     pte_user = False, pte_execute = False, pte_write = False, pte_read = False, pte_valid = False\<rparr>"

definition zero_syscall_error :: syscall_error where
  "zero_syscall_error = \<lparr>invalidArgumentNumber = 0, invalidCapNumber = 0, rangeErrorMin = 0,
     rangeErrorMax = 0, memoryLeft = 0, failedLookupWasSource = False, err_type = seL4_NoError\<rparr>"

definition zero_state :: kstate where
  "zero_state = \<lparr>ctes = (\<lambda>_. zero_cte), tcbs = (\<lambda>_. zero_tcb), eps = (\<lambda>_. zero_endpoint),
     ntfns = (\<lambda>_. zero_notification), scs = (\<lambda>_. zero_sched_context), replies = (\<lambda>_. zero_reply),
     ptes = (\<lambda>_. zero_pte), asid_pools = (\<lambda>_ _. 0), user_words = (\<lambda>_. 0), ksReadyQueues = (\<lambda>_. \<lparr>tcbq_head = 0, tcbq_end = 0\<rparr>),
     ksReadyQueuesL1Bitmap = (\<lambda>_. 0), ksReadyQueuesL2Bitmap = (\<lambda>_ _. 0), ksCurThread = 0,
     ksIdleThread = 0, ksSchedulerAction = 0, ksReleaseQueue = \<lparr>tcbq_head = 0, tcbq_end = 0\<rparr>,
     ksConsumed = 0, ksCurTime = 0, ksReprogram = False, ksCurSC = 0, ksIdleSC = 0,
     ksWorkUnitsCompleted = 0, intStateIRQTable = (\<lambda>_. IRQInactive), intStateIRQNode = 0,
     ksDomSchedule = (\<lambda>_. 0), ksDomScheduleIdx = 0, ksDomScheduleStart = 0, ksCurDomain = 0,
     ksDomainTime = 0, timer_deadline = 0,
     riscvKSASIDTable = (\<lambda>_. 0), kernel_root_pageTable = 0, kernel_root_paddr = 0, satp = (0, 0), current_extra_caps = (\<lambda>_. 0),
     current_lookup_fault = invalid_root, current_fault = NullFault,
     current_syscall_error = zero_syscall_error\<rparr>"

lemmas zero_defs = zero_cte_def zero_thread_state_def zero_tcb_def zero_endpoint_def
  zero_notification_def zero_sched_context_def zero_reply_def zero_pte_def zero_state_def nullMDBNode_def

end
