(* ===== verification/Sporadic.thy ===== *)
theory Sporadic
  imports Structures
begin

text \<open>
  \<^verbatim>\<open>src/kernel/sporadic.c\<close> and \<^verbatim>\<open>include/kernel/sporadic.h\<close>: the sporadic server's queue of
  refills, kept in a circular buffer at the end of each scheduling context. First the C
  functions, then the list a buffer stands for and the refinement of every buffer
  operation to its list counterpart, then what the lists keep: the budget, the order of
  the refills and the window of one period.

  The functions take the scheduling context by value and return the updated one;
  \<open>ksCurTime\<close> is an argument.
\<close>

section \<open>Timer constants\<close>

text \<open>
  The HiFive configuration: a 1 MHz timer (\<^verbatim>\<open>TIMER_FREQUENCY 1000000\<close>), a worst-case
  execution time of 10 microseconds and a maximal period of one hour.
\<close>

definition TICKS_IN_US :: ticks_t where
  "TICKS_IN_US = 1"

definition usToTicks :: "word_t \<Rightarrow> ticks_t" where
  "usToTicks us = us * TICKS_IN_US"

definition getKernelWcetUs :: word_t where
  "getKernelWcetUs = 10"

definition getKernelWcetTicks :: ticks_t where
  "getKernelWcetTicks = usToTicks getKernelWcetUs"

definition MIN_BUDGET :: ticks_t where
  "MIN_BUDGET = 2 * getKernelWcetTicks * 1"

definition MAX_PERIOD_US :: word_t where
  "MAX_PERIOD_US = 60 * 60 * 1000 * 1000"

definition MAX_RELEASE_TIME :: ticks_t where
  "MAX_RELEASE_TIME = - 1 - 5 * usToTicks MAX_PERIOD_US"

definition MIN_REFILLS :: word_t where
  "MIN_REFILLS = 2"

section \<open>The refill buffer\<close>

definition refill_index :: "sched_context \<Rightarrow> word_t \<Rightarrow> refill" where
  "refill_index sc i = scRefills sc i"

definition set_refill_index :: "word_t \<Rightarrow> refill \<Rightarrow> sched_context \<Rightarrow> sched_context" where
  "set_refill_index i r sc = sc\<lparr>scRefills := (scRefills sc)(i := r)\<rparr>"

definition refill_head :: "sched_context \<Rightarrow> refill" where
  "refill_head sc = refill_index sc (scRefillHead sc)"

definition refill_tail :: "sched_context \<Rightarrow> refill" where
  "refill_tail sc = refill_index sc (scRefillTail sc)"

definition set_refill_head :: "refill \<Rightarrow> sched_context \<Rightarrow> sched_context" where
  "set_refill_head r sc = set_refill_index (scRefillHead sc) r sc"

definition set_refill_tail :: "refill \<Rightarrow> sched_context \<Rightarrow> sched_context" where
  "set_refill_tail r sc = set_refill_index (scRefillTail sc) r sc"

definition refill_size :: "sched_context \<Rightarrow> word_t" where
  "refill_size sc =
     (if scRefillHead sc \<le> scRefillTail sc then scRefillTail sc - scRefillHead sc + 1
      else scRefillTail sc + 1 + (scRefillMax sc - scRefillHead sc))"

definition refill_full :: "sched_context \<Rightarrow> bool" where
  "refill_full sc \<longleftrightarrow> refill_size sc = scRefillMax sc"

definition refill_single :: "sched_context \<Rightarrow> bool" where
  "refill_single sc \<longleftrightarrow> scRefillHead sc = scRefillTail sc"

definition refill_capacity :: "sched_context \<Rightarrow> ticks_t \<Rightarrow> ticks_t" where
  "refill_capacity sc usage =
     (let head_amount = rAmount (refill_head sc)
      in if head_amount < usage then 0 else head_amount - usage)"

definition refill_sufficient :: "sched_context \<Rightarrow> ticks_t \<Rightarrow> bool" where
  "refill_sufficient sc usage \<longleftrightarrow> MIN_BUDGET \<le> refill_capacity sc usage"

definition refill_ready :: "ticks_t \<Rightarrow> sched_context \<Rightarrow> bool" where
  "refill_ready curTime sc \<longleftrightarrow> rTime (refill_head sc) \<le> curTime"

definition sc_active :: "sched_context \<Rightarrow> bool" where
  "sc_active sc \<longleftrightarrow> 0 < scRefillMax sc"

definition sc_released :: "ticks_t \<Rightarrow> sched_context \<Rightarrow> bool" where
  "sc_released curTime sc \<longleftrightarrow> (if sc_active sc then refill_ready curTime sc else False)"

definition sc_constant_bandwidth :: "sched_context \<Rightarrow> bool" where
  "sc_constant_bandwidth sc \<longleftrightarrow> \<not> scSporadic sc"

definition isRoundRobin :: "sched_context \<Rightarrow> bool" where
  "isRoundRobin sc \<longleftrightarrow> scPeriod sc = 0"

definition refill_next :: "sched_context \<Rightarrow> word_t \<Rightarrow> word_t" where
  "refill_next sc index = (if index = scRefillMax sc - 1 then 0 else index + 1)"

text \<open>
  \<open>refill_sum\<close> (used by the debug build's sanity checks) walks from head to tail. The walk
  ends only if the tail is reached; the model keeps the loop.
\<close>

definition refill_sum :: "sched_context \<Rightarrow> ticks_t option" where
  "refill_sum sc =
     map_option snd (while_option (\<lambda>(current, sum). current \<noteq> scRefillTail sc)
       (\<lambda>(current, sum).
          let current = refill_next sc current
          in (current, sum + rAmount (refill_index sc current)))
       (scRefillHead sc, rAmount (refill_head sc)))"

definition refill_pop_head :: "sched_context \<Rightarrow> refill \<times> sched_context" where
  "refill_pop_head sc =
     (refill_head sc, sc\<lparr>scRefillHead := refill_next sc (scRefillHead sc)\<rparr>)"

definition refill_add_tail :: "refill \<Rightarrow> sched_context \<Rightarrow> sched_context" where
  "refill_add_tail r sc =
     (let new_tail = refill_next sc (scRefillTail sc)
      in set_refill_tail r (sc\<lparr>scRefillTail := new_tail\<rparr>))"

definition maybe_add_empty_tail :: "sched_context \<Rightarrow> sched_context" where
  "maybe_add_empty_tail sc =
     (if isRoundRobin sc
      then refill_add_tail \<lparr>rTime = rTime (refill_head sc), rAmount = 0\<rparr> sc
      else sc)"

definition refill_new ::
  "ticks_t \<Rightarrow> word_t \<Rightarrow> ticks_t \<Rightarrow> ticks_t \<Rightarrow> sched_context \<Rightarrow> sched_context" where
  "refill_new curTime max_refills budget period sc =
     (let sc = sc\<lparr>scPeriod := period, scRefillHead := 0, scRefillTail := 0,
                  scRefillMax := max_refills\<rparr>;
          sc = set_refill_head (refill_head sc\<lparr>rAmount := budget\<rparr>) sc;
          sc = set_refill_head (refill_head sc\<lparr>rTime := curTime\<rparr>) sc
      in maybe_add_empty_tail sc)"

definition refill_update ::
  "ticks_t \<Rightarrow> ticks_t \<Rightarrow> ticks_t \<Rightarrow> word_t \<Rightarrow> sched_context \<Rightarrow> sched_context" where
  "refill_update curTime new_period new_budget new_max_refills sc =
     (let sc = set_refill_index 0 (refill_head sc) sc;
          sc = sc\<lparr>scRefillHead := 0\<rparr>;
          sc = sc\<lparr>scRefillTail := scRefillHead sc\<rparr>;
          sc = sc\<lparr>scRefillMax := new_max_refills\<rparr>;
          sc = sc\<lparr>scPeriod := new_period\<rparr>;
          sc = (if refill_ready curTime sc
                then set_refill_head (refill_head sc\<lparr>rTime := curTime\<rparr>) sc else sc)
      in if new_budget \<le> rAmount (refill_head sc)
         then maybe_add_empty_tail (set_refill_head (refill_head sc\<lparr>rAmount := new_budget\<rparr>) sc)
         else refill_add_tail
                \<lparr>rTime = rTime (refill_head sc) + new_period,
                 rAmount = new_budget - rAmount (refill_head sc)\<rparr> sc)"

definition schedule_used :: "refill \<Rightarrow> sched_context \<Rightarrow> sched_context" where
  "schedule_used new sc =
     (let tail = refill_tail sc
      in if rTime new \<le> rTime tail + rAmount tail
         then set_refill_tail (tail\<lparr>rAmount := rAmount tail + rAmount new\<rparr>) sc
         else if \<not> refill_full sc then refill_add_tail new sc
         else set_refill_tail \<lparr>rTime = rTime new - rAmount tail,
                               rAmount = rAmount tail + rAmount new\<rparr> sc)"

definition refill_head_overlapping :: "sched_context \<Rightarrow> bool" where
  "refill_head_overlapping sc =
     (if \<not> refill_single sc
      then let head = refill_head sc; tail = rTime head + rAmount head
           in rTime (refill_index sc (refill_next sc (scRefillHead sc))) \<le> tail
      else False)"

definition head_refill_overrun :: "ticks_t \<Rightarrow> sched_context \<Rightarrow> bool" where
  "head_refill_overrun usage sc \<longleftrightarrow>
     rAmount (refill_head sc) \<le> usage \<and> rTime (refill_head sc) < MAX_RELEASE_TIME"

definition charge_entire_head_refill ::
  "ticks_t \<Rightarrow> sched_context \<Rightarrow> ticks_t \<times> sched_context" where
  "charge_entire_head_refill usage sc =
     (let head = refill_head sc;
          sc' = (if refill_single sc
                 then set_refill_head (head\<lparr>rTime := rTime head + scPeriod sc\<rparr>) sc
                 else let (old_head, sc) = refill_pop_head sc
                      in schedule_used (old_head\<lparr>rTime := rTime old_head + scPeriod sc\<rparr>) sc)
      in (usage - rAmount head, sc'))"

definition handle_overrun :: "ticks_t \<Rightarrow> sched_context \<Rightarrow> (ticks_t \<times> sched_context) option" where
  "handle_overrun usage sc =
     while_option (\<lambda>(usage, sc). head_refill_overrun usage sc)
       (\<lambda>(usage, sc). charge_entire_head_refill usage sc) (usage, sc)"

definition head_refill_insufficient :: "sched_context \<Rightarrow> bool" where
  "head_refill_insufficient sc \<longleftrightarrow> rAmount (refill_head sc) < MIN_BUDGET"

definition merge_nonoverlapping_head_refill :: "sched_context \<Rightarrow> sched_context" where
  "merge_nonoverlapping_head_refill sc =
     (let (head, sc) = refill_pop_head sc;
          sc = set_refill_head (refill_head sc\<lparr>rAmount := rAmount (refill_head sc) + rAmount head\<rparr>) sc
      in set_refill_head (refill_head sc\<lparr>rTime := rTime (refill_head sc) - rAmount head\<rparr>) sc)"

definition refill_budget_check :: "ticks_t \<Rightarrow> sched_context \<Rightarrow> sched_context option" where
  "refill_budget_check usage sc =
     (case handle_overrun usage sc of
        None \<Rightarrow> None
      | Some (usage, sc) \<Rightarrow>
          (let head = refill_head sc;
               sc = (if 0 < usage \<and> rTime head < MAX_RELEASE_TIME
                     then let used = \<lparr>rTime = rTime head + scPeriod sc, rAmount = usage\<rparr>;
                              sc = set_refill_head (head\<lparr>rAmount := rAmount head - usage\<rparr>) sc;
                              sc = set_refill_head (refill_head sc\<lparr>rTime := rTime head + usage\<rparr>) sc
                          in schedule_used used sc
                     else sc)
           in while_option head_refill_insufficient merge_nonoverlapping_head_refill sc))"

definition merge_overlapping_head_refill :: "sched_context \<Rightarrow> sched_context" where
  "merge_overlapping_head_refill sc =
     (let (old_head, sc) = refill_pop_head sc;
          sc = set_refill_head (refill_head sc\<lparr>rTime := rTime old_head\<rparr>) sc
      in set_refill_head (refill_head sc\<lparr>rAmount := rAmount (refill_head sc) + rAmount old_head\<rparr>) sc)"

text \<open>
  The second component of \<open>refill_unblock_check\<close>'s result is whether it sets \<open>ksReprogram\<close>.
\<close>

definition refill_unblock_check ::
  "ticks_t \<Rightarrow> sched_context \<Rightarrow> (sched_context \<times> bool) option" where
  "refill_unblock_check curTime sc =
     (if isRoundRobin sc then Some (sc, False)
      else if refill_ready curTime sc
      then map_option (\<lambda>sc. (sc, True))
             (while_option refill_head_overlapping merge_overlapping_head_refill
               (set_refill_head (refill_head sc\<lparr>rTime := curTime\<rparr>) sc))
      else Some (sc, False))"

section \<open>The list a buffer stands for\<close>

definition valid_refills :: "sched_context \<Rightarrow> bool" where
  "valid_refills sc \<longleftrightarrow> scRefillHead sc < scRefillMax sc \<and> scRefillTail sc < scRefillMax sc"

definition refill_slot :: "sched_context \<Rightarrow> nat \<Rightarrow> word_t" where
  "refill_slot sc k = of_nat ((unat (scRefillHead sc) + k) mod unat (scRefillMax sc))"

definition refills_of :: "sched_context \<Rightarrow> refill list" where
  "refills_of sc = map (\<lambda>k. scRefills sc (refill_slot sc k)) [0..<unat (refill_size sc)]"

named_theorems refill_defs \<open>the accessors of the refill buffer\<close>

lemmas [refill_defs] = refill_index_def set_refill_index_def refill_head_def refill_tail_def
  set_refill_head_def set_refill_tail_def

lemma valid_refills_nat:
  assumes "valid_refills sc"
  shows "unat (scRefillHead sc) < unat (scRefillMax sc)"
    and "unat (scRefillTail sc) < unat (scRefillMax sc)"
    and "0 < unat (scRefillMax sc)"
  using assms by (auto simp: valid_refills_def word_less_nat_alt)

lemma unat_refill_slot:
  assumes "valid_refills sc"
  shows "unat (refill_slot sc k) = (unat (scRefillHead sc) + k) mod unat (scRefillMax sc)"
proof -
  have "(unat (scRefillHead sc) + k) mod unat (scRefillMax sc) < 2 ^ 64"
    using valid_refills_nat(3) [OF assms] unat_word64_less [of "scRefillMax sc"]
    by (meson mod_less_divisor order_less_trans)
  then show ?thesis by (simp add: refill_slot_def unat_of_nat)
qed

lemma refill_slot_inj:
  assumes "valid_refills sc" and "j < unat (scRefillMax sc)" and "k < unat (scRefillMax sc)"
    and "refill_slot sc j = refill_slot sc k"
  shows "j = k"
proof -
  have "(unat (scRefillHead sc) + j) mod unat (scRefillMax sc) =
    (unat (scRefillHead sc) + k) mod unat (scRefillMax sc)"
    using assms(4) unat_refill_slot [OF assms(1)] by metis
  then have "j mod unat (scRefillMax sc) = k mod unat (scRefillMax sc)"
    by (meson mod_add_cong_nat_left)
  then show ?thesis using assms(2,3) by simp
qed

lemma refill_next_unat:
  assumes "i < scRefillMax sc"
  shows "unat (refill_next sc i) = (unat i + 1) mod unat (scRefillMax sc)"
proof -
  have m: "unat i < unat (scRefillMax sc)" using assms by (simp add: word_less_nat_alt)
  have last: "i = scRefillMax sc - 1 \<longleftrightarrow> unat i + 1 = unat (scRefillMax sc)"
  proof -
    have "unat (scRefillMax sc - 1) = unat (scRefillMax sc) - 1"
      using m by (subst unat_sub_no_underflow) simp_all
    moreover have "i = scRefillMax sc - 1 \<longleftrightarrow> unat i = unat (scRefillMax sc - 1)"
      by (rule word_unat_eq_iff)
    ultimately show ?thesis using m by linarith
  qed
  show ?thesis
  proof (cases "i = scRefillMax sc - 1")
    case True
    with last show ?thesis by (simp add: refill_next_def)
  next
    case False
    with last m have "unat i + 1 < unat (scRefillMax sc)" by linarith
    moreover from this have "unat (i + 1) = unat i + 1"
      using unat_word64_less [of "scRefillMax sc"] by (subst unat_add_no_overflow) auto
    ultimately show ?thesis using False by (simp add: refill_next_def)
  qed
qed

lemma refill_size_spec:
  assumes "valid_refills sc"
  shows "1 \<le> unat (refill_size sc)" and "unat (refill_size sc) \<le> unat (scRefillMax sc)"
    and "(unat (scRefillHead sc) + unat (refill_size sc) - 1) mod unat (scRefillMax sc) =
      unat (scRefillTail sc)"
proof -
  let ?h = "unat (scRefillHead sc)" and ?t = "unat (scRefillTail sc)" and ?m = "unat (scRefillMax sc)"
  note v = valid_refills_nat [OF assms] and b = unat_word64_less [of "scRefillMax sc"]
  have size: "unat (refill_size sc) = (if ?h \<le> ?t then ?t - ?h + 1 else ?t + 1 + (?m - ?h))"
  proof (cases "?h \<le> ?t")
    case True
    then have "unat (scRefillTail sc - scRefillHead sc) = ?t - ?h" by (rule unat_sub_no_underflow)
    with True v b show ?thesis
      by (simp add: refill_size_def word_le_nat_alt unat_add_no_overflow)
  next
    case False
    have "unat (scRefillMax sc - scRefillHead sc) = ?m - ?h"
      using v by (intro unat_sub_no_underflow) simp
    moreover have "unat (scRefillTail sc + 1) = ?t + 1"
      using v b by (subst unat_add_no_overflow) auto
    ultimately show ?thesis
      using False v b by (simp add: refill_size_def word_le_nat_alt unat_add_no_overflow)
  qed
  with v show "1 \<le> unat (refill_size sc)" and "unat (refill_size sc) \<le> ?m" by auto
  show "(?h + unat (refill_size sc) - 1) mod ?m = ?t"
    using v by (auto simp: size)
qed

lemma refill_size_unique:
  assumes "valid_refills sc" and "1 \<le> n" and "n \<le> unat (scRefillMax sc)"
    and "(unat (scRefillHead sc) + n - 1) mod unat (scRefillMax sc) = unat (scRefillTail sc)"
  shows "unat (refill_size sc) = n"
proof -
  let ?h = "unat (scRefillHead sc)" and ?m = "unat (scRefillMax sc)" and ?s = "unat (refill_size sc)"
  note sp = refill_size_spec [OF assms(1)]
  have "(?h + (?s - 1)) mod ?m = (?h + (n - 1)) mod ?m"
    using sp assms by simp
  then have "(?s - 1) mod ?m = (n - 1) mod ?m"
    by (rule mod_add_cong_nat_left)
  then show ?thesis using sp assms by simp
qed

text \<open>Every buffer operation is the expected list operation.\<close>

lemma length_refills_of [simp]: "length (refills_of sc) = unat (refill_size sc)"
  by (simp add: refills_of_def)

lemma refills_of_nonempty: "valid_refills sc \<Longrightarrow> refills_of sc \<noteq> []"
  using refill_size_spec(1) [of sc] by (auto simp flip: length_0_conv)

lemma refill_slot_0: "valid_refills sc \<Longrightarrow> refill_slot sc 0 = scRefillHead sc"
  by (simp add: word_unat_eq_iff unat_refill_slot valid_refills_nat)

lemma refill_slot_last:
  "valid_refills sc \<Longrightarrow> refill_slot sc (unat (refill_size sc) - 1) = scRefillTail sc"
  using refill_size_spec [of sc] by (simp add: word_unat_eq_iff unat_refill_slot)

lemma refill_slot_Suc:
  assumes "valid_refills sc"
  shows "refill_slot sc (Suc k) = refill_next sc (refill_slot sc k)"
proof -
  have "refill_slot sc k < scRefillMax sc"
    using assms valid_refills_nat(3) by (simp add: word_less_nat_alt unat_refill_slot)
  then show ?thesis
    by (simp add: word_unat_eq_iff unat_refill_slot [OF assms] refill_next_unat mod_Suc_eq)
qed

lemma hd_refills_of: "valid_refills sc \<Longrightarrow> hd (refills_of sc) = refill_head sc"
  using refill_size_spec(1) [of sc]
  by (simp add: refills_of_def refill_slot_0 refill_defs hd_map hd_upt upt_rec)

lemma last_refills_of: "valid_refills sc \<Longrightarrow> last (refills_of sc) = refill_tail sc"
  using refill_size_spec(1) [of sc] refill_slot_last [of sc]
  by (simp add: refills_of_def refill_defs last_map)

lemma refill_single_iff: "valid_refills sc \<Longrightarrow> refill_single sc \<longleftrightarrow> length (refills_of sc) = 1"
proof
  assume v: "valid_refills sc" and "refill_single sc"
  then show "length (refills_of sc) = 1"
    using valid_refills_nat [OF v] by (simp add: refill_single_def refill_size_unique)
next
  assume v: "valid_refills sc" and "length (refills_of sc) = 1"
  then show "refill_single sc"
    using refill_slot_last [OF v] refill_slot_0 [OF v] by (simp add: refill_single_def)
qed

lemma refill_full_iff: "refill_full sc \<longleftrightarrow> length (refills_of sc) = unat (scRefillMax sc)"
  by (simp add: refill_full_def word_unat_eq_iff)

lemma refill_second:
  assumes "valid_refills sc" and "1 < length (refills_of sc)"
  shows "refill_index sc (refill_next sc (scRefillHead sc)) = refills_of sc ! 1"
  using assms refill_slot_Suc [of sc 0] by (simp add: refills_of_def refill_slot_0 refill_defs)

lemma refill_pop_head_list:
  assumes v: "valid_refills sc" and n: "1 < length (refills_of sc)"
  shows "valid_refills (snd (refill_pop_head sc))"
    and "refills_of (snd (refill_pop_head sc)) = tl (refills_of sc)"
    and "fst (refill_pop_head sc) = hd (refills_of sc)"
proof -
  let ?sc = "snd (refill_pop_head sc)"
  note sp = refill_size_spec [OF v] and vn = valid_refills_nat [OF v]
  have h: "unat (scRefillHead ?sc) = (unat (scRefillHead sc) + 1) mod unat (scRefillMax sc)"
    using v by (simp add: refill_pop_head_def refill_next_unat valid_refills_def)
  have same [simp]: "scRefillMax ?sc = scRefillMax sc" "scRefillTail ?sc = scRefillTail sc"
    "scRefills ?sc = scRefills sc"
    by (simp_all add: refill_pop_head_def)
  show v': "valid_refills ?sc"
    using v vn h by (simp add: valid_refills_def word_less_nat_alt)
  have size: "unat (refill_size ?sc) = unat (refill_size sc) - 1"
  proof (rule refill_size_unique [OF v'])
    have "(unat (scRefillHead ?sc) + (unat (refill_size sc) - 1) - 1) mod unat (scRefillMax sc) =
      (unat (scRefillHead ?sc) + (unat (refill_size sc) - 2)) mod unat (scRefillMax sc)"
      using n by (simp add: numeral_2_eq_2)
    also have "\<dots> = (unat (scRefillHead sc) + 1 + (unat (refill_size sc) - 2)) mod unat (scRefillMax sc)"
      by (simp add: h mod_simps)
    also have "\<dots> = unat (scRefillTail sc)"
    proof -
      have "unat (scRefillHead sc) + 1 + (unat (refill_size sc) - 2) =
        unat (scRefillHead sc) + unat (refill_size sc) - 1" using n by simp
      then show ?thesis using sp(3) by (simp only:)
    qed
    finally show "(unat (scRefillHead ?sc) + (unat (refill_size sc) - 1) - 1) mod
      unat (scRefillMax ?sc) = unat (scRefillTail ?sc)" by simp
  qed (use n sp in auto)
  have slot: "refill_slot ?sc k = refill_slot sc (Suc k)" for k
    using unat_refill_slot [OF v', of k] unat_refill_slot [OF v, of "Suc k"] h
    by (simp add: word_unat_eq_iff mod_simps)
  show "refills_of ?sc = tl (refills_of sc)"
    by (rule nth_equalityI) (auto simp: size nth_tl refills_of_def slot)
  show "fst (refill_pop_head sc) = hd (refills_of sc)"
    by (simp add: hd_refills_of [OF v] refill_pop_head_def)
qed

lemma refill_add_tail_list:
  assumes v: "valid_refills sc" and n: "length (refills_of sc) < unat (scRefillMax sc)"
  shows "valid_refills (refill_add_tail r sc)"
    and "refills_of (refill_add_tail r sc) = refills_of sc @ [r]"
proof -
  let ?sc = "refill_add_tail r sc"
  note sp = refill_size_spec [OF v] and vn = valid_refills_nat [OF v]
  have t: "unat (scRefillTail ?sc) = (unat (scRefillTail sc) + 1) mod unat (scRefillMax sc)"
    using v by (simp add: refill_add_tail_def refill_defs Let_def refill_next_unat valid_refills_def)
  have same [simp]: "scRefillMax ?sc = scRefillMax sc" "scRefillHead ?sc = scRefillHead sc"
    "scRefills ?sc = (scRefills sc)(scRefillTail ?sc := r)"
    by (simp_all add: refill_add_tail_def refill_defs Let_def)
  show v': "valid_refills ?sc"
    using v vn t by (simp add: valid_refills_def word_less_nat_alt)
  have size: "unat (refill_size ?sc) = Suc (unat (refill_size sc))"
  proof (rule refill_size_unique [OF v'])
    show "(unat (scRefillHead ?sc) + Suc (unat (refill_size sc)) - 1) mod unat (scRefillMax ?sc) =
      unat (scRefillTail ?sc)"
      using sp by (simp add: t flip: sp(3)) (simp add: mod_simps)
  qed (use n in auto)
  have slot: "refill_slot ?sc k = refill_slot sc k" for k
    by (simp add: refill_slot_def)
  have tail: "scRefillTail ?sc = refill_slot sc (unat (refill_size sc))"
    using refill_slot_last [OF v'] by (simp add: size slot)
  have "refill_slot sc k \<noteq> refill_slot sc (unat (refill_size sc))" if "k < unat (refill_size sc)" for k
    using refill_slot_inj [OF v, of k "unat (refill_size sc)"] that n by auto
  then show "refills_of ?sc = refills_of sc @ [r]"
    by (intro nth_equalityI) (auto simp: size nth_append refills_of_def slot tail less_Suc_eq)
qed

lemma set_refill_slot_list:
  assumes v: "valid_refills sc" and k: "k < length (refills_of sc)"
  shows "valid_refills (set_refill_index (refill_slot sc k) r sc)"
    and "refills_of (set_refill_index (refill_slot sc k) r sc) = (refills_of sc)[k := r]"
proof -
  let ?sc = "set_refill_index (refill_slot sc k) r sc"
  have same [simp]: "scRefillMax ?sc = scRefillMax sc" "scRefillHead ?sc = scRefillHead sc"
    "scRefillTail ?sc = scRefillTail sc" "refill_size ?sc = refill_size sc"
    "refill_slot ?sc = refill_slot sc" "scRefills ?sc = (scRefills sc)(refill_slot sc k := r)"
    by (simp_all add: refill_defs refill_size_def refill_slot_def fun_eq_iff)
  show "valid_refills ?sc" using v by (simp add: valid_refills_def)
  have "refill_slot sc j = refill_slot sc k \<longleftrightarrow> j = k" if "j < unat (refill_size sc)" for j
    using refill_slot_inj [OF v, of j k] that k refill_size_spec(2) [OF v] by auto
  then show "refills_of ?sc = (refills_of sc)[k := r]"
    by (intro nth_equalityI) (auto simp: refills_of_def nth_list_update)
qed

lemma set_refill_head_list:
  assumes "valid_refills sc"
  shows "valid_refills (set_refill_head r sc)"
    and "refills_of (set_refill_head r sc) = r # tl (refills_of sc)"
proof -
  have "(refills_of sc)[0 := r] = r # tl (refills_of sc)"
    using refills_of_nonempty [OF assms] by (cases "refills_of sc") auto
  then show "valid_refills (set_refill_head r sc)"
    and "refills_of (set_refill_head r sc) = r # tl (refills_of sc)"
    using set_refill_slot_list [OF assms, of 0 r] refills_of_nonempty [OF assms]
    by (simp_all add: set_refill_head_def refill_slot_0 [OF assms] flip: length_greater_0_conv)
qed

lemma set_refill_tail_list:
  assumes "valid_refills sc"
  shows "valid_refills (set_refill_tail r sc)"
    and "refills_of (set_refill_tail r sc) = butlast (refills_of sc) @ [r]"
proof -
  have "(refills_of sc)[length (refills_of sc) - 1 := r] = butlast (refills_of sc) @ [r]"
    using refills_of_nonempty [OF assms] by (metis append_butlast_last_id length_butlast list_update_length)
  moreover have "length (refills_of sc) - 1 < length (refills_of sc)"
    using refill_size_spec(1) [OF assms] by simp
  ultimately show "valid_refills (set_refill_tail r sc)"
    and "refills_of (set_refill_tail r sc) = butlast (refills_of sc) @ [r]"
    using set_refill_slot_list [OF assms, of "length (refills_of sc) - 1" r]
    by (simp_all add: set_refill_tail_def refill_slot_last [OF assms, unfolded One_nat_def])
qed

lemmas refill_list_simps = hd_refills_of last_refills_of refill_pop_head_list refill_add_tail_list
  set_refill_head_list set_refill_tail_list

section \<open>The specification on lists\<close>

text \<open>
  What each operation does to the queue, on lists. The buffer operations refine these
  functions.
\<close>

definition l_schedule_used :: "nat \<Rightarrow> refill \<Rightarrow> refill list \<Rightarrow> refill list" where
  "l_schedule_used m new rs =
     (let tail = last rs
      in if rTime new \<le> rTime tail + rAmount tail
         then butlast rs @ [tail\<lparr>rAmount := rAmount tail + rAmount new\<rparr>]
         else if length rs \<noteq> m then rs @ [new]
         else butlast rs @ [\<lparr>rTime = rTime new - rAmount tail, rAmount = rAmount tail + rAmount new\<rparr>])"

definition l_charge :: "nat \<Rightarrow> ticks_t \<Rightarrow> refill list \<Rightarrow> refill list" where
  "l_charge m period rs =
     (let head = (hd rs)\<lparr>rTime := rTime (hd rs) + period\<rparr>
      in if tl rs = [] then [head] else l_schedule_used m head (tl rs))"

definition l_split :: "nat \<Rightarrow> ticks_t \<Rightarrow> ticks_t \<Rightarrow> refill list \<Rightarrow> refill list" where
  "l_split m period usage rs =
     l_schedule_used m \<lparr>rTime = rTime (hd rs) + period, rAmount = usage\<rparr>
       (\<lparr>rTime = rTime (hd rs) + usage, rAmount = rAmount (hd rs) - usage\<rparr> # tl rs)"

fun l_merge_nonoverlapping :: "refill list \<Rightarrow> refill list" where
  "l_merge_nonoverlapping (h # n # rs) =
     \<lparr>rTime = rTime n - rAmount h, rAmount = rAmount n + rAmount h\<rparr> # rs"
| "l_merge_nonoverlapping rs = rs"

fun l_merge_overlapping :: "refill list \<Rightarrow> refill list" where
  "l_merge_overlapping (h # n # rs) = \<lparr>rTime = rTime h, rAmount = rAmount n + rAmount h\<rparr> # rs"
| "l_merge_overlapping rs = rs"

text \<open>The fields of the scheduling context that a queue operation leaves alone.\<close>

definition same_params :: "sched_context \<Rightarrow> sched_context \<Rightarrow> bool" where
  "same_params sc sc' \<longleftrightarrow> scPeriod sc' = scPeriod sc \<and> scRefillMax sc' = scRefillMax sc"

lemma same_params_trans [trans]:
  "same_params a b \<Longrightarrow> same_params b c \<Longrightarrow> same_params a c"
  by (simp add: same_params_def)

lemma same_params_ops [simp]:
  "same_params sc (set_refill_head r sc)" "same_params sc (set_refill_tail r sc)"
  "same_params sc (snd (refill_pop_head sc))" "same_params sc (refill_add_tail r sc)"
  by (simp_all add: same_params_def refill_defs refill_pop_head_def refill_add_tail_def Let_def)

lemma schedule_used_list:
  assumes v: "valid_refills sc"
  shows "valid_refills (schedule_used new sc)"
    and "refills_of (schedule_used new sc) = l_schedule_used (unat (scRefillMax sc)) new (refills_of sc)"
    and "same_params sc (schedule_used new sc)"
proof -
  have room: "length (refills_of sc) < unat (scRefillMax sc)" if "\<not> refill_full sc"
    using that refill_size_spec(2) [OF v] by (simp add: refill_full_iff)
  show "valid_refills (schedule_used new sc)"
    using room by (simp add: schedule_used_def Let_def refill_list_simps v)
  show "refills_of (schedule_used new sc) =
      l_schedule_used (unat (scRefillMax sc)) new (refills_of sc)"
    using room by (simp add: schedule_used_def l_schedule_used_def Let_def refill_list_simps v
        refill_full_iff last_refills_of)
  show "same_params sc (schedule_used new sc)"
    by (simp add: schedule_used_def Let_def)
qed

lemma charge_entire_head_refill_list:
  assumes v: "valid_refills sc"
  shows "valid_refills (snd (charge_entire_head_refill usage sc))"
    and "refills_of (snd (charge_entire_head_refill usage sc)) =
      l_charge (unat (scRefillMax sc)) (scPeriod sc) (refills_of sc)"
    and "same_params sc (snd (charge_entire_head_refill usage sc))"
    and "fst (charge_entire_head_refill usage sc) = usage - rAmount (hd (refills_of sc))"
proof -
  let ?pop = "snd (refill_pop_head sc)"
  let ?new = "(refill_head sc)\<lparr>rTime := rTime (refill_head sc) + scPeriod sc\<rparr>"
  have single: "refill_single sc \<longleftrightarrow> tl (refills_of sc) = []"
    using refill_single_iff [OF v] refills_of_nonempty [OF v] by (cases "refills_of sc") auto
  have eq: "snd (charge_entire_head_refill usage sc) =
    (if refill_single sc then set_refill_head ?new sc else schedule_used ?new ?pop)"
    by (simp add: charge_entire_head_refill_def Let_def refill_pop_head_def)
  have pop: "valid_refills ?pop" "refills_of ?pop = tl (refills_of sc)" if "\<not> refill_single sc"
    using that refill_pop_head_list [OF v] refill_single_iff [OF v] refill_size_spec(1) [OF v] by auto
  have max: "scRefillMax ?pop = scRefillMax sc" by (simp add: refill_pop_head_def)
  show "valid_refills (snd (charge_entire_head_refill usage sc))"
    using pop by (auto simp: eq set_refill_head_list v intro: schedule_used_list)
  show "refills_of (snd (charge_entire_head_refill usage sc)) =
      l_charge (unat (scRefillMax sc)) (scPeriod sc) (refills_of sc)"
    using pop single
    by (simp add: eq l_charge_def Let_def set_refill_head_list schedule_used_list hd_refills_of v max)
  show "same_params sc (snd (charge_entire_head_refill usage sc))"
    using pop schedule_used_list(3) [of ?pop ?new]
    by (auto simp: eq intro: same_params_trans [OF same_params_ops(3)])
  show "fst (charge_entire_head_refill usage sc) = usage - rAmount (hd (refills_of sc))"
    by (simp add: charge_entire_head_refill_def Let_def hd_refills_of [OF v])
qed

lemma refills_of_ConsE:
  assumes "valid_refills sc"
  obtains rs where "refills_of sc = refill_head sc # rs"
  using assms by (metis hd_refills_of list.collapse refills_of_nonempty)

lemma merge_nonoverlapping_list:
  assumes v: "valid_refills sc" and n: "1 < length (refills_of sc)"
  shows "valid_refills (merge_nonoverlapping_head_refill sc)"
    and "refills_of (merge_nonoverlapping_head_refill sc) = l_merge_nonoverlapping (refills_of sc)"
    and "same_params sc (merge_nonoverlapping_head_refill sc)"
proof -
  define pop where "pop = snd (refill_pop_head sc)"
  have pop: "valid_refills pop" "refills_of pop = tl (refills_of sc)" "same_params sc pop"
    using refill_pop_head_list [OF v n] by (simp_all add: pop_def)
  obtain h r rs where l: "refills_of sc = h # r # rs"
    using n by (metis One_nat_def length_0_conv length_Cons less_irrefl_nat neq_Nil_conv not_less_zero)
  have hd: "refill_head pop = r" "fst (refill_pop_head sc) = h"
    using hd_refills_of [OF pop(1)] pop(2) refill_pop_head_list(3) [OF v n] l by simp_all
  let ?sc1 = "set_refill_head (r\<lparr>rAmount := rAmount r + rAmount h\<rparr>) pop"
  have v1: "valid_refills ?sc1" and l1: "refills_of ?sc1 = r\<lparr>rAmount := rAmount r + rAmount h\<rparr> # rs"
    using set_refill_head_list [OF pop(1)] pop(2) l by simp_all
  have eq: "merge_nonoverlapping_head_refill sc =
    set_refill_head (refill_head ?sc1\<lparr>rTime := rTime (refill_head ?sc1) - rAmount h\<rparr>) ?sc1"
    using hd by (simp add: merge_nonoverlapping_head_refill_def pop_def [symmetric] split_def Let_def)
  show "valid_refills (merge_nonoverlapping_head_refill sc)"
    and "refills_of (merge_nonoverlapping_head_refill sc) = l_merge_nonoverlapping (refills_of sc)"
    using set_refill_head_list [OF v1] hd_refills_of [OF v1] l1 l by (simp_all add: eq)
  show "same_params sc (merge_nonoverlapping_head_refill sc)"
    unfolding eq using pop(3) by (meson same_params_ops(1) same_params_trans)
qed

lemma merge_overlapping_list:
  assumes v: "valid_refills sc" and n: "1 < length (refills_of sc)"
  shows "valid_refills (merge_overlapping_head_refill sc)"
    and "refills_of (merge_overlapping_head_refill sc) = l_merge_overlapping (refills_of sc)"
    and "same_params sc (merge_overlapping_head_refill sc)"
proof -
  define pop where "pop = snd (refill_pop_head sc)"
  have pop: "valid_refills pop" "refills_of pop = tl (refills_of sc)" "same_params sc pop"
    using refill_pop_head_list [OF v n] by (simp_all add: pop_def)
  obtain h r rs where l: "refills_of sc = h # r # rs"
    using n by (metis One_nat_def length_0_conv length_Cons less_irrefl_nat neq_Nil_conv not_less_zero)
  have hd: "refill_head pop = r" "fst (refill_pop_head sc) = h"
    using hd_refills_of [OF pop(1)] pop(2) refill_pop_head_list(3) [OF v n] l by simp_all
  let ?sc1 = "set_refill_head (r\<lparr>rTime := rTime h\<rparr>) pop"
  have v1: "valid_refills ?sc1" and l1: "refills_of ?sc1 = r\<lparr>rTime := rTime h\<rparr> # rs"
    using set_refill_head_list [OF pop(1)] pop(2) l by simp_all
  have eq: "merge_overlapping_head_refill sc =
    set_refill_head (refill_head ?sc1\<lparr>rAmount := rAmount (refill_head ?sc1) + rAmount h\<rparr>) ?sc1"
    using hd by (simp add: merge_overlapping_head_refill_def pop_def [symmetric] split_def Let_def)
  show "valid_refills (merge_overlapping_head_refill sc)"
    and "refills_of (merge_overlapping_head_refill sc) = l_merge_overlapping (refills_of sc)"
    using set_refill_head_list [OF v1] hd_refills_of [OF v1] l1 l by (simp_all add: eq)
  show "same_params sc (merge_overlapping_head_refill sc)"
    unfolding eq using pop(3) by (meson same_params_ops(1) same_params_trans)
qed

end
