(* ===== verification/SporadicBudget.thy ===== *)
theory SporadicBudget
  imports Sporadic
begin

text \<open>
  What the sporadic server keeps: the refills always add up to the configured budget,
  they are ordered and do not overlap, and they lie within one period. The invariant is
  stated on the list of refills in natural numbers, so it also says that no sum of a time
  and an amount wraps around.
\<close>

section \<open>The invariant\<close>

definition max_period :: nat where
  "max_period = unat (usToTicks MAX_PERIOD_US)"

definition r_end :: "refill \<Rightarrow> nat" where
  "r_end r = unat (rTime r) + unat (rAmount r)"

definition refills_ordered :: "refill list \<Rightarrow> bool" where
  "refills_ordered rs \<longleftrightarrow> sorted_wrt (\<lambda>a b. r_end a \<le> unat (rTime b)) rs"

definition refills_total :: "refill list \<Rightarrow> nat" where
  "refills_total rs = (\<Sum>r\<leftarrow>rs. unat (rAmount r))"

definition refills_positive :: "refill list \<Rightarrow> bool" where
  "refills_positive rs \<longleftrightarrow> list_all (\<lambda>r. 0 < rAmount r) rs"

definition last_time_bound :: nat where
  "last_time_bound = 2 ^ 64 - 1 - 4 * max_period"

definition refills_inv :: "nat \<Rightarrow> nat \<Rightarrow> refill list \<Rightarrow> bool" where
  "refills_inv period budget rs \<longleftrightarrow>
     rs \<noteq> [] \<and> refills_ordered rs \<and> refills_positive rs \<and> refills_total rs = budget \<and>
     unat (rTime (last rs)) \<le> unat (rTime (hd rs)) + period \<and>
     unat (rTime (last rs)) \<le> last_time_bound \<and>
     unat MIN_BUDGET \<le> budget \<and> budget \<le> period \<and> period \<le> max_period"

lemmas refills_inv_defs = refills_ordered_def refills_positive_def refills_total_def

text \<open>The invariant of a scheduling context: a valid buffer with a good queue.\<close>

definition sc_refills_ok :: "nat \<Rightarrow> sched_context \<Rightarrow> bool" where
  "sc_refills_ok budget sc \<longleftrightarrow>
     valid_refills sc \<and> refills_inv (unat (scPeriod sc)) budget (refills_of sc)"

section \<open>Constants\<close>

lemma max_period_value: "max_period = 3600000000"
  by (simp add: max_period_def usToTicks_def TICKS_IN_US_def MAX_PERIOD_US_def)

lemma max_release_time_value: "unat MAX_RELEASE_TIME = 2 ^ 64 - 1 - 5 * max_period"
  by (simp add: MAX_RELEASE_TIME_def max_period_value usToTicks_def TICKS_IN_US_def MAX_PERIOD_US_def)

lemma last_time_bound_value: "last_time_bound = unat MAX_RELEASE_TIME + max_period"
  by (simp add: last_time_bound_def max_release_time_value max_period_value)

lemma min_budget_value: "unat MIN_BUDGET = 20"
  by (simp add: MIN_BUDGET_def getKernelWcetTicks_def usToTicks_def TICKS_IN_US_def getKernelWcetUs_def)

lemmas refill_consts = max_period_value max_release_time_value [unfolded max_period_value]
  last_time_bound_def [unfolded max_period_value] min_budget_value

section \<open>Lists of refills\<close>

lemma refills_total_simps [simp]:
  "refills_total [] = 0" "refills_total (r # rs) = unat (rAmount r) + refills_total rs"
  "refills_total (xs @ ys) = refills_total xs + refills_total ys"
  by (simp_all add: refills_total_def)

lemma refills_positive_simps [simp]:
  "refills_positive []" "refills_positive (r # rs) \<longleftrightarrow> 0 < rAmount r \<and> refills_positive rs"
  "refills_positive (xs @ ys) \<longleftrightarrow> refills_positive xs \<and> refills_positive ys"
  by (simp_all add: refills_positive_def)

lemma refills_ordered_simps [simp]:
  "refills_ordered []" "refills_ordered [r]"
  "refills_ordered (r # rs) \<longleftrightarrow> (\<forall>b \<in> set rs. r_end r \<le> unat (rTime b)) \<and> refills_ordered rs"
  "refills_ordered (xs @ [t]) \<longleftrightarrow> refills_ordered xs \<and> (\<forall>a \<in> set xs. r_end a \<le> unat (rTime t))"
  "refills_ordered (xs @ [t, u]) \<longleftrightarrow>
     refills_ordered (xs @ [t]) \<and> (\<forall>a \<in> insert t (set xs). r_end a \<le> unat (rTime u))"
  by (auto simp: refills_ordered_def sorted_wrt_append)

lemma rTime_le_r_end: "unat (rTime r) \<le> r_end r"
  by (simp add: r_end_def)

lemma hd_time_le_last:
  "rs \<noteq> [] \<Longrightarrow> refills_ordered rs \<Longrightarrow> unat (rTime (hd rs)) \<le> unat (rTime (last rs))"
  by (cases rs) (auto intro: order_trans [OF rTime_le_r_end])

lemma hd_end_le_next:
  "refills_ordered (h # rs) \<Longrightarrow> rs \<noteq> [] \<Longrightarrow> r_end h \<le> unat (rTime (hd rs))"
  by simp

lemma amount_le_total: "r \<in> set rs \<Longrightarrow> unat (rAmount r) \<le> refills_total rs"
  by (induction rs) auto

text \<open>
  Scheduling a used refill at the end of an ordered list. Whichever branch is taken, the
  list stays ordered, the amounts add up, and the last refill does not start after the
  new one.
\<close>

lemma l_schedule_used_props:
  fixes m :: nat and rs :: "refill list" and new :: refill
  assumes ne: "rs \<noteq> []" and ord: "refills_ordered rs" and pos: "refills_positive rs"
    and new: "0 < rAmount new" "unat (rTime (last rs)) \<le> unat (rTime new)"
    and fit: "unat (rTime new) + (refills_total rs + unat (rAmount new)) < 2 ^ 64"
  defines "rs' \<equiv> l_schedule_used m new rs"
  shows "rs' \<noteq> []" and "refills_ordered rs'" and "refills_positive rs'"
    and "refills_total rs' = refills_total rs + unat (rAmount new)"
    and "unat (rTime (last rs')) \<le> unat (rTime new)"
    and "unat (rTime (hd rs)) \<le> unat (rTime (hd rs'))"
proof -
  obtain bs t where rs: "rs = bs @ [t]" using ne by (metis append_butlast_last_id)
  have at: "unat (rAmount t) \<le> refills_total rs" by (simp add: rs)
  have t_le: "unat (rTime t) \<le> unat (rTime new)" using new(2) by (simp add: rs)
  have end_t: "unat (rTime t + rAmount t) = r_end t"
    using at t_le fit unfolding r_end_def by (subst unat_add_no_overflow) auto
  have sum: "unat (rAmount t + rAmount new) = unat (rAmount t) + unat (rAmount new)"
    using at fit by (subst unat_add_no_overflow) auto
  have sum_pos: "0 < rAmount t + rAmount new"
    using sum new(1) by (simp add: word_less_nat_alt)
  have sub: "unat (rTime new - rAmount t) = unat (rTime new) - unat (rAmount t)"
    if "\<not> rTime new \<le> rTime t + rAmount t"
    using that end_t by (intro unat_sub_no_underflow) (simp add: word_le_nat_alt r_end_def)
  have late: "r_end t < unat (rTime new)" if "\<not> rTime new \<le> rTime t + rAmount t"
    using that end_t by (simp add: word_le_nat_alt)
  have chain: "r_end a \<le> unat (rTime new)" if "a \<in> set bs" for a
    using ord that t_le by (auto simp: rs)
  show "rs' \<noteq> []"
    by (simp add: rs'_def l_schedule_used_def Let_def rs)
  show "refills_ordered rs'"
    using ord chain late sub
    by (auto simp: rs'_def l_schedule_used_def Let_def rs r_end_def intro: order_trans)
  show "refills_positive rs'"
    using pos new sum_pos by (simp add: rs'_def l_schedule_used_def Let_def rs)
  show "refills_total rs' = refills_total rs + unat (rAmount new)"
    using sum by (simp add: rs'_def l_schedule_used_def Let_def rs)
  show "unat (rTime (last rs')) \<le> unat (rTime new)"
    using t_le sub by (simp add: rs'_def l_schedule_used_def Let_def rs)
  show "unat (rTime (hd rs)) \<le> unat (rTime (hd rs'))"
    using late sub
    by (cases bs) (auto simp: rs'_def l_schedule_used_def Let_def rs r_end_def)
qed

lemma refills_inv_head:
  assumes "refills_inv p B rs"
  shows "unat (rTime (hd rs)) \<le> last_time_bound" and "unat (rAmount (hd rs)) \<le> B"
    and "B \<le> max_period" and "p \<le> max_period" and "0 < rAmount (hd rs)"
proof -
  have "rs \<noteq> []" "refills_ordered rs" using assms by (auto simp: refills_inv_def)
  from hd_time_le_last [OF this] show "unat (rTime (hd rs)) \<le> last_time_bound"
    using assms by (simp add: refills_inv_def)
  show "unat (rAmount (hd rs)) \<le> B"
    using assms amount_le_total [of "hd rs" rs] by (simp add: refills_inv_def)
  show "0 < rAmount (hd rs)"
    using assms by (cases rs) (auto simp: refills_inv_def)
qed (use assms in \<open>auto simp: refills_inv_def\<close>)

text \<open>Charging the head in full moves its amount one period into the future.\<close>

lemma l_charge_inv:
  assumes inv: "refills_inv p B rs" and early: "rTime (hd rs) < MAX_RELEASE_TIME"
    and p: "p = unat period"
  shows "refills_inv p B (l_charge m period rs)"
proof -
  obtain h rest where rs: "rs = h # rest" using inv by (cases rs) (auto simp: refills_inv_def)
  have lim: "unat (rTime h) < 2 ^ 64 - 1 - 5 * max_period"
    using early by (simp add: rs word_less_nat_alt max_release_time_value)
  note hB = refills_inv_head [OF inv]
  have t: "unat (rTime h + period) = unat (rTime h) + p"
    using lim hB p by (subst unat_add_no_overflow) (auto simp: max_period_value)
  let ?new = "h\<lparr>rTime := rTime h + period\<rparr>"
  show ?thesis
  proof (cases "rest = []")
    case True
    then show ?thesis using inv t lim hB
      by (simp add: rs l_charge_def refills_inv_def refill_consts)
  next
    case False
    have ord: "refills_ordered rest" and pos: "refills_positive rest"
      and tot: "refills_total rest + unat (rAmount h) = B"
      and last: "unat (rTime (last rest)) \<le> unat (rTime ?new)"
      and amt: "0 < rAmount ?new"
      using inv False t by (auto simp: refills_inv_def rs)
    have fit: "unat (rTime ?new) + (refills_total rest + unat (rAmount ?new)) < 2 ^ 64"
      using tot t lim hB by (simp add: max_period_value)
    note u = l_schedule_used_props [OF False ord pos amt last fit, of m]
    have "r_end h \<le> unat (rTime (hd rest))"
      using inv False by (intro hd_end_le_next) (auto simp: refills_inv_def rs)
    then have "unat (rTime h) \<le> unat (rTime (hd rest))"
      by (simp add: r_end_def)
    then show ?thesis
      using u t tot inv lim hB False
      by (simp add: rs l_charge_def refills_inv_def refill_consts)
  qed
qed

text \<open>Charging part of the head splits it.\<close>

lemma l_split_inv:
  assumes inv: "refills_inv p B rs" and early: "rTime (hd rs) < MAX_RELEASE_TIME"
    and usage: "0 < usage" "usage < rAmount (hd rs)" and p: "p = unat period"
  shows "refills_inv p B (l_split m period usage rs)"
proof -
  obtain h rest where rs: "rs = h # rest" using inv by (cases rs) (auto simp: refills_inv_def)
  have lim: "unat (rTime h) < 2 ^ 64 - 1 - 5 * max_period"
    using early by (simp add: rs word_less_nat_alt max_release_time_value)
  note hB = refills_inv_head [OF inv, unfolded rs list.sel]
  have us: "unat usage < unat (rAmount h)" "0 < unat usage"
    using usage by (simp_all add: rs word_less_nat_alt)
  have t: "unat (rTime h + period) = unat (rTime h) + p"
    using lim hB p by (subst unat_add_no_overflow) (auto simp: max_period_value)
  have tu: "unat (rTime h + usage) = unat (rTime h) + unat usage"
    using lim hB us by (subst unat_add_no_overflow) (auto simp: max_period_value)
  have au: "unat (rAmount h - usage) = unat (rAmount h) - unat usage"
    using us by (intro unat_sub_no_underflow) simp
  let ?h = "\<lparr>rTime = rTime h + usage, rAmount = rAmount h - usage\<rparr>"
  let ?new = "\<lparr>rTime = rTime h + period, rAmount = usage\<rparr>"
  have ord: "refills_ordered (?h # rest)"
    using inv tu au us by (auto simp: refills_inv_def rs r_end_def)
  have pos: "refills_positive (?h # rest)"
    using inv au us by (simp add: refills_inv_def rs word_less_nat_alt)
  have tot: "refills_total (?h # rest) + unat usage = B"
    using inv au us by (simp add: refills_inv_def rs)
  have last: "unat (rTime (last (?h # rest))) \<le> unat (rTime ?new)"
    using inv t tu us hB by (auto simp: refills_inv_def rs)
  have fit: "unat (rTime ?new) + (refills_total (?h # rest) + unat (rAmount ?new)) < 2 ^ 64"
    using tot t lim hB by (simp add: max_period_value)
  have amt: "0 < rAmount ?new" using usage(1) by simp
  note u = l_schedule_used_props [OF _ ord pos amt last fit, of m, simplified]
  show ?thesis
    using u t tu tot inv lim hB us
    by (simp add: rs l_split_def refills_inv_def refill_consts)
qed

lemma l_merge_nonoverlapping_inv:
  assumes inv: "refills_inv p B rs" and small: "rAmount (hd rs) < MIN_BUDGET"
  shows "refills_inv p B (l_merge_nonoverlapping rs)" and "1 < length rs"
proof -
  show len: "1 < length rs"
  proof (rule ccontr)
    assume "\<not> 1 < length rs"
    then obtain r where "rs = [r]"
      using inv by (cases rs) (auto simp: refills_inv_def)
    then show False using inv small by (auto simp: refills_inv_def word_less_nat_alt)
  qed
  then obtain h n rest where rs: "rs = h # n # rest"
    by (metis One_nat_def length_0_conv length_Cons less_irrefl_nat neq_Nil_conv not_less_zero)
  have end_h: "r_end h \<le> unat (rTime n)" using inv by (simp add: refills_inv_def rs)
  have tn: "unat (rTime n - rAmount h) = unat (rTime n) - unat (rAmount h)"
    using end_h by (intro unat_sub_no_underflow) (simp add: r_end_def)
  have "unat (rAmount n) + unat (rAmount h) \<le> B" "B \<le> max_period"
    using inv by (auto simp: refills_inv_def rs)
  then have an: "unat (rAmount n + rAmount h) = unat (rAmount n) + unat (rAmount h)"
    by (subst unat_add_no_overflow) (auto simp: max_period_value)
  show "refills_inv p B (l_merge_nonoverlapping rs)"
    using inv tn an end_h
    by (auto simp: refills_inv_def rs r_end_def word_less_nat_alt)
qed

section \<open>The budget check\<close>

text \<open>
  The loop of \<open>handle_overrun\<close>: every charge keeps the invariant, and since amounts are
  positive it takes something off the usage, so the loop ends.
\<close>

definition overrun_inv :: "nat \<Rightarrow> sched_context \<Rightarrow> ticks_t \<times> sched_context \<Rightarrow> bool" where
  "overrun_inv B sc0 = (\<lambda>(usage, sc). same_params sc0 sc \<and> sc_refills_ok B sc)"

lemma charge_step:
  assumes "sc_refills_ok B sc" and "head_refill_overrun usage sc"
  shows "sc_refills_ok B (snd (charge_entire_head_refill usage sc))"
    and "same_params sc (snd (charge_entire_head_refill usage sc))"
    and "unat (fst (charge_entire_head_refill usage sc)) < unat usage"
proof -
  let ?rs = "refills_of sc" and ?c = "charge_entire_head_refill usage sc"
  have v: "valid_refills sc" and inv: "refills_inv (unat (scPeriod sc)) B ?rs"
    using assms by (simp_all add: sc_refills_ok_def)
  have over: "rAmount (hd ?rs) \<le> usage" "rTime (hd ?rs) < MAX_RELEASE_TIME"
    using assms(2) by (simp_all add: head_refill_overrun_def hd_refills_of [OF v])
  note c = charge_entire_head_refill_list [OF v, of usage]
  show "same_params sc (snd ?c)" by (rule c)
  then show "sc_refills_ok B (snd ?c)"
    using c l_charge_inv [OF inv over(2) refl] by (simp add: sc_refills_ok_def same_params_def)
  show "unat (fst ?c) < unat usage"
    using over(1) refills_inv_head(5) [OF inv]
    by (simp add: c(4) unat_sub_no_underflow word_le_nat_alt word_less_nat_alt)
qed

interpretation overrun: variant_loop
  "\<lambda>(usage, sc). head_refill_overrun usage sc"
  "\<lambda>(usage, sc). charge_entire_head_refill usage sc"
  "overrun_inv B sc0" "\<lambda>(usage, sc). unat usage" for B sc0
  by unfold_locales
    (auto simp: overrun_inv_def split_def dest: charge_step intro: same_params_trans)

lemma handle_overrun_returns:
  assumes "sc_refills_ok B sc"
  obtains usage' sc' where "handle_overrun usage sc = Some (usage', sc')"
    and "sc_refills_ok B sc'" and "same_params sc sc'" and "\<not> head_refill_overrun usage' sc'"
proof -
  have "overrun_inv B sc (usage, sc)"
    using assms by (simp add: overrun_inv_def same_params_def)
  from overrun.loop_returns [OF this] obtain t
    where t: "handle_overrun usage sc = Some t" "overrun_inv B sc t"
      "\<not> (case t of (usage, sc) \<Rightarrow> head_refill_overrun usage sc)"
    unfolding handle_overrun_def .
  obtain u sc' where "t = (u, sc')" by (cases t)
  with t show thesis using that by (simp add: overrun_inv_def)
qed

interpretation merge_nonoverlapping: variant_loop
  head_refill_insufficient merge_nonoverlapping_head_refill
  "\<lambda>sc. same_params sc0 sc \<and> sc_refills_ok B sc" "\<lambda>sc. length (refills_of sc)" for B sc0
proof unfold_locales
  fix sc
  assume inv: "same_params sc0 sc \<and> sc_refills_ok B sc" and small: "head_refill_insufficient sc"
  then have v: "valid_refills sc" and "rAmount (hd (refills_of sc)) < MIN_BUDGET"
    by (auto simp: sc_refills_ok_def head_refill_insufficient_def hd_refills_of)
  with inv l_merge_nonoverlapping_inv [of "unat (scPeriod sc)" B "refills_of sc"]
  have m: "refills_inv (unat (scPeriod sc)) B (l_merge_nonoverlapping (refills_of sc))"
    and len: "1 < length (refills_of sc)"
    by (auto simp: sc_refills_ok_def)
  note c = merge_nonoverlapping_list [OF v len]
  show "same_params sc0 (merge_nonoverlapping_head_refill sc) \<and>
      sc_refills_ok B (merge_nonoverlapping_head_refill sc)"
    using c m inv by (auto simp: sc_refills_ok_def same_params_def)
  show "length (refills_of (merge_nonoverlapping_head_refill sc)) < length (refills_of sc)"
    using len c(2) by (cases "refills_of sc" rule: l_merge_nonoverlapping.cases) auto
qed

lemma split_head_list:
  assumes "valid_refills sc" and "sc1 = set_refill_head ((refill_head sc)\<lparr>rAmount := rAmount (refill_head sc) - usage\<rparr>) sc"
    and "sc2 = set_refill_head (refill_head sc1\<lparr>rTime := rTime (refill_head sc) + usage\<rparr>) sc1"
    and "sc3 = schedule_used \<lparr>rTime = rTime (refill_head sc) + scPeriod sc, rAmount = usage\<rparr> sc2"
  shows "valid_refills sc3" and "same_params sc sc3"
    and "refills_of sc3 = l_split (unat (scRefillMax sc)) (scPeriod sc) usage (refills_of sc)"
proof -
  have v1: "valid_refills sc1" and l1: "refills_of sc1 =
    (refill_head sc)\<lparr>rAmount := rAmount (refill_head sc) - usage\<rparr> # tl (refills_of sc)"
    using set_refill_head_list [OF assms(1)] by (simp_all add: assms(2))
  have h1: "refill_head sc1 = (refill_head sc)\<lparr>rAmount := rAmount (refill_head sc) - usage\<rparr>"
    using hd_refills_of [OF v1] l1 by simp
  have v2: "valid_refills sc2" and l2: "refills_of sc2 =
    \<lparr>rTime = rTime (refill_head sc) + usage, rAmount = rAmount (refill_head sc) - usage\<rparr> # tl (refills_of sc)"
    using set_refill_head_list [OF v1] l1 h1 by (simp_all add: assms(3))
  have "same_params sc sc1" "same_params sc1 sc2" by (simp_all add: assms)
  then have p2: "same_params sc sc2" by (rule same_params_trans)
  show "valid_refills sc3" using schedule_used_list(1) [OF v2] by (simp add: assms(4))
  show "same_params sc sc3"
    using same_params_trans [OF p2 schedule_used_list(3) [OF v2]] by (simp add: assms(4))
  show "refills_of sc3 = l_split (unat (scRefillMax sc)) (scPeriod sc) usage (refills_of sc)"
    using schedule_used_list(2) [OF v2] p2 l2
    by (simp add: assms(4) l_split_def hd_refills_of [OF assms(1)] same_params_def)
qed

lemma refill_budget_check_ok:
  assumes "sc_refills_ok B sc"
  obtains sc' where "refill_budget_check usage sc = Some sc'" and "sc_refills_ok B sc'"
    and "same_params sc sc'" and "refill_sufficient sc' 0"
proof -
  obtain u sc1 where h: "handle_overrun usage sc = Some (u, sc1)"
    and ok1: "sc_refills_ok B sc1" and p1: "same_params sc sc1" and stop: "\<not> head_refill_overrun u sc1"
    using handle_overrun_returns [OF assms] .
  have v1: "valid_refills sc1" using ok1 by (simp add: sc_refills_ok_def)
  let ?sca = "set_refill_head ((refill_head sc1)\<lparr>rAmount := rAmount (refill_head sc1) - u\<rparr>) sc1"
  let ?scb = "set_refill_head (refill_head ?sca\<lparr>rTime := rTime (refill_head sc1) + u\<rparr>) ?sca"
  define sc2 where "sc2 = (if 0 < u \<and> rTime (refill_head sc1) < MAX_RELEASE_TIME
    then schedule_used \<lparr>rTime = rTime (refill_head sc1) + scPeriod sc1, rAmount = u\<rparr> ?scb else sc1)"
  have ok2: "same_params sc sc2 \<and> sc_refills_ok B sc2"
  proof (cases "0 < u \<and> rTime (refill_head sc1) < MAX_RELEASE_TIME")
    case True
    with stop have "u < rAmount (hd (refills_of sc1))" "rTime (hd (refills_of sc1)) < MAX_RELEASE_TIME"
      by (auto simp: head_refill_overrun_def hd_refills_of [OF v1] not_le)
    then have "refills_inv (unat (scPeriod sc1)) B
      (l_split (unat (scRefillMax sc1)) (scPeriod sc1) u (refills_of sc1))"
      using True ok1 l_split_inv by (auto simp: sc_refills_ok_def)
    then show ?thesis
      using split_head_list [OF v1 refl refl refl, of u] True p1
      by (simp add: sc2_def sc_refills_ok_def) (auto simp: same_params_def)
  qed (use ok1 p1 in \<open>auto simp: sc2_def\<close>)
  obtain sc3 where w: "while_option head_refill_insufficient merge_nonoverlapping_head_refill sc2 = Some sc3"
    and ok3: "same_params sc sc3 \<and> sc_refills_ok B sc3" and suff: "\<not> head_refill_insufficient sc3"
    using merge_nonoverlapping.loop_returns [OF ok2] .
  have "refill_budget_check usage sc = Some sc3"
    using w by (auto simp: refill_budget_check_def h Let_def sc2_def split: if_splits)
  moreover have "refill_sufficient sc3 0"
    using suff by (simp add: refill_sufficient_def refill_capacity_def head_refill_insufficient_def not_less)
  ultimately show thesis using ok3 that by blast
qed

section \<open>The unblock check\<close>

text \<open>
  After the head's release time moved up to now it may overlap the refills behind it, so
  only the tail of the list is known to be ordered until the loop has merged the overlap.
\<close>

definition unblock_list_inv :: "nat \<Rightarrow> nat \<Rightarrow> ticks_t \<Rightarrow> nat \<Rightarrow> refill list \<Rightarrow> bool" where
  "unblock_list_inv p B now a0 rs \<longleftrightarrow>
     rs \<noteq> [] \<and> rTime (hd rs) = now \<and> refills_ordered (tl rs) \<and> refills_positive rs \<and>
     refills_total rs = B \<and> a0 \<le> unat (rAmount (hd rs)) \<and> now < MAX_RELEASE_TIME \<and>
     unat (rTime (last rs)) \<le> unat now + p \<and> unat (rTime (last rs)) \<le> last_time_bound \<and>
     unat MIN_BUDGET \<le> B \<and> B \<le> p \<and> p \<le> max_period"

lemma now_le_bound: "now < MAX_RELEASE_TIME \<Longrightarrow> unat now \<le> last_time_bound"
  by (simp add: word_less_nat_alt refill_consts)

lemma unblock_start:
  assumes "refills_inv p B rs" and "rTime (hd rs) \<le> now" and "now < MAX_RELEASE_TIME"
  shows "unblock_list_inv p B now (unat (rAmount (hd rs))) ((hd rs)\<lparr>rTime := now\<rparr> # tl rs)"
proof -
  obtain h rest where rs: "rs = h # rest" using assms by (cases rs) (auto simp: refills_inv_def)
  show ?thesis
    using assms now_le_bound [OF assms(3)]
    by (auto simp: unblock_list_inv_def refills_inv_def rs word_le_nat_alt)
qed

lemma l_merge_overlapping_inv:
  assumes inv: "unblock_list_inv p B now a0 (h # n # rest)"
  shows "unblock_list_inv p B now a0 (l_merge_overlapping (h # n # rest))"
proof -
  have "unat (rAmount n) + unat (rAmount h) \<le> B" "B \<le> max_period"
    using inv by (auto simp: unblock_list_inv_def)
  then have an: "unat (rAmount n + rAmount h) = unat (rAmount n) + unat (rAmount h)"
    by (subst unat_add_no_overflow) (auto simp: max_period_value)
  show ?thesis
    using inv an now_le_bound [of now] by (auto simp: unblock_list_inv_def word_less_nat_alt)
qed

lemma unblock_end:
  assumes inv: "unblock_list_inv p B now a0 rs"
    and apart: "tl rs \<noteq> [] \<Longrightarrow> rTime (hd rs) + rAmount (hd rs) < rTime (hd (tl rs))"
  shows "refills_inv p B rs"
proof -
  obtain h rest where rs: "rs = h # rest" using inv by (cases rs) (auto simp: unblock_list_inv_def)
  have "unat (rAmount h) \<le> max_period" "unat (rTime h) \<le> last_time_bound"
    using inv now_le_bound [of now] by (auto simp: unblock_list_inv_def rs)
  then have e: "unat (rTime h + rAmount h) = r_end h"
    unfolding r_end_def by (subst unat_add_no_overflow) (auto simp: refill_consts)
  have "r_end h \<le> unat (rTime b)" if "b \<in> set rest" for b
  proof -
    from that obtain n rest' where rest: "rest = n # rest'" by (cases rest) auto
    have "r_end h \<le> unat (rTime n)" using apart e by (simp add: rs rest word_less_nat_alt)
    moreover have "unat (rTime n) \<le> unat (rTime b)"
      using inv that by (auto simp: unblock_list_inv_def rs rest r_end_def)
    ultimately show ?thesis by (rule order_trans)
  qed
  then show ?thesis
    using inv now_le_bound [of now] by (auto simp: unblock_list_inv_def refills_inv_def rs)
qed

lemma refill_head_overlapping_list:
  "valid_refills sc \<Longrightarrow> refill_head_overlapping sc \<longleftrightarrow> tl (refills_of sc) \<noteq> [] \<and>
    rTime (hd (tl (refills_of sc))) \<le> rTime (hd (refills_of sc)) + rAmount (hd (refills_of sc))"
  using refill_single_iff [of sc] refill_second [of sc] refills_of_nonempty [of sc] hd_refills_of [of sc]
  by (cases "refills_of sc" rule: l_merge_overlapping.cases)
    (auto simp: refill_head_overlapping_def Let_def)

definition unblock_inv :: "nat \<Rightarrow> ticks_t \<Rightarrow> sched_context \<Rightarrow> sched_context \<Rightarrow> bool" where
  "unblock_inv B now sc0 sc \<longleftrightarrow> same_params sc0 sc \<and> valid_refills sc \<and>
     unblock_list_inv (unat (scPeriod sc0)) B now (unat (rAmount (refill_head sc0))) (refills_of sc)"

interpretation merge_overlapping: variant_loop
  refill_head_overlapping merge_overlapping_head_refill
  "unblock_inv B now sc0" "\<lambda>sc. length (refills_of sc)" for B now sc0
proof unfold_locales
  fix sc
  assume inv: "unblock_inv B now sc0 sc" and over: "refill_head_overlapping sc"
  then have v: "valid_refills sc" by (simp add: unblock_inv_def)
  with over obtain h n rest where l: "refills_of sc = h # n # rest"
    by (cases "refills_of sc" rule: l_merge_overlapping.cases)
      (auto simp: refill_head_overlapping_list refills_of_nonempty)
  note c = merge_overlapping_list [OF v]
  show "unblock_inv B now sc0 (merge_overlapping_head_refill sc)"
    using inv c l l_merge_overlapping_inv [of "unat (scPeriod sc0)" B now _ h n rest]
    by (auto simp: unblock_inv_def intro: same_params_trans)
  show "length (refills_of (merge_overlapping_head_refill sc)) < length (refills_of sc)"
    using c l by auto
qed

lemma refill_unblock_check_ok:
  assumes ok: "sc_refills_ok B sc" and now: "now < MAX_RELEASE_TIME"
  obtains sc' b where "refill_unblock_check now sc = Some (sc', b)" and "sc_refills_ok B sc'"
    and "same_params sc sc'" and "rAmount (refill_head sc) \<le> rAmount (refill_head sc')"
    and "b \<Longrightarrow> rTime (refill_head sc') = now"
proof (cases "\<not> isRoundRobin sc \<and> refill_ready now sc")
  case False
  then show thesis
    using ok that [of sc False] by (auto simp: refill_unblock_check_def same_params_def)
next
  case True
  let ?sc = "set_refill_head (refill_head sc\<lparr>rTime := now\<rparr>) sc"
  have v: "valid_refills sc" and inv: "refills_inv (unat (scPeriod sc)) B (refills_of sc)"
    using ok by (simp_all add: sc_refills_ok_def)
  have "unblock_inv B now sc ?sc"
    using unblock_start [OF inv _ now] True set_refill_head_list [OF v]
    by (simp add: unblock_inv_def refill_ready_def hd_refills_of [OF v])
  then obtain sc' where w: "while_option refill_head_overlapping merge_overlapping_head_refill ?sc = Some sc'"
    and inv': "unblock_inv B now sc sc'" and stop: "\<not> refill_head_overlapping sc'"
    using merge_overlapping.loop_returns by metis
  have v': "valid_refills sc'" and par: "same_params sc sc'"
    and l: "unblock_list_inv (unat (scPeriod sc)) B now (unat (rAmount (refill_head sc))) (refills_of sc')"
    using inv' by (simp_all add: unblock_inv_def)
  have "refills_inv (unat (scPeriod sc)) B (refills_of sc')"
    by (rule unblock_end [OF l]) (use stop in \<open>auto simp: refill_head_overlapping_list [OF v'] not_le\<close>)
  then have "sc_refills_ok B sc'"
    using v' par by (simp add: sc_refills_ok_def same_params_def)
  moreover have "refill_unblock_check now sc = Some (sc', True)"
    using True w by (simp add: refill_unblock_check_def)
  moreover have "rAmount (refill_head sc) \<le> rAmount (refill_head sc')" "rTime (refill_head sc') = now"
    using l by (simp_all add: unblock_list_inv_def hd_refills_of [OF v'] word_le_nat_alt)
  ultimately show thesis using that par by blast
qed

section \<open>Creating and updating the queue\<close>

lemma valid_refills_single:
  assumes "scRefillHead sc = 0" and "scRefillTail sc = 0" and "0 < scRefillMax sc"
  shows "valid_refills sc" and "refills_of sc = [scRefills sc 0]"
proof -
  show v: "valid_refills sc" using assms by (simp add: valid_refills_def)
  have "length (refills_of sc) = 1"
    using refill_single_iff [OF v] assms by (simp add: refill_single_def)
  moreover have "hd (refills_of sc) = scRefills sc 0"
    using hd_refills_of [OF v] assms by (simp add: refill_defs)
  ultimately show "refills_of sc = [scRefills sc 0]"
    by (cases "refills_of sc") auto
qed

lemma maybe_add_empty_tail_list:
  assumes v: "valid_refills sc" and single: "length (refills_of sc) = 1" and m: "1 < scRefillMax sc"
  shows "valid_refills (maybe_add_empty_tail sc)"
    and "refills_of (maybe_add_empty_tail sc) =
      refills_of sc @ (if scPeriod sc = 0 then [\<lparr>rTime = rTime (refill_head sc), rAmount = 0\<rparr>] else [])"
    and "same_params sc (maybe_add_empty_tail sc)"
proof -
  have "length (refills_of sc) < unat (scRefillMax sc)"
    using single m by (simp add: word_less_nat_alt)
  note add = refill_add_tail_list [OF v this]
  show "valid_refills (maybe_add_empty_tail sc)"
    and "refills_of (maybe_add_empty_tail sc) =
      refills_of sc @ (if scPeriod sc = 0 then [\<lparr>rTime = rTime (refill_head sc), rAmount = 0\<rparr>] else [])"
    and "same_params sc (maybe_add_empty_tail sc)"
    using v add by (simp_all add: maybe_add_empty_tail_def isRoundRobin_def same_params_def)
      (simp add: refill_add_tail_def refill_defs Let_def)
qed

lemma refill_new_list:
  assumes "1 < maxr"
  shows "valid_refills (refill_new now maxr budget period sc)"
    and "refills_of (refill_new now maxr budget period sc) =
      \<lparr>rTime = now, rAmount = budget\<rparr> # (if period = 0 then [\<lparr>rTime = now, rAmount = 0\<rparr>] else [])"
    and "scPeriod (refill_new now maxr budget period sc) = period"
    and "scRefillMax (refill_new now maxr budget period sc) = maxr"
proof -
  let ?r = "\<lparr>rTime = now, rAmount = budget\<rparr>"
  let ?sc = "sc\<lparr>scPeriod := period, scRefillHead := 0, scRefillTail := 0, scRefillMax := maxr,
    scRefills := (scRefills sc)(0 := ?r)\<rparr>"
  have pos: "0 < maxr" using assms word_gt_0 by fastforce
  have eq: "refill_new now maxr budget period sc = maybe_add_empty_tail ?sc"
    by (cases "scRefills sc 0") (simp add: refill_new_def refill_defs Let_def)
  have v: "valid_refills ?sc" and l: "refills_of ?sc = [?r]"
    using valid_refills_single [of ?sc] pos by simp_all
  note m = maybe_add_empty_tail_list [OF v]
  show "valid_refills (refill_new now maxr budget period sc)"
    and "refills_of (refill_new now maxr budget period sc) =
      ?r # (if period = 0 then [\<lparr>rTime = now, rAmount = 0\<rparr>] else [])"
    and "scPeriod (refill_new now maxr budget period sc) = period"
    and "scRefillMax (refill_new now maxr budget period sc) = maxr"
    using m l assms by (simp_all add: eq refill_defs same_params_def)
qed

lemma refill_update_list:
  fixes now period budget maxr :: word_t and sc :: sched_context
  assumes "1 < maxr"
  defines "t \<equiv> (if refill_ready now sc then now else rTime (refill_head sc))"
    and "a \<equiv> rAmount (refill_head sc)"
  shows "valid_refills (refill_update now period budget maxr sc)"
    and "refills_of (refill_update now period budget maxr sc) =
      (if budget \<le> a
       then \<lparr>rTime = t, rAmount = budget\<rparr> # (if period = 0 then [\<lparr>rTime = t, rAmount = 0\<rparr>] else [])
       else [\<lparr>rTime = t, rAmount = a\<rparr>, \<lparr>rTime = t + period, rAmount = budget - a\<rparr>])"
    and "scPeriod (refill_update now period budget maxr sc) = period"
    and "scRefillMax (refill_update now period budget maxr sc) = maxr"
proof -
  have pos: "0 < maxr" using assms word_gt_0 by fastforce
  define base where "base x = sc\<lparr>scPeriod := period, scRefillHead := 0, scRefillTail := 0,
    scRefillMax := maxr, scRefills := (scRefills sc)(0 := \<lparr>rTime = t, rAmount = x\<rparr>)\<rparr>" for x
  have v: "valid_refills (base x)" and l: "refills_of (base x) = [\<lparr>rTime = t, rAmount = x\<rparr>]" for x
    using valid_refills_single [of "base x"] pos by (simp_all add: base_def)
  have head: "refill_head (base x) = \<lparr>rTime = t, rAmount = x\<rparr>"
    and par: "scPeriod (base x) = period" "scRefillMax (base x) = maxr" for x
    by (simp_all add: base_def refill_defs)
  have eq: "refill_update now period budget maxr sc =
    (if budget \<le> a then maybe_add_empty_tail (base budget)
     else refill_add_tail \<lparr>rTime = t + period, rAmount = budget - a\<rparr> (base a))"
    by (cases sc; cases "scRefills sc (scRefillHead sc)")
      (auto simp: refill_update_def base_def refill_defs Let_def t_def a_def refill_ready_def)
  have room: "length (refills_of (base a)) < unat (scRefillMax (base a))"
    using assms(1) l [of a] par by (simp add: word_less_nat_alt)
  note m = maybe_add_empty_tail_list [OF v [of budget]] and add = refill_add_tail_list [OF v room]
  show "valid_refills (refill_update now period budget maxr sc)"
    and "refills_of (refill_update now period budget maxr sc) =
      (if budget \<le> a
       then \<lparr>rTime = t, rAmount = budget\<rparr> # (if period = 0 then [\<lparr>rTime = t, rAmount = 0\<rparr>] else [])
       else [\<lparr>rTime = t, rAmount = a\<rparr>, \<lparr>rTime = t + period, rAmount = budget - a\<rparr>])"
    and "scPeriod (refill_update now period budget maxr sc) = period"
    and "scRefillMax (refill_update now period budget maxr sc) = maxr"
    using m add l [of budget] l [of a] par assms(1) same_params_ops(4)
    by (simp_all add: eq head same_params_def)
qed

lemma refills_inv_single:
  assumes "MIN_BUDGET \<le> budget" and "budget \<le> period" and "unat period \<le> max_period"
    and "unat t \<le> last_time_bound"
  shows "refills_inv (unat period) (unat budget) [\<lparr>rTime = t, rAmount = budget\<rparr>]"
  using assms min_budget_value by (simp add: refills_inv_def word_le_nat_alt word_less_nat_alt)

lemma refills_inv_pair:
  assumes "MIN_BUDGET \<le> budget" and "budget \<le> period" and "unat period \<le> max_period"
    and "t < MAX_RELEASE_TIME" and "0 < a" and "a < budget"
  shows "refills_inv (unat period) (unat budget)
    [\<lparr>rTime = t, rAmount = a\<rparr>, \<lparr>rTime = t + period, rAmount = budget - a\<rparr>]"
proof -
  have t: "unat (t + period) = unat t + unat period"
    using assms by (subst unat_add_no_overflow) (auto simp: word_less_nat_alt refill_consts)
  have b: "unat (budget - a) = unat budget - unat a"
    using assms by (intro unat_sub_no_underflow) (simp add: word_less_nat_alt)
  show ?thesis
    using assms by (simp add: refills_inv_def r_end_def t b word_le_nat_alt word_less_nat_alt refill_consts)
qed

lemma refill_new_ok:
  assumes "1 < maxr" and "MIN_BUDGET \<le> budget" and "budget \<le> period"
    and "unat period \<le> max_period" and "now < MAX_RELEASE_TIME"
  shows "sc_refills_ok (unat budget) (refill_new now maxr budget period sc)"
proof -
  have "period \<noteq> 0"
    using assms(2,3) min_budget_value by (auto simp: word_le_nat_alt)
  then show ?thesis
    using refill_new_list [OF assms(1), of now budget period sc]
      refills_inv_single [OF assms(2-4) now_le_bound [OF assms(5)]]
    by (simp add: sc_refills_ok_def)
qed

lemma refill_update_ok:
  assumes "1 < maxr" and "MIN_BUDGET \<le> budget" and "budget \<le> period"
    and "unat period \<le> max_period" and "now < MAX_RELEASE_TIME"
    and "0 < rAmount (refill_head sc)" and "rTime (refill_head sc) < MAX_RELEASE_TIME"
  shows "sc_refills_ok (unat budget) (refill_update now period budget maxr sc)"
proof -
  have "period \<noteq> 0"
    using assms(2,3) min_budget_value by (auto simp: word_le_nat_alt)
  then show ?thesis
    using refill_update_list [OF assms(1), of now period budget sc] assms
      refills_inv_single [OF assms(2-4)] refills_inv_pair [OF assms(2-4)] now_le_bound
    by (auto simp: sc_refills_ok_def not_le)
qed

section \<open>Round robin\<close>

text \<open>
  A context with period 0 runs its thread round robin: it has two refills, what is left of the time
  slice and what is used up. \<open>rr_consume\<close> and \<open>rr_recharge\<close> are what \<^verbatim>\<open>commitTime\<close> and \<^verbatim>\<open>chargeBudget\<close> do to
  such a context.
\<close>

definition rr_consume :: "ticks_t \<Rightarrow> sched_context \<Rightarrow> sched_context" where
  "rr_consume consumed sc =
     (let sc = set_refill_head (refill_head sc\<lparr>rAmount := rAmount (refill_head sc) - consumed\<rparr>) sc
      in set_refill_tail (refill_tail sc\<lparr>rAmount := rAmount (refill_tail sc) + consumed\<rparr>) sc)"

definition rr_recharge :: "sched_context \<Rightarrow> sched_context" where
  "rr_recharge sc =
     (let h = refill_head sc; t = refill_tail sc;
          sc = set_refill_head (refill_head sc\<lparr>rAmount := rAmount h + rAmount t\<rparr>) sc
      in set_refill_tail (refill_tail sc\<lparr>rAmount := 0\<rparr>) sc)"

definition rr_refills_ok :: "nat \<Rightarrow> sched_context \<Rightarrow> bool" where
  "rr_refills_ok budget sc \<longleftrightarrow> valid_refills sc \<and> scPeriod sc = 0 \<and> budget \<le> max_period \<and>
     (\<exists>t a b. refills_of sc = [\<lparr>rTime = t, rAmount = a\<rparr>, \<lparr>rTime = t, rAmount = b\<rparr>] \<and>
        t < MAX_RELEASE_TIME \<and> MIN_BUDGET \<le> a \<and> unat a + unat b = budget)"

lemma rr_refills_okE:
  assumes "rr_refills_ok budget sc"
  obtains t a b where "valid_refills sc" "scPeriod sc = 0" "budget \<le> max_period"
    "refills_of sc = [\<lparr>rTime = t, rAmount = a\<rparr>, \<lparr>rTime = t, rAmount = b\<rparr>]"
    "refill_head sc = \<lparr>rTime = t, rAmount = a\<rparr>" "refill_tail sc = \<lparr>rTime = t, rAmount = b\<rparr>"
    "t < MAX_RELEASE_TIME" "MIN_BUDGET \<le> a" "unat a + unat b = budget"
proof -
  obtain t a b where r: "valid_refills sc" "scPeriod sc = 0" "budget \<le> max_period"
    "refills_of sc = [\<lparr>rTime = t, rAmount = a\<rparr>, \<lparr>rTime = t, rAmount = b\<rparr>]"
    "t < MAX_RELEASE_TIME" "MIN_BUDGET \<le> a" "unat a + unat b = budget"
    using assms unfolding rr_refills_ok_def by blast
  from r(4) hd_refills_of [OF r(1)] last_refills_of [OF r(1)]
  have "refill_head sc = \<lparr>rTime = t, rAmount = a\<rparr>" "refill_tail sc = \<lparr>rTime = t, rAmount = b\<rparr>" by simp_all
  with r show thesis using that by blast
qed

text \<open>Both operations write the amounts of the two refills.\<close>

lemma rr_amounts:
  assumes "rr_refills_ok budget sc" and "MIN_BUDGET \<le> a'" and "unat a' + unat b' = budget"
  defines "h \<equiv> set_refill_head (refill_head sc\<lparr>rAmount := a'\<rparr>) sc"
  shows "rr_refills_ok budget (set_refill_tail (refill_tail h\<lparr>rAmount := b'\<rparr>) h)" and "rAmount (refill_tail h) = rAmount (refill_tail sc)"
proof -
  obtain t a b where r: "valid_refills sc" "scPeriod sc = 0" "budget \<le> max_period"
    "refills_of sc = [\<lparr>rTime = t, rAmount = a\<rparr>, \<lparr>rTime = t, rAmount = b\<rparr>]"
    "refill_head sc = \<lparr>rTime = t, rAmount = a\<rparr>" "refill_tail sc = \<lparr>rTime = t, rAmount = b\<rparr>" "t < MAX_RELEASE_TIME"
    by (rule rr_refills_okE [OF assms(1)])
  note h = set_refill_head_list [OF r(1), of "refill_head sc\<lparr>rAmount := a'\<rparr>", folded h_def]
  have tail: "refill_tail h = \<lparr>rTime = t, rAmount = b\<rparr>" using last_refills_of [OF h(1)] h(2) r(4) by simp
  then show "rAmount (refill_tail h) = rAmount (refill_tail sc)" by (simp add: r)
  have "scPeriod (set_refill_tail x h) = 0" for x
    using r(2) same_params_ops(1,2) unfolding h_def by (simp add: same_params_def)
  moreover have "refills_of (set_refill_tail (refill_tail h\<lparr>rAmount := b'\<rparr>) h) =
      [\<lparr>rTime = t, rAmount = a'\<rparr>, \<lparr>rTime = t, rAmount = b'\<rparr>]"
    using set_refill_tail_list(2) [OF h(1)] h(2) r(4,5) tail by simp
  ultimately show "rr_refills_ok budget (set_refill_tail (refill_tail h\<lparr>rAmount := b'\<rparr>) h)"
    using set_refill_tail_list(1) [OF h(1)] r(3,7) assms(2,3) by (simp add: rr_refills_ok_def)
qed

lemma rr_new_ok:
  assumes "MIN_BUDGET \<le> budget" "unat budget \<le> max_period" "now < MAX_RELEASE_TIME"
  shows "rr_refills_ok (unat budget) (refill_new now MIN_REFILLS budget 0 sc)"
proof -
  have "1 < MIN_REFILLS" by (simp add: MIN_REFILLS_def)
  from refill_new_list [OF this, of now budget 0 sc] assms show ?thesis by (auto simp: rr_refills_ok_def)
qed

lemma rr_consume_ok:
  assumes "rr_refills_ok budget sc" and "refill_sufficient sc consumed"
  shows "rr_refills_ok budget (rr_consume consumed sc)"
proof -
  obtain t a b where r: "budget \<le> max_period" "refill_head sc = \<lparr>rTime = t, rAmount = a\<rparr>"
    "refill_tail sc = \<lparr>rTime = t, rAmount = b\<rparr>" "unat a + unat b = budget" by (rule rr_refills_okE [OF assms(1)])
  have c: "consumed \<le> a" "MIN_BUDGET \<le> a - consumed"
    using assms(2) min_budget_value by (auto simp: refill_sufficient_def refill_capacity_def r Let_def word_le_nat_alt not_less split: if_splits)
  then have "unat (a - consumed) + unat (b + consumed) = budget"
    using r(1,4) by (simp add: word_le_nat_alt unat_sub_no_underflow unat_add_no_overflow max_period_value)
  from rr_amounts [OF assms(1) c(2) this] show ?thesis by (simp add: rr_consume_def r Let_def)
qed

lemma rr_recharge_ok:
  assumes "rr_refills_ok budget sc"
  shows "rr_refills_ok budget (rr_recharge sc)"
proof -
  obtain t a b where r: "budget \<le> max_period" "refill_head sc = \<lparr>rTime = t, rAmount = a\<rparr>"
    "refill_tail sc = \<lparr>rTime = t, rAmount = b\<rparr>" "MIN_BUDGET \<le> a" "unat a + unat b = budget"
    by (rule rr_refills_okE [OF assms])
  have "unat (a + b) = unat a + unat b" using r(1,5) by (simp add: unat_add_no_overflow max_period_value)
  then have "MIN_BUDGET \<le> a + b" "unat (a + b) + unat (0 :: ticks_t) = budget" using r(4,5) by (simp_all add: word_le_nat_alt)
  from rr_amounts(1) [OF assms this] show ?thesis by (simp add: rr_recharge_def r Let_def)
qed

section \<open>Summing the queue\<close>

lemma refill_sum_loop:
  assumes v: "valid_refills sc" and "k < unat (refill_size sc)"
  shows "while_option (\<lambda>(current, sum). current \<noteq> scRefillTail sc)
      (\<lambda>(current, sum). let current = refill_next sc current
        in (current, sum + rAmount (refill_index sc current))) (refill_slot sc k, acc) =
    Some (scRefillTail sc, acc + (\<Sum>r\<leftarrow>drop (Suc k) (refills_of sc). rAmount r))"
  using assms(2)
proof (induction "unat (refill_size sc) - Suc k" arbitrary: k acc)
  case 0
  then have "k = unat (refill_size sc) - 1" by simp
  then have "refill_slot sc k = scRefillTail sc" using refill_slot_last [OF v] by simp
  with 0 show ?case by (subst while_option_unfold) simp
next
  case (Suc n)
  then have k: "Suc k < unat (refill_size sc)" by simp
  have "refill_slot sc k \<noteq> scRefillTail sc"
    using refill_slot_inj [OF v, of k "unat (refill_size sc) - 1"] k refill_size_spec(2) [OF v]
      refill_slot_last [OF v] by fastforce
  moreover have "drop (Suc k) (refills_of sc) = scRefills sc (refill_slot sc (Suc k)) # drop (Suc (Suc k)) (refills_of sc)"
    using k by (subst Cons_nth_drop_Suc [symmetric]) (simp_all add: refills_of_def)
  ultimately show ?case
    using Suc.hyps(1) [of "Suc k"] Suc.hyps(2) k
    by (subst while_option_unfold)
      (simp add: Let_def refill_slot_Suc [OF v, symmetric] refill_index_def add.assoc)
qed

lemma refill_sum_list:
  assumes v: "valid_refills sc"
  shows "refill_sum sc = Some (\<Sum>r\<leftarrow>refills_of sc. rAmount r)"
proof -
  obtain rs where "refills_of sc = refill_head sc # rs" by (rule refills_of_ConsE [OF v])
  then show ?thesis
    using refill_sum_loop [OF v, of 0 "rAmount (refill_head sc)"] refill_size_spec(1) [OF v]
    by (simp add: refill_sum_def refill_slot_0 [OF v])
qed

lemma unat_sum_list:
  "(\<Sum>r\<leftarrow>rs. unat (rAmount r)) < 2 ^ 64 \<Longrightarrow>
   unat (\<Sum>r\<leftarrow>rs. rAmount r) = (\<Sum>r\<leftarrow>rs. unat (rAmount r))"
  by (induction rs) (simp_all add: unat_add_no_overflow)

section \<open>Runs of the sporadic server\<close>

text \<open>
  What happens to a scheduling context once it is configured, in any order, with the budget last configured.
  The bounds on budget and period are those that the decoding of \<^verbatim>\<open>SchedControl_ConfigureFlags\<close> enforces; a
  budget equal to the period makes the context a round-robin one with period 0. The current time stays below
  \<open>MAX_RELEASE_TIME\<close>, as \<^verbatim>\<open>updateTimestamp\<close> asserts, and a context is updated only while its head refill is released
  before that time: the bound is five maximal periods before the clock wraps around. Time is
  charged to a round-robin context as far as the budget check allows.
\<close>

definition good_params :: "word_t \<Rightarrow> ticks_t \<Rightarrow> ticks_t \<Rightarrow> bool" where
  "good_params maxr budget period \<longleftrightarrow>
     MIN_REFILLS \<le> maxr \<and> MIN_BUDGET \<le> budget \<and> budget \<le> period \<and> period \<le> usToTicks MAX_PERIOD_US"

inductive refill_run :: "nat \<Rightarrow> sched_context \<Rightarrow> bool" where
  new: "good_params maxr budget period \<Longrightarrow> now < MAX_RELEASE_TIME \<Longrightarrow>
    refill_run (unat budget) (refill_new now maxr budget period sc)"
| new_round_robin: "good_params maxr budget budget \<Longrightarrow> now < MAX_RELEASE_TIME \<Longrightarrow>
    refill_run (unat budget) (refill_new now MIN_REFILLS budget 0 sc)"
| update: "refill_run B sc \<Longrightarrow> good_params maxr budget period \<Longrightarrow> now < MAX_RELEASE_TIME \<Longrightarrow>
    rTime (refill_head sc) < MAX_RELEASE_TIME \<Longrightarrow>
    refill_run (unat budget) (refill_update now period budget maxr sc)"
| charge: "refill_run B sc \<Longrightarrow> \<not> isRoundRobin sc \<Longrightarrow> refill_budget_check usage sc = Some sc' \<Longrightarrow> refill_run B sc'"
| consume: "refill_run B sc \<Longrightarrow> isRoundRobin sc \<Longrightarrow> refill_sufficient sc consumed \<Longrightarrow>
    refill_run B (rr_consume consumed sc)"
| recharge: "refill_run B sc \<Longrightarrow> isRoundRobin sc \<Longrightarrow> refill_run B (rr_recharge sc)"
| unblock: "refill_run B sc \<Longrightarrow> now < MAX_RELEASE_TIME \<Longrightarrow>
    refill_unblock_check now sc = Some (sc', reprogram) \<Longrightarrow> refill_run B sc'"

lemma good_paramsD:
  "good_params maxr budget period \<Longrightarrow>
    1 < maxr \<and> MIN_BUDGET \<le> budget \<and> budget \<le> period \<and> unat period \<le> max_period"
  by (simp add: good_params_def max_period_def MIN_REFILLS_def word_le_nat_alt word_less_nat_alt)

text \<open>What every run keeps: the invariant of a sporadic or of a round-robin context.\<close>

definition refills_ok :: "nat \<Rightarrow> sched_context \<Rightarrow> bool" where
  "refills_ok budget sc \<longleftrightarrow> (if isRoundRobin sc then rr_refills_ok budget sc else sc_refills_ok budget sc)"

lemma sc_refills_ok_period: "sc_refills_ok budget sc \<Longrightarrow> \<not> isRoundRobin sc"
  using min_budget_value by (auto simp: sc_refills_ok_def refills_inv_def isRoundRobin_def)

lemma refills_okI:
  "sc_refills_ok budget sc \<Longrightarrow> refills_ok budget sc" "rr_refills_ok budget sc \<Longrightarrow> refills_ok budget sc"
  using sc_refills_ok_period by (auto simp: refills_ok_def rr_refills_ok_def isRoundRobin_def)

lemma refills_ok_head: "refills_ok budget sc \<Longrightarrow> 0 < rAmount (refill_head sc)"
proof (cases "isRoundRobin sc")
  case True
  then show "refills_ok budget sc \<Longrightarrow> 0 < rAmount (refill_head sc)"
    using min_budget_value by (auto simp: refills_ok_def word_le_nat_alt word_less_nat_alt elim!: rr_refills_okE)
next
  case False
  then show "refills_ok budget sc \<Longrightarrow> 0 < rAmount (refill_head sc)"
    using refills_inv_head(5) [of "unat (scPeriod sc)" budget "refills_of sc"]
    by (simp add: refills_ok_def sc_refills_ok_def hd_refills_of)
qed

lemma refill_run_ok: "refill_run B sc \<Longrightarrow> refills_ok B sc"
proof (induction rule: refill_run.induct)
  case (new maxr budget period now sc)
  then show ?case using good_paramsD refill_new_ok refills_okI(1) by blast
next
  case (new_round_robin maxr budget now sc)
  then show ?case using good_paramsD [OF new_round_robin(1)] rr_new_ok refills_okI(2) by blast
next
  case (update B sc maxr budget period now)
  then show ?case using good_paramsD [OF update(2)] refill_update_ok refills_ok_head refills_okI(1) by metis
next
  case (charge B sc usage sc')
  then have "sc_refills_ok B sc" by (simp add: refills_ok_def)
  then show ?case using charge(3) refill_budget_check_ok refills_okI(1) by (metis option.inject)
next
  case (consume B sc consumed)
  then have "rr_refills_ok B sc" by (simp add: refills_ok_def)
  then show ?case using consume(3) rr_consume_ok refills_okI(2) by blast
next
  case (recharge B sc)
  then have "rr_refills_ok B sc" by (simp add: refills_ok_def)
  then show ?case using rr_recharge_ok refills_okI(2) by blast
next
  case (unblock B sc now sc' reprogram)
  show ?case
  proof (cases "isRoundRobin sc")
    case True
    then have "sc' = sc" using unblock(3) by (simp add: refill_unblock_check_def)
    then show ?thesis using unblock.IH by simp
  next
    case False
    then have "sc_refills_ok B sc" using unblock.IH by (simp add: refills_ok_def)
    then show ?thesis using unblock(2,3) refill_unblock_check_ok refills_okI(1) by (metis option.inject prod.inject)
  qed
qed

section \<open>Properties\<close>

text \<open>
  C4: Charging time to a scheduling context (\<open>refill_budget_check\<close>) always returns, for any
  usage; afterwards the refills still add up to the configured budget, are ordered, do not
  overlap and span at most one period, the buffer indices are valid, period and capacity
  are unchanged, and the head refill has at least \<open>MIN_BUDGET\<close>.
\<close>

theorem refill_budget_check_conserves_budget:
  assumes "sc_refills_ok budget sc"
  shows "\<exists>sc'. refill_budget_check usage sc = Some sc' \<and> sc_refills_ok budget sc' \<and>
    same_params sc sc' \<and> refill_sufficient sc' 0"
  using refill_budget_check_ok [OF assms] by metis

definition example_sc :: sched_context where
  "example_sc = refill_new 50 4 100 1000
     \<lparr>scPeriod = 0, scConsumed = 0, scCore = 0, scTcb = 0, scReply = 0, scNotification = 0,
      scBadge = 0, scYieldFrom = 0, scRefillMax = 0, scRefillHead = 0, scRefillTail = 0,
      scSporadic = False, scRefills = (\<lambda>_. \<lparr>rTime = 0, rAmount = 0\<rparr>)\<rparr>"

lemma example_params: "good_params 4 100 1000"
  by (simp add: good_params_def MIN_REFILLS_def MIN_BUDGET_def getKernelWcetTicks_def usToTicks_def
      TICKS_IN_US_def getKernelWcetUs_def MAX_PERIOD_US_def)

lemma example_now: "(50 :: ticks_t) < MAX_RELEASE_TIME"
  by (simp add: word_less_nat_alt max_release_time_value max_period_value)

lemma example_run: "refill_run 100 example_sc"
  using refill_run.new [OF example_params example_now] by (simp add: example_sc_def)

lemma example_sc_ok: "sc_refills_ok 100 example_sc"
  using refill_run_ok [OF example_run] by (simp add: refills_ok_def isRoundRobin_def example_sc_def refill_new_list(3) MIN_REFILLS_def)

lemma example_charged: "refills_of (the (refill_budget_check 30 example_sc)) =
  [\<lparr>rTime = 80, rAmount = 70\<rparr>, \<lparr>rTime = 1050, rAmount = 30\<rparr>]"
  by code_simp

theorem refill_budget_check_conserves_budget_witness:
  "\<exists>sc'. refill_budget_check 30 example_sc = Some sc' \<and> sc_refills_ok 100 sc' \<and>
    same_params example_sc sc' \<and> refill_sufficient sc' 0 \<and>
    refills_of sc' = [\<lparr>rTime = 80, rAmount = 70\<rparr>, \<lparr>rTime = 1050, rAmount = 30\<rparr>]"
  using refill_budget_check_conserves_budget [OF example_sc_ok, of 30] example_charged by auto

text \<open>
  C5: Unblocking a scheduling context (\<open>refill_unblock_check\<close>) always returns and keeps the
  budget, the order and the window; it never takes budget from the head refill, and when
  it reprograms the timer the head is released at the current time.
\<close>

theorem refill_unblock_check_keeps_budget:
  assumes "sc_refills_ok budget sc" and "now < MAX_RELEASE_TIME"
  shows "\<exists>sc' reprogram. refill_unblock_check now sc = Some (sc', reprogram) \<and>
    sc_refills_ok budget sc' \<and> same_params sc sc' \<and>
    rAmount (refill_head sc) \<le> rAmount (refill_head sc') \<and>
    (reprogram \<longrightarrow> rTime (refill_head sc') = now)"
  using refill_unblock_check_ok [OF assms] by metis

theorem refill_unblock_check_keeps_budget_witness:
  "\<exists>sc' reprogram. refill_unblock_check 50 example_sc = Some (sc', reprogram) \<and>
    sc_refills_ok 100 sc' \<and> same_params example_sc sc' \<and>
    rAmount (refill_head example_sc) \<le> rAmount (refill_head sc') \<and>
    (reprogram \<longrightarrow> rTime (refill_head sc') = 50)"
  by (rule refill_unblock_check_keeps_budget [OF example_sc_ok example_now])

text \<open>
  C6: In every run of a scheduling context (created by \<open>refill_new\<close> as a sporadic or as a round-robin
  context, then any sequence of \<open>refill_update\<close>, \<open>refill_budget_check\<close>, \<open>refill_unblock_check\<close> and the charging of a
  round-robin context, with parameters that the kernel admits, the clock before \<open>MAX_RELEASE_TIME\<close>, updates only while
  the head refill is due before that time, and round-robin contexts charged within their budget), the sum
  that \<open>refill_sum\<close> computes is the budget last configured, the number of refills never
  exceeds the capacity of the buffer, the head refill is not empty, and the refills of a sporadic context
  are ordered.
\<close>

theorem refill_run_budget:
  assumes "refill_run budget sc"
  shows "\<exists>sum. refill_sum sc = Some sum \<and> unat sum = budget \<and>
    unat (refill_size sc) \<le> unat (scRefillMax sc) \<and> 0 < rAmount (refill_head sc) \<and>
    (isRoundRobin sc \<or> refills_ordered (refills_of sc))"
proof -
  note ok = refill_run_ok [OF assms]
  have r: "valid_refills sc \<and> refills_total (refills_of sc) = budget \<and> budget \<le> max_period \<and>
    (isRoundRobin sc \<or> refills_ordered (refills_of sc))"
  proof (cases "isRoundRobin sc")
    case True
    then have "rr_refills_ok budget sc" using ok by (simp add: refills_ok_def)
    then show ?thesis using True by (auto simp: refills_total_def elim!: rr_refills_okE)
  next
    case False
    then show ?thesis using ok by (auto simp: refills_ok_def sc_refills_ok_def refills_inv_def)
  qed
  then have "unat (\<Sum>r\<leftarrow>refills_of sc. rAmount r) = budget"
    using unat_sum_list [of "refills_of sc"] by (simp add: refills_total_def max_period_value)
  then show ?thesis
    using r refill_sum_list [of sc] refill_size_spec(2) [of sc] refills_ok_head [OF ok] by simp
qed

text \<open>A round-robin context that has used 30 ticks of its time slice of 100.\<close>

theorem refill_run_budget_witness:
  "(\<exists>sum. refill_sum example_sc = Some sum \<and> unat sum = 100 \<and> refills_ordered (refills_of example_sc)) \<and>
   (\<exists>sum. refill_sum (rr_consume 30 (refill_new 50 MIN_REFILLS 100 0 example_sc)) = Some sum \<and> unat sum = 100)"
proof -
  let ?sc = "refill_new 50 MIN_REFILLS 100 0 example_sc"
  have "good_params 2 100 100"
    by (simp add: good_params_def MIN_REFILLS_def MIN_BUDGET_def getKernelWcetTicks_def getKernelWcetUs_def usToTicks_def
        TICKS_IN_US_def MAX_PERIOD_US_def)
  from refill_run.new_round_robin [OF this example_now] have r: "refill_run 100 ?sc" by simp
  have "isRoundRobin ?sc" "refill_sufficient ?sc 30" by code_simp+
  from refill_run_budget [OF refill_run.consume [OF r this]]
  have "\<exists>sum. refill_sum (rr_consume 30 ?sc) = Some sum \<and> unat sum = 100" by blast
  moreover have "\<not> isRoundRobin example_sc" using sc_refills_ok_period [OF example_sc_ok] .
  ultimately show ?thesis using refill_run_budget [OF example_run] by auto
qed

text \<open>
  C12: \<open>refill_size\<close> is the number of refills in the queue (the slots in use), between one and
  the capacity of the buffer, for every valid pair of head and tail, wrapped around or not.
\<close>

theorem refill_size_counts_used:
  assumes "valid_refills sc"
  shows "unat (refill_size sc) = length (refills_of sc) \<and> 1 \<le> length (refills_of sc) \<and>
    length (refills_of sc) \<le> unat (scRefillMax sc) \<and>
    hd (refills_of sc) = refill_head sc \<and> last (refills_of sc) = refill_tail sc"
  using refill_size_spec [OF assms] hd_refills_of [OF assms] last_refills_of [OF assms] by simp

theorem refill_size_counts_used_witness:
  "unat (refill_size example_sc) = length (refills_of example_sc) \<and>
    1 \<le> length (refills_of example_sc) \<and>
    length (refills_of example_sc) \<le> unat (scRefillMax example_sc) \<and>
    hd (refills_of example_sc) = refill_head example_sc \<and>
    last (refills_of example_sc) = refill_tail example_sc"
  using refill_size_counts_used [of example_sc] example_sc_ok by (simp add: sc_refills_ok_def)

end
