(* ===== verification/Links.thy ===== *)
theory Links
  imports Prelude
begin

text \<open>
  Doubly linked lists through next and previous pointers with \<open>0\<close> as the null pointer: the
  representation of scheduler queues, endpoint queues and the mapping database. A list
  stands for a segment of pointers; insertion and removal change the pointers of at most
  three nodes. The locale \<open>link_store\<close> states what a pair of pointer fields of the kernel
  state promises; the component theories interpret it for each pair.
\<close>

section \<open>Segments\<close>

definition hd_or :: "'a \<Rightarrow> 'a list \<Rightarrow> 'a" where
  "hd_or a xs = (case xs of [] \<Rightarrow> a | x # _ \<Rightarrow> x)"

definition last_or :: "'a \<Rightarrow> 'a list \<Rightarrow> 'a" where
  "last_or a xs = (if xs = [] then a else last xs)"

lemma hd_or_simps [simp]:
  "hd_or a [] = a" "hd_or a (x # xs) = x" "hd_or a (xs @ ys) = hd_or (hd_or a ys) xs"
  by (simp_all add: hd_or_def split: list.split)

lemma last_or_simps [simp]:
  "last_or a [] = a" "last_or a (x # xs) = last_or x xs"
  "last_or a (xs @ ys) = last_or (last_or a xs) ys"
  by (simp_all add: last_or_def)

lemma hd_or_cases: "hd_or a xs = a \<or> hd_or a xs \<in> set xs"
  by (cases xs) auto

lemma last_or_cases: "last_or a xs = a \<or> last_or a xs \<in> set xs"
  by (simp add: last_or_def)

lemma hd_or_eq_iff: "a \<notin> set xs \<Longrightarrow> hd_or a xs = a \<longleftrightarrow> xs = []"
  by (cases xs) auto

lemma last_or_eq_iff: "a \<notin> set xs \<Longrightarrow> last_or a xs = a \<longleftrightarrow> xs = []"
  by (metis last_in_set last_or_def)

lemma hd_or_neq: "x \<notin> set xs \<Longrightarrow> x \<noteq> a \<Longrightarrow> hd_or a xs \<noteq> x"
  using hd_or_cases [of a xs] by auto

lemma last_or_neq: "x \<notin> set xs \<Longrightarrow> x \<noteq> a \<Longrightarrow> last_or a xs \<noteq> x"
  using last_or_cases [of a xs] by auto

fun dseg :: "(word_t \<Rightarrow> word_t) \<Rightarrow> (word_t \<Rightarrow> word_t) \<Rightarrow> word_t \<Rightarrow> word_t list \<Rightarrow> word_t \<Rightarrow> bool" where
  "dseg nxt prv before [] after = True"
| "dseg nxt prv before (x # xs) after =
     (prv x = before \<and> nxt x = hd_or after xs \<and> dseg nxt prv x xs after)"

lemma dseg_append:
  "dseg nxt prv b (xs @ ys) a \<longleftrightarrow>
     dseg nxt prv b xs (hd_or a ys) \<and> dseg nxt prv (last_or b xs) ys a"
  by (induction xs arbitrary: b) auto

lemma dseg_cong:
  "(\<And>x. x \<in> set xs \<Longrightarrow> nxt x = nxt' x \<and> prv x = prv' x) \<Longrightarrow>
   dseg nxt prv b xs a = dseg nxt' prv' b xs a"
  by (induction xs arbitrary: b) auto

lemma dseg_upd_nxt [simp]: "x \<notin> set xs \<Longrightarrow> dseg (nxt(x := v)) prv b xs a = dseg nxt prv b xs a"
  by (rule dseg_cong) auto

lemma dseg_upd_prv [simp]: "x \<notin> set xs \<Longrightarrow> dseg nxt (prv(x := v)) b xs a = dseg nxt prv b xs a"
  by (rule dseg_cong) auto

text \<open>Redirecting the pointer at one end of a segment.\<close>

definition set_at :: "word_t \<Rightarrow> word_t \<Rightarrow> (word_t \<Rightarrow> word_t) \<Rightarrow> word_t \<Rightarrow> word_t" where
  "set_at p v f = (if p = 0 then f else f(p := v))"

lemma set_at_0 [simp]: "set_at 0 v f = f"
  by (simp add: set_at_def)

lemma set_at_nz: "p \<noteq> 0 \<Longrightarrow> set_at p v f = f(p := v)"
  by (simp add: set_at_def)

lemma dseg_set_at [simp]:
  "p = 0 \<or> p \<notin> set xs \<Longrightarrow> dseg (set_at p v nxt) prv b xs a = dseg nxt prv b xs a"
  "p = 0 \<or> p \<notin> set xs \<Longrightarrow> dseg nxt (set_at p v prv) b xs a = dseg nxt prv b xs a"
  by (auto simp: set_at_def)

lemma dseg_end:
  assumes "dseg nxt prv b xs a" and "distinct xs" and "0 \<notin> set xs"
  shows "dseg (set_at (last_or 0 xs) a' nxt) prv b xs a'"
proof (cases xs rule: rev_cases)
  case (snoc ys y)
  then have "set_at (last_or 0 xs) a' nxt = nxt(y := a')" using assms(3) by (simp add: set_at_nz)
  with assms snoc show ?thesis by (simp add: dseg_append)
qed simp

lemma dseg_start:
  assumes "dseg nxt prv b xs a" and "distinct xs" and "0 \<notin> set xs"
  shows "dseg nxt (set_at (hd_or 0 xs) b' prv) b' xs a"
  using assms by (cases xs) (auto simp: set_at_nz)

section \<open>Lists\<close>

definition dlist :: "(word_t \<Rightarrow> word_t) \<Rightarrow> (word_t \<Rightarrow> word_t) \<Rightarrow> word_t list \<Rightarrow> bool" where
  "dlist nxt prv xs \<longleftrightarrow> distinct xs \<and> 0 \<notin> set xs \<and> dseg nxt prv 0 xs 0"

lemma dlist_Nil [simp]: "dlist nxt prv []"
  by (simp add: dlist_def)

lemma dlist_single: "dlist nxt prv [x] \<longleftrightarrow> x \<noteq> 0 \<and> nxt x = 0 \<and> prv x = 0"
  by (auto simp: dlist_def)

lemma dlist_upd_nxt [simp]: "x \<notin> set xs \<Longrightarrow> dlist (nxt(x := v)) prv xs = dlist nxt prv xs"
  by (simp add: dlist_def)

lemma dlist_upd_prv [simp]: "x \<notin> set xs \<Longrightarrow> dlist nxt (prv(x := v)) xs = dlist nxt prv xs"
  by (simp add: dlist_def)

lemma dlist_cong:
  "(\<And>x. x \<in> set xs \<Longrightarrow> nxt x = nxt' x \<and> prv x = prv' x) \<Longrightarrow> dlist nxt prv xs = dlist nxt' prv' xs"
  using dseg_cong [of xs nxt nxt' prv prv'] by (simp add: dlist_def)

lemma dlist_at:
  assumes "dlist nxt prv (us @ x # vs)"
  shows "prv x = last_or 0 us" and "nxt x = hd_or 0 vs" and "x \<noteq> 0"
  using assms by (auto simp: dlist_def dseg_append)

lemma dlist_hd_prv: "dlist nxt prv (x # xs) \<Longrightarrow> prv x = 0"
  by (simp add: dlist_def)

lemma dlist_last_nxt: "dlist nxt prv (xs @ [x]) \<Longrightarrow> nxt x = 0"
  by (simp add: dlist_def dseg_append)

lemma dlist_appendD:
  assumes "dlist nxt prv (us @ vs)"
  shows "distinct us" "distinct vs" "0 \<notin> set us" "0 \<notin> set vs"
    "dseg nxt prv 0 us (hd_or 0 vs)" "dseg nxt prv (last_or 0 us) vs 0"
    "last_or 0 us = 0 \<or> last_or 0 us \<notin> set vs" "hd_or 0 vs = 0 \<or> hd_or 0 vs \<notin> set us"
  using assms last_or_cases [of 0 us] hd_or_cases [of 0 vs] by (auto simp: dlist_def dseg_append)

lemma dlist_insert:
  assumes l: "dlist nxt prv (us @ vs)" and x: "x \<notin> set (us @ vs)" "x \<noteq> 0"
  shows "dlist ((set_at (last_or 0 us) x nxt)(x := hd_or 0 vs))
    ((set_at (hd_or 0 vs) x prv)(x := last_or 0 us)) (us @ x # vs)"
proof -
  let ?n = "(set_at (last_or 0 us) x nxt)(x := hd_or 0 vs)"
  let ?p = "(set_at (hd_or 0 vs) x prv)(x := last_or 0 us)"
  note d = dlist_appendD [OF l]
  have "dseg ?n ?p 0 us x"
    using dseg_end [OF d(5,1,3), of x] d(8) x by simp
  moreover have "dseg ?n ?p x vs 0"
    using dseg_start [OF d(6,2,4), of x] d(7) x by simp
  ultimately show ?thesis
    using l x by (simp add: dlist_def dseg_append)
qed

lemma dlist_remove:
  assumes l: "dlist nxt prv (us @ x # vs)"
  shows "dlist (set_at (last_or 0 us) (hd_or 0 vs) nxt) (set_at (hd_or 0 vs) (last_or 0 us) prv) (us @ vs)"
proof -
  have d: "distinct us" "distinct vs" "0 \<notin> set us" "0 \<notin> set vs"
    and us: "dseg nxt prv 0 us x" and vs: "dseg nxt prv x vs 0"
    and ends: "last_or 0 us = 0 \<or> last_or 0 us \<notin> set vs" "hd_or 0 vs = 0 \<or> hd_or 0 vs \<notin> set us"
    using l last_or_cases [of 0 us] hd_or_cases [of 0 vs] by (auto simp: dlist_def dseg_append)
  show ?thesis
    using dseg_end [OF us d(1,3)] dseg_start [OF vs d(2,4)] ends l
    by (simp add: dlist_def dseg_append)
qed

lemma dlist_from_unique:
  assumes "dlist nxt prv xs" and "dlist nxt prv ys" and "hd_or 0 xs = hd_or 0 ys"
  shows "xs = ys"
proof -
  have seg: "dseg nxt prv b xs 0 \<Longrightarrow> dseg nxt prv b ys 0 \<Longrightarrow> 0 \<notin> set xs \<Longrightarrow> 0 \<notin> set ys \<Longrightarrow>
    hd_or 0 xs = hd_or 0 ys \<Longrightarrow> xs = ys" for b
  proof (induction xs arbitrary: b ys)
    case Nil
    then show ?case by (cases ys) auto
  next
    case (Cons x xs)
    then obtain ys' where "ys = x # ys'" by (cases ys) auto
    with Cons show ?case by auto
  qed
  with assms show ?thesis by (auto simp: dlist_def)
qed

lemma dseg_unique_after:
  assumes "dseg nxt prv b xs 0" "dseg nxt prv c ys 0" "0 \<notin> set xs" "0 \<notin> set ys"
    "hd_or 0 xs = hd_or 0 ys"
  shows "xs = ys"
  using assms
proof (induction xs arbitrary: b c ys)
  case Nil
  then show ?case by (cases ys) auto
next
  case (Cons x xs)
  then obtain ys' where "ys = x # ys'" by (cases ys) auto
  with Cons show ?case by auto
qed

lemma dlist_unique:
  assumes "dlist nxt prv xs" "dlist nxt prv ys" "p \<in> set xs" "p \<in> set ys"
  shows "xs = ys"
proof -
  have before: "us = us'" if "dlist nxt prv (us @ p # vs)" "dlist nxt prv (us' @ p # vs')" for p us us' vs vs'
    using that
  proof (induction us arbitrary: p vs us' vs' rule: rev_induct)
    case Nil
    then have "last_or 0 us' = 0" using dlist_at(1) [OF Nil(1)] dlist_at(1) [OF Nil(2)] by simp
    then show ?case using Nil(2) last_or_eq_iff [of 0 us'] by (auto simp: dlist_def)
  next
    case (snoc u us)
    have "last_or 0 us' = u" using dlist_at(1) [OF snoc.prems(1)] dlist_at(1) [OF snoc.prems(2)] by simp
    moreover have "u \<noteq> 0" using snoc.prems(1) by (auto simp: dlist_def)
    ultimately obtain us'' where "us' = us'' @ [u]" by (cases us' rule: rev_cases) auto
    then show ?case using snoc.IH [of u "p # vs" us'' "p # vs'"] snoc.prems by simp
  qed
  obtain us vs us' vs' where s: "xs = us @ p # vs" "ys = us' @ p # vs'"
    using assms(3,4) by (meson split_list)
  then have "us = us'" using before assms(1,2) by blast
  moreover have "vs = vs'"
  proof (rule dseg_unique_after)
    show "dseg nxt prv p vs 0" "0 \<notin> set vs" using assms(1) by (simp_all add: s dlist_def dseg_append)
    show "dseg nxt prv p vs' 0" "0 \<notin> set vs'" using assms(2) by (simp_all add: s dlist_def dseg_append)
    show "hd_or 0 vs = hd_or 0 vs'"
      using dlist_at(2) [of nxt prv us p vs] dlist_at(2) [of nxt prv us' p vs'] assms(1,2) by (simp add: s)
  qed
  ultimately show ?thesis using s by simp
qed

section \<open>Exchanging two nodes\<close>

definition swap_ptr :: "word_t \<Rightarrow> word_t \<Rightarrow> word_t \<Rightarrow> word_t" where
  "swap_ptr a b x = (if x = a then b else if x = b then a else x)"

lemma swap_ptr_simps [simp]:
  "swap_ptr a b a = b" "swap_ptr a b b = a" "swap_ptr a b (swap_ptr a b x) = x"
  by (simp_all add: swap_ptr_def)

lemma swap_ptr_other: "x \<noteq> a \<Longrightarrow> x \<noteq> b \<Longrightarrow> swap_ptr a b x = x"
  by (simp add: swap_ptr_def)

lemma swap_ptr_inject [simp]: "swap_ptr a b x = swap_ptr a b y \<longleftrightarrow> x = y"
  by (metis swap_ptr_simps(3))

lemma swap_ptr_image_iff: "x \<in> swap_ptr a b ` A \<longleftrightarrow> swap_ptr a b x \<in> A"
  by (metis image_iff swap_ptr_simps(3))

lemma swap_ptr_0: "a \<noteq> 0 \<Longrightarrow> b \<noteq> 0 \<Longrightarrow> swap_ptr a b x = 0 \<longleftrightarrow> x = 0"
  by (auto simp: swap_ptr_def)

lemma hd_or_map_swap: "hd_or (swap_ptr a b z) (map (swap_ptr a b) xs) = swap_ptr a b (hd_or z xs)"
  by (cases xs) simp_all

lemma dseg_swap:
  assumes "\<And>x. x \<in> set xs \<Longrightarrow> nxt' (swap_ptr p q x) = swap_ptr p q (nxt x) \<and>
    prv' (swap_ptr p q x) = swap_ptr p q (prv x)"
  shows "dseg nxt prv b xs a \<Longrightarrow> dseg nxt' prv' (swap_ptr p q b) (map (swap_ptr p q) xs) (swap_ptr p q a)"
  using assms by (induction xs arbitrary: b) (simp_all add: hd_or_map_swap)

text \<open>
  Exchanging two nodes by the sequence of pointer writes of a swap, adjacent nodes included.
\<close>

lemma swap_links:
  fixes n p :: "word_t \<Rightarrow> word_t"
  assumes n: "\<And>y. y \<noteq> 0 \<Longrightarrow> n y \<noteq> 0 \<Longrightarrow> p (n y) = y \<and> n y \<noteq> y"
    and p: "\<And>y. y \<noteq> 0 \<Longrightarrow> p y \<noteq> 0 \<Longrightarrow> n (p y) = y \<and> p y \<noteq> y"
    and ab: "a \<noteq> 0" "b \<noteq> 0" "a \<noteq> b" and x: "x \<noteq> 0"
  defines "n1 \<equiv> set_at (p a) b n" and "p1 \<equiv> set_at (n a) b p"
  shows "set_at (p1 b) a (n1(a := n1 b, b := n a)) (swap_ptr a b x) = swap_ptr a b (n x)"
proof -
  have adj: "p a = b \<longleftrightarrow> n b = a" "n a = b \<longleftrightarrow> p b = a" using n p ab by metis+
  have "p a \<noteq> a" "n a \<noteq> a" "p b \<noteq> b" "n b \<noteq> b" using n p ab by metis+
  note self = this
  have "p1 b = (if n a = b then b else p b)" "n1 b = (if p a = b then b else n b)"
    using ab(2) by (auto simp: p1_def n1_def set_at_def)
  then have p1: "p1 b = swap_ptr a b (p b)" and n1: "n1 b = swap_ptr a b (n b)"
    unfolding adj swap_ptr_def using self by simp_all
  consider "x = a" | "x = b" | "x \<noteq> a" "x \<noteq> b" by blast
  then show ?thesis
  proof cases
    case 1
    have "b = p1 b \<longleftrightarrow> n a = b" unfolding p1 adj swap_ptr_def using self by auto
    then show ?thesis using 1 ab self by (auto simp: set_at_def swap_ptr_def)
  next
    case 2
    have "p1 b \<noteq> a" unfolding p1 swap_ptr_def using self ab by simp
    then show ?thesis using 2 ab n1 by (simp add: set_at_def)
  next
    case 3
    have "p1 b = x \<longleftrightarrow> n x = b" using 3 p1 n p ab x by (metis swap_ptr_def)
    moreover have "p a = x \<longleftrightarrow> n x = a" using n p ab x by metis
    ultimately show ?thesis using 3 x ab by (auto simp: set_at_def swap_ptr_def n1_def)
  qed
qed

lemma move_links:
  fixes n p :: "word_t \<Rightarrow> word_t"
  assumes n: "\<And>y. y \<noteq> 0 \<Longrightarrow> n y \<noteq> 0 \<Longrightarrow> p (n y) = y \<and> n y \<noteq> y"
    and p: "\<And>y. y \<noteq> 0 \<Longrightarrow> p y \<noteq> 0 \<Longrightarrow> n (p y) = y \<and> p y \<noteq> y"
    and ab: "a \<noteq> 0" "b \<noteq> 0" "a \<noteq> b" and x: "x \<noteq> 0" and b: "n b = 0" "p b = 0"
  shows "set_at (p a) b (n(b := n a, a := 0)) (swap_ptr a b x) = swap_ptr a b (n x)"
proof -
  have "p a \<noteq> b" "n a \<noteq> b" using n p ab b by metis+
  moreover have "p a \<noteq> a" using p ab by metis
  ultimately have "set_at (p a) b (n(b := n a, a := 0)) =
      set_at (set_at (n a) b p b) a ((set_at (p a) b n)(a := set_at (p a) b n b, b := n a))"
    using b by (auto simp: set_at_def fun_upd_twist)
  then show ?thesis using swap_links [OF n p ab x] by simp
qed

section \<open>Disjoint chains\<close>

text \<open>
  A set of disjoint chains that together hold the live nodes; nodes that are not live have
  null links.
\<close>

definition chains ::
  "(word_t \<Rightarrow> word_t) \<Rightarrow> (word_t \<Rightarrow> word_t) \<Rightarrow> word_t list set \<Rightarrow> word_t set \<Rightarrow> bool" where
  "chains nxt prv CS L \<longleftrightarrow>
     (\<forall>xs\<in>CS. xs \<noteq> [] \<and> dlist nxt prv xs) \<and>
     (\<forall>xs\<in>CS. \<forall>ys\<in>CS. xs \<noteq> ys \<longrightarrow> set xs \<inter> set ys = {}) \<and>
     \<Union>(set ` CS) = L \<and>
     (\<forall>p. p \<noteq> 0 \<and> p \<notin> L \<longrightarrow> nxt p = 0 \<and> prv p = 0)"

lemma chainsD:
  assumes "chains nxt prv CS L"
  shows "xs \<in> CS \<Longrightarrow> dlist nxt prv xs" "xs \<in> CS \<Longrightarrow> xs \<noteq> []" "xs \<in> CS \<Longrightarrow> set xs \<subseteq> L"
    "xs \<in> CS \<Longrightarrow> ys \<in> CS \<Longrightarrow> xs \<noteq> ys \<Longrightarrow> set xs \<inter> set ys = {}"
    "p \<noteq> 0 \<Longrightarrow> p \<notin> L \<Longrightarrow> nxt p = 0" "p \<noteq> 0 \<Longrightarrow> p \<notin> L \<Longrightarrow> prv p = 0"
    "0 \<notin> L"
  using assms unfolding chains_def dlist_def by blast+

lemma chains_split:
  assumes "chains nxt prv CS L" and "p \<in> L"
  obtains us vs where "us @ p # vs \<in> CS"
proof -
  obtain xs where "xs \<in> CS" "p \<in> set xs" using assms by (auto simp: chains_def)
  then show thesis using that by (metis split_list)
qed

lemma chains_links:
  assumes c: "chains nxt prv CS L" and p: "p \<noteq> 0"
  shows "nxt p \<noteq> 0 \<Longrightarrow> prv (nxt p) = p \<and> p \<in> L \<and> nxt p \<in> L \<and> nxt p \<noteq> p"
    and "prv p \<noteq> 0 \<Longrightarrow> nxt (prv p) = p \<and> p \<in> L \<and> prv p \<in> L \<and> prv p \<noteq> p"
proof -
  show "prv (nxt p) = p \<and> p \<in> L \<and> nxt p \<in> L \<and> nxt p \<noteq> p" if nz: "nxt p \<noteq> 0"
  proof -
    have L: "p \<in> L" using chainsD(5) [OF c p] nz by blast
    from chains_split [OF c L] obtain us vs where m: "us @ p # vs \<in> CS" .
    note d = chainsD(1) [OF c m]
    obtain v vs' where vs: "vs = v # vs'" using dlist_at(2) [OF d] nz by (cases vs) auto
    have v: "nxt p = v" using dlist_at(2) [OF d] vs by simp
    have "prv v = p" using dlist_at(1) [of nxt prv "us @ [p]" v vs'] d vs by simp
    then show ?thesis using v L chainsD(3) [OF c m] d vs by (auto simp: dlist_def)
  qed
  show "nxt (prv p) = p \<and> p \<in> L \<and> prv p \<in> L \<and> prv p \<noteq> p" if nz: "prv p \<noteq> 0"
  proof -
    have L: "p \<in> L" using chainsD(6) [OF c p] nz by blast
    from chains_split [OF c L] obtain us vs where m: "us @ p # vs \<in> CS" .
    note d = chainsD(1) [OF c m]
    obtain u us' where us: "us = us' @ [u]" using dlist_at(1) [OF d] nz by (cases us rule: rev_cases) auto
    have u: "prv p = u" using dlist_at(1) [OF d] us by simp
    have "nxt u = p" using dlist_at(2) [of nxt prv us' u "p # vs"] d us by simp
    then show ?thesis using u L chainsD(3) [OF c m] d us by (auto simp: dlist_def)
  qed
qed

lemma chains_swap:
  assumes c: "chains nxt prv CS L" and ab: "a \<noteq> 0" "b \<noteq> 0"
    and n: "\<And>x. x \<noteq> 0 \<Longrightarrow> nxt' (swap_ptr a b x) = swap_ptr a b (nxt x)"
    and p: "\<And>x. x \<noteq> 0 \<Longrightarrow> prv' (swap_ptr a b x) = swap_ptr a b (prv x)"
  shows "chains nxt' prv' (map (swap_ptr a b) ` CS) (swap_ptr a b ` L)"
proof -
  let ?T = "swap_ptr a b"
  have T0: "?T 0 = 0" "\<And>x. ?T x = 0 \<longleftrightarrow> x = 0" using ab by (auto simp: swap_ptr_def)
  have "dlist nxt' prv' (map ?T xs)" if "xs \<in> CS" for xs
  proof -
    have d: "distinct xs" "0 \<notin> set xs" "dseg nxt prv 0 xs 0"
      using chainsD(1) [OF c that] by (auto simp: dlist_def)
    have "dseg nxt' prv' (?T 0) (map ?T xs) (?T 0)"
      using d n p by (intro dseg_swap) (auto, metis+)
    then show ?thesis using d T0 by (auto simp: dlist_def distinct_map inj_on_def)
  qed
  moreover have "set (map ?T xs) \<inter> set (map ?T ys) = {}"
    if "xs \<in> CS" "ys \<in> CS" "map ?T xs \<noteq> map ?T ys" for xs ys
  proof -
    have "xs \<noteq> ys" using that(3) by blast
    then have "set xs \<inter> set ys = {}" using chainsD(4) [OF c that(1,2)] by blast
    then show ?thesis by auto
  qed
  moreover have "nxt' q = 0 \<and> prv' q = 0" if "q \<noteq> 0" "q \<notin> ?T ` L" for q
  proof -
    have "?T q \<noteq> 0" "?T q \<notin> L" using that T0 by (auto simp: swap_ptr_image_iff)
    then have "nxt (?T q) = 0" "prv (?T q) = 0" using chainsD(5,6) [OF c] by auto
    then show ?thesis using n [of "?T q"] p [of "?T q"] \<open>?T q \<noteq> 0\<close> T0 by simp
  qed
  ultimately show ?thesis
    using chainsD(2) [OF c] c by (auto simp: chains_def)
qed

text \<open>Replacing one chain by another with the links of the others untouched.\<close>

lemma chains_replace:
  assumes c: "chains nxt prv CS L" and xs: "xs \<in> CS"
    and ys: "dlist nxt' prv' ys" "set ys = M" "M \<inter> L \<subseteq> set xs"
    and other: "\<And>q. q \<notin> set xs \<Longrightarrow> q \<notin> M \<Longrightarrow> nxt' q = nxt q \<and> prv' q = prv q"
    and gone: "\<And>q. q \<in> set xs - M \<Longrightarrow> nxt' q = 0 \<and> prv' q = 0"
  shows "chains nxt' prv' ((CS - {xs}) \<union> ({ys} - {[]})) ((L - set xs) \<union> M)"
proof -
  let ?CS = "(CS - {xs}) \<union> ({ys} - {[]})"
  have sep: "set zs \<inter> set xs = {}" "set zs \<inter> M = {}" if "zs \<in> CS - {xs}" for zs
    using chainsD(4) [OF c _ xs, of zs] chainsD(3) [OF c, of zs] ys(3) that by auto
  have old: "dlist nxt' prv' zs" if "zs \<in> CS - {xs}" for zs
  proof -
    have "dlist nxt prv zs = dlist nxt' prv' zs"
      by (rule dlist_cong) (use sep [OF that] other in \<open>force\<close>)
    then show ?thesis using chainsD(1) [OF c] that by auto
  qed
  have lists: "\<forall>zs\<in>?CS. zs \<noteq> [] \<and> dlist nxt' prv' zs"
    using old ys(1) chainsD(2) [OF c] by auto
  have disj: "\<forall>zs\<in>?CS. \<forall>ws\<in>?CS. zs \<noteq> ws \<longrightarrow> set zs \<inter> set ws = {}"
  proof (intro ballI impI)
    fix zs ws
    assume "zs \<in> ?CS" "ws \<in> ?CS" "zs \<noteq> ws"
    then show "set zs \<inter> set ws = {}"
      using chainsD(4) [OF c, of zs ws] sep(2) [of zs] sep(2) [of ws] ys(2) by auto
  qed
  have "\<Union>(set ` (CS - {xs})) = L - set xs"
    using c xs chainsD(4) [OF c _ xs] unfolding chains_def by auto
  then have union: "\<Union>(set ` ?CS) = (L - set xs) \<union> M"
    using ys(2) by auto
  have "nxt' q = 0 \<and> prv' q = 0" if "q \<noteq> 0" "q \<notin> (L - set xs) \<union> M" for q
    using that gone [of q] other [of q] chainsD(5,6) [OF c, of q] by (cases "q \<in> set xs") auto
  then have nul: "\<forall>q. q \<noteq> 0 \<and> q \<notin> (L - set xs) \<union> M \<longrightarrow> nxt' q = 0 \<and> prv' q = 0" by iprover
  show ?thesis unfolding chains_def by (intro conjI lists disj union nul)
qed

lemma chains_insert_after:
  assumes c: "chains nxt prv CS L" and m: "us @ p # vs \<in> CS" and x: "x \<notin> L" "x \<noteq> 0"
    and n: "nxt' = nxt(x := hd_or 0 vs, p := x)"
    and pr: "prv' = set_at (hd_or 0 vs) x (prv(x := p))"
  shows "chains nxt' prv' (insert (us @ p # x # vs) (CS - {us @ p # vs})) (insert x L)"
proof -
  note d = chainsD(1) [OF c m]
  have p: "p \<noteq> 0" "p \<noteq> x" using d x chainsD(3) [OF c m] by (auto simp: dlist_def)
  have xn: "x \<notin> set (us @ p # vs)" using x chainsD(3) [OF c m] by auto
  have hd: "hd_or 0 vs \<noteq> x" using xn x by (intro hd_or_neq) auto
  have "nxt' = (set_at (last_or 0 (us @ [p])) x nxt)(x := hd_or 0 vs)"
    "prv' = (set_at (hd_or 0 vs) x prv)(x := last_or 0 (us @ [p]))"
    using p hd by (auto simp: n pr set_at_def fun_upd_twist)
  then have new: "dlist nxt' prv' (us @ p # x # vs)"
    using dlist_insert [of nxt prv "us @ [p]" vs x] d xn x by simp
  have "nxt' q = nxt q \<and> prv' q = prv q" if "q \<notin> set (us @ p # vs)" "q \<notin> set (us @ p # x # vs)" for q
    using that hd_or_cases [of 0 vs] by (auto simp: n pr set_at_def)
  from chains_replace [OF c m new refl _ this] x
  have "chains nxt' prv' ((CS - {us @ p # vs}) \<union> ({us @ p # x # vs} - {[]}))
    ((L - set (us @ p # vs)) \<union> set (us @ p # x # vs))" by auto
  moreover have "(L - set (us @ p # vs)) \<union> set (us @ p # x # vs) = insert x L"
    using chainsD(3) [OF c m] by auto
  ultimately show ?thesis by simp
qed

lemma chains_remove:
  assumes c: "chains nxt prv CS L" and m: "us @ x # vs \<in> CS"
    and n: "nxt' = (set_at (last_or 0 us) (hd_or 0 vs) nxt)(x := 0)"
    and pr: "prv' = (set_at (hd_or 0 vs) (last_or 0 us) prv)(x := 0)"
  shows "chains nxt' prv' ((CS - {us @ x # vs}) \<union> ({us @ vs} - {[]})) (L - {x})"
proof -
  note d = chainsD(1) [OF c m]
  have x: "x \<notin> set (us @ vs)" using d by (auto simp: dlist_def)
  have new: "dlist nxt' prv' (us @ vs)" using dlist_remove [OF d] x by (simp add: n pr)
  have "nxt' q = nxt q \<and> prv' q = prv q" if "q \<notin> set (us @ x # vs)" "q \<notin> set (us @ vs)" for q
    using that hd_or_cases [of 0 vs] last_or_cases [of 0 us] by (auto simp: n pr set_at_def)
  moreover have "nxt' q = 0 \<and> prv' q = 0" if "q \<in> set (us @ x # vs) - set (us @ vs)" for q
    using that by (auto simp: n pr)
  moreover have "set (us @ vs) \<inter> L \<subseteq> set (us @ x # vs)" by auto
  ultimately have "chains nxt' prv' ((CS - {us @ x # vs}) \<union> ({us @ vs} - {[]}))
    ((L - set (us @ x # vs)) \<union> set (us @ vs))"
    using chains_replace [OF c m new refl] by blast
  moreover have "(L - set (us @ x # vs)) \<union> set (us @ vs) = L - {x}"
    using chainsD(3) [OF c m] x by auto
  ultimately show ?thesis by simp
qed

section \<open>Pointer fields of a state\<close>

definition link_in ::
  "(word_t \<Rightarrow> word_t \<Rightarrow> 's \<Rightarrow> 's) \<Rightarrow> (word_t \<Rightarrow> word_t \<Rightarrow> 's \<Rightarrow> 's) \<Rightarrow> word_t \<Rightarrow> word_t \<Rightarrow> word_t \<Rightarrow> 's \<Rightarrow> 's" where
  "link_in set_nxt set_prv before x after s =
     (let s = set_prv x before s;
          s = set_nxt x after s;
          s = (if before = 0 then s else set_nxt before x s)
      in if after = 0 then s else set_prv after x s)"

definition link_out ::
  "(word_t \<Rightarrow> word_t \<Rightarrow> 's \<Rightarrow> 's) \<Rightarrow> (word_t \<Rightarrow> word_t \<Rightarrow> 's \<Rightarrow> 's) \<Rightarrow> word_t \<Rightarrow> word_t \<Rightarrow> 's \<Rightarrow> 's" where
  "link_out set_nxt set_prv before after s =
     (let s = (if before = 0 then s else set_nxt before after s)
      in if after = 0 then s else set_prv after before s)"

text \<open>
  What a pair of pointer fields promises: writing one field of a node changes that field of
  that node and nothing else of the pair.
\<close>

locale link_store =
  fixes nxt prv :: "'s \<Rightarrow> word_t \<Rightarrow> word_t"
    and set_nxt set_prv :: "word_t \<Rightarrow> word_t \<Rightarrow> 's \<Rightarrow> 's"
  assumes nxt_set_nxt: "nxt (set_nxt p v s) = (nxt s)(p := v)"
    and nxt_set_prv: "nxt (set_prv p v s) = nxt s"
    and prv_set_nxt: "prv (set_nxt p v s) = prv s"
    and prv_set_prv: "prv (set_prv p v s) = (prv s)(p := v)"
begin

lemmas links_set = nxt_set_nxt nxt_set_prv prv_set_nxt prv_set_prv

lemma link_in_links:
  "nxt (link_in set_nxt set_prv b x a s) = set_at b x ((nxt s)(x := a))"
  "prv (link_in set_nxt set_prv b x a s) = set_at a x ((prv s)(x := b))"
  by (simp_all add: link_in_def links_set set_at_def Let_def)

lemma link_out_links:
  "nxt (link_out set_nxt set_prv b a s) = set_at b a (nxt s)"
  "prv (link_out set_nxt set_prv b a s) = set_at a b (prv s)"
  by (simp_all add: link_out_def links_set set_at_def Let_def)

lemma link_in_dlist:
  assumes "dlist (nxt s) (prv s) (us @ vs)" and "x \<notin> set (us @ vs)" and "x \<noteq> 0"
  defines "s' \<equiv> link_in set_nxt set_prv (last_or 0 us) x (hd_or 0 vs) s"
  shows "dlist (nxt s') (prv s') (us @ x # vs)"
proof -
  have ends: "last_or 0 us \<noteq> x" "hd_or 0 vs \<noteq> x"
    using assms(2,3) hd_or_cases [of 0 vs] last_or_cases [of 0 us] by auto
  have "nxt s' = (set_at (last_or 0 us) x (nxt s))(x := hd_or 0 vs)"
    "prv s' = (set_at (hd_or 0 vs) x (prv s))(x := last_or 0 us)"
    using ends by (simp_all add: s'_def link_in_links set_at_def fun_upd_twist)
  then show ?thesis using dlist_insert [OF assms(1-3)] by simp
qed

lemma link_out_dlist:
  assumes "dlist (nxt s) (prv s) (us @ x # vs)"
  defines "s' \<equiv> link_out set_nxt set_prv (last_or 0 us) (hd_or 0 vs) s"
  shows "dlist (nxt s') (prv s') (us @ vs)"
  using dlist_remove [OF assms(1)] by (simp add: s'_def link_out_links)

end

end
