(* ===== verification/Caps.thy ===== *)
theory Caps
  imports Structures
begin

text \<open>
  The pure functions on capabilities of \<^verbatim>\<open>src/object/objecttype.c\<close>, their RISC-V parts in
  \<^verbatim>\<open>src/arch/riscv/object/objecttype.c\<close> and the zombie accessors of
  \<^verbatim>\<open>include/object/structures.h\<close>: which memory a capability covers, when two capabilities
  name the same object, how rights are masked and badges and guards are set, and the
  capabilities created for new objects.

  Sizes in bits are natural numbers; the source's fields for them have six bits, so their
  sums do not wrap.
\<close>

section \<open>Zombies\<close>

definition ZombieType_ZombieTCB :: word_t where
  "ZombieType_ZombieTCB = BIT wordRadix"

definition ZombieType_ZombieCNode :: "word_t \<Rightarrow> word_t" where
  "ZombieType_ZombieCNode n = n AND MASK wordRadix"

definition Zombie_new :: "word_t \<Rightarrow> word_t \<Rightarrow> word_t \<Rightarrow> cap" where
  "Zombie_new number type ptr =
     (let mask = (if type = ZombieType_ZombieTCB then MASK (TCB_CNODE_RADIX + 1)
                  else MASK (unat type + 1))
      in cap_zombie_cap ((ptr AND NOT mask) OR (number AND mask)) type)"

definition cap_zombie_cap_get_capZombieBits :: "cap \<Rightarrow> nat" where
  "cap_zombie_cap_get_capZombieBits cap =
     (let type = capZombieType cap
      in if type = ZombieType_ZombieTCB then TCB_CNODE_RADIX
         else unat (ZombieType_ZombieCNode type))"

definition cap_zombie_cap_get_capZombieNumber :: "cap \<Rightarrow> word_t" where
  "cap_zombie_cap_get_capZombieNumber cap =
     (let radix = cap_zombie_cap_get_capZombieBits cap
      in capZombieID cap AND MASK (radix + 1))"

definition cap_zombie_cap_get_capZombiePtr :: "cap \<Rightarrow> word_t" where
  "cap_zombie_cap_get_capZombiePtr cap =
     (let radix = cap_zombie_cap_get_capZombieBits cap
      in capZombieID cap AND NOT (MASK (radix + 1)))"

definition cap_zombie_cap_set_capZombieNumber :: "cap \<Rightarrow> word_t \<Rightarrow> cap" where
  "cap_zombie_cap_set_capZombieNumber cap n =
     (let radix = cap_zombie_cap_get_capZombieBits cap;
          ptr = capZombieID cap AND NOT (MASK (radix + 1))
      in cap_zombie_cap (ptr OR (n AND MASK (radix + 1))) (capZombieType cap))"

section \<open>Memory covered by a capability\<close>

definition isArchCap :: "cap \<Rightarrow> bool" where
  "isArchCap cap = (case cap of
       cap_frame_cap _ _ _ _ _ _ \<Rightarrow> True
     | cap_page_table_cap _ _ _ _ \<Rightarrow> True
     | cap_asid_control_cap \<Rightarrow> True
     | cap_asid_pool_cap _ _ \<Rightarrow> True
     | _ \<Rightarrow> False)"

definition pageBitsForSize :: "vm_page_size \<Rightarrow> nat" where
  "pageBitsForSize sz = (case sz of
       RISCV_4K_Page \<Rightarrow> seL4_PageBits
     | RISCV_Mega_Page \<Rightarrow> seL4_LargePageBits
     | RISCV_Giga_Page \<Rightarrow> seL4_HugePageBits)"

definition cap_get_archCapIsPhysical :: "cap \<Rightarrow> bool" where
  "cap_get_archCapIsPhysical cap = (case cap of
       cap_frame_cap _ _ _ _ _ _ \<Rightarrow> True
     | cap_page_table_cap _ _ _ _ \<Rightarrow> True
     | cap_asid_pool_cap _ _ \<Rightarrow> True
     | _ \<Rightarrow> False)"

definition cap_get_archCapSizeBits :: "cap \<Rightarrow> nat" where
  "cap_get_archCapSizeBits cap = (case cap of
       cap_frame_cap _ _ sz _ _ _ \<Rightarrow> pageBitsForSize sz
     | cap_page_table_cap _ _ _ _ \<Rightarrow> PT_SIZE_BITS
     | cap_asid_pool_cap _ _ \<Rightarrow> seL4_ASIDPoolBits
     | _ \<Rightarrow> 0)"

definition cap_get_archCapPtr :: "cap \<Rightarrow> word_t" where
  "cap_get_archCapPtr cap = (case cap of
       cap_frame_cap _ base _ _ _ _ \<Rightarrow> base
     | cap_page_table_cap _ base _ _ \<Rightarrow> base
     | cap_asid_pool_cap _ pool \<Rightarrow> pool
     | _ \<Rightarrow> 0)"

definition cap_get_capSizeBits :: "cap \<Rightarrow> nat" where
  "cap_get_capSizeBits cap = (case cap of
       cap_untyped_cap _ _ blockSize _ \<Rightarrow> unat blockSize
     | cap_endpoint_cap _ _ _ _ _ _ \<Rightarrow> seL4_EndpointBits
     | cap_notification_cap _ _ _ _ \<Rightarrow> seL4_NotificationBits
     | cap_cnode_cap radix _ _ _ \<Rightarrow> unat radix + seL4_SlotBits
     | cap_thread_cap _ \<Rightarrow> seL4_TCBBits
     | cap_zombie_cap _ type \<Rightarrow>
         (if type = ZombieType_ZombieTCB then seL4_TCBBits
          else unat (ZombieType_ZombieCNode type) + seL4_SlotBits)
     | cap_null_cap \<Rightarrow> 0
     | cap_domain_cap \<Rightarrow> 0
     | cap_reply_cap _ _ \<Rightarrow> seL4_ReplyBits
     | cap_irq_control_cap \<Rightarrow> 0
     | cap_sched_control_cap _ \<Rightarrow> 0
     | cap_irq_handler_cap _ \<Rightarrow> 0
     | cap_sched_context_cap _ sizeBits \<Rightarrow> unat sizeBits
     | _ \<Rightarrow> cap_get_archCapSizeBits cap)"

definition cap_get_capIsPhysical :: "cap \<Rightarrow> bool" where
  "cap_get_capIsPhysical cap = (case cap of
       cap_untyped_cap _ _ _ _ \<Rightarrow> True
     | cap_endpoint_cap _ _ _ _ _ _ \<Rightarrow> True
     | cap_notification_cap _ _ _ _ \<Rightarrow> True
     | cap_cnode_cap _ _ _ _ \<Rightarrow> True
     | cap_thread_cap _ \<Rightarrow> True
     | cap_sched_context_cap _ _ \<Rightarrow> True
     | cap_zombie_cap _ _ \<Rightarrow> True
     | cap_domain_cap \<Rightarrow> False
     | cap_reply_cap _ _ \<Rightarrow> True
     | cap_irq_control_cap \<Rightarrow> False
     | cap_sched_control_cap _ \<Rightarrow> False
     | cap_irq_handler_cap _ \<Rightarrow> False
     | _ \<Rightarrow> cap_get_archCapIsPhysical cap)"

definition cap_get_capPtr :: "cap \<Rightarrow> word_t" where
  "cap_get_capPtr cap = (case cap of
       cap_untyped_cap _ _ _ ptr \<Rightarrow> ptr
     | cap_endpoint_cap _ _ _ _ _ ptr \<Rightarrow> ptr
     | cap_notification_cap _ _ _ ptr \<Rightarrow> ptr
     | cap_cnode_cap _ _ _ ptr \<Rightarrow> ptr
     | cap_thread_cap ptr \<Rightarrow> TCB_PTR_CTE_PTR ptr 0
     | cap_zombie_cap _ _ \<Rightarrow> cap_zombie_cap_get_capZombiePtr cap
     | cap_domain_cap \<Rightarrow> 0
     | cap_reply_cap ptr _ \<Rightarrow> ptr
     | cap_irq_control_cap \<Rightarrow> 0
     | cap_sched_control_cap _ \<Rightarrow> 0
     | cap_irq_handler_cap _ \<Rightarrow> 0
     | cap_sched_context_cap ptr _ \<Rightarrow> ptr
     | _ \<Rightarrow> cap_get_archCapPtr cap)"

section \<open>Comparing capabilities\<close>

definition Arch_isIRQControlDescendant :: "cap \<Rightarrow> bool" where
  "Arch_isIRQControlDescendant cap = False"

definition Arch_isCapRevocable :: "cap \<Rightarrow> cap \<Rightarrow> bool" where
  "Arch_isCapRevocable derivedCap srcCap = False"

definition Arch_sameRegionAs :: "cap \<Rightarrow> cap \<Rightarrow> bool" where
  "Arch_sameRegionAs cap_a cap_b = (case cap_a of
       cap_frame_cap _ _ _ _ _ _ \<Rightarrow> is_cap_frame_cap cap_b \<and>
         (let botA = capFBasePtr cap_a; botB = capFBasePtr cap_b;
              topA = botA + MASK (pageBitsForSize (capFSize cap_a));
              topB = botB + MASK (pageBitsForSize (capFSize cap_b))
          in botA \<le> botB \<and> topA \<ge> topB \<and> botB \<le> topB)
     | cap_page_table_cap _ _ _ _ \<Rightarrow>
         is_cap_page_table_cap cap_b \<and> capPTBasePtr cap_a = capPTBasePtr cap_b
     | cap_asid_control_cap \<Rightarrow> cap_b = cap_asid_control_cap
     | cap_asid_pool_cap _ _ \<Rightarrow>
         is_cap_asid_pool_cap cap_b \<and> capASIDPool cap_a = capASIDPool cap_b
     | _ \<Rightarrow> False)"

definition Arch_sameObjectAs :: "cap \<Rightarrow> cap \<Rightarrow> bool" where
  "Arch_sameObjectAs cap_a cap_b =
     (if is_cap_frame_cap cap_a \<and> is_cap_frame_cap cap_b then
        capFBasePtr cap_a = capFBasePtr cap_b \<and> capFSize cap_a = capFSize cap_b \<and>
        capFIsDevice cap_a = capFIsDevice cap_b
      else Arch_sameRegionAs cap_a cap_b)"

definition sameRegionAs :: "cap \<Rightarrow> cap \<Rightarrow> bool" where
  "sameRegionAs cap_a cap_b = (case cap_a of
       cap_untyped_cap _ _ _ _ \<Rightarrow> cap_get_capIsPhysical cap_b \<and>
         (let aBase = capPtr cap_a; bBase = cap_get_capPtr cap_b;
              aTop = aBase + MASK (unat (capBlockSize cap_a));
              bTop = bBase + MASK (cap_get_capSizeBits cap_b)
          in aBase \<le> bBase \<and> bTop \<le> aTop \<and> bBase \<le> bTop)
     | cap_endpoint_cap _ _ _ _ _ _ \<Rightarrow>
         is_cap_endpoint_cap cap_b \<and> capEPPtr cap_a = capEPPtr cap_b
     | cap_notification_cap _ _ _ _ \<Rightarrow>
         is_cap_notification_cap cap_b \<and> capNtfnPtr cap_a = capNtfnPtr cap_b
     | cap_cnode_cap _ _ _ _ \<Rightarrow> is_cap_cnode_cap cap_b \<and>
         capCNodePtr cap_a = capCNodePtr cap_b \<and> capCNodeRadix cap_a = capCNodeRadix cap_b
     | cap_thread_cap _ \<Rightarrow> is_cap_thread_cap cap_b \<and> capTCBPtr cap_a = capTCBPtr cap_b
     | cap_reply_cap _ _ \<Rightarrow> is_cap_reply_cap cap_b \<and> capReplyPtr cap_a = capReplyPtr cap_b
     | cap_domain_cap \<Rightarrow> cap_b = cap_domain_cap
     | cap_irq_control_cap \<Rightarrow> cap_b = cap_irq_control_cap \<or> is_cap_irq_handler_cap cap_b \<or>
         Arch_isIRQControlDescendant cap_b
     | cap_irq_handler_cap _ \<Rightarrow> is_cap_irq_handler_cap cap_b \<and> capIRQ cap_a = capIRQ cap_b
     | cap_sched_context_cap _ _ \<Rightarrow> is_cap_sched_context_cap cap_b \<and>
         capSCPtr cap_a = capSCPtr cap_b \<and> capSCSizeBits cap_a = capSCSizeBits cap_b
     | cap_sched_control_cap _ \<Rightarrow> is_cap_sched_control_cap cap_b
     | _ \<Rightarrow> isArchCap cap_a \<and> isArchCap cap_b \<and> Arch_sameRegionAs cap_a cap_b)"

definition sameObjectAs :: "cap \<Rightarrow> cap \<Rightarrow> bool" where
  "sameObjectAs cap_a cap_b =
     (if is_cap_untyped_cap cap_a then False
      else if cap_a = cap_irq_control_cap then False
      else if isArchCap cap_a \<and> isArchCap cap_b then Arch_sameObjectAs cap_a cap_b
      else sameRegionAs cap_a cap_b)"

definition isCapRevocable :: "cap \<Rightarrow> cap \<Rightarrow> bool" where
  "isCapRevocable derivedCap srcCap =
     (if isArchCap derivedCap then Arch_isCapRevocable derivedCap srcCap
      else case derivedCap of
        cap_endpoint_cap badge _ _ _ _ _ \<Rightarrow> badge \<noteq> capEPBadge srcCap
      | cap_notification_cap badge _ _ _ \<Rightarrow> badge \<noteq> capNtfnBadge srcCap
      | cap_irq_handler_cap _ \<Rightarrow> srcCap = cap_irq_control_cap
      | cap_untyped_cap _ _ _ _ \<Rightarrow> True
      | _ \<Rightarrow> False)"

definition hasCancelSendRights :: "cap \<Rightarrow> bool" where
  "hasCancelSendRights cap = (case cap of
       cap_endpoint_cap _ canGrantReply canGrant canSend canReceive _ \<Rightarrow>
         canSend \<and> canReceive \<and> canGrantReply \<and> canGrant
     | _ \<Rightarrow> False)"

section \<open>Rights, badges and guards\<close>

definition maskVMRights :: "vm_rights \<Rightarrow> seL4_CapRights \<Rightarrow> vm_rights" where
  "maskVMRights vm_rights cap_rights_mask =
     (if vm_rights = VMReadOnly \<and> capAllowRead cap_rights_mask then VMReadOnly
      else if vm_rights = VMReadWrite \<and> capAllowRead cap_rights_mask then
        (if \<not> capAllowWrite cap_rights_mask then VMReadOnly else VMReadWrite)
      else VMKernelOnly)"

definition Arch_maskCapRights :: "seL4_CapRights \<Rightarrow> cap \<Rightarrow> cap" where
  "Arch_maskCapRights cap_rights_mask cap = (case cap of
       cap_frame_cap asid base sz rights dev vaddr \<Rightarrow>
         cap_frame_cap asid base sz (maskVMRights rights cap_rights_mask) dev vaddr
     | _ \<Rightarrow> cap)"

definition maskCapRights :: "seL4_CapRights \<Rightarrow> cap \<Rightarrow> cap" where
  "maskCapRights rights cap =
     (if isArchCap cap then Arch_maskCapRights rights cap
      else case cap of
        cap_endpoint_cap badge canGrantReply canGrant canSend canReceive ptr \<Rightarrow>
          cap_endpoint_cap badge (canGrantReply \<and> capAllowGrantReply rights)
            (canGrant \<and> capAllowGrant rights) (canSend \<and> capAllowWrite rights)
            (canReceive \<and> capAllowRead rights) ptr
      | cap_notification_cap badge canReceive canSend ptr \<Rightarrow>
          cap_notification_cap badge (canReceive \<and> capAllowRead rights)
            (canSend \<and> capAllowWrite rights) ptr
      | cap_reply_cap ptr canGrant \<Rightarrow> cap_reply_cap ptr (canGrant \<and> capAllowGrant rights)
      | _ \<Rightarrow> cap)"

definition Arch_updateCapData :: "bool \<Rightarrow> word_t \<Rightarrow> cap \<Rightarrow> cap" where
  "Arch_updateCapData preserve data cap = cap"

text \<open>\<^verbatim>\<open>seL4_CNode_CapData\<close>: the guard in the upper 58 bits, its size in the lower 6.\<close>

definition seL4_CNode_CapData_get_guard :: "word_t \<Rightarrow> word_t" where
  "seL4_CNode_CapData_get_guard w = drop_bit 6 w"

definition seL4_CNode_CapData_get_guardSize :: "word_t \<Rightarrow> word_t" where
  "seL4_CNode_CapData_get_guardSize w = w AND MASK 6"

definition updateCapData :: "bool \<Rightarrow> word_t \<Rightarrow> cap \<Rightarrow> cap" where
  "updateCapData preserve newData cap =
     (if isArchCap cap then Arch_updateCapData preserve newData cap
      else case cap of
        cap_endpoint_cap badge canGrantReply canGrant canSend canReceive ptr \<Rightarrow>
          (if \<not> preserve \<and> badge = 0
           then cap_endpoint_cap newData canGrantReply canGrant canSend canReceive ptr
           else cap_null_cap)
      | cap_notification_cap badge canReceive canSend ptr \<Rightarrow>
          (if \<not> preserve \<and> badge = 0 then cap_notification_cap newData canReceive canSend ptr
           else cap_null_cap)
      | cap_cnode_cap radix _ _ ptr \<Rightarrow>
          (let guardSize = seL4_CNode_CapData_get_guardSize newData
           in if guardSize + radix > of_nat wordBits then cap_null_cap
              else let guard = seL4_CNode_CapData_get_guard newData AND MASK (unat guardSize)
                   in cap_cnode_cap radix guardSize guard ptr)
      | _ \<Rightarrow> cap)"

section \<open>New objects\<close>

text \<open>
  Object types are words, as user level passes them. For a value that is no object type
  the source halts; \<open>getObjectSize\<close> then has the value of the unreachable return statement
  and \<open>createObject\<close> is \<open>None\<close>.
\<close>

definition seL4_UntypedObject :: word_t where "seL4_UntypedObject = 0"
definition seL4_TCBObject :: word_t where "seL4_TCBObject = 1"
definition seL4_EndpointObject :: word_t where "seL4_EndpointObject = 2"
definition seL4_NotificationObject :: word_t where "seL4_NotificationObject = 3"
definition seL4_CapTableObject :: word_t where "seL4_CapTableObject = 4"
definition seL4_SchedContextObject :: word_t where "seL4_SchedContextObject = 5"
definition seL4_ReplyObject :: word_t where "seL4_ReplyObject = 6"
definition seL4_NonArchObjectTypeCount :: word_t where "seL4_NonArchObjectTypeCount = 7"
definition seL4_RISCV_Giga_Page :: word_t where "seL4_RISCV_Giga_Page = 7"
definition seL4_RISCV_4K_Page :: word_t where "seL4_RISCV_4K_Page = 8"
definition seL4_RISCV_Mega_Page :: word_t where "seL4_RISCV_Mega_Page = 9"
definition seL4_RISCV_PageTableObject :: word_t where "seL4_RISCV_PageTableObject = 10"
definition seL4_ObjectTypeCount :: word_t where "seL4_ObjectTypeCount = 11"

lemmas object_type_defs = seL4_UntypedObject_def seL4_TCBObject_def seL4_EndpointObject_def
  seL4_NotificationObject_def seL4_CapTableObject_def seL4_SchedContextObject_def
  seL4_ReplyObject_def seL4_NonArchObjectTypeCount_def seL4_RISCV_Giga_Page_def
  seL4_RISCV_4K_Page_def seL4_RISCV_Mega_Page_def seL4_RISCV_PageTableObject_def
  seL4_ObjectTypeCount_def

definition Arch_isFrameType :: "word_t \<Rightarrow> bool" where
  "Arch_isFrameType type \<longleftrightarrow>
     type = seL4_RISCV_Giga_Page \<or> type = seL4_RISCV_Mega_Page \<or> type = seL4_RISCV_4K_Page"

definition Arch_getObjectSize :: "word_t \<Rightarrow> word_t" where
  "Arch_getObjectSize t =
     (if t = seL4_RISCV_4K_Page \<or> t = seL4_RISCV_PageTableObject then of_nat seL4_PageBits
      else if t = seL4_RISCV_Mega_Page then of_nat seL4_LargePageBits
      else if t = seL4_RISCV_Giga_Page then of_nat seL4_HugePageBits
      else 0)"

definition getObjectSize :: "word_t \<Rightarrow> word_t \<Rightarrow> word_t" where
  "getObjectSize t userObjSize =
     (if t \<ge> seL4_NonArchObjectTypeCount then Arch_getObjectSize t
      else if t = seL4_TCBObject then of_nat seL4_TCBBits
      else if t = seL4_EndpointObject then of_nat seL4_EndpointBits
      else if t = seL4_NotificationObject then of_nat seL4_NotificationBits
      else if t = seL4_CapTableObject then of_nat seL4_SlotBits + userObjSize
      else if t = seL4_UntypedObject then userObjSize
      else if t = seL4_SchedContextObject then userObjSize
      else if t = seL4_ReplyObject then of_nat seL4_ReplyBits
      else 0)"

definition asidInvalid :: word_t where
  "asidInvalid = 0"

definition Arch_createObject :: "word_t \<Rightarrow> word_t \<Rightarrow> word_t \<Rightarrow> bool \<Rightarrow> cap option" where
  "Arch_createObject t regionBase userSize deviceMemory =
     (if t = seL4_RISCV_4K_Page then
        Some (cap_frame_cap asidInvalid regionBase RISCV_4K_Page VMReadWrite deviceMemory 0)
      else if t = seL4_RISCV_Mega_Page then
        Some (cap_frame_cap asidInvalid regionBase RISCV_Mega_Page VMReadWrite deviceMemory 0)
      else if t = seL4_RISCV_Giga_Page then
        Some (cap_frame_cap asidInvalid regionBase RISCV_Giga_Page VMReadWrite deviceMemory 0)
      else if t = seL4_RISCV_PageTableObject then
        Some (cap_page_table_cap asidInvalid regionBase False 0)
      else None)"

text \<open>
  \<open>createObject\<close> initialises a TCB in memory that is already zero; the other objects need no
  initialisation. \<open>SSTATUS\<close> is the register index 32.
\<close>

definition Arch_initContext :: "(register \<Rightarrow> word_t) \<Rightarrow> register \<Rightarrow> word_t" where
  "Arch_initContext context = context(32 := 0x20)"

definition createObject :: "word_t \<Rightarrow> word_t \<Rightarrow> word_t \<Rightarrow> bool \<Rightarrow> kstate \<Rightarrow> (cap \<times> kstate) option" where
  "createObject t regionBase userSize deviceMemory s =
     (if t \<ge> seL4_NonArchObjectTypeCount then
        map_option (\<lambda>cap. (cap, s)) (Arch_createObject t regionBase userSize deviceMemory)
      else if t = seL4_TCBObject then
        (let tcb = regionBase + TCB_OFFSET;
             s = upd_tcb tcb (\<lambda>t. t\<lparr>tcbContext := Arch_initContext (tcbContext t)\<rparr>) s;
             s = upd_tcb tcb (\<lambda>t. t\<lparr>tcbDomain := ksCurDomain s\<rparr>) s
         in Some (cap_thread_cap tcb, s))
      else if t = seL4_EndpointObject then
        Some (cap_endpoint_cap 0 True True True True regionBase, s)
      else if t = seL4_NotificationObject then
        Some (cap_notification_cap 0 True True regionBase, s)
      else if t = seL4_CapTableObject then
        Some (cap_cnode_cap userSize 0 0 regionBase, s)
      else if t = seL4_UntypedObject then
        Some (cap_untyped_cap 0 deviceMemory userSize regionBase, s)
      else if t = seL4_SchedContextObject then
        Some (cap_sched_context_cap regionBase userSize, s)
      else if t = seL4_ReplyObject then
        Some (cap_reply_cap regionBase True, s)
      else None)"

section \<open>Rights as sets\<close>

datatype right = Right_Read | Right_Write | Right_Grant | Right_GrantReply

definition rights_of_mask :: "seL4_CapRights \<Rightarrow> right set" where
  "rights_of_mask r = {x. case x of
      Right_Read \<Rightarrow> capAllowRead r | Right_Write \<Rightarrow> capAllowWrite r
    | Right_Grant \<Rightarrow> capAllowGrant r | Right_GrantReply \<Rightarrow> capAllowGrantReply r}"

definition rights_of_cap :: "cap \<Rightarrow> right set" where
  "rights_of_cap cap = {x. case cap of
      cap_endpoint_cap _ grantReply grant send receive _ \<Rightarrow>
        (case x of Right_Read \<Rightarrow> receive | Right_Write \<Rightarrow> send
         | Right_Grant \<Rightarrow> grant | Right_GrantReply \<Rightarrow> grantReply)
    | cap_notification_cap _ receive send _ \<Rightarrow>
        x = Right_Read \<and> receive \<or> x = Right_Write \<and> send
    | cap_reply_cap _ grant \<Rightarrow> x = Right_Grant \<and> grant
    | cap_frame_cap _ _ _ rights _ _ \<Rightarrow>
        x = Right_Read \<and> rights \<noteq> VMKernelOnly \<or> x = Right_Write \<and> rights = VMReadWrite
    | _ \<Rightarrow> False}"

definition both_rights :: "seL4_CapRights \<Rightarrow> seL4_CapRights \<Rightarrow> seL4_CapRights" where
  "both_rights r r' = \<lparr>capAllowGrantReply = capAllowGrantReply r \<and> capAllowGrantReply r',
     capAllowGrant = capAllowGrant r \<and> capAllowGrant r',
     capAllowRead = capAllowRead r \<and> capAllowRead r',
     capAllowWrite = capAllowWrite r \<and> capAllowWrite r'\<rparr>"

lemmas cap_region_defs = cap_get_capPtr_def cap_get_capSizeBits_def cap_get_capIsPhysical_def
  cap_get_archCapPtr_def cap_get_archCapSizeBits_def cap_get_archCapIsPhysical_def

lemmas mask_defs = maskCapRights_def Arch_maskCapRights_def maskVMRights_def isArchCap_def

section \<open>Properties\<close>

text \<open>
  C39: Masking rights never adds authority: the rights of the masked capability are among those
  of the capability and those of the mask, masking twice is masking with the conjunction,
  and the capability still names the same memory.
\<close>

theorem maskCapRights_restricts:
  "rights_of_cap (maskCapRights r cap) \<subseteq> rights_of_cap cap \<inter> rights_of_mask r \<and>
   maskCapRights r (maskCapRights r' cap) = maskCapRights (both_rights r r') cap \<and>
   cap_get_capPtr (maskCapRights r cap) = cap_get_capPtr cap \<and>
   cap_get_capSizeBits (maskCapRights r cap) = cap_get_capSizeBits cap"
proof (intro conjI)
  show "rights_of_cap (maskCapRights r cap) \<subseteq> rights_of_cap cap \<inter> rights_of_mask r"
  proof
    fix x
    assume "x \<in> rights_of_cap (maskCapRights r cap)"
    then show "x \<in> rights_of_cap cap \<inter> rights_of_mask r"
      by (cases cap; cases x; simp add: mask_defs rights_of_cap_def rights_of_mask_def split: if_splits)
  qed
  show "maskCapRights r (maskCapRights r' cap) = maskCapRights (both_rights r r') cap"
    by (cases cap) (simp_all add: mask_defs both_rights_def conj_ac)
  show "cap_get_capPtr (maskCapRights r cap) = cap_get_capPtr cap"
    by (cases cap) (simp_all add: mask_defs cap_region_defs)
  show "cap_get_capSizeBits (maskCapRights r cap) = cap_get_capSizeBits cap"
    by (cases cap) (simp_all add: mask_defs cap_region_defs)
qed

lemma sameRegionAs_untyped_iff:
  "sameRegionAs (cap_untyped_cap fi dev bs p) c \<longleftrightarrow>
   cap_get_capIsPhysical c \<and> p \<le> cap_get_capPtr c \<and>
   cap_get_capPtr c + MASK (cap_get_capSizeBits c) \<le> p + MASK (unat bs) \<and>
   cap_get_capPtr c \<le> cap_get_capPtr c + MASK (cap_get_capSizeBits c)"
  by (auto simp: sameRegionAs_def Let_def)

lemmas region_defs = sameRegionAs_def Arch_sameRegionAs_def isArchCap_def
  Arch_isIRQControlDescendant_def

lemmas disc_defs = is_cap_endpoint_cap_def is_cap_notification_cap_def is_cap_reply_cap_def
  is_cap_cnode_cap_def is_cap_thread_cap_def is_cap_irq_handler_cap_def is_cap_zombie_cap_def
  is_cap_sched_context_cap_def is_cap_sched_control_cap_def is_cap_frame_cap_def
  is_cap_page_table_cap_def is_cap_asid_pool_cap_def is_cap_untyped_cap_def

lemma sameRegionAs_same_memory:
  "sameRegionAs b c \<Longrightarrow> cap_get_capIsPhysical b \<Longrightarrow> cap_get_capIsPhysical c \<and>
   cap_get_capPtr b \<le> cap_get_capPtr c \<and>
   cap_get_capPtr c + MASK (cap_get_capSizeBits c) \<le> cap_get_capPtr b + MASK (cap_get_capSizeBits b) \<and>
   (cap_get_capPtr b \<le> cap_get_capPtr b + MASK (cap_get_capSizeBits b) \<longrightarrow>
    cap_get_capPtr c \<le> cap_get_capPtr c + MASK (cap_get_capSizeBits c))"
  by (cases b) (auto simp: region_defs disc_defs cap_region_defs Let_def)

lemma sameRegionAs_trans_typed:
  "sameRegionAs a b \<Longrightarrow> sameRegionAs b c \<Longrightarrow> \<not> is_cap_untyped_cap a \<Longrightarrow> sameRegionAs a c"
  by (cases a) (auto simp: region_defs disc_defs Let_def)

text \<open>
  C40: \<open>sameRegionAs\<close> is transitive over all kinds of capabilities, and for an untyped
  capability it means that the other capability's memory lies inside its own, as address
  intervals that do not wrap.
\<close>

theorem sameRegionAs_transitive:
  assumes "sameRegionAs a b" and "sameRegionAs b c"
  shows "sameRegionAs a c \<and>
    (is_cap_untyped_cap a \<longrightarrow> cap_get_capIsPhysical c \<and>
      {unat (cap_get_capPtr c) .. unat (cap_get_capPtr c + MASK (cap_get_capSizeBits c))}
        \<subseteq> {unat (cap_get_capPtr a) .. unat (cap_get_capPtr a + MASK (cap_get_capSizeBits a))} \<and>
      unat (cap_get_capPtr c) \<le> unat (cap_get_capPtr c + MASK (cap_get_capSizeBits c)))"
proof (cases "is_cap_untyped_cap a")
  case False
  then show ?thesis using sameRegionAs_trans_typed [OF assms] by simp
next
  case True
  then obtain fi dev bs p where a: "a = cap_untyped_cap fi dev bs p" by (auto simp: disc_defs)
  have "sameRegionAs a c"
    using assms sameRegionAs_same_memory [OF assms(2)] unfolding a sameRegionAs_untyped_iff
    by (metis order_trans)
  then show ?thesis
    unfolding a sameRegionAs_untyped_iff
    by (simp add: cap_get_capPtr_def [of a, unfolded a] cap_get_capSizeBits_def [of a, unfolded a] a
        word_le_nat_alt)
qed

theorem sameRegionAs_transitive_witness:
  "sameRegionAs (cap_untyped_cap 0 False 20 0x100000) (cap_endpoint_cap 7 True True True True 0x180000)"
  using sameRegionAs_transitive [of "cap_untyped_cap 0 False 20 0x100000"
      "cap_untyped_cap 0 False 16 0x180000" "cap_endpoint_cap 7 True True True True 0x180000"]
  by (simp add: sameRegionAs_def cap_region_defs size_bits_defs MASK_def BIT_def)

text \<open>
  Badges and guards are set once and in range: \<open>updateCapData\<close> gives a new badge only to an
  unbadged endpoint or notification capability and otherwise a null capability; a CNode
  capability gets a guard that fits its size, and guard and radix together resolve at
  most a word, or the result is null; any other capability is unchanged.
\<close>

theorem updateCapData_cases:
  "(is_cap_endpoint_cap cap \<longrightarrow> updateCapData preserve d cap =
      (if preserve \<or> capEPBadge cap \<noteq> 0 then cap_null_cap
       else cap_endpoint_cap d (capCanGrantReply cap) (capCanGrant cap) (capCanSend cap)
         (capCanReceive cap) (capEPPtr cap))) \<and>
   (is_cap_notification_cap cap \<longrightarrow> updateCapData preserve d cap =
      (if preserve \<or> capNtfnBadge cap \<noteq> 0 then cap_null_cap
       else cap_notification_cap d (capNtfnCanReceive cap) (capNtfnCanSend cap) (capNtfnPtr cap))) \<and>
   (is_cap_cnode_cap cap \<and> unat (capCNodeRadix cap) < 64 \<longrightarrow>
      updateCapData preserve d cap = cap_null_cap \<and> 64 < unat d mod 64 + unat (capCNodeRadix cap) \<or>
      (\<exists>sz g. updateCapData preserve d cap = cap_cnode_cap (capCNodeRadix cap) sz g (capCNodePtr cap) \<and>
         unat sz = unat d mod 64 \<and> unat sz + unat (capCNodeRadix cap) \<le> 64 \<and>
         unat g = (unat d div 64) mod 2 ^ unat sz)) \<and>
   (\<not> is_cap_endpoint_cap cap \<and> \<not> is_cap_notification_cap cap \<and> \<not> is_cap_cnode_cap cap \<longrightarrow>
      updateCapData preserve d cap = cap)"
proof (intro conjI impI)
  assume "is_cap_cnode_cap cap \<and> unat (capCNodeRadix cap) < 64"
  then obtain radix sz0 g0 p where cap: "cap = cap_cnode_cap radix sz0 g0 p" and radix: "unat radix < 64"
    by (auto simp: disc_defs)
  define sz where "sz = seL4_CNode_CapData_get_guardSize d"
  define g where "g = seL4_CNode_CapData_get_guard d AND MASK (unat sz)"
  have sz: "unat sz = unat d mod 64"
    by (simp add: sz_def seL4_CNode_CapData_get_guardSize_def unat_and_MASK)
  have g: "unat g = (unat d div 64) mod 2 ^ unat sz"
    by (simp add: g_def seL4_CNode_CapData_get_guard_def unat_and_MASK drop_bit_eq_div unat_div)
  have sum: "unat (sz + radix) = unat sz + unat radix"
    using sz radix by (intro unat_add_no_overflow) simp
  have upd: "updateCapData preserve d cap =
      (if 64 < sz + radix then cap_null_cap else cap_cnode_cap radix sz g p)"
    by (simp add: cap updateCapData_def isArchCap_def Let_def sz_def g_def)
  show "updateCapData preserve d cap = cap_null_cap \<and> 64 < unat d mod 64 + unat (capCNodeRadix cap) \<or>
      (\<exists>sz g. updateCapData preserve d cap = cap_cnode_cap (capCNodeRadix cap) sz g (capCNodePtr cap) \<and>
         unat sz = unat d mod 64 \<and> unat sz + unat (capCNodeRadix cap) \<le> 64 \<and>
         unat g = (unat d div 64) mod 2 ^ unat sz)"
    unfolding upd using sz g sum by (simp add: cap word_less_nat_alt not_less)
qed (auto simp: updateCapData_def isArchCap_def Arch_updateCapData_def disc_defs split: cap.splits)

theorem updateCapData_cases_witness:
  "updateCapData False 9 (cap_endpoint_cap 0 True True True False 16) =
     cap_endpoint_cap 9 True True True False 16 \<and>
   updateCapData False 9 (cap_endpoint_cap 5 True True True False 16) = cap_null_cap \<and>
   updateCapData True 9 cap_domain_cap = cap_domain_cap"
  using updateCapData_cases [of "cap_endpoint_cap 0 True True True False 16" False 9]
    updateCapData_cases [of "cap_endpoint_cap 5 True True True False 16" False 9]
    updateCapData_cases [of cap_domain_cap True 9]
  by simp

text \<open>
  Zombie capabilities pack a pointer and a counter into one word without loss: for a CNode of
  any radix below 64, and for a TCB, both are read back, and setting the counter keeps
  the pointer.
\<close>

definition zombie_radix :: "word_t \<Rightarrow> nat" where
  "zombie_radix type = (if type = ZombieType_ZombieTCB then TCB_CNODE_RADIX else unat type)"

lemma zombie_bits:
  assumes "type = ZombieType_ZombieTCB \<or> unat type < 64"
  shows "cap_zombie_cap_get_capZombieBits (cap_zombie_cap i type) = zombie_radix type"
proof (cases "type = ZombieType_ZombieTCB")
  case False
  then have "unat (ZombieType_ZombieCNode type) = unat type"
    using assms by (simp add: ZombieType_ZombieCNode_def unat_and_MASK)
  with False show ?thesis by (simp add: cap_zombie_cap_get_capZombieBits_def zombie_radix_def)
qed (simp add: cap_zombie_cap_get_capZombieBits_def zombie_radix_def)

theorem zombie_roundtrip:
  assumes "type = ZombieType_ZombieTCB \<or> unat type < 64"
    and "is_aligned ptr (zombie_radix type + 1)"
    and "unat n \<le> 2 ^ zombie_radix type" and "unat m \<le> 2 ^ zombie_radix type"
  shows "cap_zombie_cap_get_capZombieNumber (Zombie_new n type ptr) = n \<and>
    cap_zombie_cap_get_capZombiePtr (Zombie_new n type ptr) = ptr \<and>
    cap_zombie_cap_set_capZombieNumber (Zombie_new n type ptr) m = Zombie_new m type ptr"
proof -
  let ?k = "zombie_radix type + 1"
  have new: "Zombie_new k type ptr = cap_zombie_cap (ptr OR k) type" if "unat k \<le> 2 ^ zombie_radix type" for k
  proof -
    have "unat k < 2 ^ ?k" using that by (simp add: le_less_trans)
    then show ?thesis
      using aligned_and_not_mask [OF assms(2)] and_mask_less [of k ?k]
      by (auto simp: Zombie_new_def zombie_radix_def Let_def split: if_splits)
  qed
  have "unat n < 2 ^ ?k" "unat m < 2 ^ ?k" using assms(3,4) by (simp_all add: le_less_trans)
  then show ?thesis
    using aligned_or_parts [OF assms(2)] and_mask_less [of m ?k]
    by (simp add: new assms(3,4) zombie_bits [OF assms(1)] cap_zombie_cap_get_capZombieNumber_def
        cap_zombie_cap_get_capZombiePtr_def cap_zombie_cap_set_capZombieNumber_def)
qed

theorem zombie_roundtrip_witness:
  "cap_zombie_cap_get_capZombieNumber (Zombie_new 16 4 0x1000) = 16 \<and>
   cap_zombie_cap_get_capZombiePtr (Zombie_new 16 4 0x1000) = 0x1000 \<and>
   cap_zombie_cap_set_capZombieNumber (Zombie_new 16 4 0x1000) 3 = Zombie_new 3 4 0x1000"
proof -
  have "is_aligned 0x1000 (zombie_radix 4 + 1)"
    by (simp add: zombie_radix_def ZombieType_ZombieTCB_def BIT_def is_aligned_def)
  moreover have "zombie_radix 4 = 4"
    by (simp add: zombie_radix_def ZombieType_ZombieTCB_def BIT_def)
  ultimately show ?thesis using zombie_roundtrip [of 4 "0x1000" 16 3] by simp
qed

lemma tcb_region_base:
  assumes "is_aligned p seL4_TCBBits"
  shows "TCB_PTR_CTE_PTR (p + TCB_OFFSET) 0 = p"
proof -
  have "unat TCB_OFFSET < 2 ^ seL4_TCBBits" by (simp add: TCB_OFFSET_def BIT_def size_bits_defs)
  then show ?thesis
    using assms aligned_or_parts(2) aligned_add_or by (simp add: TCB_PTR_CTE_PTR_def slot_at_def)
qed

lemma object_type_range: "t < seL4_ObjectTypeCount \<Longrightarrow> t \<in> {0,1,2,3,4,5,6,7,8,9,10}"
proof -
  assume "t < seL4_ObjectTypeCount"
  then have "unat t < 11" by (simp add: seL4_ObjectTypeCount_def word_less_nat_alt)
  then show ?thesis by (simp add: word_unat_eq_iff) arith
qed

lemma createObject_cap:
  assumes "t < seL4_ObjectTypeCount" and "t = seL4_CapTableObject \<longrightarrow> unat userSize < 59"
    and "t = seL4_TCBObject \<longrightarrow> is_aligned regionBase seL4_TCBBits"
  shows "\<exists>cap s'. createObject t regionBase userSize dev s = Some (cap, s') \<and>
    cap \<noteq> cap_null_cap \<and> cap_get_capIsPhysical cap \<and> cap_get_capPtr cap = regionBase \<and>
    cap_get_capSizeBits cap = unat (getObjectSize t userSize) \<and>
    s'\<lparr>tcbs := tcbs s\<rparr> = s \<and> (\<forall>p. p = regionBase + TCB_OFFSET \<or> tcbs s' p = tcbs s p)"
proof -
  have sz: "t = 4 \<Longrightarrow> unat (5 + userSize) = unat userSize + 5"
    using assms(2) by (subst unat_add_no_overflow) (simp_all add: seL4_CapTableObject_def)
  have tcb: "t = 1 \<Longrightarrow> TCB_PTR_CTE_PTR (regionBase + TCB_OFFSET) 0 = regionBase"
    using assms(3) tcb_region_base by (simp add: seL4_TCBObject_def)
  have one: "\<not> (7 :: word_t) \<le> 1" by (simp add: word_le_nat_alt)
  show ?thesis
  proof (insert object_type_range [OF assms(1)] tcb sz, elim insertE)
  qed (simp_all add: createObject_def Arch_createObject_def getObjectSize_def
      Arch_getObjectSize_def object_type_defs cap_region_defs size_bits_defs pageBitsForSize_def
      upd_defs Let_def one)
qed

end
