(* ===== verification/CSpace.thy ===== *)
theory CSpace
  imports Caps "HOL-Library.Monad_Syntax"
begin

text \<open>
  Capability address resolution, \<^verbatim>\<open>src/kernel/cspace.c\<close>: the loop of \<open>resolveAddressBits\<close> through
  the CNodes of a capability space, the lookup functions built on it, and their
  refinement of a specification that reads an address as a list of bits.

  The source asserts that every level resolves at least one bit; the assertion is
  compiled out, so the loop of the model is partial: \<open>None\<close> is a loop that does not end.
\<close>

section \<open>Operations\<close>

record resolveAddressBits_ret =
  ra_status :: exception
  ra_slot :: word_t
  bitsRemaining :: word_t

record lookupSlot_ret =
  ls_status :: exception
  ls_slot :: word_t

record lookupCap_ret =
  lc_status :: exception
  lc_cap :: cap

record lookupCapAndSlot_ret =
  lcs_status :: exception
  lcs_cap :: cap
  lcs_slot :: word_t

text \<open>The loop; \<open>n0\<close> is the number of bits at the start, which a fault reports.\<close>

partial_function (option) resolveAddressBits_loop ::
  "word_t \<Rightarrow> cap \<Rightarrow> word_t \<Rightarrow> word_t \<Rightarrow> kstate \<Rightarrow> (resolveAddressBits_ret \<times> kstate) option" where
  "resolveAddressBits_loop n0 nodeCap capptr n_bits s =
     (let radixBits = capCNodeRadix nodeCap;
          guardBits = capCNodeGuardSize nodeCap;
          levelBits = radixBits + guardBits;
          capGuard = capCNodeGuard nodeCap;
          guard = drop_bit (unat ((n_bits - guardBits) AND MASK wordRadix)) capptr AND MASK (unat guardBits)
      in if guardBits > n_bits \<or> guard \<noteq> capGuard then
           Some (\<lparr>ra_status = EXCEPTION_LOOKUP_FAULT, ra_slot = 0, bitsRemaining = n0\<rparr>,
                 s\<lparr>current_lookup_fault := guard_mismatch capGuard n_bits guardBits\<rparr>)
         else if levelBits > n_bits then
           Some (\<lparr>ra_status = EXCEPTION_LOOKUP_FAULT, ra_slot = 0, bitsRemaining = n0\<rparr>,
                 s\<lparr>current_lookup_fault := depth_mismatch levelBits n_bits\<rparr>)
         else
           let offset = drop_bit (unat (n_bits - levelBits)) capptr AND MASK (unat radixBits);
               slot = slot_at (capCNodePtr nodeCap) offset
           in if n_bits = levelBits then
                Some (\<lparr>ra_status = EXCEPTION_NONE, ra_slot = slot, bitsRemaining = 0\<rparr>, s)
              else
                let n_bits = n_bits - levelBits;
                    nodeCap = cte_cap (ctes s slot)
                in if \<not> is_cap_cnode_cap nodeCap then
                     Some (\<lparr>ra_status = EXCEPTION_NONE, ra_slot = slot, bitsRemaining = n_bits\<rparr>, s)
                   else resolveAddressBits_loop n0 nodeCap capptr n_bits s)"

definition resolveAddressBits ::
  "cap \<Rightarrow> word_t \<Rightarrow> word_t \<Rightarrow> kstate \<Rightarrow> (resolveAddressBits_ret \<times> kstate) option" where
  "resolveAddressBits nodeCap capptr n_bits s =
     (if \<not> is_cap_cnode_cap nodeCap then
        Some (\<lparr>ra_status = EXCEPTION_LOOKUP_FAULT, ra_slot = 0, bitsRemaining = n_bits\<rparr>,
              s\<lparr>current_lookup_fault := invalid_root\<rparr>)
      else resolveAddressBits_loop n_bits nodeCap capptr n_bits s)"

definition lookupSlot :: "word_t \<Rightarrow> word_t \<Rightarrow> kstate \<Rightarrow> (lookupSlot_ret \<times> kstate) option" where
  "lookupSlot thread capptr s = do {
     let threadRoot = cte_cap (ctes s (TCB_PTR_CTE_PTR thread tcbCTable));
     (res_ret, s) \<leftarrow> resolveAddressBits threadRoot capptr (of_nat wordBits) s;
     Some (\<lparr>ls_status = ra_status res_ret, ls_slot = ra_slot res_ret\<rparr>, s)
   }"

definition lookupCap :: "word_t \<Rightarrow> word_t \<Rightarrow> kstate \<Rightarrow> (lookupCap_ret \<times> kstate) option" where
  "lookupCap thread cPtr s = do {
     (lu_ret, s) \<leftarrow> lookupSlot thread cPtr s;
     if ls_status lu_ret \<noteq> EXCEPTION_NONE then
       Some (\<lparr>lc_status = ls_status lu_ret, lc_cap = cap_null_cap\<rparr>, s)
     else
       Some (\<lparr>lc_status = EXCEPTION_NONE, lc_cap = cte_cap (ctes s (ls_slot lu_ret))\<rparr>, s)
   }"

definition lookupCapAndSlot :: "word_t \<Rightarrow> word_t \<Rightarrow> kstate \<Rightarrow> (lookupCapAndSlot_ret \<times> kstate) option" where
  "lookupCapAndSlot thread cPtr s = do {
     (lu_ret, s) \<leftarrow> lookupSlot thread cPtr s;
     if ls_status lu_ret \<noteq> EXCEPTION_NONE then
       Some (\<lparr>lcs_status = ls_status lu_ret, lcs_cap = cap_null_cap, lcs_slot = 0\<rparr>, s)
     else
       Some (\<lparr>lcs_status = EXCEPTION_NONE, lcs_cap = cte_cap (ctes s (ls_slot lu_ret)),
              lcs_slot = ls_slot lu_ret\<rparr>, s)
   }"

definition set_syscall_error :: "(syscall_error \<Rightarrow> syscall_error) \<Rightarrow> kstate \<Rightarrow> kstate" where
  "set_syscall_error f s = s\<lparr>current_syscall_error := f (current_syscall_error s)\<rparr>"

definition lookupSlotForCNodeOp ::
  "bool \<Rightarrow> cap \<Rightarrow> word_t \<Rightarrow> word_t \<Rightarrow> kstate \<Rightarrow> (lookupSlot_ret \<times> kstate) option" where
  "lookupSlotForCNodeOp isSource root capptr depth s =
     (let failed = \<lparr>ls_status = EXCEPTION_SYSCALL_ERROR, ls_slot = 0\<rparr>
      in if \<not> is_cap_cnode_cap root then
        let s = set_syscall_error (\<lambda>e. e\<lparr>err_type := seL4_FailedLookup,
                  failedLookupWasSource := isSource\<rparr>) s;
            s = s\<lparr>current_lookup_fault := invalid_root\<rparr>
        in Some (failed, s)
      else if depth < 1 \<or> depth > of_nat wordBits then
        Some (failed, set_syscall_error (\<lambda>e. e\<lparr>err_type := seL4_RangeError,
                rangeErrorMin := 1, rangeErrorMax := of_nat wordBits\<rparr>) s)
      else do {
        (res_ret, s) \<leftarrow> resolveAddressBits root capptr depth s;
        if ra_status res_ret \<noteq> EXCEPTION_NONE then
          Some (failed, set_syscall_error (\<lambda>e. e\<lparr>err_type := seL4_FailedLookup,
                  failedLookupWasSource := isSource\<rparr>) s)
        else if bitsRemaining res_ret \<noteq> 0 then
          let s = set_syscall_error (\<lambda>e. e\<lparr>err_type := seL4_FailedLookup,
                    failedLookupWasSource := isSource\<rparr>) s;
              s = s\<lparr>current_lookup_fault := depth_mismatch 0 (bitsRemaining res_ret)\<rparr>
          in Some (failed, s)
        else Some (\<lparr>ls_status = EXCEPTION_NONE, ls_slot = ra_slot res_ret\<rparr>, s)
      })"

definition lookupSourceSlot :: "cap \<Rightarrow> word_t \<Rightarrow> word_t \<Rightarrow> kstate \<Rightarrow> (lookupSlot_ret \<times> kstate) option" where
  "lookupSourceSlot root capptr depth s = lookupSlotForCNodeOp True root capptr depth s"

definition lookupTargetSlot :: "cap \<Rightarrow> word_t \<Rightarrow> word_t \<Rightarrow> kstate \<Rightarrow> (lookupSlot_ret \<times> kstate) option" where
  "lookupTargetSlot root capptr depth s = lookupSlotForCNodeOp False root capptr depth s"

definition lookupPivotSlot :: "cap \<Rightarrow> word_t \<Rightarrow> word_t \<Rightarrow> kstate \<Rightarrow> (lookupSlot_ret \<times> kstate) option" where
  "lookupPivotSlot root capptr depth s = lookupSlotForCNodeOp True root capptr depth s"

section \<open>Addresses as lists of bits\<close>

text \<open>The low \<open>n\<close> bits of a word, most significant first.\<close>

definition to_bits :: "nat \<Rightarrow> word_t \<Rightarrow> bool list" where
  "to_bits n w = map (bit w) (rev [0..<n])"

definition of_bits :: "bool list \<Rightarrow> word_t" where
  "of_bits bs = foldl (\<lambda>v b. 2 * v + of_bool b) 0 bs"

text \<open>
  The specification. A CNode consumes its guard, which the next bits of the address must
  spell, and then as many bits as its radix to choose the slot.
\<close>

datatype resolution =
    Resolved word_t nat
  | Guard_Mismatch word_t nat nat
  | Depth_Mismatch nat nat
  | Invalid_Root
  | No_Progress

function resolve :: "(word_t \<Rightarrow> cap) \<Rightarrow> cap \<Rightarrow> bool list \<Rightarrow> resolution" where
  "resolve caps nodeCap bits =
     (case nodeCap of
        cap_cnode_cap radix gsize guard ptr \<Rightarrow>
          (if length bits < unat gsize \<or> of_bits (take (unat gsize) bits) \<noteq> guard then
             Guard_Mismatch guard (length bits) (unat gsize)
           else if length bits < unat radix + unat gsize then
             Depth_Mismatch (unat radix + unat gsize) (length bits)
           else if unat radix + unat gsize = 0 then No_Progress
           else
             let index = of_bits (take (unat radix) (drop (unat gsize) bits));
                 rest = drop (unat radix + unat gsize) bits;
                 slot = slot_at ptr index
             in if rest = [] \<or> \<not> is_cap_cnode_cap (caps slot) then Resolved slot (length rest)
                else resolve caps (caps slot) rest)
      | _ \<Rightarrow> Invalid_Root)"
  by pat_completeness auto
termination
  by (relation "measure (\<lambda>(caps, nodeCap, bits). length bits)") auto

declare resolve.simps [simp del]

definition resolution_result :: "word_t \<Rightarrow> kstate \<Rightarrow> resolution \<Rightarrow> resolveAddressBits_ret \<times> kstate" where
  "resolution_result n_bits s r =
     (let fault = \<lparr>ra_status = EXCEPTION_LOOKUP_FAULT, ra_slot = 0, bitsRemaining = n_bits\<rparr>
      in case r of
        Resolved slot rest \<Rightarrow>
          (\<lparr>ra_status = EXCEPTION_NONE, ra_slot = slot, bitsRemaining = of_nat rest\<rparr>, s)
      | Guard_Mismatch guard left gsize \<Rightarrow>
          (fault, s\<lparr>current_lookup_fault := guard_mismatch guard (of_nat left) (of_nat gsize)\<rparr>)
      | Depth_Mismatch level left \<Rightarrow>
          (fault, s\<lparr>current_lookup_fault := depth_mismatch (of_nat level) (of_nat left)\<rparr>)
      | Invalid_Root \<Rightarrow> (fault, s\<lparr>current_lookup_fault := invalid_root\<rparr>)
      | No_Progress \<Rightarrow> (fault, s))"

text \<open>
  Every CNode capability resolves at least one bit, and its radix and guard size are values
  of six-bit fields.
\<close>

definition cnode_ok :: "cap \<Rightarrow> bool" where
  "cnode_ok cap = (case cap of
      cap_cnode_cap radix gsize _ _ \<Rightarrow> unat radix < 64 \<and> unat gsize < 64 \<and> 0 < unat radix + unat gsize
    | _ \<Rightarrow> True)"

definition cnodes_ok :: "kstate \<Rightarrow> bool" where
  "cnodes_ok s \<longleftrightarrow> (\<forall>p. cnode_ok (cte_cap (ctes s p)))"

lemma length_to_bits [simp]: "length (to_bits n w) = n"
  by (simp add: to_bits_def)

lemma to_bits_0 [simp]: "to_bits 0 w = []"
  by (simp add: to_bits_def)

lemma to_bits_Suc: "to_bits (Suc n) w = bit w n # to_bits n w"
  by (simp add: to_bits_def)

lemma drop_to_bits: "drop k (to_bits n w) = to_bits (n - k) w"
proof (induction n arbitrary: k)
  case (Suc n)
  then show ?case by (cases k) (simp_all add: to_bits_Suc)
qed simp

lemma take_to_bits: "k \<le> n \<Longrightarrow> take k (to_bits n w) = to_bits k (drop_bit (n - k) w)"
  by (rule nth_equalityI) (auto simp: to_bits_def rev_nth bit_drop_bit_eq algebra_simps)

lemma foldl_bits:
  fixes v :: word_t
  shows "foldl (\<lambda>v b. 2 * v + of_bool b) v bs = v * 2 ^ length bs + of_bits bs"
proof (induction bs arbitrary: v)
  case (Cons b bs)
  show ?case
    using Cons [of "2 * v + of_bool b"] Cons [of "of_bool b"]
    by (simp add: of_bits_def algebra_simps)
qed (simp add: of_bits_def)

lemma of_bits_Cons: "of_bits (b # bs) = of_bool b * 2 ^ length bs + of_bits bs"
  using foldl_bits [of "of_bool b" bs] by (simp add: of_bits_def)

lemma take_bit_Suc_word:
  fixes w :: word_t
  shows "take_bit (Suc n) w = of_bool (bit w n) * 2 ^ n + take_bit n w"
proof -
  have "push_bit n (of_bool (bit w n)) AND take_bit n w = 0"
    by (rule bit_word_eqI) (simp add: bit_simps)
  then have "push_bit n (of_bool (bit w n)) + take_bit n w = push_bit n (of_bool (bit w n)) OR take_bit n w"
    by (rule disjunctive_add_eq_or)
  also have "\<dots> = take_bit (Suc n) w"
    by (rule bit_word_eqI) (auto simp: bit_simps less_Suc_eq)
  finally show ?thesis by (simp add: push_bit_eq_mult)
qed

lemma to_bits_eq_Nil [simp]: "to_bits n w = [] \<longleftrightarrow> n = 0"
  by (metis length_0_conv length_to_bits)

lemma of_bits_to_bits: "of_bits (to_bits n w) = w AND MASK n"
proof -
  have "of_bits (to_bits n w) = take_bit n w"
  proof (induction n)
    case (Suc n)
    then show ?case by (simp add: to_bits_Suc of_bits_Cons take_bit_Suc_word)
  qed (simp add: of_bits_def)
  then show ?thesis by (simp add: MASK_eq_mask take_bit_eq_mask)
qed

lemma guard_shift:
  assumes "unat n \<le> 64" and "unat g < 64" and "unat g \<le> unat n"
  shows "drop_bit (unat ((n - g) AND MASK wordRadix)) w AND MASK (unat g) =
    of_bits (take (unat g) (to_bits (unat n) w))"
proof (cases "unat g = 0")
  case True
  have "w AND MASK 0 = 0" for w by (simp add: MASK_def BIT_def)
  with True show ?thesis by (simp add: of_bits_def)
next
  case False
  have sub: "unat (n - g) = unat n - unat g" using assms(3) by (rule unat_sub_no_underflow)
  then have "unat ((n - g) AND MASK wordRadix) = unat n - unat g"
    using False assms by (simp add: unat_and_MASK)
  then show ?thesis using assms(3) by (simp add: take_to_bits of_bits_to_bits)
qed

lemma resolveAddressBits_loop_resolve:
  assumes "cnodes_ok s" and "is_cap_cnode_cap nodeCap" and "cnode_ok nodeCap" and "unat n \<le> 64"
  shows "resolveAddressBits_loop n0 nodeCap capptr n s =
    Some (resolution_result n0 s (resolve (\<lambda>p. cte_cap (ctes s p)) nodeCap (to_bits (unat n) capptr)))"
  using assms(2-4)
proof (induction "unat n" arbitrary: n nodeCap rule: less_induct)
  case less
  obtain r g guard ptr where cap: "nodeCap = cap_cnode_cap r g guard ptr"
    using less.prems(1) by (auto simp: disc_defs)
  have ok: "unat r < 64" "unat g < 64" "0 < unat r + unat g"
    using less.prems(2) by (simp_all add: cap cnode_ok_def)
  have lvl: "unat (r + g) = unat r + unat g"
    using ok by (intro unat_add_no_overflow) simp
  let ?caps = "\<lambda>p. cte_cap (ctes s p)" and ?bits = "to_bits (unat n) capptr"
  let ?guard = "drop_bit (unat ((n - g) AND MASK wordRadix)) capptr AND MASK (unat g)"
  note loop = resolveAddressBits_loop.simps [of n0 nodeCap capptr n s]
  note spec = resolve.simps [of ?caps nodeCap ?bits]
  have guard_iff: "g > n \<or> ?guard \<noteq> guard \<longleftrightarrow> unat n < unat g \<or> of_bits (take (unat g) ?bits) \<noteq> guard"
    using guard_shift [OF less.prems(3) ok(2), of capptr] by (auto simp: word_less_nat_alt not_less)
  have depth_iff: "r + g > n \<longleftrightarrow> unat n < unat r + unat g"
    by (simp add: word_less_nat_alt lvl)
  show ?case
  proof (cases "unat n < unat g \<or> of_bits (take (unat g) ?bits) \<noteq> guard")
    case True
    then have "g > n \<or> ?guard \<noteq> guard" using guard_iff by blast
    with True show ?thesis
      by (subst loop, subst spec) (simp add: cap resolution_result_def Let_def)
  next
    case match: False
    then have nomis: "\<not> (g > n \<or> ?guard \<noteq> guard)" using guard_iff by blast
    show ?thesis
    proof (cases "unat n < unat r + unat g")
      case True
      with match nomis depth_iff show ?thesis
        by (subst loop, subst spec) (simp add: cap resolution_result_def Let_def)
    next
      case deep: False
      define m where "m = n - (r + g)"
      define slot where "slot = slot_at ptr (drop_bit (unat m) capptr AND MASK (unat r))"
      have m: "unat m = unat n - (unat r + unat g)"
        using deep unat_sub_no_underflow [of "r + g" n] by (simp add: m_def lvl)
      have index: "of_bits (take (unat r) (drop (unat g) ?bits)) =
          drop_bit (unat m) capptr AND MASK (unat r)"
        using deep by (simp add: drop_to_bits take_to_bits of_bits_to_bits m algebra_simps)
      have rest: "drop (unat r + unat g) ?bits = to_bits (unat m) capptr"
        by (simp add: drop_to_bits m)
      have last: "n = r + g \<longleftrightarrow> unat m = 0"
        using deep m lvl by (auto simp: word_unat_eq_iff)
      have L: "resolveAddressBits_loop n0 nodeCap capptr n s =
        (if n = r + g then Some (\<lparr>ra_status = EXCEPTION_NONE, ra_slot = slot, bitsRemaining = 0\<rparr>, s)
         else if \<not> is_cap_cnode_cap (?caps slot) then
           Some (\<lparr>ra_status = EXCEPTION_NONE, ra_slot = slot, bitsRemaining = m\<rparr>, s)
         else resolveAddressBits_loop n0 (?caps slot) capptr m s)"
        using nomis deep depth_iff
        by (subst loop) (simp add: cap Let_def m_def slot_def)
      have R: "resolve ?caps nodeCap ?bits =
        (if unat m = 0 \<or> \<not> is_cap_cnode_cap (?caps slot)
         then Resolved slot (unat m) else resolve ?caps (?caps slot) (to_bits (unat m) capptr))"
        using match deep ok(3)
        by (subst spec) (auto simp: cap Let_def index rest slot_def)
      have less_m: "unat m < unat n" and le_m: "unat m \<le> 64"
        using deep ok(3) m less.prems(3) by linarith+
      have IH: "is_cap_cnode_cap (?caps slot) \<Longrightarrow> resolveAddressBits_loop n0 (?caps slot) capptr m s =
        Some (resolution_result n0 s (resolve ?caps (?caps slot) (to_bits (unat m) capptr)))"
        using less.hyps [OF less_m] le_m assms(1) by (simp add: cnodes_ok_def)
      show ?thesis
        unfolding L R using last IH by (simp add: resolution_result_def)
    qed
  qed
qed

lemma resolveAddressBits_resolve:
  assumes "cnodes_ok s" and "cnode_ok nodeCap" and "unat n \<le> 64"
  shows "resolveAddressBits nodeCap capptr n s =
    Some (resolution_result n s (resolve (\<lambda>p. cte_cap (ctes s p)) nodeCap (to_bits (unat n) capptr)))"
proof (cases "is_cap_cnode_cap nodeCap")
  case True
  then show ?thesis
    using resolveAddressBits_loop_resolve [OF assms(1) True assms(2,3)]
    by (simp add: resolveAddressBits_def)
next
  case False
  then show ?thesis
    by (cases nodeCap) (simp_all add: resolveAddressBits_def resolution_result_def resolve.simps)
qed

lemma resolve_cnode:
  "resolve caps (cap_cnode_cap r g guard ptr) bits =
     (if length bits < unat g \<or> of_bits (take (unat g) bits) \<noteq> guard then
        Guard_Mismatch guard (length bits) (unat g)
      else if length bits < unat r + unat g then Depth_Mismatch (unat r + unat g) (length bits)
      else if unat r + unat g = 0 then No_Progress
      else
        let slot = slot_at ptr (of_bits (take (unat r) (drop (unat g) bits)));
            rest = drop (unat r + unat g) bits
        in if rest = [] \<or> \<not> is_cap_cnode_cap (caps slot) then Resolved slot (length rest)
           else resolve caps (caps slot) rest)"
  by (subst resolve.simps) (simp add: Let_def)

lemma resolve_no_cnode: "\<not> is_cap_cnode_cap c \<Longrightarrow> resolve caps c bits = Invalid_Root"
  by (cases c) (simp_all add: resolve.simps)

lemma resolve_progress:
  assumes ok: "\<And>p. cnode_ok (caps p)" and "cnode_ok nodeCap"
  shows "resolve caps nodeCap bits \<noteq> No_Progress"
  using assms(2)
proof (induction "length bits" arbitrary: nodeCap bits rule: less_induct)
  case less
  show ?case
  proof (cases "is_cap_cnode_cap nodeCap")
    case True
    then obtain r g guard ptr where cap: "nodeCap = cap_cnode_cap r g guard ptr" by (auto simp: disc_defs)
    have pos: "unat r + unat g \<noteq> 0" using less.prems by (simp add: cap cnode_ok_def)
    define slot where "slot = slot_at ptr (of_bits (take (unat r) (drop (unat g) bits)))"
    define rest where "rest = drop (unat r + unat g) bits"
    have "length rest < length bits" if "rest \<noteq> []"
      using that pos by (simp add: rest_def) linarith
    then have "rest \<noteq> [] \<Longrightarrow> resolve caps (caps slot) rest \<noteq> No_Progress"
      using less.hyps ok by blast
    with pos show ?thesis
      unfolding cap resolve_cnode slot_def [symmetric] rest_def [symmetric] by (auto simp: Let_def)
  qed (simp add: resolve_no_cnode)
qed

lemma resolve_rest_less:
  "resolve caps nodeCap bits = Resolved slot k \<Longrightarrow> k < length bits"
proof (induction "length bits" arbitrary: nodeCap bits rule: less_induct)
  case less
  show ?case
  proof (cases "is_cap_cnode_cap nodeCap")
    case True
    then obtain r g guard ptr where cap: "nodeCap = cap_cnode_cap r g guard ptr" by (auto simp: disc_defs)
    define slot' where "slot' = slot_at ptr (of_bits (take (unat r) (drop (unat g) bits)))"
    define rest where "rest = drop (unat r + unat g) bits"
    have shorter: "length rest < length bits" if "\<not> length bits < unat r + unat g" "unat r + unat g \<noteq> 0"
      using that by (simp add: rest_def) linarith
    have "\<not> length bits < unat r + unat g" "unat r + unat g \<noteq> 0"
      and "k = length rest \<or> resolve caps (caps slot') rest = Resolved slot k"
      using less.prems
      unfolding cap resolve_cnode slot'_def [symmetric] rest_def [symmetric]
      by (simp_all add: Let_def split: if_splits)
    with shorter less.hyps [of rest] show ?thesis by fastforce
  qed (use less.prems in \<open>simp add: resolve_no_cnode\<close>)
qed

section \<open>Properties\<close>

text \<open>
  C37: \<open>resolveAddressBits\<close> returns for every address of at most 64 bits, in every capability
  space whose CNodes resolve at least one bit, and its result, slot, bits remaining and
  lookup fault are those of the bit-list specification \<open>resolve\<close>; only
  \<open>current_lookup_fault\<close> changes.
\<close>

theorem resolveAddressBits_refines:
  assumes "cnodes_ok s" and "cnode_ok nodeCap" and "unat n_bits \<le> 64"
  shows "resolveAddressBits nodeCap capptr n_bits s =
      Some (resolution_result n_bits s
        (resolve (\<lambda>p. cte_cap (ctes s p)) nodeCap (to_bits (unat n_bits) capptr))) \<and>
    resolve (\<lambda>p. cte_cap (ctes s p)) nodeCap (to_bits (unat n_bits) capptr) \<noteq> No_Progress"
  using resolveAddressBits_resolve [OF assms] resolve_progress [of "\<lambda>p. cte_cap (ctes s p)" nodeCap]
    assms by (simp add: cnodes_ok_def)

text \<open>
  A capability space of two levels: a root CNode of radix 4 without guard whose slot 3 holds
  a CNode of radix 8 with guard \<open>0xA\<close> of four bits.
\<close>

definition inner_cnode :: cap where
  "inner_cnode = cap_cnode_cap 8 4 0xA 0x20000"

definition root_cnode :: cap where
  "root_cnode = cap_cnode_cap 4 0 0 0x10000"

definition two_level_ctes :: "word_t \<Rightarrow> cte" where
  "two_level_ctes p =
     (if p = slot_at 0x10000 3 then \<lparr>cte_cap = inner_cnode, cteMDBNode = nullMDBNode\<rparr>
      else \<lparr>cte_cap = cap_null_cap, cteMDBNode = nullMDBNode\<rparr>)"

lemma two_level_ok:
  "ctes s = two_level_ctes \<Longrightarrow> cnodes_ok s" "cnode_ok root_cnode"
  by (simp_all add: cnodes_ok_def cnode_ok_def two_level_ctes_def inner_cnode_def root_cnode_def)

lemma two_level_resolve:
  "resolve (\<lambda>p. cte_cap (two_level_ctes p)) root_cnode (to_bits 16 0x3A42) = Resolved (slot_at 0x20000 0x42) 0"
  by code_simp

theorem resolveAddressBits_refines_witness:
  "\<forall>s. resolveAddressBits root_cnode 0x3A42 16 (s\<lparr>ctes := two_level_ctes\<rparr>) =
     Some (\<lparr>ra_status = EXCEPTION_NONE, ra_slot = slot_at 0x20000 0x42, bitsRemaining = 0\<rparr>,
           s\<lparr>ctes := two_level_ctes\<rparr>)"
proof
  fix s :: kstate
  let ?s = "s\<lparr>ctes := two_level_ctes\<rparr>"
  have ok: "cnodes_ok ?s" by (rule two_level_ok) simp
  have "unat (16 :: word_t) \<le> 64" by simp
  then show "resolveAddressBits root_cnode 0x3A42 16 ?s =
     Some (\<lparr>ra_status = EXCEPTION_NONE, ra_slot = slot_at 0x20000 0x42, bitsRemaining = 0\<rparr>, ?s)"
    using resolveAddressBits_refines [OF ok two_level_ok(2), of 16 "0x3A42"] two_level_resolve
    by (simp add: resolution_result_def)
qed

text \<open>
  C38: The slot lookup of CNode operations succeeds exactly when the root is a CNode, the depth is
  between 1 and 64 and the address resolves to a slot with no bits left, and then the
  state is unchanged; in every other case it returns, reports a syscall error with the
  error type of that case and changes nothing but the error registers.
\<close>

theorem lookupSlotForCNodeOp_correct:
  fixes s root capptr depth
  defines "res \<equiv> resolve (\<lambda>p. cte_cap (ctes s p)) root (to_bits (unat depth) capptr)"
    and "in_range \<equiv> is_cap_cnode_cap root \<and> 1 \<le> unat depth \<and> unat depth \<le> 64"
  assumes "cnodes_ok s" and "cnode_ok root"
  shows "(in_range \<and> res = Resolved slot 0 \<longrightarrow>
      lookupSlotForCNodeOp isSource root capptr depth s =
        Some (\<lparr>ls_status = EXCEPTION_NONE, ls_slot = slot\<rparr>, s)) \<and>
    (\<not> (in_range \<and> (\<exists>slot. res = Resolved slot 0)) \<longrightarrow>
      (\<exists>s'. lookupSlotForCNodeOp isSource root capptr depth s =
        Some (\<lparr>ls_status = EXCEPTION_SYSCALL_ERROR, ls_slot = 0\<rparr>, s') \<and>
        err_type (current_syscall_error s') =
          (if is_cap_cnode_cap root \<and> \<not> in_range then seL4_RangeError else seL4_FailedLookup) \<and>
        s'\<lparr>current_syscall_error := current_syscall_error s,
           current_lookup_fault := current_lookup_fault s\<rparr> = s))"
proof (cases in_range)
  case False
  have range: "depth < 1 \<or> depth > of_nat wordBits \<longleftrightarrow> unat depth < 1 \<or> 64 < unat depth"
    by (simp add: word_less_nat_alt)
  show ?thesis
  proof (cases "is_cap_cnode_cap root")
    case True
    with False range have "depth < 1 \<or> depth > of_nat wordBits"
      unfolding in_range_def by linarith
    with True False show ?thesis
      by (simp add: lookupSlotForCNodeOp_def set_syscall_error_def)
  next
    case no_cnode: False
    with False show ?thesis
      by (simp add: lookupSlotForCNodeOp_def set_syscall_error_def Let_def)
  qed
next
  case True
  then have range: "depth \<noteq> 0" "\<not> 64 < depth" "is_cap_cnode_cap root"
    by (auto simp: in_range_def word_less_nat_alt)
  have step: "resolveAddressBits root capptr depth s = Some (resolution_result depth s res)"
    and prog: "res \<noteq> No_Progress"
    using resolveAddressBits_resolve [OF assms(3,4)]
      resolve_progress [of "\<lambda>p. cte_cap (ctes s p)" root] assms(3,4) True
    by (simp_all add: cnodes_ok_def res_def in_range_def)
  have small: "res = Resolved slot k \<Longrightarrow> (of_nat k :: word_t) = 0 \<longleftrightarrow> k = 0" for slot k
  proof -
    assume "res = Resolved slot k"
    then have "k < 64" using resolve_rest_less True by (fastforce simp: res_def in_range_def)
    then show ?thesis by (simp add: word_unat_eq_iff unat_of_nat)
  qed
  note simps = lookupSlotForCNodeOp_def set_syscall_error_def resolution_result_def range step Let_def
  show ?thesis
  proof (cases res)
    case (Resolved slot' k)
    then show ?thesis
      using small [OF Resolved] True
      by (cases "k = 0") (simp_all add: simps)
  next
    case (Guard_Mismatch g l sz)
    then show ?thesis using True by (simp add: simps)
  next
    case (Depth_Mismatch l n)
    then show ?thesis using True by (simp add: simps)
  next
    case Invalid_Root
    then show ?thesis using True by (simp add: simps)
  next
    case No_Progress
    with prog show ?thesis by simp
  qed
qed

theorem lookupSlotForCNodeOp_correct_witness:
  "\<forall>s. lookupSlotForCNodeOp True root_cnode 0x3A42 16 (s\<lparr>ctes := two_level_ctes\<rparr>) =
     Some (\<lparr>ls_status = EXCEPTION_NONE, ls_slot = slot_at 0x20000 0x42\<rparr>, s\<lparr>ctes := two_level_ctes\<rparr>)"
proof
  fix s :: kstate
  let ?s = "s\<lparr>ctes := two_level_ctes\<rparr>"
  have ok: "cnodes_ok ?s" by (rule two_level_ok) simp
  have "is_cap_cnode_cap root_cnode" by (simp add: root_cnode_def)
  then show "lookupSlotForCNodeOp True root_cnode 0x3A42 16 ?s =
     Some (\<lparr>ls_status = EXCEPTION_NONE, ls_slot = slot_at 0x20000 0x42\<rparr>, ?s)"
    using lookupSlotForCNodeOp_correct [OF ok two_level_ok(2), of 16 "0x3A42" "slot_at 0x20000 0x42" True]
      two_level_resolve by simp
qed

end
