(* ===== verification/SchedQueues.thy ===== *)
theory SchedQueues
  imports Structures Links Util Sporadic "HOL-Library.Monad_Syntax"
begin

text \<open>
  The scheduler's queues: the doubly linked queues of \<^verbatim>\<open>include/object/tcb.h\<close> and
  \<^verbatim>\<open>src/object/tcb.c\<close>, the two-level priority bitmap of \<^verbatim>\<open>include/kernel/thread.h\<close>, the ready
  queues per domain and priority, the release queue ordered by time and the endpoint
  queues ordered by priority. Each queue is refined to a list of threads.
\<close>

section \<open>Thread predicates\<close>

definition isRunnable :: "tcb \<Rightarrow> bool" where
  "isRunnable thread = (case ts_type (tcbState thread) of
      ThreadState_Running \<Rightarrow> True
    | ThreadState_Restart \<Rightarrow> True
    | _ \<Rightarrow> False)"

definition isBlocked :: "tcb \<Rightarrow> bool" where
  "isBlocked thread = (case ts_type (tcbState thread) of
      ThreadState_BlockedOnReceive \<Rightarrow> True
    | ThreadState_BlockedOnSend \<Rightarrow> True
    | ThreadState_BlockedOnNotification \<Rightarrow> True
    | ThreadState_BlockedOnReply \<Rightarrow> True
    | _ \<Rightarrow> False)"

definition isStopped :: "tcb \<Rightarrow> bool" where
  "isStopped thread = (case ts_type (tcbState thread) of
      ThreadState_Inactive \<Rightarrow> True
    | ThreadState_BlockedOnReceive \<Rightarrow> True
    | ThreadState_BlockedOnSend \<Rightarrow> True
    | ThreadState_BlockedOnNotification \<Rightarrow> True
    | ThreadState_BlockedOnReply \<Rightarrow> True
    | _ \<Rightarrow> False)"

definition isSchedulable :: "word_t \<Rightarrow> kstate \<Rightarrow> bool" where
  "isSchedulable thread s =
     (isRunnable (tcbs s thread) \<and> tcbSchedContext (tcbs s thread) \<noteq> 0 \<and>
      sc_active (scs s (tcbSchedContext (tcbs s thread))) \<and>
      \<not> tcbInReleaseQueue (tcbState (tcbs s thread)))"

section \<open>Assignments to fields of a TCB\<close>

definition set_tcbSchedNext :: "word_t \<Rightarrow> word_t \<Rightarrow> kstate \<Rightarrow> kstate" where
  "set_tcbSchedNext p v = upd_tcb p (\<lambda>t. t\<lparr>tcbSchedNext := v\<rparr>)"

definition set_tcbSchedPrev :: "word_t \<Rightarrow> word_t \<Rightarrow> kstate \<Rightarrow> kstate" where
  "set_tcbSchedPrev p v = upd_tcb p (\<lambda>t. t\<lparr>tcbSchedPrev := v\<rparr>)"

definition set_tcbEPNext :: "word_t \<Rightarrow> word_t \<Rightarrow> kstate \<Rightarrow> kstate" where
  "set_tcbEPNext p v = upd_tcb p (\<lambda>t. t\<lparr>tcbEPNext := v\<rparr>)"

definition set_tcbEPPrev :: "word_t \<Rightarrow> word_t \<Rightarrow> kstate \<Rightarrow> kstate" where
  "set_tcbEPPrev p v = upd_tcb p (\<lambda>t. t\<lparr>tcbEPPrev := v\<rparr>)"

definition set_tcbState :: "word_t \<Rightarrow> (thread_state \<Rightarrow> thread_state) \<Rightarrow> kstate \<Rightarrow> kstate" where
  "set_tcbState p f = upd_tcb p (\<lambda>t. t\<lparr>tcbState := f (tcbState t)\<rparr>)"

lemmas set_tcb_defs = set_tcbSchedNext_def set_tcbSchedPrev_def set_tcbEPNext_def
  set_tcbEPPrev_def set_tcbState_def

lemma set_tcb_other:
  "p \<noteq> q \<Longrightarrow> tcbs (set_tcbSchedNext q v s) p = tcbs s p"
  "p \<noteq> q \<Longrightarrow> tcbs (set_tcbSchedPrev q v s) p = tcbs s p"
  "p \<noteq> q \<Longrightarrow> tcbs (set_tcbEPNext q v s) p = tcbs s p"
  "p \<noteq> q \<Longrightarrow> tcbs (set_tcbEPPrev q v s) p = tcbs s p"
  "p \<noteq> q \<Longrightarrow> tcbs (set_tcbState q f s) p = tcbs s p"
  by (simp_all add: set_tcb_defs upd_defs)

section \<open>Queues linked through the scheduler fields\<close>

definition tcb_queue_empty :: "tcb_queue \<Rightarrow> bool" where
  "tcb_queue_empty queue \<longleftrightarrow> tcbq_head queue = 0"

definition tcb_queue_prepend :: "tcb_queue \<Rightarrow> word_t \<Rightarrow> kstate \<Rightarrow> tcb_queue \<times> kstate" where
  "tcb_queue_prepend queue tcb s =
     (let (queue, s) =
        (if tcb_queue_empty queue then (queue\<lparr>tcbq_end := tcb\<rparr>, s)
         else
           let s = set_tcbSchedNext tcb (tcbq_head queue) s;
               s = set_tcbSchedPrev (tcbq_head queue) tcb s
           in (queue, s))
      in (queue\<lparr>tcbq_head := tcb\<rparr>, s))"

definition tcb_queue_append :: "tcb_queue \<Rightarrow> word_t \<Rightarrow> kstate \<Rightarrow> tcb_queue \<times> kstate" where
  "tcb_queue_append queue tcb s =
     (let (queue, s) =
        (if tcb_queue_empty queue then (queue\<lparr>tcbq_head := tcb\<rparr>, s)
         else
           let s = set_tcbSchedPrev tcb (tcbq_end queue) s;
               s = set_tcbSchedNext (tcbq_end queue) tcb s
           in (queue, s))
      in (queue\<lparr>tcbq_end := tcb\<rparr>, s))"

definition tcb_queue_insert :: "word_t \<Rightarrow> word_t \<Rightarrow> kstate \<Rightarrow> kstate" where
  "tcb_queue_insert tcb after s =
     (let before = tcbSchedPrev (tcbs s after);
          s = set_tcbSchedPrev tcb before s;
          s = set_tcbSchedNext tcb after s;
          s = set_tcbSchedPrev after tcb s
      in set_tcbSchedNext before tcb s)"

definition tcb_queue_remove :: "tcb_queue \<Rightarrow> word_t \<Rightarrow> kstate \<Rightarrow> tcb_queue \<times> kstate" where
  "tcb_queue_remove queue tcb s =
     (let before = tcbSchedPrev (tcbs s tcb);
          after = tcbSchedNext (tcbs s tcb)
      in if tcbq_head queue = tcb \<and> tcbq_end queue = tcb then
           (queue\<lparr>tcbq_head := 0, tcbq_end := 0\<rparr>, s)
         else if tcbq_head queue = tcb then
           let s = set_tcbSchedPrev after 0 s;
               s = set_tcbSchedNext tcb 0 s
           in (queue\<lparr>tcbq_head := after\<rparr>, s)
         else if tcbq_end queue = tcb then
           let s = set_tcbSchedNext before 0 s;
               s = set_tcbSchedPrev tcb 0 s
           in (queue\<lparr>tcbq_end := before\<rparr>, s)
         else
           let s = set_tcbSchedNext before after s;
               s = set_tcbSchedPrev after before s;
               s = set_tcbSchedPrev tcb 0 s;
               s = set_tcbSchedNext tcb 0 s
           in (queue, s))"

section \<open>The priority bitmap\<close>

definition CONFIG_NUM_DOMAINS :: word_t where "CONFIG_NUM_DOMAINS = 16"
definition CONFIG_NUM_PRIORITIES :: word_t where "CONFIG_NUM_PRIORITIES = 256"
definition L2_BITMAP_SIZE :: word_t where
  "L2_BITMAP_SIZE = (CONFIG_NUM_PRIORITIES + of_nat wordBits - 1) div of_nat wordBits"

definition ready_queues_index :: "word_t \<Rightarrow> word_t \<Rightarrow> word_t" where
  "ready_queues_index domain prio =
     (if CONFIG_NUM_DOMAINS > 1 then domain * CONFIG_NUM_PRIORITIES + prio else prio)"

definition prio_to_l1index :: "word_t \<Rightarrow> word_t" where
  "prio_to_l1index prio = drop_bit wordRadix prio"

definition l1index_to_prio :: "word_t \<Rightarrow> word_t" where
  "l1index_to_prio l1index = push_bit wordRadix l1index"

definition invert_l1index :: "word_t \<Rightarrow> word_t" where
  "invert_l1index l1index = L2_BITMAP_SIZE - 1 - l1index"

definition addToBitmap :: "word_t \<Rightarrow> word_t \<Rightarrow> kstate \<Rightarrow> kstate" where
  "addToBitmap domain prio s =
     (let l1index = prio_to_l1index prio;
          l1index_inverted = invert_l1index l1index;
          l1 = ksReadyQueuesL1Bitmap s domain OR BIT (unat l1index);
          s = s\<lparr>ksReadyQueuesL1Bitmap := (ksReadyQueuesL1Bitmap s)(domain := l1)\<rparr>;
          l2 = ksReadyQueuesL2Bitmap s domain l1index_inverted OR BIT (unat (prio AND MASK wordRadix))
      in s\<lparr>ksReadyQueuesL2Bitmap := (ksReadyQueuesL2Bitmap s)
            (domain := (ksReadyQueuesL2Bitmap s domain)(l1index_inverted := l2))\<rparr>)"

definition removeFromBitmap :: "word_t \<Rightarrow> word_t \<Rightarrow> kstate \<Rightarrow> kstate" where
  "removeFromBitmap domain prio s =
     (let l1index = prio_to_l1index prio;
          l1index_inverted = invert_l1index l1index;
          l2 = ksReadyQueuesL2Bitmap s domain l1index_inverted AND NOT (BIT (unat (prio AND MASK wordRadix)));
          s = s\<lparr>ksReadyQueuesL2Bitmap := (ksReadyQueuesL2Bitmap s)
                (domain := (ksReadyQueuesL2Bitmap s domain)(l1index_inverted := l2))\<rparr>
      in if ksReadyQueuesL2Bitmap s domain l1index_inverted = 0 then
           s\<lparr>ksReadyQueuesL1Bitmap := (ksReadyQueuesL1Bitmap s)
              (domain := ksReadyQueuesL1Bitmap s domain AND NOT (BIT (unat l1index)))\<rparr>
         else s)"

definition getHighestPrio :: "word_t \<Rightarrow> kstate \<Rightarrow> word_t" where
  "getHighestPrio domain s =
     (let l1index = of_nat wordBits - 1 - clzl (ksReadyQueuesL1Bitmap s domain);
          l1index_inverted = invert_l1index l1index;
          l2index = of_nat wordBits - 1 - clzl (ksReadyQueuesL2Bitmap s domain l1index_inverted)
      in l1index_to_prio l1index OR l2index)"

definition isHighestPrio :: "word_t \<Rightarrow> word_t \<Rightarrow> kstate \<Rightarrow> bool" where
  "isHighestPrio domain prio s \<longleftrightarrow> ksReadyQueuesL1Bitmap s domain = 0 \<or> prio \<ge> getHighestPrio domain s"

section \<open>Ready queues\<close>

definition tcbSchedEnqueue :: "word_t \<Rightarrow> kstate \<Rightarrow> kstate" where
  "tcbSchedEnqueue tcb s =
     (if \<not> tcbQueued (tcbState (tcbs s tcb)) then
        let domain = tcbDomain (tcbs s tcb);
            prio = tcbPriority (tcbs s tcb);
            idx = ready_queues_index domain prio;
            queue = ksReadyQueues s idx;
            s = (if tcb_queue_empty queue then addToBitmap domain prio s else s);
            (queue, s) = tcb_queue_prepend queue tcb s;
            s = s\<lparr>ksReadyQueues := (ksReadyQueues s)(idx := queue)\<rparr>
        in set_tcbState tcb (\<lambda>ts. ts\<lparr>tcbQueued := True\<rparr>) s
      else s)"

definition tcbSchedAppend :: "word_t \<Rightarrow> kstate \<Rightarrow> kstate" where
  "tcbSchedAppend tcb s =
     (if \<not> tcbQueued (tcbState (tcbs s tcb)) then
        let domain = tcbDomain (tcbs s tcb);
            prio = tcbPriority (tcbs s tcb);
            idx = ready_queues_index domain prio;
            queue = ksReadyQueues s idx;
            s = (if tcb_queue_empty queue then addToBitmap domain prio s else s);
            (queue, s) = tcb_queue_append queue tcb s;
            s = s\<lparr>ksReadyQueues := (ksReadyQueues s)(idx := queue)\<rparr>
        in set_tcbState tcb (\<lambda>ts. ts\<lparr>tcbQueued := True\<rparr>) s
      else s)"

definition tcbSchedDequeue :: "word_t \<Rightarrow> kstate \<Rightarrow> kstate" where
  "tcbSchedDequeue tcb s =
     (if tcbQueued (tcbState (tcbs s tcb)) then
        let domain = tcbDomain (tcbs s tcb);
            prio = tcbPriority (tcbs s tcb);
            idx = ready_queues_index domain prio;
            queue = ksReadyQueues s idx;
            (new_queue, s) = tcb_queue_remove queue tcb s;
            s = s\<lparr>ksReadyQueues := (ksReadyQueues s)(idx := new_queue)\<rparr>;
            s = set_tcbState tcb (\<lambda>ts. ts\<lparr>tcbQueued := False\<rparr>) s
        in if tcb_queue_empty new_queue then removeFromBitmap domain prio s else s
      else s)"

section \<open>The release queue\<close>

definition tcbReadyTime :: "kstate \<Rightarrow> word_t \<Rightarrow> ticks_t" where
  "tcbReadyTime s tcb = rTime (refill_head (scs s (tcbSchedContext (tcbs s tcb))))"

definition time_after :: "kstate \<Rightarrow> word_t \<Rightarrow> ticks_t \<Rightarrow> bool" where
  "time_after s tcb new_time \<longleftrightarrow> tcb \<noteq> 0 \<and> new_time \<ge> tcbReadyTime s tcb"

definition find_time_after :: "kstate \<Rightarrow> word_t \<Rightarrow> ticks_t \<Rightarrow> word_t option" where
  "find_time_after s tcb new_time =
     while_option (\<lambda>after. time_after s after new_time) (\<lambda>after. tcbSchedNext (tcbs s after)) tcb"

definition tcbReleaseRemove :: "word_t \<Rightarrow> kstate \<Rightarrow> kstate" where
  "tcbReleaseRemove tcb s =
     (if tcbInReleaseQueue (tcbState (tcbs s tcb)) then
        let queue = ksReleaseQueue s;
            s = (if tcbq_head queue = tcb then s\<lparr>ksReprogram := True\<rparr> else s);
            (queue, s) = tcb_queue_remove queue tcb s;
            s = s\<lparr>ksReleaseQueue := queue\<rparr>
        in set_tcbState tcb (\<lambda>ts. ts\<lparr>tcbInReleaseQueue := False\<rparr>) s
      else s)"

definition tcbReleaseEnqueue :: "word_t \<Rightarrow> kstate \<Rightarrow> kstate option" where
  "tcbReleaseEnqueue tcb s =
     (let new_time = tcbReadyTime s tcb;
          queue = ksReleaseQueue s
      in do {
        s \<leftarrow> (if tcb_queue_empty queue \<or> new_time < tcbReadyTime s (tcbq_head queue) then
                let (queue, s) = tcb_queue_prepend queue tcb s
                in Some (s\<lparr>ksReleaseQueue := queue, ksReprogram := True\<rparr>)
              else if tcbReadyTime s (tcbq_end queue) \<le> new_time then
                let (queue, s) = tcb_queue_append queue tcb s
                in Some (s\<lparr>ksReleaseQueue := queue\<rparr>)
              else do {
                after \<leftarrow> find_time_after s (tcbq_head queue) new_time;
                Some (tcb_queue_insert tcb after s)
              });
        Some (set_tcbState tcb (\<lambda>ts. ts\<lparr>tcbInReleaseQueue := True\<rparr>) s)
      })"

section \<open>Endpoint queues\<close>

definition ep_insert_point :: "kstate \<Rightarrow> word_t \<Rightarrow> word_t \<Rightarrow> (word_t \<times> word_t) option" where
  "ep_insert_point s tcb end =
     while_option (\<lambda>(before, after). before \<noteq> 0 \<and> tcbPriority (tcbs s tcb) > tcbPriority (tcbs s before))
       (\<lambda>(before, after). (tcbEPPrev (tcbs s before), before)) (end, 0)"

definition tcbEPAppend :: "word_t \<Rightarrow> tcb_queue \<Rightarrow> kstate \<Rightarrow> (tcb_queue \<times> kstate) option" where
  "tcbEPAppend tcb queue s = do {
     (before, after) \<leftarrow> ep_insert_point s tcb (tcbq_end queue);
     let (queue, s) = (if before = 0 then (queue\<lparr>tcbq_head := tcb\<rparr>, s)
                       else (queue, set_tcbEPNext before tcb s));
     let (queue, s) = (if after = 0 then (queue\<lparr>tcbq_end := tcb\<rparr>, s)
                       else (queue, set_tcbEPPrev after tcb s));
     let s = set_tcbEPNext tcb after s;
     let s = set_tcbEPPrev tcb before s;
     Some (queue, s)
   }"

definition tcbEPDequeue :: "word_t \<Rightarrow> tcb_queue \<Rightarrow> kstate \<Rightarrow> tcb_queue \<times> kstate" where
  "tcbEPDequeue tcb queue s =
     (let (queue, s) =
        (if tcbEPPrev (tcbs s tcb) \<noteq> 0
         then (queue, set_tcbEPNext (tcbEPPrev (tcbs s tcb)) (tcbEPNext (tcbs s tcb)) s)
         else (queue\<lparr>tcbq_head := tcbEPNext (tcbs s tcb)\<rparr>, s))
      in if tcbEPNext (tcbs s tcb) \<noteq> 0
         then (queue, set_tcbEPPrev (tcbEPNext (tcbs s tcb)) (tcbEPPrev (tcbs s tcb)) s)
         else (queue\<lparr>tcbq_end := tcbEPPrev (tcbs s tcb)\<rparr>, s))"

section \<open>Queues as lists\<close>

abbreviation sNext :: "kstate \<Rightarrow> word_t \<Rightarrow> word_t" where
  "sNext s \<equiv> \<lambda>p. tcbSchedNext (tcbs s p)"

abbreviation sPrev :: "kstate \<Rightarrow> word_t \<Rightarrow> word_t" where
  "sPrev s \<equiv> \<lambda>p. tcbSchedPrev (tcbs s p)"

abbreviation eNext :: "kstate \<Rightarrow> word_t \<Rightarrow> word_t" where
  "eNext s \<equiv> \<lambda>p. tcbEPNext (tcbs s p)"

abbreviation ePrev :: "kstate \<Rightarrow> word_t \<Rightarrow> word_t" where
  "ePrev s \<equiv> \<lambda>p. tcbEPPrev (tcbs s p)"

interpretation sched: link_store sNext sPrev set_tcbSchedNext set_tcbSchedPrev
  by unfold_locales (auto simp: set_tcb_defs upd_defs)

interpretation ep: link_store eNext ePrev set_tcbEPNext set_tcbEPPrev
  by unfold_locales (auto simp: set_tcb_defs upd_defs)

definition sched_queue :: "kstate \<Rightarrow> tcb_queue \<Rightarrow> word_t list \<Rightarrow> bool" where
  "sched_queue s q xs \<longleftrightarrow>
     dlist (sNext s) (sPrev s) xs \<and> tcbq_head q = hd_or 0 xs \<and> tcbq_end q = last_or 0 xs"

definition ep_queue :: "kstate \<Rightarrow> tcb_queue \<Rightarrow> word_t list \<Rightarrow> bool" where
  "ep_queue s q xs \<longleftrightarrow>
     dlist (eNext s) (ePrev s) xs \<and> tcbq_head q = hd_or 0 xs \<and> tcbq_end q = last_or 0 xs"

text \<open>A step that changes nothing but the scheduler links of the threads in \<open>S\<close>.\<close>

definition only_sched_links :: "word_t set \<Rightarrow> kstate \<Rightarrow> kstate \<Rightarrow> bool" where
  "only_sched_links S s s' \<longleftrightarrow>
     s' = s\<lparr>tcbs := tcbs s'\<rparr> \<and>
     (\<forall>p. tcbs s' p = (tcbs s p)\<lparr>tcbSchedNext := sNext s' p, tcbSchedPrev := sPrev s' p\<rparr>) \<and>
     (\<forall>p. p \<notin> S \<longrightarrow> tcbs s' p = tcbs s p)"

lemma only_sched_links_refl: "only_sched_links S s s"
  by (simp add: only_sched_links_def)

lemma only_sched_links_trans:
  assumes "only_sched_links S s s'" and "only_sched_links S s' s''"
  shows "only_sched_links S s s''"
proof -
  have "tcbs s'' p = (tcbs s p)\<lparr>tcbSchedNext := sNext s'' p, tcbSchedPrev := sPrev s'' p\<rparr>" for p
  proof -
    have "tcbs s'' p = (tcbs s' p)\<lparr>tcbSchedNext := sNext s'' p, tcbSchedPrev := sPrev s'' p\<rparr>"
      using assms(2) unfolding only_sched_links_def by blast
    also have "tcbs s' p = (tcbs s p)\<lparr>tcbSchedNext := sNext s' p, tcbSchedPrev := sPrev s' p\<rparr>"
      using assms(1) unfolding only_sched_links_def by blast
    finally show ?thesis by simp
  qed
  moreover have "s'' = s\<lparr>tcbs := tcbs s''\<rparr>"
  proof -
    have "s'' = s'\<lparr>tcbs := tcbs s''\<rparr>" "s' = s\<lparr>tcbs := tcbs s'\<rparr>"
      using assms unfolding only_sched_links_def by blast+
    then show ?thesis by (metis kstate.update_convs(2) kstate.surjective)
  qed
  ultimately show ?thesis
    using assms by (simp add: only_sched_links_def)
qed

lemma only_sched_links_set:
  "p \<in> S \<Longrightarrow> only_sched_links S s (set_tcbSchedNext p v s)"
  "p \<in> S \<Longrightarrow> only_sched_links S s (set_tcbSchedPrev p v s)"
  by (auto simp: only_sched_links_def set_tcb_defs upd_defs)

lemma only_sched_links_steps:
  "only_sched_links S s s' \<Longrightarrow> p \<in> S \<Longrightarrow> only_sched_links S s (set_tcbSchedNext p v s')"
  "only_sched_links S s s' \<Longrightarrow> p \<in> S \<Longrightarrow> only_sched_links S s (set_tcbSchedPrev p v s')"
  using only_sched_links_trans only_sched_links_set by blast+

lemma only_sched_links_fields:
  assumes "only_sched_links S s s'"
  shows "tcbState (tcbs s' p) = tcbState (tcbs s p)" "tcbDomain (tcbs s' p) = tcbDomain (tcbs s p)"
    "tcbPriority (tcbs s' p) = tcbPriority (tcbs s p)"
    "tcbSchedContext (tcbs s' p) = tcbSchedContext (tcbs s p)"
proof -
  have eq: "tcbs s' p = (tcbs s p)\<lparr>tcbSchedNext := sNext s' p, tcbSchedPrev := sPrev s' p\<rparr>"
    using assms by (simp add: only_sched_links_def)
  show "tcbState (tcbs s' p) = tcbState (tcbs s p)" "tcbDomain (tcbs s' p) = tcbDomain (tcbs s p)"
    "tcbPriority (tcbs s' p) = tcbPriority (tcbs s p)"
    "tcbSchedContext (tcbs s' p) = tcbSchedContext (tcbs s p)"
    by (subst eq, simp)+
qed

lemma sched_queue_frame:
  assumes "only_sched_links S s s'" and "set ys \<inter> S = {}"
  shows "sched_queue s' q ys = sched_queue s q ys"
proof -
  have "\<And>p. p \<in> set ys \<Longrightarrow> tcbs s' p = tcbs s p"
    using assms by (auto simp: only_sched_links_def)
  then have "dlist (sNext s') (sPrev s') ys = dlist (sNext s) (sPrev s) ys"
    by (intro dlist_cong) simp
  then show ?thesis by (simp add: sched_queue_def)
qed

lemma sched_queue_empty: "sched_queue s q xs \<Longrightarrow> tcb_queue_empty q \<longleftrightarrow> xs = []"
  by (cases xs) (auto simp: sched_queue_def tcb_queue_empty_def dlist_def)

lemma tcb_queue_prepend_list:
  assumes q: "sched_queue s q xs" and x: "x \<notin> set xs" "x \<noteq> 0" "sNext s x = 0" "sPrev s x = 0"
    and r: "tcb_queue_prepend q x s = (q', s')"
  shows "sched_queue s' q' (x # xs)" and "only_sched_links (insert x (set xs)) s s'"
proof -
  have d: "dlist (sNext s) (sPrev s) ([] @ xs)" using q by (simp add: sched_queue_def)
  have empty: "tcb_queue_empty q \<longleftrightarrow> xs = []" using sched_queue_empty [OF q] .
  let ?l = "link_in set_tcbSchedNext set_tcbSchedPrev 0 x (hd_or 0 xs) s"
  have "sNext s' = sNext ?l \<and> sPrev s' = sPrev ?l \<and> tcbq_head q' = x \<and> tcbq_end q' = last_or x xs \<and>
    only_sched_links (insert x (set xs)) s s'"
  proof (cases xs)
    case Nil
    then show ?thesis
      using r x empty q unfolding sched.link_in_links
      by (auto simp: tcb_queue_prepend_def only_sched_links_refl fun_eq_iff)
  next
    case (Cons y ys)
    have s': "s' = set_tcbSchedPrev y x (set_tcbSchedNext x y s)" and "q' = q\<lparr>tcbq_head := x\<rparr>"
      using r empty q Cons by (auto simp: tcb_queue_prepend_def sched_queue_def Let_def)
    moreover have "only_sched_links (insert x (set xs)) s s'"
      unfolding s' by (intro only_sched_links_steps only_sched_links_refl) (simp_all add: Cons)
    moreover have "y \<noteq> 0" using d Cons by (simp add: dlist_def)
    ultimately show ?thesis
      using x q Cons unfolding sched.link_in_links
      by (auto simp: sched.links_set sched_queue_def fun_eq_iff set_at_def)
  qed
  then show "sched_queue s' q' (x # xs)" "only_sched_links (insert x (set xs)) s s'"
    using sched.link_in_dlist [OF d, of x] x by (simp_all add: sched_queue_def)
qed

lemma tcb_queue_append_list:
  assumes q: "sched_queue s q xs" and x: "x \<notin> set xs" "x \<noteq> 0" "sNext s x = 0" "sPrev s x = 0"
    and r: "tcb_queue_append q x s = (q', s')"
  shows "sched_queue s' q' (xs @ [x])" and "only_sched_links (insert x (set xs)) s s'"
proof -
  have d: "dlist (sNext s) (sPrev s) (xs @ [])" using q by (simp add: sched_queue_def)
  have empty: "tcb_queue_empty q \<longleftrightarrow> xs = []" using sched_queue_empty [OF q] .
  let ?l = "link_in set_tcbSchedNext set_tcbSchedPrev (last_or 0 xs) x 0 s"
  have "sNext s' = sNext ?l \<and> sPrev s' = sPrev ?l \<and> tcbq_head q' = hd_or x xs \<and> tcbq_end q' = x \<and>
    only_sched_links (insert x (set xs)) s s'"
  proof (cases xs rule: rev_cases)
    case Nil
    then show ?thesis
      using r x empty q unfolding sched.link_in_links
      by (auto simp: tcb_queue_append_def only_sched_links_refl fun_eq_iff)
  next
    case (snoc ys y)
    have s': "s' = set_tcbSchedNext y x (set_tcbSchedPrev x y s)" and "q' = q\<lparr>tcbq_end := x\<rparr>"
      using r empty q snoc by (auto simp: tcb_queue_append_def sched_queue_def Let_def)
    moreover have "only_sched_links (insert x (set xs)) s s'"
      unfolding s' by (intro only_sched_links_steps only_sched_links_refl) (simp_all add: snoc)
    moreover have "y \<noteq> 0" using d snoc by (auto simp: dlist_def)
    moreover have "hd_or 0 xs = hd_or x xs" using snoc by (cases ys) simp_all
    ultimately show ?thesis
      using x q snoc unfolding sched.link_in_links
      by (auto simp: sched.links_set sched_queue_def fun_eq_iff set_at_def)
  qed
  then show "sched_queue s' q' (xs @ [x])" "only_sched_links (insert x (set xs)) s s'"
    using sched.link_in_dlist [OF d, of x] x by (simp_all add: sched_queue_def)
qed

lemma tcb_queue_insert_list:
  assumes q: "sched_queue s q (us @ vs)" and x: "x \<notin> set (us @ vs)" "x \<noteq> 0"
    and ne: "us \<noteq> []" "vs \<noteq> []"
  shows "sched_queue (tcb_queue_insert x (hd_or 0 vs) s) q (us @ x # vs)"
    and "only_sched_links (insert x (set (us @ vs))) s (tcb_queue_insert x (hd_or 0 vs) s)"
proof -
  have d: "dlist (sNext s) (sPrev s) (us @ vs)" using q by (simp add: sched_queue_def)
  obtain us' b where us: "us = us' @ [b]" using ne(1) by (cases us rule: rev_cases) auto
  obtain a vs' where vs: "vs = a # vs'" using ne(2) by (cases vs) auto
  have prev: "sPrev s a = b" using dlist_at(1) [of "sNext s" "sPrev s" us a vs'] d us vs by simp
  have nz: "a \<noteq> 0" "b \<noteq> 0" "a \<noteq> b" using d us vs by (auto simp: dlist_def)
  let ?s = "tcb_queue_insert x (hd_or 0 vs) s"
  have s': "?s = set_tcbSchedNext b x (set_tcbSchedPrev a x (set_tcbSchedNext x a (set_tcbSchedPrev x b s)))"
    using prev vs by (simp add: tcb_queue_insert_def Let_def)
  let ?l = "link_in set_tcbSchedNext set_tcbSchedPrev (last_or 0 us) x (hd_or 0 vs) s"
  have "sNext ?s = sNext ?l" "sPrev ?s = sPrev ?l"
    unfolding s' sched.link_in_links using us vs nz by (simp_all add: sched.links_set set_at_nz)
  moreover have "hd_or 0 (us @ vs) = hd_or 0 (us @ x # vs)" using ne by (cases us) simp_all
  moreover have "last_or 0 (us @ vs) = last_or 0 (us @ x # vs)" using vs by simp
  ultimately show "sched_queue ?s q (us @ x # vs)"
    using sched.link_in_dlist [OF d x] q by (simp add: sched_queue_def)
  show "only_sched_links (insert x (set (us @ vs))) s ?s"
    unfolding s' by (intro only_sched_links_steps only_sched_links_refl) (simp_all add: us vs)
qed

lemma tcb_queue_remove_list:
  assumes q: "sched_queue s q (us @ x # vs)" and r: "tcb_queue_remove q x s = (q', s')"
  shows "sched_queue s' q' (us @ vs)" and "only_sched_links (set (us @ x # vs)) s s'"
    and "sNext s' x = 0" and "sPrev s' x = 0"
proof -
  have d: "dlist (sNext s) (sPrev s) (us @ x # vs)"
    and ends: "tcbq_head q = hd_or x us" "tcbq_end q = last_or x vs"
    using q by (simp_all add: sched_queue_def)
  note at = dlist_at [OF d]
  have fresh: "x \<notin> set us" "x \<notin> set vs" "0 \<notin> set us" "0 \<notin> set vs" "set us \<inter> set vs = {}"
    using d by (auto simp: dlist_def)
  let ?l = "link_out set_tcbSchedNext set_tcbSchedPrev (last_or 0 us) (hd_or 0 vs) s"
  have hd: "tcbq_head q = x \<longleftrightarrow> us = []"
    using ends(1) fresh(1) by (cases us) auto
  have lst: "tcbq_end q = x \<longleftrightarrow> vs = []"
    using ends(2) fresh(2) by (metis last_in_set last_or_def)
  have "sNext s' = (sNext ?l)(x := 0) \<and> sPrev s' = (sPrev ?l)(x := 0) \<and>
    tcbq_head q' = hd_or 0 (us @ vs) \<and> tcbq_end q' = last_or 0 (us @ vs) \<and>
    only_sched_links (set (us @ x # vs)) s s'"
  proof (cases "us = []"; cases "vs = []")
    assume e: "us = []" "vs = []"
    then have "s' = s" "q' = q\<lparr>tcbq_head := 0, tcbq_end := 0\<rparr>"
      using r hd lst by (simp_all add: tcb_queue_remove_def Let_def)
    then show ?thesis
      using e at unfolding sched.link_out_links by (auto simp: only_sched_links_refl fun_eq_iff)
  next
    assume e: "us = []" "vs \<noteq> []"
    then obtain a vs' where vs: "vs = a # vs'" by (cases vs) auto
    have s': "s' = set_tcbSchedNext x 0 (set_tcbSchedPrev a 0 s)" and q': "q' = q\<lparr>tcbq_head := a\<rparr>"
      using r hd lst e at vs by (simp_all add: tcb_queue_remove_def Let_def)
    have "only_sched_links (set (us @ x # vs)) s s'"
      unfolding s' by (intro only_sched_links_steps only_sched_links_refl) (simp_all add: vs)
    with s' q' show ?thesis
      using e vs at fresh ends unfolding sched.link_out_links
      by (auto simp: sched.links_set set_at_def fun_eq_iff)
  next
    assume e: "us \<noteq> []" "vs = []"
    then obtain us' b where us: "us = us' @ [b]" by (cases us rule: rev_cases) auto
    have s': "s' = set_tcbSchedPrev x 0 (set_tcbSchedNext b 0 s)" and q': "q' = q\<lparr>tcbq_end := b\<rparr>"
      using r hd lst e at us by (simp_all add: tcb_queue_remove_def Let_def)
    have "only_sched_links (set (us @ x # vs)) s s'"
      unfolding s' by (intro only_sched_links_steps only_sched_links_refl) (simp_all add: us)
    moreover have "hd_or x us = hd_or 0 us" using e by (cases us) simp_all
    ultimately show ?thesis
      using s' q' e us at fresh ends unfolding sched.link_out_links
      by (auto simp: sched.links_set set_at_def fun_eq_iff)
  next
    assume e: "us \<noteq> []" "vs \<noteq> []"
    obtain us' b where us: "us = us' @ [b]" using e by (cases us rule: rev_cases) auto
    obtain a vs' where vs: "vs = a # vs'" using e by (cases vs) auto
    have s': "s' = set_tcbSchedNext x 0 (set_tcbSchedPrev x 0 (set_tcbSchedPrev a b (set_tcbSchedNext b a s)))"
      and q': "q' = q"
      using r hd lst e at us vs by (simp_all add: tcb_queue_remove_def Let_def)
    have "only_sched_links (set (us @ x # vs)) s s'"
      unfolding s' by (intro only_sched_links_steps only_sched_links_refl) (simp_all add: us vs)
    moreover have "hd_or x us = hd_or 0 (us @ vs)" "last_or x vs = last_or 0 (us @ vs)"
      using us vs by (cases us'; simp)+
    ultimately show ?thesis
      using s' q' us vs fresh ends unfolding sched.link_out_links
      by (auto simp: sched.links_set set_at_def fun_eq_iff)
  qed
  then show "sched_queue s' q' (us @ vs)" "only_sched_links (set (us @ x # vs)) s s'"
    "sNext s' x = 0" "sPrev s' x = 0"
    using sched.link_out_dlist [OF d] fresh by (simp_all add: sched_queue_def) (metis fun_upd_same)+
qed

section \<open>Ordered insertion\<close>

lemma sorted_desc_split:
  fixes pr :: "'a \<Rightarrow> 'b::linorder"
  shows "sorted_wrt (\<lambda>a b. pr b \<le> pr a) xs \<Longrightarrow>
    xs = filter (\<lambda>y. c \<le> pr y) xs @ filter (\<lambda>y. pr y < c) xs"
proof (induction xs)
  case (Cons x xs)
  show ?case
  proof (cases "c \<le> pr x")
    case True
    then show ?thesis using Cons by simp
  next
    case False
    then have "\<forall>y\<in>set xs. pr y < c" using Cons.prems by auto
    then have "filter (\<lambda>y. c \<le> pr y) xs = []" "filter (\<lambda>y. pr y < c) xs = xs"
      by (auto simp: filter_empty_conv)
    then show ?thesis using False by simp
  qed
qed simp

lemma sorted_desc_insert:
  fixes pr :: "'a \<Rightarrow> 'b::linorder"
  assumes "sorted_wrt (\<lambda>a b. pr b \<le> pr a) xs"
  shows "sorted_wrt (\<lambda>a b. pr b \<le> pr a)
    (filter (\<lambda>y. pr x \<le> pr y) xs @ x # filter (\<lambda>y. pr y < pr x) xs)"
  using assms by (auto simp: sorted_wrt_append sorted_wrt_filter)

lemma sorted_asc_split:
  fixes tm :: "'a \<Rightarrow> 'b::linorder"
  shows "sorted_wrt (\<lambda>a b. tm a \<le> tm b) xs \<Longrightarrow>
    xs = filter (\<lambda>y. tm y \<le> c) xs @ filter (\<lambda>y. c < tm y) xs"
proof (induction xs)
  case (Cons x xs)
  show ?case
  proof (cases "tm x \<le> c")
    case True
    then show ?thesis using Cons by simp
  next
    case False
    then have "\<forall>y\<in>set xs. c < tm y" using Cons.prems by auto
    then have "filter (\<lambda>y. tm y \<le> c) xs = []" "filter (\<lambda>y. c < tm y) xs = xs"
      by (auto simp: filter_empty_conv)
    then show ?thesis using False by simp
  qed
qed simp

lemma sorted_asc_insert:
  fixes tm :: "'a \<Rightarrow> 'b::linorder"
  assumes "sorted_wrt (\<lambda>a b. tm a \<le> tm b) xs"
  shows "sorted_wrt (\<lambda>a b. tm a \<le> tm b)
    (filter (\<lambda>y. tm y \<le> tm x) xs @ x # filter (\<lambda>y. tm x < tm y) xs)"
  using assms by (auto simp: sorted_wrt_append sorted_wrt_filter)

text \<open>The search from the tail of an endpoint queue ends behind the last thread of sufficient priority.\<close>

lemma ep_search:
  assumes "dlist (eNext s) (ePrev s) ((us @ vs) @ ws)"
    and "\<And>y. y \<in> set vs \<Longrightarrow> P y" and "\<And>y. y \<in> set us \<Longrightarrow> \<not> P y"
  shows "while_option (\<lambda>(before, after). before \<noteq> 0 \<and> P before)
    (\<lambda>(before, after). (ePrev s before, before)) (last_or 0 (us @ vs), hd_or 0 ws) =
    Some (last_or 0 us, hd_or 0 (vs @ ws))"
  using assms
proof (induction vs arbitrary: ws rule: rev_induct)
  case Nil
  then have "\<not> (last_or 0 us \<noteq> 0 \<and> P (last_or 0 us))" using last_or_cases [of 0 us] by auto
  then show ?case by (subst while_option_unfold) auto
next
  case (snoc y vs)
  have at: "ePrev s y = last_or 0 (us @ vs)" "y \<noteq> 0"
    using dlist_at [of "eNext s" "ePrev s" "us @ vs" y ws] snoc.prems(1) by simp_all
  have "while_option (\<lambda>(before, after). before \<noteq> 0 \<and> P before)
    (\<lambda>(before, after). (ePrev s before, before)) (last_or 0 (us @ vs), hd_or 0 (y # ws)) =
    Some (last_or 0 us, hd_or 0 (vs @ y # ws))"
    using snoc.prems by (intro snoc.IH) auto
  then show ?case
    using at snoc.prems(2) [of y] by (subst while_option_unfold) simp
qed

lemma time_search:
  assumes "dlist (sNext s) (sPrev s) (ts @ us @ vs)"
    and "\<And>y. y \<in> set us \<Longrightarrow> tcbReadyTime s y \<le> tm" and "\<And>y. y \<in> set vs \<Longrightarrow> tm < tcbReadyTime s y"
  shows "find_time_after s (hd_or 0 (us @ vs)) tm = Some (hd_or 0 vs)"
  using assms
proof (induction us arbitrary: ts)
  case Nil
  then have "\<not> time_after s (hd_or 0 vs) tm"
    using hd_or_cases [of 0 vs] by (auto simp: time_after_def not_le)
  then show ?case unfolding find_time_after_def by (subst while_option_unfold) simp
next
  case (Cons y us)
  have at: "sNext s y = hd_or 0 (us @ vs)" "y \<noteq> 0"
    using dlist_at [of "sNext s" "sPrev s" ts y "us @ vs"] Cons.prems(1) by simp_all
  have IH: "find_time_after s (hd_or 0 (us @ vs)) tm = Some (hd_or 0 vs)"
    using Cons.prems by (intro Cons.IH [of "ts @ [y]"]) auto
  have "time_after s y tm" using at Cons.prems(2) by (simp add: time_after_def)
  then show ?case
    using IH at unfolding find_time_after_def by (subst while_option_unfold) simp
qed

lemma tcbEPAppend_list:
  fixes s x xs
  defines "us \<equiv> filter (\<lambda>y. tcbPriority (tcbs s x) \<le> tcbPriority (tcbs s y)) xs"
    and "vs \<equiv> filter (\<lambda>y. tcbPriority (tcbs s y) < tcbPriority (tcbs s x)) xs"
  assumes q: "ep_queue s q xs" and x: "x \<notin> set xs" "x \<noteq> 0"
    and sorted: "sorted_wrt (\<lambda>a b. tcbPriority (tcbs s b) \<le> tcbPriority (tcbs s a)) xs"
  obtains q' s' where "tcbEPAppend x q s = Some (q', s')" and "ep_queue s' q' (us @ x # vs)"
    and "s' = s\<lparr>tcbs := tcbs s'\<rparr>"
    and "\<And>p. (tcbs s' p)\<lparr>tcbEPNext := eNext s p, tcbEPPrev := ePrev s p\<rparr> = tcbs s p"
    and "\<And>p. p \<notin> insert x (set xs) \<Longrightarrow> tcbs s' p = tcbs s p"
proof -
  have xs: "xs = us @ vs" unfolding us_def vs_def by (rule sorted_desc_split [OF sorted])
  have d: "dlist (eNext s) (ePrev s) (us @ vs)" and ends: "tcbq_head q = hd_or 0 xs" "tcbq_end q = last_or 0 xs"
    using q xs by (simp_all add: ep_queue_def)
  have low: "\<And>y. y \<in> set vs \<Longrightarrow> tcbPriority (tcbs s y) < tcbPriority (tcbs s x)"
    and high: "\<And>y. y \<in> set us \<Longrightarrow> \<not> tcbPriority (tcbs s y) < tcbPriority (tcbs s x)"
    by (auto simp: us_def vs_def not_less)
  have pt: "ep_insert_point s x (tcbq_end q) = Some (last_or 0 us, hd_or 0 vs)"
    using ep_search [of s us vs "[]", OF _ low high] d
    unfolding ep_insert_point_def ends xs by simp
  define b where "b = last_or 0 us"
  define a where "a = hd_or 0 vs"
  define s1 where "s1 = (if b = 0 then s else set_tcbEPNext b x s)"
  define s2 where "s2 = (if a = 0 then s1 else set_tcbEPPrev a x s1)"
  define s' where "s' = set_tcbEPPrev x b (set_tcbEPNext x a s2)"
  define q' where "q' = \<lparr>tcbq_head = (if b = 0 then x else tcbq_head q),
                         tcbq_end = (if a = 0 then x else tcbq_end q)\<rparr>"
  have run: "tcbEPAppend x q s = Some (q', s')"
    unfolding tcbEPAppend_def pt s'_def s2_def s1_def q'_def by (simp add: a_def b_def Let_def)
  have ab: "b \<noteq> x" "a \<noteq> x" "b = 0 \<longleftrightarrow> us = []" "a = 0 \<longleftrightarrow> vs = []"
    using x xs d by (auto simp: a_def b_def dlist_def hd_or_eq_iff last_or_eq_iff hd_or_neq last_or_neq)
  let ?l = "link_in set_tcbEPNext set_tcbEPPrev (last_or 0 us) x (hd_or 0 vs) s"
  have "eNext s' = eNext ?l" "ePrev s' = ePrev ?l"
    using ab unfolding ep.link_in_links s'_def s2_def s1_def
    by (auto simp: ep.links_set set_at_def a_def b_def)
  moreover have "tcbq_head q' = hd_or 0 (us @ x # vs)"
    unfolding q'_def ends xs ab(3) by (cases us) simp_all
  moreover have "tcbq_end q' = last_or 0 (us @ x # vs)"
    unfolding q'_def ends xs ab(4) by (cases vs) simp_all
  ultimately have "ep_queue s' q' (us @ x # vs)"
    using ep.link_in_dlist [OF d, of x] x xs by (simp add: ep_queue_def)
  moreover have "s' = s\<lparr>tcbs := tcbs s'\<rparr>"
    by (simp add: s'_def s2_def s1_def set_tcb_defs upd_defs)
  moreover have "(tcbs s' p)\<lparr>tcbEPNext := eNext s p, tcbEPPrev := ePrev s p\<rparr> = tcbs s p" for p
    by (simp add: s'_def s2_def s1_def set_tcb_defs upd_defs)
  moreover have "tcbs s' p = tcbs s p" if "p \<notin> insert x (set xs)" for p
  proof -
    have "p \<noteq> x" "b = 0 \<or> p \<noteq> b" "a = 0 \<or> p \<noteq> a"
      using that last_or_cases [of 0 us] hd_or_cases [of 0 vs] unfolding a_def b_def xs by auto
    then show ?thesis
      by (cases "a = 0"; cases "b = 0") (simp_all add: s'_def s2_def s1_def set_tcb_other)
  qed
  ultimately show thesis using run that by blast
qed

lemma tcbEPDequeue_list:
  assumes q: "ep_queue s q (us @ x # vs)" and r: "tcbEPDequeue x q s = (q', s')"
  shows "ep_queue s' q' (us @ vs)" and "s' = s\<lparr>tcbs := tcbs s'\<rparr>"
    and "(tcbs s' p)\<lparr>tcbEPNext := eNext s p, tcbEPPrev := ePrev s p\<rparr> = tcbs s p"
    and "p \<notin> set (us @ x # vs) \<Longrightarrow> tcbs s' p = tcbs s p"
proof -
  have d: "dlist (eNext s) (ePrev s) (us @ x # vs)"
    and ends: "tcbq_head q = hd_or x us" "tcbq_end q = last_or x vs"
    using q by (simp_all add: ep_queue_def)
  note at = dlist_at [OF d]
  define b where "b = last_or 0 us"
  define a where "a = hd_or 0 vs"
  have ab: "b \<noteq> x" "a \<noteq> x" "b = 0 \<longleftrightarrow> us = []" "a = 0 \<longleftrightarrow> vs = []"
    using d by (auto simp: a_def b_def dlist_def hd_or_eq_iff last_or_eq_iff hd_or_neq last_or_neq)
  define s1 where "s1 = (if b = 0 then s else set_tcbEPNext b a s)"
  have s1: "eNext s1 x = a" "ePrev s1 x = b"
    using ab at unfolding s1_def by (auto simp: ep.links_set a_def b_def set_tcb_defs upd_defs)
  have s': "s' = (if a = 0 then s1 else set_tcbEPPrev a b s1)"
    and q': "q' = \<lparr>tcbq_head = (if b = 0 then a else tcbq_head q), tcbq_end = (if a = 0 then b else tcbq_end q)\<rparr>"
    using r s1 at unfolding tcbEPDequeue_def s1_def
    by (auto simp: a_def b_def Let_def split: if_splits)
  let ?l = "link_out set_tcbEPNext set_tcbEPPrev (last_or 0 us) (hd_or 0 vs) s"
  have "s' = ?l" unfolding s' s1_def link_out_def by (simp add: a_def b_def)
  moreover have "tcbq_head q' = hd_or 0 (us @ vs)"
    unfolding q' ends ab(3) by (cases us) (simp_all add: a_def)
  moreover have "tcbq_end q' = last_or 0 (us @ vs)"
    unfolding q' ends ab(4) by (cases vs) (simp_all add: b_def)
  ultimately show "ep_queue s' q' (us @ vs)"
    using ep.link_out_dlist [OF d] by (simp add: ep_queue_def)
  show "s' = s\<lparr>tcbs := tcbs s'\<rparr>" "(tcbs s' p)\<lparr>tcbEPNext := eNext s p, tcbEPPrev := ePrev s p\<rparr> = tcbs s p"
    by (simp_all add: s' s1_def set_tcb_defs upd_defs)
  show "tcbs s' p = tcbs s p" if "p \<notin> set (us @ x # vs)"
  proof -
    have "b = 0 \<or> p \<noteq> b" "a = 0 \<or> p \<noteq> a"
      using that last_or_cases [of 0 us] hd_or_cases [of 0 vs] unfolding a_def b_def by auto
    then show ?thesis
      by (cases "a = 0"; cases "b = 0") (simp_all add: s' s1_def set_tcb_other)
  qed
qed

end
