(* ===== verification/ReadyQueues.thy ===== *)
theory ReadyQueues
  imports SchedQueues
begin

text \<open>
  The invariant of the ready queues, the release queue and the priority bitmap, that every
  operation on them keeps it, and what the scheduler relies on: the bitmap finds the
  highest priority with a runnable thread.
\<close>

section \<open>The bitmap as a set of priorities\<close>

definition valid_domain :: "word_t \<Rightarrow> bool" where
  "valid_domain d \<longleftrightarrow> d < CONFIG_NUM_DOMAINS"

definition valid_prio :: "word_t \<Rightarrow> bool" where
  "valid_prio p \<longleftrightarrow> p < CONFIG_NUM_PRIORITIES"

definition prio_bit :: "kstate \<Rightarrow> word_t \<Rightarrow> word_t \<Rightarrow> bool" where
  "prio_bit s d p \<longleftrightarrow>
     bit (ksReadyQueuesL2Bitmap s d (invert_l1index (prio_to_l1index p))) (unat (p AND MASK wordRadix))"

definition bitmap_l1_ok :: "kstate \<Rightarrow> bool" where
  "bitmap_l1_ok s \<longleftrightarrow> (\<forall>d l. valid_domain d \<longrightarrow>
     bit (ksReadyQueuesL1Bitmap s d) l = (l < 4 \<and> ksReadyQueuesL2Bitmap s d (invert_l1index (of_nat l)) \<noteq> 0))"

definition bitmap_ok :: "(word_t \<Rightarrow> word_t \<Rightarrow> bool) \<Rightarrow> kstate \<Rightarrow> bool" where
  "bitmap_ok N s \<longleftrightarrow> bitmap_l1_ok s \<and>
     (\<forall>d p. valid_domain d \<longrightarrow> valid_prio p \<longrightarrow> prio_bit s d p = N d p)"

lemma L2_BITMAP_SIZE_eq: "L2_BITMAP_SIZE = 4"
  by (simp add: L2_BITMAP_SIZE_def CONFIG_NUM_PRIORITIES_def)

lemma invert_eq_iff [simp]: "invert_l1index a = invert_l1index b \<longleftrightarrow> a = b"
  by (simp add: invert_l1index_def)

lemma bit_or_BIT: "k < 64 \<Longrightarrow> bit (w OR BIT k) j \<longleftrightarrow> bit w j \<or> j = k"
  by (auto simp: BIT_eq bit_or_iff bit_exp_iff dest: bit_imp_le_length)

lemma bit_and_not_BIT: "bit (w AND NOT (BIT k)) j \<longleftrightarrow> bit w j \<and> j \<noteq> k"
  by (auto simp: BIT_eq bit_and_iff bit_not_iff bit_exp_iff dest: bit_imp_le_length)

lemma unat_prio_parts:
  "unat (prio_to_l1index p) = unat p div 64" "unat (p AND MASK wordRadix) = unat p mod 64"
  by (simp_all add: prio_to_l1index_def unat_drop_bit_eq drop_bit_eq_div unat_div unat_and_MASK)

lemma prio_parts_eq:
  "prio_to_l1index p = prio_to_l1index q \<Longrightarrow> unat (p AND MASK wordRadix) = unat (q AND MASK wordRadix) \<Longrightarrow>
   p = q"
  using unat_prio_parts [of p] unat_prio_parts [of q]
  by (metis div_mult_mod_eq word_unat_eq_iff)

lemma valid_prio_unat: "valid_prio p \<longleftrightarrow> unat p < 256"
  by (simp add: valid_prio_def CONFIG_NUM_PRIORITIES_def word_less_nat_alt)

lemma valid_prio_l1: "valid_prio p \<Longrightarrow> unat (prio_to_l1index p) < 4"
  by (simp add: valid_prio_unat unat_prio_parts)

lemma of_nat_l1: "l < 4 \<Longrightarrow> (of_nat l :: word_t) = prio_to_l1index p \<longleftrightarrow> l = unat (prio_to_l1index p)"
  by (simp add: word_unat_eq_iff unat_of_nat)

lemma word_nonzero_bit: "(w :: word_t) \<noteq> 0 \<longleftrightarrow> (\<exists>j. bit w j)"
  by (metis bit_0_eq bit_word_eqI bot_apply bot_bool_def)

lemma addToBitmap_ok:
  assumes ok: "bitmap_ok N s" and "valid_domain d" and p: "valid_prio p"
  shows "bitmap_ok (\<lambda>d' p'. N d' p' \<or> d' = d \<and> p' = p) (addToBitmap d p s)"
proof -
  let ?s = "addToBitmap d p s" and ?l1 = "prio_to_l1index p" and ?l2 = "unat (p AND MASK wordRadix)"
  have l2: "?l2 < 64" and l1: "unat ?l1 < 64"
    using valid_prio_l1 [OF p] by (simp_all add: unat_prio_parts(2))
  have L2: "bit (ksReadyQueuesL2Bitmap ?s d' (invert_l1index i)) j \<longleftrightarrow>
      bit (ksReadyQueuesL2Bitmap s d' (invert_l1index i)) j \<or> d' = d \<and> i = ?l1 \<and> j = ?l2" for d' i j
    using l2 by (auto simp: addToBitmap_def Let_def bit_or_BIT)
  have L1: "bit (ksReadyQueuesL1Bitmap ?s d') l \<longleftrightarrow>
      bit (ksReadyQueuesL1Bitmap s d') l \<or> d' = d \<and> l = unat ?l1" for d' l
    using l1 by (auto simp: addToBitmap_def Let_def bit_or_BIT)
  have "bitmap_l1_ok ?s"
    unfolding bitmap_l1_ok_def
  proof (intro allI impI)
    fix d' l
    assume "valid_domain d'"
    then have old: "bit (ksReadyQueuesL1Bitmap s d') l \<longleftrightarrow>
        l < 4 \<and> ksReadyQueuesL2Bitmap s d' (invert_l1index (of_nat l)) \<noteq> 0"
      using ok by (simp add: bitmap_ok_def bitmap_l1_ok_def)
    show "bit (ksReadyQueuesL1Bitmap ?s d') l \<longleftrightarrow>
        l < 4 \<and> ksReadyQueuesL2Bitmap ?s d' (invert_l1index (of_nat l)) \<noteq> 0"
      using valid_prio_l1 [OF p] of_nat_l1 [of l p]
      unfolding L1 old word_nonzero_bit L2 by blast
  qed
  moreover have "prio_bit ?s d' p' \<longleftrightarrow> prio_bit s d' p' \<or> d' = d \<and> p' = p" for d' p'
    unfolding prio_bit_def L2 using prio_parts_eq by blast
  ultimately show ?thesis using ok by (simp add: bitmap_ok_def)
qed

lemma removeFromBitmap_ok:
  assumes ok: "bitmap_ok N s" and "valid_domain d" and p: "valid_prio p"
  shows "bitmap_ok (\<lambda>d' p'. N d' p' \<and> \<not> (d' = d \<and> p' = p)) (removeFromBitmap d p s)"
proof -
  let ?s = "removeFromBitmap d p s" and ?l1 = "prio_to_l1index p" and ?l2 = "unat (p AND MASK wordRadix)"
  have L2: "bit (ksReadyQueuesL2Bitmap ?s d' (invert_l1index i)) j \<longleftrightarrow>
      bit (ksReadyQueuesL2Bitmap s d' (invert_l1index i)) j \<and> \<not> (d' = d \<and> i = ?l1 \<and> j = ?l2)" for d' i j
  proof -
    have "ksReadyQueuesL2Bitmap ?s d' (invert_l1index i) =
        (if d' = d \<and> i = ?l1 then ksReadyQueuesL2Bitmap s d' (invert_l1index i) AND NOT (BIT ?l2)
         else ksReadyQueuesL2Bitmap s d' (invert_l1index i))"
      by (simp add: removeFromBitmap_def Let_def)
    then show ?thesis by (auto simp: bit_and_not_BIT)
  qed
  have L1: "bit (ksReadyQueuesL1Bitmap ?s d') l \<longleftrightarrow> bit (ksReadyQueuesL1Bitmap s d') l \<and>
      \<not> (d' = d \<and> l = unat ?l1 \<and> ksReadyQueuesL2Bitmap ?s d (invert_l1index ?l1) = 0)" for d' l
    by (auto simp: removeFromBitmap_def Let_def bit_and_not_BIT)
  have "bitmap_l1_ok ?s"
    unfolding bitmap_l1_ok_def
  proof (intro allI impI)
    fix d' l
    assume "valid_domain d'"
    then have old: "bit (ksReadyQueuesL1Bitmap s d') l \<longleftrightarrow>
        l < 4 \<and> ksReadyQueuesL2Bitmap s d' (invert_l1index (of_nat l)) \<noteq> 0"
      using ok by (simp add: bitmap_ok_def bitmap_l1_ok_def)
    show "bit (ksReadyQueuesL1Bitmap ?s d') l \<longleftrightarrow>
        l < 4 \<and> ksReadyQueuesL2Bitmap ?s d' (invert_l1index (of_nat l)) \<noteq> 0"
    proof (cases "d' = d \<and> l = unat ?l1")
      case True
      then have "of_nat l = ?l1" by simp
      with True show ?thesis unfolding L1 old
        by (metis L2 word_nonzero_bit)
    next
      case False
      then have "l < 4 \<Longrightarrow> \<not> (d' = d \<and> of_nat l = ?l1)" using of_nat_l1 [of l p] by blast
      with False show ?thesis unfolding L1 old word_nonzero_bit L2 by blast
    qed
  qed
  moreover have "prio_bit ?s d' p' \<longleftrightarrow> prio_bit s d' p' \<and> \<not> (d' = d \<and> p' = p)" for d' p'
    unfolding prio_bit_def L2 using prio_parts_eq by blast
  ultimately show ?thesis using ok by (simp add: bitmap_ok_def)
qed

lemma bitmap_empty_iff:
  assumes "bitmap_ok N s" and "valid_domain d"
  shows "ksReadyQueuesL1Bitmap s d = 0 \<longleftrightarrow> (\<forall>p. valid_prio p \<longrightarrow> \<not> N d p)"
proof
  assume zero: "ksReadyQueuesL1Bitmap s d = 0"
  show "\<forall>p. valid_prio p \<longrightarrow> \<not> N d p"
  proof (intro allI impI)
    fix p
    assume p: "valid_prio p"
    have "\<not> bit (ksReadyQueuesL1Bitmap s d) (unat (prio_to_l1index p))" by (simp add: zero)
    then have "ksReadyQueuesL2Bitmap s d (invert_l1index (prio_to_l1index p)) = 0"
      using assms valid_prio_l1 [OF p] by (simp add: bitmap_ok_def bitmap_l1_ok_def)
    then have "\<not> prio_bit s d p" by (simp add: prio_bit_def)
    then show "\<not> N d p" using assms p by (simp add: bitmap_ok_def)
  qed
next
  assume none: "\<forall>p. valid_prio p \<longrightarrow> \<not> N d p"
  show "ksReadyQueuesL1Bitmap s d = 0"
  proof (rule ccontr)
    assume "ksReadyQueuesL1Bitmap s d \<noteq> 0"
    then obtain l where "bit (ksReadyQueuesL1Bitmap s d) l" using word_nonzero_bit by blast
    then have l: "l < 4" and "ksReadyQueuesL2Bitmap s d (invert_l1index (of_nat l)) \<noteq> 0"
      using assms by (simp_all add: bitmap_ok_def bitmap_l1_ok_def)
    then obtain j where j: "bit (ksReadyQueuesL2Bitmap s d (invert_l1index (of_nat l))) j"
      using word_nonzero_bit by blast
    then have j64: "j < 64" by (auto dest: bit_imp_le_length)
    define p :: word_t where "p = of_nat (l * 64 + j)"
    have p: "unat p = l * 64 + j" using l j64 unfolding p_def by (simp only: unat_of_nat) simp
    then have "valid_prio p" using l j64 by (simp add: valid_prio_unat)
    moreover have "prio_to_l1index p = of_nat l" "unat (p AND MASK wordRadix) = j"
      using unat_prio_parts [of p] p l j64 by (simp_all add: word_unat_eq_iff unat_of_nat)
    then have "prio_bit s d p" using j by (simp add: prio_bit_def)
    ultimately show False using none assms by (simp add: bitmap_ok_def)
  qed
qed

lemma getHighestPrio_max:
  assumes ok: "bitmap_ok N s" and d: "valid_domain d" and nz: "ksReadyQueuesL1Bitmap s d \<noteq> 0"
  shows "valid_prio (getHighestPrio d s)" and "N d (getHighestPrio d s)"
    and "\<And>p. valid_prio p \<Longrightarrow> N d p \<Longrightarrow> p \<le> getHighestPrio d s"
proof -
  obtain i where i: "bit (ksReadyQueuesL1Bitmap s d) i" "\<And>j. bit (ksReadyQueuesL1Bitmap s d) j \<Longrightarrow> j \<le> i"
    and ci: "unat (63 - clzl (ksReadyQueuesL1Bitmap s d)) = i"
    using clzl_index [OF nz] by blast
  define l1 where "l1 = 63 - clzl (ksReadyQueuesL1Bitmap s d)"
  define L2 where "L2 = ksReadyQueuesL2Bitmap s d (invert_l1index l1)"
  have l1: "unat l1 = i" "l1 = of_nat i" using ci by (auto simp: l1_def)
  have i4: "i < 4" and "L2 \<noteq> 0"
    using i(1) ok d l1 by (simp_all add: bitmap_ok_def bitmap_l1_ok_def L2_def)
  then obtain j where j: "j < 64" "bit L2 j" "\<And>k. bit L2 k \<Longrightarrow> k \<le> j" and cj: "unat (63 - clzl L2) = j"
    using clzl_index [of L2] by blast
  let ?p = "getHighestPrio d s"
  have "?p = push_bit 6 l1 OR (63 - clzl L2)"
    by (simp add: getHighestPrio_def l1_def L2_def l1index_to_prio_def Let_def)
  moreover have "is_aligned (push_bit 6 l1) 6"
    by (simp add: is_aligned_take_bit take_bit_push_bit)
  ultimately have sum: "?p = push_bit 6 l1 + (63 - clzl L2)"
    using aligned_add_or [of "push_bit 6 l1" 6 "63 - clzl L2"] cj j(1) by simp
  have "unat (push_bit 6 l1) = 64 * i"
    using l1 i4 by (simp add: push_bit_eq_mult unat_word_ariths)
  then have up: "unat ?p = 64 * i + j"
    unfolding sum using cj i4 j(1) by (subst unat_add_no_overflow) simp_all
  have parts: "prio_to_l1index ?p = l1" "unat (?p AND MASK wordRadix) = j"
    using unat_prio_parts [of ?p] up l1(1) j(1) by (simp_all add: word_unat_eq_iff)
  show valid: "valid_prio ?p" using up i4 j(1) by (simp add: valid_prio_unat)
  have "prio_bit s d ?p" using j(2) parts by (simp add: prio_bit_def L2_def)
  then show "N d ?p" using ok d valid by (simp add: bitmap_ok_def)
  fix p
  assume p: "valid_prio p" "N d p"
  then have bit_p: "prio_bit s d p" using ok d by (simp add: bitmap_ok_def)
  then have "ksReadyQueuesL2Bitmap s d (invert_l1index (prio_to_l1index p)) \<noteq> 0"
    by (auto simp: prio_bit_def)
  then have "bit (ksReadyQueuesL1Bitmap s d) (unat (prio_to_l1index p))"
    using ok d valid_prio_l1 [OF p(1)] by (simp add: bitmap_ok_def bitmap_l1_ok_def)
  then have le: "unat p div 64 \<le> i" using i(2) unat_prio_parts(1) [of p] by metis
  have "unat p \<le> 64 * i + j"
  proof (cases "unat p div 64 = i")
    case True
    then have "prio_to_l1index p = l1"
      using unat_prio_parts(1) [of p] l1(1) by (simp add: word_unat_eq_iff)
    then have "unat p mod 64 \<le> j"
      using bit_p j(3) unat_prio_parts(2) [of p] by (simp add: prio_bit_def L2_def)
    then show ?thesis using True by (metis add_le_cancel_left mult_div_mod_eq)
  next
    case False
    with le have "unat p div 64 < i" by simp
    then show ?thesis by (simp add: div_less_iff_less_mult)
  qed
  then show "p \<le> ?p" using up by (simp add: word_le_nat_alt)
qed

section \<open>The invariant\<close>

text \<open>
  \<open>R d p\<close> lists the ready threads of domain \<open>d\<close> and priority \<open>p\<close>, \<open>Q\<close> the threads of the release
  queue. A thread is in at most one of the lists, the one its flags, domain and priority
  say, and a thread in no list has null links.
\<close>

definition queue_links_ok :: "(word_t \<Rightarrow> word_t \<Rightarrow> word_t list) \<Rightarrow> word_t list \<Rightarrow> kstate \<Rightarrow> bool" where
  "queue_links_ok R Q s \<longleftrightarrow>
     (\<forall>d p. valid_domain d \<longrightarrow> valid_prio p \<longrightarrow>
        sched_queue s (ksReadyQueues s (ready_queues_index d p)) (R d p)) \<and>
     (\<forall>d p t. t \<in> set (R d p) \<longleftrightarrow> tcbQueued (tcbState (tcbs s t)) \<and>
        tcbDomain (tcbs s t) = d \<and> tcbPriority (tcbs s t) = p) \<and>
     (\<forall>t. tcbQueued (tcbState (tcbs s t)) \<longrightarrow>
        valid_domain (tcbDomain (tcbs s t)) \<and> valid_prio (tcbPriority (tcbs s t)) \<and>
        \<not> tcbInReleaseQueue (tcbState (tcbs s t))) \<and>
     sched_queue s (ksReleaseQueue s) Q \<and>
     (\<forall>t. t \<in> set Q \<longleftrightarrow> tcbInReleaseQueue (tcbState (tcbs s t))) \<and>
     (\<forall>t. \<not> tcbQueued (tcbState (tcbs s t)) \<and> \<not> tcbInReleaseQueue (tcbState (tcbs s t)) \<longrightarrow>
        sNext s t = 0 \<and> sPrev s t = 0)"

definition queues_ok :: "(word_t \<Rightarrow> word_t \<Rightarrow> word_t list) \<Rightarrow> word_t list \<Rightarrow> kstate \<Rightarrow> bool" where
  "queues_ok R Q s \<longleftrightarrow> queue_links_ok R Q s \<and> bitmap_ok (\<lambda>d p. R d p \<noteq> []) s"

lemma queue_links_okD:
  assumes "queue_links_ok R Q s"
  shows "valid_domain d \<Longrightarrow> valid_prio p \<Longrightarrow>
      sched_queue s (ksReadyQueues s (ready_queues_index d p)) (R d p)"
    and "t \<in> set (R d p) \<longleftrightarrow> tcbQueued (tcbState (tcbs s t)) \<and>
        tcbDomain (tcbs s t) = d \<and> tcbPriority (tcbs s t) = p"
    and "tcbQueued (tcbState (tcbs s t)) \<Longrightarrow> valid_domain (tcbDomain (tcbs s t)) \<and>
        valid_prio (tcbPriority (tcbs s t)) \<and> \<not> tcbInReleaseQueue (tcbState (tcbs s t))"
    and "sched_queue s (ksReleaseQueue s) Q"
    and "t \<in> set Q \<longleftrightarrow> tcbInReleaseQueue (tcbState (tcbs s t))"
    and "\<not> tcbQueued (tcbState (tcbs s t)) \<Longrightarrow> \<not> tcbInReleaseQueue (tcbState (tcbs s t)) \<Longrightarrow>
        sNext s t = 0 \<and> sPrev s t = 0"
  using assms unfolding queue_links_ok_def by blast+

lemma bitmap_keeps_links:
  "queue_links_ok R Q (addToBitmap d p s) = queue_links_ok R Q s"
  "queue_links_ok R Q (removeFromBitmap d p s) = queue_links_ok R Q s"
  by (simp_all add: queue_links_ok_def sched_queue_def addToBitmap_def removeFromBitmap_def Let_def)

lemma digits_256:
  fixes a b c e :: nat
  assumes "a * 256 + b = c * 256 + e" and "b < 256" and "e < 256"
  shows "a = c \<and> b = e"
proof -
  have "(a * 256 + b) div 256 = a" "(c * 256 + e) div 256 = c" using assms(2,3) by simp_all
  then have "a = c" using assms(1) by simp
  with assms(1) show ?thesis by simp
qed

lemma ready_queues_index_eq_iff:
  assumes "valid_domain d" "valid_prio p" "valid_domain d'" "valid_prio p'"
  shows "ready_queues_index d p = ready_queues_index d' p' \<longleftrightarrow> d = d' \<and> p = p'"
proof -
  have idx: "unat (ready_queues_index d p) = unat d * 256 + unat p"
    if "valid_domain d" "valid_prio p" for d p
  proof -
    have b: "unat d < 16" "unat p < 256"
      using that by (simp_all add: valid_domain_def CONFIG_NUM_DOMAINS_def valid_prio_unat word_less_nat_alt)
    then have "unat (d * 256) = unat d * 256" by (simp add: unat_word_ariths)
    with b have "unat (d * 256 + p) = unat d * 256 + unat p" by (subst unat_add_no_overflow) simp_all
    then show ?thesis
      by (simp add: ready_queues_index_def CONFIG_NUM_DOMAINS_def CONFIG_NUM_PRIORITIES_def word_less_nat_alt)
  qed
  have b: "unat p < 256" "unat p' < 256" using assms by (simp_all add: valid_prio_unat)
  have "ready_queues_index d p = ready_queues_index d' p' \<longleftrightarrow>
      unat d * 256 + unat p = unat d' * 256 + unat p'"
    unfolding word_unat_eq_iff [of "ready_queues_index d p"] idx [OF assms(1,2)] idx [OF assms(3,4)] ..
  also have "\<dots> \<longleftrightarrow> unat d = unat d' \<and> unat p = unat p'"
    using digits_256 [OF _ b] by auto
  finally show ?thesis by (simp add: word_unat_eq_iff)
qed

text \<open>
  The invariant depends on the queues, the bitmaps and, of each TCB, on its links, flags,
  domain and priority.
\<close>

definition same_queue_state :: "kstate \<Rightarrow> kstate \<Rightarrow> bool" where
  "same_queue_state s s' \<longleftrightarrow> ksReadyQueues s' = ksReadyQueues s \<and> ksReleaseQueue s' = ksReleaseQueue s \<and>
     ksReadyQueuesL1Bitmap s' = ksReadyQueuesL1Bitmap s \<and>
     ksReadyQueuesL2Bitmap s' = ksReadyQueuesL2Bitmap s \<and>
     (\<forall>t. sNext s' t = sNext s t \<and> sPrev s' t = sPrev s t \<and>
        tcbQueued (tcbState (tcbs s' t)) = tcbQueued (tcbState (tcbs s t)) \<and>
        tcbInReleaseQueue (tcbState (tcbs s' t)) = tcbInReleaseQueue (tcbState (tcbs s t)) \<and>
        tcbDomain (tcbs s' t) = tcbDomain (tcbs s t) \<and> tcbPriority (tcbs s' t) = tcbPriority (tcbs s t))"

lemma bitmap_ok_cong:
  "ksReadyQueuesL1Bitmap s' = ksReadyQueuesL1Bitmap s \<Longrightarrow>
   ksReadyQueuesL2Bitmap s' = ksReadyQueuesL2Bitmap s \<Longrightarrow> bitmap_ok N s' = bitmap_ok N s"
  by (simp add: bitmap_ok_def bitmap_l1_ok_def prio_bit_def)

lemma queues_ok_same:
  assumes "same_queue_state s s'"
  shows "queues_ok R Q s' = queues_ok R Q s"
proof -
  have links: "sNext s' = sNext s" "sPrev s' = sPrev s"
    using assms by (auto simp: same_queue_state_def)
  have q: "sched_queue s' q xs = sched_queue s q xs" for q xs
    unfolding sched_queue_def links ..
  have b: "bitmap_ok N s' = bitmap_ok N s" for N
    using assms by (intro bitmap_ok_cong) (simp_all add: same_queue_state_def)
  show ?thesis
    using assms unfolding queues_ok_def queue_links_ok_def q b same_queue_state_def by presburger
qed

section \<open>Insertion and removal\<close>

abbreviation upd_ready :: "(word_t \<Rightarrow> word_t \<Rightarrow> word_t list) \<Rightarrow> word_t \<Rightarrow> word_t \<Rightarrow> word_t list \<Rightarrow>
    word_t \<Rightarrow> word_t \<Rightarrow> word_t list" where
  "upd_ready R d p xs \<equiv> R(d := (R d)(p := xs))"

text \<open>Setting a flag of a thread after a step on the links of one queue.\<close>

lemma set_tcbState_links:
  "sNext (set_tcbState t f s) = sNext s" "sPrev (set_tcbState t f s) = sPrev s"
  by (auto simp: set_tcb_defs upd_defs)

lemma set_tcbState_fields:
  "tcbDomain (tcbs (set_tcbState t f s) p) = tcbDomain (tcbs s p)"
  "tcbPriority (tcbs (set_tcbState t f s) p) = tcbPriority (tcbs s p)"
  "tcbState (tcbs (set_tcbState t f s) p) = (if p = t then f (tcbState (tcbs s p)) else tcbState (tcbs s p))"
  "ksReadyQueues (set_tcbState t f s) = ksReadyQueues s"
  "ksReleaseQueue (set_tcbState t f s) = ksReleaseQueue s"
  "ksReadyQueuesL1Bitmap (set_tcbState t f s) = ksReadyQueuesL1Bitmap s"
  "ksReadyQueuesL2Bitmap (set_tcbState t f s) = ksReadyQueuesL2Bitmap s"
  by (simp_all add: set_tcb_defs upd_defs)

lemma only_sched_links_globals:
  assumes "only_sched_links S s s'"
  shows "ksReadyQueues s' = ksReadyQueues s" "ksReleaseQueue s' = ksReleaseQueue s"
    "ksReadyQueuesL1Bitmap s' = ksReadyQueuesL1Bitmap s"
    "ksReadyQueuesL2Bitmap s' = ksReadyQueuesL2Bitmap s" "scs s' = scs s"
proof -
  have eq: "s' = s\<lparr>tcbs := tcbs s'\<rparr>" using assms by (simp add: only_sched_links_def)
  show "ksReadyQueues s' = ksReadyQueues s" "ksReleaseQueue s' = ksReleaseQueue s"
    "ksReadyQueuesL1Bitmap s' = ksReadyQueuesL1Bitmap s"
    "ksReadyQueuesL2Bitmap s' = ksReadyQueuesL2Bitmap s" "scs s' = scs s"
    by (subst eq, simp)+
qed

lemma only_sched_links_outside:
  "only_sched_links S s s' \<Longrightarrow> p \<notin> S \<Longrightarrow> sNext s' p = sNext s p \<and> sPrev s' p = sPrev s p"
  by (simp add: only_sched_links_def)

abbreviation queued :: "kstate \<Rightarrow> word_t \<Rightarrow> bool" where
  "queued s t \<equiv> tcbQueued (tcbState (tcbs s t))"

abbreviation in_release :: "kstate \<Rightarrow> word_t \<Rightarrow> bool" where
  "in_release s t \<equiv> tcbInReleaseQueue (tcbState (tcbs s t))"

text \<open>
  One step for all queue operations: the links of the threads in \<open>S\<close> change from \<open>s\<close> to \<open>s2\<close>, then
  the flags of the thread \<open>t\<close> and the queue headers, giving \<open>s'\<close>.
\<close>

lemma queue_links_change:
  assumes inv: "queue_links_ok R Q s" and l: "only_sched_links S s s2"
    and links: "sNext s' = sNext s2" "sPrev s' = sPrev s2"
    and same: "\<And>u. tcbDomain (tcbs s' u) = tcbDomain (tcbs s u)"
      "\<And>u. tcbPriority (tcbs s' u) = tcbPriority (tcbs s u)"
      "\<And>u. u \<noteq> t \<Longrightarrow> queued s' u = queued s u \<and> in_release s' u = in_release s u"
    and ready: "\<And>d p. valid_domain d \<Longrightarrow> valid_prio p \<Longrightarrow>
      sched_queue s2 (ksReadyQueues s' (ready_queues_index d p)) (R' d p)"
    and release: "sched_queue s2 (ksReleaseQueue s') Q'"
    and mem: "\<And>u d p. u \<in> set (R' d p) \<longleftrightarrow>
      queued s' u \<and> tcbDomain (tcbs s u) = d \<and> tcbPriority (tcbs s u) = p"
      "\<And>u. u \<in> set Q' \<longleftrightarrow> in_release s' u"
    and valid_t: "queued s' t \<Longrightarrow> valid_domain (tcbDomain (tcbs s t)) \<and>
      valid_prio (tcbPriority (tcbs s t)) \<and> \<not> in_release s' t"
    and S: "\<And>u. u \<in> S \<Longrightarrow> u \<noteq> t \<Longrightarrow> queued s u \<or> in_release s u" "t \<in> S"
    and null: "\<not> queued s' t \<Longrightarrow> \<not> in_release s' t \<Longrightarrow> sNext s2 t = 0 \<and> sPrev s2 t = 0"
  shows "queue_links_ok R' Q' s'"
proof -
  note old = queue_links_okD [OF inv]
  have sq: "sched_queue s' q xs = sched_queue s2 q xs" for q xs
    unfolding sched_queue_def links ..
  have "sNext s' u = 0 \<and> sPrev s' u = 0" if "\<not> queued s' u" "\<not> in_release s' u" for u
  proof (cases "u = t")
    case True
    then show ?thesis using null that fun_cong [OF links(1)] fun_cong [OF links(2)] by simp
  next
    case False
    then have "u \<notin> S" using S(1) same(3) that by blast
    then show ?thesis
      using only_sched_links_outside [OF l] old(6) [of u] same(3) [OF False] that
        fun_cong [OF links(1)] fun_cong [OF links(2)] by simp
  qed
  moreover have "valid_domain (tcbDomain (tcbs s' u)) \<and> valid_prio (tcbPriority (tcbs s' u)) \<and>
      \<not> in_release s' u" if "queued s' u" for u
    using that old(3) [of u] same valid_t by (cases "u = t") simp_all
  ultimately show ?thesis
    using ready release mem same(1,2) unfolding queue_links_ok_def sq by simp
qed

lemma other_queue_frame:
  assumes inv: "queue_links_ok R Q s" and l: "only_sched_links (insert t (set (R d p))) s s2"
    and t: "queued s t \<Longrightarrow> t \<in> set (R d p)" "\<not> in_release s t"
  shows "(d', p') \<noteq> (d, p) \<Longrightarrow> sched_queue s2 q (R d' p') = sched_queue s q (R d' p')"
    and "sched_queue s2 q Q = sched_queue s q Q"
proof -
  note old = queue_links_okD [OF inv]
  show "sched_queue s2 q (R d' p') = sched_queue s q (R d' p')" if "(d', p') \<noteq> (d, p)"
  proof (rule sched_queue_frame [OF l])
    show "set (R d' p') \<inter> insert t (set (R d p)) = {}" using that t(1) old(2) by auto
  qed
  show "sched_queue s2 q Q = sched_queue s q Q"
    using old(2,3,5) t(2) by (intro sched_queue_frame [OF l]) blast
qed

lemma ready_insert:
  fixes s s2 t
  defines "d \<equiv> tcbDomain (tcbs s t)" and "p \<equiv> tcbPriority (tcbs s t)"
  assumes inv: "queue_links_ok R Q s" and t: "\<not> queued s t" "\<not> in_release s t"
    and v: "valid_domain d" "valid_prio p"
    and q': "sched_queue s2 q' xs'" "set xs' = insert t (set (R d p))"
    and l: "only_sched_links (insert t (set (R d p))) s s2"
  shows "queue_links_ok (upd_ready R d p xs') Q (set_tcbState t (\<lambda>ts. ts\<lparr>tcbQueued := True\<rparr>)
      (s2\<lparr>ksReadyQueues := (ksReadyQueues s2)(ready_queues_index d p := q')\<rparr>))"
    (is "queue_links_ok _ _ ?s")
proof -
  note old = queue_links_okD [OF inv] and keep = only_sched_links_fields [OF l] only_sched_links_globals [OF l]
  have frame: "(d', p') \<noteq> (d, p) \<Longrightarrow> sched_queue s2 q (R d' p') = sched_queue s q (R d' p')"
    "sched_queue s2 q Q = sched_queue s q Q" for d' p' q
    using other_queue_frame [OF inv l] t by blast+
  show ?thesis
  proof (rule queue_links_change [OF inv l, where t = t])
    show "sNext ?s = sNext s2" "sPrev ?s = sPrev s2" unfolding set_tcbState_links by simp_all
    fix d' p'
    assume v': "valid_domain d'" "valid_prio p'"
    show "sched_queue s2 (ksReadyQueues ?s (ready_queues_index d' p')) (upd_ready R d p xs' d' p')"
      using q'(1) old(1) [OF v'] frame(1) [of d' p'] ready_queues_index_eq_iff [OF v' v]
      by (cases "(d', p') = (d, p)") (auto simp: set_tcbState_fields keep)
  qed (use t v q' old(2,4,5) frame(2) in \<open>auto simp: set_tcbState_fields keep d_def p_def\<close>)
qed

lemma ready_remove:
  fixes s s2 t
  defines "d \<equiv> tcbDomain (tcbs s t)" and "p \<equiv> tcbPriority (tcbs s t)"
  assumes inv: "queue_links_ok R Q s" and t: "queued s t"
    and q': "sched_queue s2 q' xs'" "set xs' = set (R d p) - {t}" "sNext s2 t = 0" "sPrev s2 t = 0"
    and l: "only_sched_links (set (R d p)) s s2"
  shows "queue_links_ok (upd_ready R d p xs') Q (set_tcbState t (\<lambda>ts. ts\<lparr>tcbQueued := False\<rparr>)
      (s2\<lparr>ksReadyQueues := (ksReadyQueues s2)(ready_queues_index d p := q')\<rparr>))"
    (is "queue_links_ok _ _ ?s")
proof -
  note old = queue_links_okD [OF inv] and keep = only_sched_links_fields [OF l] only_sched_links_globals [OF l]
  have tR: "t \<in> set (R d p)" and v: "valid_domain d" "valid_prio p" "\<not> in_release s t"
    using old(2) old(3) [OF t] t by (simp_all add: d_def p_def)
  have l': "only_sched_links (insert t (set (R d p))) s s2" using l tR by (simp add: insert_absorb)
  have frame: "(d', p') \<noteq> (d, p) \<Longrightarrow> sched_queue s2 q (R d' p') = sched_queue s q (R d' p')"
    "sched_queue s2 q Q = sched_queue s q Q" for d' p' q
    using other_queue_frame [OF inv l'] tR v by blast+
  show ?thesis
  proof (rule queue_links_change [OF inv l, where t = t])
    show "sNext ?s = sNext s2" "sPrev ?s = sPrev s2" unfolding set_tcbState_links by simp_all
    fix d' p'
    assume v': "valid_domain d'" "valid_prio p'"
    show "sched_queue s2 (ksReadyQueues ?s (ready_queues_index d' p')) (upd_ready R d p xs' d' p')"
      using q'(1) old(1) [OF v'] frame(1) [of d' p'] ready_queues_index_eq_iff [OF v' v(1,2)]
      by (cases "(d', p') = (d, p)") (auto simp: set_tcbState_fields keep)
  qed (use tR v q' old(2,4,5) frame(2) in \<open>auto simp: set_tcbState_fields keep d_def p_def\<close>)
qed

lemma ready_queue_frame:
  assumes inv: "queue_links_ok R Q s" and l: "only_sched_links (insert t (set Q)) s s2" and t: "\<not> queued s t"
  shows "sched_queue s2 q (R d p) = sched_queue s q (R d p)"
  using queue_links_okD(2,3,5) [OF inv] t by (intro sched_queue_frame [OF l]) blast

lemma release_insert:
  assumes inv: "queue_links_ok R Q s" and t: "\<not> queued s t" "\<not> in_release s t"
    and q': "sched_queue s2 q' Q'" "set Q' = insert t (set Q)" and l: "only_sched_links (insert t (set Q)) s s2"
    and s3: "tcbs s3 = tcbs s2" "ksReadyQueues s3 = ksReadyQueues s2" "ksReleaseQueue s3 = q'"
  shows "queue_links_ok R Q' (set_tcbState t (\<lambda>ts. ts\<lparr>tcbInReleaseQueue := True\<rparr>) s3)"
    (is "queue_links_ok _ _ ?s")
proof -
  note old = queue_links_okD [OF inv] and keep = only_sched_links_fields [OF l] only_sched_links_globals [OF l]
  show ?thesis
  proof (rule queue_links_change [OF inv l, where t = t])
    show "sNext ?s = sNext s2" "sPrev ?s = sPrev s2" unfolding set_tcbState_links by (simp_all add: s3)
  qed (use t q' old(1,2,5) ready_queue_frame [OF inv l t(1)] in \<open>auto simp: set_tcbState_fields keep s3\<close>)
qed

lemma release_remove:
  assumes inv: "queue_links_ok R Q s" and t: "in_release s t"
    and q': "sched_queue s2 q' Q'" "set Q' = set Q - {t}" "sNext s2 t = 0" "sPrev s2 t = 0"
    and l: "only_sched_links (set Q) s s2"
    and s3: "tcbs s3 = tcbs s2" "ksReadyQueues s3 = ksReadyQueues s2" "ksReleaseQueue s3 = q'"
  shows "queue_links_ok R Q' (set_tcbState t (\<lambda>ts. ts\<lparr>tcbInReleaseQueue := False\<rparr>) s3)"
    (is "queue_links_ok _ _ ?s")
proof -
  note old = queue_links_okD [OF inv] and keep = only_sched_links_fields [OF l] only_sched_links_globals [OF l]
  have tQ: "t \<in> set Q" "\<not> queued s t" using old(3,5) t by blast+
  have l': "only_sched_links (insert t (set Q)) s s2" using l tQ by (simp add: insert_absorb)
  show ?thesis
  proof (rule queue_links_change [OF inv l, where t = t])
    show "sNext ?s = sNext s2" "sPrev ?s = sPrev s2" unfolding set_tcbState_links by (simp_all add: s3)
  qed (use tQ q' old(1,2,5) ready_queue_frame [OF inv l' tQ(2)] in \<open>auto simp: set_tcbState_fields keep s3\<close>)
qed

section \<open>The operations keep the invariant\<close>

lemma ready_enqueue:
  fixes s t R
  defines "d \<equiv> tcbDomain (tcbs s t)" and "p \<equiv> tcbPriority (tcbs s t)"
  defines "s1 \<equiv> if R d p = [] then addToBitmap d p s else s"
  assumes inv: "queues_ok R Q s" and t: "\<not> queued s t" "\<not> in_release s t"
    and v: "valid_domain d" "valid_prio p"
    and q': "sched_queue s2 q' xs'" "set xs' = insert t (set (R d p))"
    and l: "only_sched_links (insert t (set (R d p))) s1 s2"
  shows "queues_ok (upd_ready R d p xs') Q (set_tcbState t (\<lambda>ts. ts\<lparr>tcbQueued := True\<rparr>)
      (s2\<lparr>ksReadyQueues := (ksReadyQueues s2)(ready_queues_index d p := q')\<rparr>))"
proof -
  have tcbs: "tcbs s1 = tcbs s" by (simp add: s1_def addToBitmap_def Let_def)
  have links: "queue_links_ok R Q s1"
    using inv by (simp add: s1_def queues_ok_def bitmap_keeps_links)
  have "bitmap_ok (\<lambda>d' p'. R d' p' \<noteq> [] \<or> d' = d \<and> p' = p) s1"
  proof (cases "R d p = []")
    case True
    have "bitmap_ok (\<lambda>d p. R d p \<noteq> []) s" using inv by (simp add: queues_ok_def)
    from addToBitmap_ok [OF this v] True show ?thesis by (simp only: s1_def simp_thms if_True)
  next
    case False
    then have "(\<lambda>d' p'. R d' p' \<noteq> [] \<or> d' = d \<and> p' = p) = (\<lambda>d p. R d p \<noteq> [])" by (auto simp: fun_eq_iff)
    with False inv show ?thesis by (simp add: s1_def queues_ok_def)
  qed
  moreover have "(\<lambda>d' p'. upd_ready R d p xs' d' p' \<noteq> []) = (\<lambda>d' p'. R d' p' \<noteq> [] \<or> d' = d \<and> p' = p)"
    using q'(2) by (auto simp: fun_eq_iff)
  moreover have "bitmap_ok N (set_tcbState t f (s2\<lparr>ksReadyQueues := q\<rparr>)) = bitmap_ok N s1" for N f q
    using only_sched_links_globals(3,4) [OF l]
    by (intro bitmap_ok_cong) (simp_all add: set_tcbState_fields)
  ultimately show ?thesis
    using ready_insert [OF links] t v q' l unfolding queues_ok_def tcbs d_def p_def by simp
qed

lemma enqueue_start:
  assumes inv: "queues_ok R Q s" and t: "\<not> queued s t" "\<not> in_release s t"
    and v: "valid_domain d" "valid_prio p"
  defines "s1 \<equiv> if R d p = [] then addToBitmap d p s else s"
  shows "sched_queue s1 (ksReadyQueues s (ready_queues_index d p)) (R d p)"
    and "t \<notin> set (R d p)" and "sNext s1 t = 0" and "sPrev s1 t = 0"
    and "tcb_queue_empty (ksReadyQueues s (ready_queues_index d p)) \<longleftrightarrow> R d p = []"
    and "ksReadyQueues s1 = ksReadyQueues s"
proof -
  note old = queue_links_okD [of R Q s]
  have links: "queue_links_ok R Q s" using inv by (simp add: queues_ok_def)
  have same: "sNext s1 = sNext s" "sPrev s1 = sPrev s" "ksReadyQueues s1 = ksReadyQueues s"
    by (simp_all add: s1_def addToBitmap_def Let_def)
  show "sched_queue s1 (ksReadyQueues s (ready_queues_index d p)) (R d p)"
    using old(1) [OF links v] unfolding sched_queue_def same .
  show "tcb_queue_empty (ksReadyQueues s (ready_queues_index d p)) \<longleftrightarrow> R d p = []"
    using old(1) [OF links v] by (rule sched_queue_empty)
  show "t \<notin> set (R d p)" using old(2) [OF links] t by simp
  show "sNext s1 t = 0" "sPrev s1 t = 0" "ksReadyQueues s1 = ksReadyQueues s"
    using old(6) [OF links t] fun_cong [OF same(1)] fun_cong [OF same(2)] same(3) by simp_all
qed

lemma tcbSchedEnqueue_ok:
  fixes s t
  defines "d \<equiv> tcbDomain (tcbs s t)" and "p \<equiv> tcbPriority (tcbs s t)"
  assumes inv: "queues_ok R Q s" and t: "\<not> queued s t" "\<not> in_release s t" "t \<noteq> 0"
    and v: "valid_domain d" "valid_prio p"
  shows "queues_ok (upd_ready R d p (t # R d p)) Q (tcbSchedEnqueue t s)"
proof -
  define s1 where "s1 = (if R d p = [] then addToBitmap d p s else s)"
  note st = enqueue_start [OF inv t(1,2) v, folded s1_def]
  obtain q2 s2 where r: "tcb_queue_prepend (ksReadyQueues s (ready_queues_index d p)) t s1 = (q2, s2)"
    by (metis surj_pair)
  note pre = tcb_queue_prepend_list [OF st(1,2) t(3) st(3,4) r]
  have "tcbSchedEnqueue t s = set_tcbState t (\<lambda>ts. ts\<lparr>tcbQueued := True\<rparr>)
      (s2\<lparr>ksReadyQueues := (ksReadyQueues s2)(ready_queues_index d p := q2)\<rparr>)"
    using t(1) r st(5) unfolding tcbSchedEnqueue_def Let_def d_def p_def s1_def by simp
  then show ?thesis
    using ready_enqueue [OF inv t(1,2)] v pre unfolding s1_def d_def p_def by simp
qed

lemma tcbSchedAppend_ok:
  fixes s t
  defines "d \<equiv> tcbDomain (tcbs s t)" and "p \<equiv> tcbPriority (tcbs s t)"
  assumes inv: "queues_ok R Q s" and t: "\<not> queued s t" "\<not> in_release s t" "t \<noteq> 0"
    and v: "valid_domain d" "valid_prio p"
  shows "queues_ok (upd_ready R d p (R d p @ [t])) Q (tcbSchedAppend t s)"
proof -
  define s1 where "s1 = (if R d p = [] then addToBitmap d p s else s)"
  note st = enqueue_start [OF inv t(1,2) v, folded s1_def]
  obtain q2 s2 where r: "tcb_queue_append (ksReadyQueues s (ready_queues_index d p)) t s1 = (q2, s2)"
    by (metis surj_pair)
  note pre = tcb_queue_append_list [OF st(1,2) t(3) st(3,4) r]
  have "tcbSchedAppend t s = set_tcbState t (\<lambda>ts. ts\<lparr>tcbQueued := True\<rparr>)
      (s2\<lparr>ksReadyQueues := (ksReadyQueues s2)(ready_queues_index d p := q2)\<rparr>)"
    using t(1) r st(5) unfolding tcbSchedAppend_def Let_def d_def p_def s1_def by simp
  then show ?thesis
    using ready_enqueue [OF inv t(1,2)] v pre unfolding s1_def d_def p_def by simp
qed

lemma tcbSchedDequeue_ok:
  fixes s t
  defines "d \<equiv> tcbDomain (tcbs s t)" and "p \<equiv> tcbPriority (tcbs s t)"
  assumes inv: "queues_ok R Q s" and t: "queued s t"
  shows "queues_ok (upd_ready R d p (remove1 t (R d p))) Q (tcbSchedDequeue t s)"
proof -
  have links: "queue_links_ok R Q s" using inv by (simp add: queues_ok_def)
  note old = queue_links_okD [OF links]
  have tR: "t \<in> set (R d p)" and v: "valid_domain d" "valid_prio p"
    using old(2) old(3) [OF t] t by (simp_all add: d_def p_def)
  obtain us vs where R: "R d p = us @ t # vs" using split_list [OF tR] by blast
  have q: "sched_queue s (ksReadyQueues s (ready_queues_index d p)) (us @ t # vs)"
    using old(1) [OF v] R by simp
  have fresh: "t \<notin> set us" "t \<notin> set vs" using q by (auto simp: sched_queue_def dlist_def)
  then have rem: "remove1 t (R d p) = us @ vs" by (simp add: R remove1_append)
  obtain q2 s2 where r: "tcb_queue_remove (ksReadyQueues s (ready_queues_index d p)) t s = (q2, s2)"
    by (metis surj_pair)
  note post = tcb_queue_remove_list [OF q r]
  let ?s3 = "set_tcbState t (\<lambda>ts. ts\<lparr>tcbQueued := False\<rparr>)
      (s2\<lparr>ksReadyQueues := (ksReadyQueues s2)(ready_queues_index d p := q2)\<rparr>)"
  have run: "tcbSchedDequeue t s = (if us @ vs = [] then removeFromBitmap d p ?s3 else ?s3)"
    using t r sched_queue_empty [OF post(1)] unfolding tcbSchedDequeue_def Let_def d_def p_def by simp
  have l3: "queue_links_ok (upd_ready R d p (us @ vs)) Q ?s3"
    using ready_remove [OF links t, of s2 q2 "us @ vs"] post fresh R unfolding d_def p_def by auto
  have b3: "bitmap_ok N ?s3 = bitmap_ok N s" for N
    using only_sched_links_globals(3,4) [OF post(2)]
    by (intro bitmap_ok_cong) (simp_all add: set_tcbState_fields)
  have N: "(\<lambda>d' p'. upd_ready R d p (us @ vs) d' p' \<noteq> []) = (if us @ vs = []
      then (\<lambda>d' p'. R d' p' \<noteq> [] \<and> \<not> (d' = d \<and> p' = p)) else (\<lambda>d p. R d p \<noteq> []))"
    using R by (auto simp: fun_eq_iff)
  have "bitmap_ok (\<lambda>d' p'. upd_ready R d p (us @ vs) d' p' \<noteq> []) (tcbSchedDequeue t s)"
    unfolding N run using inv b3 removeFromBitmap_ok [OF _ v] by (simp add: queues_ok_def)
  moreover have "queue_links_ok (upd_ready R d p (us @ vs)) Q (tcbSchedDequeue t s)"
    unfolding run using l3 by (cases "us @ vs = []") (simp_all only: simp_thms if_True if_False bitmap_keeps_links)
  ultimately show ?thesis unfolding queues_ok_def rem by blast
qed

lemma tcbReleaseRemove_ok:
  assumes inv: "queues_ok R Q s" and t: "in_release s t"
  shows "queues_ok R (remove1 t Q) (tcbReleaseRemove t s)"
proof -
  have links: "queue_links_ok R Q s" using inv by (simp add: queues_ok_def)
  note old = queue_links_okD [OF links]
  obtain us vs where Q: "Q = us @ t # vs" using split_list old(5) t by metis
  define s1 where "s1 = (if tcbq_head (ksReleaseQueue s) = t then s\<lparr>ksReprogram := True\<rparr> else s)"
  have same: "tcbs s1 = tcbs s" "ksReadyQueues s1 = ksReadyQueues s" "ksReleaseQueue s1 = ksReleaseQueue s"
    "ksReadyQueuesL1Bitmap s1 = ksReadyQueuesL1Bitmap s" "ksReadyQueuesL2Bitmap s1 = ksReadyQueuesL2Bitmap s"
    by (simp_all add: s1_def)
  have links1: "queue_links_ok R Q s1"
    using links unfolding queue_links_ok_def sched_queue_def same .
  have q: "sched_queue s1 (ksReleaseQueue s) (us @ t # vs)"
    using old(4) unfolding Q sched_queue_def same .
  have fresh: "t \<notin> set us" "t \<notin> set vs" using q by (auto simp: sched_queue_def dlist_def)
  then have rem: "remove1 t Q = us @ vs" by (simp add: Q remove1_append)
  obtain q2 s2 where r: "tcb_queue_remove (ksReleaseQueue s) t s1 = (q2, s2)" by (metis surj_pair)
  note post = tcb_queue_remove_list [OF q r]
  have run: "tcbReleaseRemove t s =
      set_tcbState t (\<lambda>ts. ts\<lparr>tcbInReleaseQueue := False\<rparr>) (s2\<lparr>ksReleaseQueue := q2\<rparr>)"
    using t r unfolding tcbReleaseRemove_def Let_def s1_def by simp
  have "in_release s1 t" using t by (simp add: same)
  then have "queue_links_ok R (us @ vs) (tcbReleaseRemove t s)"
    unfolding run by (rule release_remove [OF links1]) (use post fresh Q in auto)
  moreover have "bitmap_ok N (tcbReleaseRemove t s) = bitmap_ok N s" for N
    using only_sched_links_globals(3,4) [OF post(2)] unfolding run
    by (intro bitmap_ok_cong) (simp_all add: set_tcbState_fields same)
  ultimately show ?thesis using inv by (simp add: queues_ok_def rem)
qed

definition release_sorted :: "kstate \<Rightarrow> word_t list \<Rightarrow> bool" where
  "release_sorted s Q \<longleftrightarrow> sorted_wrt (\<lambda>a b. tcbReadyTime s a \<le> tcbReadyTime s b) Q"

lemma release_enqueue_links:
  fixes s t Q
  defines "us \<equiv> filter (\<lambda>y. tcbReadyTime s y \<le> tcbReadyTime s t) Q"
    and "vs \<equiv> filter (\<lambda>y. tcbReadyTime s t < tcbReadyTime s y) Q"
  assumes q: "sched_queue s (ksReleaseQueue s) Q" and sorted: "release_sorted s Q"
    and t: "t \<notin> set Q" "t \<noteq> 0" "sNext s t = 0" "sPrev s t = 0"
  obtains s2 s3 q' where "sched_queue s2 q' (us @ t # vs)" and "only_sched_links (insert t (set Q)) s s2"
    and "tcbs s3 = tcbs s2" and "ksReadyQueues s3 = ksReadyQueues s2" and "ksReleaseQueue s3 = q'"
    and "ksReadyQueuesL1Bitmap s3 = ksReadyQueuesL1Bitmap s2"
    and "ksReadyQueuesL2Bitmap s3 = ksReadyQueuesL2Bitmap s2" and "scs s3 = scs s2"
    and "tcbReleaseEnqueue t s = Some (set_tcbState t (\<lambda>ts. ts\<lparr>tcbInReleaseQueue := True\<rparr>) s3)"
proof -
  let ?new = "tcbReadyTime s t" and ?q = "ksReleaseQueue s"
  have Q: "Q = us @ vs" unfolding us_def vs_def
    by (rule sorted_asc_split [OF sorted [unfolded release_sorted_def]])
  have usD: "\<And>y. y \<in> set us \<Longrightarrow> tcbReadyTime s y \<le> ?new" and vsD: "\<And>y. y \<in> set vs \<Longrightarrow> ?new < tcbReadyTime s y"
    by (auto simp: us_def vs_def)
  have ends: "tcbq_head ?q = hd_or 0 Q" "tcbq_end ?q = last_or 0 Q" and d: "dlist (sNext s) (sPrev s) (us @ vs)"
    using q Q by (simp_all add: sched_queue_def)
  have empty: "tcb_queue_empty ?q \<longleftrightarrow> Q = []" using sched_queue_empty [OF q] .
  consider (front) "us = []" | (rear) "us \<noteq> []" "vs = []" | (middle) "us \<noteq> []" "vs \<noteq> []" by blast
  then show thesis
  proof cases
    case front
    then have cond: "tcb_queue_empty ?q \<or> ?new < tcbReadyTime s (tcbq_head ?q)"
      using empty ends Q vsD by (cases vs) auto
    obtain q2 s2 where r: "tcb_queue_prepend ?q t s = (q2, s2)" by (metis surj_pair)
    note post = tcb_queue_prepend_list [OF q t r]
    show thesis
      by (rule that [of s2 q2 "s2\<lparr>ksReleaseQueue := q2, ksReprogram := True\<rparr>"])
        (use post Q front cond r in \<open>simp_all add: tcbReleaseEnqueue_def\<close>)
  next
    case rear
    then have cond: "\<not> (tcb_queue_empty ?q \<or> ?new < tcbReadyTime s (tcbq_head ?q))"
      "tcbReadyTime s (tcbq_end ?q) \<le> ?new"
      using empty ends Q usD last_in_set [of us] by (cases us; simp add: not_less last_or_def)+
    obtain q2 s2 where r: "tcb_queue_append ?q t s = (q2, s2)" by (metis surj_pair)
    note post = tcb_queue_append_list [OF q t r]
    show thesis
      by (rule that [of s2 q2 "s2\<lparr>ksReleaseQueue := q2\<rparr>"])
        (use post Q rear cond r in \<open>simp_all add: tcbReleaseEnqueue_def\<close>)
  next
    case middle
    have "tcbq_end ?q \<in> set vs" "tcbq_head ?q \<in> set us" using ends Q middle by (cases us; simp add: last_or_def)+
    then have cond: "\<not> (tcb_queue_empty ?q \<or> ?new < tcbReadyTime s (tcbq_head ?q))"
      "\<not> tcbReadyTime s (tcbq_end ?q) \<le> ?new"
      using empty Q usD vsD middle by (simp_all add: not_less not_le)
    have find: "find_time_after s (tcbq_head ?q) ?new = Some (hd_or 0 vs)"
      using time_search [of s "[]" us vs ?new, OF _ usD vsD] d ends Q by simp
    have tQ: "t \<notin> set (us @ vs)" and q2: "sched_queue s ?q (us @ vs)" using t Q q by simp_all
    note post = tcb_queue_insert_list [OF q2 tQ t(2) middle]
    let ?s2 = "tcb_queue_insert t (hd_or 0 vs) s"
    have rq: "ksReleaseQueue ?s2 = ?q" using only_sched_links_globals(2) [OF post(2)] .
    show thesis
      by (rule that [of ?s2 ?q ?s2]) (use post Q cond find rq in \<open>simp_all add: tcbReleaseEnqueue_def\<close>)
  qed
qed

lemma tcbReadyTime_cong:
  "scs s' = scs s \<Longrightarrow> tcbSchedContext (tcbs s' t) = tcbSchedContext (tcbs s t) \<Longrightarrow>
   tcbReadyTime s' t = tcbReadyTime s t"
  by (simp add: tcbReadyTime_def)

lemma tcbReleaseEnqueue_ok:
  fixes s t Q
  defines "Q' \<equiv> filter (\<lambda>y. tcbReadyTime s y \<le> tcbReadyTime s t) Q @ t #
      filter (\<lambda>y. tcbReadyTime s t < tcbReadyTime s y) Q"
  assumes inv: "queues_ok R Q s" and sorted: "release_sorted s Q"
    and t: "\<not> queued s t" "\<not> in_release s t" "t \<noteq> 0"
  obtains s' where "tcbReleaseEnqueue t s = Some s'" and "queues_ok R Q' s'" and "release_sorted s' Q'"
proof -
  have links: "queue_links_ok R Q s" using inv by (simp add: queues_ok_def)
  note old = queue_links_okD [OF links]
  have tQ: "t \<notin> set Q" and null: "sNext s t = 0" "sPrev s t = 0" using old(5,6) t by simp_all
  obtain s2 s3 q' where s2: "sched_queue s2 q' Q'" and l: "only_sched_links (insert t (set Q)) s s2"
    and s3: "tcbs s3 = tcbs s2" "ksReadyQueues s3 = ksReadyQueues s2" "ksReleaseQueue s3 = q'"
      "ksReadyQueuesL1Bitmap s3 = ksReadyQueuesL1Bitmap s2"
      "ksReadyQueuesL2Bitmap s3 = ksReadyQueuesL2Bitmap s2" "scs s3 = scs s2"
    and run: "tcbReleaseEnqueue t s = Some (set_tcbState t (\<lambda>ts. ts\<lparr>tcbInReleaseQueue := True\<rparr>) s3)"
    using release_enqueue_links [OF old(4) sorted tQ t(3) null] unfolding Q'_def by blast
  let ?s = "set_tcbState t (\<lambda>ts. ts\<lparr>tcbInReleaseQueue := True\<rparr>) s3"
  have "set Q' = insert t (set Q)" by (auto simp: Q'_def not_le)
  then have "queue_links_ok R Q' ?s" by (intro release_insert [OF links t(1,2) s2 _ l s3(1-3)])
  moreover have "bitmap_ok N ?s = bitmap_ok N s" for N
    using only_sched_links_globals(3,4) [OF l]
    by (intro bitmap_ok_cong) (simp_all add: set_tcbState_fields s3)
  moreover have "tcbReadyTime ?s u = tcbReadyTime s u" for u
    using only_sched_links_globals(5) [OF l] only_sched_links_fields(4) [OF l]
    by (intro tcbReadyTime_cong) (simp_all add: set_tcb_defs upd_defs s3)
  moreover have "release_sorted s Q'"
    unfolding release_sorted_def Q'_def using sorted [unfolded release_sorted_def] by (rule sorted_asc_insert)
  ultimately show thesis using run that inv by (simp add: queues_ok_def release_sorted_def)
qed

section \<open>Properties\<close>

text \<open>
  C32: The two-level bitmap finds the highest ready priority: when the first level of a domain is
  zero no queue of the domain holds a thread; otherwise \<open>getHighestPrio\<close> is the greatest
  priority whose queue is not empty, and its queue head is a ready thread of that
  domain and priority.
\<close>

theorem getHighestPrio_is_highest:
  assumes "queues_ok R Q s" and "valid_domain d"
  shows "(if ksReadyQueuesL1Bitmap s d = 0 then \<forall>p. valid_prio p \<longrightarrow> R d p = []
    else R d (getHighestPrio d s) \<noteq> [] \<and>
      (\<forall>p. valid_prio p \<longrightarrow> R d p \<noteq> [] \<longrightarrow> p \<le> getHighestPrio d s) \<and>
      tcbq_head (ksReadyQueues s (ready_queues_index d (getHighestPrio d s))) = hd (R d (getHighestPrio d s)) \<and>
      queued s (hd (R d (getHighestPrio d s))) \<and>
      tcbPriority (tcbs s (hd (R d (getHighestPrio d s)))) = getHighestPrio d s)"
proof -
  have links: "queue_links_ok R Q s" and bm: "bitmap_ok (\<lambda>d p. R d p \<noteq> []) s"
    using assms(1) by (simp_all add: queues_ok_def)
  show ?thesis
  proof (cases "ksReadyQueuesL1Bitmap s d = 0")
    case True
    then show ?thesis using bitmap_empty_iff [OF bm assms(2)] by simp
  next
    case False
    let ?p = "getHighestPrio d s"
    note hi = getHighestPrio_max [OF bm assms(2) False]
    have "hd (R d ?p) \<in> set (R d ?p)" using hi(2) by simp
    moreover have "tcbq_head (ksReadyQueues s (ready_queues_index d ?p)) = hd (R d ?p)"
      using queue_links_okD(1) [OF links assms(2) hi(1)] hi(2)
      by (cases "R d ?p") (simp_all add: sched_queue_def)
    ultimately show ?thesis
      using False hi queue_links_okD(2) [OF links] by simp
  qed
qed

text \<open>States of two threads for the examples: priority 7 and 200 in domain 0, none queued.\<close>

definition thread_a :: word_t where "thread_a = 0x1200"
definition thread_b :: word_t where "thread_b = 0x2200"

definition two_threads :: kstate where
  "two_threads = zero_state\<lparr>tcbs := (tcbs zero_state)
     (thread_a := zero_tcb\<lparr>tcbPriority := 7\<rparr>, thread_b := zero_tcb\<lparr>tcbPriority := 200\<rparr>)\<rparr>"

definition no_ready :: "word_t \<Rightarrow> word_t \<Rightarrow> word_t list" where
  "no_ready = (\<lambda>_ _. [])"

lemma two_threads_tcbs:
  "\<not> queued two_threads t" "\<not> in_release two_threads t" "sNext two_threads t = 0" "sPrev two_threads t = 0"
  "tcbDomain (tcbs two_threads t) = 0"
  "tcbPriority (tcbs two_threads t) = (if t = thread_a then 7 else if t = thread_b then 200 else 0)"
  by (auto simp: two_threads_def zero_defs thread_a_def thread_b_def)

lemma two_threads_ok: "queues_ok no_ready [] two_threads"
proof -
  have q: "ksReadyQueues two_threads = (\<lambda>_. \<lparr>tcbq_head = 0, tcbq_end = 0\<rparr>)"
    "ksReleaseQueue two_threads = \<lparr>tcbq_head = 0, tcbq_end = 0\<rparr>"
    "ksReadyQueuesL1Bitmap two_threads = (\<lambda>_. 0)" "ksReadyQueuesL2Bitmap two_threads = (\<lambda>_ _. 0)"
    by (simp_all add: two_threads_def zero_state_def)
  have "queue_links_ok no_ready [] two_threads"
    unfolding queue_links_ok_def using two_threads_tcbs
    by (simp add: no_ready_def sched_queue_def q del: fun_upd_apply)
  then show ?thesis
    by (simp add: queues_ok_def bitmap_ok_def bitmap_l1_ok_def prio_bit_def q no_ready_def)
qed

lemma valid_examples: "valid_domain 0" "valid_prio 7" "valid_prio 200"
  by (simp_all add: valid_domain_def valid_prio_def CONFIG_NUM_DOMAINS_def CONFIG_NUM_PRIORITIES_def)

definition ready_b :: "word_t \<Rightarrow> word_t \<Rightarrow> word_t list" where
  "ready_b = upd_ready no_ready 0 200 [thread_b]"

lemma two_threads_enqueued: "queues_ok ready_b [] (tcbSchedEnqueue thread_b two_threads)"
  using tcbSchedEnqueue_ok [OF two_threads_ok, of thread_b] two_threads_tcbs valid_examples
  by (simp add: ready_b_def no_ready_def thread_a_def thread_b_def)

lemma example_bitmap: "ksReadyQueuesL1Bitmap (tcbSchedEnqueue thread_b two_threads) 0 = 8"
  "getHighestPrio 0 (tcbSchedEnqueue thread_b two_threads) = 200"
  by code_simp+

theorem getHighestPrio_is_highest_witness:
  "getHighestPrio 0 (tcbSchedEnqueue thread_b two_threads) = 200 \<and>
   tcbq_head (ksReadyQueues (tcbSchedEnqueue thread_b two_threads) (ready_queues_index 0 200)) = thread_b"
  using getHighestPrio_is_highest [OF two_threads_enqueued valid_examples(1)]
  by (simp add: example_bitmap ready_b_def)

text \<open>
  C33: Enqueueing and appending a thread that is in no queue puts it at the front, respectively at the
  end, of the list of its domain and priority and changes no other list; links, flags,
  queue headers and both levels of the bitmap stay consistent.
\<close>

theorem tcbSched_insert_refines:
  fixes s t
  defines "d \<equiv> tcbDomain (tcbs s t)" and "p \<equiv> tcbPriority (tcbs s t)"
  assumes "queues_ok R Q s" and "\<not> queued s t" and "\<not> in_release s t" and "t \<noteq> 0"
    and "valid_domain d" and "valid_prio p"
  shows "queues_ok (upd_ready R d p (t # R d p)) Q (tcbSchedEnqueue t s) \<and>
    queues_ok (upd_ready R d p (R d p @ [t])) Q (tcbSchedAppend t s)"
  using tcbSchedEnqueue_ok tcbSchedAppend_ok assms by blast

theorem tcbSched_insert_refines_witness:
  "queues_ok (upd_ready no_ready 0 7 [thread_a]) [] (tcbSchedEnqueue thread_a two_threads) \<and>
   queues_ok (upd_ready no_ready 0 7 [thread_a]) [] (tcbSchedAppend thread_a two_threads)"
  using tcbSched_insert_refines [OF two_threads_ok, of thread_a] two_threads_tcbs valid_examples
  by (simp add: no_ready_def thread_a_def)

text \<open>
  C34: Dequeueing a ready thread removes it from its list, clears its links and flag, and clears
  its bitmap bits exactly when its list becomes empty; a thread that is not ready is left
  alone.
\<close>

theorem tcbSchedDequeue_refines:
  fixes s t
  defines "d \<equiv> tcbDomain (tcbs s t)" and "p \<equiv> tcbPriority (tcbs s t)"
  assumes "queues_ok R Q s"
  shows "queues_ok (if queued s t then upd_ready R d p (remove1 t (R d p)) else R) Q (tcbSchedDequeue t s)"
  using tcbSchedDequeue_ok [OF assms(3), of t] assms by (simp add: tcbSchedDequeue_def)

lemma example_b_queued: "queued (tcbSchedEnqueue thread_b two_threads) thread_b"
  "tcbDomain (tcbs (tcbSchedEnqueue thread_b two_threads) thread_b) = 0"
  "tcbPriority (tcbs (tcbSchedEnqueue thread_b two_threads) thread_b) = 200"
  by code_simp+

theorem tcbSchedDequeue_refines_witness:
  "queues_ok (upd_ready ready_b 0 200 []) [] (tcbSchedDequeue thread_b (tcbSchedEnqueue thread_b two_threads))"
  using tcbSchedDequeue_refines [OF two_threads_enqueued, of thread_b]
  by (simp add: example_b_queued ready_b_def)

text \<open>
  C35: \<open>tcbReleaseEnqueue\<close> always returns on a release queue ordered by time; it places the thread
  behind all threads whose refills are due no later and before all others, so the queue
  stays ordered, and the ready queues are untouched. \<open>tcbReleaseRemove\<close> takes a thread out.
\<close>

theorem tcbReleaseEnqueue_sorted:
  fixes s t Q
  defines "Q' \<equiv> filter (\<lambda>y. tcbReadyTime s y \<le> tcbReadyTime s t) Q @ t #
      filter (\<lambda>y. tcbReadyTime s t < tcbReadyTime s y) Q"
  assumes "queues_ok R Q s" and "release_sorted s Q"
    and "\<not> queued s t" and "\<not> in_release s t" and "t \<noteq> 0"
  shows "\<exists>s'. tcbReleaseEnqueue t s = Some s' \<and> queues_ok R Q' s' \<and> release_sorted s' Q' \<and>
    queues_ok R (remove1 t Q') (tcbReleaseRemove t s')"
proof -
  obtain s' where s': "tcbReleaseEnqueue t s = Some s'" "queues_ok R Q' s'" "release_sorted s' Q'"
    using tcbReleaseEnqueue_ok [OF assms(2-6)] unfolding Q'_def by blast
  then have "in_release s' t"
    using queue_links_okD(5) [of R Q' s' t] by (simp add: queues_ok_def Q'_def)
  with s' show ?thesis using tcbReleaseRemove_ok by blast
qed

theorem tcbReleaseEnqueue_sorted_witness:
  "\<exists>s'. tcbReleaseEnqueue thread_a two_threads = Some s' \<and> queues_ok no_ready [thread_a] s' \<and>
    queues_ok no_ready [] (tcbReleaseRemove thread_a s')"
  using tcbReleaseEnqueue_sorted [OF two_threads_ok, of thread_a] two_threads_tcbs
  by (auto simp: release_sorted_def thread_a_def)

text \<open>
  C36: \<open>tcbEPAppend\<close> always returns on an endpoint queue ordered by priority; it inserts the
  thread behind all threads of the same or a higher priority and before those of lower
  priority, which keeps the order and is first come, first served within a priority; it
  changes nothing but endpoint links. \<open>tcbEPDequeue\<close> removes the thread again.
\<close>

theorem tcbEPAppend_by_priority:
  fixes s x xs
  defines "pr \<equiv> \<lambda>y. tcbPriority (tcbs s y)"
  defines "xs' \<equiv> filter (\<lambda>y. pr x \<le> pr y) xs @ x # filter (\<lambda>y. pr y < pr x) xs"
  assumes "ep_queue s q xs" and "x \<notin> set xs" and "x \<noteq> 0"
    and "sorted_wrt (\<lambda>a b. pr b \<le> pr a) xs"
  shows "\<exists>q' s'. tcbEPAppend x q s = Some (q', s') \<and> ep_queue s' q' xs' \<and>
    sorted_wrt (\<lambda>a b. pr b \<le> pr a) xs' \<and> s' = s\<lparr>tcbs := tcbs s'\<rparr> \<and>
    (\<forall>p. (tcbs s' p)\<lparr>tcbEPNext := eNext s p, tcbEPPrev := ePrev s p\<rparr> = tcbs s p) \<and>
    (\<exists>q'' s''. tcbEPDequeue x q' s' = (q'', s'') \<and> ep_queue s'' q'' xs)"
proof -
  obtain q' s' where s': "tcbEPAppend x q s = Some (q', s')" "ep_queue s' q' xs'" "s' = s\<lparr>tcbs := tcbs s'\<rparr>"
    "\<And>p. (tcbs s' p)\<lparr>tcbEPNext := eNext s p, tcbEPPrev := ePrev s p\<rparr> = tcbs s p"
    using tcbEPAppend_list [OF assms(3,4,5) assms(6) [unfolded pr_def]] unfolding xs'_def pr_def by metis
  obtain q'' s'' where dq: "tcbEPDequeue x q' s' = (q'', s'')" by (metis surj_pair)
  have "ep_queue s'' q'' (filter (\<lambda>y. pr x \<le> pr y) xs @ filter (\<lambda>y. pr y < pr x) xs)"
    using tcbEPDequeue_list(1) [OF s'(2) [unfolded xs'_def] dq] .
  then have "ep_queue s'' q'' xs" using sorted_desc_split [OF assms(6), of "pr x"] by simp
  moreover have "sorted_wrt (\<lambda>a b. pr b \<le> pr a) xs'"
    unfolding xs'_def using assms(6) by (rule sorted_desc_insert)
  ultimately show ?thesis using s' dq by blast
qed

theorem tcbEPAppend_by_priority_witness:
  "\<exists>q' s'. tcbEPAppend thread_b \<lparr>tcbq_head = thread_a, tcbq_end = thread_a\<rparr> two_threads = Some (q', s') \<and>
    ep_queue s' q' [thread_b, thread_a]"
proof -
  have "ep_queue two_threads \<lparr>tcbq_head = thread_a, tcbq_end = thread_a\<rparr> [thread_a]"
    by (simp add: ep_queue_def dlist_single two_threads_def zero_defs thread_a_def thread_b_def)
  then show ?thesis
    using tcbEPAppend_by_priority [of two_threads "\<lparr>tcbq_head = thread_a, tcbq_end = thread_a\<rparr>" "[thread_a]" thread_b]
      two_threads_tcbs by (auto simp: thread_a_def thread_b_def)
qed

end
