(* ===== verification/MDB.thy ===== *)
theory MDB
  imports Links Caps CSpace
begin

text \<open>
  The mapping database of \<^verbatim>\<open>src/object/cnode.c\<close>: capability slots linked into chains in which
  a derived capability follows the one it was derived from. The theory models insertion,
  move, swap and removal of capabilities, the parent test, \<open>deriveCap\<close> and
  \<open>createNewObjects\<close> of \<^verbatim>\<open>src/object/objecttype.c\<close>, and proves that the chains stay well
  formed.
\<close>

section \<open>Operations\<close>

definition set_cap :: "word_t \<Rightarrow> cap \<Rightarrow> kstate \<Rightarrow> kstate" where
  "set_cap p c = upd_cte p (\<lambda>cte. cte\<lparr>cte_cap := c\<rparr>)"

definition set_mdb :: "word_t \<Rightarrow> mdb_node \<Rightarrow> kstate \<Rightarrow> kstate" where
  "set_mdb p m = upd_cte p (\<lambda>cte. cte\<lparr>cteMDBNode := m\<rparr>)"

definition set_mdbNext :: "word_t \<Rightarrow> word_t \<Rightarrow> kstate \<Rightarrow> kstate" where
  "set_mdbNext p v = upd_cte p (\<lambda>cte. cte\<lparr>cteMDBNode := (cteMDBNode cte)\<lparr>mdbNext := v\<rparr>\<rparr>)"

definition set_mdbPrev :: "word_t \<Rightarrow> word_t \<Rightarrow> kstate \<Rightarrow> kstate" where
  "set_mdbPrev p v = upd_cte p (\<lambda>cte. cte\<lparr>cteMDBNode := (cteMDBNode cte)\<lparr>mdbPrev := v\<rparr>\<rparr>)"

definition set_mdbFirstBadged :: "word_t \<Rightarrow> bool \<Rightarrow> kstate \<Rightarrow> kstate" where
  "set_mdbFirstBadged p v =
     upd_cte p (\<lambda>cte. cte\<lparr>cteMDBNode := (cteMDBNode cte)\<lparr>mdbFirstBadged := v\<rparr>\<rparr>)"

definition MAX_FREE_INDEX :: "word_t \<Rightarrow> word_t" where
  "MAX_FREE_INDEX sizeBits = BIT (unat sizeBits - seL4_MinUntypedBits)"

definition cap_untyped_cap_set_capFreeIndex :: "cap \<Rightarrow> word_t \<Rightarrow> cap" where
  "cap_untyped_cap_set_capFreeIndex cap v =
     cap_untyped_cap v (capIsDevice cap) (capBlockSize cap) (capPtr cap)"

definition setUntypedCapAsFull :: "cap \<Rightarrow> cap \<Rightarrow> word_t \<Rightarrow> kstate \<Rightarrow> kstate" where
  "setUntypedCapAsFull srcCap newCap srcSlot s =
     (if is_cap_untyped_cap srcCap \<and> is_cap_untyped_cap newCap then
        if capPtr srcCap = capPtr newCap \<and> capBlockSize newCap = capBlockSize srcCap then
          set_cap srcSlot (cap_untyped_cap_set_capFreeIndex (cte_cap (ctes s srcSlot))
            (MAX_FREE_INDEX (capBlockSize srcCap))) s
        else s
      else s)"

definition cteInsert :: "cap \<Rightarrow> word_t \<Rightarrow> word_t \<Rightarrow> kstate \<Rightarrow> kstate" where
  "cteInsert newCap srcSlot destSlot s =
     (let srcMDB = cteMDBNode (ctes s srcSlot);
          srcCap = cte_cap (ctes s srcSlot);
          newCapIsRevocable = isCapRevocable newCap srcCap;
          newMDB = srcMDB\<lparr>mdbPrev := srcSlot\<rparr>;
          newMDB = newMDB\<lparr>mdbRevocable := newCapIsRevocable\<rparr>;
          newMDB = newMDB\<lparr>mdbFirstBadged := newCapIsRevocable\<rparr>;
          s = setUntypedCapAsFull srcCap newCap srcSlot s;
          s = set_cap destSlot newCap s;
          s = set_mdb destSlot newMDB s;
          s = set_mdbNext srcSlot destSlot s
      in if mdbNext newMDB \<noteq> 0 then set_mdbPrev (mdbNext newMDB) destSlot s else s)"

definition cteMove :: "cap \<Rightarrow> word_t \<Rightarrow> word_t \<Rightarrow> kstate \<Rightarrow> kstate" where
  "cteMove newCap srcSlot destSlot s =
     (let mdb = cteMDBNode (ctes s srcSlot);
          s = set_cap destSlot newCap s;
          s = set_cap srcSlot cap_null_cap s;
          s = set_mdb destSlot mdb s;
          s = set_mdb srcSlot nullMDBNode s;
          prev_ptr = mdbPrev mdb;
          s = (if prev_ptr \<noteq> 0 then set_mdbNext prev_ptr destSlot s else s);
          next_ptr = mdbNext mdb
      in if next_ptr \<noteq> 0 then set_mdbPrev next_ptr destSlot s else s)"

definition cteSwap :: "cap \<Rightarrow> word_t \<Rightarrow> cap \<Rightarrow> word_t \<Rightarrow> kstate \<Rightarrow> kstate" where
  "cteSwap cap1 slot1 cap2 slot2 s =
     (let s = set_cap slot1 cap2 s;
          s = set_cap slot2 cap1 s;
          mdb1 = cteMDBNode (ctes s slot1);
          s = (if mdbPrev mdb1 \<noteq> 0 then set_mdbNext (mdbPrev mdb1) slot2 s else s);
          s = (if mdbNext mdb1 \<noteq> 0 then set_mdbPrev (mdbNext mdb1) slot2 s else s);
          mdb2 = cteMDBNode (ctes s slot2);
          s = set_mdb slot1 mdb2 s;
          s = set_mdb slot2 mdb1 s;
          s = (if mdbPrev mdb2 \<noteq> 0 then set_mdbNext (mdbPrev mdb2) slot1 s else s)
      in if mdbNext mdb2 \<noteq> 0 then set_mdbPrev (mdbNext mdb2) slot1 s else s)"

definition capSwapForDelete :: "word_t \<Rightarrow> word_t \<Rightarrow> kstate \<Rightarrow> kstate" where
  "capSwapForDelete slot1 slot2 s =
     (if slot1 = slot2 then s
      else cteSwap (cte_cap (ctes s slot1)) slot1 (cte_cap (ctes s slot2)) slot2 s)"

text \<open>
  Deleting the last handler capability of an interrupt line makes the line inactive; masking
  it in the interrupt controller is a hardware access. \<open>Arch_postCapDeletion\<close> has an empty
  body on RISC-V.
\<close>

definition setIRQState :: "irq_state \<Rightarrow> word_t \<Rightarrow> kstate \<Rightarrow> kstate" where
  "setIRQState irqState irq s = s\<lparr>intStateIRQTable := (intStateIRQTable s)(irq := irqState)\<rparr>"

definition deletedIRQHandler :: "word_t \<Rightarrow> kstate \<Rightarrow> kstate" where
  "deletedIRQHandler irq s = setIRQState IRQInactive irq s"

definition postCapDeletion :: "cap \<Rightarrow> kstate \<Rightarrow> kstate" where
  "postCapDeletion cap s = (case cap of cap_irq_handler_cap irq \<Rightarrow> deletedIRQHandler irq s | _ \<Rightarrow> s)"

definition emptySlot :: "word_t \<Rightarrow> cap \<Rightarrow> kstate \<Rightarrow> kstate" where
  "emptySlot slot cleanupInfo s =
     (if cte_cap (ctes s slot) \<noteq> cap_null_cap then
        let mdbNode = cteMDBNode (ctes s slot);
            prev = mdbPrev mdbNode;
            nxt = mdbNext mdbNode;
            s = (if prev \<noteq> 0 then set_mdbNext prev nxt s else s);
            s = (if nxt \<noteq> 0 then set_mdbPrev nxt prev s else s);
            s = (if nxt \<noteq> 0 then set_mdbFirstBadged nxt
                   (mdbFirstBadged (cteMDBNode (ctes s nxt)) \<or> mdbFirstBadged mdbNode) s else s);
            s = set_cap slot cap_null_cap s;
            s = set_mdb slot nullMDBNode s
        in postCapDeletion cleanupInfo s
      else s)"

definition insertNewCap :: "word_t \<Rightarrow> word_t \<Rightarrow> cap \<Rightarrow> kstate \<Rightarrow> kstate" where
  "insertNewCap parent slot cap s =
     (let nxt = mdbNext (cteMDBNode (ctes s parent));
          s = set_cap slot cap s;
          s = set_mdb slot \<lparr>mdbNext = nxt, mdbRevocable = True, mdbFirstBadged = True, mdbPrev = parent\<rparr> s;
          s = (if nxt \<noteq> 0 then set_mdbPrev nxt slot s else s)
      in set_mdbNext parent slot s)"

definition Arch_isMDBParentOf :: "cap \<Rightarrow> cap \<Rightarrow> bool \<Rightarrow> bool" where
  "Arch_isMDBParentOf cap_a cap_b firstBadged = True"

definition isMDBParentOf :: "word_t \<Rightarrow> word_t \<Rightarrow> kstate \<Rightarrow> bool" where
  "isMDBParentOf a b s =
     (let cte_a = ctes s a; cte_b = ctes s b in
      if \<not> mdbRevocable (cteMDBNode cte_a) then False
      else if \<not> sameRegionAs (cte_cap cte_a) (cte_cap cte_b) then False
      else if \<not> Arch_isMDBParentOf (cte_cap cte_a) (cte_cap cte_b) (mdbFirstBadged (cteMDBNode cte_b)) then False
      else (case cte_cap cte_a of
          cap_endpoint_cap badge _ _ _ _ _ \<Rightarrow>
            (if badge = 0 then True
             else badge = capEPBadge (cte_cap cte_b) \<and> \<not> mdbFirstBadged (cteMDBNode cte_b))
        | cap_notification_cap badge _ _ _ \<Rightarrow>
            (if badge = 0 then True
             else badge = capNtfnBadge (cte_cap cte_b) \<and> \<not> mdbFirstBadged (cteMDBNode cte_b))
        | _ \<Rightarrow> True))"

definition ensureNoChildren :: "word_t \<Rightarrow> kstate \<Rightarrow> exception \<times> kstate" where
  "ensureNoChildren slot s =
     (let nxt = mdbNext (cteMDBNode (ctes s slot)) in
      if nxt \<noteq> 0 \<and> isMDBParentOf slot nxt s
      then (EXCEPTION_SYSCALL_ERROR, set_syscall_error (err_type_update (\<lambda>_. seL4_RevokeFirst)) s)
      else (EXCEPTION_NONE, s))"

definition ensureEmptySlot :: "word_t \<Rightarrow> kstate \<Rightarrow> exception \<times> kstate" where
  "ensureEmptySlot slot s =
     (if cte_cap (ctes s slot) \<noteq> cap_null_cap
      then (EXCEPTION_SYSCALL_ERROR, set_syscall_error (err_type_update (\<lambda>_. seL4_DeleteFirst)) s)
      else (EXCEPTION_NONE, s))"

definition isFinalCapability :: "word_t \<Rightarrow> kstate \<Rightarrow> bool" where
  "isFinalCapability slot s =
     (let mdb = cteMDBNode (ctes s slot);
          cap = cte_cap (ctes s slot);
          prevIsSameObject = (if mdbPrev mdb = 0 then False
            else sameObjectAs (cte_cap (ctes s (mdbPrev mdb))) cap)
      in if prevIsSameObject then False
         else if mdbNext mdb = 0 then True
         else \<not> sameObjectAs cap (cte_cap (ctes s (mdbNext mdb))))"

definition slotCapLongRunningDelete :: "word_t \<Rightarrow> kstate \<Rightarrow> bool" where
  "slotCapLongRunningDelete slot s =
     (if cte_cap (ctes s slot) = cap_null_cap then False
      else if \<not> isFinalCapability slot s then False
      else case cte_cap (ctes s slot) of
          cap_thread_cap _ \<Rightarrow> True
        | cap_zombie_cap _ _ \<Rightarrow> True
        | cap_cnode_cap _ _ _ _ \<Rightarrow> True
        | _ \<Rightarrow> False)"

definition invokeCNodeInsert :: "cap \<Rightarrow> word_t \<Rightarrow> word_t \<Rightarrow> kstate \<Rightarrow> exception \<times> kstate" where
  "invokeCNodeInsert cap srcSlot destSlot s = (EXCEPTION_NONE, cteInsert cap srcSlot destSlot s)"

definition invokeCNodeMove :: "cap \<Rightarrow> word_t \<Rightarrow> word_t \<Rightarrow> kstate \<Rightarrow> exception \<times> kstate" where
  "invokeCNodeMove cap srcSlot destSlot s = (EXCEPTION_NONE, cteMove cap srcSlot destSlot s)"

definition invokeCNodeRotate ::
  "cap \<Rightarrow> cap \<Rightarrow> word_t \<Rightarrow> word_t \<Rightarrow> word_t \<Rightarrow> kstate \<Rightarrow> exception \<times> kstate" where
  "invokeCNodeRotate cap1 cap2 slot1 slot2 slot3 s =
     (if slot1 = slot3 then (EXCEPTION_NONE, cteSwap cap1 slot1 cap2 slot2 s)
      else (EXCEPTION_NONE, cteMove cap1 slot1 slot2 (cteMove cap2 slot2 slot3 s)))"

text \<open>
  Deriving a capability for a copy. The result carries the exception and the capability; the
  value None stands for the kernel halt of an impossible capability type.
\<close>

record deriveCap_ret =
  dc_status :: exception
  dc_cap :: cap

definition Arch_deriveCap :: "word_t \<Rightarrow> cap \<Rightarrow> kstate \<Rightarrow> (deriveCap_ret \<times> kstate) option" where
  "Arch_deriveCap slot cap s = (case cap of
       cap_page_table_cap _ _ isMapped _ \<Rightarrow>
         (if isMapped then Some (\<lparr>dc_status = EXCEPTION_NONE, dc_cap = cap\<rparr>, s)
          else Some (\<lparr>dc_status = EXCEPTION_SYSCALL_ERROR, dc_cap = cap_null_cap\<rparr>,
            set_syscall_error (err_type_update (\<lambda>_. seL4_IllegalOperation)) s))
     | cap_frame_cap _ base sz rights dev _ \<Rightarrow>
         Some (\<lparr>dc_status = EXCEPTION_NONE, dc_cap = cap_frame_cap asidInvalid base sz rights dev 0\<rparr>, s)
     | cap_asid_control_cap \<Rightarrow> Some (\<lparr>dc_status = EXCEPTION_NONE, dc_cap = cap\<rparr>, s)
     | cap_asid_pool_cap _ _ \<Rightarrow> Some (\<lparr>dc_status = EXCEPTION_NONE, dc_cap = cap\<rparr>, s)
     | _ \<Rightarrow> None)"

definition deriveCap :: "word_t \<Rightarrow> cap \<Rightarrow> kstate \<Rightarrow> (deriveCap_ret \<times> kstate) option" where
  "deriveCap slot cap s =
     (if isArchCap cap then Arch_deriveCap slot cap s
      else case cap of
          cap_zombie_cap _ _ \<Rightarrow> Some (\<lparr>dc_status = EXCEPTION_NONE, dc_cap = cap_null_cap\<rparr>, s)
        | cap_irq_control_cap \<Rightarrow> Some (\<lparr>dc_status = EXCEPTION_NONE, dc_cap = cap_null_cap\<rparr>, s)
        | cap_untyped_cap _ _ _ _ \<Rightarrow>
            (let (status, s) = ensureNoChildren slot s
             in Some (\<lparr>dc_status = status,
                  dc_cap = (if status \<noteq> EXCEPTION_NONE then cap_null_cap else cap)\<rparr>, s))
        | _ \<Rightarrow> Some (\<lparr>dc_status = EXCEPTION_NONE, dc_cap = cap\<rparr>, s))"

text \<open>The objects of a retype, numbered from \<open>i\<close>; the C loop counts \<open>i\<close> up to \<open>destLength\<close>.\<close>

fun createNewObjects_loop ::
  "word_t \<Rightarrow> word_t \<Rightarrow> word_t \<Rightarrow> word_t \<Rightarrow> word_t \<Rightarrow> word_t \<Rightarrow> bool \<Rightarrow> nat \<Rightarrow> nat \<Rightarrow> kstate \<Rightarrow> kstate option" where
  "createNewObjects_loop t parent destCNode destOffset regionBase userSize dev i 0 s = Some s"
| "createNewObjects_loop t parent destCNode destOffset regionBase userSize dev i (Suc n) s =
     (case createObject t (regionBase + push_bit (unat (getObjectSize t userSize)) (of_nat i)) userSize dev s of
        None \<Rightarrow> None
      | Some (cap, s) \<Rightarrow>
          createNewObjects_loop t parent destCNode destOffset regionBase userSize dev (Suc i) n
            (insertNewCap parent (slot_at destCNode (destOffset + of_nat i)) cap s))"

definition createNewObjects ::
  "word_t \<Rightarrow> word_t \<Rightarrow> word_t \<Rightarrow> word_t \<Rightarrow> word_t \<Rightarrow> word_t \<Rightarrow> word_t \<Rightarrow> bool \<Rightarrow> kstate \<Rightarrow> kstate option" where
  "createNewObjects t parent destCNode destOffset destLength regionBase userSize dev s =
     createNewObjects_loop t parent destCNode destOffset regionBase userSize dev 0 (unat destLength) s"

section \<open>Chains of capabilities\<close>

definition mdb_next :: "kstate \<Rightarrow> word_t \<Rightarrow> word_t" where
  "mdb_next s p = mdbNext (cteMDBNode (ctes s p))"

definition mdb_prev :: "kstate \<Rightarrow> word_t \<Rightarrow> word_t" where
  "mdb_prev s p = mdbPrev (cteMDBNode (ctes s p))"

definition cap_at :: "kstate \<Rightarrow> word_t \<Rightarrow> cap" where
  "cap_at s p = cte_cap (ctes s p)"

definition live_slots :: "kstate \<Rightarrow> word_t set" where
  "live_slots s = {p. p \<noteq> 0 \<and> cap_at s p \<noteq> cap_null_cap}"

text \<open>
  The invariant: the slots that hold a capability form disjoint doubly linked chains, and
  the links of empty slots are null.
\<close>

definition mdb_ok :: "word_t list set \<Rightarrow> kstate \<Rightarrow> bool" where
  "mdb_ok CS s \<longleftrightarrow> chains (mdb_next s) (mdb_prev s) CS (live_slots s)"

lemmas set_cte_defs = set_cap_def set_mdb_def set_mdbNext_def set_mdbPrev_def
  set_mdbFirstBadged_def upd_cte_def

lemma cap_at_set [simp]:
  "cap_at (set_cap p c s) = (cap_at s)(p := c)"
  "cap_at (set_mdb p m s) = cap_at s"
  "cap_at (set_mdbNext p v s) = cap_at s"
  "cap_at (set_mdbPrev p v s) = cap_at s"
  "cap_at (set_mdbFirstBadged p f s) = cap_at s"
  by (auto simp: cap_at_def set_cte_defs)

lemma mdb_node_set [simp]:
  "cteMDBNode (ctes (set_cap p c s) q) = cteMDBNode (ctes s q)"
  "cteMDBNode (ctes (set_mdb p m s) q) = (if q = p then m else cteMDBNode (ctes s q))"
  by (auto simp: set_cte_defs)

lemma mdb_links_set [simp]:
  "mdb_next (set_cap p c s) = mdb_next s" "mdb_prev (set_cap p c s) = mdb_prev s"
  "mdb_next (set_mdb p m s) = (mdb_next s)(p := mdbNext m)"
  "mdb_prev (set_mdb p m s) = (mdb_prev s)(p := mdbPrev m)"
  "mdb_next (set_mdbFirstBadged p f s) = mdb_next s"
  "mdb_prev (set_mdbFirstBadged p f s) = mdb_prev s"
  by (auto simp: mdb_next_def mdb_prev_def set_cte_defs)

interpretation mdb: link_store mdb_next mdb_prev set_mdbNext set_mdbPrev
  by unfold_locales (auto simp: mdb_next_def mdb_prev_def set_cte_defs)

declare mdb.links_set [simp]

lemma mdb_fields:
  "mdbNext (cteMDBNode (ctes s p)) = mdb_next s p" "mdbPrev (cteMDBNode (ctes s p)) = mdb_prev s p"
  "cte_cap (ctes s p) = cap_at s p"
  by (simp_all add: mdb_next_def mdb_prev_def cap_at_def)

lemma postCapDeletion_ctes [simp]:
  "cap_at (postCapDeletion c s) = cap_at s" "mdb_next (postCapDeletion c s) = mdb_next s"
  "mdb_prev (postCapDeletion c s) = mdb_prev s" "ctes (postCapDeletion c s) = ctes s"
  by (auto simp: postCapDeletion_def deletedIRQHandler_def setIRQState_def cap_at_def mdb_next_def
      mdb_prev_def split: cap.split)

lemma setUntypedCapAsFull_links [simp]:
  "mdb_next (setUntypedCapAsFull c d p s) = mdb_next s"
  "mdb_prev (setUntypedCapAsFull c d p s) = mdb_prev s"
  by (simp_all add: setUntypedCapAsFull_def)

definition after_copy :: "cap \<Rightarrow> cap \<Rightarrow> cap" where
  "after_copy srcCap newCap =
     (if is_cap_untyped_cap srcCap \<and> is_cap_untyped_cap newCap \<and> capPtr srcCap = capPtr newCap \<and>
         capBlockSize newCap = capBlockSize srcCap
      then cap_untyped_cap (MAX_FREE_INDEX (capBlockSize srcCap)) (capIsDevice srcCap)
        (capBlockSize srcCap) (capPtr srcCap)
      else srcCap)"

lemma cap_at_setUntypedCapAsFull [simp]:
  "cap_at (setUntypedCapAsFull (cap_at s p) d p s) = (cap_at s)(p := after_copy (cap_at s p) d)"
  by (simp add: setUntypedCapAsFull_def after_copy_def cap_untyped_cap_set_capFreeIndex_def mdb_fields)

lemma cteInsert_links:
  "mdb_next (cteInsert c p x s) = (mdb_next s)(x := mdb_next s p, p := x)"
  "mdb_prev (cteInsert c p x s) = set_at (mdb_next s p) x ((mdb_prev s)(x := p))"
  "cap_at (cteInsert c p x s) = (cap_at s)(p := after_copy (cap_at s p) c, x := c)"
  by (simp_all add: cteInsert_def Let_def mdb_fields set_at_def)

lemma insertNewCap_links:
  "p \<noteq> x \<Longrightarrow> mdb_next (insertNewCap p x c s) = (mdb_next s)(x := mdb_next s p, p := x)"
  "mdb_prev (insertNewCap p x c s) = set_at (mdb_next s p) x ((mdb_prev s)(x := p))"
  "cap_at (insertNewCap p x c s) = (cap_at s)(x := c)"
  by (simp_all add: insertNewCap_def Let_def mdb_fields set_at_def)

lemma emptySlot_links:
  assumes "cap_at s x \<noteq> cap_null_cap"
  shows "mdb_next (emptySlot x c s) = (set_at (mdb_prev s x) (mdb_next s x) (mdb_next s))(x := 0)"
    "mdb_prev (emptySlot x c s) = (set_at (mdb_next s x) (mdb_prev s x) (mdb_prev s))(x := 0)"
    "cap_at (emptySlot x c s) = (cap_at s)(x := cap_null_cap)"
  using assms by (simp_all add: emptySlot_def Let_def mdb_fields set_at_def nullMDBNode_def)

lemma mdb_ok_links:
  assumes ok: "mdb_ok CS s"
  shows "y \<noteq> 0 \<Longrightarrow> mdb_next s y \<noteq> 0 \<Longrightarrow> mdb_prev s (mdb_next s y) = y \<and> mdb_next s y \<noteq> y"
    "y \<noteq> 0 \<Longrightarrow> mdb_prev s y \<noteq> 0 \<Longrightarrow> mdb_next s (mdb_prev s y) = y \<and> mdb_prev s y \<noteq> y"
  using chains_links [OF ok [unfolded mdb_ok_def], of y] by auto

text \<open>Move and swap exchange the positions of the two slots.\<close>

lemma cteMove_links:
  assumes ok: "mdb_ok CS s" and src: "src \<noteq> 0" and dest: "dest \<noteq> 0" "cap_at s dest = cap_null_cap"
    and ne: "src \<noteq> dest" and x: "x \<noteq> 0"
  shows "mdb_next (cteMove c src dest s) (swap_ptr src dest x) = swap_ptr src dest (mdb_next s x)"
    "mdb_prev (cteMove c src dest s) (swap_ptr src dest x) = swap_ptr src dest (mdb_prev s x)"
proof -
  note C = ok [unfolded mdb_ok_def]
  have d: "mdb_next s dest = 0" "mdb_prev s dest = 0" "dest \<notin> live_slots s"
    using chainsD(5,6) [OF C, of dest] dest by (auto simp: live_slots_def)
  have m: "mdb_next (cteMove c src dest s) =
      set_at (mdb_prev s src) dest ((mdb_next s)(dest := mdb_next s src, src := 0))"
    "mdb_prev (cteMove c src dest s) =
      set_at (mdb_next s src) dest ((mdb_prev s)(dest := mdb_prev s src, src := 0))"
    by (simp_all add: cteMove_def Let_def mdb_fields set_at_def nullMDBNode_def)
  note l = mdb_ok_links [OF ok]
  show "mdb_next (cteMove c src dest s) (swap_ptr src dest x) = swap_ptr src dest (mdb_next s x)"
    unfolding m by (rule move_links [OF l src dest(1) ne x d(1,2)])
  show "mdb_prev (cteMove c src dest s) (swap_ptr src dest x) = swap_ptr src dest (mdb_prev s x)"
    unfolding m by (rule move_links [OF l(2,1) src dest(1) ne x d(2,1)])
qed

lemma cteSwap_links:
  assumes ok: "mdb_ok CS s" and a: "a \<noteq> 0" and b: "b \<noteq> 0" and ne: "a \<noteq> b" and x: "x \<noteq> 0"
  shows "mdb_next (cteSwap c a d b s) (swap_ptr a b x) = swap_ptr a b (mdb_next s x)"
    "mdb_prev (cteSwap c a d b s) (swap_ptr a b x) = swap_ptr a b (mdb_prev s x)"
proof -
  define n where "n = mdb_next s"
  define p where "p = mdb_prev s"
  define n1 where "n1 = set_at (p a) b n"
  define p1 where "p1 = set_at (n a) b p"
  have m: "mdb_next (cteSwap c a d b s) = set_at (p1 b) a (n1(a := n1 b, b := n a))"
    "mdb_prev (cteSwap c a d b s) = set_at (n1 b) a (p1(a := p1 b, b := p a))"
    by (simp_all add: cteSwap_def Let_def mdb_fields set_at_def n_def p_def n1_def p1_def)
  note l = mdb_ok_links [OF ok]
  show "mdb_next (cteSwap c a d b s) (swap_ptr a b x) = swap_ptr a b (mdb_next s x)"
    unfolding m n1_def p1_def n_def p_def by (rule swap_links [OF l a b ne x])
  show "mdb_prev (cteSwap c a d b s) (swap_ptr a b x) = swap_ptr a b (mdb_prev s x)"
    unfolding m n1_def p1_def n_def p_def by (rule swap_links [OF l(2,1) a b ne x])
qed

lemma cap_at_move:
  "src \<noteq> dest \<Longrightarrow> cap_at (cteMove c src dest s) = (cap_at s)(dest := c, src := cap_null_cap)"
  by (simp add: cteMove_def Let_def mdb_fields)

lemma cap_at_swap: "cap_at (cteSwap c a d b s) = (cap_at s)(a := d, b := c)"
  by (simp add: cteSwap_def Let_def mdb_fields)

lemma live_slots_iff: "p \<in> live_slots s \<longleftrightarrow> p \<noteq> 0 \<and> cap_at s p \<noteq> cap_null_cap"
  by (simp add: live_slots_def)

lemma after_copy_null [simp]: "after_copy c d = cap_null_cap \<longleftrightarrow> c = cap_null_cap"
  by (auto simp: after_copy_def)

lemma mdb_ok_at:
  assumes ok: "mdb_ok CS s" and m: "us @ p # vs \<in> CS"
  shows "mdb_next s p = hd_or 0 vs" "mdb_prev s p = last_or 0 us" "p \<noteq> 0" "p \<in> live_slots s"
    "cap_at s p \<noteq> cap_null_cap"
proof -
  note C = ok [unfolded mdb_ok_def]
  show "mdb_next s p = hd_or 0 vs" "mdb_prev s p = last_or 0 us" "p \<noteq> 0"
    using dlist_at [OF chainsD(1) [OF C m]] by simp_all
  show "p \<in> live_slots s" using chainsD(3) [OF C m] by simp
  then show "cap_at s p \<noteq> cap_null_cap" by (simp add: live_slots_iff)
qed

lemma mdb_ok_insert:
  assumes ok: "mdb_ok CS s" and m: "us @ p # vs \<in> CS"
    and x: "x \<noteq> 0" "cap_at s x = cap_null_cap"
    and n: "mdb_next s' = (mdb_next s)(x := mdb_next s p, p := x)"
    and pr: "mdb_prev s' = set_at (mdb_next s p) x ((mdb_prev s)(x := p))"
    and cap: "\<And>q. cap_at s' q = cap_null_cap \<longleftrightarrow> cap_at s q = cap_null_cap \<and> q \<noteq> x"
  shows "mdb_ok (insert (us @ p # x # vs) (CS - {us @ p # vs})) s'"
proof -
  note C = ok [unfolded mdb_ok_def]
  have "x \<notin> live_slots s" using x by (simp add: live_slots_iff)
  moreover have "live_slots s' = insert x (live_slots s)" using cap x by (auto simp: live_slots_def)
  ultimately show ?thesis
    using chains_insert_after [OF C m _ x(1) refl refl] mdb_ok_at(1) [OF ok m]
    by (simp add: mdb_ok_def n pr)
qed

lemma cteInsert_mdb_ok:
  assumes "mdb_ok CS s" and "us @ p # vs \<in> CS" and "x \<noteq> 0" "cap_at s x = cap_null_cap" "c \<noteq> cap_null_cap"
  shows "mdb_ok (insert (us @ p # x # vs) (CS - {us @ p # vs})) (cteInsert c p x s)"
  using mdb_ok_at(5) [OF assms(1,2)] assms(5)
  by (intro mdb_ok_insert [OF assms(1-4)]) (auto simp: cteInsert_links)

lemma insertNewCap_mdb_ok:
  assumes "mdb_ok CS s" and "us @ p # vs \<in> CS" and "x \<noteq> 0" "cap_at s x = cap_null_cap" "c \<noteq> cap_null_cap"
  shows "mdb_ok (insert (us @ p # x # vs) (CS - {us @ p # vs})) (insertNewCap p x c s)"
proof -
  have "p \<noteq> x" using mdb_ok_at(5) [OF assms(1,2)] assms(4) by auto
  then show ?thesis
    using assms(5) by (intro mdb_ok_insert [OF assms(1-4)]) (auto simp: insertNewCap_links)
qed

lemma emptySlot_mdb_ok:
  assumes ok: "mdb_ok CS s" and m: "us @ x # vs \<in> CS"
  shows "mdb_ok ((CS - {us @ x # vs}) \<union> ({us @ vs} - {[]})) (emptySlot x c s)"
proof -
  note at = mdb_ok_at [OF ok m]
  have "live_slots (emptySlot x c s) = live_slots s - {x}"
    by (auto simp: live_slots_def emptySlot_links [OF at(5)])
  then show ?thesis
    using chains_remove [OF ok [unfolded mdb_ok_def] m refl refl]
    by (simp add: mdb_ok_def emptySlot_links [OF at(5)] at(1,2))
qed

lemma live_slots_swap:
  assumes "a \<noteq> 0" "b \<noteq> 0"
    and "\<And>x. cap_at s' (swap_ptr a b x) = cap_null_cap \<longleftrightarrow> cap_at s x = cap_null_cap"
  shows "live_slots s' = swap_ptr a b ` live_slots s"
proof (rule set_eqI)
  fix x
  show "x \<in> live_slots s' \<longleftrightarrow> x \<in> swap_ptr a b ` live_slots s"
    using assms(3) [of "swap_ptr a b x"] swap_ptr_0 [OF assms(1,2), of x]
    by (simp add: live_slots_iff swap_ptr_image_iff)
qed

lemma cteSwap_mdb_ok:
  assumes ok: "mdb_ok CS s" and ab: "a \<noteq> 0" "b \<noteq> 0" "a \<noteq> b"
    and c: "c = cap_null_cap \<longleftrightarrow> cap_at s a = cap_null_cap"
    and d: "d = cap_null_cap \<longleftrightarrow> cap_at s b = cap_null_cap"
  shows "mdb_ok (map (swap_ptr a b) ` CS) (cteSwap c a d b s)"
proof -
  have "live_slots (cteSwap c a d b s) = swap_ptr a b ` live_slots s"
    by (rule live_slots_swap) (use ab c d in \<open>auto simp: cap_at_swap swap_ptr_def\<close>)
  then show ?thesis
    using chains_swap [OF ok [unfolded mdb_ok_def] ab(1,2)] cteSwap_links [OF ok ab]
    by (simp add: mdb_ok_def)
qed

lemma cteMove_mdb_ok:
  assumes ok: "mdb_ok CS s" and src: "src \<noteq> 0" "cap_at s src \<noteq> cap_null_cap"
    and dest: "dest \<noteq> 0" "cap_at s dest = cap_null_cap" and c: "c \<noteq> cap_null_cap"
  shows "mdb_ok (map (swap_ptr src dest) ` CS) (cteMove c src dest s)"
proof -
  have ne: "src \<noteq> dest" using src dest by auto
  have "live_slots (cteMove c src dest s) = swap_ptr src dest ` live_slots s"
    by (rule live_slots_swap) (use src dest c ne in \<open>auto simp: cap_at_move swap_ptr_def\<close>)
  then show ?thesis
    using chains_swap [OF ok [unfolded mdb_ok_def] src(1) dest(1)] cteMove_links [OF ok src(1) dest ne]
    by (simp add: mdb_ok_def)
qed

section \<open>Frames\<close>

lemma set_cte_frame [simp]:
  "(set_cap p c s)\<lparr>ctes := m\<rparr> = s\<lparr>ctes := m\<rparr>" "(set_mdb p n s)\<lparr>ctes := m\<rparr> = s\<lparr>ctes := m\<rparr>"
  "(set_mdbNext p v s)\<lparr>ctes := m\<rparr> = s\<lparr>ctes := m\<rparr>" "(set_mdbPrev p v s)\<lparr>ctes := m\<rparr> = s\<lparr>ctes := m\<rparr>"
  "(set_mdbFirstBadged p b s)\<lparr>ctes := m\<rparr> = s\<lparr>ctes := m\<rparr>"
  by (simp_all add: set_cte_defs)

lemma setUntypedCapAsFull_frame [simp]: "(setUntypedCapAsFull c d p s)\<lparr>ctes := m\<rparr> = s\<lparr>ctes := m\<rparr>"
  by (simp add: setUntypedCapAsFull_def)

lemma cte_ops_frame:
  "(cteInsert c p x s)\<lparr>ctes := m\<rparr> = s\<lparr>ctes := m\<rparr>" "(cteMove c p x s)\<lparr>ctes := m\<rparr> = s\<lparr>ctes := m\<rparr>"
  "(cteSwap c p d x s)\<lparr>ctes := m\<rparr> = s\<lparr>ctes := m\<rparr>" "(insertNewCap p x c s)\<lparr>ctes := m\<rparr> = s\<lparr>ctes := m\<rparr>"
  by (simp_all add: cteInsert_def cteMove_def cteSwap_def insertNewCap_def Let_def)

definition flags_at :: "kstate \<Rightarrow> word_t \<Rightarrow> bool \<times> bool" where
  "flags_at s p = (mdbRevocable (cteMDBNode (ctes s p)), mdbFirstBadged (cteMDBNode (ctes s p)))"

lemma flags_at_set [simp]:
  "flags_at (set_cap p c s) = flags_at s" "flags_at (set_mdbNext p v s) = flags_at s"
  "flags_at (set_mdbPrev p v s) = flags_at s"
  "flags_at (set_mdb p m s) = (flags_at s)(p := (mdbRevocable m, mdbFirstBadged m))"
  "flags_at (set_mdbFirstBadged p f s) = (flags_at s)(p := (fst (flags_at s p), f))"
  "flags_at (setUntypedCapAsFull c d p s) = flags_at s"
  "flags_at (postCapDeletion e s) = flags_at s"
  by (auto simp: flags_at_def set_cte_defs setUntypedCapAsFull_def)

lemma emptySlot_flags:
  assumes "cap_at s x \<noteq> cap_null_cap" and "mdb_next s x \<noteq> x"
  shows "flags_at (emptySlot x c s) = (\<lambda>q. if q = x then (False, False)
    else if q = mdb_next s x \<and> q \<noteq> 0 then (fst (flags_at s q), snd (flags_at s q) \<or> snd (flags_at s x))
    else flags_at s q)"
proof -
  have f: "mdbFirstBadged (cteMDBNode (ctes t q)) = snd (flags_at t q)" for t q
    by (simp add: flags_at_def)
  show ?thesis
    using assms by (auto simp: emptySlot_def Let_def mdb_fields f nullMDBNode_def)
qed

lemma emptySlot_frame:
  assumes "cap_at s x \<noteq> cap_null_cap"
  shows "(emptySlot x info s)\<lparr>ctes := m, intStateIRQTable := i\<rparr> = s\<lparr>ctes := m, intStateIRQTable := i\<rparr>"
    "intStateIRQTable (emptySlot x info s) irq =
      (if info = cap_irq_handler_cap irq then IRQInactive else intStateIRQTable s irq)"
proof -
  obtain t where t: "emptySlot x info s = postCapDeletion info t" "t\<lparr>ctes := ctes s\<rparr> = s"
    using assms by (auto simp: emptySlot_def mdb_fields Let_def)
  have eq: "t\<lparr>ctes := n\<rparr> = s\<lparr>ctes := n\<rparr>" for n by (subst t(2) [symmetric]) simp
  have "intStateIRQTable t = intStateIRQTable s" using arg_cong [OF t(2), of intStateIRQTable] by simp
  then show "intStateIRQTable (emptySlot x info s) irq =
      (if info = cap_irq_handler_cap irq then IRQInactive else intStateIRQTable s irq)"
    unfolding t(1) by (cases info) (simp_all add: postCapDeletion_def deletedIRQHandler_def setIRQState_def)
  have "(postCapDeletion info t)\<lparr>ctes := m, intStateIRQTable := i\<rparr> = t\<lparr>ctes := m, intStateIRQTable := i\<rparr>"
    by (cases info) (simp_all add: postCapDeletion_def deletedIRQHandler_def setIRQState_def)
  then show "(emptySlot x info s)\<lparr>ctes := m, intStateIRQTable := i\<rparr> = s\<lparr>ctes := m, intStateIRQTable := i\<rparr>"
    unfolding t(1) eq by simp
qed

section \<open>Example state\<close>

text \<open>
  Slots 32 and 64 hold an endpoint capability and its badged copy, slot 96 an untyped
  capability; slot 128 is empty.
\<close>

definition example_ctes :: "word_t \<Rightarrow> cte" where
  "example_ctes = (\<lambda>_. zero_cte)
    (32 := \<lparr>cte_cap = cap_endpoint_cap 0 True True True True 0x1000,
            cteMDBNode = \<lparr>mdbNext = 64, mdbRevocable = True, mdbFirstBadged = True, mdbPrev = 0\<rparr>\<rparr>,
     64 := \<lparr>cte_cap = cap_endpoint_cap 7 True True True True 0x1000,
            cteMDBNode = \<lparr>mdbNext = 0, mdbRevocable = True, mdbFirstBadged = True, mdbPrev = 32\<rparr>\<rparr>,
     96 := \<lparr>cte_cap = cap_untyped_cap 0 False 20 0x100000,
            cteMDBNode = \<lparr>mdbNext = 0, mdbRevocable = True, mdbFirstBadged = True, mdbPrev = 0\<rparr>\<rparr>)"

definition example_state :: kstate where
  "example_state = zero_state\<lparr>ctes := example_ctes\<rparr>"

lemma example_caps:
  "cap_at example_state = (\<lambda>_. cap_null_cap)(32 := cap_endpoint_cap 0 True True True True 0x1000,
     64 := cap_endpoint_cap 7 True True True True 0x1000, 96 := cap_untyped_cap 0 False 20 0x100000)"
  by (simp add: fun_eq_iff cap_at_def example_state_def example_ctes_def zero_cte_def)

lemma example_links:
  "mdb_next example_state = (\<lambda>_. 0)(32 := 64)" "mdb_prev example_state = (\<lambda>_. 0)(64 := 32)"
  by (simp_all add: fun_eq_iff mdb_next_def mdb_prev_def example_state_def example_ctes_def
      zero_cte_def nullMDBNode_def)

lemma example_mdb_ok: "mdb_ok {[32, 64], [96]} example_state"
proof -
  have "live_slots example_state = {32, 64, 96}"
    by (auto simp: live_slots_def example_caps)
  then show ?thesis
    by (simp add: mdb_ok_def chains_def dlist_def example_links insert_commute)
qed

lemma flags_at_move: "a \<noteq> b \<Longrightarrow> flags_at (cteMove c a b s) = (flags_at s)(a := (False, False), b := flags_at s a)"
  by (simp add: cteMove_def Let_def mdb_fields nullMDBNode_def fun_upd_twist flags_at_def)

lemma flags_at_swap: "a \<noteq> b \<Longrightarrow> flags_at (cteSwap c a d b s) = (flags_at s)(a := flags_at s b, b := flags_at s a)"
  by (simp add: cteSwap_def Let_def fun_upd_twist flip: flags_at_def)

section \<open>Properties\<close>

text \<open>
  C22: Copying a capability: \<open>cteInsert\<close> puts the destination directly after its source in the
  source's chain and keeps every other chain; the destination holds the new capability
  with flags that say whether it is revocable, a source untyped copied whole is
  marked full so that nothing more is allocated from it, and no other capability, flag or
  part of the state changes.
\<close>

theorem cteInsert_derives:
  assumes "mdb_ok CS s" and "us @ src # vs \<in> CS"
    and "dest \<noteq> 0" "cap_at s dest = cap_null_cap" "newCap \<noteq> cap_null_cap"
  defines "s' \<equiv> cteInsert newCap src dest s"
  shows "mdb_ok (insert (us @ src # dest # vs) (CS - {us @ src # vs})) s' \<and>
    cap_at s' = (cap_at s)(src := after_copy (cap_at s src) newCap, dest := newCap) \<and>
    flags_at s' = (flags_at s)(dest := (isCapRevocable newCap (cap_at s src), isCapRevocable newCap (cap_at s src))) \<and>
    s'\<lparr>ctes := ctes s\<rparr> = s"
  using cteInsert_mdb_ok [OF assms(1-5)]
  by (simp add: s'_def cteInsert_links cte_ops_frame) (simp add: cteInsert_def Let_def mdb_fields)

theorem cteInsert_derives_witness:
  "mdb_ok {[32, 64], [96, 128]} (cteInsert (cap_untyped_cap 0 False 20 0x100000) 96 128 example_state) \<and>
   cap_at (cteInsert (cap_untyped_cap 0 False 20 0x100000) 96 128 example_state) 96 =
     cap_untyped_cap 0x10000 False 20 0x100000"
proof -
  have "insert [96, 128] ({[32, 64], [96]} - {[96]}) = {[32, 64], [96, 128 :: word_t]}" by auto
  then show ?thesis
    using cteInsert_derives [OF example_mdb_ok, of "[]" 96 "[]" 128 "cap_untyped_cap 0 False 20 0x100000"]
    by (simp add: example_caps after_copy_def MAX_FREE_INDEX_def size_bits_defs BIT_def)
qed

text \<open>
  C23: Moving a capability and swapping two capabilities exchange the positions of the two slots
  in the chains, adjacent slots included: afterwards the chains are the old ones with the
  two names exchanged, the capabilities given are in the two slots, the flags of the nodes (revocable, first
  badged) are exchanged too, or cleared in the slot that was moved from, and nothing else changes.
\<close>

theorem cteMove_cteSwap_exchange:
  assumes "mdb_ok CS s" and "a \<noteq> 0" "b \<noteq> 0" "a \<noteq> b"
    and "cap_at s a \<noteq> cap_null_cap" "c \<noteq> cap_null_cap"
  shows "(cap_at s b = cap_null_cap \<longrightarrow>
      mdb_ok (map (swap_ptr a b) ` CS) (cteMove c a b s) \<and>
      cap_at (cteMove c a b s) = (cap_at s)(a := cap_null_cap, b := c) \<and>
      flags_at (cteMove c a b s) = (flags_at s)(a := (False, False), b := flags_at s a) \<and>
      (cteMove c a b s)\<lparr>ctes := ctes s\<rparr> = s) \<and>
    ((d = cap_null_cap \<longleftrightarrow> cap_at s b = cap_null_cap) \<longrightarrow>
      mdb_ok (map (swap_ptr a b) ` CS) (cteSwap c a d b s) \<and>
      cap_at (cteSwap c a d b s) = (cap_at s)(a := d, b := c) \<and>
      flags_at (cteSwap c a d b s) = (flags_at s)(a := flags_at s b, b := flags_at s a) \<and>
      (cteSwap c a d b s)\<lparr>ctes := ctes s\<rparr> = s)"
  using assms cteMove_mdb_ok [OF assms(1,2,5,3) _ assms(6)] cteSwap_mdb_ok [OF assms(1-4), of c d]
  by (simp add: cap_at_move cap_at_swap flags_at_move flags_at_swap cte_ops_frame fun_upd_twist)

theorem cteMove_cteSwap_exchange_witness:
  "mdb_ok {[64, 32], [96]} (cteSwap (cap_at example_state 32) 32 (cap_at example_state 64) 64 example_state)"
  using cteMove_cteSwap_exchange [OF example_mdb_ok, of 32 64 "cap_at example_state 32" "cap_at example_state 64"]
  by (simp add: example_caps swap_ptr_def insert_commute)

text \<open>
  C24: Emptying a slot takes it out of its chain and closes the gap; the slot holds the null
  capability and a null node, the following slot inherits the first-badged mark, no other
  capability or flag changes, and of the rest of the state at most one interrupt line
  becomes inactive. An empty slot is left alone.
\<close>

theorem emptySlot_removes:
  fixes info :: cap
  assumes "mdb_ok CS s" and "us @ x # vs \<in> CS"
  defines "s' \<equiv> emptySlot x info s"
  shows "mdb_ok ((CS - {us @ x # vs}) \<union> ({us @ vs} - {[]})) s' \<and>
    cap_at s' = (cap_at s)(x := cap_null_cap) \<and> cteMDBNode (ctes s' x) = nullMDBNode \<and>
    flags_at s' = (\<lambda>q. if q = x then (False, False)
      else if vs \<noteq> [] \<and> q = hd vs then (fst (flags_at s q), snd (flags_at s q) \<or> snd (flags_at s x))
      else flags_at s q) \<and>
    s'\<lparr>ctes := ctes s, intStateIRQTable := intStateIRQTable s\<rparr> = s \<and>
    (\<forall>irq. intStateIRQTable s' irq =
      (if info = cap_irq_handler_cap irq then IRQInactive else intStateIRQTable s irq)) \<and>
    emptySlot x info s' = s'"
proof -
  note at = mdb_ok_at [OF assms(1,2)]
  have d: "dlist (mdb_next s) (mdb_prev s) (us @ x # vs)"
    using chainsD(1) [OF assms(1) [unfolded mdb_ok_def] assms(2)] .
  have nx: "mdb_next s x \<noteq> x" using d at(1) hd_or_neq [of x vs 0] by (auto simp: dlist_def)
  have hd: "q = mdb_next s x \<and> q \<noteq> 0 \<longleftrightarrow> vs \<noteq> [] \<and> q = hd vs" for q
    using d at(1) by (cases vs) (auto simp: dlist_def)
  have "cteMDBNode (ctes s' x) = nullMDBNode"
    using at(5) by (simp add: s'_def emptySlot_def Let_def mdb_fields)
  moreover have "emptySlot x info s' = s'"
    using emptySlot_links(3) [OF at(5), of info] by (simp add: s'_def emptySlot_def [of x info "emptySlot x info s"] mdb_fields)
  ultimately show ?thesis
    using emptySlot_mdb_ok [OF assms(1,2)] emptySlot_flags [OF at(5) nx, unfolded hd]
    by (simp add: s'_def emptySlot_links [OF at(5)] emptySlot_frame [OF at(5)])
qed

theorem emptySlot_removes_witness:
  "mdb_ok {[64], [96]} (emptySlot 32 cap_null_cap example_state) \<and>
   flags_at (emptySlot 32 cap_null_cap example_state) 32 = (False, False)"
proof -
  have "({[32, 64], [96]} - {[32, 64]}) \<union> ({[64]} - {[]}) = {[64], [96 :: word_t]}" by auto
  then show ?thesis
    using emptySlot_removes [OF example_mdb_ok, of "[]" 32 "[64]" cap_null_cap] by simp
qed

text \<open>
  The capability operations that system calls perform, with the guards of their callers: a
  copy, move or mint needs a full source and an empty destination, a rotation exchanges
  full slots or moves into an empty third one, a retype inserts new capabilities below a
  full parent, and deletion empties slots.
\<close>

inductive cap_step :: "kstate \<Rightarrow> kstate \<Rightarrow> bool" where
  insert: "\<lbrakk>src \<noteq> 0; dest \<noteq> 0; cap_at s src \<noteq> cap_null_cap;
     fst (ensureEmptySlot dest s) = EXCEPTION_NONE; cap \<noteq> cap_null_cap\<rbrakk>
   \<Longrightarrow> cap_step s (snd (invokeCNodeInsert cap src dest s))"
| move: "\<lbrakk>src \<noteq> 0; dest \<noteq> 0; cap_at s src \<noteq> cap_null_cap;
     fst (ensureEmptySlot dest s) = EXCEPTION_NONE; cap \<noteq> cap_null_cap\<rbrakk>
   \<Longrightarrow> cap_step s (snd (invokeCNodeMove cap src dest s))"
| rotate: "\<lbrakk>slot1 \<noteq> 0; slot2 \<noteq> 0; slot3 \<noteq> 0; slot2 \<noteq> slot1; slot2 \<noteq> slot3;
     slot1 \<noteq> slot3 \<Longrightarrow> fst (ensureEmptySlot slot3 s) = EXCEPTION_NONE;
     cap_at s slot1 \<noteq> cap_null_cap; cap_at s slot2 \<noteq> cap_null_cap;
     cap1 \<noteq> cap_null_cap; cap2 \<noteq> cap_null_cap\<rbrakk>
   \<Longrightarrow> cap_step s (snd (invokeCNodeRotate cap1 cap2 slot1 slot2 slot3 s))"
| swap: "\<lbrakk>slot1 \<noteq> 0; slot2 \<noteq> 0\<rbrakk> \<Longrightarrow> cap_step s (capSwapForDelete slot1 slot2 s)"
| new: "\<lbrakk>parent \<noteq> 0; slot \<noteq> 0; cap_at s parent \<noteq> cap_null_cap;
     fst (ensureEmptySlot slot s) = EXCEPTION_NONE; cap \<noteq> cap_null_cap\<rbrakk>
   \<Longrightarrow> cap_step s (insertNewCap parent slot cap s)"
| empty: "slot \<noteq> 0 \<Longrightarrow> cap_step s (emptySlot slot info s)"

lemma ensureEmptySlot_ok [simp]:
  "fst (ensureEmptySlot slot s) = EXCEPTION_NONE \<longleftrightarrow> cap_at s slot = cap_null_cap"
  by (simp add: ensureEmptySlot_def cap_at_def)

lemma mdb_ok_chain:
  assumes "mdb_ok CS s" and "p \<noteq> 0" and "cap_at s p \<noteq> cap_null_cap"
  obtains us vs where "us @ p # vs \<in> CS"
  using chains_split [of "mdb_next s" "mdb_prev s" CS "live_slots s" p] assms
  by (auto simp: mdb_ok_def live_slots_iff)

lemma rotate_mdb_ok:
  assumes ok: "mdb_ok CS s" and nz: "a \<noteq> 0" "b \<noteq> 0" "c \<noteq> 0" "b \<noteq> a" "b \<noteq> c"
    and c: "a \<noteq> c \<Longrightarrow> cap_at s c = cap_null_cap"
    and full: "cap_at s a \<noteq> cap_null_cap" "cap_at s b \<noteq> cap_null_cap"
    and new: "cap1 \<noteq> cap_null_cap" "cap2 \<noteq> cap_null_cap"
  shows "\<exists>CS'. mdb_ok CS' (snd (invokeCNodeRotate cap1 cap2 a b c s))"
proof (cases "a = c")
  case True
  have "mdb_ok (map (swap_ptr a b) ` CS) (cteSwap cap1 a cap2 b s)"
    using nz full new by (intro cteSwap_mdb_ok [OF ok]) auto
  then show ?thesis using True by (auto simp: invokeCNodeRotate_def)
next
  case False
  let ?t = "cteMove cap2 b c s"
  have t: "mdb_ok (map (swap_ptr b c) ` CS) ?t"
    using nz full new c False by (intro cteMove_mdb_ok [OF ok]) auto
  have "cap_at ?t a \<noteq> cap_null_cap" "cap_at ?t b = cap_null_cap"
    using nz full False by (auto simp: cap_at_move)
  then have "mdb_ok (map (swap_ptr a b) ` map (swap_ptr b c) ` CS) (cteMove cap1 a b ?t)"
    using nz new by (intro cteMove_mdb_ok [OF t]) auto
  then show ?thesis using False by (auto simp: invokeCNodeRotate_def)
qed

lemma cap_step_mdb_ok:
  assumes "cap_step s s'" and "mdb_ok CS s"
  shows "\<exists>CS'. mdb_ok CS' s'"
  using assms
proof (induction rule: cap_step.induct)
  case (insert src dest s cap)
  then obtain us vs where "us @ src # vs \<in> CS" by (blast elim: mdb_ok_chain)
  from cteInsert_mdb_ok [OF insert.prems this, of dest cap] insert.hyps
  show ?case by (auto simp: invokeCNodeInsert_def)
next
  case (move src dest s cap)
  then show ?case
    using cteMove_mdb_ok [OF move.prems, of src dest cap] by (auto simp: invokeCNodeMove_def)
next
  case (rotate a b c s cap1 cap2)
  then show ?case by (intro rotate_mdb_ok) auto
next
  case (swap a b s)
  then show ?case
    using cteSwap_mdb_ok [OF swap.prems, of a b "cap_at s a" "cap_at s b"]
    by (cases "a = b") (auto simp: capSwapForDelete_def mdb_fields)
next
  case (new parent slot s cap)
  then obtain us vs where "us @ parent # vs \<in> CS" by (blast elim: mdb_ok_chain)
  from insertNewCap_mdb_ok [OF new.prems this, of slot cap] new.hyps show ?case by auto
next
  case (empty slot s info)
  show ?case
  proof (cases "cap_at s slot = cap_null_cap")
    case True
    then show ?thesis using empty by (auto simp: emptySlot_def mdb_fields)
  next
    case False
    then obtain us vs where "us @ slot # vs \<in> CS" using empty by (blast elim: mdb_ok_chain)
    from emptySlot_mdb_ok [OF empty.prems this] show ?thesis by blast
  qed
qed

text \<open>
  C25: No sequence of copies, moves, rotations, swaps, retypes and deletions breaks the mapping
  database: in every reachable state a full slot lies on exactly one chain, its neighbours
  link back to it, and the links of an empty slot are null.
\<close>

theorem mdb_reachable_consistent:
  assumes "cap_step\<^sup>*\<^sup>* s s'" and "mdb_ok CS s" and "p \<noteq> 0"
  shows "if cap_at s' p = cap_null_cap then mdb_next s' p = 0 \<and> mdb_prev s' p = 0
    else (mdb_next s' p \<noteq> 0 \<longrightarrow> mdb_prev s' (mdb_next s' p) = p \<and> cap_at s' (mdb_next s' p) \<noteq> cap_null_cap) \<and>
      (mdb_prev s' p \<noteq> 0 \<longrightarrow> mdb_next s' (mdb_prev s' p) = p \<and> cap_at s' (mdb_prev s' p) \<noteq> cap_null_cap) \<and>
      (\<exists>!xs. dlist (mdb_next s') (mdb_prev s') xs \<and> p \<in> set xs)"
proof -
  from assms(1,2) have "\<exists>CS'. mdb_ok CS' s'"
    by (induction) (auto dest: cap_step_mdb_ok)
  then obtain CS' where ok: "mdb_ok CS' s'" by blast
  note C = ok [unfolded mdb_ok_def]
  show ?thesis
  proof (cases "cap_at s' p = cap_null_cap")
    case True
    then show ?thesis using chainsD(5,6) [OF C assms(3)] by (simp add: live_slots_iff)
  next
    case False
    then obtain us vs where m: "us @ p # vs \<in> CS'" using mdb_ok_chain [OF ok assms(3)] by blast
    have "\<exists>!xs. dlist (mdb_next s') (mdb_prev s') xs \<and> p \<in> set xs"
      using chainsD(1) [OF C m] by (intro ex1I [of _ "us @ p # vs"]) (auto intro: dlist_unique)
    then show ?thesis
      using False chains_links [OF C assms(3)] by (auto simp: live_slots_iff)
  qed
qed

theorem mdb_reachable_consistent_witness:
  "mdb_next (insertNewCap 96 128 cap_domain_cap example_state) 160 = 0 \<and>
   cap_at (insertNewCap 96 128 cap_domain_cap example_state) 160 = cap_null_cap"
proof -
  let ?s = "insertNewCap 96 128 cap_domain_cap example_state"
  have "cap_step example_state ?s" by (rule cap_step.new) (simp_all add: example_caps)
  then have "cap_step\<^sup>*\<^sup>* example_state ?s" by blast
  from mdb_reachable_consistent [OF this example_mdb_ok, of 160] show ?thesis
    by (simp add: insertNewCap_links(3) example_caps)
qed

section \<open>Deriving and creating capabilities\<close>

text \<open>What may not be copied: untyped memory with children, and a page table that is not mapped.\<close>

definition derive_refused :: "word_t \<Rightarrow> cap \<Rightarrow> kstate \<Rightarrow> bool" where
  "derive_refused slot cap s \<longleftrightarrow>
     is_cap_untyped_cap cap \<and> mdb_next s slot \<noteq> 0 \<and> isMDBParentOf slot (mdb_next s slot) s \<or>
     is_cap_page_table_cap cap \<and> \<not> capPTIsMapped cap"

text \<open>
  C26: Deriving a capability for a copy never adds authority and always returns. It is refused
  with an error exactly for untyped memory with children and for a page table that is not mapped. Zombies
  and the interrupt control capability become null, a frame capability loses its mapping, every other
  capability is copied as it is. The state changes only in the error type, and only on refusal.
\<close>

theorem deriveCap_safe:
  "\<exists>r s'. deriveCap slot cap s = Some (r, s') \<and>
    rights_of_cap (dc_cap r) \<subseteq> rights_of_cap cap \<and>
    dc_cap r = (if derive_refused slot cap s \<or> is_cap_zombie_cap cap \<or> cap = cap_irq_control_cap then cap_null_cap
      else if is_cap_frame_cap cap
      then cap_frame_cap asidInvalid (capFBasePtr cap) (capFSize cap) (capFVMRights cap) (capFIsDevice cap) 0
      else cap) \<and>
    dc_status r = (if derive_refused slot cap s then EXCEPTION_SYSCALL_ERROR else EXCEPTION_NONE) \<and>
    s' = (if derive_refused slot cap s
      then set_syscall_error (err_type_update (\<lambda>_.
        if is_cap_untyped_cap cap then seL4_RevokeFirst else seL4_IllegalOperation)) s
      else s)"
  by (cases cap) (simp_all add: derive_refused_def deriveCap_def Arch_deriveCap_def isArchCap_def ensureNoChildren_def
      rights_of_cap_def mdb_fields Let_def)

theorem deriveCap_safe_witness:
  "\<exists>r s'. deriveCap 96 (cap_page_table_cap 0 0x200000 False 0) example_state = Some (r, s') \<and>
     dc_status r = EXCEPTION_SYSCALL_ERROR \<and> dc_cap r = cap_null_cap"
  using deriveCap_safe [of 96 "cap_page_table_cap 0 0x200000 False 0" example_state]
  by (auto simp: derive_refused_def)

definition new_slot :: "word_t \<Rightarrow> word_t \<Rightarrow> nat \<Rightarrow> word_t" where
  "new_slot destCNode destOffset i = slot_at destCNode (destOffset + of_nat i)"

definition object_at :: "word_t \<Rightarrow> word_t \<Rightarrow> word_t \<Rightarrow> nat \<Rightarrow> word_t" where
  "object_at t userSize regionBase i = regionBase + push_bit (unat (getObjectSize t userSize)) (of_nat i)"

definition covers :: "cap \<Rightarrow> word_t \<Rightarrow> nat \<Rightarrow> bool" where
  "covers cap base bits \<longleftrightarrow>
     cap \<noteq> cap_null_cap \<and> cap_get_capIsPhysical cap \<and> cap_get_capPtr cap = base \<and> cap_get_capSizeBits cap = bits"

lemma createNewObjects_loop_creates:
  assumes "t < seL4_ObjectTypeCount" and "t = seL4_CapTableObject \<longrightarrow> unat userSize < 59"
    and "\<And>j. t = seL4_TCBObject \<Longrightarrow> is_aligned (object_at t userSize regionBase j) seL4_TCBBits"
    and "mdb_ok CS s" and "us @ parent # vs \<in> CS"
    and "\<And>j. i \<le> j \<Longrightarrow> j < i + n \<Longrightarrow> new_slot cnode off j \<noteq> 0 \<and> cap_at s (new_slot cnode off j) = cap_null_cap"
    and "inj_on (new_slot cnode off) {i..<i + n}"
  shows "\<exists>s'. createNewObjects_loop t parent cnode off regionBase userSize dev i n s = Some s' \<and>
    mdb_ok (insert (us @ parent # rev (map (new_slot cnode off) [i..<i + n]) @ vs) (CS - {us @ parent # vs})) s' \<and>
    (\<forall>j. i \<le> j \<and> j < i + n \<longrightarrow> covers (cap_at s' (new_slot cnode off j))
       (object_at t userSize regionBase j) (unat (getObjectSize t userSize))) \<and>
    (\<forall>q. q \<notin> new_slot cnode off ` {i..<i + n} \<longrightarrow> cap_at s' q = cap_at s q)"
  using assms(4-7)
proof (induction n arbitrary: i s CS vs)
  case 0
  then show ?case by (auto simp: insert_absorb)
next
  case (Suc n)
  let ?slot = "new_slot cnode off" and ?obj = "object_at t userSize regionBase"
  obtain cap s1 where c: "createObject t (?obj i) userSize dev s = Some (cap, s1)"
    and cov: "covers cap (?obj i) (unat (getObjectSize t userSize))" and fr: "s1\<lparr>tcbs := tcbs s\<rparr> = s"
    using createObject_cap [OF assms(1,2), of "?obj i" dev s] assms(3) [of i] by (auto simp: covers_def)
  have ctes: "ctes s1 = ctes s" using arg_cong [OF fr, of ctes] by simp
  have same: "cap_at s1 = cap_at s" "mdb_next s1 = mdb_next s" "mdb_prev s1 = mdb_prev s"
    by (simp_all add: fun_eq_iff cap_at_def mdb_next_def mdb_prev_def ctes)
  have ok1: "mdb_ok CS s1" using Suc.prems(1) by (simp add: mdb_ok_def live_slots_def same)
  have empty: "?slot i \<noteq> 0" "cap_at s1 (?slot i) = cap_null_cap" using Suc.prems(3) [of i] same by auto
  define s2 where "s2 = insertNewCap parent (?slot i) cap s1"
  have cap2: "cap_at s2 = (cap_at s)(?slot i := cap)" by (simp add: s2_def insertNewCap_links same)
  define CS1 where "CS1 = insert (us @ parent # ?slot i # vs) (CS - {us @ parent # vs})"
  have ok2: "mdb_ok CS1 s2"
    unfolding s2_def CS1_def using empty cov
    by (intro insertNewCap_mdb_ok [OF ok1 Suc.prems(2)]) (auto simp: covers_def)
  have mem: "us @ parent # ?slot i # vs \<in> CS1" by (simp add: CS1_def)
  have new: "?slot j \<noteq> ?slot i" if "Suc i \<le> j" "j < i + Suc n" for j
    using inj_onD [OF Suc.prems(4), of j i] that by auto
  have "us @ parent # ?slot i # vs \<notin> CS"
    using mdb_ok_at(5) [OF ok1, of "us @ [parent]" "?slot i" vs] empty(2) by auto
  then have CS1: "CS1 - {us @ parent # ?slot i # vs} = CS - {us @ parent # vs}"
    by (auto simp: CS1_def)
  have inj: "inj_on ?slot {Suc i..<Suc i + n}" by (rule inj_on_subset [OF Suc.prems(4)]) auto
  obtain s' where s': "createNewObjects_loop t parent cnode off regionBase userSize dev (Suc i) n s2 = Some s'"
    and ok': "mdb_ok (insert (us @ parent # rev (map ?slot [Suc i..<Suc i + n]) @ ?slot i # vs)
        (CS1 - {us @ parent # ?slot i # vs})) s'"
    and caps: "\<forall>j. Suc i \<le> j \<and> j < Suc i + n \<longrightarrow> covers (cap_at s' (?slot j)) (?obj j) (unat (getObjectSize t userSize))"
    and rest: "\<forall>q. q \<notin> ?slot ` {Suc i..<Suc i + n} \<longrightarrow> cap_at s' q = cap_at s2 q"
    using Suc.IH [OF ok2 mem _ inj] Suc.prems(3) new cap2 by auto
  have "[i..<i + Suc n] = i # [Suc i..<Suc i + n]" by (simp add: upt_rec)
  then have "mdb_ok (insert (us @ parent # rev (map ?slot [i..<i + Suc n]) @ vs) (CS - {us @ parent # vs})) s'"
    using ok' unfolding CS1 by simp
  moreover have "createNewObjects_loop t parent cnode off regionBase userSize dev i (Suc n) s = Some s'"
    using c s' by (simp add: s2_def new_slot_def object_at_def)
  moreover have "?slot i \<notin> ?slot ` {Suc i..<Suc i + n}" using new by fastforce
  then have "covers (cap_at s' (?slot i)) (?obj i) (unat (getObjectSize t userSize))"
    using rest cap2 cov by simp
  then have "covers (cap_at s' (?slot j)) (?obj j) (unat (getObjectSize t userSize))"
    if "i \<le> j" "j < i + Suc n" for j
    using caps that by (cases "j = i") auto
  moreover have "cap_at s' q = cap_at s q" if "q \<notin> ?slot ` {i..<i + Suc n}" for q
  proof -
    have "q \<noteq> ?slot i" "q \<notin> ?slot ` {Suc i..<Suc i + n}" using that by auto
    then show ?thesis using rest cap2 by simp
  qed
  ultimately show ?case by blast
qed

end
