(* ===== verification/VMRoot.thy ===== *)
theory VMRoot
  imports Caps
begin

text \<open>
  The address space of the running thread: the translation between physical addresses and the
  kernel window (\<^verbatim>\<open>include/machine.h\<close>), the ASID table, and the switch to the address space of
  a thread (\<^verbatim>\<open>src/arch/riscv/kernel/vspace.c\<close>, \<^verbatim>\<open>src/arch/riscv/kernel/thread.c\<close>). The write to the
  register \<open>satp\<close> records the root and the ASID; its packing and the fence are not modelled.
\<close>

section \<open>Operations\<close>

definition PPTR_BASE :: word_t where "PPTR_BASE = 0xFFFFFFC000000000"
definition PADDR_BASE :: word_t where "PADDR_BASE = 0"

definition PPTR_BASE_OFFSET :: word_t where
  "PPTR_BASE_OFFSET = PPTR_BASE - PADDR_BASE"

definition ptrFromPAddr :: "word_t \<Rightarrow> word_t" where
  "ptrFromPAddr paddr = paddr + PPTR_BASE_OFFSET"

definition addrFromPPtr :: "word_t \<Rightarrow> word_t" where
  "addrFromPPtr pptr = pptr - PPTR_BASE_OFFSET"

definition asidHighBits :: nat where "asidHighBits = 7"
definition asidLowBits :: nat where "asidLowBits = 9"
definition nASIDPools :: word_t where "nASIDPools = BIT asidHighBits"

definition ASID_LOW :: "word_t \<Rightarrow> word_t" where
  "ASID_LOW a = a AND MASK asidLowBits"

definition ASID_HIGH :: "word_t \<Rightarrow> word_t" where
  "ASID_HIGH a = drop_bit asidLowBits a"

record findVSpaceForASID_ret =
  fv_status :: exception
  vspace_root :: word_t

definition findVSpaceForASID :: "word_t \<Rightarrow> kstate \<Rightarrow> findVSpaceForASID_ret \<times> kstate" where
  "findVSpaceForASID asid s =
     (let poolPtr = riscvKSASIDTable s (ASID_HIGH asid)
      in if poolPtr = 0 then
           (\<lparr>fv_status = EXCEPTION_LOOKUP_FAULT, vspace_root = 0\<rparr>, s\<lparr>current_lookup_fault := invalid_root\<rparr>)
         else
           let root = asid_pools s poolPtr (ASID_LOW asid)
           in if root = 0 then
                (\<lparr>fv_status = EXCEPTION_LOOKUP_FAULT, vspace_root = 0\<rparr>, s\<lparr>current_lookup_fault := invalid_root\<rparr>)
              else (\<lparr>fv_status = EXCEPTION_NONE, vspace_root = root\<rparr>, s))"

definition setVSpaceRoot :: "word_t \<Rightarrow> word_t \<Rightarrow> kstate \<Rightarrow> kstate" where
  "setVSpaceRoot addr asid s = s\<lparr>satp := (addr, asid)\<rparr>"

definition setVMRoot :: "word_t \<Rightarrow> kstate \<Rightarrow> kstate" where
  "setVMRoot tcb s =
     (let threadRoot = cte_cap (ctes s (TCB_PTR_CTE_PTR tcb tcbVTable))
      in if \<not> is_cap_page_table_cap threadRoot then setVSpaceRoot (kernel_root_paddr s) 0 s
         else
           let lvl1pt = capPTBasePtr threadRoot;
               asid = capPTMappedASID threadRoot;
               (find_ret, s) = findVSpaceForASID asid s
           in if fv_status find_ret \<noteq> EXCEPTION_NONE \<or> vspace_root find_ret \<noteq> lvl1pt then
                setVSpaceRoot (kernel_root_paddr s) 0 s
              else setVSpaceRoot (addrFromPPtr lvl1pt) asid s)"

definition Arch_switchToThread :: "word_t \<Rightarrow> kstate \<Rightarrow> kstate" where
  "Arch_switchToThread tcb s = setVMRoot tcb s"

definition Arch_switchToIdleThread :: "kstate \<Rightarrow> kstate" where
  "Arch_switchToIdleThread s = setVMRoot (ksIdleThread s) s"

section \<open>What the switch changes\<close>

text \<open>The address space an ASID stands for.\<close>

definition asid_root :: "kstate \<Rightarrow> word_t \<Rightarrow> word_t option" where
  "asid_root s asid =
     (let pool = riscvKSASIDTable s (ASID_HIGH asid)
      in if pool = 0 \<or> asid_pools s pool (ASID_LOW asid) = 0 then None
         else Some (asid_pools s pool (ASID_LOW asid)))"

lemma findVSpaceForASID_eq:
  "findVSpaceForASID asid s =
     (case asid_root s asid of
        None \<Rightarrow> (\<lparr>fv_status = EXCEPTION_LOOKUP_FAULT, vspace_root = 0\<rparr>, s\<lparr>current_lookup_fault := invalid_root\<rparr>)
      | Some root \<Rightarrow> (\<lparr>fv_status = EXCEPTION_NONE, vspace_root = root\<rparr>, s))"
  by (simp add: findVSpaceForASID_def asid_root_def Let_def)

definition thread_vroot :: "kstate \<Rightarrow> word_t \<Rightarrow> word_t \<times> word_t" where
  "thread_vroot s t =
     (let c = cte_cap (ctes s (TCB_PTR_CTE_PTR t tcbVTable))
      in if is_cap_page_table_cap c \<and> asid_root s (capPTMappedASID c) = Some (capPTBasePtr c)
         then (addrFromPPtr (capPTBasePtr c), capPTMappedASID c) else (kernel_root_paddr s, 0))"

lemma setVMRoot_eq:
  "\<exists>f. setVMRoot t s = s\<lparr>current_lookup_fault := f, satp := thread_vroot s t\<rparr>"
proof (cases "is_cap_page_table_cap (cte_cap (ctes s (TCB_PTR_CTE_PTR t tcbVTable)))")
  case False
  then have "setVMRoot t s = s\<lparr>current_lookup_fault := current_lookup_fault s, satp := thread_vroot s t\<rparr>"
    by (simp add: setVMRoot_def setVSpaceRoot_def thread_vroot_def Let_def)
  then show ?thesis by blast
next
  case True
  let ?c = "cte_cap (ctes s (TCB_PTR_CTE_PTR t tcbVTable))"
  have "setVMRoot t s = (if asid_root s (capPTMappedASID ?c) = None
      then s\<lparr>current_lookup_fault := invalid_root, satp := thread_vroot s t\<rparr>
      else s\<lparr>current_lookup_fault := current_lookup_fault s, satp := thread_vroot s t\<rparr>)"
    using True
    by (cases "asid_root s (capPTMappedASID ?c)")
      (simp_all add: setVMRoot_def setVSpaceRoot_def thread_vroot_def findVSpaceForASID_eq Let_def)
  then show ?thesis by metis
qed

text \<open>The switch writes \<open>satp\<close> and possibly the lookup fault, nothing else.\<close>

lemma setVMRoot_frame [simp]:
  "ctes (setVMRoot t s) = ctes s" "tcbs (setVMRoot t s) = tcbs s" "eps (setVMRoot t s) = eps s"
  "ntfns (setVMRoot t s) = ntfns s" "scs (setVMRoot t s) = scs s" "replies (setVMRoot t s) = replies s"
  "ptes (setVMRoot t s) = ptes s" "asid_pools (setVMRoot t s) = asid_pools s" "user_words (setVMRoot t s) = user_words s"
  "ksReadyQueues (setVMRoot t s) = ksReadyQueues s" "ksReadyQueuesL1Bitmap (setVMRoot t s) = ksReadyQueuesL1Bitmap s"
  "ksReadyQueuesL2Bitmap (setVMRoot t s) = ksReadyQueuesL2Bitmap s" "ksCurThread (setVMRoot t s) = ksCurThread s"
  "ksIdleThread (setVMRoot t s) = ksIdleThread s" "ksSchedulerAction (setVMRoot t s) = ksSchedulerAction s"
  "ksReleaseQueue (setVMRoot t s) = ksReleaseQueue s" "ksConsumed (setVMRoot t s) = ksConsumed s"
  "ksCurTime (setVMRoot t s) = ksCurTime s" "ksReprogram (setVMRoot t s) = ksReprogram s"
  "ksCurSC (setVMRoot t s) = ksCurSC s" "ksIdleSC (setVMRoot t s) = ksIdleSC s"
  "ksDomSchedule (setVMRoot t s) = ksDomSchedule s" "ksDomScheduleIdx (setVMRoot t s) = ksDomScheduleIdx s"
  "ksDomScheduleStart (setVMRoot t s) = ksDomScheduleStart s" "ksCurDomain (setVMRoot t s) = ksCurDomain s"
  "ksDomainTime (setVMRoot t s) = ksDomainTime s" "riscvKSASIDTable (setVMRoot t s) = riscvKSASIDTable s"
  "kernel_root_pageTable (setVMRoot t s) = kernel_root_pageTable s" "kernel_root_paddr (setVMRoot t s) = kernel_root_paddr s"
  "current_extra_caps (setVMRoot t s) = current_extra_caps s" "satp (setVMRoot t s) = thread_vroot s t"
  "intStateIRQTable (setVMRoot t s) = intStateIRQTable s" "intStateIRQNode (setVMRoot t s) = intStateIRQNode s"
proof -
  obtain f where f: "setVMRoot t s = s\<lparr>current_lookup_fault := f, satp := thread_vroot s t\<rparr>"
    using setVMRoot_eq by blast
  show "ctes (setVMRoot t s) = ctes s" "tcbs (setVMRoot t s) = tcbs s" "eps (setVMRoot t s) = eps s"
    "ntfns (setVMRoot t s) = ntfns s" "scs (setVMRoot t s) = scs s" "replies (setVMRoot t s) = replies s"
    "ptes (setVMRoot t s) = ptes s" "asid_pools (setVMRoot t s) = asid_pools s" "user_words (setVMRoot t s) = user_words s"
    "ksReadyQueues (setVMRoot t s) = ksReadyQueues s" "ksReadyQueuesL1Bitmap (setVMRoot t s) = ksReadyQueuesL1Bitmap s"
    "ksReadyQueuesL2Bitmap (setVMRoot t s) = ksReadyQueuesL2Bitmap s" "ksCurThread (setVMRoot t s) = ksCurThread s"
    "ksIdleThread (setVMRoot t s) = ksIdleThread s" "ksSchedulerAction (setVMRoot t s) = ksSchedulerAction s"
    "ksReleaseQueue (setVMRoot t s) = ksReleaseQueue s" "ksConsumed (setVMRoot t s) = ksConsumed s"
    "ksCurTime (setVMRoot t s) = ksCurTime s" "ksReprogram (setVMRoot t s) = ksReprogram s"
    "ksCurSC (setVMRoot t s) = ksCurSC s" "ksIdleSC (setVMRoot t s) = ksIdleSC s"
    "ksDomSchedule (setVMRoot t s) = ksDomSchedule s" "ksDomScheduleIdx (setVMRoot t s) = ksDomScheduleIdx s"
    "ksDomScheduleStart (setVMRoot t s) = ksDomScheduleStart s" "ksCurDomain (setVMRoot t s) = ksCurDomain s"
    "ksDomainTime (setVMRoot t s) = ksDomainTime s" "riscvKSASIDTable (setVMRoot t s) = riscvKSASIDTable s"
    "kernel_root_pageTable (setVMRoot t s) = kernel_root_pageTable s" "kernel_root_paddr (setVMRoot t s) = kernel_root_paddr s"
    "current_extra_caps (setVMRoot t s) = current_extra_caps s" "satp (setVMRoot t s) = thread_vroot s t"
    "intStateIRQTable (setVMRoot t s) = intStateIRQTable s" "intStateIRQNode (setVMRoot t s) = intStateIRQNode s"
    by (simp_all add: f)
qed

text \<open>
  The root in \<open>satp\<close> is the kernel's, or the one the ASID table has for its ASID. A switch
  establishes this whatever was there before.
\<close>

definition satp_registered :: "kstate \<Rightarrow> bool" where
  "satp_registered s \<longleftrightarrow> satp s = (kernel_root_paddr s, 0) \<or>
     (\<exists>root asid. satp s = (addrFromPPtr root, asid) \<and> asid_root s asid = Some root)"

lemma satp_registered_cong:
  assumes "satp s' = satp s" "kernel_root_paddr s' = kernel_root_paddr s" "asid_root s' = asid_root s"
  shows "satp_registered s' = satp_registered s"
  using assms by (simp add: satp_registered_def)

lemma asid_root_cong:
  "riscvKSASIDTable s' = riscvKSASIDTable s \<Longrightarrow> asid_pools s' = asid_pools s \<Longrightarrow> asid_root s' = asid_root s"
  by (rule ext) (simp add: asid_root_def Let_def)

lemma setVMRoot_registered: "satp_registered (setVMRoot t s)"
proof -
  have "asid_root (setVMRoot t s) = asid_root s" by (rule asid_root_cong) simp_all
  then show ?thesis by (auto simp: satp_registered_def thread_vroot_def Let_def)
qed

end
