(* ===== verification/Thread.thy ===== *)
theory Thread
  imports ReadyQueues SporadicBudget VMRoot
begin

text \<open>
  The scheduler of \<^verbatim>\<open>src/kernel/thread.c\<close> and \<^verbatim>\<open>include/kernel/thread.h\<close>: thread states, the
  scheduler action, waking of threads from the release queue, the domain schedule of
  \<^verbatim>\<open>include/object/domain.h\<close>, the choice of the next thread, the accounting of time and the
  programming of the timer.

  The scheduler action is a thread address, or one of two values that no thread has. The
  functions of the
  form \<open>Arch_prepare\<dots>Domain\<close> and \<open>Arch_activateIdleThread\<close> have empty bodies on RISC-V.
\<close>

section \<open>Operations\<close>

definition SchedulerAction_ResumeCurrentThread :: word_t where
  "SchedulerAction_ResumeCurrentThread = 0"

definition SchedulerAction_ChooseNewThread :: word_t where
  "SchedulerAction_ChooseNewThread = 1"

definition numDomains :: word_t where
  "numDomains = CONFIG_NUM_DOMAINS"

text \<open>Registers; the indices are those of \<^verbatim>\<open>enum _register\<close>.\<close>

definition badgeRegister :: register where "badgeRegister = 9"
definition msgInfoRegister :: register where "msgInfoRegister = 10"
definition FaultIP :: register where "FaultIP = 33"
definition NextIP :: register where "NextIP = 34"

definition getRegister :: "kstate \<Rightarrow> word_t \<Rightarrow> register \<Rightarrow> word_t" where
  "getRegister s thread reg = tcbContext (tcbs s thread) reg"

definition setRegister :: "word_t \<Rightarrow> register \<Rightarrow> word_t \<Rightarrow> kstate \<Rightarrow> kstate" where
  "setRegister thread reg w = upd_tcb thread (\<lambda>t. t\<lparr>tcbContext := (tcbContext t)(reg := w)\<rparr>)"

definition doNBRecvFailedTransfer :: "word_t \<Rightarrow> kstate \<Rightarrow> kstate" where
  "doNBRecvFailedTransfer thread s = setRegister thread badgeRegister 0 s"

definition updateRestartPC :: "word_t \<Rightarrow> kstate \<Rightarrow> kstate" where
  "updateRestartPC tcb s = setRegister tcb FaultIP (getRegister s tcb NextIP) s"

definition isCurDomainExpired :: "kstate \<Rightarrow> bool" where
  "isCurDomainExpired s \<longleftrightarrow> numDomains > 1 \<and> ksDomainTime s = 0"

definition rescheduleRequired :: "kstate \<Rightarrow> kstate" where
  "rescheduleRequired s =
     (let s = (if ksSchedulerAction s \<noteq> SchedulerAction_ResumeCurrentThread \<and>
                  ksSchedulerAction s \<noteq> SchedulerAction_ChooseNewThread \<and>
                  isSchedulable (ksSchedulerAction s) s
               then tcbSchedEnqueue (ksSchedulerAction s) s else s)
      in s\<lparr>ksSchedulerAction := SchedulerAction_ChooseNewThread\<rparr>)"

definition scheduleTCB :: "word_t \<Rightarrow> kstate \<Rightarrow> kstate" where
  "scheduleTCB tptr s =
     (if tptr = ksCurThread s \<and> ksSchedulerAction s = SchedulerAction_ResumeCurrentThread \<and>
         \<not> isSchedulable tptr s
      then s\<lparr>ksSchedulerAction := SchedulerAction_ChooseNewThread\<rparr> else s)"

definition setThreadState :: "word_t \<Rightarrow> tsType \<Rightarrow> kstate \<Rightarrow> kstate" where
  "setThreadState tptr ts s = scheduleTCB tptr (set_tcbState tptr (\<lambda>st. st\<lparr>ts_type := ts\<rparr>) s)"

definition setThreadStateBlockedOnReply :: "word_t \<Rightarrow> word_t \<Rightarrow> kstate \<Rightarrow> kstate" where
  "setThreadStateBlockedOnReply tptr reply s =
     (let s = set_tcbState tptr (\<lambda>st. st\<lparr>ts_type := ThreadState_BlockedOnReply\<rparr>) s;
          s = set_tcbState tptr (\<lambda>st. st\<lparr>replyObject := reply\<rparr>) s
      in scheduleTCB tptr s)"

definition possibleSwitchTo :: "word_t \<Rightarrow> kstate \<Rightarrow> kstate" where
  "possibleSwitchTo target s =
     (if tcbSchedContext (tcbs s target) \<noteq> 0 \<and> \<not> tcbInReleaseQueue (tcbState (tcbs s target)) then
        if ksCurDomain s \<noteq> tcbDomain (tcbs s target) then tcbSchedEnqueue target s
        else if ksSchedulerAction s \<noteq> SchedulerAction_ResumeCurrentThread then
          tcbSchedEnqueue target (rescheduleRequired s)
        else s\<lparr>ksSchedulerAction := target\<rparr>
      else s)"

definition setDomain :: "word_t \<Rightarrow> word_t \<Rightarrow> kstate \<Rightarrow> kstate" where
  "setDomain tptr d s =
     (let s = tcbSchedDequeue tptr s;
          s = upd_tcb tptr (\<lambda>t. t\<lparr>tcbDomain := d\<rparr>) s;
          s = (if isSchedulable tptr s then tcbSchedEnqueue tptr s else s)
      in if tptr = ksCurThread s then rescheduleRequired s else s)"

definition setMCPriority :: "word_t \<Rightarrow> word_t \<Rightarrow> kstate \<Rightarrow> kstate" where
  "setMCPriority tptr mcp s = upd_tcb tptr (\<lambda>t. t\<lparr>tcbMCP := mcp\<rparr>) s"

text \<open>The domain schedule: eight bits of domain and 56 bits of duration, ended by a zero entry.\<close>

definition DSCHED_DOMAIN_BITS :: nat where "DSCHED_DOMAIN_BITS = 8"
definition DSCHED_DOMAIN_SHIFT :: nat where "DSCHED_DOMAIN_SHIFT = 64 - DSCHED_DOMAIN_BITS"
definition DSCHED_MAX_DURATION :: uint64 where "DSCHED_MAX_DURATION = drop_bit DSCHED_DOMAIN_BITS (- 1)"

definition dschedule_make :: "word_t \<Rightarrow> ticks_t \<Rightarrow> uint64" where
  "dschedule_make domain duration = push_bit DSCHED_DOMAIN_SHIFT domain OR duration"

definition dschedule_domain :: "uint64 \<Rightarrow> word_t" where
  "dschedule_domain sched = drop_bit DSCHED_DOMAIN_SHIFT sched"

definition dschedule_duration :: "uint64 \<Rightarrow> ticks_t" where
  "dschedule_duration sched = sched AND DSCHED_MAX_DURATION"

definition dschedule_is_end_marker :: "word_t \<Rightarrow> kstate \<Rightarrow> bool" where
  "dschedule_is_end_marker index s \<longleftrightarrow> ksDomSchedule s index = 0"

definition nextDomain :: "kstate \<Rightarrow> kstate" where
  "nextDomain s =
     (let s = s\<lparr>ksDomScheduleIdx := ksDomScheduleIdx s + 1\<rparr>;
          s = (if dschedule_is_end_marker (ksDomScheduleIdx s) s
               then s\<lparr>ksDomScheduleIdx := ksDomScheduleStart s\<rparr> else s);
          s = s\<lparr>ksReprogram := True\<rparr>;
          s = s\<lparr>ksWorkUnitsCompleted := 0\<rparr>;
          s = s\<lparr>ksCurDomain := dschedule_domain (ksDomSchedule s (ksDomScheduleIdx s))\<rparr>
      in s\<lparr>ksDomainTime := dschedule_duration (ksDomSchedule s (ksDomScheduleIdx s))\<rparr>)"

text \<open>Refill operations on the store of scheduling contexts.\<close>

definition sc_refill_unblock_check :: "word_t \<Rightarrow> kstate \<Rightarrow> kstate option" where
  "sc_refill_unblock_check p s =
     (case refill_unblock_check (ksCurTime s) (scs s p) of
        None \<Rightarrow> None
      | Some (sc, reprogram) \<Rightarrow>
          Some ((upd_sc p (\<lambda>_. sc) s)\<lparr>ksReprogram := ksReprogram s \<or> reprogram\<rparr>))"

definition cur_refill_budget_check :: "ticks_t \<Rightarrow> kstate \<Rightarrow> kstate option" where
  "cur_refill_budget_check usage s =
     map_option (\<lambda>sc. upd_sc (ksCurSC s) (\<lambda>_. sc) s) (refill_budget_check usage (scs s (ksCurSC s)))"

definition commitTime :: "kstate \<Rightarrow> kstate option" where
  "commitTime s =
     (if sc_active (scs s (ksCurSC s)) \<and> ksCurSC s \<noteq> ksIdleSC s then do {
        s \<leftarrow> (if ksConsumed s > 0 then
                if isRoundRobin (scs s (ksCurSC s)) then
                  let s = upd_sc (ksCurSC s) (\<lambda>sc. set_refill_head
                            (refill_head sc\<lparr>rAmount := rAmount (refill_head sc) - ksConsumed s\<rparr>) sc) s
                  in Some (upd_sc (ksCurSC s) (\<lambda>sc. set_refill_tail
                            (refill_tail sc\<lparr>rAmount := rAmount (refill_tail sc) + ksConsumed s\<rparr>) sc) s)
                else cur_refill_budget_check (ksConsumed s) s
              else Some s);
        let s = upd_sc (ksCurSC s) (\<lambda>sc. sc\<lparr>scConsumed := scConsumed sc + ksConsumed s\<rparr>) s;
        Some (s\<lparr>ksConsumed := 0\<rparr>)
      } else Some (s\<lparr>ksConsumed := 0\<rparr>))"

definition switchSchedContext :: "kstate \<Rightarrow> kstate option" where
  "switchSchedContext s = do {
     s \<leftarrow> (if ksCurSC s \<noteq> tcbSchedContext (tcbs s (ksCurThread s)) then
             let s = s\<lparr>ksReprogram := True\<rparr>
             in if sc_constant_bandwidth (scs s (tcbSchedContext (tcbs s (ksCurThread s))))
                then sc_refill_unblock_check (tcbSchedContext (tcbs s (ksCurThread s))) s
                else Some s
           else Some s);
     s \<leftarrow> (if ksReprogram s then commitTime s else Some s);
     Some (s\<lparr>ksCurSC := tcbSchedContext (tcbs s (ksCurThread s))\<rparr>)
   }"

definition switchToThread :: "word_t \<Rightarrow> kstate \<Rightarrow> kstate" where
  "switchToThread thread s =
     (let s = Arch_switchToThread thread s;
          s = tcbSchedDequeue thread s
      in s\<lparr>ksCurThread := thread\<rparr>)"

definition switchToIdleThread :: "kstate \<Rightarrow> kstate" where
  "switchToIdleThread s =
     (let s = Arch_switchToIdleThread s
      in s\<lparr>ksCurThread := ksIdleThread s\<rparr>)"

definition chooseThread :: "kstate \<Rightarrow> kstate" where
  "chooseThread s =
     (let d = (if numDomains > 1 then ksCurDomain s else 0) in
      if ksReadyQueuesL1Bitmap s d \<noteq> 0 then
        let prio = getHighestPrio d s;
            thread = tcbq_head (ksReadyQueues s (ready_queues_index d prio))
        in switchToThread thread s
      else switchToIdleThread s)"

definition scheduleChooseNewThread :: "kstate \<Rightarrow> kstate" where
  "scheduleChooseNewThread s = chooseThread (if ksDomainTime s = 0 then nextDomain s else s)"

definition release_q_non_empty_and_ready :: "kstate \<Rightarrow> bool" where
  "release_q_non_empty_and_ready s \<longleftrightarrow>
     tcbq_head (ksReleaseQueue s) \<noteq> 0 \<and>
     refill_ready (ksCurTime s) (scs s (tcbSchedContext (tcbs s (tcbq_head (ksReleaseQueue s)))))"

definition tcbReleaseDequeue :: "kstate \<Rightarrow> kstate" where
  "tcbReleaseDequeue s =
     (let awakened = tcbq_head (ksReleaseQueue s)
      in possibleSwitchTo awakened (tcbReleaseRemove awakened s))"

definition awaken :: "kstate \<Rightarrow> kstate option" where
  "awaken s = while_option release_q_non_empty_and_ready tcbReleaseDequeue s"

definition checkDomainTime :: "kstate \<Rightarrow> kstate" where
  "checkDomainTime s =
     (if isCurDomainExpired s then rescheduleRequired (s\<lparr>ksReprogram := True\<rparr>) else s)"

definition getTimerPrecision :: ticks_t where
  "getTimerPrecision = usToTicks 1"

definition setNextInterrupt :: "kstate \<Rightarrow> kstate" where
  "setNextInterrupt s =
     (let ct_head_refill = refill_head (scs s (tcbSchedContext (tcbs s (ksCurThread s))));
          next_interrupt = ksCurTime s + rAmount ct_head_refill;
          next_interrupt = (if numDomains > 1 then min next_interrupt (ksCurTime s + ksDomainTime s)
                            else next_interrupt);
          rlq_head = tcbq_head (ksReleaseQueue s);
          next_interrupt = (if rlq_head \<noteq> 0
            then min (rTime (refill_head (scs s (tcbSchedContext (tcbs s rlq_head))))) next_interrupt
            else next_interrupt)
      in s\<lparr>timer_deadline := next_interrupt - getTimerPrecision\<rparr>)"

definition schedule_switch :: "kstate \<Rightarrow> kstate" where
  "schedule_switch s =
     (if ksSchedulerAction s \<noteq> SchedulerAction_ResumeCurrentThread then
        let was_runnable = isSchedulable (ksCurThread s) s;
            s = (if was_runnable then tcbSchedEnqueue (ksCurThread s) s else s)
        in if ksSchedulerAction s = SchedulerAction_ChooseNewThread then scheduleChooseNewThread s
           else
             let candidate = ksSchedulerAction s;
                 fastfail = (ksCurThread s = ksIdleThread s \<or>
                   tcbPriority (tcbs s candidate) < tcbPriority (tcbs s (ksCurThread s)))
             in if fastfail \<and> \<not> isHighestPrio (ksCurDomain s) (tcbPriority (tcbs s candidate)) s then
                  let s = tcbSchedEnqueue candidate s;
                      s = s\<lparr>ksSchedulerAction := SchedulerAction_ChooseNewThread\<rparr>
                  in scheduleChooseNewThread s
                else if was_runnable \<and>
                  tcbPriority (tcbs s candidate) = tcbPriority (tcbs s (ksCurThread s)) then
                  let s = tcbSchedAppend candidate s;
                      s = s\<lparr>ksSchedulerAction := SchedulerAction_ChooseNewThread\<rparr>
                  in scheduleChooseNewThread s
                else switchToThread candidate s
      else s)"

definition schedule :: "kstate \<Rightarrow> kstate option" where
  "schedule s = do {
     s \<leftarrow> awaken s;
     let s = checkDomainTime s;
     let s = schedule_switch s;
     let s = s\<lparr>ksSchedulerAction := SchedulerAction_ResumeCurrentThread\<rparr>;
     s \<leftarrow> switchSchedContext s;
     Some (if ksReprogram s then (setNextInterrupt s)\<lparr>ksReprogram := False\<rparr> else s)
   }"

definition postpone :: "word_t \<Rightarrow> kstate \<Rightarrow> kstate option" where
  "postpone sc s = do {
     let tcb = scTcb (scs s sc);
     let s = tcbSchedDequeue tcb s;
     s \<leftarrow> tcbReleaseEnqueue tcb s;
     Some (s\<lparr>ksReprogram := True\<rparr>)
   }"

text \<open>The time read from the timer is an argument.\<close>

definition updateTimestamp :: "ticks_t \<Rightarrow> kstate \<Rightarrow> kstate" where
  "updateTimestamp now s =
     (let prev = ksCurTime s;
          s = s\<lparr>ksCurTime := now\<rparr>;
          consumed = ksCurTime s - prev;
          s = s\<lparr>ksConsumed := ksConsumed s + consumed\<rparr>
      in if numDomains > 1 then
           if consumed + MIN_BUDGET \<ge> ksDomainTime s then s\<lparr>ksDomainTime := 0\<rparr>
           else s\<lparr>ksDomainTime := ksDomainTime s - consumed\<rparr>
         else s)"

section \<open>What the queue operations leave alone\<close>

text \<open>
  The state without scheduler queues, queue links, queue membership flags, reprogram flag
  and scheduler action. An operation on the queues keeps this part.
\<close>

definition core_tcb :: "tcb \<Rightarrow> tcb" where
  "core_tcb t = t\<lparr>tcbSchedNext := 0, tcbSchedPrev := 0,
     tcbState := (tcbState t)\<lparr>tcbQueued := False, tcbInReleaseQueue := False\<rparr>\<rparr>"

definition core_state :: "kstate \<Rightarrow> kstate" where
  "core_state s = s\<lparr>tcbs := \<lambda>t. core_tcb (tcbs s t), ksReadyQueues := \<lambda>_. \<lparr>tcbq_head = 0, tcbq_end = 0\<rparr>,
     ksReadyQueuesL1Bitmap := \<lambda>_. 0, ksReadyQueuesL2Bitmap := \<lambda>_ _. 0,
     ksReleaseQueue := \<lparr>tcbq_head = 0, tcbq_end = 0\<rparr>, ksReprogram := False, ksSchedulerAction := 0\<rparr>"

lemma core_tcbD:
  assumes "core_tcb t' = core_tcb t"
  shows "tcbDomain t' = tcbDomain t" "tcbPriority t' = tcbPriority t"
    "tcbSchedContext t' = tcbSchedContext t" "ts_type (tcbState t') = ts_type (tcbState t)"
    "tcbYieldTo t' = tcbYieldTo t" "tcbBoundNotification t' = tcbBoundNotification t"
  using arg_cong [OF assms, of tcbDomain] arg_cong [OF assms, of tcbPriority]
    arg_cong [OF assms, of tcbSchedContext] arg_cong [OF assms, of "\<lambda>t. ts_type (tcbState t)"]
    arg_cong [OF assms, of tcbYieldTo] arg_cong [OF assms, of tcbBoundNotification]
  by (simp_all add: core_tcb_def)

lemma core_stateD:
  assumes "core_state s' = core_state s"
  shows "scs s' = scs s" "ctes s' = ctes s" "ksCurThread s' = ksCurThread s" "ksIdleThread s' = ksIdleThread s"
    "ksCurDomain s' = ksCurDomain s" "ksDomainTime s' = ksDomainTime s" "ksCurTime s' = ksCurTime s"
    "ksCurSC s' = ksCurSC s" "ksIdleSC s' = ksIdleSC s" "ksConsumed s' = ksConsumed s"
    "ksDomSchedule s' = ksDomSchedule s" "ksDomScheduleIdx s' = ksDomScheduleIdx s"
    "ksDomScheduleStart s' = ksDomScheduleStart s"
    "core_tcb (tcbs s' t) = core_tcb (tcbs s t)"
  using arg_cong [OF assms, of scs] arg_cong [OF assms, of ctes] arg_cong [OF assms, of ksCurThread]
    arg_cong [OF assms, of ksIdleThread] arg_cong [OF assms, of ksCurDomain]
    arg_cong [OF assms, of ksDomainTime] arg_cong [OF assms, of ksCurTime] arg_cong [OF assms, of ksCurSC]
    arg_cong [OF assms, of ksIdleSC] arg_cong [OF assms, of ksConsumed]
    arg_cong [OF assms, of ksDomSchedule] arg_cong [OF assms, of ksDomScheduleIdx]
    arg_cong [OF assms, of ksDomScheduleStart] fun_cong [OF arg_cong [OF assms, of tcbs], of t]
  by (simp_all add: core_state_def)

lemma core_state_thread:
  assumes "core_state s' = core_state s"
  shows "tcbDomain (tcbs s' t) = tcbDomain (tcbs s t)" "tcbPriority (tcbs s' t) = tcbPriority (tcbs s t)"
    "tcbSchedContext (tcbs s' t) = tcbSchedContext (tcbs s t)" "isRunnable (tcbs s' t) = isRunnable (tcbs s t)"
    "tcbReadyTime s' t = tcbReadyTime s t"
  using core_tcbD [OF core_stateD(14) [OF assms], of t] core_stateD(1) [OF assms]
  by (simp_all add: isRunnable_def tcbReadyTime_def)

lemma core_upd_tcb: "(\<And>t. core_tcb (f t) = core_tcb t) \<Longrightarrow> core_state (upd_tcb p f s) = core_state s"
  by (auto simp: core_state_def upd_tcb_def fun_eq_iff)

lemma core_state_set [simp]:
  "core_state (set_tcbSchedNext p v s) = core_state s" "core_state (set_tcbSchedPrev p v s) = core_state s"
  "core_state (set_tcbState p (\<lambda>ts. ts\<lparr>tcbQueued := b\<rparr>) s) = core_state s"
  "core_state (set_tcbState p (\<lambda>ts. ts\<lparr>tcbInReleaseQueue := b\<rparr>) s) = core_state s"
  "core_state (addToBitmap d q s) = core_state s" "core_state (removeFromBitmap d q s) = core_state s"
  "core_state (s\<lparr>ksReadyQueues := r\<rparr>) = core_state s" "core_state (s\<lparr>ksReleaseQueue := rq\<rparr>) = core_state s"
  "core_state (s\<lparr>ksReprogram := b\<rparr>) = core_state s" "core_state (s\<lparr>ksSchedulerAction := a\<rparr>) = core_state s"
  by (simp_all add: set_tcb_defs core_upd_tcb core_tcb_def)
    (simp_all add: core_state_def addToBitmap_def removeFromBitmap_def Let_def)

lemma core_queue_ops [simp]:
  "core_state (snd (tcb_queue_prepend q t s)) = core_state s"
  "core_state (snd (tcb_queue_append q t s)) = core_state s"
  "core_state (snd (tcb_queue_remove q t s)) = core_state s"
  "core_state (tcb_queue_insert t u s) = core_state s"
  by (simp_all add: tcb_queue_prepend_def tcb_queue_append_def tcb_queue_remove_def
      tcb_queue_insert_def Let_def)

lemma core_sched_ops [simp]:
  "core_state (tcbSchedEnqueue t s) = core_state s" "core_state (tcbSchedAppend t s) = core_state s"
  "core_state (tcbSchedDequeue t s) = core_state s" "core_state (tcbReleaseRemove t s) = core_state s"
  by (simp_all add: tcbSchedEnqueue_def tcbSchedAppend_def tcbSchedDequeue_def tcbReleaseRemove_def
      Let_def case_prod_beta)

lemma core_reschedule [simp]:
  "core_state (rescheduleRequired s) = core_state s" "core_state (possibleSwitchTo t s) = core_state s"
  "core_state (tcbReleaseDequeue s) = core_state s" "core_state (checkDomainTime s) = core_state s"
  by (simp_all add: rescheduleRequired_def possibleSwitchTo_def tcbReleaseDequeue_def
      checkDomainTime_def Let_def)

text \<open>The flags and globals that queue operations do change.\<close>

definition rest_state :: "kstate \<Rightarrow> tcb_queue \<times> bool \<times> word_t" where
  "rest_state s = (ksReleaseQueue s, ksReprogram s, ksSchedulerAction s)"

lemma queue_flags_set [simp]:
  "queued (set_tcbSchedNext p v s) u = queued s u" "queued (set_tcbSchedPrev p v s) u = queued s u"
  "in_release (set_tcbSchedNext p v s) u = in_release s u" "in_release (set_tcbSchedPrev p v s) u = in_release s u"
  "queued (addToBitmap d q s) u = queued s u" "queued (removeFromBitmap d q s) u = queued s u"
  "in_release (addToBitmap d q s) u = in_release s u" "in_release (removeFromBitmap d q s) u = in_release s u"
  "queued (set_tcbState p (\<lambda>ts. ts\<lparr>tcbQueued := b\<rparr>) s) u = (if u = p then b else queued s u)"
  "in_release (set_tcbState p (\<lambda>ts. ts\<lparr>tcbQueued := b\<rparr>) s) u = in_release s u"
  "queued (set_tcbState p (\<lambda>ts. ts\<lparr>tcbInReleaseQueue := b\<rparr>) s) u = queued s u"
  "in_release (set_tcbState p (\<lambda>ts. ts\<lparr>tcbInReleaseQueue := b\<rparr>) s) u = (if u = p then b else in_release s u)"
  by (simp_all add: set_tcb_defs upd_defs addToBitmap_def removeFromBitmap_def Let_def)

lemma queue_flags_ops [simp]:
  "queued (snd (tcb_queue_prepend q t s)) u = queued s u" "in_release (snd (tcb_queue_prepend q t s)) u = in_release s u"
  "queued (snd (tcb_queue_append q t s)) u = queued s u" "in_release (snd (tcb_queue_append q t s)) u = in_release s u"
  "queued (snd (tcb_queue_remove q t s)) u = queued s u" "in_release (snd (tcb_queue_remove q t s)) u = in_release s u"
  by (simp_all add: tcb_queue_prepend_def tcb_queue_append_def tcb_queue_remove_def Let_def)

lemma rest_state_set [simp]:
  "rest_state (set_tcbSchedNext p v s) = rest_state s" "rest_state (set_tcbSchedPrev p v s) = rest_state s"
  "rest_state (set_tcbState p f s) = rest_state s" "rest_state (addToBitmap d q s) = rest_state s"
  "rest_state (removeFromBitmap d q s) = rest_state s" "rest_state (s\<lparr>ksReadyQueues := r\<rparr>) = rest_state s"
  by (simp_all add: rest_state_def set_tcb_defs upd_defs addToBitmap_def removeFromBitmap_def Let_def)

lemma rest_state_ops [simp]:
  "rest_state (snd (tcb_queue_prepend q t s)) = rest_state s"
  "rest_state (snd (tcb_queue_append q t s)) = rest_state s"
  "rest_state (snd (tcb_queue_remove q t s)) = rest_state s"
  by (simp_all add: tcb_queue_prepend_def tcb_queue_append_def tcb_queue_remove_def Let_def)

lemma sched_ops_flags [simp]:
  "queued (tcbSchedEnqueue t s) u \<longleftrightarrow> queued s u \<or> u = t"
  "queued (tcbSchedAppend t s) u \<longleftrightarrow> queued s u \<or> u = t"
  "queued (tcbSchedDequeue t s) u \<longleftrightarrow> queued s u \<and> u \<noteq> t"
  "in_release (tcbSchedEnqueue t s) u \<longleftrightarrow> in_release s u"
  "in_release (tcbSchedAppend t s) u \<longleftrightarrow> in_release s u"
  "in_release (tcbSchedDequeue t s) u \<longleftrightarrow> in_release s u"
  "rest_state (tcbSchedEnqueue t s) = rest_state s" "rest_state (tcbSchedAppend t s) = rest_state s"
  "rest_state (tcbSchedDequeue t s) = rest_state s"
  by (auto simp: tcbSchedEnqueue_def tcbSchedAppend_def tcbSchedDequeue_def Let_def case_prod_beta)

lemma sched_ops_action [simp]:
  "ksSchedulerAction (tcbSchedEnqueue t s) = ksSchedulerAction s"
  "ksSchedulerAction (tcbSchedAppend t s) = ksSchedulerAction s"
  "ksSchedulerAction (tcbSchedDequeue t s) = ksSchedulerAction s"
  using sched_ops_flags(7-9) [of t s] by (simp_all add: rest_state_def)

lemma release_remove_flags [simp]:
  "queued (tcbReleaseRemove t s) u \<longleftrightarrow> queued s u"
  "in_release (tcbReleaseRemove t s) u \<longleftrightarrow> in_release s u \<and> u \<noteq> t"
  by (auto simp: tcbReleaseRemove_def Let_def case_prod_beta)

lemma release_remove_action [simp]: "ksSchedulerAction (tcbReleaseRemove t s) = ksSchedulerAction s"
proof -
  have "ksSchedulerAction (snd (tcb_queue_remove q t s')) = ksSchedulerAction s'" for q s'
    using rest_state_ops(3) [of q t s'] by (simp add: rest_state_def)
  then show ?thesis by (simp add: tcbReleaseRemove_def Let_def case_prod_beta set_tcb_defs upd_defs)
qed

lemma isSchedulable_core:
  assumes "core_state s' = core_state s" and "in_release s' t = in_release s t"
  shows "isSchedulable t s' = isSchedulable t s"
  using core_state_thread [OF assms(1), of t] core_stateD(1) [OF assms(1)] assms(2)
  by (simp add: isSchedulable_def)

lemma queues_ok_action [simp]:
  "queues_ok R Q (s\<lparr>ksSchedulerAction := a\<rparr>) = queues_ok R Q s"
  "queues_ok R Q (s\<lparr>ksReprogram := b\<rparr>) = queues_ok R Q s"
  "queues_ok R Q (s\<lparr>ksCurThread := t\<rparr>) = queues_ok R Q s"
  by (rule queues_ok_same, simp add: same_queue_state_def)+

lemma queues_ok_setVMRoot [simp]: "queues_ok R Q (setVMRoot t s) = queues_ok R Q s"
  by (rule queues_ok_same) (simp add: same_queue_state_def)

lemma switchToThread_eq:
  "switchToThread t s = (tcbSchedDequeue t (setVMRoot t s))\<lparr>ksCurThread := t\<rparr>"
  by (simp add: switchToThread_def Arch_switchToThread_def Let_def)

lemma switchToIdleThread_eq:
  "switchToIdleThread s = (setVMRoot (ksIdleThread s) s)\<lparr>ksCurThread := ksIdleThread s\<rparr>"
  by (simp add: switchToIdleThread_def Arch_switchToIdleThread_def Let_def)

section \<open>Invariant\<close>

text \<open>
  Ready and release queues are consistent, the release queue is ordered by time and holds
  runnable threads with an active scheduling context, every thread has a valid domain and
  priority, and a thread in the scheduler action can be scheduled, is in no queue and
  belongs to the current domain.
\<close>

definition is_candidate :: "word_t \<Rightarrow> bool" where
  "is_candidate a \<longleftrightarrow> a \<noteq> SchedulerAction_ResumeCurrentThread \<and> a \<noteq> SchedulerAction_ChooseNewThread"

definition can_wake :: "kstate \<Rightarrow> word_t \<Rightarrow> bool" where
  "can_wake s t \<longleftrightarrow> is_candidate t \<and> isRunnable (tcbs s t) \<and> tcbSchedContext (tcbs s t) \<noteq> 0 \<and>
     sc_active (scs s (tcbSchedContext (tcbs s t)))"

definition threads_valid :: "kstate \<Rightarrow> bool" where
  "threads_valid s \<longleftrightarrow> (\<forall>t. valid_domain (tcbDomain (tcbs s t)) \<and> valid_prio (tcbPriority (tcbs s t)))"

definition sched_inv :: "(word_t \<Rightarrow> word_t \<Rightarrow> word_t list) \<Rightarrow> word_t list \<Rightarrow> kstate \<Rightarrow> bool" where
  "sched_inv R Q s \<longleftrightarrow> queues_ok R Q s \<and> release_sorted s Q \<and> threads_valid s \<and>
     (\<forall>t\<in>set Q. can_wake s t) \<and>
     (is_candidate (ksSchedulerAction s) \<longrightarrow>
        isSchedulable (ksSchedulerAction s) s \<and> \<not> queued s (ksSchedulerAction s) \<and>
        tcbDomain (tcbs s (ksSchedulerAction s)) = ksCurDomain s)"

text \<open>A thread that the scheduler will not forget: it is queued or the scheduler action.\<close>

definition accounted :: "kstate \<Rightarrow> word_t \<Rightarrow> bool" where
  "accounted s t \<longleftrightarrow> queued s t \<or> ksSchedulerAction s = t"

lemma can_wake_core:
  assumes "core_state s' = core_state s"
  shows "can_wake s' t = can_wake s t" "threads_valid s' = threads_valid s" "release_sorted s' Q = release_sorted s Q"
  using core_state_thread [OF assms] core_stateD(1) [OF assms]
  by (simp_all add: can_wake_def threads_valid_def release_sorted_def)

lemma isSchedulable_can_wake: "isSchedulable t s \<Longrightarrow> is_candidate t \<Longrightarrow> can_wake s t \<and> \<not> in_release s t"
  by (simp add: isSchedulable_def can_wake_def)

lemma can_wake_isSchedulable: "can_wake s t \<Longrightarrow> \<not> in_release s t \<Longrightarrow> isSchedulable t s"
  by (simp add: isSchedulable_def can_wake_def)

lemma enqueue_queues_ok:
  assumes "queues_ok R Q s" and "threads_valid s" and "\<not> in_release s t" and "t \<noteq> 0"
  shows "\<exists>R'. queues_ok R' Q (tcbSchedEnqueue t s)"
proof (cases "queued s t")
  case True
  then show ?thesis using assms(1) by (auto simp: tcbSchedEnqueue_def)
next
  case False
  then show ?thesis
    using tcbSchedEnqueue_ok [OF assms(1) False assms(3,4)] assms(2) by (auto simp: threads_valid_def)
qed

lemma append_queues_ok:
  assumes "queues_ok R Q s" and "threads_valid s" and "\<not> in_release s t" and "t \<noteq> 0"
  shows "\<exists>R'. queues_ok R' Q (tcbSchedAppend t s)"
proof (cases "queued s t")
  case True
  then show ?thesis using assms(1) by (auto simp: tcbSchedAppend_def)
next
  case False
  then show ?thesis
    using tcbSchedAppend_ok [OF assms(1) False assms(3,4)] assms(2) by (auto simp: threads_valid_def)
qed

lemma sched_inv_reschedule:
  assumes inv: "sched_inv R Q s"
  shows "\<exists>R'. sched_inv R' Q (rescheduleRequired s)"
    and "is_candidate t \<Longrightarrow> accounted s t \<Longrightarrow> accounted (rescheduleRequired s) t"
    and "in_release (rescheduleRequired s) u = in_release s u"
    and "ksSchedulerAction (rescheduleRequired s) = SchedulerAction_ChooseNewThread"
proof -
  let ?a = "ksSchedulerAction s"
  have step: "rescheduleRequired s =
    (if is_candidate ?a then tcbSchedEnqueue ?a s else s)\<lparr>ksSchedulerAction := SchedulerAction_ChooseNewThread\<rparr>"
    using inv by (auto simp: rescheduleRequired_def sched_inv_def is_candidate_def)
  show "in_release (rescheduleRequired s) u = in_release s u"
    "ksSchedulerAction (rescheduleRequired s) = SchedulerAction_ChooseNewThread"
    by (simp_all add: step)
  show "is_candidate t \<Longrightarrow> accounted s t \<Longrightarrow> accounted (rescheduleRequired s) t"
    by (auto simp: step accounted_def)
  have "\<exists>R'. queues_ok R' Q (rescheduleRequired s)"
  proof (cases "is_candidate ?a")
    case True
    then have "\<not> in_release s ?a" "?a \<noteq> 0"
      using inv by (auto simp: sched_inv_def isSchedulable_def is_candidate_def
          SchedulerAction_ResumeCurrentThread_def)
    then show ?thesis
      using True enqueue_queues_ok [of R Q s ?a] inv by (auto simp: step sched_inv_def)
  next
    case False
    then show ?thesis using inv by (auto simp: step sched_inv_def)
  qed
  then show "\<exists>R'. sched_inv R' Q (rescheduleRequired s)"
    using inv can_wake_core [of "rescheduleRequired s" s]
    by (auto simp: sched_inv_def step is_candidate_def)
qed

lemma sched_inv_enqueue:
  assumes inv: "sched_inv R Q s" and t: "\<not> in_release s t" "t \<noteq> 0" "t \<noteq> ksSchedulerAction s"
  shows "\<exists>R'. sched_inv R' Q (tcbSchedEnqueue t s)"
proof -
  obtain R' where R': "queues_ok R' Q (tcbSchedEnqueue t s)"
    using enqueue_queues_ok [of R Q s t] inv t by (auto simp: sched_inv_def)
  have "isSchedulable u (tcbSchedEnqueue t s) = isSchedulable u s" for u
    by (rule isSchedulable_core) simp_all
  then show ?thesis
    using inv t R' can_wake_core [of "tcbSchedEnqueue t s" s] core_stateD(5) [of "tcbSchedEnqueue t s" s]
      core_state_thread(1) [of "tcbSchedEnqueue t s" s]
    by (auto simp: sched_inv_def)
qed

lemma candidate_nz: "is_candidate t \<Longrightarrow> t \<noteq> 0"
  by (auto simp: is_candidate_def SchedulerAction_ResumeCurrentThread_def)

lemma sched_inv_possibleSwitchTo:
  assumes inv: "sched_inv R Q s" and t: "can_wake s t" "\<not> in_release s t" "\<not> queued s t" "t \<noteq> ksSchedulerAction s"
  shows "\<exists>R'. sched_inv R' Q (possibleSwitchTo t s)"
    and "accounted (possibleSwitchTo t s) t"
    and "is_candidate u \<Longrightarrow> accounted s u \<Longrightarrow> accounted (possibleSwitchTo t s) u"
    and "in_release (possibleSwitchTo t s) u = in_release s u"
proof -
  let ?s = "possibleSwitchTo t s" and ?r = "rescheduleRequired s"
  have c: "is_candidate t" "t \<noteq> 0" "tcbSchedContext (tcbs s t) \<noteq> 0"
    using t(1) candidate_nz by (auto simp: can_wake_def)
  note r = sched_inv_reschedule [OF inv]
  have tr: "\<not> in_release ?r t" "t \<noteq> ksSchedulerAction ?r"
    using t(2) c(1) r(3,4) by (auto simp: is_candidate_def)
  consider (other) "?s = tcbSchedEnqueue t s"
    | (busy) "?s = tcbSchedEnqueue t ?r"
    | (direct) "?s = s\<lparr>ksSchedulerAction := t\<rparr>" "ksSchedulerAction s = SchedulerAction_ResumeCurrentThread"
      "ksCurDomain s = tcbDomain (tcbs s t)"
    using c t(2)
    by (cases "ksCurDomain s = tcbDomain (tcbs s t)";
        cases "ksSchedulerAction s = SchedulerAction_ResumeCurrentThread")
      (simp_all add: possibleSwitchTo_def)
  then have "(\<exists>R'. sched_inv R' Q ?s) \<and> accounted ?s t \<and>
      (is_candidate u \<longrightarrow> accounted s u \<longrightarrow> accounted ?s u) \<and> (in_release ?s u = in_release s u)"
  proof cases
    case other
    then show ?thesis using sched_inv_enqueue [OF inv t(2) c(2) t(4)] by (auto simp: accounted_def)
  next
    case busy
    obtain R1 where "sched_inv R1 Q ?r" using r(1) by blast
    then show ?thesis
      using busy sched_inv_enqueue [OF _ tr(1) c(2) tr(2)] r(2) [of u] r(3) [of u] by (auto simp: accounted_def)
  next
    case direct
    let ?d = "s\<lparr>ksSchedulerAction := t\<rparr>"
    have "isSchedulable t ?d" using can_wake_isSchedulable [OF t(1,2)] by (simp add: isSchedulable_def)
    then have "sched_inv R Q ?d"
      using inv direct(3) [symmetric] t(3) can_wake_core [of ?d s] by (simp add: sched_inv_def)
    then show ?thesis unfolding direct(1) using direct(2) by (auto simp: accounted_def is_candidate_def)
  qed
  then show "\<exists>R'. sched_inv R' Q ?s" "accounted ?s t"
    "is_candidate u \<Longrightarrow> accounted s u \<Longrightarrow> accounted ?s u" "in_release ?s u = in_release s u" by blast+
qed

lemma sched_inv_release_head:
  assumes inv: "sched_inv R Q s"
  shows "Q = [] \<longleftrightarrow> tcbq_head (ksReleaseQueue s) = 0" and "Q \<noteq> [] \<Longrightarrow> tcbq_head (ksReleaseQueue s) = hd Q"
    and "t \<in> set Q \<longleftrightarrow> in_release s t" and "distinct Q"
proof -
  have l: "queue_links_ok R Q s" using inv by (simp add: sched_inv_def queues_ok_def)
  have q: "sched_queue s (ksReleaseQueue s) Q" by (rule queue_links_okD(4) [OF l])
  show "Q = [] \<longleftrightarrow> tcbq_head (ksReleaseQueue s) = 0"
    using sched_queue_empty [OF q] by (simp add: tcb_queue_empty_def)
  show "Q \<noteq> [] \<Longrightarrow> tcbq_head (ksReleaseQueue s) = hd Q"
    using q by (cases Q) (auto simp: sched_queue_def)
  show "t \<in> set Q \<longleftrightarrow> in_release s t" by (rule queue_links_okD(5) [OF l])
  show "distinct Q" using q by (simp add: sched_queue_def dlist_def)
qed

lemma sched_inv_release_dequeue:
  assumes inv: "sched_inv R (t # Q) s"
  shows "\<exists>R'. sched_inv R' Q (tcbReleaseDequeue s)" and "accounted (tcbReleaseDequeue s) t"
    and "is_candidate u \<Longrightarrow> accounted s u \<Longrightarrow> accounted (tcbReleaseDequeue s) u"
proof -
  note hd = sched_inv_release_head [OF inv]
  have head: "tcbq_head (ksReleaseQueue s) = t" and rel: "in_release s t" using hd by auto
  let ?r = "tcbReleaseRemove t s"
  have same: "isSchedulable v ?r = isSchedulable v s" if "v \<noteq> t" for v
    using that by (intro isSchedulable_core) simp_all
  have q: "\<not> queued s t" "t \<noteq> ksSchedulerAction s \<or> \<not> is_candidate (ksSchedulerAction s)" "can_wake s t"
    using inv rel queue_links_okD(3) [of R "t # Q" s t] by (auto simp: sched_inv_def queues_ok_def isSchedulable_def)
  then have a: "t \<noteq> ksSchedulerAction s" by (auto simp: can_wake_def)
  have "queues_ok R Q ?r" using tcbReleaseRemove_ok [of R "t # Q" s t] inv rel by (simp add: sched_inv_def)
  then have inv1: "sched_inv R Q ?r"
    using inv a same can_wake_core [of ?r s] core_stateD(5) [of ?r s] core_state_thread(1) [of ?r s]
    by (auto simp: sched_inv_def release_sorted_def)
  have t1: "can_wake ?r t" "\<not> in_release ?r t" "\<not> queued ?r t" "t \<noteq> ksSchedulerAction ?r"
    using q a can_wake_core [of ?r s] by simp_all
  have eq: "tcbReleaseDequeue s = possibleSwitchTo t ?r" by (simp add: tcbReleaseDequeue_def head)
  note p = sched_inv_possibleSwitchTo [OF inv1 t1]
  show "\<exists>R'. sched_inv R' Q (tcbReleaseDequeue s)" "accounted (tcbReleaseDequeue s) t"
    "is_candidate u \<Longrightarrow> accounted s u \<Longrightarrow> accounted (tcbReleaseDequeue s) u"
    unfolding eq using p(1,2) p(3) [of u] by (auto simp: accounted_def)
qed

section \<open>Fit to run\<close>

text \<open>
  The current thread is the best choice in its domain: no queued thread of the current
  domain has a higher priority; the idle thread runs only when none is queued there.
\<close>

definition runs_best :: "kstate \<Rightarrow> bool" where
  "runs_best s \<longleftrightarrow>
     (if \<exists>t. queued s t \<and> tcbDomain (tcbs s t) = ksCurDomain s
      then tcbDomain (tcbs s (ksCurThread s)) = ksCurDomain s \<and>
        (\<forall>t. queued s t \<and> tcbDomain (tcbs s t) = ksCurDomain s \<longrightarrow>
           tcbPriority (tcbs s t) \<le> tcbPriority (tcbs s (ksCurThread s)))
      else ksCurThread s = ksIdleThread s \<or> tcbDomain (tcbs s (ksCurThread s)) = ksCurDomain s)"

text \<open>
  What the scheduler relies on: every queued thread can run; if the current thread is to be
  resumed, it is the best choice and can run; and if it may be replaced by a candidate, no queued thread of the
  domain has a higher priority than the current one, unless that is the idle thread.
\<close>

definition sched_ready :: "kstate \<Rightarrow> bool" where
  "sched_ready s \<longleftrightarrow> (\<forall>t. queued s t \<longrightarrow> can_wake s t) \<and>
     (ksSchedulerAction s = SchedulerAction_ResumeCurrentThread \<longrightarrow>
        runs_best s \<and> (ksCurThread s = ksIdleThread s \<or> can_wake s (ksCurThread s))) \<and>
     (is_candidate (ksSchedulerAction s) \<and> ksCurThread s \<noteq> ksIdleThread s \<longrightarrow>
        (\<forall>t. queued s t \<and> tcbDomain (tcbs s t) = ksCurDomain s \<longrightarrow>
           tcbPriority (tcbs s t) \<le> tcbPriority (tcbs s (ksCurThread s))))"

lemma runs_best_core:
  assumes "core_state s' = core_state s" and "\<And>t. tcbDomain (tcbs s t) = ksCurDomain s \<Longrightarrow> queued s' t = queued s t"
  shows "runs_best s' = runs_best s"
proof -
  have "(queued s' t \<and> tcbDomain (tcbs s t) = ksCurDomain s) = (queued s t \<and> tcbDomain (tcbs s t) = ksCurDomain s)" for t
    using assms(2) by blast
  then show ?thesis using core_state_thread(1,2) [OF assms(1)] core_stateD(3,4,5) [OF assms(1)]
    by (simp only: runs_best_def)
qed

lemma sched_ready_choose:
  assumes "sched_ready s" "core_state s' = core_state s" "ksSchedulerAction s' = SchedulerAction_ChooseNewThread"
    and "\<And>t. queued s' t \<Longrightarrow> queued s t \<or> can_wake s t"
  shows "sched_ready s'"
  using assms can_wake_core(1) [OF assms(2)]
  by (auto simp: sched_ready_def is_candidate_def SchedulerAction_ChooseNewThread_def SchedulerAction_ResumeCurrentThread_def)

lemma queued_reschedule:
  "queued (rescheduleRequired s) t \<Longrightarrow> queued s t \<or> can_wake s t"
  by (auto simp: rescheduleRequired_def is_candidate_def Let_def dest!: isSchedulable_can_wake split: if_splits)

lemma sched_ready_reschedule:
  assumes "sched_inv R Q s" "sched_ready s"
  shows "sched_ready (rescheduleRequired s)"
  by (rule sched_ready_choose [OF assms(2) _ sched_inv_reschedule(4) [OF assms(1)]]) (use queued_reschedule in auto)

lemma sched_ready_possibleSwitchTo:
  assumes inv: "sched_inv R Q s" and ready: "sched_ready s" and t: "can_wake s t" "\<not> in_release s t"
  shows "sched_ready (possibleSwitchTo t s)"
proof -
  let ?s = "possibleSwitchTo t s" and ?r = "rescheduleRequired s"
  have c: "is_candidate t" "tcbSchedContext (tcbs s t) \<noteq> 0" using t(1) by (auto simp: can_wake_def)
  consider (other) "?s = tcbSchedEnqueue t s" "tcbDomain (tcbs s t) \<noteq> ksCurDomain s"
    | (busy) "?s = tcbSchedEnqueue t ?r"
    | (direct) "?s = s\<lparr>ksSchedulerAction := t\<rparr>" "ksSchedulerAction s = SchedulerAction_ResumeCurrentThread"
    using c t(2)
    by (cases "ksCurDomain s = tcbDomain (tcbs s t)";
        cases "ksSchedulerAction s = SchedulerAction_ResumeCurrentThread")
      (simp_all add: possibleSwitchTo_def)
  then show ?thesis
  proof cases
    case other
    have core: "core_state ?s = core_state s" by simp
    have "runs_best ?s = runs_best s" by (rule runs_best_core [OF core]) (use other in auto)
    then show ?thesis
      using ready t(1) other(2) can_wake_core(1) [OF core] core_state_thread(1,2) [OF core] core_stateD(3,4,5) [OF core]
      unfolding sched_ready_def other(1) by auto
  next
    case busy
    show ?thesis
      by (rule sched_ready_choose [OF ready])
        (use busy t(1) queued_reschedule [of s] sched_inv_reschedule(4) [OF inv] in auto)
  next
    case direct
    have core: "core_state ?s = core_state s" by simp
    have q: "queued ?s u = queued s u" for u by (simp add: direct(1))
    have best: "runs_best s" using ready direct(2) by (simp add: sched_ready_def)
    have nr: "t \<noteq> SchedulerAction_ResumeCurrentThread" "ksSchedulerAction ?s = t" using c(1) by (auto simp: is_candidate_def direct(1))
    have "tcbPriority (tcbs s u) \<le> tcbPriority (tcbs s (ksCurThread s))" if "queued s u" "tcbDomain (tcbs s u) = ksCurDomain s" for u
      using best that by (auto simp: runs_best_def split: if_splits)
    then show ?thesis
      using ready nr can_wake_core(1) [OF core] core_state_thread(1,2) [OF core] core_stateD(3,4,5) [OF core]
      by (simp add: sched_ready_def q)
  qed
qed

lemma sched_ready_release_dequeue:
  assumes inv: "sched_inv R (t # Q) s" and ready: "sched_ready s"
  shows "sched_ready (tcbReleaseDequeue s)"
proof -
  let ?r = "tcbReleaseRemove t s"
  have head: "tcbq_head (ksReleaseQueue s) = t" and rel: "in_release s t" using sched_inv_release_head [OF inv] by auto
  have core: "core_state ?r = core_state s" by simp
  have q: "\<not> queued s t" "can_wake s t" "queues_ok R Q ?r"
    using inv rel queue_links_okD(3) [of R "t # Q" s t] tcbReleaseRemove_ok [of R "t # Q" s t]
    by (auto simp: sched_inv_def queues_ok_def)
  have "t \<noteq> ksSchedulerAction s \<or> \<not> is_candidate (ksSchedulerAction s)" using inv rel by (auto simp: sched_inv_def isSchedulable_def)
  then have "isSchedulable (ksSchedulerAction s) ?r = isSchedulable (ksSchedulerAction s) s" if "is_candidate (ksSchedulerAction s)"
    using that by (intro isSchedulable_core) auto
  then have inv1: "sched_inv R Q ?r"
    using inv q(3) can_wake_core [OF core] core_stateD(5) [OF core] core_state_thread(1) [OF core]
    by (auto simp: sched_inv_def release_sorted_def)
  have "runs_best ?r = runs_best s" by (rule runs_best_core [OF core]) simp
  then have r1: "sched_ready ?r"
    using ready can_wake_core(1) [OF core] core_state_thread(1,2) [OF core] core_stateD(3,4,5) [OF core]
    by (simp add: sched_ready_def)
  show ?thesis
    unfolding tcbReleaseDequeue_def Let_def head
    by (rule sched_ready_possibleSwitchTo [OF inv1 r1]) (use q(2) can_wake_core(1) [OF core] in simp_all)
qed

lemma sched_ready_checkDomainTime:
  assumes "sched_inv R Q s" "sched_ready s"
  shows "sched_ready (checkDomainTime s)"
proof -
  let ?s = "s\<lparr>ksReprogram := True\<rparr>"
  have "can_wake ?s = can_wake s" using can_wake_core(1) [of ?s s] by (simp add: fun_eq_iff)
  then have "sched_ready ?s" using assms(2) by (simp add: sched_ready_def runs_best_def)
  moreover have "sched_inv R Q ?s"
    using assms(1) can_wake_core [of ?s s] isSchedulable_core [of ?s s] by (simp add: sched_inv_def)
  ultimately show ?thesis using sched_ready_reschedule assms(2) by (simp add: checkDomainTime_def)
qed

section \<open>Waking threads\<close>

text \<open>
  The loop of \<open>awaken\<close> from a state \<open>s0\<close> with release queue \<open>Q0\<close>: a prefix of the queue, all of it
  ready, has been woken.
\<close>

definition awaken_inv :: "kstate \<Rightarrow> word_t list \<Rightarrow> kstate \<Rightarrow> bool" where
  "awaken_inv s0 Q0 s \<longleftrightarrow> core_state s = core_state s0 \<and>
     (\<exists>R W Q. Q0 = W @ Q \<and> sched_inv R Q s \<and>
       (\<forall>t\<in>set W. is_candidate t \<and> tcbReadyTime s0 t \<le> ksCurTime s0 \<and> accounted s t) \<and>
       (\<forall>t. is_candidate t \<and> accounted s0 t \<longrightarrow> accounted s t)) \<and>
     (ksSchedulerAction s0 = SchedulerAction_ChooseNewThread \<longrightarrow>
        ksSchedulerAction s = SchedulerAction_ChooseNewThread) \<and>
     (is_candidate (ksSchedulerAction s) \<longrightarrow>
        ksSchedulerAction s = ksSchedulerAction s0 \<or> ksSchedulerAction s \<in> set Q0) \<and>
     (sched_ready s0 \<longrightarrow> sched_ready s)"

lemma tcbReleaseDequeue_action:
  "is_candidate (ksSchedulerAction (tcbReleaseDequeue s)) \<Longrightarrow>
   ksSchedulerAction (tcbReleaseDequeue s) = ksSchedulerAction s \<or>
   ksSchedulerAction (tcbReleaseDequeue s) = tcbq_head (ksReleaseQueue s)"
  by (auto simp: tcbReleaseDequeue_def possibleSwitchTo_def rescheduleRequired_def Let_def is_candidate_def)

lemma tcbReleaseDequeue_choose:
  "ksSchedulerAction s = SchedulerAction_ChooseNewThread \<Longrightarrow>
   ksSchedulerAction (tcbReleaseDequeue s) = SchedulerAction_ChooseNewThread"
  by (simp add: tcbReleaseDequeue_def possibleSwitchTo_def rescheduleRequired_def Let_def
      SchedulerAction_ChooseNewThread_def SchedulerAction_ResumeCurrentThread_def)

lemma release_guard:
  assumes "sched_inv R Q s"
  shows "release_q_non_empty_and_ready s \<longleftrightarrow> Q \<noteq> [] \<and> tcbReadyTime s (hd Q) \<le> ksCurTime s"
  using sched_inv_release_head [OF assms]
  by (auto simp: release_q_non_empty_and_ready_def refill_ready_def tcbReadyTime_def)

lemma awaken_step:
  assumes "awaken_inv s0 Q0 s" and "release_q_non_empty_and_ready s"
  shows "awaken_inv s0 Q0 (tcbReleaseDequeue s)"
    and "card {t. in_release (tcbReleaseDequeue s) t} < card {t. in_release s t}"
proof -
  obtain R W Q where Q0: "Q0 = W @ Q" and inv: "sched_inv R Q s" and core: "core_state s = core_state s0"
    and W: "\<forall>t\<in>set W. is_candidate t \<and> tcbReadyTime s0 t \<le> ksCurTime s0 \<and> accounted s t"
    and acc: "\<forall>t. is_candidate t \<and> accounted s0 t \<longrightarrow> accounted s t"
    and choose: "ksSchedulerAction s0 = SchedulerAction_ChooseNewThread \<longrightarrow>
        ksSchedulerAction s = SchedulerAction_ChooseNewThread"
    and action: "is_candidate (ksSchedulerAction s) \<longrightarrow>
        ksSchedulerAction s = ksSchedulerAction s0 \<or> ksSchedulerAction s \<in> set Q0"
    and fit: "sched_ready s0 \<longrightarrow> sched_ready s"
    using assms(1) unfolding awaken_inv_def by blast
  obtain t Q' where Q: "Q = t # Q'" and ready: "tcbReadyTime s t \<le> ksCurTime s"
    using assms(2) release_guard [OF inv] by (cases Q) auto
  note d = sched_inv_release_dequeue [OF inv [unfolded Q]]
  obtain R' where inv': "sched_inv R' Q' (tcbReleaseDequeue s)" using d(1) by blast
  have cand: "is_candidate u" if "u \<in> set Q" for u
    using inv that by (auto simp: sched_inv_def can_wake_def)
  have "{t. in_release s t} = insert t (set Q')" "{u. in_release (tcbReleaseDequeue s) u} = set Q'" "t \<notin> set Q'"
    using sched_inv_release_head(3,4) [OF inv] sched_inv_release_head(3) [OF inv'] Q by auto
  then show "card {t. in_release (tcbReleaseDequeue s) t} < card {t. in_release s t}" by simp
  show "awaken_inv s0 Q0 (tcbReleaseDequeue s)"
    unfolding awaken_inv_def
  proof (intro conjI exI ballI allI impI)
    show "core_state (tcbReleaseDequeue s) = core_state s0" using core by simp
    show "ksSchedulerAction (tcbReleaseDequeue s) = SchedulerAction_ChooseNewThread"
      if "ksSchedulerAction s0 = SchedulerAction_ChooseNewThread"
      using that choose tcbReleaseDequeue_choose by blast
    show "ksSchedulerAction (tcbReleaseDequeue s) = ksSchedulerAction s0 \<or>
        ksSchedulerAction (tcbReleaseDequeue s) \<in> set Q0"
      if "is_candidate (ksSchedulerAction (tcbReleaseDequeue s))"
      using tcbReleaseDequeue_action [OF that] that action sched_inv_release_head(2) [OF inv] Q Q0 by auto
    show "sched_ready (tcbReleaseDequeue s)" if "sched_ready s0"
      using that fit sched_ready_release_dequeue [OF inv [unfolded Q]] by blast
    show "Q0 = (W @ [t]) @ Q'" using Q0 Q by simp
    show "sched_inv R' Q' (tcbReleaseDequeue s)" by (rule inv')
    fix u
    show "accounted (tcbReleaseDequeue s) u" if "is_candidate u \<and> accounted s0 u"
      using that acc d(3) by blast
    assume u: "u \<in> set (W @ [t])"
    show "is_candidate u" using u W cand Q by auto
    show "tcbReadyTime s0 u \<le> ksCurTime s0"
      using u W ready core_state_thread(5) [OF core] core_stateD(7) [OF core] by auto
    show "accounted (tcbReleaseDequeue s) u" using u W d(2,3) by auto
  qed
qed

interpretation awaken: variant_loop release_q_non_empty_and_ready tcbReleaseDequeue
  "awaken_inv s0 Q0" "\<lambda>s. card {t. in_release s t}" for s0 Q0
  using awaken_step by unfold_locales blast+

lemma sorted_ready_prefix:
  assumes "release_sorted s (W @ Q)" and "\<forall>t\<in>set W. tcbReadyTime s t \<le> now"
    and "Q = [] \<or> now < tcbReadyTime s (hd Q)"
  shows "Q = filter (\<lambda>t. now < tcbReadyTime s t) (W @ Q)"
proof -
  have "now < tcbReadyTime s t" if "t \<in> set Q" for t
    using that assms(1,3) by (cases Q) (auto simp: release_sorted_def sorted_wrt_append)
  then have "filter (\<lambda>t. now < tcbReadyTime s t) Q = Q" by (simp add: filter_id_conv)
  moreover have "filter (\<lambda>t. now < tcbReadyTime s t) W = []"
    using assms(2) by (auto simp: filter_empty_conv)
  ultimately show ?thesis by simp
qed

lemma awaken_spec:
  assumes inv: "sched_inv R Q s"
  obtains s' R' where "awaken s = Some s'"
    and "sched_inv R' (filter (\<lambda>t. ksCurTime s < tcbReadyTime s t) Q) s'"
    and "core_state s' = core_state s"
    and "\<And>t. t \<in> set Q \<Longrightarrow> tcbReadyTime s t \<le> ksCurTime s \<Longrightarrow> accounted s' t"
    and "\<And>t. is_candidate t \<Longrightarrow> accounted s t \<Longrightarrow> accounted s' t"
    and "ksSchedulerAction s = SchedulerAction_ChooseNewThread \<Longrightarrow>
      ksSchedulerAction s' = SchedulerAction_ChooseNewThread"
    and "is_candidate (ksSchedulerAction s') \<Longrightarrow>
      ksSchedulerAction s' = ksSchedulerAction s \<or> ksSchedulerAction s' \<in> set Q"
    and "sched_ready s \<Longrightarrow> sched_ready s'"
proof -
  have "awaken_inv s Q s" using inv unfolding awaken_inv_def by (force intro: exI [of _ "[]"])
  then obtain s' where s': "while_option release_q_non_empty_and_ready tcbReleaseDequeue s = Some s'"
    and i: "awaken_inv s Q s'" and stop: "\<not> release_q_non_empty_and_ready s'"
    by (rule awaken.loop_returns)
  obtain R' W Q' where Q: "Q = W @ Q'" and inv': "sched_inv R' Q' s'" and core: "core_state s' = core_state s"
    and W: "\<forall>t\<in>set W. is_candidate t \<and> tcbReadyTime s t \<le> ksCurTime s \<and> accounted s' t"
    and acc: "\<forall>t. is_candidate t \<and> accounted s t \<longrightarrow> accounted s' t"
    and choose: "ksSchedulerAction s = SchedulerAction_ChooseNewThread \<longrightarrow>
        ksSchedulerAction s' = SchedulerAction_ChooseNewThread"
    and action: "is_candidate (ksSchedulerAction s') \<longrightarrow>
        ksSchedulerAction s' = ksSchedulerAction s \<or> ksSchedulerAction s' \<in> set Q"
    and fit: "sched_ready s \<longrightarrow> sched_ready s'"
    using i unfolding awaken_inv_def by blast
  have "Q' = [] \<or> ksCurTime s < tcbReadyTime s (hd Q')"
    using stop release_guard [OF inv'] core_state_thread(5) [OF core] core_stateD(7) [OF core] by auto
  then have Q': "Q' = filter (\<lambda>t. ksCurTime s < tcbReadyTime s t) Q"
    using sorted_ready_prefix [of s W Q' "ksCurTime s"] inv W Q by (simp add: sched_inv_def)
  show thesis
  proof (rule that)
    show "awaken s = Some s'" using s' by (simp add: awaken_def)
    show "sched_inv R' (filter (\<lambda>t. ksCurTime s < tcbReadyTime s t) Q) s'" using inv' Q' by simp
    show "core_state s' = core_state s" by (rule core)
    show "accounted s' t" if "t \<in> set Q" "tcbReadyTime s t \<le> ksCurTime s" for t
    proof -
      have "t \<notin> set Q'" unfolding Q' using that by simp
      then show ?thesis using that(1) Q W by auto
    qed
    show "is_candidate t \<Longrightarrow> accounted s t \<Longrightarrow> accounted s' t" for t using acc by blast
    show "ksSchedulerAction s = SchedulerAction_ChooseNewThread \<Longrightarrow>
      ksSchedulerAction s' = SchedulerAction_ChooseNewThread" using choose by blast
    show "is_candidate (ksSchedulerAction s') \<Longrightarrow>
      ksSchedulerAction s' = ksSchedulerAction s \<or> ksSchedulerAction s' \<in> set Q" using action by blast
    show "sched_ready s \<Longrightarrow> sched_ready s'" using fit by blast
  qed
qed

section \<open>Choosing a thread\<close>

lemma numDomains_gt [simp]: "1 < numDomains"
  by (simp add: numDomains_def CONFIG_NUM_DOMAINS_def word_less_nat_alt)

lemma dequeue_queues_ok: "queues_ok R Q s \<Longrightarrow> \<exists>R'. queues_ok R' Q (tcbSchedDequeue t s)"
  using tcbSchedDequeue_ok [of R Q s t] by (cases "queued s t") (auto simp: tcbSchedDequeue_def)

lemma queues_ok_ready:
  assumes "queues_ok R Q s"
  shows "t \<in> set (R d p) \<longleftrightarrow> queued s t \<and> tcbDomain (tcbs s t) = d \<and> tcbPriority (tcbs s t) = p"
    and "queued s t \<Longrightarrow> valid_prio (tcbPriority (tcbs s t)) \<and> \<not> in_release s t"
  using assms queue_links_okD(2,3) [of R Q s] by (auto simp: queues_ok_def)

lemma switchToThread_best:
  assumes q: "queues_ok R Q s" and t: "tcbDomain (tcbs s t) = ksCurDomain s"
    and best: "\<And>u. queued s u \<Longrightarrow> tcbDomain (tcbs s u) = ksCurDomain s \<Longrightarrow> tcbPriority (tcbs s u) \<le> tcbPriority (tcbs s t)"
  shows "runs_best (switchToThread t s)" and "\<exists>R'. queues_ok R' Q (switchToThread t s)"
    and "queued (switchToThread t s) u \<longleftrightarrow> queued s u \<and> u \<noteq> t"
proof -
  have core: "core_state (tcbSchedDequeue t (setVMRoot t s)) = core_state (setVMRoot t s)" by simp
  note th = core_state_thread [OF core] and st = core_stateD [OF core]
  show "runs_best (switchToThread t s)"
    using best t by (simp add: runs_best_def switchToThread_eq th st)
  show "\<exists>R'. queues_ok R' Q (switchToThread t s)"
    using dequeue_queues_ok [of R Q "setVMRoot t s"] q by (simp add: switchToThread_eq)
  show "queued (switchToThread t s) u \<longleftrightarrow> queued s u \<and> u \<noteq> t"
    by (simp add: switchToThread_eq)
qed

lemma chooseThread_best:
  assumes q: "queues_ok R Q s" and d: "valid_domain (ksCurDomain s)"
  shows "runs_best (chooseThread s)" and "\<exists>R'. queues_ok R' Q (chooseThread s)"
    and "queued s u \<Longrightarrow> queued (chooseThread s) u \<or> u = ksCurThread (chooseThread s)"
    and "ksCurThread (chooseThread s) = ksIdleThread s \<or> queued s (ksCurThread (chooseThread s))"
proof -
  let ?d = "ksCurDomain s"
  have bm: "bitmap_ok (\<lambda>d p. R d p \<noteq> []) s" using q by (simp add: queues_ok_def)
  note ready = queues_ok_ready [OF q]
  have "runs_best (chooseThread s) \<and> (\<exists>R'. queues_ok R' Q (chooseThread s)) \<and>
      (queued s u \<longrightarrow> queued (chooseThread s) u \<or> u = ksCurThread (chooseThread s)) \<and>
      (ksCurThread (chooseThread s) = ksIdleThread s \<or> queued s (ksCurThread (chooseThread s)))"
  proof (cases "ksReadyQueuesL1Bitmap s ?d = 0")
    case True
    then have none: "R ?d p = []" if "valid_prio p" for p
      using bitmap_empty_iff [OF bm d] that by blast
    have "\<not> (queued s t \<and> tcbDomain (tcbs s t) = ?d)" for t
      using none [of "tcbPriority (tcbs s t)"] ready(1) [of t ?d "tcbPriority (tcbs s t)"] ready(2) [of t] by auto
    then show ?thesis
      using q True by (auto simp: chooseThread_def switchToIdleThread_eq runs_best_def)
  next
    case False
    define p where "p = getHighestPrio ?d s"
    define t where "t = tcbq_head (ksReadyQueues s (ready_queues_index ?d p))"
    note high = getHighestPrio_max [OF bm d False, folded p_def]
    have "sched_queue s (ksReadyQueues s (ready_queues_index ?d p)) (R ?d p)"
      using queue_links_okD(1) [of R Q s ?d p] q d high(1) by (simp add: queues_ok_def)
    then have "t \<in> set (R ?d p)" using high(2) by (cases "R ?d p") (auto simp: t_def sched_queue_def)
    then have t: "queued s t" "tcbDomain (tcbs s t) = ?d" "tcbPriority (tcbs s t) = p" using ready(1) by auto
    have best: "tcbPriority (tcbs s u) \<le> tcbPriority (tcbs s t)" if "queued s u" "tcbDomain (tcbs s u) = ?d" for u
      using high(3) [of "tcbPriority (tcbs s u)"] ready(1) [of u ?d "tcbPriority (tcbs s u)"] ready(2) [of u] that t(3)
      by (cases "R ?d (tcbPriority (tcbs s u))") auto
    have eq: "chooseThread s = switchToThread t s"
      using False by (simp add: chooseThread_def p_def t_def Let_def)
    have "ksCurThread (switchToThread t s) = t" by (simp add: switchToThread_eq)
    then show ?thesis unfolding eq using switchToThread_best [OF q t(2) best] t(1) by auto
  qed
  then show "runs_best (chooseThread s)" "\<exists>R'. queues_ok R' Q (chooseThread s)"
    "queued s u \<Longrightarrow> queued (chooseThread s) u \<or> u = ksCurThread (chooseThread s)"
    "ksCurThread (chooseThread s) = ksIdleThread s \<or> queued s (ksCurThread (chooseThread s))" by blast+
qed

section \<open>The domain schedule\<close>

definition domScheduleLength :: word_t where
  "domScheduleLength = 100"

text \<open>
  An entry that is not an end marker has a valid domain and a positive duration; the start
  entry is one, the last entry is an end marker, and the index points before the last entry.
\<close>

definition dom_sched_ok :: "kstate \<Rightarrow> bool" where
  "dom_sched_ok s \<longleftrightarrow>
     (\<forall>i. ksDomSchedule s i \<noteq> 0 \<longrightarrow> valid_domain (dschedule_domain (ksDomSchedule s i)) \<and>
        dschedule_duration (ksDomSchedule s i) \<noteq> 0) \<and>
     ksDomSchedule s (ksDomScheduleStart s) \<noteq> 0 \<and> ksDomSchedule s (domScheduleLength - 1) = 0 \<and>
     ksDomScheduleStart s < domScheduleLength \<and> ksDomScheduleIdx s < domScheduleLength - 1"

lemma schedule_index_step: "i < domScheduleLength - 1 \<Longrightarrow> i + 1 < domScheduleLength"
proof -
  assume "i < domScheduleLength - 1"
  then have i: "unat i < 99" by (simp add: domScheduleLength_def word_less_nat_alt)
  then have "unat (i + 1) = unat i + unat (1 :: word_t)" by (intro unat_add_no_overflow) simp
  then show ?thesis using i by (simp add: domScheduleLength_def word_less_nat_alt)
qed

lemma schedule_index_last:
  "j < domScheduleLength \<Longrightarrow> j \<noteq> domScheduleLength - 1 \<Longrightarrow> j < domScheduleLength - 1"
  by (simp add: domScheduleLength_def word_less_nat_alt word_unat_eq_iff)

lemma nextDomain_ok:
  assumes "dom_sched_ok s"
  shows "dom_sched_ok (nextDomain s)" and "valid_domain (ksCurDomain (nextDomain s))"
    and "ksDomainTime (nextDomain s) \<noteq> 0"
proof -
  let ?i = "if ksDomSchedule s (ksDomScheduleIdx s + 1) = 0 then ksDomScheduleStart s else ksDomScheduleIdx s + 1"
  have e: "ksDomSchedule s ?i \<noteq> 0" using assms by (simp add: dom_sched_ok_def)
  have "?i < domScheduleLength"
    using assms schedule_index_step by (simp add: dom_sched_ok_def)
  moreover have "?i \<noteq> domScheduleLength - 1" using e assms by (metis dom_sched_ok_def)
  ultimately have i: "?i < domScheduleLength - 1" by (rule schedule_index_last)
  have n: "nextDomain s = s\<lparr>ksDomScheduleIdx := ?i, ksReprogram := True, ksWorkUnitsCompleted := 0,
      ksCurDomain := dschedule_domain (ksDomSchedule s ?i), ksDomainTime := dschedule_duration (ksDomSchedule s ?i)\<rparr>"
    by (simp add: nextDomain_def dschedule_is_end_marker_def Let_def)
  show "dom_sched_ok (nextDomain s)" using assms i unfolding n by (simp add: dom_sched_ok_def)
  show "valid_domain (ksCurDomain (nextDomain s))" "ksDomainTime (nextDomain s) \<noteq> 0"
    using assms e unfolding n dom_sched_ok_def by simp_all
qed

section \<open>The scheduler\<close>

lemma queues_ok_nextDomain [simp]: "queues_ok R Q (nextDomain s) = queues_ok R Q s"
  by (rule queues_ok_same) (simp add: same_queue_state_def nextDomain_def Let_def)

lemma nextDomain_queues [simp]: "queued (nextDomain s) t = queued s t" "tcbs (nextDomain s) = tcbs s"
  by (simp_all add: nextDomain_def Let_def)

lemma scheduleChooseNewThread_best:
  assumes "queues_ok R Q s" and "dom_sched_ok s" and "valid_domain (ksCurDomain s)"
  shows "runs_best (scheduleChooseNewThread s)" and "\<exists>R'. queues_ok R' Q (scheduleChooseNewThread s)"
    and "queued s u \<Longrightarrow> queued (scheduleChooseNewThread s) u \<or> u = ksCurThread (scheduleChooseNewThread s)"
    and "ksCurThread (scheduleChooseNewThread s) = ksIdleThread s \<or> queued s (ksCurThread (scheduleChooseNewThread s))"
proof -
  let ?s = "if ksDomainTime s = 0 then nextDomain s else s"
  have "queues_ok R Q ?s" "valid_domain (ksCurDomain ?s)" using assms nextDomain_ok by simp_all
  note c = chooseThread_best [OF this]
  show "runs_best (scheduleChooseNewThread s)" "\<exists>R'. queues_ok R' Q (scheduleChooseNewThread s)"
    using c(1,2) by (simp_all add: scheduleChooseNewThread_def)
  show "queued s u \<Longrightarrow> queued (scheduleChooseNewThread s) u \<or> u = ksCurThread (scheduleChooseNewThread s)"
    using c(3) [of u] by (simp add: scheduleChooseNewThread_def split: if_splits)
  have "ksIdleThread ?s = ksIdleThread s" by (simp add: nextDomain_def Let_def)
  then show "ksCurThread (scheduleChooseNewThread s) = ksIdleThread s \<or> queued s (ksCurThread (scheduleChooseNewThread s))"
    using c(4) by (simp add: scheduleChooseNewThread_def split: if_splits)
qed

lemma queued_scheduleChooseNewThread: "queued (scheduleChooseNewThread s) u \<Longrightarrow> queued s u"
  by (auto simp: scheduleChooseNewThread_def chooseThread_def switchToThread_eq switchToIdleThread_eq Let_def
      split: if_splits)

text \<open>What a switch must achieve, from a state whose current thread and action are given.\<close>

definition switch_ok :: "word_t list \<Rightarrow> kstate \<Rightarrow> kstate \<Rightarrow> bool" where
  "switch_ok Q s s' \<longleftrightarrow> (\<exists>R'. queues_ok R' Q s') \<and> runs_best s' \<and>
     (ksCurThread s' = ksIdleThread s \<or> is_candidate (ksCurThread s') \<and> isSchedulable (ksCurThread s') s) \<and>
     (\<forall>t. queued s' t \<longrightarrow> is_candidate t \<and> isSchedulable t s) \<and>
     (\<forall>t. is_candidate t \<and> (accounted s t \<or> t = ksCurThread s \<and> isSchedulable t s) \<longrightarrow>
        queued s' t \<or> t = ksCurThread s')"

lemma isHighestPrio_best:
  assumes q: "queues_ok R Q s" and d: "valid_domain d" and h: "isHighestPrio d p s"
    and u: "queued s u" "tcbDomain (tcbs s u) = d"
  shows "tcbPriority (tcbs s u) \<le> p"
proof -
  have bm: "bitmap_ok (\<lambda>d p. R d p \<noteq> []) s" using q by (simp add: queues_ok_def)
  have ne: "R d (tcbPriority (tcbs s u)) \<noteq> []" "valid_prio (tcbPriority (tcbs s u))"
    using queues_ok_ready(1) [OF q, of u d "tcbPriority (tcbs s u)"] queues_ok_ready(2) [OF q, of u] u by auto
  then have nz: "ksReadyQueuesL1Bitmap s d \<noteq> 0" using bitmap_empty_iff [OF bm d] by blast
  then show ?thesis using h getHighestPrio_max(3) [OF bm d nz, of "tcbPriority (tcbs s u)"] ne
    by (auto simp: isHighestPrio_def)
qed

lemma not_candidate: "\<not> is_candidate SchedulerAction_ChooseNewThread" "\<not> is_candidate SchedulerAction_ResumeCurrentThread"
  by (simp_all add: is_candidate_def)

lemma queued_schedulable:
  assumes "sched_inv R Q s" "sched_ready s" "queued s t"
  shows "is_candidate t \<and> isSchedulable t s"
proof -
  have "can_wake s t" "\<not> in_release s t"
    using assms queues_ok_ready(2) [of R Q s t] by (auto simp: sched_ready_def sched_inv_def)
  then show ?thesis using can_wake_isSchedulable by (simp add: can_wake_def)
qed

lemma schedule_switch_ok:
  assumes inv: "sched_inv R Q s" and ready: "sched_ready s" and dom: "dom_sched_ok s" "valid_domain (ksCurDomain s)"
    and act: "ksSchedulerAction s \<noteq> SchedulerAction_ResumeCurrentThread"
    and cur: "is_candidate (ksCurThread s)" "ksCurThread s \<noteq> ksSchedulerAction s"
  shows "switch_ok Q s (schedule_switch s)"
proof -
  let ?a = "ksSchedulerAction s" and ?c = "ksCurThread s"
  define s1 where "s1 = (if isSchedulable ?c s then tcbSchedEnqueue ?c s else s)"
  have core: "core_state s1 = core_state s" by (simp add: s1_def)
  note st = core_stateD [OF core] and th = core_state_thread [OF core]
  have a1: "ksSchedulerAction s1 = ?a" by (simp add: s1_def)
  have rel1: "in_release s1 u = in_release s u" for u by (simp add: s1_def)
  have q1: "queued s1 u \<longleftrightarrow> queued s u \<or> u = ?c \<and> isSchedulable ?c s" for u by (auto simp: s1_def)
  have sched: "queued s u \<Longrightarrow> is_candidate u \<and> isSchedulable u s" for u
    by (rule queued_schedulable [OF inv ready])
  then have sched1: "queued s1 u \<Longrightarrow> is_candidate u \<and> isSchedulable u s" for u using q1 cur(1) by auto
  obtain R1 where inv1: "sched_inv R1 Q s1"
    using sched_inv_enqueue [OF inv _ candidate_nz [OF cur(1)] cur(2)] inv unfolding s1_def by (metis isSchedulable_def)
  have ok1: "queues_ok R1 Q s1" "threads_valid s1" using inv1 by (auto simp: sched_inv_def)
  have dom1: "dom_sched_ok s1" "valid_domain (ksCurDomain s1)" using dom st by (simp_all add: dom_sched_ok_def)
  show ?thesis
  proof (cases "?a = SchedulerAction_ChooseNewThread")
    case True
    then have eq: "schedule_switch s = scheduleChooseNewThread s1"
      using act by (simp add: schedule_switch_def s1_def Let_def)
    show ?thesis
      unfolding eq switch_ok_def using scheduleChooseNewThread_best [OF ok1(1) dom1] True q1 st(4) sched1
        queued_scheduleChooseNewThread [of s1]
      by (auto simp: accounted_def not_candidate)
  next
    case False
    then have cand: "is_candidate ?a" using act by (simp add: is_candidate_def)
    then have a: "\<not> in_release s1 ?a" "?a \<noteq> 0" "tcbDomain (tcbs s1 ?a) = ksCurDomain s1" "\<not> queued s ?a" "isSchedulable ?a s"
      using inv candidate_nz rel1 th(1) st(5) by (auto simp: sched_inv_def isSchedulable_def)
    let ?fast = "ksCurThread s1 = ksIdleThread s1 \<or> tcbPriority (tcbs s1 ?a) < tcbPriority (tcbs s1 (ksCurThread s1))"
    have choose: "switch_ok Q s (scheduleChooseNewThread (s2\<lparr>ksSchedulerAction := SchedulerAction_ChooseNewThread\<rparr>))"
      if q2: "\<exists>R'. queues_ok R' Q s2" and f2: "\<And>u. queued s2 u \<longleftrightarrow> queued s1 u \<or> u = ?a"
        and c2: "core_state s2 = core_state s1" for s2
    proof -
      let ?s3 = "s2\<lparr>ksSchedulerAction := SchedulerAction_ChooseNewThread\<rparr>"
      obtain R2 where qok: "queues_ok R2 Q ?s3" using q2 by auto
      have "dom_sched_ok ?s3" "valid_domain (ksCurDomain ?s3)"
        using dom1 core_stateD [OF c2] by (simp_all add: dom_sched_ok_def)
      note best = scheduleChooseNewThread_best [OF qok this]
      have sched3: "queued ?s3 u \<Longrightarrow> is_candidate u \<and> isSchedulable u s" for u using f2 sched1 a(5) cand by auto
      have "ksIdleThread ?s3 = ksIdleThread s" using core_stateD(4) [OF c2] st(4) by simp
      moreover have "queued ?s3 u" if "accounted s u \<or> u = ?c \<and> isSchedulable u s" for u
        using that f2 q1 by (auto simp: accounted_def)
      ultimately show ?thesis
        using best sched3 queued_scheduleChooseNewThread [of ?s3] unfolding switch_ok_def by metis
    qed
    consider (lower) "schedule_switch s = scheduleChooseNewThread
          ((tcbSchedEnqueue ?a s1)\<lparr>ksSchedulerAction := SchedulerAction_ChooseNewThread\<rparr>)"
      | (equal) "schedule_switch s = scheduleChooseNewThread
          ((tcbSchedAppend ?a s1)\<lparr>ksSchedulerAction := SchedulerAction_ChooseNewThread\<rparr>)"
      | (switch) "schedule_switch s = switchToThread ?a s1"
          "\<not> ?fast \<or> isHighestPrio (ksCurDomain s1) (tcbPriority (tcbs s1 ?a)) s1"
      using act False a1 unfolding schedule_switch_def Let_def s1_def [symmetric] by (simp split: if_splits) metis
    then show ?thesis
    proof cases
      case lower
      then show ?thesis using choose enqueue_queues_ok [OF ok1 a(1,2)] by simp
    next
      case equal
      then show ?thesis using choose append_queues_ok [OF ok1 a(1,2)] by simp
    next
      case switch
      have s': "\<exists>R'. queues_ok R' Q (switchToThread ?a s1)" "ksCurThread (switchToThread ?a s1) = ?a"
        "queued (switchToThread ?a s1) u \<longleftrightarrow> queued s1 u \<and> u \<noteq> ?a" for u
        using dequeue_queues_ok [of _ Q "setVMRoot ?a s1"] ok1(1) by (auto simp: switchToThread_eq)
      have "tcbPriority (tcbs s1 u) \<le> tcbPriority (tcbs s1 ?a)" if u: "queued s1 u" "tcbDomain (tcbs s1 u) = ksCurDomain s1" for u
      proof (cases ?fast)
        case True
        then show ?thesis using switch(2) u isHighestPrio_best [OF ok1(1) dom1(2)] by blast
      next
        case False
        then have "ksCurThread s \<noteq> ksIdleThread s" "tcbPriority (tcbs s ?c) \<le> tcbPriority (tcbs s ?a)"
          using th(2) st(3,4) by (simp_all add: not_less)
        moreover have "tcbPriority (tcbs s u) \<le> tcbPriority (tcbs s ?c)"
          using ready cand u q1 th(1) st(5) \<open>ksCurThread s \<noteq> ksIdleThread s\<close> by (auto simp: sched_ready_def)
        ultimately show ?thesis by (simp add: th(2))
      qed
      then have "runs_best (switchToThread ?a s1)" by (intro switchToThread_best(1) [OF ok1(1) a(3)]) blast
      then show ?thesis
        unfolding switch(1) switch_ok_def using s' cand a(5) q1 sched1 by (auto simp: accounted_def)
    qed
  qed
qed

text \<open>Scheduling contexts whose refills can be charged and unblocked.\<close>

definition refills_usable :: "kstate \<Rightarrow> bool" where
  "refills_usable s \<longleftrightarrow> (\<forall>p. isRoundRobin (scs s p) \<or> (\<exists>B. sc_refills_ok B (scs s p)))"

lemma queues_ok_upd_sc [simp]:
  "queues_ok R Q (upd_sc p f s) = queues_ok R Q s" "queues_ok R Q (s\<lparr>ksConsumed := c\<rparr>) = queues_ok R Q s"
  "queues_ok R Q (s\<lparr>ksCurSC := c\<rparr>) = queues_ok R Q s"
  "queues_ok R Q (s\<lparr>timer_deadline := c\<rparr>) = queues_ok R Q s"
  by (rule queues_ok_same, simp add: same_queue_state_def upd_defs)+

text \<open>The state without scheduling contexts and the accounting of time.\<close>

definition sc_erase :: "kstate \<Rightarrow> kstate" where
  "sc_erase s = s\<lparr>scs := \<lambda>_. zero_sched_context, ksConsumed := 0, ksReprogram := False, ksCurSC := 0\<rparr>"

lemma sc_erase_step [simp]:
  "sc_erase (upd_sc p f s) = sc_erase s" "sc_erase (s\<lparr>ksReprogram := b\<rparr>) = sc_erase s"
  "sc_erase (s\<lparr>ksConsumed := c\<rparr>) = sc_erase s" "sc_erase (s\<lparr>ksCurSC := c\<rparr>) = sc_erase s"
  by (simp_all add: sc_erase_def upd_defs)

lemma sc_eraseD:
  assumes "sc_erase s' = sc_erase s"
  shows "tcbs s' = tcbs s" "ksCurThread s' = ksCurThread s" "ksIdleThread s' = ksIdleThread s"
    "ksCurDomain s' = ksCurDomain s" "ksSchedulerAction s' = ksSchedulerAction s" "ksCurTime s' = ksCurTime s"
    "queues_ok R Q s' = queues_ok R Q s"
proof -
  show tcbs: "tcbs s' = tcbs s" and "ksCurThread s' = ksCurThread s" "ksIdleThread s' = ksIdleThread s"
    "ksCurDomain s' = ksCurDomain s" "ksSchedulerAction s' = ksSchedulerAction s" "ksCurTime s' = ksCurTime s"
    using arg_cong [OF assms, of tcbs] arg_cong [OF assms, of ksCurThread] arg_cong [OF assms, of ksIdleThread]
      arg_cong [OF assms, of ksCurDomain] arg_cong [OF assms, of ksSchedulerAction] arg_cong [OF assms, of ksCurTime]
    by (simp_all add: sc_erase_def)
  show "queues_ok R Q s' = queues_ok R Q s"
    using tcbs arg_cong [OF assms, of ksReadyQueues] arg_cong [OF assms, of ksReleaseQueue]
      arg_cong [OF assms, of ksReadyQueuesL1Bitmap] arg_cong [OF assms, of ksReadyQueuesL2Bitmap]
    by (intro queues_ok_same) (simp add: same_queue_state_def sc_erase_def)
qed

lemma same_params_active: "same_params sc sc' \<Longrightarrow> sc_active sc' = sc_active sc"
  by (simp add: same_params_def sc_active_def)

lemma sc_refill_unblock_check_returns:
  assumes "refills_usable s" and "ksCurTime s < MAX_RELEASE_TIME"
  obtains s' where "sc_refill_unblock_check p s = Some s'" and "sc_erase s' = sc_erase s" and "refills_usable s'"
    and "ksReprogram s \<Longrightarrow> ksReprogram s'" and "\<forall>q. sc_active (scs s' q) = sc_active (scs s q)"
proof -
  have "\<exists>sc' b. refill_unblock_check (ksCurTime s) (scs s p) = Some (sc', b) \<and>
      (isRoundRobin sc' \<or> (\<exists>B. sc_refills_ok B sc')) \<and> sc_active sc' = sc_active (scs s p)"
  proof (cases "isRoundRobin (scs s p)")
    case True
    then show ?thesis by (auto simp: refill_unblock_check_def)
  next
    case False
    then obtain B where "sc_refills_ok B (scs s p)" using assms(1) by (auto simp: refills_usable_def)
    then show ?thesis using refill_unblock_check_ok [OF _ assms(2)] same_params_active by metis
  qed
  then obtain sc' b where eq: "refill_unblock_check (ksCurTime s) (scs s p) = Some (sc', b)"
    and ok: "isRoundRobin sc' \<or> (\<exists>B. sc_refills_ok B sc')" and act: "sc_active sc' = sc_active (scs s p)" by blast
  show thesis
  proof (rule that)
    let ?s = "(upd_sc p (\<lambda>_. sc') s)\<lparr>ksReprogram := ksReprogram s \<or> b\<rparr>"
    show "sc_refill_unblock_check p s = Some ?s" using eq by (simp add: sc_refill_unblock_check_def)
    show "sc_erase ?s = sc_erase s" by simp
    show "refills_usable ?s" using ok assms(1) by (simp add: refills_usable_def upd_defs)
    show "ksReprogram s \<Longrightarrow> ksReprogram ?s" by simp
    show "\<forall>q. sc_active (scs ?s q) = sc_active (scs s q)" using act by (simp add: upd_defs)
  qed
qed

lemma commitTime_returns:
  assumes "refills_usable s"
  obtains s' where "commitTime s = Some s'" and "sc_erase s' = sc_erase s" and "ksConsumed s' = 0"
    and "ksReprogram s' = ksReprogram s" and "ksCurSC s' = ksCurSC s"
    and "\<forall>q. sc_active (scs s' q) = sc_active (scs s q)"
proof -
  have "\<exists>s'. cur_refill_budget_check (ksConsumed s) s = Some s' \<and> sc_erase s' = sc_erase s \<and>
      ksReprogram s' = ksReprogram s \<and> ksCurSC s' = ksCurSC s \<and> (\<forall>q. sc_active (scs s' q) = sc_active (scs s q))"
    if rr: "\<not> isRoundRobin (scs s (ksCurSC s))"
  proof -
    obtain B where "sc_refills_ok B (scs s (ksCurSC s))" using assms rr by (auto simp: refills_usable_def)
    then obtain sc' where "refill_budget_check (ksConsumed s) (scs s (ksCurSC s)) = Some sc'"
      "same_params (scs s (ksCurSC s)) sc'"
      by (rule refill_budget_check_ok)
    then show ?thesis
      by (auto simp: cur_refill_budget_check_def) (auto simp: upd_defs same_params_active split: if_splits)
  qed
  note charged = this
  define charge where "charge = (if ksConsumed s > 0 then
      if isRoundRobin (scs s (ksCurSC s)) then
        let s = upd_sc (ksCurSC s) (\<lambda>sc. set_refill_head
                  (refill_head sc\<lparr>rAmount := rAmount (refill_head sc) - ksConsumed s\<rparr>) sc) s
        in Some (upd_sc (ksCurSC s) (\<lambda>sc. set_refill_tail
                  (refill_tail sc\<lparr>rAmount := rAmount (refill_tail sc) + ksConsumed s\<rparr>) sc) s)
      else cur_refill_budget_check (ksConsumed s) s
    else Some s)"
  have "\<exists>s1. charge = Some s1 \<and> sc_erase s1 = sc_erase s \<and> ksReprogram s1 = ksReprogram s \<and>
      ksCurSC s1 = ksCurSC s \<and> (\<forall>q. sc_active (scs s1 q) = sc_active (scs s q))"
  proof (cases "ksConsumed s > 0 \<and> \<not> isRoundRobin (scs s (ksCurSC s))")
    case True
    then show ?thesis using charged by (simp add: charge_def)
  next
    case False
    then show ?thesis
      by (auto simp: charge_def Let_def)
        (auto simp: upd_defs sc_active_def set_refill_head_def set_refill_tail_def set_refill_index_def split: if_splits)
  qed
  then obtain s1 where s1: "charge = Some s1" "sc_erase s1 = sc_erase s" "ksReprogram s1 = ksReprogram s" "ksCurSC s1 = ksCurSC s"
    "\<forall>q. sc_active (scs s1 q) = sc_active (scs s q)"
    by blast
  show thesis
  proof (cases "sc_active (scs s (ksCurSC s)) \<and> ksCurSC s \<noteq> ksIdleSC s")
    case True
    then have "commitTime s = Some ((upd_sc (ksCurSC s1)
        (\<lambda>sc. sc\<lparr>scConsumed := scConsumed sc + ksConsumed s1\<rparr>) s1)\<lparr>ksConsumed := 0\<rparr>)"
      using s1(1) by (simp add: commitTime_def charge_def [symmetric] Let_def)
    then show ?thesis by (rule that) (use s1 in simp_all, simp_all add: upd_defs sc_active_def)
  next
    case False
    then have "commitTime s = Some (s\<lparr>ksConsumed := 0\<rparr>)" by (auto simp: commitTime_def)
    then show ?thesis by (rule that) simp_all
  qed
qed

lemma switchSchedContext_returns:
  assumes "refills_usable s" and "ksCurTime s < MAX_RELEASE_TIME"
  obtains s' where "switchSchedContext s = Some s'" and "sc_erase s' = sc_erase s"
    and "ksCurSC s' = tcbSchedContext (tcbs s (ksCurThread s))" and "\<forall>q. sc_active (scs s' q) = sc_active (scs s q)"
proof -
  let ?r = "s\<lparr>ksReprogram := True\<rparr>" and ?p = "tcbSchedContext (tcbs s (ksCurThread s))"
  define unblock where "unblock = (if ksCurSC s \<noteq> ?p then
      if sc_constant_bandwidth (scs s ?p) then sc_refill_unblock_check ?p ?r else Some ?r else Some s)"
  have r: "refills_usable ?r" "sc_erase ?r = sc_erase s" using assms(1) by (simp_all add: refills_usable_def)
  obtain s1 where s1: "unblock = Some s1" "sc_erase s1 = sc_erase s" "refills_usable s1"
    "\<forall>q. sc_active (scs s1 q) = sc_active (scs s q)"
  proof (cases "ksCurSC s \<noteq> ?p \<and> sc_constant_bandwidth (scs s ?p)")
    case True
    obtain s1 where "sc_refill_unblock_check ?p ?r = Some s1" "sc_erase s1 = sc_erase ?r" "refills_usable s1"
      "\<forall>q. sc_active (scs s1 q) = sc_active (scs ?r q)"
      using sc_refill_unblock_check_returns [OF r(1), of ?p] assms(2) by auto
    then show ?thesis using that [of s1] True by (simp add: unblock_def)
  next
    case False
    then show ?thesis using that [of "if ksCurSC s \<noteq> ?p then ?r else s"] r assms(1)
      by (auto simp: unblock_def)
  qed
  obtain s2 where s2: "(if ksReprogram s1 then commitTime s1 else Some s1) = Some s2" "sc_erase s2 = sc_erase s1"
    "\<forall>q. sc_active (scs s2 q) = sc_active (scs s1 q)"
    using commitTime_returns [OF s1(3)] by (metis (full_types))
  note same = sc_eraseD [OF s1(2)] sc_eraseD [OF s2(2)]
  show thesis
  proof (rule that)
    have "switchSchedContext s = do {
        s \<leftarrow> unblock;
        s \<leftarrow> (if ksReprogram s then commitTime s else Some s);
        Some (s\<lparr>ksCurSC := tcbSchedContext (tcbs s (ksCurThread s))\<rparr>) }"
      by (simp add: switchSchedContext_def unblock_def Let_def)
    then show "switchSchedContext s = Some (s2\<lparr>ksCurSC := tcbSchedContext (tcbs s2 (ksCurThread s2))\<rparr>)"
      using s1(1) s2(1) by simp
    show "sc_erase (s2\<lparr>ksCurSC := tcbSchedContext (tcbs s2 (ksCurThread s2))\<rparr>) = sc_erase s"
      using s1(2) s2(2) by simp
    show "ksCurSC (s2\<lparr>ksCurSC := tcbSchedContext (tcbs s2 (ksCurThread s2))\<rparr>) = ?p"
      by (simp add: same)
    show "\<forall>q. sc_active (scs (s2\<lparr>ksCurSC := tcbSchedContext (tcbs s2 (ksCurThread s2))\<rparr>) q) = sc_active (scs s q)"
      using s1(4) s2(3) by simp
  qed
qed

lemma sched_inv_reprogram [simp]: "sched_inv R Q (s\<lparr>ksReprogram := b\<rparr>) = sched_inv R Q s"
  using can_wake_core [of "s\<lparr>ksReprogram := b\<rparr>" s] isSchedulable_core [of "s\<lparr>ksReprogram := b\<rparr>" s]
  by (simp add: sched_inv_def)

lemma checkDomainTime_spec:
  assumes "sched_inv R Q s"
  shows "\<exists>R'. sched_inv R' Q (checkDomainTime s)"
    and "is_candidate t \<Longrightarrow> accounted s t \<Longrightarrow> accounted (checkDomainTime s) t"
    and "ksSchedulerAction (checkDomainTime s) \<in> {ksSchedulerAction s, SchedulerAction_ChooseNewThread}"
    and "in_release (checkDomainTime s) u = in_release s u"
  using sched_inv_reschedule [of R Q "s\<lparr>ksReprogram := True\<rparr>"] assms
  by (auto simp: checkDomainTime_def accounted_def)

lemma runs_best_cong:
  "tcbs s' = tcbs s \<Longrightarrow> ksCurThread s' = ksCurThread s \<Longrightarrow> ksIdleThread s' = ksIdleThread s \<Longrightarrow>
   ksCurDomain s' = ksCurDomain s \<Longrightarrow> runs_best s' = runs_best s"
  by (simp only: runs_best_def)

text \<open>The state without the current thread and the domain part, which the switch changes.\<close>

definition run_state :: "kstate \<Rightarrow> (word_t \<Rightarrow> sched_context) \<times> ticks_t \<times> word_t \<times> (word_t \<Rightarrow> bool \<times> word_t \<times> bool)" where
  "run_state s = (scs s, ksCurTime s, ksIdleThread s,
     \<lambda>t. (isRunnable (tcbs s t), tcbSchedContext (tcbs s t), in_release s t))"

lemma run_stateD:
  assumes "run_state s' = run_state s"
  shows "scs s' = scs s" "ksCurTime s' = ksCurTime s" "ksIdleThread s' = ksIdleThread s"
    and "isSchedulable t s' = isSchedulable t s" "can_wake s' t = can_wake s t"
  using assms by (auto simp: run_state_def fun_eq_iff isSchedulable_def can_wake_def)

lemma schedule_switch_frame: "run_state (schedule_switch s) = run_state s"
proof -
  have core: "run_state s' = run_state s" if "core_state s' = core_state s" "\<And>t. in_release s' t = in_release s t" for s s'
    using core_stateD(1,4,7) [OF that(1)] core_state_thread [OF that(1)] that(2) by (simp add: run_state_def)
  have [simp]: "run_state (tcbSchedEnqueue t s) = run_state s" "run_state (tcbSchedAppend t s) = run_state s"
    "run_state (tcbSchedDequeue t s) = run_state s" for t s
    by (rule core, simp, simp)+
  have [simp]: "run_state (s\<lparr>ksCurThread := t\<rparr>) = run_state s" "run_state (s\<lparr>ksSchedulerAction := a\<rparr>) = run_state s"
    "run_state (nextDomain s) = run_state s" "run_state (setVMRoot t s) = run_state s" for s t a
    by (simp_all add: run_state_def nextDomain_def Let_def)
  have choose: "run_state (scheduleChooseNewThread s) = run_state s" for s
    by (simp add: scheduleChooseNewThread_def chooseThread_def switchToThread_eq switchToIdleThread_eq Let_def)
  show ?thesis
    by (simp add: schedule_switch_def choose switchToThread_eq Let_def)
qed

text \<open>The three stages of \<open>schedule\<close>: wake threads, select a thread, account and set the timer.\<close>

definition waiting_for_cpu :: "word_t list \<Rightarrow> kstate \<Rightarrow> word_t \<Rightarrow> bool" where
  "waiting_for_cpu Q s t \<longleftrightarrow> is_candidate t \<and> (accounted s t \<or>
     t \<in> set Q \<and> tcbReadyTime s t \<le> ksCurTime s \<or> t = ksCurThread s \<and> isSchedulable t s)"

definition thread_selected :: "word_t list \<Rightarrow> kstate \<Rightarrow> kstate \<Rightarrow> bool" where
  "thread_selected Q s s' \<longleftrightarrow>
     (\<exists>R. queues_ok R (filter (\<lambda>t. ksCurTime s < tcbReadyTime s t) Q) s') \<and> runs_best s' \<and>
     (ksCurThread s' = ksIdleThread s' \<or> is_candidate (ksCurThread s') \<and> isSchedulable (ksCurThread s') s') \<and>
     (\<forall>t. queued s' t \<longrightarrow> is_candidate t \<and> isSchedulable t s') \<and>
     (\<forall>t. waiting_for_cpu Q s t \<longrightarrow> queued s' t \<or> t = ksCurThread s')"

lemma schedule_wake:
  assumes inv: "sched_inv R Q s"
    and cur: "is_candidate (ksCurThread s)" "ksCurThread s \<noteq> ksSchedulerAction s" "\<not> in_release s (ksCurThread s)"
  obtains s1 s2 R2 where "awaken s = Some s1" "s2 = checkDomainTime s1"
    "sched_inv R2 (filter (\<lambda>t. ksCurTime s < tcbReadyTime s t) Q) s2" "core_state s2 = core_state s"
    "ksCurThread s2 \<noteq> ksSchedulerAction s2"
    "\<And>t. waiting_for_cpu Q s t \<Longrightarrow> accounted s2 t \<or> t = ksCurThread s2 \<and> isSchedulable t s2"
    "sched_ready s \<Longrightarrow> sched_ready s2" "\<not> in_release s2 (ksCurThread s2)"
proof -
  let ?Q = "filter (\<lambda>t. ksCurTime s < tcbReadyTime s t) Q"
  obtain s1 R1 where a: "awaken s = Some s1" "sched_inv R1 ?Q s1" and c1: "core_state s1 = core_state s"
    and woken: "\<And>t. t \<in> set Q \<Longrightarrow> tcbReadyTime s t \<le> ksCurTime s \<Longrightarrow> accounted s1 t"
    and acc1: "\<And>t. is_candidate t \<Longrightarrow> accounted s t \<Longrightarrow> accounted s1 t"
    and fit1: "sched_ready s \<Longrightarrow> sched_ready s1"
    and act1: "is_candidate (ksSchedulerAction s1) \<Longrightarrow> ksSchedulerAction s1 = ksSchedulerAction s \<or> ksSchedulerAction s1 \<in> set Q"
    using awaken_spec [OF inv] by metis
  define s2 where "s2 = checkDomainTime s1"
  note d = checkDomainTime_spec [OF a(2), folded s2_def]
  obtain R2 where inv2: "sched_inv R2 ?Q s2" using d(1) by blast
  have c2: "core_state s2 = core_state s" by (simp add: s2_def c1)
  have inR: "t \<in> set Q \<longleftrightarrow> in_release s t" for t by (rule sched_inv_release_head(3) [OF inv])
  have rel: "in_release s2 t \<longleftrightarrow> t \<in> set ?Q" for t using sched_inv_release_head(3) [OF inv2] by blast
  have "isSchedulable (ksCurThread s) s2 = isSchedulable (ksCurThread s) s"
    using cur(3) rel [of "ksCurThread s"] inR by (intro isSchedulable_core [OF c2]) auto
  then have "accounted s2 t \<or> t = ksCurThread s2 \<and> isSchedulable t s2" if "waiting_for_cpu Q s t" for t
    using that acc1 woken d(2) core_stateD(3) [OF c2] unfolding waiting_for_cpu_def by metis
  moreover have "ksCurThread s2 \<noteq> ksSchedulerAction s2"
    using cur act1 d(3) inR core_stateD(3) [OF c2] by (auto simp: is_candidate_def)
  moreover have "sched_ready s2" if "sched_ready s"
    using sched_ready_checkDomainTime [OF a(2) fit1 [OF that]] by (simp add: s2_def)
  moreover have "\<not> in_release s2 (ksCurThread s2)"
    using cur(3) rel inR core_stateD(3) [OF c2] by auto
  ultimately show thesis using that a(1) s2_def inv2 c2 by blast
qed

lemma schedule_select:
  assumes inv: "sched_inv R Q s" and ready: "sched_ready s" and dom: "dom_sched_ok s" "valid_domain (ksCurDomain s)"
    and cur: "is_candidate (ksCurThread s)" "ksCurThread s \<noteq> ksSchedulerAction s" "\<not> in_release s (ksCurThread s)"
  shows "switch_ok Q s (schedule_switch s)"
proof (cases "ksSchedulerAction s = SchedulerAction_ResumeCurrentThread")
  case True
  then have eq: "schedule_switch s = s" by (simp add: schedule_switch_def)
  have "runs_best s" "ksCurThread s = ksIdleThread s \<or> isSchedulable (ksCurThread s) s"
    using ready True can_wake_isSchedulable [OF _ cur(3)] by (auto simp: sched_ready_def)
  then show ?thesis
    using True inv cur(1) queued_schedulable [OF inv ready] unfolding eq switch_ok_def by (auto simp: sched_inv_def accounted_def is_candidate_def)
next
  case False
  then show ?thesis using schedule_switch_ok [OF inv ready dom False cur(1,2)] by simp
qed

lemma thread_selected_cong:
  assumes "thread_selected Q s s'" and "tcbs s'' = tcbs s'" "ksCurThread s'' = ksCurThread s'"
    "ksIdleThread s'' = ksIdleThread s'" "ksCurDomain s'' = ksCurDomain s'"
    "\<And>R Q. queues_ok R Q s'' = queues_ok R Q s'" and "\<forall>q. sc_active (scs s'' q) = sc_active (scs s' q)"
  shows "thread_selected Q s s''"
proof -
  have "isSchedulable t s'' = isSchedulable t s'" for t using assms(2,7) by (simp add: isSchedulable_def)
  then show ?thesis
    using assms(1) runs_best_cong [OF assms(2-5)] by (simp add: thread_selected_def assms(2-6))
qed

section \<open>Properties\<close>


text \<open>An example: one ready thread, the idle thread running, and a choice required.\<close>

definition example_idle :: word_t where "example_idle = 0x3200"

definition sched_example :: kstate where
  "sched_example = zero_state\<lparr>
     tcbs := (\<lambda>_. zero_tcb)(thread_a := zero_tcb\<lparr>tcbPriority := 7\<rparr>,
       thread_b := zero_tcb\<lparr>tcbPriority := 200, tcbState := zero_thread_state\<lparr>ts_type := ThreadState_Running\<rparr>,
         tcbSchedContext := 0x6000\<rparr>),
     scs := (\<lambda>_. zero_sched_context)(0x6000 := zero_sched_context\<lparr>scRefillMax := 2\<rparr>),
     ksSchedulerAction := SchedulerAction_ChooseNewThread, ksCurThread := example_idle, ksIdleThread := example_idle,
     ksDomSchedule := (\<lambda>_. 0)(0 := dschedule_make 0 100), ksDomainTime := 100\<rparr>"

definition one_ready :: kstate where
  "one_ready = tcbSchedEnqueue thread_b sched_example"

lemma one_ready_core: "core_state one_ready = core_state sched_example"
  by (simp add: one_ready_def)

lemma sched_example_tcbs:
  "\<not> queued sched_example t" "\<not> in_release sched_example t" "tcbDomain (tcbs sched_example t) = 0"
  "tcbPriority (tcbs sched_example t) = (if t = thread_a then 7 else if t = thread_b then 200 else 0)"
  "can_wake sched_example thread_b" "sNext sched_example t = 0" "sPrev sched_example t = 0"
  by (auto simp: sched_example_def zero_defs thread_a_def thread_b_def can_wake_def is_candidate_def isRunnable_def
      sc_active_def SchedulerAction_ResumeCurrentThread_def SchedulerAction_ChooseNewThread_def word_less_nat_alt)

lemma one_ready_facts:
  "threads_valid one_ready" "dom_sched_ok one_ready" "valid_domain (ksCurDomain one_ready)"
  "refills_usable one_ready" "ksCurTime one_ready < MAX_RELEASE_TIME" "ksCurThread one_ready = example_idle"
  "ksSchedulerAction one_ready = SchedulerAction_ChooseNewThread" "queued one_ready thread_b"
  "\<not> in_release one_ready t" "sched_ready one_ready"
proof -
  note st = core_stateD [OF one_ready_core] and th = core_state_thread [OF one_ready_core]
  have v: "valid_domain 0" "valid_prio 7" "valid_prio 200" "valid_prio 0"
    by (simp_all add: valid_domain_def CONFIG_NUM_DOMAINS_def word_less_nat_alt valid_prio_unat)
  show "threads_valid one_ready"
    using th sched_example_tcbs(3,4) v by (simp add: threads_valid_def)
  have e: "dschedule_make 0 100 = 100" by (simp add: dschedule_make_def)
  have "(100 :: word_t) AND mask 56 \<noteq> 0" by (simp add: mask_eq_exp_minus_1)
  then show "dom_sched_ok one_ready"
    using v(1) by (simp add: dom_sched_ok_def st e dschedule_domain_def dschedule_duration_def
        DSCHED_DOMAIN_SHIFT_def DSCHED_DOMAIN_BITS_def DSCHED_MAX_DURATION_def domScheduleLength_def
        sched_example_def zero_state_def word_less_nat_alt)
  show "valid_domain (ksCurDomain one_ready)" using v(1) by (simp add: st sched_example_def zero_state_def)
  show "refills_usable one_ready"
    by (simp add: refills_usable_def st sched_example_def zero_defs isRoundRobin_def)
  show "ksCurTime one_ready < MAX_RELEASE_TIME"
    by (simp add: st sched_example_def zero_state_def word_less_nat_alt max_release_time_value max_period_value)
  show "ksCurThread one_ready = example_idle" by (simp add: st sched_example_def)
  show act: "ksSchedulerAction one_ready = SchedulerAction_ChooseNewThread" and "queued one_ready thread_b"
    by (simp_all add: one_ready_def, simp add: sched_example_def)
  show "\<not> in_release one_ready t" using sched_example_tcbs(2) [of t] by (simp add: one_ready_def)
  have "queued one_ready t \<Longrightarrow> t = thread_b" for t using sched_example_tcbs(1) [of t] by (auto simp: one_ready_def)
  then show "sched_ready one_ready"
    using act can_wake_core(1) [OF one_ready_core] sched_example_tcbs(5)
    by (auto simp: sched_ready_def is_candidate_def SchedulerAction_ResumeCurrentThread_def SchedulerAction_ChooseNewThread_def)
qed

lemma sched_example_ok: "queues_ok no_ready [] sched_example"
proof -
  have q: "ksReadyQueues sched_example = (\<lambda>_. \<lparr>tcbq_head = 0, tcbq_end = 0\<rparr>)"
    "ksReleaseQueue sched_example = \<lparr>tcbq_head = 0, tcbq_end = 0\<rparr>"
    "ksReadyQueuesL1Bitmap sched_example = (\<lambda>_. 0)" "ksReadyQueuesL2Bitmap sched_example = (\<lambda>_ _. 0)"
    by (simp_all add: sched_example_def zero_state_def)
  have "queue_links_ok no_ready [] sched_example"
    unfolding queue_links_ok_def using sched_example_tcbs by (simp add: no_ready_def sched_queue_def q)
  then show ?thesis
    by (simp add: queues_ok_def bitmap_ok_def bitmap_l1_ok_def prio_bit_def q no_ready_def)
qed

lemma one_ready_inv: "\<exists>R. sched_inv R [] one_ready"
proof -
  have "\<exists>R. queues_ok R [] one_ready"
    using tcbSchedEnqueue_ok [OF sched_example_ok, of thread_b] sched_example_tcbs(1-4) valid_examples
    by (auto simp: one_ready_def thread_b_def thread_a_def)
  then show ?thesis
    using one_ready_facts(1,7) by (auto simp: sched_inv_def release_sorted_def is_candidate_def)
qed


text \<open>
  C20: Waking up: the loop over the release queue ends, wakes exactly the threads whose release
  time has been reached, keeps the others in order, and every woken thread is afterwards
  in a ready queue or the thread to switch to; nothing but queues, queue flags, reprogram
  flag and scheduler action changes.
\<close>

theorem awaken_wakes:
  assumes "sched_inv R Q s"
  shows "\<exists>s' R'. awaken s = Some s' \<and> core_state s' = core_state s \<and>
    sched_inv R' (filter (\<lambda>t. ksCurTime s < tcbReadyTime s t) Q) s' \<and>
    (\<forall>t. t \<in> set Q \<and> tcbReadyTime s t \<le> ksCurTime s \<longrightarrow> accounted s' t \<and> \<not> in_release s' t) \<and>
    (\<forall>t. is_candidate t \<and> accounted s t \<longrightarrow> accounted s' t)"
proof -
  obtain s' R' where a: "awaken s = Some s'" "sched_inv R' (filter (\<lambda>t. ksCurTime s < tcbReadyTime s t) Q) s'"
    "core_state s' = core_state s" and w: "\<And>t. t \<in> set Q \<Longrightarrow> tcbReadyTime s t \<le> ksCurTime s \<Longrightarrow> accounted s' t"
    and acc: "\<And>t. is_candidate t \<Longrightarrow> accounted s t \<Longrightarrow> accounted s' t"
    by (rule awaken_spec [OF assms]) blast
  have "\<not> in_release s' t" if "tcbReadyTime s t \<le> ksCurTime s" for t
    using sched_inv_release_head(3) [OF a(2), of t] that by auto
  then show ?thesis using a w acc by blast
qed

theorem awaken_wakes_witness:
  "\<exists>s'. awaken one_ready = Some s' \<and> core_state s' = core_state one_ready \<and> accounted s' thread_b"
proof -
  obtain R where R: "sched_inv R [] one_ready" using one_ready_inv by blast
  have "is_candidate thread_b" "accounted one_ready thread_b"
    using one_ready_facts(8) by (simp_all add: is_candidate_def SchedulerAction_ResumeCurrentThread_def
        SchedulerAction_ChooseNewThread_def thread_b_def accounted_def)
  with awaken_wakes [OF R] show ?thesis by blast
qed

text \<open>
  C21: The timer is set for the earliest event: when the clock is past the timer's precision, the
  two ends of time computed by adding to the current time fit in a word, and no thread at the head of the release
  queue is ready, the deadline is the minimum of the end of the
  current thread's budget, the end of the domain's time and the first release time, less the
  timer precision. The subtraction does not wrap, and the event itself is not before the current
  time, which the kernel asserts. Nothing else changes.
\<close>

theorem setNextInterrupt_earliest:
  assumes "unat (ksCurTime s) + unat (rAmount (refill_head (scs s (tcbSchedContext (tcbs s (ksCurThread s)))))) < 2 ^ 64"
    and "unat (ksCurTime s) + unat (ksDomainTime s) < 2 ^ 64"
    and "\<not> release_q_non_empty_and_ready s" and "getTimerPrecision \<le> ksCurTime s"
  defines "head \<equiv> tcbq_head (ksReleaseQueue s)" and "d \<equiv> timer_deadline (setNextInterrupt s)"
  shows "unat (ksCurTime s) \<le> unat d + unat getTimerPrecision \<and>
    unat d + unat getTimerPrecision =
      Min ({unat (ksCurTime s) + unat (rAmount (refill_head (scs s (tcbSchedContext (tcbs s (ksCurThread s)))))),
        unat (ksCurTime s) + unat (ksDomainTime s)} \<union>
      (if head = 0 then {} else {unat (tcbReadyTime s head)})) \<and>
    (setNextInterrupt s)\<lparr>timer_deadline := timer_deadline s\<rparr> = s"
proof -
  let ?a = "rAmount (refill_head (scs s (tcbSchedContext (tcbs s (ksCurThread s)))))"
  define n where "n = (let n = min (ksCurTime s + ?a) (ksCurTime s + ksDomainTime s)
      in if head = 0 then n else min (tcbReadyTime s head) n)"
  have un: "unat (min x y) = min (unat x) (unat y)" for x y :: word_t by (simp add: min_def word_le_nat_alt)
  have sums: "unat (ksCurTime s + ?a) = unat (ksCurTime s) + unat ?a"
    "unat (ksCurTime s + ksDomainTime s) = unat (ksCurTime s) + unat (ksDomainTime s)"
    using assms(1,2) by (simp_all add: unat_add_no_overflow)
  have d: "d = n - getTimerPrecision"
    by (simp add: d_def n_def head_def setNextInterrupt_def tcbReadyTime_def Let_def)
  have "head \<noteq> 0 \<Longrightarrow> unat (ksCurTime s) \<le> unat (tcbReadyTime s head)"
    using assms(3) by (auto simp: release_q_non_empty_and_ready_def refill_ready_def tcbReadyTime_def head_def
        word_le_nat_alt)
  then have late: "unat (ksCurTime s) \<le> unat n" by (auto simp: n_def un sums Let_def)
  then have "unat d + unat getTimerPrecision = unat n"
    using assms(4) by (simp add: d unat_sub word_le_nat_alt)
  moreover have "unat n = Min ({unat (ksCurTime s) + unat ?a, unat (ksCurTime s) + unat (ksDomainTime s)} \<union>
      (if head = 0 then {} else {unat (tcbReadyTime s head)}))"
    by (auto simp: n_def un sums Let_def min.assoc)
  moreover have "(setNextInterrupt s)\<lparr>timer_deadline := timer_deadline s\<rparr> = s" by (simp add: setNextInterrupt_def Let_def)
  ultimately show ?thesis using late by simp
qed

text \<open>An example: at time 50 the current thread may run until 75, the domain until 150, and
  the first thread of the release queue is released at 60.\<close>

definition example_head :: "ticks_t \<Rightarrow> ticks_t \<Rightarrow> sched_context" where
  "example_head time amount = zero_sched_context\<lparr>scRefills := \<lambda>_. \<lparr>rTime = time, rAmount = amount\<rparr>\<rparr>"

definition timer_example :: kstate where
  "timer_example = zero_state\<lparr>
     tcbs := (\<lambda>_. zero_tcb)(thread_a := zero_tcb\<lparr>tcbSchedContext := 0x6000\<rparr>, thread_b := zero_tcb\<lparr>tcbSchedContext := 0x7000\<rparr>),
     scs := (\<lambda>_. zero_sched_context)(0x6000 := example_head 0 25, 0x7000 := example_head 60 40),
     ksCurThread := thread_a, ksReleaseQueue := \<lparr>tcbq_head = thread_b, tcbq_end = thread_b\<rparr>,
     ksCurTime := 50, ksDomainTime := 100\<rparr>"

theorem setNextInterrupt_earliest_witness:
  "unat (timer_deadline (setNextInterrupt timer_example)) + unat getTimerPrecision = 60"
proof -
  have t: "ksCurTime timer_example = 50" "ksDomainTime timer_example = 100" "ksCurThread timer_example = thread_a"
    "tcbq_head (ksReleaseQueue timer_example) = thread_b" "thread_b \<noteq> 0" "thread_a \<noteq> thread_b"
    by (simp_all add: timer_example_def thread_a_def thread_b_def)
  have r: "rAmount (refill_head (scs timer_example (tcbSchedContext (tcbs timer_example thread_a)))) = 25"
    "rTime (refill_head (scs timer_example (tcbSchedContext (tcbs timer_example thread_b)))) = 60"
    using t(6) by (auto simp: timer_example_def example_head_def zero_defs refill_head_def refill_index_def)
  have "\<not> release_q_non_empty_and_ready timer_example"
    using r(2) t by (simp add: release_q_non_empty_and_ready_def refill_ready_def word_le_nat_alt)
  moreover have "getTimerPrecision \<le> ksCurTime timer_example" by (simp add: t getTimerPrecision_def usToTicks_def TICKS_IN_US_def word_le_nat_alt)
  ultimately show ?thesis
    using setNextInterrupt_earliest [of timer_example] r t by (simp add: tcbReadyTime_def)
qed

end
