(* ===== verification/Message.thy ===== *)
theory Message
  imports Thread MDB
begin

text \<open>
  Messages: message registers and IPC buffers (\<^verbatim>\<open>include/object/tcb.h\<close>, \<^verbatim>\<open>src/object/tcb.c\<close>,
  \<^verbatim>\<open>include/api/syscall.h\<close>), the message info word (\<^verbatim>\<open>include/api/types.h\<close>), and the transfer of
  a message with its capabilities between two threads (\<^verbatim>\<open>src/kernel/thread.c\<close>,
  \<^verbatim>\<open>src/object/cnode.c\<close>).

  An IPC buffer is the address of its first word, or 0 for none; \<open>buffer[i]\<close> is the word of
  \<open>user_words\<close> at \<open>buffer + 8 * i\<close>. The loops over message words run over the list of their indices,
  the loops over extra capabilities count the ones left.
\<close>

section \<open>Message registers and buffers\<close>

definition seL4_IPCBufferSizeBits :: nat where "seL4_IPCBufferSizeBits = 10"

definition n_msgRegisters :: word_t where "n_msgRegisters = 4"
definition msgRegisters :: "register list" where "msgRegisters = [11, 12, 13, 14]"
definition seL4_MsgMaxLength :: word_t where "seL4_MsgMaxLength = 120"
definition seL4_MsgMaxExtraCaps :: word_t where "seL4_MsgMaxExtraCaps = BIT 2 - 1"

definition buf_addr :: "word_t \<Rightarrow> word_t \<Rightarrow> word_t" where
  "buf_addr buffer i = buffer + 8 * i"

definition getSyscallArg :: "word_t \<Rightarrow> word_t \<Rightarrow> kstate \<Rightarrow> word_t" where
  "getSyscallArg i ipc_buffer s =
     (if i < n_msgRegisters then getRegister s (ksCurThread s) (msgRegisters ! unat i)
      else user_words s (buf_addr ipc_buffer (i + 1)))"

definition set_user_word :: "word_t \<Rightarrow> word_t \<Rightarrow> kstate \<Rightarrow> kstate" where
  "set_user_word p w s = s\<lparr>user_words := (user_words s)(p := w)\<rparr>"

definition setMR :: "word_t \<Rightarrow> word_t \<Rightarrow> word_t \<Rightarrow> word_t \<Rightarrow> kstate \<Rightarrow> word_t \<times> kstate" where
  "setMR receiver receiveIPCBuffer offset reg s =
     (if offset \<ge> n_msgRegisters then
        if receiveIPCBuffer \<noteq> 0 then
          (offset + 1, set_user_word (buf_addr receiveIPCBuffer (offset + 1)) reg s)
        else (n_msgRegisters, s)
      else (offset + 1, setRegister receiver (msgRegisters ! unat offset) reg s))"

definition mode_parseTimeArg :: "word_t \<Rightarrow> word_t \<Rightarrow> kstate \<Rightarrow> ticks_t" where
  "mode_parseTimeArg i buffer s = getSyscallArg i buffer s"

definition mode_setTimeArg :: "word_t \<Rightarrow> ticks_t \<Rightarrow> word_t \<Rightarrow> word_t \<Rightarrow> kstate \<Rightarrow> word_t \<times> kstate" where
  "mode_setTimeArg i time buffer thread s = setMR thread buffer i time s"

definition lookupIPCBuffer :: "bool \<Rightarrow> word_t \<Rightarrow> kstate \<Rightarrow> word_t" where
  "lookupIPCBuffer isReceiver thread s =
     (let w_bufferPtr = tcbIPCBuffer (tcbs s thread);
          bufferCap = cte_cap (ctes s (TCB_PTR_CTE_PTR thread tcbBuffer))
      in if \<not> is_cap_frame_cap bufferCap then 0
         else if capFIsDevice bufferCap then 0
         else
           let vm_rights = capFVMRights bufferCap
           in if vm_rights = VMReadWrite \<or> \<not> isReceiver \<and> vm_rights = VMReadOnly then
                capFBasePtr bufferCap + (w_bufferPtr AND MASK (pageBitsForSize (capFSize bufferCap)))
              else 0)"

section \<open>The message info word\<close>

definition bf_get :: "nat \<Rightarrow> nat \<Rightarrow> word_t \<Rightarrow> word_t" where
  "bf_get shift width w = drop_bit shift w AND MASK width"

definition bf_set :: "nat \<Rightarrow> nat \<Rightarrow> word_t \<Rightarrow> word_t \<Rightarrow> word_t" where
  "bf_set shift width w v = (w AND NOT (push_bit shift (MASK width))) OR push_bit shift (v AND MASK width)"

definition seL4_MessageInfo_get_length :: "word_t \<Rightarrow> word_t" where
  "seL4_MessageInfo_get_length = bf_get 0 7"

definition seL4_MessageInfo_set_length :: "word_t \<Rightarrow> word_t \<Rightarrow> word_t" where
  "seL4_MessageInfo_set_length = bf_set 0 7"

definition seL4_MessageInfo_get_extraCaps :: "word_t \<Rightarrow> word_t" where
  "seL4_MessageInfo_get_extraCaps = bf_get 7 2"

definition seL4_MessageInfo_set_extraCaps :: "word_t \<Rightarrow> word_t \<Rightarrow> word_t" where
  "seL4_MessageInfo_set_extraCaps = bf_set 7 2"

definition seL4_MessageInfo_get_capsUnwrapped :: "word_t \<Rightarrow> word_t" where
  "seL4_MessageInfo_get_capsUnwrapped = bf_get 9 3"

definition seL4_MessageInfo_set_capsUnwrapped :: "word_t \<Rightarrow> word_t \<Rightarrow> word_t" where
  "seL4_MessageInfo_set_capsUnwrapped = bf_set 9 3"

definition seL4_MessageInfo_get_label :: "word_t \<Rightarrow> word_t" where
  "seL4_MessageInfo_get_label = bf_get 12 52"

definition seL4_MessageInfo_new :: "word_t \<Rightarrow> word_t \<Rightarrow> word_t \<Rightarrow> word_t \<Rightarrow> word_t" where
  "seL4_MessageInfo_new label capsUnwrapped extraCaps len =
     bf_set 0 7 (bf_set 7 2 (bf_set 9 3 (bf_set 12 52 0 label) capsUnwrapped) extraCaps) len"

definition messageInfoFromWord :: "word_t \<Rightarrow> word_t" where
  "messageInfoFromWord w =
     (if seL4_MessageInfo_get_length w > seL4_MsgMaxLength
      then seL4_MessageInfo_set_length w seL4_MsgMaxLength else w)"

definition wordFromMessageInfo :: "word_t \<Rightarrow> word_t" where
  "wordFromMessageInfo mi = mi"

text \<open>
  The invocation labels of the interface description, for the objects of the development;
  \<open>OtherInvocation\<close> is any other label.
\<close>

datatype invocation_label =
    UntypedRetype
  | TCBReadRegisters | TCBWriteRegisters | TCBCopyRegisters | TCBConfigure | TCBSetPriority
  | TCBSetMCPriority | TCBSetSchedParams | TCBSetTimeoutEndpoint | TCBSetIPCBuffer | TCBSetSpace
  | TCBSuspend | TCBResume | TCBBindNotification | TCBUnbindNotification | TCBSetTLSBase | TCBSetFlags
  | CNodeRevoke | CNodeDelete | CNodeCancelBadgedSends | CNodeCopy | CNodeMint | CNodeMove
  | CNodeMutate | CNodeRotate
  | IRQIssueIRQHandler | IRQAckIRQ | IRQSetIRQHandler | IRQClearIRQHandler
  | DomainSetSet | DomainScheduleConfigure | DomainScheduleSetStart
  | SchedControlConfigureFlags
  | SchedContextBind | SchedContextUnbind | SchedContextUnbindObject | SchedContextConsumed
  | SchedContextYieldTo
  | RISCVPageTableMap | RISCVPageTableUnmap | RISCVPageMap | RISCVPageUnmap | RISCVPageGetAddress
  | RISCVASIDControlMakePool | RISCVASIDPoolAssign | RISCVIRQIssueIRQHandlerTrigger
  | OtherInvocation word_t

text \<open>Setting fields of \<open>current_syscall_error\<close> and returning \<open>EXCEPTION_SYSCALL_ERROR\<close>.\<close>

definition syscall_fail :: "(syscall_error \<Rightarrow> syscall_error) \<Rightarrow> kstate \<Rightarrow> exception \<times> kstate" where
  "syscall_fail f s = (EXCEPTION_SYSCALL_ERROR, set_syscall_error f s)"

section \<open>Error messages\<close>

definition setMRs_lookup_failure ::
  "word_t \<Rightarrow> word_t \<Rightarrow> lookup_fault \<Rightarrow> word_t \<Rightarrow> kstate \<Rightarrow> word_t \<times> kstate" where
  "setMRs_lookup_failure receiver receiveIPCBuffer luf offset s =
     (let lufType = (case luf of invalid_root \<Rightarrow> 0 | missing_capability _ \<Rightarrow> 1
                     | depth_mismatch _ _ \<Rightarrow> 2 | guard_mismatch _ _ _ \<Rightarrow> 3);
          (i, s) = setMR receiver receiveIPCBuffer offset (lufType + 1) s
      in case luf of
           invalid_root \<Rightarrow> (i, s)
         | missing_capability bitsLeft \<Rightarrow> setMR receiver receiveIPCBuffer (offset + 1) bitsLeft s
         | depth_mismatch bitsFound bitsLeft \<Rightarrow>
             setMR receiver receiveIPCBuffer (offset + 2) bitsFound
               (snd (setMR receiver receiveIPCBuffer (offset + 1) bitsLeft s))
         | guard_mismatch guardFound bitsLeft bitsFound \<Rightarrow>
             setMR receiver receiveIPCBuffer (offset + 3) bitsFound
               (snd (setMR receiver receiveIPCBuffer (offset + 2) guardFound
                 (snd (setMR receiver receiveIPCBuffer (offset + 1) bitsLeft s)))))"

definition setMRs_syscall_error :: "word_t \<Rightarrow> word_t \<Rightarrow> kstate \<Rightarrow> (word_t \<times> kstate) option" where
  "setMRs_syscall_error thread receiveIPCBuffer s =
     (let err = current_syscall_error s
      in case err_type err of
           seL4_InvalidArgument \<Rightarrow> Some (setMR thread receiveIPCBuffer 0 (invalidArgumentNumber err) s)
         | seL4_InvalidCapability \<Rightarrow> Some (setMR thread receiveIPCBuffer 0 (invalidCapNumber err) s)
         | seL4_IllegalOperation \<Rightarrow> Some (0, s)
         | seL4_RangeError \<Rightarrow>
             Some (setMR thread receiveIPCBuffer 1 (rangeErrorMax err)
               (snd (setMR thread receiveIPCBuffer 0 (rangeErrorMin err) s)))
         | seL4_AlignmentError \<Rightarrow> Some (0, s)
         | seL4_FailedLookup \<Rightarrow>
             let s = snd (setMR thread receiveIPCBuffer 0 (if failedLookupWasSource err then 1 else 0) s)
             in Some (setMRs_lookup_failure thread receiveIPCBuffer (current_lookup_fault s) 1 s)
         | seL4_TruncatedMessage \<Rightarrow> Some (0, s)
         | seL4_DeleteFirst \<Rightarrow> Some (0, s)
         | seL4_RevokeFirst \<Rightarrow> Some (0, s)
         | seL4_NotEnoughMemory \<Rightarrow> Some (setMR thread receiveIPCBuffer 0 (memoryLeft err) s)
         | seL4_NoError \<Rightarrow> None)"

section \<open>Transfer of a message\<close>

definition getExtraCPtr :: "word_t \<Rightarrow> word_t \<Rightarrow> kstate \<Rightarrow> word_t" where
  "getExtraCPtr bufferPtr i s = user_words s (buf_addr bufferPtr (seL4_MsgMaxLength + 2 + i))"

definition setExtraBadge :: "word_t \<Rightarrow> word_t \<Rightarrow> word_t \<Rightarrow> kstate \<Rightarrow> kstate" where
  "setExtraBadge bufferPtr badge i s =
     set_user_word (buf_addr bufferPtr (seL4_MsgMaxLength + 2 + i)) badge s"

fun lookupExtraCaps_loop :: "word_t \<Rightarrow> word_t \<Rightarrow> nat \<Rightarrow> nat \<Rightarrow> kstate \<Rightarrow> (exception \<times> kstate) option" where
  "lookupExtraCaps_loop thread bufferPtr i 0 s =
     Some (EXCEPTION_NONE, if i < unat seL4_MsgMaxExtraCaps
       then s\<lparr>current_extra_caps := (current_extra_caps s)(i := 0)\<rparr> else s)"
| "lookupExtraCaps_loop thread bufferPtr i (Suc n) s = do {
     let cptr = getExtraCPtr bufferPtr (of_nat i) s;
     (lu_ret, s) \<leftarrow> lookupSlot thread cptr s;
     if ls_status lu_ret \<noteq> EXCEPTION_NONE then
       Some (ls_status lu_ret, s\<lparr>current_fault := CapFault cptr False\<rparr>)
     else lookupExtraCaps_loop thread bufferPtr (Suc i) n
       (s\<lparr>current_extra_caps := (current_extra_caps s)(i := ls_slot lu_ret)\<rparr>)
   }"

definition lookupExtraCaps :: "word_t \<Rightarrow> word_t \<Rightarrow> word_t \<Rightarrow> kstate \<Rightarrow> (exception \<times> kstate) option" where
  "lookupExtraCaps thread bufferPtr info s =
     (if bufferPtr = 0 then
        Some (EXCEPTION_NONE, s\<lparr>current_extra_caps := (current_extra_caps s)(0 := 0)\<rparr>)
      else lookupExtraCaps_loop thread bufferPtr 0 (unat (seL4_MessageInfo_get_extraCaps info)) s)"

definition copyMRs :: "word_t \<Rightarrow> word_t \<Rightarrow> word_t \<Rightarrow> word_t \<Rightarrow> word_t \<Rightarrow> kstate \<Rightarrow> word_t \<times> kstate" where
  "copyMRs sender sendBuf receiver recvBuf n s =
     (let i = min (unat n) (unat n_msgRegisters);
          s = fold (\<lambda>i s. setRegister receiver (msgRegisters ! i) (getRegister s sender (msgRegisters ! i)) s)
                [0..<i] s
      in if recvBuf = 0 \<or> sendBuf = 0 then (of_nat i, s)
         else (n, fold (\<lambda>i s. set_user_word (buf_addr recvBuf (of_nat i + 1))
                          (user_words s (buf_addr sendBuf (of_nat i + 1))) s) [i..<unat n] s))"

record cap_transfer =
  ctReceiveRoot :: word_t
  ctReceiveIndex :: word_t
  ctReceiveDepth :: word_t

definition capTransferFromWords :: "word_t \<Rightarrow> kstate \<Rightarrow> cap_transfer" where
  "capTransferFromWords wptr s =
     \<lparr>ctReceiveRoot = user_words s (buf_addr wptr 0), ctReceiveIndex = user_words s (buf_addr wptr 1),
      ctReceiveDepth = user_words s (buf_addr wptr 2)\<rparr>"

definition loadCapTransfer :: "word_t \<Rightarrow> kstate \<Rightarrow> cap_transfer" where
  "loadCapTransfer buffer s =
     capTransferFromWords (buf_addr buffer (seL4_MsgMaxLength + seL4_MsgMaxExtraCaps + 2)) s"

definition getReceiveSlots :: "word_t \<Rightarrow> word_t \<Rightarrow> kstate \<Rightarrow> (word_t \<times> kstate) option" where
  "getReceiveSlots thread buffer s =
     (if buffer = 0 then Some (0, s)
      else do {
        let ct = loadCapTransfer buffer s;
        (luc_ret, s) \<leftarrow> lookupCap thread (ctReceiveRoot ct) s;
        if lc_status luc_ret \<noteq> EXCEPTION_NONE then Some (0, s)
        else do {
          (lus_ret, s) \<leftarrow> lookupTargetSlot (lc_cap luc_ret) (ctReceiveIndex ct) (ctReceiveDepth ct) s;
          if ls_status lus_ret \<noteq> EXCEPTION_NONE then Some (0, s)
          else if cte_cap (ctes s (ls_slot lus_ret)) \<noteq> cap_null_cap then Some (0, s)
          else Some (ls_slot lus_ret, s)
        }
      })"

text \<open>
  The loop of \<open>transferCaps\<close>; the last argument but one is the number of indices below
  \<open>seL4_MsgMaxExtraCaps\<close> that are left.
\<close>

fun transferCaps_loop ::
  "word_t \<Rightarrow> word_t \<Rightarrow> word_t \<Rightarrow> word_t \<Rightarrow> nat \<Rightarrow> nat \<Rightarrow> kstate \<Rightarrow> (word_t \<times> kstate) option" where
  "transferCaps_loop endpoint receiveBuffer destSlot info i 0 s =
     Some (seL4_MessageInfo_set_extraCaps info (of_nat i), s)"
| "transferCaps_loop endpoint receiveBuffer destSlot info i (Suc n) s =
     (if current_extra_caps s i = 0 then Some (seL4_MessageInfo_set_extraCaps info (of_nat i), s)
      else
        let slot = current_extra_caps s i;
            cap = cte_cap (ctes s slot)
        in if is_cap_endpoint_cap cap \<and> capEPPtr cap = endpoint then
             transferCaps_loop endpoint receiveBuffer destSlot
               (seL4_MessageInfo_set_capsUnwrapped info
                 (seL4_MessageInfo_get_capsUnwrapped info OR push_bit i 1)) (Suc i) n
               (setExtraBadge receiveBuffer (capEPBadge cap) (of_nat i) s)
           else if destSlot = 0 then Some (seL4_MessageInfo_set_extraCaps info (of_nat i), s)
           else do {
             (dc_ret, s) \<leftarrow> deriveCap slot cap s;
             if dc_status dc_ret \<noteq> EXCEPTION_NONE then
               Some (seL4_MessageInfo_set_extraCaps info (of_nat i), s)
             else if dc_cap dc_ret = cap_null_cap then
               Some (seL4_MessageInfo_set_extraCaps info (of_nat i), s)
             else transferCaps_loop endpoint receiveBuffer 0 info (Suc i) n
               (cteInsert (dc_cap dc_ret) slot destSlot s)
           })"

definition transferCaps :: "word_t \<Rightarrow> word_t \<Rightarrow> word_t \<Rightarrow> word_t \<Rightarrow> kstate \<Rightarrow> (word_t \<times> kstate) option" where
  "transferCaps info endpoint receiver receiveBuffer s =
     (let info = seL4_MessageInfo_set_extraCaps info 0;
          info = seL4_MessageInfo_set_capsUnwrapped info 0
      in if current_extra_caps s 0 = 0 \<or> receiveBuffer = 0 then Some (info, s)
         else do {
           (destSlot, s) \<leftarrow> getReceiveSlots receiver receiveBuffer s;
           transferCaps_loop endpoint receiveBuffer destSlot info 0 (unat seL4_MsgMaxExtraCaps) s
         })"

definition doNormalTransfer_extraCaps :: "word_t \<Rightarrow> word_t \<Rightarrow> bool \<Rightarrow> word_t \<Rightarrow> kstate \<Rightarrow> kstate option" where
  "doNormalTransfer_extraCaps sender sendBuffer canGrant tag s =
     (if canGrant then do {
        (status, s) \<leftarrow> lookupExtraCaps sender sendBuffer tag s;
        Some (if status \<noteq> EXCEPTION_NONE
              then s\<lparr>current_extra_caps := (current_extra_caps s)(0 := 0)\<rparr> else s)
      } else Some (s\<lparr>current_extra_caps := (current_extra_caps s)(0 := 0)\<rparr>))"

definition doNormalTransfer ::
  "word_t \<Rightarrow> word_t \<Rightarrow> word_t \<Rightarrow> word_t \<Rightarrow> bool \<Rightarrow> word_t \<Rightarrow> word_t \<Rightarrow> kstate \<Rightarrow> kstate option" where
  "doNormalTransfer sender sendBuffer endpoint badge canGrant receiver receiveBuffer s = do {
     let tag = messageInfoFromWord (getRegister s sender msgInfoRegister);
     s \<leftarrow> doNormalTransfer_extraCaps sender sendBuffer canGrant tag s;
     let (msgTransferred, s) =
       copyMRs sender sendBuffer receiver receiveBuffer (seL4_MessageInfo_get_length tag) s;
     (tag, s) \<leftarrow> transferCaps tag endpoint receiver receiveBuffer s;
     let tag = seL4_MessageInfo_set_length tag msgTransferred;
     let s = setRegister receiver msgInfoRegister (wordFromMessageInfo tag) s;
     Some (setRegister receiver badgeRegister badge s)
   }"

section \<open>Bit fields\<close>

lemma bit_bf_get: "bit (bf_get k w x) n \<longleftrightarrow> n < w \<and> bit x (k + n)"
  by (auto simp: bf_get_def and_mask_bits bit_drop_bit_eq)

lemma bit_bf_set:
  "bit (bf_set k w x v) n \<longleftrightarrow> (if k \<le> n \<and> n < k + w then n < 64 \<and> bit v (n - k) else bit x n)"
  using bit_imp_le_length [of x n]
  by (auto simp: bf_set_def bit_or_iff bit_and_iff bit_not_iff bit_push_bit_iff MASK_eq_mask bit_mask_iff)

lemma bf_get_set:
  "k + w \<le> 64 \<Longrightarrow> bf_get k w (bf_set k w x v) = v AND MASK w"
  by (rule bit_word_eqI) (auto simp: bit_bf_get bit_bf_set and_mask_bits)

lemma bf_get_set_other:
  "k + w \<le> j \<or> j + v \<le> k \<Longrightarrow> bf_get k w (bf_set j v x y) = bf_get k w x"
  by (rule bit_word_eqI) (auto simp: bit_bf_get bit_bf_set)

lemmas message_info_defs = seL4_MessageInfo_get_length_def seL4_MessageInfo_set_length_def
  seL4_MessageInfo_get_extraCaps_def seL4_MessageInfo_set_extraCaps_def
  seL4_MessageInfo_get_capsUnwrapped_def seL4_MessageInfo_set_capsUnwrapped_def
  seL4_MessageInfo_get_label_def seL4_MessageInfo_new_def

lemma message_info_fields [simp]:
  "seL4_MessageInfo_get_length (seL4_MessageInfo_set_length mi v) = v AND MASK 7"
  "seL4_MessageInfo_get_length (seL4_MessageInfo_set_extraCaps mi v) = seL4_MessageInfo_get_length mi"
  "seL4_MessageInfo_get_length (seL4_MessageInfo_set_capsUnwrapped mi v) = seL4_MessageInfo_get_length mi"
  "seL4_MessageInfo_get_label (seL4_MessageInfo_set_length mi v) = seL4_MessageInfo_get_label mi"
  "seL4_MessageInfo_get_label (seL4_MessageInfo_set_extraCaps mi v) = seL4_MessageInfo_get_label mi"
  "seL4_MessageInfo_get_label (seL4_MessageInfo_set_capsUnwrapped mi v) = seL4_MessageInfo_get_label mi"
  "seL4_MessageInfo_get_extraCaps (seL4_MessageInfo_set_length mi v) = seL4_MessageInfo_get_extraCaps mi"
  "seL4_MessageInfo_get_extraCaps (seL4_MessageInfo_set_extraCaps mi v) = v AND MASK 2"
  by (simp_all add: message_info_defs bf_get_set bf_get_set_other)

lemma bf_get_bound: "w < 64 \<Longrightarrow> unat (bf_get k w x) < 2 ^ w"
  by (simp add: bf_get_def unat_and_MASK)

text \<open>The message length of a sender, after clamping.\<close>

definition message_length :: "word_t \<Rightarrow> nat" where
  "message_length w = min (unat (seL4_MessageInfo_get_length w)) 120"

lemma messageInfoFromWord_length:
  "unat (seL4_MessageInfo_get_length (messageInfoFromWord w)) = message_length w"
  "seL4_MessageInfo_get_label (messageInfoFromWord w) = seL4_MessageInfo_get_label w"
  by (auto simp: messageInfoFromWord_def message_length_def seL4_MsgMaxLength_def word_less_nat_alt
      min_def and_mask_less)

section \<open>Message words\<close>

definition msg_word :: "kstate \<Rightarrow> word_t \<Rightarrow> word_t \<Rightarrow> nat \<Rightarrow> word_t" where
  "msg_word s thread buffer i =
     (if i < 4 then getRegister s thread (msgRegisters ! i)
      else user_words s (buf_addr buffer (of_nat i + 1)))"

lemma buf_addr_inj:
  assumes "i < 128" "j < 128" "buf_addr b (of_nat i) = buf_addr b (of_nat j)"
  shows "i = j"
proof -
  have "unat (8 * of_nat i :: word_t) = 8 * i" "unat (8 * of_nat j :: word_t) = 8 * j"
    using assms(1,2) by (simp_all add: unat_word_ariths unat_of_nat)
  moreover have "8 * of_nat i = (8 * of_nat j :: word_t)" using assms(3) by (simp add: buf_addr_def)
  ultimately show ?thesis by (metis mult_cancel1 zero_neq_numeral)
qed

text \<open>
  A buffer has 128 words and is aligned to its size, so two buffers are the same or apart: a common
  address is the same word of both.
\<close>

lemma buffer_words_aligned:
  assumes "is_aligned a seL4_IPCBufferSizeBits" "is_aligned b seL4_IPCBufferSizeBits"
    and "i < 128" "j < 128" "buf_addr a (of_nat i) = buf_addr b (of_nat j)"
  shows "i = j"
proof -
  have word: "unat (buf_addr c (of_nat k)) mod 1024 = 8 * k" if "is_aligned c seL4_IPCBufferSizeBits" "k < 128" for c k
  proof -
    have m: "unat c mod 1024 = 0" using that(1) by (simp add: is_aligned_def seL4_IPCBufferSizeBits_def mod_eq_0_iff_dvd)
    have "unat (8 * of_nat k :: word_t) = 8 * k" using that(2) by (simp add: unat_word_ariths unat_of_nat)
    then have "unat (buf_addr c (of_nat k)) mod 1024 = (unat c + 8 * k) mod 2 ^ 64 mod 1024"
      by (simp add: buf_addr_def unat_word_ariths)
    also have "\<dots> = (unat c + 8 * k) mod 1024" by (simp add: mod_mod_cancel)
    also have "\<dots> = (unat c mod 1024 + 8 * k) mod 1024" by (simp only: mod_add_left_eq)
    also have "\<dots> = 8 * k" using m that(2) by simp
    finally show ?thesis .
  qed
  show ?thesis using word [OF assms(1,3)] word [OF assms(2,4)] assms(5) by simp
qed

lemma fun_upd_restrict:
  "(\<lambda>r. if r \<in> A then f r else g r)(x := f x) = (\<lambda>r. if r = x \<or> r \<in> A then f r else g r)"
  by auto

lemma copy_registers:
  assumes "n \<le> 4"
  shows "fold (\<lambda>i s. setRegister receiver (msgRegisters ! i) (getRegister s sender (msgRegisters ! i)) s) [0..<n] s =
    upd_tcb receiver (\<lambda>t. t\<lparr>tcbContext := \<lambda>r. if r \<in> set (take n msgRegisters)
      then tcbContext (tcbs s sender) r else tcbContext t r\<rparr>) s"
  using assms
proof (induction n)
  case 0
  then show ?case by (simp add: upd_tcb_def)
next
  case (Suc n)
  then have "n \<le> 4" and n: "n < length msgRegisters" by (simp_all add: msgRegisters_def)
  then show ?case
    by (simp add: Suc.IH) (auto simp: take_Suc_conv_app_nth [OF n] upd_tcb_def setRegister_def getRegister_def
        fun_upd_restrict)
qed

lemma copy_buffer:
  assumes "is_aligned sb seL4_IPCBufferSizeBits" "is_aligned rb seL4_IPCBufferSizeBits" and "i \<le> n" "n \<le> 120"
  shows "fold (\<lambda>i s. set_user_word (buf_addr rb (of_nat i + 1)) (user_words s (buf_addr sb (of_nat i + 1))) s)
      [i..<n] s =
    s\<lparr>user_words := \<lambda>p. if p \<in> (\<lambda>j. buf_addr rb (of_nat j + 1)) ` {i..<n}
      then user_words s (p - rb + sb) else user_words s p\<rparr>"
  using assms(3,4)
proof (induction n)
  case 0
  then show ?case by simp
next
  case (Suc n)
  show ?case
  proof (cases "i = Suc n")
    case False
    then have le: "i \<le> n" "n \<le> 120" using Suc.prems by auto
    have "buf_addr sb (of_nat n + 1) \<notin> (\<lambda>j. buf_addr rb (of_nat j + 1)) ` {i..<n}"
    proof
      assume "buf_addr sb (of_nat n + 1) \<in> (\<lambda>j. buf_addr rb (of_nat j + 1)) ` {i..<n}"
      then obtain j where "j < n" "buf_addr sb (of_nat (Suc n)) = buf_addr rb (of_nat (Suc j))"
        by (auto simp: add.commute)
      then show False using buffer_words_aligned [OF assms(1,2), of "Suc n" "Suc j"] Suc.prems(2) by simp
    qed
    then show ?thesis
      using le fun_upd_restrict [of "(\<lambda>j. buf_addr rb (of_nat j + 1)) ` {i..<n}" "\<lambda>p. user_words s (p - rb + sb)"
          "user_words s" "buf_addr rb (of_nat n + 1)"]
      by (simp add: Suc.IH [OF le]) (simp add: set_user_word_def atLeastLessThanSuc buf_addr_def add.commute)
  qed simp
qed

text \<open>The number of words that reach the receiver.\<close>

definition transferred :: "word_t \<Rightarrow> word_t \<Rightarrow> nat \<Rightarrow> nat" where
  "transferred sendBuf recvBuf n = (if recvBuf = 0 \<or> sendBuf = 0 then min n 4 else n)"

text \<open>Registers and user memory after the copy.\<close>

definition copied_regs :: "nat \<Rightarrow> word_t \<Rightarrow> word_t \<Rightarrow> kstate \<Rightarrow> register \<Rightarrow> word_t" where
  "copied_regs n sender receiver s r =
     (if r \<in> set (take n msgRegisters) then tcbContext (tcbs s sender) r else tcbContext (tcbs s receiver) r)"

definition copied_words :: "nat \<Rightarrow> word_t \<Rightarrow> word_t \<Rightarrow> kstate \<Rightarrow> word_t \<Rightarrow> word_t" where
  "copied_words n sb rb s p =
     (if p \<in> (\<lambda>j. buf_addr rb (of_nat j + 1)) ` {4..<n} then user_words s (p - rb + sb) else user_words s p)"

definition after_copyMRs :: "nat \<Rightarrow> word_t \<Rightarrow> word_t \<Rightarrow> word_t \<Rightarrow> word_t \<Rightarrow> kstate \<Rightarrow> kstate" where
  "after_copyMRs n sender sb receiver rb s =
     s\<lparr>tcbs := (tcbs s)(receiver := (tcbs s receiver)\<lparr>tcbContext := copied_regs n sender receiver s\<rparr>),
       user_words := copied_words (transferred sb rb n) sb rb s\<rparr>"

lemma copyMRs_eq:
  assumes "is_aligned sb seL4_IPCBufferSizeBits" "is_aligned rb seL4_IPCBufferSizeBits" and "unat n \<le> 120"
  shows "copyMRs sender sb receiver rb n s =
    (of_nat (transferred sb rb (unat n)), after_copyMRs (unat n) sender sb receiver rb s)"
proof -
  have four: "unat n_msgRegisters = 4" "length msgRegisters = 4"
    by (simp_all add: n_msgRegisters_def msgRegisters_def)
  have t: "take (min (unat n) 4) msgRegisters = take (unat n) msgRegisters"
    using take_all [of msgRegisters "unat n"] four(2) by (auto simp: min_def)
  note copied = after_copyMRs_def copied_regs_def [abs_def] copied_words_def [abs_def]
  show ?thesis
  proof (cases "rb = 0 \<or> sb = 0")
    case True
    then show ?thesis
      by (simp add: copyMRs_def four copy_registers t transferred_def upd_tcb_def Let_def copied cong: if_cong)
  next
    case False
    show ?thesis
    proof (cases "4 \<le> unat n")
      case True
      then show ?thesis using False
        by (simp add: copyMRs_def four copy_registers copy_buffer [OF assms(1,2) True assms(3)] t transferred_def upd_tcb_def Let_def copied cong: if_cong)
    next
      case lt: False
      then show ?thesis using False
        by (simp add: copyMRs_def four copy_registers t transferred_def upd_tcb_def Let_def copied cong: if_cong)
    qed
  qed
qed

section \<open>Lookups\<close>

text \<open>The state without its error registers and the extra capabilities of the current call.\<close>

definition no_err :: "kstate \<Rightarrow> kstate" where
  "no_err s = s\<lparr>current_lookup_fault := invalid_root, current_syscall_error := zero_syscall_error,
     current_fault := NullFault, current_extra_caps := \<lambda>_. 0\<rparr>"

lemma no_err_fields:
  assumes "no_err s' = no_err s"
  shows "ctes s' = ctes s" "tcbs s' = tcbs s" "user_words s' = user_words s"
  using arg_cong [OF assms, of ctes] arg_cong [OF assms, of tcbs] arg_cong [OF assms, of user_words]
  by (simp_all add: no_err_def)

lemma no_err_upd [simp]:
  "no_err (s\<lparr>current_lookup_fault := a\<rparr>) = no_err s" "no_err (set_syscall_error f s) = no_err s"
  "no_err (s\<lparr>current_syscall_error := d\<rparr>) = no_err s" "no_err (s\<lparr>current_fault := b\<rparr>) = no_err s"
  "no_err (s\<lparr>current_extra_caps := c\<rparr>) = no_err s"
  by (simp_all add: no_err_def set_syscall_error_def)

lemma resolveAddressBits_frame:
  assumes "cnodes_ok s" and "cnode_ok nodeCap" and "unat n \<le> 64"
  shows "\<exists>r s'. resolveAddressBits nodeCap capptr n s = Some (r, s') \<and> no_err s' = no_err s \<and>
    current_extra_caps s' = current_extra_caps s"
  unfolding resolveAddressBits_resolve [OF assms]
  by (simp add: resolution_result_def Let_def split: resolution.split)

lemma lookupSlot_frame:
  assumes "cnodes_ok s"
  shows "\<exists>r s'. lookupSlot thread capptr s = Some (r, s') \<and> no_err s' = no_err s \<and>
    current_extra_caps s' = current_extra_caps s"
  using resolveAddressBits_frame [OF assms, of "cte_cap (ctes s (TCB_PTR_CTE_PTR thread tcbCTable))" 64 capptr] assms
  by (auto simp: lookupSlot_def cnodes_ok_def)

lemma lookupTargetSlot_frame:
  assumes "cnodes_ok s" and "cnode_ok root"
  shows "\<exists>r s'. lookupTargetSlot root capptr depth s = Some (r, s') \<and> no_err s' = no_err s \<and>
    current_extra_caps s' = current_extra_caps s"
proof (cases "depth < 1 \<or> depth > 64")
  case True
  then show ?thesis
    by (auto simp: lookupTargetSlot_def lookupSlotForCNodeOp_def set_syscall_error_def Let_def)
next
  case False
  then have "unat depth \<le> 64" by (simp add: word_less_nat_alt not_less)
  from resolveAddressBits_frame [OF assms this, of capptr] False show ?thesis
    by (auto simp: lookupTargetSlot_def lookupSlotForCNodeOp_def set_syscall_error_def Let_def)
qed

lemma lookupExtraCaps_loop_frame:
  "cnodes_ok s \<Longrightarrow> \<exists>r s'. lookupExtraCaps_loop thread b i n s = Some (r, s') \<and> no_err s' = no_err s"
proof (induction n arbitrary: i s)
  case (Suc n)
  obtain r s1 where s1: "lookupSlot thread (getExtraCPtr b (of_nat i) s) s = Some (r, s1)" "no_err s1 = no_err s"
    using lookupSlot_frame [OF Suc.prems] by blast
  have "cnodes_ok (s1\<lparr>current_extra_caps := (current_extra_caps s1)(i := ls_slot r)\<rparr>)"
    using Suc.prems no_err_fields(1) [OF s1(2)] by (simp add: cnodes_ok_def)
  from Suc.IH [OF this, of "Suc i"] show ?case using s1 by (auto simp: Let_def)
qed simp

lemma lookupExtraCaps_frame:
  "cnodes_ok s \<Longrightarrow> \<exists>r s'. lookupExtraCaps thread b info s = Some (r, s') \<and> no_err s' = no_err s"
  using lookupExtraCaps_loop_frame by (simp add: lookupExtraCaps_def)

lemma getReceiveSlots_frame:
  assumes "cnodes_ok s"
  shows "\<exists>d s'. getReceiveSlots thread buffer s = Some (d, s') \<and> no_err s' = no_err s \<and>
    current_extra_caps s' = current_extra_caps s \<and> (d \<noteq> 0 \<longrightarrow> cap_at s d = cap_null_cap)"
proof -
  let ?ct = "loadCapTransfer buffer s"
  obtain r s1 where s1: "lookupSlot thread (ctReceiveRoot ?ct) s = Some (r, s1)" "no_err s1 = no_err s"
    "current_extra_caps s1 = current_extra_caps s" using lookupSlot_frame [OF assms] by blast
  note c1 = no_err_fields(1) [OF s1(2)]
  have "cnodes_ok s1" "cnode_ok (cte_cap (ctes s1 (ls_slot r)))" using assms c1 by (simp_all add: cnodes_ok_def)
  from lookupTargetSlot_frame [OF this] obtain r2 s2 where s2:
    "lookupTargetSlot (cte_cap (ctes s1 (ls_slot r))) (ctReceiveIndex ?ct) (ctReceiveDepth ?ct) s1 = Some (r2, s2)"
    "no_err s2 = no_err s1" "current_extra_caps s2 = current_extra_caps s1" by blast
  note c2 = no_err_fields(1) [OF s2(2)]
  show ?thesis
    using s1 s2 c1 c2 by (auto simp: getReceiveSlots_def lookupCap_def Let_def cap_at_def)
qed

lemma deriveCap_frame:
  "\<exists>r s'. deriveCap slot cap s = Some (r, s') \<and> no_err s' = no_err s \<and>
    current_extra_caps s' = current_extra_caps s \<and> rights_of_cap (dc_cap r) \<subseteq> rights_of_cap cap \<and>
    (cap = cap_null_cap \<longrightarrow> dc_cap r = cap_null_cap)"
  by (cases cap) (simp_all add: deriveCap_def Arch_deriveCap_def isArchCap_def ensureNoChildren_def
      rights_of_cap_def set_syscall_error_def Let_def)

section \<open>Transfer of capabilities\<close>

text \<open>The state without slots, user memory and error registers.\<close>

definition msg_erase :: "kstate \<Rightarrow> kstate" where
  "msg_erase s = s\<lparr>ctes := \<lambda>_. zero_cte, user_words := \<lambda>_. 0, current_lookup_fault := invalid_root,
     current_syscall_error := zero_syscall_error, current_fault := NullFault, current_extra_caps := \<lambda>_. 0\<rparr>"

lemma msg_erase_no_err: "no_err s' = no_err s \<Longrightarrow> msg_erase s' = msg_erase s"
proof -
  have e: "msg_erase s = (no_err s)\<lparr>ctes := \<lambda>_. zero_cte, user_words := \<lambda>_. 0\<rparr>" for s
    by (simp add: msg_erase_def no_err_def)
  show "no_err s' = no_err s \<Longrightarrow> msg_erase s' = msg_erase s" unfolding e by simp
qed

lemma msg_erase_ops [simp]:
  "msg_erase (cteInsert c p x s) = msg_erase s" "msg_erase (setExtraBadge b w i s) = msg_erase s"
  by (simp_all add: msg_erase_def cte_ops_frame setExtraBadge_def set_user_word_def)

lemma user_words_cteInsert [simp]: "user_words (cteInsert c p x s) = user_words s"
  using arg_cong [OF cte_ops_frame(1) [where m = "ctes s"], of user_words] by simp

lemma extra_caps_cteInsert [simp]: "current_extra_caps (cteInsert c p x s) = current_extra_caps s"
  using arg_cong [OF cte_ops_frame(1) [where m = "ctes s"], of current_extra_caps] by simp

text \<open>
  One capability was granted: derived from an existing one, with no more rights, it
  is in the empty slot \<open>dest\<close>, and the source is as \<open>cteInsert\<close> leaves it.
\<close>

definition cap_granted :: "word_t \<Rightarrow> kstate \<Rightarrow> kstate \<Rightarrow> bool" where
  "cap_granted dest s s' \<longleftrightarrow> (\<exists>src c. dest \<noteq> 0 \<and> cap_at s dest = cap_null_cap \<and>
     cap_at s src \<noteq> cap_null_cap \<and> c \<noteq> cap_null_cap \<and> rights_of_cap c \<subseteq> rights_of_cap (cap_at s src) \<and>
     cap_at s' = (cap_at s)(src := after_copy (cap_at s src) c, dest := c))"

definition badge_words :: "word_t \<Rightarrow> word_t set" where
  "badge_words b = {buf_addr b 122, buf_addr b 123, buf_addr b 124}"

lemma setExtraBadge_words:
  "i < 3 \<Longrightarrow> p \<notin> badge_words b \<Longrightarrow> user_words (setExtraBadge b w (of_nat i) s) p = user_words s p"
  by (auto simp: setExtraBadge_def set_user_word_def badge_words_def seL4_MsgMaxLength_def
      numeral_3_eq_3 less_Suc_eq)

lemma mdb_ok_same_ctes: "ctes s' = ctes s \<Longrightarrow> mdb_ok CS s' = mdb_ok CS s"
  by (simp add: mdb_ok_def mdb_next_def [abs_def] mdb_prev_def [abs_def] live_slots_def cap_at_def)

lemma transferCaps_loop_ok:
  assumes "mdb_ok CS s" and "dest \<noteq> 0 \<Longrightarrow> cap_at s dest = cap_null_cap" and "i + n \<le> 3"
  shows "\<exists>info' s' CS'. transferCaps_loop ep b dest info i n s = Some (info', s') \<and> mdb_ok CS' s' \<and>
    (cap_at s' = cap_at s \<or> cap_granted dest s s') \<and> msg_erase s' = msg_erase s \<and>
    (\<forall>p. p \<notin> badge_words b \<longrightarrow> user_words s' p = user_words s p) \<and>
    seL4_MessageInfo_get_length info' = seL4_MessageInfo_get_length info \<and>
    seL4_MessageInfo_get_label info' = seL4_MessageInfo_get_label info"
  using assms
proof (induction n arbitrary: CS s dest info i)
  case 0
  then show ?case by auto
next
  case (Suc n)
  let ?slot = "current_extra_caps s i"
  let ?cap = "cte_cap (ctes s ?slot)"
  consider (stop) "?slot = 0" | (badge) "?slot \<noteq> 0" "is_cap_endpoint_cap ?cap \<and> capEPPtr ?cap = ep"
    | (none) "?slot \<noteq> 0" "\<not> (is_cap_endpoint_cap ?cap \<and> capEPPtr ?cap = ep)" "dest = 0"
    | (grant) "?slot \<noteq> 0" "\<not> (is_cap_endpoint_cap ?cap \<and> capEPPtr ?cap = ep)" "dest \<noteq> 0" by blast
  then show ?case
  proof cases
    case badge
    let ?s = "setExtraBadge b (capEPBadge ?cap) (of_nat i) s"
    have c: "ctes ?s = ctes s" by (simp add: setExtraBadge_def set_user_word_def)
    then have ca: "cap_at ?s = cap_at s" by (simp add: cap_at_def fun_eq_iff)
    have "mdb_ok CS ?s" and dn: "dest \<noteq> 0 \<Longrightarrow> cap_at ?s dest = cap_null_cap" and "Suc i + n \<le> 3"
      using Suc.prems ca by (simp_all add: mdb_ok_same_ctes [OF c])
    let ?info = "seL4_MessageInfo_set_capsUnwrapped info (seL4_MessageInfo_get_capsUnwrapped info OR push_bit i 1)"
    from Suc.IH [OF \<open>mdb_ok CS ?s\<close> _ \<open>Suc i + n \<le> 3\<close>, of dest ?info] dn obtain info' s' CS' where t:
      "transferCaps_loop ep b dest ?info (Suc i) n ?s = Some (info', s')" "mdb_ok CS' s'"
      "cap_at s' = cap_at ?s \<or> cap_granted dest ?s s'" "msg_erase s' = msg_erase ?s"
      "\<forall>p. p \<notin> badge_words b \<longrightarrow> user_words s' p = user_words ?s p"
      "seL4_MessageInfo_get_length info' = seL4_MessageInfo_get_length ?info"
      "seL4_MessageInfo_get_label info' = seL4_MessageInfo_get_label ?info" by blast
    have "transferCaps_loop ep b dest info i (Suc n) s = Some (info', s')" using badge t(1) by simp
    moreover have "cap_at s' = cap_at s \<or> cap_granted dest s s'" using t(3) by (simp add: ca cap_granted_def)
    moreover have "\<forall>p. p \<notin> badge_words b \<longrightarrow> user_words s' p = user_words s p"
      using t(5) setExtraBadge_words [of i _ b] Suc.prems(3) by simp
    ultimately show ?thesis using t(2,4,6,7) by auto
  next
    case grant
    obtain r s1 where d: "deriveCap ?slot ?cap s = Some (r, s1)" "no_err s1 = no_err s"
      "current_extra_caps s1 = current_extra_caps s" "rights_of_cap (dc_cap r) \<subseteq> rights_of_cap ?cap"
      "?cap = cap_null_cap \<longrightarrow> dc_cap r = cap_null_cap" using deriveCap_frame by blast
    note f = no_err_fields [OF d(2)] msg_erase_no_err [OF d(2)]
    have ca: "cap_at s1 = cap_at s" using f(1) by (simp add: cap_at_def fun_eq_iff)
    show ?thesis
    proof (cases "dc_status r \<noteq> EXCEPTION_NONE \<or> dc_cap r = cap_null_cap")
      case True
      then show ?thesis using grant d f ca Suc.prems(1) mdb_ok_same_ctes [OF f(1)] by (auto simp: Let_def)
    next
      case False
      let ?s = "cteInsert (dc_cap r) ?slot dest s1"
      have nn: "cap_at s ?slot \<noteq> cap_null_cap" using d(5) False by (auto simp: cap_at_def)
      have ok1: "mdb_ok CS s1" using Suc.prems(1) mdb_ok_same_ctes [OF f(1)] by blast
      then obtain us vs where "us @ ?slot # vs \<in> CS"
        using chains_split [of "mdb_next s1" "mdb_prev s1" CS "live_slots s1" ?slot] nn grant(1)
        by (auto simp: mdb_ok_def live_slots_def ca)
      from cteInsert_mdb_ok [OF ok1 this grant(3), of "dc_cap r"] False Suc.prems(2) grant(3)
      obtain CS' where CS': "mdb_ok CS' ?s" by (auto simp: ca)
      have g: "cap_granted dest s ?s"
        using grant(3) Suc.prems(2) nn False d(4)
        unfolding cap_granted_def by (auto simp: cteInsert_links ca cap_at_def intro!: exI [of _ ?slot] exI [of _ "dc_cap r"])
      have "Suc i + n \<le> 3" using Suc.prems(3) by simp
      from Suc.IH [OF CS' _ this, of 0 info] obtain info' s' CS'' where t:
        "transferCaps_loop ep b 0 info (Suc i) n ?s = Some (info', s')" "mdb_ok CS'' s'"
        "cap_at s' = cap_at ?s" "msg_erase s' = msg_erase ?s"
        "\<forall>p. p \<notin> badge_words b \<longrightarrow> user_words s' p = user_words s p"
        "seL4_MessageInfo_get_length info' = seL4_MessageInfo_get_length info"
        "seL4_MessageInfo_get_label info' = seL4_MessageInfo_get_label info"
        using f(3) by (auto simp: cap_granted_def)
      have "transferCaps_loop ep b dest info i (Suc n) s = Some (info', s')" using grant d(1) False t(1) by (auto simp: Let_def)
      moreover have "cap_granted dest s s'" using g t(3) by (simp add: cap_granted_def)
      ultimately show ?thesis using t(2,4-) f(4) by auto
    qed
  qed (use Suc.prems in \<open>auto simp: Let_def\<close>)
qed

lemma transferCaps_ok:
  assumes "cnodes_ok s" and "mdb_ok CS s"
  shows "\<exists>info' s' CS'. transferCaps info ep receiver b s = Some (info', s') \<and> mdb_ok CS' s' \<and>
    (cap_at s' = cap_at s \<or> current_extra_caps s 0 \<noteq> 0 \<and> (\<exists>dest. cap_granted dest s s')) \<and>
    msg_erase s' = msg_erase s \<and>
    (\<forall>p. b = 0 \<or> p \<notin> badge_words b \<longrightarrow> user_words s' p = user_words s p) \<and>
    seL4_MessageInfo_get_length info' = seL4_MessageInfo_get_length info \<and>
    seL4_MessageInfo_get_label info' = seL4_MessageInfo_get_label info"
proof (cases "current_extra_caps s 0 = 0 \<or> b = 0")
  case True
  then show ?thesis using assms(2) by (auto simp: transferCaps_def Let_def)
next
  case False
  let ?info = "seL4_MessageInfo_set_capsUnwrapped (seL4_MessageInfo_set_extraCaps info 0) 0"
  obtain d s1 where s1: "getReceiveSlots receiver b s = Some (d, s1)" "no_err s1 = no_err s"
    "d \<noteq> 0 \<longrightarrow> cap_at s d = cap_null_cap" using getReceiveSlots_frame [OF assms(1)] by blast
  note f = no_err_fields [OF s1(2)] msg_erase_no_err [OF s1(2)]
  have ca: "cap_at s1 = cap_at s" using f(1) by (simp add: cap_at_def fun_eq_iff)
  have "mdb_ok CS s1" using assms(2) mdb_ok_same_ctes [OF f(1)] by blast
  moreover have "d \<noteq> 0 \<Longrightarrow> cap_at s1 d = cap_null_cap" using s1(3) ca by simp
  moreover have "0 + 3 \<le> (3 :: nat)" by simp
  ultimately obtain info' s' CS' where t:
    "transferCaps_loop ep b d ?info 0 3 s1 = Some (info', s')" "mdb_ok CS' s'"
    "cap_at s' = cap_at s1 \<or> cap_granted d s1 s'" "msg_erase s' = msg_erase s1"
    "\<forall>p. p \<notin> badge_words b \<longrightarrow> user_words s' p = user_words s1 p"
    "seL4_MessageInfo_get_length info' = seL4_MessageInfo_get_length ?info"
    "seL4_MessageInfo_get_label info' = seL4_MessageInfo_get_label ?info"
    using transferCaps_loop_ok by blast
  have "unat seL4_MsgMaxExtraCaps = 3" by (simp add: seL4_MsgMaxExtraCaps_def BIT_def)
  then have "transferCaps info ep receiver b s = Some (info', s')"
    using False s1(1) t(1) by (simp add: transferCaps_def Let_def)
  moreover have "cap_at s' = cap_at s \<or> cap_granted d s s'" using t(3) by (simp add: ca cap_granted_def)
  ultimately show ?thesis using t(2,4-7) f False by auto
qed

lemma msg_words_not_badges:
  assumes "i < 120" shows "buf_addr b (of_nat i + 1) \<notin> badge_words b"
proof
  assume "buf_addr b (of_nat i + 1) \<in> badge_words b"
  then have "buf_addr b (of_nat (Suc i)) \<in> {buf_addr b (of_nat 122), buf_addr b (of_nat 123), buf_addr b (of_nat 124)}"
    by (simp add: badge_words_def add.commute)
  then obtain j where "j \<in> {122, 123, 124}" "buf_addr b (of_nat (Suc i)) = buf_addr b (of_nat j)" by blast
  then show False using buf_addr_inj [of "Suc i" j b] assms by auto
qed

lemma extra_caps_for_transfer:
  assumes "cnodes_ok s"
  shows "\<exists>s0. doNormalTransfer_extraCaps sender b canGrant tag s = Some s0 \<and>
     no_err s0 = no_err s \<and> (\<not> canGrant \<longrightarrow> current_extra_caps s0 0 = 0)"
  using lookupExtraCaps_frame [OF assms, of sender b tag] by (auto simp: doNormalTransfer_extraCaps_def)

lemma after_copyMRs_fields:
  "tcbs (after_copyMRs n sender sb receiver rb s) =
     (tcbs s)(receiver := (tcbs s receiver)\<lparr>tcbContext := copied_regs n sender receiver s\<rparr>)"
  "user_words (after_copyMRs n sender sb receiver rb s) = copied_words (transferred sb rb n) sb rb s"
  "ctes (after_copyMRs n sender sb receiver rb s) = ctes s"
  "current_extra_caps (after_copyMRs n sender sb receiver rb s) = current_extra_caps s"
  by (simp_all add: after_copyMRs_def)

lemma after_copyMRs_cong:
  assumes "no_err s0 = no_err s"
  shows "msg_erase (after_copyMRs n sender sb receiver rb s0) = msg_erase (after_copyMRs n sender sb receiver rb s)"
    and "copied_words m sb rb s0 = copied_words m sb rb s" "ctes s0 = ctes s"
proof -
  note f = no_err_fields [OF assms]
  show "copied_words m sb rb s0 = copied_words m sb rb s" for m by (simp add: copied_words_def fun_eq_iff f)
  have "copied_regs n sender receiver s0 = copied_regs n sender receiver s" by (simp add: copied_regs_def fun_eq_iff f)
  then have "msg_erase (after_copyMRs n sender sb receiver rb s0) =
      (msg_erase s0)\<lparr>tcbs := tcbs (after_copyMRs n sender sb receiver rb s)\<rparr>"
    by (simp add: msg_erase_def after_copyMRs_def f)
  then show "msg_erase (after_copyMRs n sender sb receiver rb s0) = msg_erase (after_copyMRs n sender sb receiver rb s)"
    unfolding msg_erase_no_err [OF assms] by (simp add: msg_erase_def after_copyMRs_def)
  show "ctes s0 = ctes s" by (rule f)
qed

text \<open>The last two steps write the message info and the badge.\<close>

definition set_result :: "word_t \<Rightarrow> word_t \<Rightarrow> word_t \<Rightarrow> kstate \<Rightarrow> kstate" where
  "set_result receiver info badge s =
     setRegister receiver badgeRegister badge (setRegister receiver msgInfoRegister info s)"

lemma doNormalTransfer_runs:
  fixes s :: kstate and sender sb rb :: word_t
  defines "w \<equiv> getRegister s sender msgInfoRegister"
  defines "n \<equiv> transferred sb rb (message_length w)"
  assumes "cnodes_ok s" and "mdb_ok CS s"
    and "is_aligned sb seL4_IPCBufferSizeBits" "is_aligned rb seL4_IPCBufferSizeBits"
  shows "\<exists>tag s2 CS'. doNormalTransfer sender sb ep badge canGrant receiver rb s =
      Some (set_result receiver (seL4_MessageInfo_set_length tag (of_nat n)) badge s2) \<and>
    seL4_MessageInfo_get_label tag = seL4_MessageInfo_get_label w \<and> mdb_ok CS' s2 \<and>
    (cap_at s2 = cap_at s \<or> canGrant \<and> (\<exists>dest. cap_granted dest s s2)) \<and>
    msg_erase s2 = msg_erase (after_copyMRs (message_length w) sender sb receiver rb s) \<and>
    (\<forall>p. rb = 0 \<or> p \<notin> badge_words rb \<longrightarrow> user_words s2 p = copied_words n sb rb s p)"
proof -
  let ?mi = "messageInfoFromWord w"
  have len: "unat (seL4_MessageInfo_get_length ?mi) = message_length w" "message_length w \<le> 120"
    by (simp_all add: messageInfoFromWord_length message_length_def)
  obtain s0 where s0: "doNormalTransfer_extraCaps sender sb canGrant ?mi s = Some s0"
    "no_err s0 = no_err s" "\<not> canGrant \<longrightarrow> current_extra_caps s0 0 = 0"
    using extra_caps_for_transfer [OF assms(3)] by blast
  note same = after_copyMRs_cong [OF s0(2)]
  let ?s1 = "after_copyMRs (message_length w) sender sb receiver rb s0"
  have c: "copyMRs sender sb receiver rb (seL4_MessageInfo_get_length ?mi) s0 = (of_nat n, ?s1)"
    using copyMRs_eq [of sb rb "seL4_MessageInfo_get_length ?mi"] assms(5,6) len by (simp add: n_def)
  have f: "ctes ?s1 = ctes s" by (simp add: after_copyMRs_fields same(3))
  have ca: "cap_at ?s1 = cap_at s" using f by (simp add: cap_at_def fun_eq_iff)
  have "cnodes_ok ?s1" "mdb_ok CS ?s1" using assms(3,4) mdb_ok_same_ctes [OF f] by (simp_all add: cnodes_ok_def f)
  from transferCaps_ok [OF this, of ?mi ep receiver rb] obtain tag s2 CS' where t:
    "transferCaps ?mi ep receiver rb ?s1 = Some (tag, s2)" "mdb_ok CS' s2"
    "cap_at s2 = cap_at ?s1 \<or> current_extra_caps ?s1 0 \<noteq> 0 \<and> (\<exists>dest. cap_granted dest ?s1 s2)"
    "msg_erase s2 = msg_erase ?s1"
    "\<forall>p. rb = 0 \<or> p \<notin> badge_words rb \<longrightarrow> user_words s2 p = user_words ?s1 p"
    "seL4_MessageInfo_get_label tag = seL4_MessageInfo_get_label w"
    by (auto simp: messageInfoFromWord_length(2))
  have "doNormalTransfer sender sb ep badge canGrant receiver rb s =
      Some (set_result receiver (seL4_MessageInfo_set_length tag (of_nat n)) badge s2)"
    using s0(1) c t(1) by (simp add: doNormalTransfer_def set_result_def wordFromMessageInfo_def Let_def w_def)
  moreover have "cap_at s2 = cap_at s \<or> canGrant \<and> (\<exists>dest. cap_granted dest s s2)"
    using t(3) s0(3) by (auto simp: ca cap_granted_def after_copyMRs_fields)
  ultimately show ?thesis
    using t(2,4-6) by (auto simp: same after_copyMRs_fields n_def)
qed

lemma set_result_fields:
  "ctes (set_result r i b s) = ctes s" "user_words (set_result r i b s) = user_words s"
  "getRegister (set_result r i b s) r badgeRegister = b"
  "getRegister (set_result r i b s) r msgInfoRegister = i"
  "x \<notin> {badgeRegister, msgInfoRegister} \<Longrightarrow> getRegister (set_result r i b s) r x = getRegister s r x"
  "t \<noteq> r \<Longrightarrow> tcbs (set_result r i b s) t = tcbs s t"
  "msg_erase (set_result r i b s) = (msg_erase s)\<lparr>tcbs := tcbs (set_result r i b s)\<rparr>"
  "(tcbs (set_result r i b s) r)\<lparr>tcbContext := c\<rparr> = (tcbs s r)\<lparr>tcbContext := c\<rparr>"
  by (simp_all add: set_result_def setRegister_def upd_tcb_def getRegister_def badgeRegister_def
      msgInfoRegister_def msg_erase_def)

lemma copied_message:
  assumes i: "i < transferred sb rb n" and "n \<le> 120"
    and regs: "\<And>r. r \<in> set msgRegisters \<Longrightarrow> getRegister s' receiver r = copied_regs n sender receiver s r"
    and mem: "\<And>p. rb = 0 \<or> p \<notin> badge_words rb \<Longrightarrow> user_words s' p = copied_words (transferred sb rb n) sb rb s p"
  shows "msg_word s' receiver rb i = msg_word s sender sb i"
proof (cases "i < 4")
  case True
  then have "i < length (take n msgRegisters)" using i by (auto simp: msgRegisters_def transferred_def split: if_splits)
  then have "msgRegisters ! i \<in> set (take n msgRegisters)" using nth_mem [of i "take n msgRegisters"] by simp
  moreover from this have "msgRegisters ! i \<in> set msgRegisters" by (rule in_set_takeD)
  ultimately show ?thesis using True regs by (simp add: msg_word_def copied_regs_def getRegister_def)
next
  case False
  let ?p = "buf_addr rb (of_nat i + 1)"
  have "?p \<notin> badge_words rb" using i assms(2) by (intro msg_words_not_badges) (auto simp: transferred_def split: if_splits)
  moreover have "?p \<in> (\<lambda>j. buf_addr rb (of_nat j + 1)) ` {4..<transferred sb rb n}" using False i by auto
  moreover have "?p - rb + sb = buf_addr sb (of_nat i + 1)" by (simp add: buf_addr_def)
  ultimately show ?thesis using False mem [of ?p] by (simp add: msg_word_def copied_words_def)
qed

text \<open>
  C29: The transfer of a message returns and delivers it: as many words as the length of the
  sender's message info says, at most 120, and at most the four in registers when either side has no
  buffer, arrive unchanged; the receiver's message info has that length and the sender's
  label, its badge register has the badge. At most one capability is granted, only if the
  endpoint allows it, derived with no more rights into an empty slot, and the derivation tree stays
  consistent. Both buffers are aligned to their size of 1024 bytes, as the kernel requires of every
  buffer (\<open>checkValidIPCBuffer\<close>); they may be the same. Of user memory only the receiver's buffer changes, of the receiver only the
  message registers, and nothing else of the kernel's state but the error registers.
\<close>

theorem doNormalTransfer_delivers:
  fixes s :: kstate and sender receiver sb rb :: word_t
  defines "n \<equiv> transferred sb rb (message_length (getRegister s sender msgInfoRegister))"
  assumes "cnodes_ok s" and "mdb_ok CS s"
    and "is_aligned sb seL4_IPCBufferSizeBits" "is_aligned rb seL4_IPCBufferSizeBits"
  shows "\<exists>s'. doNormalTransfer sender sb ep badge canGrant receiver rb s = Some s' \<and>
    (\<forall>i<n. msg_word s' receiver rb i = msg_word s sender sb i) \<and>
    seL4_MessageInfo_get_length (getRegister s' receiver msgInfoRegister) = of_nat n \<and>
    seL4_MessageInfo_get_label (getRegister s' receiver msgInfoRegister) =
      seL4_MessageInfo_get_label (getRegister s sender msgInfoRegister) \<and>
    getRegister s' receiver badgeRegister = badge \<and>
    (\<exists>CS'. mdb_ok CS' s') \<and>
    (cap_at s' = cap_at s \<or> canGrant \<and> (\<exists>dest. cap_granted dest s s')) \<and>
    (\<forall>p. rb = 0 \<or> p \<notin> badge_words rb \<union> (\<lambda>i. buf_addr rb (of_nat i + 1)) ` {4..<n} \<longrightarrow>
      user_words s' p = user_words s p) \<and>
    (\<forall>r. r \<notin> {badgeRegister, msgInfoRegister} \<union> set msgRegisters \<longrightarrow>
      getRegister s' receiver r = getRegister s receiver r) \<and>
    tcbs s' = (tcbs s)(receiver := (tcbs s receiver)\<lparr>tcbContext := tcbContext (tcbs s' receiver)\<rparr>) \<and>
    (msg_erase s')\<lparr>tcbs := tcbs s\<rparr> = msg_erase s"
proof -
  let ?w = "getRegister s sender msgInfoRegister"
  have len: "message_length ?w \<le> 120" by (simp add: message_length_def)
  then have "of_nat n AND MASK 7 = (of_nat n :: word_t)"
    by (intro and_mask_less) (auto simp: unat_of_nat n_def transferred_def)
  obtain tag s2 CS' where t: "doNormalTransfer sender sb ep badge canGrant receiver rb s =
      Some (set_result receiver (seL4_MessageInfo_set_length tag (of_nat n)) badge s2)"
    "seL4_MessageInfo_get_label tag = seL4_MessageInfo_get_label ?w" "mdb_ok CS' s2"
    "cap_at s2 = cap_at s \<or> canGrant \<and> (\<exists>dest. cap_granted dest s s2)"
    "msg_erase s2 = msg_erase (after_copyMRs (message_length ?w) sender sb receiver rb s)"
    "\<forall>p. rb = 0 \<or> p \<notin> badge_words rb \<longrightarrow> user_words s2 p = copied_words n sb rb s p"
    using doNormalTransfer_runs [OF assms(2-5)] unfolding n_def by blast
  define s' where "s' = set_result receiver (seL4_MessageInfo_set_length tag (of_nat n)) badge s2"
  note f' = set_result_fields [where r = receiver and i = "seL4_MessageInfo_set_length tag (of_nat n)" and b = badge
      and s = s2, folded s'_def]
  have t2: "tcbs s2 = (tcbs s)(receiver := (tcbs s receiver)\<lparr>tcbContext := copied_regs (message_length ?w) sender receiver s\<rparr>)"
    using arg_cong [OF t(5), of tcbs] by (simp add: msg_erase_def after_copyMRs_def)
  have regs: "getRegister s' receiver r = copied_regs (message_length ?w) sender receiver s r"
    if "r \<notin> {badgeRegister, msgInfoRegister}" for r using f'(5) [OF that] t2 by (simp add: getRegister_def)
  have words: "msg_word s' receiver rb i = msg_word s sender sb i" if "i < n" for i
  proof (rule copied_message)
    show "getRegister s' receiver r = copied_regs (message_length ?w) sender receiver s r"
      if "r \<in> set msgRegisters" for r
      using that regs [of r] by (auto simp: msgRegisters_def badgeRegister_def msgInfoRegister_def)
  qed (use that len t(6) in \<open>auto simp: n_def f'(2)\<close>)
  have ca: "cap_at s' = cap_at s2" using f'(1) by (simp add: cap_at_def fun_eq_iff)
  have other: "getRegister s' receiver r = getRegister s receiver r"
    if "r \<notin> {badgeRegister, msgInfoRegister} \<union> set msgRegisters" for r
    using that regs [of r] in_set_takeD [of r "message_length ?w" msgRegisters] by (auto simp: copied_regs_def getRegister_def)
  have mem: "user_words s' p = user_words s p"
    if "rb = 0 \<or> p \<notin> badge_words rb \<union> (\<lambda>i. buf_addr rb (of_nat i + 1)) ` {4..<n}" for p
    using that t(6) by (auto simp: f'(2) copied_words_def n_def transferred_def split: if_splits)
  have tcbs: "tcbs s' = (tcbs s)(receiver := (tcbs s receiver)\<lparr>tcbContext := tcbContext (tcbs s' receiver)\<rparr>)"
    using f'(6) f'(8) [of "tcbContext (tcbs s' receiver)"] by (auto simp: fun_eq_iff t2)
  have "(msg_erase s')\<lparr>tcbs := tcbs s\<rparr> = (msg_erase s2)\<lparr>tcbs := tcbs s\<rparr>" by (simp add: f'(7))
  also have "\<dots> = msg_erase s" unfolding t(5) by (simp add: msg_erase_def after_copyMRs_def)
  finally have "(msg_erase s')\<lparr>tcbs := tcbs s\<rparr> = msg_erase s" .
  moreover have "\<exists>CS'. mdb_ok CS' s'" using t(3) mdb_ok_same_ctes [OF f'(1)] by blast
  moreover have "cap_at s' = cap_at s \<or> canGrant \<and> (\<exists>dest. cap_granted dest s s')"
    using t(4) by (simp add: ca cap_granted_def)
  ultimately show ?thesis
    using t(1,2) f'(3,4) words other mem tcbs \<open>of_nat n AND MASK 7 = (of_nat n :: word_t)\<close>
    unfolding s'_def [symmetric] by simp
qed

text \<open>
  Example: thread 0x1000 sends a message of five words with its buffer at 0x10000 to
  thread 0x2000, whose buffer is at 0x20000.
\<close>

definition sending_state :: kstate where
  "sending_state = zero_state\<lparr>tcbs := (\<lambda>_. zero_tcb)(0x1000 := zero_tcb\<lparr>tcbContext := \<lambda>r. if r = 10 then 5 else of_nat r\<rparr>),
     user_words := (\<lambda>_. 0)(0x10028 := 42)\<rparr>"

lemma sending_state_ok: "cnodes_ok sending_state" "mdb_ok {} sending_state"
  by (simp_all add: sending_state_def zero_defs cnodes_ok_def cnode_ok_def mdb_ok_def live_slots_def cap_at_def
      mdb_next_def mdb_prev_def chains_def)

lemma sending_buffers: "is_aligned 0x10000 seL4_IPCBufferSizeBits" "is_aligned 0x20000 seL4_IPCBufferSizeBits"
  by (simp_all add: is_aligned_def seL4_IPCBufferSizeBits_def)

theorem doNormalTransfer_delivers_witness:
  "\<exists>s'. doNormalTransfer 0x1000 0x10000 0x3000 77 True 0x2000 0x20000 sending_state = Some s' \<and>
     msg_word s' 0x2000 0x20000 0 = 11 \<and> msg_word s' 0x2000 0x20000 4 = 42 \<and>
     getRegister s' 0x2000 badgeRegister = 77"
proof -
  have n: "transferred 0x10000 0x20000 (message_length (getRegister sending_state 0x1000 msgInfoRegister)) = 5"
    by (simp add: transferred_def message_length_def getRegister_def sending_state_def msgInfoRegister_def
        seL4_MessageInfo_get_length_def bf_get_def MASK_def BIT_def)
  have w: "msg_word sending_state 0x1000 0x10000 0 = 11" "msg_word sending_state 0x1000 0x10000 4 = 42"
    by (simp_all add: msg_word_def getRegister_def sending_state_def msgRegisters_def buf_addr_def)
  show ?thesis
    using doNormalTransfer_delivers [OF sending_state_ok, of "0x10000" "0x20000" "0x1000" "0x3000" 77 True "0x2000"]
      sending_buffers w unfolding n by auto
qed

end
