(* ===== verification/Domain.thy ===== *)
theory Domain
  imports Message
begin

text \<open>
  The domain object of \<^verbatim>\<open>src/object/domain.c\<close>: assigning a domain to a thread and changing the
  domain schedule. \<open>prepareSetDomain\<close> saves floating point state and has no effect in the
  configuration modelled.
\<close>

section \<open>Operations\<close>

definition TIME_ARG_SIZE :: word_t where "TIME_ARG_SIZE = 1"

definition invokeDomainSetSet :: "word_t \<Rightarrow> word_t \<Rightarrow> kstate \<Rightarrow> kstate" where
  "invokeDomainSetSet tcb domain s = setDomain tcb domain s"

definition decodeDomainSetSetInvocation :: "word_t \<Rightarrow> word_t \<Rightarrow> kstate \<Rightarrow> exception \<times> kstate" where
  "decodeDomainSetSetInvocation len buffer s =
     (if len = 0 then syscall_fail (\<lambda>e. e\<lparr>err_type := seL4_TruncatedMessage\<rparr>) s
      else
        let domain = getSyscallArg 0 buffer s
        in if domain \<ge> numDomains then
             syscall_fail (\<lambda>e. e\<lparr>err_type := seL4_InvalidArgument, invalidArgumentNumber := 0\<rparr>) s
           else if current_extra_caps s 0 = 0 then
             syscall_fail (\<lambda>e. e\<lparr>err_type := seL4_TruncatedMessage\<rparr>) s
           else
             let tcap = cte_cap (ctes s (current_extra_caps s 0))
             in if \<not> is_cap_thread_cap tcap then
                  syscall_fail (\<lambda>e. e\<lparr>err_type := seL4_InvalidArgument, invalidArgumentNumber := 1\<rparr>) s
                else
                  let s = setThreadState (ksCurThread s) ThreadState_Restart s;
                      s = invokeDomainSetSet (capTCBPtr tcap) domain s
                  in (EXCEPTION_NONE, s))"

definition invokeDomainScheduleConfigure :: "word_t \<Rightarrow> word_t \<Rightarrow> ticks_t \<Rightarrow> kstate \<Rightarrow> kstate" where
  "invokeDomainScheduleConfigure index domain duration s =
     s\<lparr>ksDomSchedule := (ksDomSchedule s)(index := dschedule_make domain duration)\<rparr>"

definition decodeDomainScheduleConfigure :: "word_t \<Rightarrow> word_t \<Rightarrow> kstate \<Rightarrow> exception \<times> kstate" where
  "decodeDomainScheduleConfigure len buffer s =
     (if len < 2 + TIME_ARG_SIZE then syscall_fail (\<lambda>e. e\<lparr>err_type := seL4_TruncatedMessage\<rparr>) s
      else
        let index = getSyscallArg 0 buffer s;
            domain = getSyscallArg 1 buffer s;
            duration = mode_parseTimeArg 2 buffer s
        in if index \<ge> domScheduleLength - 1 then
             syscall_fail (\<lambda>e. e\<lparr>err_type := seL4_RangeError, rangeErrorMin := 0,
               rangeErrorMax := domScheduleLength - 2\<rparr>) s
           else if domain \<ge> numDomains then
             syscall_fail (\<lambda>e. e\<lparr>err_type := seL4_RangeError, rangeErrorMin := 0,
               rangeErrorMax := numDomains - 1\<rparr>) s
           else if duration > DSCHED_MAX_DURATION then
             syscall_fail (\<lambda>e. e\<lparr>invalidArgumentNumber := 2, err_type := seL4_InvalidArgument\<rparr>) s
           else if duration = 0 \<and> domain \<noteq> 0 then
             syscall_fail (\<lambda>e. e\<lparr>invalidArgumentNumber := 1, err_type := seL4_InvalidArgument\<rparr>) s
           else if index = ksDomScheduleStart s \<and> duration = 0 then
             syscall_fail (\<lambda>e. e\<lparr>invalidArgumentNumber := 2, err_type := seL4_InvalidArgument\<rparr>) s
           else
             let s = setThreadState (ksCurThread s) ThreadState_Restart s
             in (EXCEPTION_NONE, invokeDomainScheduleConfigure index domain duration s))"

definition invokeDomainScheduleSetStart :: "word_t \<Rightarrow> kstate \<Rightarrow> kstate" where
  "invokeDomainScheduleSetStart index s =
     (let s = s\<lparr>ksDomScheduleStart := index\<rparr>;
          s = s\<lparr>ksDomainTime := 0\<rparr>;
          s = s\<lparr>ksDomScheduleIdx := domScheduleLength - 2\<rparr>
      in rescheduleRequired s)"

definition decodeDomainScheduleSetStart :: "word_t \<Rightarrow> word_t \<Rightarrow> kstate \<Rightarrow> exception \<times> kstate" where
  "decodeDomainScheduleSetStart len buffer s =
     (if len < 1 then syscall_fail (\<lambda>e. e\<lparr>err_type := seL4_TruncatedMessage\<rparr>) s
      else
        let index = getSyscallArg 0 buffer s
        in if index \<ge> domScheduleLength then
             syscall_fail (\<lambda>e. e\<lparr>err_type := seL4_RangeError, rangeErrorMin := 0,
               rangeErrorMax := domScheduleLength - 1\<rparr>) s
           else if dschedule_is_end_marker index s then
             syscall_fail (\<lambda>e. e\<lparr>invalidArgumentNumber := 0, err_type := seL4_InvalidArgument\<rparr>) s
           else
             let s = setThreadState (ksCurThread s) ThreadState_Restart s
             in (EXCEPTION_NONE, invokeDomainScheduleSetStart index s))"

definition decodeDomainInvocation ::
  "invocation_label \<Rightarrow> word_t \<Rightarrow> word_t \<Rightarrow> kstate \<Rightarrow> exception \<times> kstate" where
  "decodeDomainInvocation invLabel len buffer s =
     (case invLabel of
        DomainSetSet \<Rightarrow> decodeDomainSetSetInvocation len buffer s
      | DomainScheduleConfigure \<Rightarrow> decodeDomainScheduleConfigure len buffer s
      | DomainScheduleSetStart \<Rightarrow> decodeDomainScheduleSetStart len buffer s
      | _ \<Rightarrow> syscall_fail (\<lambda>e. e\<lparr>err_type := seL4_IllegalOperation\<rparr>) s)"

section \<open>Entries of the schedule\<close>

lemmas dsched_defs = DSCHED_DOMAIN_BITS_def DSCHED_DOMAIN_SHIFT_def DSCHED_MAX_DURATION_def

lemma DSCHED_MAX_DURATION_eq: "DSCHED_MAX_DURATION = 0xFFFFFFFFFFFFFF"
  by (simp add: dsched_defs mask_eq_exp_minus_1)

lemma dschedule_make_roundtrip:
  assumes "domain < numDomains" and "duration \<le> DSCHED_MAX_DURATION"
  shows "dschedule_domain (dschedule_make domain duration) = domain"
    and "dschedule_duration (dschedule_make domain duration) = duration"
proof -
  have m: "DSCHED_MAX_DURATION = mask 56"
    by (rule bit_word_eqI) (auto simp: dsched_defs bit_drop_bit_eq bit_mask_iff)
  have "unat (mask 56 :: word_t) = 2 ^ 56 - 1" using unat_MASK [of 56] by (simp add: MASK_eq_mask)
  then have d: "unat duration < 2 ^ 56" using assms(2) by (simp add: m word_le_nat_alt)
  have e: "unat domain < 2 ^ 8" using assms(1) by (simp add: numDomains_def CONFIG_NUM_DOMAINS_def word_less_nat_alt)
  have hi: "n < 56" if "bit duration n" for n using less_high_bits [OF d] that not_le by blast
  have he: "n < 8" if "bit domain n" for n using less_high_bits [OF e] that not_le by blast
  show "dschedule_domain (dschedule_make domain duration) = domain"
    by (rule bit_word_eqI) (use he in \<open>auto dest: hi simp: dschedule_domain_def dschedule_make_def dsched_defs
        bit_drop_bit_eq bit_or_iff bit_push_bit_iff\<close>)
  show "dschedule_duration (dschedule_make domain duration) = duration"
    by (rule bit_word_eqI) (use hi in \<open>auto simp: dschedule_duration_def dschedule_make_def m bit_and_iff bit_mask_iff
        DSCHED_DOMAIN_SHIFT_def DSCHED_DOMAIN_BITS_def bit_or_iff bit_push_bit_iff not_le\<close>)
qed

section \<open>Preservation\<close>

lemma core_setThreadState:
  "core_state (setThreadState t ts s) = core_state (set_tcbState t (\<lambda>st. st\<lparr>ts_type := ts\<rparr>) s)"
  by (simp add: setThreadState_def scheduleTCB_def)

lemma dom_sched_ok_core:
  assumes "core_state s' = core_state s" shows "dom_sched_ok s' = dom_sched_ok s"
  by (simp add: dom_sched_ok_def core_stateD [OF assms])

lemma setThreadState_frame:
  "dom_sched_ok (setThreadState t ts s) = dom_sched_ok s" "threads_valid (setThreadState t ts s) = threads_valid s"
  "ksDomSchedule (setThreadState t ts s) = ksDomSchedule s" "ctes (setThreadState t ts s) = ctes s"
  "ksDomScheduleStart (setThreadState t ts s) = ksDomScheduleStart s"
  using dom_sched_ok_core [OF core_setThreadState, of t ts s] can_wake_core(2) [OF core_setThreadState, of t ts s]
    core_stateD [OF core_setThreadState, of t ts s]
  by (auto simp: set_tcbState_def upd_tcb_def dom_sched_ok_def threads_valid_def)

lemma setDomain_core:
  "core_state (setDomain t d s) = core_state (upd_tcb t (\<lambda>x. x\<lparr>tcbDomain := d\<rparr>) (tcbSchedDequeue t s))"
  by (simp add: setDomain_def Let_def)

lemma setDomain_frame:
  "dom_sched_ok (setDomain t d s) = dom_sched_ok s" "tcbDomain (tcbs (setDomain t d s) t) = d"
  "d < numDomains \<Longrightarrow> threads_valid s \<Longrightarrow> threads_valid (setDomain t d s)"
proof -
  note q = core_sched_ops(3) [of t s]
  show "dom_sched_ok (setDomain t d s) = dom_sched_ok s"
    using dom_sched_ok_core [OF setDomain_core, of t d s] dom_sched_ok_core [OF q]
    by (simp add: upd_tcb_def dom_sched_ok_def)
  show "tcbDomain (tcbs (setDomain t d s) t) = d"
    using core_state_thread(1) [OF setDomain_core, of t d s t] by (simp add: upd_tcb_def)
  show "threads_valid (setDomain t d s)" if "d < numDomains" "threads_valid s"
    using that can_wake_core(2) [OF setDomain_core, of t d s] can_wake_core(2) [OF q]
    by (simp add: threads_valid_def upd_tcb_def valid_domain_def numDomains_def)
qed

lemma configure_ok:
  assumes ok: "dom_sched_ok s" and "index < domScheduleLength - 1" "domain < numDomains"
    and "duration \<le> DSCHED_MAX_DURATION" and z: "duration = 0 \<Longrightarrow> domain = 0 \<and> index \<noteq> ksDomScheduleStart s"
  shows "dom_sched_ok (invokeDomainScheduleConfigure index domain duration s)"
proof -
  note r = dschedule_make_roundtrip [OF assms(3,4)]
  have nz: "duration \<noteq> 0 \<Longrightarrow> dschedule_make domain duration \<noteq> 0"
    using r(2) by (auto simp: dschedule_duration_def)
  have zero: "dschedule_make 0 0 = 0" by (simp add: dschedule_make_def)
  have "domScheduleLength - 1 \<noteq> index" using assms(2) by auto
  then show ?thesis using ok z r nz zero assms(3)
    by (cases "duration = 0") (auto simp: dom_sched_ok_def invokeDomainScheduleConfigure_def valid_domain_def numDomains_def)
qed

lemma set_start_ok:
  assumes ok: "dom_sched_ok s" and "index < domScheduleLength" "ksDomSchedule s index \<noteq> 0"
  shows "dom_sched_ok (invokeDomainScheduleSetStart index s)"
    and "ksDomScheduleIdx (nextDomain (invokeDomainScheduleSetStart index s)) = index"
    and "ksDomainTime (invokeDomainScheduleSetStart index s) = 0"
proof -
  let ?s = "s\<lparr>ksDomScheduleStart := index, ksDomainTime := 0, ksDomScheduleIdx := domScheduleLength - 2\<rparr>"
  have e: "core_state (invokeDomainScheduleSetStart index s) = core_state ?s"
    by (simp add: invokeDomainScheduleSetStart_def Let_def)
  show "dom_sched_ok (invokeDomainScheduleSetStart index s)"
    using assms unfolding dom_sched_ok_core [OF e] by (simp add: dom_sched_ok_def domScheduleLength_def)
  show "ksDomainTime (invokeDomainScheduleSetStart index s) = 0" by (simp add: core_stateD [OF e])
  show "ksDomScheduleIdx (nextDomain (invokeDomainScheduleSetStart index s)) = index"
    using ok by (simp add: nextDomain_def Let_def dschedule_is_end_marker_def core_stateD [OF e] dom_sched_ok_def
        domScheduleLength_def)
qed

section \<open>Properties\<close>

definition only_error :: "exception \<Rightarrow> kstate \<Rightarrow> kstate \<Rightarrow> bool" where
  "only_error e s s' \<longleftrightarrow> e = EXCEPTION_SYSCALL_ERROR \<and> (\<exists>f. s' = set_syscall_error f s)"

lemma only_error_fail: "syscall_fail f s = (e, s') \<Longrightarrow> only_error e s s'"
  by (auto simp: syscall_fail_def only_error_def)

lemma only_error_keeps:
  "only_error e s s' \<Longrightarrow> dom_sched_ok s' = dom_sched_ok s \<and> threads_valid s' = threads_valid s \<and> e \<noteq> EXCEPTION_NONE"
  by (auto simp: only_error_def set_syscall_error_def dom_sched_ok_def threads_valid_def)

lemma decode_set_cases:
  assumes "decodeDomainSetSetInvocation len buffer s = (e, s')"
  shows "only_error e s s' \<or> e = EXCEPTION_NONE \<and> getSyscallArg 0 buffer s < numDomains \<and>
    s' = setDomain (capTCBPtr (cap_at s (current_extra_caps s 0))) (getSyscallArg 0 buffer s)
      (setThreadState (ksCurThread s) ThreadState_Restart s)"
  using assms
  by (auto simp: decodeDomainSetSetInvocation_def Let_def invokeDomainSetSet_def cap_at_def not_le
      dest!: only_error_fail split: if_splits)

lemma decode_configure_cases:
  assumes "decodeDomainScheduleConfigure len buffer s = (e, s')"
  shows "only_error e s s' \<or> e = EXCEPTION_NONE \<and> getSyscallArg 0 buffer s < domScheduleLength - 1 \<and>
    getSyscallArg 1 buffer s < numDomains \<and> getSyscallArg 2 buffer s \<le> DSCHED_MAX_DURATION \<and>
    (getSyscallArg 2 buffer s = 0 \<longrightarrow> getSyscallArg 1 buffer s = 0 \<and> getSyscallArg 0 buffer s \<noteq> ksDomScheduleStart s) \<and>
    s' = invokeDomainScheduleConfigure (getSyscallArg 0 buffer s) (getSyscallArg 1 buffer s)
      (getSyscallArg 2 buffer s) (setThreadState (ksCurThread s) ThreadState_Restart s)"
  using assms
  by (auto simp: decodeDomainScheduleConfigure_def Let_def mode_parseTimeArg_def not_le
      dest!: only_error_fail split: if_splits)

lemma decode_start_cases:
  assumes "decodeDomainScheduleSetStart len buffer s = (e, s')"
  shows "only_error e s s' \<or> e = EXCEPTION_NONE \<and> getSyscallArg 0 buffer s < domScheduleLength \<and>
    ksDomSchedule s (getSyscallArg 0 buffer s) \<noteq> 0 \<and>
    s' = invokeDomainScheduleSetStart (getSyscallArg 0 buffer s) (setThreadState (ksCurThread s) ThreadState_Restart s)"
  using assms
  by (auto simp: decodeDomainScheduleSetStart_def Let_def dschedule_is_end_marker_def not_le
      dest!: only_error_fail split: if_splits)

lemma set_start_threads: "threads_valid (invokeDomainScheduleSetStart index s) = threads_valid s"
proof -
  let ?s = "s\<lparr>ksDomScheduleStart := index, ksDomainTime := 0, ksDomScheduleIdx := domScheduleLength - 2\<rparr>"
  have "core_state (invokeDomainScheduleSetStart index s) = core_state ?s"
    by (simp add: invokeDomainScheduleSetStart_def Let_def)
  from can_wake_core(2) [OF this] show ?thesis by (simp add: threads_valid_def)
qed

text \<open>
  C30: No domain invocation can break the schedule. Every accepted call leaves a schedule
  that starts at an entry with time, ends before the end of the array and names existing domains
  only, and leaves every thread in an existing domain; a rejected call reports a system call
  error and changes nothing else. An accepted call does what it says: it sets the thread's domain, or
  stores the domain and the duration in that entry and no other, or makes the next
  domain change go to the new start.
\<close>

theorem decodeDomainInvocation_keeps_schedule:
  assumes "decodeDomainInvocation label len buffer s = (e, s')" and "dom_sched_ok s" and "threads_valid s"
  shows "dom_sched_ok s' \<and> threads_valid s' \<and> (e \<noteq> EXCEPTION_NONE \<longrightarrow> only_error e s s') \<and>
    (e = EXCEPTION_NONE \<longrightarrow>
      (label = DomainSetSet \<and>
        tcbDomain (tcbs s' (capTCBPtr (cap_at s (current_extra_caps s 0)))) = getSyscallArg 0 buffer s \<or>
      label = DomainScheduleConfigure \<and>
        dschedule_domain (ksDomSchedule s' (getSyscallArg 0 buffer s)) = getSyscallArg 1 buffer s \<and>
        dschedule_duration (ksDomSchedule s' (getSyscallArg 0 buffer s)) = getSyscallArg 2 buffer s \<and>
        (\<forall>j. j \<noteq> getSyscallArg 0 buffer s \<longrightarrow> ksDomSchedule s' j = ksDomSchedule s j) \<or>
      label = DomainScheduleSetStart \<and> ksDomainTime s' = 0 \<and>
        ksDomScheduleIdx (nextDomain s') = getSyscallArg 0 buffer s))"
proof (cases "only_error e s s'")
  case True
  then show ?thesis using only_error_keeps [OF True] assms(2,3) by blast
next
  case False
  consider "label = DomainSetSet" "decodeDomainSetSetInvocation len buffer s = (e, s')"
    | "label = DomainScheduleConfigure" "decodeDomainScheduleConfigure len buffer s = (e, s')"
    | "label = DomainScheduleSetStart" "decodeDomainScheduleSetStart len buffer s = (e, s')"
    using assms(1) False only_error_fail [of _ s e s'] unfolding decodeDomainInvocation_def
    by (cases label) auto
  then show ?thesis
  proof cases
    case 1
    then show ?thesis using decode_set_cases [OF 1(2)] False assms(2,3)
      by (simp add: setDomain_frame setThreadState_frame)
  next
    case 2
    from decode_configure_cases [OF 2(2)] False have c: "e = EXCEPTION_NONE"
      "getSyscallArg 0 buffer s < domScheduleLength - 1" "getSyscallArg 1 buffer s < numDomains"
      "getSyscallArg 2 buffer s \<le> DSCHED_MAX_DURATION"
      "getSyscallArg 2 buffer s = 0 \<Longrightarrow> getSyscallArg 1 buffer s = 0 \<and> getSyscallArg 0 buffer s \<noteq> ksDomScheduleStart s"
      "s' = invokeDomainScheduleConfigure (getSyscallArg 0 buffer s) (getSyscallArg 1 buffer s)
        (getSyscallArg 2 buffer s) (setThreadState (ksCurThread s) ThreadState_Restart s)" by blast+
    let ?t = "setThreadState (ksCurThread s) ThreadState_Restart s"
    have "dom_sched_ok s'" unfolding c(6) using c(5) assms(2)
      by (intro configure_ok c(2-4)) (simp_all add: setThreadState_frame)
    moreover have "threads_valid s'" using setThreadState_frame(2) [of "ksCurThread s" ThreadState_Restart s] assms(3)
      by (simp add: c(6) invokeDomainScheduleConfigure_def threads_valid_def)
    ultimately show ?thesis using 2(1) c(1) dschedule_make_roundtrip [OF c(3,4)]
      by (simp add: c(6) invokeDomainScheduleConfigure_def setThreadState_frame)
  next
    case 3
    then show ?thesis using decode_start_cases [OF 3(2)] False assms(2,3)
      set_start_ok [of "setThreadState (ksCurThread s) ThreadState_Restart s" "getSyscallArg 0 buffer s"]
      by (auto simp: setThreadState_frame set_start_threads)
  qed
qed

definition one_domain :: kstate where
  "one_domain = zero_state\<lparr>ksDomSchedule := (\<lambda>_. 0)(0 := dschedule_make 0 10), ksCurThread := 0x1000,
     tcbs := (\<lambda>_. zero_tcb)(0x1000 := zero_tcb\<lparr>tcbContext := (\<lambda>_. 0)(11 := 7, 12 := 3, 13 := 20)\<rparr>)\<rparr>"

theorem decodeDomainInvocation_keeps_schedule_witness:
  "\<exists>s'. decodeDomainInvocation DomainScheduleConfigure 3 0 one_domain = (EXCEPTION_NONE, s') \<and>
     dom_sched_ok s' \<and> dschedule_domain (ksDomSchedule s' 7) = 3 \<and> dschedule_duration (ksDomSchedule s' 7) = 20"
proof -
  have args: "getSyscallArg 0 0 one_domain = 7" "getSyscallArg 1 0 one_domain = 3" "getSyscallArg 2 0 one_domain = 20"
    by (simp_all add: getSyscallArg_def n_msgRegisters_def getRegister_def one_domain_def msgRegisters_def)
  have "dschedule_domain (dschedule_make 0 10) = 0" "dschedule_duration (dschedule_make 0 10) = 10"
    "dschedule_make 0 10 \<noteq> 0"
    using dschedule_make_roundtrip [of 0 10]
    by (simp_all add: DSCHED_MAX_DURATION_eq numDomains_def CONFIG_NUM_DOMAINS_def) (simp add: dschedule_make_def)
  then have ok: "dom_sched_ok one_domain" "threads_valid one_domain"
    by (simp_all add: dom_sched_ok_def one_domain_def zero_defs domScheduleLength_def valid_domain_def
        CONFIG_NUM_DOMAINS_def CONFIG_NUM_PRIORITIES_def threads_valid_def valid_prio_def)
  have "fst (decodeDomainInvocation DomainScheduleConfigure 3 0 one_domain) = EXCEPTION_NONE"
    by (simp add: decodeDomainInvocation_def decodeDomainScheduleConfigure_def TIME_ARG_SIZE_def args
        mode_parseTimeArg_def domScheduleLength_def numDomains_def CONFIG_NUM_DOMAINS_def DSCHED_MAX_DURATION_eq Let_def)
  then obtain s' where "decodeDomainInvocation DomainScheduleConfigure 3 0 one_domain = (EXCEPTION_NONE, s')"
    by (metis prod.collapse)
  with decodeDomainInvocation_keeps_schedule [OF this ok] show ?thesis by (simp add: args)
qed

end
