(* ===== verification/Untyped.thy ===== *)
theory Untyped
  imports Message
begin

text \<open>
  Untyped memory (\<^verbatim>\<open>src/object/untyped.c\<close>): the allocation of kernel objects from a
  region of memory, and the clearing of a region before it is used again, which can be
  preempted (\<^verbatim>\<open>src/model/preemption.c\<close>).

  \<open>clearMemory\<close> zeroes the objects and user words whose address is in the given range. The
  hardware is a parameter: \<open>env k\<close> says whether an interrupt is pending, and the time, at the
  \<open>k\<close>-th preemption point.
\<close>

section \<open>Operations\<close>

definition CONFIG_RETYPE_FAN_OUT_LIMIT :: word_t where "CONFIG_RETYPE_FAN_OUT_LIMIT = 256"
definition CONFIG_RESET_CHUNK_BITS :: nat where "CONFIG_RESET_CHUNK_BITS = 8"
definition CONFIG_MAX_NUM_WORK_UNITS_PER_PREEMPTION :: word_t where
  "CONFIG_MAX_NUM_WORK_UNITS_PER_PREEMPTION = 100"

definition FREE_INDEX_TO_OFFSET :: "word_t \<Rightarrow> word_t" where
  "FREE_INDEX_TO_OFFSET freeIndex = push_bit seL4_MinUntypedBits freeIndex"

definition GET_FREE_REF :: "word_t \<Rightarrow> word_t \<Rightarrow> word_t" where
  "GET_FREE_REF base freeIndex = base + FREE_INDEX_TO_OFFSET freeIndex"

definition GET_FREE_INDEX :: "word_t \<Rightarrow> word_t \<Rightarrow> word_t" where
  "GET_FREE_INDEX base free = drop_bit seL4_MinUntypedBits (free - base)"

definition GET_OFFSET_FREE_PTR :: "word_t \<Rightarrow> word_t \<Rightarrow> word_t" where
  "GET_OFFSET_FREE_PTR base offset = base + offset"

definition OFFSET_TO_FREE_INDEX :: "word_t \<Rightarrow> word_t" where
  "OFFSET_TO_FREE_INDEX offset = drop_bit seL4_MinUntypedBits offset"

definition ROUND_DOWN :: "word_t \<Rightarrow> nat \<Rightarrow> word_t" where
  "ROUND_DOWN n b = push_bit b (drop_bit b n)"

definition alignUp :: "word_t \<Rightarrow> word_t \<Rightarrow> word_t" where
  "alignUp baseValue alignment =
     (baseValue + (BIT (unat alignment) - 1)) AND NOT (MASK (unat alignment))"

definition clearMemory :: "word_t \<Rightarrow> nat \<Rightarrow> kstate \<Rightarrow> kstate" where
  "clearMemory ptr bits s =
     (let cleared = (\<lambda>p. p - ptr < BIT bits)
      in s\<lparr>ctes := \<lambda>p. if cleared p then zero_cte else ctes s p,
           tcbs := \<lambda>p. if cleared p then zero_tcb else tcbs s p,
           eps := \<lambda>p. if cleared p then zero_endpoint else eps s p,
           ntfns := \<lambda>p. if cleared p then zero_notification else ntfns s p,
           scs := \<lambda>p. if cleared p then zero_sched_context else scs s p,
           replies := \<lambda>p. if cleared p then zero_reply else replies s p,
           ptes := \<lambda>p. if cleared p then zero_pte else ptes s p,
           asid_pools := \<lambda>p. if cleared p then (\<lambda>_. 0) else asid_pools s p,
           user_words := \<lambda>p. if cleared p then 0 else user_words s p\<rparr>)"

definition preemptionPoint :: "bool \<Rightarrow> ticks_t \<Rightarrow> kstate \<Rightarrow> exception \<times> kstate" where
  "preemptionPoint irqPending now s =
     (let s = s\<lparr>ksWorkUnitsCompleted := ksWorkUnitsCompleted s + 1\<rparr>
      in if ksWorkUnitsCompleted s \<ge> CONFIG_MAX_NUM_WORK_UNITS_PER_PREEMPTION then
           let s = s\<lparr>ksWorkUnitsCompleted := 0\<rparr>;
               s = updateTimestamp now s
           in if irqPending \<or> isCurDomainExpired s \<or>
                \<not> (sc_active (scs s (ksCurSC s)) \<and> refill_sufficient (scs s (ksCurSC s)) (ksConsumed s))
              then (EXCEPTION_PREEMPTED, s) else (EXCEPTION_NONE, s)
         else (EXCEPTION_NONE, s))"

text \<open>One round of the loop of \<open>resetUntypedCap\<close>: offset, preemption points passed, status, state.\<close>

type_synonym reset_state = "word_t \<times> nat \<times> exception \<times> kstate"

definition reset_guard :: "reset_state \<Rightarrow> bool" where
  "reset_guard = (\<lambda>(offset, _, status, _).
     offset \<noteq> - BIT CONFIG_RESET_CHUNK_BITS \<and> status = EXCEPTION_NONE)"

definition reset_body :: "(nat \<Rightarrow> bool \<times> ticks_t) \<Rightarrow> word_t \<Rightarrow> cap \<Rightarrow> reset_state \<Rightarrow> reset_state" where
  "reset_body env srcSlot prev_cap = (\<lambda>(offset, k, _, s).
     let s = clearMemory (GET_OFFSET_FREE_PTR (capPtr prev_cap) offset) CONFIG_RESET_CHUNK_BITS s;
         s = set_cap srcSlot (cap_untyped_cap_set_capFreeIndex prev_cap (OFFSET_TO_FREE_INDEX offset)) s;
         (status, s) = preemptionPoint (fst (env k)) (snd (env k)) s
     in (offset - BIT CONFIG_RESET_CHUNK_BITS, Suc k, status, s))"

definition resetUntypedCap ::
  "(nat \<Rightarrow> bool \<times> ticks_t) \<Rightarrow> word_t \<Rightarrow> kstate \<Rightarrow> (exception \<times> kstate) option" where
  "resetUntypedCap env srcSlot s =
     (let prev_cap = cte_cap (ctes s srcSlot);
          block_size = capBlockSize prev_cap;
          regionBase = capPtr prev_cap;
          offset = FREE_INDEX_TO_OFFSET (capFreeIndex prev_cap);
          deviceMemory = capIsDevice prev_cap
      in if offset = 0 then Some (EXCEPTION_NONE, s)
         else if deviceMemory \<or> block_size < of_nat CONFIG_RESET_CHUNK_BITS then
           let s = (if \<not> deviceMemory then clearMemory regionBase (unat block_size) s else s)
           in Some (EXCEPTION_NONE, set_cap srcSlot (cap_untyped_cap_set_capFreeIndex prev_cap 0) s)
         else
           map_option (\<lambda>(_, _, status, s). (status, s))
             (while_option reset_guard (reset_body env srcSlot prev_cap)
               (ROUND_DOWN (offset - 1) CONFIG_RESET_CHUNK_BITS, 0, EXCEPTION_NONE, s)))"

definition invokeUntyped_Retype ::
  "(nat \<Rightarrow> bool \<times> ticks_t) \<Rightarrow> word_t \<Rightarrow> bool \<Rightarrow> word_t \<Rightarrow> word_t \<Rightarrow> word_t \<Rightarrow> word_t \<Rightarrow> word_t \<Rightarrow> word_t \<Rightarrow>
     bool \<Rightarrow> kstate \<Rightarrow> (exception \<times> kstate) option" where
  "invokeUntyped_Retype env srcSlot reset retypeBase newType userSize destCNode destOffset destLength
     deviceMemory s = do {
     let regionBase = capPtr (cte_cap (ctes s srcSlot));
     (status, s) \<leftarrow> (if reset then resetUntypedCap env srcSlot s else Some (EXCEPTION_NONE, s));
     if status \<noteq> EXCEPTION_NONE then Some (status, s)
     else do {
       let totalObjectSize = push_bit (unat (getObjectSize newType userSize)) destLength;
       let freeRef = retypeBase + totalObjectSize;
       let s = set_cap srcSlot (cap_untyped_cap_set_capFreeIndex (cte_cap (ctes s srcSlot))
                 (GET_FREE_INDEX regionBase freeRef)) s;
       s \<leftarrow> createNewObjects newType srcSlot destCNode destOffset destLength retypeBase userSize deviceMemory s;
       Some (EXCEPTION_NONE, s)
     }
   }"

text \<open>The loop over the destination window; the last argument but one counts the slots left.\<close>

fun ensureEmptySlots :: "word_t \<Rightarrow> word_t \<Rightarrow> nat \<Rightarrow> kstate \<Rightarrow> exception \<times> kstate" where
  "ensureEmptySlots destCNode i 0 s = (EXCEPTION_NONE, s)"
| "ensureEmptySlots destCNode i (Suc n) s =
     (let (status, s) = ensureEmptySlot (slot_at destCNode i) s
      in if status \<noteq> EXCEPTION_NONE then (status, s) else ensureEmptySlots destCNode (i + 1) n s)"

text \<open>
  The decoding is in three steps: the arguments, the destination, and the space. The
  destination step returns the CNode that receives the new capabilities.
\<close>

definition untyped_args_ok :: "word_t \<Rightarrow> word_t \<Rightarrow> kstate \<Rightarrow> exception \<times> kstate" where
  "untyped_args_ok newType userObjSize s =
     (let objectSize = getObjectSize newType userObjSize
      in if newType \<ge> seL4_ObjectTypeCount then
           syscall_fail (\<lambda>e. e\<lparr>err_type := seL4_InvalidArgument, invalidArgumentNumber := 0\<rparr>) s
         else if userObjSize \<ge> of_nat wordBits \<or> objectSize > of_nat seL4_MaxUntypedBits then
           syscall_fail (\<lambda>e. e\<lparr>err_type := seL4_RangeError, rangeErrorMin := 0,
             rangeErrorMax := of_nat seL4_MaxUntypedBits\<rparr>) s
         else if newType = seL4_CapTableObject \<and> userObjSize = 0 then
           syscall_fail (\<lambda>e. e\<lparr>err_type := seL4_InvalidArgument, invalidArgumentNumber := 1\<rparr>) s
         else if newType = seL4_UntypedObject \<and> userObjSize < of_nat seL4_MinUntypedBits then
           syscall_fail (\<lambda>e. e\<lparr>err_type := seL4_InvalidArgument, invalidArgumentNumber := 1\<rparr>) s
         else if newType = seL4_SchedContextObject \<and> userObjSize < of_nat seL4_MinSchedContextBits then
           syscall_fail (\<lambda>e. e\<lparr>err_type := seL4_InvalidArgument, invalidArgumentNumber := 1\<rparr>) s
         else (EXCEPTION_NONE, s))"

definition untyped_node :: "word_t \<Rightarrow> word_t \<Rightarrow> word_t \<Rightarrow> kstate \<Rightarrow> (exception \<times> cap \<times> kstate) option" where
  "untyped_node rootSlot nodeIndex nodeDepth s =
     (let rootCap = cte_cap (ctes s rootSlot)
      in if nodeDepth = 0 then Some (EXCEPTION_NONE, rootCap, s)
         else do {
           (lu_ret, s) \<leftarrow> lookupTargetSlot rootCap nodeIndex nodeDepth s;
           Some (if ls_status lu_ret \<noteq> EXCEPTION_NONE then (ls_status lu_ret, cap_null_cap, s)
                 else (EXCEPTION_NONE, cte_cap (ctes s (ls_slot lu_ret)), s))
         })"

definition untyped_dest ::
  "word_t \<Rightarrow> word_t \<Rightarrow> word_t \<Rightarrow> word_t \<Rightarrow> word_t \<Rightarrow> kstate \<Rightarrow> (exception \<times> cap \<times> kstate) option" where
  "untyped_dest rootSlot nodeIndex nodeDepth nodeOffset nodeWindow s = do {
     (status, nodeCap, s) \<leftarrow> untyped_node rootSlot nodeIndex nodeDepth s;
     let nodeSize = BIT (unat (capCNodeRadix nodeCap));
     let fail = (\<lambda>f. case syscall_fail f s of (status, s) \<Rightarrow> (status, nodeCap, s));
     Some (if status \<noteq> EXCEPTION_NONE then (status, nodeCap, s)
       else if \<not> is_cap_cnode_cap nodeCap then
         (case syscall_fail (\<lambda>e. e\<lparr>err_type := seL4_FailedLookup, failedLookupWasSource := False\<rparr>) s of
            (status, s) \<Rightarrow> (status, nodeCap, s\<lparr>current_lookup_fault := missing_capability nodeDepth\<rparr>))
       else if nodeOffset > nodeSize - 1 then
         fail (\<lambda>e. e\<lparr>err_type := seL4_RangeError, rangeErrorMin := 0, rangeErrorMax := nodeSize - 1\<rparr>)
       else if nodeWindow < 1 \<or> nodeWindow > CONFIG_RETYPE_FAN_OUT_LIMIT then
         fail (\<lambda>e. e\<lparr>err_type := seL4_RangeError, rangeErrorMin := 1,
           rangeErrorMax := CONFIG_RETYPE_FAN_OUT_LIMIT\<rparr>)
       else if nodeWindow > nodeSize - nodeOffset then
         fail (\<lambda>e. e\<lparr>err_type := seL4_RangeError, rangeErrorMin := 1, rangeErrorMax := nodeSize - nodeOffset\<rparr>)
       else
         case ensureEmptySlots (capCNodePtr nodeCap) nodeOffset (unat nodeWindow) s of
           (status, s) \<Rightarrow> (status, nodeCap, s))
   }"

definition untyped_space ::
  "(nat \<Rightarrow> bool \<times> ticks_t) \<Rightarrow> word_t \<Rightarrow> cap \<Rightarrow> word_t \<Rightarrow> word_t \<Rightarrow> cap \<Rightarrow> word_t \<Rightarrow> word_t \<Rightarrow> kstate \<Rightarrow>
     (exception \<times> kstate) option" where
  "untyped_space env slot cap newType userObjSize nodeCap nodeOffset nodeWindow s =
     (let objectSize = getObjectSize newType userObjSize;
          (status, s) = ensureNoChildren slot s;
          reset = (status = EXCEPTION_NONE);
          freeIndex = (if reset then 0 else capFreeIndex cap);
          freeRef = GET_FREE_REF (capPtr cap) freeIndex;
          untypedFreeBytes = BIT (unat (capBlockSize cap)) - FREE_INDEX_TO_OFFSET freeIndex
      in if drop_bit (unat objectSize) untypedFreeBytes < nodeWindow then
           Some (syscall_fail (\<lambda>e. e\<lparr>err_type := seL4_NotEnoughMemory, memoryLeft := untypedFreeBytes\<rparr>) s)
         else if (capIsDevice cap \<and> \<not> Arch_isFrameType newType) \<and> newType \<noteq> seL4_UntypedObject then
           Some (syscall_fail (\<lambda>e. e\<lparr>err_type := seL4_InvalidArgument, invalidArgumentNumber := 1\<rparr>) s)
         else
           let alignedFreeRef = alignUp freeRef objectSize;
               s = setThreadState (ksCurThread s) ThreadState_Restart s
           in invokeUntyped_Retype env slot reset alignedFreeRef newType userObjSize
                (capCNodePtr nodeCap) nodeOffset nodeWindow (capIsDevice cap) s)"

definition decodeUntypedInvocation ::
  "(nat \<Rightarrow> bool \<times> ticks_t) \<Rightarrow> invocation_label \<Rightarrow> word_t \<Rightarrow> word_t \<Rightarrow> cap \<Rightarrow> bool \<Rightarrow> word_t \<Rightarrow> kstate \<Rightarrow>
     (exception \<times> kstate) option" where
  "decodeUntypedInvocation env invLabel len slot cap call buffer s =
     (if invLabel \<noteq> UntypedRetype then
        Some (syscall_fail (\<lambda>e. e\<lparr>err_type := seL4_IllegalOperation\<rparr>) s)
      else if len < 6 \<or> current_extra_caps s 0 = 0 then
        Some (syscall_fail (\<lambda>e. e\<lparr>err_type := seL4_TruncatedMessage\<rparr>) s)
      else do {
        let newType = getSyscallArg 0 buffer s;
        let userObjSize = getSyscallArg 1 buffer s;
        let nodeIndex = getSyscallArg 2 buffer s;
        let nodeDepth = getSyscallArg 3 buffer s;
        let nodeOffset = getSyscallArg 4 buffer s;
        let nodeWindow = getSyscallArg 5 buffer s;
        let (status, s) = untyped_args_ok newType userObjSize s;
        if status \<noteq> EXCEPTION_NONE then Some (status, s)
        else do {
          (status, nodeCap, s) \<leftarrow>
            untyped_dest (current_extra_caps s 0) nodeIndex nodeDepth nodeOffset nodeWindow s;
          if status \<noteq> EXCEPTION_NONE then Some (status, s)
          else untyped_space env slot cap newType userObjSize nodeCap nodeOffset nodeWindow s
        }
      })"

section \<open>Regions of memory\<close>

lemma word_interval:
  assumes "unat (off :: word_t) + 2 ^ b \<le> 2 ^ 64" and "b < 64"
  shows "x - off < BIT b \<longleftrightarrow> unat off \<le> unat x \<and> unat x < unat off + 2 ^ b"
proof (cases "unat off \<le> unat x")
  case True
  then have "unat (x - off) = unat x - unat off" by (intro unat_sub_no_underflow) (simp add: word_le_nat_alt)
  then show ?thesis using True assms(2) by (auto simp: word_less_nat_alt unat_BIT)
next
  case False
  have "unat (x - off) = (unat x + (2 ^ 64 - unat off)) mod 2 ^ 64"
    using unat_sub_if' [of x off] False unat_word64_less [of x] unat_word64_less [of off] by auto
  moreover have "unat x + (2 ^ 64 - unat off) < 2 ^ 64" using False unat_word64_less [of off] by auto
  ultimately have "2 ^ b \<le> unat (x - off)" using assms(1) by simp
  then show ?thesis using False assms(2) by (auto simp: word_less_nat_alt unat_BIT)
qed

text \<open>What memory holds at an address, whatever the object there.\<close>

definition obj_at :: "kstate \<Rightarrow> word_t \<Rightarrow>
    cte \<times> tcb \<times> endpoint \<times> notification \<times> sched_context \<times> reply \<times> pte \<times> asid_pool \<times> word_t" where
  "obj_at s p = (ctes s p, tcbs s p, eps s p, ntfns s p, scs s p, replies s p, ptes s p, asid_pools s p, user_words s p)"

definition zero_obj :: "cte \<times> tcb \<times> endpoint \<times> notification \<times> sched_context \<times> reply \<times> pte \<times> asid_pool \<times> word_t" where
  "zero_obj = (zero_cte, zero_tcb, zero_endpoint, zero_notification, zero_sched_context, zero_reply, zero_pte, (\<lambda>_. 0), 0)"

lemma obj_at_clearMemory:
  "obj_at (clearMemory ptr b s) p = (if p - ptr < BIT b then zero_obj else obj_at s p)"
  by (simp add: obj_at_def zero_obj_def clearMemory_def Let_def)

lemma obj_at_set_cap: "obj_at (set_cap q c s) p =
    (if p = q then (case obj_at s p of (cte, rest) \<Rightarrow> (cte\<lparr>cte_cap := c\<rparr>, rest)) else obj_at s p)"
  by (simp add: obj_at_def set_cap_def upd_cte_def)

lemma preemptionPoint_frame:
  assumes "preemptionPoint irq now s = (e, s')"
  shows "obj_at s' p = obj_at s p" "cap_at s' = cap_at s" "ctes s' = ctes s" "e \<in> {EXCEPTION_NONE, EXCEPTION_PREEMPTED}"
  using assms
  by (auto simp: preemptionPoint_def updateTimestamp_def obj_at_def cap_at_def Let_def fun_eq_iff split: if_splits)

section \<open>Clearing\<close>

lemma BIT_chunk: "BIT CONFIG_RESET_CHUNK_BITS = 256"
  by (simp add: CONFIG_RESET_CHUNK_BITS_def BIT_def)

text \<open>
  The loop invariant: \<open>m\<close> chunks are left, everything from the end of those to the end of
  the first chunk is zero, and the capability says so.
\<close>

definition reset_inv :: "nat \<Rightarrow> word_t \<Rightarrow> cap \<Rightarrow> kstate \<Rightarrow> nat \<Rightarrow> reset_state \<Rightarrow> bool" where
  "reset_inv m0 slot c s0 m = (\<lambda>(offset, k, status, s).
     m \<le> m0 \<and> offset = of_nat (256 * m) - 256 \<and> status \<in> {EXCEPTION_NONE, EXCEPTION_PREEMPTED} \<and>
     (m = m0 \<longrightarrow> status = EXCEPTION_NONE) \<and>
     cap_at s slot = (if m = m0 then c else cap_untyped_cap_set_capFreeIndex c (of_nat (16 * m))) \<and>
     cteMDBNode (ctes s slot) = cteMDBNode (ctes s0 slot) \<and>
     (\<forall>p. p \<noteq> slot \<longrightarrow> obj_at s p =
       (if 256 * m \<le> unat (p - capPtr c) \<and> unat (p - capPtr c) < 256 * m0 then zero_obj else obj_at s0 p)))"

lemma chunk_start:
  assumes "256 * Suc m < 2 ^ 63"
  shows "(of_nat (256 * Suc m) - 256 :: word_t) = of_nat (256 * m)" "unat (of_nat (256 * m) :: word_t) = 256 * m"
    "drop_bit 4 (of_nat (256 * m) :: word_t) = of_nat (16 * m)"
proof -
  show u: "unat (of_nat (256 * m) :: word_t) = 256 * m"
    using assms by (simp add: unat_of_nat del: of_nat_mult)
  show "(of_nat (256 * Suc m) - 256 :: word_t) = of_nat (256 * m)" by simp
  have "unat (drop_bit 4 (of_nat (256 * m) :: word_t)) = 16 * m"
    unfolding unat_drop_bit_eq u by (simp add: drop_bit_eq_div)
  moreover have "unat (of_nat (16 * m) :: word_t) = 16 * m"
    using assms by (simp add: unat_of_nat del: of_nat_mult)
  ultimately show "drop_bit 4 (of_nat (256 * m) :: word_t) = of_nat (16 * m)" by (simp add: word_unat_eq_iff)
qed

lemma reset_body_inv:
  assumes inv: "reset_inv m0 slot c s0 (Suc m) st" and m0: "256 * m0 < 2 ^ 63"
    and out: "256 * m0 \<le> unat (slot - capPtr c)"
  shows "reset_inv m0 slot c s0 m (reset_body env slot c st)"
proof -
  obtain offset k status s where st: "st = (offset, k, status, s)" by (cases st)
  note i = inv [unfolded reset_inv_def st split]
  have "Suc m \<le> m0" using i by blast
  then have le: "256 * Suc m < 2 ^ 63" using m0 by simp
  have off: "offset = of_nat (256 * m)" using i chunk_start(1) [OF le] by simp
  let ?s1 = "clearMemory (capPtr c + offset) 8 s"
  let ?s2 = "set_cap slot (cap_untyped_cap_set_capFreeIndex c (of_nat (16 * m))) ?s1"
  obtain e s3 where s3: "preemptionPoint (fst (env k)) (snd (env k)) ?s2 = (e, s3)" by fastforce
  note fr = preemptionPoint_frame [OF s3]
  have body: "reset_body env slot c st = (offset - 256, Suc k, e, s3)"
    using s3 by (simp add: reset_body_def st BIT_def CONFIG_RESET_CHUNK_BITS_def GET_OFFSET_FREE_PTR_def
        OFFSET_TO_FREE_INDEX_def seL4_MinUntypedBits_def off chunk_start(3) [OF le] del: of_nat_mult)
  have range: "p - (capPtr c + offset) < BIT 8 \<longleftrightarrow> 256 * m \<le> unat (p - capPtr c) \<and> unat (p - capPtr c) < 256 * Suc m" for p
    using word_interval [of offset 8 "p - capPtr c"] le chunk_start(2) [OF le]
    by (simp add: off algebra_simps del: of_nat_mult)
  have old: "obj_at s p = (if 256 * Suc m \<le> unat (p - capPtr c) \<and> unat (p - capPtr c) < 256 * m0
      then zero_obj else obj_at s0 p)" if "p \<noteq> slot" for p using i that by blast
  have "obj_at s3 p = (if 256 * m \<le> unat (p - capPtr c) \<and> unat (p - capPtr c) < 256 * m0 then zero_obj else obj_at s0 p)"
    if "p \<noteq> slot" for p
    unfolding fr(1) obj_at_set_cap obj_at_clearMemory range using old [OF that] that \<open>Suc m \<le> m0\<close> by auto
  moreover have "cteMDBNode (ctes s3 slot) = cteMDBNode (ctes s0 slot)"
    using i range [of slot] out \<open>Suc m \<le> m0\<close> by (simp add: fr(3) clearMemory_def Let_def)
  ultimately show ?thesis using i fr \<open>Suc m \<le> m0\<close> unfolding body reset_inv_def by (simp add: off)
qed

lemma reset_inv_offset:
  assumes "reset_inv m0 slot c s0 m (offset, k, e, s)" and "256 * m0 < 2 ^ 63"
  shows "offset = - 256 \<longleftrightarrow> m = 0"
proof -
  have "offset = of_nat (256 * m) - 256" "m \<le> m0" using assms(1) by (simp_all add: reset_inv_def)
  then have "offset = - 256 \<longleftrightarrow> (of_nat (256 * m) :: word_t) = 0" by simp
  moreover have "unat (of_nat (256 * m) :: word_t) = 256 * m"
    using \<open>m \<le> m0\<close> assms(2) by (simp add: unat_of_nat del: of_nat_mult)
  ultimately show ?thesis by (simp add: unat_eq_0 [symmetric] del: of_nat_mult)
qed

lemma reset_loop:
  assumes m0: "256 * m0 < 2 ^ 63" and out: "256 * m0 \<le> unat (slot - capPtr c)"
  shows "reset_inv m0 slot c s0 m (offset, k, e, s) \<Longrightarrow>
    \<exists>m' offset' k' e' s'. while_option reset_guard (reset_body env slot c) (offset, k, e, s) = Some (offset', k', e', s') \<and>
      reset_inv m0 slot c s0 m' (offset', k', e', s') \<and> (e' = EXCEPTION_NONE \<longrightarrow> m' = 0)"
proof (induction m arbitrary: offset k e s)
  case 0
  then show ?case using reset_inv_offset [OF 0 m0]
    by (simp add: while_option_unfold reset_guard_def BIT_chunk) blast
next
  case (Suc m)
  show ?case
  proof (cases "e = EXCEPTION_NONE")
    case True
    obtain o1 k1 e1 s1 where b: "reset_body env slot c (offset, k, e, s) = (o1, k1, e1, s1)"
      by (metis prod_cases4)
    have "reset_inv m0 slot c s0 m (o1, k1, e1, s1)"
      using reset_body_inv [OF Suc.prems m0 out, of env] b by simp
    from Suc.IH [OF this] show ?thesis
      using reset_inv_offset [OF Suc.prems m0] True b
      by (subst while_option_unfold) (simp add: reset_guard_def BIT_chunk)
  next
    case False
    then show ?thesis using Suc.prems by (simp add: while_option_unfold reset_guard_def) blast
  qed
qed

text \<open>
  The invariant of untyped capabilities: between 16 bytes and 256 gigabytes of memory,
  aligned to its size, with a free index inside the region.
\<close>

definition untyped_wf :: "cap \<Rightarrow> bool" where
  "untyped_wf c = (case c of
      cap_untyped_cap idx dev bits base \<Rightarrow>
        seL4_MinUntypedBits \<le> unat bits \<and> unat bits \<le> seL4_MaxUntypedBits \<and>
        unat idx \<le> 2 ^ (unat bits - seL4_MinUntypedBits) \<and> is_aligned base (unat bits)
    | _ \<Rightarrow> True)"

lemma untyped_wfD:
  assumes "untyped_wf (cap_untyped_cap idx dev bits base)"
  shows "4 \<le> unat bits" "unat bits \<le> 38" "16 * unat idx \<le> 2 ^ unat bits" "is_aligned base (unat bits)"
    "unat (FREE_INDEX_TO_OFFSET idx) = 16 * unat idx" "16 * unat idx < 2 ^ 39"
proof -
  have b: "4 \<le> unat bits" "unat bits \<le> 38" and i: "unat idx \<le> 2 ^ (unat bits - 4)"
    using assms by (simp_all add: untyped_wf_def size_bits_defs)
  show "4 \<le> unat bits" "unat bits \<le> 38" "is_aligned base (unat bits)" using assms by (simp_all add: untyped_wf_def size_bits_defs)
  have "(2 :: nat) ^ unat bits = 16 * 2 ^ (unat bits - 4)"
    using b(1) power_add [of "2 :: nat" 4 "unat bits - 4"] by simp
  then show le: "16 * unat idx \<le> 2 ^ unat bits" using i by simp
  have "(2 :: nat) ^ unat bits \<le> 2 ^ 38" using b(2) by (intro power_increasing) simp_all
  then show lt: "16 * unat idx < 2 ^ 39" using le by simp
  then show "unat (FREE_INDEX_TO_OFFSET idx) = 16 * unat idx"
    by (simp add: FREE_INDEX_TO_OFFSET_def seL4_MinUntypedBits_def push_bit_eq_mult unat_word_ariths)
qed

lemma round_down_chunk:
  assumes "unat off = n" and "0 < n" "n < 2 ^ 39"
  shows "ROUND_DOWN (off - 1) 8 = of_nat (256 * ((n - 1) div 256 + 1)) - 256"
proof -
  have "off \<noteq> 0" using assms by auto
  then have o: "unat (off - 1) = n - 1" using assms(1) by (simp add: unat_minus_one)
  have "unat (push_bit 8 (drop_bit 8 (off - 1)) :: word_t) = 256 * ((n - 1) div 256)"
    using assms(3) o by (simp add: push_bit_eq_mult unat_word_ariths unat_drop_bit_eq drop_bit_eq_div)
  then have "push_bit 8 (drop_bit 8 (off - 1)) = (of_nat (256 * ((n - 1) div 256)) :: word_t)"
    using assms(3) by (simp add: word_unat_eq_iff unat_of_nat del: of_nat_mult)
  then show ?thesis by (simp add: ROUND_DOWN_def)
qed

text \<open>
  Memory is cleared up to the end of the used part, rounded up to a whole chunk of 256 bytes; a region
  smaller than a chunk is cleared whole, and an unused one not at all.
\<close>

definition reset_end :: "word_t \<Rightarrow> word_t \<Rightarrow> nat" where
  "reset_end idx bits =
     (if idx = 0 then 0 else if unat bits < CONFIG_RESET_CHUNK_BITS then 2 ^ unat bits
      else 256 * ((16 * unat idx + 255) div 256))"

lemma reset_end_bounds:
  assumes "16 * unat idx \<le> 2 ^ unat bits"
  shows "16 * unat idx \<le> reset_end idx bits" "reset_end idx bits \<le> 2 ^ unat bits"
proof -
  have "256 * ((16 * unat idx + 255) div 256) \<le> 2 ^ unat bits" if b: "8 \<le> unat bits"
  proof -
    obtain d where d: "(2 :: nat) ^ unat bits = 256 * d"
      using b power_add [of "2 :: nat" 8 "unat bits - 8"] by auto
    then have "16 * unat idx + 255 < Suc d * 256" using assms by simp
    then have "(16 * unat idx + 255) div 256 < Suc d" by (rule less_mult_imp_div_less)
    then show ?thesis using d by simp
  qed
  then show "reset_end idx bits \<le> 2 ^ unat bits" by (auto simp: reset_end_def CONFIG_RESET_CHUNK_BITS_def)
  show "16 * unat idx \<le> reset_end idx bits" using assms by (auto simp: reset_end_def)
qed

text \<open>What \<open>resetUntypedCap\<close> did, down to the unit \<open>m\<close> of 16 bytes.\<close>

definition cleared_down_to :: "nat \<Rightarrow> word_t \<Rightarrow> kstate \<Rightarrow> kstate \<Rightarrow> bool" where
  "cleared_down_to m slot s s' = (case cap_at s slot of
      cap_untyped_cap idx dev bits base \<Rightarrow>
        cap_at s' slot = cap_untyped_cap (of_nat m) dev bits base \<and>
        cteMDBNode (ctes s' slot) = cteMDBNode (ctes s slot) \<and>
        (\<forall>p. p \<noteq> slot \<longrightarrow>
          obj_at s' p = (if \<not> dev \<and> 16 * m \<le> unat (p - base) \<and> unat (p - base) < reset_end idx bits
            then zero_obj else obj_at s p)) \<and>
        16 * unat idx \<le> reset_end idx bits \<and> reset_end idx bits \<le> 2 ^ unat bits
    | _ \<Rightarrow> False)"

lemma reset_chunks:
  assumes c: "cap_at s slot = cap_untyped_cap idx False bits base" and wf: "untyped_wf (cap_at s slot)"
    and out: "2 ^ unat bits \<le> unat (slot - base)" and "8 \<le> unat bits" "idx \<noteq> 0"
  shows "\<exists>e s' m. resetUntypedCap env slot s = Some (e, s') \<and> e \<in> {EXCEPTION_NONE, EXCEPTION_PREEMPTED} \<and>
    cleared_down_to m slot s s' \<and> (e = EXCEPTION_NONE \<longrightarrow> m = 0) \<and> (e = EXCEPTION_PREEMPTED \<longrightarrow> m < unat idx)"
proof -
  note w = untyped_wfD [OF wf [unfolded c]]
  let ?c = "cap_untyped_cap idx False bits base"
  define n where "n = 16 * unat idx"
  define m0 where "m0 = (n - 1) div 256 + 1"
  have n: "0 < n" "n < 2 ^ 39" "unat (FREE_INDEX_TO_OFFSET idx) = n"
    using w(5,6) assms(5) by (simp_all add: n_def unat_gt_0)
  obtain d where d: "(2 :: nat) ^ unat bits = 256 * d"
    using assms(4) power_add [of "2 :: nat" 8 "unat bits - 8"] by auto
  then have "n - 1 < d * 256" using w(3) n(1) by (simp add: n_def)
  then have "(n - 1) div 256 < d" by (rule less_mult_imp_div_less)
  then have m0: "256 * m0 \<le> 2 ^ unat bits" "n \<le> 256 * m0" "256 * (m0 - 1) < n" "256 * m0 < 2 ^ 63"
    using n d by (auto simp: m0_def)
  have "n + 255 = (n - 1) + 256" using n(1) by simp
  then have "(n + 255) div 256 = m0" unfolding m0_def by (simp only: div_add_self2)
  then have e0: "reset_end idx bits = 256 * m0"
    using assms(4,5) by (simp add: reset_end_def CONFIG_RESET_CHUNK_BITS_def n_def)
  have start: "reset_inv m0 slot ?c s m0 (ROUND_DOWN (FREE_INDEX_TO_OFFSET idx - 1) 8, 0, EXCEPTION_NONE, s)"
    using round_down_chunk [OF n(3,1,2)] c by (auto simp: reset_inv_def m0_def)
  have "256 * m0 \<le> unat (slot - capPtr ?c)" using m0(1) out by simp
  from reset_loop [OF m0(4) this start] obtain m off k e s' where
    loop: "while_option reset_guard (reset_body env slot ?c)
      (ROUND_DOWN (FREE_INDEX_TO_OFFSET idx - 1) 8, 0, EXCEPTION_NONE, s) = Some (off, k, e, s')"
    and inv: "reset_inv m0 slot ?c s m (off, k, e, s')" and z: "e = EXCEPTION_NONE \<longrightarrow> m = 0" by blast
  have "FREE_INDEX_TO_OFFSET idx \<noteq> 0" "\<not> bits < of_nat CONFIG_RESET_CHUNK_BITS"
    using n(1,3) assms(4) by (auto simp: word_less_nat_alt CONFIG_RESET_CHUNK_BITS_def)
  then have run: "resetUntypedCap env slot s = Some (e, s')"
    using loop c by (simp add: resetUntypedCap_def cap_at_def CONFIG_RESET_CHUNK_BITS_def Let_def)
  have inv': "e \<in> {EXCEPTION_NONE, EXCEPTION_PREEMPTED}" "e \<noteq> EXCEPTION_NONE \<longrightarrow> m < m0" "m \<le> m0"
    "cap_at s' slot = (if m = m0 then ?c else cap_untyped_cap (of_nat (16 * m)) False bits base)"
    "cteMDBNode (ctes s' slot) = cteMDBNode (ctes s slot)"
    "\<And>p. p \<noteq> slot \<Longrightarrow> obj_at s' p = (if 256 * m \<le> unat (p - base) \<and> unat (p - base) < 256 * m0 then zero_obj else obj_at s p)"
    using inv by (auto simp: reset_inv_def cap_untyped_cap_set_capFreeIndex_def le_less)
  have lt: "m < m0" using inv'(1,2) z m0(3) n(1) by (auto simp: m0_def)
  have "16 * m < unat idx" if "e = EXCEPTION_PREEMPTED"
  proof -
    have "256 * m \<le> 256 * (m0 - 1)" using lt by simp
    then show ?thesis using m0(3) by (simp add: n_def)
  qed
  moreover have "cleared_down_to (16 * m) slot s s'"
    unfolding cleared_down_to_def c using inv'(4-6) lt reset_end_bounds [OF w(3)] e0 by auto
  ultimately show ?thesis using run inv'(1) z by (intro exI [of _ e] exI [of _ s'] exI [of _ "16 * m"]) auto
qed

lemma reset_correct:
  assumes c: "cap_at s slot = cap_untyped_cap idx dev bits base" and wf: "untyped_wf (cap_at s slot)"
    and out: "2 ^ unat bits \<le> unat (slot - base)"
  shows "\<exists>e s' m. resetUntypedCap env slot s = Some (e, s') \<and> e \<in> {EXCEPTION_NONE, EXCEPTION_PREEMPTED} \<and>
    cleared_down_to m slot s s' \<and> (e = EXCEPTION_NONE \<longrightarrow> m = 0) \<and> (e = EXCEPTION_PREEMPTED \<longrightarrow> m < unat idx)"
proof -
  note w = untyped_wfD [OF wf [unfolded c]]
  have zero: "FREE_INDEX_TO_OFFSET idx = 0 \<longleftrightarrow> idx = 0" using w(5) by (auto simp: unat_eq_0 [symmetric])
  consider "idx = 0" | "idx \<noteq> 0" "dev \<or> unat bits < 8" | "idx \<noteq> 0" "\<not> dev" "8 \<le> unat bits" by linarith
  then show ?thesis
  proof cases
    case 1
    have "resetUntypedCap env slot s = Some (EXCEPTION_NONE, s)"
      using c zero 1 by (simp add: resetUntypedCap_def cap_at_def Let_def)
    moreover have "cleared_down_to 0 slot s s" using c 1 by (simp add: cleared_down_to_def reset_end_def)
    ultimately show ?thesis by blast
  next
    case 2
    let ?s = "set_cap slot (cap_untyped_cap 0 dev bits base) (if dev then s else clearMemory base (unat bits) s)"
    have "dev \<or> bits < 8" using 2(2) by (auto simp: word_less_nat_alt)
    then have "resetUntypedCap env slot s = Some (EXCEPTION_NONE, ?s)"
      using c zero 2(1) by (auto simp: resetUntypedCap_def cap_at_def Let_def CONFIG_RESET_CHUNK_BITS_def
          cap_untyped_cap_set_capFreeIndex_def)
    moreover have r: "p - base < BIT (unat bits) \<longleftrightarrow> unat (p - base) < 2 ^ unat bits" for p
      using w(2) by (simp add: word_less_nat_alt unat_BIT)
    have "cteMDBNode (ctes ?s slot) = cteMDBNode (ctes s slot)" using out by (simp add: clearMemory_def Let_def r)
    with r have "cleared_down_to 0 slot s ?s"
      unfolding cleared_down_to_def c using reset_end_bounds [OF w(3)] 2
      by (auto simp: obj_at_set_cap obj_at_clearMemory reset_end_def CONFIG_RESET_CHUNK_BITS_def)
    ultimately show ?thesis by blast
  next
    case 3
    then show ?thesis using reset_chunks [of s slot idx bits base] c wf out by simp
  qed
qed

text \<open>
  C28: Clearing untyped memory always returns, however interrupts arrive. If it completes,
  the free index is 0. If it is preempted, the free index has
  decreased, so that repeating the call finishes the work. Memory is zero
  from the new free index up to the old one, rounded up to a whole chunk of 256 bytes (to the whole
  region if that is smaller than a chunk), which lies within the region; all other memory keeps its contents,
  device memory included, and the capability keeps its place in the derivation tree. The capability is
  assumed to be well formed and not to lie in the region it describes.
\<close>

theorem resetUntypedCap_returns:
  assumes "cap_at s slot = cap_untyped_cap idx dev bits base" and "untyped_wf (cap_at s slot)"
    and "2 ^ unat bits \<le> unat (slot - base)"
  shows "\<exists>e s' m. resetUntypedCap env slot s = Some (e, s') \<and> e \<in> {EXCEPTION_NONE, EXCEPTION_PREEMPTED} \<and>
    cap_at s' slot = cap_untyped_cap (of_nat m) dev bits base \<and>
    cteMDBNode (ctes s' slot) = cteMDBNode (ctes s slot) \<and>
    (e = EXCEPTION_NONE \<longrightarrow> m = 0) \<and> (e = EXCEPTION_PREEMPTED \<longrightarrow> m < unat idx) \<and>
    (\<forall>p. p \<noteq> slot \<longrightarrow>
      obj_at s' p = (if \<not> dev \<and> 16 * m \<le> unat (p - base) \<and> unat (p - base) < reset_end idx bits
        then zero_obj else obj_at s p)) \<and>
    16 * unat idx \<le> reset_end idx bits \<and> reset_end idx bits \<le> 2 ^ unat bits"
proof -
  obtain e s' m where "resetUntypedCap env slot s = Some (e, s')" "e \<in> {EXCEPTION_NONE, EXCEPTION_PREEMPTED}"
    "e = EXCEPTION_NONE \<longrightarrow> m = 0" "e = EXCEPTION_PREEMPTED \<longrightarrow> m < unat idx" and c: "cleared_down_to m slot s s'"
    using reset_correct [OF assms] by blast
  moreover note c [unfolded cleared_down_to_def assms(1), simplified]
  ultimately show ?thesis by (intro exI [of _ e] exI [of _ s'] exI [of _ m]) simp
qed

definition used_untyped :: kstate where
  "used_untyped = zero_state\<lparr>ctes := (\<lambda>_. zero_cte)(0x20 := \<lparr>cte_cap = cap_untyped_cap 64 False 12 0x10000,
     cteMDBNode = nullMDBNode\<rparr>), user_words := (\<lambda>_. 0)(0x10008 := 42)\<rparr>"

theorem resetUntypedCap_returns_witness:
  "\<exists>e s' m. resetUntypedCap (\<lambda>_. (True, 0)) 0x20 used_untyped = Some (e, s') \<and>
     cap_at s' 0x20 = cap_untyped_cap (of_nat m) False 12 0x10000 \<and> (e = EXCEPTION_NONE \<longrightarrow> user_words s' 0x10008 = 0) \<and>
     obj_at s' 0x10400 = obj_at used_untyped 0x10400"
proof -
  have c: "cap_at used_untyped 0x20 = cap_untyped_cap 64 False 12 0x10000"
    by (simp add: used_untyped_def cap_at_def)
  moreover have "untyped_wf (cap_at used_untyped 0x20)"
    by (simp add: c untyped_wf_def size_bits_defs is_aligned_def)
  moreover have "reset_end 64 12 = 1024" by (simp add: reset_end_def CONFIG_RESET_CHUNK_BITS_def)
  ultimately obtain e s' m where r: "resetUntypedCap (\<lambda>_. (True, 0)) 0x20 used_untyped = Some (e, s')"
    "cap_at s' 0x20 = cap_untyped_cap (of_nat m) False 12 0x10000" "e = EXCEPTION_NONE \<longrightarrow> m = 0"
    and o: "\<And>p. p \<noteq> 0x20 \<Longrightarrow> obj_at s' p = (if 16 * m \<le> unat (p - 0x10000) \<and> unat (p - 0x10000) < 1024
        then zero_obj else obj_at used_untyped p)"
    using resetUntypedCap_returns [of used_untyped "0x20" 64 False 12 "0x10000" "\<lambda>_. (True, 0)"] by auto
  show ?thesis using r o [of "0x10008"] o [of "0x10400"] by (auto simp: obj_at_def zero_obj_def)
qed

section \<open>Space\<close>

lemma round_up_fits:
  fixes a n sz k :: nat
  assumes "0 < sz" and "n * sz \<le> k * sz - a" and "0 < n"
  defines "u \<equiv> (a + sz - 1) div sz * sz"
  shows "a \<le> u" "u + n * sz \<le> k * sz" "sz dvd u" "a + sz \<le> k * sz"
proof -
  let ?q = "(a + sz - 1) div sz"
  have q: "u \<le> a + sz - 1" "a + sz - 1 < u + sz"
    using assms(1) div_times_less_eq_dividend [of "a + sz - 1" sz] dividend_less_div_times [of sz "a + sz - 1"]
    by (simp_all add: u_def add.commute)
  show "a \<le> u" using q(2) by linarith
  show "sz dvd u" by (simp add: u_def)
  have "sz \<le> n * sz" using assms(3) by simp
  then show le: "a + sz \<le> k * sz" using assms(1,2) by linarith
  have "u + n * sz \<le> a + sz - 1 + (k * sz - a)" using q(1) assms(2) by linarith
  also have "\<dots> < (k + 1) * sz" using assms(1) le by simp
  finally have "(?q + n) * sz < (k + 1) * sz" by (simp add: u_def algebra_simps)
  then have "?q + n \<le> k" using mult_less_cancel2 [of "?q + n" sz "k + 1"] by simp
  then have "(?q + n) * sz \<le> k * sz" by simp
  then show "u + n * sz \<le> k * sz" by (simp add: u_def add_mult_distrib)
qed

lemma unat_and_not_mask: "n < 64 \<Longrightarrow> unat (x AND NOT (MASK n)) = unat x div 2 ^ n * 2 ^ n"
proof -
  assume n: "n < 64"
  have "x AND NOT (MASK n) = push_bit n (drop_bit n x)"
    by (rule bit_word_eqI) (auto simp: and_not_mask_bits bit_push_bit_iff bit_drop_bit_eq)
  moreover have "unat (2 ^ n :: word_t) = 2 ^ n" using unat_BIT [OF n] by (simp add: BIT_eq)
  moreover have "unat x div 2 ^ n * 2 ^ n < 2 ^ 64"
    using div_times_less_eq_dividend [of "unat x" "2 ^ n"] unat_word64_less [of x] by linarith
  ultimately show ?thesis
    by (simp add: push_bit_eq_mult unat_word_ariths unat_drop_bit_eq drop_bit_eq_div mod_mult_left_eq)
qed

text \<open>
  The arithmetic of a retype: a region of \<open>2 ^ bits\<close> bytes, of which \<open>a\<close> are in use, holds \<open>n\<close>
  objects of \<open>2 ^ os\<close> bytes above them, aligned, if their bytes fit without alignment.
\<close>

lemma retype_fits:
  assumes al: "is_aligned base bits" and b: "bits < 64" "os < 64" and "unat off = a" "a \<le> 2 ^ bits"
    and fit: "unat n \<le> (2 ^ bits - a) div 2 ^ os" and "0 < unat n"
  shows "\<exists>u. alignUp (base + off) (of_nat os) = base + of_nat u \<and> a \<le> u \<and> u + unat n * 2 ^ os \<le> 2 ^ bits \<and>
    2 ^ os dvd u \<and> os \<le> bits"
proof -
  have n: "unat n * 2 ^ os \<le> 2 ^ bits - a"
    using fit by (meson div_times_less_eq_dividend le_trans mult_le_mono1)
  then have "2 ^ os \<le> (2 :: nat) ^ bits" using assms(7) by (metis One_nat_def Suc_leI diff_le_self le_trans mult_le_mono1 nat_mult_1)
  then have le: "os \<le> bits" by (simp add: power_le_imp_le_exp)
  obtain k where k: "(2 :: nat) ^ bits = k * 2 ^ os" using le by (metis dvd_def le_imp_power_dvd mult.commute)
  define u where "u = (a + 2 ^ os - 1) div 2 ^ os * 2 ^ os"
  have f: "a \<le> u" "u + unat n * 2 ^ os \<le> 2 ^ bits" "2 ^ os dvd u" "a + 2 ^ os \<le> 2 ^ bits"
    using round_up_fits [of "2 ^ os" "unat n" k a] n assms(7) by (simp_all add: k u_def)
  have top: "unat base + 2 ^ bits \<le> 2 ^ 64" using aligned_no_overflow [OF al] b(1) by simp
  have "0 < unat n * 2 ^ os" and pos: "0 < (2 :: nat) ^ os" using assms(7) by simp_all
  then have u: "unat base + u < 2 ^ 64" and a: "unat base + a < 2 ^ 64" using f(2,4) top by linarith+
  have dv: "2 ^ os dvd unat base" using al le by (metis is_aligned_def dvd_trans le_imp_power_dvd)
  have "unat (base + off) = unat base + a"
    using assms(4) a by (subst unat_add_no_overflow) auto
  then have "unat (base + off + (BIT os - 1)) = unat base + a + (2 ^ os - 1)"
    using top f(4) pos unat_MASK [OF b(2)] by (subst unat_add_no_overflow) (auto simp: MASK_def)
  then have "unat (alignUp (base + off) (of_nat os)) = (unat base + (a + 2 ^ os - 1)) div 2 ^ os * 2 ^ os"
    using b(2) by (simp add: alignUp_def unat_and_not_mask unat_of_nat add.assoc)
  also have "\<dots> = unat base + u" using dv by (simp add: u_def div_plus_div_distrib_dvd_left add_mult_distrib)
  also have "\<dots> = unat (base + of_nat u)"
  proof -
    have "unat (of_nat u :: word_t) = u" using u by (simp add: unat_of_nat)
    with u show ?thesis by (subst unat_add_no_overflow) auto
  qed
  finally show ?thesis using f le by (auto simp: word_unat_eq_iff)
qed

section \<open>Decoding\<close>

lemma untyped_args_ok_frame:
  assumes "untyped_args_ok t us s = (e, s1)" shows "no_err s1 = no_err s" "e = EXCEPTION_NONE \<Longrightarrow> s1 = s"
  using assms by (auto simp: untyped_args_ok_def syscall_fail_def Let_def split: if_splits)

lemma untyped_args_sizes:
  assumes "untyped_args_ok t us s = (EXCEPTION_NONE, s1)"
  shows "t < seL4_ObjectTypeCount" "4 \<le> unat (getObjectSize t us)" "unat (getObjectSize t us) \<le> 38"
    "t = seL4_CapTableObject \<longrightarrow> unat us < 59" "t = seL4_TCBObject \<longrightarrow> unat (getObjectSize t us) = seL4_TCBBits"
proof -
  have c: "t < seL4_ObjectTypeCount" "unat us < 64" "unat (getObjectSize t us) \<le> 38"
    "t = seL4_UntypedObject \<Longrightarrow> 4 \<le> unat us" "t = seL4_SchedContextObject \<Longrightarrow> 7 \<le> unat us"
    using assms
    by (auto simp: untyped_args_ok_def syscall_fail_def Let_def word_less_nat_alt size_bits_defs not_le not_less
        split: if_splits)
  have sz: "unat (5 + us) = unat us + 5" using c(2) by (subst unat_add_no_overflow) simp_all
  show "t < seL4_ObjectTypeCount" "unat (getObjectSize t us) \<le> 38" using c by simp_all
  have "getObjectSize 4 us = 5 + us" by (simp add: getObjectSize_def object_type_defs size_bits_defs)
  then show "t = seL4_CapTableObject \<longrightarrow> unat us < 59" using c(3) sz by (auto simp: seL4_CapTableObject_def)
  have "getObjectSize 1 us = 10" by (simp add: getObjectSize_def object_type_defs size_bits_defs word_le_nat_alt)
  then show "t = seL4_TCBObject \<longrightarrow> unat (getObjectSize t us) = seL4_TCBBits"
    by (simp add: seL4_TCBObject_def seL4_TCBBits_def)
  show "4 \<le> unat (getObjectSize t us)"
    using object_type_range [OF c(1)] c(4,5) sz word_le_nat_alt [of 7 "1 :: word_t"]
    by (elim insertE) (simp_all add: getObjectSize_def Arch_getObjectSize_def object_type_defs size_bits_defs
        pageBitsForSize_def)
qed

lemma ensureEmptySlots_ok:
  "ensureEmptySlots d i n s = (e, s1) \<Longrightarrow> no_err s1 = no_err s \<and>
    (e = EXCEPTION_NONE \<longrightarrow> s1 = s \<and> (\<forall>j<n. cap_at s (slot_at d (i + of_nat j)) = cap_null_cap))"
proof (induction n arbitrary: i)
  case (Suc n)
  show ?case
  proof (cases "cap_at s (slot_at d i) = cap_null_cap")
    case True
    then have "ensureEmptySlots d (i + 1) n s = (e, s1)"
      using Suc.prems by (simp add: ensureEmptySlot_def cap_at_def)
    from Suc.IH [OF this] True show ?thesis
      by (auto simp: less_Suc_eq_0_disj add.assoc)
  next
    case False
    then show ?thesis using Suc.prems by (auto simp: ensureEmptySlot_def cap_at_def)
  qed
qed simp

lemma untyped_dest_window:
  assumes "unat radix < 64" "\<not> off > BIT (unat radix) - 1" "\<not> window > BIT (unat radix) - off"
  shows "unat off + unat window \<le> 2 ^ unat radix"
proof -
  have "unat off < 2 ^ unat radix" using assms(1,2) unat_MASK [of "unat radix"]
    by (simp add: MASK_def word_less_nat_alt not_less le_less_trans [of "unat off" "2 ^ unat radix - Suc 0"])
  moreover from this have "unat (BIT (unat radix) - off) = 2 ^ unat radix - unat off"
    using assms(1) by (subst unat_sub_no_underflow) (simp_all add: unat_BIT)
  ultimately show ?thesis using assms(3) by (simp add: word_less_nat_alt not_less)
qed

lemma untyped_node_ok:
  assumes ok: "cnodes_ok s"
  shows "\<exists>e nodeCap s1. untyped_node root idx depth s = Some (e, nodeCap, s1) \<and> no_err s1 = no_err s \<and>
    (e = EXCEPTION_NONE \<longrightarrow> (\<exists>p. nodeCap = cap_at s p))"
proof -
  have "cnode_ok (cte_cap (ctes s root))" using ok by (simp add: cnodes_ok_def)
  from lookupTargetSlot_frame [OF ok this, of idx depth] obtain r s1 where
    "lookupTargetSlot (cte_cap (ctes s root)) idx depth s = Some (r, s1)" "no_err s1 = no_err s" by blast
  with no_err_fields(1) [OF this(2)] show ?thesis
    by (cases "depth = 0") (auto simp: untyped_node_def cap_at_def)
qed

lemma untyped_dest_ok:
  assumes ok: "cnodes_ok s"
  shows "\<exists>e nodeCap s1. untyped_dest root idx depth off window s = Some (e, nodeCap, s1) \<and> no_err s1 = no_err s \<and>
    (e = EXCEPTION_NONE \<longrightarrow> is_cap_cnode_cap nodeCap \<and> (\<exists>p. nodeCap = cap_at s p) \<and>
      0 < unat window \<and> unat window \<le> 256 \<and> unat off + unat window \<le> 2 ^ unat (capCNodeRadix nodeCap) \<and>
      (\<forall>j<unat window. cap_at s (new_slot (capCNodePtr nodeCap) off j) = cap_null_cap))"
proof -
  obtain e nodeCap s1 where l: "untyped_node root idx depth s = Some (e, nodeCap, s1)"
    and s1: "no_err s1 = no_err s" and cap: "e = EXCEPTION_NONE \<longrightarrow> (\<exists>p. nodeCap = cap_at s p)"
    using untyped_node_ok [OF ok] by blast
  have ca: "cap_at s1 = cap_at s" using no_err_fields(1) [OF s1] by (simp add: cap_at_def fun_eq_iff)
  let ?size = "BIT (unat (capCNodeRadix nodeCap))"
  show ?thesis
  proof (cases "e \<noteq> EXCEPTION_NONE \<or> \<not> is_cap_cnode_cap nodeCap \<or> off > ?size - 1 \<or> window < 1 \<or>
      window > CONFIG_RETYPE_FAN_OUT_LIMIT \<or> window > ?size - off")
    case True
    then show ?thesis using l s1 by (auto simp: untyped_dest_def syscall_fail_def Let_def)
  next
    case False
    then obtain p where p: "nodeCap = cap_at s p" using cap by blast
    have "cnode_ok nodeCap" using ok p by (simp add: cnodes_ok_def cap_at_def)
    then have "unat (capCNodeRadix nodeCap) < 64" using False by (cases nodeCap) (simp_all add: cnode_ok_def)
    then have fits: "unat off + unat window \<le> 2 ^ unat (capCNodeRadix nodeCap)"
      using False by (intro untyped_dest_window) auto
    have w: "0 < unat window" "unat window \<le> 256"
      using False by (simp_all add: word_less_nat_alt CONFIG_RETYPE_FAN_OUT_LIMIT_def not_less)
    obtain e2 s2 where e2: "ensureEmptySlots (capCNodePtr nodeCap) off (unat window) s1 = (e2, s2)" by fastforce
    have "untyped_dest root idx depth off window s = Some (e2, nodeCap, s2)"
      using False l e2 by (simp add: untyped_dest_def Let_def)
    then show ?thesis using ensureEmptySlots_ok [OF e2] s1 False p fits w
      by (auto simp: new_slot_def ca)
  qed
qed

section \<open>Creating the objects\<close>

lemma new_slot_inj: "inj_on (new_slot cnode off) {0..<n}" if "n \<le> 256"
proof (rule inj_onI)
  fix i j assume ij: "i \<in> {0..<n}" "j \<in> {0..<n}" and e: "new_slot cnode off i = new_slot cnode off j"
  have u: "unat (push_bit 5 (of_nat k) :: word_t) = 32 * k" if "k < 256" for k
    unfolding push_bit_of_nat unat_of_nat using that by (simp add: push_bit_eq_mult)
  have "push_bit 5 (off + of_nat i) = push_bit 5 (off + of_nat j)"
    using e by (simp add: new_slot_def slot_at_def seL4_SlotBits_def)
  then have "push_bit 5 (of_nat i) = (push_bit 5 (of_nat j) :: word_t)" by (simp only: push_bit_add add_left_cancel)
  then have "unat (push_bit 5 (of_nat i) :: word_t) = unat (push_bit 5 (of_nat j) :: word_t)" by (rule arg_cong)
  moreover have "i < 256" "j < 256" using ij that by auto
  ultimately show "i = j" unfolding u [OF \<open>i < 256\<close>] u [OF \<open>j < 256\<close>] by simp
qed

text \<open>No address of the region of a capability holds a capability.\<close>

definition region_empty :: "word_t \<Rightarrow> nat \<Rightarrow> kstate \<Rightarrow> bool" where
  "region_empty base bits s \<longleftrightarrow> (\<forall>p. unat (p - base) < 2 ^ bits \<longrightarrow> p \<noteq> 0 \<and> cap_at s p = cap_null_cap)"

lemma cleared_mdb:
  assumes c: "cap_at s slot = cap_untyped_cap idx dev bits base" and cl: "cleared_down_to m slot s s'"
    and ok: "mdb_ok CS s" and e: "\<not> dev \<longrightarrow> region_empty base (unat bits) s"
  shows "cap_at s' = (cap_at s)(slot := cap_untyped_cap (of_nat m) dev bits base)"
    "mdb_next s' = mdb_next s" "mdb_prev s' = mdb_prev s"
proof -
  note cl' = cl [unfolded cleared_down_to_def c, simplified]
  have obj: "obj_at s' p = obj_at s p \<or> \<not> dev \<and> unat (p - base) < 2 ^ unat bits \<and> obj_at s' p = zero_obj" if "p \<noteq> slot" for p
    using cl' that by (auto split: if_splits)
  have node: "cteMDBNode (ctes s' p) = cteMDBNode (ctes s p) \<or>
      p \<noteq> 0 \<and> cap_at s p = cap_null_cap \<and> ctes s' p = zero_cte" for p
    using cl' obj [of p] e by (cases "p = slot") (auto simp: region_empty_def obj_at_def zero_obj_def)
  have cap: "cap_at s' p = cap_at s p" if "p \<noteq> slot" for p
    using obj [OF that] e unfolding region_empty_def
    by (auto simp: obj_at_def zero_obj_def cap_at_def zero_cte_def dest!: spec [of _ p])
  then show "cap_at s' = (cap_at s)(slot := cap_untyped_cap (of_nat m) dev bits base)" using cl' by auto
  have dead: "mdb_next s p = 0 \<and> mdb_prev s p = 0" if "p \<noteq> 0" "cap_at s p = cap_null_cap" for p
    using chainsD(5,6) [OF ok [unfolded mdb_ok_def], of p] that by (auto simp: live_slots_def)
  have "mdb_next s' p = mdb_next s p \<and> mdb_prev s' p = mdb_prev s p" for p
    using node [of p] dead [of p] by (elim disjE) (simp_all add: mdb_next_def mdb_prev_def zero_cte_def nullMDBNode_def)
  then show "mdb_next s' = mdb_next s" "mdb_prev s' = mdb_prev s" by auto
qed

lemma mdb_ok_same_links:
  "mdb_next s' = mdb_next s \<Longrightarrow> mdb_prev s' = mdb_prev s \<Longrightarrow> (\<And>p. cap_at s' p = cap_null_cap \<longleftrightarrow> cap_at s p = cap_null_cap) \<Longrightarrow>
    mdb_ok CS s' = mdb_ok CS s"
  by (simp add: mdb_ok_def live_slots_def)

text \<open>
  The result of a retype: \<open>n\<close> objects of \<open>2 ^ os\<close> bytes, side by side from offset \<open>u\<close> of the
  region, have their capabilities in the destination slots; the free index is behind the last object.
\<close>

definition allocated :: "word_t \<Rightarrow> word_t \<Rightarrow> word_t \<Rightarrow> nat \<Rightarrow> nat \<Rightarrow> nat \<Rightarrow> kstate \<Rightarrow> kstate \<Rightarrow> bool" where
  "allocated slot cnode off os n u s s' = (case cap_at s slot of
      cap_untyped_cap idx dev bits base \<Rightarrow>
        2 ^ os dvd u \<and> u + n * 2 ^ os \<le> 2 ^ unat bits \<and>
        (\<forall>j<n. covers (cap_at s' (new_slot cnode off j)) (base + of_nat (u + j * 2 ^ os)) os) \<and>
        cap_at s' slot = cap_untyped_cap (of_nat ((u + n * 2 ^ os) div 16)) dev bits base \<and>
        (\<forall>q. q \<noteq> slot \<and> q \<notin> new_slot cnode off ` {0..<n} \<longrightarrow> cap_at s' q = cap_at s q)
    | _ \<Rightarrow> False)"

lemma object_at_offset:
  assumes "unat (getObjectSize t us) = os" and "os < 64"
  shows "object_at t us (base + of_nat u) j = base + of_nat (u + j * 2 ^ os)"
  by (simp add: object_at_def assms(1) push_bit_eq_mult mult.commute add.assoc)

lemma free_index_after:
  assumes "u + n * 2 ^ os \<le> 2 ^ bits" "bits \<le> 38" and "unat len = n" "os < 64"
  shows "GET_FREE_INDEX base (base + of_nat u + push_bit os len) = of_nat ((u + n * 2 ^ os) div 16)"
proof -
  have "len = of_nat n" using assms(3) by auto
  then have w: "base + of_nat u + push_bit os len - base = of_nat (u + n * 2 ^ os)"
    by (simp add: push_bit_eq_mult mult.commute)
  have "(2 :: nat) ^ bits \<le> 2 ^ 38" using assms(2) by (intro power_increasing) simp_all
  then have lt: "u + n * 2 ^ os < 2 ^ 64" using assms(1) by simp
  have "unat (drop_bit 4 (of_nat (u + n * 2 ^ os) :: word_t)) = (u + n * 2 ^ os) div 16"
    unfolding unat_drop_bit_eq using lt by (simp add: unat_of_nat drop_bit_eq_div del: of_nat_add of_nat_mult)
  moreover have "unat (of_nat ((u + n * 2 ^ os) div 16) :: word_t) = (u + n * 2 ^ os) div 16"
    using lt by (simp add: unat_of_nat del: of_nat_add of_nat_mult)
  ultimately show ?thesis unfolding GET_FREE_INDEX_def w seL4_MinUntypedBits_def
    by (simp add: word_unat_eq_iff del: of_nat_add of_nat_mult)
qed

lemma aligned_offset:
  assumes "is_aligned base n" "2 ^ n dvd x" "n \<le> 64" shows "is_aligned (base + of_nat x) n"
proof -
  have "(2 :: nat) ^ n dvd 2 ^ 64" using assms(3) by (rule le_imp_power_dvd)
  moreover have "2 ^ n dvd unat base + x" using assms(1,2) by (simp add: is_aligned_def)
  ultimately have "2 ^ n dvd (unat base + x) mod 2 ^ 64" by (intro dvd_mod)
  moreover have "unat (base + of_nat x) = (unat base + x) mod 2 ^ 64"
    by (simp add: unat_word_ariths unat_of_nat mod_add_right_eq)
  ultimately show ?thesis by (simp add: is_aligned_def)
qed

lemma reset_step:
  assumes c: "cap_at s slot = cap_untyped_cap idx dev bits base" and wf: "untyped_wf (cap_at s slot)"
    and out: "2 ^ unat bits \<le> unat (slot - base)" and ok: "mdb_ok CS s"
    and empty: "reset \<longrightarrow> \<not> dev \<longrightarrow> region_empty base (unat bits) s"
  shows "\<exists>e s1 i. (if reset then resetUntypedCap env slot s else Some (EXCEPTION_NONE, s)) = Some (e, s1) \<and>
    cap_at s1 = (cap_at s)(slot := cap_untyped_cap i dev bits base) \<and> mdb_ok CS s1 \<and>
    (e = EXCEPTION_NONE \<or> e = EXCEPTION_PREEMPTED \<and> reset \<and> unat i < unat idx)"
proof (cases reset)
  case True
  obtain e s1 m where r: "resetUntypedCap env slot s = Some (e, s1)" "e \<in> {EXCEPTION_NONE, EXCEPTION_PREEMPTED}"
    "cleared_down_to m slot s s1" "e = EXCEPTION_PREEMPTED \<longrightarrow> m < unat idx"
    using reset_correct [OF c wf out] by blast
  have e: "\<not> dev \<longrightarrow> region_empty base (unat bits) s" using empty True by blast
  note m = cleared_mdb [OF c r(3) ok e]
  have "mdb_ok CS s1" using ok mdb_ok_same_links [of s1 s CS] m c by simp
  moreover have "e = EXCEPTION_PREEMPTED \<longrightarrow> unat (of_nat m :: word_t) < unat idx"
    using r(4) le_less_trans [OF mod_less_eq_dividend] by (simp add: unat_of_nat)
  ultimately show ?thesis using True r(1,2) m(1) by auto
next
  case False
  then show ?thesis using c ok by (auto intro!: exI [of _ idx])
qed

lemma retype_ok:
  assumes c: "cap_at s slot = cap_untyped_cap idx dev bits base" and wf: "untyped_wf (cap_at s slot)"
    and out: "2 ^ unat bits \<le> unat (slot - base)" and ok: "mdb_ok CS s" and "slot \<noteq> 0"
    and empty: "reset \<longrightarrow> \<not> dev \<longrightarrow> region_empty base (unat bits) s"
    and t: "t < seL4_ObjectTypeCount" "t = seL4_CapTableObject \<longrightarrow> unat us < 59"
      "t = seL4_TCBObject \<longrightarrow> unat (getObjectSize t us) = seL4_TCBBits"
    and os: "unat (getObjectSize t us) = os" "os \<le> 38" and u: "2 ^ os dvd u" "u + unat n * 2 ^ os \<le> 2 ^ unat bits" "os \<le> unat bits"
    and slots: "unat n \<le> 256" "\<And>j. j < unat n \<Longrightarrow> new_slot cnode off j \<noteq> 0 \<and> cap_at s (new_slot cnode off j) = cap_null_cap"
  shows "\<exists>e s'. invokeUntyped_Retype env slot reset (base + of_nat u) t us cnode off n dev s = Some (e, s') \<and>
    (\<exists>CS'. mdb_ok CS' s') \<and>
    (e = EXCEPTION_NONE \<and> allocated slot cnode off os (unat n) u s s' \<or>
     e = EXCEPTION_PREEMPTED \<and> reset \<and>
       (\<exists>i. unat i < unat idx \<and> cap_at s' = (cap_at s)(slot := cap_untyped_cap i dev bits base)))"
proof -
  note w = untyped_wfD [OF wf [unfolded c]]
  obtain e s1 i where r: "(if reset then resetUntypedCap env slot s else Some (EXCEPTION_NONE, s)) = Some (e, s1)"
    "cap_at s1 = (cap_at s)(slot := cap_untyped_cap i dev bits base)" "mdb_ok CS s1"
    "e = EXCEPTION_NONE \<or> e = EXCEPTION_PREEMPTED \<and> reset \<and> unat i < unat idx"
    using reset_step [OF c wf out ok empty] by blast
  have base: "capPtr (cte_cap (ctes s slot)) = base" using c by (simp add: cap_at_def)
  show ?thesis
  proof (cases "e = EXCEPTION_NONE")
    case False
    then have "invokeUntyped_Retype env slot reset (base + of_nat u) t us cnode off n dev s = Some (e, s1)"
      using r(1) by (simp add: invokeUntyped_Retype_def)
    then show ?thesis using r False by auto
  next
    case True
    let ?idx = "of_nat ((u + unat n * 2 ^ os) div 16) :: word_t"
    define s2 where "s2 = set_cap slot (cap_untyped_cap ?idx dev bits base) s1"
    have idx: "GET_FREE_INDEX base (base + of_nat u + push_bit os n) = ?idx"
      using free_index_after [OF u(2) w(2) refl] os(2) by simp
    have cap2: "cap_at s2 = (cap_at s)(slot := cap_untyped_cap ?idx dev bits base)" by (simp add: s2_def r(2))
    have ok2: "mdb_ok CS s2" using r(3) mdb_ok_same_links [of s2 s1 CS] by (simp add: s2_def r(2))
    then obtain xs ys where chain: "xs @ slot # ys \<in> CS"
      using chains_split [of "mdb_next s2" "mdb_prev s2" CS "live_slots s2" slot] assms(5) cap2
      by (auto simp: mdb_ok_def live_slots_def)
    have oa: "object_at t us (base + of_nat u) j = base + of_nat (u + j * 2 ^ os)" for j
      using object_at_offset [OF os(1)] os(2) by simp
    have "is_aligned (base + of_nat (u + j * 2 ^ os)) os" for j
      using os(2) u(1,3) w(4) by (intro aligned_offset is_aligned_weaken [of base "unat bits" os]) simp_all
    then have "t = seL4_TCBObject \<Longrightarrow> is_aligned (object_at t us (base + of_nat u) j) seL4_TCBBits" for j
      unfolding oa using t(3) os(1) by simp
    moreover have "new_slot cnode off j \<noteq> 0 \<and> cap_at s2 (new_slot cnode off j) = cap_null_cap" if "j < unat n" for j
      using slots(2) [OF that] c cap2 by auto
    ultimately obtain s' where s': "createNewObjects_loop t slot cnode off (base + of_nat u) us dev 0 (unat n) s2 = Some s'"
      "\<exists>CS'. mdb_ok CS' s'" "\<forall>j<unat n. covers (cap_at s' (new_slot cnode off j)) (object_at t us (base + of_nat u) j) os"
      "\<forall>q. q \<notin> new_slot cnode off ` {0..<unat n} \<longrightarrow> cap_at s' q = cap_at s2 q"
      using createNewObjects_loop_creates [OF t(1,2) _ ok2 chain, of "base + of_nat u" 0 "unat n" cnode off dev]
        new_slot_inj [OF slots(1), of cnode off] os(1) by auto
    have "slot \<notin> new_slot cnode off ` {0..<unat n}" using slots(2) c by auto
    then have "allocated slot cnode off os (unat n) u s s'"
      using s'(3,4) u unfolding oa by (simp add: allocated_def c cap2)
    moreover have "invokeUntyped_Retype env slot reset (base + of_nat u) t us cnode off n dev s = Some (EXCEPTION_NONE, s')"
      using r(1,2) True s'(1) base idx c
      by (simp add: invokeUntyped_Retype_def createNewObjects_def os(1) s2_def cap_untyped_cap_set_capFreeIndex_def
          mdb_fields Let_def)
    ultimately show ?thesis using s'(2) by blast
  qed
qed

section \<open>Allocation\<close>

definition no_children :: "word_t \<Rightarrow> kstate \<Rightarrow> bool" where
  "no_children slot s \<longleftrightarrow> \<not> (mdb_next s slot \<noteq> 0 \<and> isMDBParentOf slot (mdb_next s slot) s)"

text \<open>The slots of a CNode are not at address zero.\<close>

definition cnode_slots_nonnull :: "kstate \<Rightarrow> bool" where
  "cnode_slots_nonnull s \<longleftrightarrow> (\<forall>p i. is_cap_cnode_cap (cap_at s p) \<and> unat i < 2 ^ unat (capCNodeRadix (cap_at s p)) \<longrightarrow>
     slot_at (capCNodePtr (cap_at s p)) i \<noteq> 0)"

lemma same_ctes:
  assumes "ctes s' = ctes s"
  shows "cap_at s' = cap_at s" "no_children slot s' = no_children slot s" "mdb_ok CS s' = mdb_ok CS s"
    "region_empty base bits s' = region_empty base bits s" "allocated sl cn off os n u s' t = allocated sl cn off os n u s t"
proof -
  show c: "cap_at s' = cap_at s" using assms by (simp add: cap_at_def fun_eq_iff)
  show "no_children slot s' = no_children slot s"
    using assms by (simp add: no_children_def isMDBParentOf_def mdb_next_def Let_def)
  show "mdb_ok CS s' = mdb_ok CS s" using assms by (rule mdb_ok_same_ctes)
  show "region_empty base bits s' = region_empty base bits s"
    "allocated sl cn off os n u s' t = allocated sl cn off os n u s t" unfolding region_empty_def allocated_def c by (rule refl)+
qed

lemma ensureNoChildren_ok:
  "ensureNoChildren slot s = (e, s1) \<Longrightarrow> no_err s1 = no_err s \<and> (e = EXCEPTION_NONE \<longleftrightarrow> no_children slot s)"
  by (auto simp: ensureNoChildren_def no_children_def mdb_next_def Let_def set_syscall_error_def split: if_splits)

lemma setThreadState_ctes: "ctes (setThreadState t ts s) = ctes s"
  by (simp add: setThreadState_def scheduleTCB_def set_tcbState_def upd_tcb_def core_stateD(2) [OF core_reschedule(1)])

lemma space_check:
  assumes wf: "untyped_wf (cap_untyped_cap idx dev bits base)" and i: "i = 0 \<or> i = idx" and os: "unat objectSize \<le> 38"
    and fit: "\<not> drop_bit (unat objectSize) (BIT (unat bits) - FREE_INDEX_TO_OFFSET i) < n" and "0 < unat n"
  shows "\<exists>u. alignUp (GET_FREE_REF base i) objectSize = base + of_nat u \<and> 16 * unat i \<le> u \<and>
    u + unat n * 2 ^ unat objectSize \<le> 2 ^ unat bits \<and> 2 ^ unat objectSize dvd u \<and> unat objectSize \<le> unat bits"
proof -
  note w = untyped_wfD [OF wf]
  have off: "unat (FREE_INDEX_TO_OFFSET i) = 16 * unat i" "16 * unat i \<le> 2 ^ unat bits"
    using i w(3,5) by (auto simp: FREE_INDEX_TO_OFFSET_def)
  have "unat (BIT (unat bits) - FREE_INDEX_TO_OFFSET i) = 2 ^ unat bits - 16 * unat i"
    using w(2) off by (subst unat_sub_no_underflow) (simp_all add: unat_BIT)
  moreover have "unat (drop_bit k x) = unat x div 2 ^ k" for k and x :: word_t
    unfolding unat_drop_bit_eq by (simp only: drop_bit_eq_div)
  ultimately have "unat n \<le> (2 ^ unat bits - 16 * unat i) div 2 ^ unat objectSize"
    using fit by (simp only: word_less_nat_alt not_less)
  from retype_fits [OF w(4) _ _ off this assms(5)] show ?thesis
    using w(2) os by (simp add: GET_FREE_REF_def)
qed

lemma allocated_wf:
  assumes wf: "untyped_wf (cap_at s slot)" and a: "allocated slot cnode off os n u s s'"
  shows "untyped_wf (cap_at s' slot)"
proof -
  obtain idx dev bits base where c: "cap_at s slot = cap_untyped_cap idx dev bits base"
    using a by (auto simp: allocated_def split: cap.splits)
  note w = untyped_wfD [OF wf [unfolded c]]
  have "(2 :: nat) ^ unat bits = 16 * 2 ^ (unat bits - 4)" using w(1) power_add [of "2 :: nat" 4 "unat bits - 4"] by simp
  moreover have "u + n * 2 ^ os \<le> 2 ^ unat bits" using a by (simp add: allocated_def c)
  ultimately have "(u + n * 2 ^ os) div 16 \<le> 2 ^ (unat bits - 4)"
    using div_le_mono [of "u + n * 2 ^ os" "16 * 2 ^ (unat bits - 4)" 16] by simp
  moreover have "unat (of_nat x :: word_t) \<le> x" for x by (simp add: unat_of_nat)
  ultimately have "unat (of_nat ((u + n * 2 ^ os) div 16) :: word_t) \<le> 2 ^ (unat bits - 4)" by (metis le_trans)
  then show ?thesis using a wf by (simp add: allocated_def c untyped_wf_def size_bits_defs)
qed

text \<open>The outcomes of a retype, relative to a state \<open>s\<close>.\<close>

definition retype_outcome :: "word_t \<Rightarrow> word_t \<Rightarrow> nat \<Rightarrow> nat \<Rightarrow> nat \<Rightarrow> kstate \<Rightarrow> exception \<Rightarrow> kstate \<Rightarrow> bool" where
  "retype_outcome slot off os n a s e s' \<longleftrightarrow> (\<exists>CS'. mdb_ok CS' s') \<and> untyped_wf (cap_at s' slot) \<and>
    (e = EXCEPTION_NONE \<and> (\<exists>cnode u. a \<le> u \<and> allocated slot cnode off os n u s s') \<or>
     e \<noteq> EXCEPTION_NONE \<and> no_err s' = no_err s \<or>
     e = EXCEPTION_PREEMPTED \<and> (\<exists>i. unat i < unat (capFreeIndex (cap_at s slot)) \<and>
       cap_at s' = (cap_at s)(slot := cap_untyped_cap_set_capFreeIndex (cap_at s slot) i)))"

lemma retype_outcome_error:
  assumes "e \<noteq> EXCEPTION_NONE" "no_err s' = no_err s" "mdb_ok CS s" "untyped_wf (cap_at s slot)"
  shows "retype_outcome slot off os n a s e s'"
  using assms same_ctes(1,3) [OF no_err_fields(1) [OF assms(2)]] unfolding retype_outcome_def by auto

lemma retype_outcome_cong:
  assumes "no_err s1 = no_err s"
  shows "retype_outcome slot off os n a s1 e s' = retype_outcome slot off os n a s e s'"
proof -
  note c = same_ctes [OF no_err_fields(1) [OF assms]]
  show ?thesis unfolding retype_outcome_def c(1,5) assms by (rule refl)
qed

lemma untyped_space_ok:
  assumes c: "cap_at s slot = cap_untyped_cap idx dev bits base" and wf: "untyped_wf (cap_at s slot)"
    and out: "2 ^ unat bits \<le> unat (slot - base)" and ok: "mdb_ok CS s" and "slot \<noteq> 0"
    and empty: "no_children slot s \<longrightarrow> \<not> dev \<longrightarrow> region_empty base (unat bits) s"
    and args: "untyped_args_ok t us s0 = (EXCEPTION_NONE, s0')"
    and n: "0 < unat n" "unat n \<le> 256"
    and slots: "\<And>j. j < unat n \<Longrightarrow> new_slot (capCNodePtr nodeCap) off j \<noteq> 0 \<and>
      cap_at s (new_slot (capCNodePtr nodeCap) off j) = cap_null_cap"
  shows "\<exists>e s'. untyped_space env slot (cap_at s slot) t us nodeCap off n s = Some (e, s') \<and>
    retype_outcome slot off (unat (getObjectSize t us)) (unat n) (if no_children slot s then 0 else 16 * unat idx) s e s'"
proof -
  note sz = untyped_args_sizes [OF args]
  let ?os = "unat (getObjectSize t us)" and ?reset = "no_children slot s"
  let ?i = "if ?reset then 0 else idx"
  obtain e1 s1 where s1: "ensureNoChildren slot s = (e1, s1)" "no_err s1 = no_err s" "e1 = EXCEPTION_NONE \<longleftrightarrow> ?reset"
    using ensureNoChildren_ok by (metis prod.collapse)
  note same1 = same_ctes [OF no_err_fields(1) [OF s1(2)]]
  consider (error) "drop_bit ?os (BIT (unat bits) - FREE_INDEX_TO_OFFSET ?i) < n \<or>
      (dev \<and> \<not> Arch_isFrameType t) \<and> t \<noteq> seL4_UntypedObject"
    | (ok) "\<not> drop_bit ?os (BIT (unat bits) - FREE_INDEX_TO_OFFSET ?i) < n"
      "\<not> ((dev \<and> \<not> Arch_isFrameType t) \<and> t \<noteq> seL4_UntypedObject)" by blast
  then show ?thesis
  proof cases
    case error
    then have "\<exists>f. untyped_space env slot (cap_at s slot) t us nodeCap off n s = Some (EXCEPTION_SYSCALL_ERROR, set_syscall_error f s1)"
      using s1 by (auto simp: untyped_space_def c syscall_fail_def Let_def)
    then show ?thesis using retype_outcome_error [OF _ _ ok wf] s1(2) by auto
  next
    case ok': ok
    have "?i = 0 \<or> ?i = idx" by simp
    from space_check [OF wf [unfolded c] this sz(3) ok'(1) n(1)] obtain u where u:
      "alignUp (GET_FREE_REF base ?i) (getObjectSize t us) = base + of_nat u" "16 * unat ?i \<le> u"
      "u + unat n * 2 ^ ?os \<le> 2 ^ unat bits" "2 ^ ?os dvd u" "?os \<le> unat bits" by blast
    let ?s = "setThreadState (ksCurThread s1) ThreadState_Restart s1"
    have "ctes ?s = ctes s" using no_err_fields(1) [OF s1(2)] by (simp add: setThreadState_ctes)
    note same = same_ctes [OF this]
    have "\<exists>e s'. invokeUntyped_Retype env slot ?reset (base + of_nat u) t us (capCNodePtr nodeCap) off n dev ?s = Some (e, s') \<and>
      (\<exists>CS'. mdb_ok CS' s') \<and> (e = EXCEPTION_NONE \<and> allocated slot (capCNodePtr nodeCap) off ?os (unat n) u ?s s' \<or>
       e = EXCEPTION_PREEMPTED \<and> ?reset \<and>
         (\<exists>i. unat i < unat idx \<and> cap_at s' = (cap_at ?s)(slot := cap_untyped_cap i dev bits base)))"
      using c wf ok empty slots
      by (intro retype_ok [OF _ _ out _ assms(5) _ sz(1,4,5) refl sz(3) u(4,3,5) n(2)]) (simp_all add: same)
    then obtain e s' where r: "invokeUntyped_Retype env slot ?reset (base + of_nat u) t us (capCNodePtr nodeCap) off n dev ?s = Some (e, s')"
      "\<exists>CS'. mdb_ok CS' s'" "e = EXCEPTION_NONE \<and> allocated slot (capCNodePtr nodeCap) off ?os (unat n) u s s' \<or>
       e = EXCEPTION_PREEMPTED \<and> (\<exists>i. unat i < unat idx \<and> cap_at s' = (cap_at s)(slot := cap_untyped_cap i dev bits base))"
      unfolding same by blast
    have "untyped_space env slot (cap_at s slot) t us nodeCap off n s = Some (e, s')"
      using s1 ok' r(1) u(1) by (cases ?reset) (auto simp: untyped_space_def c Let_def)
    moreover have "untyped_wf (cap_at s' slot)"
      using r(3) allocated_wf [OF wf] wf by (auto simp: c untyped_wf_def)
    then have "retype_outcome slot off ?os (unat n) (if ?reset then 0 else 16 * unat idx) s e s'"
      using r(2,3) u(2) unfolding retype_outcome_def c by (auto simp: cap_untyped_cap_set_capFreeIndex_def)
    ultimately show ?thesis by blast
  qed
qed

text \<open>
  C27: Allocation from untyped memory is safe. Decoding a retype always returns. When it succeeds, the new
  objects lie side by side in the untyped region, aligned to their size, behind everything
  allocated before (or from the start, when the untyped has no children and was cleared), each has a
  capability that covers exactly its memory in the requested slot, the free index is behind
  the last one, and no other capability changes. When it fails, only error registers change; when it is
  preempted while clearing, only the free index decreases. The derivation tree stays
  consistent and the untyped capability well-formed in every case.
\<close>

theorem decodeUntypedInvocation_allocates:
  fixes s :: kstate and buffer :: word_t
  defines "n \<equiv> unat (getSyscallArg 5 buffer s)" and "off \<equiv> getSyscallArg 4 buffer s"
    and "os \<equiv> unat (getObjectSize (getSyscallArg 0 buffer s) (getSyscallArg 1 buffer s))"
  assumes "cap_at s slot = cap_untyped_cap idx dev bits base" and "untyped_wf (cap_at s slot)"
    and "2 ^ unat bits \<le> unat (slot - base)" and "mdb_ok CS s" and "slot \<noteq> 0"
    and "no_children slot s \<longrightarrow> \<not> dev \<longrightarrow> region_empty base (unat bits) s"
    and "cnodes_ok s" and "cnode_slots_nonnull s"
  shows "\<exists>e s'. decodeUntypedInvocation env label len slot (cap_at s slot) call buffer s = Some (e, s') \<and>
    (\<exists>CS'. mdb_ok CS' s') \<and> untyped_wf (cap_at s' slot) \<and>
    (e = EXCEPTION_NONE \<and> label = UntypedRetype \<and>
       (\<exists>cnode u. (if no_children slot s then 0 else 16 * unat idx) \<le> u \<and> allocated slot cnode off os n u s s') \<or>
     e \<noteq> EXCEPTION_NONE \<and> no_err s' = no_err s \<or>
     e = EXCEPTION_PREEMPTED \<and>
       (\<exists>i. unat i < unat idx \<and> cap_at s' = (cap_at s)(slot := cap_untyped_cap i dev bits base)))"
proof -
  let ?t = "getSyscallArg 0 buffer s" and ?us = "getSyscallArg 1 buffer s" and ?w = "getSyscallArg 5 buffer s"
  let ?a = "if no_children slot s then 0 else 16 * unat idx"
  note out = retype_outcome_error [OF _ _ assms(7,5)]
  obtain e1 s1 where args: "untyped_args_ok ?t ?us s = (e1, s1)" by fastforce
  note s1 = untyped_args_ok_frame [OF args]
  obtain e2 nodeCap s2 where dest: "untyped_dest (current_extra_caps s 0) (getSyscallArg 2 buffer s)
      (getSyscallArg 3 buffer s) off ?w s = Some (e2, nodeCap, s2)" and s2: "no_err s2 = no_err s"
    and d: "e2 = EXCEPTION_NONE \<longrightarrow> is_cap_cnode_cap nodeCap \<and> (\<exists>p. nodeCap = cap_at s p) \<and>
      0 < unat ?w \<and> unat ?w \<le> 256 \<and> unat off + unat ?w \<le> 2 ^ unat (capCNodeRadix nodeCap) \<and>
      (\<forall>j<unat ?w. cap_at s (new_slot (capCNodePtr nodeCap) off j) = cap_null_cap)"
    using untyped_dest_ok [OF assms(10)] by blast
  have "\<exists>e s'. decodeUntypedInvocation env label len slot (cap_at s slot) call buffer s = Some (e, s') \<and>
      retype_outcome slot off os n ?a s e s' \<and> (e = EXCEPTION_NONE \<longrightarrow> label = UntypedRetype)"
  proof (cases "label \<noteq> UntypedRetype \<or> len < 6 \<or> current_extra_caps s 0 = 0 \<or> e1 \<noteq> EXCEPTION_NONE \<or> e2 \<noteq> EXCEPTION_NONE")
    case True
    have "\<exists>e s'. decodeUntypedInvocation env label len slot (cap_at s slot) call buffer s = Some (e, s') \<and>
        e \<noteq> EXCEPTION_NONE \<and> no_err s' = no_err s"
      using True args s1 dest s2 by (auto simp: decodeUntypedInvocation_def syscall_fail_def Let_def off_def)
    then show ?thesis using out by blast
  next
    case False
    note same = same_ctes [OF no_err_fields(1) [OF s2]]
    obtain p where p: "nodeCap = cap_at s p" "is_cap_cnode_cap nodeCap" using d False by blast
    have slots: "new_slot (capCNodePtr nodeCap) off j \<noteq> 0 \<and> cap_at s2 (new_slot (capCNodePtr nodeCap) off j) = cap_null_cap"
      if "j < unat ?w" for j
    proof -
      have "unat (off + of_nat j) \<le> unat off + j" by (simp add: unat_word_ariths unat_of_nat mod_add_right_eq)
      also have "\<dots> < 2 ^ unat (capCNodeRadix nodeCap)" using that d False by linarith
      finally show ?thesis using assms(11) p d False that
        by (auto simp: cnode_slots_nonnull_def new_slot_def same)
    qed
    have args': "untyped_args_ok ?t ?us s = (EXCEPTION_NONE, s1)" and w: "0 < unat ?w" "unat ?w \<le> 256"
      using args d False by auto
    have "\<exists>e s'. untyped_space env slot (cap_at s2 slot) ?t ?us nodeCap off ?w s2 = Some (e, s') \<and>
      retype_outcome slot off (unat (getObjectSize ?t ?us)) (unat ?w) (if no_children slot s2 then 0 else 16 * unat idx) s2 e s'"
      by (rule untyped_space_ok [OF _ _ assms(6) _ assms(8) _ args' w slots, where dev = dev and CS = CS])
        (use assms(4,5,7,9) in \<open>simp_all add: same\<close>)
    then obtain e s' where r: "untyped_space env slot (cap_at s slot) ?t ?us nodeCap off ?w s2 = Some (e, s')"
      "retype_outcome slot off os n ?a s e s'"
      unfolding retype_outcome_cong [OF s2] same os_def n_def by blast
    have "decodeUntypedInvocation env label len slot (cap_at s slot) call buffer s = Some (e, s')"
      using False args s1 dest r(1) by (simp add: decodeUntypedInvocation_def Let_def off_def)
    then show ?thesis using r(2) False by blast
  qed
  then show ?thesis unfolding retype_outcome_def assms(4) cap_untyped_cap_set_capFreeIndex_def cap.sel by blast
qed

text \<open>
  Example: thread 0x1000 asks for two endpoints from a fresh untyped of a page, with a
  CNode of sixteen slots as destination.
\<close>

definition retype_request :: kstate where
  "retype_request = zero_state\<lparr>ksCurThread := 0x1000,
     tcbs := (\<lambda>_. zero_tcb)(0x1000 := zero_tcb\<lparr>tcbContext := (\<lambda>_. 0)(11 := seL4_EndpointObject)\<rparr>),
     user_words := (\<lambda>_. 0)(0x30030 := 2), current_extra_caps := (\<lambda>_. 0)(0 := 0x40),
     ctes := (\<lambda>_. zero_cte)(0x20 := \<lparr>cte_cap = cap_untyped_cap 0 False 12 0x10000, cteMDBNode = nullMDBNode\<rparr>,
       0x40 := \<lparr>cte_cap = cap_cnode_cap 4 60 0 0x20000, cteMDBNode = nullMDBNode\<rparr>)\<rparr>"

lemma retype_request_caps:
  "cap_at retype_request = (\<lambda>_. cap_null_cap)(0x20 := cap_untyped_cap 0 False 12 0x10000,
     0x40 := cap_cnode_cap 4 60 0 0x20000)"
  by (simp add: fun_eq_iff cap_at_def retype_request_def zero_cte_def)

lemma retype_request_ok:
  "mdb_ok {[0x20], [0x40]} retype_request" "cnodes_ok retype_request" "cnode_slots_nonnull retype_request"
  "region_empty 0x10000 12 retype_request"
proof -
  have l: "mdb_next retype_request = (\<lambda>_. 0)" "mdb_prev retype_request = (\<lambda>_. 0)"
    by (simp_all add: fun_eq_iff mdb_next_def mdb_prev_def retype_request_def zero_cte_def nullMDBNode_def)
  have "live_slots retype_request = {0x20, 0x40}" by (auto simp: live_slots_def retype_request_caps)
  then show "mdb_ok {[0x20], [0x40]} retype_request" by (simp add: mdb_ok_def chains_def dlist_def l insert_commute)
  show "cnodes_ok retype_request"
    using retype_request_caps by (simp add: cnodes_ok_def cnode_ok_def cap_at_def fun_eq_iff)
  have "slot_at 0x20000 i \<noteq> 0" if "unat i < 16" for i
  proof -
    have "unat (slot_at 0x20000 i) = 0x20000 + 32 * unat i"
      using that by (simp add: slot_at_def seL4_SlotBits_def push_bit_eq_mult unat_word_ariths)
    then show ?thesis by auto
  qed
  then show "cnode_slots_nonnull retype_request" by (simp add: cnode_slots_nonnull_def retype_request_caps)
  have "unat (0 - 0x10000 :: word_t) \<ge> 2 ^ 12" "unat (0x20 - 0x10000 :: word_t) \<ge> 2 ^ 12"
    "unat (0x40 - 0x10000 :: word_t) \<ge> 2 ^ 12" by simp_all
  then show "region_empty 0x10000 12 retype_request"
    unfolding region_empty_def retype_request_caps by (metis fun_upd_apply not_le)
qed

theorem decodeUntypedInvocation_allocates_witness:
  "\<exists>e s'. decodeUntypedInvocation (\<lambda>_. (False, 0)) UntypedRetype 6 0x20 (cap_at retype_request 0x20) True 0x30000
      retype_request = Some (e, s') \<and> untyped_wf (cap_at s' 0x20) \<and>
    (e = EXCEPTION_NONE \<longrightarrow> (\<exists>cnode u. allocated 0x20 cnode 0 4 2 u retype_request s'))"
proof -
  have a: "getSyscallArg 5 0x30000 retype_request = 2" "getSyscallArg 4 0x30000 retype_request = 0"
    "getSyscallArg 0 0x30000 retype_request = seL4_EndpointObject" "getSyscallArg 1 0x30000 retype_request = 0"
    by (simp_all add: getSyscallArg_def n_msgRegisters_def buf_addr_def retype_request_def zero_state_def
        getRegister_def msgRegisters_def)
  have os: "unat (getObjectSize seL4_EndpointObject 0) = 4"
    by (simp add: getObjectSize_def object_type_defs size_bits_defs)
  have c: "cap_at retype_request 0x20 = cap_untyped_cap 0 False 12 0x10000" by (simp add: retype_request_caps)
  have wf: "untyped_wf (cap_at retype_request 0x20)" by (simp add: c untyped_wf_def size_bits_defs is_aligned_def)
  show ?thesis
    using decodeUntypedInvocation_allocates [OF c wf _ retype_request_ok(1) _ _ retype_request_ok(2,3),
        of "\<lambda>_. (False, 0)" UntypedRetype 6 True "0x30000"] retype_request_ok(4)
    by (auto simp: a os)
qed

end
