(* ===== verification/SchedContext.thy ===== *)
theory SchedContext
  imports Domain
begin

text \<open>
  Scheduling contexts: binding them to threads and notifications, donation, the report of
  consumed time and yielding (\<^verbatim>\<open>src/object/schedcontext.c\<close>), and setting their parameters
  (\<^verbatim>\<open>src/object/schedcontrol.c\<close>). A reference to another object may be null; the code then
  does nothing or, where it asserts otherwise, follows the null pointer, as the model does.
\<close>

section \<open>Operations\<close>

definition sc_sporadic :: "word_t \<Rightarrow> kstate \<Rightarrow> bool" where
  "sc_sporadic sc s \<longleftrightarrow> sc \<noteq> 0 \<and> scSporadic (scs s sc)"

definition ticksToUs :: "ticks_t \<Rightarrow> word_t" where
  "ticksToUs ticks = ticks div TICKS_IN_US"

definition getMaxTicksToUs :: ticks_t where
  "getMaxTicksToUs = - 1"

definition MIN_BUDGET_US :: word_t where
  "MIN_BUDGET_US = 2 * getKernelWcetUs * 1"

text \<open>\<^verbatim>\<open>sizeof(sched_context_t)\<close> is 96 and \<^verbatim>\<open>sizeof(refill_t)\<close> is 16.\<close>

definition refill_absolute_max :: "cap \<Rightarrow> word_t" where
  "refill_absolute_max sc_cap = (BIT (unat (capSCSizeBits sc_cap)) - 96) div 16"

definition set_tcbSchedContext :: "word_t \<Rightarrow> word_t \<Rightarrow> kstate \<Rightarrow> kstate" where
  "set_tcbSchedContext tcb sc = upd_tcb tcb (\<lambda>t. t\<lparr>tcbSchedContext := sc\<rparr>)"

definition set_scTcb :: "word_t \<Rightarrow> word_t \<Rightarrow> kstate \<Rightarrow> kstate" where
  "set_scTcb sc tcb = upd_sc sc (\<lambda>c. c\<lparr>scTcb := tcb\<rparr>)"

definition schedContext_resume :: "word_t \<Rightarrow> kstate \<Rightarrow> kstate option" where
  "schedContext_resume sc s =
     (if sc \<noteq> 0 \<and> isSchedulable (scTcb (scs s sc)) s then
        if \<not> (refill_ready (ksCurTime s) (scs s sc) \<and> refill_sufficient (scs s sc) 0)
        then postpone sc s else Some s
      else Some s)"

definition schedContext_bindTCB :: "word_t \<Rightarrow> word_t \<Rightarrow> kstate \<Rightarrow> kstate option" where
  "schedContext_bindTCB sc tcb s = do {
     let s = set_tcbSchedContext tcb sc s;
     let s = set_scTcb sc tcb s;
     s \<leftarrow> (if sc_sporadic sc s \<and> sc_active (scs s sc) \<and> sc \<noteq> ksCurSC s
           then sc_refill_unblock_check sc s else Some s);
     s \<leftarrow> schedContext_resume sc s;
     Some (if isSchedulable tcb s then rescheduleRequired (tcbSchedEnqueue tcb s) else s)
   }"

definition schedContext_unbindTCB :: "word_t \<Rightarrow> kstate \<Rightarrow> kstate" where
  "schedContext_unbindTCB sc s =
     (let tcb = scTcb (scs s sc);
          s = (if tcb = ksCurThread s then rescheduleRequired s else s);
          s = tcbSchedDequeue tcb s;
          s = tcbReleaseRemove tcb s;
          s = set_tcbSchedContext tcb 0 s
      in set_scTcb sc 0 s)"

definition schedContext_unbindAllTCBs :: "word_t \<Rightarrow> kstate \<Rightarrow> kstate" where
  "schedContext_unbindAllTCBs sc s =
     (if scTcb (scs s sc) \<noteq> 0 then schedContext_unbindTCB sc s else s)"

definition schedContext_donate :: "word_t \<Rightarrow> word_t \<Rightarrow> kstate \<Rightarrow> kstate" where
  "schedContext_donate sc to s =
     (let from = scTcb (scs s sc);
          s = (if from \<noteq> 0 then
                 let s = tcbSchedDequeue from s;
                     s = tcbReleaseRemove from s;
                     s = set_tcbSchedContext from 0 s
                 in if from = ksCurThread s \<or> from = ksSchedulerAction s
                    then rescheduleRequired s else s
               else s);
          s = set_scTcb sc to s
      in set_tcbSchedContext to sc s)"

definition schedContext_bindNtfn :: "word_t \<Rightarrow> word_t \<Rightarrow> kstate \<Rightarrow> kstate" where
  "schedContext_bindNtfn sc ntfn s =
     upd_sc sc (\<lambda>c. c\<lparr>scNotification := ntfn\<rparr>) (upd_ntfn ntfn (\<lambda>n. n\<lparr>ntfnSchedContext := sc\<rparr>) s)"

definition schedContext_unbindNtfn :: "word_t \<Rightarrow> kstate \<Rightarrow> kstate" where
  "schedContext_unbindNtfn sc s =
     (if sc \<noteq> 0 \<and> scNotification (scs s sc) \<noteq> 0 then
        upd_sc sc (\<lambda>c. c\<lparr>scNotification := 0\<rparr>)
          (upd_ntfn (scNotification (scs s sc)) (\<lambda>n. n\<lparr>ntfnSchedContext := 0\<rparr>) s)
      else s)"

definition schedContextMaybeUnbindNtfn :: "word_t \<Rightarrow> kstate \<Rightarrow> kstate" where
  "schedContextMaybeUnbindNtfn ntfnPtr s =
     (let sc = ntfnSchedContext (ntfns s ntfnPtr)
      in if sc \<noteq> 0 then schedContext_unbindNtfn sc s else s)"

definition no_call_stack :: call_stack where
  "no_call_stack = \<lparr>isHead = False, callStackPtr = 0\<rparr>"

definition schedContext_unbindReply :: "word_t \<Rightarrow> kstate \<Rightarrow> kstate" where
  "schedContext_unbindReply sc s =
     (if sc \<noteq> 0 \<and> scReply (scs s sc) \<noteq> 0 then
        upd_sc sc (\<lambda>c. c\<lparr>scReply := 0\<rparr>)
          (upd_reply (scReply (scs s sc)) (\<lambda>r. r\<lparr>replyNext := no_call_stack\<rparr>) s)
      else s)"

definition schedContext_updateConsumed :: "word_t \<Rightarrow> kstate \<Rightarrow> word_t \<times> kstate" where
  "schedContext_updateConsumed sc s =
     (let consumed = scConsumed (scs s sc)
      in if consumed \<ge> getMaxTicksToUs then
           (ticksToUs getMaxTicksToUs,
            upd_sc sc (\<lambda>c. c\<lparr>scConsumed := scConsumed c - getMaxTicksToUs\<rparr>) s)
         else (ticksToUs consumed, upd_sc sc (\<lambda>c. c\<lparr>scConsumed := 0\<rparr>) s))"

definition schedContext_cancelYieldTo :: "word_t \<Rightarrow> kstate \<Rightarrow> kstate" where
  "schedContext_cancelYieldTo tcb s =
     (if tcb \<noteq> 0 \<and> tcbYieldTo (tcbs s tcb) \<noteq> 0 then
        upd_tcb tcb (\<lambda>t. t\<lparr>tcbYieldTo := 0\<rparr>)
          (upd_sc (tcbYieldTo (tcbs s tcb)) (\<lambda>c. c\<lparr>scYieldFrom := 0\<rparr>) s)
      else s)"

definition replyFromKernel_consumed :: "word_t \<Rightarrow> word_t \<Rightarrow> kstate \<Rightarrow> kstate" where
  "replyFromKernel_consumed thread consumed s =
     (let buffer = lookupIPCBuffer True thread s;
          s = setRegister thread badgeRegister 0 s;
          (len, s) = mode_setTimeArg 0 consumed buffer thread s
      in setRegister thread msgInfoRegister (wordFromMessageInfo (seL4_MessageInfo_new 0 0 0 len)) s)"

definition setConsumed :: "word_t \<Rightarrow> word_t \<Rightarrow> bool \<Rightarrow> kstate \<Rightarrow> kstate" where
  "setConsumed sc thread write_msg s =
     (let (consumed, s) = schedContext_updateConsumed sc s
      in if write_msg then replyFromKernel_consumed thread consumed s else s)"

definition schedContext_completeYieldTo :: "word_t \<Rightarrow> kstate \<Rightarrow> kstate" where
  "schedContext_completeYieldTo yielder s =
     (if yielder \<noteq> 0 \<and> tcbYieldTo (tcbs s yielder) \<noteq> 0 then
        schedContext_cancelYieldTo yielder (setConsumed (tcbYieldTo (tcbs s yielder)) yielder True s)
      else s)"

definition activateThread :: "kstate \<Rightarrow> kstate option" where
  "activateThread s =
     (let s = (if tcbYieldTo (tcbs s (ksCurThread s)) \<noteq> 0
               then schedContext_completeYieldTo (ksCurThread s) s else s)
      in case ts_type (tcbState (tcbs s (ksCurThread s))) of
           ThreadState_Running \<Rightarrow> Some s
         | ThreadState_Restart \<Rightarrow>
             let pc = getRegister s (ksCurThread s) FaultIP;
                 s = setRegister (ksCurThread s) NextIP pc s
             in Some (setThreadState (ksCurThread s) ThreadState_Running s)
         | ThreadState_IdleThreadState \<Rightarrow> Some s
         | _ \<Rightarrow> None)"

section \<open>Invocations of a scheduling context\<close>

definition invokeSchedContext_UnbindObject :: "word_t \<Rightarrow> cap \<Rightarrow> kstate \<Rightarrow> (exception \<times> kstate) option" where
  "invokeSchedContext_UnbindObject sc cap s =
     (case cap of
        cap_thread_cap _ \<Rightarrow> Some (EXCEPTION_NONE, schedContext_unbindTCB sc s)
      | cap_notification_cap _ _ _ _ \<Rightarrow> Some (EXCEPTION_NONE, schedContext_unbindNtfn sc s)
      | _ \<Rightarrow> None)"

definition decodeSchedContext_UnbindObject :: "word_t \<Rightarrow> kstate \<Rightarrow> (exception \<times> kstate) option" where
  "decodeSchedContext_UnbindObject sc s =
     (if current_extra_caps s 0 = 0 then Some (syscall_fail (\<lambda>e. e\<lparr>err_type := seL4_TruncatedMessage\<rparr>) s)
      else
        let cap = cte_cap (ctes s (current_extra_caps s 0));
            illegal = Some (syscall_fail (\<lambda>e. e\<lparr>err_type := seL4_IllegalOperation\<rparr>) s);
            accept = invokeSchedContext_UnbindObject sc cap
              (setThreadState (ksCurThread s) ThreadState_Restart s)
        in case cap of
             cap_thread_cap tcb \<Rightarrow>
               if scTcb (scs s sc) \<noteq> tcb then illegal
               else if scTcb (scs s sc) = ksCurThread s then illegal
               else accept
           | cap_notification_cap _ _ _ ntfn \<Rightarrow>
               if scNotification (scs s sc) \<noteq> ntfn then illegal else accept
           | _ \<Rightarrow> Some (syscall_fail (\<lambda>e. e\<lparr>err_type := seL4_InvalidCapability, invalidCapNumber := 1\<rparr>) s))"

definition invokeSchedContext_Bind :: "word_t \<Rightarrow> cap \<Rightarrow> kstate \<Rightarrow> (exception \<times> kstate) option" where
  "invokeSchedContext_Bind sc cap s =
     (case cap of
        cap_thread_cap tcb \<Rightarrow> map_option (Pair EXCEPTION_NONE) (schedContext_bindTCB sc tcb s)
      | cap_notification_cap _ _ _ ntfn \<Rightarrow> Some (EXCEPTION_NONE, schedContext_bindNtfn sc ntfn s)
      | _ \<Rightarrow> None)"

definition decodeSchedContext_Bind :: "word_t \<Rightarrow> kstate \<Rightarrow> (exception \<times> kstate) option" where
  "decodeSchedContext_Bind sc s =
     (if current_extra_caps s 0 = 0 then Some (syscall_fail (\<lambda>e. e\<lparr>err_type := seL4_TruncatedMessage\<rparr>) s)
      else
        let cap = cte_cap (ctes s (current_extra_caps s 0));
            illegal = Some (syscall_fail (\<lambda>e. e\<lparr>err_type := seL4_IllegalOperation\<rparr>) s);
            accept = invokeSchedContext_Bind sc cap
              (setThreadState (ksCurThread s) ThreadState_Restart s)
        in case cap of
             cap_thread_cap tcb \<Rightarrow>
               if scTcb (scs s sc) \<noteq> 0 then illegal
               else if tcbSchedContext (tcbs s tcb) \<noteq> 0 then illegal
               else if isBlocked (tcbs s tcb) \<and> \<not> sc_released (ksCurTime s) (scs s sc) then illegal
               else accept
           | cap_notification_cap _ _ _ ntfn \<Rightarrow>
               if scNotification (scs s sc) \<noteq> 0 then illegal
               else if ntfnSchedContext (ntfns s ntfn) \<noteq> 0 then illegal
               else accept
           | _ \<Rightarrow> Some (syscall_fail (\<lambda>e. e\<lparr>err_type := seL4_InvalidCapability, invalidCapNumber := 1\<rparr>) s))"

definition invokeSchedContext_Unbind :: "word_t \<Rightarrow> kstate \<Rightarrow> kstate" where
  "invokeSchedContext_Unbind sc s =
     schedContext_unbindReply sc (schedContext_unbindNtfn sc (schedContext_unbindAllTCBs sc s))"

definition invokeSchedContext_Consumed :: "word_t \<Rightarrow> bool \<Rightarrow> kstate \<Rightarrow> kstate" where
  "invokeSchedContext_Consumed sc call s =
     setThreadState (ksCurThread s) ThreadState_Running (setConsumed sc (ksCurThread s) call s)"

definition invokeSchedContext_YieldTo :: "word_t \<Rightarrow> bool \<Rightarrow> kstate \<Rightarrow> kstate option" where
  "invokeSchedContext_YieldTo sc call s = do {
     let s = (if scYieldFrom (scs s sc) \<noteq> 0
              then schedContext_completeYieldTo (scYieldFrom (scs s sc)) s else s);
     s \<leftarrow> schedContext_resume sc s;
     let tcb = scTcb (scs s sc);
     let (return_now, s) =
       (if isSchedulable tcb s then
          if tcbPriority (tcbs s tcb) < tcbPriority (tcbs s (ksCurThread s)) then
            (True, tcbSchedEnqueue tcb (tcbSchedDequeue tcb s))
          else
            let s = upd_tcb (ksCurThread s) (\<lambda>t. t\<lparr>tcbYieldTo := sc\<rparr>) s;
                s = upd_sc sc (\<lambda>c. c\<lparr>scYieldFrom := ksCurThread s\<rparr>) s;
                s = tcbSchedDequeue tcb s;
                s = tcbSchedEnqueue (ksCurThread s) s;
                s = tcbSchedEnqueue tcb s
            in (False, rescheduleRequired s)
        else (True, s));
     Some (if return_now
           then setThreadState (ksCurThread s) ThreadState_Running (setConsumed sc (ksCurThread s) call s)
           else s)
   }"

definition decodeSchedContext_YieldTo :: "word_t \<Rightarrow> bool \<Rightarrow> kstate \<Rightarrow> (exception \<times> kstate) option" where
  "decodeSchedContext_YieldTo sc call s =
     (let illegal = Some (syscall_fail (\<lambda>e. e\<lparr>err_type := seL4_IllegalOperation\<rparr>) s);
          tcb = scTcb (scs s sc)
      in if tcb = 0 then illegal
         else if tcb = ksCurThread s then illegal
         else if tcbPriority (tcbs s tcb) > tcbMCP (tcbs s (ksCurThread s)) then illegal
         else if tcbYieldTo (tcbs s (ksCurThread s)) \<noteq> 0 then illegal
         else map_option (Pair EXCEPTION_NONE)
           (invokeSchedContext_YieldTo sc call (setThreadState (ksCurThread s) ThreadState_Restart s)))"

definition decodeSchedContextInvocation ::
  "invocation_label \<Rightarrow> word_t \<Rightarrow> bool \<Rightarrow> kstate \<Rightarrow> (exception \<times> kstate) option" where
  "decodeSchedContextInvocation label sc call s =
     (case label of
        SchedContextConsumed \<Rightarrow>
          Some (EXCEPTION_NONE, invokeSchedContext_Consumed sc call
            (setThreadState (ksCurThread s) ThreadState_Restart s))
      | SchedContextBind \<Rightarrow> decodeSchedContext_Bind sc s
      | SchedContextUnbindObject \<Rightarrow> decodeSchedContext_UnbindObject sc s
      | SchedContextUnbind \<Rightarrow>
          if scTcb (scs s sc) = ksCurThread s
          then Some (syscall_fail (\<lambda>e. e\<lparr>err_type := seL4_IllegalOperation\<rparr>) s)
          else Some (EXCEPTION_NONE, invokeSchedContext_Unbind sc
            (setThreadState (ksCurThread s) ThreadState_Restart s))
      | SchedContextYieldTo \<Rightarrow> decodeSchedContext_YieldTo sc call s
      | _ \<Rightarrow> Some (syscall_fail (\<lambda>e. e\<lparr>err_type := seL4_IllegalOperation\<rparr>) s))"

section \<open>Invocations of scheduling control\<close>

definition seL4_SchedContext_Sporadic :: word_t where "seL4_SchedContext_Sporadic = 1"

definition configure_refills ::
  "word_t \<Rightarrow> word_t \<Rightarrow> ticks_t \<Rightarrow> ticks_t \<Rightarrow> word_t \<Rightarrow> kstate \<Rightarrow> kstate" where
  "configure_refills target thread budget period max_refills s =
     (if budget = period then
        upd_sc target (refill_new (ksCurTime s) MIN_REFILLS budget 0) s
      else if sc_active (scs s target) \<and> thread \<noteq> 0 \<and> isRunnable (tcbs s thread) then
        upd_sc target (refill_update (ksCurTime s) period budget max_refills) s
      else upd_sc target (refill_new (ksCurTime s) max_refills budget period) s)"

definition invokeSchedControl_ConfigureFlags ::
  "word_t \<Rightarrow> ticks_t \<Rightarrow> ticks_t \<Rightarrow> word_t \<Rightarrow> word_t \<Rightarrow> word_t \<Rightarrow> kstate \<Rightarrow> kstate option" where
  "invokeSchedControl_ConfigureFlags target budget period max_refills badge flags s = do {
     let thread = scTcb (scs s target);
     s \<leftarrow> (if thread \<noteq> 0 then
             let s = tcbReleaseRemove thread s;
                 s = tcbSchedDequeue thread s
             in if ksCurSC s = target then commitTime s else Some s
           else Some s);
     let s = configure_refills target thread budget period max_refills s;
     s \<leftarrow> (if thread \<noteq> 0 then do {
             s \<leftarrow> schedContext_resume target s;
             let s = (if isRunnable (tcbs s thread) \<and> thread \<noteq> ksCurThread s
                      then possibleSwitchTo thread s else s);
             Some (if thread = ksCurThread s then rescheduleRequired s else s)
           } else Some s);
     let s = upd_sc target (\<lambda>c. c\<lparr>scBadge := badge\<rparr>) s;
     Some (upd_sc target (\<lambda>c. c\<lparr>scSporadic := (flags AND seL4_SchedContext_Sporadic \<noteq> 0)\<rparr>) s)
   }"

definition budget_range_error :: "word_t \<Rightarrow> kstate \<Rightarrow> (exception \<times> kstate) option" where
  "budget_range_error m s =
     Some (syscall_fail (\<lambda>e. e\<lparr>err_type := seL4_RangeError, rangeErrorMin := MIN_BUDGET_US, rangeErrorMax := m\<rparr>) s)"

definition decodeSchedControl_ConfigureFlags ::
  "word_t \<Rightarrow> word_t \<Rightarrow> kstate \<Rightarrow> (exception \<times> kstate) option" where
  "decodeSchedControl_ConfigureFlags len buffer s =
     (if current_extra_caps s 0 = 0 then Some (syscall_fail (\<lambda>e. e\<lparr>err_type := seL4_TruncatedMessage\<rparr>) s)
      else if len < TIME_ARG_SIZE * 2 + 3 then Some (syscall_fail (\<lambda>e. e\<lparr>err_type := seL4_TruncatedMessage\<rparr>) s)
      else
        let budget_us = mode_parseTimeArg 0 buffer s in
        if budget_us > MAX_PERIOD_US then budget_range_error MAX_PERIOD_US s
        else
          let budget_ticks = usToTicks budget_us;
              period_us = mode_parseTimeArg TIME_ARG_SIZE buffer s in
          if period_us > MAX_PERIOD_US then budget_range_error MAX_PERIOD_US s
          else
            let period_ticks = usToTicks period_us in
            if budget_ticks < MIN_BUDGET then budget_range_error MAX_PERIOD_US s
            else if period_ticks < MIN_BUDGET then budget_range_error MAX_PERIOD_US s
            else if budget_ticks > period_ticks then budget_range_error period_us s
            else
              let targetCap = cte_cap (ctes s (current_extra_caps s 0)) in
              if \<not> is_cap_sched_context_cap targetCap then
                Some (syscall_fail (\<lambda>e. e\<lparr>err_type := seL4_InvalidCapability, invalidCapNumber := 1\<rparr>) s)
              else
                let extra_refills = getSyscallArg (TIME_ARG_SIZE * 2) buffer s;
                    max_refills = refill_absolute_max targetCap in
                if extra_refills > max_refills - MIN_REFILLS then
                  Some (syscall_fail (\<lambda>e. e\<lparr>err_type := seL4_RangeError, rangeErrorMin := 0,
                    rangeErrorMax := max_refills - MIN_REFILLS\<rparr>) s)
                else
                  let badge = getSyscallArg (TIME_ARG_SIZE * 2 + 1) buffer s;
                      flags = getSyscallArg (TIME_ARG_SIZE * 2 + 2) buffer s;
                      s = setThreadState (ksCurThread s) ThreadState_Restart s
                  in map_option (Pair EXCEPTION_NONE)
                       (invokeSchedControl_ConfigureFlags (capSCPtr targetCap) budget_ticks period_ticks
                         (extra_refills + MIN_REFILLS) badge flags s))"

definition decodeSchedControlInvocation ::
  "invocation_label \<Rightarrow> word_t \<Rightarrow> word_t \<Rightarrow> kstate \<Rightarrow> (exception \<times> kstate) option" where
  "decodeSchedControlInvocation label len buffer s =
     (case label of
        SchedControlConfigureFlags \<Rightarrow> decodeSchedControl_ConfigureFlags len buffer s
      | _ \<Rightarrow> Some (syscall_fail (\<lambda>e. e\<lparr>err_type := seL4_IllegalOperation\<rparr>) s))"

end
