(* ===== verification/Reply.thy ===== *)
theory Reply
  imports SchedContext
begin

text \<open>
  Reply objects (\<^verbatim>\<open>src/object/reply.c\<close>, \<^verbatim>\<open>include/object/reply.h\<close>): a reply object links a blocked
  caller to the callee that may answer it. The reply objects of nested calls that donated a
  scheduling context form the call stack of that context: \<open>scReply\<close> is the last caller, the
  \<open>replyPrev\<close> links lead to the earlier ones, and \<open>replyNext\<close> leads back, the one of the last
  caller to the scheduling context.
\<close>

section \<open>Operations\<close>

definition set_replyTCB :: "word_t \<Rightarrow> word_t \<Rightarrow> kstate \<Rightarrow> kstate" where
  "set_replyTCB reply tcb = upd_reply reply (\<lambda>r. r\<lparr>replyTCB := tcb\<rparr>)"

definition set_replyPrev :: "word_t \<Rightarrow> call_stack \<Rightarrow> kstate \<Rightarrow> kstate" where
  "set_replyPrev reply cs = upd_reply reply (\<lambda>r. r\<lparr>replyPrev := cs\<rparr>)"

definition set_replyNext :: "word_t \<Rightarrow> call_stack \<Rightarrow> kstate \<Rightarrow> kstate" where
  "set_replyNext reply cs = upd_reply reply (\<lambda>r. r\<lparr>replyNext := cs\<rparr>)"

definition set_scReply :: "word_t \<Rightarrow> word_t \<Rightarrow> kstate \<Rightarrow> kstate" where
  "set_scReply sc reply = upd_sc sc (\<lambda>c. c\<lparr>scReply := reply\<rparr>)"

definition call_stack_new :: "word_t \<Rightarrow> bool \<Rightarrow> call_stack" where
  "call_stack_new p head = \<lparr>isHead = head, callStackPtr = p\<rparr>"

definition reply_unlink :: "word_t \<Rightarrow> word_t \<Rightarrow> kstate \<Rightarrow> kstate" where
  "reply_unlink reply tcb s = setThreadState tcb ThreadState_Inactive (set_replyTCB reply 0 s)"

definition reply_push :: "word_t \<Rightarrow> word_t \<Rightarrow> word_t \<Rightarrow> bool \<Rightarrow> kstate \<Rightarrow> kstate" where
  "reply_push tcb_caller tcb_callee reply canDonate s =
     (let sc_donated = tcbSchedContext (tcbs s tcb_caller);
          s = set_replyTCB reply tcb_caller s;
          s = setThreadStateBlockedOnReply tcb_caller reply s
      in if sc_donated \<noteq> 0 \<and> tcbSchedContext (tcbs s tcb_callee) = 0 \<and> canDonate then
           let old_caller = scReply (scs s sc_donated);
               s = (if old_caller \<noteq> 0 then set_replyNext old_caller (call_stack_new reply False) s else s);
               s = set_replyPrev reply (call_stack_new old_caller False) s;
               s = set_scReply sc_donated reply s;
               s = set_replyNext reply (call_stack_new sc_donated True) s
           in schedContext_donate sc_donated tcb_callee s
         else s)"

definition reply_pop :: "word_t \<Rightarrow> word_t \<Rightarrow> kstate \<Rightarrow> kstate" where
  "reply_pop reply tcb s =
     (let next_ptr = callStackPtr (replyNext (replies s reply));
          prev_ptr = callStackPtr (replyPrev (replies s reply));
          s = set_scReply next_ptr prev_ptr s;
          s = (if prev_ptr \<noteq> 0 then set_replyNext prev_ptr (replyNext (replies s reply)) s else s);
          s = set_replyNext reply (call_stack_new 0 False) s;
          s = (if tcbSchedContext (tcbs s tcb) = 0 then schedContext_donate next_ptr tcb s else s);
          s = set_replyPrev reply (call_stack_new 0 False) s
      in reply_unlink reply tcb s)"

definition reply_remove :: "word_t \<Rightarrow> word_t \<Rightarrow> kstate \<Rightarrow> kstate" where
  "reply_remove reply tcb s =
     (let next_ptr = callStackPtr (replyNext (replies s reply));
          prev_ptr = callStackPtr (replyPrev (replies s reply))
      in if next_ptr \<noteq> 0 \<and> isHead (replyNext (replies s reply)) then reply_pop reply tcb s
         else
           let s = (if next_ptr \<noteq> 0 then set_replyPrev next_ptr (call_stack_new 0 False) s else s);
               s = (if prev_ptr \<noteq> 0 then set_replyNext prev_ptr (call_stack_new 0 False) s else s);
               s = set_replyPrev reply (call_stack_new 0 False) s;
               s = set_replyNext reply (call_stack_new 0 False) s
           in reply_unlink reply tcb s)"

definition reply_remove_tcb :: "word_t \<Rightarrow> kstate \<Rightarrow> kstate" where
  "reply_remove_tcb tcb s =
     (let reply = replyObject (tcbState (tcbs s tcb));
          next_ptr = callStackPtr (replyNext (replies s reply));
          prev_ptr = callStackPtr (replyPrev (replies s reply));
          s = (if next_ptr \<noteq> 0 then
                 if isHead (replyNext (replies s reply)) then set_scReply next_ptr 0 s
                 else set_replyPrev next_ptr (call_stack_new 0 False) s
               else s);
          s = (if prev_ptr \<noteq> 0 then set_replyNext prev_ptr (call_stack_new 0 False) s else s);
          s = set_replyPrev reply (call_stack_new 0 False) s;
          s = set_replyNext reply (call_stack_new 0 False) s
      in reply_unlink reply tcb s)"

end
