(* ===== verification/Notification.thy ===== *)
theory Notification
  imports Reply
begin

text \<open>
  Notifications (\<^verbatim>\<open>src/object/notification.c\<close>, \<^verbatim>\<open>include/object/notification.h\<close>), and the
  cancellation of a thread's communication (\<open>cancelIPC\<close> of \<^verbatim>\<open>src/object/endpoint.c\<close>), which
  signals to a bound thread need.
\<close>

section \<open>Queues of endpoints and notifications\<close>

definition ep_ptr_get_queue :: "word_t \<Rightarrow> kstate \<Rightarrow> tcb_queue" where
  "ep_ptr_get_queue epptr s = \<lparr>tcbq_head = epQueue_head (eps s epptr), tcbq_end = epQueue_tail (eps s epptr)\<rparr>"

definition ep_ptr_set_queue :: "word_t \<Rightarrow> tcb_queue \<Rightarrow> kstate \<Rightarrow> kstate" where
  "ep_ptr_set_queue epptr queue =
     upd_ep epptr (\<lambda>e. e\<lparr>epQueue_head := tcbq_head queue, epQueue_tail := tcbq_end queue\<rparr>)"

definition endpoint_ptr_set_state :: "word_t \<Rightarrow> endpoint_state \<Rightarrow> kstate \<Rightarrow> kstate" where
  "endpoint_ptr_set_state epptr st = upd_ep epptr (\<lambda>e. e\<lparr>ep_state := st\<rparr>)"

definition ntfn_ptr_get_queue :: "word_t \<Rightarrow> kstate \<Rightarrow> tcb_queue" where
  "ntfn_ptr_get_queue ntfnPtr s =
     \<lparr>tcbq_head = ntfnQueue_head (ntfns s ntfnPtr), tcbq_end = ntfnQueue_tail (ntfns s ntfnPtr)\<rparr>"

definition ntfn_ptr_set_queue :: "word_t \<Rightarrow> tcb_queue \<Rightarrow> kstate \<Rightarrow> kstate" where
  "ntfn_ptr_set_queue ntfnPtr queue =
     upd_ntfn ntfnPtr (\<lambda>n. n\<lparr>ntfnQueue_head := tcbq_head queue, ntfnQueue_tail := tcbq_end queue\<rparr>)"

definition notification_ptr_set_state :: "word_t \<Rightarrow> notification_state \<Rightarrow> kstate \<Rightarrow> kstate" where
  "notification_ptr_set_state ntfnPtr st = upd_ntfn ntfnPtr (\<lambda>n. n\<lparr>ntfn_state := st\<rparr>)"

section \<open>Cancellation\<close>

definition cancelSignal :: "word_t \<Rightarrow> word_t \<Rightarrow> kstate \<Rightarrow> kstate" where
  "cancelSignal threadPtr ntfnPtr s =
     (let (ntfn_queue, s) = tcbEPDequeue threadPtr (ntfn_ptr_get_queue ntfnPtr s) s;
          s = ntfn_ptr_set_queue ntfnPtr ntfn_queue s;
          s = (if tcbq_head ntfn_queue = 0 then notification_ptr_set_state ntfnPtr NtfnState_Idle s else s)
      in setThreadState threadPtr ThreadState_Inactive s)"

definition blockedIPCCancel :: "word_t \<Rightarrow> kstate \<Rightarrow> kstate" where
  "blockedIPCCancel tptr s =
     (let epptr = blockingObject (tcbState (tcbs s tptr));
          (queue, s) = tcbEPDequeue tptr (ep_ptr_get_queue epptr s) s;
          s = ep_ptr_set_queue epptr queue s;
          s = (if tcbq_head queue = 0 then endpoint_ptr_set_state epptr EPState_Idle s else s);
          s = (if ts_type (tcbState (tcbs s tptr)) = ThreadState_BlockedOnReceive then
                 let reply = replyObject (tcbState (tcbs s tptr))
                 in if reply \<noteq> 0 then reply_unlink reply tptr s else s
               else s)
      in setThreadState tptr ThreadState_Inactive s)"

definition cancelIPC :: "word_t \<Rightarrow> kstate \<Rightarrow> kstate" where
  "cancelIPC tptr s =
     (let s = upd_tcb tptr (\<lambda>t. t\<lparr>tcbFault := NullFault\<rparr>) s
      in case ts_type (tcbState (tcbs s tptr)) of
           ThreadState_BlockedOnSend \<Rightarrow> blockedIPCCancel tptr s
         | ThreadState_BlockedOnReceive \<Rightarrow> blockedIPCCancel tptr s
         | ThreadState_BlockedOnNotification \<Rightarrow>
             cancelSignal tptr (blockingObject (tcbState (tcbs s tptr))) s
         | ThreadState_BlockedOnReply \<Rightarrow> reply_remove_tcb tptr s
         | _ \<Rightarrow> s)"

section \<open>Signals\<close>

definition ntfn_set_active :: "word_t \<Rightarrow> word_t \<Rightarrow> kstate \<Rightarrow> kstate" where
  "ntfn_set_active ntfnPtr badge s =
     upd_ntfn ntfnPtr (\<lambda>n. n\<lparr>ntfnMsgIdentifier := badge\<rparr>) (notification_ptr_set_state ntfnPtr NtfnState_Active s)"

definition maybeDonateSchedContext :: "word_t \<Rightarrow> word_t \<Rightarrow> kstate \<Rightarrow> kstate option" where
  "maybeDonateSchedContext tcb ntfnPtr s =
     (if tcbSchedContext (tcbs s tcb) = 0 then
        let sc = ntfnSchedContext (ntfns s ntfnPtr)
        in if sc \<noteq> 0 \<and> scTcb (scs s sc) = 0
           then schedContext_resume sc (schedContext_donate sc tcb s)
           else Some s
      else Some s)"

definition maybeReturnSchedContext :: "word_t \<Rightarrow> word_t \<Rightarrow> kstate \<Rightarrow> kstate" where
  "maybeReturnSchedContext ntfnPtr tcb s =
     (let sc = ntfnSchedContext (ntfns s ntfnPtr)
      in if sc \<noteq> 0 \<and> sc = tcbSchedContext (tcbs s tcb) then
           let s = set_tcbSchedContext tcb 0 s;
               s = set_scTcb sc 0 s
           in if tcb = ksCurThread s then rescheduleRequired s else s
         else s)"

text \<open>
  Waking a thread with a signal: \<open>MCS_DO_IF_SC\<close> around \<open>possibleSwitchTo\<close>, then the
  replenishment of a sporadic scheduling context.
\<close>

definition unblock_sporadic :: "word_t \<Rightarrow> kstate \<Rightarrow> kstate option" where
  "unblock_sporadic tcb s =
     (if sc_sporadic (tcbSchedContext (tcbs s tcb)) s \<and> tcbSchedContext (tcbs s tcb) \<noteq> ksCurSC s
      then sc_refill_unblock_check (tcbSchedContext (tcbs s tcb)) s else Some s)"

definition signal_wake :: "word_t \<Rightarrow> word_t \<Rightarrow> word_t \<Rightarrow> kstate \<Rightarrow> kstate option" where
  "signal_wake tcb ntfnPtr badge s = do {
     let s = setThreadState tcb ThreadState_Running s;
     let s = setRegister tcb badgeRegister badge s;
     s \<leftarrow> maybeDonateSchedContext tcb ntfnPtr s;
     let s = (if isSchedulable tcb s then possibleSwitchTo tcb s else s);
     unblock_sporadic tcb s
   }"

definition sendSignal :: "word_t \<Rightarrow> word_t \<Rightarrow> kstate \<Rightarrow> kstate option" where
  "sendSignal ntfnPtr badge s =
     (case ntfn_state (ntfns s ntfnPtr) of
        NtfnState_Idle \<Rightarrow>
          (let tcb = ntfnBoundTCB (ntfns s ntfnPtr)
           in if tcb \<noteq> 0 then
                if ts_type (tcbState (tcbs s tcb)) = ThreadState_BlockedOnReceive then
                  signal_wake tcb ntfnPtr badge (cancelIPC tcb s)
                else Some (ntfn_set_active ntfnPtr badge s)
              else Some (ntfn_set_active ntfnPtr badge s))
      | NtfnState_Waiting \<Rightarrow>
          (let dest = tcbq_head (ntfn_ptr_get_queue ntfnPtr s);
               (ntfn_queue, s) = tcbEPDequeue dest (ntfn_ptr_get_queue ntfnPtr s) s;
               s = ntfn_ptr_set_queue ntfnPtr ntfn_queue s;
               s = (if tcbq_head ntfn_queue = 0 then notification_ptr_set_state ntfnPtr NtfnState_Idle s else s)
           in signal_wake dest ntfnPtr badge s)
      | NtfnState_Active \<Rightarrow>
          (let badge2 = ntfnMsgIdentifier (ntfns s ntfnPtr);
               badge2 = badge2 OR badge
           in Some (upd_ntfn ntfnPtr (\<lambda>n. n\<lparr>ntfnMsgIdentifier := badge2\<rparr>) s)))"

definition receiveSignal_block :: "word_t \<Rightarrow> word_t \<Rightarrow> kstate \<Rightarrow> kstate option" where
  "receiveSignal_block thread ntfnPtr s = do {
     let s = set_tcbState thread (\<lambda>st. st\<lparr>ts_type := ThreadState_BlockedOnNotification\<rparr>) s;
     let s = set_tcbState thread (\<lambda>st. st\<lparr>blockingObject := ntfnPtr\<rparr>) s;
     let s = scheduleTCB thread s;
     (ntfn_queue, s) \<leftarrow> tcbEPAppend thread (ntfn_ptr_get_queue ntfnPtr s) s;
     let s = notification_ptr_set_state ntfnPtr NtfnState_Waiting s;
     let s = ntfn_ptr_set_queue ntfnPtr ntfn_queue s;
     Some (maybeReturnSchedContext ntfnPtr thread s)
   }"

definition receiveSignal :: "word_t \<Rightarrow> cap \<Rightarrow> bool \<Rightarrow> kstate \<Rightarrow> kstate option" where
  "receiveSignal thread cap isBlocking s =
     (let ntfnPtr = capNtfnPtr cap;
          wait = (if isBlocking then receiveSignal_block thread ntfnPtr s
                  else Some (doNBRecvFailedTransfer thread s))
      in case ntfn_state (ntfns s ntfnPtr) of
           NtfnState_Idle \<Rightarrow> wait
         | NtfnState_Waiting \<Rightarrow> wait
         | NtfnState_Active \<Rightarrow> do {
             let s = setRegister thread badgeRegister (ntfnMsgIdentifier (ntfns s ntfnPtr)) s;
             let s = notification_ptr_set_state ntfnPtr NtfnState_Idle s;
             s \<leftarrow> maybeDonateSchedContext thread ntfnPtr s;
             if tcbSchedContext (tcbs s thread) \<noteq> ksCurSC s \<and> sc_sporadic (tcbSchedContext (tcbs s thread)) s
             then sc_refill_unblock_check (tcbSchedContext (tcbs s thread)) s
             else Some s
           })"

partial_function (option) cancelAllSignals_loop :: "word_t \<Rightarrow> kstate \<Rightarrow> kstate option" where
  "cancelAllSignals_loop thread s =
     (if thread = 0 then Some s
      else do {
        let s = setThreadState thread ThreadState_Restart s;
        s \<leftarrow> unblock_sporadic thread s;
        let s = possibleSwitchTo thread s;
        cancelAllSignals_loop (tcbEPNext (tcbs s thread)) s
      })"

definition cancelAllSignals :: "word_t \<Rightarrow> kstate \<Rightarrow> kstate option" where
  "cancelAllSignals ntfnPtr s =
     (if ntfn_state (ntfns s ntfnPtr) = NtfnState_Waiting then do {
        let thread = ntfnQueue_head (ntfns s ntfnPtr);
        let s = notification_ptr_set_state ntfnPtr NtfnState_Idle s;
        let s = upd_ntfn ntfnPtr (\<lambda>n. n\<lparr>ntfnQueue_head := 0\<rparr>) s;
        let s = upd_ntfn ntfnPtr (\<lambda>n. n\<lparr>ntfnQueue_tail := 0\<rparr>) s;
        s \<leftarrow> cancelAllSignals_loop thread s;
        Some (rescheduleRequired s)
      } else Some s)"

definition completeSignal :: "word_t \<Rightarrow> word_t \<Rightarrow> kstate \<Rightarrow> kstate option" where
  "completeSignal ntfnPtr tcb s =
     (if tcb \<noteq> 0 \<and> ntfn_state (ntfns s ntfnPtr) = NtfnState_Active then do {
        let badge = ntfnMsgIdentifier (ntfns s ntfnPtr);
        let s = setRegister tcb badgeRegister badge s;
        let s = notification_ptr_set_state ntfnPtr NtfnState_Idle s;
        s \<leftarrow> maybeDonateSchedContext tcb ntfnPtr s;
        if sc_sporadic (tcbSchedContext (tcbs s tcb)) s then
          let sc = ntfnSchedContext (ntfns s ntfnPtr)
          in if tcbSchedContext (tcbs s tcb) = sc \<and> tcbSchedContext (tcbs s tcb) \<noteq> ksCurSC s
             then sc_refill_unblock_check (tcbSchedContext (tcbs s tcb)) s else Some s
        else Some s
      } else None)"

section \<open>Binding to a thread\<close>

definition doUnbindNotification :: "word_t \<Rightarrow> word_t \<Rightarrow> kstate \<Rightarrow> kstate" where
  "doUnbindNotification ntfnPtr tcbptr s =
     upd_tcb tcbptr (\<lambda>t. t\<lparr>tcbBoundNotification := 0\<rparr>) (upd_ntfn ntfnPtr (\<lambda>n. n\<lparr>ntfnBoundTCB := 0\<rparr>) s)"

definition unbindMaybeNotification :: "word_t \<Rightarrow> kstate \<Rightarrow> kstate" where
  "unbindMaybeNotification ntfnPtr s =
     (let boundTCB = ntfnBoundTCB (ntfns s ntfnPtr)
      in if boundTCB \<noteq> 0 then doUnbindNotification ntfnPtr boundTCB s else s)"

definition unbindNotification :: "word_t \<Rightarrow> kstate \<Rightarrow> kstate" where
  "unbindNotification tcb s =
     (let ntfnPtr = tcbBoundNotification (tcbs s tcb)
      in if ntfnPtr \<noteq> 0 then doUnbindNotification ntfnPtr tcb s else s)"

definition bindNotification :: "word_t \<Rightarrow> word_t \<Rightarrow> kstate \<Rightarrow> kstate" where
  "bindNotification tcb ntfnPtr s =
     upd_tcb tcb (\<lambda>t. t\<lparr>tcbBoundNotification := ntfnPtr\<rparr>) (upd_ntfn ntfnPtr (\<lambda>n. n\<lparr>ntfnBoundTCB := tcb\<rparr>) s)"

definition reorderNTFN :: "word_t \<Rightarrow> word_t \<Rightarrow> kstate \<Rightarrow> kstate option" where
  "reorderNTFN ntfnPtr thread s = do {
     let (queue, s) = tcbEPDequeue thread (ntfn_ptr_get_queue ntfnPtr s) s;
     (queue, s) \<leftarrow> tcbEPAppend thread queue s;
     Some (ntfn_ptr_set_queue ntfnPtr queue s)
   }"

end
