(* ===== verification/Endpoint.thy ===== *)
theory Endpoint
  imports Notification
begin

text \<open>
  Synchronous communication: fault messages (\<^verbatim>\<open>src/api/faults.c\<close> and its RISC-V part), the
  transfer of messages and replies (\<^verbatim>\<open>src/kernel/thread.c\<close>), endpoints
  (\<^verbatim>\<open>src/object/endpoint.c\<close>) and fault handlers (\<^verbatim>\<open>src/kernel/faulthandler.c\<close>).
\<close>

section \<open>Fault messages\<close>

text \<open>The register lists \<open>fault_messages\<close>, by message identifier.\<close>

datatype MessageID = MessageID_Syscall | MessageID_Exception | MessageID_TimeoutReply

fun fault_messages :: "MessageID \<Rightarrow> register list" where
  "fault_messages MessageID_Syscall = [33, 1, 0, 9, 10, 11, 12, 13, 14, 15]"
| "fault_messages MessageID_Exception = [33, 1]"
| "fault_messages MessageID_TimeoutReply =
     [33, 0, 1, 2, 7, 8, 17, 18, 19, 20, 21, 22, 23, 24, 25, 26,
      9, 10, 11, 12, 13, 14, 15, 16, 4, 5, 6, 27, 28, 29, 30, 3]"

definition n_exceptionMessage :: word_t where "n_exceptionMessage = 2"
definition n_syscallMessage :: word_t where "n_syscallMessage = 10"
definition n_timeoutMessage :: word_t where "n_timeoutMessage = 32"

definition sanitiseRegister :: "register \<Rightarrow> word_t \<Rightarrow> bool \<Rightarrow> word_t" where
  "sanitiseRegister reg v archInfo = v"

definition getRestartPC :: "kstate \<Rightarrow> word_t \<Rightarrow> word_t" where
  "getRestartPC s thread = getRegister s thread FaultIP"

definition seL4_Fault_get_seL4_FaultType :: "seL4_Fault \<Rightarrow> word_t" where
  "seL4_Fault_get_seL4_FaultType f =
     (case f of NullFault \<Rightarrow> 0 | CapFault _ _ \<Rightarrow> 1 | UnknownSyscall _ \<Rightarrow> 2 | UserException _ _ \<Rightarrow> 3
      | Timeout _ \<Rightarrow> 5 | VMFault _ _ _ \<Rightarrow> 6)"

definition is_Timeout_fault :: "seL4_Fault \<Rightarrow> bool" where
  "is_Timeout_fault f \<longleftrightarrow> seL4_Fault_get_seL4_FaultType f = 5"

definition syscall_error_number :: "syscall_error_type \<Rightarrow> word_t" where
  "syscall_error_number e =
     (case e of seL4_NoError \<Rightarrow> 0 | seL4_InvalidArgument \<Rightarrow> 1 | seL4_InvalidCapability \<Rightarrow> 2
      | seL4_IllegalOperation \<Rightarrow> 3 | seL4_RangeError \<Rightarrow> 4 | seL4_AlignmentError \<Rightarrow> 5
      | seL4_FailedLookup \<Rightarrow> 6 | seL4_TruncatedMessage \<Rightarrow> 7 | seL4_DeleteFirst \<Rightarrow> 8
      | seL4_RevokeFirst \<Rightarrow> 9 | seL4_NotEnoughMemory \<Rightarrow> 10)"

definition copyMRsFaultReply :: "word_t \<Rightarrow> word_t \<Rightarrow> MessageID \<Rightarrow> word_t \<Rightarrow> kstate \<Rightarrow> kstate" where
  "copyMRsFaultReply sender receiver mid len s =
     (let archInfo = False;
          i = min (unat len) (unat n_msgRegisters);
          s = fold (\<lambda>i s. let r = fault_messages mid ! i;
                              v = getRegister s sender (msgRegisters ! i)
                          in setRegister receiver r (sanitiseRegister r v archInfo) s) [0..<i] s
      in if i < unat len then
           let sendBuf = lookupIPCBuffer False sender s
           in if sendBuf \<noteq> 0 then
                fold (\<lambda>i s. let r = fault_messages mid ! i;
                                v = user_words s (buf_addr sendBuf (of_nat i + 1))
                            in setRegister receiver r (sanitiseRegister r v archInfo) s) [i..<unat len] s
              else s
         else s)"

definition copyMRsFault :: "word_t \<Rightarrow> word_t \<Rightarrow> MessageID \<Rightarrow> word_t \<Rightarrow> word_t \<Rightarrow> kstate \<Rightarrow> kstate" where
  "copyMRsFault sender receiver mid len receiveIPCBuffer s =
     (let i = min (unat len) (unat n_msgRegisters);
          s = fold (\<lambda>i s. setRegister receiver (msgRegisters ! i)
                            (getRegister s sender (fault_messages mid ! i)) s) [0..<i] s
      in if receiveIPCBuffer \<noteq> 0 then
           fold (\<lambda>i s. set_user_word (buf_addr receiveIPCBuffer (of_nat i + 1))
                         (getRegister s sender (fault_messages mid ! i)) s) [i..<unat len] s
         else s)"

definition Arch_handleFaultReply :: "word_t \<Rightarrow> word_t \<Rightarrow> seL4_Fault \<Rightarrow> kstate \<Rightarrow> (bool \<times> kstate) option" where
  "Arch_handleFaultReply receiver sender fault s =
     (case fault of VMFault _ _ _ \<Rightarrow> Some (True, s) | _ \<Rightarrow> None)"

definition handleFaultReply :: "word_t \<Rightarrow> word_t \<Rightarrow> kstate \<Rightarrow> (bool \<times> kstate) option" where
  "handleFaultReply receiver sender s =
     (let tag = messageInfoFromWord (getRegister s sender msgInfoRegister);
          label = seL4_MessageInfo_get_label tag;
          len = seL4_MessageInfo_get_length tag;
          fault = tcbFault (tcbs s receiver)
      in case fault of
           CapFault _ _ \<Rightarrow> Some (True, s)
         | UnknownSyscall _ \<Rightarrow>
             Some (label = 0, copyMRsFaultReply sender receiver MessageID_Syscall (min len n_syscallMessage) s)
         | UserException _ _ \<Rightarrow>
             Some (label = 0, copyMRsFaultReply sender receiver MessageID_Exception (min len n_exceptionMessage) s)
         | Timeout _ \<Rightarrow>
             Some (label = 0, copyMRsFaultReply sender receiver MessageID_TimeoutReply (min len n_timeoutMessage) s)
         | _ \<Rightarrow> Arch_handleFaultReply receiver sender fault s)"

definition bool_word :: "bool \<Rightarrow> word_t" where
  "bool_word b = (if b then 1 else 0)"

definition Arch_setMRs_fault :: "word_t \<Rightarrow> word_t \<Rightarrow> word_t \<Rightarrow> seL4_Fault \<Rightarrow> kstate \<Rightarrow> (word_t \<times> kstate) option" where
  "Arch_setMRs_fault sender receiver receiveIPCBuffer fault s =
     (case fault of
        VMFault address FSR instructionFault \<Rightarrow>
          let s = snd (setMR receiver receiveIPCBuffer 0 (getRestartPC s sender) s);
              s = snd (setMR receiver receiveIPCBuffer 1 address s);
              s = snd (setMR receiver receiveIPCBuffer 2 (bool_word instructionFault) s)
          in Some (setMR receiver receiveIPCBuffer 3 FSR s)
      | _ \<Rightarrow> None)"

definition setMRs_fault :: "word_t \<Rightarrow> word_t \<Rightarrow> word_t \<Rightarrow> kstate \<Rightarrow> (word_t \<times> kstate) option" where
  "setMRs_fault sender receiver receiveIPCBuffer s =
     (let fault = tcbFault (tcbs s sender)
      in case fault of
           CapFault address inReceivePhase \<Rightarrow>
             let s = snd (setMR receiver receiveIPCBuffer 0 (getRestartPC s sender) s);
                 s = snd (setMR receiver receiveIPCBuffer 1 address s);
                 s = snd (setMR receiver receiveIPCBuffer 2 (bool_word inReceivePhase) s)
             in Some (setMRs_lookup_failure receiver receiveIPCBuffer (tcbLookupFailure (tcbs s sender)) 3 s)
         | UnknownSyscall syscallNumber \<Rightarrow>
             let s = copyMRsFault sender receiver MessageID_Syscall n_syscallMessage receiveIPCBuffer s
             in Some (setMR receiver receiveIPCBuffer n_syscallMessage syscallNumber s)
         | UserException number code \<Rightarrow>
             let s = copyMRsFault sender receiver MessageID_Exception n_exceptionMessage receiveIPCBuffer s;
                 s = snd (setMR receiver receiveIPCBuffer n_exceptionMessage number s)
             in Some (setMR receiver receiveIPCBuffer (n_exceptionMessage + 1) code s)
         | Timeout badge \<Rightarrow>
             if tcbSchedContext (tcbs s sender) \<noteq> 0 then
               let (consumed, s) = schedContext_updateConsumed (tcbSchedContext (tcbs s sender)) s;
                   (len, s) = setMR receiver receiveIPCBuffer 0 badge s
               in Some (mode_setTimeArg len consumed receiveIPCBuffer receiver s)
             else Some (setMR receiver receiveIPCBuffer 0 badge s)
         | _ \<Rightarrow> Arch_setMRs_fault sender receiver receiveIPCBuffer fault s)"

section \<open>Transfers\<close>

definition doFaultTransfer :: "word_t \<Rightarrow> word_t \<Rightarrow> word_t \<Rightarrow> word_t \<Rightarrow> kstate \<Rightarrow> kstate option" where
  "doFaultTransfer badge sender receiver receiverIPCBuffer s = do {
     (sent, s) \<leftarrow> setMRs_fault sender receiver receiverIPCBuffer s;
     let msgInfo = seL4_MessageInfo_new (seL4_Fault_get_seL4_FaultType (tcbFault (tcbs s sender))) 0 0 sent;
     let s = setRegister receiver msgInfoRegister (wordFromMessageInfo msgInfo) s;
     Some (setRegister receiver badgeRegister badge s)
   }"

definition doIPCTransfer :: "word_t \<Rightarrow> word_t \<Rightarrow> word_t \<Rightarrow> bool \<Rightarrow> word_t \<Rightarrow> kstate \<Rightarrow> kstate option" where
  "doIPCTransfer sender endpoint badge grant receiver s =
     (let receiveBuffer = lookupIPCBuffer True receiver s
      in if tcbFault (tcbs s sender) = NullFault then
           let sendBuffer = lookupIPCBuffer False sender s
           in doNormalTransfer sender sendBuffer endpoint badge grant receiver receiveBuffer s
         else doFaultTransfer badge sender receiver receiveBuffer s)"

section \<open>Endpoints\<close>

definition sendIPC_block ::
  "bool \<Rightarrow> word_t \<Rightarrow> bool \<Rightarrow> bool \<Rightarrow> word_t \<Rightarrow> word_t \<Rightarrow> kstate \<Rightarrow> kstate option" where
  "sendIPC_block do_call badge canGrant canGrantReply thread epptr s = do {
     let s = set_tcbState thread (\<lambda>st. st\<lparr>ts_type := ThreadState_BlockedOnSend\<rparr>) s;
     let s = set_tcbState thread (\<lambda>st. st\<lparr>blockingObject := epptr\<rparr>) s;
     let s = set_tcbState thread (\<lambda>st. st\<lparr>blockingIPCBadge := badge\<rparr>) s;
     let s = set_tcbState thread (\<lambda>st. st\<lparr>blockingIPCCanGrant := canGrant\<rparr>) s;
     let s = set_tcbState thread (\<lambda>st. st\<lparr>blockingIPCCanGrantReply := canGrantReply\<rparr>) s;
     let s = set_tcbState thread (\<lambda>st. st\<lparr>blockingIPCIsCall := do_call\<rparr>) s;
     let s = scheduleTCB thread s;
     (queue, s) \<leftarrow> tcbEPAppend thread (ep_ptr_get_queue epptr s) s;
     let s = endpoint_ptr_set_state epptr EPState_Send s;
     Some (ep_ptr_set_queue epptr queue s)
   }"

text \<open>Taking the first thread off an endpoint's queue, as senders and receivers do.\<close>

definition ep_take_head :: "word_t \<Rightarrow> kstate \<Rightarrow> word_t \<times> kstate" where
  "ep_take_head epptr s =
     (let queue = ep_ptr_get_queue epptr s;
          dest = tcbq_head queue;
          (queue, s) = tcbEPDequeue dest queue s;
          s = ep_ptr_set_queue epptr queue s
      in (dest, if tcbq_head queue = 0 then endpoint_ptr_set_state epptr EPState_Idle s else s))"

definition sendIPC_meet ::
  "bool \<Rightarrow> word_t \<Rightarrow> bool \<Rightarrow> bool \<Rightarrow> bool \<Rightarrow> word_t \<Rightarrow> word_t \<Rightarrow> kstate \<Rightarrow> kstate option" where
  "sendIPC_meet do_call badge canGrant canGrantReply canDonate thread epptr s = do {
     let (dest, s) = ep_take_head epptr s;
     s \<leftarrow> doIPCTransfer thread epptr badge canGrant dest s;
     let reply = replyObject (tcbState (tcbs s dest));
     let s = (if reply \<noteq> 0 then reply_unlink reply dest s else s);
     let s = (if do_call \<or> tcbFault (tcbs s thread) \<noteq> NullFault then
                if reply \<noteq> 0 \<and> (canGrant \<or> canGrantReply) then reply_push thread dest reply canDonate s
                else setThreadState thread ThreadState_Inactive s
              else if canDonate \<and> tcbSchedContext (tcbs s dest) = 0 then
                schedContext_donate (tcbSchedContext (tcbs s thread)) dest s
              else s);
     let s = setThreadState dest ThreadState_Running s;
     s \<leftarrow> unblock_sporadic dest s;
     Some (possibleSwitchTo dest s)
   }"

definition sendIPC ::
  "bool \<Rightarrow> bool \<Rightarrow> word_t \<Rightarrow> bool \<Rightarrow> bool \<Rightarrow> bool \<Rightarrow> word_t \<Rightarrow> word_t \<Rightarrow> kstate \<Rightarrow> kstate option" where
  "sendIPC blocking do_call badge canGrant canGrantReply canDonate thread epptr s =
     (case ep_state (eps s epptr) of
        EPState_Recv \<Rightarrow> sendIPC_meet do_call badge canGrant canGrantReply canDonate thread epptr s
      | _ \<Rightarrow> if blocking then sendIPC_block do_call badge canGrant canGrantReply thread epptr s
             else Some s)"

definition receiveIPC_block :: "word_t \<Rightarrow> word_t \<Rightarrow> word_t \<Rightarrow> kstate \<Rightarrow> kstate option" where
  "receiveIPC_block thread epptr replyPtr s = do {
     let s = set_tcbState thread (\<lambda>st. st\<lparr>ts_type := ThreadState_BlockedOnReceive\<rparr>) s;
     let s = set_tcbState thread (\<lambda>st. st\<lparr>blockingObject := epptr\<rparr>) s;
     let s = set_tcbState thread (\<lambda>st. st\<lparr>replyObject := replyPtr\<rparr>) s;
     let s = (if replyPtr \<noteq> 0 then set_replyTCB replyPtr thread s else s);
     let s = scheduleTCB thread s;
     (queue, s) \<leftarrow> tcbEPAppend thread (ep_ptr_get_queue epptr s) s;
     let s = endpoint_ptr_set_state epptr EPState_Recv s;
     Some (ep_ptr_set_queue epptr queue s)
   }"

definition receiveIPC_meet :: "word_t \<Rightarrow> word_t \<Rightarrow> word_t \<Rightarrow> kstate \<Rightarrow> kstate option" where
  "receiveIPC_meet thread epptr replyPtr s = do {
     let (sender, s) = ep_take_head epptr s;
     let badge = blockingIPCBadge (tcbState (tcbs s sender));
     let canGrant = blockingIPCCanGrant (tcbState (tcbs s sender));
     let canGrantReply = blockingIPCCanGrantReply (tcbState (tcbs s sender));
     s \<leftarrow> doIPCTransfer sender epptr badge canGrant thread s;
     let do_call = blockingIPCIsCall (tcbState (tcbs s sender));
     s \<leftarrow> unblock_sporadic sender s;
     Some (if do_call \<or> tcbFault (tcbs s sender) \<noteq> NullFault then
             if (canGrant \<or> canGrantReply) \<and> replyPtr \<noteq> 0 then
               let canDonate = (tcbSchedContext (tcbs s sender) \<noteq> 0 \<and> \<not> is_Timeout_fault (tcbFault (tcbs s sender)))
               in reply_push sender thread replyPtr canDonate s
             else setThreadState sender ThreadState_Inactive s
           else possibleSwitchTo sender (setThreadState sender ThreadState_Running s))
   }"

definition receiveIPC_reply :: "word_t \<Rightarrow> cap \<Rightarrow> kstate \<Rightarrow> word_t \<times> kstate" where
  "receiveIPC_reply thread replyCap s =
     (if is_cap_reply_cap replyCap then
        let replyPtr = capReplyPtr replyCap
        in (replyPtr, if replyTCB (replies s replyPtr) \<noteq> 0 \<and> replyTCB (replies s replyPtr) \<noteq> thread
                      then cancelIPC (replyTCB (replies s replyPtr)) s else s)
      else (0, s))"

definition receiveIPC :: "word_t \<Rightarrow> cap \<Rightarrow> bool \<Rightarrow> cap \<Rightarrow> kstate \<Rightarrow> kstate option" where
  "receiveIPC thread cap isBlocking replyCap s =
     (let epptr = capEPPtr cap;
          (replyPtr, s) = receiveIPC_reply thread replyCap s;
          ntfnPtr = tcbBoundNotification (tcbs s thread)
      in if ntfnPtr \<noteq> 0 \<and> ntfn_state (ntfns s ntfnPtr) = NtfnState_Active then completeSignal ntfnPtr thread s
         else
           let s = (if ntfnPtr \<noteq> 0 \<and> isBlocking then maybeReturnSchedContext ntfnPtr thread s else s)
           in case ep_state (eps s epptr) of
                EPState_Send \<Rightarrow> receiveIPC_meet thread epptr replyPtr s
              | _ \<Rightarrow> if isBlocking then receiveIPC_block thread epptr replyPtr s
                     else Some (doNBRecvFailedTransfer thread s))"

definition replyFromKernel_error :: "word_t \<Rightarrow> kstate \<Rightarrow> kstate option" where
  "replyFromKernel_error thread s = do {
     let ipcBuffer = lookupIPCBuffer True thread s;
     let s = setRegister thread badgeRegister 0 s;
     (len, s) \<leftarrow> setMRs_syscall_error thread ipcBuffer s;
     Some (setRegister thread msgInfoRegister (wordFromMessageInfo (seL4_MessageInfo_new
       (syscall_error_number (err_type (current_syscall_error s))) 0 0 len)) s)
   }"

definition replyFromKernel_success_empty :: "word_t \<Rightarrow> kstate \<Rightarrow> kstate" where
  "replyFromKernel_success_empty thread s =
     setRegister thread msgInfoRegister (wordFromMessageInfo (seL4_MessageInfo_new 0 0 0 0))
       (setRegister thread badgeRegister 0 s)"

definition restart_thread_if_no_fault :: "word_t \<Rightarrow> kstate \<Rightarrow> kstate option" where
  "restart_thread_if_no_fault thread s =
     (if tcbFault (tcbs s thread) = NullFault then do {
        let s = setThreadState thread ThreadState_Restart s;
        s \<leftarrow> unblock_sporadic thread s;
        Some (possibleSwitchTo thread s)
      } else Some (setThreadState thread ThreadState_Inactive s))"

partial_function (option) cancelAllIPC_loop :: "word_t \<Rightarrow> kstate \<Rightarrow> kstate option" where
  "cancelAllIPC_loop thread s =
     (if thread = 0 then Some s
      else do {
        let reply = replyObject (tcbState (tcbs s thread));
        let s = (if ts_type (tcbState (tcbs s thread)) = ThreadState_BlockedOnReceive \<and> reply \<noteq> 0
                 then reply_unlink reply thread s else s);
        s \<leftarrow> restart_thread_if_no_fault thread s;
        cancelAllIPC_loop (tcbEPNext (tcbs s thread)) s
      })"

definition ep_reset :: "word_t \<Rightarrow> kstate \<Rightarrow> kstate" where
  "ep_reset epptr s =
     ep_ptr_set_queue epptr \<lparr>tcbq_head = 0, tcbq_end = 0\<rparr> (endpoint_ptr_set_state epptr EPState_Idle s)"

definition cancelAllIPC :: "word_t \<Rightarrow> kstate \<Rightarrow> kstate option" where
  "cancelAllIPC epptr s =
     (case ep_state (eps s epptr) of
        EPState_Idle \<Rightarrow> Some s
      | _ \<Rightarrow> map_option rescheduleRequired
               (cancelAllIPC_loop (epQueue_head (eps s epptr)) (ep_reset epptr s)))"

partial_function (option) cancelBadgedSends_loop ::
  "word_t \<Rightarrow> word_t \<Rightarrow> tcb_queue \<Rightarrow> kstate \<Rightarrow> (tcb_queue \<times> kstate) option" where
  "cancelBadgedSends_loop badge thread queue s =
     (if thread = 0 then Some (queue, s)
      else do {
        let b = blockingIPCBadge (tcbState (tcbs s thread));
        let nxt = tcbEPNext (tcbs s thread);
        (queue, s) \<leftarrow> (if b = badge
          then map_option (tcbEPDequeue thread queue) (restart_thread_if_no_fault thread s)
          else Some (queue, s));
        cancelBadgedSends_loop badge nxt queue s
      })"

definition cancelBadgedSends :: "word_t \<Rightarrow> word_t \<Rightarrow> kstate \<Rightarrow> kstate option" where
  "cancelBadgedSends epptr badge s =
     (case ep_state (eps s epptr) of
        EPState_Send \<Rightarrow> do {
          let queue = ep_ptr_get_queue epptr s;
          (queue, s) \<leftarrow> cancelBadgedSends_loop badge (tcbq_head queue) queue (ep_reset epptr s);
          let s = ep_ptr_set_queue epptr queue s;
          let s = (if tcbq_head queue \<noteq> 0 then endpoint_ptr_set_state epptr EPState_Send s else s);
          Some (rescheduleRequired s)
        }
      | _ \<Rightarrow> Some s)"

definition reorderEP :: "word_t \<Rightarrow> word_t \<Rightarrow> kstate \<Rightarrow> kstate option" where
  "reorderEP epptr thread s = do {
     let (queue, s) = tcbEPDequeue thread (ep_ptr_get_queue epptr s) s;
     (queue, s) \<leftarrow> tcbEPAppend thread queue s;
     Some (ep_ptr_set_queue epptr queue s)
   }"

section \<open>Fault handlers\<close>

definition validTimeoutHandler :: "word_t \<Rightarrow> kstate \<Rightarrow> bool" where
  "validTimeoutHandler tptr s \<longleftrightarrow> is_cap_endpoint_cap (cte_cap (ctes s (TCB_PTR_CTE_PTR tptr tcbTimeoutHandler)))"

definition sendFaultIPC :: "word_t \<Rightarrow> cap \<Rightarrow> bool \<Rightarrow> kstate \<Rightarrow> (bool \<times> kstate) option" where
  "sendFaultIPC tptr handlerCap can_donate s =
     (if is_cap_endpoint_cap handlerCap then
        let s = upd_tcb tptr (\<lambda>t. t\<lparr>tcbFault := current_fault s\<rparr>) s
        in map_option (Pair True)
             (sendIPC True False (capEPBadge handlerCap) (capCanGrant handlerCap)
               (capCanGrantReply handlerCap) can_donate tptr (capEPPtr handlerCap) s)
      else Some (False, s))"

definition handleNoFaultHandler :: "word_t \<Rightarrow> kstate \<Rightarrow> kstate" where
  "handleNoFaultHandler tptr s = setThreadState tptr ThreadState_Inactive s"

definition handleFault :: "word_t \<Rightarrow> kstate \<Rightarrow> kstate option" where
  "handleFault tptr s = do {
     let faultHandlerCap = cte_cap (ctes s (TCB_PTR_CTE_PTR tptr tcbFaultHandler));
     (hasFaultHandler, s) \<leftarrow> sendFaultIPC tptr faultHandlerCap (tcbSchedContext (tcbs s tptr) \<noteq> 0) s;
     Some (if \<not> hasFaultHandler then handleNoFaultHandler tptr s else s)
   }"

definition handleTimeout :: "word_t \<Rightarrow> kstate \<Rightarrow> kstate option" where
  "handleTimeout tptr s =
     map_option snd (sendFaultIPC tptr (cte_cap (ctes s (TCB_PTR_CTE_PTR tptr tcbTimeoutHandler))) False s)"

section \<open>Replies\<close>

definition doReplyTransfer_message :: "word_t \<Rightarrow> word_t \<Rightarrow> bool \<Rightarrow> kstate \<Rightarrow> kstate option" where
  "doReplyTransfer_message sender receiver grant s =
     (if tcbFault (tcbs s receiver) = NullFault then do {
        s \<leftarrow> doIPCTransfer sender 0 0 grant receiver s;
        Some (setThreadState receiver ThreadState_Running s)
      } else do {
        (restart, s) \<leftarrow> handleFaultReply receiver sender s;
        let s = upd_tcb receiver (\<lambda>t. t\<lparr>tcbFault := NullFault\<rparr>) s;
        Some (if restart then setThreadState receiver ThreadState_Restart s
              else setThreadState receiver ThreadState_Inactive s)
      })"

definition doReplyTransfer_resume :: "word_t \<Rightarrow> bool \<Rightarrow> kstate \<Rightarrow> kstate option" where
  "doReplyTransfer_resume receiver timeout_fault s =
     (if tcbSchedContext (tcbs s receiver) \<noteq> 0 \<and> isRunnable (tcbs s receiver) then
        let sc = tcbSchedContext (tcbs s receiver)
        in if refill_ready (ksCurTime s) (scs s sc) \<and> refill_sufficient (scs s sc) 0
           then Some (possibleSwitchTo receiver s)
           else if validTimeoutHandler receiver s \<and> \<not> timeout_fault
           then handleTimeout receiver (s\<lparr>current_fault := Timeout (scBadge (scs s sc))\<rparr>)
           else postpone sc s
      else Some s)"

definition doReplyTransfer :: "word_t \<Rightarrow> word_t \<Rightarrow> bool \<Rightarrow> kstate \<Rightarrow> kstate option" where
  "doReplyTransfer sender reply grant s =
     (if replyTCB (replies s reply) = 0 \<or>
         ts_type (tcbState (tcbs s (replyTCB (replies s reply)))) \<noteq> ThreadState_BlockedOnReply then Some s
      else do {
        let receiver = replyTCB (replies s reply);
        let s = reply_remove reply receiver s;
        s \<leftarrow> unblock_sporadic receiver s;
        let timeout_fault = is_Timeout_fault (tcbFault (tcbs s receiver));
        s \<leftarrow> doReplyTransfer_message sender receiver grant s;
        doReplyTransfer_resume receiver timeout_fault s
      })"

section \<open>Suspending, restarting and reprioritising threads\<close>

definition suspend :: "word_t \<Rightarrow> kstate \<Rightarrow> kstate" where
  "suspend target s =
     (let s = cancelIPC target s;
          s = (if ts_type (tcbState (tcbs s target)) = ThreadState_Running then updateRestartPC target s else s);
          s = setThreadState target ThreadState_Inactive s;
          s = tcbSchedDequeue target s;
          s = tcbReleaseRemove target s
      in schedContext_cancelYieldTo target s)"

definition restart :: "word_t \<Rightarrow> kstate \<Rightarrow> kstate option" where
  "restart target s =
     (if isStopped (tcbs s target) then do {
        let s = cancelIPC target s;
        let s = setThreadState target ThreadState_Restart s;
        let sc = tcbSchedContext (tcbs s target);
        s \<leftarrow> (if sc_sporadic sc s \<and> sc \<noteq> ksCurSC s then sc_refill_unblock_check sc s else Some s);
        s \<leftarrow> schedContext_resume sc s;
        Some (if isSchedulable target s then possibleSwitchTo target s else s)
      } else Some s)"

definition setPriority :: "word_t \<Rightarrow> word_t \<Rightarrow> kstate \<Rightarrow> kstate option" where
  "setPriority tptr prio s =
     (let set_prio = upd_tcb tptr (\<lambda>t. t\<lparr>tcbPriority := prio\<rparr>);
          running = (if tcbQueued (tcbState (tcbs s tptr)) \<or> tptr = ksCurThread s
                     then rescheduleRequired (tcbSchedEnqueue tptr (set_prio (tcbSchedDequeue tptr s)))
                     else set_prio s);
          obj = blockingObject (tcbState (tcbs s tptr))
      in case ts_type (tcbState (tcbs s tptr)) of
           ThreadState_Running \<Rightarrow> Some running
         | ThreadState_Restart \<Rightarrow> Some running
         | ThreadState_BlockedOnReceive \<Rightarrow> reorderEP obj tptr (set_prio s)
         | ThreadState_BlockedOnSend \<Rightarrow> reorderEP obj tptr (set_prio s)
         | ThreadState_BlockedOnNotification \<Rightarrow> reorderNTFN obj tptr (set_prio s)
         | _ \<Rightarrow> Some (set_prio s))"

section \<open>The end of a time slice\<close>

definition endTimeslice :: "bool \<Rightarrow> kstate \<Rightarrow> kstate option" where
  "endTimeslice can_timeout_fault s =
     (let round_robin = isRoundRobin (scs s (ksCurSC s));
          valid = validTimeoutHandler (ksCurThread s) s
      in if can_timeout_fault \<and> \<not> round_robin \<and> valid then
           handleTimeout (ksCurThread s) (s\<lparr>current_fault := Timeout (scBadge (scs s (ksCurSC s)))\<rparr>)
         else if refill_ready (ksCurTime s) (scs s (ksCurSC s)) \<and> refill_sufficient (scs s (ksCurSC s)) 0
         then Some (tcbSchedAppend (ksCurThread s) s)
         else postpone (ksCurSC s) s)"

definition charge_current :: "ticks_t \<Rightarrow> kstate \<Rightarrow> kstate option" where
  "charge_current consumed s =
     (if ksCurSC s \<noteq> ksIdleSC s then do {
        s \<leftarrow> (if isRoundRobin (scs s (ksCurSC s)) then
                let h = refill_head (scs s (ksCurSC s));
                    t = refill_tail (scs s (ksCurSC s));
                    s = upd_sc (ksCurSC s) (\<lambda>sc. set_refill_head
                          (refill_head sc\<lparr>rAmount := rAmount h + rAmount t\<rparr>) sc) s
                in Some (upd_sc (ksCurSC s) (\<lambda>sc. set_refill_tail (refill_tail sc\<lparr>rAmount := 0\<rparr>) sc) s)
              else cur_refill_budget_check consumed s);
        Some (upd_sc (ksCurSC s) (\<lambda>sc. sc\<lparr>scConsumed := scConsumed sc + consumed\<rparr>) s)
      } else Some s)"

definition chargeBudget :: "ticks_t \<Rightarrow> bool \<Rightarrow> kstate \<Rightarrow> kstate option" where
  "chargeBudget consumed canTimeoutFault s = do {
     s \<leftarrow> charge_current consumed s;
     let s = s\<lparr>ksConsumed := 0\<rparr>;
     if isSchedulable (ksCurThread s) s then do {
       s \<leftarrow> endTimeslice canTimeoutFault s;
       Some ((rescheduleRequired s)\<lparr>ksReprogram := True\<rparr>)
     } else Some s
   }"

definition checkBudget :: "kstate \<Rightarrow> (bool \<times> kstate) option" where
  "checkBudget s =
     (if refill_sufficient (scs s (ksCurSC s)) (ksConsumed s)
      then Some (\<not> isCurDomainExpired s, s)
      else map_option (Pair False) (chargeBudget (ksConsumed s) True s))"

definition checkBudgetRestart :: "kstate \<Rightarrow> (bool \<times> kstate) option" where
  "checkBudgetRestart s = do {
     (result, s) \<leftarrow> checkBudget s;
     Some (result, if \<not> result \<and> isRunnable (tcbs s (ksCurThread s))
                   then setThreadState (ksCurThread s) ThreadState_Restart s else s)
   }"

end
