(* ===== verification/IpcFrame.thy ===== *)
theory IpcFrame
  imports Endpoint
begin

text \<open>
  The part of the state that communication links: the wait queues of endpoints and
  notifications, the states of threads, reply objects, and the bindings of scheduling
  contexts and notifications. All other operations the communication code calls (message
  transfer, scheduler queues, refills) keep this part.
\<close>

section \<open>The linked part of the state\<close>

definition ipc_tcb :: "tcb \<Rightarrow> tcb" where
  "ipc_tcb t = zero_tcb\<lparr>tcbState := zero_thread_state\<lparr>replyObject := replyObject (tcbState t),
       blockingObject := blockingObject (tcbState t), ts_type := ts_type (tcbState t)\<rparr>,
     tcbBoundNotification := tcbBoundNotification t, tcbPriority := tcbPriority t,
     tcbSchedContext := tcbSchedContext t, tcbYieldTo := tcbYieldTo t,
     tcbEPNext := tcbEPNext t, tcbEPPrev := tcbEPPrev t\<rparr>"

definition ipc_sc :: "sched_context \<Rightarrow> sched_context" where
  "ipc_sc c = zero_sched_context\<lparr>scTcb := scTcb c, scReply := scReply c, scNotification := scNotification c,
     scYieldFrom := scYieldFrom c\<rparr>"

definition ipc_state :: "kstate \<Rightarrow> kstate" where
  "ipc_state s = zero_state\<lparr>tcbs := \<lambda>t. ipc_tcb (tcbs s t), eps := eps s, ntfns := ntfns s,
     scs := \<lambda>c. ipc_sc (scs s c), replies := replies s\<rparr>"

lemma ipc_tcb_fields [simp]:
  "ts_type (tcbState (ipc_tcb t)) = ts_type (tcbState t)" "replyObject (tcbState (ipc_tcb t)) = replyObject (tcbState t)"
  "blockingObject (tcbState (ipc_tcb t)) = blockingObject (tcbState t)"
  "tcbBoundNotification (ipc_tcb t) = tcbBoundNotification t" "tcbPriority (ipc_tcb t) = tcbPriority t"
  "tcbSchedContext (ipc_tcb t) = tcbSchedContext t" "tcbYieldTo (ipc_tcb t) = tcbYieldTo t"
  "tcbEPNext (ipc_tcb t) = tcbEPNext t" "tcbEPPrev (ipc_tcb t) = tcbEPPrev t"
  by (simp_all add: ipc_tcb_def)

lemma ipc_sc_fields [simp]:
  "scTcb (ipc_sc c) = scTcb c" "scReply (ipc_sc c) = scReply c" "scNotification (ipc_sc c) = scNotification c"
  "scYieldFrom (ipc_sc c) = scYieldFrom c"
  by (simp_all add: ipc_sc_def)

lemma ipc_state_fields [simp]:
  "tcbs (ipc_state s) = (\<lambda>t. ipc_tcb (tcbs s t))" "eps (ipc_state s) = eps s" "ntfns (ipc_state s) = ntfns s"
  "scs (ipc_state s) = (\<lambda>c. ipc_sc (scs s c))" "replies (ipc_state s) = replies s"
  by (simp_all add: ipc_state_def)

lemma ipc_stateI:
  assumes "\<And>t. ipc_tcb (tcbs s' t) = ipc_tcb (tcbs s t)" "eps s' = eps s" "ntfns s' = ntfns s"
    "\<And>c. ipc_sc (scs s' c) = ipc_sc (scs s c)" "replies s' = replies s"
  shows "ipc_state s' = ipc_state s"
  using assms by (simp add: ipc_state_def)

lemma ipc_stateD:
  assumes "ipc_state s' = ipc_state s"
  shows "ipc_tcb (tcbs s' t) = ipc_tcb (tcbs s t)" "eps s' = eps s" "ntfns s' = ntfns s"
    "ipc_sc (scs s' c) = ipc_sc (scs s c)" "replies s' = replies s"
  using fun_cong [OF arg_cong [OF assms, of tcbs], of t] arg_cong [OF assms, of eps] arg_cong [OF assms, of ntfns]
    fun_cong [OF arg_cong [OF assms, of scs], of c] arg_cong [OF assms, of replies]
  by simp_all

lemma ipc_state_thread:
  assumes "ipc_state s' = ipc_state s"
  shows "ts_type (tcbState (tcbs s' t)) = ts_type (tcbState (tcbs s t))"
    "replyObject (tcbState (tcbs s' t)) = replyObject (tcbState (tcbs s t))"
    "blockingObject (tcbState (tcbs s' t)) = blockingObject (tcbState (tcbs s t))"
    "tcbSchedContext (tcbs s' t) = tcbSchedContext (tcbs s t)" "tcbEPNext (tcbs s' t) = tcbEPNext (tcbs s t)"
    "tcbBoundNotification (tcbs s' t) = tcbBoundNotification (tcbs s t)" "tcbYieldTo (tcbs s' t) = tcbYieldTo (tcbs s t)"
    "scTcb (scs s' c) = scTcb (scs s c)" "scYieldFrom (scs s' c) = scYieldFrom (scs s c)"
    "scReply (scs s' c) = scReply (scs s c)" "tcbPriority (tcbs s' t) = tcbPriority (tcbs s t)"
    "scNotification (scs s' c) = scNotification (scs s c)"
  using ipc_stateD(1) [OF assms, of t] ipc_stateD(4) [OF assms, of c]
  by (metis ipc_tcb_fields ipc_sc_fields)+

section \<open>Operations that keep it\<close>

lemma ipc_of_core: "core_state s' = core_state s \<Longrightarrow> ipc_state s' = ipc_state s"
proof -
  have "ipc_state (core_state s) = ipc_state s" for s
    by (rule ipc_stateI) (simp_all add: core_state_def core_tcb_def ipc_tcb_def)
  then show "core_state s' = core_state s \<Longrightarrow> ipc_state s' = ipc_state s" by metis
qed

lemma ipc_of_msg: "msg_erase s' = msg_erase s \<Longrightarrow> ipc_state s' = ipc_state s"
proof -
  have "ipc_state (msg_erase s) = ipc_state s" for s by (rule ipc_stateI) (simp_all add: msg_erase_def)
  then show "msg_erase s' = msg_erase s \<Longrightarrow> ipc_state s' = ipc_state s" by metis
qed

lemmas ipc_of_err = ipc_of_msg [OF msg_erase_no_err]

lemma ipc_upd_tcb: "(\<And>t. ipc_tcb (f t) = ipc_tcb t) \<Longrightarrow> ipc_state (upd_tcb p f s) = ipc_state s"
  by (rule ipc_stateI) (simp_all add: upd_tcb_def)

lemma ipc_upd_sc: "(\<And>t. ipc_sc (f t) = ipc_sc t) \<Longrightarrow> ipc_state (upd_sc p f s) = ipc_state s"
  by (rule ipc_stateI) (simp_all add: upd_sc_def)

lemma ipc_globals [simp]:
  "ipc_state (s\<lparr>ksCurThread := a\<rparr>) = ipc_state s" "ipc_state (s\<lparr>ksReprogram := b\<rparr>) = ipc_state s"
  "ipc_state (s\<lparr>ksConsumed := c\<rparr>) = ipc_state s" "ipc_state (s\<lparr>ksSchedulerAction := a\<rparr>) = ipc_state s"
  "ipc_state (s\<lparr>current_fault := f\<rparr>) = ipc_state s" "ipc_state (s\<lparr>current_extra_caps := e\<rparr>) = ipc_state s"
  "ipc_state (s\<lparr>current_lookup_fault := l\<rparr>) = ipc_state s" "ipc_state (set_syscall_error g s) = ipc_state s"
  "ipc_state (s\<lparr>user_words := u\<rparr>) = ipc_state s" "ipc_state (s\<lparr>ksCurSC := a\<rparr>) = ipc_state s"
  "ipc_state (s\<lparr>ksCurTime := c\<rparr>) = ipc_state s" "ipc_state (s\<lparr>ksDomainTime := c\<rparr>) = ipc_state s"
  "ipc_state (s\<lparr>ctes := m\<rparr>) = ipc_state s" "ipc_state (s\<lparr>timer_deadline := c\<rparr>) = ipc_state s"
  by (simp_all add: ipc_state_def set_syscall_error_def)

lemma ipc_queue_ops [simp]:
  "ipc_state (tcbSchedEnqueue t s) = ipc_state s" "ipc_state (tcbSchedAppend t s) = ipc_state s"
  "ipc_state (tcbSchedDequeue t s) = ipc_state s" "ipc_state (tcbReleaseRemove t s) = ipc_state s"
  "ipc_state (rescheduleRequired s) = ipc_state s" "ipc_state (possibleSwitchTo t s) = ipc_state s"
  "ipc_state (scheduleTCB t s) = ipc_state s"
  by (rule ipc_of_core, simp add: scheduleTCB_def)+

lemma ipc_registers [simp]:
  "ipc_state (setRegister t r w s) = ipc_state s" "ipc_state (set_user_word p w s) = ipc_state s"
  "ipc_state (doNBRecvFailedTransfer t s) = ipc_state s" "ipc_state (updateRestartPC t s) = ipc_state s"
  by (simp_all add: setRegister_def set_user_word_def doNBRecvFailedTransfer_def updateRestartPC_def
      ipc_upd_tcb ipc_tcb_def)

lemma ipc_setMR [simp]: "ipc_state (snd (setMR t b i w s)) = ipc_state s"
  by (simp add: setMR_def)

lemma ipc_refills [simp]:
  "ipc_sc (set_refill_index i r c) = ipc_sc c" "ipc_sc (set_refill_head r c) = ipc_sc c"
  "ipc_sc (set_refill_tail r c) = ipc_sc c" "ipc_sc (c\<lparr>scRefillHead := h\<rparr>) = ipc_sc c"
  "ipc_sc (c\<lparr>scRefillTail := h\<rparr>) = ipc_sc c" "ipc_sc (c\<lparr>scRefillMax := h\<rparr>) = ipc_sc c"
  "ipc_sc (c\<lparr>scPeriod := p\<rparr>) = ipc_sc c" "ipc_sc (c\<lparr>scConsumed := p\<rparr>) = ipc_sc c"
  "ipc_sc (c\<lparr>scBadge := h\<rparr>) = ipc_sc c" "ipc_sc (c\<lparr>scSporadic := b\<rparr>) = ipc_sc c"
  by (simp_all add: ipc_sc_def refill_defs)

lemma ipc_refill_steps [simp]:
  "ipc_sc (refill_add_tail r c) = ipc_sc c" "ipc_sc (maybe_add_empty_tail c) = ipc_sc c"
  "ipc_sc (snd (refill_pop_head c)) = ipc_sc c" "ipc_sc (schedule_used r c) = ipc_sc c"
  "ipc_sc (refill_new t m b p c) = ipc_sc c" "ipc_sc (refill_update t p b m c) = ipc_sc c"
  "ipc_sc (merge_overlapping_head_refill c) = ipc_sc c" "ipc_sc (merge_nonoverlapping_head_refill c) = ipc_sc c"
  "ipc_sc (snd (charge_entire_head_refill u c)) = ipc_sc c"
  by (simp_all add: refill_add_tail_def maybe_add_empty_tail_def refill_pop_head_def schedule_used_def
      refill_new_def refill_update_def merge_overlapping_head_refill_def merge_nonoverlapping_head_refill_def
      charge_entire_head_refill_def Let_def)

lemma ipc_refill_while:
  assumes "while_option b f c = Some c'" and "\<And>d. ipc_sc (f d) = ipc_sc d"
  shows "ipc_sc c' = ipc_sc c"
  by (rule while_option_rule [where P = "\<lambda>d. ipc_sc d = ipc_sc c", OF _ assms(1)]) (simp_all add: assms(2))

lemma ipc_handle_overrun:
  assumes "handle_overrun u c = Some (u', c')"
  shows "ipc_sc c' = ipc_sc c"
proof -
  have "ipc_sc (snd (u', c')) = ipc_sc c"
    by (rule while_option_rule [where P = "\<lambda>d. ipc_sc (snd d) = ipc_sc c", OF _ assms [unfolded handle_overrun_def]])
      (simp_all add: case_prod_beta)
  then show ?thesis by simp
qed

lemmas ipc_refill_loops = ipc_refill_while [where f = merge_overlapping_head_refill, simplified]
  ipc_refill_while [where f = merge_nonoverlapping_head_refill, simplified] ipc_handle_overrun

lemma ipc_refill_checks:
  "refill_unblock_check t c = Some (c', r) \<Longrightarrow> ipc_sc c' = ipc_sc c"
  "refill_budget_check u c = Some c' \<Longrightarrow> ipc_sc c' = ipc_sc c"
proof -
  show "refill_unblock_check t c = Some (c', r) \<Longrightarrow> ipc_sc c' = ipc_sc c"
    by (auto simp: refill_unblock_check_def dest!: ipc_refill_loops split: if_splits)
  show "refill_budget_check u c = Some c' \<Longrightarrow> ipc_sc c' = ipc_sc c"
    by (auto simp: refill_budget_check_def Let_def dest!: ipc_refill_loops split: option.splits if_splits)
qed

lemma ipc_sc_checks:
  "sc_refill_unblock_check p s = Some s' \<Longrightarrow> ipc_state s' = ipc_state s"
  "cur_refill_budget_check u s = Some s' \<Longrightarrow> ipc_state s' = ipc_state s"
  "unblock_sporadic t s = Some s' \<Longrightarrow> ipc_state s' = ipc_state s"
proof -
  show u: "sc_refill_unblock_check p s = Some s' \<Longrightarrow> ipc_state s' = ipc_state s" for p
    by (auto simp: sc_refill_unblock_check_def upd_sc_def dest!: ipc_refill_checks
        split: option.splits intro!: ipc_stateI)
  show "cur_refill_budget_check u s = Some s' \<Longrightarrow> ipc_state s' = ipc_state s"
    by (auto simp: cur_refill_budget_check_def upd_sc_def dest!: ipc_refill_checks intro!: ipc_stateI)
  show "unblock_sporadic t s = Some s' \<Longrightarrow> ipc_state s' = ipc_state s"
    using u by (auto simp: unblock_sporadic_def split: if_splits)
qed

lemma core_postpone: "postpone sc s = Some s' \<Longrightarrow> core_state s' = core_state s"
  by (auto simp: postpone_def tcbReleaseEnqueue_def Let_def case_prod_beta split: Option.bind_splits if_splits)

lemma ipc_resume:
  "postpone sc s = Some s' \<Longrightarrow> ipc_state s' = ipc_state s"
  "schedContext_resume sc s = Some s' \<Longrightarrow> ipc_state s' = ipc_state s"
  by (auto simp: schedContext_resume_def dest!: core_postpone ipc_of_core split: if_splits)

lemma ipc_consumed [simp]:
  "ipc_state (snd (schedContext_updateConsumed sc s)) = ipc_state s"
  "ipc_state (replyFromKernel_consumed t c s) = ipc_state s"
  "ipc_state (setConsumed sc t b s) = ipc_state s"
proof -
  show u: "ipc_state (snd (schedContext_updateConsumed sc s)) = ipc_state s"
    by (simp add: schedContext_updateConsumed_def Let_def ipc_upd_sc)
  show r: "ipc_state (replyFromKernel_consumed t c s) = ipc_state s" for c s
    by (simp add: replyFromKernel_consumed_def mode_setTimeArg_def Let_def case_prod_beta)
  show "ipc_state (setConsumed sc t b s) = ipc_state s"
    by (simp add: setConsumed_def case_prod_beta r u)
qed

section \<open>Message transfer\<close>

lemma err_resolve_loop:
  assumes "resolveAddressBits_loop n0 nodeCap capptr n s = Some r"
  shows "no_err (snd r) = no_err s"
  by (rule resolveAddressBits_loop.raw_induct [where P = "\<lambda>n0 nodeCap capptr n s r. no_err (snd r) = no_err s", OF _ assms])
    (auto simp: Let_def split: if_splits)

lemma err_lookups:
  "resolveAddressBits nodeCap capptr n s = Some (r, s') \<Longrightarrow> no_err s' = no_err s"
  "lookupSlot t p s = Some (l, s') \<Longrightarrow> no_err s' = no_err s"
  "lookupCap t p s = Some (c, s') \<Longrightarrow> no_err s' = no_err s"
  "lookupTargetSlot root p d s = Some (l, s') \<Longrightarrow> no_err s' = no_err s"
proof -
  show r: "resolveAddressBits nodeCap capptr n s = Some (r, s') \<Longrightarrow> no_err s' = no_err s" for nodeCap capptr n s r s'
    by (auto simp: resolveAddressBits_def dest!: err_resolve_loop split: if_splits)
  show l: "lookupSlot t p s = Some (l, s') \<Longrightarrow> no_err s' = no_err s" for t p s l s'
    by (auto simp: lookupSlot_def dest!: r split: Option.bind_splits)
  show "lookupCap t p s = Some (c, s') \<Longrightarrow> no_err s' = no_err s"
    by (auto simp: lookupCap_def dest!: l split: Option.bind_splits if_splits)
  show "lookupTargetSlot root p d s = Some (l, s') \<Longrightarrow> no_err s' = no_err s"
    by (auto simp: lookupTargetSlot_def lookupSlotForCNodeOp_def Let_def dest!: r split: Option.bind_splits if_splits)
qed

lemma err_extra_caps_loop: "lookupExtraCaps_loop t b i n s = Some (e, s') \<Longrightarrow> no_err s' = no_err s"
proof (induction n arbitrary: i s)
  case (Suc n)
  then show ?case by (fastforce simp: Let_def dest!: err_lookups(2) split: Option.bind_splits if_splits)
qed (auto split: if_splits)

lemma err_receive_slots: "getReceiveSlots t b s = Some (d, s') \<Longrightarrow> no_err s' = no_err s"
  by (auto simp: getReceiveSlots_def Let_def dest!: err_lookups split: Option.bind_splits if_splits)

lemma msg_transferCaps_loop:
  "transferCaps_loop ep rb d info i n s = Some (w, s') \<Longrightarrow> msg_erase s' = msg_erase s"
proof (induction n arbitrary: d info i s)
  case (Suc n)
  show ?case
  proof (cases "current_extra_caps s i = 0 \<or> is_cap_endpoint_cap (cte_cap (ctes s (current_extra_caps s i))) \<and>
      capEPPtr (cte_cap (ctes s (current_extra_caps s i))) = ep \<or> d = 0")
    case True
    then show ?thesis using Suc by (auto simp: Let_def split: if_splits)
  next
    case False
    obtain r s1 where s1: "deriveCap (current_extra_caps s i) (cte_cap (ctes s (current_extra_caps s i))) s = Some (r, s1)"
      "no_err s1 = no_err s" using deriveCap_frame by blast
    note m = msg_erase_no_err [OF s1(2)]
    show ?thesis
      using Suc.prems False m Suc.IH [of 0 info "Suc i"] s1(1) by (auto simp: Let_def split: if_splits)
  qed
qed simp

lemma ipc_extraCaps:
  "doNormalTransfer_extraCaps t b g tag s = Some s' \<Longrightarrow> ipc_state s' = ipc_state s"
  by (auto simp: doNormalTransfer_extraCaps_def lookupExtraCaps_def dest!: err_extra_caps_loop ipc_of_err
      split: Option.bind_splits if_splits)

lemma ipc_transferCaps: "transferCaps info ep t rb s = Some (w, s') \<Longrightarrow> ipc_state s' = ipc_state s"
  by (auto simp: transferCaps_def Let_def dest!: err_receive_slots ipc_of_err msg_transferCaps_loop ipc_of_msg
      split: Option.bind_splits if_splits)

lemma ipc_fold:
  "(\<And>i s. ipc_state (f i s) = ipc_state s) \<Longrightarrow> ipc_state (fold f xs s) = ipc_state s"
  by (induction xs arbitrary: s) simp_all

lemma ipc_copyMRs [simp]: "ipc_state (snd (copyMRs a b c d n s)) = ipc_state s"
  by (simp add: copyMRs_def Let_def ipc_fold)

lemma ipc_doNormalTransfer:
  "doNormalTransfer t sb ep badge g r rb s = Some s' \<Longrightarrow> ipc_state s' = ipc_state s"
  by (auto simp: doNormalTransfer_def Let_def case_prod_beta dest!: ipc_extraCaps ipc_transferCaps
      split: Option.bind_splits)

lemma ipc_fault_copies [simp]:
  "ipc_state (copyMRsFault a b m n rb s) = ipc_state s"
  "ipc_state (copyMRsFaultReply a b m n s) = ipc_state s"
  "ipc_state (snd (setMRs_lookup_failure t b l i s)) = ipc_state s"
  by (simp_all add: copyMRsFault_def copyMRsFaultReply_def setMRs_lookup_failure_def Let_def ipc_fold
      case_prod_beta split: lookup_fault.split)

lemma ipc_setMRs_fault: "setMRs_fault t r rb s = Some p \<Longrightarrow> ipc_state (snd p) = ipc_state s"
  unfolding setMRs_fault_def Arch_setMRs_fault_def Let_def
  by (auto simp: case_prod_beta mode_setTimeArg_def split: seL4_Fault.splits if_splits)

lemma ipc_doIPCTransfer:
  "doFaultTransfer badge t r rb s = Some s' \<Longrightarrow> ipc_state s' = ipc_state s"
  "doIPCTransfer t ep badge g r s = Some s' \<Longrightarrow> ipc_state s' = ipc_state s"
proof -
  show f: "doFaultTransfer badge t r rb s = Some s' \<Longrightarrow> ipc_state s' = ipc_state s" for rb
    by (auto simp: doFaultTransfer_def Let_def dest!: ipc_setMRs_fault split: Option.bind_splits)
  show "doIPCTransfer t ep badge g r s = Some s' \<Longrightarrow> ipc_state s' = ipc_state s"
    by (auto simp: doIPCTransfer_def Let_def dest!: f ipc_doNormalTransfer split: if_splits)
qed

lemma ipc_handleFaultReply: "handleFaultReply r t s = Some (b, s') \<Longrightarrow> ipc_state s' = ipc_state s"
  by (auto simp: handleFaultReply_def Arch_handleFaultReply_def Let_def split: seL4_Fault.splits)

end
