(* ===== verification/WaitQueues.thy ===== *)
theory WaitQueues
  imports IpcFrame
begin

text \<open>
  The wait queues of endpoints and notifications: which thread waits where, that each
  object's queue holds exactly the threads that wait on it, ordered by priority, and that
  the object's state fits its waiters. Blocking a thread and taking it off a queue
  keep this.
\<close>

section \<open>Who waits where\<close>

datatype wait_obj = Ep word_t | Ntfn word_t

fun wait_of :: "tsType \<Rightarrow> word_t \<Rightarrow> wait_obj option" where
  "wait_of ThreadState_BlockedOnSend p = Some (Ep p)"
| "wait_of ThreadState_BlockedOnReceive p = Some (Ep p)"
| "wait_of ThreadState_BlockedOnNotification p = Some (Ntfn p)"
| "wait_of _ p = None"

definition waits_on :: "tcb \<Rightarrow> wait_obj option" where
  "waits_on t = wait_of (ts_type (tcbState t)) (blockingObject (tcbState t))"

definition waiters :: "kstate \<Rightarrow> wait_obj \<Rightarrow> word_t set" where
  "waiters s w = {t. waits_on (tcbs s t) = Some w}"

fun obj_queue :: "kstate \<Rightarrow> wait_obj \<Rightarrow> tcb_queue" where
  "obj_queue s (Ep p) = ep_ptr_get_queue p s"
| "obj_queue s (Ntfn p) = ntfn_ptr_get_queue p s"

text \<open>The state of an endpoint fits the states of its waiters.\<close>

fun ep_fits :: "endpoint_state \<Rightarrow> tsType set \<Rightarrow> bool" where
  "ep_fits EPState_Idle T = (T = {})"
| "ep_fits EPState_Send T = (T = {ThreadState_BlockedOnSend})"
| "ep_fits EPState_Recv T = (T = {ThreadState_BlockedOnReceive})"

fun obj_ok :: "kstate \<Rightarrow> wait_obj \<Rightarrow> bool" where
  "obj_ok s (Ep p) = ep_fits (ep_state (eps s p)) ((\<lambda>t. ts_type (tcbState (tcbs s t))) ` waiters s (Ep p))"
| "obj_ok s (Ntfn p) = (ntfn_state (ntfns s p) = NtfnState_Waiting \<longleftrightarrow> waiters s (Ntfn p) \<noteq> {})"

definition prio_sorted :: "kstate \<Rightarrow> word_t list \<Rightarrow> bool" where
  "prio_sorted s xs \<longleftrightarrow> sorted_wrt (\<lambda>a b. tcbPriority (tcbs s b) \<le> tcbPriority (tcbs s a)) xs"

definition queue_of :: "kstate \<Rightarrow> tcb_queue \<Rightarrow> word_t set \<Rightarrow> bool" where
  "queue_of s q W \<longleftrightarrow> (\<exists>xs. ep_queue s q xs \<and> set xs = W \<and> prio_sorted s xs)"

definition wait_ok :: "kstate \<Rightarrow> bool" where
  "wait_ok s \<longleftrightarrow> (\<forall>w. queue_of s (obj_queue s w) (waiters s w) \<and> obj_ok s w)"

text \<open>Threads taken off their queue whose state is not updated yet.\<close>

definition idle_set :: "word_t set \<Rightarrow> kstate \<Rightarrow> kstate" where
  "idle_set S s = s\<lparr>tcbs := \<lambda>t. if t \<in> S
     then (tcbs s t)\<lparr>tcbState := (tcbState (tcbs s t))\<lparr>ts_type := ThreadState_Inactive\<rparr>\<rparr> else tcbs s t\<rparr>"

lemma idle_set_fields [simp]:
  "eps (idle_set S s) = eps s" "ntfns (idle_set S s) = ntfns s" "scs (idle_set S s) = scs s"
  "replies (idle_set S s) = replies s" "obj_queue (idle_set S s) w = obj_queue s w"
  "tcbPriority (tcbs (idle_set S s) t) = tcbPriority (tcbs s t)"
  "tcbEPNext (tcbs (idle_set S s) t) = tcbEPNext (tcbs s t)" "tcbEPPrev (tcbs (idle_set S s) t) = tcbEPPrev (tcbs s t)"
  by (cases w; simp add: idle_set_def ep_ptr_get_queue_def ntfn_ptr_get_queue_def)+

lemma idle_set_empty [simp]: "idle_set {} s = s"
  by (simp add: idle_set_def)

lemma waits_on_idle_set: "waits_on (tcbs (idle_set S s) t) = (if t \<in> S then None else waits_on (tcbs s t))"
  by (simp add: idle_set_def waits_on_def)

lemma waiters_idle_set [simp]: "waiters (idle_set S s) w = waiters s w - S"
  by (auto simp: waiters_def waits_on_idle_set)

lemma type_idle_set: "t \<notin> S \<Longrightarrow> tcbs (idle_set S s) t = tcbs s t"
  by (simp add: idle_set_def)

lemma queue_of_idle_set [simp]: "queue_of (idle_set S s) q W = queue_of s q W"
  by (simp add: queue_of_def ep_queue_def prio_sorted_def)

text \<open>The conditions depend on the linked part of the state only.\<close>

lemma waits_on_ipc: "waits_on (ipc_tcb t) = waits_on t"
  by (simp add: waits_on_def)

lemma queue_of_cong:
  assumes "\<And>t. t \<in> W \<Longrightarrow> tcbEPNext (tcbs s' t) = tcbEPNext (tcbs s t) \<and> tcbEPPrev (tcbs s' t) = tcbEPPrev (tcbs s t) \<and>
    tcbPriority (tcbs s' t) = tcbPriority (tcbs s t)"
  shows "queue_of s' q W = queue_of s q W"
proof -
  have "ep_queue s' q xs = ep_queue s q xs \<and> prio_sorted s' xs = prio_sorted s xs" if "set xs = W" for xs
  proof
    show "ep_queue s' q xs = ep_queue s q xs"
      using assms that dlist_cong [of xs "eNext s'" "eNext s" "ePrev s'" "ePrev s"] by (simp add: ep_queue_def)
    show "prio_sorted s' xs = prio_sorted s xs"
      unfolding prio_sorted_def using assms that by (auto intro: sorted_wrt_mono_rel [rotated])
  qed
  then show ?thesis unfolding queue_of_def by blast
qed

lemma wait_ok_ipc: "wait_ok (ipc_state s) = wait_ok s"
proof -
  have w: "waiters (ipc_state s) = waiters s" by (auto simp: waiters_def waits_on_ipc fun_eq_iff)
  have "queue_of (ipc_state s) q W = queue_of s q W" for q W by (rule queue_of_cong) simp
  moreover have "obj_queue (ipc_state s) w = obj_queue s w" for w
    by (cases w) (simp_all add: ep_ptr_get_queue_def ntfn_ptr_get_queue_def)
  moreover have "obj_ok (ipc_state s) w = obj_ok s w" for w by (cases w) (simp_all add: w)
  ultimately show ?thesis unfolding wait_ok_def w by simp
qed

lemma wait_ok_frame: "ipc_state s' = ipc_state s \<Longrightarrow> wait_ok s' = wait_ok s"
  using wait_ok_ipc by metis

lemma ipc_idle_set: "ipc_state s' = ipc_state s \<Longrightarrow> ipc_state (idle_set S s') = ipc_state (idle_set S s)"
proof (rule ipc_stateI)
  assume a: "ipc_state s' = ipc_state s"
  have e: "ipc_tcb (tcbs (idle_set S s) t) = (if t \<in> S then (ipc_tcb (tcbs s t))\<lparr>tcbState :=
      (tcbState (ipc_tcb (tcbs s t)))\<lparr>ts_type := ThreadState_Inactive\<rparr>\<rparr> else ipc_tcb (tcbs s t))" for s t
    by (simp add: idle_set_def ipc_tcb_def)
  show "ipc_tcb (tcbs (idle_set S s') t) = ipc_tcb (tcbs (idle_set S s) t)" for t
    unfolding e ipc_stateD(1) [OF a] ..
  show "eps (idle_set S s') = eps (idle_set S s)" "ntfns (idle_set S s') = ntfns (idle_set S s)"
    "replies (idle_set S s') = replies (idle_set S s)" using ipc_stateD [OF a] by simp_all
  show "ipc_sc (scs (idle_set S s') c) = ipc_sc (scs (idle_set S s) c)" for c
    using ipc_stateD(4) [OF a, of c] by simp
qed

lemma wait_ok_idle_frame: "ipc_state s' = ipc_state s \<Longrightarrow> wait_ok (idle_set S s') = wait_ok (idle_set S s)"
  by (rule wait_ok_frame [OF ipc_idle_set])

section \<open>Changing one object\<close>

lemma wait_ok_at: "wait_ok s \<Longrightarrow> queue_of s (obj_queue s w) (waiters s w)" "wait_ok s \<Longrightarrow> obj_ok s w"
  by (simp_all add: wait_ok_def)

lemma wait_change:
  assumes "wait_ok s" and "queue_of s' (obj_queue s' w) (waiters s' w)" and "obj_ok s' w"
    and "\<And>v. v \<noteq> w \<Longrightarrow> obj_queue s' v = obj_queue s v \<and> waiters s' v = waiters s v \<and> obj_ok s' v = obj_ok s v"
    and "\<And>v t. v \<noteq> w \<Longrightarrow> t \<in> waiters s v \<Longrightarrow> tcbEPNext (tcbs s' t) = tcbEPNext (tcbs s t) \<and>
      tcbEPPrev (tcbs s' t) = tcbEPPrev (tcbs s t) \<and> tcbPriority (tcbs s' t) = tcbPriority (tcbs s t)"
  shows "wait_ok s'"
  unfolding wait_ok_def
proof
  fix v
  show "queue_of s' (obj_queue s' v) (waiters s' v) \<and> obj_ok s' v"
  proof (cases "v = w")
    case True then show ?thesis using assms(2,3) by simp
  next
    case False
    then have "queue_of s' (obj_queue s v) (waiters s v) = queue_of s (obj_queue s v) (waiters s v)"
      by (intro queue_of_cong assms(5))
    then show ?thesis using assms(4) [OF False] wait_ok_at [OF assms(1), of v] by simp
  qed
qed

lemma queue_of_head:
  assumes "queue_of s q W"
  shows "0 \<notin> W" "tcbq_head q = 0 \<longleftrightarrow> W = {}" "W \<noteq> {} \<Longrightarrow> tcbq_head q \<in> W"
proof -
  obtain xs where xs: "ep_queue s q xs" "set xs = W" using assms by (auto simp: queue_of_def)
  show z: "0 \<notin> W" using xs by (simp add: ep_queue_def dlist_def)
  show "tcbq_head q = 0 \<longleftrightarrow> W = {}" using xs z hd_or_eq_iff [of 0 xs] by (auto simp: ep_queue_def)
  show "tcbq_head q \<in> W" if "W \<noteq> {}" using xs that by (cases xs) (auto simp: ep_queue_def)
qed

definition ep_links_only :: "word_t set \<Rightarrow> kstate \<Rightarrow> kstate \<Rightarrow> bool" where
  "ep_links_only S s s' \<longleftrightarrow> s' = s\<lparr>tcbs := tcbs s'\<rparr> \<and>
     (\<forall>p. (tcbs s' p)\<lparr>tcbEPNext := eNext s p, tcbEPPrev := ePrev s p\<rparr> = tcbs s p) \<and>
     (\<forall>p. p \<notin> S \<longrightarrow> tcbs s' p = tcbs s p)"

lemma ep_links_only_thread:
  assumes "ep_links_only S s s'"
  shows "tcbState (tcbs s' t) = tcbState (tcbs s t)" "tcbPriority (tcbs s' t) = tcbPriority (tcbs s t)"
    "waits_on (tcbs s' t) = waits_on (tcbs s t)" "tcbSchedContext (tcbs s' t) = tcbSchedContext (tcbs s t)"
    "tcbBoundNotification (tcbs s' t) = tcbBoundNotification (tcbs s t)"
    "tcbYieldTo (tcbs s' t) = tcbYieldTo (tcbs s t)"
proof -
  have e: "tcbs s t = (tcbs s' t)\<lparr>tcbEPNext := eNext s t, tcbEPPrev := ePrev s t\<rparr>"
    using assms by (simp add: ep_links_only_def)
  show "tcbState (tcbs s' t) = tcbState (tcbs s t)" "tcbPriority (tcbs s' t) = tcbPriority (tcbs s t)"
    "waits_on (tcbs s' t) = waits_on (tcbs s t)" "tcbSchedContext (tcbs s' t) = tcbSchedContext (tcbs s t)"
    "tcbBoundNotification (tcbs s' t) = tcbBoundNotification (tcbs s t)"
    "tcbYieldTo (tcbs s' t) = tcbYieldTo (tcbs s t)"
    unfolding waits_on_def by (subst e, simp)+
qed

lemma ep_links_only_state:
  assumes "ep_links_only S s s'"
  shows "eps s' = eps s" "ntfns s' = ntfns s" "scs s' = scs s" "replies s' = replies s" "ksCurThread s' = ksCurThread s"
proof -
  have e: "s' = s\<lparr>tcbs := tcbs s'\<rparr>" using assms unfolding ep_links_only_def by blast
  show "eps s' = eps s" "ntfns s' = ntfns s" "scs s' = scs s" "replies s' = replies s" "ksCurThread s' = ksCurThread s"
    by (subst e, simp)+
qed

lemma ep_links_only_waiters: "ep_links_only S s s' \<Longrightarrow> waiters s' = waiters s"
  by (simp add: waiters_def ep_links_only_thread fun_eq_iff)

lemma ep_append:
  assumes "queue_of s q W" and "x \<notin> W" "x \<noteq> 0"
  obtains q' s' where "tcbEPAppend x q s = Some (q', s')" "queue_of s' q' (insert x W)"
    "ep_links_only (insert x W) s s'"
proof -
  obtain xs where xs: "ep_queue s q xs" "set xs = W" "prio_sorted s xs" using assms(1) by (auto simp: queue_of_def)
  have x: "x \<notin> set xs" using assms(2) xs(2) by simp
  let ?ys = "filter (\<lambda>y. tcbPriority (tcbs s x) \<le> tcbPriority (tcbs s y)) xs @
    x # filter (\<lambda>y. tcbPriority (tcbs s y) < tcbPriority (tcbs s x)) xs"
  obtain q' s' where r: "tcbEPAppend x q s = Some (q', s')" "ep_queue s' q' ?ys" "s' = s\<lparr>tcbs := tcbs s'\<rparr>"
    "\<And>p. (tcbs s' p)\<lparr>tcbEPNext := eNext s p, tcbEPPrev := ePrev s p\<rparr> = tcbs s p"
    "\<And>p. p \<notin> insert x (set xs) \<Longrightarrow> tcbs s' p = tcbs s p"
    by (rule tcbEPAppend_list [OF xs(1) x assms(3) xs(3) [unfolded prio_sorted_def]]) blast
  have l: "ep_links_only (insert x W) s s'" unfolding ep_links_only_def using r(3,4,5) xs(2) by simp
  have "prio_sorted s ?ys" unfolding prio_sorted_def by (rule sorted_desc_insert [OF xs(3) [unfolded prio_sorted_def]])
  then have "prio_sorted s' ?ys" by (simp add: prio_sorted_def ep_links_only_thread [OF l])
  moreover have "set ?ys = insert x W" using xs(2) by auto
  ultimately have "queue_of s' q' (insert x W)" using r(2) unfolding queue_of_def by blast
  then show thesis using that r(1) l by blast
qed

text \<open>The thread that is removed may have a new priority already.\<close>

lemma ep_dequeue:
  assumes "ep_queue s q xs" "set xs = W" "prio_sorted s (remove1 x xs)" "x \<in> W"
  obtains q' s' where "tcbEPDequeue x q s = (q', s')" "queue_of s' q' (W - {x})" "ep_links_only W s s'"
proof -
  obtain us vs where uv: "xs = us @ x # vs" using assms(2,4) split_list by metis
  have dist: "x \<notin> set us" "x \<notin> set vs" using assms(1) uv by (auto simp: ep_queue_def dlist_def)
  obtain q' s' where r: "tcbEPDequeue x q s = (q', s')" by (metis surj_pair)
  note d = tcbEPDequeue_list [OF assms(1) [unfolded uv] r]
  have l: "ep_links_only W s s'" unfolding ep_links_only_def using d(2,3,4) assms(2) uv by blast
  have "prio_sorted s' (us @ vs)"
    using assms(3) dist by (simp add: uv prio_sorted_def remove1_append ep_links_only_thread [OF l])
  moreover have "set (us @ vs) = W - {x}" using assms(2) uv dist by auto
  ultimately have "queue_of s' q' (W - {x})" using d(1) unfolding queue_of_def by blast
  then show thesis using that r l by blast
qed

lemma queue_of_dequeue:
  assumes "queue_of s q W" "x \<in> W"
  obtains q' s' where "tcbEPDequeue x q s = (q', s')" "queue_of s' q' (W - {x})" "ep_links_only W s s'"
proof -
  obtain xs where xs: "ep_queue s q xs" "set xs = W" "prio_sorted s xs" using assms(1) by (auto simp: queue_of_def)
  obtain us vs where "xs = us @ x # vs" using xs(2) assms(2) split_list by metis
  moreover have "x \<notin> set us" using xs(1) calculation by (auto simp: ep_queue_def dlist_def)
  ultimately have "prio_sorted s (remove1 x xs)"
    using xs(3) by (simp add: prio_sorted_def remove1_append sorted_wrt_append)
  then show thesis using ep_dequeue [OF xs(1,2) _ assms(2)] that by blast
qed

section \<open>Operations on the queue of an object\<close>

text \<open>Writing a queue back into its object.\<close>

fun obj_set_queue :: "wait_obj \<Rightarrow> tcb_queue \<Rightarrow> kstate \<Rightarrow> kstate" where
  "obj_set_queue (Ep p) q s = ep_ptr_set_queue p q s"
| "obj_set_queue (Ntfn p) q s = ntfn_ptr_set_queue p q s"

fun obj_idle :: "wait_obj \<Rightarrow> kstate \<Rightarrow> kstate" where
  "obj_idle (Ep p) s = endpoint_ptr_set_state p EPState_Idle s"
| "obj_idle (Ntfn p) s = notification_ptr_set_state p NtfnState_Idle s"

lemmas obj_set_defs = ep_ptr_set_queue_def ntfn_ptr_set_queue_def endpoint_ptr_set_state_def
  notification_ptr_set_state_def ep_ptr_get_queue_def ntfn_ptr_get_queue_def

lemma obj_set_tcbs [simp]:
  "tcbs (obj_set_queue w q s) = tcbs s" "tcbs (obj_idle w s) = tcbs s" "scs (obj_set_queue w q s) = scs s"
  "scs (obj_idle w s) = scs s" "replies (obj_set_queue w q s) = replies s" "replies (obj_idle w s) = replies s"
  "waiters (obj_set_queue w q s) = waiters s" "waiters (obj_idle w s) = waiters s"
  by (cases w; simp add: obj_set_defs upd_defs waiters_def fun_eq_iff)+

lemma obj_queue_set [simp]:
  "obj_queue (obj_set_queue w q s) v = (if v = w then q else obj_queue s v)" "obj_queue (obj_idle w s) v = obj_queue s v"
  by (cases w; cases v; simp add: obj_set_defs upd_defs)+

lemma waiters_objs [simp]: "waiters (s\<lparr>eps := e\<rparr>) = waiters s" "waiters (s\<lparr>ntfns := n\<rparr>) = waiters s"
  by (simp_all add: waiters_def fun_eq_iff)

lemma obj_ok_other: "v \<noteq> w \<Longrightarrow> obj_ok (obj_set_queue w q s) v = obj_ok s v" "v \<noteq> w \<Longrightarrow> obj_ok (obj_idle w s) v = obj_ok s v"
  by (cases w; cases v; simp add: obj_set_defs upd_defs)+

lemma obj_ok_set_queue [simp]: "obj_ok (obj_set_queue w q s) v = obj_ok s v"
  by (cases w; cases v; simp add: obj_set_defs upd_defs)

lemma obj_ok_idle_self: "obj_ok (idle_set S (obj_idle w s)) w \<longleftrightarrow> waiters s w - S = {}"
  by (cases w) (simp_all add: obj_set_defs upd_defs)

lemma ep_fits_mono: "T \<subseteq> X \<Longrightarrow> T \<noteq> {} \<Longrightarrow> ep_fits st X \<Longrightarrow> ep_fits st T"
  by (cases st) (auto simp: subset_singleton_iff)

lemma queue_of_tcbs: "tcbs s' = tcbs s \<Longrightarrow> queue_of s' q W = queue_of s q W"
  by (rule queue_of_cong) simp

lemma obj_ok_same:
  "eps s' = eps s \<Longrightarrow> ntfns s' = ntfns s \<Longrightarrow> waiters s' v = waiters s v \<Longrightarrow>
    (\<And>t. t \<in> waiters s v \<Longrightarrow> ts_type (tcbState (tcbs s' t)) = ts_type (tcbState (tcbs s t))) \<Longrightarrow> obj_ok s' v = obj_ok s v"
  by (cases v) (simp_all cong: image_cong)

lemma obj_ok_shrink:
  assumes "obj_ok s w" and "W \<subseteq> waiters s w" and "W \<noteq> {}" and "eps s' = eps s" "ntfns s' = ntfns s"
    and "waiters s' w = W" and "\<And>t. t \<in> W \<Longrightarrow> ts_type (tcbState (tcbs s' t)) = ts_type (tcbState (tcbs s t))"
  shows "obj_ok s' w"
proof (cases w)
  case (Ep p)
  let ?T = "\<lambda>s W. (\<lambda>t. ts_type (tcbState (tcbs s t))) ` W"
  have "?T s' W = ?T s W" using assms(7) by (rule image_cong [OF refl])
  then have "?T s' W \<subseteq> ?T s (waiters s w)" "?T s' W \<noteq> {}" using assms(2,3) by auto
  then show ?thesis using ep_fits_mono assms(1,4,6) Ep by simp
next
  case (Ntfn p)
  then show ?thesis using assms by auto
qed

text \<open>
  Taking a waiter off its queue: what \<open>cancelIPC\<close>, \<open>cancelSignal\<close> and the operations that wake
  a waiter do first. The thread's own state is updated afterwards.
\<close>

definition obj_dequeue :: "wait_obj \<Rightarrow> word_t \<Rightarrow> kstate \<Rightarrow> kstate" where
  "obj_dequeue w t s =
     (let (q, s) = tcbEPDequeue t (obj_queue s w) s;
          s = obj_set_queue w q s
      in if tcbq_head q = 0 then obj_idle w s else s)"

lemma obj_dequeue_ok:
  assumes ok: "wait_ok s" and t: "t \<in> waiters s w"
  shows "wait_ok (idle_set {t} (obj_dequeue w t s))"
    and "tcbState (tcbs (obj_dequeue w t s) u) = tcbState (tcbs s u)"
    and "tcbSchedContext (tcbs (obj_dequeue w t s) u) = tcbSchedContext (tcbs s u)"
    and "tcbBoundNotification (tcbs (obj_dequeue w t s) u) = tcbBoundNotification (tcbs s u)"
    and "tcbYieldTo (tcbs (obj_dequeue w t s) u) = tcbYieldTo (tcbs s u)"
    and "scs (obj_dequeue w t s) = scs s" and "replies (obj_dequeue w t s) = replies s"
    and "ntfnBoundTCB (ntfns (obj_dequeue w t s) n) = ntfnBoundTCB (ntfns s n)"
    and "ntfnSchedContext (ntfns (obj_dequeue w t s) n) = ntfnSchedContext (ntfns s n)"
proof -
  obtain q s1 where d: "tcbEPDequeue t (obj_queue s w) s = (q, s1)" "queue_of s1 q (waiters s w - {t})"
    "ep_links_only (waiters s w) s s1" by (rule queue_of_dequeue [OF wait_ok_at(1) [OF ok] t])
  note l = ep_links_only_thread [OF d(3)] ep_links_only_state [OF d(3)]
  have w1: "waiters s1 = waiters s" by (rule ep_links_only_waiters [OF d(3)])
  define s2 where "s2 = obj_set_queue w q s1"
  define s' where "s' = obj_dequeue w t s"
  have s': "s' = (if tcbq_head q = 0 then obj_idle w s2 else s2)"
    by (simp add: s'_def obj_dequeue_def d(1) s2_def)
  have tc: "tcbs s' = tcbs s1" "waiters s' = waiters s" by (simp_all add: s' s2_def w1)
  have hd: "tcbq_head q = 0 \<longleftrightarrow> waiters s w - {t} = {}" using queue_of_head(2) [OF d(2)] .
  have s1o: "obj_queue s1 v = obj_queue s v" for v by (cases v) (simp_all add: obj_set_defs l)
  have s1k: "obj_ok s1 v = obj_ok s v" for v by (rule obj_ok_same) (simp_all add: l w1)
  show "wait_ok (idle_set {t} (obj_dequeue w t s))"
    unfolding s'_def [symmetric]
  proof (rule wait_change [where w = w, OF ok])
    show "queue_of (idle_set {t} s') (obj_queue (idle_set {t} s') w) (waiters (idle_set {t} s') w)"
      using d(2) queue_of_tcbs [OF tc(1)] by (simp add: tc(2)) (simp add: s' s2_def)
    show "obj_ok (idle_set {t} s') w"
    proof (cases "waiters s w - {t} = {}")
      case True
      then have "s' = obj_idle w s2" using hd s' by simp
      then show ?thesis using True by (simp add: obj_ok_idle_self s2_def w1)
    next
      case False
      then have e: "s' = s2" using hd s' by simp
      have "obj_ok s2 w" using wait_ok_at(2) [OF ok, of w] s1k by (simp add: s2_def)
      then show ?thesis unfolding e
        by (rule obj_ok_shrink [where W = "waiters s w - {t}"])
          (use False in \<open>auto simp: s2_def w1 type_idle_set\<close>)
    qed
  next
    fix v assume v: "v \<noteq> w"
    have "t \<notin> waiters s v" using t v by (auto simp: waiters_def)
    moreover have "obj_ok s' v = obj_ok s v" using v by (simp add: s' s2_def obj_ok_other s1k)
    moreover have "obj_ok (idle_set {t} s') v = obj_ok s' v"
    proof (rule obj_ok_same)
      fix u assume "u \<in> waiters s' v"
      then have "u \<noteq> t" using calculation(1) tc(2) by auto
      then show "ts_type (tcbState (tcbs (idle_set {t} s') u)) = ts_type (tcbState (tcbs s' u))"
        by (simp add: type_idle_set)
    qed (use calculation(1) in \<open>simp_all add: tc(2)\<close>)
    ultimately show "obj_queue (idle_set {t} s') v = obj_queue s v \<and> waiters (idle_set {t} s') v = waiters s v \<and>
        obj_ok (idle_set {t} s') v = obj_ok s v"
      using v by (simp add: tc) (simp add: s' s2_def s1o)
    fix u assume "u \<in> waiters s v"
    then have "u \<notin> waiters s w" using v by (auto simp: waiters_def)
    then have "tcbs s1 u = tcbs s u" using d(3) by (simp add: ep_links_only_def)
    then show "tcbEPNext (tcbs (idle_set {t} s') u) = tcbEPNext (tcbs s u) \<and>
        tcbEPPrev (tcbs (idle_set {t} s') u) = tcbEPPrev (tcbs s u) \<and>
        tcbPriority (tcbs (idle_set {t} s') u) = tcbPriority (tcbs s u)" by (simp add: tc)
  qed
  show "tcbState (tcbs (obj_dequeue w t s) u) = tcbState (tcbs s u)"
    "tcbSchedContext (tcbs (obj_dequeue w t s) u) = tcbSchedContext (tcbs s u)"
    "tcbBoundNotification (tcbs (obj_dequeue w t s) u) = tcbBoundNotification (tcbs s u)"
    "tcbYieldTo (tcbs (obj_dequeue w t s) u) = tcbYieldTo (tcbs s u)"
    by (simp_all add: s'_def [symmetric] tc l)
  show "scs (obj_dequeue w t s) = scs s" "replies (obj_dequeue w t s) = replies s"
    unfolding s'_def [symmetric] s' s2_def by (simp_all add: l)
  show "ntfnBoundTCB (ntfns (obj_dequeue w t s) n) = ntfnBoundTCB (ntfns s n)"
    "ntfnSchedContext (ntfns (obj_dequeue w t s) n) = ntfnSchedContext (ntfns s n)"
    unfolding s'_def [symmetric] s' s2_def by (cases w; simp add: obj_set_defs upd_defs l)+
qed

end
