(* ===== verification/IpcLinks.thy ===== *)
theory IpcLinks
  imports WaitQueues
begin

text \<open>
  References that come in pairs: a thread and its scheduling context, a thread and its bound
  notification, a notification and its scheduling context, a thread and the scheduling
  context it yields to, a blocked thread and its reply object, a scheduling context and
  the head of its call stack, and neighbours in a call stack. Each pair agrees in
  every state the communication operations reach.
\<close>

section \<open>Paired references\<close>

definition paired :: "(word_t \<Rightarrow> word_t) \<Rightarrow> (word_t \<Rightarrow> word_t) \<Rightarrow> bool" where
  "paired f g \<longleftrightarrow> (\<forall>a b. a \<noteq> 0 \<longrightarrow> b \<noteq> 0 \<longrightarrow> (f a = b \<longleftrightarrow> g b = a))"

lemma pairedD: "paired f g \<Longrightarrow> a \<noteq> 0 \<Longrightarrow> b \<noteq> 0 \<Longrightarrow> f a = b \<longleftrightarrow> g b = a"
  by (simp add: paired_def)

lemma paired_connect:
  assumes "paired f g" and "f a = 0" "g b = 0" "a \<noteq> 0" "b \<noteq> 0"
  shows "paired (f(a := b)) (g(b := a))"
  using assms unfolding paired_def fun_upd_apply by metis

lemma paired_disconnect:
  assumes "paired f g" and "f a = b" "a \<noteq> 0" "b \<noteq> 0"
  shows "paired (f(a := 0)) (g(b := 0))"
  using assms by (auto simp: paired_def)

text \<open>Moving one end of a pair, as donation does.\<close>

lemma paired_move:
  assumes "paired f g" and "f a = b" "f c = 0" "a \<noteq> 0" "b \<noteq> 0" "c \<noteq> 0"
  shows "paired (f(a := 0, c := b)) (g(b := c))"
  using assms unfolding paired_def fun_upd_apply by metis

lemma paired_null: "paired f g \<Longrightarrow> f b = 0 \<Longrightarrow> b \<noteq> 0 \<Longrightarrow> a \<noteq> 0 \<Longrightarrow> g a \<noteq> b"
  using pairedD by metis

text \<open>
  For a pair of fields of the kernel state: what a bind operation (both writes) and an
  unbind operation (both fields cleared) do.
\<close>

context link_store
begin

lemma bind_paired:
  assumes "paired (nxt s) (prv s)" "nxt s a = 0" "prv s b = 0" "a \<noteq> 0" "b \<noteq> 0"
  shows "paired (nxt (set_nxt a b (set_prv b a s))) (prv (set_nxt a b (set_prv b a s)))"
    and "paired (nxt (set_prv b a (set_nxt a b s))) (prv (set_prv b a (set_nxt a b s)))"
  using paired_connect [OF assms] by (simp_all add: links_set)

lemma unbind_paired:
  assumes "paired (nxt s) (prv s)" "nxt s a = b" "a \<noteq> 0" "b \<noteq> 0"
  shows "paired (nxt (set_nxt a 0 (set_prv b 0 s))) (prv (set_nxt a 0 (set_prv b 0 s)))"
    and "paired (nxt (set_prv b 0 (set_nxt a 0 s))) (prv (set_prv b 0 (set_nxt a 0 s)))"
  using paired_disconnect [OF assms] by (simp_all add: links_set)

end

section \<open>The pairs\<close>

abbreviation thread_sc :: "kstate \<Rightarrow> word_t \<Rightarrow> word_t" where
  "thread_sc s \<equiv> \<lambda>t. tcbSchedContext (tcbs s t)"
abbreviation sc_thread :: "kstate \<Rightarrow> word_t \<Rightarrow> word_t" where
  "sc_thread s \<equiv> \<lambda>c. scTcb (scs s c)"
abbreviation thread_ntfn :: "kstate \<Rightarrow> word_t \<Rightarrow> word_t" where
  "thread_ntfn s \<equiv> \<lambda>t. tcbBoundNotification (tcbs s t)"
abbreviation ntfn_thread :: "kstate \<Rightarrow> word_t \<Rightarrow> word_t" where
  "ntfn_thread s \<equiv> \<lambda>n. ntfnBoundTCB (ntfns s n)"
abbreviation ntfn_sc :: "kstate \<Rightarrow> word_t \<Rightarrow> word_t" where
  "ntfn_sc s \<equiv> \<lambda>n. ntfnSchedContext (ntfns s n)"
abbreviation sc_ntfn :: "kstate \<Rightarrow> word_t \<Rightarrow> word_t" where
  "sc_ntfn s \<equiv> \<lambda>c. scNotification (scs s c)"
abbreviation yield_to :: "kstate \<Rightarrow> word_t \<Rightarrow> word_t" where
  "yield_to s \<equiv> \<lambda>t. tcbYieldTo (tcbs s t)"
abbreviation yield_from :: "kstate \<Rightarrow> word_t \<Rightarrow> word_t" where
  "yield_from s \<equiv> \<lambda>c. scYieldFrom (scs s c)"

text \<open>The reply object of a thread that waits for a message or a reply.\<close>

definition reply_of :: "tcb \<Rightarrow> word_t" where
  "reply_of t = (if ts_type (tcbState t) \<in> {ThreadState_BlockedOnReceive, ThreadState_BlockedOnReply}
     then replyObject (tcbState t) else 0)"

abbreviation thread_reply :: "kstate \<Rightarrow> word_t \<Rightarrow> word_t" where
  "thread_reply s \<equiv> \<lambda>t. reply_of (tcbs s t)"
abbreviation reply_thread :: "kstate \<Rightarrow> word_t \<Rightarrow> word_t" where
  "reply_thread s \<equiv> \<lambda>r. replyTCB (replies s r)"

definition stack_sc :: "call_stack \<Rightarrow> word_t" where
  "stack_sc c = (if isHead c then callStackPtr c else 0)"

definition stack_reply :: "call_stack \<Rightarrow> word_t" where
  "stack_reply c = (if isHead c then 0 else callStackPtr c)"

abbreviation sc_reply :: "kstate \<Rightarrow> word_t \<Rightarrow> word_t" where
  "sc_reply s \<equiv> \<lambda>c. scReply (scs s c)"
abbreviation reply_sc :: "kstate \<Rightarrow> word_t \<Rightarrow> word_t" where
  "reply_sc s \<equiv> \<lambda>r. stack_sc (replyNext (replies s r))"
abbreviation reply_prev :: "kstate \<Rightarrow> word_t \<Rightarrow> word_t" where
  "reply_prev s \<equiv> \<lambda>r. callStackPtr (replyPrev (replies s r))"
abbreviation reply_next :: "kstate \<Rightarrow> word_t \<Rightarrow> word_t" where
  "reply_next s \<equiv> \<lambda>r. stack_reply (replyNext (replies s r))"

interpretation thread_sc: link_store thread_sc sc_thread set_tcbSchedContext set_scTcb
  by unfold_locales (auto simp: set_tcbSchedContext_def set_scTcb_def upd_defs)

interpretation thread_ntfn: link_store thread_ntfn ntfn_thread
  "\<lambda>t v. upd_tcb t (\<lambda>x. x\<lparr>tcbBoundNotification := v\<rparr>)" "\<lambda>n v. upd_ntfn n (\<lambda>x. x\<lparr>ntfnBoundTCB := v\<rparr>)"
  by unfold_locales (auto simp: upd_defs)

interpretation ntfn_sc: link_store ntfn_sc sc_ntfn
  "\<lambda>n v. upd_ntfn n (\<lambda>x. x\<lparr>ntfnSchedContext := v\<rparr>)" "\<lambda>c v. upd_sc c (\<lambda>x. x\<lparr>scNotification := v\<rparr>)"
  by unfold_locales (auto simp: upd_defs)

interpretation yield: link_store yield_to yield_from
  "\<lambda>t v. upd_tcb t (\<lambda>x. x\<lparr>tcbYieldTo := v\<rparr>)" "\<lambda>c v. upd_sc c (\<lambda>x. x\<lparr>scYieldFrom := v\<rparr>)"
  by unfold_locales (auto simp: upd_defs)

text \<open>A reply object is in a call stack only while its thread waits for the reply.\<close>

definition awaits_reply :: "kstate \<Rightarrow> word_t \<Rightarrow> bool" where
  "awaits_reply s t \<longleftrightarrow> ts_type (tcbState (tcbs s t)) = ThreadState_BlockedOnReply"

definition stack_ok :: "kstate \<Rightarrow> bool" where
  "stack_ok s \<longleftrightarrow>
     (\<forall>r. r \<noteq> 0 \<longrightarrow> reply_prev s r \<noteq> 0 \<or> callStackPtr (replyNext (replies s r)) \<noteq> 0 \<longrightarrow>
        reply_thread s r \<noteq> 0 \<and> awaits_reply s (reply_thread s r)) \<and>
     (\<forall>t. awaits_reply s t \<longrightarrow> replyObject (tcbState (tcbs s t)) \<noteq> 0) \<and> \<not> awaits_reply s 0"

definition links_ok :: "kstate \<Rightarrow> bool" where
  "links_ok s \<longleftrightarrow>
     paired (thread_sc s) (sc_thread s) \<and> paired (thread_ntfn s) (ntfn_thread s) \<and>
     paired (ntfn_sc s) (sc_ntfn s) \<and> paired (yield_to s) (yield_from s) \<and>
     paired (thread_reply s) (reply_thread s) \<and> paired (sc_reply s) (reply_sc s) \<and>
     paired (reply_prev s) (reply_next s) \<and> stack_ok s"

lemma links_okD:
  assumes "links_ok s"
  shows "paired (thread_sc s) (sc_thread s)" "paired (thread_ntfn s) (ntfn_thread s)"
    "paired (ntfn_sc s) (sc_ntfn s)" "paired (yield_to s) (yield_from s)"
    "paired (thread_reply s) (reply_thread s)" "paired (sc_reply s) (reply_sc s)"
    "paired (reply_prev s) (reply_next s)" "stack_ok s"
  using assms by (simp_all add: links_ok_def)

text \<open>What the pairs depend on.\<close>

definition link_view :: "kstate \<Rightarrow> (word_t \<Rightarrow> word_t \<times> word_t \<times> word_t \<times> word_t \<times> bool) \<times>
    (word_t \<Rightarrow> word_t \<times> word_t) \<times> (word_t \<Rightarrow> sched_context) \<times> (word_t \<Rightarrow> reply)" where
  "link_view s =
     (\<lambda>t. (thread_sc s t, thread_ntfn s t, yield_to s t, thread_reply s t, awaits_reply s t),
      \<lambda>n. (ntfn_thread s n, ntfn_sc s n), \<lambda>c. ipc_sc (scs s c), replies s)"

lemma link_viewI:
  assumes "\<And>t. thread_sc s' t = thread_sc s t" "\<And>t. thread_ntfn s' t = thread_ntfn s t"
    "\<And>t. yield_to s' t = yield_to s t" "\<And>t. thread_reply s' t = thread_reply s t"
    "\<And>t. awaits_reply s' t = awaits_reply s t" "\<And>n. ntfn_thread s' n = ntfn_thread s n"
    "\<And>n. ntfn_sc s' n = ntfn_sc s n" "\<And>c. ipc_sc (scs s' c) = ipc_sc (scs s c)" "replies s' = replies s"
  shows "link_view s' = link_view s"
  by (simp only: link_view_def assms)

lemma link_viewD:
  assumes "link_view s' = link_view s"
  shows "thread_sc s' t = thread_sc s t" "thread_ntfn s' t = thread_ntfn s t" "yield_to s' t = yield_to s t"
    "thread_reply s' t = thread_reply s t" "awaits_reply s' t = awaits_reply s t" "ntfn_thread s' n = ntfn_thread s n"
    "ntfn_sc s' n = ntfn_sc s n" "ipc_sc (scs s' c) = ipc_sc (scs s c)" "replies s' = replies s"
  using assms by (simp_all add: link_view_def fun_eq_iff)

lemma link_view_sc:
  assumes "link_view s' = link_view s"
  shows "sc_thread s' c = sc_thread s c" "sc_ntfn s' c = sc_ntfn s c" "yield_from s' c = yield_from s c"
    "sc_reply s' c = sc_reply s c"
  using link_viewD(8) [OF assms, of c] by (metis ipc_sc_fields)+

lemma awaits_reply_object: "awaits_reply s t \<Longrightarrow> replyObject (tcbState (tcbs s t)) = thread_reply s t"
  by (simp add: awaits_reply_def reply_of_def)

lemma stack_ok_alt:
  "stack_ok s \<longleftrightarrow> (\<forall>r. r \<noteq> 0 \<longrightarrow> reply_prev s r \<noteq> 0 \<or> callStackPtr (replyNext (replies s r)) \<noteq> 0 \<longrightarrow>
        reply_thread s r \<noteq> 0 \<and> awaits_reply s (reply_thread s r)) \<and>
     (\<forall>t. awaits_reply s t \<longrightarrow> thread_reply s t \<noteq> 0) \<and> \<not> awaits_reply s 0"
  using awaits_reply_object by (simp add: stack_ok_def cong: imp_cong)

lemma links_ok_cong: "link_view s' = link_view s \<Longrightarrow> links_ok s' = links_ok s"
  unfolding links_ok_def stack_ok_alt by (simp add: link_viewD [of s' s] link_view_sc [of s' s])

lemma link_view_ipc: "ipc_state s' = ipc_state s \<Longrightarrow> link_view s' = link_view s"
  by (rule link_viewI) (simp_all add: ipc_state_thread [of s' s] ipc_stateD [of s' s] reply_of_def awaits_reply_def)

lemma links_ok_frame: "ipc_state s' = ipc_state s \<Longrightarrow> links_ok s' = links_ok s"
  by (rule links_ok_cong [OF link_view_ipc])

end
