(* ===== verification/IpcInv.thy ===== *)
theory IpcInv
  imports IpcLinks
begin

text \<open>
  The invariant of communication: wait queues and paired references agree. One lemma per
  operation shows that it is kept, also by the intermediate states in which threads
  have been taken off a queue and their states are not updated yet.
\<close>

section \<open>What the wait queues depend on\<close>

definition wait_kind :: "tcb \<Rightarrow> (wait_obj \<times> tsType) option" where
  "wait_kind t = map_option (\<lambda>w. (w, ts_type (tcbState t))) (waits_on t)"

definition wait_view :: "kstate \<Rightarrow> (word_t \<Rightarrow> (wait_obj \<times> tsType) option \<times> word_t \<times> word_t \<times> word_t) \<times>
    (word_t \<Rightarrow> endpoint) \<times> (word_t \<Rightarrow> bool \<times> word_t \<times> word_t)" where
  "wait_view s =
     (\<lambda>t. (wait_kind (tcbs s t), tcbEPNext (tcbs s t), tcbEPPrev (tcbs s t), tcbPriority (tcbs s t)),
      eps s, \<lambda>n. (ntfn_state (ntfns s n) = NtfnState_Waiting, ntfnQueue_head (ntfns s n), ntfnQueue_tail (ntfns s n)))"

lemma wait_viewI:
  assumes "\<And>t. wait_kind (tcbs s' t) = wait_kind (tcbs s t)" "\<And>t. tcbEPNext (tcbs s' t) = tcbEPNext (tcbs s t)"
    "\<And>t. tcbEPPrev (tcbs s' t) = tcbEPPrev (tcbs s t)" "\<And>t. tcbPriority (tcbs s' t) = tcbPriority (tcbs s t)"
    "eps s' = eps s" "\<And>n. ntfn_state (ntfns s' n) = NtfnState_Waiting \<longleftrightarrow> ntfn_state (ntfns s n) = NtfnState_Waiting"
    "\<And>n. ntfnQueue_head (ntfns s' n) = ntfnQueue_head (ntfns s n)"
    "\<And>n. ntfnQueue_tail (ntfns s' n) = ntfnQueue_tail (ntfns s n)"
  shows "wait_view s' = wait_view s"
  by (simp only: wait_view_def assms)

lemma wait_viewD:
  assumes "wait_view s' = wait_view s"
  shows "wait_kind (tcbs s' t) = wait_kind (tcbs s t)" "tcbEPNext (tcbs s' t) = tcbEPNext (tcbs s t)"
    "tcbEPPrev (tcbs s' t) = tcbEPPrev (tcbs s t)" "tcbPriority (tcbs s' t) = tcbPriority (tcbs s t)"
    "eps s' = eps s" "ntfn_state (ntfns s' n) = NtfnState_Waiting \<longleftrightarrow> ntfn_state (ntfns s n) = NtfnState_Waiting"
    "ntfnQueue_head (ntfns s' n) = ntfnQueue_head (ntfns s n)"
    "ntfnQueue_tail (ntfns s' n) = ntfnQueue_tail (ntfns s n)"
  using assms by (simp_all add: wait_view_def fun_eq_iff)

lemma wait_kindD: "wait_kind t' = wait_kind t \<Longrightarrow> waits_on t' = waits_on t"
  "wait_kind t' = wait_kind t \<Longrightarrow> waits_on t = Some w \<Longrightarrow> ts_type (tcbState t') = ts_type (tcbState t)"
  by (cases "waits_on t"; cases "waits_on t'"; simp add: wait_kind_def)+

lemma wait_ok_cong:
  assumes "wait_view s' = wait_view s"
  shows "wait_ok s' = wait_ok s"
proof -
  note d = wait_viewD [OF assms]
  have w: "waiters s' = waiters s" by (simp add: waiters_def wait_kindD(1) [OF d(1)] fun_eq_iff)
  have "queue_of s' q W = queue_of s q W" for q W by (rule queue_of_cong) (simp add: d)
  moreover have "obj_queue s' v = obj_queue s v" for v by (cases v) (simp_all add: obj_set_defs d)
  moreover have "obj_ok s' v = obj_ok s v" for v
  proof (cases v)
    case (Ep p)
    have "ts_type (tcbState (tcbs s' t)) = ts_type (tcbState (tcbs s t))" if "t \<in> waiters s (Ep p)" for t
      using wait_kindD(2) [OF d(1)] that by (simp add: waiters_def)
    then show ?thesis by (simp add: Ep d w cong: image_cong)
  qed (simp add: d w)
  ultimately show ?thesis unfolding wait_ok_def w by simp
qed

lemma wait_view_ipc: "ipc_state s' = ipc_state s \<Longrightarrow> wait_view s' = wait_view s"
proof (rule wait_viewI)
  assume a: "ipc_state s' = ipc_state s"
  note d = ipc_state_thread [OF a] ipc_stateD [OF a]
  show "wait_kind (tcbs s' t) = wait_kind (tcbs s t)" for t by (simp add: wait_kind_def waits_on_def d)
  show "tcbEPPrev (tcbs s' t) = tcbEPPrev (tcbs s t)" for t using arg_cong [OF ipc_stateD(1) [OF a, of t], of tcbEPPrev] by simp
qed (simp_all add: ipc_state_thread [of s' s] ipc_stateD [of s' s])

lemma wait_kind_None: "waits_on t = None \<Longrightarrow> wait_kind t = None"
  by (simp add: wait_kind_def)

text \<open>Threads in \<open>S\<close> count as not waiting.\<close>

lemma wait_kind_idle: "wait_kind (tcbs (idle_set S s) t) = (if t \<in> S then None else wait_kind (tcbs s t))"
  by (simp add: wait_kind_def waits_on_idle_set type_idle_set)

lemma wait_view_idle:
  assumes "wait_view s' = wait_view s"
  shows "wait_view (idle_set S s') = wait_view (idle_set S s)"
  by (rule wait_viewI) (simp_all add: wait_kind_idle wait_viewD [OF assms])

section \<open>The invariant\<close>

definition ipc_inv_but :: "word_t set \<Rightarrow> kstate \<Rightarrow> bool" where
  "ipc_inv_but S s \<longleftrightarrow> wait_ok (idle_set S s) \<and> links_ok s"

abbreviation ipc_inv :: "kstate \<Rightarrow> bool" where
  "ipc_inv s \<equiv> ipc_inv_but {} s"

lemma ipc_inv_iff: "ipc_inv s \<longleftrightarrow> wait_ok s \<and> links_ok s"
  by (simp add: ipc_inv_but_def)

lemma inv_frame: "ipc_state s' = ipc_state s \<Longrightarrow> ipc_inv_but S s' = ipc_inv_but S s"
  unfolding ipc_inv_but_def using wait_ok_idle_frame links_ok_frame by blast

lemma inv_cong:
  "wait_view s' = wait_view s \<Longrightarrow> link_view s' = link_view s \<Longrightarrow> ipc_inv_but S s' = ipc_inv_but S s"
  unfolding ipc_inv_but_def using wait_ok_cong [OF wait_view_idle] links_ok_cong by blast

text \<open>A thread that does not wait.\<close>

lemma inv_but_insert:
  assumes "waits_on (tcbs s t) = None"
  shows "ipc_inv_but (insert t S) s = ipc_inv_but S s"
proof -
  have "wait_view (idle_set (insert t S) s) = wait_view (idle_set S s)"
    by (rule wait_viewI) (simp_all add: wait_kind_idle wait_kind_None [OF assms])
  then show ?thesis using wait_ok_cong unfolding ipc_inv_but_def by blast
qed

named_theorems ipc_simps \<open>fields of the linked state after operations that keep it\<close>

lemmas [ipc_simps] =
  ipc_state_thread [OF ipc_queue_ops(1)] ipc_state_thread [OF ipc_queue_ops(2)] ipc_state_thread [OF ipc_queue_ops(3)]
  ipc_state_thread [OF ipc_queue_ops(4)] ipc_state_thread [OF ipc_queue_ops(5)] ipc_state_thread [OF ipc_queue_ops(6)]
  ipc_state_thread [OF ipc_queue_ops(7)]
  ipc_stateD(2,3,5) [OF ipc_queue_ops(1)] ipc_stateD(2,3,5) [OF ipc_queue_ops(2)] ipc_stateD(2,3,5) [OF ipc_queue_ops(3)]
  ipc_stateD(2,3,5) [OF ipc_queue_ops(4)] ipc_stateD(2,3,5) [OF ipc_queue_ops(5)] ipc_stateD(2,3,5) [OF ipc_queue_ops(6)]
  ipc_stateD(2,3,5) [OF ipc_queue_ops(7)]
  ipc_state_thread [OF ipc_registers(1)] ipc_stateD(2,3,5) [OF ipc_registers(1)]

text \<open>Threads states in which a thread is in no queue and has no reply object.\<close>

definition plain_state :: "tsType \<Rightarrow> bool" where
  "plain_state ts \<longleftrightarrow> ts \<in> {ThreadState_Inactive, ThreadState_Running, ThreadState_Restart, ThreadState_IdleThreadState}"

definition plain :: "kstate \<Rightarrow> word_t \<Rightarrow> bool" where
  "plain s t \<longleftrightarrow> plain_state (ts_type (tcbState (tcbs s t)))"

lemma plain_stateD:
  "plain_state ts \<Longrightarrow> wait_of ts p = None" "plain_state ts \<Longrightarrow> ts \<noteq> ThreadState_BlockedOnReply"
  "plain_state ts \<Longrightarrow> ts \<noteq> ThreadState_BlockedOnReceive"
  by (auto simp: plain_state_def)

lemma plain_waits: "plain s t \<Longrightarrow> waits_on (tcbs s t) = None" "plain s t \<Longrightarrow> thread_reply s t = 0"
  "plain s t \<Longrightarrow> \<not> awaits_reply s t"
  by (auto simp: plain_def waits_on_def reply_of_def awaits_reply_def plain_stateD)

lemma plain_frame: "ipc_state s' = ipc_state s \<Longrightarrow> plain s' t = plain s t"
  by (simp add: plain_def ipc_state_thread(1) [of s' s])

lemma ipc_setThreadState:
  "ipc_state (setThreadState t ts s) = ipc_state (set_tcbState t (\<lambda>st. st\<lparr>ts_type := ts\<rparr>) s)"
  by (simp add: setThreadState_def)

lemma setThreadState_tcb:
  "tcbs (set_tcbState t f s) u = (if u = t then (tcbs s t)\<lparr>tcbState := f (tcbState (tcbs s t))\<rparr> else tcbs s u)"
  by (simp add: set_tcbState_def upd_tcb_def)

lemma set_tcbState_objs [simp]:
  "eps (set_tcbState t f s) = eps s" "ntfns (set_tcbState t f s) = ntfns s" "scs (set_tcbState t f s) = scs s"
  "replies (set_tcbState t f s) = replies s"
  by (simp_all add: set_tcbState_def upd_tcb_def)

lemma plain_set: "plain (setThreadState t ts s) u = (if u = t then plain_state ts else plain s u)"
  using ipc_state_thread(1) [OF ipc_setThreadState, of t ts s u] by (simp add: plain_def setThreadState_tcb)

lemma inv_setThreadState:
  assumes "ipc_inv_but (insert t S) s" "thread_reply s t = 0" "plain_state ts"
  shows "ipc_inv_but (S - {t}) (setThreadState t ts s)"
proof -
  let ?s = "set_tcbState t (\<lambda>st. st\<lparr>ts_type := ts\<rparr>) s"
  have "\<not> awaits_reply s t"
    using assms(1,2) awaits_reply_object [of s t] by (auto simp: ipc_inv_but_def links_ok_def stack_ok_def)
  then have "link_view ?s = link_view s"
    by (intro link_viewI)
      (use assms in \<open>auto simp: setThreadState_tcb reply_of_def awaits_reply_def plain_stateD\<close>)
  then have l: "links_ok ?s = links_ok s" by (rule links_ok_cong)
  have "wait_kind (tcbs ?s t) = None"
    by (rule wait_kind_None) (simp add: waits_on_def setThreadState_tcb plain_stateD assms(3))
  then have "wait_view (idle_set (S - {t}) ?s) = wait_view (idle_set (insert t S) s)"
    by (intro wait_viewI) (simp_all add: wait_kind_idle setThreadState_tcb)
  from wait_ok_cong [OF this] show ?thesis
    unfolding inv_frame [OF ipc_setThreadState] using assms(1) l by (simp add: ipc_inv_but_def)
qed

lemma inv_set_plain:
  assumes "ipc_inv_but S s" "plain s t" "plain_state ts"
  shows "ipc_inv_but S (setThreadState t ts s)"
proof -
  have "ipc_inv_but (insert t S) s" using assms(1,2) inv_but_insert plain_waits(1) by metis
  then have "ipc_inv_but (S - {t}) (setThreadState t ts s)"
    using inv_setThreadState plain_waits(2) assms(2,3) by metis
  moreover have "waits_on (tcbs (setThreadState t ts s) t) = None"
    using plain_set [of t ts s t] assms(3) plain_waits(1) by simp
  ultimately show ?thesis
    using inv_but_insert [of "setThreadState t ts s" t "S - {t}"] inv_but_insert [of "setThreadState t ts s" t S]
    by simp
qed

section \<open>Scheduling contexts\<close>

lemma sc_set_fields [simp]:
  "tcbs (set_tcbSchedContext t c s) u = (if u = t then (tcbs s t)\<lparr>tcbSchedContext := c\<rparr> else tcbs s u)"
  "eps (set_tcbSchedContext t c s) = eps s" "ntfns (set_tcbSchedContext t c s) = ntfns s"
  "scs (set_tcbSchedContext t c s) = scs s" "replies (set_tcbSchedContext t c s) = replies s"
  "tcbs (set_scTcb c t s) = tcbs s" "eps (set_scTcb c t s) = eps s" "ntfns (set_scTcb c t s) = ntfns s"
  "scs (set_scTcb c t s) d = (if d = c then (scs s c)\<lparr>scTcb := t\<rparr> else scs s d)" "replies (set_scTcb c t s) = replies s"
  "ksCurThread (set_tcbSchedContext t c s) = ksCurThread s"
  by (simp_all add: set_tcbSchedContext_def set_scTcb_def upd_defs)

text \<open>Changing only the binding of threads and scheduling contexts.\<close>

lemma rebind_sc:
  assumes "wait_view s' = wait_view s" "thread_ntfn s' = thread_ntfn s" "yield_to s' = yield_to s"
    "\<And>t. tcbState (tcbs s' t) = tcbState (tcbs s t) \<or> thread_reply s' t = thread_reply s t \<and> awaits_reply s' t = awaits_reply s t"
    "ntfns s' = ntfns s" "replies s' = replies s"
    "sc_ntfn s' = sc_ntfn s" "yield_from s' = yield_from s" "sc_reply s' = sc_reply s"
    "paired (thread_sc s') (sc_thread s')" "ipc_inv_but S s"
  shows "ipc_inv_but S s'"
proof -
  have "thread_reply s' t = thread_reply s t \<and> awaits_reply s' t = awaits_reply s t" for t
    using assms(4) [of t] by (auto simp: reply_of_def awaits_reply_def)
  then have "links_ok s'" using assms unfolding links_ok_def stack_ok_alt ipc_inv_but_def by simp
  then show ?thesis using assms(1,11) wait_ok_cong [OF wait_view_idle] unfolding ipc_inv_but_def by blast
qed

lemma ipc_cong_tcb:
  assumes "ipc_state s' = ipc_state s" "\<And>x y. ipc_tcb x = ipc_tcb y \<Longrightarrow> ipc_tcb (f x) = ipc_tcb (f y)"
  shows "ipc_state (upd_tcb t f s') = ipc_state (upd_tcb t f s)"
proof -
  note d = ipc_stateD [OF assms(1)]
  have "ipc_tcb (f (tcbs s' t)) = ipc_tcb (f (tcbs s t))" by (rule assms(2) [OF d(1)])
  then show ?thesis by (intro ipc_stateI) (simp_all add: upd_tcb_def d)
qed

lemma ipc_cong_sc:
  assumes "ipc_state s' = ipc_state s" "\<And>x y. ipc_sc x = ipc_sc y \<Longrightarrow> ipc_sc (f x) = ipc_sc (f y)"
  shows "ipc_state (upd_sc c f s') = ipc_state (upd_sc c f s)"
proof -
  note d = ipc_stateD [OF assms(1)]
  have "ipc_sc (f (scs s' c)) = ipc_sc (f (scs s c))" by (rule assms(2) [OF d(4)])
  then show ?thesis by (intro ipc_stateI) (simp_all add: upd_sc_def d)
qed

lemma ipc_cong_reply:
  "ipc_state s' = ipc_state s \<Longrightarrow> ipc_state (upd_reply r f s') = ipc_state (upd_reply r f s)"
  by (rule ipc_stateI) (simp_all add: upd_reply_def ipc_stateD [of s' s])

lemma ipc_cong_ntfn:
  "ipc_state s' = ipc_state s \<Longrightarrow> ipc_state (upd_ntfn r f s') = ipc_state (upd_ntfn r f s)"
  by (rule ipc_stateI) (simp_all add: upd_ntfn_def ipc_stateD [of s' s])

lemma ipc_tcb_eq_iff:
  "ipc_tcb x = ipc_tcb y \<longleftrightarrow> ts_type (tcbState x) = ts_type (tcbState y) \<and>
     replyObject (tcbState x) = replyObject (tcbState y) \<and> blockingObject (tcbState x) = blockingObject (tcbState y) \<and>
     tcbBoundNotification x = tcbBoundNotification y \<and> tcbPriority x = tcbPriority y \<and>
     tcbSchedContext x = tcbSchedContext y \<and> tcbYieldTo x = tcbYieldTo y \<and>
     tcbEPNext x = tcbEPNext y \<and> tcbEPPrev x = tcbEPPrev y"
  by (auto simp: ipc_tcb_def zero_tcb_def zero_thread_state_def)

lemma ipc_sc_eq_iff:
  "ipc_sc x = ipc_sc y \<longleftrightarrow> scTcb x = scTcb y \<and> scReply x = scReply y \<and> scNotification x = scNotification y \<and>
     scYieldFrom x = scYieldFrom y"
  by (auto simp: ipc_sc_def zero_sched_context_def)

lemma ipc_congs:
  assumes "ipc_state s' = ipc_state s"
  shows "ipc_state (set_tcbSchedContext t c s') = ipc_state (set_tcbSchedContext t c s)"
    "ipc_state (set_scTcb c t s') = ipc_state (set_scTcb c t s)"
    "ipc_state (set_scReply c r s') = ipc_state (set_scReply c r s)"
    "ipc_state (set_replyTCB r t s') = ipc_state (set_replyTCB r t s)"
    "ipc_state (set_replyPrev r cs s') = ipc_state (set_replyPrev r cs s)"
    "ipc_state (set_replyNext r cs s') = ipc_state (set_replyNext r cs s)"
    "ipc_state (set_tcbState t (\<lambda>st. st\<lparr>ts_type := ts\<rparr>) s') = ipc_state (set_tcbState t (\<lambda>st. st\<lparr>ts_type := ts\<rparr>) s)"
    "ipc_state (set_tcbState t (\<lambda>st. st\<lparr>replyObject := r\<rparr>) s') = ipc_state (set_tcbState t (\<lambda>st. st\<lparr>replyObject := r\<rparr>) s)"
    "ipc_state (set_tcbState t (\<lambda>st. st\<lparr>blockingObject := r\<rparr>) s') = ipc_state (set_tcbState t (\<lambda>st. st\<lparr>blockingObject := r\<rparr>) s)"
  unfolding set_tcbSchedContext_def set_scTcb_def set_scReply_def set_replyTCB_def set_replyPrev_def
    set_replyNext_def set_tcbState_def
  by (intro ipc_cong_tcb ipc_cong_sc ipc_cong_reply assms; simp add: ipc_tcb_eq_iff ipc_sc_eq_iff)+

text \<open>Donation without its effect on the scheduler.\<close>

definition donate0 :: "word_t \<Rightarrow> word_t \<Rightarrow> kstate \<Rightarrow> kstate" where
  "donate0 sc to s = set_tcbSchedContext to sc (set_scTcb sc to
     (if sc_thread s sc \<noteq> 0 then set_tcbSchedContext (sc_thread s sc) 0 s else s))"

lemma ipc_donate: "ipc_state (schedContext_donate sc to s) = ipc_state (donate0 sc to s)"
proof (cases "scTcb (scs s sc) = 0")
  case True
  then show ?thesis by (simp add: schedContext_donate_def donate0_def Let_def)
next
  case False
  let ?t = "scTcb (scs s sc)"
  let ?a = "set_tcbSchedContext ?t 0 (tcbReleaseRemove ?t (tcbSchedDequeue ?t s))"
  have "ipc_state ?a = ipc_state (set_tcbSchedContext ?t 0 s)" by (rule ipc_congs) simp
  then have "ipc_state (if ?t = ksCurThread ?a \<or> ?t = ksSchedulerAction ?a then rescheduleRequired ?a else ?a) =
    ipc_state (set_tcbSchedContext ?t 0 s)" by simp
  from ipc_congs(1) [OF ipc_congs(2) [OF this]] False show ?thesis
    by (simp add: schedContext_donate_def donate0_def Let_def)
qed

lemma donate0_fields:
  "tcbs (donate0 sc to s) t = (if t = to then (tcbs s t)\<lparr>tcbSchedContext := sc\<rparr>
     else if sc_thread s sc \<noteq> 0 \<and> t = sc_thread s sc then (tcbs s t)\<lparr>tcbSchedContext := 0\<rparr> else tcbs s t)"
  "scs (donate0 sc to s) c = (if c = sc then (scs s c)\<lparr>scTcb := to\<rparr> else scs s c)"
  "eps (donate0 sc to s) = eps s" "ntfns (donate0 sc to s) = ntfns s" "replies (donate0 sc to s) = replies s"
  by (simp_all add: donate0_def)

lemma donate0_other [simp]:
  "tcbState (tcbs (donate0 sc to s) t) = tcbState (tcbs s t)" "thread_ntfn (donate0 sc to s) t = thread_ntfn s t"
  "yield_to (donate0 sc to s) t = yield_to s t" "tcbEPNext (tcbs (donate0 sc to s) t) = tcbEPNext (tcbs s t)"
  "tcbEPPrev (tcbs (donate0 sc to s) t) = tcbEPPrev (tcbs s t)" "tcbPriority (tcbs (donate0 sc to s) t) = tcbPriority (tcbs s t)"
  "sc_ntfn (donate0 sc to s) c = sc_ntfn s c" "yield_from (donate0 sc to s) c = yield_from s c"
  "sc_reply (donate0 sc to s) c = sc_reply s c" "eps (donate0 sc to s) = eps s" "ntfns (donate0 sc to s) = ntfns s"
  "replies (donate0 sc to s) = replies s"
  by (simp_all add: donate0_fields)

lemma donate0_paired:
  assumes p: "paired (thread_sc s) (sc_thread s)" and "thread_sc s to = 0" "sc \<noteq> 0" "to \<noteq> 0"
  shows "paired (thread_sc (donate0 sc to s)) (sc_thread (donate0 sc to s))"
proof (cases "sc_thread s sc = 0")
  case True
  then have "thread_sc (donate0 sc to s) = (thread_sc s)(to := sc)"
    "sc_thread (donate0 sc to s) = (sc_thread s)(sc := to)" by (auto simp: donate0_fields fun_eq_iff)
  then show ?thesis using paired_connect [OF p assms(2) True assms(4,3)] by simp
next
  case False
  let ?t = "sc_thread s sc"
  have t: "thread_sc s ?t = sc" using pairedD [OF p False assms(3)] by simp
  then have "?t \<noteq> to" using assms by auto
  then have "thread_sc (donate0 sc to s) = (thread_sc s)(?t := 0, to := sc)"
    "sc_thread (donate0 sc to s) = (sc_thread s)(sc := to)" using False by (auto simp: donate0_fields fun_eq_iff)
  then show ?thesis using paired_move [OF p t assms(2) False assms(3,4)] by simp
qed

lemma inv_donate:
  assumes "ipc_inv_but S s" "thread_sc s to = 0" "sc \<noteq> 0" "to \<noteq> 0"
  shows "ipc_inv_but S (schedContext_donate sc to s)"
  unfolding inv_frame [OF ipc_donate]
proof (rule rebind_sc [OF _ _ _ _ _ _ _ _ _ _ assms(1)])
  show "paired (thread_sc (donate0 sc to s)) (sc_thread (donate0 sc to s))"
    using donate0_paired assms by (auto simp: ipc_inv_but_def links_ok_def)
  show "wait_view (donate0 sc to s) = wait_view s"
    by (rule wait_viewI) (simp_all add: wait_kind_def waits_on_def)
qed simp_all

section \<open>Reply objects\<close>

lemma paired_sym: "paired f g \<longleftrightarrow> paired g f"
  unfolding paired_def by metis

lemma reply_set_fields [simp]:
  "tcbs (set_replyTCB r t s) = tcbs s" "tcbs (set_replyPrev r c s) = tcbs s" "tcbs (set_replyNext r c s) = tcbs s"
  "tcbs (set_scReply k r s) = tcbs s" "eps (set_replyTCB r t s) = eps s" "eps (set_replyPrev r c s) = eps s"
  "eps (set_replyNext r c s) = eps s" "eps (set_scReply k r s) = eps s" "ntfns (set_replyTCB r t s) = ntfns s"
  "ntfns (set_replyPrev r c s) = ntfns s" "ntfns (set_replyNext r c s) = ntfns s" "ntfns (set_scReply k r s) = ntfns s"
  "scs (set_replyTCB r t s) = scs s" "scs (set_replyPrev r c s) = scs s" "scs (set_replyNext r c s) = scs s"
  "replies (set_scReply k r s) = replies s"
  "scs (set_scReply k r s) d = (if d = k then (scs s k)\<lparr>scReply := r\<rparr> else scs s d)"
  "replies (set_replyTCB r t s) q = (if q = r then (replies s r)\<lparr>replyTCB := t\<rparr> else replies s q)"
  "replies (set_replyPrev r c s) q = (if q = r then (replies s r)\<lparr>replyPrev := c\<rparr> else replies s q)"
  "replies (set_replyNext r c s) q = (if q = r then (replies s r)\<lparr>replyNext := c\<rparr> else replies s q)"
  by (simp_all add: set_replyTCB_def set_replyPrev_def set_replyNext_def set_scReply_def upd_defs)

lemma call_stack_new_sel [simp]:
  "callStackPtr (call_stack_new p h) = p" "isHead (call_stack_new p h) = h"
  "stack_sc (call_stack_new p h) = (if h then p else 0)" "stack_reply (call_stack_new p h) = (if h then 0 else p)"
  by (simp_all add: call_stack_new_def stack_sc_def stack_reply_def)

text \<open>Operations on the call stack change only reply objects and the heads of call stacks.\<close>

lemma restack:
  assumes "tcbs s' = tcbs s" "eps s' = eps s" "ntfns s' = ntfns s" "sc_thread s' = sc_thread s" "sc_ntfn s' = sc_ntfn s"
    "yield_from s' = yield_from s" "reply_thread s' = reply_thread s"
    "paired (sc_reply s') (reply_sc s')" "paired (reply_prev s') (reply_next s')"
    "\<And>r. r \<noteq> 0 \<Longrightarrow> reply_prev s' r \<noteq> 0 \<or> callStackPtr (replyNext (replies s' r)) \<noteq> 0 \<Longrightarrow>
       reply_prev s r \<noteq> 0 \<or> callStackPtr (replyNext (replies s r)) \<noteq> 0 \<or>
       reply_thread s r \<noteq> 0 \<and> awaits_reply s (reply_thread s r)"
    "ipc_inv_but S s"
  shows "ipc_inv_but S s'"
proof -
  have a: "awaits_reply s' = awaits_reply s" by (simp add: awaits_reply_def assms fun_eq_iff)
  have l: "links_ok s" using assms(11) by (simp add: ipc_inv_but_def)
  have rt: "replyTCB (replies s' r) = replyTCB (replies s r)" for r using assms(7) by (simp add: fun_eq_iff)
  have "stack_ok s'" unfolding stack_ok_alt a rt using assms(1,10) links_okD(8) [OF l, unfolded stack_ok_alt] by metis
  then have "links_ok s'" using l assms(1-9) unfolding links_ok_def by simp
  moreover have "wait_view s' = wait_view s" by (rule wait_viewI) (simp_all add: assms)
  ultimately show ?thesis using assms(11) wait_ok_cong [OF wait_view_idle] unfolding ipc_inv_but_def by blast
qed

lemma inv_links: "ipc_inv_but S s \<Longrightarrow> links_ok s"
  by (simp add: ipc_inv_but_def)

text \<open>Linking and unlinking a thread and a reply object that is in no call stack.\<close>

lemma reply_free:
  assumes "links_ok s" "r \<noteq> 0" "reply_thread s r = 0 \<or> \<not> awaits_reply s (reply_thread s r)"
  shows "reply_prev s r = 0" "callStackPtr (replyNext (replies s r)) = 0"
  using links_okD(8) [OF assms(1)] assms(2,3) by (auto simp: stack_ok_def)

text \<open>Changing the reply object of a thread and the state it is in.\<close>

lemma relink:
  assumes "links_ok s" "\<And>t. thread_sc s' t = thread_sc s t" "\<And>t. thread_ntfn s' t = thread_ntfn s t"
    "\<And>t. yield_to s' t = yield_to s t" "ntfns s' = ntfns s" "scs s' = scs s"
    "\<And>r. replyPrev (replies s' r) = replyPrev (replies s r)" "\<And>r. replyNext (replies s' r) = replyNext (replies s r)"
    "paired (thread_reply s') (reply_thread s')" "stack_ok s'"
  shows "links_ok s'"
  using links_okD [OF assms(1)] assms(9,10) unfolding links_ok_def by (simp add: assms(2-8))

lemma ipc_reply_unlink:
  "ipc_state (reply_unlink r t s) =
   ipc_state (set_tcbState t (\<lambda>st. st\<lparr>ts_type := ThreadState_Inactive\<rparr>) (set_replyTCB r 0 s))"
  by (simp add: reply_unlink_def ipc_setThreadState)

lemma inv_reply_unlink:
  assumes "ipc_inv_but (insert t S) s" "thread_reply s t = r" "r \<noteq> 0" "t \<noteq> 0"
    "reply_prev s r = 0" "callStackPtr (replyNext (replies s r)) = 0"
  shows "ipc_inv_but (S - {t}) (reply_unlink r t s)"
proof -
  let ?s = "set_tcbState t (\<lambda>st. st\<lparr>ts_type := ThreadState_Inactive\<rparr>) (set_replyTCB r 0 s)"
  have l: "links_ok s" using assms(1) by (rule inv_links)
  note d = links_okD [OF l]
  have "thread_reply ?s = (thread_reply s)(t := 0)" "reply_thread ?s = (reply_thread s)(r := 0)"
    by (auto simp: setThreadState_tcb reply_of_def fun_eq_iff)
  then have p: "paired (thread_reply ?s) (reply_thread ?s)" using paired_disconnect [OF d(5) assms(2,4,3)] by simp
  have a: "awaits_reply ?s u \<longleftrightarrow> awaits_reply s u \<and> u \<noteq> t" for u by (simp add: awaits_reply_def setThreadState_tcb)
  have rt: "reply_thread s r = t" using pairedD [OF d(5) assms(4,3)] assms(2) by simp
  have k: "reply_thread ?s q \<noteq> 0 \<and> awaits_reply ?s (reply_thread ?s q)"
    if q: "q \<noteq> 0" "reply_prev ?s q \<noteq> 0 \<or> callStackPtr (replyNext (replies ?s q)) \<noteq> 0" for q
  proof -
    have "q \<noteq> r" using q(2) assms(5,6) by auto
    then have q2: "reply_thread s q \<noteq> 0 \<and> awaits_reply s (reply_thread s q)"
      using d(8) [unfolded stack_ok_alt] q by simp
    have "reply_thread s q \<noteq> t" using pairedD [OF d(5) assms(4) q(1)] assms(2) \<open>q \<noteq> r\<close> by simp
    then show ?thesis using q2 \<open>q \<noteq> r\<close> by (simp add: a)
  qed
  have "thread_reply ?s u \<noteq> 0" if "awaits_reply ?s u" for u
    using d(8) [unfolded stack_ok_alt] that a by (simp add: setThreadState_tcb)
  moreover have "\<not> awaits_reply ?s 0" using d(8) [unfolded stack_ok_alt] a by simp
  ultimately have "stack_ok ?s" using k unfolding stack_ok_alt by blast
  then have "links_ok ?s" using p by (intro relink [OF l]) (simp_all add: setThreadState_tcb)
  moreover have "wait_view (idle_set (S - {t}) ?s) = wait_view (idle_set (insert t S) s)"
    by (rule wait_viewI) (simp_all add: wait_kind_idle setThreadState_tcb wait_kind_None waits_on_def)
  ultimately show ?thesis
    unfolding inv_frame [OF ipc_reply_unlink] using assms(1) wait_ok_cong unfolding ipc_inv_but_def by blast
qed

text \<open>A thread starts to wait for the reply through \<open>r\<close>.\<close>

lemma ipc_block_reply:
  "ipc_state (setThreadStateBlockedOnReply t r s) = ipc_state (set_tcbState t (\<lambda>st. st\<lparr>replyObject := r\<rparr>)
     (set_tcbState t (\<lambda>st. st\<lparr>ts_type := ThreadState_BlockedOnReply\<rparr>) s))"
  by (simp add: setThreadStateBlockedOnReply_def)

lemma inv_block_reply:
  assumes "ipc_inv_but (insert t S) s" "thread_reply s t = 0" "reply_thread s r = 0" "r \<noteq> 0" "t \<noteq> 0"
  shows "ipc_inv_but (S - {t}) (setThreadStateBlockedOnReply t r (set_replyTCB r t s))"
proof -
  let ?s = "set_tcbState t (\<lambda>st. st\<lparr>replyObject := r\<rparr>)
     (set_tcbState t (\<lambda>st. st\<lparr>ts_type := ThreadState_BlockedOnReply\<rparr>) (set_replyTCB r t s))"
  have l: "links_ok s" using assms(1) by (rule inv_links)
  note d = links_okD [OF l]
  have f: "thread_reply ?s = (thread_reply s)(t := r)" "reply_thread ?s = (reply_thread s)(r := t)"
    by (auto simp: setThreadState_tcb reply_of_def fun_eq_iff)
  then have p: "paired (thread_reply ?s) (reply_thread ?s)" using paired_connect [OF d(5) assms(2,3,5,4)] by simp
  have a: "awaits_reply ?s u \<longleftrightarrow> awaits_reply s u \<or> u = t" for u by (simp add: awaits_reply_def setThreadState_tcb)
  have fr: "reply_prev s r = 0" "callStackPtr (replyNext (replies s r)) = 0"
    using reply_free [OF l assms(4)] assms(3) by simp_all
  have k: "reply_thread ?s q \<noteq> 0 \<and> awaits_reply ?s (reply_thread ?s q)"
    if q: "q \<noteq> 0" "reply_prev ?s q \<noteq> 0 \<or> callStackPtr (replyNext (replies ?s q)) \<noteq> 0" for q
  proof -
    have "q \<noteq> r" using q(2) fr by auto
    then show ?thesis using d(8) [unfolded stack_ok_alt] q by (simp add: a)
  qed
  have "thread_reply ?s u \<noteq> 0" if "awaits_reply ?s u" for u
    using d(8) [unfolded stack_ok_alt] that a assms(4) f(1) by (cases "u = t") (simp_all add: fun_eq_iff)
  moreover have "\<not> awaits_reply ?s 0" using d(8) [unfolded stack_ok_alt] a assms(5) by simp
  ultimately have "stack_ok ?s" using k unfolding stack_ok_alt by blast
  then have "links_ok ?s" using p by (intro relink [OF l]) (simp_all add: setThreadState_tcb)
  moreover have "wait_view (idle_set (S - {t}) ?s) = wait_view (idle_set (insert t S) s)"
    by (rule wait_viewI) (simp_all add: wait_kind_idle setThreadState_tcb wait_kind_None waits_on_def)
  ultimately show ?thesis
    unfolding inv_frame [OF ipc_block_reply] using assms(1) wait_ok_cong unfolding ipc_inv_but_def by blast
qed

text \<open>A reply object becomes the head of a call stack.\<close>

definition stack_push :: "word_t \<Rightarrow> word_t \<Rightarrow> kstate \<Rightarrow> kstate" where
  "stack_push sc r s =
     (let old = sc_reply s sc;
          s = (if old \<noteq> 0 then set_replyNext old (call_stack_new r False) s else s);
          s = set_replyPrev r (call_stack_new old False) s;
          s = set_scReply sc r s
      in set_replyNext r (call_stack_new sc True) s)"

lemma stack_push_fields:
  "tcbs (stack_push sc r s) = tcbs s" "eps (stack_push sc r s) = eps s" "ntfns (stack_push sc r s) = ntfns s"
  "scs (stack_push sc r s) c = (if c = sc then (scs s c)\<lparr>scReply := r\<rparr> else scs s c)"
  "replyTCB (replies (stack_push sc r s) q) = replyTCB (replies s q)"
  "replyPrev (replies (stack_push sc r s) q) = (if q = r then call_stack_new (sc_reply s sc) False else replyPrev (replies s q))"
  "replyNext (replies (stack_push sc r s) q) = (if q = r then call_stack_new sc True
     else if sc_reply s sc \<noteq> 0 \<and> q = sc_reply s sc then call_stack_new r False else replyNext (replies s q))"
  by (simp_all add: stack_push_def Let_def)

lemma inv_stack_push:
  assumes inv: "ipc_inv_but S s" and "reply_prev s r = 0" "callStackPtr (replyNext (replies s r)) = 0"
    "reply_thread s r \<noteq> 0" "awaits_reply s (reply_thread s r)" "r \<noteq> 0" "sc \<noteq> 0"
  shows "ipc_inv_but S (stack_push sc r s)"
proof (rule restack [OF _ _ _ _ _ _ _ _ _ _ inv])
  note d = links_okD [OF inv_links [OF inv]]
  have r0: "reply_sc s r = 0" "reply_next s r = 0" using assms(3) by (simp_all add: stack_sc_def stack_reply_def)
  let ?s = "stack_push sc r s" and ?o = "sc_reply s sc"
  have "paired (sc_reply ?s) (reply_sc ?s) \<and> paired (reply_prev ?s) (reply_next ?s)"
  proof (cases "?o = 0")
    case True
    then have "sc_reply ?s = (sc_reply s)(sc := r)" "reply_sc ?s = (reply_sc s)(r := sc)"
      "reply_prev ?s = reply_prev s" "reply_next ?s = reply_next s"
      using r0 assms(2) by (auto simp: stack_push_fields fun_eq_iff)
    then show ?thesis using paired_connect [OF d(6) True r0(1) assms(7,6)] d(7) by simp
  next
    case False
    have o: "reply_sc s ?o = sc" using pairedD [OF d(6) assms(7) False] by simp
    then have "?o \<noteq> r" "reply_next s ?o = 0" using r0 assms(7) by (auto simp: stack_sc_def stack_reply_def)
    moreover from this have "sc_reply ?s = (sc_reply s)(sc := r)" "reply_sc ?s = (reply_sc s)(?o := 0, r := sc)"
      "reply_prev ?s = (reply_prev s)(r := ?o)" "reply_next ?s = (reply_next s)(?o := r)"
      using r0 False by (auto simp: stack_push_fields fun_eq_iff)
    ultimately show ?thesis
      using paired_move [OF d(6) [unfolded paired_sym [of "sc_reply s"]] o r0(1) False assms(7,6)]
        paired_connect [OF d(7) assms(2) _ assms(6) False] paired_sym by simp
  qed
  then show "paired (sc_reply ?s) (reply_sc ?s)" "paired (reply_prev ?s) (reply_next ?s)" by blast+
  fix q assume q: "q \<noteq> 0" "reply_prev ?s q \<noteq> 0 \<or> callStackPtr (replyNext (replies ?s q)) \<noteq> 0"
  show "reply_prev s q \<noteq> 0 \<or> callStackPtr (replyNext (replies s q)) \<noteq> 0 \<or>
       reply_thread s q \<noteq> 0 \<and> awaits_reply s (reply_thread s q)"
  proof (cases "q = r \<or> ?o \<noteq> 0 \<and> q = ?o")
    case True
    moreover have "callStackPtr (replyNext (replies s q)) \<noteq> 0" if "?o \<noteq> 0" "q = ?o"
      using pairedD [OF d(6) assms(7) that(1)] that(2) assms(7) by (auto simp: stack_sc_def split: if_splits)
    ultimately show ?thesis using assms(4,5) by auto
  next
    case False
    then show ?thesis using q(2) by (auto simp: stack_push_fields)
  qed
qed (simp_all add: stack_push_fields fun_eq_iff)

lemma reply_push_alt:
  "reply_push caller callee r canDonate s =
     (let sc = thread_sc s caller;
          s = setThreadStateBlockedOnReply caller r (set_replyTCB r caller s)
      in if sc \<noteq> 0 \<and> thread_sc s callee = 0 \<and> canDonate then schedContext_donate sc callee (stack_push sc r s) else s)"
  by (simp add: reply_push_def stack_push_def Let_def)

lemma inv_reply_push:
  assumes "ipc_inv_but (insert caller S) s" "thread_reply s caller = 0" "reply_thread s r = 0" "r \<noteq> 0" "caller \<noteq> 0" "callee \<noteq> 0"
  shows "ipc_inv_but (S - {caller}) (reply_push caller callee r canDonate s)"
proof -
  let ?s = "setThreadStateBlockedOnReply caller r (set_replyTCB r caller s)"
  note i = inv_block_reply [OF assms(1-5)]
  note st = ipc_stateD(5) [OF ipc_block_reply, of caller r "set_replyTCB r caller s"]
    ipc_state_thread(1) [OF ipc_block_reply, of caller r "set_replyTCB r caller s" caller]
  have fr: "reply_prev ?s r = 0" "callStackPtr (replyNext (replies ?s r)) = 0" "reply_thread ?s r = caller"
    using reply_free [OF inv_links [OF assms(1)] assms(4)] assms(3) by (simp_all add: st)
  moreover have "awaits_reply ?s caller" by (simp add: awaits_reply_def st setThreadState_tcb)
  ultimately have "ipc_inv_but (S - {caller}) (stack_push sc r ?s)" if "sc \<noteq> 0" for sc
    using inv_stack_push [OF i] assms(4,5) that by simp
  then have "ipc_inv_but (S - {caller}) (schedContext_donate sc callee (stack_push sc r ?s))"
    if "sc \<noteq> 0" "thread_sc ?s callee = 0" for sc
    using inv_donate [OF _ _ that(1) assms(6)] that by (simp add: stack_push_fields)
  then show ?thesis using i unfolding reply_push_alt Let_def by simp
qed

text \<open>Removing the head of a call stack.\<close>

definition stack_pop :: "word_t \<Rightarrow> kstate \<Rightarrow> kstate" where
  "stack_pop r s =
     (let next = callStackPtr (replyNext (replies s r));
          prev = callStackPtr (replyPrev (replies s r));
          s = set_scReply next prev s;
          s = (if prev \<noteq> 0 then set_replyNext prev (replyNext (replies s r)) s else s);
          s = set_replyNext r (call_stack_new 0 False) s
      in set_replyPrev r (call_stack_new 0 False) s)"

lemma stack_pop_fields:
  "tcbs (stack_pop r s) = tcbs s" "eps (stack_pop r s) = eps s" "ntfns (stack_pop r s) = ntfns s"
  "scs (stack_pop r s) c = (if c = callStackPtr (replyNext (replies s r)) then (scs s c)\<lparr>scReply := reply_prev s r\<rparr> else scs s c)"
  "replyTCB (replies (stack_pop r s) q) = replyTCB (replies s q)"
  "replyPrev (replies (stack_pop r s) q) = (if q = r then call_stack_new 0 False else replyPrev (replies s q))"
  "replyNext (replies (stack_pop r s) q) = (if q = r then call_stack_new 0 False
     else if reply_prev s r \<noteq> 0 \<and> q = reply_prev s r then replyNext (replies s r) else replyNext (replies s q))"
  by (simp_all add: stack_pop_def Let_def)

lemma inv_stack_pop:
  assumes inv: "ipc_inv_but S s" and "r \<noteq> 0" "isHead (replyNext (replies s r))" "callStackPtr (replyNext (replies s r)) \<noteq> 0"
  shows "ipc_inv_but S (stack_pop r s)"
proof (rule restack [OF _ _ _ _ _ _ _ _ _ _ inv])
  note d = links_okD [OF inv_links [OF inv]]
  let ?s = "stack_pop r s" and ?n = "callStackPtr (replyNext (replies s r))" and ?p = "reply_prev s r"
  have rn: "reply_sc s r = ?n" "reply_next s r = 0" using assms(3) by (simp_all add: stack_sc_def stack_reply_def)
  have sr: "sc_reply s ?n = r" using pairedD [OF d(6) assms(4,2)] rn by simp
  have "paired (sc_reply ?s) (reply_sc ?s) \<and> paired (reply_prev ?s) (reply_next ?s)"
  proof (cases "?p = 0")
    case True
    then have "sc_reply ?s = (sc_reply s)(?n := 0)" "reply_sc ?s = (reply_sc s)(r := 0)"
      "reply_prev ?s = reply_prev s" "reply_next ?s = reply_next s"
      using rn by (auto simp: stack_pop_fields fun_eq_iff)
    then show ?thesis using paired_disconnect [OF d(6) sr assms(4,2)] d(7) by simp
  next
    case False
    have p: "reply_next s ?p = r" using pairedD [OF d(7) assms(2) False] by simp
    then have "?p \<noteq> r" "reply_sc s ?p = 0" using rn assms(2) by (auto simp: stack_sc_def stack_reply_def split: if_splits)
    moreover from this have "sc_reply ?s = (sc_reply s)(?n := ?p)" "reply_sc ?s = (reply_sc s)(r := 0, ?p := ?n)"
      "reply_prev ?s = (reply_prev s)(r := 0)" "reply_next ?s = (reply_next s)(?p := 0)"
      using rn False assms(3) by (auto simp: stack_pop_fields fun_eq_iff stack_sc_def stack_reply_def)
    ultimately show ?thesis
      using paired_move [OF d(6) [unfolded paired_sym [of "sc_reply s"]] rn(1) _ assms(2,4) False]
        paired_disconnect [OF d(7) refl assms(2) False] paired_sym by simp
  qed
  then show "paired (sc_reply ?s) (reply_sc ?s)" "paired (reply_prev ?s) (reply_next ?s)" by blast+
  fix q assume q: "q \<noteq> 0" "reply_prev ?s q \<noteq> 0 \<or> callStackPtr (replyNext (replies ?s q)) \<noteq> 0"
  have "callStackPtr (replyNext (replies s ?p)) \<noteq> 0" if "?p \<noteq> 0"
    using pairedD [OF d(7) assms(2) that] assms(2) by (auto simp: stack_reply_def split: if_splits)
  then show "reply_prev s q \<noteq> 0 \<or> callStackPtr (replyNext (replies s q)) \<noteq> 0 \<or>
       reply_thread s q \<noteq> 0 \<and> awaits_reply s (reply_thread s q)"
    using q(2) by (auto simp: stack_pop_fields split: if_splits)
qed (simp_all add: stack_pop_fields fun_eq_iff)

text \<open>Cutting a reply object out of its call stack, which separates what is below it.\<close>

definition stack_cut :: "word_t \<Rightarrow> kstate \<Rightarrow> kstate" where
  "stack_cut r s =
     (let next = callStackPtr (replyNext (replies s r));
          prev = callStackPtr (replyPrev (replies s r));
          s = (if next \<noteq> 0 then
                 if isHead (replyNext (replies s r)) then set_scReply next 0 s
                 else set_replyPrev next (call_stack_new 0 False) s
               else s);
          s = (if prev \<noteq> 0 then set_replyNext prev (call_stack_new 0 False) s else s);
          s = set_replyPrev r (call_stack_new 0 False) s
      in set_replyNext r (call_stack_new 0 False) s)"

lemma stack_cut_fields:
  "tcbs (stack_cut r s) = tcbs s" "eps (stack_cut r s) = eps s" "ntfns (stack_cut r s) = ntfns s"
  "scs (stack_cut r s) c = (if reply_sc s r \<noteq> 0 \<and> c = reply_sc s r then (scs s c)\<lparr>scReply := 0\<rparr> else scs s c)"
  "replyTCB (replies (stack_cut r s) q) = replyTCB (replies s q)"
  "replyPrev (replies (stack_cut r s) q) = (if q = r \<or> reply_next s r \<noteq> 0 \<and> q = reply_next s r
     then call_stack_new 0 False else replyPrev (replies s q))"
  "replyNext (replies (stack_cut r s) q) = (if q = r \<or> reply_prev s r \<noteq> 0 \<and> q = reply_prev s r
     then call_stack_new 0 False else replyNext (replies s q))"
  by (simp_all add: stack_cut_def Let_def stack_sc_def stack_reply_def)

lemma inv_stack_cut:
  assumes inv: "ipc_inv_but S s" and "r \<noteq> 0"
  shows "ipc_inv_but S (stack_cut r s)"
proof (rule restack [OF _ _ _ _ _ _ _ _ _ _ inv])
  note d = links_okD [OF inv_links [OF inv]]
  let ?s = "stack_cut r s"
  have p: "reply_sc s (reply_prev s r) = 0" if "reply_prev s r \<noteq> 0"
    using pairedD [OF d(7) assms(2) that] assms(2) by (auto simp: stack_sc_def stack_reply_def split: if_splits)
  show "paired (sc_reply ?s) (reply_sc ?s)"
    using d(6) assms(2) p unfolding paired_def by (simp add: stack_cut_fields) metis
  show "paired (reply_prev ?s) (reply_next ?s)"
    using d(7) assms(2) unfolding paired_def by (simp add: stack_cut_fields) metis
qed (auto simp: stack_cut_fields fun_eq_iff split: if_splits)

section \<open>Removing replies\<close>

lemma ipc_donate_cong:
  assumes "ipc_state s' = ipc_state s"
  shows "ipc_state (schedContext_donate sc to s') = ipc_state (schedContext_donate sc to s)"
proof -
  have e: "sc_thread s' sc = sc_thread s sc" using ipc_state_thread(8) [OF assms] by simp
  have k: "ipc_state (if sc_thread s sc \<noteq> 0 then set_tcbSchedContext (sc_thread s sc) 0 s' else s') =
    ipc_state (if sc_thread s sc \<noteq> 0 then set_tcbSchedContext (sc_thread s sc) 0 s else s)"
    using assms ipc_congs(1) [OF assms] by simp
  show ?thesis unfolding ipc_donate donate0_def e by (rule ipc_congs(1) [OF ipc_congs(2) [OF k]])
qed

lemma donate_replyPrev:
  "ipc_state (set_replyPrev r c (schedContext_donate sc to s)) = ipc_state (schedContext_donate sc to (set_replyPrev r c s))"
proof -
  have "set_replyPrev r c (donate0 sc to s) = donate0 sc to (set_replyPrev r c s)"
    by (simp add: donate0_def set_tcbSchedContext_def set_scTcb_def set_replyPrev_def upd_defs)
  then show ?thesis using ipc_congs(5) [OF ipc_donate] ipc_donate by metis
qed

lemma ipc_unlink_cong: "ipc_state s' = ipc_state s \<Longrightarrow> ipc_state (reply_unlink r t s') = ipc_state (reply_unlink r t s)"
  unfolding ipc_reply_unlink by (rule ipc_congs(7) [OF ipc_congs(4)])

definition sc_to :: "word_t \<Rightarrow> word_t \<Rightarrow> kstate \<Rightarrow> kstate" where
  "sc_to sc t s = (if thread_sc s t = 0 then schedContext_donate sc t s else s)"

lemma sc_to_fields [simp]:
  "thread_reply (sc_to sc to s) t = thread_reply s t" "replies (sc_to sc to s) = replies s"
  "ts_type (tcbState (tcbs (sc_to sc to s) t)) = ts_type (tcbState (tcbs s t))"
  "replyObject (tcbState (tcbs (sc_to sc to s) t)) = replyObject (tcbState (tcbs s t))"
  "thread_ntfn (sc_to sc to s) t = thread_ntfn s t"
  by (simp_all add: sc_to_def reply_of_def ipc_state_thread [OF ipc_donate] ipc_stateD [OF ipc_donate])

lemma inv_sc_to: "ipc_inv_but S s \<Longrightarrow> sc \<noteq> 0 \<Longrightarrow> t \<noteq> 0 \<Longrightarrow> ipc_inv_but S (sc_to sc t s)"
  by (simp add: sc_to_def inv_donate)

lemma ipc_reply_pop:
  "ipc_state (reply_pop r t s) =
   ipc_state (reply_unlink r t (sc_to (callStackPtr (replyNext (replies s r))) t (stack_pop r s)))"
proof -
  let ?n = "callStackPtr (replyNext (replies s r))" and ?p = "callStackPtr (replyPrev (replies s r))"
  define a where "a = set_replyNext r (call_stack_new 0 False) (if ?p \<noteq> 0
      then set_replyNext ?p (replyNext (replies (set_scReply ?n ?p s) r)) (set_scReply ?n ?p s) else set_scReply ?n ?p s)"
  have pop: "stack_pop r s = set_replyPrev r (call_stack_new 0 False) a" by (simp add: stack_pop_def a_def Let_def)
  have "reply_pop r t s = reply_unlink r t (set_replyPrev r (call_stack_new 0 False) (sc_to ?n t a))"
    by (simp add: reply_pop_def a_def Let_def sc_to_def)
  moreover have "ipc_state (set_replyPrev r (call_stack_new 0 False) (sc_to ?n t a)) = ipc_state (sc_to ?n t (stack_pop r s))"
    by (simp add: pop sc_to_def donate_replyPrev)
  ultimately show ?thesis using ipc_unlink_cong by metis
qed

lemma reply_remove_alt:
  "reply_remove r t s = (if callStackPtr (replyNext (replies s r)) \<noteq> 0 \<and> isHead (replyNext (replies s r))
     then reply_pop r t s else reply_unlink r t (stack_cut r s))"
  by (simp add: reply_remove_def stack_cut_def Let_def)

lemma reply_remove_tcb_alt:
  "reply_remove_tcb t s = reply_unlink (replyObject (tcbState (tcbs s t))) t (stack_cut (replyObject (tcbState (tcbs s t))) s)"
  by (simp add: reply_remove_tcb_def stack_cut_def Let_def)

lemma awaits_no_wait: "awaits_reply s t \<Longrightarrow> waits_on (tcbs s t) = None"
  by (simp add: awaits_reply_def waits_on_def)

lemma inv_cut_unlink:
  assumes "ipc_inv_but S s" "awaits_reply s t" "thread_reply s t = r" "r \<noteq> 0" "t \<noteq> 0"
  shows "ipc_inv_but (S - {t}) (reply_unlink r t (stack_cut r s))"
proof (rule inv_reply_unlink [OF _ _ assms(4,5)])
  have "ipc_inv_but (insert t S) s" using assms(1) inv_but_insert [OF awaits_no_wait [OF assms(2)]] by simp
  then show "ipc_inv_but (insert t S) (stack_cut r s)" using assms(4) by (rule inv_stack_cut)
qed (simp_all add: stack_cut_fields assms(3))

lemma inv_reply_pop:
  assumes "ipc_inv_but S s" "awaits_reply s t" "thread_reply s t = r" "r \<noteq> 0" "t \<noteq> 0"
    "isHead (replyNext (replies s r))" "callStackPtr (replyNext (replies s r)) \<noteq> 0"
  shows "ipc_inv_but (S - {t}) (reply_pop r t s)"
  unfolding inv_frame [OF ipc_reply_pop]
proof (rule inv_reply_unlink [OF _ _ assms(4,5)])
  have "ipc_inv_but (insert t S) s" using assms(1) inv_but_insert [OF awaits_no_wait [OF assms(2)]] by simp
  then show "ipc_inv_but (insert t S) (sc_to (callStackPtr (replyNext (replies s r))) t (stack_pop r s))"
    by (intro inv_sc_to inv_stack_pop assms)
qed (simp_all add: stack_pop_fields assms(3))

lemma inv_reply_remove:
  assumes "ipc_inv_but S s" "awaits_reply s t" "thread_reply s t = r" "r \<noteq> 0" "t \<noteq> 0"
  shows "ipc_inv_but (S - {t}) (reply_remove r t s)"
  using inv_reply_pop [OF assms] inv_cut_unlink [OF assms] by (simp add: reply_remove_alt)

lemma awaits_object:
  assumes "ipc_inv_but S s" "awaits_reply s t"
  shows "thread_reply s t \<noteq> 0" "t \<noteq> 0" "reply_thread s (thread_reply s t) = t"
proof -
  note d = links_okD [OF inv_links [OF assms(1)]]
  show r: "thread_reply s t \<noteq> 0" and t: "t \<noteq> 0" using d(8) assms(2) unfolding stack_ok_alt by auto
  show "reply_thread s (thread_reply s t) = t" using pairedD [OF d(5) t r] by simp
qed

lemma inv_reply_remove_tcb:
  assumes "ipc_inv_but S s" "awaits_reply s t"
  shows "ipc_inv_but (S - {t}) (reply_remove_tcb t s)"
  using inv_cut_unlink [OF assms refl awaits_object(1,2) [OF assms]]
  by (simp add: reply_remove_tcb_alt awaits_reply_object [OF assms(2)])

lemma unlink_type:
  "ts_type (tcbState (tcbs (reply_unlink r t s) u)) = (if u = t then ThreadState_Inactive else ts_type (tcbState (tcbs s u)))"
  by (simp add: ipc_state_thread(1) [OF ipc_reply_unlink] setThreadState_tcb)

lemma reply_remove_type:
  "ts_type (tcbState (tcbs (reply_remove r t s) u)) = (if u = t then ThreadState_Inactive else ts_type (tcbState (tcbs s u)))"
  "ts_type (tcbState (tcbs (reply_remove_tcb t s) u)) = (if u = t then ThreadState_Inactive else ts_type (tcbState (tcbs s u)))"
  by (simp_all add: reply_remove_alt reply_remove_tcb_alt ipc_state_thread(1) [OF ipc_reply_pop] unlink_type
      stack_pop_fields stack_cut_fields)

end
