(* ===== verification/IpcQueues.thy ===== *)
theory IpcQueues
  imports IpcInv
begin

text \<open>
  Waiting and waking: taking threads off the wait queues of endpoints and notifications,
  cancelling a thread's communication, blocking a thread, and moving a thread within a
  queue when its priority changes, all keep the invariant of communication.
\<close>

section \<open>Taking threads off a queue\<close>

lemma waiters_iff: "t \<in> waiters s w \<longleftrightarrow> waits_on (tcbs s t) = Some w"
  by (simp add: waiters_def)

lemma inv_waiter_nonzero: "ipc_inv_but S s \<Longrightarrow> t \<in> waiters s w \<Longrightarrow> t \<notin> S \<Longrightarrow> t \<noteq> 0"
  using queue_of_head(1) [OF wait_ok_at(1), of "idle_set S s" w] by (auto simp: ipc_inv_but_def)

lemma inv_dequeue:
  assumes "ipc_inv s" "t \<in> waiters s w"
  shows "ipc_inv_but {t} (obj_dequeue w t s)"
proof -
  have ok: "wait_ok s" "links_ok s" using assms(1) by (simp_all add: ipc_inv_iff)
  note d = obj_dequeue_ok [OF ok(1) assms(2)]
  have "link_view (obj_dequeue w t s) = link_view s"
    by (rule link_viewI) (simp_all add: d reply_of_def awaits_reply_def)
  then show ?thesis using d(1) ok(2) links_ok_cong unfolding ipc_inv_but_def by blast
qed

lemma cancelSignal_alt:
  "cancelSignal t n s = setThreadState t ThreadState_Inactive (obj_dequeue (Ntfn n) t s)"
  by (simp add: cancelSignal_def obj_dequeue_def case_prod_beta Let_def)

text \<open>Letting go of the reply object of a thread that no longer waits for a message.\<close>

definition drop_reply :: "word_t \<Rightarrow> kstate \<Rightarrow> kstate" where
  "drop_reply t s = (if ts_type (tcbState (tcbs s t)) = ThreadState_BlockedOnReceive \<and> replyObject (tcbState (tcbs s t)) \<noteq> 0
     then reply_unlink (replyObject (tcbState (tcbs s t))) t s else s)"

lemma drop_reply_type:
  "u \<noteq> t \<Longrightarrow> ts_type (tcbState (tcbs (drop_reply t s) u)) = ts_type (tcbState (tcbs s u))"
  "ts_type (tcbState (tcbs (drop_reply t s) t)) \<in> {ThreadState_Inactive, ts_type (tcbState (tcbs s t))}"
  by (simp_all add: drop_reply_def unlink_type)

lemma inv_drop_reply:
  assumes "ipc_inv_but (insert t S) s" "\<not> awaits_reply s t" "t \<noteq> 0"
  shows "ipc_inv_but (insert t S) (drop_reply t s)" "thread_reply (drop_reply t s) t = 0"
proof -
  let ?r = "replyObject (tcbState (tcbs s t))"
  have "ipc_inv_but (insert t S) (drop_reply t s) \<and> thread_reply (drop_reply t s) t = 0"
  proof (cases "thread_reply s t = 0")
    case True
    then have "drop_reply t s = s" by (auto simp: drop_reply_def reply_of_def split: if_splits)
    then show ?thesis using assms(1) True by simp
  next
    case False
    then have r: "thread_reply s t = ?r" "?r \<noteq> 0" "ts_type (tcbState (tcbs s t)) = ThreadState_BlockedOnReceive"
      using assms(2) by (auto simp: reply_of_def awaits_reply_def split: if_splits)
    note l = inv_links [OF assms(1)]
    have "reply_thread s ?r = t" using pairedD [OF links_okD(5) [OF l] assms(3) r(2)] r(1) by simp
    then have "ipc_inv_but (S - {t}) (reply_unlink ?r t s)"
      using inv_reply_unlink [OF assms(1) r(1,2) assms(3)] reply_free [OF l r(2)] assms(2) by simp
    moreover have "plain (reply_unlink ?r t s) t" by (simp add: plain_def unlink_type plain_state_def)
    note pl = plain_waits [OF this]
    moreover have "drop_reply t s = reply_unlink ?r t s" by (simp add: drop_reply_def r)
    ultimately show ?thesis using inv_but_insert [OF pl(1), of "S - {t}"] by (simp add: plain_waits)
  qed
  then show "ipc_inv_but (insert t S) (drop_reply t s)" "thread_reply (drop_reply t s) t = 0" by blast+
qed

lemma blockedIPCCancel_alt:
  "blockedIPCCancel t s =
     setThreadState t ThreadState_Inactive (drop_reply t (obj_dequeue (Ep (blockingObject (tcbState (tcbs s t)))) t s))"
  by (simp add: blockedIPCCancel_def obj_dequeue_def drop_reply_def case_prod_beta Let_def)

lemma waiting_not_awaiting: "waits_on (tcbs s t) = Some w \<Longrightarrow> \<not> awaits_reply s t"
  by (auto simp: awaits_reply_def waits_on_def)

lemma awaits_dequeue: "wait_ok s \<Longrightarrow> t \<in> waiters s w \<Longrightarrow> awaits_reply (obj_dequeue w t s) u = awaits_reply s u"
  by (simp add: awaits_reply_def obj_dequeue_ok(2))

lemma thread_reply_dequeue: "ipc_inv s \<Longrightarrow> t \<in> waiters s w \<Longrightarrow> thread_reply (obj_dequeue w t s) u = thread_reply s u"
  by (simp add: reply_of_def obj_dequeue_ok(2) ipc_inv_iff)

lemma inv_blockedIPCCancel:
  assumes "ipc_inv s" "waits_on (tcbs s t) = Some (Ep p)"
  shows "ipc_inv (blockedIPCCancel t s)"
proof -
  have p: "blockingObject (tcbState (tcbs s t)) = p"
    using assms(2) by (cases "ts_type (tcbState (tcbs s t))") (simp_all add: waits_on_def)
  have t: "t \<in> waiters s (Ep p)" using assms(2) by (simp add: waiters_iff)
  let ?s = "obj_dequeue (Ep p) t s"
  have "wait_ok s" using assms(1) by (simp add: ipc_inv_iff)
  note d = inv_drop_reply [OF inv_dequeue [OF assms(1) t], unfolded awaits_dequeue [OF this t],
      OF waiting_not_awaiting [OF assms(2)] inv_waiter_nonzero [OF assms(1) t]]
  show ?thesis unfolding blockedIPCCancel_alt p
    using inv_setThreadState [of t "{}", OF d(1) d(2), of ThreadState_Inactive] by (simp add: plain_state_def)
qed

lemma inv_cancelSignal:
  assumes "ipc_inv s" "waits_on (tcbs s t) = Some (Ntfn n)"
  shows "ipc_inv (cancelSignal t n s)"
proof -
  have t: "t \<in> waiters s (Ntfn n)" using assms(2) by (simp add: waiters_iff)
  have "wait_ok s" using assms(1) by (simp add: ipc_inv_iff)
  then have "thread_reply (obj_dequeue (Ntfn n) t s) t = 0"
    using assms(2) by (auto simp: obj_dequeue_ok(2) [OF _ t] reply_of_def waits_on_def)
  then show ?thesis
    using inv_setThreadState [OF inv_dequeue [OF assms(1) t]] by (simp add: cancelSignal_alt plain_state_def)
qed

section \<open>Cancelling communication\<close>

definition cancel_state :: "word_t \<Rightarrow> kstate \<Rightarrow> kstate" where
  "cancel_state t s = (case ts_type (tcbState (tcbs s t)) of
       ThreadState_BlockedOnSend \<Rightarrow> blockedIPCCancel t s
     | ThreadState_BlockedOnReceive \<Rightarrow> blockedIPCCancel t s
     | ThreadState_BlockedOnNotification \<Rightarrow> cancelSignal t (blockingObject (tcbState (tcbs s t))) s
     | ThreadState_BlockedOnReply \<Rightarrow> reply_remove_tcb t s
     | _ \<Rightarrow> s)"

lemma cancelIPC_alt: "cancelIPC t s = cancel_state t (upd_tcb t (\<lambda>t. t\<lparr>tcbFault := NullFault\<rparr>) s)"
  by (simp add: cancelIPC_def cancel_state_def Let_def)

lemma ipc_clear_fault: "ipc_state (upd_tcb t (\<lambda>t. t\<lparr>tcbFault := f\<rparr>) s) = ipc_state s"
  by (rule ipc_upd_tcb) (simp add: ipc_tcb_def)

lemma inv_cancel_state:
  assumes "ipc_inv s"
  shows "ipc_inv (cancel_state t s)"
proof (cases "ts_type (tcbState (tcbs s t))")
  case ThreadState_BlockedOnReply
  then show ?thesis using inv_reply_remove_tcb [OF assms, of t] by (simp add: cancel_state_def awaits_reply_def)
qed (use assms inv_blockedIPCCancel inv_cancelSignal in \<open>simp_all add: cancel_state_def waits_on_def\<close>)

lemma cancel_state_type:
  assumes "ipc_inv s"
  shows "plain (cancel_state t s) t"
    "u \<noteq> t \<Longrightarrow> ts_type (tcbState (tcbs (cancel_state t s) u)) = ts_type (tcbState (tcbs s u))"
proof -
  have ok: "wait_ok s" using assms by (simp add: ipc_inv_iff)
  have "plain (cancel_state t s) t \<and>
    (u \<noteq> t \<longrightarrow> ts_type (tcbState (tcbs (cancel_state t s) u)) = ts_type (tcbState (tcbs s u)))"
  proof (cases "waits_on (tcbs s t)")
    case None
    then show ?thesis
      by (cases "ts_type (tcbState (tcbs s t))")
        (simp_all add: waits_on_def cancel_state_def plain_def plain_state_def reply_remove_type)
  next
    case (Some w)
    note d = obj_dequeue_ok(2) [OF ok Some [folded waiters_iff]]
    obtain s' where f: "cancel_state t s = setThreadState t ThreadState_Inactive s'"
      "s' = obj_dequeue w t s \<or> s' = drop_reply t (obj_dequeue w t s)"
      using Some by (cases "ts_type (tcbState (tcbs s t))")
        (auto simp: waits_on_def cancel_state_def blockedIPCCancel_alt cancelSignal_alt)
    have "ts_type (tcbState (tcbs s' u)) = ts_type (tcbState (tcbs s u))" if "u \<noteq> t"
      using f(2) that by (auto simp: drop_reply_type d)
    then show ?thesis unfolding f(1)
      by (simp add: plain_set plain_state_def ipc_state_thread(1) [OF ipc_setThreadState] setThreadState_tcb)
  qed
  then show "plain (cancel_state t s) t"
    "u \<noteq> t \<Longrightarrow> ts_type (tcbState (tcbs (cancel_state t s) u)) = ts_type (tcbState (tcbs s u))" by blast+
qed

lemma inv_cancelIPC: "ipc_inv s \<Longrightarrow> ipc_inv (cancelIPC t s)"
  unfolding cancelIPC_alt by (rule inv_cancel_state) (simp add: inv_frame [OF ipc_clear_fault])

lemma cancelIPC_type:
  assumes "ipc_inv s"
  shows "plain (cancelIPC t s) t"
    "u \<noteq> t \<Longrightarrow> ts_type (tcbState (tcbs (cancelIPC t s) u)) = ts_type (tcbState (tcbs s u))"
proof -
  let ?s = "upd_tcb t (\<lambda>t. t\<lparr>tcbFault := NullFault\<rparr>) s"
  have i: "ipc_inv ?s" using assms by (simp add: inv_frame [OF ipc_clear_fault])
  show "plain (cancelIPC t s) t" using cancel_state_type(1) [OF i] by (simp add: cancelIPC_alt)
  show "ts_type (tcbState (tcbs (cancelIPC t s) u)) = ts_type (tcbState (tcbs s u))" if "u \<noteq> t"
    using cancel_state_type(2) [OF i that] by (simp add: cancelIPC_alt ipc_state_thread(1) [OF ipc_clear_fault])
qed

section \<open>Blocking\<close>

text \<open>First the thread's state says what it waits for.\<close>

definition block_state :: "word_t \<Rightarrow> tsType \<Rightarrow> word_t \<Rightarrow> kstate \<Rightarrow> kstate" where
  "block_state t ts obj s = set_tcbState t (\<lambda>st. st\<lparr>blockingObject := obj\<rparr>) (set_tcbState t (\<lambda>st. st\<lparr>ts_type := ts\<rparr>) s)"

definition block_receive :: "word_t \<Rightarrow> word_t \<Rightarrow> word_t \<Rightarrow> kstate \<Rightarrow> kstate" where
  "block_receive t obj r s =
     (let s = set_tcbState t (\<lambda>st. st\<lparr>replyObject := r\<rparr>) (block_state t ThreadState_BlockedOnReceive obj s)
      in if r \<noteq> 0 then set_replyTCB r t s else s)"

lemma block_state_tcb:
  "tcbs (block_state t ts obj s) u = (if u = t then (tcbs s t)\<lparr>tcbState := (tcbState (tcbs s t))\<lparr>ts_type := ts, blockingObject := obj\<rparr>\<rparr> else tcbs s u)"
  "eps (block_state t ts obj s) = eps s" "ntfns (block_state t ts obj s) = ntfns s" "scs (block_state t ts obj s) = scs s"
  "replies (block_state t ts obj s) = replies s"
  by (simp_all add: block_state_def setThreadState_tcb)

lemma block_receive_tcb:
  "tcbs (block_receive t obj r s) u = (if u = t then (tcbs s t)\<lparr>tcbState := (tcbState (tcbs s t))
     \<lparr>ts_type := ThreadState_BlockedOnReceive, blockingObject := obj, replyObject := r\<rparr>\<rparr> else tcbs s u)"
  "eps (block_receive t obj r s) = eps s" "ntfns (block_receive t obj r s) = ntfns s"
  "scs (block_receive t obj r s) = scs s"
  "replies (block_receive t obj r s) q = (if r \<noteq> 0 \<and> q = r then (replies s r)\<lparr>replyTCB := t\<rparr> else replies s q)"
  by (simp_all add: block_receive_def Let_def setThreadState_tcb block_state_tcb)

lemma inv_block_state:
  assumes "ipc_inv_but S s" "plain s t" "ts \<in> {ThreadState_BlockedOnSend, ThreadState_BlockedOnNotification}"
  shows "ipc_inv_but (insert t S) (block_state t ts obj s)"
proof -
  have "link_view (block_state t ts obj s) = link_view s"
    using plain_waits [OF assms(2)] assms(3)
    by (intro link_viewI) (auto simp: block_state_tcb reply_of_def awaits_reply_def)
  then have l: "links_ok (block_state t ts obj s) = links_ok s" by (rule links_ok_cong)
  have "wait_view (idle_set (insert t S) (block_state t ts obj s)) = wait_view (idle_set S s)"
    by (rule wait_viewI) (simp_all add: wait_kind_idle block_state_tcb wait_kind_None [OF plain_waits(1) [OF assms(2)]])
  from wait_ok_cong [OF this] show ?thesis using assms(1) l unfolding ipc_inv_but_def by simp
qed

lemma inv_block_receive:
  assumes "ipc_inv_but S s" "plain s t" "t \<noteq> 0" "r \<noteq> 0 \<Longrightarrow> reply_thread s r = 0"
  shows "ipc_inv_but (insert t S) (block_receive t obj r s)"
proof -
  let ?s = "block_receive t obj r s"
  have l: "links_ok s" using assms(1) by (rule inv_links)
  note d = links_okD [OF l] and pl = plain_waits [OF assms(2)]
  have a: "awaits_reply ?s u \<longleftrightarrow> awaits_reply s u" for u using pl(3) by (auto simp: awaits_reply_def block_receive_tcb)
  have f: "thread_reply ?s = (thread_reply s)(t := r)" "reply_thread ?s = (if r \<noteq> 0 then (reply_thread s)(r := t) else reply_thread s)"
    by (auto simp: block_receive_tcb reply_of_def fun_eq_iff)
  have p: "paired (thread_reply ?s) (reply_thread ?s)"
    using paired_connect [OF d(5) pl(2) assms(4) assms(3)] d(5) pl(2) f by (cases "r = 0") (simp_all add: fun_upd_idem)
  have "reply_thread ?s q \<noteq> 0 \<and> awaits_reply ?s (reply_thread ?s q)"
    if q: "q \<noteq> 0" "reply_prev ?s q \<noteq> 0 \<or> callStackPtr (replyNext (replies ?s q)) \<noteq> 0" for q
  proof -
    have "q \<noteq> r" using q reply_free [OF l q(1)] assms(4) by (auto simp: block_receive_tcb split: if_splits)
    then show ?thesis using d(8) [unfolded stack_ok_alt] q by (simp add: a block_receive_tcb)
  qed
  moreover have "thread_reply ?s u \<noteq> 0" if "awaits_reply ?s u" for u
    using d(8) [unfolded stack_ok_alt] that a pl(3) f(1) by (cases "u = t") (simp_all add: fun_eq_iff)
  ultimately have "stack_ok ?s" using d(8) a unfolding stack_ok_alt by blast
  then have "links_ok ?s" using p by (intro relink [OF l]) (simp_all add: block_receive_tcb)
  moreover have "wait_view (idle_set (insert t S) ?s) = wait_view (idle_set S s)"
    by (rule wait_viewI) (simp_all add: wait_kind_idle block_receive_tcb wait_kind_None [OF pl(1)])
  ultimately show ?thesis using assms(1) wait_ok_cong unfolding ipc_inv_but_def by blast
qed

text \<open>Then it is put into the queue of the object, by priority.\<close>

fun obj_mark :: "wait_obj \<Rightarrow> tsType \<Rightarrow> kstate \<Rightarrow> kstate" where
  "obj_mark (Ep p) ts s = endpoint_ptr_set_state p (if ts = ThreadState_BlockedOnSend then EPState_Send else EPState_Recv) s"
| "obj_mark (Ntfn p) ts s = notification_ptr_set_state p NtfnState_Waiting s"

definition obj_enqueue :: "wait_obj \<Rightarrow> tsType \<Rightarrow> word_t \<Rightarrow> kstate \<Rightarrow> kstate option" where
  "obj_enqueue w ts t s = do {
     (q, s) \<leftarrow> tcbEPAppend t (obj_queue s w) s;
     Some (obj_set_queue w q (obj_mark w ts s))
   }"

lemma obj_mark_fields [simp]:
  "tcbs (obj_mark w ts s) = tcbs s" "scs (obj_mark w ts s) = scs s" "replies (obj_mark w ts s) = replies s"
  "waiters (obj_mark w ts s) = waiters s" "obj_queue (obj_mark w ts s) v = obj_queue s v"
  "v \<noteq> w \<Longrightarrow> obj_ok (obj_mark w ts s) v = obj_ok s v"
  by (cases w; cases v; simp add: obj_set_defs upd_defs waiters_def fun_eq_iff)+

lemma obj_ntfn_links [simp]:
  "ntfnBoundTCB (ntfns (obj_mark w ts s) n) = ntfnBoundTCB (ntfns s n)"
  "ntfnSchedContext (ntfns (obj_mark w ts s) n) = ntfnSchedContext (ntfns s n)"
  "ntfnBoundTCB (ntfns (obj_set_queue w q s) n) = ntfnBoundTCB (ntfns s n)"
  "ntfnSchedContext (ntfns (obj_set_queue w q s) n) = ntfnSchedContext (ntfns s n)"
  "ntfnBoundTCB (ntfns (obj_idle w s) n) = ntfnBoundTCB (ntfns s n)"
  "ntfnSchedContext (ntfns (obj_idle w s) n) = ntfnSchedContext (ntfns s n)"
  by (cases w; simp add: obj_set_defs upd_defs)+

lemma wait_of_type: "wait_of ts p = Some (Ep q) \<Longrightarrow> ts = ThreadState_BlockedOnSend \<or> ts = ThreadState_BlockedOnReceive"
  "wait_of ts p = Some (Ntfn q) \<Longrightarrow> ts = ThreadState_BlockedOnNotification"
  by (cases ts; simp)+

text \<open>Endpoints queue either senders or receivers.\<close>

definition same_kind :: "kstate \<Rightarrow> wait_obj \<Rightarrow> word_t \<Rightarrow> bool" where
  "same_kind s w t \<longleftrightarrow> (\<forall>u\<in>waiters s w. ts_type (tcbState (tcbs s u)) = ts_type (tcbState (tcbs s t)))"

lemma obj_ok_mark:
  assumes "t \<in> waiters s w" "same_kind s w t"
  shows "obj_ok (obj_mark w (ts_type (tcbState (tcbs s t))) s) w"
proof (cases w)
  case (Ep p)
  have "(\<lambda>u. ts_type (tcbState (tcbs s u))) ` waiters s (Ep p) = {ts_type (tcbState (tcbs s t))}"
    using assms unfolding Ep same_kind_def by blast
  moreover have "ts_type (tcbState (tcbs s t)) = ThreadState_BlockedOnSend \<or> ts_type (tcbState (tcbs s t)) = ThreadState_BlockedOnReceive"
    using assms(1) wait_of_type(1) by (simp add: Ep waiters_def waits_on_def)
  ultimately show ?thesis unfolding Ep by (auto simp: obj_set_defs upd_defs)
qed (use assms(1) in \<open>auto simp: obj_set_defs upd_defs\<close>)

lemma enqueue_wait:
  assumes ok: "wait_ok (idle_set {t} s)" and w: "waits_on (tcbs s t) = Some w" and "t \<noteq> 0" "same_kind s w t"
  obtains q s1 where "tcbEPAppend t (obj_queue s w) s = Some (q, s1)" "ep_links_only (waiters s w) s s1"
    "wait_ok (obj_set_queue w q (obj_mark w (ts_type (tcbState (tcbs s t))) s1))"
proof -
  have W: "insert t (waiters s w - {t}) = waiters s w" using w by (auto simp: waiters_def)
  have "queue_of s (obj_queue s w) (waiters s w - {t})" using wait_ok_at(1) [OF ok, of w] by simp
  then obtain q s1 where a: "tcbEPAppend t (obj_queue s w) s = Some (q, s1)" "queue_of s1 q (waiters s w)"
    "ep_links_only (waiters s w) s s1" using ep_append [of s "obj_queue s w" "waiters s w - {t}" t] assms(3) W by (metis Diff_iff singletonI)
  note l = ep_links_only_thread [OF a(3)] ep_links_only_state [OF a(3)] ep_links_only_waiters [OF a(3)]
  let ?ts = "ts_type (tcbState (tcbs s t))"
  let ?s = "obj_set_queue w q (obj_mark w ?ts s1)"
  have "wait_ok ?s"
  proof (rule wait_change [where w = w, OF ok])
    show "queue_of ?s (obj_queue ?s w) (waiters ?s w)" using a(2) queue_of_tcbs [of ?s s1] by (simp add: l(12))
    have "obj_ok (obj_mark w (ts_type (tcbState (tcbs s1 t))) s1) w"
    proof (rule obj_ok_mark)
      show "t \<in> waiters s1 w" using w by (simp add: waiters_iff l(3))
      show "same_kind s1 w t" using assms(4) by (simp add: same_kind_def l(1,12))
    qed
    then show "obj_ok ?s w" by (simp add: l(1))
  next
    fix v assume v: "v \<noteq> w"
    have t: "t \<notin> waiters s v" using w v by (auto simp: waiters_def)
    have "obj_ok s1 v = obj_ok (idle_set {t} s) v"
    proof (rule obj_ok_same)
      fix u assume "u \<in> waiters (idle_set {t} s) v"
      then show "ts_type (tcbState (tcbs s1 u)) = ts_type (tcbState (tcbs (idle_set {t} s) u))"
        by (simp add: l type_idle_set)
    qed (use t in \<open>simp_all add: l\<close>)
    moreover have "obj_queue s1 v = obj_queue s v" by (cases v) (simp_all add: obj_set_defs l)
    ultimately show "obj_queue ?s v = obj_queue (idle_set {t} s) v \<and> waiters ?s v = waiters (idle_set {t} s) v \<and>
        obj_ok ?s v = obj_ok (idle_set {t} s) v" using v t by (simp add: l(12))
    fix u assume "u \<in> waiters (idle_set {t} s) v"
    then have "u \<in> waiters s v" by simp
    then have "u \<notin> waiters s w" using v by (auto simp: waiters_def)
    then have "tcbs s1 u = tcbs s u" using a(3) by (simp add: ep_links_only_def)
    then show "tcbEPNext (tcbs ?s u) = tcbEPNext (tcbs (idle_set {t} s) u) \<and>
        tcbEPPrev (tcbs ?s u) = tcbEPPrev (tcbs (idle_set {t} s) u) \<and>
        tcbPriority (tcbs ?s u) = tcbPriority (tcbs (idle_set {t} s) u)" by simp
  qed
  then show thesis using that a(1,3) by blast
qed

lemma inv_enqueue:
  assumes "ipc_inv_but {t} s" "waits_on (tcbs s t) = Some w" "t \<noteq> 0" "same_kind s w t"
  obtains s' where "obj_enqueue w (ts_type (tcbState (tcbs s t))) t s = Some s'" "ipc_inv s'" "link_view s' = link_view s"
    "\<And>u. tcbState (tcbs s' u) = tcbState (tcbs s u)"
proof -
  obtain q s1 where a: "tcbEPAppend t (obj_queue s w) s = Some (q, s1)" "ep_links_only (waiters s w) s s1"
    "wait_ok (obj_set_queue w q (obj_mark w (ts_type (tcbState (tcbs s t))) s1))"
    by (rule enqueue_wait [OF _ assms(2-4)]) (use assms(1) in \<open>auto simp: ipc_inv_but_def\<close>)
  note l = ep_links_only_thread [OF a(2)] ep_links_only_state [OF a(2)]
  let ?s = "obj_set_queue w q (obj_mark w (ts_type (tcbState (tcbs s t))) s1)"
  have v: "link_view ?s = link_view s"
    by (rule link_viewI) (simp_all add: l reply_of_def awaits_reply_def)
  then have "ipc_inv ?s" using links_ok_cong [OF v] inv_links [OF assms(1)] a(3) by (simp add: ipc_inv_iff)
  moreover have "obj_enqueue w (ts_type (tcbState (tcbs s t))) t s = Some ?s" by (simp add: obj_enqueue_def a(1))
  ultimately show thesis using that v by (simp add: l)
qed

text \<open>The three operations that block the current thread.\<close>

lemma obj_enqueue_Ep:
  "obj_enqueue (Ep p) ts t s = do {
     (q, s) \<leftarrow> tcbEPAppend t (ep_ptr_get_queue p s) s;
     Some (ep_ptr_set_queue p q (endpoint_ptr_set_state p (if ts = ThreadState_BlockedOnSend then EPState_Send else EPState_Recv) s))
   }"
  by (simp add: obj_enqueue_def)

lemma obj_enqueue_Ntfn:
  "obj_enqueue (Ntfn p) ts t s = do {
     (q, s) \<leftarrow> tcbEPAppend t (ntfn_ptr_get_queue p s) s;
     Some (ntfn_ptr_set_queue p q (notification_ptr_set_state p NtfnState_Waiting s))
   }"
  by (simp add: obj_enqueue_def)

lemma same_kind_ep:
  assumes "wait_ok (idle_set {t} s)"
    "ts_type (tcbState (tcbs s t)) = ThreadState_BlockedOnSend \<and> ep_state (eps s p) \<noteq> EPState_Recv \<or>
     ts_type (tcbState (tcbs s t)) = ThreadState_BlockedOnReceive \<and> ep_state (eps s p) \<noteq> EPState_Send"
  shows "same_kind s (Ep p) t"
  unfolding same_kind_def
proof
  fix u assume u: "u \<in> waiters s (Ep p)"
  let ?T = "(\<lambda>t'. ts_type (tcbState (tcbs (idle_set {t} s) t'))) ` waiters (idle_set {t} s) (Ep p)"
  have f: "ep_fits (ep_state (eps s p)) ?T" using wait_ok_at(2) [OF assms(1), of "Ep p"] by simp
  show "ts_type (tcbState (tcbs s u)) = ts_type (tcbState (tcbs s t))"
  proof (cases "u = t")
    case False
    then have "ts_type (tcbState (tcbs s u)) \<in> ?T" using u by (force simp: type_idle_set)
    then show ?thesis using f assms(2) by (cases "ep_state (eps s p)") auto
  qed simp
qed

lemma same_kind_ntfn:
  assumes "waits_on (tcbs s t) = Some (Ntfn p)"
  shows "same_kind s (Ntfn p) t"
proof -
  have "ts_type (tcbState (tcbs s u)) = ThreadState_BlockedOnNotification" if "waits_on (tcbs s u) = Some (Ntfn p)" for u
    using that wait_of_type(2) by (simp add: waits_on_def)
  then show ?thesis using assms by (simp add: same_kind_def waiters_iff)
qed

lemma inv_block_enqueue:
  assumes i: "ipc_inv_but {t} s'" and f: "ipc_state s = ipc_state s'" and "t \<noteq> 0"
    and "ts_type (tcbState (tcbs s' t)) = ts" "blockingObject (tcbState (tcbs s' t)) = p"
    and "ts = ThreadState_BlockedOnSend \<and> ep_state (eps s' p) \<noteq> EPState_Recv \<or>
      ts = ThreadState_BlockedOnReceive \<and> ep_state (eps s' p) \<noteq> EPState_Send"
    and "w = Ep p"
  obtains s2 where "obj_enqueue w ts t s = Some s2" "ipc_inv s2" "link_view s2 = link_view s'"
proof -
  note f1 = ipc_state_thread [OF f] ipc_stateD [OF f]
  have w: "waits_on (tcbs s t) = Some w" using assms(4,5,6,7) by (auto simp: waits_on_def f1)
  have i': "ipc_inv_but {t} s" using i inv_frame [OF f] by simp
  have "same_kind s w t" unfolding assms(7)
    by (rule same_kind_ep) (use i' assms(4,6) in \<open>auto simp: ipc_inv_but_def f1\<close>)
  from inv_enqueue [OF i' w assms(3) this] obtain s2 where "obj_enqueue w (ts_type (tcbState (tcbs s t))) t s = Some s2"
    "ipc_inv s2" "link_view s2 = link_view s" by blast
  then show thesis using that assms(4) link_view_ipc [OF f] by (simp add: f1)
qed

lemma sendIPC_block_alt:
  "\<exists>s1. ipc_state s1 = ipc_state (block_state t ThreadState_BlockedOnSend p s) \<and>
     sendIPC_block call badge g gr t p s = obj_enqueue (Ep p) ThreadState_BlockedOnSend t s1"
proof -
  have n: "ipc_state (set_tcbState t (\<lambda>st. st\<lparr>blockingIPCBadge := badge\<rparr>) s) = ipc_state s"
    "ipc_state (set_tcbState t (\<lambda>st. st\<lparr>blockingIPCCanGrant := g\<rparr>) s) = ipc_state s"
    "ipc_state (set_tcbState t (\<lambda>st. st\<lparr>blockingIPCCanGrantReply := gr\<rparr>) s) = ipc_state s"
    "ipc_state (set_tcbState t (\<lambda>st. st\<lparr>blockingIPCIsCall := call\<rparr>) s) = ipc_state s" for s
    unfolding set_tcbState_def by (rule ipc_upd_tcb; simp add: ipc_tcb_def)+
  show ?thesis unfolding sendIPC_block_def obj_enqueue_Ep Let_def block_state_def
    by (rule exI [where x = "scheduleTCB t _"], rule conjI [rotated], simp, simp add: n)
qed

lemma inv_sendIPC_block:
  assumes "ipc_inv s" "plain s t" "t \<noteq> 0" "ep_state (eps s p) \<noteq> EPState_Recv"
  obtains s' where "sendIPC_block call badge g gr t p s = Some s'" "ipc_inv s'"
proof -
  let ?s = "block_state t ThreadState_BlockedOnSend p s"
  obtain s1 where s1: "ipc_state s1 = ipc_state ?s" "sendIPC_block call badge g gr t p s = obj_enqueue (Ep p) ThreadState_BlockedOnSend t s1"
    using sendIPC_block_alt by blast
  have "ipc_inv_but {t} ?s" using inv_block_state [OF assms(1,2)] by simp
  from inv_block_enqueue [OF this s1(1) assms(3), of ThreadState_BlockedOnSend p "Ep p"]
  show thesis using that s1(2) assms(4) by (auto simp: block_state_tcb)
qed

lemma receiveIPC_block_alt:
  "receiveIPC_block t p r s = obj_enqueue (Ep p) ThreadState_BlockedOnReceive t (scheduleTCB t (block_receive t p r s))"
  by (simp add: receiveIPC_block_def obj_enqueue_Ep block_receive_def block_state_def Let_def)

lemma inv_receiveIPC_block:
  assumes "ipc_inv s" "plain s t" "t \<noteq> 0" "ep_state (eps s p) \<noteq> EPState_Send" "r \<noteq> 0 \<Longrightarrow> reply_thread s r = 0"
  obtains s' where "receiveIPC_block t p r s = Some s'" "ipc_inv s'"
proof -
  have "ipc_inv_but {t} (block_receive t p r s)" using inv_block_receive [OF assms(1-3,5)] by simp
  from inv_block_enqueue [OF this ipc_queue_ops(7) assms(3), of ThreadState_BlockedOnReceive p "Ep p" t]
  show thesis using that assms(4) by (auto simp: block_receive_tcb receiveIPC_block_alt)
qed

section \<open>Scheduling contexts of notifications\<close>

lemma inv_unbind_sc:
  assumes inv: "ipc_inv_but S s" and "thread_sc s t = sc" "t \<noteq> 0" "sc \<noteq> 0"
  shows "ipc_inv_but S (set_scTcb sc 0 (set_tcbSchedContext t 0 s))"
proof (rule rebind_sc [OF _ _ _ _ _ _ _ _ _ _ inv])
  let ?s = "set_scTcb sc 0 (set_tcbSchedContext t 0 s)"
  show "paired (thread_sc ?s) (sc_thread ?s)"
    using thread_sc.unbind_paired(2) [OF links_okD(1) [OF inv_links [OF inv]] assms(2-4)] .
  show "wait_view ?s = wait_view s" by (rule wait_viewI) (simp_all add: wait_kind_def waits_on_def)
qed (simp_all add: fun_eq_iff)

lemma inv_bind_sc:
  assumes inv: "ipc_inv_but S s" and "thread_sc s t = 0" "sc_thread s sc = 0" "t \<noteq> 0" "sc \<noteq> 0"
  shows "ipc_inv_but S (set_scTcb sc t (set_tcbSchedContext t sc s))"
proof (rule rebind_sc [OF _ _ _ _ _ _ _ _ _ _ inv])
  let ?s = "set_scTcb sc t (set_tcbSchedContext t sc s)"
  show "paired (thread_sc ?s) (sc_thread ?s)"
    using thread_sc.bind_paired(2) [OF links_okD(1) [OF inv_links [OF inv]] assms(2-5)] .
  show "wait_view ?s = wait_view s" by (rule wait_viewI) (simp_all add: wait_kind_def waits_on_def)
qed (simp_all add: fun_eq_iff)

lemma inv_maybeReturnSchedContext:
  assumes "ipc_inv_but S s" "t \<noteq> 0"
  shows "ipc_inv_but S (maybeReturnSchedContext n t s)"
  using inv_unbind_sc [OF assms(1) _ assms(2)] assms(1)
  by (auto simp: maybeReturnSchedContext_def Let_def inv_frame [OF ipc_queue_ops(5)])

lemma inv_resume: "schedContext_resume sc s = Some s' \<Longrightarrow> ipc_inv_but S s' = ipc_inv_but S s"
  by (rule inv_frame) (rule ipc_resume(2))

lemma inv_maybeDonateSchedContext:
  assumes "ipc_inv_but S s" "t \<noteq> 0" "maybeDonateSchedContext t n s = Some s'"
  shows "ipc_inv_but S s'"
  using assms(3) inv_donate [OF assms(1) _ _ assms(2)] inv_resume assms(1)
  by (auto simp: maybeDonateSchedContext_def Let_def split: if_splits)

lemma inv_unblock_sporadic: "unblock_sporadic t s = Some s' \<Longrightarrow> ipc_inv_but S s' = ipc_inv_but S s"
  by (rule inv_frame) (rule ipc_sc_checks(3))

lemma inv_neutral [simp]:
  "ipc_inv_but S (possibleSwitchTo t s) = ipc_inv_but S s" "ipc_inv_but S (rescheduleRequired s) = ipc_inv_but S s"
  "ipc_inv_but S (tcbSchedEnqueue t s) = ipc_inv_but S s" "ipc_inv_but S (tcbSchedAppend t s) = ipc_inv_but S s"
  "ipc_inv_but S (tcbSchedDequeue t s) = ipc_inv_but S s" "ipc_inv_but S (tcbReleaseRemove t s) = ipc_inv_but S s"
  "ipc_inv_but S (scheduleTCB t s) = ipc_inv_but S s" "ipc_inv_but S (setRegister t r w s) = ipc_inv_but S s"
  "ipc_inv_but S (doNBRecvFailedTransfer t s) = ipc_inv_but S s" "ipc_inv_but S (updateRestartPC t s) = ipc_inv_but S s"
  by (rule inv_frame; simp)+

lemma inv_receiveSignal_block:
  assumes "ipc_inv s" "plain s t" "t \<noteq> 0"
  obtains s' where "receiveSignal_block t n s = Some s'" "ipc_inv s'"
proof -
  let ?b = "block_state t ThreadState_BlockedOnNotification n s"
  have i: "ipc_inv_but {t} (scheduleTCB t ?b)" using inv_block_state [OF assms(1,2)] by simp
  have ty: "ts_type (tcbState (tcbs (scheduleTCB t ?b) t)) = ThreadState_BlockedOnNotification"
    "blockingObject (tcbState (tcbs (scheduleTCB t ?b) t)) = n"
    by (simp_all add: ipc_state_thread [OF ipc_queue_ops(7)] block_state_tcb)
  then have w: "waits_on (tcbs (scheduleTCB t ?b) t) = Some (Ntfn n)" by (simp add: waits_on_def)
  from inv_enqueue [OF i w assms(3) same_kind_ntfn [OF w]] obtain s' where
    s': "obj_enqueue (Ntfn n) (ts_type (tcbState (tcbs (scheduleTCB t ?b) t))) t (scheduleTCB t ?b) = Some s'" "ipc_inv s'" by blast
  have "receiveSignal_block t n s = map_option (maybeReturnSchedContext n t)
      (obj_enqueue (Ntfn n) ThreadState_BlockedOnNotification t (scheduleTCB t ?b))"
    by (auto simp: receiveSignal_block_def obj_enqueue_Ntfn block_state_def Let_def split: Option.bind_split)
  then show thesis using that s' inv_maybeReturnSchedContext [OF s'(2) assms(3)] ty(1) by simp
qed

section \<open>Moving a thread within its queue\<close>

lemma prio_sorted_cong:
  assumes "\<And>x. x \<in> set xs \<Longrightarrow> tcbPriority (tcbs s' x) = tcbPriority (tcbs s x)"
  shows "prio_sorted s' xs = prio_sorted s xs"
  unfolding prio_sorted_def using assms by (auto intro: sorted_wrt_mono_rel [rotated])

lemma reorder_wait:
  assumes ok: "wait_ok s" and t: "t \<in> waiters s w"
    and s0: "s0 = upd_tcb t (\<lambda>x. x\<lparr>tcbPriority := prio\<rparr>) s"
  obtains q1 s1 q2 s2 where "tcbEPDequeue t (obj_queue s0 w) s0 = (q1, s1)" "tcbEPAppend t q1 s1 = Some (q2, s2)"
    "ep_links_only (waiters s w) s0 s1" "ep_links_only (waiters s w) s1 s2" "wait_ok (obj_set_queue w q2 s2)"
proof -
  obtain xs where xs: "ep_queue s (obj_queue s w) xs" "set xs = waiters s w" "prio_sorted s xs"
    using wait_ok_at(1) [OF ok, of w] by (auto simp: queue_of_def)
  have f: "tcbEPNext (tcbs s0 u) = tcbEPNext (tcbs s u)" "tcbEPPrev (tcbs s0 u) = tcbEPPrev (tcbs s u)"
    "tcbState (tcbs s0 u) = tcbState (tcbs s u)" "obj_queue s0 v = obj_queue s v"
    "waits_on (tcbs s0 u) = waits_on (tcbs s u)" "u \<noteq> t \<Longrightarrow> tcbs s0 u = tcbs s u" for u v
    by (cases v; simp add: s0 upd_defs obj_set_defs waits_on_def)+
  have "ep_queue s0 (obj_queue s0 w) xs" using xs(1) by (simp add: ep_queue_def f)
  moreover have "prio_sorted s0 (remove1 t xs)"
  proof -
    obtain us vs where uv: "xs = us @ t # vs" using t xs(2) split_list by metis
    then have "t \<notin> set us" "t \<notin> set vs" using xs(1) by (auto simp: ep_queue_def dlist_def)
    moreover have "prio_sorted s (us @ vs)" using xs(3) unfolding uv prio_sorted_def by (simp add: sorted_wrt_append)
    moreover from calculation have "prio_sorted s0 (us @ vs) = prio_sorted s (us @ vs)"
      by (intro prio_sorted_cong) (metis f(6) UnE set_append)
    ultimately show ?thesis unfolding uv by (simp add: remove1_append)
  qed
  ultimately obtain q1 s1 where d: "tcbEPDequeue t (obj_queue s0 w) s0 = (q1, s1)" "queue_of s1 q1 (waiters s w - {t})"
    "ep_links_only (waiters s w) s0 s1" by (rule ep_dequeue [OF _ xs(2) _ t])
  have "t \<noteq> 0" using t queue_of_head(1) [OF wait_ok_at(1) [OF ok]] by metis
  then obtain q2 s2 where a: "tcbEPAppend t q1 s1 = Some (q2, s2)" "queue_of s2 q2 (waiters s w)"
    "ep_links_only (waiters s w) s1 s2" using ep_append [OF d(2), of t] t insert_Diff by (metis DiffE singletonI)
  note l = ep_links_only_thread [OF d(3)] ep_links_only_state [OF d(3)]
    ep_links_only_thread [OF a(3)] ep_links_only_state [OF a(3)]
  have "waits_on (tcbs s2 u) = waits_on (tcbs s u)" for u by (simp add: l f)
  then have g: "eps s2 = eps s" "ntfns s2 = ntfns s" "waiters s2 = waiters s" "tcbState (tcbs s2 u) = tcbState (tcbs s u)" for u
    by (simp_all add: l f waiters_def fun_eq_iff) (simp_all add: s0 upd_tcb_def)
  have o: "u \<notin> waiters s w \<Longrightarrow> tcbs s2 u = tcbs s u" for u
    using a(3) d(3) f(6) t unfolding ep_links_only_def by metis
  have "wait_ok (obj_set_queue w q2 s2)"
  proof (rule wait_change [where w = w, OF ok])
    have k: "obj_ok s2 v = obj_ok s v" for v by (rule obj_ok_same) (simp_all add: g)
    show "queue_of (obj_set_queue w q2 s2) (obj_queue (obj_set_queue w q2 s2) w) (waiters (obj_set_queue w q2 s2) w)"
      using a(2) queue_of_tcbs [of "obj_set_queue w q2 s2" s2] by (simp add: g(3))
    show "obj_ok (obj_set_queue w q2 s2) w" using wait_ok_at(2) [OF ok, of w] k by simp
    fix v assume v: "v \<noteq> w"
    have "obj_queue s2 v = obj_queue s v" by (cases v) (simp_all add: obj_set_defs g)
    then show "obj_queue (obj_set_queue w q2 s2) v = obj_queue s v \<and>
        waiters (obj_set_queue w q2 s2) v = waiters s v \<and> obj_ok (obj_set_queue w q2 s2) v = obj_ok s v"
      using v k by (simp add: g(3))
    fix u assume "u \<in> waiters s v"
    then have "u \<notin> waiters s w" using v by (auto simp: waiters_def)
    then show "tcbEPNext (tcbs (obj_set_queue w q2 s2) u) = tcbEPNext (tcbs s u) \<and>
        tcbEPPrev (tcbs (obj_set_queue w q2 s2) u) = tcbEPPrev (tcbs s u) \<and>
        tcbPriority (tcbs (obj_set_queue w q2 s2) u) = tcbPriority (tcbs s u)" using o by simp
  qed
  then show thesis using that d(1,3) a(1,3) by blast
qed

lemma inv_reorder:
  assumes "ipc_inv s" "t \<in> waiters s w"
  obtains q1 s1 q2 s2 where
    "tcbEPDequeue t (obj_queue (upd_tcb t (\<lambda>x. x\<lparr>tcbPriority := prio\<rparr>) s) w) (upd_tcb t (\<lambda>x. x\<lparr>tcbPriority := prio\<rparr>) s) = (q1, s1)"
    "tcbEPAppend t q1 s1 = Some (q2, s2)" "ipc_inv (obj_set_queue w q2 s2)"
proof -
  let ?s0 = "upd_tcb t (\<lambda>x. x\<lparr>tcbPriority := prio\<rparr>) s"
  have ok: "wait_ok s" "links_ok s" using assms(1) by (simp_all add: ipc_inv_iff)
  obtain q1 s1 q2 s2 where r: "tcbEPDequeue t (obj_queue ?s0 w) ?s0 = (q1, s1)" "tcbEPAppend t q1 s1 = Some (q2, s2)"
    "ep_links_only (waiters s w) ?s0 s1" "ep_links_only (waiters s w) s1 s2" "wait_ok (obj_set_queue w q2 s2)"
    by (rule reorder_wait [OF ok(1) assms(2) refl])
  note l = ep_links_only_thread [OF r(3)] ep_links_only_state [OF r(3)]
    ep_links_only_thread [OF r(4)] ep_links_only_state [OF r(4)]
  have "link_view (obj_set_queue w q2 s2) = link_view s"
  proof (rule link_viewI)
    have st: "tcbState (tcbs s2 u) = tcbState (tcbs s u)" for u by (simp add: l(1,12) upd_tcb_def)
    show "thread_reply (obj_set_queue w q2 s2) u = thread_reply s u"
      "awaits_reply (obj_set_queue w q2 s2) u = awaits_reply s u" for u by (simp_all add: reply_of_def awaits_reply_def st)
  qed (simp_all add: l upd_tcb_def)
  from links_ok_cong [OF this] have "ipc_inv (obj_set_queue w q2 s2)" using r(5) ok(2) by (simp add: ipc_inv_iff)
  then show thesis using that r(1,2) by blast
qed

end
