(* ===== verification/IpcOps.thy ===== *)
theory IpcOps
  imports IpcQueues
begin

text \<open>
  Every operation of communication keeps its invariant: signals, synchronous messages,
  replies, faults, cancellation, and the binding of threads, notifications and scheduling
  contexts.
\<close>

section \<open>Signals\<close>

lemma inv_ntfn_upd:
  assumes "ipc_inv_but S s" and "\<And>x. ntfnBoundTCB (f x) = ntfnBoundTCB x" "\<And>x. ntfnSchedContext (f x) = ntfnSchedContext x"
    "\<And>x. ntfnQueue_head (f x) = ntfnQueue_head x" "\<And>x. ntfnQueue_tail (f x) = ntfnQueue_tail x"
    "ntfn_state (f (ntfns s n)) = NtfnState_Waiting \<longleftrightarrow> ntfn_state (ntfns s n) = NtfnState_Waiting"
  shows "ipc_inv_but S (upd_ntfn n f s)"
proof -
  have "wait_view (upd_ntfn n f s) = wait_view s" by (rule wait_viewI) (simp_all add: upd_ntfn_def assms(2-6))
  moreover have "link_view (upd_ntfn n f s) = link_view s"
    by (rule link_viewI) (simp_all add: upd_ntfn_def assms(2-6) awaits_reply_def)
  ultimately show ?thesis using inv_cong assms(1) by blast
qed

lemma inv_ntfn_set_active:
  assumes "ipc_inv_but S s" "ntfn_state (ntfns s n) \<noteq> NtfnState_Waiting"
  shows "ipc_inv_but S (ntfn_set_active n badge s)"
proof -
  have "ipc_inv_but S (notification_ptr_set_state n NtfnState_Active s)"
    unfolding notification_ptr_set_state_def by (rule inv_ntfn_upd [OF assms(1)]) (use assms(2) in simp_all)
  then show ?thesis unfolding ntfn_set_active_def by (rule inv_ntfn_upd) simp_all
qed

lemma inv_ntfn_set_idle:
  assumes "ipc_inv_but S s" "ntfn_state (ntfns s n) \<noteq> NtfnState_Waiting"
  shows "ipc_inv_but S (notification_ptr_set_state n NtfnState_Idle s)"
  unfolding notification_ptr_set_state_def by (rule inv_ntfn_upd [OF assms(1)]) (use assms(2) in simp_all)

lemma inv_signal_wake:
  assumes "ipc_inv_but {t} s" "thread_reply s t = 0" "t \<noteq> 0" "signal_wake t n badge s = Some s'"
  shows "ipc_inv s'"
proof -
  have "ipc_inv (setRegister t badgeRegister badge (setThreadState t ThreadState_Running s))"
    using inv_setThreadState [OF assms(1,2)] by (simp add: plain_state_def)
  note d = inv_maybeDonateSchedContext [OF this assms(3)]
  show ?thesis using assms(4)
    by (auto simp: signal_wake_def inv_unblock_sporadic dest!: d split: Option.bind_splits if_splits)
qed

text \<open>A notification or endpoint with waiters has a first waiter.\<close>

lemma head_waits:
  assumes "ipc_inv s" "waiters s w \<noteq> {}"
  shows "tcbq_head (obj_queue s w) \<in> waiters s w"
  using queue_of_head(3) [OF wait_ok_at(1)] assms by (auto simp: ipc_inv_iff)

lemma ntfn_waiting: "ipc_inv s \<Longrightarrow> ntfn_state (ntfns s n) = NtfnState_Waiting \<longleftrightarrow> waiters s (Ntfn n) \<noteq> {}"
  using wait_ok_at(2) [of s "Ntfn n"] by (simp add: ipc_inv_iff)

lemma ep_waiting:
  assumes "ipc_inv s" "ep_state (eps s p) \<noteq> EPState_Idle"
  shows "waiters s (Ep p) \<noteq> {}" "t \<in> waiters s (Ep p) \<Longrightarrow> ts_type (tcbState (tcbs s t)) =
    (if ep_state (eps s p) = EPState_Send then ThreadState_BlockedOnSend else ThreadState_BlockedOnReceive)"
proof -
  have f: "ep_fits (ep_state (eps s p)) ((\<lambda>t. ts_type (tcbState (tcbs s t))) ` waiters s (Ep p))"
    using wait_ok_at(2) [of s "Ep p"] assms(1) by (simp add: ipc_inv_iff)
  show "waiters s (Ep p) \<noteq> {}" using f assms(2) by (cases "ep_state (eps s p)") auto
  show "ts_type (tcbState (tcbs s t)) =
    (if ep_state (eps s p) = EPState_Send then ThreadState_BlockedOnSend else ThreadState_BlockedOnReceive)"
    if "t \<in> waiters s (Ep p)" using f assms(2) that by (cases "ep_state (eps s p)") auto
qed

lemma waiter_ntfn_reply: "t \<in> waiters s (Ntfn n) \<Longrightarrow> thread_reply s t = 0"
  using wait_of_type(2) by (auto simp: waiters_def waits_on_def reply_of_def)

lemma sendSignal_waiting:
  "ntfn_state (ntfns s n) = NtfnState_Waiting \<Longrightarrow>
   sendSignal n badge s = signal_wake (tcbq_head (obj_queue s (Ntfn n))) n badge
     (obj_dequeue (Ntfn n) (tcbq_head (obj_queue s (Ntfn n))) s)"
  by (simp add: sendSignal_def obj_dequeue_def case_prod_beta Let_def)

lemma inv_sendSignal:
  assumes inv: "ipc_inv s" and r: "sendSignal n badge s = Some s'"
  shows "ipc_inv s'"
proof (cases "ntfn_state (ntfns s n)")
  case NtfnState_Idle
  let ?t = "ntfnBoundTCB (ntfns s n)"
  show ?thesis
  proof (cases "?t \<noteq> 0 \<and> ts_type (tcbState (tcbs s ?t)) = ThreadState_BlockedOnReceive")
    case True
    have "ipc_inv_but {?t} (cancelIPC ?t s)"
      using inv_cancelIPC [OF inv] inv_but_insert [OF plain_waits(1) [OF cancelIPC_type(1) [OF inv]]] by simp
    then show ?thesis
      using inv_signal_wake [OF _ plain_waits(2) [OF cancelIPC_type(1) [OF inv]]] r True NtfnState_Idle
      by (simp add: sendSignal_def Let_def)
  next
    case False
    then show ?thesis using r NtfnState_Idle inv_ntfn_set_active [OF inv, of n badge]
      by (auto simp: sendSignal_def Let_def split: if_splits)
  qed
next
  case NtfnState_Waiting
  let ?t = "tcbq_head (obj_queue s (Ntfn n))"
  have t: "?t \<in> waiters s (Ntfn n)" by (rule head_waits [OF inv]) (use ntfn_waiting [OF inv] NtfnState_Waiting in simp)
  have "thread_reply (obj_dequeue (Ntfn n) ?t s) ?t = 0"
    unfolding thread_reply_dequeue [OF inv t] by (rule waiter_ntfn_reply [OF t])
  from inv_signal_wake [OF inv_dequeue [OF inv t] this inv_waiter_nonzero [OF inv t]] show ?thesis
    using r NtfnState_Waiting by (simp add: sendSignal_waiting)
next
  case NtfnState_Active
  show ?thesis using r NtfnState_Active inv_ntfn_upd [OF inv, of "\<lambda>x. x\<lparr>ntfnMsgIdentifier := ntfnMsgIdentifier (ntfns s n) OR badge\<rparr>" n]
    by (auto simp: sendSignal_def Let_def)
qed

lemma inv_refill_check: "sc_refill_unblock_check c s = Some s' \<Longrightarrow> ipc_inv_but S s' = ipc_inv_but S s"
  by (rule inv_frame) (rule ipc_sc_checks(1))

lemma inv_receive_active:
  assumes inv: "ipc_inv s" and "t \<noteq> 0" "ntfn_state (ntfns s n) = NtfnState_Active"
    "maybeDonateSchedContext t n (notification_ptr_set_state n NtfnState_Idle (setRegister t r w s)) = Some s'"
  shows "ipc_inv s'"
proof (rule inv_maybeDonateSchedContext [OF _ assms(2,4)])
  show "ipc_inv (notification_ptr_set_state n NtfnState_Idle (setRegister t r w s))"
    by (rule inv_ntfn_set_idle) (use inv assms(3) in \<open>simp_all add: ipc_stateD(3) [OF ipc_registers(1)]\<close>)
qed

lemma inv_completeSignal:
  assumes "ipc_inv s" "completeSignal n t s = Some s'"
  shows "ipc_inv s'"
  using assms(2) inv_receive_active [OF assms(1)]
  by (auto simp: completeSignal_def Let_def dest: inv_refill_check [where S = "{}"] split: if_splits Option.bind_splits)

lemma inv_receiveSignal:
  assumes "ipc_inv s" "plain s t" "t \<noteq> 0" "receiveSignal t cap b s = Some s'"
  shows "ipc_inv s'"
proof (cases "ntfn_state (ntfns s (capNtfnPtr cap)) = NtfnState_Active")
  case True
  then show ?thesis
    using assms(4) inv_receive_active [OF assms(1,3)]
    by (auto simp: receiveSignal_def Let_def dest: inv_refill_check [where S = "{}"] split: if_splits Option.bind_splits)
next
  case False
  obtain s2 where "receiveSignal_block t (capNtfnPtr cap) s = Some s2" "ipc_inv s2"
    by (rule inv_receiveSignal_block [OF assms(1-3)])
  then show ?thesis using False assms(1,4)
    by (cases "ntfn_state (ntfns s (capNtfnPtr cap))") (auto simp: receiveSignal_def Let_def split: if_splits)
qed

section \<open>Synchronous messages\<close>

lemma ep_take_head_alt:
  "ep_take_head p s = (tcbq_head (obj_queue s (Ep p)), obj_dequeue (Ep p) (tcbq_head (obj_queue s (Ep p))) s)"
  by (simp add: ep_take_head_def obj_dequeue_def case_prod_beta Let_def)

lemma reply_push_state:
  "ts_type (tcbState (tcbs (reply_push c d r b s) u)) = (if u = c then ThreadState_BlockedOnReply else ts_type (tcbState (tcbs s u)))"
  "u \<noteq> c \<Longrightarrow> thread_reply (reply_push c d r b s) u = thread_reply s u"
  by (simp_all add: reply_push_alt Let_def ipc_state_thread [OF ipc_donate] stack_push_fields reply_of_def
      ipc_state_thread [OF ipc_block_reply] setThreadState_tcb)

lemma thread_reply_donate: "thread_reply (schedContext_donate c t s) u = thread_reply s u"
  by (simp add: reply_of_def ipc_state_thread [OF ipc_donate])

lemma thread_reply_set: "u \<noteq> t \<Longrightarrow> thread_reply (setThreadState t ts s) u = thread_reply s u"
  by (simp add: reply_of_def ipc_state_thread [OF ipc_setThreadState] setThreadState_tcb)

lemma unlink_reply_thread: "reply_thread (reply_unlink r t s) q = (if q = r then 0 else reply_thread s q)"
  by (simp add: ipc_stateD(5) [OF ipc_reply_unlink])

lemma plain_drop: "u \<noteq> t \<Longrightarrow> plain (drop_reply t s) u = plain s u"
  by (simp add: plain_def drop_reply_type)

lemma drop_reply_thread:
  assumes "ts_type (tcbState (tcbs s t)) = ThreadState_BlockedOnReceive" "replyObject (tcbState (tcbs s t)) \<noteq> 0"
  shows "reply_thread (drop_reply t s) (replyObject (tcbState (tcbs s t))) = 0"
  using assms by (simp add: drop_reply_def unlink_reply_thread)

text \<open>The sender's part of a meeting, after the receiver has been taken off the queue.\<close>

lemma inv_meet_sender:
  assumes inv: "ipc_inv_but {d} s" "thread_reply s d = 0" and t: "plain s t" "t \<noteq> 0" "t \<noteq> d" "d \<noteq> 0"
    and r: "r \<noteq> 0 \<Longrightarrow> reply_thread s r = 0" and sc: "canDonate \<Longrightarrow> thread_sc s t \<noteq> 0"
  shows "ipc_inv (setThreadState d ThreadState_Running
     (if call then if r \<noteq> 0 \<and> g then reply_push t d r canDonate s else setThreadState t ThreadState_Inactive s
      else if canDonate \<and> thread_sc s d = 0 then schedContext_donate (thread_sc s t) d s else s))"
    (is "ipc_inv (setThreadState d _ ?s)")
proof -
  have i: "ipc_inv_but (insert t {d}) s" using inv(1) inv_but_insert [OF plain_waits(1) [OF t(1)]] by simp
  have "ipc_inv_but {d} (reply_push t d r canDonate s)" if "r \<noteq> 0"
    using inv_reply_push [OF i plain_waits(2) [OF t(1)] r [OF that] that t(2,4)] t(3) by simp
  moreover have "ipc_inv_but {d} (setThreadState t ThreadState_Inactive s)"
    by (rule inv_set_plain [OF inv(1) t(1)]) (simp add: plain_state_def)
  moreover have "ipc_inv_but {d} (schedContext_donate (thread_sc s t) d s)" if "canDonate" "thread_sc s d = 0"
    using inv_donate [OF inv(1) that(2) sc [OF that(1)] t(4)] .
  ultimately have "ipc_inv_but {d} ?s" using inv(1) by presburger
  moreover have "thread_reply ?s d = 0"
    using inv(2) t(3) by (simp add: reply_push_state(2) thread_reply_donate thread_reply_set)
  ultimately show ?thesis using inv_setThreadState [of d "{}"] by (simp add: plain_state_def)
qed

lemma obj_dequeue_frame:
  assumes "ipc_inv s" "t \<in> waiters s w" "ipc_state s1 = ipc_state (obj_dequeue w t s)"
  shows "ipc_inv_but {t} s1" "thread_reply s1 u = thread_reply s u" "ts_type (tcbState (tcbs s1 u)) = ts_type (tcbState (tcbs s u))"
    "replyObject (tcbState (tcbs s1 u)) = replyObject (tcbState (tcbs s u))" "thread_sc s1 u = thread_sc s u"
    "plain s1 u = plain s u" "replies s1 = replies s"
proof -
  have ok: "wait_ok s" using assms(1) by (simp add: ipc_inv_iff)
  note d = obj_dequeue_ok [OF ok assms(2)] ipc_state_thread [OF assms(3)]
  show "ipc_inv_but {t} s1" using inv_dequeue [OF assms(1,2)] inv_frame [OF assms(3)] by simp
  show "thread_reply s1 u = thread_reply s u" "ts_type (tcbState (tcbs s1 u)) = ts_type (tcbState (tcbs s u))"
    "replyObject (tcbState (tcbs s1 u)) = replyObject (tcbState (tcbs s u))" "thread_sc s1 u = thread_sc s u"
    "plain s1 u = plain s u" by (simp_all add: d reply_of_def plain_def)
  show "replies s1 = replies s" by (simp add: d ipc_stateD(5) [OF assms(3)])
qed

lemma inv_sendIPC_meet:
  assumes inv: "ipc_inv s" and t: "plain s t" "t \<noteq> 0" and "ep_state (eps s p) = EPState_Recv"
    and sc: "canDonate \<Longrightarrow> thread_sc s t \<noteq> 0"
    and r: "sendIPC_meet call badge g gr canDonate t p s = Some s'"
  shows "ipc_inv s'"
proof -
  define d where "d = tcbq_head (obj_queue s (Ep p))"
  have take: "ep_take_head p s = (d, obj_dequeue (Ep p) d s)" by (simp only: ep_take_head_alt d_def)
  let ?r = "replyObject (tcbState (tcbs s d))"
  have dw: "d \<in> waiters s (Ep p)" unfolding d_def by (rule head_waits [OF inv ep_waiting(1) [OF inv]]) (simp add: assms(4))
  note dty = ep_waiting(2) [OF inv _ dw] and d0 = inv_waiter_nonzero [OF inv dw, simplified]
  have ty: "ts_type (tcbState (tcbs s d)) = ThreadState_BlockedOnReceive" using dty assms(4) by simp
  have td: "t \<noteq> d" using t(1) ty by (auto simp: plain_def plain_state_def)
  obtain s1 where s1: "doIPCTransfer t p badge g d (obj_dequeue (Ep p) d s) = Some s1"
    using r by (auto simp: sendIPC_meet_def take split: Option.bind_splits)
  note f = obj_dequeue_frame [OF inv dw ipc_doIPCTransfer(2) [OF s1]]
  have na: "\<not> awaits_reply s1 d" by (simp add: awaits_reply_def f ty)
  define s2 where "s2 = drop_reply d s1"
  note dr = inv_drop_reply [OF f(1) na d0, folded s2_def]
  have s2: "s2 = (if ?r \<noteq> 0 then reply_unlink ?r d s1 else s1)" by (simp add: s2_def drop_reply_def f ty)
  have rt: "reply_thread s2 ?r = 0" if "?r \<noteq> 0" using that by (simp add: s2 unlink_reply_thread)
  have pt: "plain s2 t" using t(1) td by (simp add: s2_def plain_drop f)
  have sc2: "thread_sc s2 u = thread_sc s u" for u
    by (simp add: s2 f ipc_state_thread [OF ipc_reply_unlink] setThreadState_tcb)
  define s3 where "s3 = setThreadState d ThreadState_Running
     (if call \<or> tcbFault (tcbs s2 t) \<noteq> NullFault
      then if ?r \<noteq> 0 \<and> (g \<or> gr) then reply_push t d ?r canDonate s2 else setThreadState t ThreadState_Inactive s2
      else if canDonate \<and> thread_sc s2 d = 0 then schedContext_donate (thread_sc s2 t) d s2 else s2)"
  have "ipc_inv s3" unfolding s3_def by (rule inv_meet_sender [OF dr pt t(2) td d0 rt]) (simp_all add: sc2 sc)
  moreover have "sendIPC_meet call badge g gr canDonate t p s = unblock_sporadic d s3 \<bind> (\<lambda>s. Some (possibleSwitchTo d s))"
    unfolding sendIPC_meet_def take prod.case s1 Option.bind.simps f(4) Let_def s2 [symmetric] s3_def by (rule refl)
  ultimately show ?thesis using r by (auto simp: inv_unblock_sporadic split: Option.bind_splits)
qed

lemma inv_sendIPC:
  assumes "ipc_inv s" "plain s t" "t \<noteq> 0" "canDonate \<Longrightarrow> thread_sc s t \<noteq> 0"
    "sendIPC blocking call badge g gr canDonate t p s = Some s'"
  shows "ipc_inv s'"
proof (cases "ep_state (eps s p) = EPState_Recv")
  case True
  then show ?thesis using inv_sendIPC_meet [OF assms(1-3) True assms(4)] assms(5) by (simp add: sendIPC_def)
next
  case False
  obtain s2 where "sendIPC_block call badge g gr t p s = Some s2" "ipc_inv s2"
    by (rule inv_sendIPC_block [OF assms(1-3) False])
  then show ?thesis using False assms(1,5)
    by (cases "ep_state (eps s p)") (auto simp: sendIPC_def split: if_splits)
qed

lemma inv_receiveIPC_meet:
  assumes inv: "ipc_inv s" and "t \<noteq> 0" and "ep_state (eps s p) = EPState_Send" and rp: "rp \<noteq> 0 \<Longrightarrow> reply_thread s rp = 0"
    and r: "receiveIPC_meet t p rp s = Some s'"
  shows "ipc_inv s'"
proof -
  define d where "d = tcbq_head (obj_queue s (Ep p))"
  have take: "ep_take_head p s = (d, obj_dequeue (Ep p) d s)" by (simp only: ep_take_head_alt d_def)
  have dw: "d \<in> waiters s (Ep p)" unfolding d_def by (rule head_waits [OF inv ep_waiting(1) [OF inv]]) (simp add: assms(3))
  note dty = ep_waiting(2) [OF inv _ dw] and d0 = inv_waiter_nonzero [OF inv dw, simplified]
  have ty: "ts_type (tcbState (tcbs s d)) = ThreadState_BlockedOnSend" using dty assms(3) by simp
  let ?b = "tcbState (tcbs (obj_dequeue (Ep p) d s) d)"
  obtain s1 s2 where s1: "doIPCTransfer d p (blockingIPCBadge ?b) (blockingIPCCanGrant ?b) t (obj_dequeue (Ep p) d s) = Some s1"
    and s2: "unblock_sporadic d s1 = Some s2"
    using r by (auto simp: receiveIPC_meet_def take Let_def split: Option.bind_splits)
  have "ipc_state s2 = ipc_state (obj_dequeue (Ep p) d s)"
    using ipc_sc_checks(3) [OF s2] ipc_doIPCTransfer(2) [OF s1] by simp
  note f = obj_dequeue_frame [OF inv dw this]
  have t0: "thread_reply s2 d = 0" by (simp add: f(2)) (simp add: reply_of_def ty)
  have "ipc_inv (reply_push d t rp cd s2)" if "rp \<noteq> 0" for cd
    using inv_reply_push [of d "{}", OF f(1) t0 _ that d0 assms(2)] rp [OF that] by (simp add: f(7))
  moreover have "ipc_inv (setThreadState d ts s2)" if "plain_state ts" for ts
    using inv_setThreadState [of d "{}", OF f(1) t0 that] by simp
  ultimately show ?thesis using r s1 s2
    by (auto simp: receiveIPC_meet_def take Let_def plain_state_def split: if_splits)
qed

lemma cancel_state_replies:
  assumes "ipc_inv s"
  shows "reply_thread (cancel_state t s) r \<in> {0, reply_thread s r}"
proof -
  have st: "replies (setThreadState t ts s) = replies s" for ts s by (simp add: ipc_stateD(5) [OF ipc_setThreadState])
  have dr: "reply_thread (drop_reply t s) r \<in> {0, reply_thread s r}" for s by (simp add: drop_reply_def unlink_reply_thread)
  have dq: "replies (obj_dequeue w t s) = replies s" if "t \<in> waiters s w" for w
    using obj_dequeue_ok(7) that assms by (simp add: ipc_inv_iff)
  have "reply_thread (drop_reply t (obj_dequeue w t s)) r \<in> {0, reply_thread s r}" if "t \<in> waiters s w" for w
    using dr [of "obj_dequeue w t s"] by (simp add: dq [OF that])
  moreover have "reply_thread (reply_remove_tcb t s) r \<in> {0, reply_thread s r}"
    by (simp add: reply_remove_tcb_alt unlink_reply_thread stack_cut_fields)
  ultimately show ?thesis using dq
    by (cases "ts_type (tcbState (tcbs s t))")
      (auto simp: cancel_state_def blockedIPCCancel_alt cancelSignal_alt st waiters_def waits_on_def)
qed

lemma cancelIPC_replies: "ipc_inv s \<Longrightarrow> reply_thread (cancelIPC t s) r \<in> {0, reply_thread s r}"
  using cancel_state_replies [of "upd_tcb t (\<lambda>t. t\<lparr>tcbFault := NullFault\<rparr>) s" t r]
  by (simp add: cancelIPC_alt inv_frame [OF ipc_clear_fault] ipc_stateD(5) [OF ipc_clear_fault])

lemma receiveIPC_reply_ok:
  assumes inv: "ipc_inv s" and "plain s t" "t \<noteq> 0" and r: "receiveIPC_reply t cap s = (rp, s1)"
  shows "ipc_inv s1" "plain s1 t" "rp \<noteq> 0 \<Longrightarrow> reply_thread s1 rp = 0"
proof -
  let ?x = "reply_thread s rp"
  have s1: "s1 = (if is_cap_reply_cap cap \<and> ?x \<noteq> 0 \<and> ?x \<noteq> t then cancelIPC ?x s else s)"
    using r by (auto simp: receiveIPC_reply_def Let_def split: if_splits)
  show i: "ipc_inv s1" using inv inv_cancelIPC by (simp add: s1)
  have ty: "plain s1 t" if "?x \<noteq> t" using cancelIPC_type(2) [OF inv, of t ?x] that assms(2) by (auto simp: s1 plain_def)
  then show pl: "plain s1 t" using assms(2) by (cases "?x = t") (simp_all add: s1)
  show "reply_thread s1 rp = 0" if rp: "rp \<noteq> 0"
  proof (rule ccontr)
    assume y: "reply_thread s1 rp \<noteq> 0"
    have c: "is_cap_reply_cap cap" using r rp by (auto simp: receiveIPC_reply_def split: if_splits)
    note p = pairedD [OF links_okD(5) [OF inv_links]]
    have x: "?x \<noteq> t" using p [OF inv assms(3) rp] plain_waits(2) [OF assms(2)] rp by auto
    have e: "thread_reply s1 (reply_thread s1 rp) = rp" using p [OF i y rp] by simp
    show False
    proof (cases "?x = 0")
      case True
      then show False using y by (simp add: s1)
    next
      case False
      then have s1': "s1 = cancelIPC ?x s" using c x by (simp add: s1)
      show False using e y rp plain_waits(2) [OF cancelIPC_type(1) [OF inv, of ?x], folded s1'] cancelIPC_replies [OF inv, of ?x rp]
        by (auto simp: s1' [symmetric])
    qed
  qed
qed

lemma maybeReturn_fields [simp]:
  "ts_type (tcbState (tcbs (maybeReturnSchedContext n t s) u)) = ts_type (tcbState (tcbs s u))"
  "replies (maybeReturnSchedContext n t s) = replies s"
  by (simp_all add: maybeReturnSchedContext_def Let_def ipc_state_thread [OF ipc_queue_ops(5)] ipc_stateD [OF ipc_queue_ops(5)])

lemma plain_maybeReturn [simp]: "plain (maybeReturnSchedContext n t s) u = plain s u"
  by (simp add: plain_def)

lemma inv_receiveIPC:
  assumes inv: "ipc_inv s" "plain s t" "t \<noteq> 0" and r: "receiveIPC t cap b replyCap s = Some s'"
  shows "ipc_inv s'"
proof -
  obtain rp s1 where s1: "receiveIPC_reply t replyCap s = (rp, s1)" by (metis surj_pair)
  note i = receiveIPC_reply_ok [OF inv s1]
  let ?n = "tcbBoundNotification (tcbs s1 t)" and ?p = "capEPPtr cap"
  define s2 where "s2 = (if ?n \<noteq> 0 \<and> b then maybeReturnSchedContext ?n t s1 else s1)"
  have i2: "ipc_inv s2" "plain s2 t" "rp \<noteq> 0 \<Longrightarrow> reply_thread s2 rp = 0"
    using i inv_maybeReturnSchedContext [OF i(1) inv(3)] by (simp_all add: s2_def)
  have e: "receiveIPC t cap b replyCap s = (if ?n \<noteq> 0 \<and> ntfn_state (ntfns s1 ?n) = NtfnState_Active then completeSignal ?n t s1
     else case ep_state (eps s2 ?p) of EPState_Send \<Rightarrow> receiveIPC_meet t ?p rp s2
       | _ \<Rightarrow> if b then receiveIPC_block t ?p rp s2 else Some (doNBRecvFailedTransfer t s2))"
    unfolding receiveIPC_def Let_def s1 prod.case s2_def [symmetric] by (rule refl)
  have send: "ipc_inv s'" if "receiveIPC_meet t ?p rp s2 = Some s'" "ep_state (eps s2 ?p) = EPState_Send"
    using inv_receiveIPC_meet [OF i2(1) inv(3) that(2) i2(3) that(1)] .
  have block: "ipc_inv s'" if s': "(if b then receiveIPC_block t ?p rp s2 else Some (doNBRecvFailedTransfer t s2)) = Some s'"
      and n: "ep_state (eps s2 ?p) \<noteq> EPState_Send"
  proof -
    obtain s3 where "receiveIPC_block t ?p rp s2 = Some s3" "ipc_inv s3"
      by (rule inv_receiveIPC_block [OF i2(1,2) inv(3) n i2(3)])
    then show ?thesis using s' i2(1) by (cases b) auto
  qed
  show ?thesis
  proof (cases "?n \<noteq> 0 \<and> ntfn_state (ntfns s1 ?n) = NtfnState_Active")
    case True
    then have "completeSignal ?n t s1 = Some s'" using r unfolding e by (simp only: if_True simp_thms)
    then show ?thesis by (rule inv_completeSignal [OF i(1)])
  next
    case False
    then show ?thesis using r send block unfolding e if_not_P [OF False] by (cases "ep_state (eps s2 ?p)") simp_all
  qed
qed

section \<open>Faults and replies\<close>

lemma inv_sendFaultIPC:
  assumes "ipc_inv s" "plain s t" "t \<noteq> 0" "can_donate \<Longrightarrow> thread_sc s t \<noteq> 0"
    "sendFaultIPC t cap can_donate s = Some (b, s')"
  shows "ipc_inv s'" "\<not> b \<Longrightarrow> s' = s"
proof -
  let ?s = "upd_tcb t (\<lambda>x. x\<lparr>tcbFault := current_fault s\<rparr>) s"
  have "ipc_inv ?s" "plain ?s t" "can_donate \<Longrightarrow> thread_sc ?s t \<noteq> 0"
    using assms(1,2,4) by (simp_all add: inv_frame [OF ipc_clear_fault] plain_frame [OF ipc_clear_fault] ipc_state_thread [OF ipc_clear_fault])
  note i = inv_sendIPC [OF this(1,2) assms(3) this(3)]
  show "ipc_inv s'" using assms(1,5) i by (auto simp: sendFaultIPC_def Let_def split: if_splits)
  show "\<not> b \<Longrightarrow> s' = s" using assms(5) by (auto simp: sendFaultIPC_def Let_def split: if_splits)
qed

lemma inv_handleFault:
  assumes "ipc_inv s" "plain s t" "t \<noteq> 0" "handleFault t s = Some s'"
  shows "ipc_inv s'"
proof -
  obtain b s1 where s1: "sendFaultIPC t (cte_cap (ctes s (TCB_PTR_CTE_PTR t tcbFaultHandler))) (tcbSchedContext (tcbs s t) \<noteq> 0) s = Some (b, s1)"
    "s' = (if \<not> b then handleNoFaultHandler t s1 else s1)"
    using assms(4) by (auto simp: handleFault_def split: Option.bind_splits)
  note i = inv_sendFaultIPC [OF assms(1-3) _ s1(1)]
  have "ipc_inv (setThreadState t ThreadState_Inactive s)"
    by (rule inv_set_plain [OF assms(1,2)]) (simp add: plain_state_def)
  then show ?thesis using i s1(2) by (simp add: handleNoFaultHandler_def)
qed

lemma inv_handleTimeout:
  assumes "ipc_inv s" "plain s t" "t \<noteq> 0" "handleTimeout t s = Some s'"
  shows "ipc_inv s'"
  using assms(4) inv_sendFaultIPC(1) [OF assms(1-3), of False] by (auto simp: handleTimeout_def)

lemma inv_postpone: "postpone sc s = Some s' \<Longrightarrow> ipc_inv_but S s' = ipc_inv_but S s"
  by (rule inv_frame) (rule ipc_resume(1))

lemma inv_reply_message:
  assumes "ipc_inv s" "plain s t" "doReplyTransfer_message sender t grant s = Some s'"
  shows "ipc_inv s'" "plain s' t"
proof -
  obtain s1 ts where s1: "ipc_state s1 = ipc_state s" "s' = setThreadState t ts s1" "plain_state ts"
    using assms(3) ipc_doIPCTransfer(2) ipc_handleFaultReply
    by (auto simp: doReplyTransfer_message_def Let_def plain_state_def ipc_clear_fault split: if_splits Option.bind_splits)
      (metis ipc_clear_fault)+
  have "ipc_inv s1" "plain s1 t" using assms(1,2) inv_frame [OF s1(1)] plain_frame [OF s1(1)] by simp_all
  then show "ipc_inv s'" "plain s' t" using inv_set_plain [OF _ _ s1(3)] s1(2,3) by (simp_all add: plain_set)
qed

lemma inv_reply_resume:
  assumes "ipc_inv s" "plain s t" "t \<noteq> 0" "doReplyTransfer_resume t b s = Some s'"
  shows "ipc_inv s'"
proof -
  have "ipc_inv s'" if "handleTimeout t (s\<lparr>current_fault := f\<rparr>) = Some s'" for f
    by (rule inv_handleTimeout [OF _ _ assms(3) that])
      (use assms(1,2) in \<open>simp_all add: inv_frame [OF ipc_globals(5)] plain_frame [OF ipc_globals(5)]\<close>)
  then show ?thesis using assms(1,4) by (auto simp: doReplyTransfer_resume_def Let_def inv_postpone split: if_splits)
qed

lemma inv_doReplyTransfer:
  assumes inv: "ipc_inv s" and "reply \<noteq> 0" and r: "doReplyTransfer sender reply grant s = Some s'"
  shows "ipc_inv s'"
proof (cases "replyTCB (replies s reply) = 0 \<or>
    ts_type (tcbState (tcbs s (replyTCB (replies s reply)))) \<noteq> ThreadState_BlockedOnReply")
  case False
  let ?t = "replyTCB (replies s reply)"
  have t: "?t \<noteq> 0" "awaits_reply s ?t" using False by (simp_all add: awaits_reply_def)
  have "thread_reply s ?t = reply" using pairedD [OF links_okD(5) [OF inv_links [OF inv]] t(1) assms(2)] by simp
  note i = inv_reply_remove [OF inv t(2) this assms(2) t(1), simplified]
  obtain s1 s2 where s1: "unblock_sporadic ?t (reply_remove reply ?t s) = Some s1"
    and s2: "doReplyTransfer_message sender ?t grant s1 = Some s2"
    and s': "doReplyTransfer_resume ?t (is_Timeout_fault (tcbFault (tcbs s1 ?t))) s2 = Some s'"
    using r False by (auto simp: doReplyTransfer_def Let_def split: Option.bind_splits)
  have p: "plain (reply_remove reply ?t s) ?t" by (simp add: plain_def reply_remove_type plain_state_def)
  have "ipc_inv s1" "plain s1 ?t" using i p inv_unblock_sporadic [OF s1] plain_frame [OF ipc_sc_checks(3) [OF s1]] by simp_all
  from inv_reply_resume [OF inv_reply_message [OF this s2] t(1) s'] show ?thesis .
qed (use inv r in \<open>simp add: doReplyTransfer_def\<close>)

section \<open>Suspending, restarting and reprioritising\<close>

lemma inv_yield:
  assumes inv: "ipc_inv_but S s" and "paired (yield_to s') (yield_from s')" and "wait_view s' = wait_view s"
    and "\<And>t. thread_sc s' t = thread_sc s t" "\<And>t. thread_ntfn s' t = thread_ntfn s t" "\<And>t. tcbState (tcbs s' t) = tcbState (tcbs s t)"
    and "ntfns s' = ntfns s" "replies s' = replies s" "\<And>c. sc_thread s' c = sc_thread s c" "\<And>c. sc_reply s' c = sc_reply s c"
    and "\<And>c. sc_ntfn s' c = sc_ntfn s c"
  shows "ipc_inv_but S s'"
proof -
  have "links_ok s'" using inv_links [OF inv] assms(2,4-) 
    unfolding links_ok_def stack_ok_def awaits_reply_def reply_of_def by (simp cong: if_cong)
  then show ?thesis using inv wait_ok_cong [OF wait_view_idle [OF assms(3)]] unfolding ipc_inv_but_def by blast
qed

lemma wait_view_sc: "wait_view (upd_sc c f s) = wait_view s"
  by (rule wait_viewI) (simp_all add: upd_sc_def)

lemma wait_view_tcb:
  assumes "\<And>t. waits_on (f t) = waits_on t" "\<And>t. ts_type (tcbState (f t)) = ts_type (tcbState t)"
    "\<And>t. tcbEPNext (f t) = tcbEPNext t" "\<And>t. tcbEPPrev (f t) = tcbEPPrev t" "\<And>t. tcbPriority (f t) = tcbPriority t"
  shows "wait_view (upd_tcb p f s) = wait_view s"
  by (rule wait_viewI) (simp_all add: upd_tcb_def wait_kind_def assms)

lemma inv_cancelYieldTo:
  assumes "ipc_inv_but S s"
  shows "ipc_inv_but S (schedContext_cancelYieldTo t s)"
proof (cases "t \<noteq> 0 \<and> tcbYieldTo (tcbs s t) \<noteq> 0")
  case True
  let ?c = "tcbYieldTo (tcbs s t)"
  let ?s = "upd_tcb t (\<lambda>t. t\<lparr>tcbYieldTo := 0\<rparr>) (upd_sc ?c (\<lambda>c. c\<lparr>scYieldFrom := 0\<rparr>) s)"
  have "ipc_inv_but S ?s"
  proof (rule inv_yield [OF assms])
    show "paired (yield_to ?s) (yield_from ?s)"
      using yield.unbind_paired(1) [OF links_okD(4) [OF inv_links [OF assms]] refl] True by blast
    show "wait_view ?s = wait_view s" by (simp add: wait_view_tcb wait_view_sc waits_on_def)
  qed (simp_all add: upd_defs)
  then show ?thesis using True by (simp add: schedContext_cancelYieldTo_def)
qed (use assms in \<open>auto simp: schedContext_cancelYieldTo_def\<close>)

lemma inv_suspend:
  assumes "ipc_inv s"
  shows "ipc_inv (suspend t s)"
proof -
  let ?s = "cancelIPC t s"
  note c = inv_cancelIPC [OF assms, of t] cancelIPC_type(1) [OF assms, of t]
  define s1 where "s1 = (if ts_type (tcbState (tcbs ?s t)) = ThreadState_Running then updateRestartPC t ?s else ?s)"
  have "ipc_inv s1" "plain s1 t" using c by (simp_all add: s1_def plain_frame [OF ipc_registers(4)])
  then have "ipc_inv (setThreadState t ThreadState_Inactive s1)" by (rule inv_set_plain) (simp add: plain_state_def)
  then show ?thesis by (simp add: suspend_def s1_def [symmetric] Let_def inv_cancelYieldTo)
qed

lemma inv_restart:
  assumes "ipc_inv s" "restart t s = Some s'"
  shows "ipc_inv s'"
proof -
  have "ipc_inv (setThreadState t ThreadState_Restart (cancelIPC t s))"
    by (rule inv_set_plain [OF inv_cancelIPC [OF assms(1)] cancelIPC_type(1) [OF assms(1)]]) (simp add: plain_state_def)
  then show ?thesis using assms
    by (auto simp: restart_def Let_def inv_resume inv_refill_check split: if_splits Option.bind_splits)
qed

lemma wait_kind_prio: "wait_kind (t\<lparr>tcbPriority := p\<rparr>) = wait_kind t"
  by (simp add: wait_kind_def waits_on_def)

text \<open>The priority of a thread in no wait queue plays no role.\<close>

lemma inv_prio_idle:
  assumes "ipc_inv s" "waits_on (tcbs s t) = None"
  shows "ipc_inv (upd_tcb t (\<lambda>x. x\<lparr>tcbPriority := prio\<rparr>) s)"
proof -
  let ?s = "upd_tcb t (\<lambda>x. x\<lparr>tcbPriority := prio\<rparr>) s"
  have l: "link_view ?s = link_view s" by (rule link_viewI) (simp_all add: upd_tcb_def reply_of_def awaits_reply_def)
  have w: "waits_on (tcbs ?s u) = waits_on (tcbs s u)" "u \<noteq> t \<Longrightarrow> tcbs ?s u = tcbs s u"
    "tcbState (tcbs ?s u) = tcbState (tcbs s u)" "eps ?s = eps s" "ntfns ?s = ntfns s" for u
    by (simp_all add: upd_tcb_def waits_on_def)
  have ws: "waiters ?s v = waiters s v" for v by (simp add: waiters_def w)
  have t: "t \<notin> waiters s v" for v using assms(2) by (simp add: waiters_def)
  have "queue_of ?s q (waiters s v) = queue_of s q (waiters s v)" for q v
    by (rule queue_of_cong) (metis w(2) t)
  moreover have "obj_queue ?s v = obj_queue s v" for v by (cases v) (simp_all add: obj_set_defs w)
  moreover have "obj_ok ?s v = obj_ok s v" for v by (rule obj_ok_same) (simp_all add: w ws)
  ultimately have "wait_ok ?s = wait_ok s" unfolding wait_ok_def ws by simp
  then show ?thesis using assms(1) links_ok_cong [OF l] by (simp add: ipc_inv_iff)
qed

lemma inv_setPriority:
  assumes "ipc_inv s" "setPriority t prio s = Some s'"
  shows "ipc_inv s'"
proof (cases "waits_on (tcbs s t)")
  case None
  have d: "waits_on (tcbs (tcbSchedDequeue t s) t) = None"
    using None by (simp add: waits_on_def ipc_state_thread [OF ipc_queue_ops(3)])
  have "ipc_inv (upd_tcb t (\<lambda>x. x\<lparr>tcbPriority := prio\<rparr>) s)" "ipc_inv (upd_tcb t (\<lambda>x. x\<lparr>tcbPriority := prio\<rparr>) (tcbSchedDequeue t s))"
    using inv_prio_idle assms(1) None d by simp_all
  then show ?thesis using assms(2) None
    by (cases "ts_type (tcbState (tcbs s t))") (auto simp: setPriority_def Let_def waits_on_def split: if_splits)
next
  case (Some w)
  let ?s = "upd_tcb t (\<lambda>x. x\<lparr>tcbPriority := prio\<rparr>) s"
  obtain q1 s1 q2 s2 where r: "tcbEPDequeue t (obj_queue ?s w) ?s = (q1, s1)" "tcbEPAppend t q1 s1 = Some (q2, s2)"
    "ipc_inv (obj_set_queue w q2 s2)" by (rule inv_reorder [OF assms(1) Some [folded waiters_iff]])
  then show ?thesis using assms(2) Some
    by (cases "ts_type (tcbState (tcbs s t))") (auto simp: setPriority_def waits_on_def reorderEP_def reorderNTFN_def)
qed

section \<open>Binding\<close>

lemma inv_bind_ntfn:
  assumes inv: "ipc_inv_but S s" and "paired (thread_ntfn s') (ntfn_thread s')" and "wait_view s' = wait_view s"
    and "\<And>t. thread_sc s' t = thread_sc s t" "\<And>t. yield_to s' t = yield_to s t" "\<And>t. tcbState (tcbs s' t) = tcbState (tcbs s t)"
    and "\<And>n. ntfn_sc s' n = ntfn_sc s n" "replies s' = replies s" "scs s' = scs s"
  shows "ipc_inv_but S s'"
proof -
  have "links_ok s'" using inv_links [OF inv] assms(2,4-)
    unfolding links_ok_def stack_ok_def awaits_reply_def reply_of_def by (simp cong: if_cong)
  then show ?thesis using inv wait_ok_cong [OF wait_view_idle [OF assms(3)]] unfolding ipc_inv_but_def by blast
qed

lemma wait_view_ntfn:
  assumes "\<And>x. ntfn_state (f x) = ntfn_state x" "\<And>x. ntfnQueue_head (f x) = ntfnQueue_head x" "\<And>x. ntfnQueue_tail (f x) = ntfnQueue_tail x"
  shows "wait_view (upd_ntfn p f s) = wait_view s"
  by (rule wait_viewI) (simp_all add: upd_ntfn_def assms)

lemma inv_bindNotification:
  assumes inv: "ipc_inv s" and "thread_ntfn s t = 0" "ntfn_thread s n = 0" "t \<noteq> 0" "n \<noteq> 0"
  shows "ipc_inv (bindNotification t n s)"
proof (rule inv_bind_ntfn [OF inv])
  show "paired (thread_ntfn (bindNotification t n s)) (ntfn_thread (bindNotification t n s))"
    unfolding bindNotification_def by (rule thread_ntfn.bind_paired(1) [OF links_okD(2) [OF inv_links [OF inv]] assms(2-5)])
  show "wait_view (bindNotification t n s) = wait_view s"
    by (simp add: bindNotification_def wait_view_tcb wait_view_ntfn waits_on_def)
qed (simp_all add: bindNotification_def upd_defs)

lemma inv_doUnbindNotification:
  assumes inv: "ipc_inv s" and "thread_ntfn s t = n" "t \<noteq> 0" "n \<noteq> 0"
  shows "ipc_inv (doUnbindNotification n t s)"
proof (rule inv_bind_ntfn [OF inv])
  show "paired (thread_ntfn (doUnbindNotification n t s)) (ntfn_thread (doUnbindNotification n t s))"
    unfolding doUnbindNotification_def by (rule thread_ntfn.unbind_paired(1) [OF links_okD(2) [OF inv_links [OF inv]] assms(2-4)])
  show "wait_view (doUnbindNotification n t s) = wait_view s"
    by (simp add: doUnbindNotification_def wait_view_tcb wait_view_ntfn waits_on_def)
qed (simp_all add: doUnbindNotification_def upd_defs)

lemma inv_unbindNotification:
  assumes "ipc_inv s" "t \<noteq> 0"
  shows "ipc_inv (unbindNotification t s)"
  using assms inv_doUnbindNotification [OF assms(1) refl assms(2)] by (simp add: unbindNotification_def Let_def)

lemma inv_unbindMaybeNotification:
  assumes "ipc_inv s" "n \<noteq> 0"
  shows "ipc_inv (unbindMaybeNotification n s)"
proof (cases "ntfn_thread s n = 0")
  case False
  then have "thread_ntfn s (ntfn_thread s n) = n"
    using pairedD [OF links_okD(2) [OF inv_links [OF assms(1)]] False assms(2)] by simp
  then show ?thesis using inv_doUnbindNotification [OF assms(1) _ False assms(2)] False by (simp add: unbindMaybeNotification_def)
qed (use assms in \<open>simp add: unbindMaybeNotification_def\<close>)

lemma inv_ntfn_sc:
  assumes inv: "ipc_inv_but S s" and "paired (ntfn_sc s') (sc_ntfn s')" and "wait_view s' = wait_view s"
    and "tcbs s' = tcbs s" "\<And>n. ntfn_thread s' n = ntfn_thread s n" "replies s' = replies s"
    and "\<And>c. sc_thread s' c = sc_thread s c" "\<And>c. sc_reply s' c = sc_reply s c" "\<And>c. yield_from s' c = yield_from s c"
  shows "ipc_inv_but S s'"
proof -
  have "links_ok s'" using inv_links [OF inv] assms(2,4-) unfolding links_ok_def stack_ok_def awaits_reply_def by simp
  then show ?thesis using inv wait_ok_cong [OF wait_view_idle [OF assms(3)]] unfolding ipc_inv_but_def by blast
qed

lemma inv_schedContext_bindNtfn:
  assumes inv: "ipc_inv s" and "ntfn_sc s n = 0" "sc_ntfn s c = 0" "n \<noteq> 0" "c \<noteq> 0"
  shows "ipc_inv (schedContext_bindNtfn c n s)"
proof (rule inv_ntfn_sc [OF inv])
  show "paired (ntfn_sc (schedContext_bindNtfn c n s)) (sc_ntfn (schedContext_bindNtfn c n s))"
    unfolding schedContext_bindNtfn_def by (rule ntfn_sc.bind_paired(2) [OF links_okD(3) [OF inv_links [OF inv]] assms(2-5)])
  show "wait_view (schedContext_bindNtfn c n s) = wait_view s"
    by (simp add: schedContext_bindNtfn_def wait_view_sc wait_view_ntfn)
qed (simp_all add: schedContext_bindNtfn_def upd_defs)

lemma inv_schedContext_unbindNtfn:
  assumes inv: "ipc_inv s"
  shows "ipc_inv (schedContext_unbindNtfn c s)"
proof (cases "c \<noteq> 0 \<and> scNotification (scs s c) \<noteq> 0")
  case True
  let ?n = "scNotification (scs s c)"
  let ?s = "upd_sc c (\<lambda>c. c\<lparr>scNotification := 0\<rparr>) (upd_ntfn ?n (\<lambda>n. n\<lparr>ntfnSchedContext := 0\<rparr>) s)"
  note p = links_okD(3) [OF inv_links [OF inv]]
  have n: "ntfn_sc s ?n = c" using pairedD [OF p, of ?n c] True by simp
  have "ipc_inv ?s"
  proof (rule inv_ntfn_sc [OF inv])
    show "paired (ntfn_sc ?s) (sc_ntfn ?s)" using ntfn_sc.unbind_paired(2) [OF p n] True by blast
    show "wait_view ?s = wait_view s" by (simp add: wait_view_sc wait_view_ntfn)
  qed (simp_all add: upd_defs)
  then show ?thesis using True by (simp add: schedContext_unbindNtfn_def)
qed (use inv in \<open>auto simp: schedContext_unbindNtfn_def\<close>)

lemma inv_schedContextMaybeUnbindNtfn: "ipc_inv s \<Longrightarrow> ipc_inv (schedContextMaybeUnbindNtfn n s)"
  by (simp add: schedContextMaybeUnbindNtfn_def Let_def inv_schedContext_unbindNtfn)

lemma inv_schedContext_unbindReply:
  assumes inv: "ipc_inv s"
  shows "ipc_inv (schedContext_unbindReply c s)"
proof (cases "c \<noteq> 0 \<and> scReply (scs s c) \<noteq> 0")
  case True
  let ?r = "scReply (scs s c)"
  let ?s = "upd_sc c (\<lambda>c. c\<lparr>scReply := 0\<rparr>) (upd_reply ?r (\<lambda>r. r\<lparr>replyNext := no_call_stack\<rparr>) s)"
  note p = links_okD(6,7) [OF inv_links [OF inv]]
  have r: "reply_sc s ?r = c" using pairedD [OF p(1), of c ?r] True by simp
  have "ipc_inv ?s"
  proof (rule restack [OF _ _ _ _ _ _ _ _ _ _ inv])
    have "sc_reply ?s = (sc_reply s)(c := 0)" "reply_sc ?s = (reply_sc s)(?r := 0)" "reply_next ?s = reply_next s"
      "reply_prev ?s = reply_prev s"
      using r True by (auto simp: upd_defs fun_eq_iff stack_sc_def stack_reply_def no_call_stack_def)
    then show "paired (sc_reply ?s) (reply_sc ?s)" "paired (reply_prev ?s) (reply_next ?s)"
      using paired_disconnect [OF p(1) refl] True p(2) by simp_all
  qed (auto simp: upd_defs fun_eq_iff no_call_stack_def split: if_splits)
  then show ?thesis using True by (simp add: schedContext_unbindReply_def)
qed (use inv in \<open>auto simp: schedContext_unbindReply_def\<close>)

lemma inv_schedContext_unbindTCB:
  assumes "ipc_inv s" "c \<noteq> 0" "sc_thread s c \<noteq> 0"
  shows "ipc_inv (schedContext_unbindTCB c s)"
proof -
  let ?t = "scTcb (scs s c)"
  define s1 where "s1 = tcbReleaseRemove ?t (tcbSchedDequeue ?t (if ?t = ksCurThread s then rescheduleRequired s else s))"
  have f: "ipc_state s1 = ipc_state s" by (simp add: s1_def)
  have "thread_sc s ?t = c" using pairedD [OF links_okD(1) [OF inv_links [OF assms(1)]] assms(3,2)] by simp
  then have "ipc_inv (set_scTcb c 0 (set_tcbSchedContext ?t 0 s1))"
    using inv_unbind_sc [of "{}" s1 ?t c] assms inv_frame [OF f] by (simp add: ipc_state_thread [OF f])
  then show ?thesis by (simp add: schedContext_unbindTCB_def Let_def s1_def)
qed

lemma inv_schedContext_unbindAllTCBs: "ipc_inv s \<Longrightarrow> c \<noteq> 0 \<Longrightarrow> ipc_inv (schedContext_unbindAllTCBs c s)"
  by (simp add: schedContext_unbindAllTCBs_def inv_schedContext_unbindTCB)

lemma inv_schedContext_bindTCB:
  assumes "ipc_inv s" "thread_sc s t = 0" "sc_thread s c = 0" "t \<noteq> 0" "c \<noteq> 0" "schedContext_bindTCB c t s = Some s'"
  shows "ipc_inv s'"
  using inv_bind_sc [OF assms(1-5)] assms(6)
  by (auto simp: schedContext_bindTCB_def Let_def inv_resume inv_refill_check split: if_splits Option.bind_splits)

lemma inv_setConsumed [simp]: "ipc_inv_but S (setConsumed c t b s) = ipc_inv_but S s"
  by (rule inv_frame) simp

lemma inv_completeYieldTo: "ipc_inv_but S s \<Longrightarrow> ipc_inv_but S (schedContext_completeYieldTo t s)"
  by (simp add: schedContext_completeYieldTo_def inv_cancelYieldTo)

lemma inv_activateThread:
  assumes "ipc_inv s" "activateThread s = Some s'"
  shows "ipc_inv s'"
proof -
  define s1 where "s1 = (if tcbYieldTo (tcbs s (ksCurThread s)) \<noteq> 0 then schedContext_completeYieldTo (ksCurThread s) s else s)"
  have i: "ipc_inv s1" using assms(1) inv_completeYieldTo by (simp add: s1_def)
  have "ipc_inv (setThreadState (ksCurThread s1) ThreadState_Running (setRegister (ksCurThread s1) r w s1))"
    if "ts_type (tcbState (tcbs s1 (ksCurThread s1))) = ThreadState_Restart" for r w
    by (rule inv_set_plain) (use i that in \<open>simp_all add: plain_def plain_state_def ipc_simps\<close>)
  moreover have "ksCurThread (setRegister t r w s) = ksCurThread s" for t r w s by (simp add: setRegister_def upd_tcb_def)
  ultimately show ?thesis using assms(2) i
    by (cases "ts_type (tcbState (tcbs s1 (ksCurThread s1)))")
      (auto simp: activateThread_def s1_def [symmetric] Let_def)
qed

section \<open>Invocations of scheduling contexts\<close>

text \<open>The current thread, which makes the invocation, is running; caps refer to objects.\<close>

lemma inv_restart_cur:
  assumes "ipc_inv s" "plain s t"
  shows "ipc_inv (setThreadState t ThreadState_Restart s)" "ipc_inv (setThreadState t ThreadState_Running s)"
  by (rule inv_set_plain [OF assms]; simp add: plain_state_def)+

lemma setThreadState_objs [simp]:
  "thread_sc (setThreadState t ts s) u = thread_sc s u" "yield_to (setThreadState t ts s) u = yield_to s u"
  "scs (setThreadState t ts s) = scs s" "ntfns (setThreadState t ts s) = ntfns s"
  "ksCurThread (setThreadState t ts s) = ksCurThread s" "ctes (setThreadState t ts s) = ctes s"
  "ksCurSC (setThreadState t ts s) = ksCurSC s"
  using core_stateD [OF core_setThreadState, of t ts s]
  by (simp_all add: ipc_state_thread [OF ipc_setThreadState] ipc_stateD(3) [OF ipc_setThreadState] setThreadState_tcb)
    (simp_all add: set_tcbState_def upd_tcb_def)

lemma inv_error [simp]: "ipc_inv_but S (set_syscall_error f s) = ipc_inv_but S s"
  by (rule inv_frame) simp

fun cap_nonnull :: "cap \<Rightarrow> bool" where
  "cap_nonnull (cap_thread_cap t) = (t \<noteq> 0)"
| "cap_nonnull (cap_notification_cap _ _ _ n) = (n \<noteq> 0)"
| "cap_nonnull _ = True"

lemma inv_decode_UnbindObject:
  assumes "ipc_inv s" "plain s (ksCurThread s)" "sc \<noteq> 0" "cap_nonnull (cte_cap (ctes s (current_extra_caps s 0)))"
    "decodeSchedContext_UnbindObject sc s = Some (e, s')"
  shows "ipc_inv s'"
  using assms(4,5) inv_restart_cur(1) [OF assms(1,2)] assms(1,3)
    inv_schedContext_unbindTCB [OF inv_restart_cur(1) [OF assms(1,2)] assms(3)]
    inv_schedContext_unbindNtfn [OF inv_restart_cur(1) [OF assms(1,2)]]
  by (cases "cte_cap (ctes s (current_extra_caps s 0))")
    (auto simp: decodeSchedContext_UnbindObject_def invokeSchedContext_UnbindObject_def syscall_fail_def Let_def
      split: if_splits)

lemma inv_decode_Bind:
  assumes "ipc_inv s" "plain s (ksCurThread s)" "sc \<noteq> 0" "cap_nonnull (cte_cap (ctes s (current_extra_caps s 0)))"
    "decodeSchedContext_Bind sc s = Some (e, s')"
  shows "ipc_inv s'"
  using assms(4,5) assms(1,3)
    inv_schedContext_bindTCB [OF inv_restart_cur(1) [OF assms(1,2)] _ _ _ assms(3)]
    inv_schedContext_bindNtfn [OF inv_restart_cur(1) [OF assms(1,2)] _ _ _ assms(3)]
  by (cases "cte_cap (ctes s (current_extra_caps s 0))")
    (auto simp: decodeSchedContext_Bind_def invokeSchedContext_Bind_def syscall_fail_def Let_def
      split: if_splits)

lemma inv_invoke_Unbind:
  assumes "ipc_inv s" "sc \<noteq> 0"
  shows "ipc_inv (invokeSchedContext_Unbind sc s)"
  using inv_schedContext_unbindReply [OF inv_schedContext_unbindNtfn [OF inv_schedContext_unbindAllTCBs [OF assms]]]
  by (simp add: invokeSchedContext_Unbind_def)

lemma plain_setConsumed [simp]: "plain (setConsumed c t b s) u = plain s u"
  by (rule plain_frame) simp

lemma inv_invoke_Consumed:
  assumes "ipc_inv s" "plain s (ksCurThread s)"
  shows "ipc_inv (invokeSchedContext_Consumed sc call s)"
  unfolding invokeSchedContext_Consumed_def
  by (rule inv_set_plain) (use assms in \<open>simp_all add: plain_state_def\<close>)

lemma completeYieldTo_frame:
  "ts_type (tcbState (tcbs (schedContext_completeYieldTo t s) u)) = ts_type (tcbState (tcbs s u))"
  "yield_to (schedContext_completeYieldTo t s) u = (if t \<noteq> 0 \<and> u = t then 0 else yield_to s u)"
  "yield_from (schedContext_completeYieldTo t s) c = (if t \<noteq> 0 \<and> yield_to s t \<noteq> 0 \<and> c = yield_to s t then 0 else yield_from s c)"
  by (simp_all add: schedContext_completeYieldTo_def schedContext_cancelYieldTo_def upd_defs ipc_state_thread [OF ipc_consumed(3)])

lemma cur_setConsumed [simp]: "ksCurThread (setConsumed c t b s) = ksCurThread s"
  by (simp add: setConsumed_def schedContext_updateConsumed_def replyFromKernel_consumed_def mode_setTimeArg_def
      setMR_def setRegister_def set_user_word_def upd_defs Let_def case_prod_beta)

lemma cur_resume: "schedContext_resume c s = Some s' \<Longrightarrow> ksCurThread s' = ksCurThread s"
  by (auto simp: schedContext_resume_def dest!: core_postpone core_stateD(3) split: if_splits)

lemma inv_start_yield:
  assumes inv: "ipc_inv s" and "yield_to s t = 0" "yield_from s c = 0" "t \<noteq> 0" "c \<noteq> 0"
  shows "ipc_inv (upd_sc c (\<lambda>x. x\<lparr>scYieldFrom := t\<rparr>) (upd_tcb t (\<lambda>x. x\<lparr>tcbYieldTo := c\<rparr>) s))" (is "ipc_inv ?s")
proof (rule inv_yield [OF inv])
  show "paired (yield_to ?s) (yield_from ?s)"
    by (rule yield.bind_paired(2) [OF links_okD(4) [OF inv_links [OF inv]] assms(2-5)])
  show "wait_view ?s = wait_view s" by (simp add: wait_view_tcb wait_view_sc waits_on_def)
qed (simp_all add: upd_defs)

lemma inv_invoke_YieldTo:
  assumes inv: "ipc_inv s" "plain s (ksCurThread s)" "ksCurThread s \<noteq> 0" "yield_to s (ksCurThread s) = 0" "sc \<noteq> 0"
    and r: "invokeSchedContext_YieldTo sc call s = Some s'"
  shows "ipc_inv s'"
proof -
  define s1 where "s1 = (if scYieldFrom (scs s sc) \<noteq> 0 then schedContext_completeYieldTo (scYieldFrom (scs s sc)) s else s)"
  note p = pairedD [OF links_okD(4) [OF inv_links [OF inv(1)]] _ inv(5)]
  have i1: "ipc_inv s1" using inv(1) inv_completeYieldTo by (simp add: s1_def)
  have y1: "yield_to s1 (ksCurThread s) = 0" "yield_from s1 sc = 0" "plain s1 (ksCurThread s)"
    using inv(2,4) p [of "yield_from s sc"] inv(5) by (auto simp: s1_def completeYieldTo_frame plain_def)
  have k1: "ksCurThread s1 = ksCurThread s"
    by (simp add: s1_def schedContext_completeYieldTo_def schedContext_cancelYieldTo_def) (simp add: upd_defs)
  obtain s2 where s2: "schedContext_resume sc s1 = Some s2"
    using r by (auto simp: invokeSchedContext_YieldTo_def s1_def [symmetric] split: Option.bind_splits)
  note f = ipc_state_thread [OF ipc_resume(2) [OF s2]]
  have i2: "ipc_inv s2" "plain s2 (ksCurThread s)" "ksCurThread s2 = ksCurThread s"
    using i1 y1(3) inv_resume [OF s2] plain_frame [OF ipc_resume(2) [OF s2]] k1 cur_resume [OF s2] by simp_all
  let ?t = "scTcb (scs s2 sc)"
  have run: "ipc_inv (setThreadState (ksCurThread s) ThreadState_Running (setConsumed sc (ksCurThread s) call s3))"
    if "ipc_state s3 = ipc_state s2" for s3
    by (rule inv_set_plain) (use i2 inv_frame [OF that] plain_frame [OF that] in \<open>simp_all add: plain_state_def\<close>)
  have y2: "ipc_inv (upd_sc sc (\<lambda>x. x\<lparr>scYieldFrom := ksCurThread s\<rparr>) (upd_tcb (ksCurThread s) (\<lambda>x. x\<lparr>tcbYieldTo := sc\<rparr>) s2))"
    by (rule inv_start_yield) (use i2 y1 inv(3,5) in \<open>simp_all add: f\<close>)
  have k: "ksCurThread (tcbSchedEnqueue u (tcbSchedDequeue v x)) = ksCurThread x" "ksCurThread (tcbSchedDequeue v x) = ksCurThread x" for u v x
    using core_stateD(3) [OF core_sched_ops(1)] core_stateD(3) [OF core_sched_ops(3)] by metis+
  have "ksCurThread (upd_tcb a f x) = ksCurThread x" "ksCurThread (upd_sc a g x) = ksCurThread x" for a f g x
    by (simp_all add: upd_defs)
  then show ?thesis using r y2 run [of s2] run [of "tcbSchedEnqueue ?t (tcbSchedDequeue ?t s2)"]
    by (auto simp: invokeSchedContext_YieldTo_def s1_def [symmetric] s2 Let_def i2(3) k split: if_splits)
qed

lemma inv_decodeSchedContextInvocation:
  assumes inv: "ipc_inv s" "plain s (ksCurThread s)" "ksCurThread s \<noteq> 0" "sc \<noteq> 0"
    and cap: "cap_nonnull (cte_cap (ctes s (current_extra_caps s 0)))"
    and r: "decodeSchedContextInvocation label sc call s = Some (e, s')"
  shows "ipc_inv s'"
proof -
  let ?s = "setThreadState (ksCurThread s) ThreadState_Restart s"
  have i: "ipc_inv ?s" "plain ?s (ksCurThread ?s)" using inv_restart_cur(1) [OF inv(1,2)] by (simp_all add: plain_set plain_state_def)
  have y: "ipc_inv s2" if "decodeSchedContext_YieldTo sc call s = Some (e, s2)" for s2
    using that inv_invoke_YieldTo [OF i _ _ inv(4), of call] inv(1,3)
    by (auto simp: decodeSchedContext_YieldTo_def Let_def syscall_fail_def split: if_splits)
  show ?thesis
    using r inv(1) inv_invoke_Consumed [OF i] inv_decode_Bind [OF inv(1,2,4) cap]
      inv_decode_UnbindObject [OF inv(1,2,4) cap] inv_invoke_Unbind [OF i(1) inv(4)] y
    by (cases label) (auto simp: decodeSchedContextInvocation_def syscall_fail_def split: if_splits)
qed

section \<open>Time\<close>

lemma ipc_round_robin:
  "ipc_state (upd_sc c (\<lambda>x. set_refill_tail (f x) x) s) = ipc_state s"
  "ipc_state (upd_sc c (\<lambda>x. set_refill_head (f x) x) s) = ipc_state s"
  "ipc_state (upd_sc c (\<lambda>x. x\<lparr>scConsumed := h x\<rparr>) s) = ipc_state s"
  by (rule ipc_upd_sc, simp)+

lemma ipc_charge: "charge_current u s = Some s' \<Longrightarrow> ipc_state s' = ipc_state s"
  "commitTime s = Some s' \<Longrightarrow> ipc_state s' = ipc_state s"
  by (auto simp: charge_current_def commitTime_def Let_def ipc_round_robin dest!: ipc_sc_checks(2)
      split: if_splits Option.bind_splits)

lemma inv_endTimeslice:
  assumes "ipc_inv s" "plain s (ksCurThread s)" "ksCurThread s \<noteq> 0" "endTimeslice b s = Some s'"
  shows "ipc_inv s'"
proof -
  have "ipc_inv s'" if "handleTimeout (ksCurThread s) (s\<lparr>current_fault := f\<rparr>) = Some s'" for f
    by (rule inv_handleTimeout [OF _ _ assms(3) that])
      (use assms(1,2) in \<open>simp_all add: inv_frame [OF ipc_globals(5)] plain_frame [OF ipc_globals(5)]\<close>)
  then show ?thesis using assms(1,4) by (auto simp: endTimeslice_def Let_def inv_postpone split: if_splits)
qed

lemma cur_charge: "charge_current u s = Some s' \<Longrightarrow> ksCurThread s' = ksCurThread s"
  by (auto simp: charge_current_def cur_refill_budget_check_def upd_defs Let_def split: if_splits Option.bind_splits)

lemma inv_chargeBudget:
  assumes "ipc_inv s" "plain s (ksCurThread s)" "ksCurThread s \<noteq> 0" "chargeBudget u b s = Some s'"
  shows "ipc_inv s'"
proof -
  obtain s1 where s1: "charge_current u s = Some s1" using assms(4) by (auto simp: chargeBudget_def split: Option.bind_splits)
  let ?s = "s1\<lparr>ksConsumed := 0\<rparr>"
  have f: "ipc_state ?s = ipc_state s" using ipc_charge(1) [OF s1] by simp
  have i: "ipc_inv ?s" "plain ?s (ksCurThread ?s)" "ksCurThread ?s \<noteq> 0"
    using assms(1-3) inv_frame [OF f] plain_frame [OF f] cur_charge [OF s1] by simp_all
  show ?thesis using assms(4) i(1) inv_endTimeslice [OF i] inv_frame [OF ipc_globals(2)]
    by (auto simp: chargeBudget_def s1 Let_def split: if_splits Option.bind_splits)
qed

lemma inv_checkBudget:
  assumes "ipc_inv s" "plain s (ksCurThread s)" "ksCurThread s \<noteq> 0" "checkBudget s = Some (b, s')"
  shows "ipc_inv s'"
  using assms(4) inv_chargeBudget [OF assms(1-3)] assms(1) by (auto simp: checkBudget_def split: if_splits)

lemma inv_checkBudgetRestart:
  assumes "ipc_inv s" "plain s (ksCurThread s)" "ksCurThread s \<noteq> 0" "checkBudgetRestart s = Some (b, s')"
  shows "ipc_inv s'"
proof -
  obtain b1 s1 where s1: "checkBudget s = Some (b1, s1)"
    "s' = (if \<not> b1 \<and> isRunnable (tcbs s1 (ksCurThread s1)) then setThreadState (ksCurThread s1) ThreadState_Restart s1 else s1)"
    using assms(4) by (auto simp: checkBudgetRestart_def split: Option.bind_splits)
  note i = inv_checkBudget [OF assms(1-3) s1(1)]
  have "plain s1 (ksCurThread s1)" if "isRunnable (tcbs s1 (ksCurThread s1))"
    using that by (auto simp: isRunnable_def plain_def plain_state_def split: tsType.splits)
  then show ?thesis using i inv_restart_cur(1) [OF i] s1(2) by simp
qed

lemma ipc_configure_refills: "ipc_state (configure_refills c t b p m s) = ipc_state s"
  by (simp add: configure_refills_def ipc_upd_sc)

lemma ipc_ConfigureFlags:
  "invokeSchedControl_ConfigureFlags c b p m badge flags s = Some s' \<Longrightarrow> ipc_state s' = ipc_state s"
  by (auto simp: invokeSchedControl_ConfigureFlags_def Let_def ipc_upd_sc ipc_configure_refills
      dest!: ipc_resume(2) ipc_charge(2) split: if_splits Option.bind_splits)

lemma inv_decodeSchedControlInvocation:
  assumes "ipc_inv s" "plain s (ksCurThread s)" "decodeSchedControlInvocation label len buffer s = Some (e, s')"
  shows "ipc_inv s'"
proof -
  have c: "ipc_inv s2" if "invokeSchedControl_ConfigureFlags c b p m badge flags (setThreadState (ksCurThread s) ThreadState_Restart s) = Some s2"
    for c b p m badge flags s2 using inv_frame [OF ipc_ConfigureFlags [OF that]] inv_restart_cur(1) [OF assms(1,2)] by simp
  have "ipc_inv s'" if "decodeSchedControl_ConfigureFlags len buffer s = Some (e, s')"
    using that assms(1) c by (auto simp: decodeSchedControl_ConfigureFlags_def budget_range_error_def syscall_fail_def Let_def split: if_splits)
  then show ?thesis using assms(1,3)
    by (cases label) (auto simp: decodeSchedControlInvocation_def syscall_fail_def)
qed

end
