(* ===== verification/IpcCancel.thy ===== *)
theory IpcCancel
  imports IpcOps
begin

text \<open>
  Operations that wake all threads waiting on an object, or those with a badge: deleting an
  endpoint or notification, and revoking a badged cap. They return, keep the invariant
  of communication, and wake exactly these threads.
\<close>

section \<open>What waking a thread leaves alone\<close>

definition wake_frame :: "kstate \<Rightarrow> kstate \<Rightarrow> bool" where
  "wake_frame s s' \<longleftrightarrow> ksCurTime s' = ksCurTime s \<and> (refills_usable s \<longrightarrow> refills_usable s') \<and>
     (\<forall>u. tcbFault (tcbs s' u) = tcbFault (tcbs s u) \<and> tcbEPNext (tcbs s' u) = tcbEPNext (tcbs s u) \<and>
       tcbEPPrev (tcbs s' u) = tcbEPPrev (tcbs s u) \<and> tcbPriority (tcbs s' u) = tcbPriority (tcbs s u) \<and>
       blockingIPCBadge (tcbState (tcbs s' u)) = blockingIPCBadge (tcbState (tcbs s u)) \<and>
       blockingObject (tcbState (tcbs s' u)) = blockingObject (tcbState (tcbs s u)))"

lemma wake_frame_trans: "wake_frame s s1 \<Longrightarrow> wake_frame s1 s2 \<Longrightarrow> wake_frame s s2"
  by (simp add: wake_frame_def)

lemma wake_frame_refl [simp]: "wake_frame s s"
  by (simp add: wake_frame_def)

lemma wake_frame_core: "core_state s' = core_state s \<Longrightarrow> wake_frame s s'"
proof -
  assume a: "core_state s' = core_state s"
  have "tcbFault (tcbs s' u) = tcbFault (tcbs s u) \<and> tcbEPNext (tcbs s' u) = tcbEPNext (tcbs s u) \<and>
       tcbEPPrev (tcbs s' u) = tcbEPPrev (tcbs s u) \<and> tcbPriority (tcbs s' u) = tcbPriority (tcbs s u) \<and>
       blockingIPCBadge (tcbState (tcbs s' u)) = blockingIPCBadge (tcbState (tcbs s u)) \<and>
       blockingObject (tcbState (tcbs s' u)) = blockingObject (tcbState (tcbs s u))" for u
    using arg_cong [OF core_stateD(14) [OF a, of u], of tcbFault] arg_cong [OF core_stateD(14) [OF a, of u], of tcbEPNext]
      arg_cong [OF core_stateD(14) [OF a, of u], of tcbEPPrev] arg_cong [OF core_stateD(14) [OF a, of u], of tcbPriority]
      arg_cong [OF core_stateD(14) [OF a, of u], of "\<lambda>t. blockingIPCBadge (tcbState t)"]
      arg_cong [OF core_stateD(14) [OF a, of u], of "\<lambda>t. blockingObject (tcbState t)"]
    by (simp add: core_tcb_def)
  then show ?thesis using core_stateD(1,7) [OF a] by (simp add: wake_frame_def refills_usable_def)
qed

lemma wake_frame_type: "wake_frame s (set_tcbState t (\<lambda>st. st\<lparr>ts_type := ts\<rparr>) s)"
  by (simp add: wake_frame_def setThreadState_tcb refills_usable_def) (simp add: set_tcbState_def upd_tcb_def)

lemma wake_frame_setThreadState: "wake_frame s (setThreadState t ts s)"
  using wake_frame_trans [OF wake_frame_type wake_frame_core [OF core_setThreadState]] .

lemma wake_frame_drop: "wake_frame s (drop_reply t s)"
proof -
  have "wake_frame s (set_replyTCB r x s)" for r x
    by (simp add: wake_frame_def refills_usable_def) (simp add: set_replyTCB_def upd_reply_def)
  then show ?thesis using wake_frame_trans [OF _ wake_frame_setThreadState] by (simp add: drop_reply_def reply_unlink_def)
qed

lemma unblock_returns:
  assumes "refills_usable s" "ksCurTime s < MAX_RELEASE_TIME"
  obtains s' where "unblock_sporadic t s = Some s'" "wake_frame s s'" "tcbs s' = tcbs s"
proof (cases "sc_sporadic (tcbSchedContext (tcbs s t)) s \<and> tcbSchedContext (tcbs s t) \<noteq> ksCurSC s")
  case True
  obtain s' where s': "sc_refill_unblock_check (tcbSchedContext (tcbs s t)) s = Some s'" "sc_erase s' = sc_erase s" "refills_usable s'"
    by (rule sc_refill_unblock_check_returns [OF assms])
  then have "wake_frame s s'" using sc_eraseD(1,6) [OF s'(2)] by (simp add: wake_frame_def)
  then show thesis using that True s'(1) sc_eraseD(1) [OF s'(2)] by (simp add: unblock_sporadic_def)
next
  case False
  then show thesis using that by (auto simp: unblock_sporadic_def)
qed

definition woken_state :: "tcb \<Rightarrow> tsType" where
  "woken_state t = (if tcbFault t = NullFault then ThreadState_Restart else ThreadState_Inactive)"

lemma plain_woken: "plain_state (woken_state t)"
  by (simp add: woken_state_def plain_state_def)

lemma type_possibleSwitchTo: "ts_type (tcbState (tcbs (possibleSwitchTo t s) u)) = ts_type (tcbState (tcbs s u))"
  by (rule ipc_state_thread(1) [OF ipc_queue_ops(6)])

lemma type_set: "ts_type (tcbState (tcbs (setThreadState t ts s) u)) = (if u = t then ts else ts_type (tcbState (tcbs s u)))"
  by (simp add: ipc_state_thread(1) [OF ipc_setThreadState] setThreadState_tcb)

text \<open>Waking one thread of a detached queue.\<close>

lemma wake_one:
  assumes "refills_usable s" "ksCurTime s < MAX_RELEASE_TIME" "ipc_inv_but (insert t S) s" "thread_reply s t = 0"
  obtains s' where "restart_thread_if_no_fault t s = Some s'" "wake_frame s s'" "ipc_inv_but (S - {t}) s'" "eps s' = eps s"
    "\<And>u. ts_type (tcbState (tcbs s' u)) = (if u = t then woken_state (tcbs s t) else ts_type (tcbState (tcbs s u)))"
proof (cases "tcbFault (tcbs s t) = NullFault")
  case True
  let ?s = "setThreadState t ThreadState_Restart s"
  have f: "wake_frame s ?s" by (rule wake_frame_setThreadState)
  obtain s1 where s1: "unblock_sporadic t ?s = Some s1" "wake_frame ?s s1" "tcbs s1 = tcbs ?s"
    by (rule unblock_returns [of ?s t]) (use f assms(1,2) in \<open>simp_all add: wake_frame_def\<close>)
  have "ipc_inv_but (S - {t}) ?s" by (rule inv_setThreadState [OF assms(3,4)]) (simp add: plain_state_def)
  then have "ipc_inv_but (S - {t}) (possibleSwitchTo t s1)" using inv_unblock_sporadic [OF s1(1)] by simp
  moreover have "wake_frame s (possibleSwitchTo t s1)"
    using wake_frame_trans [OF wake_frame_trans [OF f s1(2)] wake_frame_core [OF core_reschedule(2)]] .
  moreover have "restart_thread_if_no_fault t s = Some (possibleSwitchTo t s1)"
    using True s1(1) by (simp add: restart_thread_if_no_fault_def)
  moreover have "eps (possibleSwitchTo t s1) = eps s"
    by (simp add: ipc_stateD(2) [OF ipc_queue_ops(6)] ipc_stateD(2) [OF ipc_sc_checks(3) [OF s1(1)]] ipc_stateD(2) [OF ipc_setThreadState])
  ultimately show thesis using that True by (simp add: type_possibleSwitchTo s1(3) type_set woken_state_def)
next
  case False
  have "ipc_inv_but (S - {t}) (setThreadState t ThreadState_Inactive s)"
    by (rule inv_setThreadState [OF assms(3,4)]) (simp add: plain_state_def)
  then show thesis using that False wake_frame_setThreadState
    by (simp add: restart_thread_if_no_fault_def type_set woken_state_def ipc_stateD(2) [OF ipc_setThreadState])
qed

section \<open>Waking all threads\<close>

lemma dseg_next: "dseg nxt prv b (x # xs) 0 \<Longrightarrow> nxt x = hd_or 0 xs"
  by simp

lemma cancelAllIPC_loop_wakes:
  assumes "dseg (eNext s) (ePrev s) b xs 0" "distinct xs" "0 \<notin> set xs" "ipc_inv_but (set xs) s"
    "\<And>x. x \<in> set xs \<Longrightarrow> \<not> awaits_reply s x" "refills_usable s" "ksCurTime s < MAX_RELEASE_TIME"
  shows "\<exists>s'. cancelAllIPC_loop (hd_or 0 xs) s = Some s' \<and> ipc_inv s' \<and> wake_frame s s' \<and>
     (\<forall>u. ts_type (tcbState (tcbs s' u)) = (if u \<in> set xs then woken_state (tcbs s u) else ts_type (tcbState (tcbs s u))))"
  using assms
proof (induction xs arbitrary: b s)
  case Nil
  then show ?case by (simp add: cancelAllIPC_loop.simps)
next
  case (Cons x xs)
  have x: "x \<noteq> 0" "x \<notin> set xs" "ipc_inv_but (insert x (set xs)) s" "\<not> awaits_reply s x" using Cons.prems by auto
  define s1 where "s1 = drop_reply x s"
  note d = inv_drop_reply [OF x(3,4,1), folded s1_def] and f1 = wake_frame_drop [of s x, folded s1_def]
  have u1: "refills_usable s1" "ksCurTime s1 < MAX_RELEASE_TIME" using f1 Cons.prems(6,7) by (simp_all add: wake_frame_def)
  obtain s2 where s2: "restart_thread_if_no_fault x s1 = Some s2" "wake_frame s1 s2" "ipc_inv_but (set xs - {x}) s2"
    "\<And>u. ts_type (tcbState (tcbs s2 u)) = (if u = x then woken_state (tcbs s1 x) else ts_type (tcbState (tcbs s1 u)))"
    by (rule wake_one [OF u1 d]) blast
  note f2 = wake_frame_trans [OF f1 s2(2)]
  have t2: "ts_type (tcbState (tcbs s2 u)) = (if u = x then woken_state (tcbs s x) else ts_type (tcbState (tcbs s u)))" for u
    using s2(4) f1 drop_reply_type(1) [of u x s, folded s1_def] by (simp add: woken_state_def wake_frame_def)
  have "\<exists>s'. cancelAllIPC_loop (hd_or 0 xs) s2 = Some s' \<and> ipc_inv s' \<and> wake_frame s2 s' \<and>
     (\<forall>u. ts_type (tcbState (tcbs s' u)) = (if u \<in> set xs then woken_state (tcbs s2 u) else ts_type (tcbState (tcbs s2 u))))"
  proof (rule Cons.IH)
    have "dseg (eNext s2) (ePrev s2) x xs 0 = dseg (eNext s) (ePrev s) x xs 0"
      by (rule dseg_cong) (use f2 in \<open>simp add: wake_frame_def\<close>)
    then show "dseg (eNext s2) (ePrev s2) x xs 0" using Cons.prems(1) by simp
    show "ipc_inv_but (set xs) s2" using s2(3) x(2) by simp
    fix y assume "y \<in> set xs"
    then show "\<not> awaits_reply s2 y" using Cons.prems(5) [of y] x(2) by (auto simp: awaits_reply_def t2)
  qed (use Cons.prems f2 in \<open>simp_all add: wake_frame_def\<close>)
  then obtain s' where s': "cancelAllIPC_loop (hd_or 0 xs) s2 = Some s'" "ipc_inv s'" "wake_frame s2 s'"
    "\<And>u. ts_type (tcbState (tcbs s' u)) = (if u \<in> set xs then woken_state (tcbs s2 u) else ts_type (tcbState (tcbs s2 u)))" by blast
  have "tcbEPNext (tcbs s2 x) = hd_or 0 xs" using f2 dseg_next [OF Cons.prems(1)] by (simp add: wake_frame_def)
  then have "cancelAllIPC_loop x s = Some s'"
    using x(1) s2(1) s'(1) by (subst cancelAllIPC_loop.simps) (simp add: Let_def drop_reply_def [symmetric] s1_def)
  moreover have "ts_type (tcbState (tcbs s' u)) = (if u \<in> set (x # xs) then woken_state (tcbs s u) else ts_type (tcbState (tcbs s u)))" for u
    using s'(4) [of u] t2 [of u] x(2) f2 by (auto simp: woken_state_def wake_frame_def)
  ultimately show ?case using s'(2) wake_frame_trans [OF f2 s'(3)] by auto
qed

lemma cancelAllSignals_loop_wakes:
  assumes "dseg (eNext s) (ePrev s) b xs 0" "distinct xs" "0 \<notin> set xs" "ipc_inv_but (set xs) s"
    "\<And>x. x \<in> set xs \<Longrightarrow> thread_reply s x = 0" "refills_usable s" "ksCurTime s < MAX_RELEASE_TIME"
  shows "\<exists>s'. cancelAllSignals_loop (hd_or 0 xs) s = Some s' \<and> ipc_inv s' \<and> wake_frame s s' \<and>
     (\<forall>u. ts_type (tcbState (tcbs s' u)) = (if u \<in> set xs then ThreadState_Restart else ts_type (tcbState (tcbs s u))))"
  using assms
proof (induction xs arbitrary: b s)
  case Nil
  then show ?case by (simp add: cancelAllSignals_loop.simps)
next
  case (Cons x xs)
  have x: "x \<noteq> 0" "x \<notin> set xs" "ipc_inv_but (insert x (set xs)) s" "thread_reply s x = 0" using Cons.prems by auto
  let ?s = "setThreadState x ThreadState_Restart s"
  have f1: "wake_frame s ?s" by (rule wake_frame_setThreadState)
  obtain s1 where s1: "unblock_sporadic x ?s = Some s1" "wake_frame ?s s1" "tcbs s1 = tcbs ?s"
    by (rule unblock_returns [of ?s x]) (use f1 Cons.prems(6,7) in \<open>simp_all add: wake_frame_def\<close>)
  let ?s2 = "possibleSwitchTo x s1"
  have f2: "wake_frame s ?s2"
    using wake_frame_trans [OF wake_frame_trans [OF f1 s1(2)] wake_frame_core [OF core_reschedule(2)]] .
  have "ipc_inv_but (set xs - {x}) ?s" by (rule inv_setThreadState [OF x(3,4)]) (simp add: plain_state_def)
  then have i2: "ipc_inv_but (set xs) ?s2" using inv_unblock_sporadic [OF s1(1)] x(2) by simp
  have t2: "ts_type (tcbState (tcbs ?s2 u)) = (if u = x then ThreadState_Restart else ts_type (tcbState (tcbs s u)))" for u
    by (simp add: type_possibleSwitchTo s1(3) type_set)
  have "\<exists>s'. cancelAllSignals_loop (hd_or 0 xs) ?s2 = Some s' \<and> ipc_inv s' \<and> wake_frame ?s2 s' \<and>
     (\<forall>u. ts_type (tcbState (tcbs s' u)) = (if u \<in> set xs then ThreadState_Restart else ts_type (tcbState (tcbs ?s2 u))))"
  proof (rule Cons.IH [OF _ _ _ i2])
    have "dseg (eNext ?s2) (ePrev ?s2) x xs 0 = dseg (eNext s) (ePrev s) x xs 0"
      by (rule dseg_cong) (use f2 in \<open>simp add: wake_frame_def\<close>)
    then show "dseg (eNext ?s2) (ePrev ?s2) x xs 0" using Cons.prems(1) by simp
    fix y assume y: "y \<in> set xs"
    then have "thread_reply ?s2 y = thread_reply s y"
      using x(2) by (auto simp: reply_of_def ipc_state_thread [OF ipc_queue_ops(6)] s1(3)
          ipc_state_thread [OF ipc_setThreadState] setThreadState_tcb)
    then show "thread_reply ?s2 y = 0" using Cons.prems(5) y by simp
  qed (use Cons.prems f2 in \<open>simp_all add: wake_frame_def\<close>)
  then obtain s' where s': "cancelAllSignals_loop (hd_or 0 xs) ?s2 = Some s'" "ipc_inv s'" "wake_frame ?s2 s'"
    "\<And>u. ts_type (tcbState (tcbs s' u)) = (if u \<in> set xs then ThreadState_Restart else ts_type (tcbState (tcbs ?s2 u)))" by blast
  have "tcbEPNext (tcbs ?s2 x) = hd_or 0 xs" using f2 dseg_next [OF Cons.prems(1)] by (simp add: wake_frame_def)
  then have "cancelAllSignals_loop x s = Some s'"
    using x(1) s1(1) s'(1) by (subst cancelAllSignals_loop.simps) (simp add: Let_def)
  moreover have "ts_type (tcbState (tcbs s' u)) = (if u \<in> set (x # xs) then ThreadState_Restart else ts_type (tcbState (tcbs s u)))" for u
    using s'(4) [of u] t2 [of u] by (cases "u = x") simp_all
  ultimately show ?case using s'(2) wake_frame_trans [OF f2 s'(3)] by auto
qed

text \<open>Detaching the queue of an object.\<close>

definition obj_reset :: "wait_obj \<Rightarrow> kstate \<Rightarrow> kstate" where
  "obj_reset w s = obj_set_queue w \<lparr>tcbq_head = 0, tcbq_end = 0\<rparr> (obj_idle w s)"

lemma obj_reset_alt:
  "ep_reset p s = obj_reset (Ep p) s"
  "upd_ntfn n (\<lambda>x. x\<lparr>ntfnQueue_tail := 0\<rparr>) (upd_ntfn n (\<lambda>x. x\<lparr>ntfnQueue_head := 0\<rparr>)
     (notification_ptr_set_state n NtfnState_Idle s)) = obj_reset (Ntfn n) s"
  by (simp_all add: obj_reset_def ep_reset_def obj_set_defs upd_defs)

lemma obj_reset_fields [simp]:
  "tcbs (obj_reset w s) = tcbs s" "scs (obj_reset w s) = scs s" "replies (obj_reset w s) = replies s"
  "waiters (obj_reset w s) = waiters s"
  "ntfnBoundTCB (ntfns (obj_reset w s) n) = ntfnBoundTCB (ntfns s n)"
  "ntfnSchedContext (ntfns (obj_reset w s) n) = ntfnSchedContext (ntfns s n)"
  by (simp_all add: obj_reset_def)

lemma inv_reset:
  assumes "ipc_inv s"
  shows "ipc_inv_but (waiters s w) (obj_reset w s)"
proof -
  let ?W = "waiters s w" and ?s = "obj_reset w s"
  have ok: "wait_ok s" "links_ok s" using assms by (simp_all add: ipc_inv_iff)
  have "wait_ok (idle_set ?W ?s)"
  proof (rule wait_change [where w = w, OF ok(1)])
    have "ep_queue x \<lparr>tcbq_head = 0, tcbq_end = 0\<rparr> []" for x by (simp add: ep_queue_def)
    then show "queue_of (idle_set ?W ?s) (obj_queue (idle_set ?W ?s) w) (waiters (idle_set ?W ?s) w)"
      by (simp add: queue_of_def prio_sorted_def) (simp add: obj_reset_def)
    show "obj_ok (idle_set ?W ?s) w" using obj_ok_idle_self [of ?W w s] by (cases w) (simp_all add: obj_reset_def obj_set_defs upd_defs)
  next
    fix v assume v: "v \<noteq> w"
    then have d: "waiters s v - ?W = waiters s v" by (auto simp: waiters_def)
    have "obj_ok (idle_set ?W ?s) v = obj_ok ?s v"
    proof (rule obj_ok_same)
      fix t assume "t \<in> waiters ?s v"
      then have "t \<notin> ?W" using d by auto
      then show "ts_type (tcbState (tcbs (idle_set ?W ?s) t)) = ts_type (tcbState (tcbs ?s t))" by (simp add: type_idle_set)
    qed (simp_all add: d)
    also have "\<dots> = obj_ok s v" using v by (simp add: obj_reset_def obj_ok_other)
    finally show "obj_queue (idle_set ?W ?s) v = obj_queue s v \<and> waiters (idle_set ?W ?s) v = waiters s v \<and>
        obj_ok (idle_set ?W ?s) v = obj_ok s v" using v d by (simp add: obj_reset_def)
  qed simp
  moreover have "link_view ?s = link_view s" by (rule link_viewI) (simp_all add: awaits_reply_def)
  ultimately show ?thesis using links_ok_cong ok(2) unfolding ipc_inv_but_def by blast
qed

lemma reset_queue:
  assumes "ipc_inv s"
  obtains xs where "ep_queue s (obj_queue s w) xs" "set xs = waiters s w" "prio_sorted s xs"
    "dseg (eNext (obj_reset w s)) (ePrev (obj_reset w s)) 0 xs 0" "distinct xs" "0 \<notin> set xs"
proof -
  obtain xs where xs: "ep_queue s (obj_queue s w) xs" "set xs = waiters s w" "prio_sorted s xs"
    using wait_ok_at(1) [of s w] assms by (auto simp: ipc_inv_iff queue_of_def)
  then show thesis using that [OF xs] by (simp add: ep_queue_def dlist_def)
qed

lemma wake_frame_reset: "wake_frame s (obj_reset w s)"
  by (cases w) (simp_all add: wake_frame_def refills_usable_def obj_reset_def obj_set_defs upd_defs)

lemma wake_reschedule:
  "wake_frame s (rescheduleRequired s)"
  "ts_type (tcbState (tcbs (rescheduleRequired s) u)) = ts_type (tcbState (tcbs s u))"
  by (rule wake_frame_core [OF core_reschedule(1)], rule ipc_state_thread(1) [OF ipc_queue_ops(5)])

lemma cancelAllIPC_wakes:
  assumes "ipc_inv s" "refills_usable s" "ksCurTime s < MAX_RELEASE_TIME"
  obtains s' where "cancelAllIPC p s = Some s'" "ipc_inv s'" "wake_frame s s'"
    "\<And>u. ts_type (tcbState (tcbs s' u)) = (if u \<in> waiters s (Ep p) then woken_state (tcbs s u) else ts_type (tcbState (tcbs s u)))"
proof (cases "ep_state (eps s p) = EPState_Idle")
  case True
  then have "waiters s (Ep p) = {}" using wait_ok_at(2) [of s "Ep p"] assms(1) by (simp add: ipc_inv_iff)
  then show thesis using that True assms(1) by (simp add: cancelAllIPC_def)
next
  case False
  obtain xs where xs: "ep_queue s (obj_queue s (Ep p)) xs" "set xs = waiters s (Ep p)" "prio_sorted s xs"
    "dseg (eNext (obj_reset (Ep p) s)) (ePrev (obj_reset (Ep p) s)) 0 xs 0" "distinct xs" "0 \<notin> set xs"
    by (rule reset_queue [OF assms(1), of "Ep p"])
  have hd: "epQueue_head (eps s p) = hd_or 0 xs" using xs(1) by (simp add: ep_queue_def ep_ptr_get_queue_def)
  have f: "wake_frame s (obj_reset (Ep p) s)" by (rule wake_frame_reset)
  have na: "\<not> awaits_reply (obj_reset (Ep p) s) x" if "x \<in> set xs" for x
    using waiting_not_awaiting [of s x "Ep p"] that xs(2) by (simp add: waiters_iff awaits_reply_def)
  obtain s1 where s1: "cancelAllIPC_loop (hd_or 0 xs) (obj_reset (Ep p) s) = Some s1" "ipc_inv s1" "wake_frame (obj_reset (Ep p) s) s1"
    "\<And>u. ts_type (tcbState (tcbs s1 u)) = (if u \<in> set xs then woken_state (tcbs s u) else ts_type (tcbState (tcbs s u)))"
    using cancelAllIPC_loop_wakes [OF xs(4,5,6) _ na] inv_reset [OF assms(1), of "Ep p"] assms(2,3) f xs(2)
    by (auto simp: wake_frame_def)
  have "cancelAllIPC p s = Some (rescheduleRequired s1)"
    using False s1(1) by (cases "ep_state (eps s p)") (simp_all add: cancelAllIPC_def hd obj_reset_alt)
  then show thesis
    using that s1 wake_frame_trans [OF wake_frame_trans [OF f s1(3)] wake_reschedule(1)] xs(2) by (simp add: wake_reschedule(2))
qed

lemma cancelAllSignals_wakes:
  assumes "ipc_inv s" "refills_usable s" "ksCurTime s < MAX_RELEASE_TIME"
  obtains s' where "cancelAllSignals n s = Some s'" "ipc_inv s'" "wake_frame s s'"
    "\<And>u. ts_type (tcbState (tcbs s' u)) = (if u \<in> waiters s (Ntfn n) then ThreadState_Restart else ts_type (tcbState (tcbs s u)))"
proof (cases "ntfn_state (ntfns s n) = NtfnState_Waiting")
  case False
  then have "waiters s (Ntfn n) = {}" using ntfn_waiting [OF assms(1)] by simp
  then show thesis using that False assms(1) by (simp add: cancelAllSignals_def)
next
  case True
  obtain xs where xs: "ep_queue s (obj_queue s (Ntfn n)) xs" "set xs = waiters s (Ntfn n)" "prio_sorted s xs"
    "dseg (eNext (obj_reset (Ntfn n) s)) (ePrev (obj_reset (Ntfn n) s)) 0 xs 0" "distinct xs" "0 \<notin> set xs"
    by (rule reset_queue [OF assms(1), of "Ntfn n"])
  have hd: "ntfnQueue_head (ntfns s n) = hd_or 0 xs" using xs(1) by (simp add: ep_queue_def ntfn_ptr_get_queue_def)
  have f: "wake_frame s (obj_reset (Ntfn n) s)" by (rule wake_frame_reset)
  have na: "thread_reply (obj_reset (Ntfn n) s) x = 0" if "x \<in> set xs" for x
    using waiter_ntfn_reply [of x s n] that xs(2) by simp
  obtain s1 where s1: "cancelAllSignals_loop (hd_or 0 xs) (obj_reset (Ntfn n) s) = Some s1" "ipc_inv s1" "wake_frame (obj_reset (Ntfn n) s) s1"
    "\<And>u. ts_type (tcbState (tcbs s1 u)) = (if u \<in> set xs then ThreadState_Restart else ts_type (tcbState (tcbs s u)))"
    using cancelAllSignals_loop_wakes [OF xs(4,5,6) _ na] inv_reset [OF assms(1), of "Ntfn n"] assms(2,3) f xs(2)
    by (auto simp: wake_frame_def)
  have "cancelAllSignals n s = Some (rescheduleRequired s1)"
    using True s1(1) by (simp add: cancelAllSignals_def hd Let_def obj_reset_alt)
  then show thesis
    using that s1 wake_frame_trans [OF wake_frame_trans [OF f s1(3)] wake_reschedule(1)] xs(2) by (simp add: wake_reschedule(2))
qed

section \<open>Waking the senders with a badge\<close>

text \<open>The links of threads that are in no queue of the invariant play no role.\<close>

lemma inv_links_only:
  assumes inv: "ipc_inv_but S s" and l: "ep_links_only W s s'" and W: "\<And>t. t \<in> W \<Longrightarrow> t \<in> S \<or> waits_on (tcbs s t) = None"
  shows "ipc_inv_but S s'"
proof -
  note f = ep_links_only_thread [OF l] ep_links_only_state [OF l] ep_links_only_waiters [OF l]
  have ok: "wait_ok (idle_set S s)" "links_ok s" using inv by (simp_all add: ipc_inv_but_def)
  have o: "obj_queue s' v = obj_queue s v" for v by (cases v) (simp_all add: obj_set_defs f)
  have k: "obj_ok (idle_set S s') v = obj_ok (idle_set S s) v" for v
  proof (rule obj_ok_same)
    show "ts_type (tcbState (tcbs (idle_set S s') t)) = ts_type (tcbState (tcbs (idle_set S s) t))" for t
      by (simp add: idle_set_def f)
  qed (simp_all add: f)
  have "queue_of s' q (waiters s v - S) = queue_of s q (waiters s v - S)" for q v
  proof (rule queue_of_cong)
    fix t assume "t \<in> waiters s v - S"
    then have "t \<notin> W" using W [of t] by (auto simp: waiters_def)
    then have "tcbs s' t = tcbs s t" using l by (simp add: ep_links_only_def)
    then show "tcbEPNext (tcbs s' t) = tcbEPNext (tcbs s t) \<and> tcbEPPrev (tcbs s' t) = tcbEPPrev (tcbs s t) \<and>
        tcbPriority (tcbs s' t) = tcbPriority (tcbs s t)" by simp
  qed
  then have "wait_ok (idle_set S s')" using ok(1) unfolding wait_ok_def k by (simp add: o f)
  moreover have "link_view s' = link_view s"
  proof (rule link_viewI)
    show "thread_reply s' t = thread_reply s t" "awaits_reply s' t = awaits_reply s t" for t
      by (simp_all add: reply_of_def awaits_reply_def f)
  qed (simp_all add: f)
  ultimately show ?thesis using links_ok_cong ok(2) unfolding ipc_inv_but_def by blast
qed

lemma wake_frame_links:
  assumes "ep_links_only W s s'"
  shows "ksCurTime s' = ksCurTime s" "refills_usable s' = refills_usable s" "tcbFault (tcbs s' u) = tcbFault (tcbs s u)"
    "tcbPriority (tcbs s' u) = tcbPriority (tcbs s u)"
proof -
  have e: "s' = s\<lparr>tcbs := tcbs s'\<rparr>" using assms unfolding ep_links_only_def by blast
  show "ksCurTime s' = ksCurTime s" by (subst e, simp)
  show "refills_usable s' = refills_usable s" by (simp add: refills_usable_def ep_links_only_state(3) [OF assms])
  have "tcbs s u = (tcbs s' u)\<lparr>tcbEPNext := eNext s u, tcbEPPrev := ePrev s u\<rparr>"
    using assms by (simp add: ep_links_only_def)
  from arg_cong [OF this, of tcbFault] arg_cong [OF this, of tcbPriority]
  show "tcbFault (tcbs s' u) = tcbFault (tcbs s u)" "tcbPriority (tcbs s' u) = tcbPriority (tcbs s u)" by simp_all
qed

definition badge_of :: "kstate \<Rightarrow> word_t \<Rightarrow> word_t" where
  "badge_of s t = blockingIPCBadge (tcbState (tcbs s t))"

lemma reply_kept_restart:
  assumes "restart_thread_if_no_fault t s = Some s'" "u \<noteq> t"
  shows "thread_reply s' u = thread_reply s u"
  using assms by (auto simp: restart_thread_if_no_fault_def thread_reply_set reply_of_def ipc_state_thread [OF ipc_queue_ops(6)]
      ipc_state_thread [OF ipc_sc_checks(3)] ipc_state_thread [OF ipc_setThreadState] setThreadState_tcb
      split: if_splits Option.bind_splits)

lemma badge_dequeue:
  assumes q: "ep_queue s q (ys @ x # zs)" "prio_sorted s (ys @ x # zs)"
    and d: "ipc_inv_but (set (ys @ x # zs)) s" "thread_reply s x = 0" "refills_usable s" "ksCurTime s < MAX_RELEASE_TIME"
  obtains s1 q2 s2 where "restart_thread_if_no_fault x s = Some s1" "tcbEPDequeue x q s1 = (q2, s2)"
    "ep_queue s2 q2 (ys @ zs)" "prio_sorted s2 (ys @ zs)" "ipc_inv_but (set (ys @ zs)) s2" "refills_usable s2"
    "ksCurTime s2 = ksCurTime s" "eps s2 = eps s"
    "\<And>u. ts_type (tcbState (tcbs s2 u)) = (if u = x then woken_state (tcbs s x) else ts_type (tcbState (tcbs s u)))"
    "\<And>u. badge_of s2 u = badge_of s u" "\<And>u. tcbFault (tcbs s2 u) = tcbFault (tcbs s u)"
    "\<And>u. blockingObject (tcbState (tcbs s2 u)) = blockingObject (tcbState (tcbs s u))"
    "\<And>u. u \<noteq> x \<Longrightarrow> thread_reply s2 u = thread_reply s u"
proof -
  have dist: "x \<notin> set ys" "x \<notin> set zs" using q(1) by (auto simp: ep_queue_def dlist_def)
  have "ipc_inv_but (insert x (set (ys @ zs))) s" using d(1) by (simp add: insert_commute)
  then obtain s1 where s1: "restart_thread_if_no_fault x s = Some s1" "wake_frame s s1" "ipc_inv_but (set (ys @ zs) - {x}) s1"
    "eps s1 = eps s"
    "\<And>u. ts_type (tcbState (tcbs s1 u)) = (if u = x then woken_state (tcbs s x) else ts_type (tcbState (tcbs s u)))"
    by (rule wake_one [OF d(3,4) _ d(2)]) blast
  note f = s1(2) [unfolded wake_frame_def]
  have q1: "ep_queue s1 q (ys @ x # zs)" using q(1) f by (simp add: ep_queue_def)
  obtain q2 s2 where e: "tcbEPDequeue x q s1 = (q2, s2)" by (metis surj_pair)
  note l = tcbEPDequeue_list [OF q1 e]
  have lo: "ep_links_only (set (ys @ x # zs)) s1 s2" unfolding ep_links_only_def using l(2,3,4) by blast
  note lf = ep_links_only_thread [OF lo] ep_links_only_state [OF lo] wake_frame_links [OF lo]
  have px: "waits_on (tcbs s1 x) = None" by (rule plain_waits(1)) (simp add: plain_def s1(5) plain_woken)
  have "ipc_inv_but (set (ys @ zs) - {x}) s2"
    by (rule inv_links_only [OF s1(3) lo]) (use px in auto)
  then have "ipc_inv_but (set (ys @ zs)) s2" using dist by simp
  moreover have "prio_sorted s (ys @ zs)" using q(2) by (simp add: prio_sorted_def sorted_wrt_append)
  then have "prio_sorted s2 (ys @ zs)" using f by (simp add: prio_sorted_def lf)
  moreover have "thread_reply s2 u = thread_reply s1 u" for u by (simp only: reply_of_def lf(1))
  then have "thread_reply s2 u = thread_reply s u" if "u \<noteq> x" for u using reply_kept_restart [OF s1(1) that] by simp
  ultimately show thesis
    using that [OF s1(1) e l(1)] f s1(4,5) d(3) by (simp add: lf badge_of_def)
qed

lemma cancelBadgedSends_loop_wakes:
  assumes "ep_queue s q (ys @ zs)" "prio_sorted s (ys @ zs)" "ipc_inv_but (set (ys @ zs)) s"
    "\<And>x. x \<in> set zs \<Longrightarrow> thread_reply s x = 0" "refills_usable s" "ksCurTime s < MAX_RELEASE_TIME"
  shows "\<exists>q' s'. cancelBadgedSends_loop badge (hd_or 0 zs) q s = Some (q', s') \<and>
     ep_queue s' q' (ys @ filter (\<lambda>x. badge_of s x \<noteq> badge) zs) \<and>
     prio_sorted s' (ys @ filter (\<lambda>x. badge_of s x \<noteq> badge) zs) \<and>
     ipc_inv_but (set (ys @ filter (\<lambda>x. badge_of s x \<noteq> badge) zs)) s' \<and> eps s' = eps s \<and>
     (\<forall>u. ts_type (tcbState (tcbs s' u)) = (if u \<in> set zs \<and> badge_of s u = badge then woken_state (tcbs s u)
        else ts_type (tcbState (tcbs s u))) \<and>
      blockingObject (tcbState (tcbs s' u)) = blockingObject (tcbState (tcbs s u)))"
  using assms
proof (induction zs arbitrary: ys q s)
  case Nil
  then show ?case by (simp add: cancelBadgedSends_loop.simps)
next
  case (Cons x zs)
  have x0: "x \<noteq> 0" "x \<notin> set zs" using Cons.prems(1) by (auto simp: ep_queue_def dlist_def)
  have nx: "tcbEPNext (tcbs s x) = hd_or 0 zs"
    using Cons.prems(1) by (simp add: ep_queue_def dlist_def dseg_append)
  show ?case
  proof (cases "badge_of s x = badge")
    case True
    have tr: "thread_reply s x = 0" using Cons.prems(4) by simp
    obtain s1 q2 s2 where s2: "restart_thread_if_no_fault x s = Some s1" "tcbEPDequeue x q s1 = (q2, s2)"
      "ep_queue s2 q2 (ys @ zs)" "prio_sorted s2 (ys @ zs)" "ipc_inv_but (set (ys @ zs)) s2" "refills_usable s2"
      "ksCurTime s2 = ksCurTime s" "eps s2 = eps s"
      "\<And>u. ts_type (tcbState (tcbs s2 u)) = (if u = x then woken_state (tcbs s x) else ts_type (tcbState (tcbs s u)))"
      "\<And>u. badge_of s2 u = badge_of s u" "\<And>u. tcbFault (tcbs s2 u) = tcbFault (tcbs s u)"
      "\<And>u. blockingObject (tcbState (tcbs s2 u)) = blockingObject (tcbState (tcbs s u))"
      "\<And>u. u \<noteq> x \<Longrightarrow> thread_reply s2 u = thread_reply s u"
      by (rule badge_dequeue [OF Cons.prems(1-3) tr Cons.prems(5,6)]) blast
    have "thread_reply s2 y = 0" if "y \<in> set zs" for y
      using s2(13) [of y] Cons.prems(4) [of y] that x0(2) by auto
    from Cons.IH [OF s2(3-5) this s2(6)] obtain q' s' where
      s': "cancelBadgedSends_loop badge (hd_or 0 zs) q2 s2 = Some (q', s')"
      "ep_queue s' q' (ys @ filter (\<lambda>x. badge_of s x \<noteq> badge) zs)"
      "prio_sorted s' (ys @ filter (\<lambda>x. badge_of s x \<noteq> badge) zs)"
      "ipc_inv_but (set (ys @ filter (\<lambda>x. badge_of s x \<noteq> badge) zs)) s'" "eps s' = eps s"
      "\<And>u. ts_type (tcbState (tcbs s' u)) = (if u \<in> set zs \<and> badge_of s u = badge then woken_state (tcbs s2 u)
        else ts_type (tcbState (tcbs s2 u)))" "\<And>u. blockingObject (tcbState (tcbs s' u)) = blockingObject (tcbState (tcbs s u))"
      using s2(7,8) Cons.prems(6) by (auto simp: s2(10,12))
    have "cancelBadgedSends_loop badge x q s = Some (q', s')"
      using x0(1) True s2(1,2) s'(1) nx by (subst cancelBadgedSends_loop.simps) (simp add: badge_of_def Let_def)
    moreover have "ts_type (tcbState (tcbs s' u)) = (if u \<in> set (x # zs) \<and> badge_of s u = badge then woken_state (tcbs s u)
        else ts_type (tcbState (tcbs s u)))" for u
      using s'(6) [of u] s2(9) [of u] s2(11) True x0(2) by (cases "u = x") (simp_all add: woken_state_def)
    ultimately show ?thesis using s' True by auto
  next
    case False
    have "ep_queue s q ((ys @ [x]) @ zs)" "prio_sorted s ((ys @ [x]) @ zs)" "ipc_inv_but (set ((ys @ [x]) @ zs)) s"
      using Cons.prems(1-3) by simp_all
    from Cons.IH [OF this _ Cons.prems(5,6)] Cons.prems(4) obtain q' s' where
      s': "cancelBadgedSends_loop badge (hd_or 0 zs) q s = Some (q', s')"
      "ep_queue s' q' ((ys @ [x]) @ filter (\<lambda>x. badge_of s x \<noteq> badge) zs)"
      "prio_sorted s' ((ys @ [x]) @ filter (\<lambda>x. badge_of s x \<noteq> badge) zs)"
      "ipc_inv_but (set ((ys @ [x]) @ filter (\<lambda>x. badge_of s x \<noteq> badge) zs)) s'" "eps s' = eps s"
      "\<And>u. ts_type (tcbState (tcbs s' u)) = (if u \<in> set zs \<and> badge_of s u = badge then woken_state (tcbs s u)
        else ts_type (tcbState (tcbs s u))) \<and> blockingObject (tcbState (tcbs s' u)) = blockingObject (tcbState (tcbs s u))" by fastforce
    have "cancelBadgedSends_loop badge x q s = Some (q', s')"
      using x0(1) False s'(1) nx by (subst cancelBadgedSends_loop.simps) (simp add: badge_of_def Let_def)
    then show ?thesis using s' False by auto
  qed
qed

text \<open>Attaching the remaining senders again.\<close>

lemma inv_attach_senders:
  assumes inv: "ipc_inv_but (set ks) s" and q: "ep_queue s q ks" "prio_sorted s ks" "ep_state (eps s p) = EPState_Idle"
    and k: "\<And>x. x \<in> set ks \<Longrightarrow> ts_type (tcbState (tcbs s x)) = ThreadState_BlockedOnSend \<and> blockingObject (tcbState (tcbs s x)) = p"
  shows "ipc_inv (if tcbq_head q \<noteq> 0 then endpoint_ptr_set_state p EPState_Send (ep_ptr_set_queue p q s) else ep_ptr_set_queue p q s)"
    (is "ipc_inv ?s")
proof -
  have ok: "wait_ok (idle_set (set ks) s)" "links_ok s" using inv by (simp_all add: ipc_inv_but_def)
  have w: "x \<in> set ks \<Longrightarrow> waits_on (tcbs s x) = Some (Ep p)" for x using k by (simp add: waits_on_def)
  have "waiters s (Ep p) - set ks = {}"
    using wait_ok_at(2) [OF ok(1), of "Ep p"] q(3) by simp
  then have W: "waiters s (Ep p) = set ks" using w by (auto simp: waiters_def)
  have hd: "tcbq_head q = 0 \<longleftrightarrow> ks = []" using q(1) hd_or_eq_iff [of 0 ks] by (auto simp: ep_queue_def dlist_def)
  have t: "tcbs ?s = tcbs s" "waiters ?s = waiters s" by (simp_all add: obj_set_defs upd_defs waiters_def fun_eq_iff)
  have oq: "obj_queue ?s v = (if v = Ep p then q else obj_queue s v)" for v by (cases v) (simp_all add: obj_set_defs upd_defs)
  have "wait_ok ?s"
  proof (rule wait_change [where w = "Ep p", OF ok(1)])
    show "queue_of ?s (obj_queue ?s (Ep p)) (waiters ?s (Ep p))"
      unfolding oq t(2) W queue_of_tcbs [OF t(1)] using q(1,2) by (auto simp: queue_of_def)
    have "(\<lambda>t. ts_type (tcbState (tcbs s t))) ` set ks = (if ks = [] then {} else {ThreadState_BlockedOnSend})"
      using k by (auto simp: image_iff intro: hd_in_set)
    moreover have "ep_state (eps ?s p) = (if ks = [] then EPState_Idle else EPState_Send)"
      using hd q(3) by (simp add: obj_set_defs upd_defs)
    ultimately show "obj_ok ?s (Ep p)" unfolding obj_ok.simps t W by simp
  next
    fix v assume v: "v \<noteq> Ep p"
    then have d: "waiters s v - set ks = waiters s v" unfolding W [symmetric] by (auto simp: waiters_def)
    have "obj_ok ?s v = obj_ok s v" using v by (cases v) (simp_all only: obj_ok.simps t, simp_all add: obj_set_defs upd_defs)
    moreover have "obj_ok (idle_set (set ks) s) v = obj_ok s v"
    proof (rule obj_ok_same)
      fix x assume "x \<in> waiters s v"
      then have "x \<notin> set ks" using d by auto
      then show "ts_type (tcbState (tcbs (idle_set (set ks) s) x)) = ts_type (tcbState (tcbs s x))" by (simp add: type_idle_set)
    qed (simp_all add: d)
    ultimately show "obj_queue ?s v = obj_queue (idle_set (set ks) s) v \<and> waiters ?s v = waiters (idle_set (set ks) s) v \<and>
        obj_ok ?s v = obj_ok (idle_set (set ks) s) v" using v d unfolding oq t(2) by simp
  qed (simp_all add: t)
  moreover have "link_view ?s = link_view s"
    by (rule link_viewI) (simp_all add: t awaits_reply_def, simp_all add: obj_set_defs upd_defs)
  ultimately show ?thesis using links_ok_cong ok(2) unfolding ipc_inv_iff by blast
qed

lemma cancelBadgedSends_wakes:
  assumes inv: "ipc_inv s" "refills_usable s" "ksCurTime s < MAX_RELEASE_TIME" and send: "ep_state (eps s p) = EPState_Send"
    and q: "ep_queue s (ep_ptr_get_queue p s) xs"
  obtains s' where "cancelBadgedSends p badge s = Some s'" "ipc_inv s'"
    "ep_queue s' (ep_ptr_get_queue p s') (filter (\<lambda>x. badge_of s x \<noteq> badge) xs)"
    "\<And>u. ts_type (tcbState (tcbs s' u)) = (if u \<in> set xs \<and> badge_of s u = badge then woken_state (tcbs s u)
       else ts_type (tcbState (tcbs s u)))"
proof -
  obtain ys where ys: "ep_queue s (obj_queue s (Ep p)) ys" "set ys = waiters s (Ep p)" "prio_sorted s ys"
    "dseg (eNext (obj_reset (Ep p) s)) (ePrev (obj_reset (Ep p) s)) 0 ys 0" "distinct ys" "0 \<notin> set ys"
    by (rule reset_queue [OF inv(1), of "Ep p"])
  have "ys \<noteq> []" using ys(2) ep_waiting(1) [OF inv(1), of p] send by auto
  then obtain y ys' where y: "ys = y # ys'" by (cases ys) auto
  have d: "dlist (eNext s) (ePrev s) xs" "dlist (eNext s) (ePrev s) ys" "hd_or 0 xs = y"
    using ys(1) q y by (simp_all add: ep_queue_def)
  have "y \<in> set xs" using d(3) ys(6) y hd_or_cases [of 0 xs] by auto
  then have "xs = ys" using dlist_unique [OF d(1,2)] y by simp
  note xs = ys(1-3) [folded this]
  let ?s = "obj_reset (Ep p) s" and ?q = "ep_ptr_get_queue p s" and ?ks = "filter (\<lambda>x. badge_of s x \<noteq> badge) xs"
  have ty: "ts_type (tcbState (tcbs s x)) = ThreadState_BlockedOnSend" "blockingObject (tcbState (tcbs s x)) = p" if "x \<in> set xs" for x
    using ep_waiting(2) [OF inv(1), of p x] send that xs(2) by (auto simp: waiters_def waits_on_def)
  have q0: "ep_queue ?s ?q ([] @ xs)" "prio_sorted ?s ([] @ xs)" "ipc_inv_but (set ([] @ xs)) ?s"
    using q xs(2,3) inv_reset [OF inv(1), of "Ep p"] by (simp_all add: ep_queue_def prio_sorted_def)
  have f: "wake_frame s ?s" by (rule wake_frame_reset)
  have r0: "thread_reply ?s x = 0" if "x \<in> set xs" for x using ty(1) [OF that] by (simp add: reply_of_def)
  have b: "badge_of ?s = badge_of s" by (simp add: badge_of_def fun_eq_iff)
  have e0: "ep_state (eps ?s p) = EPState_Idle" by (simp add: obj_reset_def obj_set_defs upd_defs)
  obtain q' s1 where s1: "cancelBadgedSends_loop badge (hd_or 0 xs) ?q ?s = Some (q', s1)" "ep_queue s1 q' ?ks" "prio_sorted s1 ?ks"
      "ipc_inv_but (set ?ks) s1" "eps s1 = eps ?s"
      "\<And>u. ts_type (tcbState (tcbs s1 u)) = (if u \<in> set xs \<and> badge_of s u = badge then woken_state (tcbs s u)
        else ts_type (tcbState (tcbs s u)))" "\<And>u. blockingObject (tcbState (tcbs s1 u)) = blockingObject (tcbState (tcbs s u))"
    using cancelBadgedSends_loop_wakes [OF q0 r0, of badge] inv(2,3) f by (auto simp: b wake_frame_def)
  define s2 where "s2 = (if tcbq_head q' \<noteq> 0 then endpoint_ptr_set_state p EPState_Send (ep_ptr_set_queue p q' s1) else ep_ptr_set_queue p q' s1)"
  have i: "ipc_inv s2" unfolding s2_def
    by (rule inv_attach_senders [OF s1(4,2,3)]) (use e0 ty in \<open>auto simp: s1(5-7)\<close>)
  have s2: "tcbs s2 = tcbs s1" "ep_ptr_get_queue p s2 = q'" by (simp_all add: s2_def obj_set_defs upd_defs)
  have "tcbq_head ?q = hd_or 0 xs" using q by (simp add: ep_queue_def)
  then have "cancelBadgedSends p badge s = Some (rescheduleRequired s2)"
    using send s1(1) by (simp add: cancelBadgedSends_def obj_reset_alt Let_def s2_def)
  moreover have "ep_queue (rescheduleRequired s2) (ep_ptr_get_queue p (rescheduleRequired s2)) ?ks"
    using s1(2) s2 wake_reschedule(1) [of s2] by (simp add: ep_queue_def wake_frame_def ep_ptr_get_queue_def ipc_stateD(2) [OF ipc_queue_ops(5)])
  ultimately show thesis using that i s1(6) by (simp add: wake_reschedule(2) s2(1))
qed

end
