(* ===== verification/IpcSteps.thy ===== *)
theory IpcSteps
  imports IpcCancel
begin

text \<open>
  Communication as a state machine: the steps that threads, invocations, deletion and the
  timer take, with the conditions under which the kernel calls the operations, and the
  properties of communication that hold in every state they reach.
\<close>

section \<open>Steps\<close>

text \<open>
  \<open>plain s t\<close>: the thread is running, restarted or inactive. It holds of the current
  thread when it makes a system call, and of a thread that faults. \<open>refills_usable\<close>: the
  refill buffers are consistent, which the refill operations keep, so that waking a
  thread does not fail.
\<close>

inductive ipc_step :: "kstate \<Rightarrow> kstate \<Rightarrow> bool" where
  send: "plain s t \<Longrightarrow> t \<noteq> 0 \<Longrightarrow> canDonate \<longrightarrow> tcbSchedContext (tcbs s t) \<noteq> 0 \<Longrightarrow>
    sendIPC blocking call badge grant grantReply canDonate t epptr s = Some s' \<Longrightarrow> ipc_step s s'"
| receive: "plain s t \<Longrightarrow> t \<noteq> 0 \<Longrightarrow> receiveIPC t cap blocking replyCap s = Some s' \<Longrightarrow> ipc_step s s'"
| signal: "sendSignal ntfnPtr badge s = Some s' \<Longrightarrow> ipc_step s s'"
| receive_signal: "plain s t \<Longrightarrow> t \<noteq> 0 \<Longrightarrow> receiveSignal t cap blocking s = Some s' \<Longrightarrow> ipc_step s s'"
| reply: "reply \<noteq> 0 \<Longrightarrow> doReplyTransfer t reply grant s = Some s' \<Longrightarrow> ipc_step s s'"
| fault: "plain s t \<Longrightarrow> t \<noteq> 0 \<Longrightarrow> handleFault t (s\<lparr>current_fault := f\<rparr>) = Some s' \<Longrightarrow> ipc_step s s'"
| cancel: "ipc_step s (cancelIPC t s)"
| delete_reply: "reply \<noteq> 0 \<Longrightarrow> replyTCB (replies s reply) = t \<Longrightarrow> t \<noteq> 0 \<Longrightarrow>
    ts_type (tcbState (tcbs s t)) = ThreadState_BlockedOnReply \<Longrightarrow> ipc_step s (reply_remove reply t s)"
| delete_endpoint: "refills_usable s \<Longrightarrow> ksCurTime s < MAX_RELEASE_TIME \<Longrightarrow>
    cancelAllIPC epptr s = Some s' \<Longrightarrow> ipc_step s s'"
| delete_notification: "refills_usable s \<Longrightarrow> ksCurTime s < MAX_RELEASE_TIME \<Longrightarrow>
    cancelAllSignals ntfnPtr s = Some s' \<Longrightarrow> ipc_step s s'"
| revoke_badge: "refills_usable s \<Longrightarrow> ksCurTime s < MAX_RELEASE_TIME \<Longrightarrow>
    cancelBadgedSends epptr badge s = Some s' \<Longrightarrow> ipc_step s s'"
| suspend_thread: "ipc_step s (suspend t s)"
| restart_thread: "restart t s = Some s' \<Longrightarrow> ipc_step s s'"
| set_priority: "setPriority t prio s = Some s' \<Longrightarrow> ipc_step s s'"
| bind_notification: "t \<noteq> 0 \<Longrightarrow> n \<noteq> 0 \<Longrightarrow> tcbBoundNotification (tcbs s t) = 0 \<Longrightarrow> ntfnBoundTCB (ntfns s n) = 0 \<Longrightarrow>
    ipc_step s (bindNotification t n s)"
| unbind_notification: "t \<noteq> 0 \<Longrightarrow> ipc_step s (unbindNotification t s)"
| unbind_bound_thread: "n \<noteq> 0 \<Longrightarrow> ipc_step s (unbindMaybeNotification n s)"
| unbind_notification_sc: "ipc_step s (schedContextMaybeUnbindNtfn n s)"
| invoke_sched_context: "plain s (ksCurThread s) \<Longrightarrow> ksCurThread s \<noteq> 0 \<Longrightarrow> sc \<noteq> 0 \<Longrightarrow>
    cap_nonnull (cte_cap (ctes s (current_extra_caps s 0))) \<Longrightarrow>
    decodeSchedContextInvocation label sc call s = Some (e, s') \<Longrightarrow> ipc_step s s'"
| invoke_sched_control: "plain s (ksCurThread s) \<Longrightarrow>
    decodeSchedControlInvocation label len buffer s = Some (e, s') \<Longrightarrow> ipc_step s s'"
| delete_sched_context: "sc \<noteq> 0 \<Longrightarrow> ipc_step s (invokeSchedContext_Unbind sc s)"
| charge: "plain s (ksCurThread s) \<Longrightarrow> ksCurThread s \<noteq> 0 \<Longrightarrow> chargeBudget consumed b s = Some s' \<Longrightarrow> ipc_step s s'"
| check_budget: "plain s (ksCurThread s) \<Longrightarrow> ksCurThread s \<noteq> 0 \<Longrightarrow> checkBudgetRestart s = Some (b, s') \<Longrightarrow> ipc_step s s'"
| activate: "activateThread s = Some s' \<Longrightarrow> ipc_step s s'"

lemma inv_cancel_loops:
  assumes "ipc_inv s" "refills_usable s" "ksCurTime s < MAX_RELEASE_TIME"
  shows "cancelAllIPC p s = Some s' \<Longrightarrow> ipc_inv s'" "cancelAllSignals n s = Some s' \<Longrightarrow> ipc_inv s'"
    "cancelBadgedSends p badge s = Some s' \<Longrightarrow> ipc_inv s'"
proof -
  show "cancelAllIPC p s = Some s' \<Longrightarrow> ipc_inv s'" using cancelAllIPC_wakes [OF assms] by (metis option.inject)
  show "cancelAllSignals n s = Some s' \<Longrightarrow> ipc_inv s'" using cancelAllSignals_wakes [OF assms] by (metis option.inject)
  show "ipc_inv s'" if r: "cancelBadgedSends p badge s = Some s'"
  proof (cases "ep_state (eps s p) = EPState_Send")
    case True
    obtain xs where "ep_queue s (obj_queue s (Ep p)) xs" by (rule reset_queue [OF assms(1), of "Ep p"])
    then have q: "ep_queue s (ep_ptr_get_queue p s) xs" by simp
    show ?thesis using cancelBadgedSends_wakes [OF assms True q, of badge] r by (metis option.inject)
  next
    case False
    then show ?thesis using r assms(1) by (cases "ep_state (eps s p)") (simp_all add: cancelBadgedSends_def)
  qed
qed

lemma ipc_step_inv: "ipc_step s s' \<Longrightarrow> ipc_inv s \<Longrightarrow> ipc_inv s'"
proof (induction rule: ipc_step.induct)
  case (fault s t f s')
  show ?case
    by (rule inv_handleFault [OF _ _ fault(2,3)])
      (use fault(1,4) in \<open>simp_all add: inv_frame [OF ipc_globals(5)] plain_frame [OF ipc_globals(5)]\<close>)
next
  case (delete_reply reply s t)
  have "awaits_reply s t" using delete_reply(4) by (simp add: awaits_reply_def)
  moreover have "thread_reply s t = reply"
    using pairedD [OF links_okD(5) [OF inv_links [OF delete_reply(5)]] delete_reply(3,1)] delete_reply(2) by simp
  ultimately show ?case using inv_reply_remove [OF delete_reply(5)] delete_reply(1,3) by simp
next
  case (send s t canDonate)
  then show ?case using inv_sendIPC by blast
next
  case receive
  then show ?case by (blast intro: inv_receiveIPC)
next
  case signal
  then show ?case by (blast intro: inv_sendSignal)
next
  case receive_signal
  then show ?case by (blast intro: inv_receiveSignal)
next
  case reply
  then show ?case by (blast intro: inv_doReplyTransfer)
next
  case cancel
  then show ?case by (blast intro: inv_cancelIPC)
next
  case delete_endpoint
  then show ?case by (blast intro: inv_cancel_loops(1))
next
  case delete_notification
  then show ?case by (blast intro: inv_cancel_loops(2))
next
  case revoke_badge
  then show ?case by (blast intro: inv_cancel_loops(3))
next
  case suspend_thread
  then show ?case by (blast intro: inv_suspend)
next
  case restart_thread
  then show ?case by (blast intro: inv_restart)
next
  case set_priority
  then show ?case by (blast intro: inv_setPriority)
next
  case bind_notification
  then show ?case by (blast intro: inv_bindNotification)
next
  case unbind_notification
  then show ?case by (blast intro: inv_unbindNotification)
next
  case unbind_bound_thread
  then show ?case by (blast intro: inv_unbindMaybeNotification)
next
  case unbind_notification_sc
  then show ?case by (blast intro: inv_schedContextMaybeUnbindNtfn)
next
  case invoke_sched_context
  then show ?case by (blast intro: inv_decodeSchedContextInvocation)
next
  case invoke_sched_control
  then show ?case by (blast intro: inv_decodeSchedControlInvocation)
next
  case delete_sched_context
  then show ?case by (blast intro: inv_invoke_Unbind)
next
  case charge
  then show ?case by (blast intro: inv_chargeBudget)
next
  case check_budget
  then show ?case by (blast intro: inv_checkBudgetRestart)
next
  case activate
  then show ?case by (blast intro: inv_activateThread)
qed

section \<open>Example states\<close>

text \<open>Memory after boot holds no waiting threads.\<close>

lemma zero_ipc_inv: "ipc_inv zero_state"
proof -
  have w: "waiters zero_state v = {}" for v by (simp add: waiters_def waits_on_def zero_defs)
  have q: "queue_of zero_state \<lparr>tcbq_head = 0, tcbq_end = 0\<rparr> {}"
    unfolding queue_of_def by (rule exI [where x = "[]"]) (simp add: ep_queue_def prio_sorted_def)
  have "obj_queue zero_state v = \<lparr>tcbq_head = 0, tcbq_end = 0\<rparr>" for v
    by (cases v) (simp_all add: obj_set_defs zero_defs)
  moreover have "obj_ok zero_state v" for v by (cases v) (simp_all add: w, simp_all add: zero_defs)
  ultimately have "wait_ok zero_state" using q by (simp add: wait_ok_def w)
  moreover have "links_ok zero_state"
    by (simp add: links_ok_def paired_def stack_ok_def reply_of_def awaits_reply_def stack_sc_def stack_reply_def zero_defs)
  ultimately show ?thesis by (simp add: ipc_inv_iff)
qed

lemma zero_plain: "plain zero_state t"
  by (simp add: plain_def plain_state_def zero_defs)

lemma zero_refills: "refills_usable zero_state" "ksCurTime zero_state < MAX_RELEASE_TIME"
  by (simp_all add: refills_usable_def isRoundRobin_def zero_defs word_less_nat_alt max_release_time_value max_period_value)

text \<open>Two threads, with badges 5 and 6, wait to send to an endpoint.\<close>

definition ex_ep :: word_t where "ex_ep = 4096"
definition ex_a :: word_t where "ex_a = 8192"
definition ex_b :: word_t where "ex_b = 12288"

definition ex_sender :: "word_t \<Rightarrow> word_t \<Rightarrow> word_t \<Rightarrow> tcb" where
  "ex_sender badge nxt prv = zero_tcb\<lparr>tcbState := zero_thread_state\<lparr>blockingIPCBadge := badge, blockingObject := ex_ep,
     ts_type := ThreadState_BlockedOnSend\<rparr>, tcbEPNext := nxt, tcbEPPrev := prv\<rparr>"

definition two_senders :: kstate where
  "two_senders = zero_state\<lparr>tcbs := (\<lambda>_. zero_tcb)(ex_a := ex_sender 5 ex_b 0, ex_b := ex_sender 6 0 ex_a),
     eps := (\<lambda>_. zero_endpoint)(ex_ep := \<lparr>epQueue_head = ex_a, epQueue_tail = ex_b, ep_state = EPState_Send\<rparr>)\<rparr>"

lemma ex_distinct [simp]: "ex_a \<noteq> 0" "ex_b \<noteq> 0" "ex_ep \<noteq> 0" "ex_a \<noteq> ex_b" "ex_b \<noteq> ex_a"
  by (simp_all add: ex_a_def ex_b_def ex_ep_def)

lemma two_senders_tcb:
  "tcbs two_senders t = (if t = ex_b then ex_sender 6 0 ex_a else if t = ex_a then ex_sender 5 ex_b 0 else zero_tcb)"
  by (simp add: two_senders_def)

lemma two_senders_waiters: "waiters two_senders v = (if v = Ep ex_ep then {ex_a, ex_b} else {})"
  by (auto simp: waiters_def two_senders_tcb ex_sender_def waits_on_def zero_defs)

lemma two_senders_queue: "ep_queue two_senders (ep_ptr_get_queue ex_ep two_senders) [ex_a, ex_b]"
  by (simp add: ep_queue_def dlist_def two_senders_tcb ex_sender_def ep_ptr_get_queue_def) (simp add: two_senders_def)

lemma two_senders_inv: "ipc_inv two_senders"
proof -
  have q: "queue_of two_senders \<lparr>tcbq_head = 0, tcbq_end = 0\<rparr> {}"
    unfolding queue_of_def by (rule exI [where x = "[]"]) (simp add: ep_queue_def prio_sorted_def)
  have "queue_of two_senders (ep_ptr_get_queue ex_ep two_senders) {ex_a, ex_b}"
    unfolding queue_of_def by (rule exI [where x = "[ex_a, ex_b]"])
      (simp add: two_senders_queue prio_sorted_def two_senders_tcb ex_sender_def)
  moreover have "obj_queue two_senders v = \<lparr>tcbq_head = 0, tcbq_end = 0\<rparr>" if "v \<noteq> Ep ex_ep" for v
    using that by (cases v) (simp_all add: obj_set_defs two_senders_def zero_defs)
  ultimately have qs: "queue_of two_senders (obj_queue two_senders v) (waiters two_senders v)" for v
    using q by (cases "v = Ep ex_ep") (simp_all add: two_senders_waiters)
  have "obj_ok two_senders v" for v
    by (cases v) (auto simp: two_senders_waiters two_senders_tcb ex_sender_def, simp_all add: two_senders_def zero_defs)
  then have "wait_ok two_senders" using qs by (simp add: wait_ok_def)
  moreover have "links_ok two_senders"
    by (simp add: links_ok_def paired_def stack_ok_def reply_of_def awaits_reply_def stack_sc_def stack_reply_def
        two_senders_tcb ex_sender_def) (simp add: two_senders_def zero_defs)
  ultimately show ?thesis by (simp add: ipc_inv_iff)
qed

lemma two_senders_time: "refills_usable two_senders" "ksCurTime two_senders < MAX_RELEASE_TIME"
  using zero_refills by (simp_all add: refills_usable_def two_senders_def)

lemma two_senders_badges: "badge_of two_senders ex_a = 5" "badge_of two_senders ex_b = 6"
  by (simp_all add: badge_of_def two_senders_tcb ex_sender_def)

section \<open>Properties\<close>

text \<open>
  C14: In every state that communication, cancellation, deletion and the binding operations
  reach from a consistent one, each endpoint's and notification's queue holds exactly
  the threads that wait on it, doubly linked and ordered by priority; endpoint states
  fit their waiters; and threads, notifications, scheduling contexts and reply objects
  refer to each other in pairs, the reply objects of nested calls forming call stacks.
\<close>

theorem ipc_reachable_consistent:
  assumes "wait_ok s \<and> links_ok s" and "ipc_step\<^sup>*\<^sup>* s s'"
  shows "wait_ok s' \<and> links_ok s'"
  using assms(2,1) unfolding ipc_inv_iff [symmetric] by (induction rule: rtranclp_induct) (blast intro: ipc_step_inv)+

theorem ipc_reachable_consistent_witness:
  "wait_ok (the (cancelBadgedSends ex_ep 5 two_senders)) \<and> links_ok (the (cancelBadgedSends ex_ep 5 two_senders))"
proof (rule ipc_reachable_consistent)
  show "wait_ok two_senders \<and> links_ok two_senders" using two_senders_inv by (simp add: ipc_inv_iff)
  have e: "ep_state (eps two_senders ex_ep) = EPState_Send" by (simp add: two_senders_def)
  obtain s' where "cancelBadgedSends ex_ep 5 two_senders = Some s'"
    by (rule cancelBadgedSends_wakes [OF two_senders_inv two_senders_time e two_senders_queue, of 5])
  then have "ipc_step two_senders (the (cancelBadgedSends ex_ep 5 two_senders))"
    using revoke_badge [OF two_senders_time] by simp
  then show "ipc_step\<^sup>*\<^sup>* two_senders (the (cancelBadgedSends ex_ep 5 two_senders))" by simp
qed

lemma no_waiters_left:
  assumes "wake_frame s s'" "\<And>u. ts_type (tcbState (tcbs s' u)) = (if u \<in> waiters s w then f u else ts_type (tcbState (tcbs s u)))"
    "\<And>u. plain_state (f u)"
  shows "waiters s' w = {}"
proof -
  have "waits_on (tcbs s' u) \<noteq> Some w" for u
    using assms(1) assms(2) [of u] plain_stateD(1) [OF assms(3) [of u]]
    by (cases "u \<in> waiters s w") (auto simp: waits_on_def wake_frame_def waiters_def)
  then show ?thesis by (simp add: waiters_def)
qed

text \<open>
  C15: Deleting an endpoint (\<open>cancelAllIPC\<close>) or notification (\<open>cancelAllSignals\<close>) returns
  and wakes all threads that wait on it and no other: each is restarted, except that a
  thread whose fault message was pending stays inactive; nothing waits on the object
  afterwards, and communication stays consistent.
\<close>

theorem delete_wakes_all:
  assumes "wait_ok s \<and> links_ok s" and "refills_usable s" "ksCurTime s < MAX_RELEASE_TIME"
  shows "(\<exists>s'. cancelAllIPC p s = Some s' \<and> wait_ok s' \<and> links_ok s' \<and> waiters s' (Ep p) = {} \<and>
      (\<forall>t. ts_type (tcbState (tcbs s' t)) =
        (if t \<in> waiters s (Ep p)
         then if tcbFault (tcbs s t) = NullFault then ThreadState_Restart else ThreadState_Inactive
         else ts_type (tcbState (tcbs s t))))) \<and>
    (\<exists>s'. cancelAllSignals n s = Some s' \<and> wait_ok s' \<and> links_ok s' \<and> waiters s' (Ntfn n) = {} \<and>
      (\<forall>t. ts_type (tcbState (tcbs s' t)) =
        (if t \<in> waiters s (Ntfn n) then ThreadState_Restart else ts_type (tcbState (tcbs s t)))))"
proof (rule conjI)
  note i = assms [folded ipc_inv_iff]
  obtain s' where s': "cancelAllIPC p s = Some s'" "ipc_inv s'" "wake_frame s s'"
    "\<And>u. ts_type (tcbState (tcbs s' u)) = (if u \<in> waiters s (Ep p) then woken_state (tcbs s u) else ts_type (tcbState (tcbs s u)))"
    by (rule cancelAllIPC_wakes [OF i]) blast
  then show "\<exists>s'. cancelAllIPC p s = Some s' \<and> wait_ok s' \<and> links_ok s' \<and> waiters s' (Ep p) = {} \<and>
      (\<forall>t. ts_type (tcbState (tcbs s' t)) =
        (if t \<in> waiters s (Ep p)
         then if tcbFault (tcbs s t) = NullFault then ThreadState_Restart else ThreadState_Inactive
         else ts_type (tcbState (tcbs s t))))"
    using no_waiters_left [OF s'(3,4) plain_woken] by (auto simp: ipc_inv_iff woken_state_def)
  obtain s'' where s'': "cancelAllSignals n s = Some s''" "ipc_inv s''" "wake_frame s s''"
    "\<And>u. ts_type (tcbState (tcbs s'' u)) = (if u \<in> waiters s (Ntfn n) then ThreadState_Restart else ts_type (tcbState (tcbs s u)))"
    by (rule cancelAllSignals_wakes [OF i]) blast
  then show "\<exists>s'. cancelAllSignals n s = Some s' \<and> wait_ok s' \<and> links_ok s' \<and> waiters s' (Ntfn n) = {} \<and>
      (\<forall>t. ts_type (tcbState (tcbs s' t)) =
        (if t \<in> waiters s (Ntfn n) then ThreadState_Restart else ts_type (tcbState (tcbs s t))))"
    using no_waiters_left [OF s''(3,4)] by (auto simp: ipc_inv_iff plain_state_def)
qed

theorem delete_wakes_all_witness:
  "\<exists>s'. cancelAllIPC ex_ep two_senders = Some s' \<and> ts_type (tcbState (tcbs s' ex_a)) = ThreadState_Restart \<and>
     ts_type (tcbState (tcbs s' ex_b)) = ThreadState_Restart"
  using delete_wakes_all [OF two_senders_inv [unfolded ipc_inv_iff] two_senders_time, of ex_ep 0]
  by (auto simp: two_senders_waiters two_senders_tcb ex_sender_def zero_defs)

text \<open>
  C16: Revoking a badge (\<open>cancelBadgedSends\<close>) on an endpoint with waiting senders returns;
  it takes exactly the senders with that badge off the queue and restarts them (or
  leaves them inactive when a fault is pending), keeps the others waiting in their
  order, and communication stays consistent.
\<close>

theorem revoke_badge_filters:
  assumes "wait_ok s \<and> links_ok s" and "refills_usable s" "ksCurTime s < MAX_RELEASE_TIME"
    and "ep_state (eps s p) = EPState_Send" and "ep_queue s (ep_ptr_get_queue p s) xs"
  shows "\<exists>s'. cancelBadgedSends p badge s = Some s' \<and> wait_ok s' \<and> links_ok s' \<and>
      ep_queue s' (ep_ptr_get_queue p s') (filter (\<lambda>t. blockingIPCBadge (tcbState (tcbs s t)) \<noteq> badge) xs) \<and>
      (\<forall>t. ts_type (tcbState (tcbs s' t)) =
        (if t \<in> set xs \<and> blockingIPCBadge (tcbState (tcbs s t)) = badge
         then if tcbFault (tcbs s t) = NullFault then ThreadState_Restart else ThreadState_Inactive
         else ts_type (tcbState (tcbs s t))))"
proof -
  obtain s' where s': "cancelBadgedSends p badge s = Some s'" "ipc_inv s'"
    "ep_queue s' (ep_ptr_get_queue p s') (filter (\<lambda>x. badge_of s x \<noteq> badge) xs)"
    "\<And>u. ts_type (tcbState (tcbs s' u)) = (if u \<in> set xs \<and> badge_of s u = badge then woken_state (tcbs s u)
       else ts_type (tcbState (tcbs s u)))"
    by (rule cancelBadgedSends_wakes [OF assms(1) [folded ipc_inv_iff] assms(2-5), of badge]) blast
  then show ?thesis unfolding badge_of_def woken_state_def by (auto simp: ipc_inv_iff)
qed

theorem revoke_badge_filters_witness:
  "\<exists>s'. cancelBadgedSends ex_ep 5 two_senders = Some s' \<and> ep_queue s' (ep_ptr_get_queue ex_ep s') [ex_b] \<and>
     ts_type (tcbState (tcbs s' ex_a)) = ThreadState_Restart \<and> ts_type (tcbState (tcbs s' ex_b)) = ThreadState_BlockedOnSend"
proof -
  have e: "ep_state (eps two_senders ex_ep) = EPState_Send" by (simp add: two_senders_def)
  note b = two_senders_badges [unfolded badge_of_def]
  show ?thesis
    using revoke_badge_filters [OF two_senders_inv [unfolded ipc_inv_iff] two_senders_time e two_senders_queue, of 5]
    by (auto simp: b) (auto simp: two_senders_tcb ex_sender_def zero_defs)
qed

text \<open>Sending signals one after another.\<close>

fun sendSignals :: "word_t \<Rightarrow> word_t list \<Rightarrow> kstate \<Rightarrow> kstate option" where
  "sendSignals n [] s = Some s"
| "sendSignals n (b # bs) s = do { s \<leftarrow> sendSignal n b s; sendSignals n bs s }"

lemma sendSignals_active:
  assumes "ntfn_state (ntfns s n) = NtfnState_Active"
  shows "sendSignals n bs s = Some (upd_ntfn n (\<lambda>x. x\<lparr>ntfnMsgIdentifier := fold (OR) bs (ntfnMsgIdentifier (ntfns s n))\<rparr>) s)"
  using assms
proof (induction bs arbitrary: s)
  case (Cons b bs)
  let ?s = "upd_ntfn n (\<lambda>x. x\<lparr>ntfnMsgIdentifier := ntfnMsgIdentifier (ntfns s n) OR b\<rparr>) s"
  have "ntfn_state (ntfns ?s n) = NtfnState_Active" using Cons.prems by (simp add: upd_ntfn_def)
  note ih = Cons.IH [OF this]
  have "sendSignals n (b # bs) s = sendSignals n bs ?s" using Cons.prems by (simp add: sendSignal_def Let_def)
  then show ?case using ih by (simp add: upd_ntfn_def or.commute)
qed (simp add: upd_ntfn_def)

text \<open>A receiver without a scheduling context takes a free one from the notification.\<close>

lemma core_tcbReleaseEnqueue: "tcbReleaseEnqueue t s = Some s' \<Longrightarrow> core_state s' = core_state s"
  by (auto simp: tcbReleaseEnqueue_def split_def Let_def split: if_splits Option.bind_splits)

lemma core_schedContext_resume: "schedContext_resume p s = Some s' \<Longrightarrow> core_state s' = core_state s"
  by (auto simp: schedContext_resume_def postpone_def Let_def dest!: core_tcbReleaseEnqueue
      split: if_splits Option.bind_splits)

lemma resume_returns:
  assumes "queues_ok R Q s" "release_sorted s Q" "scTcb (scs s p) \<noteq> 0" "\<not> in_release s (scTcb (scs s p))"
  shows "\<exists>s'. schedContext_resume p s = Some s' \<and> core_state s' = core_state s"
proof -
  let ?t = "scTcb (scs s p)" and ?s = "tcbSchedDequeue (scTcb (scs s p)) s"
  have core: "core_state ?s = core_state s" by simp
  obtain R' where q: "queues_ok R' Q ?s" using dequeue_queues_ok [OF assms(1)] by blast
  have r: "release_sorted ?s Q" "\<not> in_release ?s ?t" using assms(2,4) can_wake_core(3) [OF core] by simp_all
  have "\<not> queued ?s ?t" by simp
  then obtain s' where "tcbReleaseEnqueue ?t ?s = Some s'"
    using tcbReleaseEnqueue_ok [OF q r(1) _ r(2) assms(3)] by blast
  then have "\<exists>s'. schedContext_resume p s = Some s'" by (simp add: schedContext_resume_def postpone_def Let_def)
  then show ?thesis using core_schedContext_resume by blast
qed

lemma sc_refills_ok_owner: "sc_refills_ok B (sc\<lparr>scTcb := t\<rparr>) = sc_refills_ok B sc"
proof -
  have "refill_size (sc\<lparr>scTcb := t\<rparr>) = refill_size sc" "refill_slot (sc\<lparr>scTcb := t\<rparr>) = refill_slot sc"
    by (simp_all add: refill_size_def refill_slot_def fun_eq_iff)
  then have "refills_of (sc\<lparr>scTcb := t\<rparr>) = refills_of sc" "valid_refills (sc\<lparr>scTcb := t\<rparr>) = valid_refills sc"
    by (simp_all add: refills_of_def valid_refills_def)
  then show ?thesis by (simp add: sc_refills_ok_def)
qed

lemma maybeDonate_returns:
  fixes s :: kstate and n :: word_t
  assumes "queues_ok R Q s" "release_sorted s Q" "refills_usable s" "t \<noteq> 0" "\<not> in_release s t"
  defines "sc \<equiv> ntfnSchedContext (ntfns s n)"
  obtains s' where "maybeDonateSchedContext t n s = Some s'" "refills_usable s'" "ksCurTime s' = ksCurTime s"
    "ntfns s' = ntfns s" "tcbContext (tcbs s' t) = tcbContext (tcbs s t)"
    "tcbSchedContext (tcbs s' t) = (if tcbSchedContext (tcbs s t) = 0 \<and> sc \<noteq> 0 \<and> scTcb (scs s sc) = 0
      then sc else tcbSchedContext (tcbs s t))"
proof (cases "tcbSchedContext (tcbs s t) = 0 \<and> sc \<noteq> 0 \<and> scTcb (scs s sc) = 0")
  case True
  let ?d = "set_tcbSchedContext t sc (set_scTcb sc t s)"
  have d: "schedContext_donate sc t s = ?d" using True by (simp add: schedContext_donate_def)
  have sq: "same_queue_state s ?d" by (simp add: same_queue_state_def set_tcbSchedContext_def set_scTcb_def upd_defs)
  have out: "t \<notin> set Q" using queue_links_okD(5) [of R Q s t] assms(1,5) by (simp add: queues_ok_def)
  have "tcbReadyTime ?d u = tcbReadyTime s u" if "u \<noteq> t" for u
    using that by (simp add: tcbReadyTime_def set_tcbSchedContext_def set_scTcb_def upd_defs refill_head_def refill_index_def)
  then have "release_sorted ?d Q"
    using assms(2) out unfolding release_sorted_def by (metis (mono_tags, lifting) sorted_wrt_mono_rel)
  moreover have "queues_ok R Q ?d" using queues_ok_same [OF sq] assms(1) by simp
  moreover have "scTcb (scs ?d sc) = t" "in_release ?d t = in_release s t"
    by (simp_all add: set_tcbSchedContext_def set_scTcb_def upd_defs)
  ultimately obtain s' where s': "schedContext_resume sc ?d = Some s'" and c: "core_state s' = core_state ?d"
    using resume_returns [of R Q ?d sc] assms(4,5) by auto
  have "refills_usable ?d"
    using assms(3) by (auto simp: refills_usable_def set_tcbSchedContext_def set_scTcb_def upd_defs isRoundRobin_def sc_refills_ok_owner)
  then have "refills_usable s'" using core_stateD(1) [OF c] by (simp add: refills_usable_def)
  moreover have "tcbContext (tcbs s' t) = tcbContext (tcbs ?d t)"
    using arg_cong [OF c, of "\<lambda>s. tcbContext (tcbs s t)"] by (simp add: core_state_def core_tcb_def)
  moreover have "ntfns s' = ntfns ?d" using arg_cong [OF c, of ntfns] by (simp add: core_state_def)
  ultimately show thesis
    using that [of s'] True s' core_stateD(7) [OF c] core_state_thread [OF c, of t]
    by (simp add: maybeDonateSchedContext_def d sc_def [symmetric] Let_def)
      (simp add: set_tcbSchedContext_def set_scTcb_def upd_defs)
next
  case False
  then show thesis using that [of s] assms(3) by (auto simp: maybeDonateSchedContext_def sc_def Let_def)
qed

lemma receive_active:
  fixes s :: kstate and n t :: word_t
  defines "m \<equiv> ntfnMsgIdentifier (ntfns s n)" and "sc \<equiv> ntfnSchedContext (ntfns s n)"
  assumes "ntfn_state (ntfns s n) = NtfnState_Active"
    and "queues_ok R Q s" "release_sorted s Q" "refills_usable s" "ksCurTime s < MAX_RELEASE_TIME"
    and "t \<noteq> 0" "\<not> in_release s t"
  shows "\<exists>s'. receiveSignal t (cap_notification_cap badge send recv n) blocking s = Some s' \<and>
    getRegister s' t badgeRegister = m \<and> ntfns s' = (ntfns s)(n := (ntfns s n)\<lparr>ntfn_state := NtfnState_Idle\<rparr>) \<and>
    tcbSchedContext (tcbs s' t) = (if tcbSchedContext (tcbs s t) = 0 \<and> sc \<noteq> 0 \<and> scTcb (scs s sc) = 0
      then sc else tcbSchedContext (tcbs s t))"
proof -
  define s1 where "s1 = notification_ptr_set_state n NtfnState_Idle (setRegister t badgeRegister m s)"
  note defs = s1_def notification_ptr_set_state_def setRegister_def upd_defs
  have sq: "same_queue_state s s1" by (simp add: same_queue_state_def defs)
  have keep: "tcbReadyTime s1 u = tcbReadyTime s u" for u by (rule tcbReadyTime_cong) (simp_all add: defs)
  have "queues_ok R Q s1" "release_sorted s1 Q" "refills_usable s1" "\<not> in_release s1 t"
    using queues_ok_same [OF sq] assms(4-6,9) keep by (simp_all add: release_sorted_def) (simp_all add: refills_usable_def defs)
  from maybeDonate_returns [OF this(1-3) assms(8) this(4), of n] obtain s2 where
    s2: "maybeDonateSchedContext t n s1 = Some s2" "refills_usable s2" "ksCurTime s2 = ksCurTime s1" "ntfns s2 = ntfns s1"
    "tcbContext (tcbs s2 t) = tcbContext (tcbs s1 t)"
    and own: "tcbSchedContext (tcbs s2 t) = (if tcbSchedContext (tcbs s1 t) = 0 \<and> ntfnSchedContext (ntfns s1 n) \<noteq> 0 \<and>
      scTcb (scs s1 (ntfnSchedContext (ntfns s1 n))) = 0 then ntfnSchedContext (ntfns s1 n) else tcbSchedContext (tcbs s1 t))"
    by blast
  have "ksCurTime s2 < MAX_RELEASE_TIME" using assms(7) s2(3) by (simp add: defs)
  from sc_refill_unblock_check_returns [OF s2(2) this, of "tcbSchedContext (tcbs s2 t)"] obtain s3 where
    s3: "sc_refill_unblock_check (tcbSchedContext (tcbs s2 t)) s2 = Some s3" "sc_erase s3 = sc_erase s2" by blast
  define s' where "s' = (if tcbSchedContext (tcbs s2 t) \<noteq> ksCurSC s2 \<and> sc_sporadic (tcbSchedContext (tcbs s2 t)) s2 then s3 else s2)"
  have same: "tcbs s' = tcbs s2" "ntfns s' = ntfns s2"
    using sc_eraseD(1) [OF s3(2)] arg_cong [OF s3(2), of ntfns] by (simp_all add: s'_def sc_erase_def)
  have "receiveSignal t (cap_notification_cap badge send recv n) blocking s = Some s'"
    using assms(3) s2(1) s3(1) by (simp add: receiveSignal_def Let_def s1_def m_def s'_def)
  moreover have "getRegister s' t badgeRegister = m" by (simp add: getRegister_def same s2(5)) (simp add: defs)
  moreover have "ntfns s' = (ntfns s)(n := (ntfns s n)\<lparr>ntfn_state := NtfnState_Idle\<rparr>)" by (simp add: same s2(4)) (simp add: defs)
  ultimately show ?thesis using own by (intro exI [of _ s']) (simp add: same sc_def, simp add: defs)
qed

text \<open>
  C18: Signals sent to a notification accumulate when nobody waits on it and no thread bound to it
  is blocked receiving: after any number of them the notification is active,
  and the thread that then receives gets the bitwise
  or of all their badges in its badge register, while the notification is idle again. A
  receiver without a scheduling context takes over the notification's, if that is free; otherwise it
  keeps what it has. The scheduler's queues are consistent, the refills of scheduling contexts can be
  replenished (\<open>refills_usable\<close>, before \<open>MAX_RELEASE_TIME\<close>), and the receiver is not
  in the release queue.
\<close>

theorem signals_accumulate:
  fixes s :: kstate and n :: word_t
  assumes "ntfn_state (ntfns s n) = NtfnState_Idle" and "bs \<noteq> []"
    and "ntfnBoundTCB (ntfns s n) = 0 \<or> ts_type (tcbState (tcbs s (ntfnBoundTCB (ntfns s n)))) \<noteq> ThreadState_BlockedOnReceive"
    and "queues_ok R Q s" "release_sorted s Q" "refills_usable s" "ksCurTime s < MAX_RELEASE_TIME"
    and "t \<noteq> 0" "\<not> in_release s t"
  defines "sc \<equiv> ntfnSchedContext (ntfns s n)"
  shows "\<exists>s1 s2. sendSignals n bs s = Some s1 \<and> ntfn_state (ntfns s1 n) = NtfnState_Active \<and>
    receiveSignal t (cap_notification_cap badge send recv n) blocking s1 = Some s2 \<and>
    getRegister s2 t badgeRegister = fold (OR) bs 0 \<and> ntfn_state (ntfns s2 n) = NtfnState_Idle \<and>
    tcbSchedContext (tcbs s2 t) = (if tcbSchedContext (tcbs s t) = 0 \<and> sc \<noteq> 0 \<and> scTcb (scs s sc) = 0
      then sc else tcbSchedContext (tcbs s t))"
proof -
  obtain b bs' where bs: "bs = b # bs'" using assms(2) by (cases bs) auto
  let ?a = "ntfn_set_active n b s" and ?m = "fold (OR) bs' b"
  have a: "ntfn_state (ntfns ?a n) = NtfnState_Active" "ntfnMsgIdentifier (ntfns ?a n) = b"
    by (simp_all add: ntfn_set_active_def notification_ptr_set_state_def upd_ntfn_def)
  define s1 where "s1 = upd_ntfn n (\<lambda>x. x\<lparr>ntfnMsgIdentifier := ?m\<rparr>) ?a"
  note defs = s1_def ntfn_set_active_def notification_ptr_set_state_def upd_ntfn_def
  have "sendSignal n b s = Some ?a" using assms(1,3) by (auto simp: sendSignal_def Let_def)
  then have s1: "sendSignals n bs s = Some s1" using sendSignals_active [OF a(1), of bs'] by (simp add: bs s1_def a(2))
  have f: "ntfn_state (ntfns s1 n) = NtfnState_Active" "ntfnMsgIdentifier (ntfns s1 n) = ?m"
    "ntfnSchedContext (ntfns s1 n) = sc" "tcbs s1 = tcbs s" "scs s1 = scs s" by (simp_all add: defs sc_def)
  have sq: "same_queue_state s s1" by (simp add: same_queue_state_def defs)
  have "queues_ok R Q s1" "release_sorted s1 Q" "refills_usable s1" "ksCurTime s1 < MAX_RELEASE_TIME" "\<not> in_release s1 t"
    using queues_ok_same [OF sq] assms(4-7,9) f(4,5)
    by (simp_all add: release_sorted_def tcbReadyTime_def refills_usable_def) (simp add: defs)
  from receive_active [OF f(1) this(1-4) assms(8) this(5), of badge send recv blocking] show ?thesis
    using s1 f by (auto simp: bs)
qed

text \<open>Example: a passive receiver and a notification with a free scheduling context.\<close>

definition signal_state :: kstate where
  "signal_state = zero_state\<lparr>ntfns := (\<lambda>_. zero_notification)(4096 := zero_notification\<lparr>ntfnSchedContext := 512\<rparr>)\<rparr>"

lemma signal_state_ok: "queues_ok no_ready [] signal_state"
proof -
  have q: "ksReadyQueues signal_state = (\<lambda>_. \<lparr>tcbq_head = 0, tcbq_end = 0\<rparr>)"
    "ksReleaseQueue signal_state = \<lparr>tcbq_head = 0, tcbq_end = 0\<rparr>"
    "ksReadyQueuesL1Bitmap signal_state = (\<lambda>_. 0)" "ksReadyQueuesL2Bitmap signal_state = (\<lambda>_ _. 0)"
    "tcbs signal_state = (\<lambda>_. zero_tcb)"
    by (simp_all add: signal_state_def zero_state_def)
  have "queue_links_ok no_ready [] signal_state"
    unfolding queue_links_ok_def by (simp add: no_ready_def sched_queue_def q) (simp add: zero_defs)
  then show ?thesis
    by (simp add: queues_ok_def bitmap_ok_def bitmap_l1_ok_def prio_bit_def q no_ready_def)
qed

theorem signals_accumulate_witness:
  "\<exists>s1 s2. sendSignals 4096 [1, 4, 5] signal_state = Some s1 \<and>
    receiveSignal 8192 (cap_notification_cap 0 True True 4096) True s1 = Some s2 \<and> getRegister s2 8192 badgeRegister = 5 \<and>
    tcbSchedContext (tcbs s2 8192) = 512"
proof -
  have "ntfn_state (ntfns signal_state 4096) = NtfnState_Idle" "ntfnBoundTCB (ntfns signal_state 4096) = 0"
    "ntfnSchedContext (ntfns signal_state 4096) = 512" "scTcb (scs signal_state 512) = 0"
    "tcbSchedContext (tcbs signal_state 8192) = 0" "\<not> in_release signal_state 8192"
    "refills_usable signal_state" "ksCurTime signal_state < MAX_RELEASE_TIME" "release_sorted signal_state []"
    using zero_refills by (simp_all add: signal_state_def release_sorted_def refills_usable_def zero_defs)
  with signals_accumulate [OF _ _ _ signal_state_ok, of 4096 "[1, 4, 5]" 8192 0 True True True] show ?thesis by auto
qed

text \<open>
  C17: A call donates the caller's scheduling context to a passive callee and its reply
  object becomes the head of the context's call stack (\<open>reply_push\<close>); the reply
  (\<open>reply_pop\<close>) gives the context back: every thread, scheduling context and other reply
  object then refers to what it did before the call, and the reply object is free again.
\<close>

theorem reply_push_pop:
  assumes "links_ok s" and "caller \<noteq> 0" "callee \<noteq> 0" "caller \<noteq> callee" "reply \<noteq> 0" "replyTCB (replies s reply) = 0"
    and "tcbSchedContext (tcbs s caller) = sc" "sc \<noteq> 0" "tcbSchedContext (tcbs s callee) = 0"
    and "s1 = reply_push caller callee reply True s" "s2 = reply_pop reply caller s1"
  shows "tcbSchedContext (tcbs s1 callee) = sc \<and> tcbSchedContext (tcbs s1 caller) = 0 \<and> scReply (scs s1 sc) = reply \<and>
    replyTCB (replies s1 reply) = caller \<and> ts_type (tcbState (tcbs s1 caller)) = ThreadState_BlockedOnReply \<and>
    (\<forall>t. tcbSchedContext (tcbs s2 t) = tcbSchedContext (tcbs s t)) \<and>
    (\<forall>c. scTcb (scs s2 c) = scTcb (scs s c) \<and> scReply (scs s2 c) = scReply (scs s c)) \<and>
    (\<forall>q. q \<noteq> reply \<longrightarrow> replies s2 q = replies s q) \<and> replyTCB (replies s2 reply) = 0 \<and>
    ts_type (tcbState (tcbs s2 caller)) = ThreadState_Inactive"
proof -
  note l = links_okD [OF assms(1)]
  let ?o = "scReply (scs s sc)"
  have own: "scTcb (scs s sc) = caller" using pairedD [OF l(1) assms(2,8)] assms(7) by simp
  have fr: "reply_prev s reply = 0" "callStackPtr (replyNext (replies s reply)) = 0"
    using reply_free [OF assms(1,5)] assms(6) by simp_all
  have old: "?o \<noteq> reply" "replyNext (replies s ?o) = call_stack_new sc True" if "?o \<noteq> 0"
  proof -
    have "reply_sc s ?o = sc" using pairedD [OF l(6) assms(8) that] by simp
    then show "?o \<noteq> reply" "replyNext (replies s ?o) = call_stack_new sc True"
      using assms(8) fr by (auto simp: stack_sc_def call_stack_new_def split: if_splits)
  qed
  define s0 where "s0 = setThreadStateBlockedOnReply caller reply (set_replyTCB reply caller s)"
  note i0 = ipc_block_reply [of caller reply "set_replyTCB reply caller s", folded s0_def]
  note f0 = ipc_state_thread [OF i0] ipc_stateD(5) [OF i0]
  have e1: "s1 = schedContext_donate sc callee (stack_push sc reply s0)"
    using assms by (simp add: reply_push_alt s0_def [symmetric] Let_def f0 setThreadState_tcb)
  note f1 = ipc_state_thread [OF ipc_donate] ipc_stateD(5) [OF ipc_donate] donate0_fields stack_push_fields f0 setThreadState_tcb
  have t1: "tcbSchedContext (tcbs s1 t) = (if t = callee then sc else if t = caller then 0 else tcbSchedContext (tcbs s t))"
    "scTcb (scs s1 c) = (if c = sc then callee else scTcb (scs s c))" "scReply (scs s1 c) = (if c = sc then reply else scReply (scs s c))"
    "ts_type (tcbState (tcbs s1 caller)) = ThreadState_BlockedOnReply" for t c
    using assms(2,4) own by (simp_all add: e1 f1)
  have r1: "replyTCB (replies s1 q) = (if q = reply then caller else replyTCB (replies s q))"
    "replyPrev (replies s1 q) = (if q = reply then call_stack_new ?o False else replyPrev (replies s q))"
    "replyNext (replies s1 q) = (if q = reply then call_stack_new sc True
      else if ?o \<noteq> 0 \<and> q = ?o then call_stack_new reply False else replyNext (replies s q))" for q
    by (simp_all add: e1 f1)
  note f2 = ipc_state_thread [OF ipc_reply_pop] ipc_stateD(5) [OF ipc_reply_pop] ipc_state_thread [OF ipc_reply_unlink]
    ipc_stateD(5) [OF ipc_reply_unlink] ipc_state_thread [OF ipc_donate] ipc_stateD(5) [OF ipc_donate] donate0_fields stack_pop_fields sc_to_def setThreadState_tcb
  have "tcbSchedContext (tcbs s2 t) = tcbSchedContext (tcbs s t)" "scTcb (scs s2 c) = scTcb (scs s c)"
    "scReply (scs s2 c) = scReply (scs s c)" "ts_type (tcbState (tcbs s2 caller)) = ThreadState_Inactive" for t c
    using assms(3,4,7,9) own by (simp_all add: assms(11) f2 t1 r1)
  moreover have "replies s2 q = replies s q" if "q \<noteq> reply" for q
    using that old by (intro reply.equality) (simp_all add: assms(11) f2 r1)
  moreover have "replyTCB (replies s2 reply) = 0" by (simp add: assms(11) f2)
  ultimately show ?thesis using t1 r1(1) assms(4) by simp
qed

text \<open>A thread with a scheduling context and a passive server.\<close>

definition caller_state :: kstate where
  "caller_state = zero_state\<lparr>tcbs := (\<lambda>_. zero_tcb)(ex_a := zero_tcb\<lparr>tcbSchedContext := 512\<rparr>),
     scs := (\<lambda>_. zero_sched_context)(512 := zero_sched_context\<lparr>scTcb := ex_a\<rparr>)\<rparr>"

lemma caller_state_links: "links_ok caller_state"
  by (simp add: links_ok_def paired_def stack_ok_def reply_of_def awaits_reply_def stack_sc_def stack_reply_def
      caller_state_def zero_defs)

theorem reply_push_pop_witness:
  "tcbSchedContext (tcbs (reply_push ex_a ex_b 64 True caller_state) ex_b) = 512 \<and>
   tcbSchedContext (tcbs (reply_pop 64 ex_a (reply_push ex_a ex_b 64 True caller_state)) ex_a) = 512"
  using reply_push_pop [OF caller_state_links, of ex_a ex_b 64 512 "reply_push ex_a ex_b 64 True caller_state"
      "reply_pop 64 ex_a (reply_push ex_a ex_b 64 True caller_state)"]
  by (simp add: caller_state_def zero_defs)

end
