(* ===== verification/SchedControl.thy ===== *)
theory SchedControl
  imports IpcSteps
begin

text \<open>
  What the kernel accepts as parameters of a scheduling context: the checks of
  \<open>decodeSchedControl_ConfigureFlags\<close> admit only parameters for which the refill
  operations keep their invariant, and the refills that are set satisfy it.
\<close>

section \<open>Refill buffers of scheduling contexts\<close>

lemma refill_absolute_max_bound:
  assumes "7 \<le> unat (capSCSizeBits cap)" "unat (capSCSizeBits cap) < 64"
  shows "MIN_REFILLS \<le> refill_absolute_max cap" "unat (refill_absolute_max cap) < 2 ^ 60"
    "96 + 16 * unat (refill_absolute_max cap) \<le> 2 ^ unat (capSCSizeBits cap)"
proof -
  let ?n = "unat (capSCSizeBits cap)"
  have b: "unat (BIT ?n) = 2 ^ ?n" using assms(2) by (rule unat_BIT)
  have p: "(2::nat) ^ 7 \<le> 2 ^ ?n" "(2::nat) ^ ?n < 2 ^ 64"
    using assms by (simp_all only: power_increasing_iff power_strict_increasing_iff)
  then have "unat (BIT ?n - 96) = 2 ^ ?n - 96" using b by (subst unat_sub) (simp_all add: word_le_nat_alt b)
  then have m: "unat (refill_absolute_max cap) = (2 ^ ?n - 96) div 16" by (simp add: refill_absolute_max_def unat_div)
  show "MIN_REFILLS \<le> refill_absolute_max cap" using p(1) by (simp add: word_le_nat_alt MIN_REFILLS_def m)
  show "unat (refill_absolute_max cap) < 2 ^ 60" using p(2) by (simp add: m)
  show "96 + 16 * unat (refill_absolute_max cap) \<le> 2 ^ ?n" using p(1) by (simp add: m)
qed

lemma extra_refills_bound:
  assumes "7 \<le> unat (capSCSizeBits cap)" "unat (capSCSizeBits cap) < 64" "extra \<le> refill_absolute_max cap - MIN_REFILLS"
  shows "MIN_REFILLS \<le> extra + MIN_REFILLS" "extra + MIN_REFILLS \<le> refill_absolute_max cap"
proof -
  note m = refill_absolute_max_bound [OF assms(1,2)]
  have "unat extra \<le> unat (refill_absolute_max cap) - 2"
    using assms(3) m(1) by (simp add: word_le_nat_alt unat_sub MIN_REFILLS_def)
  moreover from this have "unat (extra + MIN_REFILLS) = unat extra + 2"
    using m(2) by (simp add: unat_word_ariths MIN_REFILLS_def)
  ultimately show "MIN_REFILLS \<le> extra + MIN_REFILLS" "extra + MIN_REFILLS \<le> refill_absolute_max cap"
    using m(1) by (simp_all add: word_le_nat_alt MIN_REFILLS_def)
qed

section \<open>Configuring a scheduling context\<close>

text \<open>
  The state in which the refills are set: the thread of the context, if it has one, is taken off its
  queue, and the time used so far is billed if the context is the current one.
\<close>

definition configure_start :: "word_t \<Rightarrow> kstate \<Rightarrow> kstate option" where
  "configure_start target s =
     (if scTcb (scs s target) \<noteq> 0 then
        let s = tcbSchedDequeue (scTcb (scs s target)) (tcbReleaseRemove (scTcb (scs s target)) s)
        in if ksCurSC s = target then commitTime s else Some s
      else Some s)"

lemma setThreadState_clock: "ksCurTime (setThreadState t ts s) = ksCurTime s" "scs (setThreadState t ts s) = scs s"
  using core_stateD(1,7) [OF core_setThreadState [of t ts s]] by (simp_all add: set_tcbState_def upd_tcb_def)

lemma commitTime_clock: "commitTime s = Some s' \<Longrightarrow> ksCurTime s' = ksCurTime s"
  by (auto simp: commitTime_def cur_refill_budget_check_def upd_sc_def Let_def split: if_splits Option.bind_splits)

lemma configure_start_clock: "configure_start target s = Some s1 \<Longrightarrow> ksCurTime s1 = ksCurTime s"
  using core_stateD(7) [of "tcbSchedDequeue t (tcbReleaseRemove t s)" s for t]
  by (auto simp: configure_start_def Let_def dest!: commitTime_clock split: if_splits)

lemma configure_run:
  assumes "invokeSchedControl_ConfigureFlags target budget period maxr badge flags s = Some s'"
  shows "\<exists>s1. configure_start target s = Some s1 \<and>
    scs s' target = (scs (configure_refills target (scTcb (scs s target)) budget period maxr s1) target)
      \<lparr>scBadge := badge, scSporadic := (flags AND seL4_SchedContext_Sporadic \<noteq> 0)\<rparr>"
proof -
  let ?thread = "scTcb (scs s target)"
  obtain s1 s2 s3 where s1: "configure_start target s = Some s1"
    and s2: "s2 = configure_refills target ?thread budget period maxr s1"
    and s3: "(if ?thread \<noteq> 0 then do {
             s \<leftarrow> schedContext_resume target s2;
             let s = (if isRunnable (tcbs s ?thread) \<and> ?thread \<noteq> ksCurThread s then possibleSwitchTo ?thread s else s);
             Some (if ?thread = ksCurThread s then rescheduleRequired s else s)
           } else Some s2) = Some s3"
    and s': "s' = upd_sc target (\<lambda>c. c\<lparr>scSporadic := (flags AND seL4_SchedContext_Sporadic \<noteq> 0)\<rparr>)
       (upd_sc target (\<lambda>c. c\<lparr>scBadge := badge\<rparr>) s3)"
    using assms unfolding invokeSchedControl_ConfigureFlags_def configure_start_def Let_def
    by (auto split: Option.bind_splits)
  have "core_state s3 = core_state s2"
    using s3 by (auto simp: Let_def dest!: core_schedContext_resume split: if_splits Option.bind_splits)
  then have "scs s3 = scs s2" by (rule core_stateD(1))
  then show ?thesis using s1 s2 by (auto simp: s' upd_sc_def)
qed

lemma refills_ok_badge [simp]:
  "refills_ok B (sc\<lparr>scBadge := b, scSporadic := f\<rparr>) = refills_ok B sc"
  "isRoundRobin (sc\<lparr>scBadge := b, scSporadic := f\<rparr>) = isRoundRobin sc"
proof -
  let ?sc = "sc\<lparr>scBadge := b, scSporadic := f\<rparr>"
  show rr: "isRoundRobin ?sc = isRoundRobin sc" by (simp add: isRoundRobin_def)
  have "refill_size ?sc = refill_size sc" "refill_slot ?sc = refill_slot sc"
    by (simp_all add: refill_size_def refill_slot_def fun_eq_iff)
  then have "refills_of ?sc = refills_of sc" "valid_refills ?sc = valid_refills sc"
    by (simp_all add: refills_of_def valid_refills_def)
  then show "refills_ok B ?sc = refills_ok B sc"
    unfolding refills_ok_def rr by (simp add: rr_refills_ok_def sc_refills_ok_def)
qed

lemma refill_period: "scPeriod (refill_new now m b p sc) = p" "scPeriod (refill_update now p b m sc) = p"
proof -
  have [simp]: "scPeriod (set_refill_head r sc) = scPeriod sc" "scPeriod (refill_add_tail r sc) = scPeriod sc"
    "scPeriod (maybe_add_empty_tail sc) = scPeriod sc" for r sc
    by (simp_all add: set_refill_head_def set_refill_tail_def set_refill_index_def refill_add_tail_def maybe_add_empty_tail_def Let_def)
  show "scPeriod (refill_new now m b p sc) = p" "scPeriod (refill_update now p b m sc) = p"
    by (simp_all add: refill_new_def refill_update_def Let_def)
qed

lemma configure_refills_ok:
  fixes thread target :: word_t and s :: kstate
  assumes g: "good_params maxr budget period" and now: "ksCurTime s < MAX_RELEASE_TIME"
    and head: "budget \<noteq> period \<and> sc_active (scs s target) \<longrightarrow>
      0 < rAmount (refill_head (scs s target)) \<and> rTime (refill_head (scs s target)) < MAX_RELEASE_TIME"
  shows "refills_ok (unat budget) (scs (configure_refills target thread budget period maxr s) target)"
    and "isRoundRobin (scs (configure_refills target thread budget period maxr s) target) \<longleftrightarrow> budget = period"
proof -
  let ?sc = "scs (configure_refills target thread budget period maxr s) target"
  note p = good_paramsD [OF g]
  have "period \<noteq> 0" using p min_budget_value by (auto simp: word_le_nat_alt)
  then show "isRoundRobin ?sc \<longleftrightarrow> budget = period"
    by (simp add: configure_refills_def upd_sc_def isRoundRobin_def refill_period)
  show "refills_ok (unat budget) ?sc"
  proof (cases "budget = period")
    case True
    then have "?sc = refill_new (ksCurTime s) MIN_REFILLS budget 0 (scs s target)"
      by (simp add: configure_refills_def upd_sc_def)
    then show ?thesis using True p now refills_okI(2) [OF rr_new_ok] by simp
  next
    case False
    then show ?thesis
      using p now head refills_okI(1) [OF refill_new_ok] refills_okI(1) [OF refill_update_ok]
      by (simp add: configure_refills_def upd_sc_def)
  qed
qed

text \<open>
  Charging a round-robin context is \<open>rr_consume\<close> within its budget (\<open>commitTime\<close>) and \<open>rr_recharge\<close> at the
  end of its time slice (\<open>chargeBudget\<close>), besides the total of the time consumed.
\<close>

lemma commitTime_round_robin:
  assumes "isRoundRobin (scs s (ksCurSC s))" "sc_active (scs s (ksCurSC s))" "ksCurSC s \<noteq> ksIdleSC s" "0 < ksConsumed s"
  shows "\<exists>s'. commitTime s = Some s' \<and> scs s' = (scs s)(ksCurSC s := (rr_consume (ksConsumed s) (scs s (ksCurSC s)))
    \<lparr>scConsumed := scConsumed (rr_consume (ksConsumed s) (scs s (ksCurSC s))) + ksConsumed s\<rparr>)"
  using assms by (simp add: commitTime_def rr_consume_def upd_sc_def Let_def)

lemma charge_current_round_robin:
  assumes "isRoundRobin (scs s (ksCurSC s))" "ksCurSC s \<noteq> ksIdleSC s"
  shows "\<exists>s'. charge_current consumed s = Some s' \<and> scs s' = (scs s)(ksCurSC s := (rr_recharge (scs s (ksCurSC s)))
    \<lparr>scConsumed := scConsumed (rr_recharge (scs s (ksCurSC s))) + consumed\<rparr>)"
  using assms by (simp add: charge_current_def rr_recharge_def upd_sc_def Let_def)

section \<open>Properties\<close>

text \<open>
  C19: Configuring a scheduling context. A rejected call changes nothing but the error
  register. An accepted call configures the context with a budget of at least
  \<open>MIN_BUDGET\<close>, at most the period, which is at most \<open>MAX_PERIOD_US\<close>, and with no more refills
  than fit behind the context in its memory. The refills of the context then satisfy the invariant
  for the new budget, as a round-robin context exactly when the budget equals the
  period: provided that the clock is before \<open>MAX_RELEASE_TIME\<close> and, when the budget differs
  from the period and the context was active, that its
  head refill was not empty and was due before that time once the time used was billed. The size of a scheduling context
  capability is between 7 and 63 bits.
\<close>

theorem decodeSchedControl_admits:
  fixes s s' :: kstate
  defines "cap \<equiv> cte_cap (ctes s (current_extra_caps s 0))"
    and "s0 \<equiv> setThreadState (ksCurThread s) ThreadState_Restart s"
  assumes "decodeSchedControl_ConfigureFlags len buffer s = Some (e, s')"
    and "is_cap_sched_context_cap cap \<longrightarrow> 7 \<le> unat (capSCSizeBits cap) \<and> unat (capSCSizeBits cap) < 64"
  shows "only_error e s s' \<or>
    (\<exists>budget period maxr badge flags s1. e = EXCEPTION_NONE \<and> is_cap_sched_context_cap cap \<and>
      invokeSchedControl_ConfigureFlags (capSCPtr cap) budget period maxr badge flags s0 = Some s' \<and>
      good_params maxr budget period \<and> 96 + 16 * unat maxr \<le> 2 ^ unat (capSCSizeBits cap) \<and>
      configure_start (capSCPtr cap) s0 = Some s1 \<and>
      (ksCurTime s < MAX_RELEASE_TIME \<and>
        (budget \<noteq> period \<and> sc_active (scs s1 (capSCPtr cap)) \<longrightarrow>
          0 < rAmount (refill_head (scs s1 (capSCPtr cap))) \<and> rTime (refill_head (scs s1 (capSCPtr cap))) < MAX_RELEASE_TIME) \<longrightarrow>
       refills_ok (unat budget) (scs s' (capSCPtr cap)) \<and> (isRoundRobin (scs s' (capSCPtr cap)) \<longleftrightarrow> budget = period)))"
proof -
  let ?b = "mode_parseTimeArg 0 buffer s" and ?p = "mode_parseTimeArg TIME_ARG_SIZE buffer s"
  let ?x = "getSyscallArg (TIME_ARG_SIZE * 2) buffer s"
  show ?thesis
  proof (cases "only_error e s s'")
    case False
    have r: "?p \<le> MAX_PERIOD_US" "MIN_BUDGET \<le> usToTicks ?b" "usToTicks ?b \<le> usToTicks ?p"
      "?x \<le> refill_absolute_max cap - MIN_REFILLS" "e = EXCEPTION_NONE" "is_cap_sched_context_cap cap"
      "invokeSchedControl_ConfigureFlags (capSCPtr cap) (usToTicks ?b) (usToTicks ?p) (?x + MIN_REFILLS)
        (getSyscallArg (TIME_ARG_SIZE * 2 + 1) buffer s) (getSyscallArg (TIME_ARG_SIZE * 2 + 2) buffer s) s0 = Some s'"
      using assms(3) False unfolding cap_def s0_def
      by (auto simp: decodeSchedControl_ConfigureFlags_def Let_def budget_range_error_def not_less
          dest!: only_error_fail split: if_splits)
    have size: "7 \<le> unat (capSCSizeBits cap)" "unat (capSCSizeBits cap) < 64" using assms(4) r(6) by simp_all
    note x = extra_refills_bound [OF size r(4)]
    have g: "good_params (?x + MIN_REFILLS) (usToTicks ?b) (usToTicks ?p)"
      using r(1-3) x(1) by (simp add: good_params_def usToTicks_def TICKS_IN_US_def)
    have "96 + 16 * unat (?x + MIN_REFILLS) \<le> 2 ^ unat (capSCSizeBits cap)"
      using refill_absolute_max_bound(3) [OF size] x(2) by (simp add: word_le_nat_alt)
    moreover from configure_run [OF r(7)] obtain s1 where s1: "configure_start (capSCPtr cap) s0 = Some s1"
      and sc: "scs s' (capSCPtr cap) = (scs (configure_refills (capSCPtr cap) (scTcb (scs s0 (capSCPtr cap)))
        (usToTicks ?b) (usToTicks ?p) (?x + MIN_REFILLS) s1) (capSCPtr cap))
        \<lparr>scBadge := getSyscallArg (TIME_ARG_SIZE * 2 + 1) buffer s,
          scSporadic := (getSyscallArg (TIME_ARG_SIZE * 2 + 2) buffer s AND seL4_SchedContext_Sporadic \<noteq> 0)\<rparr>" by blast
    moreover have "ksCurTime s1 = ksCurTime s"
      using configure_start_clock [OF s1] by (simp add: s0_def setThreadState_clock)
    moreover note configure_refills_ok [OF g, of s1 "capSCPtr cap"]
    ultimately show ?thesis using r(5-7) g unfolding sc by (simp, blast)
  qed simp
qed

text \<open>A call that configures the scheduling context at 1024 with budget 100 and period 1000.\<close>

definition configure_state :: kstate where
  "configure_state = zero_state\<lparr>ctes := (\<lambda>_. zero_cte)(64 := zero_cte\<lparr>cte_cap := cap_sched_context_cap 1024 9\<rparr>),
     current_extra_caps := (\<lambda>_. 0)(0 := 64),
     tcbs := (\<lambda>_. zero_tcb\<lparr>tcbContext := (\<lambda>r. if r = msgRegisters ! 0 then 100 else if r = msgRegisters ! 1 then 1000 else 0)\<rparr>)\<rparr>"

lemma configure_accepts:
  "\<exists>s'. decodeSchedControl_ConfigureFlags 5 0 configure_state = Some (EXCEPTION_NONE, s')"
proof -
  have a: "getSyscallArg 0 0 configure_state = 100" "getSyscallArg 1 0 configure_state = 1000" "getSyscallArg 2 0 configure_state = 0"
    by (simp_all add: getSyscallArg_def n_msgRegisters_def getRegister_def msgRegisters_def configure_state_def)
  have c: "current_extra_caps configure_state 0 = 64" "cte_cap (ctes configure_state 64) = cap_sched_context_cap 1024 9"
    "scTcb (scs configure_state c) = 0" for c
    by (simp_all add: configure_state_def zero_defs)
  have m: "refill_absolute_max (cap_sched_context_cap 1024 9) = 26" by (simp add: refill_absolute_max_def BIT_def)
  show "\<exists>s'. decodeSchedControl_ConfigureFlags 5 0 configure_state = Some (EXCEPTION_NONE, s')"
    by (simp add: decodeSchedControl_ConfigureFlags_def c mode_parseTimeArg_def TIME_ARG_SIZE_def a MAX_PERIOD_US_def usToTicks_def
        TICKS_IN_US_def MIN_BUDGET_def getKernelWcetTicks_def getKernelWcetUs_def m MIN_REFILLS_def Let_def
        invokeSchedControl_ConfigureFlags_def)
qed

theorem decodeSchedControl_admits_witness:
  "\<exists>s' B. decodeSchedControl_ConfigureFlags 5 0 configure_state = Some (EXCEPTION_NONE, s') \<and>
     refills_ok B (scs s' 1024)"
proof -
  obtain s' where s': "decodeSchedControl_ConfigureFlags 5 0 configure_state = Some (EXCEPTION_NONE, s')"
    using configure_accepts by blast
  have c: "cte_cap (ctes configure_state (current_extra_caps configure_state 0)) = cap_sched_context_cap 1024 9"
    "scTcb (scs configure_state p) = 0" "\<not> sc_active (scs configure_state p)" for p
    by (simp_all add: configure_state_def zero_defs sc_active_def)
  have "ksCurTime configure_state < MAX_RELEASE_TIME"
    by (simp add: configure_state_def zero_defs word_less_nat_alt max_release_time_value max_period_value)
  then show ?thesis using decodeSchedControl_admits [OF s'] s' c
    by (auto simp: only_error_def configure_start_def setThreadState_clock)
qed

end
