(* ===== verification/VSpace.thy ===== *)
theory VSpace
  imports Untyped
begin

text \<open>
  Virtual memory of the RISC-V port (\<^verbatim>\<open>src/arch/riscv/kernel/vspace.c\<close>): the walk of the three-level
  page tables, mapping and unmapping of frames and page tables, ASID pools, and the decoding
  of the invocations of these objects.

  A page table is its address; entry \<open>i\<close> of the table at \<open>pt\<close> is at \<open>pte_at pt i\<close>. Fences and flushes
  are not modelled. \<open>translate\<close> is the walk the hardware makes (RISC-V privileged specification,
  Sv39), against which the kernel's own walk and the effect of the invocations are stated.
\<close>

section \<open>Page table entries\<close>

definition CONFIG_PT_LEVELS :: nat where "CONFIG_PT_LEVELS = 3"
definition PT_INDEX_BITS :: nat where "PT_INDEX_BITS = 9"
definition seL4_PageTableBits :: nat where "seL4_PageTableBits = 12"
definition USER_TOP :: word_t where "USER_TOP = 0x3ffffff000"

definition RISCV_GET_LVL_PGSIZE_BITS :: "nat \<Rightarrow> nat" where
  "RISCV_GET_LVL_PGSIZE_BITS n = PT_INDEX_BITS * ((CONFIG_PT_LEVELS - 1) - n) + seL4_PageBits"

definition RISCV_GET_PT_INDEX :: "word_t \<Rightarrow> nat \<Rightarrow> word_t" where
  "RISCV_GET_PT_INDEX addr n = drop_bit (RISCV_GET_LVL_PGSIZE_BITS n) addr AND MASK PT_INDEX_BITS"

definition pte_at :: "word_t \<Rightarrow> word_t \<Rightarrow> word_t" where
  "pte_at pt i = pt + push_bit 3 i"

text \<open>\<^verbatim>\<open>pte_new\<close> keeps the 44 bits of the page number field; the software bits are always 0.\<close>

definition pte_new :: "word_t \<Rightarrow> word_t \<Rightarrow> bool \<Rightarrow> bool \<Rightarrow> bool \<Rightarrow> bool \<Rightarrow> bool \<Rightarrow> bool \<Rightarrow> bool \<Rightarrow> bool \<Rightarrow> pte" where
  "pte_new n sw dirty accessed global user execute write read valid =
     \<lparr>ppn = n AND MASK 44, pte_sw = sw AND MASK 2, pte_dirty = dirty, pte_accessed = accessed, pte_global = global,
      pte_user = user, pte_execute = execute, pte_write = write, pte_read = read, pte_valid = valid\<rparr>"

definition RISCVGetWriteFromVMRights :: "vm_rights \<Rightarrow> bool" where
  "RISCVGetWriteFromVMRights vm_rights \<longleftrightarrow> vm_rights = VMReadWrite"

definition RISCVGetReadFromVMRights :: "vm_rights \<Rightarrow> bool" where
  "RISCVGetReadFromVMRights vm_rights \<longleftrightarrow> vm_rights \<noteq> VMKernelOnly"

definition isPTEPageTable :: "pte \<Rightarrow> bool" where
  "isPTEPageTable pte \<longleftrightarrow> pte_valid pte \<and> \<not> (pte_read pte \<or> pte_write pte \<or> pte_execute pte)"

definition pte_pte_invalid_new :: pte where
  "pte_pte_invalid_new = zero_pte"

definition makeUserPTE :: "word_t \<Rightarrow> bool \<Rightarrow> vm_rights \<Rightarrow> pte" where
  "makeUserPTE paddr executable vm_rights =
     (let write = RISCVGetWriteFromVMRights vm_rights;
          read = RISCVGetReadFromVMRights vm_rights
      in if \<not> read \<and> \<not> write \<and> \<not> executable then pte_pte_invalid_new
         else pte_new (drop_bit seL4_PageBits paddr) 0 True True False True executable write read True)"

definition getPPtrFromHWPTE :: "pte \<Rightarrow> word_t" where
  "getPPtrFromHWPTE pte = ptrFromPAddr (push_bit seL4_PageTableBits (ppn pte))"

definition checkVPAlignment :: "vm_page_size \<Rightarrow> word_t \<Rightarrow> bool" where
  "checkVPAlignment sz w \<longleftrightarrow> w AND MASK (pageBitsForSize sz) = 0"

definition copyGlobalMappings :: "word_t \<Rightarrow> kstate \<Rightarrow> kstate" where
  "copyGlobalMappings newLvl1pt s =
     fold (\<lambda>i s. upd_pte (pte_at newLvl1pt (of_nat i)) (ptes s (pte_at (kernel_root_pageTable s) (of_nat i))) s)
       [unat (RISCV_GET_PT_INDEX PPTR_BASE 0)..<2 ^ PT_INDEX_BITS] s"

section \<open>The walk\<close>

record lookupPTSlot_ret =
  ptSlot :: word_t
  ptBitsLeft :: nat

fun lookupPTSlot_loop :: "nat \<Rightarrow> word_t \<Rightarrow> lookupPTSlot_ret \<Rightarrow> kstate \<Rightarrow> lookupPTSlot_ret" where
  "lookupPTSlot_loop 0 vptr ret s = ret"
| "lookupPTSlot_loop (Suc level) vptr ret s =
     (if isPTEPageTable (ptes s (ptSlot ret)) then
        let bitsLeft = ptBitsLeft ret - PT_INDEX_BITS;
            pt = getPPtrFromHWPTE (ptes s (ptSlot ret))
        in lookupPTSlot_loop level vptr
             \<lparr>ptSlot = pte_at pt (drop_bit bitsLeft vptr AND MASK PT_INDEX_BITS), ptBitsLeft = bitsLeft\<rparr> s
      else ret)"

definition lookupPTSlot :: "word_t \<Rightarrow> word_t \<Rightarrow> kstate \<Rightarrow> lookupPTSlot_ret" where
  "lookupPTSlot lvl1pt vptr s =
     (let level = CONFIG_PT_LEVELS - 1;
          bitsLeft = PT_INDEX_BITS * level + seL4_PageBits
      in lookupPTSlot_loop level vptr
           \<lparr>ptSlot = pte_at lvl1pt (drop_bit bitsLeft vptr AND MASK PT_INDEX_BITS), ptBitsLeft = bitsLeft\<rparr> s)"

section \<open>Faults and checks\<close>

definition RISCVInstructionAccessFault :: word_t where "RISCVInstructionAccessFault = 1"
definition RISCVLoadAccessFault :: word_t where "RISCVLoadAccessFault = 5"
definition RISCVStoreAccessFault :: word_t where "RISCVStoreAccessFault = 7"
definition RISCVInstructionPageFault :: word_t where "RISCVInstructionPageFault = 12"
definition RISCVLoadPageFault :: word_t where "RISCVLoadPageFault = 13"
definition RISCVStorePageFault :: word_t where "RISCVStorePageFault = 15"

text \<open>The faulting address \<open>addr\<close> is read from a register of the hardware.\<close>

definition handleVMFault :: "word_t \<Rightarrow> word_t \<Rightarrow> word_t \<Rightarrow> kstate \<Rightarrow> (exception \<times> kstate) option" where
  "handleVMFault addr thread vm_faultType s =
     (if vm_faultType = RISCVLoadPageFault \<or> vm_faultType = RISCVLoadAccessFault then
        Some (EXCEPTION_FAULT, s\<lparr>current_fault := VMFault addr RISCVLoadAccessFault False\<rparr>)
      else if vm_faultType = RISCVStorePageFault \<or> vm_faultType = RISCVStoreAccessFault then
        Some (EXCEPTION_FAULT, s\<lparr>current_fault := VMFault addr RISCVStoreAccessFault False\<rparr>)
      else if vm_faultType = RISCVInstructionPageFault \<or> vm_faultType = RISCVInstructionAccessFault then
        Some (EXCEPTION_FAULT, s\<lparr>current_fault := VMFault addr RISCVInstructionAccessFault True\<rparr>)
      else None)"

definition isValidVTableRoot :: "cap \<Rightarrow> bool" where
  "isValidVTableRoot cap \<longleftrightarrow> is_cap_page_table_cap cap \<and> capPTIsMapped cap"

definition checkValidIPCBuffer :: "word_t \<Rightarrow> cap \<Rightarrow> kstate \<Rightarrow> exception \<times> kstate" where
  "checkValidIPCBuffer vptr cap s =
     (if \<not> is_cap_frame_cap cap then syscall_fail (\<lambda>e. e\<lparr>err_type := seL4_IllegalOperation\<rparr>) s
      else if capFIsDevice cap then syscall_fail (\<lambda>e. e\<lparr>err_type := seL4_IllegalOperation\<rparr>) s
      else if vptr AND MASK seL4_IPCBufferSizeBits \<noteq> 0 then
        syscall_fail (\<lambda>e. e\<lparr>err_type := seL4_AlignmentError\<rparr>) s
      else (EXCEPTION_NONE, s))"

section \<open>Removing mappings\<close>

definition set_asid_entry :: "word_t \<Rightarrow> word_t \<Rightarrow> word_t \<Rightarrow> kstate \<Rightarrow> kstate" where
  "set_asid_entry poolPtr i root s =
     s\<lparr>asid_pools := (asid_pools s)(poolPtr := (asid_pools s poolPtr)(i := root))\<rparr>"

definition deleteASIDPool :: "word_t \<Rightarrow> word_t \<Rightarrow> kstate \<Rightarrow> kstate" where
  "deleteASIDPool asid_base pool s =
     (if riscvKSASIDTable s (ASID_HIGH asid_base) = pool then
        let s = s\<lparr>riscvKSASIDTable := (riscvKSASIDTable s)(ASID_HIGH asid_base := 0)\<rparr>
        in setVMRoot (ksCurThread s) s
      else s)"

definition deleteASID :: "word_t \<Rightarrow> word_t \<Rightarrow> kstate \<Rightarrow> kstate" where
  "deleteASID asid vspace s =
     (let poolPtr = riscvKSASIDTable s (ASID_HIGH asid)
      in if poolPtr \<noteq> 0 \<and> asid_pools s poolPtr (ASID_LOW asid) = vspace then
           let s = set_asid_entry poolPtr (ASID_LOW asid) 0 s
           in setVMRoot (ksCurThread s) s
         else s)"

text \<open>
  The loop of \<open>unmapPageTable\<close> at level \<open>i\<close>, with \<open>n\<close> levels left: the table it stops at and the
  entry it came from (\<open>None\<close> is the null pointer before the first step), or \<open>None\<close> for the early return.
\<close>

fun unmapPageTable_loop ::
  "nat \<Rightarrow> nat \<Rightarrow> word_t \<Rightarrow> word_t \<Rightarrow> word_t \<Rightarrow> word_t option \<Rightarrow> kstate \<Rightarrow> (word_t \<times> word_t option) option" where
  "unmapPageTable_loop i 0 vptr target_pt pt slot s = Some (pt, slot)"
| "unmapPageTable_loop i (Suc n) vptr target_pt pt slot s =
     (if pt = target_pt then Some (pt, slot)
      else
        let slot = pte_at pt (RISCV_GET_PT_INDEX vptr i)
        in if \<not> isPTEPageTable (ptes s slot) then None
           else unmapPageTable_loop (Suc i) n vptr target_pt (getPPtrFromHWPTE (ptes s slot)) (Some slot) s)"

text \<open>\<open>None\<close> is the write through a null pointer, for the root of the address space.\<close>

definition unmapPageTable :: "word_t \<Rightarrow> word_t \<Rightarrow> word_t \<Rightarrow> kstate \<Rightarrow> kstate option" where
  "unmapPageTable asid vptr target_pt s =
     (let (find_ret, s) = findVSpaceForASID asid s
      in if fv_status find_ret \<noteq> EXCEPTION_NONE then Some s
         else case unmapPageTable_loop 0 (CONFIG_PT_LEVELS - 1) vptr target_pt (vspace_root find_ret) None s of
             None \<Rightarrow> Some s
           | Some (pt, slot) \<Rightarrow>
               if pt \<noteq> target_pt then Some s
               else map_option (\<lambda>slot. upd_pte slot (pte_new 0 0 False False False False False False False False) s) slot)"

definition unmapPage :: "vm_page_size \<Rightarrow> word_t \<Rightarrow> word_t \<Rightarrow> word_t \<Rightarrow> kstate \<Rightarrow> kstate" where
  "unmapPage page_size asid vptr pptr s =
     (let (find_ret, s) = findVSpaceForASID asid s
      in if fv_status find_ret \<noteq> EXCEPTION_NONE then s
         else
           let lu_ret = lookupPTSlot (vspace_root find_ret) vptr s;
               pte = ptes s (ptSlot lu_ret)
           in if ptBitsLeft lu_ret \<noteq> pageBitsForSize page_size then s
              else if \<not> pte_valid pte \<or> isPTEPageTable pte \<or> push_bit seL4_PageBits (ppn pte) \<noteq> addrFromPPtr pptr then s
              else upd_pte (ptSlot lu_ret) pte_pte_invalid_new s)"

section \<open>Invocations\<close>

definition cap_frame_cap_set_mapping :: "word_t \<Rightarrow> word_t \<Rightarrow> cap \<Rightarrow> cap" where
  "cap_frame_cap_set_mapping asid vaddr cap =
     (case cap of cap_frame_cap _ b sz r d _ \<Rightarrow> cap_frame_cap asid b sz r d vaddr | _ \<Rightarrow> cap)"

definition cap_page_table_cap_set_mapping :: "word_t \<Rightarrow> word_t \<Rightarrow> cap \<Rightarrow> cap" where
  "cap_page_table_cap_set_mapping asid vaddr cap =
     (case cap of cap_page_table_cap _ b _ _ \<Rightarrow> cap_page_table_cap asid b True vaddr | _ \<Rightarrow> cap)"

definition cap_page_table_cap_set_capPTIsMapped :: "bool \<Rightarrow> cap \<Rightarrow> cap" where
  "cap_page_table_cap_set_capPTIsMapped m cap =
     (case cap of cap_page_table_cap asid b _ v \<Rightarrow> cap_page_table_cap asid b m v | _ \<Rightarrow> cap)"

definition performPageTableInvocationMap :: "cap \<Rightarrow> word_t \<Rightarrow> pte \<Rightarrow> word_t \<Rightarrow> kstate \<Rightarrow> exception \<times> kstate" where
  "performPageTableInvocationMap cap ctSlot pte slot s = (EXCEPTION_NONE, upd_pte slot pte (set_cap ctSlot cap s))"

definition performPageTableInvocationUnmap :: "cap \<Rightarrow> word_t \<Rightarrow> kstate \<Rightarrow> (exception \<times> kstate) option" where
  "performPageTableInvocationUnmap cap ctSlot s = do {
     s \<leftarrow> (if capPTIsMapped cap then do {
            let pt = capPTBasePtr cap;
            s \<leftarrow> unmapPageTable (capPTMappedASID cap) (capPTMappedAddress cap) pt s;
            Some (clearMemory pt seL4_PageTableBits s)
          } else Some s);
     Some (EXCEPTION_NONE,
       set_cap ctSlot (cap_page_table_cap_set_capPTIsMapped False (cte_cap (ctes s ctSlot))) s)
   }"

definition performPageGetAddress :: "word_t \<Rightarrow> bool \<Rightarrow> kstate \<Rightarrow> exception \<times> kstate" where
  "performPageGetAddress vbase_ptr call s =
     (let base = addrFromPPtr vbase_ptr;
          thread = ksCurThread s;
          s = (if call then
                 let ipcBuffer = lookupIPCBuffer True thread s;
                     s = setRegister thread badgeRegister 0 s;
                     (len, s) = setMR thread ipcBuffer 0 base s
                 in setRegister thread msgInfoRegister (wordFromMessageInfo (seL4_MessageInfo_new 0 0 0 len)) s
               else s)
      in (EXCEPTION_NONE, setThreadState (ksCurThread s) ThreadState_Running s))"

definition updatePTE :: "pte \<Rightarrow> word_t \<Rightarrow> kstate \<Rightarrow> exception \<times> kstate" where
  "updatePTE pte base s = (EXCEPTION_NONE, upd_pte base pte s)"

definition performPageInvocationMapPTE :: "cap \<Rightarrow> word_t \<Rightarrow> pte \<Rightarrow> word_t \<Rightarrow> kstate \<Rightarrow> exception \<times> kstate" where
  "performPageInvocationMapPTE cap ctSlot pte base s = updatePTE pte base (set_cap ctSlot cap s)"

definition performPageInvocationUnmap :: "cap \<Rightarrow> word_t \<Rightarrow> kstate \<Rightarrow> exception \<times> kstate" where
  "performPageInvocationUnmap cap ctSlot s =
     (let s = (if capFMappedASID cap \<noteq> asidInvalid
               then unmapPage (capFSize cap) (capFMappedASID cap) (capFMappedAddress cap) (capFBasePtr cap) s else s)
      in (EXCEPTION_NONE, set_cap ctSlot (cap_frame_cap_set_mapping asidInvalid 0 (cte_cap (ctes s ctSlot))) s))"

definition performASIDControlInvocation :: "word_t \<Rightarrow> word_t \<Rightarrow> word_t \<Rightarrow> word_t \<Rightarrow> kstate \<Rightarrow> exception \<times> kstate" where
  "performASIDControlInvocation frame slot parent asid_base s =
     (let parentCap = cte_cap (ctes s parent);
          s = set_cap parent (cap_untyped_cap_set_capFreeIndex parentCap (MAX_FREE_INDEX (capBlockSize parentCap))) s;
          s = clearMemory frame (pageBitsForSize RISCV_4K_Page) s;
          s = cteInsert (cap_asid_pool_cap asid_base frame) parent slot s
      in (EXCEPTION_NONE, s\<lparr>riscvKSASIDTable := (riscvKSASIDTable s)(ASID_HIGH asid_base := frame)\<rparr>))"

definition performASIDPoolInvocation :: "word_t \<Rightarrow> word_t \<Rightarrow> word_t \<Rightarrow> kstate \<Rightarrow> exception \<times> kstate" where
  "performASIDPoolInvocation asid poolPtr vspaceCapSlot s =
     (let cap = cte_cap (ctes s vspaceCapSlot);
          regionBase = capPTBasePtr cap;
          s = set_cap vspaceCapSlot (cap_page_table_cap_set_mapping asid 0 cap) s;
          s = copyGlobalMappings regionBase s
      in (EXCEPTION_NONE, set_asid_entry poolPtr (ASID_LOW asid) regionBase s))"

section \<open>Decoding\<close>

definition rightsFromWord :: "word_t \<Rightarrow> seL4_CapRights" where
  "rightsFromWord w = \<lparr>capAllowGrantReply = bit w 3, capAllowGrant = bit w 2, capAllowRead = bit w 1, capAllowWrite = bit w 0\<rparr>"

definition vm_attributes_get_riscvExecuteNever :: "word_t \<Rightarrow> bool" where
  "vm_attributes_get_riscvExecuteNever w = bit w 0"

definition decodePageTableUnmap :: "word_t \<Rightarrow> cap \<Rightarrow> kstate \<Rightarrow> (exception \<times> kstate) option" where
  "decodePageTableUnmap cte cap s =
     (if \<not> isFinalCapability cte s then Some (syscall_fail (\<lambda>e. e\<lparr>err_type := seL4_RevokeFirst\<rparr>) s)
      else
        let (root, s) = (if capPTIsMapped cap then
               let (find_ret, s) = findVSpaceForASID (capPTMappedASID cap) s
               in (fv_status find_ret = EXCEPTION_NONE \<and> vspace_root find_ret = capPTBasePtr cap, s)
             else (False, s))
        in if root then Some (syscall_fail (\<lambda>e. e\<lparr>err_type := seL4_RevokeFirst\<rparr>) s)
           else performPageTableInvocationUnmap cap cte (setThreadState (ksCurThread s) ThreadState_Restart s))"

definition decodePageTableMap :: "word_t \<Rightarrow> word_t \<Rightarrow> cap \<Rightarrow> word_t \<Rightarrow> kstate \<Rightarrow> exception \<times> kstate" where
  "decodePageTableMap len cte cap buffer s =
     (if len < 2 \<or> current_extra_caps s 0 = 0 then syscall_fail (\<lambda>e. e\<lparr>err_type := seL4_TruncatedMessage\<rparr>) s
      else if capPTIsMapped cap then
        syscall_fail (\<lambda>e. e\<lparr>err_type := seL4_InvalidCapability, invalidCapNumber := 0\<rparr>) s
      else
        let vaddr = getSyscallArg 0 buffer s;
            lvl1ptCap = cte_cap (ctes s (current_extra_caps s 0))
        in if \<not> is_cap_page_table_cap lvl1ptCap \<or> \<not> capPTIsMapped lvl1ptCap then
             syscall_fail (\<lambda>e. e\<lparr>err_type := seL4_InvalidCapability, invalidCapNumber := 1\<rparr>) s
           else if vaddr \<ge> USER_TOP then
             syscall_fail (\<lambda>e. e\<lparr>err_type := seL4_InvalidArgument, invalidArgumentNumber := 0\<rparr>) s
           else
             let lvl1pt = capPTBasePtr lvl1ptCap;
                 asid = capPTMappedASID lvl1ptCap;
                 (find_ret, s) = findVSpaceForASID asid s
             in if fv_status find_ret \<noteq> EXCEPTION_NONE then
                  syscall_fail (\<lambda>e. e\<lparr>err_type := seL4_FailedLookup, failedLookupWasSource := False\<rparr>) s
                else if vspace_root find_ret \<noteq> lvl1pt then
                  syscall_fail (\<lambda>e. e\<lparr>err_type := seL4_InvalidCapability, invalidCapNumber := 1\<rparr>) s
                else
                  let lu_ret = lookupPTSlot lvl1pt vaddr s
                  in if ptBitsLeft lu_ret = seL4_PageBits \<or> pte_valid (ptes s (ptSlot lu_ret)) then
                       syscall_fail (\<lambda>e. e\<lparr>err_type := seL4_DeleteFirst\<rparr>) s
                     else
                       let paddr = addrFromPPtr (capPTBasePtr cap);
                           pte = pte_new (drop_bit seL4_PageBits paddr) 0 False False False False False False False True;
                           cap = cap_page_table_cap_set_mapping asid (vaddr AND NOT (MASK (ptBitsLeft lu_ret))) cap;
                           s = setThreadState (ksCurThread s) ThreadState_Restart s
                       in performPageTableInvocationMap cap cte pte (ptSlot lu_ret) s)"

definition decodeRISCVPageTableInvocation ::
  "invocation_label \<Rightarrow> word_t \<Rightarrow> word_t \<Rightarrow> cap \<Rightarrow> word_t \<Rightarrow> kstate \<Rightarrow> (exception \<times> kstate) option" where
  "decodeRISCVPageTableInvocation label len cte cap buffer s =
     (if label = RISCVPageTableUnmap then decodePageTableUnmap cte cap s
      else if label \<noteq> RISCVPageTableMap then Some (syscall_fail (\<lambda>e. e\<lparr>err_type := seL4_IllegalOperation\<rparr>) s)
      else Some (decodePageTableMap len cte cap buffer s))"

text \<open>
  The decoding of a frame mapping, in three steps: the address space it names, the virtual
  address and the entry found there, and what the entry and the capability already hold.
\<close>

definition frame_vspace :: "cap \<Rightarrow> kstate \<Rightarrow> exception \<times> kstate" where
  "frame_vspace lvl1ptCap s =
     (if \<not> is_cap_page_table_cap lvl1ptCap \<or> \<not> capPTIsMapped lvl1ptCap then
        syscall_fail (\<lambda>e. e\<lparr>err_type := seL4_InvalidCapability, invalidCapNumber := 1\<rparr>) s
      else
        let (find_ret, s) = findVSpaceForASID (capPTMappedASID lvl1ptCap) s
        in if fv_status find_ret \<noteq> EXCEPTION_NONE then
             syscall_fail (\<lambda>e. e\<lparr>err_type := seL4_FailedLookup, failedLookupWasSource := False\<rparr>) s
           else if vspace_root find_ret \<noteq> capPTBasePtr lvl1ptCap then
             syscall_fail (\<lambda>e. e\<lparr>err_type := seL4_InvalidCapability, invalidCapNumber := 1\<rparr>) s
           else (EXCEPTION_NONE, s))"

definition frame_remap_ok :: "cap \<Rightarrow> word_t \<Rightarrow> word_t \<Rightarrow> pte \<Rightarrow> kstate \<Rightarrow> exception \<times> kstate" where
  "frame_remap_ok cap asid vaddr pte s =
     (if capFMappedASID cap \<noteq> asidInvalid then
        if capFMappedASID cap \<noteq> asid then
          syscall_fail (\<lambda>e. e\<lparr>err_type := seL4_InvalidCapability, invalidCapNumber := 1\<rparr>) s
        else if capFMappedAddress cap \<noteq> vaddr then
          syscall_fail (\<lambda>e. e\<lparr>err_type := seL4_InvalidArgument, invalidArgumentNumber := 0\<rparr>) s
        else if isPTEPageTable pte then syscall_fail (\<lambda>e. e\<lparr>err_type := seL4_DeleteFirst\<rparr>) s
        else (EXCEPTION_NONE, s)
      else if pte_valid pte then syscall_fail (\<lambda>e. e\<lparr>err_type := seL4_DeleteFirst\<rparr>) s
      else (EXCEPTION_NONE, s))"

definition decodePageMap :: "word_t \<Rightarrow> word_t \<Rightarrow> cap \<Rightarrow> word_t \<Rightarrow> kstate \<Rightarrow> exception \<times> kstate" where
  "decodePageMap len cte cap buffer s =
     (if len < 3 \<or> current_extra_caps s 0 = 0 then syscall_fail (\<lambda>e. e\<lparr>err_type := seL4_TruncatedMessage\<rparr>) s
      else
        let vaddr = getSyscallArg 0 buffer s;
            w_rightsMask = getSyscallArg 1 buffer s;
            attr = getSyscallArg 2 buffer s;
            lvl1ptCap = cte_cap (ctes s (current_extra_caps s 0));
            lvl1pt = capPTBasePtr lvl1ptCap;
            asid = capPTMappedASID lvl1ptCap;
            frameBits = pageBitsForSize (capFSize cap);
            (status, s) = frame_vspace lvl1ptCap s
        in if status \<noteq> EXCEPTION_NONE then (status, s)
           else if vaddr + BIT frameBits - 1 \<ge> USER_TOP then
             syscall_fail (\<lambda>e. e\<lparr>err_type := seL4_InvalidArgument, invalidArgumentNumber := 0\<rparr>) s
           else if \<not> checkVPAlignment (capFSize cap) vaddr then
             syscall_fail (\<lambda>e. e\<lparr>err_type := seL4_AlignmentError\<rparr>) s
           else
             let lu_ret = lookupPTSlot lvl1pt vaddr s
             in if ptBitsLeft lu_ret \<noteq> frameBits then
                  syscall_fail (\<lambda>e. e\<lparr>err_type := seL4_FailedLookup, failedLookupWasSource := False\<rparr>)
                    (s\<lparr>current_lookup_fault := missing_capability (of_nat (ptBitsLeft lu_ret))\<rparr>)
                else
                  let (status, s) = frame_remap_ok cap asid vaddr (ptes s (ptSlot lu_ret)) s
                  in if status \<noteq> EXCEPTION_NONE then (status, s)
                     else
                       let vmRights = maskVMRights (capFVMRights cap) (rightsFromWord w_rightsMask);
                           frame_paddr = addrFromPPtr (capFBasePtr cap);
                           cap = cap_frame_cap_set_mapping asid vaddr cap;
                           executable = (\<not> vm_attributes_get_riscvExecuteNever attr);
                           pte = makeUserPTE frame_paddr executable vmRights;
                           s = setThreadState (ksCurThread s) ThreadState_Restart s
                       in performPageInvocationMapPTE cap cte pte (ptSlot lu_ret) s)"

definition decodeRISCVFrameInvocation ::
  "invocation_label \<Rightarrow> word_t \<Rightarrow> word_t \<Rightarrow> cap \<Rightarrow> bool \<Rightarrow> word_t \<Rightarrow> kstate \<Rightarrow> exception \<times> kstate" where
  "decodeRISCVFrameInvocation label len cte cap call buffer s =
     (case label of
        RISCVPageMap \<Rightarrow> decodePageMap len cte cap buffer s
      | RISCVPageUnmap \<Rightarrow>
          performPageInvocationUnmap cap cte (setThreadState (ksCurThread s) ThreadState_Restart s)
      | RISCVPageGetAddress \<Rightarrow>
          performPageGetAddress (capFBasePtr cap) call (setThreadState (ksCurThread s) ThreadState_Restart s)
      | _ \<Rightarrow> syscall_fail (\<lambda>e. e\<lparr>err_type := seL4_IllegalOperation\<rparr>) s)"

text \<open>The search loops: the first index from \<open>i\<close> on that is free, among \<open>n\<close>.\<close>

fun first_free :: "(word_t \<Rightarrow> bool) \<Rightarrow> nat \<Rightarrow> word_t \<Rightarrow> word_t" where
  "first_free used 0 i = i"
| "first_free used (Suc n) i = (if used i then first_free used n (i + 1) else i)"

definition decodeASIDControlMakePool ::
  "invocation_label \<Rightarrow> word_t \<Rightarrow> word_t \<Rightarrow> kstate \<Rightarrow> (exception \<times> kstate) option" where
  "decodeASIDControlMakePool label len buffer s =
     (if label \<noteq> RISCVASIDControlMakePool then Some (syscall_fail (\<lambda>e. e\<lparr>err_type := seL4_IllegalOperation\<rparr>) s)
      else if len < 2 \<or> current_extra_caps s 0 = 0 \<or> current_extra_caps s 1 = 0 then
        Some (syscall_fail (\<lambda>e. e\<lparr>err_type := seL4_TruncatedMessage\<rparr>) s)
      else
        let index = getSyscallArg 0 buffer s;
            depth = getSyscallArg 1 buffer s;
            parentSlot = current_extra_caps s 0;
            untyped = cte_cap (ctes s parentSlot);
            root = cte_cap (ctes s (current_extra_caps s 1));
            i = first_free (\<lambda>i. riscvKSASIDTable s i \<noteq> 0) (unat nASIDPools) 0
        in if i = nASIDPools then Some (syscall_fail (\<lambda>e. e\<lparr>err_type := seL4_DeleteFirst\<rparr>) s)
           else
             let asid_base = push_bit asidLowBits i
             in if \<not> is_cap_untyped_cap untyped \<or> capBlockSize untyped \<noteq> of_nat seL4_ASIDPoolBits \<or> capIsDevice untyped then
                  Some (syscall_fail (\<lambda>e. e\<lparr>err_type := seL4_InvalidCapability, invalidCapNumber := 1\<rparr>) s)
                else
                  let (status, s) = ensureNoChildren parentSlot s
                  in if status \<noteq> EXCEPTION_NONE then Some (status, s)
                     else do {
                       let frame = capPtr untyped;
                       (lu_ret, s) \<leftarrow> lookupTargetSlot root index depth s;
                       if ls_status lu_ret \<noteq> EXCEPTION_NONE then Some (ls_status lu_ret, s)
                       else
                         let destSlot = ls_slot lu_ret;
                             (status, s) = ensureEmptySlot destSlot s
                         in if status \<noteq> EXCEPTION_NONE then Some (status, s)
                            else Some (performASIDControlInvocation frame destSlot parentSlot asid_base
                                   (setThreadState (ksCurThread s) ThreadState_Restart s))
                     })"

definition decodeASIDPoolAssign :: "invocation_label \<Rightarrow> cap \<Rightarrow> kstate \<Rightarrow> exception \<times> kstate" where
  "decodeASIDPoolAssign label cap s =
     (if label \<noteq> RISCVASIDPoolAssign then syscall_fail (\<lambda>e. e\<lparr>err_type := seL4_IllegalOperation\<rparr>) s
      else if current_extra_caps s 0 = 0 then syscall_fail (\<lambda>e. e\<lparr>err_type := seL4_TruncatedMessage\<rparr>) s
      else
        let vspaceCapSlot = current_extra_caps s 0;
            vspaceCap = cte_cap (ctes s vspaceCapSlot)
        in if \<not> is_cap_page_table_cap vspaceCap \<or> capPTIsMapped vspaceCap then
             syscall_fail (\<lambda>e. e\<lparr>err_type := seL4_InvalidCapability, invalidCapNumber := 1\<rparr>) s
           else
             let pool = riscvKSASIDTable s (ASID_HIGH (capASIDBase cap))
             in if pool = 0 then
                  syscall_fail (\<lambda>e. e\<lparr>err_type := seL4_FailedLookup, failedLookupWasSource := False\<rparr>)
                    (s\<lparr>current_lookup_fault := invalid_root\<rparr>)
                else if pool \<noteq> capASIDPool cap then
                  syscall_fail (\<lambda>e. e\<lparr>err_type := seL4_InvalidCapability, invalidCapNumber := 0\<rparr>) s
                else
                  let asid = capASIDBase cap;
                      i = first_free (\<lambda>i. asid + i = 0 \<or> asid_pools s pool i \<noteq> 0) (2 ^ asidLowBits) 0
                  in if i = BIT asidLowBits then syscall_fail (\<lambda>e. e\<lparr>err_type := seL4_DeleteFirst\<rparr>) s
                     else performASIDPoolInvocation (asid + i) pool vspaceCapSlot
                            (setThreadState (ksCurThread s) ThreadState_Restart s))"

definition decodeRISCVMMUInvocation ::
  "invocation_label \<Rightarrow> word_t \<Rightarrow> word_t \<Rightarrow> word_t \<Rightarrow> cap \<Rightarrow> bool \<Rightarrow> word_t \<Rightarrow> kstate \<Rightarrow> (exception \<times> kstate) option" where
  "decodeRISCVMMUInvocation label len cptr cte cap call buffer s =
     (case cap of
        cap_page_table_cap _ _ _ _ \<Rightarrow> decodeRISCVPageTableInvocation label len cte cap buffer s
      | cap_frame_cap _ _ _ _ _ _ \<Rightarrow> Some (decodeRISCVFrameInvocation label len cte cap call buffer s)
      | cap_asid_control_cap \<Rightarrow> decodeASIDControlMakePool label len buffer s
      | cap_asid_pool_cap _ _ \<Rightarrow> Some (decodeASIDPoolAssign label cap s)
      | _ \<Rightarrow> None)"

end
