(* ===== verification/Translation.thy ===== *)
theory Translation
  imports VSpace Domain
begin

text \<open>
  What the invocations of frames and page tables do to the translation of addresses.

  \<open>hw_translate\<close> is the hardware's walk of the page tables in memory. \<open>walk\<close> lists the entries a walk
  visits; both the kernel's lookup and the hardware's translation read its last entry. When
  no user entry of an address space is reached from another one, or for two addresses except through a common
  prefix (\<open>user_trees\<close>), an invocation changes the translation of the addresses it names, in the address
  space it names, and no other translation of any address space. The tables of the kernel's part,
  which all address spaces share, are not concerned by \<open>user_trees\<close>.

  A walk reads the 39 low bits of an address. The hardware accepts an address only if the bits above
  repeat bit 38, so that the low bits determine it: addresses below \<open>2 ^ 38\<close> are the user's, and those
  from \<open>2 ^ 38\<close> to \<open>2 ^ 39\<close> stand for the kernel's.
\<close>

section \<open>The hardware walk\<close>

record mapping =
  map_paddr :: word_t
  map_user :: bool
  map_execute :: bool
  map_write :: bool
  map_read :: bool

definition lvl_bits :: "nat \<Rightarrow> nat" where
  "lvl_bits level = PT_INDEX_BITS * level + seL4_PageBits"

definition walk_slot :: "nat \<Rightarrow> word_t \<Rightarrow> word_t \<Rightarrow> word_t" where
  "walk_slot level pt v = pte_at pt (drop_bit (lvl_bits level) v AND MASK PT_INDEX_BITS)"

definition leaf_mapping :: "nat \<Rightarrow> pte \<Rightarrow> word_t \<Rightarrow> mapping" where
  "leaf_mapping level pte v =
     \<lparr>map_paddr = push_bit seL4_PageBits (ppn pte) + (v AND MASK (lvl_bits level)), map_user = pte_user pte,
      map_execute = pte_execute pte, map_write = pte_write pte, map_read = pte_read pte\<rparr>"

text \<open>
  The steps of the privileged specification: an invalid entry and one that is writable but not
  readable fault, a readable or executable entry is a leaf and faults when it is a misaligned
  superpage, any other entry points to the next level and faults at the last one.
\<close>

fun hw_translate :: "nat \<Rightarrow> (word_t \<Rightarrow> pte) \<Rightarrow> word_t \<Rightarrow> word_t \<Rightarrow> mapping option" where
  "hw_translate level mem pt v =
     (let pte = mem (walk_slot level pt v)
      in if \<not> pte_valid pte \<or> (\<not> pte_read pte \<and> pte_write pte) then None
         else if pte_read pte \<or> pte_execute pte then
           (if ppn pte AND MASK (PT_INDEX_BITS * level) \<noteq> 0 then None else Some (leaf_mapping level pte v))
         else case level of
             0 \<Rightarrow> None
           | Suc l \<Rightarrow> hw_translate l mem (ptrFromPAddr (push_bit seL4_PageBits (ppn pte))) v)"

declare hw_translate.simps [simp del]

definition translate :: "kstate \<Rightarrow> word_t \<Rightarrow> word_t \<Rightarrow> mapping option" where
  "translate s root v = hw_translate (CONFIG_PT_LEVELS - 1) (ptes s) root v"

section \<open>The entries of a walk\<close>

primrec walk :: "nat \<Rightarrow> (word_t \<Rightarrow> pte) \<Rightarrow> word_t \<Rightarrow> word_t \<Rightarrow> (nat \<times> word_t) list" where
  "walk 0 mem pt v = [(0, walk_slot 0 pt v)]"
| "walk (Suc l) mem pt v = (Suc l, walk_slot (Suc l) pt v) #
     (let pte = mem (walk_slot (Suc l) pt v) in if isPTEPageTable pte then walk l mem (getPPtrFromHWPTE pte) v else [])"

lemma walk_not_Nil [simp]: "walk l mem pt v \<noteq> []"
  by (cases l) simp_all

lemma lvl_bits_Suc: "lvl_bits (Suc l) - PT_INDEX_BITS = lvl_bits l"
  by (simp add: lvl_bits_def)

definition walk_ret :: "nat \<times> word_t \<Rightarrow> lookupPTSlot_ret" where
  "walk_ret = (\<lambda>(l, slot). \<lparr>ptSlot = slot, ptBitsLeft = lvl_bits l\<rparr>)"

lemma lookupPTSlot_loop_walk:
  "lookupPTSlot_loop l v \<lparr>ptSlot = walk_slot l pt v, ptBitsLeft = lvl_bits l\<rparr> s = walk_ret (last (walk l (ptes s) pt v))"
proof (induction l arbitrary: pt)
  case (Suc l)
  then show ?case by (simp add: walk_ret_def walk_slot_def Let_def lvl_bits_Suc)
qed (simp add: walk_ret_def)

definition root_walk :: "kstate \<Rightarrow> word_t \<Rightarrow> word_t \<Rightarrow> (nat \<times> word_t) list" where
  "root_walk s root v = walk (CONFIG_PT_LEVELS - 1) (ptes s) root v"

lemma lookupPTSlot_walk: "lookupPTSlot root v s = walk_ret (last (root_walk s root v))"
  unfolding lookupPTSlot_def Let_def root_walk_def lookupPTSlot_loop_walk [symmetric]
  by (simp add: walk_slot_def lvl_bits_def)

definition leaf_translation :: "(word_t \<Rightarrow> pte) \<Rightarrow> nat \<times> word_t \<Rightarrow> word_t \<Rightarrow> mapping option" where
  "leaf_translation mem = (\<lambda>(l, slot) v.
     let pte = mem slot
     in if pte_valid pte \<and> (pte_read pte \<or> pte_execute pte \<and> \<not> pte_write pte) \<and>
           ppn pte AND MASK (PT_INDEX_BITS * l) = 0
        then Some (leaf_mapping l pte v) else None)"

lemma hw_translate_walk: "hw_translate l mem pt v = leaf_translation mem (last (walk l mem pt v)) v"
proof (induction l arbitrary: pt)
  case 0
  then show ?case
    by (simp add: hw_translate.simps [of 0] leaf_translation_def isPTEPageTable_def Let_def)
next
  case (Suc l)
  let ?pte = "mem (walk_slot (Suc l) pt v)"
  have e: "getPPtrFromHWPTE ?pte = ptrFromPAddr (push_bit seL4_PageBits (ppn ?pte))"
    by (simp add: getPPtrFromHWPTE_def seL4_PageTableBits_def seL4_PageBits_def)
  show ?case
  proof (cases "isPTEPageTable ?pte")
    case True
    then show ?thesis using Suc [of "getPPtrFromHWPTE ?pte"]
      by (simp add: hw_translate.simps [of "Suc l"] isPTEPageTable_def Let_def e)
  next
    case False
    then show ?thesis
      by (auto simp: hw_translate.simps [of "Suc l"] leaf_translation_def isPTEPageTable_def Let_def)
  qed
qed

lemma translate_walk: "translate s root v = leaf_translation (ptes s) (last (root_walk s root v)) v"
  by (simp add: translate_def root_walk_def hw_translate_walk)

text \<open>
  C8: The kernel's walk of the page tables ends at the entry the hardware uses: an address
  translates exactly when the entry found by \<open>lookupPTSlot\<close> is an aligned leaf, and then by that
  entry, at the size the lookup reports.
\<close>

theorem lookupPTSlot_is_hardware_walk:
  "translate s root v =
     (let r = lookupPTSlot root v s; pte = ptes s (ptSlot r)
      in if pte_valid pte \<and> (pte_read pte \<or> pte_execute pte \<and> \<not> pte_write pte) \<and>
            ppn pte AND MASK (ptBitsLeft r - seL4_PageBits) = 0
         then Some \<lparr>map_paddr = push_bit seL4_PageBits (ppn pte) + (v AND MASK (ptBitsLeft r)), map_user = pte_user pte,
           map_execute = pte_execute pte, map_write = pte_write pte, map_read = pte_read pte\<rparr>
         else None)"
  by (simp add: translate_walk lookupPTSlot_walk walk_ret_def leaf_translation_def leaf_mapping_def lvl_bits_def
      case_prod_beta Let_def)

section \<open>Changing an entry\<close>

text \<open>A write outside the walk, and one that neither removes nor adds a table, keep the walk.\<close>

lemma walk_other: "x \<notin> snd ` set (walk l mem pt v) \<Longrightarrow> walk l (mem(x := e)) pt v = walk l mem pt v"
proof (induction l arbitrary: pt)
  case (Suc l)
  then show ?case by (auto simp: Let_def)
qed simp

lemma walk_leaf: "\<not> isPTEPageTable (mem x) \<Longrightarrow> \<not> isPTEPageTable e \<Longrightarrow> walk l (mem(x := e)) pt v = walk l mem pt v"
proof (induction l arbitrary: pt)
  case (Suc l)
  then show ?case by (simp add: Let_def)
qed simp

lemma walk_levels: "(l', x) \<in> set (walk l mem pt v) \<Longrightarrow> l' \<le> l"
proof (induction l arbitrary: pt)
  case (Suc l)
  then show ?case by (auto simp: Let_def le_Suc_eq split: if_splits)
qed simp

lemma last_level_le: "last (walk l mem pt v) = (l', x) \<Longrightarrow> l' \<le> l"
  by (metis last_in_set walk_levels walk_not_Nil)

text \<open>Addresses in the same page have the same walk.\<close>

lemma walk_slot_same:
  assumes "drop_bit (lvl_bits k) v = drop_bit (lvl_bits k) w" "k \<le> l"
  shows "walk_slot l pt v = walk_slot l pt w"
proof -
  have "lvl_bits l = (lvl_bits l - lvl_bits k) + lvl_bits k" using assms(2) by (simp add: lvl_bits_def)
  then have "drop_bit (lvl_bits l) v = drop_bit (lvl_bits l) w"
    by (metis assms(1) drop_bit_drop_bit)
  then show ?thesis by (simp add: walk_slot_def)
qed

lemma walk_same_page:
  assumes "drop_bit (lvl_bits k) v = drop_bit (lvl_bits k) w" "fst (last (walk l mem pt w)) = k"
  shows "walk l mem pt v = walk l mem pt w"
  using assms(2)
proof (induction l arbitrary: pt)
  case 0
  then show ?case using walk_slot_same [OF assms(1), of 0] by simp
next
  case (Suc l)
  have "k \<le> Suc l" using Suc.prems last_level_le [of "Suc l" mem pt w] by (metis prod.collapse)
  then have e: "walk_slot (Suc l) pt v = walk_slot (Suc l) pt w" by (rule walk_slot_same [OF assms(1)])
  show ?case
  proof (cases "isPTEPageTable (mem (walk_slot (Suc l) pt w))")
    case True
    with Suc.prems have "fst (last (walk l mem (getPPtrFromHWPTE (mem (walk_slot (Suc l) pt w))) w)) = k"
      by (simp add: Let_def)
    from Suc.IH [OF this] show ?thesis by (simp add: e True Let_def)
  next
    case False
    then show ?thesis by (simp add: e Let_def)
  qed
qed

lemma same_page:
  assumes "is_aligned vaddr b" "b < 64"
  shows "drop_bit b v = drop_bit b vaddr \<longleftrightarrow> v - vaddr < BIT b"
    and "v - vaddr < BIT b \<Longrightarrow> v AND MASK b = v - vaddr"
proof -
  obtain k where k: "unat vaddr = 2 ^ b * k" using assms(1) by (auto simp: is_aligned_def)
  have d: "drop_bit b v = drop_bit b vaddr \<longleftrightarrow> unat v div 2 ^ b = k"
    by (simp only: word_unat_eq_iff unat_drop_bit_eq) (simp add: drop_bit_eq_div k)
  have i: "v - vaddr < BIT b \<longleftrightarrow> unat vaddr \<le> unat v \<and> unat v < unat vaddr + 2 ^ b"
    using word_interval aligned_no_overflow [OF assms] assms(2) by blast
  have "unat v div 2 ^ b = k \<longleftrightarrow> 2 ^ b * k \<le> unat v \<and> unat v < 2 ^ b * k + 2 ^ b"
  proof
    assume "unat v div 2 ^ b = k"
    then show "2 ^ b * k \<le> unat v \<and> unat v < 2 ^ b * k + 2 ^ b"
      using dividend_less_times_div [of "2 ^ b" "unat v"] times_div_less_eq_dividend [of "2 ^ b" "unat v"] by auto
  next
    assume a: "2 ^ b * k \<le> unat v \<and> unat v < 2 ^ b * k + 2 ^ b"
    show "unat v div 2 ^ b = k"
      by (rule div_nat_eqI) (use a in \<open>simp_all add: mult.commute\<close>)
  qed
  then show "drop_bit b v = drop_bit b vaddr \<longleftrightarrow> v - vaddr < BIT b" by (simp add: d i k)
  assume "v - vaddr < BIT b"
  with i have "unat vaddr \<le> unat v" "unat v < unat vaddr + 2 ^ b" by blast+
  then have "unat (v - vaddr) = unat v - 2 ^ b * k" "unat v div 2 ^ b = k"
    using \<open>unat v div 2 ^ b = k \<longleftrightarrow> _\<close> k by (simp_all add: unat_sub_no_underflow)
  then show "v AND MASK b = v - vaddr"
    by (simp add: word_unat_eq_iff unat_and_MASK modulo_nat_def mult.commute)
qed

section \<open>Trees of page tables\<close>

text \<open>
  The roots of the address spaces: the tables registered with an ASID. An entry that the walk of a user
  address in one address space shares with the walk of any address in any address space belongs to the
  same address space, is at the same level in both, and the addresses agree above that level. Entries
  reached only from kernel addresses may be shared: the kernel copies its global mappings into every root, and two
  of them point to the same table (\<^verbatim>\<open>map_kernel_window\<close>, \<^verbatim>\<open>copyGlobalMappings\<close>).
\<close>

definition vspaces :: "kstate \<Rightarrow> word_t set" where
  "vspaces s = {root. \<exists>asid. asid_root s asid = Some root}"

definition user_trees :: "kstate \<Rightarrow> bool" where
  "user_trees s \<longleftrightarrow> (\<forall>r\<in>vspaces s. \<forall>r'\<in>vspaces s. \<forall>v v' l l' x. v < BIT 38 \<longrightarrow> v' < BIT 39 \<longrightarrow>
     (l, x) \<in> set (root_walk s r v) \<longrightarrow> (l', x) \<in> set (root_walk s r' v') \<longrightarrow>
       r = r' \<and> l = l' \<and> drop_bit (lvl_bits l) v = drop_bit (lvl_bits l) v')"

lemma user_treesD:
  assumes "user_trees s" "r \<in> vspaces s" "r' \<in> vspaces s" "v < BIT 38" "v' < BIT 39"
    and "(l, x) \<in> set (root_walk s r v)" "(l', x) \<in> set (root_walk s r' v')"
  shows "r = r' \<and> l = l' \<and> drop_bit (lvl_bits l) v = drop_bit (lvl_bits l) v'"
  using assms unfolding user_trees_def by blast

lemma user_trees_other:
  assumes "user_trees s" "root \<in> vspaces s" "r \<in> vspaces s" "w < BIT 38" "v < BIT 39"
    and "last (root_walk s root w) = (l, x)" "\<not> (r = root \<and> drop_bit (lvl_bits l) v = drop_bit (lvl_bits l) w)"
  shows "x \<notin> snd ` set (root_walk s r v)"
proof
  assume "x \<in> snd ` set (root_walk s r v)"
  then obtain l' where "(l', x) \<in> set (root_walk s r v)" by auto
  moreover have "(l, x) \<in> set (root_walk s root w)"
    using assms(6) last_in_set [of "root_walk s root w"] by (simp add: root_walk_def)
  ultimately show False using user_treesD [OF assms(1-5)] assms(7) by metis
qed

lemma user_trees_cong:
  assumes "user_trees s" "vspaces s' = vspaces s" "\<And>r. root_walk s' r = root_walk s r"
  shows "user_trees s'"
  using assms(1) unfolding user_trees_def assms(2,3) .

lemma translate_update:
  assumes "user_trees s" "root \<in> vspaces s" "w < BIT 38" "last (root_walk s root w) = (l, x)"
    and "is_aligned w (lvl_bits l)" "lvl_bits l < 64"
    and mem: "ptes s' = (ptes s)(x := e)" "\<not> isPTEPageTable (ptes s x)" "\<not> isPTEPageTable e"
  shows "root_walk s' r = root_walk s r"
    and "r \<in> vspaces s \<Longrightarrow> v < BIT 39 \<Longrightarrow> translate s' r v =
      (if r = root \<and> v - w < BIT (lvl_bits l) then leaf_translation (\<lambda>_. e) (l, x) v else translate s r v)"
proof -
  show w: "root_walk s' r = root_walk s r" for r
    by (rule ext) (simp add: root_walk_def mem walk_leaf)
  assume r: "r \<in> vspaces s" and v: "v < BIT 39"
  show "translate s' r v =
      (if r = root \<and> v - w < BIT (lvl_bits l) then leaf_translation (\<lambda>_. e) (l, x) v else translate s r v)"
  proof (cases "r = root \<and> drop_bit (lvl_bits l) v = drop_bit (lvl_bits l) w")
    case True
    then have "root_walk s root v = root_walk s root w"
      unfolding root_walk_def by (intro walk_same_page) (use assms(4) in \<open>simp_all add: root_walk_def\<close>)
    then show ?thesis using True same_page(1) [OF assms(5,6)]
      by (simp add: translate_walk w assms(4) leaf_translation_def mem)
  next
    case False
    then have "x \<notin> snd ` set (root_walk s r v)" by (rule user_trees_other [OF assms(1,2) r assms(3) v assms(4)])
    moreover have "last (root_walk s r v) \<in> set (root_walk s r v)" by (simp add: root_walk_def)
    ultimately have "x \<noteq> snd (last (root_walk s r v))" by auto
    then show ?thesis using False same_page(1) [OF assms(5,6)]
      by (auto simp: translate_walk w leaf_translation_def mem case_prod_beta)
  qed
qed

section \<open>Frames\<close>

lemma setThreadState_vm [simp]:
  "ptes (setThreadState t ts s) = ptes s" "asid_pools (setThreadState t ts s) = asid_pools s"
  "riscvKSASIDTable (setThreadState t ts s) = riscvKSASIDTable s" "satp (setThreadState t ts s) = satp s"
  "kernel_root_paddr (setThreadState t ts s) = kernel_root_paddr s" "ctes (setThreadState t ts s) = ctes s"
  "kernel_root_pageTable (setThreadState t ts s) = kernel_root_pageTable s"
proof -
  have c: "core_state (setThreadState t ts s) = core_state (set_tcbState t (\<lambda>st. st\<lparr>ts_type := ts\<rparr>) s)"
    by (rule core_setThreadState)
  show "ptes (setThreadState t ts s) = ptes s" "asid_pools (setThreadState t ts s) = asid_pools s"
    "riscvKSASIDTable (setThreadState t ts s) = riscvKSASIDTable s" "satp (setThreadState t ts s) = satp s"
    "kernel_root_paddr (setThreadState t ts s) = kernel_root_paddr s" "ctes (setThreadState t ts s) = ctes s"
    "kernel_root_pageTable (setThreadState t ts s) = kernel_root_pageTable s"
    using arg_cong [OF c, of ptes] arg_cong [OF c, of asid_pools] arg_cong [OF c, of riscvKSASIDTable]
      arg_cong [OF c, of satp] arg_cong [OF c, of kernel_root_paddr] arg_cong [OF c, of ctes]
      arg_cong [OF c, of kernel_root_pageTable]
    by (simp_all add: core_state_def set_tcb_defs upd_tcb_def)
qed

lemma set_cap_vm [simp]:
  "ptes (set_cap p c s) = ptes s" "asid_pools (set_cap p c s) = asid_pools s"
  "riscvKSASIDTable (set_cap p c s) = riscvKSASIDTable s" "satp (set_cap p c s) = satp s"
  "kernel_root_paddr (set_cap p c s) = kernel_root_paddr s"
  by (simp_all add: set_cap_def upd_cte_def)

lemma upd_pte_sel [simp]:
  "ptes (upd_pte p e s) = (ptes s)(p := e)" "asid_pools (upd_pte p e s) = asid_pools s"
  "riscvKSASIDTable (upd_pte p e s) = riscvKSASIDTable s" "satp (upd_pte p e s) = satp s"
  "kernel_root_paddr (upd_pte p e s) = kernel_root_paddr s" "ctes (upd_pte p e s) = ctes s"
  by (simp_all add: upd_pte_def)

text \<open>A frame in the kernel window, aligned to its size.\<close>

definition frame_cap_ok :: "cap \<Rightarrow> bool" where
  "frame_cap_ok cap \<longleftrightarrow> is_cap_frame_cap cap \<and> PPTR_BASE \<le> capFBasePtr cap \<and>
     is_aligned (capFBasePtr cap) (pageBitsForSize (capFSize cap))"

lemma page_bits: "pageBitsForSize sz \<in> {12, 21, 30}"
  by (cases sz) (simp_all add: pageBitsForSize_def size_bits_defs)

lemma frame_paddr:
  assumes "frame_cap_ok cap"
  shows "unat (addrFromPPtr (capFBasePtr cap)) < 2 ^ 38"
    and "is_aligned (addrFromPPtr (capFBasePtr cap)) (pageBitsForSize (capFSize cap))"
proof -
  let ?b = "pageBitsForSize (capFSize cap)"
  have le: "PPTR_BASE \<le> capFBasePtr cap" and al: "is_aligned (capFBasePtr cap) ?b"
    using assms by (simp_all add: frame_cap_ok_def)
  have u: "unat (addrFromPPtr (capFBasePtr cap)) = unat (capFBasePtr cap) - unat PPTR_BASE"
    using le by (simp add: addrFromPPtr_def PPTR_BASE_OFFSET_def PADDR_BASE_def unat_sub_no_underflow word_le_nat_alt)
  have "unat PPTR_BASE = 2 ^ 64 - 2 ^ 38" by (simp add: PPTR_BASE_def)
  then show "unat (addrFromPPtr (capFBasePtr cap)) < 2 ^ 38"
    using u unat_word64_less [of "capFBasePtr cap"] by simp
  have "2 ^ ?b dvd unat PPTR_BASE" using page_bits [of "capFSize cap"] by (auto simp: PPTR_BASE_def)
  then show "is_aligned (addrFromPPtr (capFBasePtr cap)) ?b"
    using al u by (simp add: is_aligned_def dvd_diff_nat)
qed

lemma ppn_roundtrip:
  assumes "unat p < 2 ^ 56" "is_aligned p 12"
  shows "push_bit 12 (drop_bit 12 p AND MASK 44) = p"
proof -
  have u: "unat (drop_bit 12 p) = unat p div 2 ^ 12" by (simp only: unat_drop_bit_eq) (simp add: drop_bit_eq_div)
  then have "unat (drop_bit 12 p) < 2 ^ 44" using assms(1) by simp
  then have m: "drop_bit 12 p AND MASK 44 = drop_bit 12 p" by (rule and_mask_less)
  show ?thesis unfolding m
  proof (rule bit_word_eqI)
    fix n
    show "bit (push_bit 12 (drop_bit 12 p)) n = bit p n" if "n < LENGTH(64)"
      using that aligned_low_bits [OF assms(2), of n] by (cases "n < 12") (simp_all add: bit_push_bit_iff bit_drop_bit_eq)
  qed
qed

lemma aligned_drop_bit:
  assumes "is_aligned p (k + 12)"
  shows "(drop_bit 12 p AND MASK 44) AND MASK k = 0"
proof (rule bit_word_eqI)
  fix n
  show "bit ((drop_bit 12 p AND MASK 44) AND MASK k) n = bit 0 n"
    using aligned_low_bits [OF assms, of "12 + n"] by (auto simp only: and_mask_bits bit_drop_bit_eq o_def) simp_all
qed

text \<open>The mapping that a frame capability gives at \<open>vaddr\<close>.\<close>

definition frame_mapping :: "cap \<Rightarrow> vm_rights \<Rightarrow> bool \<Rightarrow> word_t \<Rightarrow> word_t \<Rightarrow> mapping option" where
  "frame_mapping cap rights executable vaddr v =
     (if rights = VMKernelOnly \<and> \<not> executable then None
      else Some \<lparr>map_paddr = addrFromPPtr (capFBasePtr cap) + (v - vaddr), map_user = True,
        map_execute = executable, map_write = (rights = VMReadWrite), map_read = (rights \<noteq> VMKernelOnly)\<rparr>)"

lemma makeUserPTE_not_table: "\<not> isPTEPageTable (makeUserPTE p x r)"
  by (cases r) (simp_all add: makeUserPTE_def isPTEPageTable_def pte_new_def pte_pte_invalid_new_def zero_pte_def
      RISCVGetReadFromVMRights_def RISCVGetWriteFromVMRights_def Let_def)

lemma makeUserPTE_translation:
  assumes "frame_cap_ok cap" "pageBitsForSize (capFSize cap) = lvl_bits l" "is_aligned vaddr (lvl_bits l)"
    and "v - vaddr < BIT (lvl_bits l)"
  shows "leaf_translation (\<lambda>_. makeUserPTE (addrFromPPtr (capFBasePtr cap)) x r) (l, slot) v = frame_mapping cap r x vaddr v"
proof -
  note p = frame_paddr [OF assms(1), unfolded assms(2)]
  have a: "is_aligned (addrFromPPtr (capFBasePtr cap)) (9 * l + 12)" using p(2) by (simp add: lvl_bits_def PT_INDEX_BITS_def seL4_PageBits_def)
  have "lvl_bits l < 64" using page_bits [of "capFSize cap"] assms(2) by auto
  then have v: "v AND MASK (lvl_bits l) = v - vaddr" using same_page(2) [OF assms(3)] assms(4) by blast
  define n where "n = drop_bit 12 (addrFromPPtr (capFBasePtr cap)) AND MASK 44"
  have m: "push_bit 12 n = addrFromPPtr (capFBasePtr cap)"
    unfolding n_def by (rule ppn_roundtrip) (use p(1) is_aligned_weaken [OF a] in simp_all)
  have z: "n AND MASK (9 * l) = 0" unfolding n_def using a by (rule aligned_drop_bit)
  show ?thesis
    using z
    by (cases r) (simp_all add: leaf_translation_def makeUserPTE_def frame_mapping_def leaf_mapping_def pte_new_def v m Let_def
        pte_pte_invalid_new_def zero_pte_def RISCVGetReadFromVMRights_def RISCVGetWriteFromVMRights_def
        seL4_PageBits_def PT_INDEX_BITS_def flip: n_def)
qed

section \<open>Mapping a frame\<close>

lemma frame_vspace_ok:
  assumes "frame_vspace c s = (e, s')"
  shows "e = EXCEPTION_NONE \<Longrightarrow> s' = s \<and> is_cap_page_table_cap c \<and> capPTIsMapped c \<and> asid_root s (capPTMappedASID c) = Some (capPTBasePtr c)"
  using assms
  by (auto simp: frame_vspace_def syscall_fail_def findVSpaceForASID_eq Let_def split: if_splits option.splits)

lemma frame_remap_ok_none:
  assumes "frame_remap_ok cap asid vaddr pte s = (e, s')" "e = EXCEPTION_NONE"
  shows "s' = s" "\<not> isPTEPageTable pte"
  using assms by (auto simp: frame_remap_ok_def syscall_fail_def isPTEPageTable_def split: if_splits)

text \<open>
  The arguments of the invocation, and the state it leaves: the capability with its new mapping
  and the entry of the frame.
\<close>

lemma decodePageMap_none:
  assumes "decodePageMap len cte cap buffer s = (EXCEPTION_NONE, s')"
  defines "vaddr \<equiv> getSyscallArg 0 buffer s" and "c \<equiv> cte_cap (ctes s (current_extra_caps s 0))"
    and "b \<equiv> pageBitsForSize (capFSize cap)"
  defines "lu \<equiv> lookupPTSlot (capPTBasePtr c) vaddr s"
  shows "is_cap_page_table_cap c \<and> asid_root s (capPTMappedASID c) = Some (capPTBasePtr c)"
    and "vaddr + BIT b - 1 < USER_TOP" and "is_aligned vaddr b" and "ptBitsLeft lu = b"
    and "\<not> isPTEPageTable (ptes s (ptSlot lu))"
    and "fst (frame_remap_ok cap (capPTMappedASID c) vaddr (ptes s (ptSlot lu)) s) = EXCEPTION_NONE"
    and "s' = upd_pte (ptSlot lu)
      (makeUserPTE (addrFromPPtr (capFBasePtr cap)) (\<not> vm_attributes_get_riscvExecuteNever (getSyscallArg 2 buffer s))
        (maskVMRights (capFVMRights cap) (rightsFromWord (getSyscallArg 1 buffer s))))
      (set_cap cte (cap_frame_cap_set_mapping (capPTMappedASID c) vaddr cap)
        (setThreadState (ksCurThread s) ThreadState_Restart s))"
proof -
  obtain e1 s1 where v: "frame_vspace c s = (e1, s1)" by fastforce
  have n: "\<not> (len < 3 \<or> current_extra_caps s 0 = 0)"
    using assms(1) by (auto simp: decodePageMap_def syscall_fail_def)
  have "e1 = EXCEPTION_NONE"
    using assms(1) n v by (auto simp: decodePageMap_def Let_def c_def split: if_splits)
  then have s1: "s1 = s" and "is_cap_page_table_cap c \<and> asid_root s (capPTMappedASID c) = Some (capPTBasePtr c)"
    using frame_vspace_ok [OF v] by simp_all
  then show "is_cap_page_table_cap c \<and> asid_root s (capPTMappedASID c) = Some (capPTBasePtr c)" by blast
  obtain e2 s2 where r: "frame_remap_ok cap (capPTMappedASID c) vaddr (ptes s (ptSlot lu)) s = (e2, s2)" by fastforce
  have *: "vaddr + BIT b - 1 < USER_TOP \<and> checkVPAlignment (capFSize cap) vaddr \<and> ptBitsLeft lu = b \<and> e2 = EXCEPTION_NONE \<and>
    (EXCEPTION_NONE, s') = performPageInvocationMapPTE (cap_frame_cap_set_mapping (capPTMappedASID c) vaddr cap) cte
      (makeUserPTE (addrFromPPtr (capFBasePtr cap)) (\<not> vm_attributes_get_riscvExecuteNever (getSyscallArg 2 buffer s))
        (maskVMRights (capFVMRights cap) (rightsFromWord (getSyscallArg 1 buffer s)))) (ptSlot lu)
      (setThreadState (ksCurThread s2) ThreadState_Restart s2)"
    using assms(1) n v [unfolded c_def] r [unfolded lu_def vaddr_def c_def] s1 \<open>e1 = EXCEPTION_NONE\<close>
    unfolding decodePageMap_def lu_def vaddr_def b_def c_def
    by (auto simp: Let_def syscall_fail_def not_le split: if_splits)
  then show "vaddr + BIT b - 1 < USER_TOP" "is_aligned vaddr b" "ptBitsLeft lu = b"
    by (simp_all add: checkVPAlignment_def is_aligned_and_mask b_def)
  have e2: "s2 = s" "\<not> isPTEPageTable (ptes s (ptSlot lu))" using frame_remap_ok_none [OF r] * by simp_all
  then show "\<not> isPTEPageTable (ptes s (ptSlot lu))" by blast
  show "fst (frame_remap_ok cap (capPTMappedASID c) vaddr (ptes s (ptSlot lu)) s) = EXCEPTION_NONE" using r * by simp
  show "s' = upd_pte (ptSlot lu)
      (makeUserPTE (addrFromPPtr (capFBasePtr cap)) (\<not> vm_attributes_get_riscvExecuteNever (getSyscallArg 2 buffer s))
        (maskVMRights (capFVMRights cap) (rightsFromWord (getSyscallArg 1 buffer s))))
      (set_cap cte (cap_frame_cap_set_mapping (capPTMappedASID c) vaddr cap)
        (setThreadState (ksCurThread s) ThreadState_Restart s))"
    using * e2(1) by (simp add: performPageInvocationMapPTE_def updatePTE_def)
qed

lemma page_below_user_top:
  assumes "vaddr + BIT b - 1 < USER_TOP" "is_aligned vaddr b" "b \<in> {12, 21, 30}"
  shows "unat vaddr + 2 ^ b \<le> unat USER_TOP" and "vaddr < BIT 38"
proof -
  have b: "b < 64" using assms(3) by auto
  have "unat (vaddr + MASK b) = unat vaddr + 2 ^ b - 1" using aligned_add_mask(1) [OF assms(2) b] .
  moreover have "vaddr + MASK b < USER_TOP" using assms(1) by (simp add: MASK_def add_diff_eq)
  ultimately show a: "unat vaddr + 2 ^ b \<le> unat USER_TOP" by (simp add: word_less_nat_alt)
  then show "vaddr < BIT 38" using assms(3) by (auto simp: word_less_nat_alt BIT_def USER_TOP_def)
qed

text \<open>
  C7: A successful frame mapping. The page is aligned and lies below the kernel's part of the
  address space; afterwards every address in it translates, in this address space, to the corresponding address of
  the frame, in user mode, with the capability's rights masked by the requested ones. Every other
  address of this address space, and every address of every other one, translates as before, the
  user tables stay separate, and the capability records the mapping. The frame lies
  in the kernel window, aligned to its size.
\<close>

theorem page_map_translates:
  assumes "decodePageMap len cte cap buffer s = (EXCEPTION_NONE, s')"
    and "frame_cap_ok cap" and "user_trees s"
  shows "let vaddr = getSyscallArg 0 buffer s; b = pageBitsForSize (capFSize cap);
      rights = maskVMRights (capFVMRights cap) (rightsFromWord (getSyscallArg 1 buffer s));
      executable = (\<not> vm_attributes_get_riscvExecuteNever (getSyscallArg 2 buffer s));
      c = cte_cap (ctes s (current_extra_caps s 0)); root = capPTBasePtr c
    in asid_root s (capPTMappedASID c) = Some root \<and> is_aligned vaddr b \<and> unat vaddr + 2 ^ b \<le> unat USER_TOP \<and>
       cte_cap (ctes s' cte) = cap_frame_cap_set_mapping (capPTMappedASID c) vaddr cap \<and>
       asid_root s' = asid_root s \<and> user_trees s' \<and>
       (\<forall>r\<in>vspaces s. \<forall>v < BIT 39. translate s' r v =
          (if r = root \<and> v - vaddr < BIT b then frame_mapping cap rights executable vaddr v else translate s r v))"
proof -
  define vaddr where "vaddr = getSyscallArg 0 buffer s"
  define c where "c = cte_cap (ctes s (current_extra_caps s 0))"
  define rights where "rights = maskVMRights (capFVMRights cap) (rightsFromWord (getSyscallArg 1 buffer s))"
  define x where "x = (\<not> vm_attributes_get_riscvExecuteNever (getSyscallArg 2 buffer s))"
  let ?b = "pageBitsForSize (capFSize cap)" and ?root = "capPTBasePtr c"
  note d = decodePageMap_none [OF assms(1), folded vaddr_def c_def rights_def x_def]
  note top = page_below_user_top [OF d(2,3) page_bits]
  obtain l slot where l: "last (root_walk s ?root vaddr) = (l, slot)" by fastforce
  then have lu: "lookupPTSlot ?root vaddr s = \<lparr>ptSlot = slot, ptBitsLeft = lvl_bits l\<rparr>"
    by (simp add: lookupPTSlot_walk walk_ret_def)
  have b: "?b = lvl_bits l" using d(4) lu by simp
  have b64: "lvl_bits l < 64" using page_bits [of "capFSize cap"] b by auto
  have mem: "ptes s' = (ptes s)(slot := makeUserPTE (addrFromPPtr (capFBasePtr cap)) x rights)" using d(7) lu by simp
  have root: "?root \<in> vspaces s" using d(1) by (auto simp: vspaces_def)
  note upd = translate_update [OF assms(3) root top(2) l d(3) [unfolded b] b64 mem _ makeUserPTE_not_table]
  have nt: "\<not> isPTEPageTable (ptes s slot)" using d(5) lu by simp
  have ar: "asid_root s' = asid_root s" by (rule asid_root_cong) (simp_all add: d(7))
  then have "user_trees s'" by (intro user_trees_cong [OF assms(3)] upd(1) [OF nt]) (simp add: vspaces_def)
  moreover have "translate s' r v =
      (if r = ?root \<and> v - vaddr < BIT ?b then frame_mapping cap rights x vaddr v else translate s r v)"
    if "r \<in> vspaces s" "v < BIT 39" for r v
    using upd(2) [OF nt that] makeUserPTE_translation [OF assms(2) b d(3) [unfolded b], of v x rights slot]
    by (simp add: b)
  moreover have "cte_cap (ctes s' cte) = cap_frame_cap_set_mapping (capPTMappedASID c) vaddr cap"
    using d(7) by (simp add: set_cap_def upd_cte_def)
  ultimately show ?thesis using d(1,3) top(1) ar
    unfolding Let_def vaddr_def c_def rights_def x_def by blast
qed

section \<open>Unmapping a frame\<close>

lemma leaf_translation_invalid: "\<not> pte_valid e \<Longrightarrow> leaf_translation (\<lambda>_. e) (l, x) v = None"
  by (simp add: leaf_translation_def Let_def)

lemma makeUserPTE_ppn:
  assumes "frame_cap_ok cap" "pte_valid (makeUserPTE (addrFromPPtr (capFBasePtr cap)) x r)"
  shows "push_bit seL4_PageBits (ppn (makeUserPTE (addrFromPPtr (capFBasePtr cap)) x r)) = addrFromPPtr (capFBasePtr cap)"
proof -
  let ?p = "addrFromPPtr (capFBasePtr cap)"
  have "is_aligned ?p 12"
    by (rule is_aligned_weaken [OF frame_paddr(2) [OF assms(1)]]) (use page_bits [of "capFSize cap"] in auto)
  then have "push_bit 12 (drop_bit 12 ?p AND MASK 44) = ?p"
    using frame_paddr(1) [OF assms(1)] by (intro ppn_roundtrip) simp_all
  moreover have "ppn (makeUserPTE ?p x r) = drop_bit 12 ?p AND MASK 44"
    using assms(2) by (auto simp: makeUserPTE_def Let_def pte_new_def pte_pte_invalid_new_def zero_pte_def seL4_PageBits_def)
  ultimately show ?thesis by (simp add: seL4_PageBits_def)
qed

text \<open>
  Unmapping at an address whose walk ends in the entry of this frame, or in an invalid one,
  leaves an invalid entry there and changes no other.
\<close>

lemma unmapPage_entry:
  assumes "asid_root s asid = Some root" "last (root_walk s root vaddr) = (l, slot)" "lvl_bits l = pageBitsForSize sz"
    and "pte_valid (ptes s slot) \<Longrightarrow> \<not> isPTEPageTable (ptes s slot) \<and> push_bit seL4_PageBits (ppn (ptes s slot)) = addrFromPPtr pptr"
  shows "\<exists>e. \<not> pte_valid e \<and> ptes (unmapPage sz asid vaddr pptr s) = (ptes s)(slot := e)" and "ctes (unmapPage sz asid vaddr pptr s) = ctes s"
    and "asid_root (unmapPage sz asid vaddr pptr s) = asid_root s"
proof -
  have lu: "lookupPTSlot root vaddr s = \<lparr>ptSlot = slot, ptBitsLeft = lvl_bits l\<rparr>"
    using assms(2) by (simp add: lookupPTSlot_walk walk_ret_def)
  have u: "unmapPage sz asid vaddr pptr s = (if pte_valid (ptes s slot) then upd_pte slot pte_pte_invalid_new s else s)"
    using assms(3,4) by (simp add: unmapPage_def findVSpaceForASID_eq assms(1) lu Let_def)
  show "\<exists>e. \<not> pte_valid e \<and> ptes (unmapPage sz asid vaddr pptr s) = (ptes s)(slot := e)"
  proof (cases "pte_valid (ptes s slot)")
    case True
    then show ?thesis by (intro exI [of _ pte_pte_invalid_new]) (simp add: u pte_pte_invalid_new_def zero_pte_def)
  next
    case False
    then show ?thesis by (intro exI [of _ "ptes s slot"]) (simp add: u)
  qed
  show "ctes (unmapPage sz asid vaddr pptr s) = ctes s" by (simp add: u)
  show "asid_root (unmapPage sz asid vaddr pptr s) = asid_root s" by (rule asid_root_cong) (simp_all add: u)
qed

text \<open>
  C9: Mapping a frame that is not mapped and unmapping it again restores the translation of every address
  in every address space, and the capability to an unmapped one. As for the mapping alone, the user tables are
  separate and the frame lies in the kernel window, aligned to its size; the ASID of the
  address space is not the invalid one.
\<close>

theorem page_map_unmap:
  assumes "decodePageMap len cte cap buffer s = (EXCEPTION_NONE, s')"
    and "frame_cap_ok cap" and "capFMappedASID cap = asidInvalid" and "user_trees s"
    and "capPTMappedASID (cte_cap (ctes s (current_extra_caps s 0))) \<noteq> asidInvalid"
  shows "case performPageInvocationUnmap (cte_cap (ctes s' cte)) cte s' of (e, s'') \<Rightarrow>
    e = EXCEPTION_NONE \<and> cte_cap (ctes s'' cte) = cap_frame_cap_set_mapping asidInvalid 0 cap \<and>
    asid_root s'' = asid_root s \<and> (\<forall>r\<in>vspaces s. \<forall>v < BIT 39. translate s'' r v = translate s r v)"
proof -
  define vaddr where "vaddr = getSyscallArg 0 buffer s"
  define c where "c = cte_cap (ctes s (current_extra_caps s 0))"
  let ?b = "pageBitsForSize (capFSize cap)" and ?root = "capPTBasePtr c" and ?asid = "capPTMappedASID c"
  let ?cap = "cap_frame_cap_set_mapping ?asid vaddr cap"
  note d = decodePageMap_none [OF assms(1), folded vaddr_def c_def]
  note top = page_below_user_top [OF d(2,3) page_bits]
  obtain l slot where l: "last (root_walk s ?root vaddr) = (l, slot)" by fastforce
  then have lu: "lookupPTSlot ?root vaddr s = \<lparr>ptSlot = slot, ptBitsLeft = lvl_bits l\<rparr>"
    by (simp add: lookupPTSlot_walk walk_ret_def)
  have b: "?b = lvl_bits l" using d(4) lu by simp
  have b64: "lvl_bits l < 64" using page_bits [of "capFSize cap"] b by auto
  obtain x r where mem: "ptes s' = (ptes s)(slot := makeUserPTE (addrFromPPtr (capFBasePtr cap)) x r)"
    using d(7) lu by simp
  have iv: "\<not> pte_valid (ptes s slot)" and nt: "\<not> isPTEPageTable (ptes s slot)"
    using d(6) lu assms(3) by (auto simp: frame_remap_ok_def syscall_fail_def isPTEPageTable_def split: if_splits)
  have w: "root_walk s' ?root = root_walk s ?root"
    by (rule ext) (simp add: root_walk_def mem walk_leaf nt makeUserPTE_not_table)
  have ar: "asid_root s' = asid_root s" by (rule asid_root_cong) (simp_all add: d(7))
  then have a: "asid_root s' ?asid = Some ?root" and root: "?root \<in> vspaces s" using d(1) by (auto simp: vspaces_def)
  have "is_cap_frame_cap cap" using assms(2) by (simp add: frame_cap_ok_def)
  then have cap: "capFMappedASID ?cap = ?asid" "capFMappedAddress ?cap = vaddr" "capFSize ?cap = capFSize cap"
    "capFBasePtr ?cap = capFBasePtr cap" "cap_frame_cap_set_mapping asidInvalid 0 ?cap = cap_frame_cap_set_mapping asidInvalid 0 cap"
    by (cases cap; simp add: cap_frame_cap_set_mapping_def)+
  have cte: "cte_cap (ctes s' cte) = ?cap" by (simp add: d(7) set_cap_def upd_cte_def)
  let ?s1 = "unmapPage (capFSize cap) ?asid vaddr (capFBasePtr cap) s'"
  have "pte_valid (ptes s' slot) \<Longrightarrow> \<not> isPTEPageTable (ptes s' slot) \<and>
      push_bit seL4_PageBits (ppn (ptes s' slot)) = addrFromPPtr (capFBasePtr cap)"
    using makeUserPTE_ppn [OF assms(2), of x r] by (simp add: mem makeUserPTE_not_table)
  note u = unmapPage_entry [OF a, of vaddr l slot "capFSize cap" "capFBasePtr cap", unfolded w, OF l b [symmetric] this]
  obtain e where e: "\<not> pte_valid e" "ptes ?s1 = (ptes s)(slot := e)" using u(1) mem by auto
  have p: "performPageInvocationUnmap (cte_cap (ctes s' cte)) cte s' =
      (EXCEPTION_NONE, set_cap cte (cap_frame_cap_set_mapping asidInvalid 0 cap) ?s1)"
    using assms(5) [folded c_def] u(2) cte by (simp add: performPageInvocationUnmap_def cap Let_def)
  have ne: "\<not> isPTEPageTable e" using e(1) by (simp add: isPTEPageTable_def)
  have "translate (set_cap cte q ?s1) r v = translate s r v" if "r \<in> vspaces s" "v < BIT 39" for r v q
    using translate_update(2) [OF assms(4) root top(2) l d(3) [unfolded b] b64 _ nt ne, of "set_cap cte q ?s1" r v]
      translate_update(2) [OF assms(4) root top(2) l d(3) [unfolded b] b64 _ nt nt, of s r v] that e iv
    by (cases "r = ?root \<and> v - vaddr < BIT (lvl_bits l)") (simp_all add: leaf_translation_invalid)
  moreover have "asid_root (set_cap cte q ?s1) = asid_root s" for q
    using u(3) ar asid_root_cong [of "set_cap cte q ?s1" ?s1] by simp
  ultimately show ?thesis by (simp add: p c_def) (simp add: set_cap_def upd_cte_def)
qed

section \<open>Mapping a page table\<close>

text \<open>A table entry in place of an entry that is not one: walks that end there go one level further.\<close>

lemma walk_extend:
  assumes "\<not> isPTEPageTable (mem x)" "isPTEPageTable e"
  shows "walk l (mem(x := e)) pt v =
    (case last (walk l mem pt v) of (l', y) \<Rightarrow>
       walk l mem pt v @ (if y = x \<and> l' \<noteq> 0 then walk (l' - 1) (mem(x := e)) (getPPtrFromHWPTE e) v else []))"
proof (induction l arbitrary: pt)
  case (Suc l)
  show ?case
  proof (cases "walk_slot (Suc l) pt v = x")
    case True
    then show ?thesis using assms by (simp add: Let_def fun_upd_def)
  next
    case False
    then show ?thesis using Suc [of "getPPtrFromHWPTE (mem (walk_slot (Suc l) pt v))"]
      by (auto simp: Let_def split: prod.splits)
  qed
qed simp

lemma walk_last_unique:
  "(l', x) \<in> set (walk l mem pt v) \<Longrightarrow> \<not> isPTEPageTable (mem x) \<Longrightarrow> last (walk l mem pt v) = (l', x)"
proof (induction l arbitrary: pt)
  case (Suc l)
  then show ?case by (auto simp: Let_def split: if_splits)
qed simp

lemma pte_at_inj:
  assumes "unat i < 2 ^ 9" "unat j < 2 ^ 9" "pte_at pt i = pte_at pt j"
  shows "i = j"
proof -
  have u: "unat (push_bit 3 k) = 8 * unat k" if "unat k < 2 ^ 9" for k :: word_t
  proof -
    have "push_bit 3 k = 8 * k" by (simp add: push_bit_eq_mult)
    then show ?thesis using that by (simp add: unat_word_ariths)
  qed
  have "push_bit 3 i = push_bit 3 j" using assms(3) by (simp add: pte_at_def)
  then show ?thesis using u [OF assms(1)] u [OF assms(2)] by (simp add: word_unat_eq_iff)
qed

lemma walk_index: "unat (drop_bit k v AND MASK PT_INDEX_BITS) < 2 ^ 9"
  by (simp add: unat_and_MASK PT_INDEX_BITS_def)

text \<open>Two addresses that agree above a level and have the same index at it agree from that level on.\<close>

lemma drop_bit_next_level:
  fixes v w :: word_t
  assumes "drop_bit (lvl_bits (Suc l)) v = drop_bit (lvl_bits (Suc l)) w"
    and "drop_bit (lvl_bits l) v AND MASK PT_INDEX_BITS = drop_bit (lvl_bits l) w AND MASK PT_INDEX_BITS"
  shows "drop_bit (lvl_bits l) v = drop_bit (lvl_bits l) w"
proof -
  let ?n = PT_INDEX_BITS
  have s: "drop_bit ?n (drop_bit (lvl_bits l) u) = drop_bit (lvl_bits (Suc l)) u" for u :: word_t
    by (simp add: lvl_bits_def ac_simps)
  have "u = push_bit ?n (drop_bit ?n u) + (u AND MASK ?n)" for u :: word_t
    using bits_ident [of ?n u] by (simp add: MASK_eq_mask take_bit_eq_mask)
  then show ?thesis using assms s by metis
qed

text \<open>
  A table that no walk of any address space reaches, all entries of which are invalid.
\<close>

definition fresh_table :: "kstate \<Rightarrow> word_t \<Rightarrow> bool" where
  "fresh_table s pt \<longleftrightarrow> PPTR_BASE \<le> pt \<and> is_aligned pt 12 \<and>
     (\<forall>i. unat i < 2 ^ 9 \<longrightarrow> \<not> pte_valid (ptes s (pte_at pt i)) \<and>
        (\<forall>r\<in>vspaces s. \<forall>v < BIT 39. pte_at pt i \<notin> snd ` set (root_walk s r v)))"

lemma table_pte:
  assumes "PPTR_BASE \<le> pt" "is_aligned pt 12"
  defines "e \<equiv> pte_new (drop_bit seL4_PageBits (addrFromPPtr pt)) 0 False False False False False False False True"
  shows "isPTEPageTable e" and "getPPtrFromHWPTE e = pt"
proof -
  show "isPTEPageTable e" by (simp add: e_def isPTEPageTable_def pte_new_def)
  have f: "frame_cap_ok (cap_frame_cap 0 pt RISCV_4K_Page VMReadWrite False 0)"
    using assms(1,2) by (simp add: frame_cap_ok_def pageBitsForSize_def size_bits_defs)
  have "push_bit 12 (drop_bit 12 (addrFromPPtr pt) AND MASK 44) = addrFromPPtr pt"
    using frame_paddr [OF f] by (intro ppn_roundtrip) (simp_all add: pageBitsForSize_def size_bits_defs)
  then show "getPPtrFromHWPTE e = pt"
    by (simp add: e_def pte_new_def getPPtrFromHWPTE_def seL4_PageBits_def seL4_PageTableBits_def ptrFromPAddr_def addrFromPPtr_def
        del: push_bit_and)
qed

lemma decodePageTableMap_none:
  assumes "decodePageTableMap len cte cap buffer s = (EXCEPTION_NONE, s')"
  defines "vaddr \<equiv> getSyscallArg 0 buffer s" and "c \<equiv> cte_cap (ctes s (current_extra_caps s 0))"
  defines "lu \<equiv> lookupPTSlot (capPTBasePtr c) vaddr s"
  shows "asid_root s (capPTMappedASID c) = Some (capPTBasePtr c)" and "vaddr < USER_TOP" and "\<not> capPTIsMapped cap"
    and "ptBitsLeft lu \<noteq> seL4_PageBits" and "\<not> pte_valid (ptes s (ptSlot lu))"
    and "s' = upd_pte (ptSlot lu)
      (pte_new (drop_bit seL4_PageBits (addrFromPPtr (capPTBasePtr cap))) 0 False False False False False False False True)
      (set_cap cte (cap_page_table_cap_set_mapping (capPTMappedASID c) (vaddr AND NOT (MASK (ptBitsLeft lu))) cap)
        (setThreadState (ksCurThread s) ThreadState_Restart s))"
  using assms(1)
  by (simp_all add: vaddr_def c_def lu_def decodePageTableMap_def syscall_fail_def Let_def findVSpaceForASID_eq
      performPageTableInvocationMap_def split: if_splits option.splits)

text \<open>
  A fresh table at \<open>pt\<close> is installed by the entry \<open>e\<close> at \<open>x\<close>, the invalid entry of level \<open>Suc k\<close> that the
  walk of \<open>w\<close> ends in.
\<close>

definition installs_table :: "kstate \<Rightarrow> kstate \<Rightarrow> word_t \<Rightarrow> word_t \<Rightarrow> nat \<Rightarrow> word_t \<Rightarrow> pte \<Rightarrow> word_t \<Rightarrow> bool" where
  "installs_table s s' root w k x e pt \<longleftrightarrow> user_trees s \<and> root \<in> vspaces s \<and> vspaces s' = vspaces s \<and>
     fresh_table s pt \<and> w < BIT 38 \<and>
     last (root_walk s root w) = (Suc k, x) \<and> \<not> pte_valid (ptes s x) \<and> isPTEPageTable e \<and> getPPtrFromHWPTE e = pt \<and>
     ptes s' = (ptes s)(x := e)"

definition reaches :: "kstate \<Rightarrow> word_t \<Rightarrow> nat \<times> word_t \<Rightarrow> word_t \<Rightarrow> bool" where
  "reaches s root lx v \<longleftrightarrow> lx \<in> set (root_walk s root v)"

lemma root_walk_last: "reaches s root (last (root_walk s root v)) v"
  by (simp add: reaches_def root_walk_def)

lemma installs_tableD:
  assumes "installs_table s s' root w k x e pt"
  shows "reaches s root (Suc k, x) w"
    and "\<not> pte_valid (ptes s (walk_slot j pt v))"
    and "r \<in> vspaces s \<Longrightarrow> u < BIT 39 \<Longrightarrow> \<not> reaches s r (j', walk_slot j pt v) u"
    and "walk_slot j pt v \<noteq> x"
    and "reaches s r (Suc k, x) v \<Longrightarrow> last (root_walk s r v) = (Suc k, x)"
    and "r \<in> vspaces s \<Longrightarrow> v < BIT 39 \<Longrightarrow> reaches s r (l', x) v \<Longrightarrow>
      r = root \<and> l' = Suc k \<and> drop_bit (lvl_bits (Suc k)) w = drop_bit (lvl_bits (Suc k)) v"
proof -
  note a = assms [unfolded installs_table_def]
  have "walk_slot j pt v = pte_at pt (drop_bit (lvl_bits j) v AND MASK PT_INDEX_BITS)" for j v by (simp add: walk_slot_def)
  then have fresh: "\<not> pte_valid (ptes s (walk_slot j pt v))"
    "r \<in> vspaces s \<Longrightarrow> u < BIT 39 \<Longrightarrow> walk_slot j pt v \<notin> snd ` set (root_walk s r u)" for j v u r
    using a walk_index unfolding fresh_table_def by (metis, metis)
  then show "\<not> pte_valid (ptes s (walk_slot j pt v))"
    "r \<in> vspaces s \<Longrightarrow> u < BIT 39 \<Longrightarrow> \<not> reaches s r (j', walk_slot j pt v) u"
    by (simp, force simp: reaches_def)
  show x: "reaches s root (Suc k, x) w" using a root_walk_last [of s root w] by simp
  have "w < BIT 39" using a by (simp add: word_less_nat_alt BIT_def)
  then show "walk_slot j pt v \<noteq> x" using a x fresh(2) [of root w j v] unfolding reaches_def by force
  have "\<not> isPTEPageTable (ptes s x)" using a by (simp add: isPTEPageTable_def)
  then show "last (root_walk s r v) = (Suc k, x)" if "reaches s r (Suc k, x) v"
    using that walk_last_unique unfolding reaches_def root_walk_def by blast
  show "r = root \<and> l' = Suc k \<and> drop_bit (lvl_bits (Suc k)) w = drop_bit (lvl_bits (Suc k)) v"
    if "r \<in> vspaces s" "v < BIT 39" "reaches s r (l', x) v"
    using user_treesD [of s root r w v "Suc k" x l'] a that x unfolding reaches_def by auto
qed

lemma installs_table_walk:
  assumes "installs_table s s' root w k x e pt" "r \<in> vspaces s" "v < BIT 39"
  shows "root_walk s' r v =
    root_walk s r v @ (if reaches s r (Suc k, x) v then [(k, walk_slot k pt v)] else [])"
proof -
  note a = assms(1) [unfolded installs_table_def] and d = installs_tableD [OF assms(1)]
  have nt: "\<not> isPTEPageTable (ptes s x)" and e: "isPTEPageTable e" "getPPtrFromHWPTE e = pt"
    and mem: "ptes s' = (ptes s)(x := e)" using a by (simp_all add: isPTEPageTable_def)
  obtain l y where y: "last (root_walk s r v) = (l, y)" by fastforce
  have w: "root_walk s' r v = root_walk s r v @ (if y = x \<and> l \<noteq> 0 then walk (l - 1) (ptes s') pt v else [])"
    by (rule walk_extend [where mem = "ptes s" and x = x, OF nt e(1), of "CONFIG_PT_LEVELS - 1" r v, folded mem,
          folded root_walk_def, unfolded e(2) y prod.case])
  have sub: "walk k (ptes s') pt v = [(k, walk_slot k pt v)]"
    using d(2,4) by (cases k) (simp_all add: mem isPTEPageTable_def Let_def)
  show ?thesis
  proof (cases "y = x")
    case True
    then have "l = Suc k" using d(6) [OF assms(2,3), of l] root_walk_last [of s r v] y by simp
    then show ?thesis using w sub root_walk_last [of s r v] y True by simp
  next
    case False
    then have "\<not> reaches s r (Suc k, x) v" using d(5) [of r v] y by auto
    then show ?thesis using w False by simp
  qed
qed

lemma installs_table_translate:
  assumes "installs_table s s' root w k x e pt" "r \<in> vspaces s" "v < BIT 39"
  shows "translate s' r v = translate s r v"
proof -
  note a = assms(1) [unfolded installs_table_def] and d = installs_tableD [OF assms(1)]
  note w = installs_table_walk [OF assms]
  show ?thesis
  proof (cases "reaches s r (Suc k, x) v")
    case True
    then show ?thesis using a w d(2,4) [of k v] d(5) [of r v] by (simp add: translate_walk leaf_translation_def)
  next
    case False
    have "x \<noteq> snd (last (root_walk s r v))"
      using False d(6) [OF assms(2,3)] root_walk_last [of s r v] by (metis prod.collapse)
    then show ?thesis using a w False by (simp add: translate_walk leaf_translation_def case_prod_beta)
  qed
qed

lemma installs_table_tree:
  assumes "installs_table s s' root w k x e pt"
  shows "user_trees s'"
  unfolding user_trees_def
proof (intro ballI allI impI)
  note d = installs_tableD [OF assms] and w = installs_table_walk [OF assms]
  have tree: "user_trees s" and vs: "vspaces s' = vspaces s" using assms by (simp_all add: installs_table_def)
  fix r r' v v' a a' y
  assume r: "r \<in> vspaces s'" "r' \<in> vspaces s'" and v: "v < BIT 38" "v' < BIT 39"
    and y: "(a, y) \<in> set (root_walk s' r v)" "(a', y) \<in> set (root_walk s' r' v')"
  note r = r [unfolded vs]
  have v39: "v < BIT 39" using v(1) by (simp add: word_less_nat_alt BIT_def)
  have cases: "reaches s q (b, y) u \<or> reaches s q (Suc k, x) u \<and> b = k \<and> y = walk_slot k pt u"
    if "(b, y) \<in> set (root_walk s' q u)" "q \<in> vspaces s" "u < BIT 39" for b q u
    using that(1) unfolding w [OF that(2,3)] by (auto simp: reaches_def split: if_splits)
  consider (old) "reaches s r (a, y) v" "reaches s r' (a', y) v'"
    | (new) "reaches s r (Suc k, x) v" "reaches s r' (Suc k, x) v'" "a = k" "a' = k" "walk_slot k pt v = walk_slot k pt v'"
    using cases [OF y(1) r(1) v39] cases [OF y(2) r(2) v(2)] d(3) r v39 v by metis
  then show "r = r' \<and> a = a' \<and> drop_bit (lvl_bits a) v = drop_bit (lvl_bits a) v'"
  proof cases
    case old
    then show ?thesis using user_treesD [OF tree r v] unfolding reaches_def by blast
  next
    case new
    have "r = r' \<and> drop_bit (lvl_bits (Suc k)) v = drop_bit (lvl_bits (Suc k)) v'"
      using user_treesD [OF tree r v] new(1,2) unfolding reaches_def by blast
    moreover have "drop_bit (lvl_bits k) v AND MASK PT_INDEX_BITS = drop_bit (lvl_bits k) v' AND MASK PT_INDEX_BITS"
      using pte_at_inj [OF walk_index walk_index] new(5) by (simp add: walk_slot_def)
    ultimately show ?thesis using new(3,4) drop_bit_next_level by blast
  qed
qed

text \<open>
  C10: A successful mapping of an empty page table, one that no address space uses yet, changes the translation
  of no address in any address space, keeps the user tables separate, and moves the lookup of the address one level
  down, into the new table.
\<close>

theorem page_table_map_keeps_translation:
  assumes "decodePageTableMap len cte cap buffer s = (EXCEPTION_NONE, s')"
    and "user_trees s" and "fresh_table s (capPTBasePtr cap)"
  shows "let vaddr = getSyscallArg 0 buffer s; c = cte_cap (ctes s (current_extra_caps s 0)); root = capPTBasePtr c
    in asid_root s (capPTMappedASID c) = Some root \<and> vaddr < USER_TOP \<and>
       asid_root s' = asid_root s \<and> (\<forall>r\<in>vspaces s. \<forall>v < BIT 39. translate s' r v = translate s r v) \<and> user_trees s' \<and>
       ptBitsLeft (lookupPTSlot root vaddr s') + PT_INDEX_BITS = ptBitsLeft (lookupPTSlot root vaddr s) \<and>
       (\<exists>i < BIT PT_INDEX_BITS. ptSlot (lookupPTSlot root vaddr s') = pte_at (capPTBasePtr cap) i)"
proof -
  define vaddr where "vaddr = getSyscallArg 0 buffer s"
  define c where "c = cte_cap (ctes s (current_extra_caps s 0))"
  let ?root = "capPTBasePtr c" and ?pt = "capPTBasePtr cap"
  define e where "e = pte_new (drop_bit seL4_PageBits (addrFromPPtr ?pt)) 0 False False False False False False False True"
  note d = decodePageTableMap_none [OF assms(1), folded vaddr_def c_def e_def]
  have e: "isPTEPageTable e" "getPPtrFromHWPTE e = ?pt"
    using assms(3) table_pte [of ?pt] unfolding fresh_table_def e_def by blast+
  have v: "vaddr < BIT 38" "vaddr < BIT 39" using d(2) by (simp_all add: word_less_nat_alt BIT_def USER_TOP_def)
  have ar: "asid_root s' = asid_root s" by (rule asid_root_cong) (simp_all add: d(6))
  have root: "?root \<in> vspaces s" using d(1) by (auto simp: vspaces_def)
  obtain l x where l: "last (root_walk s ?root vaddr) = (l, x)" by fastforce
  then have lu: "lookupPTSlot ?root vaddr s = \<lparr>ptSlot = x, ptBitsLeft = lvl_bits l\<rparr>"
    by (simp add: lookupPTSlot_walk walk_ret_def)
  obtain k where k: "l = Suc k" using d(4) lu by (cases l) (simp_all add: lvl_bits_def)
  have inst: "installs_table s s' ?root vaddr k x e ?pt"
    using assms(2,3) root v(1) l k d(5,6) lu e ar by (simp add: installs_table_def vspaces_def)
  have lu': "lookupPTSlot ?root vaddr s' = \<lparr>ptSlot = walk_slot k ?pt vaddr, ptBitsLeft = lvl_bits k\<rparr>"
    using installs_table_walk [OF inst root v(2)] installs_tableD(1) [OF inst] by (simp add: lookupPTSlot_walk walk_ret_def)
  have "drop_bit (lvl_bits k) vaddr AND MASK PT_INDEX_BITS < BIT PT_INDEX_BITS"
    using walk_index [of "lvl_bits k" vaddr] by (simp add: word_less_nat_alt PT_INDEX_BITS_def BIT_def)
  then have "\<exists>i < BIT PT_INDEX_BITS. ptSlot (lookupPTSlot ?root vaddr s') = pte_at ?pt i"
    using lu' by (auto simp: walk_slot_def)
  moreover have "ptBitsLeft (lookupPTSlot ?root vaddr s') + PT_INDEX_BITS = ptBitsLeft (lookupPTSlot ?root vaddr s)"
    by (simp add: lu lu' k lvl_bits_def)
  ultimately show ?thesis using d(1,2) ar installs_table_translate [OF inst] installs_table_tree [OF inst]
    unfolding Let_def vaddr_def c_def by blast
qed

section \<open>An example with two address spaces\<close>

text \<open>
  The address spaces with ASIDs 1 and 2 have the root tables 1 and 7. The kernel's part is the same in both:
  two entries point to the table 6, as for the kernel image, which maps a large page. The first entry of
  table 1 points to table 2, and that one's to table 3.
  The current thread invokes a mapping at \<open>vaddr\<close> in the first, with read and write rights.
\<close>

definition ex_table :: "word_t \<Rightarrow> word_t" where
  "ex_table n = PPTR_BASE + push_bit 12 n"

definition ex_pte :: "word_t \<Rightarrow> pte" where
  "ex_pte pt = pte_new (drop_bit seL4_PageBits (addrFromPPtr pt)) 0 False False False False False False False True"

definition ex_leaf :: pte where
  "ex_leaf = pte_new 0 0 True True True False True True True True"

definition ex_kernel :: "word_t \<Rightarrow> bool" where
  "ex_kernel i \<longleftrightarrow> i = 256 \<or> i = 510"

definition vm_example :: "word_t \<Rightarrow> kstate" where
  "vm_example vaddr = zero_state\<lparr>
     ctes := (\<lambda>_. zero_cte)(64 := zero_cte\<lparr>cte_cap := cap_page_table_cap 1 (ex_table 1) True 0\<rparr>),
     current_extra_caps := (\<lambda>_. 0)(0 := 64),
     tcbs := (\<lambda>_. zero_tcb\<lparr>tcbContext := (\<lambda>_. 0)(11 := vaddr, 12 := 3)\<rparr>),
     riscvKSASIDTable := (\<lambda>_. 0)(0 := ex_table 9),
     asid_pools := (\<lambda>_ _. 0)(ex_table 9 := (\<lambda>_. 0)(1 := ex_table 1, 2 := ex_table 7)),
     ptes := (\<lambda>_. zero_pte)(pte_at (ex_table 1) 0 := ex_pte (ex_table 2), pte_at (ex_table 2) 0 := ex_pte (ex_table 3),
       pte_at (ex_table 1) 256 := ex_pte (ex_table 6), pte_at (ex_table 1) 510 := ex_pte (ex_table 6),
       pte_at (ex_table 7) 256 := ex_pte (ex_table 6), pte_at (ex_table 7) 510 := ex_pte (ex_table 6),
       pte_at (ex_table 6) 0 := ex_leaf)\<rparr>"

definition ex_frame :: cap where
  "ex_frame = cap_frame_cap asidInvalid (ex_table 4) RISCV_4K_Page VMReadWrite False 0"

lemma ex_table_ok:
  assumes "unat n < 2 ^ 8"
  shows "unat (ex_table n) = unat PPTR_BASE + 4096 * unat n"
proof -
  have "push_bit 12 n = 4096 * n" by (simp add: push_bit_eq_mult)
  then have "unat (push_bit 12 n) = 4096 * unat n" using assms by (simp add: unat_word_ariths)
  then show ?thesis using assms by (simp add: ex_table_def unat_word_ariths PPTR_BASE_def)
qed

lemma ex_table_base:
  assumes "unat n < 2 ^ 8"
  shows "PPTR_BASE \<le> ex_table n" "is_aligned (ex_table n) 12"
proof -
  show "PPTR_BASE \<le> ex_table n" using ex_table_ok [OF assms] by (simp add: word_le_nat_alt)
  have "(2::nat) ^ 12 dvd unat PPTR_BASE" "(2::nat) ^ 12 dvd 4096 * unat n" by (simp_all add: PPTR_BASE_def)
  then show "is_aligned (ex_table n) 12" unfolding is_aligned_def ex_table_ok [OF assms] by (rule dvd_add)
qed

lemma unat_pte_at:
  assumes "unat n < 2 ^ 8" "unat i < 2 ^ 9"
  shows "unat (pte_at (ex_table n) i) = unat PPTR_BASE + 4096 * unat n + 8 * unat i"
proof -
  have "push_bit 3 i = 8 * i" by (simp add: push_bit_eq_mult)
  then have "unat (push_bit 3 i) = 8 * unat i" using assms(2) by (simp add: unat_word_ariths)
  then show ?thesis using ex_table_ok [OF assms(1)] assms
    by (simp add: pte_at_def unat_word_ariths PPTR_BASE_def)
qed

lemma ex_slot_eq:
  assumes "unat n < 2 ^ 8" "unat m < 2 ^ 8" "unat i < 2 ^ 9" "unat j < 2 ^ 9"
  shows "pte_at (ex_table n) i = pte_at (ex_table m) j \<longleftrightarrow> n = m \<and> i = j"
proof
  assume "pte_at (ex_table n) i = pte_at (ex_table m) j"
  then have "4096 * unat n + 8 * unat i = 4096 * unat m + 8 * unat j"
    using unat_pte_at [OF assms(1,3)] unat_pte_at [OF assms(2,4)] by simp
  moreover have "(4096 * unat n + 8 * unat i) div 4096 = unat n" "(4096 * unat m + 8 * unat j) div 4096 = unat m"
    using assms(3,4) by simp_all
  ultimately have "unat n = unat m \<and> unat i = unat j" by simp
  then show "n = m \<and> i = j" by (simp add: word_unat_eq_iff)
qed simp

lemma ex_pte_table:
  assumes "unat n < 2 ^ 8"
  shows "isPTEPageTable (ex_pte (ex_table n))" "getPPtrFromHWPTE (ex_pte (ex_table n)) = ex_table n"
  using table_pte [OF ex_table_base [OF assms]] by (simp_all add: ex_pte_def)

definition ex_idx :: "nat \<Rightarrow> word_t \<Rightarrow> word_t" where
  "ex_idx l v = drop_bit (lvl_bits l) v AND MASK PT_INDEX_BITS"

lemma ex_idx_less: "unat (ex_idx l v) < 2 ^ 9"
  unfolding ex_idx_def by (rule walk_index)

lemma ex_ptes:
  assumes "unat n < 2 ^ 8" "unat i < 2 ^ 9"
  shows "ptes (vm_example a) (pte_at (ex_table n) i) =
    (if n = 1 \<and> i = 0 then ex_pte (ex_table 2) else if n = 2 \<and> i = 0 then ex_pte (ex_table 3)
     else if (n = 1 \<or> n = 7) \<and> ex_kernel i then ex_pte (ex_table 6) else if n = 6 \<and> i = 0 then ex_leaf else zero_pte)"
proof -
  have eq: "pte_at (ex_table n) i = pte_at (ex_table m) j \<longleftrightarrow> n = m \<and> i = j" if "unat m < 2 ^ 8" "unat j < 2 ^ 9" for m j
    by (rule ex_slot_eq [OF assms(1) that(1) assms(2) that(2)])
  have mem: "ptes (vm_example a) p =
    (if p = pte_at (ex_table 6) 0 then ex_leaf else if p = pte_at (ex_table 7) 510 then ex_pte (ex_table 6)
     else if p = pte_at (ex_table 7) 256 then ex_pte (ex_table 6) else if p = pte_at (ex_table 1) 510 then ex_pte (ex_table 6)
     else if p = pte_at (ex_table 1) 256 then ex_pte (ex_table 6) else if p = pte_at (ex_table 2) 0 then ex_pte (ex_table 3)
     else if p = pte_at (ex_table 1) 0 then ex_pte (ex_table 2) else zero_pte)" for p
    by (simp add: vm_example_def fun_upd_def del: fun_upd_apply)
  have "pte_at (ex_table n) i = pte_at (ex_table m) j \<longleftrightarrow> n = m \<and> i = j" if "m \<in> {1, 2, 6, 7}" "j \<in> {0, 256, 510}" for m j
    using eq [of m j] that by auto
  then have slots: "pte_at (ex_table n) i = pte_at (ex_table 6) 0 \<longleftrightarrow> n = 6 \<and> i = 0"
    "pte_at (ex_table n) i = pte_at (ex_table 7) 510 \<longleftrightarrow> n = 7 \<and> i = 510"
    "pte_at (ex_table n) i = pte_at (ex_table 7) 256 \<longleftrightarrow> n = 7 \<and> i = 256"
    "pte_at (ex_table n) i = pte_at (ex_table 1) 510 \<longleftrightarrow> n = 1 \<and> i = 510"
    "pte_at (ex_table n) i = pte_at (ex_table 1) 256 \<longleftrightarrow> n = 1 \<and> i = 256"
    "pte_at (ex_table n) i = pte_at (ex_table 2) 0 \<longleftrightarrow> n = 2 \<and> i = 0"
    "pte_at (ex_table n) i = pte_at (ex_table 1) 0 \<longleftrightarrow> n = 1 \<and> i = 0"
    by simp_all
  show ?thesis
    unfolding mem slots ex_kernel_def
    by (cases "n = 1"; cases "n = 7"; cases "n = 2"; cases "n = 6") simp_all
qed

lemma ex_walk:
  assumes "n = 1 \<or> n = 7"
  shows "root_walk (vm_example a) (ex_table n) v = (Suc (Suc 0), pte_at (ex_table n) (ex_idx (Suc (Suc 0)) v)) #
     (if n = 1 \<and> ex_idx (Suc (Suc 0)) v = 0 then (Suc 0, pte_at (ex_table 2) (ex_idx (Suc 0) v)) #
        (if ex_idx (Suc 0) v = 0 then [(0, pte_at (ex_table 3) (ex_idx 0 v))] else [])
      else if ex_kernel (ex_idx (Suc (Suc 0)) v) then [(Suc 0, pte_at (ex_table 6) (ex_idx (Suc 0) v))] else [])"
proof -
  have slot: "walk_slot l (ex_table n) v = pte_at (ex_table n) (ex_idx l v)" for l n
    by (simp add: walk_slot_def ex_idx_def)
  have z: "\<not> isPTEPageTable zero_pte" "\<not> isPTEPageTable ex_leaf"
    by (simp_all add: isPTEPageTable_def zero_pte_def ex_leaf_def pte_new_def)
  have t: "isPTEPageTable (ex_pte (ex_table 2))" "getPPtrFromHWPTE (ex_pte (ex_table 2)) = ex_table 2"
    "isPTEPageTable (ex_pte (ex_table 3))" "getPPtrFromHWPTE (ex_pte (ex_table 3)) = ex_table 3"
    "isPTEPageTable (ex_pte (ex_table 6))" "getPPtrFromHWPTE (ex_pte (ex_table 6)) = ex_table 6"
    by (rule ex_pte_table; simp)+
  have small: "unat m < 2 ^ 8" if "m \<in> {1, 2, 3, 6, 7 :: word_t}" for m using that by auto
  have p: "ptes (vm_example a) (pte_at (ex_table m) (ex_idx l v)) =
    (if m = 1 \<and> ex_idx l v = 0 then ex_pte (ex_table 2) else if m = 2 \<and> ex_idx l v = 0 then ex_pte (ex_table 3)
     else if (m = 1 \<or> m = 7) \<and> ex_kernel (ex_idx l v) then ex_pte (ex_table 6)
     else if m = 6 \<and> ex_idx l v = 0 then ex_leaf else zero_pte)" if "m \<in> {1, 2, 3, 6, 7}" for l m
    by (rule ex_ptes [OF small [OF that] ex_idx_less])
  have two: "CONFIG_PT_LEVELS - 1 = Suc (Suc 0)" by (simp add: CONFIG_PT_LEVELS_def)
  have "n \<in> {1, 2, 3, 6, 7}" using assms by auto
  note pn = p [OF this]
  have lvl1: "walk (Suc 0) (ptes (vm_example a)) (ex_table 2) v = (Suc 0, pte_at (ex_table 2) (ex_idx (Suc 0) v)) #
      (if ex_idx (Suc 0) v = 0 then [(0, pte_at (ex_table 3) (ex_idx 0 v))] else [])"
    "walk (Suc 0) (ptes (vm_example a)) (ex_table 6) v = [(Suc 0, pte_at (ex_table 6) (ex_idx (Suc 0) v))]"
    using p [of 2 "Suc 0"] p [of 6 "Suc 0"] by (simp_all add: slot z t Let_def)
  have top: "root_walk (vm_example a) (ex_table n) v = (Suc (Suc 0), pte_at (ex_table n) (ex_idx (Suc (Suc 0)) v)) #
      (let pte = ptes (vm_example a) (pte_at (ex_table n) (ex_idx (Suc (Suc 0)) v))
       in if isPTEPageTable pte then walk (Suc 0) (ptes (vm_example a)) (getPPtrFromHWPTE pte) v else [])"
    unfolding root_walk_def two by (simp only: walk.simps(2) slot)
  consider "n = 1" "ex_idx (Suc (Suc 0)) v = 0" | "n = 1" "ex_idx (Suc (Suc 0)) v \<noteq> 0" | "n = 7" using assms by blast
  then show ?thesis
    by cases (unfold top pn, simp_all only: Let_def, simp_all add: lvl1 z t del: walk.simps)
qed

lemma ex_prefix:
  assumes "v < BIT 39" "v' < BIT 39" "ex_idx (Suc (Suc 0)) v = ex_idx (Suc (Suc 0)) v'"
  shows "drop_bit (lvl_bits (Suc (Suc 0))) v = drop_bit (lvl_bits (Suc (Suc 0))) v'"
proof -
  have b: "lvl_bits (Suc (Suc 0)) = 30" by (simp add: lvl_bits_def PT_INDEX_BITS_def seL4_PageBits_def)
  have "drop_bit 30 u AND MASK 9 = drop_bit 30 u" if "u < BIT 39" for u
  proof (rule and_mask_less)
    have "unat u < 2 ^ 39" using that by (simp add: word_less_nat_alt unat_BIT)
    then have "unat u div 2 ^ 30 < 2 ^ 9" by simp
    then show "unat (drop_bit 30 u) < 2 ^ 9" by (simp only: unat_drop_bit_eq) (simp add: drop_bit_eq_div)
  qed
  then show ?thesis using assms by (simp add: ex_idx_def b PT_INDEX_BITS_def)
qed

lemma ex_user_index:
  assumes "v < BIT 38"
  shows "\<not> ex_kernel (ex_idx (Suc (Suc 0)) v)"
proof -
  have "unat (ex_idx (Suc (Suc 0)) v) < 256"
  proof -
    have "unat v < 2 ^ 38" using assms by (simp add: word_less_nat_alt unat_BIT)
    then have "unat v div 2 ^ 30 < 256" by simp
    moreover have "unat (drop_bit 30 v AND MASK 9) \<le> unat v div 2 ^ 30"
      by (simp only: unat_and_MASK unat_drop_bit_eq) (simp add: drop_bit_eq_div)
    ultimately show ?thesis by (simp add: ex_idx_def lvl_bits_def PT_INDEX_BITS_def seL4_PageBits_def)
  qed
  then show ?thesis by (auto simp: ex_kernel_def)
qed

lemma ex_vspaces: "vspaces (vm_example a) = {ex_table 1, ex_table 7}"
proof -
  have nz: "ex_table 1 \<noteq> 0" "ex_table 7 \<noteq> 0" "ex_table 9 \<noteq> 0" by (simp_all add: ex_table_def PPTR_BASE_def)
  have r: "asid_root (vm_example a) asid = Some r \<longleftrightarrow> ASID_HIGH asid = 0 \<and>
      (ASID_LOW asid = 1 \<and> r = ex_table 1 \<or> ASID_LOW asid = 2 \<and> r = ex_table 7)" for asid r
    using nz by (auto simp: asid_root_def vm_example_def Let_def)
  have "ASID_HIGH 1 = 0" "ASID_LOW 1 = 1" "ASID_HIGH 2 = 0" "ASID_LOW 2 = 2"
    by (simp_all add: ASID_HIGH_def ASID_LOW_def asidLowBits_def MASK_def BIT_def)
  then show ?thesis unfolding vspaces_def r by auto
qed

lemma ex_tree: "user_trees (vm_example a)"
  unfolding user_trees_def ex_vspaces
proof (intro ballI allI impI)
  fix r r' v v' l l' x
  assume r: "r \<in> {ex_table 1, ex_table 7}" "r' \<in> {ex_table 1, ex_table 7}"
    and v: "v < BIT 38" "v' < BIT 39"
    and x: "(l, x) \<in> set (root_walk (vm_example a) r v)" "(l', x) \<in> set (root_walk (vm_example a) r' v')"
  obtain n m where n: "r = ex_table n" "n = 1 \<or> n = 7" "r' = ex_table m" "m = 1 \<or> m = 7" using r by auto
  have v39: "v < BIT 39" using v(1) by (simp add: word_less_nat_alt BIT_def)
  have i: "unat (ex_idx l v) < 2 ^ 9" for l v by (rule ex_idx_less)
  have eq: "pte_at (ex_table n) j = pte_at (ex_table m) k \<longleftrightarrow> n = m \<and> j = k"
    if "n \<in> {1, 2, 3, 6, 7}" "m \<in> {1, 2, 3, 6, 7}" "unat j < 2 ^ 9" "unat k < 2 ^ 9" for n m j k
    by (rule ex_slot_eq [OF _ _ that(3,4)]) (use that(1,2) in auto)
  consider (top) "n = m" "l = Suc (Suc 0)" "l' = Suc (Suc 0)" "ex_idx (Suc (Suc 0)) v = ex_idx (Suc (Suc 0)) v'"
    | (mid) "n = m" "l = Suc 0" "l' = Suc 0" "ex_idx (Suc (Suc 0)) v = ex_idx (Suc (Suc 0)) v'" "ex_idx (Suc 0) v = ex_idx (Suc 0) v'"
    | (leaf) "n = m" "l = 0" "l' = 0" "ex_idx (Suc (Suc 0)) v = ex_idx (Suc (Suc 0)) v'" "ex_idx (Suc 0) v = ex_idx (Suc 0) v'"
        "ex_idx 0 v = ex_idx 0 v'"
    using x ex_user_index [OF v(1)] n(2,4) unfolding n(1,3) ex_walk [OF n(2)] ex_walk [OF n(4)]
    by (auto simp: eq i [simplified] split: if_splits)
  then show "r = r' \<and> l = l' \<and> drop_bit (lvl_bits l) v = drop_bit (lvl_bits l) v'"
    by cases (use ex_prefix [OF v39 v(2)] drop_bit_next_level [of "Suc 0" v v'] drop_bit_next_level [of 0 v v'] n in
        \<open>simp_all add: ex_idx_def\<close>)
qed

lemma ex_args:
  "getSyscallArg 0 0 (vm_example a) = a" "getSyscallArg 1 0 (vm_example a) = 3" "getSyscallArg 2 0 (vm_example a) = 0"
  "current_extra_caps (vm_example a) 0 = 64"
  "cte_cap (ctes (vm_example a) 64) = cap_page_table_cap 1 (ex_table 1) True 0"
  by (simp_all add: vm_example_def getSyscallArg_def n_msgRegisters_def msgRegisters_def getRegister_def zero_defs)

lemma ex_root: "asid_root (vm_example a) 1 = Some (ex_table 1)"
  by (simp add: asid_root_def vm_example_def ASID_HIGH_def ASID_LOW_def asidLowBits_def MASK_def BIT_def ex_table_def PPTR_BASE_def)

lemma ex_lookup:
  "lookupPTSlot (ex_table 1) 0x5000 (vm_example a) = \<lparr>ptSlot = pte_at (ex_table 3) 5, ptBitsLeft = 12\<rparr>"
  "lookupPTSlot (ex_table 1) 0x200000 (vm_example a) = \<lparr>ptSlot = pte_at (ex_table 2) 1, ptBitsLeft = 21\<rparr>"
  by (simp_all add: lookupPTSlot_walk ex_walk ex_kernel_def walk_ret_def ex_idx_def lvl_bits_def PT_INDEX_BITS_def seL4_PageBits_def MASK_def BIT_def)

lemma ex_entries:
  "ptes (vm_example a) (pte_at (ex_table 3) 5) = zero_pte" "ptes (vm_example a) (pte_at (ex_table 2) 1) = zero_pte"
  using ex_ptes [of 3 5 a] ex_ptes [of 2 1 a] by simp_all

lemma ex_frame_ok: "frame_cap_ok ex_frame" "capFMappedASID ex_frame = asidInvalid"
  using ex_table_base [of 4] by (simp_all add: frame_cap_ok_def ex_frame_def pageBitsForSize_def size_bits_defs)

lemma ex_map_accepted: "\<exists>s'. decodePageMap 3 96 ex_frame 0 (vm_example 0x5000) = (EXCEPTION_NONE, s')"
  by (simp add: decodePageMap_def ex_args frame_vspace_def findVSpaceForASID_eq ex_root ex_frame_def pageBitsForSize_def size_bits_defs
      checkVPAlignment_def USER_TOP_def MASK_def BIT_def ex_lookup ex_entries frame_remap_ok_def zero_pte_def
      performPageInvocationMapPTE_def updatePTE_def)

definition ex_new_table :: cap where
  "ex_new_table = cap_page_table_cap asidInvalid (ex_table 5) False 0"

lemma ex_table_map_accepted: "\<exists>s'. decodePageTableMap 2 96 ex_new_table 0 (vm_example 0x200000) = (EXCEPTION_NONE, s')"
  by (simp add: decodePageTableMap_def ex_args findVSpaceForASID_eq ex_root ex_new_table_def size_bits_defs
      USER_TOP_def ex_lookup ex_entries zero_pte_def performPageTableInvocationMap_def)

lemma ex_fresh: "fresh_table (vm_example a) (ex_table 5)"
proof -
  have "ptes (vm_example a) (pte_at (ex_table 5) i) = zero_pte" if "unat i < 2 ^ 9" for i
    using that ex_ptes [of 5 i a] by simp
  moreover have "pte_at (ex_table 5) i \<noteq> pte_at (ex_table n) (ex_idx l v)" if "unat i < 2 ^ 9" "n \<in> {1, 2, 3, 6, 7}" for i n l v
    using that ex_slot_eq [of 5 n i "ex_idx l v"] ex_idx_less by auto
  ultimately show ?thesis
    using ex_table_base [of 5] unfolding fresh_table_def ex_vspaces
    by (auto simp: zero_pte_def ex_walk [OF disjI1 [OF refl]] ex_walk [OF disjI2 [OF refl]] split: if_splits)
qed

theorem page_map_translates_witness:
  "\<exists>s'. decodePageMap 3 96 ex_frame 0 (vm_example 0x5000) = (EXCEPTION_NONE, s') \<and>
     translate s' (ex_table 1) 0x5008 =
       Some \<lparr>map_paddr = 0x4008, map_user = True, map_execute = True, map_write = True, map_read = True\<rparr> \<and>
     translate s' (ex_table 7) 0x5008 = translate (vm_example 0x5000) (ex_table 7) 0x5008"
proof -
  obtain s' where s': "decodePageMap 3 96 ex_frame 0 (vm_example 0x5000) = (EXCEPTION_NONE, s')"
    using ex_map_accepted by blast
  have f: "capFSize ex_frame = RISCV_4K_Page" "capFVMRights ex_frame = VMReadWrite" by (simp_all add: ex_frame_def)
  have "\<forall>r\<in>{ex_table 1, ex_table 7}. \<forall>v < BIT 39. translate s' r v =
      (if r = ex_table 1 \<and> v - 0x5000 < BIT 12 then frame_mapping ex_frame (maskVMRights VMReadWrite (rightsFromWord 3)) True 0x5000 v
       else translate (vm_example 0x5000) r v)"
    using page_map_translates [OF s' ex_frame_ok(1) ex_tree]
    by (simp add: ex_args f ex_vspaces pageBitsForSize_def size_bits_defs vm_attributes_get_riscvExecuteNever_def Let_def)
  moreover have "ex_table 7 \<noteq> ex_table 1" by (simp add: ex_table_def)
  ultimately have "translate s' (ex_table 1) 0x5008 = frame_mapping ex_frame (maskVMRights VMReadWrite (rightsFromWord 3)) True 0x5000 0x5008"
    "translate s' (ex_table 7) 0x5008 = translate (vm_example 0x5000) (ex_table 7) 0x5008"
    by (simp_all add: BIT_def)
  then show ?thesis
    using s' by (simp add: frame_mapping_def ex_frame_def maskVMRights_def rightsFromWord_def addrFromPPtr_def
        PPTR_BASE_OFFSET_def PADDR_BASE_def ex_table_def PPTR_BASE_def)
qed

theorem page_map_unmap_witness:
  "\<exists>s' s''. decodePageMap 3 96 ex_frame 0 (vm_example 0x5000) = (EXCEPTION_NONE, s') \<and>
     performPageInvocationUnmap (cte_cap (ctes s' 96)) 96 s' = (EXCEPTION_NONE, s'') \<and> cte_cap (ctes s'' 96) = ex_frame"
proof -
  obtain s' where s': "decodePageMap 3 96 ex_frame 0 (vm_example 0x5000) = (EXCEPTION_NONE, s')"
    using ex_map_accepted by blast
  show ?thesis
    using page_map_unmap [OF s' ex_frame_ok ex_tree] s'
    by (auto simp: ex_args asidInvalid_def cap_frame_cap_set_mapping_def ex_frame_def split: prod.splits)
qed

theorem page_table_map_keeps_translation_witness:
  "\<exists>s'. decodePageTableMap 2 96 ex_new_table 0 (vm_example 0x200000) = (EXCEPTION_NONE, s') \<and>
     ptBitsLeft (lookupPTSlot (ex_table 1) 0x200000 s') = 12"
proof -
  obtain s' where s': "decodePageTableMap 2 96 ex_new_table 0 (vm_example 0x200000) = (EXCEPTION_NONE, s')"
    using ex_table_map_accepted by blast
  have "ptBitsLeft (lookupPTSlot (ex_table 1) 0x200000 s') + PT_INDEX_BITS = 21"
    using page_table_map_keeps_translation [OF s' ex_tree] ex_fresh [of "0x200000"]
    by (simp add: ex_args ex_new_table_def ex_lookup Let_def)
  then show ?thesis using s' by (simp add: PT_INDEX_BITS_def)
qed

end
