(* ===== verification/Delete.thy ===== *)
theory Delete
  imports VSpace Endpoint
begin

text \<open>
  Deleting capabilities: what is done to an object when its last capability goes
  (\<^verbatim>\<open>finaliseCap\<close> of \<^verbatim>\<open>src/object/objecttype.c\<close> and \<^verbatim>\<open>src/arch/riscv/object/objecttype.c\<close>), the
  preemptible deletion of a slot and of all descendants of a slot, and the decoding of CNode
  invocations (\<^verbatim>\<open>src/object/cnode.c\<close>).

  \<open>env k\<close> is the hardware at the \<open>k\<close>-th preemption point: whether an interrupt is pending, and the
  time. Operations with preemption points take the number of points passed and return it
  updated. \<open>None\<close> is the kernel halt of an impossible case, or a loop that does not end.
\<close>

section \<open>Finalising capabilities\<close>

record finaliseCap_ret =
  remainder :: cap
  cleanupInfo :: cap

definition no_remainder :: finaliseCap_ret where
  "no_remainder = \<lparr>remainder = cap_null_cap, cleanupInfo = cap_null_cap\<rparr>"

definition Arch_finaliseCap :: "cap \<Rightarrow> bool \<Rightarrow> kstate \<Rightarrow> (finaliseCap_ret \<times> kstate) option" where
  "Arch_finaliseCap cap final s = do {
     s \<leftarrow> (case cap of
         cap_frame_cap asid base sz _ _ vaddr \<Rightarrow>
           Some (if asid \<noteq> 0 then unmapPage sz asid vaddr base s else s)
       | cap_page_table_cap asid base isMapped vaddr \<Rightarrow>
           if final \<and> isMapped then
             let (find_ret, s) = findVSpaceForASID asid s
             in if fv_status find_ret = EXCEPTION_NONE \<and> vspace_root find_ret = base
                then Some (deleteASID asid base s) else unmapPageTable asid vaddr base s
           else Some s
       | cap_asid_pool_cap base pool \<Rightarrow> Some (if final then deleteASIDPool base pool s else s)
       | _ \<Rightarrow> Some s);
     Some (no_remainder, s)
   }"

text \<open>
  The capabilities that \<open>finaliseCap\<close> finishes at once, before it looks at \<open>exposed\<close>, and what it does
  to them.
\<close>

definition finalises_now :: "cap \<Rightarrow> bool" where
  "finalises_now cap \<longleftrightarrow> isArchCap cap \<or> is_cap_endpoint_cap cap \<or> is_cap_notification_cap cap \<or>
     is_cap_reply_cap cap \<or> cap = cap_null_cap \<or> cap = cap_domain_cap"

definition finalise_reply :: "word_t \<Rightarrow> kstate \<Rightarrow> kstate option" where
  "finalise_reply reply s =
     (let tcb = replyTCB (replies s reply)
      in if reply \<noteq> 0 \<and> tcb \<noteq> 0 then
           case ts_type (tcbState (tcbs s tcb)) of
             ThreadState_BlockedOnReply \<Rightarrow> Some (reply_remove reply tcb s)
           | ThreadState_BlockedOnReceive \<Rightarrow> Some (cancelIPC tcb s)
           | _ \<Rightarrow> None
         else Some s)"

definition finaliseCap_now :: "cap \<Rightarrow> bool \<Rightarrow> kstate \<Rightarrow> (finaliseCap_ret \<times> kstate) option" where
  "finaliseCap_now cap final s =
     (if isArchCap cap then Arch_finaliseCap cap final s
      else do {
        s \<leftarrow> (case cap of
            cap_endpoint_cap _ _ _ _ _ epptr \<Rightarrow> if final then cancelAllIPC epptr s else Some s
          | cap_notification_cap _ _ _ ntfn \<Rightarrow>
              if final then cancelAllSignals ntfn (unbindMaybeNotification ntfn (schedContextMaybeUnbindNtfn ntfn s)) else Some s
          | cap_reply_cap reply _ \<Rightarrow> if final then finalise_reply reply s else Some s
          | _ \<Rightarrow> Some s);
        Some (no_remainder, s)
      })"

text \<open>\<open>cteDeleteOne\<close> calls \<open>finaliseCap\<close> with \<open>exposed\<close> set, so that every other capability is a halt.\<close>

definition cteDeleteOne :: "word_t \<Rightarrow> kstate \<Rightarrow> kstate option" where
  "cteDeleteOne slot s =
     (let cap = cte_cap (ctes s slot)
      in if cap \<noteq> cap_null_cap then
           if finalises_now cap then do {
             (_, s) \<leftarrow> finaliseCap_now cap (isFinalCapability slot s) s;
             Some (emptySlot slot cap_null_cap s)
           } else None
         else Some s)"

text \<open>Interrupt lines are numbered from 1 to \<open>maxIRQ\<close>; the array \<open>intStateIRQNode\<close> has a slot for each.\<close>

definition maxIRQ :: word_t where "maxIRQ = 54"
definition irqInvalid :: word_t where "irqInvalid = 0"

definition deletingIRQHandler :: "word_t \<Rightarrow> kstate \<Rightarrow> kstate option" where
  "deletingIRQHandler irq s = cteDeleteOne (slot_at (intStateIRQNode s) irq) s"

definition finalise_thread :: "word_t \<Rightarrow> kstate \<Rightarrow> kstate" where
  "finalise_thread tcb s =
     (let s = unbindNotification tcb s;
          sc = tcbSchedContext (tcbs s tcb);
          s = (if sc \<noteq> 0 then
                 let s = schedContext_unbindTCB sc s
                 in if scYieldFrom (scs s sc) \<noteq> 0 then schedContext_completeYieldTo (scYieldFrom (scs s sc)) s else s
               else s)
      in suspend tcb s)"

definition finalise_sched_context :: "word_t \<Rightarrow> kstate \<Rightarrow> kstate" where
  "finalise_sched_context sc s =
     (let s = schedContext_unbindAllTCBs sc s;
          s = schedContext_unbindNtfn sc s;
          s = schedContext_unbindReply sc s;
          s = (if scYieldFrom (scs s sc) \<noteq> 0 then schedContext_completeYieldTo (scYieldFrom (scs s sc)) s else s)
      in upd_sc sc (\<lambda>c. c\<lparr>scRefillMax := 0, scSporadic := False\<rparr>) s)"

definition finaliseCap :: "cap \<Rightarrow> bool \<Rightarrow> bool \<Rightarrow> kstate \<Rightarrow> (finaliseCap_ret \<times> kstate) option" where
  "finaliseCap cap final exposed s =
     (if finalises_now cap then finaliseCap_now cap final s
      else if exposed then None
      else case cap of
          cap_cnode_cap radix _ _ ptr \<Rightarrow>
            if final then Some (\<lparr>remainder = Zombie_new (push_bit (unat radix) 1) radix ptr, cleanupInfo = cap_null_cap\<rparr>, s)
            else Some (no_remainder, s)
        | cap_thread_cap tcb \<Rightarrow>
            if final then
              Some (\<lparr>remainder = Zombie_new tcbCNodeEntries ZombieType_ZombieTCB (TCB_PTR_CTE_PTR tcb tcbCTable),
                     cleanupInfo = cap_null_cap\<rparr>, finalise_thread tcb s)
            else Some (no_remainder, s)
        | cap_sched_context_cap sc _ \<Rightarrow>
            if final then Some (no_remainder, finalise_sched_context sc s) else Some (no_remainder, s)
        | cap_zombie_cap _ _ \<Rightarrow> Some (\<lparr>remainder = cap, cleanupInfo = cap_null_cap\<rparr>, s)
        | cap_irq_handler_cap irq \<Rightarrow>
            if final then do {
              s \<leftarrow> deletingIRQHandler irq s;
              Some (\<lparr>remainder = cap_null_cap, cleanupInfo = cap\<rparr>, s)
            } else Some (no_remainder, s)
        | _ \<Rightarrow> Some (no_remainder, s))"

section \<open>Deleting a slot\<close>

type_synonym env = "nat \<Rightarrow> bool \<times> ticks_t"

definition preempt :: "env \<Rightarrow> nat \<Rightarrow> kstate \<Rightarrow> exception \<times> nat \<times> kstate" where
  "preempt env k s =
     (let (status, s) = preemptionPoint (fst (env k)) (snd (env k)) s in (status, Suc k, s))"

definition capRemovable :: "cap \<Rightarrow> word_t \<Rightarrow> bool option" where
  "capRemovable cap slot =
     (case cap of
        cap_null_cap \<Rightarrow> Some True
      | cap_zombie_cap _ _ \<Rightarrow>
          let n = cap_zombie_cap_get_capZombieNumber cap;
              z_slot = cap_zombie_cap_get_capZombiePtr cap
          in Some (n = 0 \<or> n = 1 \<and> slot = z_slot)
      | _ \<Rightarrow> None)"

definition capCyclicZombie :: "cap \<Rightarrow> word_t \<Rightarrow> bool" where
  "capCyclicZombie cap slot \<longleftrightarrow> is_cap_zombie_cap cap \<and> cap_zombie_cap_get_capZombiePtr cap = slot"

record finaliseSlot_ret =
  fs_status :: exception
  fs_success :: bool
  fs_cleanupInfo :: cap

text \<open>
  The loop of \<open>finaliseSlot\<close> over a given \<open>reduceZombie\<close>. With \<open>immediate\<close> unset, \<open>reduceZombie\<close> only exchanges
  two slots; with \<open>immediate\<close> set it deletes a slot with \<open>immediate\<close> unset. So the mutual recursion of
  the C functions is two loops, one inside the other.
\<close>

partial_function (option) finaliseSlot_loop ::
  "(word_t \<Rightarrow> nat \<Rightarrow> kstate \<Rightarrow> (exception \<times> nat \<times> kstate) option) \<Rightarrow> env \<Rightarrow> word_t \<Rightarrow> bool \<Rightarrow> nat \<Rightarrow> kstate \<Rightarrow>
     (finaliseSlot_ret \<times> nat \<times> kstate) option" where
  "finaliseSlot_loop reduce env slot immediate k s =
     (if cte_cap (ctes s slot) = cap_null_cap then
        Some (\<lparr>fs_status = EXCEPTION_NONE, fs_success = True, fs_cleanupInfo = cap_null_cap\<rparr>, k, s)
      else do {
        (fc_ret, s) \<leftarrow> finaliseCap (cte_cap (ctes s slot)) (isFinalCapability slot s) False s;
        removable \<leftarrow> capRemovable (remainder fc_ret) slot;
        if removable then
          Some (\<lparr>fs_status = EXCEPTION_NONE, fs_success = True, fs_cleanupInfo = cleanupInfo fc_ret\<rparr>, k, s)
        else if \<not> immediate \<and> capCyclicZombie (remainder fc_ret) slot then
          Some (\<lparr>fs_status = EXCEPTION_NONE, fs_success = False, fs_cleanupInfo = cleanupInfo fc_ret\<rparr>, k,
            set_cap slot (remainder fc_ret) s)
        else do {
          (status, k, s) \<leftarrow> reduce slot k (set_cap slot (remainder fc_ret) s);
          if status \<noteq> EXCEPTION_NONE then
            Some (\<lparr>fs_status = status, fs_success = False, fs_cleanupInfo = cap_null_cap\<rparr>, k, s)
          else do {
            (status, k, s) \<leftarrow> Some (preempt env k s);
            if status \<noteq> EXCEPTION_NONE then
              Some (\<lparr>fs_status = status, fs_success = False, fs_cleanupInfo = cap_null_cap\<rparr>, k, s)
            else finaliseSlot_loop reduce env slot immediate k s
          }
        }
      })"

definition delete_with ::
  "(word_t \<Rightarrow> nat \<Rightarrow> kstate \<Rightarrow> (exception \<times> nat \<times> kstate) option) \<Rightarrow> env \<Rightarrow> word_t \<Rightarrow> bool \<Rightarrow> nat \<Rightarrow> kstate \<Rightarrow>
     (exception \<times> nat \<times> kstate) option" where
  "delete_with reduce env slot exposed k s = do {
     (fs_ret, k, s) \<leftarrow> finaliseSlot_loop reduce env slot exposed k s;
     Some (if fs_status fs_ret \<noteq> EXCEPTION_NONE then (fs_status fs_ret, k, s)
           else (EXCEPTION_NONE, k, if exposed \<or> fs_success fs_ret then emptySlot slot (fs_cleanupInfo fs_ret) s else s))
   }"

definition reduceZombie_swap :: "word_t \<Rightarrow> nat \<Rightarrow> kstate \<Rightarrow> (exception \<times> nat \<times> kstate) option" where
  "reduceZombie_swap slot k s =
     Some (EXCEPTION_NONE, k, capSwapForDelete (cap_zombie_cap_get_capZombiePtr (cte_cap (ctes s slot))) slot s)"

definition reduceZombie_delete :: "env \<Rightarrow> word_t \<Rightarrow> nat \<Rightarrow> kstate \<Rightarrow> (exception \<times> nat \<times> kstate) option" where
  "reduceZombie_delete env slot k s = do {
     let ptr = cap_zombie_cap_get_capZombiePtr (cte_cap (ctes s slot));
     let n = cap_zombie_cap_get_capZombieNumber (cte_cap (ctes s slot));
     let type = capZombieType (cte_cap (ctes s slot));
     let endSlot = slot_at ptr (n - 1);
     (status, k, s) \<leftarrow> delete_with reduceZombie_swap env endSlot False k s;
     if status \<noteq> EXCEPTION_NONE then Some (status, k, s)
     else case cte_cap (ctes s slot) of
         cap_null_cap \<Rightarrow> Some (EXCEPTION_NONE, k, s)
       | cap_zombie_cap _ type2 \<Rightarrow>
           Some (EXCEPTION_NONE, k,
             if ptr = cap_zombie_cap_get_capZombiePtr (cte_cap (ctes s slot)) \<and>
                cap_zombie_cap_get_capZombieNumber (cte_cap (ctes s slot)) = n \<and> type2 = type
             then set_cap slot (cap_zombie_cap_set_capZombieNumber (cte_cap (ctes s slot)) (n - 1)) s else s)
       | _ \<Rightarrow> None
   }"

definition reduceZombie :: "env \<Rightarrow> word_t \<Rightarrow> bool \<Rightarrow> nat \<Rightarrow> kstate \<Rightarrow> (exception \<times> nat \<times> kstate) option" where
  "reduceZombie env slot immediate =
     (if immediate then reduceZombie_delete env slot else reduceZombie_swap slot)"

definition finaliseSlot :: "env \<Rightarrow> word_t \<Rightarrow> bool \<Rightarrow> nat \<Rightarrow> kstate \<Rightarrow> (finaliseSlot_ret \<times> nat \<times> kstate) option" where
  "finaliseSlot env slot immediate = finaliseSlot_loop (\<lambda>slot. reduceZombie env slot immediate) env slot immediate"

definition cteDelete :: "env \<Rightarrow> word_t \<Rightarrow> bool \<Rightarrow> nat \<Rightarrow> kstate \<Rightarrow> (exception \<times> nat \<times> kstate) option" where
  "cteDelete env slot exposed k s = do {
     (fs_ret, k, s) \<leftarrow> finaliseSlot env slot exposed k s;
     Some (if fs_status fs_ret \<noteq> EXCEPTION_NONE then (fs_status fs_ret, k, s)
           else (EXCEPTION_NONE, k, if exposed \<or> fs_success fs_ret then emptySlot slot (fs_cleanupInfo fs_ret) s else s))
   }"

lemma cteDelete_with: "cteDelete env slot exposed = delete_with (\<lambda>slot. reduceZombie env slot exposed) env slot exposed"
  by (intro ext) (simp add: cteDelete_def delete_with_def finaliseSlot_def)

text \<open>The call of \<open>cteDelete\<close> in \<open>reduceZombie\<close>, as the C code has it.\<close>

lemma reduceZombie_calls_cteDelete: "delete_with reduceZombie_swap env slot False = cteDelete env slot False"
  by (simp add: cteDelete_with reduceZombie_def)

partial_function (option) cteRevoke :: "env \<Rightarrow> word_t \<Rightarrow> nat \<Rightarrow> kstate \<Rightarrow> (exception \<times> nat \<times> kstate) option" where
  "cteRevoke env slot k s =
     (let nextPtr = mdbNext (cteMDBNode (ctes s slot))
      in if nextPtr \<noteq> 0 \<and> isMDBParentOf slot nextPtr s then do {
           (status, k, s) \<leftarrow> cteDelete env nextPtr True k s;
           if status \<noteq> EXCEPTION_NONE then Some (status, k, s)
           else do {
             (status, k, s) \<leftarrow> Some (preempt env k s);
             if status \<noteq> EXCEPTION_NONE then Some (status, k, s) else cteRevoke env slot k s
           }
         } else Some (EXCEPTION_NONE, k, s))"

section \<open>CNode invocations\<close>

definition invokeCNodeRevoke :: "env \<Rightarrow> word_t \<Rightarrow> nat \<Rightarrow> kstate \<Rightarrow> (exception \<times> nat \<times> kstate) option" where
  "invokeCNodeRevoke env destSlot k s = cteRevoke env destSlot k s"

definition invokeCNodeDelete :: "env \<Rightarrow> word_t \<Rightarrow> nat \<Rightarrow> kstate \<Rightarrow> (exception \<times> nat \<times> kstate) option" where
  "invokeCNodeDelete env destSlot k s = cteDelete env destSlot True k s"

definition invokeCNodeCancelBadgedSends :: "cap \<Rightarrow> kstate \<Rightarrow> (exception \<times> kstate) option" where
  "invokeCNodeCancelBadgedSends cap s =
     (let badge = capEPBadge cap
      in if badge \<noteq> 0 then do {
           s \<leftarrow> cancelBadgedSends (capEPPtr cap) badge s;
           Some (EXCEPTION_NONE, s)
         } else Some (EXCEPTION_NONE, s))"

text \<open>
  The capability that Copy, Mint, Move and Mutate put into the destination, and whether the source
  is moved.
\<close>

definition cnode_new_cap ::
  "invocation_label \<Rightarrow> word_t \<Rightarrow> word_t \<Rightarrow> word_t \<Rightarrow> kstate \<Rightarrow> (exception \<times> cap \<times> bool \<times> kstate) option" where
  "cnode_new_cap invLabel len srcSlot buffer s =
     (let fail = (case syscall_fail (\<lambda>e. e\<lparr>err_type := seL4_TruncatedMessage\<rparr>) s of
                    (e, s) \<Rightarrow> Some (e, cap_null_cap, False, s));
          cap = cte_cap (ctes s srcSlot);
          derive = (\<lambda>c. do { (dc_ret, s) \<leftarrow> deriveCap srcSlot c s; Some (dc_status dc_ret, dc_cap dc_ret, False, s) })
      in case invLabel of
           CNodeCopy \<Rightarrow>
             if len < 5 then fail
             else derive (maskCapRights (rightsFromWord (getSyscallArg 4 buffer s)) cap)
         | CNodeMint \<Rightarrow>
             if len < 6 then fail
             else derive (updateCapData False (getSyscallArg 5 buffer s)
                    (maskCapRights (rightsFromWord (getSyscallArg 4 buffer s)) cap))
         | CNodeMove \<Rightarrow> Some (EXCEPTION_NONE, cap, True, s)
         | _ \<Rightarrow>
             if len < 5 then fail
             else Some (EXCEPTION_NONE, updateCapData True (getSyscallArg 4 buffer s) cap, True, s))"

definition decodeCNodeCopy :: "invocation_label \<Rightarrow> word_t \<Rightarrow> word_t \<Rightarrow> word_t \<Rightarrow> kstate \<Rightarrow> (exception \<times> kstate) option" where
  "decodeCNodeCopy invLabel len destSlot buffer s =
     (if len < 4 \<or> current_extra_caps s 0 = 0 then
        Some (syscall_fail (\<lambda>e. e\<lparr>err_type := seL4_TruncatedMessage\<rparr>) s)
      else do {
        let srcIndex = getSyscallArg 2 buffer s;
        let srcDepth = getSyscallArg 3 buffer s;
        let srcRoot = cte_cap (ctes s (current_extra_caps s 0));
        (status, s) \<leftarrow> Some (ensureEmptySlot destSlot s);
        if status \<noteq> EXCEPTION_NONE then Some (status, s)
        else do {
          (lu_ret, s) \<leftarrow> lookupSourceSlot srcRoot srcIndex srcDepth s;
          let srcSlot = ls_slot lu_ret;
          if ls_status lu_ret \<noteq> EXCEPTION_NONE then Some (ls_status lu_ret, s)
          else if cte_cap (ctes s srcSlot) = cap_null_cap then
            Some (syscall_fail (\<lambda>e. e\<lparr>err_type := seL4_FailedLookup, failedLookupWasSource := True\<rparr>)
              (s\<lparr>current_lookup_fault := missing_capability srcDepth\<rparr>))
          else do {
            (status, newCap, isMove, s) \<leftarrow> cnode_new_cap invLabel len srcSlot buffer s;
            if status \<noteq> EXCEPTION_NONE then Some (status, s)
            else if newCap = cap_null_cap then Some (syscall_fail (\<lambda>e. e\<lparr>err_type := seL4_IllegalOperation\<rparr>) s)
            else
              let s = setThreadState (ksCurThread s) ThreadState_Restart s
              in Some (if isMove then invokeCNodeMove newCap srcSlot destSlot s
                       else invokeCNodeInsert newCap srcSlot destSlot s)
          }
        }
      })"

definition rotate_slots_ok :: "word_t \<Rightarrow> word_t \<Rightarrow> word_t \<Rightarrow> word_t \<Rightarrow> word_t \<Rightarrow> kstate \<Rightarrow> exception \<times> kstate" where
  "rotate_slots_ok srcSlot srcDepth pivotSlot pivotDepth destSlot s =
     (if pivotSlot = srcSlot \<or> pivotSlot = destSlot then syscall_fail (\<lambda>e. e\<lparr>err_type := seL4_IllegalOperation\<rparr>) s
      else
        let (status, s) = (if srcSlot \<noteq> destSlot then ensureEmptySlot destSlot s else (EXCEPTION_NONE, s))
        in if status \<noteq> EXCEPTION_NONE then (status, s)
           else if cte_cap (ctes s srcSlot) = cap_null_cap then
             syscall_fail (\<lambda>e. e\<lparr>err_type := seL4_FailedLookup, failedLookupWasSource := True\<rparr>)
               (s\<lparr>current_lookup_fault := missing_capability srcDepth\<rparr>)
           else if cte_cap (ctes s pivotSlot) = cap_null_cap then
             syscall_fail (\<lambda>e. e\<lparr>err_type := seL4_FailedLookup, failedLookupWasSource := False\<rparr>)
               (s\<lparr>current_lookup_fault := missing_capability pivotDepth\<rparr>)
           else (EXCEPTION_NONE, s))"

definition decodeCNodeRotate :: "word_t \<Rightarrow> word_t \<Rightarrow> word_t \<Rightarrow> kstate \<Rightarrow> (exception \<times> kstate) option" where
  "decodeCNodeRotate len destSlot buffer s =
     (if len < 8 \<or> current_extra_caps s 0 = 0 \<or> current_extra_caps s 1 = 0 then
        Some (syscall_fail (\<lambda>e. e\<lparr>err_type := seL4_TruncatedMessage\<rparr>) s)
      else do {
        let pivotNewData = getSyscallArg 2 buffer s;
        let pivotIndex = getSyscallArg 3 buffer s;
        let pivotDepth = getSyscallArg 4 buffer s;
        let srcNewData = getSyscallArg 5 buffer s;
        let srcIndex = getSyscallArg 6 buffer s;
        let srcDepth = getSyscallArg 7 buffer s;
        let pivotRoot = cte_cap (ctes s (current_extra_caps s 0));
        let srcRoot = cte_cap (ctes s (current_extra_caps s 1));
        (lu_ret, s) \<leftarrow> lookupSourceSlot srcRoot srcIndex srcDepth s;
        if ls_status lu_ret \<noteq> EXCEPTION_NONE then Some (ls_status lu_ret, s)
        else do {
          let srcSlot = ls_slot lu_ret;
          (lu_ret, s) \<leftarrow> lookupPivotSlot pivotRoot pivotIndex pivotDepth s;
          if ls_status lu_ret \<noteq> EXCEPTION_NONE then Some (ls_status lu_ret, s)
          else do {
            let pivotSlot = ls_slot lu_ret;
            (status, s) \<leftarrow> Some (rotate_slots_ok srcSlot srcDepth pivotSlot pivotDepth destSlot s);
            let newSrcCap = updateCapData True srcNewData (cte_cap (ctes s srcSlot));
            let newPivotCap = updateCapData True pivotNewData (cte_cap (ctes s pivotSlot));
            Some (if status \<noteq> EXCEPTION_NONE then (status, s)
              else if newSrcCap = cap_null_cap then syscall_fail (\<lambda>e. e\<lparr>err_type := seL4_IllegalOperation\<rparr>) s
              else if newPivotCap = cap_null_cap then syscall_fail (\<lambda>e. e\<lparr>err_type := seL4_IllegalOperation\<rparr>) s
              else invokeCNodeRotate newSrcCap newPivotCap srcSlot pivotSlot destSlot
                     (setThreadState (ksCurThread s) ThreadState_Restart s))
          }
        }
      })"

definition drop_count :: "(exception \<times> nat \<times> kstate) option \<Rightarrow> (exception \<times> kstate) option" where
  "drop_count r = map_option (\<lambda>(e, _, s). (e, s)) r"

definition decodeCNodeInvocation ::
  "env \<Rightarrow> invocation_label \<Rightarrow> word_t \<Rightarrow> cap \<Rightarrow> word_t \<Rightarrow> kstate \<Rightarrow> (exception \<times> kstate) option" where
  "decodeCNodeInvocation env invLabel len cap buffer s =
     (if invLabel \<notin> {CNodeRevoke, CNodeDelete, CNodeCancelBadgedSends, CNodeCopy, CNodeMint, CNodeMove,
           CNodeMutate, CNodeRotate} then
        Some (syscall_fail (\<lambda>e. e\<lparr>err_type := seL4_IllegalOperation\<rparr>) s)
      else if len < 2 then Some (syscall_fail (\<lambda>e. e\<lparr>err_type := seL4_TruncatedMessage\<rparr>) s)
      else do {
        let index = getSyscallArg 0 buffer s;
        let w_bits = getSyscallArg 1 buffer s;
        (lu_ret, s) \<leftarrow> lookupTargetSlot cap index w_bits s;
        let destSlot = ls_slot lu_ret;
        if ls_status lu_ret \<noteq> EXCEPTION_NONE then Some (ls_status lu_ret, s)
        else case invLabel of
            CNodeRevoke \<Rightarrow>
              drop_count (invokeCNodeRevoke env destSlot 0 (setThreadState (ksCurThread s) ThreadState_Restart s))
          | CNodeDelete \<Rightarrow>
              drop_count (invokeCNodeDelete env destSlot 0 (setThreadState (ksCurThread s) ThreadState_Restart s))
          | CNodeCancelBadgedSends \<Rightarrow>
              let destCap = cte_cap (ctes s destSlot)
              in if \<not> hasCancelSendRights destCap then Some (syscall_fail (\<lambda>e. e\<lparr>err_type := seL4_IllegalOperation\<rparr>) s)
                 else invokeCNodeCancelBadgedSends destCap (setThreadState (ksCurThread s) ThreadState_Restart s)
          | CNodeRotate \<Rightarrow> decodeCNodeRotate len destSlot buffer s
          | _ \<Rightarrow> decodeCNodeCopy invLabel len destSlot buffer s
      })"

end
