(* ===== verification/TCBOps.thy ===== *)
theory TCBOps
  imports Delete
begin

text \<open>
  The invocations of a thread capability (\<^verbatim>\<open>src/object/tcb.c\<close>): reading, writing and copying
  registers, priorities and scheduling parameters, the capabilities a thread holds (its CSpace,
  VSpace, IPC buffer, fault and timeout handlers), bound notifications, TLS and flags.
\<close>

section \<open>Registers\<close>

definition frameRegisters :: "register list" where
  "frameRegisters = [FaultIP, 0, 1, 2, 7, 8, 17, 18, 19, 20, 21, 22, 23, 24, 25, 26]"

definition gpRegisters :: "register list" where
  "gpRegisters = [9, 10, 11, 12, 13, 14, 15, 16, 4, 5, 6, 27, 28, 29, 30, 3]"

definition n_frameRegisters :: nat where "n_frameRegisters = 16"
definition n_gpRegisters :: nat where "n_gpRegisters = 16"
definition TLS_BASE :: register where "TLS_BASE = 3"

definition setNextPC :: "word_t \<Rightarrow> word_t \<Rightarrow> kstate \<Rightarrow> kstate" where
  "setNextPC thread v s = setRegister thread NextIP v s"

definition Arch_decodeTransfer :: "word_t \<Rightarrow> word_t" where
  "Arch_decodeTransfer flags = 0"

definition Arch_performTransfer :: "word_t \<Rightarrow> word_t \<Rightarrow> word_t \<Rightarrow> exception" where
  "Arch_performTransfer arch tcb_src tcb_dest = EXCEPTION_NONE"

definition Arch_postModifyRegisters :: "word_t \<Rightarrow> kstate \<Rightarrow> kstate" where
  "Arch_postModifyRegisters tptr s = s"

definition Arch_getSanitiseRegisterInfo :: "word_t \<Rightarrow> bool" where
  "Arch_getSanitiseRegisterInfo thread = False"

text \<open>\<open>if (thread == ksCurThread) rescheduleRequired()\<close>, with which the invocations end.\<close>

definition reschedule_if_current :: "word_t \<Rightarrow> kstate \<Rightarrow> kstate" where
  "reschedule_if_current thread s = (if thread = ksCurThread s then rescheduleRequired s else s)"

text \<open>The registers \<open>rs\<close> of one thread, copied to another.\<close>

definition copy_registers :: "register list \<Rightarrow> word_t \<Rightarrow> word_t \<Rightarrow> kstate \<Rightarrow> kstate" where
  "copy_registers rs src dest s = fold (\<lambda>r s. setRegister dest r (getRegister s src r) s) rs s"

definition invokeTCB_CopyRegisters ::
  "word_t \<Rightarrow> word_t \<Rightarrow> bool \<Rightarrow> bool \<Rightarrow> bool \<Rightarrow> bool \<Rightarrow> word_t \<Rightarrow> kstate \<Rightarrow> (exception \<times> kstate) option" where
  "invokeTCB_CopyRegisters dest tcb_src suspendSource resumeTarget transferFrame transferInteger transferArch s = do {
     let s = (if suspendSource then suspend tcb_src s else s);
     s \<leftarrow> (if resumeTarget then restart dest s else Some s);
     let s = (if transferFrame then
                let s = copy_registers frameRegisters tcb_src dest s
                in setNextPC dest (getRestartPC s dest) s
              else s);
     let s = (if transferInteger then copy_registers gpRegisters tcb_src dest s else s);
     let s = Arch_postModifyRegisters dest s;
     Some (Arch_performTransfer transferArch tcb_src dest, reschedule_if_current dest s)
   }"

text \<open>
  \<open>invokeTCB_ReadRegisters\<close> delivers the frame registers and then the general purpose registers
  as a message: first in message registers, then in the IPC buffer. Each part returns how many
  registers it delivered.
\<close>

definition read_frame_registers :: "word_t \<Rightarrow> word_t \<Rightarrow> word_t \<Rightarrow> nat \<Rightarrow> kstate \<Rightarrow> nat \<times> kstate" where
  "read_frame_registers thread tcb_src ipcBuffer n s =
     (let i = min n (min n_frameRegisters (unat n_msgRegisters));
          s = fold (\<lambda>i s. setRegister thread (msgRegisters ! i) (getRegister s tcb_src (frameRegisters ! i)) s) [0..<i] s;
          i' = min n n_frameRegisters
      in if ipcBuffer \<noteq> 0 \<and> i < n \<and> i < n_frameRegisters
         then (i', fold (\<lambda>i s. set_user_word (buf_addr ipcBuffer (of_nat (i + 1))) (getRegister s tcb_src (frameRegisters ! i)) s)
                     [i..<i'] s)
         else (i, s))"

definition read_gp_registers :: "word_t \<Rightarrow> word_t \<Rightarrow> word_t \<Rightarrow> nat \<Rightarrow> kstate \<Rightarrow> nat \<times> kstate" where
  "read_gp_registers thread tcb_src ipcBuffer n s =
     (let i = min n_gpRegisters (min (n - n_frameRegisters) (unat n_msgRegisters - n_frameRegisters));
          s = fold (\<lambda>i s. setRegister thread (msgRegisters ! (i + n_frameRegisters))
                            (getRegister s tcb_src (gpRegisters ! i)) s) [0..<i] s;
          i' = min n_gpRegisters (n - n_frameRegisters)
      in if ipcBuffer \<noteq> 0 \<and> i < n_gpRegisters \<and> i + n_frameRegisters < n
         then (i', fold (\<lambda>i s. set_user_word (buf_addr ipcBuffer (of_nat (i + n_frameRegisters + 1)))
                                  (getRegister s tcb_src (gpRegisters ! i)) s) [i..<i'] s)
         else (i, s))"

definition invokeTCB_ReadRegisters ::
  "word_t \<Rightarrow> bool \<Rightarrow> word_t \<Rightarrow> word_t \<Rightarrow> bool \<Rightarrow> kstate \<Rightarrow> exception \<times> kstate" where
  "invokeTCB_ReadRegisters tcb_src suspendSource n arch call s =
     (let thread = ksCurThread s;
          s = (if suspendSource then suspend tcb_src s else s);
          e = Arch_performTransfer arch tcb_src (ksCurThread s)
      in if e \<noteq> EXCEPTION_NONE then (e, s)
         else
           let s = (if call then
                      let ipcBuffer = lookupIPCBuffer True thread s;
                          s = setRegister thread badgeRegister 0 s;
                          (j, s) = read_frame_registers thread tcb_src ipcBuffer (unat n) s;
                          (i, s) = read_gp_registers thread tcb_src ipcBuffer (unat n) s
                      in setRegister thread msgInfoRegister
                           (wordFromMessageInfo (seL4_MessageInfo_new 0 0 0 (of_nat (i + j)))) s
                    else s)
           in (EXCEPTION_NONE, setThreadState thread ThreadState_Running s))"

definition write_registers :: "register list \<Rightarrow> nat \<Rightarrow> nat \<Rightarrow> word_t \<Rightarrow> word_t \<Rightarrow> kstate \<Rightarrow> kstate" where
  "write_registers rs k n dest buffer s =
     fold (\<lambda>i s. setRegister dest (rs ! i)
             (sanitiseRegister (rs ! i) (getSyscallArg (of_nat (i + k + 2)) buffer s) (Arch_getSanitiseRegisterInfo dest)) s)
       [0..<min (length rs) (n - k)] s"

definition invokeTCB_WriteRegisters ::
  "word_t \<Rightarrow> bool \<Rightarrow> word_t \<Rightarrow> word_t \<Rightarrow> word_t \<Rightarrow> kstate \<Rightarrow> (exception \<times> kstate) option" where
  "invokeTCB_WriteRegisters dest resumeTarget n arch buffer s =
     (let e = Arch_performTransfer arch (ksCurThread s) dest
      in if e \<noteq> EXCEPTION_NONE then Some (e, s)
         else do {
           let n = (if unat n > n_frameRegisters + n_gpRegisters then n_frameRegisters + n_gpRegisters else unat n);
           let s = write_registers frameRegisters 0 n dest buffer s;
           let s = write_registers gpRegisters n_frameRegisters n dest buffer s;
           let s = setNextPC dest (getRestartPC s dest) s;
           let s = Arch_postModifyRegisters dest s;
           s \<leftarrow> (if resumeTarget then restart dest s else Some s);
           Some (EXCEPTION_NONE, reschedule_if_current dest s)
         })"

section \<open>Changing what a thread holds\<close>

definition thread_control_caps_update_ipc_buffer :: word_t where "thread_control_caps_update_ipc_buffer = 1"
definition thread_control_caps_update_space :: word_t where "thread_control_caps_update_space = 2"
definition thread_control_caps_update_fault :: word_t where "thread_control_caps_update_fault = 4"
definition thread_control_caps_update_timeout :: word_t where "thread_control_caps_update_timeout = 8"

definition thread_control_sched_update_priority :: word_t where "thread_control_sched_update_priority = 1"
definition thread_control_sched_update_mcp :: word_t where "thread_control_sched_update_mcp = 2"
definition thread_control_sched_update_sc :: word_t where "thread_control_sched_update_sc = 4"
definition thread_control_sched_update_fault :: word_t where "thread_control_sched_update_fault = 8"

definition NULL_PRIO :: word_t where "NULL_PRIO = 0"

text \<open>
  Deleting the capability that a thread held may be preempted, so the invocations that install
  capabilities carry the environment of \<open>cteDelete\<close> and the number of its next question.
\<close>

definition installTCBCap ::
  "env \<Rightarrow> word_t \<Rightarrow> cap \<Rightarrow> word_t \<Rightarrow> word_t \<Rightarrow> cap \<Rightarrow> word_t \<Rightarrow> nat \<Rightarrow> kstate \<Rightarrow> (exception \<times> nat \<times> kstate) option" where
  "installTCBCap env target tCap slot index newCap srcSlot k s = do {
     let rootSlot = TCB_PTR_CTE_PTR target index;
     (e, k, s) \<leftarrow> cteDelete env rootSlot True k s;
     if e \<noteq> EXCEPTION_NONE then Some (e, k, s)
     else Some (e, k,
       if newCap \<noteq> cap_null_cap \<and> sameObjectAs newCap (cte_cap (ctes s srcSlot)) \<and> sameObjectAs tCap (cte_cap (ctes s slot))
       then cteInsert newCap srcSlot rootSlot s else s)
   }"

text \<open>\<open>install_if\<close> is one guarded call of \<open>installTCBCap\<close> with its early return.\<close>

definition install_if ::
  "bool \<Rightarrow> env \<Rightarrow> word_t \<Rightarrow> cap \<Rightarrow> word_t \<Rightarrow> word_t \<Rightarrow> cap \<Rightarrow> word_t \<Rightarrow> exception \<times> nat \<times> kstate \<Rightarrow>
     (exception \<times> nat \<times> kstate) option" where
  "install_if b env target tCap slot index newCap srcSlot r =
     (case r of (e, k, s) \<Rightarrow>
        if e = EXCEPTION_NONE \<and> b then installTCBCap env target tCap slot index newCap srcSlot k s else Some r)"

definition install_ipc_buffer ::
  "env \<Rightarrow> word_t \<Rightarrow> cap \<Rightarrow> word_t \<Rightarrow> word_t \<Rightarrow> cap \<Rightarrow> word_t \<Rightarrow> nat \<Rightarrow> kstate \<Rightarrow> (exception \<times> nat \<times> kstate) option" where
  "install_ipc_buffer env target tCap slot bufferAddr bufferCap bufferSrcSlot k s = do {
     let bufferSlot = TCB_PTR_CTE_PTR target tcbBuffer;
     (e, k, s) \<leftarrow> cteDelete env bufferSlot True k s;
     if e \<noteq> EXCEPTION_NONE then Some (e, k, s)
     else do {
       let s = upd_tcb target (\<lambda>t. t\<lparr>tcbIPCBuffer := bufferAddr\<rparr>) s;
       let s = (if bufferSrcSlot \<noteq> 0 \<and> sameObjectAs bufferCap (cte_cap (ctes s bufferSrcSlot)) \<and>
                   sameObjectAs tCap (cte_cap (ctes s slot))
                then cteInsert bufferCap bufferSrcSlot bufferSlot s else s);
       Some (EXCEPTION_NONE, k, reschedule_if_current target s)
     }
   }"

definition invokeTCB_ThreadControlCaps ::
  "env \<Rightarrow> word_t \<Rightarrow> word_t \<Rightarrow> cap \<Rightarrow> word_t \<Rightarrow> cap \<Rightarrow> word_t \<Rightarrow> cap \<Rightarrow> word_t \<Rightarrow> cap \<Rightarrow> word_t \<Rightarrow> word_t \<Rightarrow> cap \<Rightarrow> word_t \<Rightarrow>
     word_t \<Rightarrow> kstate \<Rightarrow> (exception \<times> nat \<times> kstate) option" where
  "invokeTCB_ThreadControlCaps env target slot fh_newCap fh_srcSlot th_newCap th_srcSlot cRoot_newCap cRoot_srcSlot
       vRoot_newCap vRoot_srcSlot bufferAddr bufferCap bufferSrcSlot updateFlags s = do {
     let tCap = cap_thread_cap target;
     let space = updateFlags AND thread_control_caps_update_space \<noteq> 0;
     r \<leftarrow> install_if (updateFlags AND thread_control_caps_update_fault \<noteq> 0) env target tCap slot tcbFaultHandler
             fh_newCap fh_srcSlot (EXCEPTION_NONE, 0, s);
     r \<leftarrow> install_if (updateFlags AND thread_control_caps_update_timeout \<noteq> 0) env target tCap slot tcbTimeoutHandler
             th_newCap th_srcSlot r;
     r \<leftarrow> install_if space env target tCap slot tcbCTable cRoot_newCap cRoot_srcSlot r;
     (e, k, s) \<leftarrow> install_if space env target tCap slot tcbVTable vRoot_newCap vRoot_srcSlot r;
     if e = EXCEPTION_NONE \<and> updateFlags AND thread_control_caps_update_ipc_buffer \<noteq> 0
     then install_ipc_buffer env target tCap slot bufferAddr bufferCap bufferSrcSlot k s
     else Some (e, k, s)
   }"

definition invokeTCB_ThreadControlSched ::
  "env \<Rightarrow> word_t \<Rightarrow> word_t \<Rightarrow> cap \<Rightarrow> word_t \<Rightarrow> word_t \<Rightarrow> word_t \<Rightarrow> word_t \<Rightarrow> word_t \<Rightarrow> kstate \<Rightarrow> (exception \<times> nat \<times> kstate) option" where
  "invokeTCB_ThreadControlSched env target slot fh_newCap fh_srcSlot mcp priority sc updateFlags s = do {
     (e, k, s) \<leftarrow> install_if (updateFlags AND thread_control_sched_update_fault \<noteq> 0) env target (cap_thread_cap target) slot
                     tcbFaultHandler fh_newCap fh_srcSlot (EXCEPTION_NONE, 0, s);
     if e \<noteq> EXCEPTION_NONE then Some (e, k, s)
     else do {
       let s = (if updateFlags AND thread_control_sched_update_mcp \<noteq> 0 then setMCPriority target mcp s else s);
       s \<leftarrow> (if updateFlags AND thread_control_sched_update_priority \<noteq> 0 then setPriority target priority s else Some s);
       s \<leftarrow> (if updateFlags AND thread_control_sched_update_sc \<noteq> 0 then
               if sc \<noteq> 0 then schedContext_bindTCB sc target s
               else Some (schedContext_unbindTCB (tcbSchedContext (tcbs s target)) s)
             else Some s);
       Some (EXCEPTION_NONE, k, s)
     }
   }"

definition invokeTCB_NotificationControl :: "word_t \<Rightarrow> word_t \<Rightarrow> kstate \<Rightarrow> exception \<times> kstate" where
  "invokeTCB_NotificationControl tcb ntfnPtr s =
     (EXCEPTION_NONE, if ntfnPtr \<noteq> 0 then bindNotification tcb ntfnPtr s else unbindNotification tcb s)"

definition invokeTCB_Suspend :: "word_t \<Rightarrow> kstate \<Rightarrow> exception \<times> kstate" where
  "invokeTCB_Suspend thread s = (EXCEPTION_NONE, suspend thread s)"

definition invokeTCB_Resume :: "word_t \<Rightarrow> kstate \<Rightarrow> (exception \<times> kstate) option" where
  "invokeTCB_Resume thread s = map_option (Pair EXCEPTION_NONE) (restart thread s)"

definition invokeSetTLSBase :: "word_t \<Rightarrow> word_t \<Rightarrow> kstate \<Rightarrow> exception \<times> kstate" where
  "invokeSetTLSBase thread tls_base s =
     (EXCEPTION_NONE, reschedule_if_current thread (setRegister thread TLS_BASE tls_base s))"

definition seL4_TCBFlag_MASK :: word_t where "seL4_TCBFlag_MASK = 0"

definition invokeSetFlags :: "word_t \<Rightarrow> word_t \<Rightarrow> word_t \<Rightarrow> bool \<Rightarrow> kstate \<Rightarrow> kstate" where
  "invokeSetFlags thread clear set_flags call s =
     (let cur_thread = ksCurThread s;
          flags = (tcbFlags (tcbs s thread) AND NOT clear) OR (set_flags AND seL4_TCBFlag_MASK);
          s = upd_tcb thread (\<lambda>t. t\<lparr>tcbFlags := flags\<rparr>) s;
          s = (if call then
                 let ipcBuffer = lookupIPCBuffer True cur_thread s;
                     s = setRegister cur_thread badgeRegister 0 s;
                     (len, s) = setMR cur_thread ipcBuffer 0 flags s
                 in setRegister cur_thread msgInfoRegister (wordFromMessageInfo (seL4_MessageInfo_new 0 0 0 len)) s
               else s)
      in setThreadState cur_thread ThreadState_Running s)"

section \<open>Decoding\<close>

text \<open>The errors a decoder reports, and the slot and capability of an extra argument.\<close>

abbreviation fail_with :: "(syscall_error \<Rightarrow> syscall_error) \<Rightarrow> kstate \<Rightarrow> (exception \<times> kstate) option" where
  "fail_with f s \<equiv> Some (syscall_fail f s)"

abbreviation truncated_message :: "kstate \<Rightarrow> (exception \<times> kstate) option" where
  "truncated_message s \<equiv> fail_with (\<lambda>e. e\<lparr>err_type := seL4_TruncatedMessage\<rparr>) s"

abbreviation illegal_operation :: "kstate \<Rightarrow> (exception \<times> kstate) option" where
  "illegal_operation s \<equiv> fail_with (\<lambda>e. e\<lparr>err_type := seL4_IllegalOperation\<rparr>) s"

abbreviation invalid_capability :: "word_t \<Rightarrow> kstate \<Rightarrow> (exception \<times> kstate) option" where
  "invalid_capability n s \<equiv> fail_with (\<lambda>e. e\<lparr>err_type := seL4_InvalidCapability, invalidCapNumber := n\<rparr>) s"

abbreviation restarted :: "kstate \<Rightarrow> kstate" where
  "restarted s \<equiv> setThreadState (ksCurThread s) ThreadState_Restart s"

abbreviation extra_slot :: "nat \<Rightarrow> kstate \<Rightarrow> word_t" where
  "extra_slot i s \<equiv> current_extra_caps s i"

abbreviation extra_cap :: "nat \<Rightarrow> kstate \<Rightarrow> cap" where
  "extra_cap i s \<equiv> cte_cap (ctes s (extra_slot i s))"

definition seL4_MinPrio :: word_t where "seL4_MinPrio = 0"

definition checkPrio :: "word_t \<Rightarrow> word_t \<Rightarrow> kstate \<Rightarrow> exception \<times> kstate" where
  "checkPrio prio auth s =
     (let mcp = tcbMCP (tcbs s auth)
      in if prio > mcp
         then syscall_fail (\<lambda>e. e\<lparr>err_type := seL4_RangeError, rangeErrorMin := seL4_MinPrio, rangeErrorMax := mcp\<rparr>) s
         else (EXCEPTION_NONE, s))"

definition decodeSetTLSBase :: "cap \<Rightarrow> word_t \<Rightarrow> word_t \<Rightarrow> kstate \<Rightarrow> (exception \<times> kstate) option" where
  "decodeSetTLSBase cap len buffer s =
     (if len < 1 then truncated_message s
      else Some (invokeSetTLSBase (capTCBPtr cap) (getSyscallArg 0 buffer s) (restarted s)))"

definition decodeSetFlags :: "cap \<Rightarrow> word_t \<Rightarrow> bool \<Rightarrow> word_t \<Rightarrow> kstate \<Rightarrow> (exception \<times> kstate) option" where
  "decodeSetFlags cap len call buffer s =
     (if len < 2 then truncated_message s
      else Some (EXCEPTION_NONE,
        invokeSetFlags (capTCBPtr cap) (getSyscallArg 0 buffer s) (getSyscallArg 1 buffer s) call (restarted s)))"

definition decodeCopyRegisters :: "cap \<Rightarrow> word_t \<Rightarrow> word_t \<Rightarrow> kstate \<Rightarrow> (exception \<times> kstate) option" where
  "decodeCopyRegisters cap len buffer s =
     (if len < 1 \<or> extra_slot 0 s = 0 then truncated_message s
      else let flags = getSyscallArg 0 buffer s;
               transferArch = Arch_decodeTransfer (drop_bit 8 flags);
               source_cap = extra_cap 0 s
           in if is_cap_thread_cap source_cap
              then invokeTCB_CopyRegisters (capTCBPtr cap) (capTCBPtr source_cap)
                     (flags AND BIT 0 \<noteq> 0) (flags AND BIT 1 \<noteq> 0) (flags AND BIT 2 \<noteq> 0) (flags AND BIT 3 \<noteq> 0)
                     transferArch (restarted s)
              else invalid_capability 1 s)"

definition decodeReadRegisters :: "cap \<Rightarrow> word_t \<Rightarrow> bool \<Rightarrow> word_t \<Rightarrow> kstate \<Rightarrow> (exception \<times> kstate) option" where
  "decodeReadRegisters cap len call buffer s =
     (if len < 2 then truncated_message s
      else let flags = getSyscallArg 0 buffer s;
               n = getSyscallArg 1 buffer s
           in if n < 1 \<or> n > of_nat (n_frameRegisters + n_gpRegisters)
              then fail_with (\<lambda>e. e\<lparr>err_type := seL4_RangeError, rangeErrorMin := 1,
                     rangeErrorMax := of_nat (n_frameRegisters + n_gpRegisters)\<rparr>) s
              else if capTCBPtr cap = ksCurThread s then illegal_operation s
              else Some (invokeTCB_ReadRegisters (capTCBPtr cap) (flags AND BIT 0 \<noteq> 0) n
                     (Arch_decodeTransfer (drop_bit 8 flags)) call (restarted s)))"

definition decodeWriteRegisters :: "cap \<Rightarrow> word_t \<Rightarrow> word_t \<Rightarrow> kstate \<Rightarrow> (exception \<times> kstate) option" where
  "decodeWriteRegisters cap len buffer s =
     (if len < 2 then truncated_message s
      else let flags = getSyscallArg 0 buffer s;
               w = getSyscallArg 1 buffer s
           in if len - 2 < w then truncated_message s
              else if capTCBPtr cap = ksCurThread s then illegal_operation s
              else invokeTCB_WriteRegisters (capTCBPtr cap) (flags AND BIT 0 \<noteq> 0) w
                     (Arch_decodeTransfer (drop_bit 8 flags)) buffer (restarted s))"

definition validFaultHandler :: "cap \<Rightarrow> bool" where
  "validFaultHandler cap =
     (case cap of
        cap_endpoint_cap _ canGrantReply canGrant canSend _ _ \<Rightarrow> canSend \<and> (canGrant \<or> canGrantReply)
      | cap_null_cap \<Rightarrow> True
      | _ \<Rightarrow> False)"

text \<open>
  The parts that \<open>decodeTCBConfigure\<close>, \<open>decodeSetIPCBuffer\<close> and \<open>decodeSetSpace\<close> share: checking
  a new IPC buffer, and checking new roots of the CSpace and VSpace.
\<close>

definition decode_ipc_buffer :: "word_t \<Rightarrow> word_t \<Rightarrow> kstate \<Rightarrow> (exception \<times> cap \<times> word_t \<times> kstate) option" where
  "decode_ipc_buffer bufferAddr bufferSlot s =
     (let bufferCap = cte_cap (ctes s bufferSlot)
      in if bufferAddr = 0 then Some (EXCEPTION_NONE, bufferCap, 0, s)
         else do {
           (dc_ret, s) \<leftarrow> deriveCap bufferSlot bufferCap s;
           if dc_status dc_ret \<noteq> EXCEPTION_NONE then Some (dc_status dc_ret, bufferCap, bufferSlot, s)
           else let (e, s) = checkValidIPCBuffer bufferAddr (dc_cap dc_ret) s
                in Some (e, dc_cap dc_ret, bufferSlot, s)
         })"

definition space_being_deleted :: "cap \<Rightarrow> kstate \<Rightarrow> bool" where
  "space_being_deleted cap s \<longleftrightarrow> slotCapLongRunningDelete (TCB_PTR_CTE_PTR (capTCBPtr cap) tcbCTable) s \<or>
     slotCapLongRunningDelete (TCB_PTR_CTE_PTR (capTCBPtr cap) tcbVTable) s"

definition decode_root :: "(cap \<Rightarrow> bool) \<Rightarrow> word_t \<Rightarrow> word_t \<Rightarrow> cap \<Rightarrow> kstate \<Rightarrow> (exception \<times> cap \<times> kstate) option" where
  "decode_root valid data slot cap s = do {
     (dc_ret, s) \<leftarrow> deriveCap slot (if data \<noteq> 0 then updateCapData False data cap else cap) s;
     if dc_status dc_ret \<noteq> EXCEPTION_NONE then Some (dc_status dc_ret, cap, s)
     else if \<not> valid (dc_cap dc_ret)
     then let (e, s) = syscall_fail (\<lambda>e. e\<lparr>err_type := seL4_IllegalOperation\<rparr>) s in Some (e, cap, s)
     else Some (EXCEPTION_NONE, dc_cap dc_ret, s)
   }"

definition decodeTCBConfigure :: "env \<Rightarrow> cap \<Rightarrow> word_t \<Rightarrow> word_t \<Rightarrow> word_t \<Rightarrow> kstate \<Rightarrow> (exception \<times> kstate) option" where
  "decodeTCBConfigure env cap len slot buffer s =
     (if len < 3 \<or> extra_slot 0 s = 0 \<or> extra_slot 1 s = 0 \<or> extra_slot 2 s = 0 then truncated_message s
      else do {
        let cRootData = getSyscallArg 0 buffer s;
        let vRootData = getSyscallArg 1 buffer s;
        let bufferAddr = getSyscallArg 2 buffer s;
        let (cRootSlot, cRootCap) = (extra_slot 0 s, extra_cap 0 s);
        let (vRootSlot, vRootCap) = (extra_slot 1 s, extra_cap 1 s);
        (e, bufferCap, bufferSlot, s) \<leftarrow> decode_ipc_buffer bufferAddr (extra_slot 2 s) s;
        if e \<noteq> EXCEPTION_NONE then Some (e, s)
        else if space_being_deleted cap s then illegal_operation s
        else do {
          (e, cRootCap, s) \<leftarrow> decode_root is_cap_cnode_cap cRootData cRootSlot cRootCap s;
          if e \<noteq> EXCEPTION_NONE then Some (e, s)
          else do {
            (e, vRootCap, s) \<leftarrow> decode_root isValidVTableRoot vRootData vRootSlot vRootCap s;
            if e \<noteq> EXCEPTION_NONE then Some (e, s)
            else drop_count (invokeTCB_ThreadControlCaps env (capTCBPtr cap) slot cap_null_cap 0 cap_null_cap 0
                   cRootCap cRootSlot vRootCap vRootSlot bufferAddr bufferCap bufferSlot
                   (thread_control_caps_update_space OR thread_control_caps_update_ipc_buffer) (restarted s))
          }
        }
      })"

definition decodeSetIPCBuffer :: "env \<Rightarrow> cap \<Rightarrow> word_t \<Rightarrow> word_t \<Rightarrow> word_t \<Rightarrow> kstate \<Rightarrow> (exception \<times> kstate) option" where
  "decodeSetIPCBuffer env cap len slot buffer s =
     (if len < 1 \<or> extra_slot 0 s = 0 then truncated_message s
      else do {
        let cptr_bufferPtr = getSyscallArg 0 buffer s;
        (e, bufferCap, bufferSlot, s) \<leftarrow> decode_ipc_buffer cptr_bufferPtr (extra_slot 0 s) s;
        if e \<noteq> EXCEPTION_NONE then Some (e, s)
        else drop_count (invokeTCB_ThreadControlCaps env (capTCBPtr cap) slot cap_null_cap 0 cap_null_cap 0
               cap_null_cap 0 cap_null_cap 0 cptr_bufferPtr bufferCap bufferSlot
               thread_control_caps_update_ipc_buffer (restarted s))
      })"

definition decodeSetSpace :: "env \<Rightarrow> cap \<Rightarrow> word_t \<Rightarrow> word_t \<Rightarrow> word_t \<Rightarrow> kstate \<Rightarrow> (exception \<times> kstate) option" where
  "decodeSetSpace env cap len slot buffer s =
     (if len < 2 \<or> extra_slot 0 s = 0 \<or> extra_slot 1 s = 0 \<or> extra_slot 2 s = 0 then truncated_message s
      else do {
        let cRootData = getSyscallArg 0 buffer s;
        let vRootData = getSyscallArg 1 buffer s;
        let (fhSlot, fhCap) = (extra_slot 0 s, extra_cap 0 s);
        let (cRootSlot, cRootCap) = (extra_slot 1 s, extra_cap 1 s);
        let (vRootSlot, vRootCap) = (extra_slot 2 s, extra_cap 2 s);
        if space_being_deleted cap s then illegal_operation s
        else do {
          (e, cRootCap, s) \<leftarrow> decode_root is_cap_cnode_cap cRootData cRootSlot cRootCap s;
          if e \<noteq> EXCEPTION_NONE then Some (e, s)
          else do {
            (e, vRootCap, s) \<leftarrow> decode_root isValidVTableRoot vRootData vRootSlot vRootCap s;
            if e \<noteq> EXCEPTION_NONE then Some (e, s)
            else if \<not> validFaultHandler fhCap then invalid_capability 1 s
            else drop_count (invokeTCB_ThreadControlCaps env (capTCBPtr cap) slot fhCap fhSlot cap_null_cap 0
                   cRootCap cRootSlot vRootCap vRootSlot 0 cap_null_cap 0
                   (thread_control_caps_update_space OR thread_control_caps_update_fault) (restarted s))
          }
        }
      })"

definition decodeSetTimeoutEndpoint :: "env \<Rightarrow> cap \<Rightarrow> word_t \<Rightarrow> kstate \<Rightarrow> (exception \<times> kstate) option" where
  "decodeSetTimeoutEndpoint env cap slot s =
     (if extra_slot 0 s = 0 then truncated_message s
      else let (thSlot, thCap) = (extra_slot 0 s, extra_cap 0 s)
           in if \<not> validFaultHandler thCap then invalid_capability 1 s
              else drop_count (invokeTCB_ThreadControlCaps env (capTCBPtr cap) slot cap_null_cap 0 thCap thSlot
                     cap_null_cap 0 cap_null_cap 0 0 cap_null_cap 0 thread_control_caps_update_timeout (restarted s)))"

definition decodeSetPriority :: "env \<Rightarrow> cap \<Rightarrow> word_t \<Rightarrow> word_t \<Rightarrow> kstate \<Rightarrow> (exception \<times> kstate) option" where
  "decodeSetPriority env cap len buffer s =
     (if len < 1 \<or> extra_slot 0 s = 0 then truncated_message s
      else let newPrio = getSyscallArg 0 buffer s;
               authCap = extra_cap 0 s
           in if \<not> is_cap_thread_cap authCap then invalid_capability 1 s
              else let (status, s) = checkPrio newPrio (capTCBPtr authCap) s
                   in if status \<noteq> EXCEPTION_NONE then Some (status, s)
                      else drop_count (invokeTCB_ThreadControlSched env (capTCBPtr cap) 0 cap_null_cap 0 NULL_PRIO newPrio 0
                             thread_control_sched_update_priority (restarted s)))"

definition decodeSetMCPriority :: "env \<Rightarrow> cap \<Rightarrow> word_t \<Rightarrow> word_t \<Rightarrow> kstate \<Rightarrow> (exception \<times> kstate) option" where
  "decodeSetMCPriority env cap len buffer s =
     (if len < 1 \<or> extra_slot 0 s = 0 then truncated_message s
      else let newMcp = getSyscallArg 0 buffer s;
               authCap = extra_cap 0 s
           in if \<not> is_cap_thread_cap authCap then invalid_capability 1 s
              else let (status, s) = checkPrio newMcp (capTCBPtr authCap) s
                   in if status \<noteq> EXCEPTION_NONE then Some (status, s)
                      else drop_count (invokeTCB_ThreadControlSched env (capTCBPtr cap) 0 cap_null_cap 0 newMcp NULL_PRIO 0
                             thread_control_sched_update_mcp (restarted s)))"

text \<open>The scheduling context that \<open>decodeSetSchedParams\<close> is given: null unbinds the thread.\<close>

definition sched_params_sc :: "word_t \<Rightarrow> cap \<Rightarrow> kstate \<Rightarrow> exception \<times> word_t \<times> kstate" where
  "sched_params_sc tcb scCap s =
     (let illegal = (case syscall_fail (\<lambda>e. e\<lparr>err_type := seL4_IllegalOperation\<rparr>) s of (e, s) \<Rightarrow> (e, 0, s))
      in case scCap of
           cap_sched_context_cap sc _ \<Rightarrow>
             if tcbSchedContext (tcbs s tcb) \<noteq> sc \<and> (tcbSchedContext (tcbs s tcb) \<noteq> 0 \<or> scTcb (scs s sc) \<noteq> 0) then illegal
             else if isBlocked (tcbs s tcb) \<and> \<not> sc_released (ksCurTime s) (scs s sc) then illegal
             else (EXCEPTION_NONE, sc, s)
         | cap_null_cap \<Rightarrow> if tcb = ksCurThread s then illegal else (EXCEPTION_NONE, 0, s)
         | _ \<Rightarrow> (case syscall_fail (\<lambda>e. e\<lparr>err_type := seL4_InvalidCapability, invalidCapNumber := 2\<rparr>) s of (e, s) \<Rightarrow> (e, 0, s)))"

definition decodeSetSchedParams :: "env \<Rightarrow> cap \<Rightarrow> word_t \<Rightarrow> word_t \<Rightarrow> word_t \<Rightarrow> kstate \<Rightarrow> (exception \<times> kstate) option" where
  "decodeSetSchedParams env cap len slot buffer s =
     (if len < 2 \<or> extra_slot 0 s = 0 \<or> extra_slot 1 s = 0 \<or> extra_slot 2 s = 0 then truncated_message s
      else
        let newMcp = getSyscallArg 0 buffer s;
            newPrio = getSyscallArg 1 buffer s;
            authCap = extra_cap 0 s;
            scCap = extra_cap 1 s;
            (fhSlot, fhCap) = (extra_slot 2 s, extra_cap 2 s);
            tcb = capTCBPtr cap
        in if \<not> is_cap_thread_cap authCap then invalid_capability 1 s
           else let (status, s) = checkPrio newMcp (capTCBPtr authCap) s
           in if status \<noteq> EXCEPTION_NONE then Some (status, s)
           else let (status, s) = checkPrio newPrio (capTCBPtr authCap) s
           in if status \<noteq> EXCEPTION_NONE then Some (status, s)
           else let (status, sc, s) = sched_params_sc tcb scCap s
           in if status \<noteq> EXCEPTION_NONE then Some (status, s)
           else
             let flags = thread_control_sched_update_mcp OR thread_control_sched_update_priority OR
                           thread_control_sched_update_fault;
                 update_flags = (if tcbSchedContext (tcbs s tcb) \<noteq> sc then flags OR thread_control_sched_update_sc else flags)
             in if \<not> validFaultHandler fhCap then invalid_capability 3 s
                else drop_count (invokeTCB_ThreadControlSched env tcb slot fhCap fhSlot newMcp newPrio sc update_flags
                       (restarted s)))"

definition decodeBindNotification :: "cap \<Rightarrow> kstate \<Rightarrow> (exception \<times> kstate) option" where
  "decodeBindNotification cap s =
     (if extra_slot 0 s = 0 then truncated_message s
      else if tcbBoundNotification (tcbs s (capTCBPtr cap)) \<noteq> 0 then illegal_operation s
      else case extra_cap 0 s of
             cap_notification_cap _ canReceive _ ntfnPtr \<Rightarrow>
               if \<not> canReceive then illegal_operation s
               else if ntfnQueue_head (ntfns s ntfnPtr) \<noteq> 0 \<or> ntfnBoundTCB (ntfns s ntfnPtr) \<noteq> 0 then illegal_operation s
               else Some (invokeTCB_NotificationControl (capTCBPtr cap) ntfnPtr (restarted s))
           | _ \<Rightarrow> illegal_operation s)"

definition decodeUnbindNotification :: "cap \<Rightarrow> kstate \<Rightarrow> (exception \<times> kstate) option" where
  "decodeUnbindNotification cap s =
     (if tcbBoundNotification (tcbs s (capTCBPtr cap)) = 0 then illegal_operation s
      else Some (invokeTCB_NotificationControl (capTCBPtr cap) 0 (restarted s)))"

definition decodeTCBInvocation ::
  "env \<Rightarrow> invocation_label \<Rightarrow> word_t \<Rightarrow> cap \<Rightarrow> word_t \<Rightarrow> bool \<Rightarrow> word_t \<Rightarrow> kstate \<Rightarrow> (exception \<times> kstate) option" where
  "decodeTCBInvocation env invLabel len cap slot call buffer s =
     (case invLabel of
        TCBReadRegisters \<Rightarrow> decodeReadRegisters cap len call buffer s
      | TCBWriteRegisters \<Rightarrow> decodeWriteRegisters cap len buffer s
      | TCBCopyRegisters \<Rightarrow> decodeCopyRegisters cap len buffer s
      | TCBSuspend \<Rightarrow> Some (invokeTCB_Suspend (capTCBPtr cap) (restarted s))
      | TCBResume \<Rightarrow> invokeTCB_Resume (capTCBPtr cap) (restarted s)
      | TCBConfigure \<Rightarrow> decodeTCBConfigure env cap len slot buffer s
      | TCBSetPriority \<Rightarrow> decodeSetPriority env cap len buffer s
      | TCBSetMCPriority \<Rightarrow> decodeSetMCPriority env cap len buffer s
      | TCBSetSchedParams \<Rightarrow> decodeSetSchedParams env cap len slot buffer s
      | TCBSetIPCBuffer \<Rightarrow> decodeSetIPCBuffer env cap len slot buffer s
      | TCBSetSpace \<Rightarrow> decodeSetSpace env cap len slot buffer s
      | TCBBindNotification \<Rightarrow> decodeBindNotification cap s
      | TCBUnbindNotification \<Rightarrow> decodeUnbindNotification cap s
      | TCBSetTimeoutEndpoint \<Rightarrow> decodeSetTimeoutEndpoint env cap slot s
      | TCBSetTLSBase \<Rightarrow> decodeSetTLSBase cap len buffer s
      | TCBSetFlags \<Rightarrow> decodeSetFlags cap len call buffer s
      | _ \<Rightarrow> illegal_operation s)"

end
