(* ===== verification/Interrupt.thy ===== *)
theory Interrupt
  imports TCBOps
begin

text \<open>
  Interrupts (\<^verbatim>\<open>src/object/interrupt.c\<close>, \<^verbatim>\<open>src/arch/riscv/object/interrupt.c\<close>): handing out handler
  capabilities, attaching a notification to a line, and what an interrupt does. Masking and
  acknowledging act on the interrupt controller only; they are not part of the state.
\<close>

section \<open>Operations\<close>

definition HAVE_SET_TRIGGER :: bool where "HAVE_SET_TRIGGER = True"

definition isIRQActive :: "word_t \<Rightarrow> kstate \<Rightarrow> bool" where
  "isIRQActive irq s \<longleftrightarrow> intStateIRQTable s irq \<noteq> IRQInactive"

definition Arch_checkIRQ :: "word_t \<Rightarrow> kstate \<Rightarrow> exception \<times> kstate" where
  "Arch_checkIRQ irq s =
     (if irq > maxIRQ \<or> irq = irqInvalid
      then syscall_fail (\<lambda>e. e\<lparr>err_type := seL4_RangeError, rangeErrorMin := 1, rangeErrorMax := maxIRQ\<rparr>) s
      else (EXCEPTION_NONE, s))"

definition invokeIRQControl :: "word_t \<Rightarrow> word_t \<Rightarrow> word_t \<Rightarrow> kstate \<Rightarrow> exception \<times> kstate" where
  "invokeIRQControl irq handlerSlot controlSlot s =
     (let s = setIRQState IRQSignal irq s
      in (EXCEPTION_NONE, cteInsert (cap_irq_handler_cap irq) controlSlot handlerSlot s))"

definition Arch_invokeIRQControl :: "word_t \<Rightarrow> word_t \<Rightarrow> word_t \<Rightarrow> bool \<Rightarrow> kstate \<Rightarrow> exception \<times> kstate" where
  "Arch_invokeIRQControl irq handlerSlot controlSlot trigger s = invokeIRQControl irq handlerSlot controlSlot s"

text \<open>
  The checks that both forms of the request share: the number of the line, that it is free, and
  an empty slot for the handler capability; then the invocation.
\<close>

definition issue_irq_handler ::
  "(word_t \<Rightarrow> kstate \<Rightarrow> exception \<times> kstate) \<Rightarrow> word_t \<Rightarrow> cap \<Rightarrow> word_t \<Rightarrow> word_t \<Rightarrow> kstate \<Rightarrow> (exception \<times> kstate) option" where
  "issue_irq_handler invoke irq cnodeCap index depth s =
     (let (status, s) = Arch_checkIRQ irq s
      in if status \<noteq> EXCEPTION_NONE then Some (status, s)
         else if isIRQActive irq s then fail_with (\<lambda>e. e\<lparr>err_type := seL4_RevokeFirst\<rparr>) s
         else do {
           (lu_ret, s) \<leftarrow> lookupTargetSlot cnodeCap index depth s;
           if ls_status lu_ret \<noteq> EXCEPTION_NONE then Some (ls_status lu_ret, s)
           else let (status, s) = ensureEmptySlot (ls_slot lu_ret) s
                in if status \<noteq> EXCEPTION_NONE then Some (status, s)
                   else Some (invoke (ls_slot lu_ret) (restarted s))
         })"

definition Arch_decodeIRQControlInvocation ::
  "invocation_label \<Rightarrow> word_t \<Rightarrow> word_t \<Rightarrow> word_t \<Rightarrow> kstate \<Rightarrow> (exception \<times> kstate) option" where
  "Arch_decodeIRQControlInvocation invLabel len srcSlot buffer s =
     (if invLabel = RISCVIRQIssueIRQHandlerTrigger then
        if len < 4 \<or> extra_slot 0 s = 0 then truncated_message s
        else if \<not> HAVE_SET_TRIGGER then illegal_operation s
        else let irq = getSyscallArg 0 buffer s;
                 trigger = (getSyscallArg 1 buffer s \<noteq> 0);
                 index = getSyscallArg 2 buffer s;
                 depth = getSyscallArg 3 buffer s
             in issue_irq_handler (\<lambda>destSlot. Arch_invokeIRQControl irq destSlot srcSlot trigger) irq (extra_cap 0 s)
                  index depth s
      else illegal_operation s)"

definition decodeIRQControlInvocation ::
  "invocation_label \<Rightarrow> word_t \<Rightarrow> word_t \<Rightarrow> word_t \<Rightarrow> kstate \<Rightarrow> (exception \<times> kstate) option" where
  "decodeIRQControlInvocation invLabel len srcSlot buffer s =
     (if invLabel = IRQIssueIRQHandler then
        if len < 3 \<or> extra_slot 0 s = 0 then truncated_message s
        else let irq = getSyscallArg 0 buffer s;
                 index = getSyscallArg 1 buffer s;
                 depth = getSyscallArg 2 buffer s
             in issue_irq_handler (\<lambda>destSlot. invokeIRQControl irq destSlot srcSlot) irq (extra_cap 0 s) index depth s
      else Arch_decodeIRQControlInvocation invLabel len srcSlot buffer s)"

definition invokeIRQHandler_AckIRQ :: "word_t \<Rightarrow> kstate \<Rightarrow> kstate" where
  "invokeIRQHandler_AckIRQ irq s = s"

definition invokeIRQHandler_SetIRQHandler :: "word_t \<Rightarrow> cap \<Rightarrow> word_t \<Rightarrow> kstate \<Rightarrow> kstate option" where
  "invokeIRQHandler_SetIRQHandler irq cap slot s = do {
     let irqSlot = slot_at (intStateIRQNode s) irq;
     s \<leftarrow> cteDeleteOne irqSlot s;
     Some (cteInsert cap slot irqSlot s)
   }"

definition invokeIRQHandler_ClearIRQHandler :: "word_t \<Rightarrow> kstate \<Rightarrow> kstate option" where
  "invokeIRQHandler_ClearIRQHandler irq s = cteDeleteOne (slot_at (intStateIRQNode s) irq) s"

definition decodeIRQHandlerInvocation :: "invocation_label \<Rightarrow> word_t \<Rightarrow> kstate \<Rightarrow> (exception \<times> kstate) option" where
  "decodeIRQHandlerInvocation invLabel irq s =
     (case invLabel of
        IRQAckIRQ \<Rightarrow> Some (EXCEPTION_NONE, invokeIRQHandler_AckIRQ irq (restarted s))
      | IRQSetIRQHandler \<Rightarrow>
          if extra_slot 0 s = 0 then truncated_message s
          else (case extra_cap 0 s of
              cap_notification_cap _ _ canSend _ \<Rightarrow>
                if canSend then map_option (Pair EXCEPTION_NONE)
                  (invokeIRQHandler_SetIRQHandler irq (extra_cap 0 s) (extra_slot 0 s) (restarted s))
                else invalid_capability 0 s
            | _ \<Rightarrow> invalid_capability 0 s)
      | IRQClearIRQHandler \<Rightarrow>
          map_option (Pair EXCEPTION_NONE) (invokeIRQHandler_ClearIRQHandler irq (restarted s))
      | _ \<Rightarrow> illegal_operation s)"

definition handleReservedIRQ :: "word_t \<Rightarrow> kstate \<Rightarrow> kstate" where
  "handleReservedIRQ irq s = s"

definition handleInterrupt :: "word_t \<Rightarrow> kstate \<Rightarrow> kstate option" where
  "handleInterrupt irq s =
     (if irq > maxIRQ then Some s
      else case intStateIRQTable s irq of
          IRQSignal \<Rightarrow>
            (case cte_cap (ctes s (slot_at (intStateIRQNode s) irq)) of
               cap_notification_cap badge _ canSend ntfnPtr \<Rightarrow> if canSend then sendSignal ntfnPtr badge s else Some s
             | _ \<Rightarrow> Some s)
        | IRQTimer \<Rightarrow> Some (s\<lparr>ksReprogram := True\<rparr>)
        | IRQReserved \<Rightarrow> Some (handleReservedIRQ irq s)
        | IRQInactive \<Rightarrow> Some s)"

end
