(* ===== verification/Syscall.thy ===== *)
theory Syscall
  imports Interrupt Domain SchedContext
begin

text \<open>
  Kernel entries (\<^verbatim>\<open>src/api/syscall.c\<close>, \<^verbatim>\<open>src/arch/riscv/c_traps.c\<close>): system calls, faults and
  interrupts, and the dispatch of invocations by the type of the capability
  (\<open>decodeInvocation\<close> in \<^verbatim>\<open>src/object/objecttype.c\<close>).

  What the kernel reads from the hardware during an entry is one record: the time at entry, the answers of
  the interrupt line and the timer at preemption points, the interrupt that is active, and the address
  of a fault. Invocation labels are numbered by a header that the build generates from the
  interface descriptions; the number of a label is the parameter \<open>labels\<close>.
\<close>

record machine =
  m_time :: ticks_t
  m_env :: env
  m_irq :: word_t
  m_stval :: word_t

type_synonym labels = "word_t \<Rightarrow> invocation_label"

section \<open>Invocations\<close>

definition performInvocation_Endpoint ::
  "word_t \<Rightarrow> word_t \<Rightarrow> bool \<Rightarrow> bool \<Rightarrow> bool \<Rightarrow> bool \<Rightarrow> bool \<Rightarrow> kstate \<Rightarrow> (exception \<times> kstate) option" where
  "performInvocation_Endpoint ep badge canGrant canGrantReply block call canDonate s =
     map_option (Pair EXCEPTION_NONE) (sendIPC block call badge canGrant canGrantReply canDonate (ksCurThread s) ep s)"

definition performInvocation_Notification :: "word_t \<Rightarrow> word_t \<Rightarrow> kstate \<Rightarrow> (exception \<times> kstate) option" where
  "performInvocation_Notification ntfn badge s = map_option (Pair EXCEPTION_NONE) (sendSignal ntfn badge s)"

definition performInvocation_Reply :: "word_t \<Rightarrow> word_t \<Rightarrow> bool \<Rightarrow> kstate \<Rightarrow> (exception \<times> kstate) option" where
  "performInvocation_Reply thread reply canGrant s =
     map_option (Pair EXCEPTION_NONE) (doReplyTransfer thread reply canGrant s)"

definition Arch_decodeInvocation ::
  "invocation_label \<Rightarrow> word_t \<Rightarrow> word_t \<Rightarrow> word_t \<Rightarrow> cap \<Rightarrow> bool \<Rightarrow> word_t \<Rightarrow> kstate \<Rightarrow> (exception \<times> kstate) option" where
  "Arch_decodeInvocation label len cptr slot cap call buffer s =
     decodeRISCVMMUInvocation label len cptr slot cap call buffer s"

definition decodeInvocation ::
  "env \<Rightarrow> invocation_label \<Rightarrow> word_t \<Rightarrow> word_t \<Rightarrow> word_t \<Rightarrow> cap \<Rightarrow> bool \<Rightarrow> bool \<Rightarrow> bool \<Rightarrow> bool \<Rightarrow> word_t \<Rightarrow> kstate \<Rightarrow>
     (exception \<times> kstate) option" where
  "decodeInvocation env invLabel len capIndex slot cap block call canDonate firstPhase buffer s =
     (if isArchCap cap then Arch_decodeInvocation invLabel len capIndex slot cap call buffer s
      else case cap of
          cap_null_cap \<Rightarrow> invalid_capability 0 s
        | cap_zombie_cap _ _ \<Rightarrow> invalid_capability 0 s
        | cap_endpoint_cap badge canGrantReply canGrant canSend _ ep \<Rightarrow>
            if \<not> canSend then invalid_capability 0 s
            else performInvocation_Endpoint ep badge canGrant canGrantReply block call canDonate (restarted s)
        | cap_notification_cap badge _ canSend ntfn \<Rightarrow>
            if \<not> canSend then invalid_capability 0 s
            else performInvocation_Notification ntfn badge (restarted s)
        | cap_reply_cap reply canGrant \<Rightarrow> performInvocation_Reply (ksCurThread s) reply canGrant (restarted s)
        | cap_thread_cap _ \<Rightarrow>
            if firstPhase then invalid_capability 0 s else decodeTCBInvocation env invLabel len cap slot call buffer s
        | cap_domain_cap \<Rightarrow>
            if firstPhase then invalid_capability 0 s else Some (decodeDomainInvocation invLabel len buffer s)
        | cap_cnode_cap _ _ _ _ \<Rightarrow>
            if firstPhase then invalid_capability 0 s else decodeCNodeInvocation env invLabel len cap buffer s
        | cap_untyped_cap _ _ _ _ \<Rightarrow> decodeUntypedInvocation env invLabel len slot cap call buffer s
        | cap_irq_control_cap \<Rightarrow> decodeIRQControlInvocation invLabel len slot buffer s
        | cap_irq_handler_cap irq \<Rightarrow> decodeIRQHandlerInvocation invLabel irq s
        | cap_sched_control_cap _ \<Rightarrow>
            if firstPhase then invalid_capability 0 s else decodeSchedControlInvocation invLabel len buffer s
        | cap_sched_context_cap sc _ \<Rightarrow>
            if firstPhase then invalid_capability 0 s else decodeSchedContextInvocation invLabel sc call s
        | _ \<Rightarrow> None)"

section \<open>System calls\<close>

definition capRegister :: register where "capRegister = 9"
definition replyRegister :: register where "replyRegister = 15"
definition nbsendRecvDest :: register where "nbsendRecvDest = 4"

definition getNBSendRecvDest :: "kstate \<Rightarrow> word_t" where
  "getNBSendRecvDest s = getRegister s (ksCurThread s) nbsendRecvDest"

definition cap_fault :: "word_t \<Rightarrow> bool \<Rightarrow> kstate \<Rightarrow> kstate" where
  "cap_fault addr inReceivePhase s = s\<lparr>current_fault := CapFault addr inReceivePhase\<rparr>"

text \<open>The end of \<open>handleInvocation\<close>: replying to the caller with the outcome.\<close>

definition reply_to_invocation :: "word_t \<Rightarrow> bool \<Rightarrow> exception \<Rightarrow> kstate \<Rightarrow> (exception \<times> kstate) option" where
  "reply_to_invocation thread isCall status s =
     (if status = EXCEPTION_PREEMPTED then Some (status, s)
      else if status = EXCEPTION_SYSCALL_ERROR then
        if isCall then map_option (Pair EXCEPTION_NONE) (replyFromKernel_error thread s) else Some (EXCEPTION_NONE, s)
      else Some (EXCEPTION_NONE,
        if ts_type (tcbState (tcbs s thread)) = ThreadState_Restart
        then setThreadState thread ThreadState_Running (if isCall then replyFromKernel_success_empty thread s else s)
        else s))"

definition handleInvocation ::
  "labels \<Rightarrow> env \<Rightarrow> bool \<Rightarrow> bool \<Rightarrow> bool \<Rightarrow> bool \<Rightarrow> word_t \<Rightarrow> kstate \<Rightarrow> (exception \<times> kstate) option" where
  "handleInvocation labels env isCall isBlocking canDonate firstPhase cptr s = do {
     let thread = ksCurThread s;
     let info = messageInfoFromWord (getRegister s thread msgInfoRegister);
     (lu_ret, s) \<leftarrow> lookupCapAndSlot thread cptr s;
     if lcs_status lu_ret \<noteq> EXCEPTION_NONE then
       let s = cap_fault cptr False s
       in if isBlocking then map_option (Pair EXCEPTION_NONE) (handleFault thread s) else Some (EXCEPTION_NONE, s)
     else do {
       let buffer = lookupIPCBuffer False thread s;
       (status, s) \<leftarrow> lookupExtraCaps thread buffer info s;
       if status \<noteq> EXCEPTION_NONE then
         if isBlocking then map_option (Pair EXCEPTION_NONE) (handleFault thread s) else Some (EXCEPTION_NONE, s)
       else do {
         let len = seL4_MessageInfo_get_length info;
         let len = (if len > n_msgRegisters \<and> buffer = 0 then n_msgRegisters else len);
         (status, s) \<leftarrow> decodeInvocation env (labels (seL4_MessageInfo_get_label info)) len cptr (lcs_slot lu_ret)
                           (lcs_cap lu_ret) isBlocking isCall canDonate firstPhase buffer s;
         reply_to_invocation thread isCall status s
       }
     }
   }"

definition lookupReply :: "kstate \<Rightarrow> (lookupCap_ret \<times> kstate) option" where
  "lookupReply s = do {
     let replyCPtr = getRegister s (ksCurThread s) replyRegister;
     (lu_ret, s) \<leftarrow> lookupCap (ksCurThread s) replyCPtr s;
     if lc_status lu_ret \<noteq> EXCEPTION_NONE then
       map_option (Pair lu_ret) (handleFault (ksCurThread s) (cap_fault replyCPtr True s))
     else if \<not> is_cap_reply_cap (lc_cap lu_ret) then
       map_option (Pair (lu_ret\<lparr>lc_status := EXCEPTION_FAULT\<rparr>)) (handleFault (ksCurThread s) (cap_fault replyCPtr True s))
     else Some (lu_ret, s)
   }"

definition missing_cap_fault :: "word_t \<Rightarrow> kstate \<Rightarrow> kstate option" where
  "missing_cap_fault epCPtr s =
     handleFault (ksCurThread s) (cap_fault epCPtr True (s\<lparr>current_lookup_fault := missing_capability 0\<rparr>))"

definition handleRecv :: "bool \<Rightarrow> bool \<Rightarrow> kstate \<Rightarrow> kstate option" where
  "handleRecv isBlocking canReply s = do {
     let epCPtr = getRegister s (ksCurThread s) capRegister;
     (lu_ret, s) \<leftarrow> lookupCap (ksCurThread s) epCPtr s;
     if lc_status lu_ret \<noteq> EXCEPTION_NONE then handleFault (ksCurThread s) (cap_fault epCPtr True s)
     else case lc_cap lu_ret of
         cap_endpoint_cap _ _ _ _ canReceive _ \<Rightarrow>
           if \<not> canReceive then missing_cap_fault epCPtr s
           else if canReply then do {
             (reply_ret, s) \<leftarrow> lookupReply s;
             if lc_status reply_ret \<noteq> EXCEPTION_NONE then Some s
             else receiveIPC (ksCurThread s) (lc_cap lu_ret) isBlocking (lc_cap reply_ret) s
           } else receiveIPC (ksCurThread s) (lc_cap lu_ret) isBlocking cap_null_cap s
       | cap_notification_cap _ canReceive _ ntfnPtr \<Rightarrow>
           let boundTCB = ntfnBoundTCB (ntfns s ntfnPtr)
           in if \<not> canReceive \<or> boundTCB \<noteq> 0 \<and> boundTCB \<noteq> ksCurThread s then missing_cap_fault epCPtr s
              else receiveSignal (ksCurThread s) (lc_cap lu_ret) isBlocking s
       | _ \<Rightarrow> missing_cap_fault epCPtr s
   }"

definition mcsPreemptionPoint :: "kstate \<Rightarrow> kstate option" where
  "mcsPreemptionPoint s =
     (if isSchedulable (ksCurThread s) s then map_option snd (checkBudget s)
      else if sc_active (scs s (ksCurSC s)) then chargeBudget (ksConsumed s) False s
      else Some (s\<lparr>ksConsumed := 0\<rparr>))"

definition handleYield :: "kstate \<Rightarrow> kstate option" where
  "handleYield s = do {
     let consumed = scConsumed (scs s (ksCurSC s)) + ksConsumed s;
     let head = refill_head (scs s (ksCurSC s));
     s \<leftarrow> chargeBudget (rAmount head) False s;
     Some (upd_sc (ksCurSC s) (\<lambda>sc. sc\<lparr>scConsumed := consumed\<rparr>) s)
   }"

definition checkInterrupt :: "word_t \<Rightarrow> kstate \<Rightarrow> kstate option" where
  "checkInterrupt irq s = (if irq \<noteq> irqInvalid then handleInterrupt irq s else Some s)"

text \<open>
  What follows a preempted invocation, and the two-phase system calls, which receive once they
  have sent. \<open>phase_two\<close> is what they go on with when the first phase was not preempted.
\<close>

definition after_invocation :: "word_t \<Rightarrow> (kstate \<Rightarrow> kstate option) \<Rightarrow> exception \<times> kstate \<Rightarrow> kstate option" where
  "after_invocation irq phase_two r =
     (case r of (ret, s) \<Rightarrow>
        if ret \<noteq> EXCEPTION_NONE then do { s \<leftarrow> mcsPreemptionPoint s; checkInterrupt irq s } else phase_two s)"

datatype syscall = SysCall | SysReplyRecv | SysNBSendRecv | SysNBSendWait | SysSend | SysNBSend | SysRecv
  | SysNBRecv | SysWait | SysNBWait | SysYield

definition syscall_action :: "labels \<Rightarrow> machine \<Rightarrow> syscall \<Rightarrow> kstate \<Rightarrow> kstate option" where
  "syscall_action labels m syscall s =
     (let invoke = handleInvocation labels (m_env m);
          cptr = getRegister s (ksCurThread s) capRegister;
          reply = getRegister s (ksCurThread s) replyRegister
      in case syscall of
           SysSend \<Rightarrow> Option.bind (invoke False True False False cptr s) (after_invocation (m_irq m) Some)
         | SysNBSend \<Rightarrow> Option.bind (invoke False False False False cptr s) (after_invocation (m_irq m) Some)
         | SysCall \<Rightarrow> Option.bind (invoke True True True False cptr s) (after_invocation (m_irq m) Some)
         | SysRecv \<Rightarrow> handleRecv True True s
         | SysWait \<Rightarrow> handleRecv True False s
         | SysNBWait \<Rightarrow> handleRecv False False s
         | SysReplyRecv \<Rightarrow> Option.bind (invoke False False True True reply s) (\<lambda>(ret, s). handleRecv True True s)
         | SysNBSendRecv \<Rightarrow>
             Option.bind (invoke False False True True (getNBSendRecvDest s) s) (after_invocation (m_irq m) (handleRecv True True))
         | SysNBSendWait \<Rightarrow>
             Option.bind (invoke False False True True reply s) (after_invocation (m_irq m) (handleRecv True False))
         | SysNBRecv \<Rightarrow> handleRecv False True s
         | SysYield \<Rightarrow> handleYield s)"

section \<open>Kernel entries\<close>

definition MCS_DO_IF_BUDGET :: "ticks_t \<Rightarrow> (kstate \<Rightarrow> kstate option) \<Rightarrow> kstate \<Rightarrow> kstate option" where
  "MCS_DO_IF_BUDGET now block s = do {
     (ok, s) \<leftarrow> checkBudgetRestart (updateTimestamp now s);
     if ok then block s else Some s
   }"

definition leave_kernel :: "kstate \<Rightarrow> kstate option" where
  "leave_kernel s = do { s \<leftarrow> schedule s; activateThread s }"

definition handleSyscall :: "labels \<Rightarrow> machine \<Rightarrow> syscall \<Rightarrow> kstate \<Rightarrow> kstate option" where
  "handleSyscall labels m syscall s = do {
     s \<leftarrow> MCS_DO_IF_BUDGET (m_time m) (syscall_action labels m syscall) s;
     leave_kernel s
   }"

definition handleInterruptEntry :: "machine \<Rightarrow> kstate \<Rightarrow> kstate option" where
  "handleInterruptEntry m s = do {
     (_, s) \<leftarrow> checkBudget (updateTimestamp (m_time m) s);
     s \<leftarrow> checkInterrupt (m_irq m) s;
     leave_kernel s
   }"

definition handleUnknownSyscall :: "machine \<Rightarrow> word_t \<Rightarrow> kstate \<Rightarrow> kstate option" where
  "handleUnknownSyscall m w s = do {
     s \<leftarrow> MCS_DO_IF_BUDGET (m_time m)
            (\<lambda>s. handleFault (ksCurThread s) (s\<lparr>current_fault := UnknownSyscall w\<rparr>)) s;
     leave_kernel s
   }"

definition handleUserLevelFault :: "machine \<Rightarrow> word_t \<Rightarrow> word_t \<Rightarrow> kstate \<Rightarrow> kstate option" where
  "handleUserLevelFault m w_a w_b s = do {
     s \<leftarrow> MCS_DO_IF_BUDGET (m_time m)
            (\<lambda>s. handleFault (ksCurThread s) (s\<lparr>current_fault := UserException w_a w_b\<rparr>)) s;
     leave_kernel s
   }"

definition handleVMFaultEvent :: "machine \<Rightarrow> word_t \<Rightarrow> kstate \<Rightarrow> kstate option" where
  "handleVMFaultEvent m vm_faultType s = do {
     s \<leftarrow> MCS_DO_IF_BUDGET (m_time m)
            (\<lambda>s. do {
               (status, s) \<leftarrow> handleVMFault (m_stval m) (ksCurThread s) vm_faultType s;
               if status \<noteq> EXCEPTION_NONE then handleFault (ksCurThread s) s else Some s
             }) s;
     leave_kernel s
   }"

text \<open>The traps that enter the kernel (\<^verbatim>\<open>c_handle_exception\<close>, \<open>slowpath\<close>, \<^verbatim>\<open>c_handle_interrupt\<close>).\<close>

definition c_handle_exception :: "machine \<Rightarrow> word_t \<Rightarrow> kstate \<Rightarrow> kstate option" where
  "c_handle_exception m scause s =
     (if scause \<in> {RISCVInstructionAccessFault, RISCVLoadAccessFault, RISCVStoreAccessFault, RISCVLoadPageFault,
          RISCVStorePageFault, RISCVInstructionPageFault}
      then handleVMFaultEvent m scause s else handleUserLevelFault m scause 0 s)"

definition slowpath :: "labels \<Rightarrow> machine \<Rightarrow> syscall + word_t \<Rightarrow> kstate \<Rightarrow> kstate option" where
  "slowpath labels m call s =
     (case call of Inl syscall \<Rightarrow> handleSyscall labels m syscall s | Inr w \<Rightarrow> handleUnknownSyscall m w s)"

datatype trap = Trap_Interrupt | Trap_Exception word_t | Trap_Syscall "syscall + word_t"

definition kernel_entry :: "labels \<Rightarrow> machine \<Rightarrow> trap \<Rightarrow> kstate \<Rightarrow> kstate option" where
  "kernel_entry labels m trap s =
     (case trap of
        Trap_Interrupt \<Rightarrow> handleInterruptEntry m s
      | Trap_Exception scause \<Rightarrow> c_handle_exception m scause s
      | Trap_Syscall call \<Rightarrow> slowpath labels m call s)"

end
