(* ===== verification/MemFrame.thy ===== *)
theory MemFrame
  imports Delete
begin

text \<open>
  The part of the state that operations on threads, queues and time leave alone: capability slots,
  page tables, ASID pools, the address space register, the interrupt table and the priorities of threads.
\<close>

section \<open>The part\<close>

definition mem_state :: "kstate \<Rightarrow> kstate" where
  "mem_state s = zero_state\<lparr>ctes := ctes s, ptes := ptes s, asid_pools := asid_pools s, intStateIRQTable := intStateIRQTable s,
     intStateIRQNode := intStateIRQNode s, riscvKSASIDTable := riscvKSASIDTable s,
     kernel_root_pageTable := kernel_root_pageTable s, kernel_root_paddr := kernel_root_paddr s, satp := satp s,
     tcbs := \<lambda>t. zero_tcb\<lparr>tcbPriority := tcbPriority (tcbs s t), tcbMCP := tcbMCP (tcbs s t)\<rparr>\<rparr>"

lemma mem_stateD:
  assumes "mem_state s' = mem_state s"
  shows "ctes s' = ctes s" "ptes s' = ptes s" "asid_pools s' = asid_pools s" "intStateIRQTable s' = intStateIRQTable s"
    "intStateIRQNode s' = intStateIRQNode s" "riscvKSASIDTable s' = riscvKSASIDTable s" "satp s' = satp s"
    "kernel_root_paddr s' = kernel_root_paddr s" "kernel_root_pageTable s' = kernel_root_pageTable s"
  using arg_cong [OF assms, of ctes] arg_cong [OF assms, of ptes] arg_cong [OF assms, of asid_pools]
    arg_cong [OF assms, of intStateIRQTable] arg_cong [OF assms, of intStateIRQNode] arg_cong [OF assms, of riscvKSASIDTable]
    arg_cong [OF assms, of satp] arg_cong [OF assms, of kernel_root_paddr] arg_cong [OF assms, of kernel_root_pageTable]
  by (simp_all add: mem_state_def)

lemma mem_prio:
  assumes "mem_state s' = mem_state s"
  shows "tcbPriority (tcbs s' t) = tcbPriority (tcbs s t)" "tcbMCP (tcbs s' t) = tcbMCP (tcbs s t)"
  using arg_cong [OF assms, of "\<lambda>s. tcbPriority (tcbs s t)"] arg_cong [OF assms, of "\<lambda>s. tcbMCP (tcbs s t)"]
  by (simp_all add: mem_state_def)

lemma mem_of_core: "core_state s' = core_state s \<Longrightarrow> mem_state s' = mem_state s"
proof -
  have "mem_state (core_state s) = mem_state s" for s by (simp add: mem_state_def core_state_def core_tcb_def)
  then show "core_state s' = core_state s \<Longrightarrow> mem_state s' = mem_state s" by metis
qed

section \<open>Operations that keep it\<close>

lemma mem_upd_tcb [simp]:
  assumes "\<And>t. tcbPriority (f t) = tcbPriority t \<and> tcbMCP (f t) = tcbMCP t"
  shows "mem_state (upd_tcb p f s) = mem_state s"
proof -
  have "tcbPriority (tcbs (upd_tcb p f s) t) = tcbPriority (tcbs s t)" "tcbMCP (tcbs (upd_tcb p f s) t) = tcbMCP (tcbs s t)" for t
    using assms by (simp_all add: upd_tcb_def)
  then show ?thesis unfolding mem_state_def by (simp add: upd_tcb_def)
qed

lemma mem_upd [simp]:
  "mem_state (upd_ep p g s) = mem_state s" "mem_state (upd_ntfn p h s) = mem_state s"
  "mem_state (upd_sc p c s) = mem_state s" "mem_state (upd_reply p r s) = mem_state s"
  "mem_state (set_syscall_error e s) = mem_state s" "mem_state (set_user_word p w s) = mem_state s"
  by (simp_all add: mem_state_def upd_defs set_syscall_error_def set_user_word_def)

lemma mem_globals [simp]:
  "mem_state (s\<lparr>ksCurThread := a\<rparr>) = mem_state s" "mem_state (s\<lparr>ksReprogram := b\<rparr>) = mem_state s"
  "mem_state (s\<lparr>ksConsumed := c\<rparr>) = mem_state s" "mem_state (s\<lparr>ksSchedulerAction := a\<rparr>) = mem_state s"
  "mem_state (s\<lparr>current_fault := f\<rparr>) = mem_state s" "mem_state (s\<lparr>current_extra_caps := e\<rparr>) = mem_state s"
  "mem_state (s\<lparr>current_lookup_fault := l\<rparr>) = mem_state s" "mem_state (s\<lparr>ksCurTime := c\<rparr>) = mem_state s"
  "mem_state (s\<lparr>ksWorkUnitsCompleted := w\<rparr>) = mem_state s" "mem_state (s\<lparr>ksDomainTime := c\<rparr>) = mem_state s"
  by (simp_all add: mem_state_def)

lemma mem_core_ops [simp]:
  "mem_state (tcbSchedEnqueue t s) = mem_state s" "mem_state (tcbSchedAppend t s) = mem_state s"
  "mem_state (tcbSchedDequeue t s) = mem_state s" "mem_state (tcbReleaseRemove t s) = mem_state s"
  by (rule mem_of_core, simp)+

lemma mem_sched [simp]:
  "mem_state (rescheduleRequired s) = mem_state s" "mem_state (possibleSwitchTo t s) = mem_state s"
  "mem_state (scheduleTCB t s) = mem_state s" "mem_state (setThreadState t ts s) = mem_state s"
  "mem_state (setRegister t r w s) = mem_state s" "mem_state (updateRestartPC t s) = mem_state s"
  by (simp_all add: rescheduleRequired_def possibleSwitchTo_def scheduleTCB_def setThreadState_def set_tcb_defs
      setRegister_def updateRestartPC_def Let_def)

lemma mem_messages [simp]:
  "mem_state (snd (setMR t b off v s)) = mem_state s" "mem_state (replyFromKernel_consumed t c s) = mem_state s"
  "mem_state (setConsumed sc t w s) = mem_state s"
  by (simp_all add: setMR_def replyFromKernel_consumed_def mode_setTimeArg_def setConsumed_def schedContext_updateConsumed_def
      Let_def case_prod_beta)

lemma mem_sc [simp]:
  "mem_state (set_tcbSchedContext t sc s) = mem_state s" "mem_state (set_scTcb sc t s) = mem_state s"
  "mem_state (schedContext_unbindTCB sc s) = mem_state s" "mem_state (schedContext_unbindAllTCBs sc s) = mem_state s"
  "mem_state (schedContext_donate sc t s) = mem_state s" "mem_state (schedContext_unbindNtfn sc s) = mem_state s"
  "mem_state (schedContextMaybeUnbindNtfn n s) = mem_state s" "mem_state (schedContext_unbindReply sc s) = mem_state s"
  "mem_state (schedContext_cancelYieldTo t s) = mem_state s" "mem_state (schedContext_completeYieldTo t s) = mem_state s"
  by (simp_all add: set_tcbSchedContext_def set_scTcb_def schedContext_unbindTCB_def schedContext_unbindAllTCBs_def
      schedContext_donate_def schedContext_unbindNtfn_def schedContextMaybeUnbindNtfn_def schedContext_unbindReply_def
      schedContext_cancelYieldTo_def schedContext_completeYieldTo_def Let_def)

lemma mem_reply [simp]:
  "mem_state (reply_unlink r t s) = mem_state s" "mem_state (reply_pop r t s) = mem_state s"
  "mem_state (reply_remove r t s) = mem_state s" "mem_state (reply_remove_tcb t s) = mem_state s"
  by (simp_all add: reply_unlink_def reply_pop_def reply_remove_def reply_remove_tcb_def set_replyTCB_def set_replyPrev_def
      set_replyNext_def set_scReply_def set_tcb_defs Let_def)

lemma mem_ep_queue [simp]:
  "mem_state (snd (tcbEPDequeue t q s)) = mem_state s" "mem_state (ep_ptr_set_queue p q s) = mem_state s"
  "mem_state (endpoint_ptr_set_state p st s) = mem_state s" "mem_state (ntfn_ptr_set_queue n q s) = mem_state s"
  "mem_state (notification_ptr_set_state n nst s) = mem_state s" "mem_state (ep_reset p s) = mem_state s"
  by (simp_all add: tcbEPDequeue_def ep_ptr_set_queue_def endpoint_ptr_set_state_def ntfn_ptr_set_queue_def
      notification_ptr_set_state_def ep_reset_def set_tcb_defs Let_def)

lemma mem_cancel [simp]:
  "mem_state (cancelSignal t n s) = mem_state s" "mem_state (blockedIPCCancel t s) = mem_state s"
  "mem_state (cancelIPC t s) = mem_state s" "mem_state (suspend t s) = mem_state s"
  "mem_state (unbindNotification t s) = mem_state s" "mem_state (unbindMaybeNotification n s) = mem_state s"
  "mem_state (doUnbindNotification n t s) = mem_state s"
  by (simp_all add: cancelSignal_def blockedIPCCancel_def cancelIPC_def suspend_def unbindNotification_def
      unbindMaybeNotification_def doUnbindNotification_def set_tcb_defs Let_def case_prod_beta split: tsType.splits)

section \<open>Operations that may halt\<close>

lemma mem_sc_checks:
  "sc_refill_unblock_check p s = Some s' \<Longrightarrow> mem_state s' = mem_state s"
  "unblock_sporadic t s = Some s' \<Longrightarrow> mem_state s' = mem_state s"
proof -
  show u: "sc_refill_unblock_check p s = Some s' \<Longrightarrow> mem_state s' = mem_state s" for p
    by (auto simp: sc_refill_unblock_check_def split: option.splits)
  show "unblock_sporadic t s = Some s' \<Longrightarrow> mem_state s' = mem_state s"
    using u by (auto simp: unblock_sporadic_def split: if_splits)
qed

lemma mem_restart_thread: "restart_thread_if_no_fault t s = Some s' \<Longrightarrow> mem_state s' = mem_state s"
  by (auto simp: restart_thread_if_no_fault_def Let_def dest!: mem_sc_checks split: if_splits Option.bind_splits)

lemma mem_cancelAllIPC_loop: "cancelAllIPC_loop t s = Some s' \<Longrightarrow> mem_state s' = mem_state s"
proof (rule cancelAllIPC_loop.raw_induct [where P = "\<lambda>t s s'. mem_state s' = mem_state s"], goal_cases)
  case (1 loop t s s')
  then show ?case
    by (auto simp: Let_def dest!: mem_restart_thread split: if_splits Option.bind_splits)
qed

lemma mem_cancelAllSignals_loop: "cancelAllSignals_loop t s = Some s' \<Longrightarrow> mem_state s' = mem_state s"
proof (rule cancelAllSignals_loop.raw_induct [where P = "\<lambda>t s s'. mem_state s' = mem_state s"], goal_cases)
  case (1 loop t s s')
  then show ?case by (auto simp: Let_def dest!: mem_sc_checks split: if_splits Option.bind_splits)
qed

lemma mem_cancelBadgedSends_loop:
  "cancelBadgedSends_loop badge t q s = Some r \<Longrightarrow> mem_state (snd r) = mem_state s"
proof (rule cancelBadgedSends_loop.raw_induct [where P = "\<lambda>badge t q s r. mem_state (snd r) = mem_state s"], goal_cases)
  case (1 loop badge t q s r)
  show ?case
  proof (cases "t = 0")
    case False
    then obtain q' s1 where s1: "(if blockingIPCBadge (tcbState (tcbs s t)) = badge
          then map_option (tcbEPDequeue t q) (restart_thread_if_no_fault t s) else Some (q, s)) = Some (q', s1)"
      "loop badge (tcbEPNext (tcbs s t)) q' s1 = Some r"
      using 1(3) by (auto simp: Let_def split: Option.bind_splits)
    have "mem_state s1 = mem_state s"
      using s1(1) mem_ep_queue(1) [of t q] by (auto dest!: mem_restart_thread arg_cong [of _ "(q', s1)" snd] split: if_splits)
    then show ?thesis using 1(2) [OF s1(2)] by simp
  qed (use 1(3) in auto)
qed

lemma mem_cancel_all:
  "cancelAllIPC p s = Some s' \<Longrightarrow> mem_state s' = mem_state s"
  "cancelAllSignals n s = Some s' \<Longrightarrow> mem_state s' = mem_state s"
  "cancelBadgedSends p badge s = Some s' \<Longrightarrow> mem_state s' = mem_state s"
proof -
  show "cancelAllIPC p s = Some s' \<Longrightarrow> mem_state s' = mem_state s"
    by (auto simp: cancelAllIPC_def dest!: mem_cancelAllIPC_loop split: endpoint_state.splits)
  show "cancelAllSignals n s = Some s' \<Longrightarrow> mem_state s' = mem_state s"
    by (auto simp: cancelAllSignals_def Let_def dest!: mem_cancelAllSignals_loop split: if_splits Option.bind_splits)
  show "cancelBadgedSends p badge s = Some s' \<Longrightarrow> mem_state s' = mem_state s"
    by (auto simp: cancelBadgedSends_def Let_def dest!: mem_cancelBadgedSends_loop
        split: endpoint_state.splits Option.bind_splits)
qed

section \<open>Finalising\<close>

lemma mem_finalise [simp]:
  "mem_state (finalise_thread t s) = mem_state s" "mem_state (finalise_sched_context sc s) = mem_state s"
  by (simp_all add: finalise_thread_def finalise_sched_context_def Let_def)

lemma mem_finalise_reply: "finalise_reply r s = Some s' \<Longrightarrow> mem_state s' = mem_state s"
  by (auto simp: finalise_reply_def Let_def split: if_splits tsType.splits)

lemma mem_preempt: "preempt env k s = (e, k', s') \<Longrightarrow> mem_state s' = mem_state s"
  by (auto simp: preempt_def preemptionPoint_def updateTimestamp_def Let_def split: if_splits)

end
