(* ===== verification/DeleteInv.thy ===== *)
theory DeleteInv
  imports MemFrame
begin

text \<open>
  What deletion keeps, on every outcome: the capability derivation lists, the address space
  register, and the shape of the capabilities it takes apart.
\<close>

section \<open>The invariant\<close>

text \<open>
  The slots of a CNode or TCB that is being deleted are not null pointers, nor is the slot of an
  interrupt, once there is a capability to control or handle interrupts. The slots that a CNode
  capability gives access to are not the kernel's own slots for interrupts. An ASID pool starts
  at a multiple of its size.
\<close>

definition irq_slots :: "word_t \<Rightarrow> word_t set" where
  "irq_slots irqNode = slot_at irqNode ` {irq. irq \<le> maxIRQ}"

definition cnode_slots_ok :: "word_t \<Rightarrow> word_t \<Rightarrow> word_t \<Rightarrow> bool" where
  "cnode_slots_ok irqNode radix ptr \<longleftrightarrow>
     (\<forall>i. i AND MASK (unat radix) = i \<longrightarrow> slot_at ptr i \<noteq> 0 \<and> slot_at ptr i \<notin> irq_slots irqNode)"

definition zombie_ok :: "cap \<Rightarrow> bool" where
  "zombie_ok c \<longleftrightarrow> (\<forall>i < cap_zombie_cap_get_capZombieNumber c. slot_at (cap_zombie_cap_get_capZombiePtr c) i \<noteq> 0)"

definition cap_slots_ok :: "word_t \<Rightarrow> cap \<Rightarrow> bool" where
  "cap_slots_ok irqNode c \<longleftrightarrow>
     (case c of
        cap_cnode_cap radix _ _ ptr \<Rightarrow>
          zombie_ok (Zombie_new (push_bit (unat radix) 1) radix ptr) \<and> cnode_slots_ok irqNode radix ptr
      | cap_thread_cap tcb \<Rightarrow> zombie_ok (Zombie_new tcbCNodeEntries ZombieType_ZombieTCB (TCB_PTR_CTE_PTR tcb tcbCTable))
      | cap_zombie_cap _ _ \<Rightarrow> zombie_ok c
      | cap_irq_handler_cap irq \<Rightarrow> irq \<le> maxIRQ \<and> slot_at irqNode irq \<noteq> 0
      | cap_irq_control_cap \<Rightarrow> 0 \<notin> irq_slots irqNode
      | cap_asid_pool_cap base _ \<Rightarrow> ASID_LOW base = 0
      | _ \<Rightarrow> True)"

definition caps_ok :: "kstate \<Rightarrow> bool" where
  "caps_ok s \<longleftrightarrow> (\<forall>p. cap_slots_ok (intStateIRQNode s) (cap_at s p))"

text \<open>No thread has a priority, or may give one, above \<open>B\<close>.\<close>

definition prios_within :: "word_t \<Rightarrow> kstate \<Rightarrow> bool" where
  "prios_within B s \<longleftrightarrow> (\<forall>t. tcbPriority (tcbs s t) \<le> B \<and> tcbMCP (tcbs s t) \<le> B)"

definition del_inv :: "word_t \<Rightarrow> kstate \<Rightarrow> bool" where
  "del_inv B s \<longleftrightarrow> (\<exists>CS. mdb_ok CS s) \<and> caps_ok s \<and> satp_registered s \<and> prios_within B s"

lemma prios_within_tcbs: "tcbs s' = tcbs s \<Longrightarrow> prios_within B s' = prios_within B s"
  by (simp add: prios_within_def)

lemma prios_within_top: "prios_within (- 1) s"
  by (simp add: prios_within_def word_order.extremum)

lemma mdb_ok_ctes: "ctes s' = ctes s \<Longrightarrow> mdb_ok CS s' = mdb_ok CS s"
  by (simp add: mdb_ok_def mdb_next_def [abs_def] mdb_prev_def [abs_def] live_slots_def cap_at_def)

lemma del_inv_cong_prio:
  assumes "ctes s' = ctes s" "intStateIRQNode s' = intStateIRQNode s" "satp s' = satp s"
    "kernel_root_paddr s' = kernel_root_paddr s" "asid_pools s' = asid_pools s" "riscvKSASIDTable s' = riscvKSASIDTable s"
    "prios_within B s' = prios_within B s"
  shows "del_inv B s' = del_inv B s"
  using assms satp_registered_cong [OF assms(3,4) asid_root_cong [OF assms(6,5)]]
  by (simp add: del_inv_def mdb_ok_ctes [OF assms(1)] caps_ok_def cap_at_def)

lemma del_inv_cong:
  assumes "ctes s' = ctes s" "intStateIRQNode s' = intStateIRQNode s" "satp s' = satp s"
    "kernel_root_paddr s' = kernel_root_paddr s" "asid_pools s' = asid_pools s" "riscvKSASIDTable s' = riscvKSASIDTable s"
    "tcbs s' = tcbs s"
  shows "del_inv B s' = del_inv B s"
  by (rule del_inv_cong_prio [OF assms(1-6) prios_within_tcbs [OF assms(7)]])

lemma del_inv_mem:
  assumes "mem_state s' = mem_state s"
  shows "del_inv B s' = del_inv B s"
  by (rule del_inv_cong_prio [OF mem_stateD(1,5,7,8,3,6) [OF assms]]) (simp add: prios_within_def mem_prio [OF assms])

lemma cap_slots_ok_null [simp]: "cap_slots_ok n cap_null_cap"
  by (simp add: cap_slots_ok_def)

section \<open>Changes to slots\<close>

lemma cte_ops_mem:
  assumes "s'\<lparr>ctes := m, intStateIRQTable := i\<rparr> = s\<lparr>ctes := m, intStateIRQTable := i\<rparr>"
  shows "satp_registered s' = satp_registered s" "intStateIRQNode s' = intStateIRQNode s" "prios_within B s' = prios_within B s"
proof -
  have "satp s' = satp s" "kernel_root_paddr s' = kernel_root_paddr s" "asid_pools s' = asid_pools s"
    "riscvKSASIDTable s' = riscvKSASIDTable s" and i: "intStateIRQNode s' = intStateIRQNode s"
    using arg_cong [OF assms, of satp] arg_cong [OF assms, of kernel_root_paddr] arg_cong [OF assms, of asid_pools]
      arg_cong [OF assms, of riscvKSASIDTable] arg_cong [OF assms, of intStateIRQNode] by simp_all
  then show "satp_registered s' = satp_registered s" by (intro satp_registered_cong asid_root_cong)
  show "intStateIRQNode s' = intStateIRQNode s" by (rule i)
  show "prios_within B s' = prios_within B s" using arg_cong [OF assms, of tcbs] by (simp add: prios_within_def)
qed

lemma del_inv_set:
  assumes "del_inv B s" "p \<noteq> 0" "cap_at s p \<noteq> cap_null_cap" "c \<noteq> cap_null_cap" "cap_slots_ok (intStateIRQNode s) c"
  shows "del_inv B (set_cap p c s)"
proof -
  have "live_slots (set_cap p c s) = live_slots s" using assms(2-4) by (auto simp: live_slots_def)
  then have "mdb_ok CS (set_cap p c s) = mdb_ok CS s" for CS by (simp add: mdb_ok_def)
  moreover have "caps_ok (set_cap p c s)"
    using assms(1,5) unfolding del_inv_def caps_ok_def by (simp add: set_cap_def upd_cte_def cap_at_def)
  moreover have "satp_registered (set_cap p c s) = satp_registered s" "prios_within B (set_cap p c s) = prios_within B s"
    by (rule cte_ops_mem, simp)+
  ultimately show ?thesis using assms(1) by (simp add: del_inv_def)
qed

lemma del_inv_empty:
  assumes "del_inv B s" "p \<noteq> 0"
  shows "del_inv B (emptySlot p info s)" "cap_at (emptySlot p info s) p = cap_null_cap"
proof -
  show "cap_at (emptySlot p info s) p = cap_null_cap"
    using emptySlot_links(3) [of s p info] by (cases "cap_at s p = cap_null_cap") (simp_all add: emptySlot_def mdb_fields)
  show "del_inv B (emptySlot p info s)"
  proof (cases "cap_at s p = cap_null_cap")
    case True
    then show ?thesis using assms(1) by (simp add: emptySlot_def mdb_fields)
  next
    case False
    have "\<exists>CS. mdb_ok CS (emptySlot p info s)"
      using assms cap_step_mdb_ok [OF cap_step.empty [OF assms(2)]] unfolding del_inv_def by blast
    moreover have "caps_ok (emptySlot p info s)"
      using assms(1) cte_ops_mem(2) [OF emptySlot_frame(1) [OF False]]
      unfolding del_inv_def caps_ok_def by (simp add: emptySlot_links(3) [OF False])
    ultimately show ?thesis
      using assms(1) cte_ops_mem(1,3) [OF emptySlot_frame(1) [OF False]] by (simp add: del_inv_def)
  qed
qed

lemma del_inv_swap:
  assumes "del_inv B s" "p \<noteq> 0" "q \<noteq> 0"
  shows "del_inv B (capSwapForDelete p q s)"
proof (cases "p = q")
  case False
  have "\<exists>CS. mdb_ok CS (capSwapForDelete p q s)"
    using assms(1) cap_step_mdb_ok [OF cap_step.swap [OF assms(2,3)]] unfolding del_inv_def by blast
  moreover have f: "(capSwapForDelete p q s)\<lparr>ctes := m, intStateIRQTable := i\<rparr> = s\<lparr>ctes := m, intStateIRQTable := i\<rparr>" for m i
    using cte_ops_frame(3) [where m = m] False by (metis capSwapForDelete_def)
  moreover have "caps_ok (capSwapForDelete p q s)"
    using assms(1) False cte_ops_mem(2) [OF f]
    unfolding del_inv_def caps_ok_def by (simp add: capSwapForDelete_def cap_at_swap mdb_fields)
  ultimately show ?thesis using assms(1) cte_ops_mem(1,3) [OF f] by (simp add: del_inv_def)
qed (use assms in \<open>simp add: capSwapForDelete_def\<close>)

section \<open>Finalising\<close>

lemma del_inv_vm:
  assumes "del_inv B s"
  shows "del_inv B (unmapPage sz asid v b s)" "unmapPageTable asid v pt s = Some s' \<Longrightarrow> del_inv B s'"
    "del_inv B (deleteASID asid root s)" "del_inv B (deleteASIDPool base pool s)"
    "findVSpaceForASID asid s = (r, s') \<Longrightarrow> del_inv B s'"
proof -
  have f: "del_inv B (s\<lparr>current_lookup_fault := l\<rparr>)" "del_inv B (upd_pte p e s)" "del_inv B (upd_pte p e (s\<lparr>current_lookup_fault := l\<rparr>))" for l p e
    using assms del_inv_cong [of "s\<lparr>current_lookup_fault := l\<rparr>" s] del_inv_cong [of "upd_pte p e s" s]
      del_inv_cong [of "upd_pte p e (s\<lparr>current_lookup_fault := l\<rparr>)" s] by (simp_all add: upd_pte_def)
  show "findVSpaceForASID asid s = (r, s') \<Longrightarrow> del_inv B s'"
    using assms f(1) by (auto simp: findVSpaceForASID_eq split: option.splits)
  show "del_inv B (unmapPage sz asid v b s)"
    using assms f by (simp add: unmapPage_def findVSpaceForASID_eq Let_def split: option.splits)
  show "unmapPageTable asid v pt s = Some s' \<Longrightarrow> del_inv B s'"
    using assms f by (auto simp: unmapPageTable_def findVSpaceForASID_eq Let_def split: option.splits if_splits)
  have vm: "del_inv B (setVMRoot t s')" if "ctes s' = ctes s" "intStateIRQNode s' = intStateIRQNode s" "tcbs s' = tcbs s" for t s'
    using assms setVMRoot_registered [of t s'] that mdb_ok_ctes [of "setVMRoot t s'" s] prios_within_tcbs [of "setVMRoot t s'" s]
    unfolding del_inv_def caps_ok_def
    by (simp add: cap_at_def)
  show "del_inv B (deleteASID asid root s)" "del_inv B (deleteASIDPool base pool s)"
    using assms vm by (simp_all add: deleteASID_def deleteASIDPool_def set_asid_entry_def Let_def)
qed

lemma del_inv_Arch_finaliseCap:
  assumes "del_inv B s" "Arch_finaliseCap c final s = Some (r, s')"
  shows "del_inv B s'" "r = no_remainder"
proof -
  obtain s1 where s1: "(case c of
         cap_frame_cap asid base sz _ _ vaddr \<Rightarrow> Some (if asid \<noteq> 0 then unmapPage sz asid vaddr base s else s)
       | cap_page_table_cap asid base isMapped vaddr \<Rightarrow>
           if final \<and> isMapped then
             let (find_ret, s) = findVSpaceForASID asid s
             in if fv_status find_ret = EXCEPTION_NONE \<and> vspace_root find_ret = base
                then Some (deleteASID asid base s) else unmapPageTable asid vaddr base s
           else Some s
       | cap_asid_pool_cap base pool \<Rightarrow> Some (if final then deleteASIDPool base pool s else s)
       | _ \<Rightarrow> Some s) = Some s1" "r = no_remainder" "s' = s1"
    using assms(2) unfolding Arch_finaliseCap_def by (auto split: Option.bind_splits)
  have pt: "del_inv B s1" if "findVSpaceForASID asid s = (f, s0)"
    "(if fv_status f = EXCEPTION_NONE \<and> vspace_root f = base then Some (deleteASID asid base s0)
      else unmapPageTable asid vaddr base s0) = Some s1" for asid f s0 base vaddr
    using del_inv_vm(2,3) [OF del_inv_vm(5) [OF assms(1) that(1)]] that(2) by (auto split: if_splits)
  show "del_inv B s'"
    using s1(1) assms(1) del_inv_vm [OF assms(1)] pt unfolding s1(3)
    by (cases c) (auto simp: Let_def split: if_splits prod.splits)
  show "r = no_remainder" by (rule s1(2))
qed

lemma del_inv_finaliseCap_now:
  assumes "del_inv B s" "finaliseCap_now c final s = Some (r, s')"
  shows "del_inv B s'" "r = no_remainder"
proof -
  have "del_inv B s' \<and> r = no_remainder"
  proof (cases "isArchCap c")
    case True
    then show ?thesis using assms del_inv_Arch_finaliseCap by (simp add: finaliseCap_now_def)
  next
    case False
    then obtain s1 where s1: "(case c of
            cap_endpoint_cap _ _ _ _ _ epptr \<Rightarrow> if final then cancelAllIPC epptr s else Some s
          | cap_notification_cap _ _ _ ntfn \<Rightarrow>
              if final then cancelAllSignals ntfn (unbindMaybeNotification ntfn (schedContextMaybeUnbindNtfn ntfn s)) else Some s
          | cap_reply_cap reply _ \<Rightarrow> if final then finalise_reply reply s else Some s
          | _ \<Rightarrow> Some s) = Some s1" "r = no_remainder" "s' = s1"
      using assms(2) unfolding finaliseCap_now_def by (auto split: Option.bind_splits)
    have "mem_state s1 = mem_state s"
    proof (cases c)
      case (cap_endpoint_cap _ _ _ _ _ p)
      then show ?thesis using s1(1) mem_cancel_all(1) [of p s s1] by (simp split: if_splits)
    next
      case (cap_notification_cap _ _ _ n)
      then show ?thesis
        using s1(1) mem_cancel_all(2) [of n "unbindMaybeNotification n (schedContextMaybeUnbindNtfn n s)" s1] by (simp split: if_splits)
    next
      case (cap_reply_cap r _)
      then show ?thesis using s1(1) mem_finalise_reply [of r s s1] by (simp split: if_splits)
    qed (use s1(1) in simp_all)
    from del_inv_mem [OF this] show ?thesis using s1(2,3) assms(1) by simp
  qed
  then show "del_inv B s'" "r = no_remainder" by blast+
qed

lemma del_inv_cteDeleteOne:
  assumes "del_inv B s" "p \<noteq> 0" "cteDeleteOne p s = Some s'"
  shows "del_inv B s'" "cap_at s' p = cap_null_cap"
proof -
  have "del_inv B s' \<and> cap_at s' p = cap_null_cap"
  proof (cases "cte_cap (ctes s p) = cap_null_cap")
    case True
    then show ?thesis using assms by (simp add: cteDeleteOne_def cap_at_def)
  next
    case False
    then obtain r s1 where "finaliseCap_now (cte_cap (ctes s p)) (isFinalCapability p s) s = Some (r, s1)"
      and s': "s' = emptySlot p cap_null_cap s1"
      using assms(3) by (auto simp: cteDeleteOne_def Let_def split: if_splits Option.bind_splits)
    then show ?thesis using del_inv_empty [OF del_inv_finaliseCap_now(1) [OF assms(1)] assms(2)] by simp
  qed
  then show "del_inv B s'" "cap_at s' p = cap_null_cap" by blast+
qed

lemma cap_slots_ok_at: "del_inv B s \<Longrightarrow> cap_slots_ok (intStateIRQNode s) (cap_at s p)"
  by (simp add: del_inv_def caps_ok_def)

text \<open>A remainder is a zombie, for which nothing but threads changed; or there is none.\<close>

lemma del_inv_finaliseCap:
  assumes "del_inv B s" "finaliseCap (cap_at s p) final exposed s = Some (r, s')"
  shows "del_inv B s'"
    and "remainder r = cap_null_cap \<or>
      is_cap_zombie_cap (remainder r) \<and> zombie_ok (remainder r) \<and> mem_state s' = mem_state s"
proof -
  have z: "is_cap_zombie_cap (Zombie_new n t q)" for n t q by (simp add: Zombie_new_def Let_def)
  have "del_inv B s' \<and> (remainder r = cap_null_cap \<or>
      is_cap_zombie_cap (remainder r) \<and> zombie_ok (remainder r) \<and> mem_state s' = mem_state s)"
  proof (cases "finalises_now (cap_at s p)")
    case True
    then have "finaliseCap_now (cap_at s p) final s = Some (r, s')" using assms(2) by (simp add: finaliseCap_def)
    from del_inv_finaliseCap_now [OF assms(1) this] show ?thesis by (simp add: no_remainder_def)
  next
    case False
    note ok = cap_slots_ok_at [OF assms(1), of p] and d = assms(2)
    show ?thesis
    proof (cases "cap_at s p")
      case (cap_irq_handler_cap irq)
      then have "slot_at (intStateIRQNode s) irq \<noteq> 0" using ok by (simp add: cap_slots_ok_def)
      then show ?thesis using d False assms(1) cap_irq_handler_cap del_inv_cteDeleteOne
        by (auto simp: finaliseCap_def deletingIRQHandler_def no_remainder_def split: if_splits Option.bind_splits)
    qed (use d False assms(1) ok z in \<open>auto simp: finaliseCap_def no_remainder_def cap_slots_ok_def del_inv_mem [OF mem_finalise(1)]
        del_inv_mem [OF mem_finalise(2)] split: if_splits\<close>)
  qed
  then show "del_inv B s'" "remainder r = cap_null_cap \<or>
      is_cap_zombie_cap (remainder r) \<and> zombie_ok (remainder r) \<and> mem_state s' = mem_state s" by blast+
qed

section \<open>Reducing zombies\<close>

lemma mask_parts:
  fixes x y :: word_t
  shows "((x AND NOT (MASK n)) OR (y AND MASK n)) AND MASK n = y AND MASK n"
    "((x AND NOT (MASK n)) OR (y AND MASK n)) AND NOT (MASK n) = x AND NOT (MASK n)"
  by (rule bit_word_eqI, simp only: bit_or_iff and_mask_bits and_not_mask_bits, auto)+

lemma zombie_ok_dec:
  assumes "is_cap_zombie_cap c" "zombie_ok c" "cap_zombie_cap_get_capZombieNumber c \<noteq> 0"
  shows "zombie_ok (cap_zombie_cap_set_capZombieNumber c (cap_zombie_cap_get_capZombieNumber c - 1))"
    and "is_cap_zombie_cap (cap_zombie_cap_set_capZombieNumber c m)"
proof -
  let ?n = "cap_zombie_cap_get_capZombieNumber c" and ?b = "cap_zombie_cap_get_capZombieBits c"
  let ?c = "cap_zombie_cap_set_capZombieNumber c (?n - 1)"
  have b: "cap_zombie_cap_get_capZombieBits (cap_zombie_cap_set_capZombieNumber c m) = ?b" for m
    by (simp add: cap_zombie_cap_set_capZombieNumber_def cap_zombie_cap_get_capZombieBits_def Let_def)
  have lt: "?n - 1 < ?n" using assms(3) by (simp add: word_less_nat_alt unat_minus_one unat_gt_0)
  have "unat ?n < 2 ^ (?b + 1)" by (simp add: cap_zombie_cap_get_capZombieNumber_def unat_and_MASK)
  then have "unat (?n - 1) < 2 ^ (?b + 1)" using lt by (simp add: word_less_nat_alt)
  then have m: "(?n - 1) AND MASK (?b + 1) = ?n - 1" by (rule and_mask_less)
  have "cap_zombie_cap_get_capZombieNumber ?c = ?n - 1"
    unfolding cap_zombie_cap_get_capZombieNumber_def [of ?c] Let_def b
    by (simp only: cap_zombie_cap_set_capZombieNumber_def Let_def cap.sel mask_parts(1)) (rule m)
  moreover have "cap_zombie_cap_get_capZombiePtr ?c = cap_zombie_cap_get_capZombiePtr c"
    unfolding cap_zombie_cap_get_capZombiePtr_def Let_def b
    by (simp only: cap_zombie_cap_set_capZombieNumber_def Let_def cap.sel mask_parts(2))
  ultimately show "zombie_ok ?c" using assms(2) lt unfolding zombie_ok_def by (metis less_trans)
  show "is_cap_zombie_cap (cap_zombie_cap_set_capZombieNumber c m)" by (simp add: cap_zombie_cap_set_capZombieNumber_def Let_def)
qed

definition reduces :: "word_t \<Rightarrow> (word_t \<Rightarrow> nat \<Rightarrow> kstate \<Rightarrow> (exception \<times> nat \<times> kstate) option) \<Rightarrow> bool" where
  "reduces B reduce \<longleftrightarrow> (\<forall>slot k s e k' s'. reduce slot k s = Some (e, k', s') \<longrightarrow> del_inv B s \<longrightarrow> slot \<noteq> 0 \<longrightarrow>
     is_cap_zombie_cap (cap_at s slot) \<longrightarrow> cap_zombie_cap_get_capZombieNumber (cap_at s slot) \<noteq> 0 \<longrightarrow> del_inv B s')"

lemma zombie_ok_at: "del_inv B s \<Longrightarrow> is_cap_zombie_cap (cap_at s p) \<Longrightarrow> zombie_ok (cap_at s p)"
  using cap_slots_ok_at [of B s p] by (cases "cap_at s p") (simp_all add: cap_slots_ok_def)

lemma zombie_ptr_nonnull:
  assumes "zombie_ok c" "cap_zombie_cap_get_capZombieNumber c \<noteq> 0"
  shows "cap_zombie_cap_get_capZombiePtr c \<noteq> 0"
    and "slot_at (cap_zombie_cap_get_capZombiePtr c) (cap_zombie_cap_get_capZombieNumber c - 1) \<noteq> 0"
proof -
  have "0 < cap_zombie_cap_get_capZombieNumber c" using assms(2) by (simp add: word_neq_0_conv)
  then show "cap_zombie_cap_get_capZombiePtr c \<noteq> 0" using assms(1) unfolding zombie_ok_def slot_at_def by force
  have "cap_zombie_cap_get_capZombieNumber c - 1 < cap_zombie_cap_get_capZombieNumber c"
    using assms(2) by (simp add: word_less_nat_alt unat_minus_one unat_gt_0)
  then show "slot_at (cap_zombie_cap_get_capZombiePtr c) (cap_zombie_cap_get_capZombieNumber c - 1) \<noteq> 0"
    using assms(1) unfolding zombie_ok_def by blast
qed

lemma reduces_swap: "reduces B reduceZombie_swap"
  unfolding reduces_def reduceZombie_swap_def
  using del_inv_swap zombie_ok_at zombie_ptr_nonnull(1) by (auto simp: cap_at_def)

section \<open>The loops\<close>

lemma capRemovable_False:
  "capRemovable c p = Some False \<Longrightarrow> is_cap_zombie_cap c \<and> cap_zombie_cap_get_capZombieNumber c \<noteq> 0"
  by (cases c) (auto simp: capRemovable_def Let_def)

lemma finaliseSlot_step:
  assumes "del_inv B s" "slot \<noteq> 0" "cap_at s slot \<noteq> cap_null_cap"
    and "finaliseCap (cap_at s slot) (isFinalCapability slot s) False s = Some (fc, s1)"
    and "capRemovable (remainder fc) slot = Some False"
  shows "del_inv B (set_cap slot (remainder fc) s1)" "is_cap_zombie_cap (cap_at (set_cap slot (remainder fc) s1) slot)"
    "cap_zombie_cap_get_capZombieNumber (cap_at (set_cap slot (remainder fc) s1) slot) \<noteq> 0"
proof -
  note r = capRemovable_False [OF assms(5)] and f = del_inv_finaliseCap [OF assms(1,4)]
  then have z: "is_cap_zombie_cap (remainder fc)" "zombie_ok (remainder fc)" "mem_state s1 = mem_state s" by auto
  have "cap_at s1 slot \<noteq> cap_null_cap" using mem_stateD(1) [OF z(3)] assms(3) by (simp add: cap_at_def)
  moreover have "cap_slots_ok n (remainder fc)" for n using z by (cases "remainder fc") (simp_all add: cap_slots_ok_def)
  ultimately show "del_inv B (set_cap slot (remainder fc) s1)"
    using f(1) assms(2) z(1) by (intro del_inv_set) auto
  show "is_cap_zombie_cap (cap_at (set_cap slot (remainder fc) s1) slot)"
    "cap_zombie_cap_get_capZombieNumber (cap_at (set_cap slot (remainder fc) s1) slot) \<noteq> 0" using r by simp_all
qed

lemma del_inv_finaliseSlot_loop:
  assumes "finaliseSlot_loop reduce env slot imm k s = Some r" "reduces B reduce" "del_inv B s" "slot \<noteq> 0"
  shows "del_inv B (snd (snd r))"
proof -
  let ?P = "\<lambda>reduce env slot imm k s r. reduces B reduce \<longrightarrow> del_inv B s \<longrightarrow> slot \<noteq> 0 \<longrightarrow> del_inv B (snd (snd r))"
  have "?P reduce env slot imm k s r"
  proof (rule finaliseSlot_loop.raw_induct [where P = ?P, OF _ assms(1)], intro impI, goal_cases)
    case (1 loop reduce env slot imm k s r)
    note IH = 1(1) and body = 1(2) and red = 1(3) and inv = 1(4) and slot = 1(5)
    show ?case
    proof (cases "cap_at s slot = cap_null_cap")
      case False
      then obtain fc s1 rem where fc: "finaliseCap (cap_at s slot) (isFinalCapability slot s) False s = Some (fc, s1)"
        "capRemovable (remainder fc) slot = Some rem"
        using body by (auto simp: cap_at_def split: Option.bind_splits)
      show ?thesis
      proof (cases rem)
        case True
        then show ?thesis using body False fc del_inv_finaliseCap(1) [OF inv fc(1)] by (auto simp: cap_at_def)
      next
        case rem: False
        then have "capRemovable (remainder fc) slot = Some False" using fc(2) by simp
        note st = finaliseSlot_step [OF inv slot False fc(1) this]
        show ?thesis
        proof (cases "\<not> imm \<and> capCyclicZombie (remainder fc) slot")
          case True
          then show ?thesis using body False fc rem st(1) by (auto simp: cap_at_def)
        next
          case nc: False
          then obtain e2 k2 s2 where s2: "reduce slot k (set_cap slot (remainder fc) s1) = Some (e2, k2, s2)"
            using body False fc rem by (auto simp: cap_at_def split: Option.bind_splits)
          then have i2: "del_inv B s2" using red st slot unfolding reduces_def by blast
          obtain e3 k3 s3 where s3: "preempt env k2 s2 = (e3, k3, s3)" by (cases "preempt env k2 s2") auto
          have i3: "del_inv B s3" using i2 del_inv_mem [OF mem_preempt [OF s3]] by simp
          have "snd (snd r) = s2 \<or> snd (snd r) = s3 \<or> loop reduce env slot imm k3 s3 = Some r"
            using body False fc rem nc s2 s3 by (auto simp: cap_at_def split: if_splits)
          then show ?thesis using i2 i3 IH [of reduce env slot imm k3 s3 r] red slot by auto
        qed
      qed
    qed (use body inv in \<open>auto simp: cap_at_def\<close>)
  qed
  then show ?thesis using assms(2-4) by blast
qed

lemma del_inv_delete_with:
  assumes "delete_with reduce env slot exposed k s = Some (e, k', s')" "reduces B reduce" "del_inv B s" "slot \<noteq> 0"
  shows "del_inv B s'" and "e = EXCEPTION_NONE \<Longrightarrow> exposed \<Longrightarrow> cap_at s' slot = cap_null_cap"
proof -
  obtain fs k1 s1 where f: "finaliseSlot_loop reduce env slot exposed k s = Some (fs, k1, s1)"
    using assms(1) by (auto simp: delete_with_def split: Option.bind_splits)
  have i: "del_inv B s1" using del_inv_finaliseSlot_loop [OF f assms(2-4)] by simp
  have d: "(e, k', s') = (if fs_status fs \<noteq> EXCEPTION_NONE then (fs_status fs, k1, s1)
      else (EXCEPTION_NONE, k1, if exposed \<or> fs_success fs then emptySlot slot (fs_cleanupInfo fs) s1 else s1))"
    using assms(1) f by (simp add: delete_with_def)
  show "del_inv B s'" using d i del_inv_empty(1) [OF i assms(4)] by (auto split: if_splits)
  show "e = EXCEPTION_NONE \<Longrightarrow> exposed \<Longrightarrow> cap_at s' slot = cap_null_cap"
    using d del_inv_empty(2) [OF i assms(4)] by (auto split: if_splits)
qed

lemma reduces_delete: "reduces B (reduceZombie_delete env)"
  unfolding reduces_def
proof (intro allI impI)
  fix slot k s e k' s'
  assume r: "reduceZombie_delete env slot k s = Some (e, k', s')" and i: "del_inv B s" "slot \<noteq> 0"
    and z: "is_cap_zombie_cap (cap_at s slot)" "cap_zombie_cap_get_capZombieNumber (cap_at s slot) \<noteq> 0"
  let ?c = "cap_at s slot"
  let ?n = "cap_zombie_cap_get_capZombieNumber ?c" and ?ptr = "cap_zombie_cap_get_capZombiePtr ?c"
  obtain e1 k1 s1 where d: "delete_with reduceZombie_swap env (slot_at ?ptr (?n - 1)) False k s = Some (e1, k1, s1)"
    using r by (auto simp: reduceZombie_delete_def cap_at_def Let_def split: Option.bind_splits)
  have i1: "del_inv B s1"
    using del_inv_delete_with(1) [OF d reduces_swap i(1)] zombie_ptr_nonnull(2) [OF zombie_ok_at [OF i(1) z(1)] z(2)] by blast
  have "s' = s1 \<or> is_cap_zombie_cap (cap_at s1 slot) \<and> cap_zombie_cap_get_capZombieNumber (cap_at s1 slot) = ?n \<and>
      s' = set_cap slot (cap_zombie_cap_set_capZombieNumber (cap_at s1 slot) (?n - 1)) s1"
    using r d by (auto simp: reduceZombie_delete_def cap_at_def Let_def split: Option.bind_splits if_splits cap.splits)
  then show "del_inv B s'"
  proof
    assume c: "is_cap_zombie_cap (cap_at s1 slot) \<and> cap_zombie_cap_get_capZombieNumber (cap_at s1 slot) = ?n \<and>
      s' = set_cap slot (cap_zombie_cap_set_capZombieNumber (cap_at s1 slot) (?n - 1)) s1"
    let ?d = "cap_zombie_cap_set_capZombieNumber (cap_at s1 slot) (?n - 1)"
    have "zombie_ok ?d" "is_cap_zombie_cap ?d"
      using zombie_ok_dec [OF _ zombie_ok_at [OF i1]] c z(2) by metis+
    then have "cap_slots_ok m ?d" for m by (cases ?d) (simp_all add: cap_slots_ok_def)
    then show "del_inv B s'" using c i1 i(2) \<open>is_cap_zombie_cap ?d\<close> del_inv_set [of B s1 slot ?d] by auto
  qed (use i1 in simp)
qed

lemma reduces_reduceZombie: "reduces B (\<lambda>slot. reduceZombie env slot imm)"
  using reduces_delete [of B env] reduces_swap by (cases imm) (simp_all add: reduceZombie_def [abs_def])

lemma del_inv_cteDelete:
  assumes "cteDelete env slot exposed k s = Some (e, k', s')" "del_inv B s" "slot \<noteq> 0"
  shows "del_inv B s'" and "e = EXCEPTION_NONE \<Longrightarrow> exposed \<Longrightarrow> cap_at s' slot = cap_null_cap"
  using del_inv_delete_with [OF assms(1) [unfolded cteDelete_with] reduces_reduceZombie assms(2,3)] by blast+

text \<open>A complete revocation leaves no child behind: the capability after the slot is not derived from it.\<close>

lemma del_inv_cteRevoke:
  assumes "cteRevoke env slot k s = Some r" "del_inv B s"
  shows "del_inv B (snd (snd r)) \<and> (fst r = EXCEPTION_NONE \<longrightarrow>
    mdb_next (snd (snd r)) slot = 0 \<or> \<not> isMDBParentOf slot (mdb_next (snd (snd r)) slot) (snd (snd r)))"
proof -
  let ?P = "\<lambda>env slot k s r. del_inv B s \<longrightarrow> del_inv B (snd (snd r)) \<and> (fst r = EXCEPTION_NONE \<longrightarrow>
    mdb_next (snd (snd r)) slot = 0 \<or> \<not> isMDBParentOf slot (mdb_next (snd (snd r)) slot) (snd (snd r)))"
  have "?P env slot k s r"
  proof (rule cteRevoke.raw_induct [where P = ?P, OF _ assms(1)], intro impI, goal_cases)
    case (1 loop env slot k s r)
    let ?p = "mdb_next s slot"
    show ?case
    proof (cases "?p \<noteq> 0 \<and> isMDBParentOf slot ?p s")
      case True
      then obtain e1 k1 s1 where d: "cteDelete env ?p True k s = Some (e1, k1, s1)"
        using 1(2) by (auto simp: mdb_next_def Let_def split: Option.bind_splits)
      have i1: "del_inv B s1" using del_inv_cteDelete(1) [OF d 1(3)] True by blast
      obtain e2 k2 s2 where p: "preempt env k1 s1 = (e2, k2, s2)" by (cases "preempt env k1 s1") auto
      have i2: "del_inv B s2" using i1 del_inv_mem [OF mem_preempt [OF p]] by simp
      have "e1 \<noteq> EXCEPTION_NONE \<and> r = (e1, k1, s1) \<or> e2 \<noteq> EXCEPTION_NONE \<and> r = (e2, k2, s2) \<or> loop env slot k2 s2 = Some r"
        using 1(2) True d p by (auto simp: mdb_next_def Let_def split: if_splits)
      then show ?thesis using i1 i2 1(1) [of env slot k2 s2 r] by auto
    next
      case False
      then show ?thesis using 1(2,3) by (auto simp: mdb_next_def Let_def)
    qed
  qed
  then show ?thesis using assms(2) by blast
qed

section \<open>Deleting and revoking\<close>

text \<open>
  An example: a thread whose root CNode holds a capability to itself, an endpoint capability and a
  badged copy of it.
\<close>

definition example_thread :: word_t where "example_thread = 0x10200"

definition example_cnode :: cap where "example_cnode = cap_cnode_cap 4 60 0 0x20000"

definition example_system_caps :: "word_t \<Rightarrow> cap" where
  "example_system_caps p =
     (if p = 0x10000 \<or> p = 0x20020 then example_cnode
      else if p = 0x20040 then cap_endpoint_cap 0 True True True True 0x30000
      else if p = 0x20060 then cap_endpoint_cap 7 True True True True 0x30000
      else cap_null_cap)"

definition example_system_mdb :: "word_t \<Rightarrow> mdb_node" where
  "example_system_mdb p =
     (cteMDBNode zero_cte)\<lparr>mdbNext := if p = 0x20040 then 0x20060 else 0, mdbPrev := if p = 0x20060 then 0x20040 else 0,
        mdbRevocable := p \<in> {0x20040, 0x20060}, mdbFirstBadged := p = 0x20060\<rparr>"

definition example_system :: kstate where
  "example_system = zero_state\<lparr>
     ctes := \<lambda>p. \<lparr>cte_cap = example_system_caps p, cteMDBNode = example_system_mdb p\<rparr>,
     tcbs := (\<lambda>_. zero_tcb)(example_thread := zero_tcb\<lparr>tcbState := zero_thread_state\<lparr>ts_type := ThreadState_Running\<rparr>,
       tcbSchedContext := 0x40000\<rparr>),
     scs := \<lambda>_. zero_sched_context\<lparr>scTcb := example_thread, scRefillMax := 2,
       scRefills := \<lambda>_. \<lparr>rTime = 0, rAmount = 100000\<rparr>\<rparr>,
     ksCurThread := example_thread, ksCurSC := 0x40000, ksDomainTime := 100000\<rparr>"

lemma example_system_at:
  "cap_at example_system = example_system_caps" "intStateIRQNode example_system = 0"
  "mdb_next example_system p = (if p = 0x20040 then 0x20060 else 0)"
  "mdb_prev example_system p = (if p = 0x20060 then 0x20040 else 0)"
  by (simp_all add: example_system_def example_system_mdb_def cap_at_def [abs_def] mdb_next_def mdb_prev_def zero_state_def)

lemma example_system_mdb_ok: "mdb_ok {[0x10000], [0x20020], [0x20040, 0x20060]} example_system"
proof -
  have "live_slots example_system = {0x10000, 0x20020, 0x20040, 0x20060}"
    by (auto simp: live_slots_def example_system_at example_system_caps_def example_cnode_def split: if_splits)
  then show ?thesis by (simp add: mdb_ok_def chains_def example_system_at [abs_def] dlist_def insert_commute)
qed

lemma example_slots:
  fixes i :: word_t
  assumes "unat i < 16"
  shows "slot_at 0x20000 i \<noteq> 0" "slot_at 0x20000 i \<notin> irq_slots 0"
proof -
  have s: "unat (slot_at b j) = unat b + 32 * unat j" if "unat j < 64" "unat b \<le> 0x20000" for b j :: word_t
    using that by (simp add: slot_at_def seL4_SlotBits_def push_bit_eq_mult unat_word_ariths)
  have u: "unat (slot_at 0x20000 i) \<ge> 0x20000" using s [where b = "0x20000" and j = i] assms by simp
  then show "slot_at 0x20000 i \<noteq> 0" by auto
  show "slot_at 0x20000 i \<notin> irq_slots 0"
  proof
    assume "slot_at 0x20000 i \<in> irq_slots 0"
    then obtain irq where "irq \<le> maxIRQ" "slot_at 0x20000 i = slot_at 0 irq" by (auto simp: irq_slots_def)
    then show False using s [where b = 0 and j = irq] u by (simp add: maxIRQ_def word_le_nat_alt)
  qed
qed

lemma example_system_caps_ok: "caps_ok example_system"
proof -
  let ?z = "Zombie_new (push_bit (unat (4 :: word_t)) 1) 4 0x20000"
  have "cap_zombie_cap_get_capZombieNumber ?z = 16" "cap_zombie_cap_get_capZombiePtr ?z = 0x20000"
    by (simp_all add: Zombie_new_def cap_zombie_cap_get_capZombieNumber_def cap_zombie_cap_get_capZombiePtr_def
        cap_zombie_cap_get_capZombieBits_def ZombieType_ZombieTCB_def ZombieType_ZombieCNode_def MASK_def BIT_def)
  then have "zombie_ok ?z" using example_slots(1) by (simp add: zombie_ok_def word_less_nat_alt)
  moreover have "unat i < 16" if "i AND MASK 4 = i" for i :: word_t
    using unat_and_MASK [of i 4] that by simp
  then have "cnode_slots_ok 0 4 0x20000" using example_slots by (simp add: cnode_slots_ok_def)
  ultimately have "cap_slots_ok 0 example_cnode" by (simp add: example_cnode_def cap_slots_ok_def)
  then show ?thesis by (simp add: caps_ok_def example_system_at example_system_caps_def cap_slots_ok_def)
qed

lemma example_system_satp: "satp_registered example_system"
  by (simp add: satp_registered_def example_system_def zero_state_def)

text \<open>
  C3: Whenever a deletion or a revocation returns, preempted or complete, the capability system is
  consistent: the derivation lists are disjoint and doubly linked, the capabilities well-formed and the address
  space in use registered. A complete deletion with \<open>exposed\<close> leaves the slot empty and unlinked. After a
  complete revocation the slot has no successor in its derivation list, or the successor is not a
  child of the slot by \<open>isMDBParentOf\<close>, the test with which the kernel decides that a slot has no
  children. That the calls return is not claimed.
\<close>

theorem delete_revoke_consistent:
  assumes "mdb_ok CS s" "caps_ok s" "satp_registered s" "slot \<noteq> 0"
    and "cteDelete env slot exposed k s = Some (e, k', s') \<or> cteRevoke env slot k s = Some (e, k', s')"
  shows "(\<exists>CS'. mdb_ok CS' s') \<and> caps_ok s' \<and> satp_registered s' \<and>
    (e = EXCEPTION_NONE \<longrightarrow>
      (cteDelete env slot exposed k s = Some (e, k', s') \<and> exposed \<longrightarrow>
        cap_at s' slot = cap_null_cap \<and> mdb_next s' slot = 0 \<and> mdb_prev s' slot = 0) \<and>
      (cteRevoke env slot k s = Some (e, k', s') \<longrightarrow>
        mdb_next s' slot = 0 \<or> \<not> isMDBParentOf slot (mdb_next s' slot) s'))"
proof -
  have i: "del_inv (- 1) s" using assms(1-3) by (auto simp: del_inv_def prios_within_top)
  note d = del_inv_cteDelete [OF _ i assms(4)] and r = del_inv_cteRevoke [OF _ i, of env slot k "(e, k', s')"]
  have i': "del_inv (- 1) s'" using assms(5) d(1) r by auto
  have "mdb_next s' slot = 0 \<and> mdb_prev s' slot = 0" if "cap_at s' slot = cap_null_cap"
    using i' that assms(4) chainsD(5,6) by (fastforce simp: del_inv_def mdb_ok_def live_slots_iff)
  then show ?thesis using i' d(2) r unfolding del_inv_def by auto
qed

declare cancelAllSignals_loop.simps [code] cancelBadgedSends_loop.simps [code] cancelAllIPC_loop.simps [code]
  finaliseSlot_loop.simps [code] cteRevoke.simps [code]

theorem delete_revoke_consistent_witness:
  "\<exists>k s'. cteRevoke (\<lambda>_. (False, 1)) 0x20040 0 example_system = Some (EXCEPTION_NONE, k, s') \<and> cap_at s' 0x20060 = cap_null_cap \<and>
     cap_at s' 0x20040 \<noteq> cap_null_cap \<and> (\<exists>CS. mdb_ok CS s') \<and> caps_ok s' \<and> satp_registered s'"
proof -
  let ?r = "cteRevoke (\<lambda>_. (False, 1)) 0x20040 0 example_system"
  have "map_option (\<lambda>(e, k, s). (e, cap_at s 0x20060, cap_at s 0x20040)) ?r =
      Some (EXCEPTION_NONE, cap_null_cap, cap_endpoint_cap 0 True True True True 0x30000)" by code_simp
  then obtain k s' where r: "?r = Some (EXCEPTION_NONE, k, s')" "cap_at s' 0x20060 = cap_null_cap" "cap_at s' 0x20040 \<noteq> cap_null_cap"
    by auto
  from delete_revoke_consistent [OF example_system_mdb_ok example_system_caps_ok example_system_satp _ disjI2 [OF r(1)]] r
  show ?thesis by auto
qed

end
