(* ===== verification/KernelFrame.thy ===== *)
theory KernelFrame
  imports MemFrame Syscall IpcFrame
begin

text \<open>
  More operations that leave capability slots, page tables, the address space register and the
  interrupt table alone: signals, queues, messages, faults, time and scheduling contexts.
\<close>

section \<open>Operations that always return\<close>

lemma mem_fold: "(\<And>i s. mem_state (f i s) = mem_state s) \<Longrightarrow> mem_state (fold f xs s) = mem_state s"
  by (induction xs arbitrary: s) simp_all

lemma mem_copies [simp]:
  "mem_state (snd (copyMRs t b u c n s)) = mem_state s" "mem_state (copyMRsFaultReply t u mid n s) = mem_state s"
  "mem_state (copyMRsFault t u mid n b s) = mem_state s" "mem_state (setExtraBadge b v i s) = mem_state s"
  "mem_state (snd (setMRs_lookup_failure t b l i s)) = mem_state s" "mem_state (snd (mode_setTimeArg i c b t s)) = mem_state s"
  "mem_state (snd (schedContext_updateConsumed sc s)) = mem_state s"
  by (simp_all add: copyMRs_def copyMRsFaultReply_def copyMRsFault_def setExtraBadge_def setMRs_lookup_failure_def
      mode_setTimeArg_def schedContext_updateConsumed_def Let_def case_prod_beta mem_fold split: lookup_fault.splits)

lemma mem_replies [simp]:
  "mem_state (reply_push t u r d s) = mem_state s" "mem_state (setThreadStateBlockedOnReply t r s) = mem_state s"
  "mem_state (replyFromKernel_success_empty t s) = mem_state s" "mem_state (set_replyTCB r t s) = mem_state s"
  by (simp_all add: reply_push_def setThreadStateBlockedOnReply_def replyFromKernel_success_empty_def set_replyTCB_def
      set_replyPrev_def set_replyNext_def set_scReply_def set_tcb_defs Let_def)

lemma mem_signals [simp]:
  "mem_state (ntfn_set_active n b s) = mem_state s" "mem_state (maybeReturnSchedContext n t s) = mem_state s"
  "mem_state (bindNotification t n s) = mem_state s" "mem_state (doNBRecvFailedTransfer t s) = mem_state s"
  "mem_state (snd (ep_take_head p s)) = mem_state s" "mem_state (snd (receiveIPC_reply t c s)) = mem_state s"
  "mem_state (set_tcbState t g s) = mem_state s"
  by (simp_all add: ntfn_set_active_def maybeReturnSchedContext_def bindNotification_def doNBRecvFailedTransfer_def
      ep_take_head_def receiveIPC_reply_def set_tcb_defs Let_def case_prod_beta)

lemma mem_time [simp]:
  "mem_state (updateTimestamp n s) = mem_state s" "mem_state (cap_fault a b s) = mem_state s"
  "mem_state (setDomain t d s) = mem_state s"
  "mem_state (schedContext_bindNtfn sc n s) = mem_state s" "mem_state (snd (syscall_fail e s)) = mem_state s"
  "mem_state (reschedule_if_current t s) = mem_state s"
  by (simp_all add: updateTimestamp_def cap_fault_def setDomain_def schedContext_bindNtfn_def
      syscall_fail_def reschedule_if_current_def Let_def)

section \<open>Operations that may halt\<close>

lemma mem_queues:
  "tcbEPAppend t q s = Some (q', s') \<Longrightarrow> mem_state s' = mem_state s"
  "tcbReleaseEnqueue t s = Some s' \<Longrightarrow> mem_state s' = mem_state s"
  "postpone sc s = Some s' \<Longrightarrow> mem_state s' = mem_state s"
  "schedContext_resume sc s = Some s' \<Longrightarrow> mem_state s' = mem_state s"
proof -
  show "tcbEPAppend t q s = Some (q', s') \<Longrightarrow> mem_state s' = mem_state s"
    by (auto simp: tcbEPAppend_def set_tcb_defs Let_def split: Option.bind_splits if_splits)
  show "tcbReleaseEnqueue t s = Some s' \<Longrightarrow> mem_state s' = mem_state s"
    by (rule mem_of_core) (auto simp: tcbReleaseEnqueue_def Let_def case_prod_beta split: Option.bind_splits if_splits)
  show p: "postpone sc s = Some s' \<Longrightarrow> mem_state s' = mem_state s"
    using mem_of_core [OF core_postpone] by blast
  show "schedContext_resume sc s = Some s' \<Longrightarrow> mem_state s' = mem_state s"
    using p by (auto simp: schedContext_resume_def split: if_splits)
qed

lemma mem_donate:
  "maybeDonateSchedContext t n s = Some s' \<Longrightarrow> mem_state s' = mem_state s"
  by (auto simp: maybeDonateSchedContext_def Let_def dest!: mem_queues split: if_splits)

lemma mem_sendSignal: "sendSignal n b s = Some s' \<Longrightarrow> mem_state s' = mem_state s"
proof -
  have w: "signal_wake t n b s = Some s' \<Longrightarrow> mem_state s' = mem_state s" for t s
    by (auto simp: signal_wake_def Let_def dest!: mem_donate mem_sc_checks split: if_splits Option.bind_splits)
  show "sendSignal n b s = Some s' \<Longrightarrow> mem_state s' = mem_state s"
    by (auto simp: sendSignal_def Let_def case_prod_beta dest!: w split: notification_state.splits if_splits)
qed

lemma mem_receiveSignal:
  "receiveSignal t c b s = Some s' \<Longrightarrow> mem_state s' = mem_state s"
  "completeSignal n t s = Some s' \<Longrightarrow> mem_state s' = mem_state s"
  by (auto simp: receiveSignal_def receiveSignal_block_def completeSignal_def Let_def
      dest!: mem_donate mem_sc_checks mem_queues split: notification_state.splits if_splits Option.bind_splits)

lemma mem_ep_block:
  "sendIPC_block c b g r t p s = Some s' \<Longrightarrow> mem_state s' = mem_state s"
  "receiveIPC_block t p rp s = Some s' \<Longrightarrow> mem_state s' = mem_state s"
  by (auto simp: sendIPC_block_def receiveIPC_block_def Let_def dest!: mem_queues split: if_splits Option.bind_splits)

lemma mem_setMRs:
  "setMRs_fault t u buf s = Some (r, s') \<Longrightarrow> mem_state s' = mem_state s"
  "setMRs_syscall_error t buf s = Some (r, s') \<Longrightarrow> mem_state s' = mem_state s"
proof -
  have p: "p = (r, s') \<Longrightarrow> mem_state s' = mem_state (snd p)" for p :: "word_t \<times> kstate" by simp
  show "setMRs_fault t u buf s = Some (r, s') \<Longrightarrow> mem_state s' = mem_state s"
    by (auto simp: setMRs_fault_def Arch_setMRs_fault_def Let_def case_prod_beta dest!: p split: seL4_Fault.splits if_splits)
  show "setMRs_syscall_error t buf s = Some (r, s') \<Longrightarrow> mem_state s' = mem_state s"
    by (auto simp: setMRs_syscall_error_def Let_def dest!: p split: syscall_error_type.splits)
qed

lemma mem_fault_transfer:
  "doFaultTransfer b t u buf s = Some s' \<Longrightarrow> mem_state s' = mem_state s"
  "handleFaultReply t u s = Some (r, s') \<Longrightarrow> mem_state s' = mem_state s"
  "replyFromKernel_error t s = Some s' \<Longrightarrow> mem_state s' = mem_state s"
proof -
  show "doFaultTransfer b t u buf s = Some s' \<Longrightarrow> mem_state s' = mem_state s"
    by (auto simp: doFaultTransfer_def Let_def dest!: mem_setMRs split: Option.bind_splits)
  show "handleFaultReply t u s = Some (r, s') \<Longrightarrow> mem_state s' = mem_state s"
    by (auto simp: handleFaultReply_def Arch_handleFaultReply_def Let_def split: seL4_Fault.splits)
  show "replyFromKernel_error t s = Some s' \<Longrightarrow> mem_state s' = mem_state s"
    by (auto simp: replyFromKernel_error_def Let_def dest!: mem_setMRs split: Option.bind_splits)
qed

lemma mem_reorder:
  "reorderEP p t s = Some s' \<Longrightarrow> mem_state s' = mem_state s" "reorderNTFN n t s = Some s' \<Longrightarrow> mem_state s' = mem_state s"
  by (auto simp: reorderEP_def reorderNTFN_def Let_def case_prod_beta dest!: mem_queues split: Option.bind_splits)

lemma mem_thread_control:
  "restart t s = Some s' \<Longrightarrow> mem_state s' = mem_state s"
  "schedContext_bindTCB sc t s = Some s' \<Longrightarrow> mem_state s' = mem_state s"
proof -
  show "restart t s = Some s' \<Longrightarrow> mem_state s' = mem_state s"
    by (auto simp: restart_def Let_def dest!: mem_queues mem_sc_checks split: if_splits Option.bind_splits)
  show "schedContext_bindTCB sc t s = Some s' \<Longrightarrow> mem_state s' = mem_state s"
    by (auto simp: schedContext_bindTCB_def Let_def dest!: mem_queues mem_sc_checks split: if_splits Option.bind_splits)
qed

text \<open>Setting a priority changes nothing else of this part of the state.\<close>

lemma mem_upd_cong:
  assumes "mem_state s' = mem_state s"
  shows "mem_state (upd_tcb t (\<lambda>x. x\<lparr>tcbPriority := p\<rparr>) s') = mem_state (upd_tcb t (\<lambda>x. x\<lparr>tcbPriority := p\<rparr>) s)"
proof -
  let ?f = "\<lambda>x. x\<lparr>tcbPriority := p\<rparr>"
  have "tcbPriority (tcbs (upd_tcb t ?f s') u) = tcbPriority (tcbs (upd_tcb t ?f s) u)"
    "tcbMCP (tcbs (upd_tcb t ?f s') u) = tcbMCP (tcbs (upd_tcb t ?f s) u)" for u
    using mem_prio [OF assms] by (simp_all add: upd_tcb_def)
  then show ?thesis using mem_stateD [OF assms] unfolding mem_state_def by (simp add: upd_tcb_def)
qed

lemma mem_setPriority:
  assumes "setPriority t p s = Some s'"
  shows "mem_state s' = mem_state (upd_tcb t (\<lambda>x. x\<lparr>tcbPriority := p\<rparr>) s)"
  using assms mem_upd_cong [of "tcbSchedDequeue t s" s]
  by (auto simp: setPriority_def Let_def dest!: mem_reorder split: if_splits tsType.splits)

lemma mem_activateThread: "activateThread s = Some s' \<Longrightarrow> mem_state s' = mem_state s"
  by (auto simp: activateThread_def Let_def split: if_splits tsType.splits)

section \<open>Invocations of domains and scheduling contexts\<close>

lemma mem_dom_globals [simp]:
  "mem_state (s\<lparr>ksDomSchedule := a\<rparr>) = mem_state s" "mem_state (s\<lparr>ksDomScheduleStart := b\<rparr>) = mem_state s"
  "mem_state (s\<lparr>ksDomScheduleIdx := b\<rparr>) = mem_state s" "mem_state (s\<lparr>ksCurSC := b\<rparr>) = mem_state s"
  "mem_state (s\<lparr>ksCurDomain := b\<rparr>) = mem_state s" "mem_state (s\<lparr>timer_deadline := c\<rparr>) = mem_state s"
  by (simp_all add: mem_state_def)

lemma mem_fail: "syscall_fail f s = (e, s') \<Longrightarrow> mem_state s' = mem_state s"
  by (auto simp: syscall_fail_def)

lemma mem_domain: "mem_state (snd (decodeDomainInvocation label len buffer s)) = mem_state s"
proof -
  have "mem_state (snd (decodeDomainSetSetInvocation len buffer s)) = mem_state s"
    by (simp add: decodeDomainSetSetInvocation_def invokeDomainSetSet_def Let_def)
  moreover have "mem_state (snd (decodeDomainScheduleConfigure len buffer s)) = mem_state s"
    by (simp add: decodeDomainScheduleConfigure_def invokeDomainScheduleConfigure_def Let_def)
  moreover have "mem_state (snd (decodeDomainScheduleSetStart len buffer s)) = mem_state s"
    by (simp add: decodeDomainScheduleSetStart_def invokeDomainScheduleSetStart_def Let_def)
  ultimately show ?thesis by (simp add: decodeDomainInvocation_def split: invocation_label.split)
qed

lemma mem_commitTime: "commitTime s = Some s' \<Longrightarrow> mem_state s' = mem_state s"
  by (auto simp: commitTime_def cur_refill_budget_check_def Let_def split: if_splits Option.bind_splits)

lemma mem_sched_context:
  assumes "decodeSchedContextInvocation label sc call s = Some (e, s')"
  shows "mem_state s' = mem_state s"
proof -
  have y: "invokeSchedContext_YieldTo sc call s = Some s' \<Longrightarrow> mem_state s' = mem_state s" for s
    by (auto simp: invokeSchedContext_YieldTo_def Let_def dest!: mem_queues split: if_splits Option.bind_splits)
  have b: "decodeSchedContext_Bind sc s = Some (e, s') \<Longrightarrow> mem_state s' = mem_state s"
    by (auto simp: decodeSchedContext_Bind_def invokeSchedContext_Bind_def Let_def dest!: mem_fail mem_thread_control
        split: if_splits cap.splits)
  have u: "decodeSchedContext_UnbindObject sc s = Some (e, s') \<Longrightarrow> mem_state s' = mem_state s"
    by (auto simp: decodeSchedContext_UnbindObject_def invokeSchedContext_UnbindObject_def Let_def dest!: mem_fail
        split: if_splits cap.splits)
  have yt: "decodeSchedContext_YieldTo sc call s = Some (e, s') \<Longrightarrow> mem_state s' = mem_state s"
    by (auto simp: decodeSchedContext_YieldTo_def Let_def dest!: mem_fail y split: if_splits)
  show ?thesis using assms
    by (auto simp: decodeSchedContextInvocation_def invokeSchedContext_Consumed_def invokeSchedContext_Unbind_def
        dest!: b u yt mem_fail split: invocation_label.splits if_splits)
qed

lemma mem_sched_control:
  assumes "decodeSchedControlInvocation label len buffer s = Some (e, s')"
  shows "mem_state s' = mem_state s"
proof -
  have c: "mem_state (configure_refills t u a b m s) = mem_state s" for t u a b m s by (simp add: configure_refills_def)
  have i: "invokeSchedControl_ConfigureFlags t a b m g f s = Some s' \<Longrightarrow> mem_state s' = mem_state s" for t a b m g f s
    by (auto simp: invokeSchedControl_ConfigureFlags_def Let_def c dest!: mem_queues mem_commitTime
        split: if_splits Option.bind_splits)
  have "decodeSchedControl_ConfigureFlags len buffer s = Some (e, s') \<Longrightarrow> mem_state s' = mem_state s"
    by (auto simp: decodeSchedControl_ConfigureFlags_def budget_range_error_def Let_def dest!: mem_fail i split: if_splits)
  then show ?thesis using assms
    by (auto simp: decodeSchedControlInvocation_def dest!: mem_fail split: invocation_label.splits)
qed

end
