(* ===== verification/KernelCaps.thy ===== *)
theory KernelCaps
  imports DeleteInv KernelFrame
begin

text \<open>
  What every kernel entry keeps of the capability system: each operation of the kernel that
  touches slots keeps the invariant of deletion, that is, the derivation lists, the shape of
  the capabilities and the registration of the address space in use.
\<close>

section \<open>Slots found by lookups\<close>

definition user_slot :: "kstate \<Rightarrow> word_t \<Rightarrow> bool" where
  "user_slot s p \<longleftrightarrow> p \<noteq> 0 \<and> p \<notin> irq_slots (intStateIRQNode s)"

lemma cnode_slot:
  assumes "cap_slots_ok N c" "is_cap_cnode_cap c"
  shows "slot_at (capCNodePtr c) (w AND MASK (unat (capCNodeRadix c))) \<noteq> 0"
    "slot_at (capCNodePtr c) (w AND MASK (unat (capCNodeRadix c))) \<notin> irq_slots N"
  using assms by (cases c; simp add: cap_slots_ok_def cnode_slots_ok_def and.assoc)+

lemma resolveAddressBits_loop_slot:
  assumes "resolveAddressBits_loop n0 c capptr n s = Some r" "is_cap_cnode_cap c"
    "cap_slots_ok (intStateIRQNode s) c" "caps_ok s"
  shows "(\<exists>l. snd r = s\<lparr>current_lookup_fault := l\<rparr>) \<and> (ra_status (fst r) = EXCEPTION_NONE \<longrightarrow> user_slot s (ra_slot (fst r)))"
proof -
  let ?P = "\<lambda>n0 c capptr n s r. is_cap_cnode_cap c \<longrightarrow> cap_slots_ok (intStateIRQNode s) c \<longrightarrow> caps_ok s \<longrightarrow>
    (\<exists>l. snd r = s\<lparr>current_lookup_fault := l\<rparr>) \<and> (ra_status (fst r) = EXCEPTION_NONE \<longrightarrow> user_slot s (ra_slot (fst r)))"
  have "?P n0 c capptr n s r"
  proof (rule resolveAddressBits_loop.raw_induct [where P = ?P, OF _ assms(1)], intro impI, goal_cases)
    case (1 loop n0 c capptr n s r)
    note u = cnode_slot [OF 1(4,3)] and i = 1(5) [unfolded caps_ok_def cap_at_def, rule_format]
    have same: "\<exists>l. s = s\<lparr>current_lookup_fault := l\<rparr>" by (rule exI [where x = "current_lookup_fault s"]) simp
    from 1(2) show ?case
      by (auto simp: Let_def user_slot_def u i 1(5) same split: if_splits dest!: 1(1))
  qed
  then show ?thesis using assms by blast
qed

lemma resolveAddressBits_slot:
  assumes "resolveAddressBits c capptr n s = Some (r, s')" "cap_slots_ok (intStateIRQNode s) c" "caps_ok s"
  shows "\<exists>l. s' = s\<lparr>current_lookup_fault := l\<rparr>" "mem_state s' = mem_state s"
    "ra_status r = EXCEPTION_NONE \<Longrightarrow> user_slot s (ra_slot r)"
proof -
  have r: "(\<exists>l. s' = s\<lparr>current_lookup_fault := l\<rparr>) \<and> (ra_status r = EXCEPTION_NONE \<longrightarrow> user_slot s (ra_slot r))"
    using assms resolveAddressBits_loop_slot [of n c capptr n s "(r, s')"]
    by (auto simp: resolveAddressBits_def split: if_splits)
  then show "\<exists>l. s' = s\<lparr>current_lookup_fault := l\<rparr>" "ra_status r = EXCEPTION_NONE \<Longrightarrow> user_slot s (ra_slot r)" by blast+
  show "mem_state s' = mem_state s" using r by auto
qed

lemma del_inv_caps_ok: "del_inv B s \<Longrightarrow> caps_ok s"
  by (simp add: del_inv_def)

lemma user_slot_mem:
  assumes "mem_state s' = mem_state s"
  shows "user_slot s' p = user_slot s p"
  using mem_stateD(5) [OF assms] by (simp add: user_slot_def)

lemma cap_at_mem:
  assumes "mem_state s' = mem_state s"
  shows "cap_at s' = cap_at s"
  using mem_stateD(1) [OF assms] by (simp add: cap_at_def [abs_def])

lemma lookupSlot_slot:
  assumes "lookupSlot t c s = Some (r, s')" "del_inv B s"
  shows "mem_state s' = mem_state s" "ls_status r = EXCEPTION_NONE \<Longrightarrow> user_slot s (ls_slot r)"
    "current_extra_caps s' = current_extra_caps s"
proof -
  obtain q where q: "resolveAddressBits (cap_at s (TCB_PTR_CTE_PTR t tcbCTable)) c (of_nat wordBits) s = Some (q, s')"
    "r = \<lparr>ls_status = ra_status q, ls_slot = ra_slot q\<rparr>"
    using assms(1) by (auto simp: lookupSlot_def cap_at_def split: Option.bind_splits)
  note u = resolveAddressBits_slot [OF q(1) cap_slots_ok_at [OF assms(2)] del_inv_caps_ok [OF assms(2)]]
  show "mem_state s' = mem_state s" "ls_status r = EXCEPTION_NONE \<Longrightarrow> user_slot s (ls_slot r)" using u(2,3) q(2) by simp_all
  show "current_extra_caps s' = current_extra_caps s" using u(1) by auto
qed

lemma lookupCap_cap:
  assumes "lookupCap t c s = Some (r, s')" "del_inv B s"
  shows "mem_state s' = mem_state s" "cap_slots_ok (intStateIRQNode s) (lc_cap r)"
proof -
  obtain l where l: "lookupSlot t c s = Some (l, s')" "lc_cap r = cap_null_cap \<or> lc_cap r = cap_at s' (ls_slot l)"
    using assms(1) by (auto simp: lookupCap_def cap_at_def split: Option.bind_splits if_splits)
  show m: "mem_state s' = mem_state s" by (rule lookupSlot_slot(1) [OF l(1) assms(2)])
  show "cap_slots_ok (intStateIRQNode s) (lc_cap r)"
    using l(2) cap_slots_ok_at [OF assms(2)] by (auto simp: cap_at_mem [OF m])
qed

lemma lookupCapAndSlot_slot:
  assumes "lookupCapAndSlot t c s = Some (r, s')" "del_inv B s"
  shows "mem_state s' = mem_state s"
    "lcs_status r = EXCEPTION_NONE \<Longrightarrow> user_slot s (lcs_slot r) \<and> lcs_cap r = cap_at s (lcs_slot r)"
proof -
  obtain l where l: "lookupSlot t c s = Some (l, s')" "ls_status l = EXCEPTION_NONE \<Longrightarrow>
      lcs_slot r = ls_slot l \<and> lcs_cap r = cap_at s' (ls_slot l)" "lcs_status r = ls_status l"
    using assms(1) by (auto simp: lookupCapAndSlot_def cap_at_def split: Option.bind_splits if_splits)
  show m: "mem_state s' = mem_state s" by (rule lookupSlot_slot(1) [OF l(1) assms(2)])
  show "lcs_status r = EXCEPTION_NONE \<Longrightarrow> user_slot s (lcs_slot r) \<and> lcs_cap r = cap_at s (lcs_slot r)"
    using l(2,3) lookupSlot_slot(2) [OF l(1) assms(2)] by (simp add: cap_at_mem [OF m])
qed

lemma lookupSlotForCNodeOp_slot:
  assumes "lookupSlotForCNodeOp b root c d s = Some (r, s')" "cap_slots_ok (intStateIRQNode s) root" "caps_ok s"
  shows "mem_state s' = mem_state s" "ls_status r = EXCEPTION_NONE \<Longrightarrow> user_slot s (ls_slot r)"
  using assms(1) resolveAddressBits_slot(2,3) [OF _ assms(2,3)]
  by (auto simp: lookupSlotForCNodeOp_def Let_def split: if_splits Option.bind_splits)

lemmas lookup_targets = lookupSourceSlot_def lookupTargetSlot_def lookupPivotSlot_def

lemma lookupExtraCaps_loop_slots:
  assumes "lookupExtraCaps_loop t b i n s = Some (e, s')" "del_inv B s" "i = 0 \<or> user_slot s (current_extra_caps s 0)"
  shows "mem_state s' = mem_state s \<and> (e = EXCEPTION_NONE \<longrightarrow> current_extra_caps s' 0 = 0 \<or> user_slot s (current_extra_caps s' 0))"
  using assms
proof (induction n arbitrary: i s)
  case 0
  then show ?case by (auto simp: seL4_MsgMaxExtraCaps_def BIT_def split: if_splits)
next
  case (Suc n)
  obtain l s1 where l: "lookupSlot t (getExtraCPtr b (of_nat i) s) s = Some (l, s1)"
    using Suc.prems(1) by (auto simp: Let_def split: Option.bind_splits)
  note u = lookupSlot_slot [OF l Suc.prems(2)]
  let ?s = "s1\<lparr>current_extra_caps := (current_extra_caps s1)(i := ls_slot l)\<rparr>"
  show ?case
  proof (cases "ls_status l = EXCEPTION_NONE")
    case True
    have m: "mem_state ?s = mem_state s" using u(1) by simp
    have i: "del_inv B ?s" using Suc.prems(2) del_inv_mem [OF m] by blast
    have "Suc i = 0 \<or> user_slot ?s (current_extra_caps ?s 0)"
      using u(2) [OF True] Suc.prems(3) u(3) unfolding user_slot_mem [OF m] by auto
    then show ?thesis using Suc.IH [OF _ i, of "Suc i"] Suc.prems(1) l True m by (auto simp: Let_def user_slot_mem [OF m])
  next
    case False
    then show ?thesis using Suc.prems(1) l u by (auto simp: Let_def)
  qed
qed

lemma lookupExtraCaps_slots:
  assumes "lookupExtraCaps t b info s = Some (e, s')" "del_inv B s"
  shows "mem_state s' = mem_state s"
    "e = EXCEPTION_NONE \<Longrightarrow> current_extra_caps s' 0 = 0 \<or> user_slot s (current_extra_caps s' 0)"
  using assms(1) lookupExtraCaps_loop_slots [OF _ assms(2), of t b 0]
  by (auto simp: lookupExtraCaps_def split: if_splits)

lemma getReceiveSlots_slot:
  assumes "getReceiveSlots t b s = Some (p, s')" "del_inv B s"
  shows "mem_state s' = mem_state s" "p \<noteq> 0 \<Longrightarrow> cap_at s p = cap_null_cap"
proof -
  have "mem_state s' = mem_state s \<and> (p \<noteq> 0 \<longrightarrow> cap_at s p = cap_null_cap)"
  proof (cases "b = 0")
    case False
    let ?ct = "loadCapTransfer b s"
    obtain l s1 where l: "lookupCap t (ctReceiveRoot ?ct) s = Some (l, s1)"
      using assms(1) False by (auto simp: getReceiveSlots_def Let_def split: Option.bind_splits)
    note c = lookupCap_cap [OF l assms(2)]
    have i: "del_inv B s1" using del_inv_mem [OF c(1)] assms(2) by simp
    show ?thesis
    proof (cases "lc_status l = EXCEPTION_NONE")
      case True
      then obtain r where r: "lookupSlotForCNodeOp False (lc_cap l) (ctReceiveIndex ?ct) (ctReceiveDepth ?ct) s1 = Some (r, s')"
        "p = 0 \<or> p = ls_slot r \<and> cap_at s' p = cap_null_cap"
        using assms(1) False l
        by (auto simp: getReceiveSlots_def lookup_targets Let_def cap_at_def split: Option.bind_splits if_splits)
      have m: "mem_state s' = mem_state s"
        using lookupSlotForCNodeOp_slot(1) [OF r(1) _ del_inv_caps_ok [OF i]] c mem_stateD(5) [OF c(1)] by simp
      then show ?thesis using r(2) cap_at_mem [OF m] by auto
    next
      case False
      then show ?thesis using assms(1) \<open>b \<noteq> 0\<close> l c by (auto simp: getReceiveSlots_def Let_def)
    qed
  qed (use assms(1) in \<open>simp add: getReceiveSlots_def\<close>)
  then show "mem_state s' = mem_state s" "p \<noteq> 0 \<Longrightarrow> cap_at s p = cap_null_cap" by blast+
qed

section \<open>Copying capabilities\<close>

lemma deriveCap_slots_ok:
  assumes "deriveCap p c s = Some (r, s')"
  shows "mem_state s' = mem_state s" "cap_slots_ok N c \<Longrightarrow> cap_slots_ok N (dc_cap r)" "dc_cap r \<noteq> cap_null_cap \<Longrightarrow> c \<noteq> cap_null_cap"
  using assms
  by (cases c; auto simp: deriveCap_def Arch_deriveCap_def ensureNoChildren_def isArchCap_def cap_slots_ok_def Let_def
      split: if_splits prod.splits)+

lemma maskCapRights_slots_ok: "cap_slots_ok N (maskCapRights r c) = cap_slots_ok N c"
  by (cases c) (simp_all add: maskCapRights_def Arch_maskCapRights_def isArchCap_def cap_slots_ok_def Let_def)

lemma updateCapData_slots_ok: "cap_slots_ok N c \<Longrightarrow> cap_slots_ok N (updateCapData b w c)"
  by (cases c) (simp_all add: updateCapData_def Arch_updateCapData_def isArchCap_def cap_slots_ok_def Let_def)

lemma after_copy_slots_ok: "cap_slots_ok N c \<Longrightarrow> cap_slots_ok N (after_copy c d)"
  by (cases c) (auto simp: after_copy_def cap_slots_ok_def)

lemma del_inv_cte_op:
  assumes "del_inv B s" "cap_step s s'" "\<And>m. s'\<lparr>ctes := m\<rparr> = s\<lparr>ctes := m\<rparr>"
    and "\<And>p. cap_slots_ok (intStateIRQNode s) (cap_at s' p)"
  shows "del_inv B s'"
proof -
  have "s'\<lparr>ctes := m, intStateIRQTable := i\<rparr> = s\<lparr>ctes := m, intStateIRQTable := i\<rparr>" for m i
    using assms(3) [of m] by simp
  note f = cte_ops_mem [OF this]
  have "\<exists>CS. mdb_ok CS s'" using assms(1) cap_step_mdb_ok [OF assms(2)] unfolding del_inv_def by blast
  then show ?thesis using assms(1,4) f by (simp add: del_inv_def caps_ok_def)
qed

lemma del_inv_insert:
  assumes "del_inv B s" "p \<noteq> 0" "cap_at s p \<noteq> cap_null_cap" "x \<noteq> 0" "cap_at s x = cap_null_cap"
    "c \<noteq> cap_null_cap" "cap_slots_ok (intStateIRQNode s) c"
  shows "del_inv B (cteInsert c p x s)"
proof (rule del_inv_cte_op [OF assms(1)])
  show "cap_step s (cteInsert c p x s)"
    using cap_step.insert [of p x s c] assms(2-6) by (simp add: invokeCNodeInsert_def)
  show "cap_slots_ok (intStateIRQNode s) (cap_at (cteInsert c p x s) q)" for q
    using cap_slots_ok_at [OF assms(1)] assms(7) by (simp add: cteInsert_links after_copy_slots_ok)
qed (rule cte_ops_frame)

lemma del_inv_move:
  assumes "del_inv B s" "p \<noteq> 0" "cap_at s p \<noteq> cap_null_cap" "x \<noteq> 0" "cap_at s x = cap_null_cap"
    "c \<noteq> cap_null_cap" "cap_slots_ok (intStateIRQNode s) c"
  shows "del_inv B (cteMove c p x s)"
proof (rule del_inv_cte_op [OF assms(1)])
  have "p \<noteq> x" using assms(3,5) by auto
  then show "cap_slots_ok (intStateIRQNode s) (cap_at (cteMove c p x s) q)" for q
    using cap_slots_ok_at [OF assms(1)] assms(7) by (simp add: cap_at_move)
  show "cap_step s (cteMove c p x s)"
    using cap_step.move [of p x s c] assms(2-6) by (simp add: invokeCNodeMove_def)
qed (rule cte_ops_frame)

lemma del_inv_swap_slots:
  assumes "del_inv B s" "p \<noteq> 0" "x \<noteq> 0" "p \<noteq> x" "cap_at s p \<noteq> cap_null_cap" "cap_at s x \<noteq> cap_null_cap"
    "c \<noteq> cap_null_cap" "d \<noteq> cap_null_cap" "cap_slots_ok (intStateIRQNode s) c" "cap_slots_ok (intStateIRQNode s) d"
  shows "del_inv B (cteSwap c p d x s)"
proof (rule del_inv_cte_op [OF assms(1)])
  show "cap_slots_ok (intStateIRQNode s) (cap_at (cteSwap c p d x s) q)" for q
    using cap_slots_ok_at [OF assms(1)] assms(9,10) by (simp add: cap_at_swap)
  show "cap_step s (cteSwap c p d x s)"
    using cap_step.rotate [of p x p s c d] assms(2-8) by (simp add: invokeCNodeRotate_def)
qed (rule cte_ops_frame)

end
