(* ===== verification/KernelIPC.thy ===== *)
theory KernelIPC
  imports KernelCaps
begin

text \<open>
  Messages, faults, time and interrupts keep the invariant of deletion: capabilities are
  copied only from a live slot into an empty one.
\<close>

section \<open>Messages\<close>

lemma del_inv_transferCaps_loop:
  assumes "transferCaps_loop ep b d info i n s = Some (info', s')" "del_inv B s" "d = 0 \<or> cap_at s d = cap_null_cap"
  shows "del_inv B s'"
  using assms
proof (induction n arbitrary: d info i s)
  case (Suc n)
  let ?p = "current_extra_caps s i"
  consider "s' = s" | badge info1 where "transferCaps_loop ep b d info1 (Suc i) n (setExtraBadge b badge (of_nat i) s) = Some (info', s')"
    | r s1 where "?p \<noteq> 0" "d \<noteq> 0" "deriveCap ?p (cap_at s ?p) s = Some (r, s1)" "s' = s1"
    | r s1 where "?p \<noteq> 0" "d \<noteq> 0" "deriveCap ?p (cap_at s ?p) s = Some (r, s1)" "dc_cap r \<noteq> cap_null_cap"
        "transferCaps_loop ep b 0 info (Suc i) n (cteInsert (dc_cap r) ?p d s1) = Some (info', s')"
    using Suc.prems(1) by (auto simp: Let_def cap_at_def split: if_splits Option.bind_splits)
  then show ?case
  proof cases
    case (2 badge info1)
    have m: "mem_state (setExtraBadge b badge (of_nat i) s) = mem_state s" by simp
    then show ?thesis using Suc.IH [OF 2] Suc.prems(2,3) del_inv_mem [OF m] by (simp add: cap_at_mem [OF m])
  next
    case (3 r s1)
    then show ?thesis using del_inv_mem [OF deriveCap_slots_ok(1) [OF 3(3)]] Suc.prems(2) by simp
  next
    case (4 r s1)
    note m = deriveCap_slots_ok(1) [OF 4(3)] and dc = deriveCap_slots_ok(2,3) [OF 4(3)]
    have "del_inv B (cteInsert (dc_cap r) ?p d s1)"
      using Suc.prems(2,3) 4(1,2,4) dc cap_slots_ok_at [OF Suc.prems(2), of ?p] mem_stateD(5) [OF m]
      by (intro del_inv_insert) (auto simp: cap_at_mem [OF m] del_inv_mem [OF m])
    then show ?thesis using Suc.IH [OF 4(5)] by simp
  qed (use Suc.prems(2) in simp)
qed simp

lemma del_inv_transferCaps:
  assumes "transferCaps info ep t b s = Some (info', s')" "del_inv B s"
  shows "del_inv B s'"
proof (cases "current_extra_caps s 0 = 0 \<or> b = 0")
  case False
  then obtain d s1 info1 n where d: "getReceiveSlots t b s = Some (d, s1)" "transferCaps_loop ep b d info1 0 n s1 = Some (info', s')"
    using assms(1) by (auto simp: transferCaps_def Let_def split: Option.bind_splits)
  note g = getReceiveSlots_slot [OF d(1) assms(2)]
  show ?thesis
    using del_inv_transferCaps_loop [OF d(2)] del_inv_mem [OF g(1)] assms(2) g(2) by (auto simp: cap_at_mem [OF g(1)])
qed (use assms in \<open>auto simp: transferCaps_def Let_def\<close>)

lemma del_inv_keep: "mem_state s' = mem_state s \<Longrightarrow> del_inv B s \<Longrightarrow> del_inv B s'"
  using del_inv_mem by blast

lemma mem_doNormalTransfer_extraCaps:
  "doNormalTransfer_extraCaps t b g tag s = Some s' \<Longrightarrow> del_inv B s \<Longrightarrow> mem_state s' = mem_state s"
  using lookupExtraCaps_slots(1) by (auto simp: doNormalTransfer_extraCaps_def split: if_splits Option.bind_splits)

lemma del_inv_doNormalTransfer:
  assumes "doNormalTransfer t sb ep badge g u rb s = Some s'" "del_inv B s"
  shows "del_inv B s'"
proof -
  let ?tag = "messageInfoFromWord (getRegister s t msgInfoRegister)"
  obtain s1 where s1: "doNormalTransfer_extraCaps t sb g ?tag s = Some s1"
    using assms(1) by (auto simp: doNormalTransfer_def Let_def split: Option.bind_splits)
  let ?c = "copyMRs t sb u rb (seL4_MessageInfo_get_length ?tag) s1"
  obtain tag s2 where s2: "transferCaps ?tag ep u rb (snd ?c) = Some (tag, s2)" "mem_state s' = mem_state s2"
    using assms(1) s1 by (auto simp: doNormalTransfer_def Let_def case_prod_beta split: Option.bind_splits)
  have "del_inv B (snd ?c)"
    using del_inv_keep [OF _ del_inv_keep [OF mem_doNormalTransfer_extraCaps [OF s1 assms(2)] assms(2)]] by simp
  from del_inv_keep [OF s2(2) del_inv_transferCaps [OF s2(1) this]] show ?thesis .
qed

lemma del_inv_doIPCTransfer: "doIPCTransfer t ep badge g u s = Some s' \<Longrightarrow> del_inv B s \<Longrightarrow> del_inv B s'"
  using del_inv_doNormalTransfer del_inv_keep [OF mem_fault_transfer(1)]
  by (auto simp: doIPCTransfer_def Let_def split: if_splits)

lemma del_inv_sendIPC:
  assumes "sendIPC bl call badge g gr don t ep s = Some s'" "del_inv B s"
  shows "del_inv B s'"
proof (cases "ep_state (eps s ep) = EPState_Recv")
  case True
  let ?h = "ep_take_head ep s"
  obtain s1 where s1: "doIPCTransfer t ep badge g (fst ?h) (snd ?h) = Some s1" "mem_state s' = mem_state s1"
    using assms(1) True
    by (auto simp: sendIPC_def sendIPC_meet_def Let_def case_prod_beta dest!: mem_sc_checks split: Option.bind_splits if_splits)
  have "del_inv B (snd ?h)" using del_inv_keep [OF _ assms(2)] by simp
  from del_inv_keep [OF s1(2) del_inv_doIPCTransfer [OF s1(1) this]] show ?thesis .
next
  case False
  then have "s' = s \<or> sendIPC_block call badge g gr t ep s = Some s'"
    using assms(1) by (auto simp: sendIPC_def split: endpoint_state.splits if_splits)
  then show ?thesis using del_inv_keep [OF mem_ep_block(1) assms(2)] assms(2) by blast
qed

lemma del_inv_sendFaultIPC: "sendFaultIPC t c d s = Some (r, s') \<Longrightarrow> del_inv B s \<Longrightarrow> del_inv B s'"
  using del_inv_sendIPC del_inv_keep
  by (fastforce simp: sendFaultIPC_def Let_def split: if_splits cap.splits Option.bind_splits)

lemma del_inv_faults:
  "handleFault t s = Some s' \<Longrightarrow> del_inv B s \<Longrightarrow> del_inv B s'" "handleTimeout t s = Some s' \<Longrightarrow> del_inv B s \<Longrightarrow> del_inv B s'"
  using del_inv_sendFaultIPC del_inv_keep [OF mem_sched(4)]
  by (fastforce simp: handleFault_def handleTimeout_def handleNoFaultHandler_def Let_def split: if_splits Option.bind_splits)+

lemma del_inv_receiveIPC:
  assumes "receiveIPC t c bl rc s = Some s'" "del_inv B s"
  shows "del_inv B s'"
proof -
  obtain s1 rp where m1: "mem_state s1 = mem_state s" and
    s1: "(\<exists>n. completeSignal n t s1 = Some s') \<or> receiveIPC_meet t (capEPPtr c) rp s1 = Some s' \<or>
      receiveIPC_block t (capEPPtr c) rp s1 = Some s' \<or> s' = doNBRecvFailedTransfer t s1"
  proof
    let ?r = "receiveIPC_reply t rc s"
    let ?n = "tcbBoundNotification (tcbs (snd ?r) t)"
    let ?s = "if ntfn_state (ntfns (snd ?r) ?n) \<noteq> NtfnState_Active \<and> ?n \<noteq> 0 \<and> bl then maybeReturnSchedContext ?n t (snd ?r) else snd ?r"
    show "mem_state ?s = mem_state s" by simp
    show "(\<exists>n. completeSignal n t ?s = Some s') \<or> receiveIPC_meet t (capEPPtr c) (fst ?r) ?s = Some s' \<or>
      receiveIPC_block t (capEPPtr c) (fst ?r) ?s = Some s' \<or> s' = doNBRecvFailedTransfer t ?s"
      using assms(1) by (auto simp: receiveIPC_def Let_def case_prod_beta split: endpoint_state.splits if_splits)
  qed
  have i1: "del_inv B s1" by (rule del_inv_keep [OF m1 assms(2)])
  have "del_inv B s'" if m: "receiveIPC_meet t (capEPPtr c) rp s1 = Some s'"
  proof -
    let ?h = "ep_take_head (capEPPtr c) s1"
    obtain b g s2 where s2: "doIPCTransfer (fst ?h) (capEPPtr c) b g t (snd ?h) = Some s2" "mem_state s' = mem_state s2"
      using m by (auto simp: receiveIPC_meet_def Let_def case_prod_beta dest!: mem_sc_checks split: Option.bind_splits if_splits)
    have "del_inv B (snd ?h)" using del_inv_keep [OF _ i1] by simp
    from del_inv_keep [OF s2(2) del_inv_doIPCTransfer [OF s2(1) this]] show ?thesis .
  qed
  then show ?thesis using s1 i1 del_inv_keep [OF mem_receiveSignal(2) i1] del_inv_keep [OF mem_ep_block(2) i1]
      del_inv_keep [OF mem_signals(4) i1] by blast
qed

lemma del_inv_doReplyTransfer:
  assumes "doReplyTransfer t r g s = Some s'" "del_inv B s"
  shows "del_inv B s'"
proof (cases "s' = s")
  case False
  then obtain u b s1 s2 where m1: "mem_state s1 = mem_state s" and s2: "doReplyTransfer_message t u g s1 = Some s2"
    "doReplyTransfer_resume u b s2 = Some s'"
    using assms(1) by (auto simp: doReplyTransfer_def Let_def dest!: mem_sc_checks split: if_splits Option.bind_splits)
  have i1: "del_inv B s1" by (rule del_inv_keep [OF m1 assms(2)])
  have i2: "del_inv B s2" using s2(1) i1 del_inv_doIPCTransfer
    by (auto simp: doReplyTransfer_message_def Let_def del_inv_mem [OF mem_sched(4)] del_inv_mem [OF mem_upd_tcb]
        dest!: mem_fault_transfer intro: del_inv_keep split: if_splits Option.bind_splits)
  show ?thesis using s2(2) i2 del_inv_faults(2) del_inv_keep [OF mem_queues(3)] del_inv_mem [OF mem_globals(5)]
    by (auto simp: doReplyTransfer_resume_def Let_def del_inv_mem [OF mem_sched(2)] split: if_splits)
qed (use assms in simp)

section \<open>Time\<close>

lemma mem_charge_current: "charge_current n s = Some s' \<Longrightarrow> mem_state s' = mem_state s"
  by (auto simp: charge_current_def cur_refill_budget_check_def Let_def split: if_splits Option.bind_splits)

lemma del_inv_chargeBudget:
  assumes "chargeBudget n b s = Some s'" "del_inv B s"
  shows "del_inv B s'"
proof -
  obtain s1 where s1: "charge_current n s = Some s1" "mem_state s' = mem_state s1 \<or>
      (\<exists>s2. endTimeslice b (s1\<lparr>ksConsumed := 0\<rparr>) = Some s2 \<and> mem_state s' = mem_state s2)"
    using assms(1) by (auto simp: chargeBudget_def Let_def split: if_splits Option.bind_splits)
  have i1: "del_inv B s1" by (rule del_inv_keep [OF mem_charge_current [OF s1(1)] assms(2)])
  have i: "del_inv B (s1\<lparr>ksConsumed := 0\<rparr>)" "del_inv B (s1\<lparr>ksConsumed := 0, current_fault := f\<rparr>)" for f
    using del_inv_keep [OF _ i1] by simp_all
  have "del_inv B s2" if "endTimeslice b (s1\<lparr>ksConsumed := 0\<rparr>) = Some s2" for s2
    using that i del_inv_faults(2) [of _ _ s2] del_inv_keep [OF mem_core_ops(2) i(1)] del_inv_keep [OF mem_queues(3) i(1)]
    by (auto simp: endTimeslice_def Let_def split: if_splits)
  then show ?thesis using s1(2) del_inv_keep i1 by blast
qed

lemma del_inv_checkBudget:
  "checkBudget s = Some (b, s') \<Longrightarrow> del_inv B s \<Longrightarrow> del_inv B s'"
  "checkBudgetRestart s = Some (b, s') \<Longrightarrow> del_inv B s \<Longrightarrow> del_inv B s'"
proof -
  show c: "checkBudget s = Some (b, s') \<Longrightarrow> del_inv B s \<Longrightarrow> del_inv B s'" for s' b
    using del_inv_chargeBudget by (auto simp: checkBudget_def split: if_splits)
  show "checkBudgetRestart s = Some (b, s') \<Longrightarrow> del_inv B s \<Longrightarrow> del_inv B s'"
    using c del_inv_mem [OF mem_sched(4)] by (auto simp: checkBudgetRestart_def split: Option.bind_splits if_splits)
qed

section \<open>Receiving, yielding and interrupts\<close>

lemma del_inv_lookupReply:
  assumes "lookupReply s = Some (r, s')" "del_inv B s"
  shows "del_inv B s'"
proof -
  obtain l s1 where l: "lookupCap (ksCurThread s) (getRegister s (ksCurThread s) replyRegister) s = Some (l, s1)"
    "s' = s1 \<or> handleFault (ksCurThread s1) (cap_fault (getRegister s (ksCurThread s) replyRegister) True s1) = Some s'"
    using assms(1) by (auto simp: lookupReply_def Let_def split: Option.bind_splits if_splits)
  note i = del_inv_keep [OF lookupCap_cap(1) [OF l(1) assms(2)] assms(2)]
  then show ?thesis using l(2) del_inv_faults(1) [OF _ del_inv_keep [OF mem_time(2)]] by blast
qed

lemma del_inv_handleRecv:
  assumes "handleRecv bl cr s = Some s'" "del_inv B s"
  shows "del_inv B s'"
proof -
  obtain l s1 where l: "lookupCap (ksCurThread s) (getRegister s (ksCurThread s) capRegister) s = Some (l, s1)"
    using assms(1) by (auto simp: handleRecv_def Let_def split: Option.bind_splits)
  note i = del_inv_keep [OF lookupCap_cap(1) [OF l assms(2)] assms(2)]
  let ?c = "getRegister s (ksCurThread s) capRegister"
  have f: "del_inv B s'" if "handleFault (ksCurThread s1) (cap_fault ?c True s1) = Some s' \<or> missing_cap_fault ?c s1 = Some s'"
    using that del_inv_faults(1) [of _ _ s'] del_inv_keep [OF _ i] by (auto simp: missing_cap_fault_def)
  have r: "del_inv B s'" if "lookupReply s1 = Some (rr, s2)" "s' = s2 \<or> (\<exists>t rc. receiveIPC t (lc_cap l) bl rc s2 = Some s')" for rr s2
    using del_inv_lookupReply [OF that(1) i] del_inv_receiveIPC that(2) by blast
  have p: "del_inv B s'" if "receiveIPC t c bl rc s1 = Some s' \<or> receiveSignal t c bl s1 = Some s'" for t c rc
    using that del_inv_receiveIPC [OF _ i] del_inv_keep [OF mem_receiveSignal(1) i] by blast
  show ?thesis using assms(1) l f r p
    by (cases "lc_cap l"; auto simp: handleRecv_def Let_def split: if_splits Option.bind_splits; blast)
qed

lemma del_inv_budget_points:
  assumes "del_inv B s"
  shows "mcsPreemptionPoint s = Some s' \<Longrightarrow> del_inv B s'" "handleYield s = Some s' \<Longrightarrow> del_inv B s'"
    "checkInterrupt irq s = Some s' \<Longrightarrow> del_inv B s'"
proof -
  show "mcsPreemptionPoint s = Some s' \<Longrightarrow> del_inv B s'"
    using del_inv_checkBudget(1) del_inv_chargeBudget del_inv_keep [OF mem_globals(3)] assms
    by (fastforce simp: mcsPreemptionPoint_def split: if_splits)
  show "handleYield s = Some s' \<Longrightarrow> del_inv B s'"
    using del_inv_chargeBudget assms by (auto simp: handleYield_def Let_def del_inv_mem [OF mem_upd(3)] split: Option.bind_splits)
  show "checkInterrupt irq s = Some s' \<Longrightarrow> del_inv B s'"
    using assms del_inv_keep [OF mem_sendSignal assms] del_inv_keep [OF mem_globals(2) assms]
    by (auto simp: checkInterrupt_def handleInterrupt_def handleReservedIRQ_def split: if_splits cap.splits irq_state.splits)
qed

section \<open>Leaving the kernel\<close>

lemma del_inv_setVMRoot: "del_inv B s \<Longrightarrow> del_inv B (setVMRoot t s)"
  using setVMRoot_registered [of t s] mdb_ok_ctes [of "setVMRoot t s" s] prios_within_tcbs [of "setVMRoot t s" s]
  by (simp add: del_inv_def caps_ok_def cap_at_def)

lemma mem_nextDomain [simp]: "mem_state (nextDomain s) = mem_state s"
  by (simp add: nextDomain_def Let_def)

lemma del_inv_switch:
  assumes "del_inv B s"
  shows "del_inv B (switchToThread t s)" "del_inv B (scheduleChooseNewThread s)"
proof -
  have sw: "del_inv B (switchToThread t s)" "del_inv B (switchToIdleThread s)" if "del_inv B s" for t s
    using del_inv_setVMRoot [OF that] del_inv_keep [OF _ del_inv_setVMRoot [OF that]]
    by (simp_all add: switchToThread_def switchToIdleThread_def Arch_switchToThread_def Arch_switchToIdleThread_def Let_def)
  show "del_inv B (switchToThread t s)" by (rule sw [OF assms])
  have "del_inv B (nextDomain s)" by (rule del_inv_keep [OF mem_nextDomain assms])
  then show "del_inv B (scheduleChooseNewThread s)"
    using sw assms by (simp add: scheduleChooseNewThread_def chooseThread_def Let_def)
qed

lemma del_inv_schedule_switch:
  assumes "del_inv B s"
  shows "del_inv B (schedule_switch s)"
proof -
  have k: "del_inv B (tcbSchedEnqueue t s)" "del_inv B (tcbSchedAppend t s)" "del_inv B (s\<lparr>ksSchedulerAction := a\<rparr>)" if "del_inv B s" for t a s
    using del_inv_keep [OF _ that] by simp_all
  show ?thesis using assms by (simp add: schedule_switch_def Let_def k del_inv_switch)
qed

lemma mem_awaken: "awaken s = Some s' \<Longrightarrow> mem_state s' = mem_state s"
  unfolding awaken_def
  by (rule while_option_rule [where P = "\<lambda>x. mem_state x = mem_state s"]) (simp_all add: tcbReleaseDequeue_def Let_def)

lemma mem_switchSchedContext: "switchSchedContext s = Some s' \<Longrightarrow> mem_state s' = mem_state s"
  by (auto simp: switchSchedContext_def Let_def dest!: mem_sc_checks mem_commitTime split: if_splits Option.bind_splits)

lemma del_inv_leave_kernel:
  assumes "leave_kernel s = Some s'" "del_inv B s"
  shows "del_inv B s'"
proof -
  obtain s1 s2 where s1: "awaken s = Some s1"
    "switchSchedContext ((schedule_switch (checkDomainTime s1))\<lparr>ksSchedulerAction := SchedulerAction_ResumeCurrentThread\<rparr>) = Some s2"
    "mem_state s' = mem_state s2"
    using assms(1) by (auto simp: leave_kernel_def schedule_def setNextInterrupt_def Let_def dest!: mem_activateThread
        split: if_splits Option.bind_splits)
  have "mem_state (checkDomainTime s1) = mem_state s" using mem_awaken [OF s1(1)] by (simp add: checkDomainTime_def)
  then have "del_inv B (schedule_switch (checkDomainTime s1))" using del_inv_schedule_switch del_inv_keep assms(2) by blast
  moreover have "mem_state s' = mem_state (schedule_switch (checkDomainTime s1))"
    using mem_switchSchedContext [OF s1(2)] s1(3) by simp
  ultimately show ?thesis using del_inv_keep by blast
qed

end
