(* ===== verification/KernelInvoke.thy ===== *)
theory KernelInvoke
  imports KernelIPC
begin

text \<open>
  Invocations of CNode, thread, interrupt and virtual memory capabilities keep the invariant
  of deletion.
\<close>

section \<open>CNodes\<close>

lemma del_inv_rotate:
  assumes "del_inv B s" "a \<noteq> 0" "b \<noteq> 0" "x \<noteq> 0" "b \<noteq> a" "b \<noteq> x" "a \<noteq> x \<Longrightarrow> cap_at s x = cap_null_cap"
    "cap_at s a \<noteq> cap_null_cap" "cap_at s b \<noteq> cap_null_cap" "c \<noteq> cap_null_cap" "d \<noteq> cap_null_cap"
    "cap_slots_ok (intStateIRQNode s) c" "cap_slots_ok (intStateIRQNode s) d"
  shows "del_inv B (snd (invokeCNodeRotate c d a b x s))"
proof (cases "a = x")
  case True
  then show ?thesis using del_inv_swap_slots [of B s a b c d] assms by (simp add: invokeCNodeRotate_def)
next
  case False
  let ?s = "cteMove d b x s"
  have i: "del_inv B ?s" using assms False by (intro del_inv_move) auto
  have m: "cap_at ?s = (cap_at s)(x := d, b := cap_null_cap)" by (rule cap_at_move [OF assms(6)])
  have "intStateIRQNode ?s = intStateIRQNode s"
    using arg_cong [OF cte_ops_frame(2) [where m = "ctes s"], of intStateIRQNode d b x s] by simp
  then have "del_inv B (cteMove c a b ?s)" using assms False by (intro del_inv_move [OF i]) (auto simp: m)
  then show ?thesis using False by (simp add: invokeCNodeRotate_def)
qed

lemma mem_ensureEmptySlot [simp]: "mem_state (snd (ensureEmptySlot p s)) = mem_state s"
  by (simp add: ensureEmptySlot_def)

lemma cnode_new_cap_ok:
  assumes "cnode_new_cap l len p buf s = Some (e, c, move, s')" "del_inv B s"
  shows "mem_state s' = mem_state s" "cap_slots_ok (intStateIRQNode s) c"
proof -
  have ok: "cap_slots_ok (intStateIRQNode s) (cte_cap (ctes s p))" using cap_slots_ok_at [OF assms(2), of p] by (simp add: cap_at_def)
  have "mem_state s' = mem_state s \<and> cap_slots_ok (intStateIRQNode s) c"
    using assms(1) ok
    by (auto simp: cnode_new_cap_def syscall_fail_def Let_def maskCapRights_slots_ok updateCapData_slots_ok
        dest: deriveCap_slots_ok(1) deriveCap_slots_ok(2) [where N = "intStateIRQNode s"]
        split: invocation_label.splits if_splits Option.bind_splits)
  then show "mem_state s' = mem_state s" "cap_slots_ok (intStateIRQNode s) c" by blast+
qed

lemma del_inv_fail: "syscall_fail f s = (e, s') \<Longrightarrow> del_inv B s \<Longrightarrow> del_inv B s'"
  using del_inv_keep [OF mem_fail] by blast

lemma node_cap_ok: "del_inv B s \<Longrightarrow> cap_slots_ok (intStateIRQNode s) (cte_cap (ctes s p))"
  using cap_slots_ok_at [of B s p] by (simp add: cap_at_def)

lemma del_inv_decodeCNodeCopy:
  assumes "decodeCNodeCopy l len x buf s = Some (e, s')" "del_inv B s" "x \<noteq> 0"
  shows "del_inv B s'"
proof (cases "len < 4 \<or> current_extra_caps s 0 = 0 \<or> cap_at s x \<noteq> cap_null_cap")
  case True
  then have "mem_state s' = mem_state s" using assms(1)
    by (auto simp: decodeCNodeCopy_def ensureEmptySlot_def cap_at_def Let_def dest!: mem_fail split: if_splits)
  then show ?thesis using del_inv_keep assms(2) by blast
next
  case False
  let ?i = "getSyscallArg 2 buf s" and ?d = "getSyscallArg 3 buf s" and ?root = "cte_cap (ctes s (current_extra_caps s 0))"
  obtain l1 s1 where l1: "lookupSlotForCNodeOp True ?root ?i ?d s = Some (l1, s1)"
    using assms(1) False
    by (auto simp: decodeCNodeCopy_def ensureEmptySlot_def cap_at_def lookup_targets Let_def split: Option.bind_splits if_splits)
  note k1 = lookupSlotForCNodeOp_slot [OF l1 node_cap_ok [OF assms(2)] del_inv_caps_ok [OF assms(2)]]
  have i1: "del_inv B s1" by (rule del_inv_keep [OF k1(1) assms(2)])
  let ?p = "ls_slot l1"
  show ?thesis
  proof (cases "ls_status l1 \<noteq> EXCEPTION_NONE \<or> cap_at s1 ?p = cap_null_cap")
    case True
    then have "mem_state s' = mem_state s1" using assms(1) False l1
      by (auto simp: decodeCNodeCopy_def ensureEmptySlot_def cap_at_def lookup_targets Let_def dest!: mem_fail split: if_splits)
    then show ?thesis using del_inv_keep i1 by blast
  next
    case live: False
    then obtain e2 c mv s2 where c: "cnode_new_cap l len ?p buf s1 = Some (e2, c, mv, s2)"
      using assms(1) False l1
      by (auto simp: decodeCNodeCopy_def ensureEmptySlot_def cap_at_def lookup_targets Let_def split: if_splits Option.bind_splits)
    note k2 = cnode_new_cap_ok [OF c i1]
    let ?s = "setThreadState (ksCurThread s2) ThreadState_Restart s2"
    have "mem_state s' = mem_state s2 \<or> c \<noteq> cap_null_cap \<and> (s' = cteMove c ?p x ?s \<or> s' = cteInsert c ?p x ?s)"
      using assms(1) False l1 live c
      by (auto simp: decodeCNodeCopy_def ensureEmptySlot_def cap_at_def lookup_targets invokeCNodeMove_def invokeCNodeInsert_def
          Let_def dest!: mem_fail split: if_splits)
    moreover have m: "mem_state ?s = mem_state s1" and m1: "mem_state ?s = mem_state s" using k1(1) k2(1) by simp_all
    moreover have "del_inv B ?s" by (rule del_inv_keep [OF m i1])
    moreover have "?p \<noteq> 0" using k1(2) live by (simp add: user_slot_def)
    moreover have "cap_slots_ok (intStateIRQNode ?s) c" using k2(2) mem_stateD(5) [OF m] by simp
    ultimately show ?thesis
      using del_inv_move [of B ?s ?p x c] del_inv_insert [of B ?s ?p x c] assms(3) live False del_inv_keep [OF _ i1] k2(1)
      by (auto simp: cap_at_mem [OF m1] cap_at_mem [OF k1(1)])
  qed
qed

lemma rotate_slots_ok_spec:
  assumes "rotate_slots_ok a da b db x s = (e, s')"
  shows "mem_state s' = mem_state s"
    "e = EXCEPTION_NONE \<Longrightarrow> b \<noteq> a \<and> b \<noteq> x \<and> (a \<noteq> x \<longrightarrow> cap_at s x = cap_null_cap) \<and> cap_at s a \<noteq> cap_null_cap \<and> cap_at s b \<noteq> cap_null_cap"
  using assms
  by (auto simp: rotate_slots_ok_def ensureEmptySlot_def syscall_fail_def cap_at_def Let_def split: if_splits)

lemma del_inv_checked_rotate:
  assumes "rotate_slots_ok a da b db x s = (e, s1)" "del_inv B s" "a \<noteq> 0" "b \<noteq> 0" "x \<noteq> 0" "e = EXCEPTION_NONE"
    and "updateCapData True v (cte_cap (ctes s1 a)) \<noteq> cap_null_cap" "updateCapData True w (cte_cap (ctes s1 b)) \<noteq> cap_null_cap"
  shows "del_inv B (snd (invokeCNodeRotate (updateCapData True v (cte_cap (ctes s1 a))) (updateCapData True w (cte_cap (ctes s1 b)))
    a b x (restarted s1)))"
proof -
  note k = rotate_slots_ok_spec [OF assms(1)]
  have m: "mem_state (restarted s1) = mem_state s" "mem_state (restarted s1) = mem_state s1" using k(1) by simp_all
  have i: "del_inv B s1" by (rule del_inv_keep [OF k(1) assms(2)])
  moreover have "del_inv B (restarted s1)" by (rule del_inv_keep [OF m(2) i])
  ultimately show ?thesis
    using k(2) assms(3-8) mem_stateD(5) [OF m(2)] node_cap_ok [OF i] updateCapData_slots_ok
    by (intro del_inv_rotate) (auto simp: cap_at_mem [OF m(1)])
qed

lemma del_inv_decodeCNodeRotate:
  assumes "decodeCNodeRotate len x buf s = Some (e, s')" "del_inv B s" "x \<noteq> 0"
  shows "del_inv B s'"
proof (cases "len < 8 \<or> current_extra_caps s 0 = 0 \<or> current_extra_caps s 1 = 0")
  case True
  then show ?thesis using assms(1,2) del_inv_fail by (auto simp: decodeCNodeRotate_def)
next
  case False
  let ?ia = "getSyscallArg 6 buf s" and ?da = "getSyscallArg 7 buf s" and ?ra = "cte_cap (ctes s (current_extra_caps s 1))"
  let ?ib = "getSyscallArg 3 buf s" and ?db = "getSyscallArg 4 buf s" and ?rb = "cte_cap (ctes s (current_extra_caps s 0))"
  obtain l1 s1 where l1: "lookupSlotForCNodeOp True ?ra ?ia ?da s = Some (l1, s1)"
    using assms(1) False by (auto simp: decodeCNodeRotate_def lookup_targets Let_def split: Option.bind_splits)
  note k1 = lookupSlotForCNodeOp_slot [OF l1 node_cap_ok [OF assms(2)] del_inv_caps_ok [OF assms(2)]]
  have i1: "del_inv B s1" by (rule del_inv_keep [OF k1(1) assms(2)])
  let ?a = "ls_slot l1"
  show ?thesis
  proof (cases "ls_status l1 = EXCEPTION_NONE")
    case ok1: True
    obtain l2 s2 where l2: "lookupSlotForCNodeOp True ?rb ?ib ?db s1 = Some (l2, s2)"
      using assms(1) False l1 ok1 by (auto simp: decodeCNodeRotate_def lookup_targets Let_def split: Option.bind_splits)
    have "cap_slots_ok (intStateIRQNode s1) ?rb" using node_cap_ok [OF assms(2)] mem_stateD(5) [OF k1(1)] by simp
    note k2 = lookupSlotForCNodeOp_slot [OF l2 this del_inv_caps_ok [OF i1]]
    have i2: "del_inv B s2" by (rule del_inv_keep [OF k2(1) i1])
    let ?b = "ls_slot l2"
    show ?thesis
    proof (cases "ls_status l2 = EXCEPTION_NONE")
      case ok2: True
      obtain e3 s3 where r: "rotate_slots_ok ?a ?da ?b ?db x s2 = (e3, s3)" by (cases "rotate_slots_ok ?a ?da ?b ?db x s2")
      have i3: "del_inv B s3" by (rule del_inv_keep [OF rotate_slots_ok_spec(1) [OF r] i2])
      have "?a \<noteq> 0" "?b \<noteq> 0" using k1(2) [OF ok1] k2(2) [OF ok2] by (simp_all add: user_slot_def)
      note rot = del_inv_checked_rotate [OF r i2 this assms(3)]
      let ?c = "updateCapData True (getSyscallArg 5 buf s) (cte_cap (ctes s3 ?a))"
      let ?d = "updateCapData True (getSyscallArg 2 buf s) (cte_cap (ctes s3 ?b))"
      have "mem_state s' = mem_state s3 \<or> e3 = EXCEPTION_NONE \<and> ?c \<noteq> cap_null_cap \<and> ?d \<noteq> cap_null_cap \<and>
          s' = snd (invokeCNodeRotate ?c ?d ?a ?b x (restarted s3))"
        using assms(1) False l1 ok1 l2 ok2 r
        by (auto simp: decodeCNodeRotate_def lookup_targets Let_def dest!: mem_fail split: if_splits)
      then show ?thesis using rot del_inv_keep [OF _ i3] by blast
    next
      case bad: False
      then have "s' = s2" using assms(1) False l1 ok1 l2 by (auto simp: decodeCNodeRotate_def lookup_targets Let_def)
      then show ?thesis using i2 by simp
    qed
  next
    case bad: False
    then have "s' = s1" using assms(1) False l1 by (auto simp: decodeCNodeRotate_def lookup_targets Let_def)
    then show ?thesis using i1 by simp
  qed
qed

lemma del_inv_decodeCNodeInvocation:
  assumes "decodeCNodeInvocation env l len c buf s = Some (e, s')" "del_inv B s" "cap_slots_ok (intStateIRQNode s) c"
  shows "del_inv B s'"
proof (cases "l \<notin> {CNodeRevoke, CNodeDelete, CNodeCancelBadgedSends, CNodeCopy, CNodeMint, CNodeMove, CNodeMutate, CNodeRotate} \<or> len < 2")
  case True
  then have "\<exists>f. Some (syscall_fail f s) = Some (e, s')"
    using assms(1) unfolding decodeCNodeInvocation_def by (elim disjE; simp only: simp_thms if_True if_False split: if_splits; blast)
  then show ?thesis using assms(2) del_inv_fail by auto
next
  case False
  let ?i = "getSyscallArg 0 buf s" and ?d = "getSyscallArg 1 buf s"
  obtain l1 s1 where l1: "lookupSlotForCNodeOp False c ?i ?d s = Some (l1, s1)"
    using assms(1) False unfolding decodeCNodeInvocation_def lookup_targets by (auto simp: Let_def split: Option.bind_splits)
  note k1 = lookupSlotForCNodeOp_slot [OF l1 assms(3) del_inv_caps_ok [OF assms(2)]]
  have i1: "del_inv B s1" by (rule del_inv_keep [OF k1(1) assms(2)])
  have ir: "del_inv B (restarted s1)" using del_inv_keep [OF _ i1] by simp
  let ?x = "ls_slot l1"
  have b: "cancelBadgedSends (capEPPtr (cte_cap (ctes s1 ?x))) w (restarted s1) = Some s' \<Longrightarrow> del_inv B s'" for w
    using del_inv_keep [OF mem_cancel_all(3) ir] by blast
  consider "s' = s1" | "\<exists>f. syscall_fail f s1 = (e, s')" | "?x \<noteq> 0" "\<exists>k. cteRevoke env ?x 0 (restarted s1) = Some (e, k, s')"
    | "?x \<noteq> 0" "\<exists>k. cteDelete env ?x True 0 (restarted s1) = Some (e, k, s')"
    | "?x \<noteq> 0" "invokeCNodeCancelBadgedSends (cte_cap (ctes s1 ?x)) (restarted s1) = Some (e, s')"
    | "?x \<noteq> 0" "decodeCNodeRotate len ?x buf s1 = Some (e, s')" | "?x \<noteq> 0" "decodeCNodeCopy l len ?x buf s1 = Some (e, s')"
    using assms(1) False l1 k1(2)
    by (cases "ls_status l1 = EXCEPTION_NONE"; cases l)
      (auto simp: decodeCNodeInvocation_def lookup_targets drop_count_def invokeCNodeRevoke_def invokeCNodeDelete_def user_slot_def
        Let_def split: if_splits)
  then show ?thesis
  proof cases
    case 5
    then show ?thesis using b ir by (auto simp: invokeCNodeCancelBadgedSends_def Let_def split: if_splits Option.bind_splits)
  qed (use i1 ir del_inv_fail del_inv_cteRevoke [OF _ ir] del_inv_cteDelete(1) [OF _ ir]
      del_inv_decodeCNodeRotate [OF _ i1] del_inv_decodeCNodeCopy [OF _ i1] in \<open>auto, fastforce?\<close>)
qed

section \<open>Interrupts\<close>

lemma del_inv_issue_irq_handler:
  assumes "issue_irq_handler (\<lambda>x. invokeIRQControl irq x p) irq c i d s = Some (e, s')" "del_inv B s"
    and "cap_slots_ok (intStateIRQNode s) c" "p \<noteq> 0" "cap_at s p \<noteq> cap_null_cap" "slot_at (intStateIRQNode s) irq \<noteq> 0"
  shows "del_inv B s'"
proof (cases "irq > maxIRQ \<or> irq = irqInvalid \<or> isIRQActive irq s")
  case True
  then have "mem_state s' = mem_state s"
    using assms(1) by (auto simp: issue_irq_handler_def Arch_checkIRQ_def syscall_fail_def Let_def split: if_splits)
  then show ?thesis using del_inv_keep assms(2) by blast
next
  case False
  obtain l1 s1 where l1: "lookupSlotForCNodeOp False c i d s = Some (l1, s1)"
    using assms(1) False by (auto simp: issue_irq_handler_def Arch_checkIRQ_def lookup_targets Let_def split: Option.bind_splits)
  note k1 = lookupSlotForCNodeOp_slot [OF l1 assms(3) del_inv_caps_ok [OF assms(2)]]
  let ?x = "ls_slot l1" and ?s = "setIRQState IRQSignal irq (restarted s1)"
  have f: "ctes ?s = ctes s" "intStateIRQNode ?s = intStateIRQNode s" "del_inv B ?s"
  proof -
    have m: "mem_state (restarted s1) = mem_state s" using k1(1) by simp
    show "ctes ?s = ctes s" "intStateIRQNode ?s = intStateIRQNode s" using mem_stateD(1,5) [OF m] by (simp_all add: setIRQState_def)
    show "del_inv B ?s" using del_inv_keep [OF m assms(2)] del_inv_cong [of ?s "restarted s1"] by (simp add: setIRQState_def)
  qed
  have "mem_state s' = mem_state s1 \<or> ?x \<noteq> 0 \<and> cap_at s1 ?x = cap_null_cap \<and> s' = cteInsert (cap_irq_handler_cap irq) p ?x ?s"
    using assms(1) False l1 k1(2)
    by (auto simp: issue_irq_handler_def Arch_checkIRQ_def lookup_targets invokeIRQControl_def ensureEmptySlot_def cap_at_def
        user_slot_def Let_def split: if_splits)
  moreover have "del_inv B (cteInsert (cap_irq_handler_cap irq) p ?x ?s)" if "?x \<noteq> 0" "cap_at s1 ?x = cap_null_cap"
    using that assms(4-6) False f(1,2) mem_stateD(1) [OF k1(1)]
    by (intro del_inv_insert [OF f(3)]) (auto simp: cap_at_def cap_slots_ok_def)
  ultimately show ?thesis using del_inv_keep [OF _ del_inv_keep [OF k1(1) assms(2)]] by blast
qed

end
