(* ===== verification/KernelSpaces.thy ===== *)
theory KernelSpaces
  imports KernelInvoke
begin

text \<open>
  Interrupt handlers and virtual memory: invocations that change the slot of an interrupt, page
  tables, mappings recorded in capabilities, and ASIDs.
\<close>

section \<open>Interrupts\<close>

lemma ctes_vm [simp]:
  "ctes (upd_pte p e s) = ctes s" "ctes (unmapPage sz asid v b s) = ctes s" "ctes (deleteASID asid root s) = ctes s"
  "ctes (deleteASIDPool base pool s) = ctes s" "ctes (snd (findVSpaceForASID asid s)) = ctes s"
  by (simp_all add: upd_pte_def unmapPage_def deleteASID_def deleteASIDPool_def set_asid_entry_def findVSpaceForASID_eq Let_def
      split: option.splits)

lemma ctes_unmapPageTable: "unmapPageTable asid v pt s = Some s' \<Longrightarrow> ctes s' = ctes s"
  by (auto simp: unmapPageTable_def findVSpaceForASID_eq Let_def split: option.splits if_splits)

lemma ctes_finaliseCap_now:
  assumes "finaliseCap_now c final s = Some (r, s')"
  shows "ctes s' = ctes s"
proof (cases c)
  case (cap_endpoint_cap _ _ _ _ _ p)
  then show ?thesis using assms mem_stateD(1) [OF mem_cancel_all(1) [of p s]]
    by (auto simp: finaliseCap_now_def isArchCap_def split: if_splits Option.bind_splits)
next
  case (cap_notification_cap _ _ _ n)
  let ?s = "unbindMaybeNotification n (schedContextMaybeUnbindNtfn n s)"
  have "mem_state ?s = mem_state s" by simp
  then show ?thesis using assms cap_notification_cap mem_stateD(1) [OF mem_cancel_all(2) [of n ?s]] mem_stateD(1) [of ?s s]
    by (auto simp: finaliseCap_now_def isArchCap_def split: if_splits Option.bind_splits)
next
  case (cap_reply_cap r _)
  then show ?thesis using assms mem_stateD(1) [OF mem_finalise_reply [of r s]]
    by (auto simp: finaliseCap_now_def isArchCap_def split: if_splits Option.bind_splits)
next
  case (cap_page_table_cap asid b m v)
  have "ctes s1 = ctes s" if "findVSpaceForASID asid s = (f, s1)" for f s1
    using ctes_vm(5) [of asid s] that by simp
  then show ?thesis using assms cap_page_table_cap
    by (auto simp: finaliseCap_now_def isArchCap_def Arch_finaliseCap_def Let_def dest!: ctes_unmapPageTable
        split: if_splits Option.bind_splits prod.splits)
qed (use assms in \<open>auto simp: finaliseCap_now_def isArchCap_def Arch_finaliseCap_def split: if_splits Option.bind_splits\<close>)

lemma cteDeleteOne_other:
  assumes "cteDeleteOne p s = Some s'" "q \<noteq> p"
  shows "cap_at s' q = cap_at s q"
proof (cases "cte_cap (ctes s p) = cap_null_cap")
  case True
  then show ?thesis using assms(1) by (simp add: cteDeleteOne_def)
next
  case False
  then obtain r s1 where f: "finaliseCap_now (cte_cap (ctes s p)) (isFinalCapability p s) s = Some (r, s1)"
    and s': "s' = emptySlot p cap_null_cap s1"
    using assms(1) by (auto simp: cteDeleteOne_def Let_def split: if_splits Option.bind_splits)
  have c: "cap_at s1 = cap_at s" using ctes_finaliseCap_now [OF f] by (simp add: cap_at_def [abs_def])
  then show ?thesis using s' emptySlot_links(3) [of s1 p cap_null_cap] False assms(2) by (simp add: cap_at_def)
qed

lemma del_inv_decodeIRQHandler:
  assumes "decodeIRQHandlerInvocation l irq s = Some (e, s')" "del_inv B s" "cap_slots_ok (intStateIRQNode s) (cap_irq_handler_cap irq)"
    and "current_extra_caps s 0 = 0 \<or> user_slot s (current_extra_caps s 0)"
  shows "del_inv B s'"
proof -
  let ?p = "slot_at (intStateIRQNode s) irq" and ?q = "current_extra_caps s 0" and ?s = "restarted s"
  have m: "mem_state ?s = mem_state s" by simp
  note i = del_inv_keep [OF m assms(2)] and N = mem_stateD(5) [OF m]
  have p: "?p \<noteq> 0" "?p \<in> irq_slots (intStateIRQNode s)" using assms(3) by (auto simp: cap_slots_ok_def irq_slots_def)
  consider "\<exists>f. syscall_fail f s = (e, s')" | "s' = ?s" | "cteDeleteOne ?p ?s = Some s'"
    | s1 where "?q \<noteq> 0" "is_cap_notification_cap (cap_at s ?q)" "cteDeleteOne ?p ?s = Some s1" "s' = cteInsert (cap_at s ?q) ?q ?p s1"
    using assms(1)
    by (cases l; cases "cte_cap (ctes s ?q)") (auto simp: decodeIRQHandlerInvocation_def invokeIRQHandler_AckIRQ_def
        invokeIRQHandler_ClearIRQHandler_def invokeIRQHandler_SetIRQHandler_def cap_at_def N Let_def split: if_splits Option.bind_splits)
  then show ?thesis
  proof cases
    case (4 s1)
    have qp: "?q \<noteq> ?p" using assms(4) 4(1) p(2) by (auto simp: user_slot_def)
    note d = del_inv_cteDeleteOne [OF i p(1) 4(3)]
    have "cap_at s1 ?q = cap_at s ?q" using cteDeleteOne_other [OF 4(3) qp] by (simp add: cap_at_mem [OF m])
    moreover have "cap_slots_ok n (cap_at s ?q)" for n using 4(2) by (cases "cap_at s ?q") (simp_all add: cap_slots_ok_def)
    ultimately show ?thesis using 4 d p(1) by (auto intro!: del_inv_insert)
  qed (use del_inv_fail assms(2) i del_inv_cteDeleteOne(1) [OF i p(1)] in auto)
qed

lemma mem_no_err: "no_err s' = no_err s \<Longrightarrow> mem_state s' = mem_state s"
proof -
  have "mem_state (no_err s) = mem_state s" for s by (simp add: mem_state_def no_err_def)
  then show "no_err s' = no_err s \<Longrightarrow> mem_state s' = mem_state s" by metis
qed

lemma issue_irq_handler_effect:
  assumes "issue_irq_handler (\<lambda>x. invokeIRQControl irq x p) irq c i d s = Some (e, s')"
  shows "e \<noteq> EXCEPTION_NONE \<and> mem_state s' = mem_state s \<or>
    e = EXCEPTION_NONE \<and> 0 < irq \<and> irq \<le> maxIRQ \<and> \<not> isIRQActive irq s \<and>
    intStateIRQTable s' = (intStateIRQTable s)(irq := IRQSignal) \<and>
    (\<exists>x. cap_at s x = cap_null_cap \<and> cap_at s' = (cap_at s)(x := cap_irq_handler_cap irq))"
proof (cases "irq > maxIRQ \<or> irq = irqInvalid \<or> isIRQActive irq s")
  case True
  then show ?thesis
    using assms by (auto simp: issue_irq_handler_def Arch_checkIRQ_def syscall_fail_def Let_def split: if_splits)
next
  case False
  obtain l1 s1 where l1: "lookupTargetSlot c i d s = Some (l1, s1)"
    using assms False by (auto simp: issue_irq_handler_def Arch_checkIRQ_def Let_def split: Option.bind_splits)
  note m = mem_no_err [OF err_lookups(4) [OF l1]]
  let ?x = "ls_slot l1" and ?s = "setIRQState IRQSignal irq (restarted s1)"
  have r: "mem_state (restarted s1) = mem_state s" using m by simp
  have f: "cap_at ?s = cap_at s" "intStateIRQTable ?s = (intStateIRQTable s)(irq := IRQSignal)"
    using mem_stateD(1,4) [OF r] by (simp_all add: setIRQState_def cap_at_def [abs_def])
  have ins: "intStateIRQTable (cteInsert c p x t) = intStateIRQTable t" for c p x t
    using arg_cong [OF cte_ops_frame(1) [where m = "ctes t"], of intStateIRQTable] by simp
  have "e \<noteq> EXCEPTION_NONE \<and> mem_state s' = mem_state s1 \<or>
    e = EXCEPTION_NONE \<and> cap_at s1 ?x = cap_null_cap \<and> s' = cteInsert (cap_irq_handler_cap irq) p ?x ?s"
    using assms False l1
    by (auto simp: issue_irq_handler_def Arch_checkIRQ_def invokeIRQControl_def ensureEmptySlot_def cap_at_def
        Let_def split: if_splits)
  moreover have "cap_at (cteInsert (cap_irq_handler_cap irq) p ?x ?s) = (cap_at s)(?x := cap_irq_handler_cap irq)"
    by (simp add: cteInsert_links(3) f(1) after_copy_def)
  moreover have "0 < irq" "irq \<le> maxIRQ" using False by (simp_all add: irqInvalid_def word_neq_0_conv not_less)
  ultimately show ?thesis using False m cap_at_mem [OF m] f(2) by (auto simp: ins)
qed

lemma del_inv_decodeIRQControl:
  assumes "decodeIRQControlInvocation l len p buf s = Some (e, s')" "del_inv B s" "p \<noteq> 0" "cap_at s p = cap_irq_control_cap"
  shows "del_inv B s'"
proof -
  have n: "irq \<le> maxIRQ \<Longrightarrow> slot_at (intStateIRQNode s) irq \<noteq> 0" for irq
    using cap_slots_ok_at [OF assms(2), of p] assms(4) by (force simp: cap_slots_ok_def irq_slots_def)
  have iss: "del_inv B s'" if "issue_irq_handler (\<lambda>x. invokeIRQControl irq x p) irq c i d s = Some (e, s')"
    "cap_slots_ok (intStateIRQNode s) c" for irq c i d
  proof (cases "irq \<le> maxIRQ")
    case True
    then show ?thesis using del_inv_issue_irq_handler [OF that(1) assms(2) that(2) assms(3)] n assms(4) by simp
  next
    case False
    then have "mem_state s' = mem_state s"
      using that(1) by (auto simp: issue_irq_handler_def Arch_checkIRQ_def syscall_fail_def not_le)
    then show ?thesis using del_inv_keep assms(2) by blast
  qed
  show ?thesis using assms(1) iss [OF _ node_cap_ok [OF assms(2)]] del_inv_fail [OF _ assms(2)]
    by (auto simp: decodeIRQControlInvocation_def Arch_decodeIRQControlInvocation_def Arch_invokeIRQControl_def [abs_def]
        HAVE_SET_TRIGGER_def Let_def
        split: if_splits)
qed

text \<open>The registers of a request for the handler of line 5, to be placed at index 9 of the root CNode.\<close>

definition example_irq_request :: kstate where
  "example_irq_request = (upd_tcb example_thread (\<lambda>t. t\<lparr>tcbContext := (\<lambda>_. 0)(msgRegisters ! 0 := 5,
     msgRegisters ! 1 := 9, msgRegisters ! 2 := 64)\<rparr>)
     (set_cap 0x20080 cap_irq_control_cap example_system))\<lparr>current_extra_caps := (\<lambda>_. 0)(0 := 0x20020)\<rparr>"

text \<open>
  C11: An interrupt line has at most one issue of its handler: a request for a handler capability
  succeeds only for a line of the controller that is not in use; it marks this line and no other as in use,
  and writes the handler capability for this line into a slot that was empty, and nothing into any other.
  A request that fails, in particular one for a line in use, changes no capability and no line.
\<close>

theorem irq_handler_exclusive:
  assumes "decodeIRQControlInvocation label len srcSlot buffer s = Some (status, s')"
  shows "if status = EXCEPTION_NONE
    then \<exists>irq x. irq = getSyscallArg 0 buffer s \<and> 0 < irq \<and> irq \<le> maxIRQ \<and> \<not> isIRQActive irq s \<and>
      intStateIRQTable s' = (intStateIRQTable s)(irq := IRQSignal) \<and>
      cap_at s x = cap_null_cap \<and> cap_at s' = (cap_at s)(x := cap_irq_handler_cap irq)
    else intStateIRQTable s' = intStateIRQTable s \<and> cap_at s' = cap_at s"
proof -
  have "status \<noteq> EXCEPTION_NONE \<and> mem_state s' = mem_state s \<or>
    (\<exists>c i d. issue_irq_handler (\<lambda>x. invokeIRQControl (getSyscallArg 0 buffer s) x srcSlot) (getSyscallArg 0 buffer s) c i d s
      = Some (status, s'))"
    using assms
    by (auto simp: decodeIRQControlInvocation_def Arch_decodeIRQControlInvocation_def Arch_invokeIRQControl_def [abs_def]
        HAVE_SET_TRIGGER_def syscall_fail_def Let_def split: if_splits)
  then show ?thesis
  proof
    assume m: "status \<noteq> EXCEPTION_NONE \<and> mem_state s' = mem_state s"
    then show ?thesis using cap_at_mem [of s' s] mem_stateD(4) [of s' s] by simp
  next
    assume "\<exists>c i d. issue_irq_handler (\<lambda>x. invokeIRQControl (getSyscallArg 0 buffer s) x srcSlot) (getSyscallArg 0 buffer s) c i d s
      = Some (status, s')"
    from issue_irq_handler_effect this show ?thesis using cap_at_mem [of s' s] mem_stateD(4) [of s' s] by fastforce
  qed
qed

declare resolveAddressBits_loop.simps [code]

theorem irq_handler_exclusive_witness:
  "\<exists>s' x. decodeIRQControlInvocation IRQIssueIRQHandler 3 0x20080 0 example_irq_request = Some (EXCEPTION_NONE, s') \<and>
     isIRQActive 5 s' \<and> cap_at s' x = cap_irq_handler_cap 5"
proof -
  let ?r = "decodeIRQControlInvocation IRQIssueIRQHandler 3 0x20080 0 example_irq_request"
  have "map_option fst ?r = Some EXCEPTION_NONE" by code_simp
  then obtain s' where r: "?r = Some (EXCEPTION_NONE, s')" by auto
  have "getSyscallArg 0 0 example_irq_request = 5" by code_simp
  with irq_handler_exclusive [OF r] show ?thesis using r by (auto simp: isIRQActive_def)
qed

section \<open>Page tables and frames\<close>

lemma del_inv_findVSpace: "del_inv B s \<Longrightarrow> del_inv B (snd (findVSpaceForASID asid s))"
  by (cases "findVSpaceForASID asid s") (use del_inv_vm(5) in auto)

lemma del_inv_upd_pte: "del_inv B s \<Longrightarrow> del_inv B (upd_pte p e s)"
  using del_inv_cong [of "upd_pte p e s" s] by (simp add: upd_pte_def)

lemma arch_slots_ok:
  "is_cap_frame_cap c \<Longrightarrow> cap_slots_ok n c" "is_cap_page_table_cap c \<Longrightarrow> cap_slots_ok n c"
  by (cases c; simp add: cap_slots_ok_def)+

lemma set_mapping_kind [simp]:
  "is_cap_frame_cap (cap_frame_cap_set_mapping asid v c) = is_cap_frame_cap c"
  "is_cap_page_table_cap (cap_page_table_cap_set_mapping asid v c) = is_cap_page_table_cap c"
  by (cases c; simp add: cap_frame_cap_set_mapping_def cap_page_table_cap_set_mapping_def)+

lemma del_inv_set_arch:
  assumes "del_inv B s" "p \<noteq> 0" "cap_at s p \<noteq> cap_null_cap" "is_cap_frame_cap c \<or> is_cap_page_table_cap c"
  shows "del_inv B (set_cap p c s)"
  using assms arch_slots_ok by (intro del_inv_set) auto

lemma find_cap: "findVSpaceForASID asid s = (f, s') \<Longrightarrow> cap_at s' = cap_at s"
  using ctes_vm(5) [of asid s] by (simp add: cap_at_def [abs_def])

lemma restarted_cap [simp]: "cap_at (setThreadState t ts s) = cap_at s"
  by (rule cap_at_mem) simp

lemma del_inv_restarted: "del_inv B (setThreadState t ts s) = del_inv B s"
  by (rule del_inv_mem) simp

lemma del_inv_decodePageTableMap:
  assumes "decodePageTableMap len p c buf s = (e, s')" "del_inv B s" "p \<noteq> 0" "cap_at s p \<noteq> cap_null_cap" "is_cap_page_table_cap c"
  shows "del_inv B s'"
proof -
  let ?asid = "capPTMappedASID (cte_cap (ctes s (current_extra_caps s 0)))"
  obtain f s1 where f: "findVSpaceForASID ?asid s = (f, s1)" by (cases "findVSpaceForASID ?asid s")
  have i: "del_inv B s1" by (rule del_inv_vm(5) [OF assms(2) f])
  have "del_inv B (upd_pte q pt (set_cap p (cap_page_table_cap_set_mapping a v c) (restarted s1)))" for q pt a v
    using i find_cap [OF f] assms(3-5) by (intro del_inv_upd_pte del_inv_set_arch) (simp_all add: del_inv_restarted)
  then show ?thesis using assms(1,2) f i del_inv_fail
    by (auto simp: decodePageTableMap_def performPageTableInvocationMap_def Let_def split: if_splits)
qed

lemma mem_frame_checks:
  "frame_vspace c s = (e, s') \<Longrightarrow> mem_state s' = mem_state s" "frame_remap_ok c a v pt s = (e, s') \<Longrightarrow> mem_state s' = mem_state s"
proof -
  show "frame_vspace c s = (e, s') \<Longrightarrow> mem_state s' = mem_state s"
    by (auto simp: frame_vspace_def findVSpaceForASID_eq dest!: mem_fail split: if_splits option.splits)
  show "frame_remap_ok c a v pt s = (e, s') \<Longrightarrow> mem_state s' = mem_state s"
    by (auto simp: frame_remap_ok_def dest!: mem_fail split: if_splits)
qed

lemma del_inv_decodePageMap:
  assumes "decodePageMap len p c buf s = (e, s')" "del_inv B s" "p \<noteq> 0" "cap_at s p \<noteq> cap_null_cap" "is_cap_frame_cap c"
  shows "del_inv B s'"
proof -
  have step: "del_inv B (upd_pte q pt (set_cap p (cap_frame_cap_set_mapping a v c) s1))" if "mem_state s1 = mem_state s" for q pt a v s1
    using assms(3-5) cap_at_mem [OF that] by (intro del_inv_upd_pte del_inv_set_arch del_inv_keep [OF that assms(2)]) simp_all
  show ?thesis using assms(1)
    by (auto simp: decodePageMap_def performPageInvocationMapPTE_def updatePTE_def Let_def dest!: mem_frame_checks mem_fail
        intro!: step intro: del_inv_keep [OF _ assms(2)] split: if_splits prod.splits)
qed

lemma mem_performPageGetAddress [simp]: "mem_state (snd (performPageGetAddress v call s)) = mem_state s"
  by (simp add: performPageGetAddress_def Let_def case_prod_beta)

lemma del_inv_decodeFrame:
  assumes "decodeRISCVFrameInvocation l len p c call buf s = (e, s')" "del_inv B s" "p \<noteq> 0" "cap_at s p = c" "is_cap_frame_cap c"
  shows "del_inv B s'"
proof -
  let ?u = "if capFMappedASID c \<noteq> asidInvalid
    then unmapPage (capFSize c) (capFMappedASID c) (capFMappedAddress c) (capFBasePtr c) (restarted s) else restarted s"
  have u: "del_inv B ?u" "cap_at ?u p = c"
    using assms(2,4) del_inv_vm(1) [of B "restarted s"] mem_stateD(1) [of "restarted s" s]
    by (auto simp: del_inv_restarted cap_at_def)
  have "del_inv B (set_cap p (cap_frame_cap_set_mapping asidInvalid 0 c) ?u)"
    using u assms(3,5) by (intro del_inv_set_arch) auto
  then have "del_inv B (snd (performPageInvocationUnmap c p (restarted s)))"
    using u(2) by (simp add: performPageInvocationUnmap_def Let_def cap_at_def)
  moreover have "del_inv B (snd (performPageGetAddress v call (restarted s)))" for v
    using del_inv_keep [OF _ assms(2)] by simp
  moreover have "del_inv B (snd (decodePageMap len p c buf s))"
    using del_inv_decodePageMap [of len p c buf s] assms(2-5) by (cases "decodePageMap len p c buf s") auto
  moreover have "del_inv B (snd (syscall_fail f s))" for f using del_inv_keep [OF _ assms(2)] by simp
  ultimately have "del_inv B (snd (decodeRISCVFrameInvocation l len p c call buf s))"
    by (simp add: decodeRISCVFrameInvocation_def split: invocation_label.split)
  then show ?thesis using assms(1) by simp
qed

section \<open>ASIDs\<close>

lemma first_free_spec:
  assumes "first_free used n i = j" "j \<noteq> i + of_nat n" "unat i + n < 2 ^ 64"
  shows "\<not> used j \<and> unat i \<le> unat j \<and> unat j < unat i + n"
  using assms
proof (induction n arbitrary: i)
  case (Suc n)
  have u: "unat (i + 1) = unat i + 1" using Suc.prems(3) by (simp add: unat_word_ariths)
  show ?case
  proof (cases "used i")
    case True
    then show ?thesis using Suc.IH [of "i + 1"] Suc.prems u by (simp add: algebra_simps)
  next
    case False
    then show ?thesis using Suc.prems by simp
  qed
qed simp

lemma ASID_LOW_add:
  assumes "ASID_LOW base = 0" "unat i < 2 ^ asidLowBits"
  shows "ASID_LOW (base + i) = i"
proof -
  have "unat base mod 2 ^ asidLowBits = 0" using arg_cong [OF assms(1), of unat] by (simp add: ASID_LOW_def unat_and_MASK)
  then have "(unat base + unat i) mod 2 ^ asidLowBits = unat i" using assms(2) by (simp add: mod_add_eq [symmetric])
  moreover have "unat (base + i) mod 2 ^ asidLowBits = (unat base + unat i) mod 2 ^ asidLowBits"
    by (simp add: unat_word_ariths asidLowBits_def mod_mod_cancel)
  ultimately have "unat (ASID_LOW (base + i)) = unat i" by (simp add: ASID_LOW_def unat_and_MASK)
  then show ?thesis by (simp add: word_unat_eq_iff)
qed

lemma satp_registered_assign:
  assumes "satp_registered s" "asid_pools s pool i = 0"
  shows "satp_registered (set_asid_entry pool i root s)"
proof -
  have "asid_root (set_asid_entry pool i root s) a = Some r" if "asid_root s a = Some r" for a r
    using that assms(2) by (auto simp: asid_root_def set_asid_entry_def Let_def split: if_splits)
  then show ?thesis using assms(1) unfolding satp_registered_def set_asid_entry_def by auto
qed

lemma ctes_copyGlobalMappings:
  "copyGlobalMappings p s = s\<lparr>ptes := ptes (copyGlobalMappings p s)\<rparr>"
proof -
  have "fold (\<lambda>i s. upd_pte (pte_at p (of_nat i)) (ptes s (pte_at (kernel_root_pageTable s) (of_nat i))) s) xs s =
      s\<lparr>ptes := ptes (fold (\<lambda>i s. upd_pte (pte_at p (of_nat i)) (ptes s (pte_at (kernel_root_pageTable s) (of_nat i))) s) xs s)\<rparr>"
    for xs :: "nat list" and s
  proof (induction xs rule: rev_induct)
    case (snoc i xs)
    show ?case by simp (subst (1) snoc.IH, simp add: upd_pte_def)
  qed simp
  then show ?thesis unfolding copyGlobalMappings_def .
qed

lemma del_inv_performASIDPool:
  assumes "del_inv B s" "p \<noteq> 0" "is_cap_page_table_cap (cap_at s p)" "asid_pools s pool (ASID_LOW asid) = 0"
  shows "del_inv B (snd (performASIDPoolInvocation asid pool p s))"
proof -
  let ?s = "set_cap p (cap_page_table_cap_set_mapping asid 0 (cap_at s p)) s" and ?b = "capPTBasePtr (cap_at s p)"
  let ?t = "copyGlobalMappings ?b ?s"
  have i: "del_inv B ?s" using assms(1-3) by (intro del_inv_set_arch) auto
  have f: "ctes ?t = ctes ?s" "intStateIRQNode ?t = intStateIRQNode ?s" "satp ?t = satp ?s" "kernel_root_paddr ?t = kernel_root_paddr ?s"
    "asid_pools ?t = asid_pools ?s" "riscvKSASIDTable ?t = riscvKSASIDTable ?s" "tcbs ?t = tcbs ?s"
    by (subst ctes_copyGlobalMappings, simp)+
  have i: "del_inv B ?t" using i del_inv_cong [OF f] by simp
  have "asid_pools ?t pool (ASID_LOW asid) = 0" using f(5) assms(4) by (simp add: set_cap_def upd_cte_def)
  then have "satp_registered (set_asid_entry pool (ASID_LOW asid) ?b ?t)" using i satp_registered_assign unfolding del_inv_def by blast
  then have "del_inv B (set_asid_entry pool (ASID_LOW asid) ?b ?t)"
    using i mdb_ok_ctes [of "set_asid_entry pool (ASID_LOW asid) ?b ?t" ?t]
      prios_within_tcbs [of "set_asid_entry pool (ASID_LOW asid) ?b ?t" ?t]
    unfolding del_inv_def caps_ok_def by (simp add: set_asid_entry_def cap_at_def)
  then show ?thesis by (simp add: performASIDPoolInvocation_def Let_def cap_at_def)
qed

lemma del_inv_decodeASIDPoolAssign:
  assumes "decodeASIDPoolAssign l c s = (e, s')" "del_inv B s" "ASID_LOW (capASIDBase c) = 0"
  shows "del_inv B s'"
proof -
  let ?p = "current_extra_caps s 0" and ?b = "capASIDBase c"
  let ?pool = "riscvKSASIDTable s (ASID_HIGH ?b)"
  let ?i = "first_free (\<lambda>i. ?b + i = 0 \<or> asid_pools s ?pool i \<noteq> 0) (2 ^ asidLowBits) 0"
  consider "mem_state s' = mem_state s" | "?p \<noteq> 0" "is_cap_page_table_cap (cap_at s ?p)" "?i \<noteq> BIT asidLowBits"
      "s' = snd (performASIDPoolInvocation (?b + ?i) ?pool ?p (restarted s))"
    using assms(1) by (auto simp: decodeASIDPoolAssign_def cap_at_def Let_def dest!: mem_fail split: if_splits)
  then show ?thesis
  proof cases
    case 2
    have "asid_pools s ?pool ?i = 0 \<and> unat ?i < 2 ^ asidLowBits"
      using first_free_spec [OF refl, of "\<lambda>i. ?b + i = 0 \<or> asid_pools s ?pool i \<noteq> 0" "2 ^ asidLowBits" 0] 2(3)
      by (simp add: BIT_def asidLowBits_def)
    moreover have "asid_pools (restarted s) = asid_pools s" by (rule mem_stateD(3)) simp
    ultimately have "asid_pools (restarted s) ?pool (ASID_LOW (?b + ?i)) = 0" using ASID_LOW_add [OF assms(3)] by simp
    then show ?thesis using 2 assms(2) del_inv_performASIDPool [of B "restarted s" ?p] by (simp add: del_inv_restarted)
  qed (use del_inv_keep assms(2) in blast)
qed

text \<open>The requests that clear memory depend on the separation of objects, which this invariant does not state.\<close>

definition clears_memory :: "invocation_label \<Rightarrow> bool" where
  "clears_memory l \<longleftrightarrow> l \<in> {UntypedRetype, RISCVASIDControlMakePool, RISCVPageTableUnmap}"

lemma del_inv_Arch_decodeInvocation:
  assumes "Arch_decodeInvocation l len cptr p c call buf s = Some (e, s')" "del_inv B s" "p \<noteq> 0" "cap_at s p = c" "\<not> clears_memory l"
  shows "del_inv B s'"
proof (cases c)
  case (cap_page_table_cap)
  then show ?thesis using assms del_inv_decodePageTableMap [of len p c buf s] del_inv_fail
    by (auto simp: Arch_decodeInvocation_def decodeRISCVMMUInvocation_def decodeRISCVPageTableInvocation_def clears_memory_def split: if_splits)
next
  case (cap_frame_cap)
  then show ?thesis using assms del_inv_decodeFrame [of l len p c call buf s]
    by (auto simp: Arch_decodeInvocation_def decodeRISCVMMUInvocation_def)
next
  case cap_asid_control_cap
  then show ?thesis using assms del_inv_fail
    by (auto simp: Arch_decodeInvocation_def decodeRISCVMMUInvocation_def decodeASIDControlMakePool_def clears_memory_def)
next
  case (cap_asid_pool_cap b q)
  then have "ASID_LOW (capASIDBase c) = 0" using cap_slots_ok_at [OF assms(2), of p] assms(4) by (simp add: cap_slots_ok_def)
  then show ?thesis using assms cap_asid_pool_cap del_inv_decodeASIDPoolAssign [of l c s]
    by (auto simp: Arch_decodeInvocation_def decodeRISCVMMUInvocation_def)
qed (use assms in \<open>simp_all add: Arch_decodeInvocation_def decodeRISCVMMUInvocation_def\<close>)

end
