(* ===== verification/KernelThreads.thy ===== *)
theory KernelThreads
  imports KernelSpaces
begin

text \<open>
  Thread capabilities: the invocations that install capabilities delete what a thread held and then
  copy a capability that is still in its slot; the others change no slot.
\<close>

section \<open>Slots of threads\<close>

lemma thread_slot_nonnull:
  assumes "cap_slots_ok n (cap_thread_cap t)" "i < tcbCNodeEntries"
  shows "TCB_PTR_CTE_PTR t i \<noteq> 0"
proof -
  let ?b = "TCB_PTR_CTE_PTR t tcbCTable" and ?z = "Zombie_new tcbCNodeEntries ZombieType_ZombieTCB (TCB_PTR_CTE_PTR t tcbCTable)"
  have bits: "cap_zombie_cap_get_capZombieBits ?z = 4"
    by (simp add: Zombie_new_def cap_zombie_cap_get_capZombieBits_def Let_def ZombieType_ZombieTCB_def TCB_CNODE_RADIX_def)
  have al: "?b AND NOT (MASK 5) = ?b"
    by (rule bit_word_eqI) (simp add: TCB_PTR_CTE_PTR_def slot_at_def tcbCTable_def and_not_mask_bits seL4_TCBBits_def, linarith)
  have id: "capZombieID ?z = (?b AND NOT (MASK 5)) OR (tcbCNodeEntries AND MASK 5)"
    by (simp add: Zombie_new_def Let_def TCB_CNODE_RADIX_def)
  have five: "tcbCNodeEntries AND MASK 5 = tcbCNodeEntries" by (rule and_mask_less) (simp add: tcbCNodeEntries_def)
  have k: "4 + 1 = (5 :: nat)" by simp
  have "cap_zombie_cap_get_capZombieNumber ?z = tcbCNodeEntries" "cap_zombie_cap_get_capZombiePtr ?z = ?b"
    unfolding cap_zombie_cap_get_capZombieNumber_def cap_zombie_cap_get_capZombiePtr_def Let_def bits k id mask_parts
    by (rule five, rule al)
  then have "slot_at ?b i \<noteq> 0" using assms by (auto simp: cap_slots_ok_def zombie_ok_def)
  then show ?thesis by (simp add: TCB_PTR_CTE_PTR_def tcbCTable_def slot_at_def)
qed

section \<open>Installing capabilities\<close>

definition installable :: "cap \<Rightarrow> bool" where
  "installable c \<longleftrightarrow> is_cap_endpoint_cap c \<or> is_cap_cnode_cap c \<or> is_cap_page_table_cap c \<or> is_cap_frame_cap c"

lemma sameObjectAs_live:
  assumes "sameObjectAs c d" "installable c" "cap_slots_ok n d"
  shows "d \<noteq> cap_null_cap" "c \<noteq> cap_null_cap" "cap_slots_ok n c"
  using assms
  by (cases c; cases d; simp add: sameObjectAs_def sameRegionAs_def Arch_sameObjectAs_def Arch_sameRegionAs_def isArchCap_def
      installable_def cap_slots_ok_def)+

lemma del_inv_install:
  assumes "del_inv B s" "p \<noteq> 0" "cap_at s p = cap_null_cap" "q \<noteq> 0" "installable c" "sameObjectAs c (cte_cap (ctes s q))"
  shows "del_inv B (cteInsert c q p s)"
  using assms sameObjectAs_live [OF assms(6,5) node_cap_ok [OF assms(1)]]
  by (intro del_inv_insert) (auto simp: cap_at_def)

lemma del_inv_installTCBCap:
  assumes "installTCBCap env t tc slot i c q k s = Some (e, k', s')" "del_inv B s" "TCB_PTR_CTE_PTR t i \<noteq> 0"
    and "c = cap_null_cap \<or> installable c \<and> q \<noteq> 0"
  shows "del_inv B s'"
proof -
  let ?p = "TCB_PTR_CTE_PTR t i"
  obtain e1 k1 s1 where d: "cteDelete env ?p True k s = Some (e1, k1, s1)"
    using assms(1) by (auto simp: installTCBCap_def Let_def split: Option.bind_splits)
  note x = del_inv_cteDelete [OF d assms(2,3)]
  have "s' = s1 \<or> e1 = EXCEPTION_NONE \<and> c \<noteq> cap_null_cap \<and> sameObjectAs c (cte_cap (ctes s1 q)) \<and> s' = cteInsert c q ?p s1"
    using assms(1) d by (auto simp: installTCBCap_def Let_def split: if_splits)
  then show ?thesis using x del_inv_install [OF x(1) assms(3)] assms(4) by blast
qed

lemma del_inv_install_if:
  assumes "install_if b env t tc slot i c q r = Some r'" "del_inv B (snd (snd r))" "TCB_PTR_CTE_PTR t i \<noteq> 0"
    and "b \<longrightarrow> c = cap_null_cap \<or> installable c \<and> q \<noteq> 0"
  shows "del_inv B (snd (snd r'))"
proof (cases r', cases r)
  fix e k s e' k' s' assume r: "r' = (e', k', s')" "r = (e, k, s)"
  then have "r' = r \<or> b \<and> installTCBCap env t tc slot i c q k s = Some (e', k', s')"
    using assms(1) by (auto simp: install_if_def split: if_splits)
  then show ?thesis using del_inv_installTCBCap [of env t tc slot i c q k s e' k' s'] assms(2-4) r by auto
qed

lemma del_inv_install_ipc_buffer:
  assumes "install_ipc_buffer env t tc slot a c q k s = Some (e, k', s')" "del_inv B s" "TCB_PTR_CTE_PTR t tcbBuffer \<noteq> 0"
    and "q = 0 \<or> installable c"
  shows "del_inv B s'"
proof -
  let ?p = "TCB_PTR_CTE_PTR t tcbBuffer"
  obtain e1 k1 s1 where d: "cteDelete env ?p True k s = Some (e1, k1, s1)"
    using assms(1) by (auto simp: install_ipc_buffer_def Let_def split: Option.bind_splits)
  let ?s = "upd_tcb t (\<lambda>t. t\<lparr>tcbIPCBuffer := a\<rparr>) s1"
  have m: "mem_state ?s = mem_state s1" by simp
  note x = del_inv_cteDelete [OF d assms(2,3)]
  have i: "del_inv B ?s" by (rule del_inv_keep [OF m x(1)])
  have "s' = s1 \<or> mem_state s' = mem_state ?s \<or>
      e1 = EXCEPTION_NONE \<and> q \<noteq> 0 \<and> sameObjectAs c (cte_cap (ctes ?s q)) \<and> mem_state s' = mem_state (cteInsert c q ?p ?s)"
    using assms(1) d by (auto simp: install_ipc_buffer_def Let_def split: if_splits)
  moreover have "del_inv B (cteInsert c q ?p ?s)" if "e1 = EXCEPTION_NONE" "q \<noteq> 0" "sameObjectAs c (cte_cap (ctes ?s q))"
    using that x(2) assms(3,4) by (intro del_inv_install [OF i]) (auto simp: cap_at_mem [OF m])
  ultimately show ?thesis using x(1) i del_inv_keep by blast
qed

lemma del_inv_ThreadControlCaps:
  assumes "invokeTCB_ThreadControlCaps env t slot fh fhs th ths cr crs vr vrs a bc bs flags s = Some (e, k, s')"
    "del_inv B s" "cap_slots_ok n (cap_thread_cap t)"
    and "fh = cap_null_cap \<or> installable fh \<and> fhs \<noteq> 0" "th = cap_null_cap \<or> installable th \<and> ths \<noteq> 0"
    and "cr = cap_null_cap \<or> installable cr \<and> crs \<noteq> 0" "vr = cap_null_cap \<or> installable vr \<and> vrs \<noteq> 0" "bs = 0 \<or> installable bc"
  shows "del_inv B s'"
proof -
  have p: "TCB_PTR_CTE_PTR t tcbCTable \<noteq> 0" "TCB_PTR_CTE_PTR t tcbVTable \<noteq> 0" "TCB_PTR_CTE_PTR t tcbBuffer \<noteq> 0"
    "TCB_PTR_CTE_PTR t tcbFaultHandler \<noteq> 0" "TCB_PTR_CTE_PTR t tcbTimeoutHandler \<noteq> 0"
    by (rule thread_slot_nonnull [OF assms(3)], simp add: tcbCTable_def tcbVTable_def tcbBuffer_def tcbFaultHandler_def
        tcbTimeoutHandler_def tcbCNodeEntries_def)+
  let ?tc = "cap_thread_cap t"
  let ?f = "flags AND thread_control_caps_update_fault \<noteq> 0" and ?t = "flags AND thread_control_caps_update_timeout \<noteq> 0"
  let ?sp = "flags AND thread_control_caps_update_space \<noteq> 0"
  obtain r1 where r1: "install_if ?f env t ?tc slot tcbFaultHandler fh fhs (EXCEPTION_NONE, 0, s) = Some r1"
    using assms(1) by (auto simp: invokeTCB_ThreadControlCaps_def Let_def split: Option.bind_splits)
  obtain r2 where r2: "install_if ?t env t ?tc slot tcbTimeoutHandler th ths r1 = Some r2"
    using assms(1) r1 by (auto simp: invokeTCB_ThreadControlCaps_def Let_def split: Option.bind_splits)
  obtain r3 where r3: "install_if ?sp env t ?tc slot tcbCTable cr crs r2 = Some r3"
    using assms(1) r1 r2 by (auto simp: invokeTCB_ThreadControlCaps_def Let_def split: Option.bind_splits)
  obtain r4 where r4: "install_if ?sp env t ?tc slot tcbVTable vr vrs r3 = Some r4"
    using assms(1) r1 r2 r3 by (auto simp: invokeTCB_ThreadControlCaps_def Let_def split: Option.bind_splits)
  have s': "s' = snd (snd r4) \<or> install_ipc_buffer env t ?tc slot a bc bs (fst (snd r4)) (snd (snd r4)) = Some (e, k, s')"
    using assms(1) r1 r2 r3 r4 by (cases r4) (auto simp: invokeTCB_ThreadControlCaps_def Let_def split: if_splits)
  have "del_inv B (snd (snd r1))" using del_inv_install_if [OF r1 _ p(4)] assms(2,4) by simp
  then have "del_inv B (snd (snd r2))" using del_inv_install_if [OF r2 _ p(5)] assms(5) by simp
  then have "del_inv B (snd (snd r3))" using del_inv_install_if [OF r3 _ p(1)] assms(6) by simp
  then have "del_inv B (snd (snd r4))" using del_inv_install_if [OF r4 _ p(2)] assms(7) by simp
  then show ?thesis using s' del_inv_install_ipc_buffer [OF _ _ p(3)] assms(8) by blast
qed

lemma del_inv_prios:
  assumes "del_inv B s" "p \<le> B"
  shows "setPriority t p s = Some s' \<Longrightarrow> del_inv B s'" "del_inv B (setMCPriority t p s)"
proof -
  have u: "prios_within B (upd_tcb t f s)" if "f = (\<lambda>x. x\<lparr>tcbPriority := p\<rparr>) \<or> f = (\<lambda>x. x\<lparr>tcbMCP := p\<rparr>)" for f
    using that assms by (auto simp: del_inv_def prios_within_def upd_tcb_def)
  have k: "del_inv B (upd_tcb t f s)" if "f = (\<lambda>x. x\<lparr>tcbPriority := p\<rparr>) \<or> f = (\<lambda>x. x\<lparr>tcbMCP := p\<rparr>)" for f
    using assms(1) u [OF that] del_inv_cong_prio [of "upd_tcb t f s" s B] by (simp add: upd_tcb_def del_inv_def)
  show "setPriority t p s = Some s' \<Longrightarrow> del_inv B s'" using del_inv_keep [OF mem_setPriority] k by blast
  show "del_inv B (setMCPriority t p s)" using k by (simp add: setMCPriority_def)
qed

lemma del_inv_ThreadControlSched:
  assumes "invokeTCB_ThreadControlSched env t slot fh fhs mcp prio sc flags s = Some (e, k, s')"
    "del_inv B s" "cap_slots_ok n (cap_thread_cap t)" "mcp \<le> B" "prio \<le> B"
    "flags AND thread_control_sched_update_fault = 0 \<or> fh = cap_null_cap \<or> installable fh \<and> fhs \<noteq> 0"
  shows "del_inv B s'"
proof -
  have p: "TCB_PTR_CTE_PTR t tcbFaultHandler \<noteq> 0"
    by (rule thread_slot_nonnull [OF assms(3)]) (simp add: tcbFaultHandler_def tcbCNodeEntries_def)
  obtain e1 k1 s1 where r: "install_if (flags AND thread_control_sched_update_fault \<noteq> 0) env t (cap_thread_cap t) slot tcbFaultHandler
      fh fhs (EXCEPTION_NONE, 0, s) = Some (e1, k1, s1)"
    using assms(1) by (auto simp: invokeTCB_ThreadControlSched_def Let_def split: Option.bind_splits)
  have "del_inv B (snd (snd (e1, k1, s1)))" using assms(2,6) by (intro del_inv_install_if [OF r _ p]) auto
  then have i: "del_inv B s1" by simp
  let ?s2 = "if flags AND thread_control_sched_update_mcp \<noteq> 0 then setMCPriority t mcp s1 else s1"
  have i2: "del_inv B ?s2" using i del_inv_prios(2) [OF i assms(4)] by simp
  show ?thesis
  proof (cases "e1 = EXCEPTION_NONE")
    case True
    then obtain s3 where s3: "(if flags AND thread_control_sched_update_priority \<noteq> 0 then setPriority t prio ?s2 else Some ?s2) = Some s3"
      "mem_state s' = mem_state s3"
      using assms(1) r by (auto simp: invokeTCB_ThreadControlSched_def Let_def dest!: mem_thread_control(2)
          split: Option.bind_splits if_splits)
    have "del_inv B s3" using s3(1) i2 del_inv_prios(1) [OF i2 assms(5)] by (auto split: if_splits)
    then show ?thesis by (rule del_inv_keep [OF s3(2)])
  qed (use assms(1) r i in \<open>auto simp: invokeTCB_ThreadControlSched_def\<close>)
qed

section \<open>Decoding\<close>

lemma mem_registers [simp]:
  "mem_state (copy_registers rs t u s) = mem_state s" "mem_state (write_registers rs i n t b s) = mem_state s"
  "mem_state (snd (read_frame_registers t u b n s)) = mem_state s" "mem_state (snd (read_gp_registers t u b n s)) = mem_state s"
  "mem_state (setNextPC t v s) = mem_state s"
  by (simp_all add: copy_registers_def write_registers_def read_frame_registers_def read_gp_registers_def setNextPC_def Let_def mem_fold)

lemma mem_tcb_invocations:
  "invokeTCB_CopyRegisters d t a b c f g s = Some (e, s') \<Longrightarrow> mem_state s' = mem_state s"
  "invokeTCB_ReadRegisters t b w g call s = (e, s') \<Longrightarrow> mem_state s' = mem_state s"
  "invokeTCB_WriteRegisters t b w g buf s = Some (e, s') \<Longrightarrow> mem_state s' = mem_state s"
  "mem_state (invokeSetFlags t v w call s) = mem_state s"
proof -
  show "invokeTCB_CopyRegisters d t a b c f g s = Some (e, s') \<Longrightarrow> mem_state s' = mem_state s"
    by (auto simp: invokeTCB_CopyRegisters_def Arch_postModifyRegisters_def Let_def dest!: mem_thread_control
        split: if_splits Option.bind_splits)
  show "invokeTCB_ReadRegisters t b w g call s = (e, s') \<Longrightarrow> mem_state s' = mem_state s"
    by (auto simp: invokeTCB_ReadRegisters_def Let_def case_prod_beta split: if_splits)
  show "invokeTCB_WriteRegisters t b w g buf s = Some (e, s') \<Longrightarrow> mem_state s' = mem_state s"
    by (auto simp: invokeTCB_WriteRegisters_def Arch_postModifyRegisters_def Let_def dest!: mem_thread_control
        split: if_splits Option.bind_splits)
  show "mem_state (invokeSetFlags t v w call s) = mem_state s"
    by (simp add: invokeSetFlags_def Let_def case_prod_beta)
qed

lemma mem_plain_tcb_decoders:
  "decodeReadRegisters c len call buf s = Some (e, s') \<Longrightarrow> mem_state s' = mem_state s"
  "decodeWriteRegisters c len buf s = Some (e, s') \<Longrightarrow> mem_state s' = mem_state s"
  "decodeCopyRegisters c len buf s = Some (e, s') \<Longrightarrow> mem_state s' = mem_state s"
  "decodeBindNotification c s = Some (e, s') \<Longrightarrow> mem_state s' = mem_state s"
  "decodeUnbindNotification c s = Some (e, s') \<Longrightarrow> mem_state s' = mem_state s"
  "decodeSetTLSBase c len buf s = Some (e, s') \<Longrightarrow> mem_state s' = mem_state s"
  "decodeSetFlags c len call buf s = Some (e, s') \<Longrightarrow> mem_state s' = mem_state s"
  by (auto simp: decodeReadRegisters_def decodeWriteRegisters_def decodeCopyRegisters_def decodeBindNotification_def
      decodeUnbindNotification_def decodeSetTLSBase_def decodeSetFlags_def invokeTCB_NotificationControl_def
      invokeSetTLSBase_def mem_tcb_invocations(4) Let_def dest!: mem_fail mem_tcb_invocations(1-3) split: if_splits cap.splits)

lemma decode_ipc_buffer_ok:
  assumes "decode_ipc_buffer a p s = Some (e, c, q, s')"
  shows "mem_state s' = mem_state s" "e = EXCEPTION_NONE \<Longrightarrow> q = 0 \<or> installable c"
proof -
  have v: "checkValidIPCBuffer a c s1 = (e, s') \<Longrightarrow> mem_state s' = mem_state s1 \<and> (e = EXCEPTION_NONE \<longrightarrow> is_cap_frame_cap c)" for s1
    by (auto simp: checkValidIPCBuffer_def syscall_fail_def split: if_splits)
  have "mem_state s' = mem_state s \<and> (e = EXCEPTION_NONE \<longrightarrow> q = 0 \<or> installable c)"
    using assms v by (auto simp: decode_ipc_buffer_def installable_def Let_def dest!: deriveCap_slots_ok(1)
        split: if_splits Option.bind_splits prod.splits)
  then show "mem_state s' = mem_state s" "e = EXCEPTION_NONE \<Longrightarrow> q = 0 \<or> installable c" by blast+
qed

lemma decode_root_ok:
  assumes "decode_root valid w p c s = Some (e, d, s')"
  shows "mem_state s' = mem_state s" "e = EXCEPTION_NONE \<Longrightarrow> valid d"
  using assms by (auto simp: decode_root_def syscall_fail_def dest!: deriveCap_slots_ok(1) split: if_splits Option.bind_splits)

lemma installable_kinds:
  "is_cap_cnode_cap c \<Longrightarrow> installable c" "isValidVTableRoot c \<Longrightarrow> installable c" "validFaultHandler c \<Longrightarrow> c = cap_null_cap \<or> installable c"
  by (simp_all add: installable_def isValidVTableRoot_def validFaultHandler_def split: cap.splits)

lemma del_inv_control_caps:
  assumes "drop_count (invokeTCB_ThreadControlCaps env t slot fh fhs th ths cr crs vr vrs a bc bs flags (restarted s)) = Some (e, s')"
    "del_inv B s" "cap_slots_ok n (cap_thread_cap t)"
    and "fh = cap_null_cap \<or> installable fh \<and> fhs \<noteq> 0" "th = cap_null_cap \<or> installable th \<and> ths \<noteq> 0"
    and "cr = cap_null_cap \<or> installable cr \<and> crs \<noteq> 0" "vr = cap_null_cap \<or> installable vr \<and> vrs \<noteq> 0" "bs = 0 \<or> installable bc"
  shows "del_inv B s'"
proof -
  obtain k where "invokeTCB_ThreadControlCaps env t slot fh fhs th ths cr crs vr vrs a bc bs flags (restarted s) = Some (e, k, s')"
    using assms(1) by (auto simp: drop_count_def)
  from del_inv_ThreadControlCaps [OF this _ assms(3-8)] assms(2) show ?thesis by (simp add: del_inv_restarted)
qed

lemma del_inv_decodeSetTimeoutEndpoint:
  assumes "decodeSetTimeoutEndpoint env (cap_thread_cap t) slot s = Some (e, s')" "del_inv B s" "cap_slots_ok n (cap_thread_cap t)"
  shows "del_inv B s'"
  using assms(1) del_inv_control_caps [OF _ assms(2,3)] installable_kinds(3)
  by (auto simp: decodeSetTimeoutEndpoint_def Let_def dest!: mem_fail intro: del_inv_keep [OF _ assms(2)] split: if_splits)

lemma del_inv_decodeSetIPCBuffer:
  assumes "decodeSetIPCBuffer env (cap_thread_cap t) len slot buf s = Some (e, s')" "del_inv B s" "cap_slots_ok n (cap_thread_cap t)"
  shows "del_inv B s'"
proof (cases "len < 1 \<or> extra_slot 0 s = 0")
  case False
  then obtain e1 bc bs s1 where b: "decode_ipc_buffer (getSyscallArg 0 buf s) (extra_slot 0 s) s = Some (e1, bc, bs, s1)"
    using assms(1) by (auto simp: decodeSetIPCBuffer_def Let_def split: Option.bind_splits)
  have i: "del_inv B s1" by (rule del_inv_keep [OF decode_ipc_buffer_ok(1) [OF b] assms(2)])
  show ?thesis using assms(1) False b decode_ipc_buffer_ok(2) [OF b] del_inv_control_caps [OF _ i assms(3)] i
    by (auto simp: decodeSetIPCBuffer_def Let_def split: if_splits)
qed (use assms in \<open>auto simp: decodeSetIPCBuffer_def dest!: mem_fail intro: del_inv_keep\<close>)

text \<open>The end of \<open>decodeTCBConfigure\<close> and \<open>decodeSetSpace\<close>, from the check of the two roots on.\<close>

definition decode_roots where
  "decode_roots env t slot w1 p1 c1 w2 p2 c2 b fh fhs a bc bs flags s = do {
     (e, cr, s) \<leftarrow> decode_root is_cap_cnode_cap w1 p1 c1 s;
     if e \<noteq> EXCEPTION_NONE then Some (e, s)
     else do {
       (e, vr, s) \<leftarrow> decode_root isValidVTableRoot w2 p2 c2 s;
       if e \<noteq> EXCEPTION_NONE then Some (e, s)
       else if b then invalid_capability 1 s
       else drop_count (invokeTCB_ThreadControlCaps env t slot fh fhs cap_null_cap 0 cr p1 vr p2 a bc bs flags (restarted s))
     }
   }"

lemma del_inv_decode_roots:
  assumes "decode_roots env t slot w1 p1 c1 w2 p2 c2 b fh fhs a bc bs flags s = Some (e, s')" "del_inv B s"
    "cap_slots_ok n (cap_thread_cap t)" "p1 \<noteq> 0" "p2 \<noteq> 0" "b \<or> fh = cap_null_cap \<or> installable fh \<and> fhs \<noteq> 0" "bs = 0 \<or> installable bc"
  shows "del_inv B s'"
proof -
  obtain e1 cr s1 where r1: "decode_root is_cap_cnode_cap w1 p1 c1 s = Some (e1, cr, s1)"
    using assms(1) by (auto simp: decode_roots_def split: Option.bind_splits)
  note k1 = decode_root_ok [OF r1]
  have i1: "del_inv B s1" by (rule del_inv_keep [OF k1(1) assms(2)])
  show ?thesis
  proof (cases "e1 = EXCEPTION_NONE")
    case True
    then obtain e2 vr s2 where r2: "decode_root isValidVTableRoot w2 p2 c2 s1 = Some (e2, vr, s2)"
      using assms(1) r1 by (auto simp: decode_roots_def split: Option.bind_splits)
    note k2 = decode_root_ok [OF r2]
    have i2: "del_inv B s2" by (rule del_inv_keep [OF k2(1) i1])
    show ?thesis
      using assms(1) True r1 r2 i2 k1(2) k2(2) installable_kinds(1,2) assms(4-7) del_inv_control_caps [OF _ i2 assms(3)] del_inv_fail
      by (auto simp: decode_roots_def split: if_splits)
  qed (use assms(1) r1 i1 in \<open>auto simp: decode_roots_def\<close>)
qed

lemma del_inv_decodeTCBConfigure:
  assumes "decodeTCBConfigure env (cap_thread_cap t) len slot buf s = Some (e, s')" "del_inv B s" "cap_slots_ok n (cap_thread_cap t)"
  shows "del_inv B s'"
proof (cases "len < 3 \<or> extra_slot 0 s = 0 \<or> extra_slot 1 s = 0 \<or> extra_slot 2 s = 0")
  case False
  then obtain e1 bc bs s1 where b: "decode_ipc_buffer (getSyscallArg 2 buf s) (extra_slot 2 s) s = Some (e1, bc, bs, s1)"
    using assms(1) by (auto simp: decodeTCBConfigure_def Let_def split: Option.bind_splits)
  have i: "del_inv B s1" by (rule del_inv_keep [OF decode_ipc_buffer_ok(1) [OF b] assms(2)])
  have "s' = s1 \<or> (\<exists>f. syscall_fail f s1 = (e, s')) \<or> e1 = EXCEPTION_NONE \<and>
      decode_roots env t slot (getSyscallArg 0 buf s) (extra_slot 0 s) (extra_cap 0 s) (getSyscallArg 1 buf s) (extra_slot 1 s) (extra_cap 1 s)
        False cap_null_cap 0 (getSyscallArg 2 buf s) bc bs (thread_control_caps_update_space OR thread_control_caps_update_ipc_buffer) s1
      = Some (e, s')"
    using assms(1) False b by (auto simp: decodeTCBConfigure_def decode_roots_def Let_def cong: if_cong split: if_splits)
  then show ?thesis
    using i del_inv_fail del_inv_decode_roots [where b = False and fh = cap_null_cap, simplified, OF _ i assms(3)]
      decode_ipc_buffer_ok(2) [OF b] False by blast
qed (use assms in \<open>auto simp: decodeTCBConfigure_def dest!: mem_fail intro: del_inv_keep\<close>)

lemma del_inv_decodeSetSpace:
  assumes "decodeSetSpace env (cap_thread_cap t) len slot buf s = Some (e, s')" "del_inv B s" "cap_slots_ok n (cap_thread_cap t)"
  shows "del_inv B s'"
proof (cases "len < 2 \<or> extra_slot 0 s = 0 \<or> extra_slot 1 s = 0 \<or> extra_slot 2 s = 0")
  case False
  have "(\<exists>f. syscall_fail f s = (e, s')) \<or>
      decode_roots env t slot (getSyscallArg 0 buf s) (extra_slot 1 s) (extra_cap 1 s) (getSyscallArg 1 buf s) (extra_slot 2 s) (extra_cap 2 s)
        (\<not> validFaultHandler (extra_cap 0 s)) (extra_cap 0 s) (extra_slot 0 s) 0 cap_null_cap 0
        (thread_control_caps_update_space OR thread_control_caps_update_fault) s = Some (e, s')"
    using assms(1) False by (auto simp: decodeSetSpace_def decode_roots_def Let_def cong: if_cong split: if_splits)
  then show ?thesis
    using assms(2) del_inv_fail del_inv_decode_roots [where b = "\<not> validFaultHandler (extra_cap 0 s)" and bs = 0, OF _ assms(2,3)]
      installable_kinds(3) [of "extra_cap 0 s"] False by blast
qed (use assms in \<open>auto simp: decodeSetSpace_def dest!: mem_fail intro: del_inv_keep\<close>)

lemma del_inv_control_sched:
  assumes "drop_count (invokeTCB_ThreadControlSched env t slot fh fhs mcp prio sc flags (restarted s)) = Some (e, s')"
    "del_inv B s" "cap_slots_ok n (cap_thread_cap t)" "mcp \<le> B" "prio \<le> B"
    "flags AND thread_control_sched_update_fault = 0 \<or> fh = cap_null_cap \<or> installable fh \<and> fhs \<noteq> 0"
  shows "del_inv B s'"
proof -
  obtain k where "invokeTCB_ThreadControlSched env t slot fh fhs mcp prio sc flags (restarted s) = Some (e, k, s')"
    using assms(1) by (auto simp: drop_count_def)
  from del_inv_ThreadControlSched [OF this _ assms(3-6)] assms(2) show ?thesis by (simp add: del_inv_restarted)
qed

text \<open>A priority that passes the check is bounded by the maximum controlled priority of a thread.\<close>

lemma checkPrio_within:
  assumes "checkPrio p t s = (e, s')"
  shows "mem_state s' = mem_state s" "e = EXCEPTION_NONE \<Longrightarrow> del_inv B s \<Longrightarrow> p \<le> B"
proof -
  show "mem_state s' = mem_state s" using assms by (auto simp: checkPrio_def syscall_fail_def Let_def split: if_splits)
  assume "e = EXCEPTION_NONE" "del_inv B s"
  then have "p \<le> tcbMCP (tcbs s t)" "tcbMCP (tcbs s t) \<le> B"
    using assms by (auto simp: checkPrio_def syscall_fail_def Let_def del_inv_def prios_within_def split: if_splits)
  then show "p \<le> B" by (rule order_trans)
qed

lemma mem_sched_params_sc: "sched_params_sc t c s = (e, sc, s') \<Longrightarrow> mem_state s' = mem_state s"
  by (auto simp: sched_params_sc_def syscall_fail_def Let_def split: if_splits cap.splits)

lemma del_inv_prio_decoders:
  assumes "del_inv B s" "cap_slots_ok n (cap_thread_cap t)"
  shows "decodeSetPriority env (cap_thread_cap t) len buf s = Some (e, s') \<Longrightarrow> del_inv B s'"
    "decodeSetMCPriority env (cap_thread_cap t) len buf s = Some (e, s') \<Longrightarrow> del_inv B s'"
proof -
  let ?p = "getSyscallArg 0 buf s" and ?auth = "capTCBPtr (extra_cap 0 s)"
  obtain e1 s1 where c: "checkPrio ?p ?auth s = (e1, s1)" by (cases "checkPrio ?p ?auth s")
  note k = checkPrio_within [OF c]
  have i: "del_inv B s1" by (rule del_inv_keep [OF k(1) assms(1)])
  have sched: "del_inv B s'"
    if "drop_count (invokeTCB_ThreadControlSched env t 0 cap_null_cap 0 mcp prio 0 flags (restarted s1)) = Some (e, s')" "mcp \<le> B" "prio \<le> B"
    for mcp prio flags using del_inv_control_sched [OF that(1) i assms(2) that(2,3)] by blast
  have z: "NULL_PRIO \<le> B" by (simp add: NULL_PRIO_def)
  note f = del_inv_fail [OF _ assms(1)]
  show "decodeSetPriority env (cap_thread_cap t) len buf s = Some (e, s') \<Longrightarrow> del_inv B s'"
    using c i k(2) [OF _ assms(1)] sched z by (auto simp: decodeSetPriority_def Let_def dest!: f split: if_splits)
  show "decodeSetMCPriority env (cap_thread_cap t) len buf s = Some (e, s') \<Longrightarrow> del_inv B s'"
    using c i k(2) [OF _ assms(1)] sched z by (auto simp: decodeSetMCPriority_def Let_def dest!: f split: if_splits)
qed

lemma del_inv_decodeSetSchedParams:
  assumes "decodeSetSchedParams env (cap_thread_cap t) len slot buf s = Some (e, s')" "del_inv B s" "cap_slots_ok n (cap_thread_cap t)"
  shows "del_inv B s'"
proof (cases "len < 2 \<or> extra_slot 0 s = 0 \<or> extra_slot 1 s = 0 \<or> extra_slot 2 s = 0 \<or> \<not> is_cap_thread_cap (extra_cap 0 s)")
  case False
  let ?mcp = "getSyscallArg 0 buf s" and ?prio = "getSyscallArg 1 buf s" and ?auth = "capTCBPtr (extra_cap 0 s)"
  obtain e1 s1 where c1: "checkPrio ?mcp ?auth s = (e1, s1)" by (cases "checkPrio ?mcp ?auth s")
  obtain e2 s2 where c2: "checkPrio ?prio ?auth s1 = (e2, s2)" by (cases "checkPrio ?prio ?auth s1")
  obtain e3 sc s3 where c3: "sched_params_sc t (extra_cap 1 s) s2 = (e3, sc, s3)" by (cases "sched_params_sc t (extra_cap 1 s) s2")
  note k1 = checkPrio_within [OF c1] and k2 = checkPrio_within [OF c2]
  have i1: "del_inv B s1" by (rule del_inv_keep [OF k1(1) assms(2)])
  have i2: "del_inv B s2" by (rule del_inv_keep [OF k2(1) i1])
  have i3: "del_inv B s3" by (rule del_inv_keep [OF mem_sched_params_sc [OF c3] i2])
  consider "s' = s1" | "s' = s2" | "s' = s3" | "\<exists>f. syscall_fail f s3 = (e, s')"
    | flags where "e1 = EXCEPTION_NONE" "e2 = EXCEPTION_NONE" "validFaultHandler (extra_cap 2 s)"
        "drop_count (invokeTCB_ThreadControlSched env t slot (extra_cap 2 s) (extra_slot 2 s) ?mcp ?prio sc flags (restarted s3)) = Some (e, s')"
    using assms(1) False c1 c2 c3 by (auto simp: decodeSetSchedParams_def Let_def split: if_splits)
  then show ?thesis
  proof cases
    case (5 flags)
    from del_inv_control_sched [OF 5(4) i3 assms(3) k1(2) [OF 5(1) assms(2)] k2(2) [OF 5(2) i1]] show ?thesis
      using installable_kinds(3) [OF 5(3)] False by blast
  qed (use i1 i2 i3 del_inv_fail in auto)
qed (use assms in \<open>auto simp: decodeSetSchedParams_def dest!: mem_fail intro: del_inv_keep split: if_splits\<close>)

lemma del_inv_decodeTCBInvocation:
  assumes "decodeTCBInvocation env l len (cap_thread_cap t) slot call buf s = Some (e, s')" "del_inv B s" "cap_slots_ok n (cap_thread_cap t)"
  shows "del_inv B s'"
proof -
  note k = del_inv_keep [OF _ assms(2)] and i = assms(2,3)
  have r: "invokeTCB_Resume t (restarted s) = Some (e, s') \<Longrightarrow> mem_state s' = mem_state s"
    by (auto simp: invokeTCB_Resume_def dest!: mem_thread_control)
  show ?thesis using assms(1)
    by (auto simp: decodeTCBInvocation_def invokeTCB_Suspend_def dest!: mem_plain_tcb_decoders mem_fail r
        dest: del_inv_decodeTCBConfigure [OF _ i] del_inv_decodeSetSpace [OF _ i] del_inv_decodeSetIPCBuffer [OF _ i]
          del_inv_decodeSetTimeoutEndpoint [OF _ i] del_inv_prio_decoders [OF i] del_inv_decodeSetSchedParams [OF _ i] intro: k split: invocation_label.splits)
qed

end
