(* ===== verification/KernelEntry.thy ===== *)
theory KernelEntry
  imports KernelThreads
begin

text \<open>
  Every entry into the kernel that asks for no memory to be cleared keeps the capability system
  consistent.
\<close>

section \<open>Invocations\<close>

lemma del_inv_decodeInvocation:
  assumes "decodeInvocation env l len ci p c bl call don first buf s = Some (e, s')" "del_inv B s" "p \<noteq> 0" "cap_at s p = c"
    and "current_extra_caps s 0 = 0 \<or> user_slot s (current_extra_caps s 0)" "\<not> clears_memory l"
  shows "del_inv B s'"
proof (cases "isArchCap c")
  case True
  then show ?thesis
    using assms(1) del_inv_Arch_decodeInvocation [OF _ assms(2-4,6)] by (simp add: decodeInvocation_def)
next
  case False
  have r: "del_inv B (restarted s)" using assms(2) by (simp add: del_inv_restarted)
  note ok = cap_slots_ok_at [OF assms(2), of p, unfolded assms(4)]
  have f: "fail_with f s = Some (e, s') \<Longrightarrow> del_inv B s'" for f using del_inv_fail [OF _ assms(2)] by auto
  have u: "decodeUntypedInvocation env l len p c call buf s = Some (e, s') \<Longrightarrow> del_inv B s'"
    using assms(6) f by (simp add: decodeUntypedInvocation_def clears_memory_def)
  show ?thesis
    using assms(1) False
  proof (cases c)
    case (cap_irq_handler_cap irq)
    then show ?thesis using assms(1) False del_inv_decodeIRQHandler [OF _ assms(2) _ assms(5)] ok by (simp add: decodeInvocation_def)
  next
    case cap_irq_control_cap
    then show ?thesis using assms(1) False del_inv_decodeIRQControl [OF _ assms(2,3)] assms(4) by (simp add: decodeInvocation_def)
  next
    case (cap_thread_cap t)
    then show ?thesis using assms(1) False f del_inv_decodeTCBInvocation [OF _ assms(2)] ok
      by (auto simp: decodeInvocation_def split: if_splits)
  next
    case (cap_cnode_cap a b d g)
    then show ?thesis using assms(1) False f del_inv_decodeCNodeInvocation [OF _ assms(2)] ok
      by (auto simp: decodeInvocation_def split: if_splits)
  next
    case cap_domain_cap
    have "mem_state (snd (decodeDomainInvocation l len buf s)) = mem_state s" by (rule mem_domain)
    then show ?thesis using cap_domain_cap assms(1) False f del_inv_keep [OF _ assms(2)]
      by (cases "decodeDomainInvocation l len buf s") (auto simp: decodeInvocation_def split: if_splits)
  qed (use assms(1) False u f del_inv_keep [OF mem_sched_control assms(2)] del_inv_keep [OF mem_sched_context assms(2)]
      del_inv_sendIPC [OF _ r] del_inv_keep [OF mem_sendSignal r] del_inv_doReplyTransfer [OF _ r] in
      \<open>auto simp: decodeInvocation_def performInvocation_Endpoint_def performInvocation_Notification_def
        performInvocation_Reply_def split: if_splits\<close>)
qed

text \<open>The label of the message in the registers of the current thread.\<close>

definition requested :: "labels \<Rightarrow> kstate \<Rightarrow> invocation_label" where
  "requested labels s =
     labels (seL4_MessageInfo_get_label (messageInfoFromWord (getRegister s (ksCurThread s) msgInfoRegister)))"

lemma del_inv_reply_to_invocation:
  assumes "reply_to_invocation t call st s = Some (e, s')" "del_inv B s"
  shows "del_inv B s'"
proof -
  have "mem_state s' = mem_state s" using assms(1)
    by (auto simp: reply_to_invocation_def dest!: mem_fault_transfer(3) split: if_splits)
  then show ?thesis using del_inv_keep assms(2) by blast
qed

lemma del_inv_handleInvocation:
  assumes "handleInvocation labels env call bl don first cptr s = Some (e, s')" "del_inv B s" "\<not> clears_memory (requested labels s)"
  shows "del_inv B s'"
proof -
  let ?t = "ksCurThread s" and ?info = "messageInfoFromWord (getRegister s (ksCurThread s) msgInfoRegister)"
  obtain l s1 where l: "lookupCapAndSlot ?t cptr s = Some (l, s1)"
    using assms(1) by (auto simp: handleInvocation_def Let_def split: Option.bind_splits)
  note k1 = lookupCapAndSlot_slot [OF l assms(2)]
  have i1: "del_inv B s1" by (rule del_inv_keep [OF k1(1) assms(2)])
  show ?thesis
  proof (cases "lcs_status l = EXCEPTION_NONE")
    case False
    then have "s' = cap_fault cptr False s1 \<or> handleFault ?t (cap_fault cptr False s1) = Some s'"
      using assms(1) l by (auto simp: handleInvocation_def Let_def split: if_splits)
    then show ?thesis using del_inv_keep [OF mem_time(2) i1] del_inv_faults(1) by blast
  next
    case True
    let ?buf = "lookupIPCBuffer False ?t s1"
    obtain st s2 where x: "lookupExtraCaps ?t ?buf ?info s1 = Some (st, s2)"
      using assms(1) l True by (auto simp: handleInvocation_def Let_def split: Option.bind_splits)
    note k2 = lookupExtraCaps_slots [OF x i1]
    have i2: "del_inv B s2" by (rule del_inv_keep [OF k2(1) i1])
    show ?thesis
    proof (cases "st = EXCEPTION_NONE")
      case False
      then have "s' = s2 \<or> handleFault ?t s2 = Some s'"
        using assms(1) l True x by (auto simp: handleInvocation_def Let_def split: if_splits)
      then show ?thesis using i2 del_inv_faults(1) by blast
    next
      case st: True
      obtain len st' s3 where d: "decodeInvocation env (requested labels s) len cptr (lcs_slot l) (lcs_cap l) bl call don first ?buf s2 = Some (st', s3)"
        "reply_to_invocation ?t call st' s3 = Some (e, s')"
        using assms(1) l True x st by (auto simp: handleInvocation_def requested_def Let_def split: Option.bind_splits)
      have p: "lcs_slot l \<noteq> 0" "cap_at s2 (lcs_slot l) = lcs_cap l" "extra_slot 0 s2 = 0 \<or> user_slot s2 (extra_slot 0 s2)"
        using k1(2) [OF True] k2(2) [OF st] by (auto simp: user_slot_def cap_at_mem [OF k2(1)] cap_at_mem [OF k1(1)] mem_stateD(5) [OF k2(1)])
      from del_inv_decodeInvocation [OF d(1) i2 p assms(3)] show ?thesis by (rule del_inv_reply_to_invocation [OF d(2)])
    qed
  qed
qed

section \<open>System calls and other entries\<close>

lemma del_inv_after_invocation:
  assumes "after_invocation irq next_phase (e, s) = Some s'" "del_inv B s" "\<And>s s'. next_phase s = Some s' \<Longrightarrow> del_inv B s \<Longrightarrow> del_inv B s'"
  shows "del_inv B s'"
proof (cases "e = EXCEPTION_NONE")
  case True
  then show ?thesis using assms(1) assms(3) [OF _ assms(2)] by (simp add: after_invocation_def)
next
  case False
  then obtain s1 where "mcsPreemptionPoint s = Some s1" "checkInterrupt irq s1 = Some s'"
    using assms(1) by (auto simp: after_invocation_def split: Option.bind_splits)
  then show ?thesis using del_inv_budget_points(1,3) assms(2) by blast
qed

lemma del_inv_syscall_action:
  assumes "syscall_action labels m call s = Some s'" "del_inv B s" "\<not> clears_memory (requested labels s)"
  shows "del_inv B s'"
proof -
  note inv = del_inv_handleInvocation [OF _ assms(2,3)]
  have h: "del_inv B s'" if r: "Option.bind (handleInvocation labels env a b c d cptr s) (after_invocation irq next_phase) = Some s'"
    "\<And>s s'. next_phase s = Some s' \<Longrightarrow> del_inv B s \<Longrightarrow> del_inv B s'" for env a b c d cptr irq next_phase
  proof -
    obtain e s1 where i: "handleInvocation labels env a b c d cptr s = Some (e, s1)" and n: "after_invocation irq next_phase (e, s1) = Some s'"
      using r unfolding bind_eq_Some_conv by auto
    from del_inv_after_invocation [OF n inv [OF i]] that(2) show ?thesis by blast
  qed
  have rr: "del_inv B s'" if "Option.bind (handleInvocation labels env a b c d cptr s) (\<lambda>(ret, s). handleRecv bl rp s) = Some s'"
    for env a b c d cptr bl rp
    using that inv del_inv_handleRecv [of bl rp _ s'] by (auto split: Option.bind_splits)
  have h1: "del_inv B s'" if "Option.bind (handleInvocation labels env a b c d cptr s) (after_invocation irq Some) = Some s'"
    for env a b c d cptr irq by (rule h [OF that]) simp
  have h2: "del_inv B s'" if "Option.bind (handleInvocation labels env a b c d cptr s) (after_invocation irq (handleRecv bl rp)) = Some s'"
    for env a b c d cptr irq bl rp by (rule h [OF that del_inv_handleRecv])
  show ?thesis
    using assms(1)
    by (cases call) (auto simp: syscall_action_def Let_def intro: h1 h2 rr del_inv_handleRecv [OF _ assms(2)]
        del_inv_budget_points(2) [OF assms(2)])
qed

text \<open>The work of an entry is only done when there is budget left, from the state of the entry.\<close>

lemma del_inv_if_budget:
  assumes "MCS_DO_IF_BUDGET now block s = Some s'" "del_inv B s"
    "\<And>s1. s1 = updateTimestamp now s \<Longrightarrow> del_inv B s1 \<Longrightarrow> block s1 = Some s' \<Longrightarrow> del_inv B s'"
  shows "del_inv B s'"
proof -
  let ?s = "updateTimestamp now s"
  have i: "del_inv B ?s" by (rule del_inv_keep [OF mem_time(1) assms(2)])
  obtain ok s1 where c: "checkBudgetRestart ?s = Some (ok, s1)" "(if ok then block s1 else Some s1) = Some s'"
    using assms(1) by (auto simp: MCS_DO_IF_BUDGET_def split: Option.bind_splits)
  have "ok \<Longrightarrow> s1 = ?s"
    using c(1) by (auto simp: checkBudgetRestart_def checkBudget_def split: if_splits Option.bind_splits)
  then show ?thesis using c assms(3) i del_inv_checkBudget(2) [OF c(1) i] by (auto split: if_splits)
qed

lemma requested_updateTimestamp: "requested labels (updateTimestamp now s) = requested labels s"
  by (simp add: requested_def updateTimestamp_def getRegister_def Let_def)

lemma del_inv_kernel_entry:
  assumes "kernel_entry labels m trap s = Some s'" "del_inv B s" "\<not> clears_memory (requested labels s)"
  shows "del_inv B s'"
proof -
  have budget: "del_inv B s'" if r: "Option.bind (MCS_DO_IF_BUDGET (m_time m) block s) leave_kernel = Some s'"
    "\<And>s2. del_inv B (updateTimestamp (m_time m) s) \<Longrightarrow> block (updateTimestamp (m_time m) s) = Some s2 \<Longrightarrow> del_inv B s2" for block
  proof -
    obtain s1 where s1: "MCS_DO_IF_BUDGET (m_time m) block s = Some s1" "leave_kernel s1 = Some s'"
      using r unfolding bind_eq_Some_conv by auto
    have "del_inv B s1" using del_inv_if_budget [OF s1(1) assms(2)] that(2) by blast
    then show ?thesis by (rule del_inv_leave_kernel [OF s1(2)])
  qed
  have fault: "del_inv B s2" if "handleFault t (s1\<lparr>current_fault := f\<rparr>) = Some s2" "del_inv B s1" for t s1 f s2
    using del_inv_faults(1) [OF that(1)] del_inv_keep [OF mem_globals(5) that(2)] by blast
  have sys: "handleSyscall labels m call s = Some s' \<Longrightarrow> del_inv B s'" for call
    unfolding handleSyscall_def
    by (erule budget) (use del_inv_syscall_action assms(3) requested_updateTimestamp in metis)
  have unk: "handleUnknownSyscall m w s = Some s' \<Longrightarrow> del_inv B s'" for w
    unfolding handleUnknownSyscall_def by (erule budget) (rule fault)
  have ufl: "handleUserLevelFault m w v s = Some s' \<Longrightarrow> del_inv B s'" for w v
    unfolding handleUserLevelFault_def by (erule budget) (rule fault)
  have vm: "handleVMFaultEvent m w s = Some s' \<Longrightarrow> del_inv B s'" for w
    unfolding handleVMFaultEvent_def
    by (erule budget) (auto simp: handleVMFault_def dest!: fault split: if_splits)
  have irq: "del_inv B s'" if r: "handleInterruptEntry m s = Some s'"
  proof -
    obtain b s1 s2 where "checkBudget (updateTimestamp (m_time m) s) = Some (b, s1)" "checkInterrupt (m_irq m) s1 = Some s2"
      "leave_kernel s2 = Some s'"
      using r by (auto simp: handleInterruptEntry_def split: Option.bind_splits)
    then show ?thesis using del_inv_checkBudget(1) del_inv_keep [OF mem_time(1) assms(2)] del_inv_budget_points(3) del_inv_leave_kernel
      by blast
  qed
  have exc: "c_handle_exception m w s = Some s' \<Longrightarrow> del_inv B s'" for w
    using ufl [of w 0] vm [of w] unfolding c_handle_exception_def by presburger
  have slow: "slowpath labels m call s = Some s' \<Longrightarrow> del_inv B s'" for call
    by (cases call; simp only: slowpath_def sum.case; (erule sys | erule unk))
  show ?thesis using assms(1)
    by (cases trap) (auto simp: kernel_entry_def intro: irq exc slow)
qed

section \<open>The running system\<close>

text \<open>
  A step of the system is an entry into the kernel, or user code that changes the registers of
  the current thread and user memory.
\<close>

inductive system_step :: "labels \<Rightarrow> kstate \<Rightarrow> kstate \<Rightarrow> bool" for labels where
  kernel: "kernel_entry labels m trap s = Some s' \<Longrightarrow> \<not> clears_memory (requested labels s) \<Longrightarrow> system_step labels s s'"
| user: "system_step labels s ((upd_tcb (ksCurThread s) (\<lambda>t. t\<lparr>tcbContext := regs\<rparr>) s)\<lparr>user_words := memory\<rparr>)"

inductive_cases system_stepE: "system_step labels s s'"

lemma mem_user_words [simp]: "mem_state (s\<lparr>user_words := w\<rparr>) = mem_state s"
  by (simp add: mem_state_def)

lemma del_inv_system_step:
  assumes "system_step labels s s'" "del_inv B s"
  shows "del_inv B s'"
  using assms by (auto elim!: system_stepE intro: del_inv_kernel_entry del_inv_keep [OF _ assms(2)])


definition example_labels :: labels where
  "example_labels w = (if w = 1 then CNodeDelete else TCBSuspend)"

definition example_machine :: machine where
  "example_machine = \<lparr>m_time = 1, m_env = \<lambda>_. (False, 1), m_irq = irqInvalid, m_stval = 0\<rparr>"

text \<open>The registers of a request to delete the capability with index 3 of the root CNode.\<close>

definition example_request :: kstate where
  "example_request = (upd_tcb example_thread (\<lambda>t. t\<lparr>tcbContext := (\<lambda>_. 0)(capRegister := 1,
     msgInfoRegister := push_bit 12 1 OR 2, msgRegisters ! 0 := 3, msgRegisters ! 1 := 64)\<rparr>) example_system)\<lparr>user_words := \<lambda>_. 0\<rparr>"

lemma example_deletion_run:
  "\<exists>s'. (system_step example_labels)\<^sup>*\<^sup>* example_system s' \<and> cap_at s' 0x20060 = cap_null_cap \<and> cap_at s' 0x20040 \<noteq> cap_null_cap"
proof -
  let ?r = "kernel_entry example_labels example_machine (Trap_Syscall (Inl SysSend)) example_request"
  have "map_option (\<lambda>s. (cap_at s 0x20060, cap_at s 0x20040)) ?r = Some (cap_null_cap, cap_endpoint_cap 0 True True True True 0x30000)"
    by code_simp
  then obtain s' where s': "?r = Some s'" "cap_at s' 0x20060 = cap_null_cap" "cap_at s' 0x20040 \<noteq> cap_null_cap" by auto
  have "\<not> clears_memory (requested example_labels example_request)" by code_simp
  with s'(1) have k: "system_step example_labels example_request s'" by (rule system_step.kernel)
  have "ksCurThread example_system = example_thread" by (simp add: example_system_def)
  then have "system_step example_labels example_system example_request"
    using system_step.user [of example_labels example_system] unfolding example_request_def by simp
  with k have "(system_step example_labels)\<^sup>*\<^sup>* example_system s'" by simp
  with s'(2,3) show ?thesis by blast
qed




end
