(* ===== verification/Spec2Isabelle.thy ===== *)
theory Spec2Isabelle
  imports Prelude Util Structures Sporadic SporadicBudget Links Caps CSpace SchedQueues ReadyQueues MDB Thread Message Domain Untyped
    SchedContext Reply Notification Endpoint IpcFrame WaitQueues IpcLinks IpcInv IpcQueues IpcOps IpcCancel IpcSteps SchedControl
    VMRoot VSpace Translation Delete TCBOps Interrupt Syscall MemFrame DeleteInv
    KernelFrame KernelCaps KernelIPC KernelInvoke KernelSpaces KernelThreads KernelEntry
begin

text \<open>
  A verification development for the seL4 microkernel (the C sources under
  \<^verbatim>\<open>src/src\<close> and \<^verbatim>\<open>src/include\<close>).

  \<^bold>\<open>The program.\<close> seL4 is a capability-based microkernel. User programs hold capabilities,
  stored in slots of CNodes; a system call names a capability by an address, which the
  kernel resolves through the CNode graph (\<^verbatim>\<open>src/kernel/cspace.c\<close>). Capabilities are
  copied, moved, derived and deleted (\<^verbatim>\<open>src/object/cnode.c\<close>, \<^verbatim>\<open>src/object/objecttype.c\<close>); the
  mapping database, a doubly linked list through all slots, records which capability was
  derived from which. New objects are retyped from untyped memory (\<^verbatim>\<open>src/object/untyped.c\<close>).
  Threads communicate by messages in registers and IPC buffers, through endpoints,
  notifications and reply objects (\<^verbatim>\<open>src/object/endpoint.c\<close>, \<^verbatim>\<open>src/object/notification.c\<close>,
  \<^verbatim>\<open>src/object/reply.c\<close>); they are scheduled by domain, priority and the budget of a
  scheduling context, a sporadic server with a ring buffer of refills, which a call may
  lend to the server (\<^verbatim>\<open>src/kernel/sporadic.c\<close>, \<^verbatim>\<open>src/kernel/thread.c\<close>,
  \<^verbatim>\<open>src/object/tcb.c\<close>, \<^verbatim>\<open>src/object/schedcontext.c\<close>). Page tables and address space
  identifiers give each thread its virtual memory (\<^verbatim>\<open>src/arch/riscv/kernel/vspace.c\<close>).
  Deleting the last capability to an object takes the object out of every structure that
  refers to it (\<^verbatim>\<open>src/object/cnode.c\<close>, \<open>finaliseCap\<close>). Traps enter the kernel
  (\<^verbatim>\<open>src/arch/riscv/c_traps.c\<close>); a system call (\<^verbatim>\<open>src/api/syscall.c\<close>) checks the budget of the caller,
  looks up the capability, dispatches on its type (\<open>decodeInvocation\<close>), and the entry ends with the
  scheduler.

  \<^bold>\<open>Configuration.\<close> The model is of the configuration \<^verbatim>\<open>RISCV64_MCS_verified\<close>: 64-bit RISC-V,
  the mixed-criticality scheduler, one core, no debug printing. There are 16 domains, a
  domain schedule of 100 entries, 256 priorities, and resets of untyped memory in chunks
  of 256 bytes. Assertions are compiled out, so they are no guards of the model; a call of
  \<^verbatim>\<open>fail\<close> halts the kernel and is \<^term>\<open>None\<close>. The preprocessor branches of other
  configurations are left out.

  \<^bold>\<open>The state.\<close> \<open>Structures\<close> holds the data model: bit-field blocks and structs as datatypes
  and records, with the field names of the source, and \<open>kstate\<close>, which has one store per
  object type and one field per global variable. Pointers are 64-bit words, null is zero.
  The packing of bit-field blocks into words is generated code and not modelled; the
  message info word, which user code also builds, is an exception. All machine
  arithmetic is on \<open>64 word\<close> and wraps as in C. A function that changes the state takes and
  returns it; loops whose end depends on the state use \<open>while_option\<close> or return an option,
  and their termination is proved, except for the loops of deletion and revocation, for which the
  theorems speak of every outcome. What an entry reads from the hardware is the record
  \<open>machine\<close>: the time, the interrupt line at preemption points, the active interrupt and the address of a
  fault. The numbers of invocation labels come from a header that the build generates; they are a
  parameter, \<open>labels\<close>.

  \<^bold>\<open>Theories\<close> and what their lemmas show:

  \<^item> \<open>Prelude\<close>: machine types, bit macros, generic lemmas on words, alignment and loops.
  \<^item> \<open>Util\<close> (\<^verbatim>\<open>src/util.c\<close>, \<^verbatim>\<open>include/util.h\<close>): memory routines, string comparison, number
    parsing, count-leading and count-trailing zeros. The bit tricks equal their
    specifications, the word-wise loops fill and copy exactly their range, and parsing
    reads printed numerals back.
  \<^item> \<open>Sporadic\<close>, \<open>SporadicBudget\<close> (\<^verbatim>\<open>src/kernel/sporadic.c\<close>): the refill ring buffer refines a
    list; charging and replenishing keep the total budget, the order of the refills and
    the minimum refill size, and all loops end. Round-robin contexts keep their time slice.
  \<^item> \<open>Links\<close>: doubly linked lists in a store, as a locale of a heap with two link fields,
    interpreted for scheduler queues, endpoint queues and the mapping database.
  \<^item> \<open>Caps\<close> (\<^verbatim>\<open>src/object/objecttype.c\<close> and its RISC-V part): rights masking, regions and
    sameness, capability data, zombies, object creation.
  \<^item> \<open>CSpace\<close> (\<^verbatim>\<open>src/kernel/cspace.c\<close>): address resolution, which refines a recursive
    specification on the address bits and ends on every graph.
  \<^item> \<open>MDB\<close> (\<^verbatim>\<open>src/object/cnode.c\<close>): insertion, move, swap and removal of capabilities
    against a list specification, the reachable-state invariant of the mapping database,
    derivation of capabilities.
  \<^item> \<open>SchedQueues\<close>, \<open>ReadyQueues\<close> (\<^verbatim>\<open>src/object/tcb.c\<close>, \<^verbatim>\<open>include/object/tcb.h\<close>): ready queues
    with their two-level bitmap, the release queue and endpoint queues against lists per
    priority.
  \<^item> \<open>Thread\<close> (\<^verbatim>\<open>src/kernel/thread.c\<close>, \<^verbatim>\<open>include/object/domain.h\<close>): the scheduler. It chooses a
    schedulable thread of the highest priority in the current domain, wakes every thread whose
    budget is ready, and programs the earliest event.
  \<^item> \<open>Message\<close> (\<^verbatim>\<open>src/object/tcb.c\<close>, \<^verbatim>\<open>src/kernel/thread.c\<close>): message registers, IPC buffers,
    extra capabilities and the transfer of a message.
  \<^item> \<open>Domain\<close> (\<^verbatim>\<open>src/object/domain.c\<close>): the domain invocations keep a valid schedule.
  \<^item> \<open>Untyped\<close> (\<^verbatim>\<open>src/object/untyped.c\<close>, \<^verbatim>\<open>src/model/preemption.c\<close>): the reset of untyped
    memory with preemption ends and clears exactly the chunks in use, and retyping hands out fresh, aligned memory.
  \<^item> \<open>SchedContext\<close>, \<open>SchedControl\<close> (\<^verbatim>\<open>src/object/schedcontext.c\<close>, \<^verbatim>\<open>src/object/schedcontrol.c\<close>):
    binding, donation, yielding and configuration of scheduling contexts; the parameters a
    configuration admits are within the bounds the refill operations need, and the refills it sets satisfy
    their invariant.
  \<^item> \<open>Reply\<close>, \<open>Notification\<close>, \<open>Endpoint\<close> (\<^verbatim>\<open>src/object/reply.c\<close>, \<^verbatim>\<open>src/object/notification.c\<close>,
    \<^verbatim>\<open>src/object/endpoint.c\<close>, \<^verbatim>\<open>src/api/faults.c\<close>, \<^verbatim>\<open>src/kernel/faulthandler.c\<close>): the operations of
    communication, replies and faults.
  \<^item> \<open>IpcFrame\<close>, \<open>WaitQueues\<close>, \<open>IpcLinks\<close>, \<open>IpcInv\<close>, \<open>IpcQueues\<close>, \<open>IpcOps\<close>, \<open>IpcCancel\<close>: what these
    operations leave alone, the invariant of the wait queues and of the pairs of references
    between objects, and that each operation keeps it.
  \<^item> \<open>IpcSteps\<close>: the step relation of communication and the invariant of its reachable states;
    deletion wakes every waiter, and call and reply restore the references.
  \<^item> \<open>VMRoot\<close>, \<open>VSpace\<close> (\<^verbatim>\<open>src/arch/riscv/kernel/vspace.c\<close>): page tables, address space identifiers,
    the address space register and the invocations that change them. Page table entries are
    records in a store; the caches that \<^verbatim>\<open>sfence\<close> flushes are not modelled.
  \<^item> \<open>Translation\<close>: the hardware walk of the Sv39 specification. The lookup of the kernel agrees with
    it; when the user tables of the address spaces are separate, mapping and unmapping change exactly the translations
    they name. The tables of the kernel's part may be shared, as the kernel sets them up.
  \<^item> \<open>Delete\<close> (\<^verbatim>\<open>src/object/cnode.c\<close>, \<^verbatim>\<open>src/object/objecttype.c\<close>): deletion and revocation of
    capabilities with zombies and preemption, and the invocations of CNodes.
  \<^item> \<open>TCBOps\<close> (\<^verbatim>\<open>src/object/tcb.c\<close>): the invocations of thread capabilities: registers, priorities and
    scheduling parameters, the capabilities a thread holds, bound notifications, TLS base and flags.
  \<^item> \<open>Interrupt\<close> (\<^verbatim>\<open>src/object/interrupt.c\<close> and its RISC-V part): issuing handler capabilities, attaching
    notifications to lines, and the handling of an interrupt.
  \<^item> \<open>Syscall\<close> (\<^verbatim>\<open>src/api/syscall.c\<close>, \<^verbatim>\<open>src/arch/riscv/c_traps.c\<close>): the dispatch of invocations, all system calls of
    the configuration, faults and interrupts, and \<open>kernel_entry\<close>, the function from the state at a
    trap to the state at the return to user code.
  \<^item> \<open>MemFrame\<close>, \<open>KernelFrame\<close>: operations on threads, queues, messages and time leave capabilities, page tables
    and priorities alone.
  \<^item> \<open>DeleteInv\<close>: deletion and revocation keep the derivation chains, the well-formedness of capabilities
    and the address space register valid on every outcome; a complete deletion empties the slot, and
    after a complete revocation the slot is not followed by a child.
  \<^item> \<open>KernelCaps\<close>, \<open>KernelIPC\<close>, \<open>KernelInvoke\<close>, \<open>KernelSpaces\<close>, \<open>KernelThreads\<close>: the same invariant, with a bound on
    priorities, for lookups and transfers of capabilities, messages, faults and time, and
    the invocations of CNodes, interrupts, virtual memory and threads. \<open>KernelSpaces\<close> also shows that the handler of an
    interrupt line is issued at most once while it is in use.
  \<^item> \<open>KernelEntry\<close>: the system as a step relation of kernel entries and user code. No entry that does not
    clear memory breaks the capability system or raises a priority above the bound.
    Retyping, creating an ASID pool and unmapping a page table clear memory; that they clear no
    slot in use depends on the separation of objects, which the invariant does not state.

  \<^bold>\<open>Not modelled.\<close> Booting (\<^verbatim>\<open>src/kernel/boot.c\<close>) and the page tables it builds, hardware
  registers, caches, drivers and interrupt controllers, whose effect is outside the C state;
  other architectures and multicore; debugging and benchmarking code. The fast path (\<^verbatim>\<open>src/fastpath/fastpath.c\<close>) is an
  optimisation of calls, replies and signals; in the model every system call takes the slow path.
\<close>

end
